(* ===== verification/Prelude.thy ===== *)
theory Prelude
  imports Main "HOL-Library.Char_ord" "HOL-Library.List_Lexorder" "HOL-Library.Sublist"
begin

text \<open>
  Shared vocabulary of the development: the result and program types that stand for
  Rust's \<open>Result\<close> and for methods that take \<open>&mut self\<close>, byte strings, the two map
  containers of the standard library that the code uses (\<open>HashMap\<close> and \<open>BTreeMap\<close>)
  with the interface both of them satisfy, and generic lemmas on lists.
\<close>

section \<open>Results and programs\<close>

text \<open>
  \<open>Result<T, E>\<close> is \<open>'e + 'a\<close> with the error on the left. A method that may change its
  receiver and may fail is a function from the receiver to a result and the receiver
  afterwards; the receiver is returned on the error path too, since Rust keeps what was
  written before the error.
\<close>

type_synonym ('s, 'e, 'a) prog = "'s \<Rightarrow> ('e + 'a) \<times> 's"

named_theorems prog_simps \<open>unfolding of the program combinators\<close>

definition ret :: "'a \<Rightarrow> ('s, 'e, 'a) prog" where
  [prog_simps]: "ret x = (\<lambda>s. (Inr x, s))"

definition raise :: "'e \<Rightarrow> ('s, 'e, 'a) prog" where
  [prog_simps]: "raise e = (\<lambda>s. (Inl e, s))"

text \<open>Sequencing with the early return of the \<open>?\<close> operator.\<close>

definition andThen :: "('s, 'e, 'a) prog \<Rightarrow> ('a \<Rightarrow> ('s, 'e, 'b) prog) \<Rightarrow> ('s, 'e, 'b) prog" where
  "andThen m f = (\<lambda>s. case m s of (Inl e, s') \<Rightarrow> (Inl e, s') | (Inr x, s') \<Rightarrow> f x s')"

text \<open>A pure result used inside a program.\<close>

definition lift :: "'e + 'a \<Rightarrow> ('s, 'e, 'a) prog" where
  [prog_simps]: "lift r = (\<lambda>s. (r, s))"

text \<open>\<open>if !cond { bail!(e) }\<close>.\<close>

definition ensure :: "bool \<Rightarrow> 'e \<Rightarrow> 'e + unit" where
  "ensure b e = (if b then Inr () else Inl e)"

text \<open>\<open>opt.ok_or(e)?\<close> and \<open>with_context\<close> on an option.\<close>

definition ok_or :: "'a option \<Rightarrow> 'e \<Rightarrow> 'e + 'a" where
  "ok_or x e = (case x of None \<Rightarrow> Inl e | Some y \<Rightarrow> Inr y)"

definition bind_result :: "'e + 'a \<Rightarrow> ('a \<Rightarrow> 'e + 'b) \<Rightarrow> 'e + 'b" where
  "bind_result r f = (case r of Inl e \<Rightarrow> Inl e | Inr x \<Rightarrow> f x)"

lemma bind_result_simps [simp]:
  "bind_result (Inl e) f = Inl e"
  "bind_result (Inr x) f = f x"
  by (simp_all add: bind_result_def)

lemma bind_result_Inr_iff:
  "bind_result r f = Inr y \<longleftrightarrow> (\<exists>x. r = Inr x \<and> f x = Inr y)"
  by (cases r) simp_all

lemma ensure_Inr_iff [simp]: "ensure b e = Inr u \<longleftrightarrow> b"
  by (simp add: ensure_def)

lemma ensure_Inl_iff [simp]: "ensure b e = Inl e' \<longleftrightarrow> \<not> b \<and> e' = e"
  by (auto simp: ensure_def)

lemma ensure_simps [simp]: "ensure True e = Inr ()" "ensure False e = Inl e"
  by (simp_all add: ensure_def)

lemma ok_or_simps [simp]: "ok_or None e = Inl e" "ok_or (Some x) e = Inr x"
  by (simp_all add: ok_or_def)

lemma ok_or_Inr_iff [simp]: "ok_or x e = Inr y \<longleftrightarrow> x = Some y"
  by (cases x) simp_all

lemma andThen_Inr_iff:
  "andThen m f s = (Inr y, s') \<longleftrightarrow> (\<exists>x s1. m s = (Inr x, s1) \<and> f x s1 = (Inr y, s'))"
  by (auto simp: andThen_def split: prod.splits sum.splits)

lemma andThen_Inl_iff:
  "andThen m f s = (Inl e, s') \<longleftrightarrow>
     m s = (Inl e, s') \<or> (\<exists>x s1. m s = (Inr x, s1) \<and> f x s1 = (Inl e, s'))"
  by (auto simp: andThen_def split: prod.splits sum.splits)

lemma andThen_lift [simp]:
  "andThen (lift (Inl e)) f = raise e"
  "andThen (lift (Inr x)) f = f x"
  by (auto simp: andThen_def lift_def raise_def)

lemma andThen_run:
  "m s = (Inr x, s1) \<Longrightarrow> andThen m f s = f x s1"
  "m s = (Inl e, s1) \<Longrightarrow> andThen m f s = (Inl e, s1)"
  by (simp_all add: andThen_def)

lemma ret_iff [simp]: "ret x s = (r, s') \<longleftrightarrow> r = Inr x \<and> s' = s"
  by (auto simp: ret_def)

lemma raise_iff [simp]: "raise e s = (r, s') \<longleftrightarrow> r = Inl e \<and> s' = s"
  by (auto simp: raise_def)

lemma lift_iff [simp]: "lift r s = (r', s') \<longleftrightarrow> r' = r \<and> s' = s"
  by (auto simp: lift_def)

definition is_ok :: "'e + 'a \<Rightarrow> bool" where
  "is_ok r = (case r of Inl _ \<Rightarrow> False | Inr _ \<Rightarrow> True)"

lemma is_ok_simps [simp]: "is_ok (Inr x)" "\<not> is_ok (Inl e)"
  by (simp_all add: is_ok_def)

section \<open>Byte strings\<close>

text \<open>
  A Rust \<open>String\<close> is a sequence of UTF-8 bytes and \<open>len\<close> counts bytes; an Isabelle
  \<open>char\<close> is a byte, so \<open>string\<close> is the model of \<open>String\<close>. Slicing \<open>&s[..n]\<close> panics
  unless \<open>n\<close> is on a character boundary: at the start, at the end, or before a byte that
  is not a continuation byte (\<open>0b10xxxxxx\<close>).
\<close>

definition is_continuation :: "char \<Rightarrow> bool" where
  "is_continuation c = (128 \<le> (of_char c :: nat) \<and> (of_char c :: nat) < 192)"

definition is_char_boundary :: "string \<Rightarrow> nat \<Rightarrow> bool" where
  "is_char_boundary s n =
     (if n = 0 \<or> n = length s then True else n < length s \<and> \<not> is_continuation (s ! n))"

text \<open>\<open>None\<close> is the panic.\<close>

definition slice_to :: "string \<Rightarrow> nat \<Rightarrow> string option" where
  "slice_to s n = (if is_char_boundary s n then Some (take n s) else None)"

fun starts_with :: "string \<Rightarrow> string \<Rightarrow> bool" where
  "starts_with s [] = True"
| "starts_with [] (p # ps) = False"
| "starts_with (c # s) (p # ps) = (c = p \<and> starts_with s ps)"

fun contains_str :: "string \<Rightarrow> string \<Rightarrow> bool" where
  "contains_str [] p = (p = [])"
| "contains_str (c # s) p = (starts_with (c # s) p \<or> contains_str s p)"

definition ascii_lower :: "char \<Rightarrow> char" where
  "ascii_lower c =
     (let n = (of_char c :: nat) in if 65 \<le> n \<and> n \<le> 90 then char_of (n + 32) else c)"

definition to_ascii_lowercase :: "string \<Rightarrow> string" where
  "to_ascii_lowercase = map ascii_lower"

definition is_ascii_alphanumeric :: "char \<Rightarrow> bool" where
  "is_ascii_alphanumeric c \<longleftrightarrow>
     (let b = (of_char c :: nat) in 48 \<le> b \<and> b \<le> 57 \<or> 65 \<le> b \<and> b \<le> 90 \<or> 97 \<le> b \<and> b \<le> 122)"

text \<open>The decimal digits of a number, as \<open>Display\<close> prints it.\<close>

fun decimal :: "nat \<Rightarrow> string" where
  "decimal n = (if n < 10 then [char_of (48 + n)] else decimal (n div 10) @ [char_of (48 + n mod 10)])"

declare decimal.simps [simp del]

fun join_with :: "string \<Rightarrow> string list \<Rightarrow> string" where
  "join_with sep [] = []"
| "join_with sep [x] = x"
| "join_with sep (x # xs) = x @ sep @ join_with sep xs"

lemma starts_with_prefix: "starts_with s p \<longleftrightarrow> prefix p s"
  by (induction s p rule: starts_with.induct) (auto simp: prefix_def)

lemma contains_str_sublist: "contains_str s p \<longleftrightarrow> sublist p s"
proof (induction s)
  case Nil
  then show ?case by (auto simp: sublist_def)
next
  case (Cons c s)
  then show ?case
    by (auto simp: starts_with_prefix sublist_Cons_right)
qed

section \<open>Hash maps and ordered maps\<close>

text \<open>
  Both are association lists. A \<open>HashMap\<close> is kept in insertion order; its iteration order
  is not specified by the standard library, and an operation that iterates takes the
  iteration order as a permutation parameter. A \<open>BTreeMap\<close> is kept sorted by key, which
  is the order its iterators use.
\<close>

type_synonym ('k, 'v) hmap = "('k \<times> 'v) list"

definition m_get :: "('k, 'v) hmap \<Rightarrow> 'k \<Rightarrow> 'v option" where
  "m_get m k = map_of m k"

definition m_contains :: "('k, 'v) hmap \<Rightarrow> 'k \<Rightarrow> bool" where
  "m_contains m k = (m_get m k \<noteq> None)"

definition m_values :: "('k, 'v) hmap \<Rightarrow> 'v list" where
  "m_values m = map snd m"

definition m_keys :: "('k, 'v) hmap \<Rightarrow> 'k list" where
  "m_keys m = map fst m"

fun hm_put :: "'k \<Rightarrow> 'v \<Rightarrow> ('k, 'v) hmap \<Rightarrow> ('k, 'v) hmap" where
  "hm_put k v [] = [(k, v)]"
| "hm_put k v ((k', v') # m) = (if k = k' then (k, v) # m else (k', v') # hm_put k v m)"

fun bt_put :: "'k::linorder \<Rightarrow> 'v \<Rightarrow> ('k, 'v) hmap \<Rightarrow> ('k, 'v) hmap" where
  "bt_put k v [] = [(k, v)]"
| "bt_put k v ((k', v') # m) =
     (if k = k' then (k, v) # m
      else if k < k' then (k, v) # (k', v') # m
      else (k', v') # bt_put k v m)"

definition m_remove :: "'k \<Rightarrow> ('k, 'v) hmap \<Rightarrow> ('k, 'v) hmap" where
  "m_remove k m = filter (\<lambda>p. fst p \<noteq> k) m"

text \<open>\<open>if let Some(v) = m.get_mut(k) { *v = f(v) }\<close>.\<close>

fun m_modify :: "'k \<Rightarrow> ('v \<Rightarrow> 'v) \<Rightarrow> ('k, 'v) hmap \<Rightarrow> ('k, 'v) hmap" where
  "m_modify k f [] = []"
| "m_modify k f ((k', v) # m) = (if k = k' then (k', f v) # m else (k', v) # m_modify k f m)"

text \<open>Keys are unique in a hash map and strictly increasing in an ordered map.\<close>

definition hm_inv :: "('k, 'v) hmap \<Rightarrow> bool" where
  "hm_inv m = distinct (map fst m)"

definition bt_inv :: "('k::linorder, 'v) hmap \<Rightarrow> bool" where
  "bt_inv m = sorted_wrt (<) (map fst m)"

named_theorems map_laws \<open>lookup after an update of a container\<close>

lemma m_get_Nil [simp]: "m_get [] k = None"
  by (simp add: m_get_def)

lemma m_get_Cons: "m_get ((k', v) # m) k = (if k' = k then Some v else m_get m k)"
  by (simp add: m_get_def)

lemma m_get_hm_put [simp, map_laws]:
  "m_get (hm_put k v m) k' = (if k = k' then Some v else m_get m k')"
  by (induction m) (auto simp: m_get_def)

lemma m_get_bt_put [simp, map_laws]:
  "m_get (bt_put k v m) k' = (if k = k' then Some v else m_get m k')"
  by (induction m) (auto simp: m_get_def)

lemma m_get_remove [simp, map_laws]:
  "m_get (m_remove k m) k' = (if k = k' then None else m_get m k')"
  by (induction m) (auto simp: m_get_def m_remove_def)

lemma m_get_modify [simp, map_laws]:
  "m_get (m_modify k f m) k' = (if k = k' then map_option f (m_get m k') else m_get m k')"
  by (induction m) (auto simp: m_get_def)

lemma m_contains_iff: "m_contains m k \<longleftrightarrow> k \<in> set (m_keys m)"
  by (auto simp: m_contains_def m_get_def m_keys_def map_of_eq_None_iff)

lemma m_contains_hm_put [simp, map_laws]:
  "m_contains (hm_put k v m) k' \<longleftrightarrow> k = k' \<or> m_contains m k'"
  by (auto simp: m_contains_def)

lemma m_contains_bt_put [simp, map_laws]:
  "m_contains (bt_put k v m) k' \<longleftrightarrow> k = k' \<or> m_contains m k'"
  by (auto simp: m_contains_def)

lemma m_contains_remove [simp, map_laws]:
  "m_contains (m_remove k m) k' \<longleftrightarrow> k \<noteq> k' \<and> m_contains m k'"
  by (auto simp: m_contains_def)

lemma m_contains_modify [simp, map_laws]:
  "m_contains (m_modify k f m) k' \<longleftrightarrow> m_contains m k'"
  by (auto simp: m_contains_def)

lemma m_contains_Nil [simp]: "\<not> m_contains [] k"
  by (simp add: m_contains_def)

lemma keys_hm_put [simp]: "fst ` set (hm_put k v m) = insert k (fst ` set m)"
  by (induction k v m rule: hm_put.induct) auto

lemma keys_bt_put [simp]: "fst ` set (bt_put k v m) = insert k (fst ` set m)"
  by (induction k v m rule: bt_put.induct) auto

lemma keys_modify [simp]: "map fst (m_modify k f m) = map fst m"
  by (induction m) auto

lemma hm_inv_put [simp]: "hm_inv m \<Longrightarrow> hm_inv (hm_put k v m)"
  by (induction k v m rule: hm_put.induct) (auto simp: hm_inv_def)

lemma hm_inv_remove [simp]: "hm_inv m \<Longrightarrow> hm_inv (m_remove k m)"
  by (simp add: hm_inv_def m_remove_def distinct_map_filter)

lemma hm_inv_modify [simp]: "hm_inv (m_modify k f m) = hm_inv m"
  by (simp add: hm_inv_def)

lemma bt_inv_put [simp]: "bt_inv m \<Longrightarrow> bt_inv (bt_put k v m)"
proof (induction k v m rule: bt_put.induct)
  case (1 k v)
  then show ?case by (simp add: bt_inv_def)
next
  case (2 k v k' v' m)
  then have m: "bt_inv m" and lt: "\<And>x. x \<in> fst ` set m \<Longrightarrow> k' < x"
    by (auto simp: bt_inv_def)
  show ?case
  proof (cases "k' < k")
    case True
    with 2 m have "bt_inv (bt_put k v m)" by simp
    with True lt show ?thesis by (auto simp: bt_inv_def dest: less_asym)
  next
    case False
    then consider "k = k'" | "k < k'" by force
    then show ?thesis
      by cases (use "2.prems" lt in \<open>force simp: bt_inv_def\<close>)+
  qed
qed

lemma bt_inv_remove [simp]: "bt_inv m \<Longrightarrow> bt_inv (m_remove k m)"
  by (induction m) (auto simp: bt_inv_def m_remove_def)

lemma bt_inv_modify [simp]: "bt_inv (m_modify k f m) = bt_inv m"
  by (simp add: bt_inv_def)

lemma bt_inv_hm_inv: "bt_inv m \<Longrightarrow> hm_inv m"
  by (induction m) (auto simp: bt_inv_def hm_inv_def)

lemma inv_Nil [simp]: "hm_inv []" "bt_inv []"
  by (simp_all add: hm_inv_def bt_inv_def)

lemma m_get_in_set: "m_get m k = Some v \<Longrightarrow> (k, v) \<in> set m"
  by (simp add: m_get_def map_of_SomeD)

lemma m_get_values: "m_get m k = Some v \<Longrightarrow> v \<in> set (m_values m)"
  by (force simp: m_values_def dest: m_get_in_set)

lemma in_set_m_get: "hm_inv m \<Longrightarrow> (k, v) \<in> set m \<Longrightarrow> m_get m k = Some v"
  by (simp add: hm_inv_def m_get_def)

lemma m_values_get:
  assumes inv: "hm_inv m"
  shows "v \<in> set (m_values m) \<longleftrightarrow> (\<exists>k. m_get m k = Some v)"
proof
  assume "v \<in> set (m_values m)"
  then obtain k where "(k, v) \<in> set m" by (auto simp: m_values_def)
  with inv show "\<exists>k. m_get m k = Some v" by (blast intro: in_set_m_get)
qed (auto dest: m_get_values)

text \<open>Replacing an entry of an ordered map in place.\<close>

lemma bt_put_mid:
  assumes "bt_inv (xs @ (k, r) # ys)"
  shows "bt_put k w (xs @ (k, r) # ys) = xs @ (k, w) # ys" and "m_get (xs @ (k, r) # ys) k = Some r"
proof -
  show "bt_put k w (xs @ (k, r) # ys) = xs @ (k, w) # ys"
    using assms
  proof (induction xs)
    case (Cons p xs)
    then have "fst p < k" by (auto simp: bt_inv_def)
    with Cons show ?case by (cases p) (auto simp: bt_inv_def)
  qed simp
  show "m_get (xs @ (k, r) # ys) k = Some r"
    by (rule in_set_m_get [OF bt_inv_hm_inv [OF assms]]) simp
qed

text \<open>The interface of a keyed container, provided by both models.\<close>

locale keyed_map =
  fixes get :: "'m \<Rightarrow> 'k \<Rightarrow> 'v option"
    and put :: "'k \<Rightarrow> 'v \<Rightarrow> 'm \<Rightarrow> 'm"
    and inv :: "'m \<Rightarrow> bool"
    and empty :: 'm
  assumes get_empty: "get empty k = None"
    and get_put: "get (put k v m) k' = (if k = k' then Some v else get m k')"
    and inv_empty: "inv empty"
    and inv_put: "inv m \<Longrightarrow> inv (put k v m)"
begin

text \<open>Replaying a log of key/value records: the last record of a key is the one found.\<close>

lemma get_replay:
  "get (fold (\<lambda>(k, v). put k v) rs m) k =
     (case map_of (rev rs) k of None \<Rightarrow> get m k | Some v \<Rightarrow> Some v)"
proof (induction rs arbitrary: m)
  case Nil
  then show ?case by simp
next
  case (Cons p rs)
  then show ?case
    by (cases p) (auto simp: get_put map_add_def split: option.splits)
qed

lemma inv_replay: "inv m \<Longrightarrow> inv (fold (\<lambda>(k, v). put k v) rs m)"
  by (induction rs arbitrary: m) (auto simp: inv_put)

end

interpretation hmap: keyed_map m_get hm_put hm_inv "[]"
  by unfold_locales auto

interpretation btree: keyed_map m_get bt_put bt_inv "[]"
  by unfold_locales auto

text \<open>
  Two sorted maps with the same lookups are the same list: an ordered map is determined
  by its contents.
\<close>

lemma bt_inv_eqI:
  assumes "bt_inv m" and "bt_inv n" and "\<And>k. m_get m k = m_get n k"
  shows "m = n"
proof -
  have d: "distinct (map fst m)" "distinct (map fst n)"
    using assms(1,2) bt_inv_hm_inv by (auto simp: hm_inv_def)
  have "set m = set n"
  proof (rule set_eqI)
    fix p
    show "p \<in> set m \<longleftrightarrow> p \<in> set n"
      using assms(3) [of "fst p"] map_of_eq_Some_iff [OF d(1), of "fst p" "snd p"]
        map_of_eq_Some_iff [OF d(2), of "fst p" "snd p"]
      by (simp add: m_get_def)
  qed
  moreover have "sorted (map fst m)" "sorted (map fst n)"
    using assms(1,2) by (simp_all add: bt_inv_def strict_sorted_iff)
  moreover have "inj_on fst (set m \<union> set n)"
    using d \<open>set m = set n\<close> by (simp add: distinct_map)
  ultimately show ?thesis
    using d map_sorted_distinct_set_unique [of fst m n] by blast
qed

section \<open>Lists\<close>

text \<open>The last \<open>n\<close> elements, \<open>xs[xs.len() - n ..]\<close> when there are more than \<open>n\<close>.\<close>

definition last_n :: "nat \<Rightarrow> 'a list \<Rightarrow> 'a list" where
  "last_n n xs = (if n < length xs then drop (length xs - n) xs else xs)"

lemma length_last_n [simp]: "length (last_n n xs) = min n (length xs)"
  by (simp add: last_n_def)

lemma suffix_last_n: "suffix (last_n n xs) xs"
  by (simp add: last_n_def suffix_drop)

lemma set_last_n_subset: "set (last_n n xs) \<subseteq> set xs"
  by (meson set_mono_suffix suffix_last_n)

text \<open>\<open>iter_mut().find(p)\<close> followed by an assignment: the first match is updated.\<close>

fun update_first :: "('a \<Rightarrow> bool) \<Rightarrow> ('a \<Rightarrow> 'a) \<Rightarrow> 'a list \<Rightarrow> 'a list" where
  "update_first p f [] = []"
| "update_first p f (x # xs) = (if p x then f x # xs else x # update_first p f xs)"

lemma length_update_first [simp]: "length (update_first p f xs) = length xs"
  by (induction xs) auto

lemma map_update_first: "(\<And>x. g (f x) = g x) \<Longrightarrow> map g (update_first p f xs) = map g xs"
  by (induction xs) auto

lemma update_first_id: "\<forall>x \<in> set xs. \<not> p x \<Longrightarrow> update_first p f xs = xs"
  by (induction xs) auto

lemma set_update_first: "x \<in> set (update_first p f xs) \<Longrightarrow> x \<in> set xs \<or> (\<exists>y \<in> set xs. p y \<and> x = f y)"
  by (induction xs) (auto split: if_splits)

lemma update_first_append:
  "\<forall>x \<in> set xs. \<not> p x \<Longrightarrow> update_first p f (xs @ ys) = xs @ update_first p f ys"
  by (induction xs) auto

lemma find_append:
  "\<forall>x \<in> set xs. \<not> p x \<Longrightarrow> find p (xs @ ys) = find p ys"
  by (induction xs) auto

lemma find_append_Some: "find p xs = Some x \<Longrightarrow> find p (xs @ ys) = Some x"
  by (induction xs) (auto split: if_splits)

end
