(* ===== verification/Core_Types.thy ===== *)
theory Core_Types
  imports Prelude
begin

text \<open>
  The data of the core crates: identifiers, participants, messages, sessions and the
  conversation event vocabulary (\<open>conversation-core\<close>), action requests and results
  (\<open>action-core\<close>), and the descriptors of entities, artifacts, surfaces and assets
  (\<open>entity-core\<close>, \<open>artifact-core\<close>, \<open>surface-core\<close>, \<open>asset-core\<close>).

  Conventions: a newtype around \<open>String\<close> is a one-constructor datatype; a
  \<open>DateTime<Utc>\<close> is an integer number of nanoseconds since the epoch; a
  \<open>serde_json::Value\<close> is the enum of the same constructors, an object being its entries
  in iteration order and a number its textual form, which no code here looks into.
\<close>

section \<open>Identifiers and foreign values\<close>

type_synonym datetime = int

datatype (plugins only: code size) json =
    JNull
  | JBool bool
  | JNumber string
  | JString string
  | JArray "json list"
  | JObject "(string \<times> json) list"

datatype (plugins only: code size) conversation_id = ConversationId string
datatype (plugins only: code size) event_id = EventId string
datatype (plugins only: code size) message_id = MessageId string
datatype (plugins only: code size) participant_id = ParticipantId string
datatype (plugins only: code size) thread_id = ThreadId string
datatype (plugins only: code size) action_id = ActionId string
datatype (plugins only: code size) action_kind = ActionKind string
datatype (plugins only: code size) entity_id = EntityId string
datatype (plugins only: code size) artifact_id = ArtifactId string
datatype (plugins only: code size) surface_id = SurfaceId string
datatype (plugins only: code size) asset_id = AssetId string

section \<open>Participants, visibility, messages, sessions\<close>

datatype (plugins only: code size) participant_kind = Human | Agent | System | Integration

record participant =
  p_id :: participant_id
  p_kind :: participant_kind
  p_display_name :: string

definition is_foreground :: "participant_kind \<Rightarrow> bool" where
  "is_foreground k = (case k of Human \<Rightarrow> True | Agent \<Rightarrow> True | _ \<Rightarrow> False)"

datatype (plugins only: code size) visibility =
    VisConversation
  | PrivateToUser participant_id
  | AgentOnly
  | Participants "participant_id list"

record suggested_action =
  sa_id :: string
  sa_label :: string
  sa_action_type :: string

datatype (plugins only: code size) message_content =
    Text string
  | SystemNotice string
  | AgentSuggestion string "suggested_action list"

record message =
  msg_id :: message_id
  msg_conversation_id :: conversation_id
  msg_sender_id :: participant_id
  msg_content :: message_content
  msg_reply_to :: "message_id option"
  msg_thread_id :: "thread_id option"
  msg_visibility :: visibility
  msg_created_at :: datetime
  msg_edited_at :: "datetime option"

datatype (plugins only: code size) conversation_kind = Direct | Group | AgentTask | Mixed

datatype (plugins only: code size) conversation_status = Active | Archived

record conversation_session =
  ses_id :: conversation_id
  ses_kind :: conversation_kind
  ses_title :: "string option"
  ses_participants :: "participant_id list"
  ses_created_at :: datetime
  ses_updated_at :: datetime
  ses_status :: conversation_status

section \<open>Actions\<close>

datatype (plugins only: code size) side_effect_kind =
    NoEffect
  | ReadOnly
  | RuntimeStateMutation
  | FileSystemMutation
  | NetworkAccess
  | ExternalSystemMutation
  | UiSideEffect
  | DeviceControl
  | SensitiveProfileMutation

datatype (plugins only: code size) action_status =
    StPending | StApprovalRequired | StRunning | StCompleted | StFailed | StDenied | StCancelled

datatype (plugins only: code size) action_result_payload =
    PText string
  | PJson json
  | PArtifactRef artifact_id
  | PEmpty

record action_result =
  res_status :: action_status
  res_payload :: action_result_payload
  res_summary :: string
  res_completed_at :: datetime

record action_request =
  req_action_id :: action_id
  req_action_kind :: action_kind
  req_input :: json
  req_requested_by :: string
  req_conversation_id :: "string option"
  req_message_id :: "string option"
  req_requested_at :: datetime

record action_schema =
  sch_kind :: action_kind
  sch_display_name :: string
  sch_description :: string
  sch_side_effect :: side_effect_kind
  sch_input_schema :: "json option"
  sch_output_schema :: "json option"

text \<open>The life cycle of an action inside a conversation.\<close>

datatype (plugins only: code size) conversation_action_status =
    ActRequested | ActApprovalRequired | ActApproved | ActDenied
  | ActStarted | ActCompleted | ActFailed

definition act_is_terminal :: "conversation_action_status \<Rightarrow> bool" where
  "act_is_terminal s =
     (case s of ActDenied \<Rightarrow> True | ActCompleted \<Rightarrow> True | ActFailed \<Rightarrow> True | _ \<Rightarrow> False)"

record conversation_action_state =
  ca_action_id :: action_id
  ca_action_kind :: action_kind
  ca_status :: conversation_action_status
  ca_request :: "action_request option"
  ca_approved_by :: "participant_id option"
  ca_denial_reason :: "string option"
  ca_approval_required_reason :: "string option"
  ca_result :: "action_result option"
  ca_error_message :: "string option"

definition action_state_requested :: "action_request \<Rightarrow> conversation_action_state" where
  "action_state_requested request =
     \<lparr>ca_action_id = req_action_id request, ca_action_kind = req_action_kind request,
      ca_status = ActRequested, ca_request = Some request, ca_approved_by = None,
      ca_denial_reason = None, ca_approval_required_reason = None, ca_result = None,
      ca_error_message = None\<rparr>"

section \<open>Agent runs of a conversation\<close>

datatype (plugins only: code size) agent_run_status =
    RunRequested | RunStarted | RunCompleted | RunFailed | RunCancelled | RunTimedOut

record agent_run_state =
  run_id :: string
  run_trigger_message_id :: message_id
  run_context_slice_id :: string
  run_status :: agent_run_status
  run_output_message_id :: "message_id option"
  run_error_code :: "string option"
  run_error_message :: "string option"
  run_cancel_reason :: "string option"

definition run_state_requested :: "string \<Rightarrow> message_id \<Rightarrow> string \<Rightarrow> agent_run_state" where
  "run_state_requested rid trigger slice =
     \<lparr>run_id = rid, run_trigger_message_id = trigger, run_context_slice_id = slice,
      run_status = RunRequested, run_output_message_id = None, run_error_code = None,
      run_error_message = None, run_cancel_reason = None\<rparr>"

section \<open>Entities, artifacts, surfaces, assets\<close>

datatype (plugins only: code size) entity_kind =
    EBrowser | EMail | EKnowledge | EReminder | EPerson | EDevice | EPlugin
  | EExternalService | ESystem

record entity_capability =
  cap_name :: string
  cap_description :: "string option"

record entity_descriptor =
  ent_id :: entity_id
  ent_kind :: entity_kind
  ent_display_name :: string
  ent_capabilities :: "entity_capability list"
  ent_default_policy_ref :: "string option"

definition entity_descriptor_new :: "entity_id \<Rightarrow> entity_kind \<Rightarrow> string \<Rightarrow> entity_descriptor" where
  "entity_descriptor_new i k name =
     \<lparr>ent_id = i, ent_kind = k, ent_display_name = name, ent_capabilities = [],
      ent_default_policy_ref = None\<rparr>"

datatype (plugins only: code size) link_reason = UserRequested | AssistantSuggested | SystemDefault | ContextDetected

datatype (plugins only: code size) artifact_kind =
    WebPage | ExtractedText | Email | Document | Image | Pdf | ToolResult | KnowledgeDraft
  | ActionResult

record artifact_descriptor =
  art_id :: artifact_id
  art_kind :: artifact_kind
  art_title :: "string option"
  art_source_uri :: "string option"
  art_mime_type :: "string option"
  art_metadata :: json
  art_created_at :: datetime

datatype (plugins only: code size) surface_kind =
    WebSurface | MailSurface | DocumentSurface | ImageSurface | KnowledgeEntrySurface
  | ApprovalSurface | AuditSurface

datatype (plugins only: code size) surface_lifecycle_status = SurfAttached | SurfUpdated | SurfClosed

datatype (plugins only: code size) surface_renderer_hint =
    RMarkdown | RHtml | RPlainText | RImage | RPdf | RTable | RForm | RTimeline | RCustom string

record surface_descriptor =
  sd_id :: surface_id
  sd_kind :: surface_kind
  sd_title :: "string option"
  sd_renderer_hint :: surface_renderer_hint
  sd_artifact_id :: "artifact_id option"
  sd_metadata :: json
  sd_created_at :: datetime

record surface_state =
  ss_descriptor :: surface_descriptor
  ss_status :: surface_lifecycle_status
  ss_updated_at :: datetime

definition surface_attached :: "surface_descriptor \<Rightarrow> datetime \<Rightarrow> surface_state" where
  "surface_attached d created_at =
     \<lparr>ss_descriptor = d, ss_status = SurfAttached, ss_updated_at = created_at\<rparr>"

datatype (plugins only: code size) asset_kind =
    AkImage | AkDocument | AkSpreadsheet | AkSlide | AkPdf | AkVideoReference | AkAudio | AkUnknown

datatype (plugins only: code size) asset_processing_status =
    Observed | Captured | Processing | Processed | AssetFailed | AssetArchived

datatype (plugins only: code size) asset_relevance = Critical | High | Medium | Low | Background

record asset_source =
  src_uri :: "string option"
  src_discovered_at :: datetime
  src_context :: json

record asset_metadata =
  asset_meta_id :: asset_id
  asset_meta_kind :: asset_kind
  asset_title :: "string option"
  asset_mime_type :: "string option"
  asset_file_size_bytes :: "nat option"
  asset_meta_source :: asset_source
  asset_meta_relevance :: asset_relevance
  asset_tags :: "string list"
  asset_created_at :: datetime

section \<open>Events\<close>

datatype (plugins only: code size) suggestion_trigger = Mention | ComplexConcept | HistoricalReference | Proactive

datatype (plugins only: code size) conversation_event =
    ConversationCreated conversation_session
  | ParticipantAdded participant
  | ParticipantRemoved participant_id
  | MessageAppended message
  | MessageEdited message_id message_content datetime
  | MessageTombstoned message_id string
  | ThreadStarted thread_id message_id
  | AssistantSuggestionCreated message suggestion_trigger
  | LocalTriageAttached message_id string
  | ContextSliceBuilt string message_id "message_id list"
  | AgentRunRequested string message_id string
  | AgentRunStarted string
  | AgentRunCompleted string message_id
  | AgentRunFailed string string string
  | AgentRunCancelled string string
  | ActionRequested action_request
  | ActionApprovalRequired action_id string
  | ActionApproved action_id participant_id
  | ActionDenied action_id string
  | ActionStarted action_id
  | ActionCompleted action_id action_result
  | ActionFailed action_id string
  | ArtifactLinkedToConversation artifact_descriptor
  | ArtifactUnlinkedFromConversation artifact_id string
  | SurfaceAttachedToConversation surface_descriptor
  | SurfaceUpdatedInConversation surface_descriptor
  | SurfaceClosedInConversation surface_id string
  | AssetObservedInConversation asset_metadata
  | AssetCapturedInConversation asset_metadata
  | AssetProcessedInConversation asset_id asset_processing_status
  | EntityLinkedToConversation entity_descriptor link_reason
  | EntityUnlinkedFromConversation entity_id string
  | EntityStateObserved entity_id string
  | EntityQueried entity_id string "string option"
  | AgentRunTimedOut string

definition CURRENT_SCHEMA_VERSION :: nat where
  "CURRENT_SCHEMA_VERSION = 1"

record event_envelope =
  env_schema_version :: nat
  env_event_id :: event_id
  env_conversation_id :: conversation_id
  env_occurred_at :: datetime
  env_actor_id :: "participant_id option"
  env_event :: conversation_event

end
