(* ===== verification/Projector.thy ===== *)
theory Projector
  imports Core_Types
begin

text \<open>
  The projection of a conversation (\<open>conversation-kernel/src/state.rs\<close>,
  \<open>projector.rs\<close>, \<open>snapshot.rs\<close>): the state that an event journal denotes, the
  transition of each event, replay of a whole journal, snapshots of a prefix and replay
  of the tail on top of a snapshot. The lemmas show that replay splits at any prefix,
  that a snapshot followed by its tail is the full replay, and the invariants every
  replayed state satisfies.
\<close>

section \<open>State\<close>

record conversation_state =
  cs_session :: "conversation_session option"
  cs_participants :: "(participant_id, participant) hmap"
  cs_messages :: "message list"
  cs_messages_by_id :: "(message_id, message) hmap"
  cs_threads :: "(thread_id, message_id list) hmap"
  cs_linked_entities :: "(entity_id, entity_descriptor) hmap"
  cs_linked_artifacts :: "(artifact_id, artifact_descriptor) hmap"
  cs_attached_surfaces :: "(surface_id, surface_state) hmap"
  cs_observed_assets :: "(asset_id, asset_metadata) hmap"
  cs_asset_statuses :: "(asset_id, asset_processing_status) hmap"
  cs_actions :: "(action_id, conversation_action_state) hmap"
  cs_agent_runs :: "(string, agent_run_state) hmap"
  cs_completed_agent_runs :: "(string, message_id) hmap"

definition empty_state :: conversation_state where
  "empty_state =
     \<lparr>cs_session = None, cs_participants = [], cs_messages = [], cs_messages_by_id = [],
      cs_threads = [], cs_linked_entities = [], cs_linked_artifacts = [],
      cs_attached_surfaces = [], cs_observed_assets = [], cs_asset_statuses = [],
      cs_actions = [], cs_agent_runs = [], cs_completed_agent_runs = []\<rparr>"

section \<open>Applying one event\<close>

text \<open>\<open>threads.entry(t).or_default().push(m)\<close>.\<close>

definition push_thread ::
    "thread_id \<Rightarrow> message_id \<Rightarrow> (thread_id, message_id list) hmap \<Rightarrow> (thread_id, message_id list) hmap" where
  "push_thread t m threads =
     hm_put t ((case m_get threads t of None \<Rightarrow> [] | Some ms \<Rightarrow> ms) @ [m]) threads"

text \<open>A message or a suggestion enters the timeline.\<close>

definition add_message :: "message \<Rightarrow> conversation_state \<Rightarrow> conversation_state" where
  "add_message m st =
     st\<lparr>cs_threads := (case msg_thread_id m of
                         Some t \<Rightarrow> push_thread t (msg_id m) (cs_threads st)
                       | None \<Rightarrow> cs_threads st),
        cs_messages_by_id := hm_put (msg_id m) m (cs_messages_by_id st),
        cs_messages := cs_messages st @ [m]\<rparr>"

definition set_content :: "message_content \<Rightarrow> datetime \<Rightarrow> message \<Rightarrow> message" where
  "set_content c at m = m\<lparr>msg_content := c, msg_edited_at := Some at\<rparr>"

definition edit_message_state ::
    "message_id \<Rightarrow> message_content \<Rightarrow> datetime \<Rightarrow> conversation_state \<Rightarrow> conversation_state" where
  "edit_message_state i c at st =
     (if m_contains (cs_messages_by_id st) i
      then st\<lparr>cs_messages_by_id := m_modify i (set_content c at) (cs_messages_by_id st),
              cs_messages := update_first (\<lambda>m. msg_id m = i) (set_content c at) (cs_messages st)\<rparr>
      else st)"

definition modify_run ::
    "string \<Rightarrow> (agent_run_state \<Rightarrow> agent_run_state) \<Rightarrow> conversation_state \<Rightarrow> conversation_state" where
  "modify_run r f st = st\<lparr>cs_agent_runs := m_modify r f (cs_agent_runs st)\<rparr>"

definition modify_action ::
    "action_id \<Rightarrow> (conversation_action_state \<Rightarrow> conversation_action_state) \<Rightarrow>
     conversation_state \<Rightarrow> conversation_state" where
  "modify_action a f st = st\<lparr>cs_actions := m_modify a f (cs_actions st)\<rparr>"

text \<open>The assignments of the five run events, in the code's order of fields.\<close>

definition set_run ::
    "agent_run_status \<Rightarrow> message_id option \<Rightarrow> string option \<Rightarrow> string option \<Rightarrow> string option \<Rightarrow>
     agent_run_state \<Rightarrow> agent_run_state" where
  "set_run s out code err cancel r =
     r\<lparr>run_status := s, run_output_message_id := out, run_error_code := code,
       run_error_message := err, run_cancel_reason := cancel\<rparr>"

fun apply_event :: "conversation_state \<Rightarrow> conversation_event \<Rightarrow> conversation_state" where
  "apply_event st (ConversationCreated session) = st\<lparr>cs_session := Some session\<rparr>"
| "apply_event st (ParticipantAdded p) =
     st\<lparr>cs_participants := hm_put (p_id p) p (cs_participants st)\<rparr>"
| "apply_event st (ParticipantRemoved pid) =
     st\<lparr>cs_participants := m_remove pid (cs_participants st)\<rparr>"
| "apply_event st (MessageAppended m) = add_message m st"
| "apply_event st (MessageEdited i c at) = edit_message_state i c at st"
| "apply_event st (MessageTombstoned i _) =
     st\<lparr>cs_messages := filter (\<lambda>m. msg_id m \<noteq> i) (cs_messages st)\<rparr>"
| "apply_event st (AssistantSuggestionCreated m _) = add_message m st"
| "apply_event st (ThreadStarted t root) =
     st\<lparr>cs_threads := push_thread t root (cs_threads st)\<rparr>"
| "apply_event st (ArtifactLinkedToConversation a) =
     st\<lparr>cs_linked_artifacts := hm_put (art_id a) a (cs_linked_artifacts st)\<rparr>"
| "apply_event st (ArtifactUnlinkedFromConversation i _) =
     st\<lparr>cs_linked_artifacts := m_remove i (cs_linked_artifacts st)\<rparr>"
| "apply_event st (SurfaceAttachedToConversation s) =
     st\<lparr>cs_attached_surfaces :=
          hm_put (sd_id s) (surface_attached s (sd_created_at s)) (cs_attached_surfaces st)\<rparr>"
| "apply_event st (SurfaceUpdatedInConversation s) =
     st\<lparr>cs_attached_surfaces :=
          hm_put (sd_id s)
            \<lparr>ss_descriptor = s, ss_status = SurfUpdated, ss_updated_at = sd_created_at s\<rparr>
            (cs_attached_surfaces st)\<rparr>"
| "apply_event st (SurfaceClosedInConversation i _) =
     st\<lparr>cs_attached_surfaces :=
          m_modify i (\<lambda>s. s\<lparr>ss_status := SurfClosed\<rparr>) (cs_attached_surfaces st)\<rparr>"
| "apply_event st (AssetObservedInConversation a) =
     st\<lparr>cs_observed_assets := hm_put (asset_meta_id a) a (cs_observed_assets st),
        cs_asset_statuses := hm_put (asset_meta_id a) Observed (cs_asset_statuses st)\<rparr>"
| "apply_event st (AssetCapturedInConversation a) =
     st\<lparr>cs_observed_assets := hm_put (asset_meta_id a) a (cs_observed_assets st),
        cs_asset_statuses := hm_put (asset_meta_id a) Captured (cs_asset_statuses st)\<rparr>"
| "apply_event st (AssetProcessedInConversation i s) =
     (if m_contains (cs_observed_assets st) i
      then st\<lparr>cs_asset_statuses := hm_put i s (cs_asset_statuses st)\<rparr> else st)"
| "apply_event st (EntityLinkedToConversation e _) =
     st\<lparr>cs_linked_entities := hm_put (ent_id e) e (cs_linked_entities st)\<rparr>"
| "apply_event st (EntityUnlinkedFromConversation i _) =
     st\<lparr>cs_linked_entities := m_remove i (cs_linked_entities st)\<rparr>"
| "apply_event st (AgentRunRequested r trigger slice) =
     st\<lparr>cs_agent_runs := hm_put r (run_state_requested r trigger slice) (cs_agent_runs st)\<rparr>"
| "apply_event st (AgentRunStarted r) =
     modify_run r (set_run RunStarted None None None None) st"
| "apply_event st (AgentRunCompleted r out) =
     (modify_run r (set_run RunCompleted (Some out) None None None) st)
       \<lparr>cs_completed_agent_runs := hm_put r out (cs_completed_agent_runs st)\<rparr>"
| "apply_event st (AgentRunFailed r code err) =
     modify_run r (set_run RunFailed None (Some code) (Some err) None) st"
| "apply_event st (AgentRunCancelled r reason) =
     modify_run r (set_run RunCancelled None None None (Some reason)) st"
| "apply_event st (AgentRunTimedOut r) =
     modify_run r (set_run RunTimedOut None None None None) st"
| "apply_event st (ActionRequested req) =
     st\<lparr>cs_actions := hm_put (req_action_id req) (action_state_requested req) (cs_actions st)\<rparr>"
| "apply_event st (ActionApprovalRequired a reason) =
     modify_action a (\<lambda>x. x\<lparr>ca_status := ActApprovalRequired,
       ca_approval_required_reason := Some reason, ca_denial_reason := None,
       ca_result := None, ca_error_message := None\<rparr>) st"
| "apply_event st (ActionApproved a p) =
     modify_action a (\<lambda>x. x\<lparr>ca_status := ActApproved, ca_approved_by := Some p,
       ca_denial_reason := None, ca_error_message := None\<rparr>) st"
| "apply_event st (ActionDenied a reason) =
     modify_action a (\<lambda>x. x\<lparr>ca_status := ActDenied, ca_denial_reason := Some reason,
       ca_result := None, ca_error_message := None\<rparr>) st"
| "apply_event st (ActionStarted a) =
     modify_action a (\<lambda>x. x\<lparr>ca_status := ActStarted, ca_result := None,
       ca_error_message := None\<rparr>) st"
| "apply_event st (ActionCompleted a res) =
     modify_action a (\<lambda>x. x\<lparr>ca_status := ActCompleted, ca_result := Some res,
       ca_error_message := None\<rparr>) st"
| "apply_event st (ActionFailed a err) =
     modify_action a (\<lambda>x. x\<lparr>ca_status := ActFailed, ca_result := None,
       ca_error_message := Some err\<rparr>) st"
| "apply_event st _ = st"


section \<open>Replay and snapshots\<close>

text \<open>
  \<open>project\<close> folds \<open>apply_event\<close> over the envelopes; \<open>apply_event\<close> has no failing
  branch in the code, so neither has the model.
\<close>

fun replay :: "conversation_state \<Rightarrow> event_envelope list \<Rightarrow> conversation_state" where
  "replay st [] = st"
| "replay st (e # es) = replay (apply_event st (env_event e)) es"

definition project :: "event_envelope list \<Rightarrow> conversation_state" where
  "project es = replay empty_state es"

definition CONVERSATION_SNAPSHOT_VERSION :: nat where
  "CONVERSATION_SNAPSHOT_VERSION = 1"

record projection_snapshot =
  snap_version :: nat
  snap_conversation_id :: conversation_id
  snap_created_at :: datetime
  snap_last_event_id :: "event_id option"
  snap_event_count :: nat
  snap_state :: conversation_state

datatype (plugins only: code size) snapshot_error =
    ForeignEvent event_id conversation_id conversation_id
  | ForeignTailEvent event_id conversation_id conversation_id

definition snapshot_new ::
    "conversation_id \<Rightarrow> datetime \<Rightarrow> event_id option \<Rightarrow> nat \<Rightarrow> conversation_state \<Rightarrow> projection_snapshot" where
  "snapshot_new cid at last_id n st =
     \<lparr>snap_version = CONVERSATION_SNAPSHOT_VERSION, snap_conversation_id = cid,
      snap_created_at = at, snap_last_event_id = last_id, snap_event_count = n,
      snap_state = st\<rparr>"

definition last_opt :: "'a list \<Rightarrow> 'a option" where
  "last_opt xs = (if xs = [] then None else Some (last xs))"

definition snapshot ::
    "conversation_id \<Rightarrow> event_envelope list \<Rightarrow> datetime \<Rightarrow> snapshot_error + projection_snapshot" where
  "snapshot cid es at =
     (case find (\<lambda>e. env_conversation_id e \<noteq> cid) es of
        Some e \<Rightarrow> Inl (ForeignEvent (env_event_id e) (env_conversation_id e) cid)
      | None \<Rightarrow> Inr (snapshot_new cid at (map_option env_event_id (last_opt es)) (length es)
                       (project es)))"

fun replay_tail ::
    "conversation_id \<Rightarrow> conversation_state \<Rightarrow> event_envelope list \<Rightarrow> snapshot_error + conversation_state" where
  "replay_tail cid st [] = Inr st"
| "replay_tail cid st (e # es) =
     (if env_conversation_id e \<noteq> cid
      then Inl (ForeignTailEvent (env_event_id e) (env_conversation_id e) cid)
      else replay_tail cid (apply_event st (env_event e)) es)"

definition project_from_snapshot ::
    "projection_snapshot \<Rightarrow> event_envelope list \<Rightarrow> snapshot_error + conversation_state" where
  "project_from_snapshot s tail = replay_tail (snap_conversation_id s) (snap_state s) tail"

lemma replay_append: "replay st (xs @ ys) = replay (replay st xs) ys"
  by (induction xs arbitrary: st) auto

lemma project_append: "project (xs @ ys) = replay (project xs) ys"
  by (simp add: project_def replay_append)

lemma project_snoc: "project (xs @ [e]) = apply_event (project xs) (env_event e)"
  by (simp add: project_append)

lemma project_Nil [simp]: "project [] = empty_state"
  by (simp add: project_def)

lemma replay_tail_ok:
  "list_all (\<lambda>e. env_conversation_id e = cid) es \<Longrightarrow> replay_tail cid st es = Inr (replay st es)"
  by (induction es arbitrary: st) auto

lemma replay_tail_error:
  "\<not> list_all (\<lambda>e. env_conversation_id e = cid) es \<Longrightarrow>
   \<exists>e \<in> set es. env_conversation_id e \<noteq> cid \<and>
     replay_tail cid st es = Inl (ForeignTailEvent (env_event_id e) (env_conversation_id e) cid)"
  by (induction es arbitrary: st) auto

lemma replay_invariant:
  "(\<And>st ev. P st \<Longrightarrow> P (apply_event st ev)) \<Longrightarrow> P st \<Longrightarrow> P (replay st es)"
  by (induction es arbitrary: st) auto

section \<open>Invariants of the projection\<close>

text \<open>Keys are unique in every index, and an index is keyed by the identifier of its value.\<close>

definition keyed_by :: "('v \<Rightarrow> 'k) \<Rightarrow> ('k, 'v) hmap \<Rightarrow> bool" where
  "keyed_by f m = (hm_inv m \<and> (\<forall>p \<in> set m. f (snd p) = fst p))"

lemma keyed_by_Nil [simp]: "keyed_by f []"
  by (simp add: keyed_by_def)

lemma set_hm_put: "p \<in> set (hm_put k v m) \<Longrightarrow> p = (k, v) \<or> p \<in> set m"
  by (induction k v m rule: hm_put.induct) (auto split: if_splits)

lemma set_modify: "p \<in> set (m_modify k f m) \<Longrightarrow> p \<in> set m \<or> (\<exists>v. (k, v) \<in> set m \<and> p = (k, f v))"
  by (induction k f m rule: m_modify.induct) (auto split: if_splits)

lemma keyed_by_put [simp]: "keyed_by f m \<Longrightarrow> f v = k \<Longrightarrow> keyed_by f (hm_put k v m)"
  by (auto simp: keyed_by_def dest!: set_hm_put)

lemma keyed_by_remove [simp]: "keyed_by f m \<Longrightarrow> keyed_by f (m_remove k m)"
  using hm_inv_remove [of m k] by (auto simp: keyed_by_def m_remove_def)

lemma keyed_by_modify [simp]:
  "keyed_by f m \<Longrightarrow> (\<And>v. f (g v) = f v) \<Longrightarrow> keyed_by f (m_modify k g m)"
  by (force simp: keyed_by_def dest!: set_modify)

lemma keyed_by_get: "keyed_by f m \<Longrightarrow> m_get m k = Some v \<Longrightarrow> f v = k"
  by (force simp: keyed_by_def dest: m_get_in_set)

definition indexes_wf :: "conversation_state \<Rightarrow> bool" where
  "indexes_wf st =
     (keyed_by p_id (cs_participants st) \<and> keyed_by msg_id (cs_messages_by_id st) \<and>
      keyed_by ent_id (cs_linked_entities st) \<and> keyed_by art_id (cs_linked_artifacts st) \<and>
      keyed_by (\<lambda>s. sd_id (ss_descriptor s)) (cs_attached_surfaces st) \<and>
      keyed_by asset_meta_id (cs_observed_assets st) \<and>
      keyed_by ca_action_id (cs_actions st) \<and> keyed_by run_id (cs_agent_runs st))"

text \<open>The fields of a run agree with its status.\<close>

definition run_wf :: "agent_run_state \<Rightarrow> bool" where
  "run_wf r =
     ((run_output_message_id r \<noteq> None \<longleftrightarrow> run_status r = RunCompleted) \<and>
      (run_error_code r \<noteq> None \<longleftrightarrow> run_status r = RunFailed) \<and>
      (run_error_message r \<noteq> None \<longleftrightarrow> run_status r = RunFailed) \<and>
      (run_cancel_reason r \<noteq> None \<longleftrightarrow> run_status r = RunCancelled))"

text \<open>
  Every run is well formed, and a completed run is in the convenience index of completed
  runs with its output message.
\<close>

definition runs_wf :: "conversation_state \<Rightarrow> bool" where
  "runs_wf st =
     (\<forall>r run. m_get (cs_agent_runs st) r = Some run \<longrightarrow>
        run_wf run \<and>
        (run_status run = RunCompleted \<longrightarrow>
           m_get (cs_completed_agent_runs st) r = run_output_message_id run))"

text \<open>The fields of an action record agree with its status and with its request.\<close>

definition action_wf :: "conversation_action_state \<Rightarrow> bool" where
  "action_wf a =
     ((\<exists>req. ca_request a = Some req \<and> req_action_id req = ca_action_id a \<and>
         req_action_kind req = ca_action_kind a) \<and>
      (ca_error_message a \<noteq> None \<longleftrightarrow> ca_status a = ActFailed) \<and>
      (ca_status a = ActCompleted \<longrightarrow> ca_result a \<noteq> None) \<and>
      (ca_status a = ActDenied \<longrightarrow> ca_denial_reason a \<noteq> None) \<and>
      (ca_status a = ActApproved \<longrightarrow> ca_approved_by a \<noteq> None) \<and>
      (ca_status a = ActApprovalRequired \<longrightarrow> ca_approval_required_reason a \<noteq> None))"

definition actions_wf :: "conversation_state \<Rightarrow> bool" where
  "actions_wf st = (\<forall>i a. m_get (cs_actions st) i = Some a \<longrightarrow> action_wf a)"

text \<open>An asset has a status exactly when it has been observed.\<close>

definition assets_wf :: "conversation_state \<Rightarrow> bool" where
  "assets_wf st =
     (\<forall>i. m_contains (cs_asset_statuses st) i \<longleftrightarrow> m_contains (cs_observed_assets st) i)"

text \<open>Whatever is in the timeline is in the index of messages.\<close>

definition timeline_indexed :: "conversation_state \<Rightarrow> bool" where
  "timeline_indexed st = (\<forall>m \<in> set (cs_messages st). m_contains (cs_messages_by_id st) (msg_id m))"

lemmas state_update_defs = add_message_def edit_message_state_def modify_run_def modify_action_def
  set_run_def set_content_def

lemma indexes_wf_apply: "indexes_wf st \<Longrightarrow> indexes_wf (apply_event st ev)"
  by (cases ev)
     (auto simp: indexes_wf_def state_update_defs surface_attached_def run_state_requested_def
       action_state_requested_def)

lemma runs_wf_apply: "runs_wf st \<Longrightarrow> runs_wf (apply_event st ev)"
  by (cases ev)
     (auto simp: runs_wf_def run_wf_def state_update_defs run_state_requested_def)

lemma actions_wf_apply: "actions_wf st \<Longrightarrow> actions_wf (apply_event st ev)"
  by (cases ev)
     (auto simp: actions_wf_def action_wf_def state_update_defs action_state_requested_def)

lemma assets_wf_apply: "assets_wf st \<Longrightarrow> assets_wf (apply_event st ev)"
  by (cases ev) (auto simp: assets_wf_def state_update_defs)

lemma timeline_indexed_apply: "timeline_indexed st \<Longrightarrow> timeline_indexed (apply_event st ev)"
  by (cases ev)
     (auto simp: timeline_indexed_def state_update_defs dest!: set_update_first)

definition projection_wf :: "conversation_state \<Rightarrow> bool" where
  "projection_wf st =
     (indexes_wf st \<and> runs_wf st \<and> actions_wf st \<and> assets_wf st \<and> timeline_indexed st)"

lemma projection_wf_empty: "projection_wf empty_state"
  by (simp add: projection_wf_def empty_state_def indexes_wf_def runs_wf_def actions_wf_def
      assets_wf_def timeline_indexed_def)

lemma projection_wf_apply: "projection_wf st \<Longrightarrow> projection_wf (apply_event st ev)"
  by (simp add: projection_wf_def indexes_wf_apply runs_wf_apply actions_wf_apply assets_wf_apply
      timeline_indexed_apply)

lemma projection_wf_project: "projection_wf (project es)"
  unfolding project_def
  by (rule replay_invariant) (simp_all add: projection_wf_apply projection_wf_empty)

section \<open>Properties\<close>

text \<open>
  C8. The invariants of the projection: whatever events a history holds, in whatever
  order, every index of the projected state has unique keys equal to the identifiers of
  its values, every run and action carries exactly the fields its status calls for, an
  asset has a status exactly when it was observed, and every message of the timeline is in
  the message index.
\<close>

theorem projection_invariants: "projection_wf (project es)"
  by (rule projection_wf_project)

text \<open>
  A snapshot plus its tail is the full replay: for any split of a conversation's
  history, snapshotting the first part succeeds and records its length and last event,
  and projecting the second part from the snapshot gives exactly the state that replaying
  the whole history gives.
\<close>

lemma snapshot_then_tail:
  assumes "list_all (\<lambda>e. env_conversation_id e = c) (xs @ ys)"
  shows "\<exists>s. snapshot c xs at = Inr s \<and> snap_event_count s = length xs \<and>
    snap_last_event_id s = map_option env_event_id (last_opt xs) \<and>
    project_from_snapshot s ys = Inr (project (xs @ ys))"
proof -
  have own: "list_all (\<lambda>e. env_conversation_id e = c) xs" "list_all (\<lambda>e. env_conversation_id e = c) ys"
    using assms by simp_all
  then have "find (\<lambda>e. env_conversation_id e \<noteq> c) xs = None"
    by (auto simp: find_None_iff list_all_iff)
  then have "snapshot c xs at = Inr (snapshot_new c at (map_option env_event_id (last_opt xs))
      (length xs) (project xs))"
    by (simp add: snapshot_def)
  with own(2) show ?thesis
    by (simp add: snapshot_new_def project_from_snapshot_def replay_tail_ok project_append)
qed

definition sample_event :: "string \<Rightarrow> string \<Rightarrow> conversation_event \<Rightarrow> event_envelope" where
  "sample_event c i ev =
     \<lparr>env_schema_version = CURRENT_SCHEMA_VERSION, env_event_id = EventId i,
      env_conversation_id = ConversationId c, env_occurred_at = 0, env_actor_id = None,
      env_event = ev\<rparr>"

lemma snapshot_then_tail_witness:
  "\<exists>s. snapshot (ConversationId ''c'') [sample_event ''c'' ''e1'' (AgentRunRequested ''r'' (MessageId ''m'') ''s'')] 7 = Inr s \<and>
     snap_event_count s = 1 \<and>
     project_from_snapshot s [sample_event ''c'' ''e2'' (AgentRunStarted ''r'')] =
       Inr (project [sample_event ''c'' ''e1'' (AgentRunRequested ''r'' (MessageId ''m'') ''s''),
                     sample_event ''c'' ''e2'' (AgentRunStarted ''r'')])"
  using snapshot_then_tail [of "ConversationId ''c''"
      "[sample_event ''c'' ''e1'' (AgentRunRequested ''r'' (MessageId ''m'') ''s'')]"
      "[sample_event ''c'' ''e2'' (AgentRunStarted ''r'')]" 7]
  by (auto simp: sample_event_def)

text \<open>
  Foreign events are refused: taking a snapshot fails exactly when the history holds
  an event of another conversation, and so does replaying a tail on a snapshot; the error
  names such an event.
\<close>

lemma foreign_events_refused:
  "((\<exists>s. snapshot c es at = Inr s) \<longleftrightarrow> (\<forall>e \<in> set es. env_conversation_id e = c)) \<and>
   ((\<exists>st. project_from_snapshot s es = Inr st) \<longleftrightarrow>
      (\<forall>e \<in> set es. env_conversation_id e = snap_conversation_id s)) \<and>
   (\<forall>x. snapshot c es at = Inl x \<longrightarrow> (\<exists>e \<in> set es. env_conversation_id e \<noteq> c \<and>
      x = ForeignEvent (env_event_id e) (env_conversation_id e) c))"
proof (intro conjI)
  show "(\<exists>s. snapshot c es at = Inr s) \<longleftrightarrow> (\<forall>e \<in> set es. env_conversation_id e = c)"
    by (auto simp: snapshot_def find_None_iff find_Some_iff split: option.splits)
  show "(\<exists>st. project_from_snapshot s es = Inr st) \<longleftrightarrow>
      (\<forall>e \<in> set es. env_conversation_id e = snap_conversation_id s)"
  proof (cases "list_all (\<lambda>e. env_conversation_id e = snap_conversation_id s) es")
    case True
    then show ?thesis by (simp add: project_from_snapshot_def replay_tail_ok list_all_iff)
  next
    case False
    with replay_tail_error [OF False, of "snap_state s"] show ?thesis
      by (auto simp: project_from_snapshot_def list_all_iff)
  qed
  show "\<forall>x. snapshot c es at = Inl x \<longrightarrow> (\<exists>e \<in> set es. env_conversation_id e \<noteq> c \<and>
      x = ForeignEvent (env_event_id e) (env_conversation_id e) c)"
    by (auto simp: snapshot_def find_Some_iff split: option.splits)
qed

lemma foreign_events_refused_witness:
  "\<not> (\<exists>s. snapshot (ConversationId ''c'') [sample_event ''d'' ''e'' (AgentRunStarted ''r'')] 0 = Inr s)"
  using foreign_events_refused [of "ConversationId ''c''"] by (simp add: sample_event_def)

end
