(* ===== verification/Commands.thy ===== *)
theory Commands
  imports Projector
begin

text \<open>
  The commands of the conversation kernel (\<open>conversation-kernel/src/commands.rs\<close>), one
  record per struct, and the errors its handlers return (one constructor per \<open>bail!\<close> and
  \<open>with_context\<close> of \<open>kernel.rs\<close>, carrying the value the message prints).
\<close>

section \<open>Commands\<close>

record create_conversation_command =
  ccc_kind :: conversation_kind
  ccc_title :: "string option"
  ccc_participants :: "participant list"
  ccc_actor_id :: "participant_id option"

record append_message_command =
  cam_conversation_id :: conversation_id
  cam_sender_id :: participant_id
  cam_content :: message_content
  cam_reply_to :: "message_id option"
  cam_thread_id :: "thread_id option"
  cam_visibility :: visibility

record edit_message_command =
  cem_conversation_id :: conversation_id
  cem_message_id :: message_id
  cem_new_content :: message_content
  cem_edited_by :: participant_id

record create_assistant_suggestion_command =
  ccas_conversation_id :: conversation_id
  ccas_target_user_id :: participant_id
  ccas_text :: string
  ccas_actions :: "suggested_action list"
  ccas_trigger :: suggestion_trigger

record link_entity_command =
  cle_conversation_id :: conversation_id
  cle_entity :: entity_descriptor
  cle_reason :: link_reason
  cle_linked_by :: "participant_id option"

record unlink_entity_command =
  cue_conversation_id :: conversation_id
  cue_entity_id :: entity_id
  cue_reason :: string
  cue_unlinked_by :: "participant_id option"

record link_artifact_command =
  cla_conversation_id :: conversation_id
  cla_artifact :: artifact_descriptor
  cla_linked_by :: "participant_id option"

record unlink_artifact_command =
  cua_conversation_id :: conversation_id
  cua_artifact_id :: artifact_id
  cua_reason :: string
  cua_unlinked_by :: "participant_id option"

record attach_surface_command =
  cats_conversation_id :: conversation_id
  cats_surface :: surface_descriptor
  cats_attached_by :: "participant_id option"

record update_surface_command =
  cus_conversation_id :: conversation_id
  cus_surface :: surface_descriptor
  cus_updated_by :: "participant_id option"

record close_surface_command =
  ccs_conversation_id :: conversation_id
  ccs_surface_id :: surface_id
  ccs_reason :: string
  ccs_closed_by :: "participant_id option"

record observe_asset_command =
  coa_conversation_id :: conversation_id
  coa_asset :: asset_metadata
  coa_observed_by :: "participant_id option"

record capture_asset_command =
  ccpa_conversation_id :: conversation_id
  ccpa_asset :: asset_metadata
  ccpa_captured_by :: "participant_id option"

record process_asset_command =
  cpa_conversation_id :: conversation_id
  cpa_asset_id :: asset_id
  cpa_status :: asset_processing_status
  cpa_processed_by :: "participant_id option"

record observe_entity_state_command =
  coes_conversation_id :: conversation_id
  coes_entity_id :: entity_id
  coes_state_ref :: string
  coes_observed_by :: "participant_id option"

record query_entity_command =
  cqe_conversation_id :: conversation_id
  cqe_entity_id :: entity_id
  cqe_query :: string
  cqe_result_ref :: "string option"
  cqe_queried_by :: "participant_id option"

record request_agent_run_command =
  crar_conversation_id :: conversation_id
  crar_trigger_message_id :: message_id
  crar_requested_by :: participant_id

record start_agent_run_command =
  csar_conversation_id :: conversation_id
  csar_run_id :: string
  csar_started_by :: participant_id

record complete_agent_run_command =
  ccar_conversation_id :: conversation_id
  ccar_run_id :: string
  ccar_output_message_id :: message_id
  ccar_completed_by :: participant_id

record fail_agent_run_command =
  cfar_conversation_id :: conversation_id
  cfar_run_id :: string
  cfar_error_code :: string
  cfar_error_message :: string
  cfar_failed_by :: participant_id

record cancel_agent_run_command =
  cxar_conversation_id :: conversation_id
  cxar_run_id :: string
  cxar_reason :: string
  cxar_cancelled_by :: participant_id

record request_action_command =
  cra_conversation_id :: conversation_id
  cra_action_request :: action_request
  cra_requested_by :: "participant_id option"

record require_action_approval_command =
  craa_conversation_id :: conversation_id
  craa_action_id :: action_id
  craa_reason :: string
  craa_required_by :: "participant_id option"

record approve_action_command =
  caa_conversation_id :: conversation_id
  caa_action_id :: action_id
  caa_approved_by :: participant_id

record deny_action_command =
  cda_conversation_id :: conversation_id
  cda_action_id :: action_id
  cda_reason :: string
  cda_denied_by :: "participant_id option"

record start_action_command =
  csa_conversation_id :: conversation_id
  csa_action_id :: action_id
  csa_started_by :: "participant_id option"

record complete_action_command =
  ccoa_conversation_id :: conversation_id
  ccoa_action_id :: action_id
  ccoa_result :: action_result
  ccoa_completed_by :: "participant_id option"

record fail_action_command =
  cfa_conversation_id :: conversation_id
  cfa_action_id :: action_id
  cfa_error_message :: string
  cfa_failed_by :: "participant_id option"

record timeout_agent_run_command =
  ctar_conversation_id :: conversation_id
  ctar_run_id :: string
  ctar_timed_out_by :: "participant_id option"

text \<open>Any command, for statements about every handler at once.\<close>

datatype (plugins only: code size) command =
    DoCreateConversation create_conversation_command
  | DoAppendMessage append_message_command
  | DoEditMessage edit_message_command
  | DoCreateAssistantSuggestion create_assistant_suggestion_command
  | DoLinkEntity link_entity_command
  | DoUnlinkEntity unlink_entity_command
  | DoLinkArtifact link_artifact_command
  | DoUnlinkArtifact unlink_artifact_command
  | DoAttachSurface attach_surface_command
  | DoUpdateSurface update_surface_command
  | DoCloseSurface close_surface_command
  | DoObserveAsset observe_asset_command
  | DoCaptureAsset capture_asset_command
  | DoProcessAsset process_asset_command
  | DoObserveEntityState observe_entity_state_command
  | DoQueryEntity query_entity_command
  | DoRequestAgentRun request_agent_run_command
  | DoStartAgentRun start_agent_run_command
  | DoCompleteAgentRun complete_agent_run_command
  | DoFailAgentRun fail_agent_run_command
  | DoCancelAgentRun cancel_agent_run_command
  | DoRequestAction request_action_command
  | DoRequireActionApproval require_action_approval_command
  | DoApproveAction approve_action_command
  | DoDenyAction deny_action_command
  | DoStartAction start_action_command
  | DoCompleteAction complete_action_command
  | DoFailAction fail_action_command
  | DoTimeoutAgentRun timeout_agent_run_command

section \<open>Errors\<close>

datatype (plugins only: code size) 'e kernel_error =
    JournalError 'e
  | AtLeastOneParticipantRequired
  | ConversationNotFound conversation_id
  | ConversationNotActive conversation_id
  | SenderNotParticipant participant_id
  | SenderNotForeground participant_id participant_kind
  | ReplyToNotFound message_id
  | ReplyToOtherConversation message_id
  | NoSuchThread thread_id
  | MessageNotFound message_id
  | TriggerMessageNotFound message_id
  | OutputMessageNotFound message_id
  | FieldNotParticipant string participant_id
  | TargetUserNotParticipant participant_id
  | NoAgentParticipant
  | LinkedEntityNotFound entity_id
  | LinkedArtifactNotFound artifact_id
  | SurfaceNotAttached surface_id
  | AssetNotObserved asset_id
  | AgentRunNotFound string
  | AgentRunAlreadyTerminal string
  | ActionNotFound action_id
  | ActionAlreadyTerminal action_id
  | ActionNotAwaitingApproval action_id
  | ActionRequiresApproval action_id
  | ActionCannotStart conversation_action_status
  | ActionNotStarted action_id
  | VisibilityUserNotParticipant participant_id
  | VisibilityNeedsAgent
  | VisibilityParticipantNotParticipant participant_id

text \<open>What a successful handler returns.\<close>

datatype (plugins only: code size) reply =
    NewConversation conversation_id
  | NewMessage message_id
  | NewRun string
  | Done

end
