(* ===== verification/Journal.thy ===== *)
theory Journal
  imports Projector
begin

text \<open>
  The journal interface (\<open>conversation-journal/src/lib.rs\<close>): the trait
  \<open>ConversationJournal\<close> with \<open>append\<close> and \<open>load\<close>, its contract as a locale, and the
  in-memory journal (\<open>memory.rs\<close>) as a provider. The conversation kernel is a client of
  the trait only: it takes the two operations as a record, the trait object.
\<close>

record ('j, 'e) journal_ops =
  jo_append :: "event_envelope \<Rightarrow> ('j, 'e, unit) prog"
  jo_load :: "conversation_id \<Rightarrow> 'j \<Rightarrow> 'e + event_envelope list"

text \<open>
  The contract. \<open>inv\<close> is the journal's own invariant and \<open>accepts\<close> holds of the
  envelopes it can represent (all of them in memory; those the serialiser round-trips on
  disk). A journal that satisfies \<open>inv\<close> can be loaded; an append of an accepted envelope
  keeps \<open>inv\<close>, adds the envelope at the end of its conversation and leaves the other
  conversations alone; an append that fails changes nothing that can be loaded. \<open>same\<close> says
  which identifiers the journal keeps in one place: equal ones in memory, those that name one
  directory on disk.
\<close>

text \<open>Appending a list of envelopes one after the other, stopping at the first failure.\<close>

fun append_all :: "('j, 'e) journal_ops \<Rightarrow> event_envelope list \<Rightarrow> ('j, 'e, unit) prog" where
  "append_all J [] = ret ()"
| "append_all J (e # es) = andThen (jo_append J e) (\<lambda>_. append_all J es)"

locale event_journal =
  fixes J :: "('j, 'e) journal_ops"
    and inv :: "'j \<Rightarrow> bool"
    and accepts :: "event_envelope \<Rightarrow> bool"
    and same :: "conversation_id \<Rightarrow> conversation_id \<Rightarrow> bool"
  assumes load_total: "inv j \<Longrightarrow> \<exists>es. jo_load J c j = Inr es"
    and append_inv: "inv j \<Longrightarrow> accepts e \<Longrightarrow> jo_append J e j = (r, j') \<Longrightarrow> inv j'"
    and append_load: "inv j \<Longrightarrow> accepts e \<Longrightarrow> jo_append J e j = (Inr (), j') \<Longrightarrow>
      jo_load J c j = Inr es \<Longrightarrow>
      jo_load J c j' = Inr (if same (env_conversation_id e) c then es @ [e] else es)"
    and append_error: "inv j \<Longrightarrow> accepts e \<Longrightarrow> jo_append J e j = (Inl x, j') \<Longrightarrow>
      jo_load J c j' = jo_load J c j"
begin

lemma append_all_inv:
  "inv j \<Longrightarrow> list_all accepts es \<Longrightarrow> append_all J es j = (r, j') \<Longrightarrow> inv j'"
proof (induction es arbitrary: j)
  case Nil
  then show ?case by simp
next
  case (Cons e es)
  show ?case
  proof (cases "jo_append J e j")
    case (Pair x j1)
    then have "inv j1" using Cons.prems(1,2) by (auto intro: append_inv)
    with Pair Cons show ?thesis by (cases x) (auto simp: andThen_def)
  qed
qed

lemma append_all_load:
  "inv j \<Longrightarrow> list_all accepts es \<Longrightarrow> append_all J es j = (Inr (), j') \<Longrightarrow>
   jo_load J c j = Inr old \<Longrightarrow>
   jo_load J c j' = Inr (old @ filter (\<lambda>e. same (env_conversation_id e) c) es)"
proof (induction es arbitrary: j old)
  case Nil
  then show ?case by simp
next
  case (Cons e es)
  obtain x j1 where step: "jo_append J e j = (x, j1)" by (cases "jo_append J e j")
  with Cons.prems(3) have x: "x = Inr ()" and rest: "append_all J es j1 = (Inr (), j')"
    by (cases x; simp add: andThen_def)+
  have "inv j1" using Cons.prems(1,2) step by (auto intro: append_inv)
  moreover have "jo_load J c j1 = Inr (if same (env_conversation_id e) c then old @ [e] else old)"
    using append_load Cons.prems(1,2,4) step x by simp
  ultimately show ?case using Cons.IH Cons.prems(2) rest by auto
qed

text \<open>
  What a reader sees after a successful append is the old state with the event applied:
  loading and projecting is a homomorphism from appends to \<open>apply_event\<close>.
\<close>

lemma append_project:
  assumes "inv j" and "accepts e" and "jo_append J e j = (Inr (), j')"
    and "jo_load J c j = Inr es" and "same (env_conversation_id e) c"
  shows "map_sum id project (jo_load J c j') = Inr (apply_event (project es) (env_event e))"
  using append_load [OF assms(1-4)] assms(5) by (simp add: project_snoc)

end

text \<open>A journal whose appends of accepted envelopes never fail.\<close>

locale reliable_journal = event_journal J inv accepts same
  for J :: "('j, 'e) journal_ops" and inv :: "'j \<Rightarrow> bool" and accepts :: "event_envelope \<Rightarrow> bool"
    and same :: "conversation_id \<Rightarrow> conversation_id \<Rightarrow> bool" +
  assumes append_ok: "inv j \<Longrightarrow> accepts e \<Longrightarrow> \<exists>j'. jo_append J e j = (Inr (), j')"
begin

lemma append_all_ok:
  "inv j \<Longrightarrow> list_all accepts es \<Longrightarrow> \<exists>j'. append_all J es j = (Inr (), j')"
proof (induction es arbitrary: j)
  case Nil
  then show ?case by simp
next
  case (Cons e es)
  then obtain j1 where step: "jo_append J e j = (Inr (), j1)" using append_ok by fastforce
  then have "inv j1" using Cons.prems by (auto intro: append_inv)
  with Cons step show ?case by (simp add: andThen_def)
qed

end

section \<open>The in-memory journal\<close>

type_synonym memory_journal = "(conversation_id, event_envelope list) hmap"

definition memory_append :: "event_envelope \<Rightarrow> (memory_journal, 'e, unit) prog" where
  "memory_append e = (\<lambda>j.
     (Inr (),
      hm_put (env_conversation_id e)
        ((case m_get j (env_conversation_id e) of None \<Rightarrow> [] | Some es \<Rightarrow> es) @ [e]) j))"

definition memory_load :: "conversation_id \<Rightarrow> memory_journal \<Rightarrow> 'e + event_envelope list" where
  "memory_load c j = Inr (case m_get j c of None \<Rightarrow> [] | Some es \<Rightarrow> es)"

definition memory_ops :: "(memory_journal, 'e) journal_ops" where
  "memory_ops = \<lparr>jo_append = memory_append, jo_load = memory_load\<rparr>"

lemma memory_ops_simps [simp]:
  "jo_append memory_ops = memory_append" "jo_load memory_ops = memory_load"
  by (simp_all add: memory_ops_def)

interpretation memory: reliable_journal "memory_ops :: (memory_journal, 'e) journal_ops" "\<lambda>_. True"
    "\<lambda>_. True" "(=)"
  by unfold_locales (auto simp: memory_append_def memory_load_def)

end
