(* ===== verification/Kernel.thy ===== *)
theory Kernel
  imports Commands Journal
begin

text \<open>
  The conversation kernel (\<open>conversation-kernel/src/kernel.rs\<close>): every handler loads the
  history of its conversation, projects it, validates the command against the projected
  state and appends the events of the command. The journal, the identifier generator and
  the clock are the three trait objects the kernel holds; the state of a run is the
  journal and how many identifiers and clock readings have been drawn.
\<close>

section \<open>Dependencies and state\<close>

text \<open>
  \<open>kd_new_id n\<close> is the \<open>n\<close>-th identifier the generator returns and \<open>kd_now n\<close> the
  \<open>n\<close>-th reading of the clock. \<open>kd_order\<close> is the iteration order of the participant hash
  map, which the standard library leaves open.
\<close>

record ('j, 'e) kernel_deps =
  kd_journal :: "('j, 'e) journal_ops"
  kd_new_id :: "nat \<Rightarrow> string"
  kd_now :: "nat \<Rightarrow> datetime"
  kd_order :: "(participant_id, participant) hmap \<Rightarrow> participant list"

record 'j kernel_state =
  ks_journal :: 'j
  ks_ids :: nat
  ks_ticks :: nat

type_synonym ('j, 'e, 'a) kernel_prog = "('j kernel_state, 'e kernel_error, 'a) prog"

definition fresh_id :: "('j, 'e) kernel_deps \<Rightarrow> ('j, 'e, string) kernel_prog" where
  "fresh_id D k = (Inr (kd_new_id D (ks_ids k)), k\<lparr>ks_ids := ks_ids k + 1\<rparr>)"

definition read_clock :: "('j, 'e) kernel_deps \<Rightarrow> ('j, 'e, datetime) kernel_prog" where
  "read_clock D k = (Inr (kd_now D (ks_ticks k)), k\<lparr>ks_ticks := ks_ticks k + 1\<rparr>)"

definition load_events ::
    "('j, 'e) kernel_deps \<Rightarrow> conversation_id \<Rightarrow> ('j, 'e, event_envelope list) kernel_prog" where
  "load_events D c k = (map_sum JournalError id (jo_load (kd_journal D) c (ks_journal k)), k)"

definition load_state ::
    "('j, 'e) kernel_deps \<Rightarrow> conversation_id \<Rightarrow> ('j, 'e, conversation_state) kernel_prog" where
  "load_state D c = andThen (load_events D c) (\<lambda>es. ret (project es))"

definition journal_append ::
    "('j, 'e) kernel_deps \<Rightarrow> event_envelope \<Rightarrow> ('j, 'e, unit) kernel_prog" where
  "journal_append D e k =
     (let (r, j) = jo_append (kd_journal D) e (ks_journal k)
      in (map_sum JournalError id r, k\<lparr>ks_journal := j\<rparr>))"

definition append_envelope ::
    "('j, 'e) kernel_deps \<Rightarrow> conversation_id \<Rightarrow> participant_id option \<Rightarrow> datetime \<Rightarrow>
     conversation_event \<Rightarrow> ('j, 'e, unit) kernel_prog" where
  "append_envelope D c actor at ev =
     andThen (fresh_id D) (\<lambda>i.
       journal_append D
         \<lparr>env_schema_version = CURRENT_SCHEMA_VERSION, env_event_id = EventId i,
          env_conversation_id = c, env_occurred_at = at, env_actor_id = actor, env_event = ev\<rparr>)"

section \<open>Validation\<close>

type_synonym ('e, 'a) checked = "'e kernel_error + 'a"

definition validate_conversation_exists ::
    "conversation_state \<Rightarrow> conversation_id \<Rightarrow> ('e, unit) checked" where
  "validate_conversation_exists st c = ensure (cs_session st \<noteq> None) (ConversationNotFound c)"

definition is_participant :: "conversation_state \<Rightarrow> participant_id \<Rightarrow> bool" where
  "is_participant st p = m_contains (cs_participants st) p"

definition validate_optional_actor ::
    "conversation_state \<Rightarrow> participant_id option \<Rightarrow> string \<Rightarrow> ('e, unit) checked" where
  "validate_optional_actor st actor field =
     (case actor of
        None \<Rightarrow> Inr ()
      | Some a \<Rightarrow> ensure (is_participant st a) (FieldNotParticipant field a))"

definition has_agent :: "conversation_state \<Rightarrow> bool" where
  "has_agent st = list_ex (\<lambda>p. p_kind p = Agent) (m_values (cs_participants st))"

fun validate_listed :: "conversation_state \<Rightarrow> participant_id list \<Rightarrow> ('e, unit) checked" where
  "validate_listed st [] = Inr ()"
| "validate_listed st (p # ps) =
     (if is_participant st p then validate_listed st ps
      else Inl (VisibilityParticipantNotParticipant p))"

definition validate_visibility ::
    "conversation_state \<Rightarrow> visibility \<Rightarrow> ('e, unit) checked" where
  "validate_visibility st v =
     (case v of
        VisConversation \<Rightarrow> Inr ()
      | PrivateToUser u \<Rightarrow> ensure (is_participant st u) (VisibilityUserNotParticipant u)
      | AgentOnly \<Rightarrow> ensure (has_agent st) VisibilityNeedsAgent
      | Participants ps \<Rightarrow> validate_listed st ps)"

definition validate_action_exists ::
    "conversation_state \<Rightarrow> conversation_id \<Rightarrow> action_id \<Rightarrow> ('e, conversation_action_state) checked" where
  "validate_action_exists st c a =
     bind_result (validate_conversation_exists st c) (\<lambda>_.
       ok_or (m_get (cs_actions st) a) (ActionNotFound a))"

definition validate_action_not_terminal ::
    "conversation_state \<Rightarrow> conversation_id \<Rightarrow> action_id \<Rightarrow> ('e, conversation_action_state) checked" where
  "validate_action_not_terminal st c a =
     bind_result (validate_action_exists st c a) (\<lambda>x.
       if act_is_terminal (ca_status x) then Inl (ActionAlreadyTerminal a) else Inr x)"

definition validate_agent_run_transition ::
    "conversation_state \<Rightarrow> conversation_id \<Rightarrow> string \<Rightarrow> ('e, unit) checked" where
  "validate_agent_run_transition st c r =
     bind_result (ensure (cs_session st \<noteq> None) (ConversationNotFound c)) (\<lambda>_.
     bind_result (ok_or (m_get (cs_agent_runs st) r) (AgentRunNotFound r)) (\<lambda>run.
       case run_status run of
         RunCompleted \<Rightarrow> Inl (AgentRunAlreadyTerminal r)
       | RunFailed \<Rightarrow> Inl (AgentRunAlreadyTerminal r)
       | RunCancelled \<Rightarrow> Inl (AgentRunAlreadyTerminal r)
       | RunTimedOut \<Rightarrow> Inl (AgentRunAlreadyTerminal r)
       | RunRequested \<Rightarrow> Inr ()
       | RunStarted \<Rightarrow> Inr ()))"

text \<open>The active session, as \<open>append_message\<close> and \<open>create_assistant_suggestion\<close> require it.\<close>

definition require_active ::
    "conversation_state \<Rightarrow> conversation_id \<Rightarrow> ('e, unit) checked" where
  "require_active st c =
     bind_result (ok_or (cs_session st) (ConversationNotFound c)) (\<lambda>session.
       ensure (ses_status session = Active) (ConversationNotActive c))"

text \<open>
  The body all handlers that append a single event share: load the state, run the
  handler's checks in order, read the clock, append.
\<close>

definition record_event ::
    "('j, 'e) kernel_deps \<Rightarrow> conversation_id \<Rightarrow> (conversation_state \<Rightarrow> ('e, unit) checked) \<Rightarrow>
     participant_id option \<Rightarrow> (datetime \<Rightarrow> conversation_event) \<Rightarrow> ('j, 'e, unit) kernel_prog" where
  "record_event D c checks actor ev =
     andThen (load_state D c) (\<lambda>st.
     andThen (lift (checks st)) (\<lambda>_.
     andThen (read_clock D) (\<lambda>now.
       append_envelope D c actor now (ev now))))"

text \<open>\<open>a?; b\<close>.\<close>

definition both :: "('e, 'a) checked \<Rightarrow> ('e, unit) checked \<Rightarrow> ('e, unit) checked" where
  "both a b = bind_result a (\<lambda>_. b)"

section \<open>Conversations and messages\<close>

fun append_participants ::
    "('j, 'e) kernel_deps \<Rightarrow> conversation_id \<Rightarrow> participant_id option \<Rightarrow> datetime \<Rightarrow>
     participant list \<Rightarrow> ('j, 'e, unit) kernel_prog" where
  "append_participants D c actor at [] = ret ()"
| "append_participants D c actor at (p # ps) =
     andThen (append_envelope D c actor at (ParticipantAdded p)) (\<lambda>_.
       append_participants D c actor at ps)"

definition new_session ::
    "create_conversation_command \<Rightarrow> conversation_id \<Rightarrow> datetime \<Rightarrow> conversation_session" where
  "new_session cmd c now =
     \<lparr>ses_id = c, ses_kind = ccc_kind cmd, ses_title = ccc_title cmd,
      ses_participants = map p_id (ccc_participants cmd), ses_created_at = now,
      ses_updated_at = now, ses_status = Active\<rparr>"

definition create_conversation ::
    "('j, 'e) kernel_deps \<Rightarrow> create_conversation_command \<Rightarrow> ('j, 'e, conversation_id) kernel_prog" where
  "create_conversation D cmd =
     andThen (lift (ensure (ccc_participants cmd \<noteq> []) AtLeastOneParticipantRequired)) (\<lambda>_.
     andThen (fresh_id D) (\<lambda>i.
     andThen (read_clock D) (\<lambda>now.
     let c = ConversationId i in
     andThen (append_envelope D c (ccc_actor_id cmd) now (ConversationCreated (new_session cmd c now)))
       (\<lambda>_.
     andThen (append_participants D c (ccc_actor_id cmd) now (ccc_participants cmd)) (\<lambda>_.
       ret c)))))"

definition check_sender ::
    "conversation_state \<Rightarrow> participant_id \<Rightarrow> ('e, unit) checked" where
  "check_sender st s =
     bind_result (ok_or (m_get (cs_participants st) s) (SenderNotParticipant s)) (\<lambda>sender.
       ensure (is_foreground (p_kind sender)) (SenderNotForeground s (p_kind sender)))"

definition check_reply_to ::
    "conversation_state \<Rightarrow> conversation_id \<Rightarrow> message_id option \<Rightarrow> ('e, unit) checked" where
  "check_reply_to st c reply =
     (case reply of
        None \<Rightarrow> Inr ()
      | Some m \<Rightarrow>
          bind_result (ok_or (m_get (cs_messages_by_id st) m) (ReplyToNotFound m)) (\<lambda>replied.
            ensure (msg_conversation_id replied = c) (ReplyToOtherConversation m)))"

definition check_thread ::
    "conversation_state \<Rightarrow> thread_id option \<Rightarrow> ('e, unit) checked" where
  "check_thread st t =
     (case t of None \<Rightarrow> Inr () | Some t' \<Rightarrow> ensure (m_contains (cs_threads st) t') (NoSuchThread t'))"

definition check_message ::
    "append_message_command \<Rightarrow> conversation_state \<Rightarrow> ('e, unit) checked" where
  "check_message cmd st =
     both (require_active st (cam_conversation_id cmd))
     (both (check_sender st (cam_sender_id cmd))
     (both (check_reply_to st (cam_conversation_id cmd) (cam_reply_to cmd))
     (both (check_thread st (cam_thread_id cmd))
       (validate_visibility st (cam_visibility cmd)))))"

definition new_message :: "append_message_command \<Rightarrow> message_id \<Rightarrow> datetime \<Rightarrow> message" where
  "new_message cmd i now =
     \<lparr>msg_id = i, msg_conversation_id = cam_conversation_id cmd,
      msg_sender_id = cam_sender_id cmd, msg_content = cam_content cmd,
      msg_reply_to = cam_reply_to cmd, msg_thread_id = cam_thread_id cmd,
      msg_visibility = cam_visibility cmd, msg_created_at = now, msg_edited_at = None\<rparr>"

definition append_message ::
    "('j, 'e) kernel_deps \<Rightarrow> append_message_command \<Rightarrow> ('j, 'e, message_id) kernel_prog" where
  "append_message D cmd =
     andThen (load_state D (cam_conversation_id cmd)) (\<lambda>st.
     andThen (lift (check_message cmd st)) (\<lambda>_.
     andThen (fresh_id D) (\<lambda>i.
     andThen (read_clock D) (\<lambda>now.
     andThen (append_envelope D (cam_conversation_id cmd) (Some (cam_sender_id cmd)) now
       (MessageAppended (new_message cmd (MessageId i) now))) (\<lambda>_.
       ret (MessageId i))))))"

definition edit_message ::
    "('j, 'e) kernel_deps \<Rightarrow> edit_message_command \<Rightarrow> ('j, 'e, unit) kernel_prog" where
  "edit_message D cmd =
     record_event D (cem_conversation_id cmd)
       (\<lambda>st.
         both (ensure (cs_session st \<noteq> None) (ConversationNotFound (cem_conversation_id cmd)))
         (both (ensure (m_contains (cs_messages_by_id st) (cem_message_id cmd))
                  (MessageNotFound (cem_message_id cmd)))
           (ensure (is_participant st (cem_edited_by cmd))
              (FieldNotParticipant ''edited_by'' (cem_edited_by cmd)))))
       (Some (cem_edited_by cmd))
       (\<lambda>now. MessageEdited (cem_message_id cmd) (cem_new_content cmd) now)"

definition suggestion_message ::
    "create_assistant_suggestion_command \<Rightarrow> message_id \<Rightarrow> participant_id \<Rightarrow> datetime \<Rightarrow> message" where
  "suggestion_message cmd i agent now =
     \<lparr>msg_id = i, msg_conversation_id = ccas_conversation_id cmd, msg_sender_id = agent,
      msg_content = AgentSuggestion (ccas_text cmd) (ccas_actions cmd), msg_reply_to = None,
      msg_thread_id = None, msg_visibility = PrivateToUser (ccas_target_user_id cmd),
      msg_created_at = now, msg_edited_at = None\<rparr>"

definition create_assistant_suggestion ::
    "('j, 'e) kernel_deps \<Rightarrow> create_assistant_suggestion_command \<Rightarrow> ('j, 'e, message_id) kernel_prog" where
  "create_assistant_suggestion D cmd =
     andThen (load_state D (ccas_conversation_id cmd)) (\<lambda>st.
     andThen (lift (both (require_active st (ccas_conversation_id cmd))
       (ensure (is_participant st (ccas_target_user_id cmd))
          (TargetUserNotParticipant (ccas_target_user_id cmd))))) (\<lambda>_.
     andThen (lift (ok_or (find (\<lambda>p. p_kind p = Agent) (kd_order D (cs_participants st)))
       NoAgentParticipant)) (\<lambda>agent.
     andThen (fresh_id D) (\<lambda>i.
     andThen (read_clock D) (\<lambda>now.
     andThen (append_envelope D (ccas_conversation_id cmd) (Some (p_id agent)) now
       (AssistantSuggestionCreated (suggestion_message cmd (MessageId i) (p_id agent) now)
          (ccas_trigger cmd))) (\<lambda>_.
       ret (MessageId i)))))))"

section \<open>Entities, artifacts, surfaces, assets\<close>

text \<open>The two checks with which all these handlers start.\<close>

definition check_actor ::
    "conversation_id \<Rightarrow> participant_id option \<Rightarrow> string \<Rightarrow> conversation_state \<Rightarrow> ('e, unit) checked" where
  "check_actor c actor field st =
     both (validate_conversation_exists st c) (validate_optional_actor st actor field)"

definition link_entity ::
    "('j, 'e) kernel_deps \<Rightarrow> link_entity_command \<Rightarrow> ('j, 'e, unit) kernel_prog" where
  "link_entity D cmd =
     record_event D (cle_conversation_id cmd)
       (check_actor (cle_conversation_id cmd) (cle_linked_by cmd) ''linked_by'')
       (cle_linked_by cmd)
       (\<lambda>_. EntityLinkedToConversation (cle_entity cmd) (cle_reason cmd))"

definition unlink_entity ::
    "('j, 'e) kernel_deps \<Rightarrow> unlink_entity_command \<Rightarrow> ('j, 'e, unit) kernel_prog" where
  "unlink_entity D cmd =
     record_event D (cue_conversation_id cmd)
       (\<lambda>st. both (check_actor (cue_conversation_id cmd) (cue_unlinked_by cmd) ''unlinked_by'' st)
          (ensure (m_contains (cs_linked_entities st) (cue_entity_id cmd))
             (LinkedEntityNotFound (cue_entity_id cmd))))
       (cue_unlinked_by cmd)
       (\<lambda>_. EntityUnlinkedFromConversation (cue_entity_id cmd) (cue_reason cmd))"

definition link_artifact ::
    "('j, 'e) kernel_deps \<Rightarrow> link_artifact_command \<Rightarrow> ('j, 'e, unit) kernel_prog" where
  "link_artifact D cmd =
     record_event D (cla_conversation_id cmd)
       (check_actor (cla_conversation_id cmd) (cla_linked_by cmd) ''linked_by'')
       (cla_linked_by cmd)
       (\<lambda>_. ArtifactLinkedToConversation (cla_artifact cmd))"

definition unlink_artifact ::
    "('j, 'e) kernel_deps \<Rightarrow> unlink_artifact_command \<Rightarrow> ('j, 'e, unit) kernel_prog" where
  "unlink_artifact D cmd =
     record_event D (cua_conversation_id cmd)
       (\<lambda>st. both (check_actor (cua_conversation_id cmd) (cua_unlinked_by cmd) ''unlinked_by'' st)
          (ensure (m_contains (cs_linked_artifacts st) (cua_artifact_id cmd))
             (LinkedArtifactNotFound (cua_artifact_id cmd))))
       (cua_unlinked_by cmd)
       (\<lambda>_. ArtifactUnlinkedFromConversation (cua_artifact_id cmd) (cua_reason cmd))"

definition attach_surface ::
    "('j, 'e) kernel_deps \<Rightarrow> attach_surface_command \<Rightarrow> ('j, 'e, unit) kernel_prog" where
  "attach_surface D cmd =
     record_event D (cats_conversation_id cmd)
       (check_actor (cats_conversation_id cmd) (cats_attached_by cmd) ''attached_by'')
       (cats_attached_by cmd)
       (\<lambda>_. SurfaceAttachedToConversation (cats_surface cmd))"

definition update_surface ::
    "('j, 'e) kernel_deps \<Rightarrow> update_surface_command \<Rightarrow> ('j, 'e, unit) kernel_prog" where
  "update_surface D cmd =
     record_event D (cus_conversation_id cmd)
       (\<lambda>st. both (check_actor (cus_conversation_id cmd) (cus_updated_by cmd) ''updated_by'' st)
          (ensure (m_contains (cs_attached_surfaces st) (sd_id (cus_surface cmd)))
             (SurfaceNotAttached (sd_id (cus_surface cmd)))))
       (cus_updated_by cmd)
       (\<lambda>_. SurfaceUpdatedInConversation (cus_surface cmd))"

definition close_surface ::
    "('j, 'e) kernel_deps \<Rightarrow> close_surface_command \<Rightarrow> ('j, 'e, unit) kernel_prog" where
  "close_surface D cmd =
     record_event D (ccs_conversation_id cmd)
       (\<lambda>st. both (check_actor (ccs_conversation_id cmd) (ccs_closed_by cmd) ''closed_by'' st)
          (ensure (m_contains (cs_attached_surfaces st) (ccs_surface_id cmd))
             (SurfaceNotAttached (ccs_surface_id cmd))))
       (ccs_closed_by cmd)
       (\<lambda>_. SurfaceClosedInConversation (ccs_surface_id cmd) (ccs_reason cmd))"

definition observe_asset ::
    "('j, 'e) kernel_deps \<Rightarrow> observe_asset_command \<Rightarrow> ('j, 'e, unit) kernel_prog" where
  "observe_asset D cmd =
     record_event D (coa_conversation_id cmd)
       (check_actor (coa_conversation_id cmd) (coa_observed_by cmd) ''observed_by'')
       (coa_observed_by cmd)
       (\<lambda>_. AssetObservedInConversation (coa_asset cmd))"

definition capture_asset ::
    "('j, 'e) kernel_deps \<Rightarrow> capture_asset_command \<Rightarrow> ('j, 'e, unit) kernel_prog" where
  "capture_asset D cmd =
     record_event D (ccpa_conversation_id cmd)
       (\<lambda>st. both (check_actor (ccpa_conversation_id cmd) (ccpa_captured_by cmd) ''captured_by'' st)
          (ensure (m_contains (cs_observed_assets st) (asset_meta_id (ccpa_asset cmd)))
             (AssetNotObserved (asset_meta_id (ccpa_asset cmd)))))
       (ccpa_captured_by cmd)
       (\<lambda>_. AssetCapturedInConversation (ccpa_asset cmd))"

definition process_asset ::
    "('j, 'e) kernel_deps \<Rightarrow> process_asset_command \<Rightarrow> ('j, 'e, unit) kernel_prog" where
  "process_asset D cmd =
     record_event D (cpa_conversation_id cmd)
       (\<lambda>st. both (check_actor (cpa_conversation_id cmd) (cpa_processed_by cmd) ''processed_by'' st)
          (ensure (m_contains (cs_observed_assets st) (cpa_asset_id cmd))
             (AssetNotObserved (cpa_asset_id cmd))))
       (cpa_processed_by cmd)
       (\<lambda>_. AssetProcessedInConversation (cpa_asset_id cmd) (cpa_status cmd))"

definition observe_entity_state ::
    "('j, 'e) kernel_deps \<Rightarrow> observe_entity_state_command \<Rightarrow> ('j, 'e, unit) kernel_prog" where
  "observe_entity_state D cmd =
     record_event D (coes_conversation_id cmd)
       (\<lambda>st. both (check_actor (coes_conversation_id cmd) (coes_observed_by cmd) ''observed_by'' st)
          (ensure (m_contains (cs_linked_entities st) (coes_entity_id cmd))
             (LinkedEntityNotFound (coes_entity_id cmd))))
       (coes_observed_by cmd)
       (\<lambda>_. EntityStateObserved (coes_entity_id cmd) (coes_state_ref cmd))"

definition query_entity ::
    "('j, 'e) kernel_deps \<Rightarrow> query_entity_command \<Rightarrow> ('j, 'e, unit) kernel_prog" where
  "query_entity D cmd =
     record_event D (cqe_conversation_id cmd)
       (\<lambda>st. both (check_actor (cqe_conversation_id cmd) (cqe_queried_by cmd) ''queried_by'' st)
          (ensure (m_contains (cs_linked_entities st) (cqe_entity_id cmd))
             (LinkedEntityNotFound (cqe_entity_id cmd))))
       (cqe_queried_by cmd)
       (\<lambda>_. EntityQueried (cqe_entity_id cmd) (cqe_query cmd) (cqe_result_ref cmd))"

section \<open>Agent runs\<close>

definition request_agent_run ::
    "('j, 'e) kernel_deps \<Rightarrow> request_agent_run_command \<Rightarrow> ('j, 'e, string) kernel_prog" where
  "request_agent_run D cmd =
     (let c = crar_conversation_id cmd; trigger = crar_trigger_message_id cmd;
          actor = Some (crar_requested_by cmd) in
     andThen (load_state D c) (\<lambda>st.
     andThen (lift (both (ensure (cs_session st \<noteq> None) (ConversationNotFound c))
       (ensure (m_contains (cs_messages_by_id st) trigger) (TriggerMessageNotFound trigger)))) (\<lambda>_.
     andThen (fresh_id D) (\<lambda>run_id.
     andThen (fresh_id D) (\<lambda>slice_id.
     andThen (read_clock D) (\<lambda>now.
     let message_ids = map msg_id (last_n 20 (cs_messages st)) in
     andThen (append_envelope D c actor now (ContextSliceBuilt slice_id trigger message_ids)) (\<lambda>_.
     andThen (append_envelope D c actor now (AgentRunRequested run_id trigger slice_id)) (\<lambda>_.
       ret run_id))))))))"

definition start_agent_run ::
    "('j, 'e) kernel_deps \<Rightarrow> start_agent_run_command \<Rightarrow> ('j, 'e, unit) kernel_prog" where
  "start_agent_run D cmd =
     record_event D (csar_conversation_id cmd)
       (\<lambda>st. both (validate_agent_run_transition st (csar_conversation_id cmd) (csar_run_id cmd))
          (ensure (is_participant st (csar_started_by cmd))
             (FieldNotParticipant ''started_by'' (csar_started_by cmd))))
       (Some (csar_started_by cmd))
       (\<lambda>_. AgentRunStarted (csar_run_id cmd))"

definition complete_agent_run ::
    "('j, 'e) kernel_deps \<Rightarrow> complete_agent_run_command \<Rightarrow> ('j, 'e, unit) kernel_prog" where
  "complete_agent_run D cmd =
     record_event D (ccar_conversation_id cmd)
       (\<lambda>st. both (validate_agent_run_transition st (ccar_conversation_id cmd) (ccar_run_id cmd))
          (both (ensure (m_contains (cs_messages_by_id st) (ccar_output_message_id cmd))
                   (OutputMessageNotFound (ccar_output_message_id cmd)))
             (ensure (is_participant st (ccar_completed_by cmd))
                (FieldNotParticipant ''completed_by'' (ccar_completed_by cmd)))))
       (Some (ccar_completed_by cmd))
       (\<lambda>_. AgentRunCompleted (ccar_run_id cmd) (ccar_output_message_id cmd))"

definition fail_agent_run ::
    "('j, 'e) kernel_deps \<Rightarrow> fail_agent_run_command \<Rightarrow> ('j, 'e, unit) kernel_prog" where
  "fail_agent_run D cmd =
     record_event D (cfar_conversation_id cmd)
       (\<lambda>st. both (validate_agent_run_transition st (cfar_conversation_id cmd) (cfar_run_id cmd))
          (ensure (is_participant st (cfar_failed_by cmd))
             (FieldNotParticipant ''failed_by'' (cfar_failed_by cmd))))
       (Some (cfar_failed_by cmd))
       (\<lambda>_. AgentRunFailed (cfar_run_id cmd) (cfar_error_code cmd) (cfar_error_message cmd))"

definition cancel_agent_run ::
    "('j, 'e) kernel_deps \<Rightarrow> cancel_agent_run_command \<Rightarrow> ('j, 'e, unit) kernel_prog" where
  "cancel_agent_run D cmd =
     record_event D (cxar_conversation_id cmd)
       (\<lambda>st. both (validate_agent_run_transition st (cxar_conversation_id cmd) (cxar_run_id cmd))
          (ensure (is_participant st (cxar_cancelled_by cmd))
             (FieldNotParticipant ''cancelled_by'' (cxar_cancelled_by cmd))))
       (Some (cxar_cancelled_by cmd))
       (\<lambda>_. AgentRunCancelled (cxar_run_id cmd) (cxar_reason cmd))"

definition timeout_agent_run ::
    "('j, 'e) kernel_deps \<Rightarrow> timeout_agent_run_command \<Rightarrow> ('j, 'e, unit) kernel_prog" where
  "timeout_agent_run D cmd =
     record_event D (ctar_conversation_id cmd)
       (\<lambda>st. both (validate_agent_run_transition st (ctar_conversation_id cmd) (ctar_run_id cmd))
          (validate_optional_actor st (ctar_timed_out_by cmd) ''timed_out_by''))
       (ctar_timed_out_by cmd)
       (\<lambda>_. AgentRunTimedOut (ctar_run_id cmd))"

section \<open>Actions\<close>

definition request_action ::
    "('j, 'e) kernel_deps \<Rightarrow> request_action_command \<Rightarrow> ('j, 'e, unit) kernel_prog" where
  "request_action D cmd =
     record_event D (cra_conversation_id cmd)
       (check_actor (cra_conversation_id cmd) (cra_requested_by cmd) ''requested_by'')
       (cra_requested_by cmd)
       (\<lambda>_. ActionRequested (cra_action_request cmd))"

definition require_action_approval ::
    "('j, 'e) kernel_deps \<Rightarrow> require_action_approval_command \<Rightarrow> ('j, 'e, unit) kernel_prog" where
  "require_action_approval D cmd =
     record_event D (craa_conversation_id cmd)
       (\<lambda>st. both (validate_action_not_terminal st (craa_conversation_id cmd) (craa_action_id cmd))
          (validate_optional_actor st (craa_required_by cmd) ''required_by''))
       (craa_required_by cmd)
       (\<lambda>_. ActionApprovalRequired (craa_action_id cmd) (craa_reason cmd))"

definition approve_action ::
    "('j, 'e) kernel_deps \<Rightarrow> approve_action_command \<Rightarrow> ('j, 'e, unit) kernel_prog" where
  "approve_action D cmd =
     record_event D (caa_conversation_id cmd)
       (\<lambda>st. bind_result (validate_action_exists st (caa_conversation_id cmd) (caa_action_id cmd))
          (\<lambda>action.
            both (ensure (ca_status action = ActApprovalRequired)
                    (ActionNotAwaitingApproval (caa_action_id cmd)))
              (validate_optional_actor st (Some (caa_approved_by cmd)) ''approved_by'')))
       (Some (caa_approved_by cmd))
       (\<lambda>_. ActionApproved (caa_action_id cmd) (caa_approved_by cmd))"

definition deny_action ::
    "('j, 'e) kernel_deps \<Rightarrow> deny_action_command \<Rightarrow> ('j, 'e, unit) kernel_prog" where
  "deny_action D cmd =
     record_event D (cda_conversation_id cmd)
       (\<lambda>st. both (validate_action_not_terminal st (cda_conversation_id cmd) (cda_action_id cmd))
          (validate_optional_actor st (cda_denied_by cmd) ''denied_by''))
       (cda_denied_by cmd)
       (\<lambda>_. ActionDenied (cda_action_id cmd) (cda_reason cmd))"

definition check_startable ::
    "action_id \<Rightarrow> conversation_action_status \<Rightarrow> ('e, unit) checked" where
  "check_startable a s =
     (case s of
        ActRequested \<Rightarrow> Inr ()
      | ActApproved \<Rightarrow> Inr ()
      | ActApprovalRequired \<Rightarrow> Inl (ActionRequiresApproval a)
      | _ \<Rightarrow> (if act_is_terminal s then Inl (ActionAlreadyTerminal a) else Inl (ActionCannotStart s)))"

definition start_action ::
    "('j, 'e) kernel_deps \<Rightarrow> start_action_command \<Rightarrow> ('j, 'e, unit) kernel_prog" where
  "start_action D cmd =
     record_event D (csa_conversation_id cmd)
       (\<lambda>st. bind_result (validate_action_exists st (csa_conversation_id cmd) (csa_action_id cmd))
          (\<lambda>action.
            both (check_startable (csa_action_id cmd) (ca_status action))
              (validate_optional_actor st (csa_started_by cmd) ''started_by'')))
       (csa_started_by cmd)
       (\<lambda>_. ActionStarted (csa_action_id cmd))"

definition complete_action ::
    "('j, 'e) kernel_deps \<Rightarrow> complete_action_command \<Rightarrow> ('j, 'e, unit) kernel_prog" where
  "complete_action D cmd =
     record_event D (ccoa_conversation_id cmd)
       (\<lambda>st. bind_result (validate_action_exists st (ccoa_conversation_id cmd) (ccoa_action_id cmd))
          (\<lambda>action.
            both (ensure (ca_status action = ActStarted) (ActionNotStarted (ccoa_action_id cmd)))
              (validate_optional_actor st (ccoa_completed_by cmd) ''completed_by'')))
       (ccoa_completed_by cmd)
       (\<lambda>_. ActionCompleted (ccoa_action_id cmd) (ccoa_result cmd))"

definition fail_action ::
    "('j, 'e) kernel_deps \<Rightarrow> fail_action_command \<Rightarrow> ('j, 'e, unit) kernel_prog" where
  "fail_action D cmd =
     record_event D (cfa_conversation_id cmd)
       (\<lambda>st. bind_result (validate_action_exists st (cfa_conversation_id cmd) (cfa_action_id cmd))
          (\<lambda>action.
            both (ensure (ca_status action = ActStarted) (ActionNotStarted (cfa_action_id cmd)))
              (validate_optional_actor st (cfa_failed_by cmd) ''failed_by'')))
       (cfa_failed_by cmd)
       (\<lambda>_. ActionFailed (cfa_action_id cmd) (cfa_error_message cmd))"

section \<open>Any command\<close>

definition then_reply ::
    "('a \<Rightarrow> reply) \<Rightarrow> ('j, 'e, 'a) kernel_prog \<Rightarrow> ('j, 'e, reply) kernel_prog" where
  "then_reply f m = andThen m (\<lambda>x. ret (f x))"

fun dispatch :: "('j, 'e) kernel_deps \<Rightarrow> command \<Rightarrow> ('j, 'e, reply) kernel_prog" where
  "dispatch D (DoCreateConversation cmd) = then_reply NewConversation (create_conversation D cmd)"
| "dispatch D (DoAppendMessage cmd) = then_reply NewMessage (append_message D cmd)"
| "dispatch D (DoCreateAssistantSuggestion cmd) =
     then_reply NewMessage (create_assistant_suggestion D cmd)"
| "dispatch D (DoRequestAgentRun cmd) = then_reply NewRun (request_agent_run D cmd)"
| "dispatch D (DoEditMessage cmd) = then_reply (\<lambda>_. Done) (edit_message D cmd)"
| "dispatch D (DoLinkEntity cmd) = then_reply (\<lambda>_. Done) (link_entity D cmd)"
| "dispatch D (DoUnlinkEntity cmd) = then_reply (\<lambda>_. Done) (unlink_entity D cmd)"
| "dispatch D (DoLinkArtifact cmd) = then_reply (\<lambda>_. Done) (link_artifact D cmd)"
| "dispatch D (DoUnlinkArtifact cmd) = then_reply (\<lambda>_. Done) (unlink_artifact D cmd)"
| "dispatch D (DoAttachSurface cmd) = then_reply (\<lambda>_. Done) (attach_surface D cmd)"
| "dispatch D (DoUpdateSurface cmd) = then_reply (\<lambda>_. Done) (update_surface D cmd)"
| "dispatch D (DoCloseSurface cmd) = then_reply (\<lambda>_. Done) (close_surface D cmd)"
| "dispatch D (DoObserveAsset cmd) = then_reply (\<lambda>_. Done) (observe_asset D cmd)"
| "dispatch D (DoCaptureAsset cmd) = then_reply (\<lambda>_. Done) (capture_asset D cmd)"
| "dispatch D (DoProcessAsset cmd) = then_reply (\<lambda>_. Done) (process_asset D cmd)"
| "dispatch D (DoObserveEntityState cmd) = then_reply (\<lambda>_. Done) (observe_entity_state D cmd)"
| "dispatch D (DoQueryEntity cmd) = then_reply (\<lambda>_. Done) (query_entity D cmd)"
| "dispatch D (DoStartAgentRun cmd) = then_reply (\<lambda>_. Done) (start_agent_run D cmd)"
| "dispatch D (DoCompleteAgentRun cmd) = then_reply (\<lambda>_. Done) (complete_agent_run D cmd)"
| "dispatch D (DoFailAgentRun cmd) = then_reply (\<lambda>_. Done) (fail_agent_run D cmd)"
| "dispatch D (DoCancelAgentRun cmd) = then_reply (\<lambda>_. Done) (cancel_agent_run D cmd)"
| "dispatch D (DoTimeoutAgentRun cmd) = then_reply (\<lambda>_. Done) (timeout_agent_run D cmd)"
| "dispatch D (DoRequestAction cmd) = then_reply (\<lambda>_. Done) (request_action D cmd)"
| "dispatch D (DoRequireActionApproval cmd) =
     then_reply (\<lambda>_. Done) (require_action_approval D cmd)"
| "dispatch D (DoApproveAction cmd) = then_reply (\<lambda>_. Done) (approve_action D cmd)"
| "dispatch D (DoDenyAction cmd) = then_reply (\<lambda>_. Done) (deny_action D cmd)"
| "dispatch D (DoStartAction cmd) = then_reply (\<lambda>_. Done) (start_action D cmd)"
| "dispatch D (DoCompleteAction cmd) = then_reply (\<lambda>_. Done) (complete_action D cmd)"
| "dispatch D (DoFailAction cmd) = then_reply (\<lambda>_. Done) (fail_action D cmd)"

lemmas single_event_handlers = edit_message_def link_entity_def unlink_entity_def
  link_artifact_def unlink_artifact_def attach_surface_def update_surface_def close_surface_def
  observe_asset_def capture_asset_def process_asset_def observe_entity_state_def query_entity_def
  start_agent_run_def complete_agent_run_def fail_agent_run_def cancel_agent_run_def
  timeout_agent_run_def request_action_def require_action_approval_def approve_action_def
  deny_action_def start_action_def complete_action_def fail_action_def

end
