(* ===== verification/Kernel_Runs.thy ===== *)
theory Kernel_Runs
  imports Kernel "HOL-Library.Multiset"
begin

text \<open>
  What a handler of the conversation kernel does to its journal, for every command at
  once: it appends a list of envelopes of one conversation, each of them allowed in the
  state it is applied to, under identifiers drawn during the call; or it appends nothing.
  The rest of the development uses the handlers only through these facts.
\<close>

section \<open>When an event may be recorded\<close>

definition session_active :: "conversation_state \<Rightarrow> bool" where
  "session_active st =
     (case cs_session st of None \<Rightarrow> False | Some s \<Rightarrow> ses_status s = Active)"

definition foreground_sender :: "conversation_state \<Rightarrow> participant_id \<Rightarrow> bool" where
  "foreground_sender st s =
     (case m_get (cs_participants st) s of None \<Rightarrow> False | Some p \<Rightarrow> is_foreground (p_kind p))"

definition visibility_allowed :: "conversation_state \<Rightarrow> visibility \<Rightarrow> bool" where
  "visibility_allowed st v =
     (case v of
        VisConversation \<Rightarrow> True
      | PrivateToUser u \<Rightarrow> is_participant st u
      | AgentOnly \<Rightarrow> has_agent st
      | Participants ps \<Rightarrow> list_all (is_participant st) ps)"

definition reply_allowed :: "conversation_state \<Rightarrow> conversation_id \<Rightarrow> message_id option \<Rightarrow> bool" where
  "reply_allowed st c reply =
     (case reply of
        None \<Rightarrow> True
      | Some m \<Rightarrow> (case m_get (cs_messages_by_id st) m of
                     None \<Rightarrow> False | Some m' \<Rightarrow> msg_conversation_id m' = c))"

definition thread_allowed :: "conversation_state \<Rightarrow> thread_id option \<Rightarrow> bool" where
  "thread_allowed st t = (case t of None \<Rightarrow> True | Some t' \<Rightarrow> m_contains (cs_threads st) t')"

definition action_in :: "conversation_state \<Rightarrow> action_id \<Rightarrow> conversation_action_status set \<Rightarrow> bool" where
  "action_in st a S = (case m_get (cs_actions st) a of None \<Rightarrow> False | Some x \<Rightarrow> ca_status x \<in> S)"

definition run_live :: "conversation_state \<Rightarrow> string \<Rightarrow> bool" where
  "run_live st r =
     (case m_get (cs_agent_runs st) r of
        None \<Rightarrow> False | Some x \<Rightarrow> run_status x = RunRequested \<or> run_status x = RunStarted)"

definition message_allowed :: "conversation_state \<Rightarrow> message \<Rightarrow> bool" where
  "message_allowed st m =
     (session_active st \<and> foreground_sender st (msg_sender_id m) \<and>
      reply_allowed st (msg_conversation_id m) (msg_reply_to m) \<and>
      thread_allowed st (msg_thread_id m) \<and> visibility_allowed st (msg_visibility m))"

definition suggestion_allowed :: "conversation_state \<Rightarrow> message \<Rightarrow> bool" where
  "suggestion_allowed st m =
     (session_active st \<and> msg_thread_id m = None \<and>
      (\<exists>p \<in> set (m_values (cs_participants st)). p_kind p = Agent \<and> p_id p = msg_sender_id m) \<and>
      (case msg_visibility m of PrivateToUser u \<Rightarrow> is_participant st u | _ \<Rightarrow> False))"

abbreviation has_session :: "conversation_state \<Rightarrow> bool" where
  "has_session st \<equiv> cs_session st \<noteq> None"

text \<open>
  The guard of each event. Events no handler produces are never allowed.
\<close>

fun event_allowed :: "conversation_state \<Rightarrow> conversation_event \<Rightarrow> bool" where
  "event_allowed st (ConversationCreated s) = (ses_status s = Active)"
| "event_allowed st (ParticipantAdded p) = has_session st"
| "event_allowed st (MessageAppended m) = message_allowed st m"
| "event_allowed st (MessageEdited m c at) =
     (has_session st \<and> m_contains (cs_messages_by_id st) m)"
| "event_allowed st (AssistantSuggestionCreated m t) = suggestion_allowed st m"
| "event_allowed st (ContextSliceBuilt s t ms) =
     (has_session st \<and> m_contains (cs_messages_by_id st) t \<and>
      ms = map msg_id (last_n 20 (cs_messages st)))"
| "event_allowed st (AgentRunRequested r t s) =
     (has_session st \<and> m_contains (cs_messages_by_id st) t)"
| "event_allowed st (AgentRunStarted r) = (has_session st \<and> run_live st r)"
| "event_allowed st (AgentRunCompleted r m) =
     (has_session st \<and> run_live st r \<and> m_contains (cs_messages_by_id st) m)"
| "event_allowed st (AgentRunFailed r c e) = (has_session st \<and> run_live st r)"
| "event_allowed st (AgentRunCancelled r x) = (has_session st \<and> run_live st r)"
| "event_allowed st (AgentRunTimedOut r) = (has_session st \<and> run_live st r)"
| "event_allowed st (ActionRequested q) = has_session st"
| "event_allowed st (ActionApprovalRequired a x) =
     (has_session st \<and> action_in st a {ActRequested, ActApprovalRequired, ActApproved, ActStarted})"
| "event_allowed st (ActionApproved a p) =
     (has_session st \<and> action_in st a {ActApprovalRequired} \<and> is_participant st p)"
| "event_allowed st (ActionDenied a x) =
     (has_session st \<and> action_in st a {ActRequested, ActApprovalRequired, ActApproved, ActStarted})"
| "event_allowed st (ActionStarted a) =
     (has_session st \<and> action_in st a {ActRequested, ActApproved})"
| "event_allowed st (ActionCompleted a res) = (has_session st \<and> action_in st a {ActStarted})"
| "event_allowed st (ActionFailed a err) = (has_session st \<and> action_in st a {ActStarted})"
| "event_allowed st (ArtifactLinkedToConversation x) = has_session st"
| "event_allowed st (ArtifactUnlinkedFromConversation i x) =
     (has_session st \<and> m_contains (cs_linked_artifacts st) i)"
| "event_allowed st (SurfaceAttachedToConversation x) = has_session st"
| "event_allowed st (SurfaceUpdatedInConversation s) =
     (has_session st \<and> m_contains (cs_attached_surfaces st) (sd_id s))"
| "event_allowed st (SurfaceClosedInConversation i x) =
     (has_session st \<and> m_contains (cs_attached_surfaces st) i)"
| "event_allowed st (AssetObservedInConversation x) = has_session st"
| "event_allowed st (AssetCapturedInConversation x) =
     (has_session st \<and> m_contains (cs_observed_assets st) (asset_meta_id x))"
| "event_allowed st (AssetProcessedInConversation i s) =
     (has_session st \<and> m_contains (cs_observed_assets st) i)"
| "event_allowed st (EntityLinkedToConversation x r) = has_session st"
| "event_allowed st (EntityUnlinkedFromConversation i x) =
     (has_session st \<and> m_contains (cs_linked_entities st) i)"
| "event_allowed st (EntityStateObserved i x) =
     (has_session st \<and> m_contains (cs_linked_entities st) i)"
| "event_allowed st (EntityQueried i q x) =
     (has_session st \<and> m_contains (cs_linked_entities st) i)"
| "event_allowed st _ = False"

fun allowed_seq :: "conversation_state \<Rightarrow> conversation_event list \<Rightarrow> bool" where
  "allowed_seq st [] = True"
| "allowed_seq st (e # es) = (event_allowed st e \<and> allowed_seq (apply_event st e) es)"

lemma allowed_seq_append:
  "allowed_seq st (xs @ ys) \<longleftrightarrow> allowed_seq st xs \<and> allowed_seq (foldl apply_event st xs) ys"
  by (induction xs arbitrary: st) auto

lemma foldl_apply_event: "foldl apply_event st (map env_event es) = replay st es"
  by (induction es arbitrary: st) auto

lemma allowed_seq_take: "allowed_seq st es \<Longrightarrow> allowed_seq st (take n es)"
  by (induction es arbitrary: st n) (auto simp: take_Cons split: nat.splits)

section \<open>The checks say what the guards say\<close>

lemma both_Inr_iff [simp]: "both a b = Inr u \<longleftrightarrow> (\<exists>x. a = Inr x) \<and> b = Inr u"
  by (auto simp: both_def bind_result_Inr_iff)

lemma both_simps [simp]: "both (Inr x) b = b" "both (Inl e) b = Inl e"
  by (simp_all add: both_def)

lemma validate_conversation_exists_iff [simp]:
  "validate_conversation_exists st c = Inr u \<longleftrightarrow> has_session st"
  by (simp add: validate_conversation_exists_def)

lemma validate_listed_iff [simp]:
  "validate_listed st ps = Inr u \<longleftrightarrow> list_all (is_participant st) ps"
  by (induction ps) auto

lemma validate_visibility_iff [simp]:
  "validate_visibility st v = Inr u \<longleftrightarrow> visibility_allowed st v"
  by (cases v) (auto simp: validate_visibility_def visibility_allowed_def)

lemma require_active_iff [simp]: "require_active st c = Inr u \<longleftrightarrow> session_active st"
  by (auto simp: require_active_def session_active_def bind_result_Inr_iff split: option.splits)

lemma check_sender_iff [simp]: "check_sender st s = Inr u \<longleftrightarrow> foreground_sender st s"
  by (auto simp: check_sender_def foreground_sender_def bind_result_Inr_iff split: option.splits)

lemma check_reply_to_iff [simp]: "check_reply_to st c r = Inr u \<longleftrightarrow> reply_allowed st c r"
  by (auto simp: check_reply_to_def reply_allowed_def bind_result_Inr_iff split: option.splits)

lemma check_thread_iff [simp]: "check_thread st t = Inr u \<longleftrightarrow> thread_allowed st t"
  by (auto simp: check_thread_def thread_allowed_def split: option.splits)

lemma check_message_iff:
  "check_message cmd st = Inr () \<longleftrightarrow> message_allowed st (new_message cmd i now)"
  by (auto simp: check_message_def message_allowed_def new_message_def)

lemma validate_action_exists_iff:
  "validate_action_exists st c a = Inr x \<longleftrightarrow> has_session st \<and> m_get (cs_actions st) a = Some x"
  by (auto simp: validate_action_exists_def bind_result_Inr_iff)

lemma action_in_not_terminal:
  "m_get (cs_actions st) a = Some x \<Longrightarrow> \<not> act_is_terminal (ca_status x) \<Longrightarrow>
   action_in st a {ActRequested, ActApprovalRequired, ActApproved, ActStarted}"
  by (cases "ca_status x") (auto simp: action_in_def act_is_terminal_def)

lemma validate_action_not_terminal_iff:
  "validate_action_not_terminal st c a = Inr x \<longleftrightarrow>
     has_session st \<and> m_get (cs_actions st) a = Some x \<and> \<not> act_is_terminal (ca_status x)"
  by (auto simp: validate_action_not_terminal_def bind_result_Inr_iff validate_action_exists_iff
      split: if_splits)

lemma validate_agent_run_transition_iff [simp]:
  "validate_agent_run_transition st c r = Inr u \<longleftrightarrow> has_session st \<and> run_live st r"
  by (auto simp: validate_agent_run_transition_def run_live_def bind_result_Inr_iff
      split: option.splits agent_run_status.splits)

lemma check_startable_iff [simp]:
  "check_startable a s = Inr u \<longleftrightarrow> s = ActRequested \<or> s = ActApproved"
  by (cases s) (auto simp: check_startable_def act_is_terminal_def)

lemma validate_optional_actor_iff [simp]:
  "validate_optional_actor st a f = Inr u \<longleftrightarrow> (\<forall>p. a = Some p \<longrightarrow> is_participant st p)"
  by (auto simp: validate_optional_actor_def split: option.splits)

section \<open>What a call appends\<close>

text \<open>The identifiers an envelope introduces.\<close>

fun event_draws :: "conversation_event \<Rightarrow> string list" where
  "event_draws (ConversationCreated s) = (case ses_id s of ConversationId i \<Rightarrow> [i])"
| "event_draws (MessageAppended m) = (case msg_id m of MessageId i \<Rightarrow> [i])"
| "event_draws (AssistantSuggestionCreated m t) = (case msg_id m of MessageId i \<Rightarrow> [i])"
| "event_draws (ContextSliceBuilt s t ms) = [s]"
| "event_draws (AgentRunRequested r t s) = [r]"
| "event_draws _ = []"

definition draws :: "event_envelope \<Rightarrow> string list" where
  "draws e = (case env_event_id e of EventId i \<Rightarrow> i # event_draws (env_event e))"

definition well_addressed :: "conversation_id \<Rightarrow> event_envelope \<Rightarrow> bool" where
  "well_addressed c e =
     (env_conversation_id e = c \<and> env_schema_version e = CURRENT_SCHEMA_VERSION \<and>
      (case env_event e of ConversationCreated s \<Rightarrow> ses_id s = c | _ \<Rightarrow> True))"

text \<open>
  \<open>performs D c envs k r k'\<close>: from \<open>k\<close> a call ended with result \<open>r\<close> in \<open>k'\<close>, having
  attempted the appends \<open>envs\<close> to conversation \<open>c\<close> in order, the last of which may have
  failed, in which case its error is the result.
\<close>

definition performs ::
    "('j, 'e) kernel_deps \<Rightarrow> conversation_id \<Rightarrow> event_envelope list \<Rightarrow> 'j kernel_state \<Rightarrow>
     'e kernel_error + 'a \<Rightarrow> 'j kernel_state \<Rightarrow> bool" where
  "performs D c envs k r k' =
     (list_all (well_addressed c) envs \<and>
      (\<exists>r'. append_all (kd_journal D) envs (ks_journal k) = (r', ks_journal k') \<and>
            (\<forall>x. r' = Inl x \<longrightarrow> r = Inl (JournalError x)) \<and>
            (envs \<noteq> [] \<and> r' = Inr () \<longrightarrow> is_ok r) \<and> (is_ok r \<longrightarrow> r' = Inr ())) \<and>
      ks_ids k \<le> ks_ids k' \<and>
      (\<exists>idx. concat (map draws envs) = map (kd_new_id D) idx \<and> distinct idx \<and>
             set idx \<subseteq> {ks_ids k..<ks_ids k'}))"

lemma performsI:
  "list_all (well_addressed c) envs \<Longrightarrow>
   append_all (kd_journal D) envs (ks_journal k) = (r', ks_journal k') \<Longrightarrow>
   (\<forall>x. r' = Inl x \<longrightarrow> r = Inl (JournalError x)) \<Longrightarrow> (r' = Inr () \<longleftrightarrow> is_ok r) \<Longrightarrow>
   ks_ids k \<le> ks_ids k' \<Longrightarrow> concat (map draws envs) = map (kd_new_id D) idx \<Longrightarrow> distinct idx \<Longrightarrow>
   set idx \<subseteq> {ks_ids k..<ks_ids k'} \<Longrightarrow> performs D c envs k r k'"
  unfolding performs_def by blast

lemma ranges_join:
  fixes i j l :: nat
  assumes "A \<subseteq> {i..<j}" and "B \<subseteq> {j..<l}" and "i \<le> j" and "j \<le> l"
  shows "A \<union> B \<subseteq> {i..<l}" and "A \<inter> B = {}"
proof -
  have "{i..<j} \<subseteq> {i..<l}" "{j..<l} \<subseteq> {i..<l}" "{i..<j} \<inter> {j..<l} = {}"
    using assms(3,4) by auto
  with assms(1,2) show "A \<union> B \<subseteq> {i..<l}" and "A \<inter> B = {}" by blast+
qed

lemma draw_run [simp]:
  "andThen (fresh_id D) f k = f (kd_new_id D (ks_ids k)) (k\<lparr>ks_ids := ks_ids k + 1\<rparr>)"
  "andThen (read_clock D) g k = g (kd_now D (ks_ticks k)) (k\<lparr>ks_ticks := ks_ticks k + 1\<rparr>)"
  by (simp_all add: andThen_def fresh_id_def read_clock_def)

lemma performs_nothing:
  "ks_journal k' = ks_journal k \<Longrightarrow> ks_ids k \<le> ks_ids k' \<Longrightarrow> performs D c [] k r k'"
  by (simp add: performs_def)

lemma performs_failed:
  assumes "jo_append (kd_journal D) e (ks_journal k) = (Inl x, ks_journal k')"
    and "r = Inl (JournalError x)" and "well_addressed c e"
    and "draws e = map (kd_new_id D) idx" "distinct idx" "set idx \<subseteq> {ks_ids k..<ks_ids k'}"
    and "ks_ids k \<le> ks_ids k'"
  shows "performs D c [e] k r k'"
  using assms by (auto simp: performs_def andThen_def)

lemma performs_cons:
  assumes append: "jo_append (kd_journal D) e (ks_journal k) = (Inr (), ks_journal k1)"
    and addr: "well_addressed c e"
    and drawn: "draws e = map (kd_new_id D) idx" "distinct idx" "set idx \<subseteq> {ks_ids k..<ks_ids k1}"
    and ids: "ks_ids k \<le> ks_ids k1"
    and rest: "performs D c envs k1 r k'" "envs = [] \<Longrightarrow> is_ok r"
  shows "performs D c (e # envs) k r k'"
proof -
  from rest(1) [unfolded performs_def] obtain r' idx' where
    r': "append_all (kd_journal D) envs (ks_journal k1) = (r', ks_journal k')"
      "\<forall>x. r' = Inl x \<longrightarrow> r = Inl (JournalError x)" "envs \<noteq> [] \<and> r' = Inr () \<longrightarrow> is_ok r"
      "is_ok r \<longrightarrow> r' = Inr ()"
    and idx': "concat (map draws envs) = map (kd_new_id D) idx'" "distinct idx'"
      "set idx' \<subseteq> {ks_ids k1..<ks_ids k'}"
    and le: "list_all (well_addressed c) envs" "ks_ids k1 \<le> ks_ids k'"
    by (elim conjE exE) (rule that)
  have all: "append_all (kd_journal D) (e # envs) (ks_journal k) = (r', ks_journal k')"
    using append r'(1) by (simp add: andThen_def)
  have "concat (map draws (e # envs)) = map (kd_new_id D) (idx @ idx')"
    using drawn(1) idx'(1) by simp
  moreover have "distinct (idx @ idx')"
    using drawn(2) idx'(2) ranges_join(2) [OF drawn(3) idx'(3) ids le(2)] by simp
  moreover have "set (idx @ idx') \<subseteq> {ks_ids k..<ks_ids k'}"
    using ranges_join(1) [OF drawn(3) idx'(3) ids le(2)] by simp
  ultimately have "\<exists>idx. concat (map draws (e # envs)) = map (kd_new_id D) idx \<and> distinct idx \<and>
      set idx \<subseteq> {ks_ids k..<ks_ids k'}"
    by blast
  moreover have "e # envs \<noteq> [] \<and> r' = Inr () \<longrightarrow> is_ok r"
    using r'(3) rest(2) by (cases "envs = []") simp_all
  then have "\<exists>r'. append_all (kd_journal D) (e # envs) (ks_journal k) = (r', ks_journal k') \<and>
      (\<forall>x. r' = Inl x \<longrightarrow> r = Inl (JournalError x)) \<and>
      (e # envs \<noteq> [] \<and> r' = Inr () \<longrightarrow> is_ok r) \<and> (is_ok r \<longrightarrow> r' = Inr ())"
    using all r'(2,4) by blast
  ultimately show ?thesis
    using le addr ids by (simp add: performs_def)
qed

text \<open>Drawing an identifier or reading the clock first changes nothing in the account.\<close>

lemma performs_from:
  assumes "performs D c envs k1 r k'" and "ks_journal k1 = ks_journal k" and "ks_ids k \<le> ks_ids k1"
  shows "performs D c envs k r k'"
proof -
  have "{ks_ids k1..<ks_ids k'} \<subseteq> {ks_ids k..<ks_ids k'}" using assms(3) by auto
  then have "set idx \<subseteq> {ks_ids k1..<ks_ids k'} \<Longrightarrow> set idx \<subseteq> {ks_ids k..<ks_ids k'}" for idx
    by (rule order_trans [rotated])
  with assms show ?thesis
    unfolding performs_def by (simp only:) (meson order_trans)
qed

section \<open>Every handler\<close>

text \<open>
  A call is accounted for when its appends are, and each appended event is allowed in the
  state in which the earlier ones leave the conversation.
\<close>

definition call_ok ::
    "('j, 'e) kernel_deps \<Rightarrow> conversation_id \<Rightarrow> 'j kernel_state \<Rightarrow> 'e kernel_error + 'a \<Rightarrow>
     'j kernel_state \<Rightarrow> bool" where
  "call_ok D c k r k' =
     (\<exists>envs. performs D c envs k r k' \<and> (is_ok r \<longrightarrow> envs \<noteq> []) \<and>
       (\<forall>es. jo_load (kd_journal D) c (ks_journal k) = Inr es \<longrightarrow>
          allowed_seq (project es) (map env_event envs)))"

lemma call_okI:
  "performs D c envs k r k' \<Longrightarrow> (is_ok r \<Longrightarrow> envs \<noteq> []) \<Longrightarrow>
   (\<And>es. jo_load (kd_journal D) c (ks_journal k) = Inr es \<Longrightarrow>
      allowed_seq (project es) (map env_event envs)) \<Longrightarrow> call_ok D c k r k'"
  unfolding call_ok_def by blast

lemma call_ok_nothing:
  "ks_journal k' = ks_journal k \<Longrightarrow> ks_ids k \<le> ks_ids k' \<Longrightarrow> call_ok D c k (Inl x) k'"
  by (rule call_okI [of _ _ "[]"]) (auto intro: performs_nothing)

lemma call_ok_reply:
  assumes "then_reply f m k = (r, k')" and "\<And>r0. m k = (r0, k') \<Longrightarrow> call_ok D c k r0 k'"
  shows "call_ok D c k r k'"
proof (cases "m k")
  case (Pair r0 k1)
  then have k1: "k1 = k'" and r: "r = map_sum id f r0"
    using assms(1) by (cases r0; simp add: then_reply_def andThen_def)+
  have same: "is_ok r = is_ok r0" "r = Inl y \<longleftrightarrow> r0 = Inl y" for y
    using r by (cases r0; simp)+
  from Pair k1 assms(2) have "call_ok D c k r0 k'" by simp
  then show ?thesis by (simp add: call_ok_def performs_def same)
qed

definition envelope ::
    "('j, 'e) kernel_deps \<Rightarrow> nat \<Rightarrow> conversation_id \<Rightarrow> participant_id option \<Rightarrow> datetime \<Rightarrow>
     conversation_event \<Rightarrow> event_envelope" where
  "envelope D n c actor at ev =
     \<lparr>env_schema_version = CURRENT_SCHEMA_VERSION, env_event_id = EventId (kd_new_id D n),
      env_conversation_id = c, env_occurred_at = at, env_actor_id = actor, env_event = ev\<rparr>"

lemma envelope_simps [simp]:
  "env_event (envelope D n c actor at ev) = ev"
  "env_conversation_id (envelope D n c actor at ev) = c"
  "draws (envelope D n c actor at ev) = kd_new_id D n # event_draws ev"
  "well_addressed c (envelope D n c actor at ev) =
     (case ev of ConversationCreated s \<Rightarrow> ses_id s = c | _ \<Rightarrow> True)"
  by (simp_all add: envelope_def draws_def well_addressed_def)

lemma append_envelope_cases:
  assumes "append_envelope D c actor at ev k = (r, k1)"
  obtains (failed) x where "r = Inl (JournalError x)" and "ks_ids k1 = ks_ids k + 1"
      and "jo_append (kd_journal D) (envelope D (ks_ids k) c actor at ev) (ks_journal k) =
        (Inl x, ks_journal k1)"
  | (appended) "r = Inr ()" and "ks_ids k1 = ks_ids k + 1"
      and "jo_append (kd_journal D) (envelope D (ks_ids k) c actor at ev) (ks_journal k) =
        (Inr (), ks_journal k1)"
proof -
  obtain y j where step: "jo_append (kd_journal D) (envelope D (ks_ids k) c actor at ev)
      (ks_journal k) = (y, j)" by (cases "jo_append (kd_journal D) (envelope D (ks_ids k) c actor at ev)
      (ks_journal k)")
  with assms have "r = map_sum JournalError id y" and "ks_journal k1 = j" and "ks_ids k1 = ks_ids k + 1"
    by (auto simp: append_envelope_def fresh_id_def andThen_def journal_append_def
        envelope_def [symmetric])
  with step that show thesis by (cases y) auto
qed

lemma load_state_run:
  "load_state D c k = (case jo_load (kd_journal D) c (ks_journal k) of
     Inl x \<Rightarrow> (Inl (JournalError x), k) | Inr es \<Rightarrow> (Inr (project es), k))"
  by (simp add: load_state_def load_events_def andThen_def ret_def split: sum.splits)

lemma andThen_load [simp]:
  "andThen (load_state D c) f k = (case jo_load (kd_journal D) c (ks_journal k) of
     Inl x \<Rightarrow> (Inl (JournalError x), k) | Inr es \<Rightarrow> f (project es) k)"
  by (simp add: andThen_def load_state_run split: sum.splits)

text \<open>One append at the end of a handler.\<close>

lemma append_last:
  assumes "append_envelope D c actor at ev k1 = (r0, k')"
    and "r = map_sum id f r0" and "ks_journal k1 = ks_journal k" and "ks_ids k \<le> ks_ids k1"
    and "case ev of ConversationCreated s \<Rightarrow> ses_id s = c | _ \<Rightarrow> True"
    and "event_draws ev = map (kd_new_id D) idx" "distinct idx" "set idx \<subseteq> {ks_ids k..<ks_ids k1}"
  shows "\<exists>at n. performs D c [envelope D n c actor at ev] k r k'"
proof -
  have idx: "draws (envelope D (ks_ids k1) c actor at ev) = map (kd_new_id D) (ks_ids k1 # idx)"
    "distinct (ks_ids k1 # idx)" "set (ks_ids k1 # idx) \<subseteq> {ks_ids k..<ks_ids k1 + 1}"
    using assms(4,6,7,8) by auto
  from assms(1) show ?thesis
  proof (cases rule: append_envelope_cases)
    case (failed x)
    show ?thesis
      using failed assms(2-5) idx
      by (intro exI performs_failed [where idx = "ks_ids k1 # idx"]) simp_all
  next
    case appended
    show ?thesis
      using appended assms(2-5) idx
      by (intro exI performs_cons [where idx = "ks_ids k1 # idx" and ?k1.0 = k'] performs_nothing)
        simp_all
  qed
qed

lemma record_event_call_ok:
  assumes run: "record_event D c checks actor ev k = (r, k')"
    and draws: "\<And>now. event_draws (ev now) = []"
    and guard: "\<And>st now. checks st = Inr () \<Longrightarrow> event_allowed st (ev now)"
    and created: "\<And>now s. ev now \<noteq> ConversationCreated s"
  shows "call_ok D c k r k'"
proof (cases "jo_load (kd_journal D) c (ks_journal k)")
  case (Inl x)
  with run show ?thesis
    by (auto simp: record_event_def load_state_run andThen_def intro: call_ok_nothing)
next
  case (Inr es)
  show ?thesis
  proof (cases "checks (project es)")
    case (Inl x)
    with run Inr have "r = Inl x" and "k' = k"
      by (simp_all add: record_event_def load_state_run andThen_def lift_def)
    then show ?thesis by (simp add: call_ok_nothing)
  next
    case check: (Inr u)
    let ?now = "kd_now D (ks_ticks k)" and ?k1 = "k\<lparr>ks_ticks := ks_ticks k + 1\<rparr>"
    from run Inr check have step: "append_envelope D c actor ?now (ev ?now) ?k1 = (r, k')"
      by (simp add: record_event_def load_state_run andThen_def lift_def read_clock_def)
    have "\<exists>at n. performs D c [envelope D n c actor at (ev ?now)] k r k'"
      using draws created
      by (intro append_last [OF step, where idx = "[]" and f = id])
         (simp_all add: sum.map_id0 split: conversation_event.splits)
    then obtain at n where "performs D c [envelope D n c actor at (ev ?now)] k r k'" by blast
    then show ?thesis
      using guard check Inr by (intro call_okI) auto
  qed
qed

lemma call_reply_single:
  assumes "then_reply (\<lambda>_. Done) (record_event D c checks actor ev) k = (r, k')"
    and "\<And>now. event_draws (ev now) = []"
    and "\<And>st now. checks st = Inr () \<Longrightarrow> event_allowed st (ev now)"
    and "\<And>now s. ev now \<noteq> ConversationCreated s"
  shows "\<exists>c. call_ok D c k r k'"
  using call_ok_reply [OF assms(1)] record_event_call_ok assms(2-4) by blast

lemmas guard_simps = check_actor_def validate_action_exists_iff validate_action_not_terminal_iff
  bind_result_Inr_iff

lemma find_agent:
  "find (\<lambda>p. p_kind p = Agent) xs = Some p \<Longrightarrow> p \<in> set xs \<and> p_kind p = Agent"
  by (auto simp: find_Some_iff in_set_conv_nth)

text \<open>The iteration order of the participant map lists its values.\<close>

definition order_ok :: "('j, 'e) kernel_deps \<Rightarrow> bool" where
  "order_ok D = (\<forall>m. mset (kd_order D m) = mset (m_values m))"

lemma order_ok_set: "order_ok D \<Longrightarrow> set (kd_order D m) = set (m_values m)"
  unfolding order_ok_def by (metis set_mset_mset)

lemma append_participants_performs:
  "append_participants D c actor at ps k = (r, k') \<Longrightarrow>
   \<exists>envs. performs D c envs k r k' \<and> (ps \<noteq> [] \<longrightarrow> envs \<noteq> []) \<and> (ps = [] \<longrightarrow> r = Inr ()) \<and>
     (\<exists>n. map env_event envs = map ParticipantAdded (take n ps))"
proof (induction ps arbitrary: k)
  case Nil
  then show ?case by (auto intro!: exI [of _ "[]"] performs_nothing)
next
  case (Cons p ps)
  obtain r0 k1 where step: "append_envelope D c actor at (ParticipantAdded p) k = (r0, k1)"
    by (cases "append_envelope D c actor at (ParticipantAdded p) k")
  let ?e = "envelope D (ks_ids k) c actor at (ParticipantAdded p)"
  from step show ?case
  proof (cases rule: append_envelope_cases)
    case (failed x)
    then have r: "r = Inl (JournalError x)" "k' = k1"
      using Cons.prems step by (simp_all add: andThen_def)
    have "performs D c [?e] k r k'"
      using failed r by (intro performs_failed [where idx = "[ks_ids k]"]) simp_all
    then show ?thesis by (intro exI [of _ "[?e]"]) (auto intro!: exI [of _ "Suc 0"])
  next
    case appended
    then have "append_participants D c actor at ps k1 = (r, k')"
      using Cons.prems step by (simp add: andThen_def)
    from Cons.IH [OF this] obtain envs n where envs: "performs D c envs k1 r k'"
      "ps \<noteq> [] \<longrightarrow> envs \<noteq> []" "ps = [] \<longrightarrow> r = Inr ()"
      "map env_event envs = map ParticipantAdded (take n ps)" by blast
    have "performs D c (?e # envs) k r k'"
      using appended envs
      by (intro performs_cons [where idx = "[ks_ids k]" and ?k1.0 = k1]) auto
    then show ?thesis
      using envs by (intro exI [of _ "?e # envs"]) (auto intro!: exI [of _ "Suc n"])
  qed
qed

lemma allowed_participants: "has_session st \<Longrightarrow> allowed_seq st (map ParticipantAdded ps)"
  by (induction ps arbitrary: st) auto

lemma create_conversation_call_ok:
  assumes "create_conversation D cmd k = (r, k')"
  shows "\<exists>c. call_ok D c k r k'"
proof (cases "ccc_participants cmd = []")
  case True
  with assms have "r = Inl AtLeastOneParticipantRequired" "k' = k"
    by (simp_all add: create_conversation_def andThen_def lift_def)
  then show ?thesis by (auto intro: call_ok_nothing)
next
  case False
  let ?c = "ConversationId (kd_new_id D (ks_ids k))" and ?now = "kd_now D (ks_ticks k)"
  let ?k1 = "k\<lparr>ks_ids := ks_ids k + 1, ks_ticks := ks_ticks k + 1\<rparr>"
  let ?s = "new_session cmd ?c ?now"
  let ?e = "envelope D (ks_ids k + 1) ?c (ccc_actor_id cmd) ?now (ConversationCreated ?s)"
  let ?append = "append_envelope D ?c (ccc_actor_id cmd) ?now (ConversationCreated ?s)"
  let ?parts = "append_participants D ?c (ccc_actor_id cmd) ?now (ccc_participants cmd)"
  have run: "create_conversation D cmd k = andThen ?append (\<lambda>_. andThen ?parts (\<lambda>_. ret ?c)) ?k1"
    using False by (simp add: create_conversation_def Let_def)
  have s: "ses_id ?s = ?c" "ses_status ?s = Active" by (simp_all add: new_session_def)
  have idx: "draws ?e = map (kd_new_id D) [ks_ids k + 1, ks_ids k]" by (simp add: s)
  obtain r0 k2 where step: "?append ?k1 = (r0, k2)" by (cases "?append ?k1")
  from step show ?thesis
  proof (cases rule: append_envelope_cases)
    case (failed x)
    then have r: "r = Inl (JournalError x)" "k' = k2"
      using assms run step by (simp_all add: andThen_def)
    have "performs D ?c [?e] k r k'"
      using failed r idx s by (intro performs_failed [where idx = "[ks_ids k + 1, ks_ids k]"]) simp_all
    then have "call_ok D ?c k r k'"
      by (rule call_okI) (simp_all add: s)
    then show ?thesis by blast
  next
    case appended
    obtain r1 k3 where parts: "?parts k2 = (r1, k3)" by (cases "?parts k2")
    have r: "r = map_sum id (\<lambda>_. ?c) r1" "k' = k3"
      using assms run step appended parts by (cases r1; simp add: andThen_def ret_def)+
    obtain envs n where envs: "performs D ?c envs k2 r1 k3" "envs \<noteq> []"
      "map env_event envs = map ParticipantAdded (take n (ccc_participants cmd))"
      using append_participants_performs [OF parts] False by blast
    have "performs D ?c envs k2 r k3"
      using envs(1) unfolding performs_def r(1) by (cases r1) auto
    then have "performs D ?c (?e # envs) k r k'"
      using appended idx s r(2) envs(2)
      by (intro performs_cons [where idx = "[ks_ids k + 1, ks_ids k]" and ?k1.0 = k2]) simp_all
    then have "call_ok D ?c k r k'"
      by (rule call_okI) (simp_all add: s envs(3) allowed_participants)
    then show ?thesis by blast
  qed
qed

text \<open>The common end of \<open>append_message\<close> and \<open>create_assistant_suggestion\<close>.\<close>

lemma message_call_ok:
  assumes run: "andThen (append_envelope D c actor now ev) (\<lambda>_. ret (MessageId (kd_new_id D (ks_ids k))))
      (k\<lparr>ks_ids := ks_ids k + 1, ks_ticks := ks_ticks k + 1\<rparr>) = (r, k')"
    and ev: "event_draws ev = [kd_new_id D (ks_ids k)]" "\<And>s. ev \<noteq> ConversationCreated s"
    and guard: "\<And>es. jo_load (kd_journal D) c (ks_journal k) = Inr es \<Longrightarrow> event_allowed (project es) ev"
  shows "call_ok D c k r k'"
proof -
  let ?k1 = "k\<lparr>ks_ids := ks_ids k + 1, ks_ticks := ks_ticks k + 1\<rparr>"
  obtain r0 k2 where step: "append_envelope D c actor now ev ?k1 = (r0, k2)"
    by (cases "append_envelope D c actor now ev ?k1")
  with run have r: "r = map_sum id (\<lambda>_. MessageId (kd_new_id D (ks_ids k))) r0" "k' = k2"
    by (cases r0; simp add: andThen_def ret_def)+
  have "\<exists>at n. performs D c [envelope D n c actor at ev] k r k2"
    using ev r(1)
    by (intro append_last [OF step, where idx = "[ks_ids k]"])
       (simp_all split: conversation_event.splits)
  then show ?thesis
    using guard r(2) by (auto intro!: call_okI)
qed

lemma append_message_call_ok:
  fixes D :: "('j, 'e) kernel_deps"
  assumes "append_message D cmd k = (r, k')"
  shows "call_ok D (cam_conversation_id cmd) k r k'"
proof (cases "jo_load (kd_journal D) (cam_conversation_id cmd) (ks_journal k)")
  case (Inl x)
  with assms have "r = Inl (JournalError x)" "k' = k"
    by (simp_all add: append_message_def load_state_run andThen_def)
  then show ?thesis by (simp add: call_ok_nothing)
next
  case (Inr es)
  show ?thesis
  proof (cases "check_message cmd (project es) :: ('e, unit) checked")
    case (Inl x)
    with assms Inr have "r = Inl x" "k' = k"
      by (simp_all add: append_message_def load_state_run andThen_def lift_def)
    then show ?thesis by (simp add: call_ok_nothing)
  next
    case check: (Inr u)
    show ?thesis
    proof (rule message_call_ok)
      show "andThen (append_envelope D (cam_conversation_id cmd) (Some (cam_sender_id cmd))
          (kd_now D (ks_ticks k)) (MessageAppended (new_message cmd
            (MessageId (kd_new_id D (ks_ids k))) (kd_now D (ks_ticks k)))))
          (\<lambda>_. ret (MessageId (kd_new_id D (ks_ids k))))
          (k\<lparr>ks_ids := ks_ids k + 1, ks_ticks := ks_ticks k + 1\<rparr>) = (r, k')"
        using assms Inr check
        by (simp add: append_message_def load_state_run andThen_def lift_def fresh_id_def
            read_clock_def)
    next
      fix es'
      assume "jo_load (kd_journal D) (cam_conversation_id cmd) (ks_journal k) = Inr es'"
      with Inr check show "event_allowed (project es') (MessageAppended (new_message cmd
            (MessageId (kd_new_id D (ks_ids k))) (kd_now D (ks_ticks k))))"
        by (auto intro: check_message_iff [THEN iffD1])
    qed (simp_all add: new_message_def)
  qed
qed

lemma create_assistant_suggestion_call_ok:
  fixes D :: "('j, 'e) kernel_deps"
  assumes "create_assistant_suggestion D cmd k = (r, k')" and "order_ok D"
  shows "call_ok D (ccas_conversation_id cmd) k r k'"
proof (cases "jo_load (kd_journal D) (ccas_conversation_id cmd) (ks_journal k)")
  case (Inl x)
  with assms have "r = Inl (JournalError x)" "k' = k"
    by (simp_all add: create_assistant_suggestion_def load_state_run andThen_def)
  then show ?thesis by (simp add: call_ok_nothing)
next
  case (Inr es)
  let ?check = "both (require_active (project es) (ccas_conversation_id cmd))
       (ensure (is_participant (project es) (ccas_target_user_id cmd))
          (TargetUserNotParticipant (ccas_target_user_id cmd))) :: ('e, unit) checked"
  let ?agent = "find (\<lambda>p. p_kind p = Agent) (kd_order D (cs_participants (project es)))"
  show ?thesis
  proof (cases ?check)
    case (Inl x)
    with assms Inr have "r = Inl x" "k' = k"
      by (simp_all add: create_assistant_suggestion_def load_state_run andThen_def lift_def)
    then show ?thesis by (simp add: call_ok_nothing)
  next
    case check: (Inr u)
    show ?thesis
    proof (cases ?agent)
      case None
      with assms Inr check have "r = Inl NoAgentParticipant" "k' = k"
        by (simp_all add: create_assistant_suggestion_def load_state_run andThen_def lift_def)
      then show ?thesis by (simp add: call_ok_nothing)
    next
      case (Some p)
      have p: "p \<in> set (m_values (cs_participants (project es)))" "p_kind p = Agent"
        using find_agent [OF Some] order_ok_set [OF assms(2)] by auto
      let ?msg = "suggestion_message cmd (MessageId (kd_new_id D (ks_ids k))) (p_id p)
            (kd_now D (ks_ticks k))"
      show ?thesis
      proof (rule message_call_ok)
        show "andThen (append_envelope D (ccas_conversation_id cmd) (Some (p_id p))
            (kd_now D (ks_ticks k)) (AssistantSuggestionCreated ?msg (ccas_trigger cmd)))
            (\<lambda>_. ret (MessageId (kd_new_id D (ks_ids k))))
            (k\<lparr>ks_ids := ks_ids k + 1, ks_ticks := ks_ticks k + 1\<rparr>) = (r, k')"
          using assms(1) Inr check Some
          by (simp add: create_assistant_suggestion_def load_state_run andThen_def lift_def
              fresh_id_def read_clock_def)
      next
        fix es'
        assume "jo_load (kd_journal D) (ccas_conversation_id cmd) (ks_journal k) = Inr es'"
        with Inr check p show "event_allowed (project es')
            (AssistantSuggestionCreated ?msg (ccas_trigger cmd))"
          by (auto simp: suggestion_allowed_def suggestion_message_def)
      qed (simp_all add: suggestion_message_def)
    qed
  qed
qed

lemma request_agent_run_call_ok:
  fixes D :: "('j, 'e) kernel_deps"
  assumes "request_agent_run D cmd k = (r, k')"
  shows "call_ok D (crar_conversation_id cmd) k r k'"
proof (cases "jo_load (kd_journal D) (crar_conversation_id cmd) (ks_journal k)")
  case (Inl x)
  with assms have "r = Inl (JournalError x)" "k' = k"
    by (simp_all add: request_agent_run_def Let_def)
  then show ?thesis by (simp add: call_ok_nothing)
next
  case (Inr es)
  let ?c = "crar_conversation_id cmd" and ?t = "crar_trigger_message_id cmd"
  let ?check = "both (ensure (cs_session (project es) \<noteq> None) (ConversationNotFound ?c))
       (ensure (m_contains (cs_messages_by_id (project es)) ?t) (TriggerMessageNotFound ?t))
       :: ('e, unit) checked"
  show ?thesis
  proof (cases ?check)
    case (Inl x)
    with assms Inr have "r = Inl x" "k' = k"
      by (simp_all add: request_agent_run_def Let_def)
    then show ?thesis by (simp add: call_ok_nothing)
  next
    case check: (Inr u)
    let ?now = "kd_now D (ks_ticks k)" and ?actor = "Some (crar_requested_by cmd)"
    let ?run = "kd_new_id D (ks_ids k)" and ?slice = "kd_new_id D (ks_ids k + 1)"
    let ?k1 = "k\<lparr>ks_ids := ks_ids k + 2, ks_ticks := ks_ticks k + 1\<rparr>"
    let ?ms = "map msg_id (last_n 20 (cs_messages (project es)))"
    let ?slice_ev = "ContextSliceBuilt ?slice ?t ?ms" and ?run_ev = "AgentRunRequested ?run ?t ?slice"
    have run: "request_agent_run D cmd k =
        andThen (append_envelope D ?c ?actor ?now ?slice_ev) (\<lambda>_.
        andThen (append_envelope D ?c ?actor ?now ?run_ev) (\<lambda>_. ret ?run)) ?k1"
      using Inr check
      by (simp add: request_agent_run_def Let_def)
    have guard: "allowed_seq (project es) [?slice_ev, ?run_ev]" using check by auto
    obtain r0 k2 where step: "append_envelope D ?c ?actor ?now ?slice_ev ?k1 = (r0, k2)"
      by (cases "append_envelope D ?c ?actor ?now ?slice_ev ?k1")
    let ?e = "envelope D (ks_ids k + 2) ?c ?actor ?now ?slice_ev"
    have idx: "draws ?e = map (kd_new_id D) [ks_ids k + 2, ks_ids k + 1]" by simp
    from step show ?thesis
    proof (cases rule: append_envelope_cases)
      case (failed x)
      then have r: "r = Inl (JournalError x)" "k' = k2"
        using assms run step by (simp_all add: andThen_def)
      have "performs D ?c [?e] k r k'"
        using failed r idx by (intro performs_failed [where idx = "[ks_ids k + 2, ks_ids k + 1]"]) simp_all
      then show ?thesis
        by (rule call_okI) (use guard Inr in simp_all)
    next
      case appended
      obtain r1 k3 where second: "append_envelope D ?c ?actor ?now ?run_ev k2 = (r1, k3)"
        by (cases "append_envelope D ?c ?actor ?now ?run_ev k2")
      have r: "r = map_sum id (\<lambda>_. ?run) r1" "k' = k3"
        using assms run step appended second by (cases r1; simp add: andThen_def ret_def)+
      let ?e2 = "envelope D (ks_ids k2) ?c ?actor ?now ?run_ev"
      have ids: "concat (map draws [?e, ?e2]) =
          map (kd_new_id D) [ks_ids k + 2, ks_ids k + 1, ks_ids k + 3, ks_ids k]"
        "distinct [ks_ids k + 2, ks_ids k + 1, ks_ids k + 3, ks_ids k]"
        "set [ks_ids k + 2, ks_ids k + 1, ks_ids k + 3, ks_ids k] \<subseteq> {ks_ids k..<ks_ids k + 4}"
        using appended by (simp_all add: numeral_eq_Suc)
      have "\<exists>y. append_all (kd_journal D) [?e, ?e2] (ks_journal k) = (y, ks_journal k') \<and>
          (\<forall>x. y = Inl x \<longrightarrow> r = Inl (JournalError x)) \<and> (y = Inr () \<longleftrightarrow> is_ok r)"
        and ids': "ks_ids k' = ks_ids k + 4"
        using second
        by (cases rule: append_envelope_cases; use appended r in \<open>simp add: andThen_def\<close>)+
      then obtain y where y: "append_all (kd_journal D) [?e, ?e2] (ks_journal k) = (y, ks_journal k')"
        "\<forall>x. y = Inl x \<longrightarrow> r = Inl (JournalError x)" "y = Inr () \<longleftrightarrow> is_ok r" by blast
      then have "performs D ?c [?e, ?e2] k r k'"
        by (intro performsI [OF _ _ _ _ _ ids(1,2)]) (use ids(3) in \<open>simp_all add: ids'\<close>)
      then show ?thesis
        by (rule call_okI) (use guard Inr in simp_all)
    qed
  qed
qed

lemmas reply_intros = call_ok_reply [OF _ append_message_call_ok]
  call_ok_reply [OF _ create_assistant_suggestion_call_ok] call_ok_reply [OF _ request_agent_run_call_ok]

lemma create_reply_call_ok:
  assumes "then_reply NewConversation (create_conversation D cmd) k = (r, k')"
  shows "\<exists>c. call_ok D c k r k'"
proof -
  obtain r0 k0 where run: "create_conversation D cmd k = (r0, k0)"
    by (cases "create_conversation D cmd k")
  then obtain c where "call_ok D c k r0 k0" using create_conversation_call_ok by blast
  with run assms have "call_ok D c k r k'" by (intro call_ok_reply [OF assms]) auto
  then show ?thesis by blast
qed

lemma dispatch_call_ok:
  assumes "dispatch D cmd k = (r, k')" and "order_ok D"
  shows "\<exists>c. call_ok D c k r k'"
proof (cases cmd)
  case (DoCreateConversation x)
  with assms show ?thesis using create_reply_call_ok by simp
next
  case (DoAppendMessage x)
  with assms show ?thesis by (auto intro: reply_intros)
next
  case (DoCreateAssistantSuggestion x)
  with assms show ?thesis by (auto intro: reply_intros)
next
  case (DoRequestAgentRun x)
  with assms show ?thesis by (auto intro: reply_intros)
qed (insert assms(1), simp_all only: dispatch.simps single_event_handlers,
     (erule call_reply_single;
      auto simp: guard_simps action_in_def dest: action_in_not_terminal)+)

end
