(* ===== verification/Kernel_Safety.thy ===== *)
theory Kernel_Safety
  imports Kernel_Runs
begin

text \<open>
  Safety of the conversation kernel: a failed command leaves the journal as it was,
  histories only grow, every history that any sequence of commands can produce consists
  of events allowed in the state they were applied to with identifiers never used twice,
  and the life cycles of actions and agent runs that follow from it. The lemmas are
  proved for every journal that satisfies the contract \<open>event_journal\<close>; the properties
  use them on the in-memory journal.
\<close>

section \<open>Histories\<close>

definition history_ok :: "event_envelope list \<Rightarrow> bool" where
  "history_ok es = allowed_seq empty_state (map env_event es)"

definition ids_of :: "event_envelope list \<Rightarrow> string list" where
  "ids_of es = concat (map draws es)"

lemma ids_of_simps [simp]:
  "ids_of [] = []" "ids_of (e # es) = draws e @ ids_of es" "ids_of (xs @ ys) = ids_of xs @ ids_of ys"
  by (simp_all add: ids_of_def)

lemma history_ok_append:
  "history_ok (xs @ ys) \<longleftrightarrow> history_ok xs \<and> allowed_seq (project xs) (map env_event ys)"
  by (simp add: history_ok_def allowed_seq_append foldl_apply_event project_def)

lemma history_ok_first:
  assumes "history_ok (e # es)"
  obtains s where "env_event e = ConversationCreated s"
proof -
  have "event_allowed empty_state (env_event e)" using assms by (simp add: history_ok_def)
  then show thesis
    by (cases "env_event e")
       (auto simp: empty_state_def message_allowed_def suggestion_allowed_def session_active_def
         intro: that)
qed

text \<open>
  The opening event introduces the conversation's own identifier, so with identifiers
  never repeated a conversation is created once.
\<close>

lemma created_once:
  assumes "history_ok (e # es)" and "list_all (well_addressed c) (e # es)"
    and "distinct (ids_of (e # es))"
  shows "(\<exists>s. env_event e = ConversationCreated s \<and> ses_id s = c) \<and>
    (\<forall>x \<in> set es. \<forall>s. env_event x \<noteq> ConversationCreated s)"
proof -
  obtain s where s: "env_event e = ConversationCreated s" using history_ok_first [OF assms(1)] .
  then have sc: "ses_id s = c" using assms(2) by (simp add: well_addressed_def)
  have "env_event x \<noteq> ConversationCreated s'" if "x \<in> set es" for x s'
  proof
    assume x: "env_event x = ConversationCreated s'"
    then have "ses_id s' = c" using assms(2) that by (auto simp: well_addressed_def list_all_iff)
    moreover obtain i where "c = ConversationId i" by (cases c)
    ultimately have "i \<in> set (draws e)" "i \<in> set (draws x)"
      using s sc x by (cases "env_event_id e"; cases "env_event_id x"; simp add: draws_def)+
    then show False
      using assms(3) that by (auto simp: ids_of_def)
  qed
  with s sc show ?thesis by blast
qed

section \<open>Growth and well-formedness under the journal contract\<close>

inductive kernel_reach :: "('j, 'e) kernel_deps \<Rightarrow> 'j kernel_state \<Rightarrow> 'j kernel_state \<Rightarrow> bool"
  for D k0 where
  start: "kernel_reach D k0 k0"
| step: "kernel_reach D k0 k \<Longrightarrow> dispatch D cmd k = (r, k') \<Longrightarrow> kernel_reach D k0 k'"

lemma kernel_reach_trans:
  "kernel_reach D k1 k2 \<Longrightarrow> kernel_reach D k0 k1 \<Longrightarrow> kernel_reach D k0 k2"
  by (induction rule: kernel_reach.induct) (auto intro: kernel_reach.step)

definition history_wf :: "('j, 'e) kernel_deps \<Rightarrow> nat \<Rightarrow> conversation_id \<Rightarrow> event_envelope list \<Rightarrow> bool" where
  "history_wf D n c es =
     (list_all (well_addressed c) es \<and> history_ok es \<and> distinct (ids_of es) \<and>
      set (ids_of es) \<subseteq> kd_new_id D ` {..<n})"

lemma history_wf_mono: "history_wf D n c es \<Longrightarrow> n \<le> m \<Longrightarrow> history_wf D m c es"
  by (force simp: history_wf_def)

lemma history_wf_extend:
  assumes wf: "history_wf D n c es" and inj: "inj (kd_new_id D)" and le: "n \<le> m"
    and addr: "list_all (well_addressed c) envs"
    and allowed: "allowed_seq (project es) (map env_event envs)"
    and drawn: "ids_of envs = map (kd_new_id D) idx" "distinct idx" "set idx \<subseteq> {n..<m}"
  shows "history_wf D m c (es @ take i envs)"
proof -
  have sub: "set (ids_of (take i envs)) \<subseteq> kd_new_id D ` {n..<m}"
  proof -
    have "set (ids_of (take i envs)) \<subseteq> set (ids_of envs)"
      by (metis append_take_drop_id ids_of_simps(3) set_append Un_upper1)
    moreover have "set (ids_of envs) \<subseteq> kd_new_id D ` {n..<m}"
      using drawn(3) by (simp add: drawn(1) image_mono)
    ultimately show ?thesis by (rule order_trans)
  qed
  have "distinct (ids_of envs)"
    using drawn(1,2) inj by (simp add: distinct_map inj_on_def inj_def)
  then have "distinct (ids_of (take i envs))"
    by (metis append_take_drop_id ids_of_simps(3) distinct_append)
  moreover have "set (ids_of es) \<inter> set (ids_of (take i envs)) = {}"
    using wf sub inj by (fastforce simp: history_wf_def inj_def)
  moreover have "list_all (well_addressed c) (take i envs)"
    using addr by (auto simp: list_all_iff dest: in_set_takeD)
  moreover have "allowed_seq (project es) (map env_event (take i envs))"
    using allowed_seq_take [OF allowed] by (simp add: take_map)
  moreover have "kd_new_id D ` {..<n} \<subseteq> kd_new_id D ` {..<m}" "kd_new_id D ` {n..<m} \<subseteq> kd_new_id D ` {..<m}"
    using le by auto
  ultimately show ?thesis
    using wf sub by (auto simp: history_wf_def history_ok_append)
qed

context event_journal
begin

lemma append_all_prefix:
  "inv j \<Longrightarrow> list_all accepts es \<Longrightarrow> append_all J es j = (r, j') \<Longrightarrow> jo_load J c j = Inr old \<Longrightarrow>
   inv j' \<and> (\<exists>n. jo_load J c j' = Inr (old @ filter (\<lambda>e. same (env_conversation_id e) c) (take n es)))"
proof (induction es arbitrary: j old)
  case Nil
  then show ?case by auto
next
  case (Cons e es)
  obtain x j1 where step: "jo_append J e j = (x, j1)" by (cases "jo_append J e j")
  have inv1: "inv j1" using Cons.prems(1,2) step by (auto intro: append_inv)
  show ?case
  proof (cases x)
    case (Inl y)
    then have "j' = j1" using Cons.prems(3) step by (simp add: andThen_def)
    moreover have "jo_load J c j1 = Inr old"
      using append_error [of j e y j1 c] Cons.prems step Inl by simp
    ultimately show ?thesis using inv1 by (auto intro: exI [of _ 0])
  next
    case (Inr u)
    then have rest: "append_all J es j1 = (r, j')" using Cons.prems(3) step by (simp add: andThen_def)
    have load1: "jo_load J c j1 = Inr (if same (env_conversation_id e) c then old @ [e] else old)"
      using append_load Cons.prems(1,2,4) step Inr by simp
    have "list_all accepts es" using Cons.prems(2) by simp
    from Cons.IH [OF inv1 this rest load1] obtain n where "inv j'"
      "jo_load J c j' = Inr ((if same (env_conversation_id e) c then old @ [e] else old) @
         filter (\<lambda>e. same (env_conversation_id e) c) (take n es))" by blast
    then show ?thesis by (intro conjI exI [of _ "Suc n"]) auto
  qed
qed

lemma filter_addressed:
  "list_all (well_addressed c) envs \<Longrightarrow>
   filter (\<lambda>e. env_conversation_id e = c') envs = (if c' = c then envs else [])"
  by (induction envs) (auto simp: well_addressed_def)

text \<open>One command: the history of its conversation grows by allowed events, the others stay.\<close>

lemma dispatch_history:
  assumes run: "dispatch D cmd k = (r, k')" and J: "kd_journal D = J" and order: "order_ok D"
    and all: "\<And>e. accepts e" and inv: "inv (ks_journal k)"
    and load: "jo_load J c (ks_journal k) = Inr es" and eq: "same = (=)"
  shows "inv (ks_journal k') \<and> ks_ids k \<le> ks_ids k' \<and>
    (\<exists>tail. jo_load J c (ks_journal k') = Inr (es @ tail) \<and>
       (inj (kd_new_id D) \<longrightarrow> history_wf D (ks_ids k) c es \<longrightarrow>
          history_wf D (ks_ids k') c (es @ tail)))"
proof -
  obtain c0 envs where perf: "performs D c0 envs k r k'"
    and allowed: "\<And>es. jo_load J c0 (ks_journal k) = Inr es \<Longrightarrow>
      allowed_seq (project es) (map env_event envs)"
    using dispatch_call_ok [OF run order] J by (auto simp: call_ok_def)
  obtain r' where addr: "list_all (well_addressed c0) envs"
    and r': "append_all J envs (ks_journal k) = (r', ks_journal k')" and ids: "ks_ids k \<le> ks_ids k'"
    using perf J by (auto simp: performs_def)
  obtain idx where idx: "ids_of envs = map (kd_new_id D) idx" "distinct idx"
    "set idx \<subseteq> {ks_ids k..<ks_ids k'}"
    using perf by (auto simp: performs_def ids_of_def)
  from all have acc: "list_all accepts envs" by (simp add: list_all_iff)
  from append_all_prefix [OF inv acc r' load, unfolded eq] obtain n where inv': "inv (ks_journal k')"
    and n: "jo_load J c (ks_journal k') =
      Inr (es @ filter (\<lambda>e. env_conversation_id e = c) (take n envs))" by blast
  have addr_n: "list_all (well_addressed c0) (take n envs)"
    using addr by (auto simp: list_all_iff dest: in_set_takeD)
  note tail = n [unfolded filter_addressed [OF addr_n]]
  show ?thesis
  proof (cases "c = c0")
    case True
    then have "history_wf D (ks_ids k') c (es @ take n envs)"
      if "inj (kd_new_id D)" "history_wf D (ks_ids k) c es"
      using history_wf_extend [OF that(2,1) ids _ _ idx] addr allowed load by simp
    with True tail inv' ids show ?thesis by auto
  next
    case False
    with tail inv' ids show ?thesis by (auto intro: history_wf_mono)
  qed
qed

lemma reach_history:
  assumes "kernel_reach D k k'" and "kd_journal D = J" and "order_ok D" and "\<And>e. accepts e"
    and "inv (ks_journal k)" and "jo_load J c (ks_journal k) = Inr es" and eq: "same = (=)"
  shows "inv (ks_journal k') \<and> ks_ids k \<le> ks_ids k' \<and>
    (\<exists>tail. jo_load J c (ks_journal k') = Inr (es @ tail) \<and>
       (inj (kd_new_id D) \<longrightarrow> history_wf D (ks_ids k) c es \<longrightarrow>
          history_wf D (ks_ids k') c (es @ tail)))"
  using assms(1)
proof (induction rule: kernel_reach.induct)
  case start
  then show ?case using assms by simp
next
  case (step k1 cmd r k2)
  then obtain tail where IH: "inv (ks_journal k1)" "ks_ids k \<le> ks_ids k1"
    "jo_load J c (ks_journal k1) = Inr (es @ tail)"
    "inj (kd_new_id D) \<longrightarrow> history_wf D (ks_ids k) c es \<longrightarrow> history_wf D (ks_ids k1) c (es @ tail)"
    by blast
  from dispatch_history [OF step.hyps(2) assms(2,3,4) IH(1,3) eq] obtain tail' where
    "inv (ks_journal k2)" "ks_ids k1 \<le> ks_ids k2"
    "jo_load J c (ks_journal k2) = Inr ((es @ tail) @ tail')"
    "inj (kd_new_id D) \<longrightarrow> history_wf D (ks_ids k1) c (es @ tail) \<longrightarrow>
       history_wf D (ks_ids k2) c ((es @ tail) @ tail')"
    by blast
  with IH show ?case by (intro conjI exI [of _ "tail @ tail'"]) auto
qed

end

section \<open>Life cycles\<close>

text \<open>
  Transitions of one action or run under allowed events, and what they give for whole
  histories by induction.
\<close>

abbreviation action_of :: "conversation_state \<Rightarrow> action_id \<Rightarrow> conversation_action_state option" where
  "action_of st a \<equiv> m_get (cs_actions st) a"

abbreviation run_of :: "conversation_state \<Rightarrow> string \<Rightarrow> agent_run_state option" where
  "run_of st r \<equiv> m_get (cs_agent_runs st) r"

definition requests_action :: "action_id \<Rightarrow> conversation_event \<Rightarrow> bool" where
  "requests_action a ev = (case ev of ActionRequested q \<Rightarrow> req_action_id q = a | _ \<Rightarrow> False)"

definition approves_action :: "action_id \<Rightarrow> conversation_event \<Rightarrow> bool" where
  "approves_action a ev = (case ev of ActionApproved b p \<Rightarrow> b = a | _ \<Rightarrow> False)"

definition requests_run :: "string \<Rightarrow> conversation_event \<Rightarrow> bool" where
  "requests_run r ev = (case ev of AgentRunRequested q t s \<Rightarrow> q = r | _ \<Rightarrow> False)"

lemma unapproved_step:
  "event_allowed st ev \<Longrightarrow> action_in st a {ActApprovalRequired, ActDenied} \<Longrightarrow>
   \<not> requests_action a ev \<Longrightarrow> \<not> approves_action a ev \<Longrightarrow>
   action_in (apply_event st ev) a {ActApprovalRequired, ActDenied} \<and> ev \<noteq> ActionStarted a"
  by (cases ev) (auto simp: action_in_def requests_action_def approves_action_def
      state_update_defs split: option.splits)

lemma unapproved_never_started:
  "allowed_seq st evs \<Longrightarrow> action_in st a {ActApprovalRequired, ActDenied} \<Longrightarrow>
   \<forall>ev \<in> set evs. \<not> requests_action a ev \<and> \<not> approves_action a ev \<Longrightarrow>
   ActionStarted a \<notin> set evs"
proof (induction evs arbitrary: st)
  case Nil
  then show ?case by simp
next
  case (Cons ev evs)
  then have "action_in (apply_event st ev) a {ActApprovalRequired, ActDenied}" "ev \<noteq> ActionStarted a"
    using unapproved_step [of st ev a] by auto
  with Cons show ?case by auto
qed

lemma terminal_action_step:
  "event_allowed st ev \<Longrightarrow> action_of st a = Some x \<Longrightarrow> act_is_terminal (ca_status x) \<Longrightarrow>
   \<not> requests_action a ev \<Longrightarrow> action_of (apply_event st ev) a = Some x"
  by (cases ev) (auto simp: action_in_def requests_action_def act_is_terminal_def state_update_defs)

lemma terminal_action_frozen:
  "allowed_seq st evs \<Longrightarrow> action_of st a = Some x \<Longrightarrow> act_is_terminal (ca_status x) \<Longrightarrow>
   \<forall>ev \<in> set evs. \<not> requests_action a ev \<Longrightarrow> action_of (foldl apply_event st evs) a = Some x"
proof (induction evs arbitrary: st)
  case Nil
  then show ?case by simp
next
  case (Cons ev evs)
  then have "action_of (apply_event st ev) a = Some x" using terminal_action_step by simp
  with Cons show ?case by simp
qed

definition run_terminal :: "agent_run_state \<Rightarrow> bool" where
  "run_terminal x = (run_status x \<notin> {RunRequested, RunStarted})"

lemma terminal_run_step:
  "event_allowed st ev \<Longrightarrow> run_of st r = Some x \<Longrightarrow> run_terminal x \<Longrightarrow>
   \<not> requests_run r ev \<Longrightarrow> run_of (apply_event st ev) r = Some x"
  by (cases ev) (auto simp: run_live_def run_terminal_def requests_run_def state_update_defs)

lemma terminal_run_frozen:
  "allowed_seq st evs \<Longrightarrow> run_of st r = Some x \<Longrightarrow> run_terminal x \<Longrightarrow>
   \<forall>ev \<in> set evs. \<not> requests_run r ev \<Longrightarrow> run_of (foldl apply_event st evs) r = Some x"
proof (induction evs arbitrary: st)
  case Nil
  then show ?case by simp
next
  case (Cons ev evs)
  then have "run_of (apply_event st ev) r = Some x" using terminal_run_step by simp
  with Cons show ?case by simp
qed

text \<open>A run that exists was requested, under an identifier drawn in the history.\<close>

lemma run_requested_step:
  "run_of (apply_event st ev) r \<noteq> None \<Longrightarrow> run_of st r \<noteq> None \<or> requests_run r ev"
  by (cases ev) (auto simp: requests_run_def state_update_defs split: if_splits)

lemma run_requested:
  "run_of (project es) r \<noteq> None \<Longrightarrow> \<exists>e \<in> set es. requests_run r (env_event e)"
proof (induction es rule: rev_induct)
  case Nil
  then show ?case by (simp add: empty_state_def)
next
  case (snoc e es)
  then have "run_of (project es) r \<noteq> None \<or> requests_run r (env_event e)"
    using run_requested_step [of "project es" "env_event e" r] by (simp only: project_snoc) blast
  with snoc.IH show ?case by auto
qed

lemma requests_run_draws: "requests_run r (env_event e) \<Longrightarrow> r \<in> set (draws e)"
  by (cases "env_event_id e")
     (auto simp: requests_run_def draws_def split: conversation_event.splits)

lemma run_requested_once:
  assumes "distinct (ids_of (es @ tail))" and "run_of (project es) r \<noteq> None"
  shows "\<forall>e \<in> set tail. \<not> requests_run r (env_event e)"
proof
  fix e
  assume e: "e \<in> set tail"
  obtain e0 where "e0 \<in> set es" "requests_run r (env_event e0)"
    using run_requested [OF assms(2)] by blast
  then have "r \<in> set (ids_of es)" by (auto simp: ids_of_def dest: requests_run_draws)
  then have "r \<notin> set (ids_of tail)" using assms(1) by auto
  then show "\<not> requests_run r (env_event e)"
    using e by (auto simp: ids_of_def dest: requests_run_draws)
qed

text \<open>No handler starts a thread, so under kernel histories there is none.\<close>

lemma no_thread_step:
  "event_allowed st ev \<Longrightarrow> cs_threads st = [] \<Longrightarrow> cs_threads (apply_event st ev) = []"
  by (cases ev) (auto simp: state_update_defs message_allowed_def suggestion_allowed_def
      thread_allowed_def split: option.splits)

lemma no_threads:
  "allowed_seq st evs \<Longrightarrow> cs_threads st = [] \<Longrightarrow> cs_threads (foldl apply_event st evs) = []"
  by (induction evs arbitrary: st) (auto simp: no_thread_step)

section \<open>The timeline and its index\<close>

text \<open>
  The two copies of every message the projection keeps agree: looking a message up in the
  index is searching the timeline, and the timeline has no two messages with one
  identifier.
\<close>

definition timeline_sync :: "conversation_state \<Rightarrow> bool" where
  "timeline_sync st =
     (distinct (map msg_id (cs_messages st)) \<and>
      (\<forall>i. m_get (cs_messages_by_id st) i = find (\<lambda>m. msg_id m = i) (cs_messages st)))"

lemma find_snoc: "find p (xs @ [x]) = (case find p xs of Some y \<Rightarrow> Some y | None \<Rightarrow> if p x then Some x else None)"
  by (induction xs) auto

lemma find_update_first:
  "(\<And>m. msg_id (f m) = msg_id m) \<Longrightarrow>
   find (\<lambda>m. msg_id m = j) (update_first (\<lambda>m. msg_id m = i) f xs) =
     (if i = j then map_option f (find (\<lambda>m. msg_id m = j) xs) else find (\<lambda>m. msg_id m = j) xs)"
  by (induction xs) auto

fun new_message_of :: "conversation_event \<Rightarrow> message option" where
  "new_message_of (MessageAppended m) = Some m"
| "new_message_of (AssistantSuggestionCreated m t) = Some m"
| "new_message_of _ = None"

lemma timeline_sync_add:
  assumes "timeline_sync st" and "\<not> m_contains (cs_messages_by_id st) (msg_id m)"
  shows "timeline_sync (add_message m st)"
proof -
  have "msg_id m \<notin> msg_id ` set (cs_messages st)"
    using assms by (force simp: timeline_sync_def m_contains_def find_None_iff)
  moreover have "find (\<lambda>x. msg_id x = msg_id m) (cs_messages st) = None"
    using assms by (simp add: timeline_sync_def m_contains_def)
  ultimately show ?thesis
    using assms(1) by (auto simp: timeline_sync_def add_message_def find_snoc split: option.splits)
qed

lemma timeline_sync_step:
  assumes "timeline_sync st" and "event_allowed st ev"
    and "\<And>m. new_message_of ev = Some m \<Longrightarrow> \<not> m_contains (cs_messages_by_id st) (msg_id m)"
  shows "timeline_sync (apply_event st ev)"
proof (cases ev)
  case (MessageEdited i c at)
  have "map msg_id (update_first (\<lambda>m. msg_id m = i) (set_content c at) xs) = map msg_id xs" for xs
    by (rule map_update_first) (simp add: set_content_def)
  with assms(1) MessageEdited show ?thesis
    by (simp add: timeline_sync_def edit_message_state_def find_update_first set_content_def)
qed (use assms in \<open>auto simp: timeline_sync_add, auto simp: timeline_sync_def state_update_defs\<close>)

lemma messages_drawn_step:
  "m_contains (cs_messages_by_id (apply_event st ev)) i \<Longrightarrow>
   m_contains (cs_messages_by_id st) i \<or> (\<exists>m. new_message_of ev = Some m \<and> msg_id m = i)"
  by (cases ev) (auto simp: state_update_defs split: if_splits)

lemma new_message_draws:
  "new_message_of (env_event e) = Some m \<Longrightarrow> msg_id m = MessageId i \<Longrightarrow> i \<in> set (draws e)"
  by (cases "env_event_id e"; cases "env_event e") (auto simp: draws_def)

lemma messages_drawn:
  "m_contains (cs_messages_by_id (project es)) (MessageId i) \<Longrightarrow> i \<in> set (ids_of es)"
proof (induction es rule: rev_induct)
  case Nil
  then show ?case by (simp add: empty_state_def)
next
  case (snoc e es)
  then show ?case
    using messages_drawn_step [of "project es" "env_event e" "MessageId i"]
    by (auto simp: project_snoc dest: new_message_draws)
qed

lemma timeline_sync_history:
  "history_ok es \<Longrightarrow> distinct (ids_of es) \<Longrightarrow> timeline_sync (project es)"
proof (induction es rule: rev_induct)
  case Nil
  then show ?case by (simp add: timeline_sync_def empty_state_def)
next
  case (snoc e es)
  have "\<not> m_contains (cs_messages_by_id (project es)) (msg_id m)"
    if m: "new_message_of (env_event e) = Some m" for m
  proof
    assume c: "m_contains (cs_messages_by_id (project es)) (msg_id m)"
    obtain i where i: "msg_id m = MessageId i" by (cases "msg_id m")
    then have "i \<in> set (ids_of es)" using c messages_drawn by simp
    then show False using new_message_draws [OF m i] snoc.prems(2) by auto
  qed
  moreover have "timeline_sync (project es)" using snoc by (simp add: history_ok_append)
  moreover have "event_allowed (project es) (env_event e)"
    using snoc.prems(1) by (simp add: history_ok_append)
  ultimately show ?case by (auto simp: project_snoc intro: timeline_sync_step)
qed

end
