(* ===== verification/Kernel_Properties.thy ===== *)
theory Kernel_Properties
  imports Kernel_Safety
begin

text \<open>
  The properties of the conversation kernel, for the kernel over the in-memory journal
  unless a property says otherwise, and a small deployment (two participants, unary
  identifiers, a clock that ticks) on which each of them is exercised.
\<close>

section \<open>A concrete deployment\<close>

definition demo_deps :: "(memory_journal, string) kernel_deps" where
  "demo_deps =
     \<lparr>kd_journal = memory_ops, kd_new_id = (\<lambda>n. replicate n (CHR ''x'')), kd_now = int,
      kd_order = m_values\<rparr>"

definition start_state :: "memory_journal kernel_state" where
  "start_state = \<lparr>ks_journal = [], ks_ids = 0, ks_ticks = 0\<rparr>"

lemma demo_deps_ok [simp]:
  "kd_journal demo_deps = memory_ops" "order_ok demo_deps" "inj (kd_new_id demo_deps)"
  by (auto simp: demo_deps_def order_ok_def inj_def)

lemma start_history: "memory_load c (ks_journal start_state) = Inr []"
  by (simp add: start_state_def memory_load_def)

fun run_all ::
    "('j, 'e) kernel_deps \<Rightarrow> command list \<Rightarrow> 'j kernel_state \<Rightarrow>
     ('e kernel_error + reply) list \<times> 'j kernel_state" where
  "run_all D [] k = ([], k)"
| "run_all D (cmd # cmds) k =
     (let (r, k1) = dispatch D cmd k; (rs, k2) = run_all D cmds k1 in (r # rs, k2))"

lemma run_all_reach_from:
  "kernel_reach D k0 k \<Longrightarrow> kernel_reach D k0 (snd (run_all D cmds k))"
proof (induction cmds arbitrary: k)
  case Nil
  then show ?case by simp
next
  case (Cons cmd cmds)
  obtain r k1 where step: "dispatch D cmd k = (r, k1)" by (cases "dispatch D cmd k")
  with Cons.prems have "kernel_reach D k0 k1" by (rule kernel_reach.step)
  from Cons.IH [OF this] step show ?case
    by (cases "run_all D cmds k1") (simp add: Let_def)
qed

lemma run_all_reach: "kernel_reach D k (snd (run_all D cmds k))"
  by (rule run_all_reach_from) (rule kernel_reach.start)

definition alice :: participant where
  "alice = \<lparr>p_id = ParticipantId ''alice'', p_kind = Human, p_display_name = ''Alice''\<rparr>"

definition bot :: participant where
  "bot = \<lparr>p_id = ParticipantId ''bot'', p_kind = Agent, p_display_name = ''Bot''\<rparr>"

definition demo_conversation :: conversation_id where
  "demo_conversation = ConversationId []"

definition demo_action :: action_request where
  "demo_action =
     \<lparr>req_action_id = ActionId ''a1'', req_action_kind = ActionKind ''mail.send'',
      req_input = JNull, req_requested_by = ''bot'', req_conversation_id = None,
      req_message_id = None, req_requested_at = 0\<rparr>"

definition demo_create :: command where
  "demo_create = DoCreateConversation
     \<lparr>ccc_kind = Group, ccc_title = None, ccc_participants = [alice, bot],
      ccc_actor_id = Some (p_id alice)\<rparr>"

definition say :: "participant \<Rightarrow> string \<Rightarrow> append_message_command" where
  "say p s =
     \<lparr>cam_conversation_id = demo_conversation, cam_sender_id = p_id p, cam_content = Text s,
      cam_reply_to = None, cam_thread_id = None, cam_visibility = VisConversation\<rparr>"

definition demo_request :: command where
  "demo_request = DoRequestAction
     \<lparr>cra_conversation_id = demo_conversation, cra_action_request = demo_action,
      cra_requested_by = Some (p_id bot)\<rparr>"

definition demo_require :: command where
  "demo_require = DoRequireActionApproval
     \<lparr>craa_conversation_id = demo_conversation, craa_action_id = ActionId ''a1'',
      craa_reason = ''policy'', craa_required_by = None\<rparr>"

definition demo_approve :: command where
  "demo_approve = DoApproveAction
     \<lparr>caa_conversation_id = demo_conversation, caa_action_id = ActionId ''a1'',
      caa_approved_by = p_id alice\<rparr>"

definition demo_deny :: command where
  "demo_deny = DoDenyAction
     \<lparr>cda_conversation_id = demo_conversation, cda_action_id = ActionId ''a1'',
      cda_reason = ''no'', cda_denied_by = Some (p_id alice)\<rparr>"

definition demo_start :: command where
  "demo_start = DoStartAction
     \<lparr>csa_conversation_id = demo_conversation, csa_action_id = ActionId ''a1'',
      csa_started_by = Some (p_id bot)\<rparr>"

definition demo_run :: command where
  "demo_run = DoRequestAgentRun
     \<lparr>crar_conversation_id = demo_conversation,
      crar_trigger_message_id = MessageId (replicate 4 (CHR ''x'')),
      crar_requested_by = ParticipantId ''mallory''\<rparr>"

definition demo_cancel :: command where
  "demo_cancel = DoCancelAgentRun
     \<lparr>cxar_conversation_id = demo_conversation, cxar_run_id = replicate 6 (CHR ''x''),
      cxar_reason = ''stop'', cxar_cancelled_by = p_id alice\<rparr>"

text \<open>The state after a script.\<close>

definition after :: "command list \<Rightarrow> memory_journal kernel_state" where
  "after cmds = snd (run_all demo_deps cmds start_state)"

lemma after_reach: "kernel_reach demo_deps start_state (after cmds)"
  by (simp add: after_def run_all_reach)

definition history :: "memory_journal kernel_state \<Rightarrow> conversation_id \<Rightarrow> event_envelope list" where
  "history k c = (case m_get (ks_journal k) c of None \<Rightarrow> [] | Some es \<Rightarrow> es)"

lemma memory_load_history: "memory_load c (ks_journal k) = Inr (history k c)"
  by (simp add: memory_load_def history_def)

section \<open>Commands that fail\<close>

text \<open>
  C7. A command of the kernel that is rejected, for any reason other than a failing
  journal, leaves the journal exactly as it was: whatever the journal, the command and
  the check that fails, nothing is appended.
\<close>

theorem rejected_command_no_effect:
  assumes "dispatch D cmd k = (Inl err, k')" and "order_ok D" and "\<And>x. err \<noteq> JournalError x"
  shows "ks_journal k' = ks_journal k"
proof -
  obtain c envs where p: "performs D c envs k (Inl err :: _ + reply) k'"
    using dispatch_call_ok [OF assms(1,2)] by (auto simp: call_ok_def)
  then obtain r' where r': "append_all (kd_journal D) envs (ks_journal k) = (r', ks_journal k')"
    "\<forall>x. r' = Inl x \<longrightarrow> err = JournalError x" "envs \<noteq> [] \<longrightarrow> r' \<noteq> Inr ()"
    by (auto simp: performs_def)
  have "r' = Inr ()" using r'(2) assms(3) by (cases r') auto
  with r' have "envs = []" by simp
  with r'(1) show ?thesis by simp
qed

theorem rejected_command_no_effect_witness:
  "ks_journal (snd (dispatch demo_deps demo_start (after [demo_create]))) = ks_journal (after [demo_create])"
proof (rule rejected_command_no_effect)
  show "dispatch demo_deps demo_start (after [demo_create]) =
      (Inl (ActionNotFound (ActionId ''a1'')), snd (dispatch demo_deps demo_start (after [demo_create])))"
    by code_simp
qed simp_all

section \<open>Histories of the kernel\<close>

lemma reachable_histories:
  assumes "kernel_reach D \<lparr>ks_journal = [], ks_ids = 0, ks_ticks = 0\<rparr> k"
    and "kd_journal D = memory_ops" and "order_ok D" and "inj (kd_new_id D)"
  shows "history_ok (history k c) \<and> distinct (ids_of (history k c)) \<and>
    list_all (well_addressed c) (history k c) \<and>
    (case history k c of
       [] \<Rightarrow> True
     | e # es \<Rightarrow> (\<exists>s. env_event e = ConversationCreated s \<and> ses_id s = c) \<and>
                (\<forall>x \<in> set es. \<forall>s. env_event x \<noteq> ConversationCreated s))"
proof -
  have "history_wf D 0 c []" by (simp add: history_wf_def history_ok_def)
  with memory.reach_history [OF assms(1-3), of c "[]"] assms(4)
  have wf: "history_wf D (ks_ids k) c (history k c)"
    by (auto simp: memory_load_history) (auto simp: memory_load_def)
  then show ?thesis
    using created_once [of "hd (history k c)" "tl (history k c)" c]
    by (cases "history k c") (auto simp: history_wf_def)
qed

text \<open>
  C1. Every history the kernel can produce is well formed. After any sequence of commands
  from an empty journal, the history of a conversation is empty, or it opens with the
  creation of that conversation, which never happens again; each event passed its guard
  in the state the earlier events project to (senders are foreground participants,
  replies and targets exist, actions and runs follow their life cycles); every event is
  addressed to the conversation; and no identifier of an event, message, run or slice
  occurs twice.
\<close>

theorem kernel_histories_well_formed:
  assumes "kernel_reach D \<lparr>ks_journal = [], ks_ids = 0, ks_ticks = 0\<rparr> k"
    and "kd_journal D = memory_ops" and "order_ok D" and "inj (kd_new_id D)"
  shows "history_ok (history k c) \<and> distinct (ids_of (history k c)) \<and>
    list_all (well_addressed c) (history k c) \<and>
    (case history k c of
       [] \<Rightarrow> True
     | e # es \<Rightarrow> (\<exists>s. env_event e = ConversationCreated s \<and> ses_id s = c) \<and>
                (\<forall>x \<in> set es. \<forall>s. env_event x \<noteq> ConversationCreated s))"
  by (rule reachable_histories [OF assms])

theorem kernel_histories_well_formed_witness:
  "history_ok (history (after [demo_create, demo_request, demo_require]) demo_conversation) \<and>
   length (history (after [demo_create, demo_request, demo_require]) demo_conversation) = 5"
proof
  show "history_ok (history (after [demo_create, demo_request, demo_require]) demo_conversation)"
    using kernel_histories_well_formed [OF after_reach [unfolded start_state_def]] by simp
  show "length (history (after [demo_create, demo_request, demo_require]) demo_conversation) = 5"
    by code_simp
qed

text \<open>What two reachable states share: the earlier history is a prefix, and both are well formed.\<close>

lemma reachable_extension:
  assumes "kernel_reach D \<lparr>ks_journal = [], ks_ids = 0, ks_ticks = 0\<rparr> k" and "kernel_reach D k k'"
    and "kd_journal D = memory_ops" and "order_ok D" and "inj (kd_new_id D)"
  shows "\<exists>tail. history k' c = history k c @ tail \<and> distinct (ids_of (history k c @ tail)) \<and>
    allowed_seq (project (history k c)) (map env_event tail)"
proof -
  from memory.reach_history [OF assms(2-4), of c "history k c"]
  obtain tail where tail: "history k' c = history k c @ tail"
    by (auto simp: memory_load_history)
  moreover have "history_ok (history k' c)" "distinct (ids_of (history k' c))"
    using reachable_histories [OF kernel_reach_trans [OF assms(2,1)] assms(3-5)] by auto
  ultimately show ?thesis by (auto simp: history_ok_append)
qed

text \<open>
  Append-only: whatever commands run after a reachable state, accepted or rejected,
  the history of every conversation at that state stays a prefix of its history.
\<close>

lemma kernel_append_only:
  assumes "kernel_reach D k k'" and "kd_journal D = memory_ops" and "order_ok D"
  shows "\<exists>tail. history k' c = history k c @ tail"
  using memory.reach_history [OF assms, of c "history k c"]
  by (auto simp: memory_load_history)

lemma kernel_append_only_witness:
  "\<exists>tail. history (after [demo_create]) demo_conversation =
     history start_state demo_conversation @ tail"
  by (rule kernel_append_only [OF after_reach demo_deps_ok(1,2)])

section \<open>Actions\<close>

text \<open>
  C2. The approval gate. In any history the kernel can produce, when an action was marked
  as requiring approval and is started later, then between the two it was approved, or it
  was requested anew under the same identifier.
\<close>

theorem approval_gate:
  assumes "kernel_reach D \<lparr>ks_journal = [], ks_ids = 0, ks_ticks = 0\<rparr> k"
    and "kd_journal D = memory_ops" and "order_ok D" and "inj (kd_new_id D)"
    and split: "history k c = xs @ e # ys @ e' # zs"
    and "env_event e = ActionApprovalRequired a reason" and "env_event e' = ActionStarted a"
  shows "\<exists>u \<in> set ys. approves_action a (env_event u) \<or> requests_action a (env_event u)"
proof (rule ccontr)
  assume none: "\<not> ?thesis"
  have ok: "history_ok (xs @ e # ys @ e' # zs)"
    using reachable_histories [OF assms(1-4), of c] split by simp
  then have guard: "event_allowed (project xs) (env_event e)"
    and rest: "allowed_seq (apply_event (project xs) (env_event e)) (map env_event (ys @ e' # zs))"
    by (simp_all add: history_ok_append)
  have "action_in (apply_event (project xs) (env_event e)) a {ActApprovalRequired, ActDenied}"
    using guard assms(6) by (auto simp: action_in_def modify_action_def split: option.splits)
  moreover have "allowed_seq (apply_event (project xs) (env_event e)) (map env_event ys @ [ActionStarted a])"
    using rest assms(7) by (simp add: allowed_seq_append)
  moreover have "\<forall>ev \<in> set (map env_event ys @ [ActionStarted a]).
      \<not> requests_action a ev \<and> \<not> approves_action a ev"
    using none by (auto simp: requests_action_def approves_action_def)
  ultimately show False
    using unapproved_never_started by fastforce
qed

definition gate_script :: "command list" where
  "gate_script = [demo_create, demo_request, demo_require, demo_start, demo_approve, demo_start]"

lemma gate_history:
  "\<exists>xs e u e'. history (after gate_script) demo_conversation = xs @ e # [u] @ e' # [] \<and>
     env_event e = ActionApprovalRequired (ActionId ''a1'') ''policy'' \<and>
     env_event e' = ActionStarted (ActionId ''a1'')"
proof -
  let ?h = "history (after gate_script) demo_conversation"
  have "length ?h = 7 \<and> env_event (?h ! 4) = ActionApprovalRequired (ActionId ''a1'') ''policy'' \<and>
      env_event (?h ! 6) = ActionStarted (ActionId ''a1'')"
    by code_simp
  moreover from this have "?h = take 4 ?h @ ?h ! 4 # [?h ! 5] @ ?h ! 6 # []"
    by (intro nth_equalityI) (auto simp: nth_append nth_Cons numeral_eq_Suc less_Suc_eq)
  ultimately show ?thesis by blast
qed

theorem approval_gate_witness:
  "\<exists>u \<in> set (history (after gate_script) demo_conversation).
     approves_action (ActionId ''a1'') (env_event u) \<or> requests_action (ActionId ''a1'') (env_event u)"
proof -
  obtain xs e u e' where h: "history (after gate_script) demo_conversation = xs @ e # [u] @ e' # []"
    and e: "env_event e = ActionApprovalRequired (ActionId ''a1'') ''policy''"
      "env_event e' = ActionStarted (ActionId ''a1'')"
    using gate_history by blast
  from approval_gate [OF after_reach [unfolded start_state_def] demo_deps_ok h e] h
  show ?thesis by auto
qed

text \<open>
  Terminal actions are final: once an action is denied, completed or failed in a
  reachable state, no later commands change anything recorded about it, unless it is
  requested again under the same identifier.
\<close>

lemma terminal_actions_final:
  assumes "kernel_reach D \<lparr>ks_journal = [], ks_ids = 0, ks_ticks = 0\<rparr> k" and "kernel_reach D k k'"
    and "kd_journal D = memory_ops" and "order_ok D" and "inj (kd_new_id D)"
    and "action_of (project (history k c)) a = Some x" and "act_is_terminal (ca_status x)"
    and "\<not> (\<exists>e \<in> set (drop (length (history k c)) (history k' c)). requests_action a (env_event e))"
  shows "action_of (project (history k' c)) a = Some x"
proof -
  obtain tail where tail: "history k' c = history k c @ tail"
    "allowed_seq (project (history k c)) (map env_event tail)"
    using reachable_extension [OF assms(1-5)] by blast
  have "\<forall>ev \<in> set (map env_event tail). \<not> requests_action a ev"
    using assms(8) tail(1) by simp
  from terminal_action_frozen [OF tail(2) assms(6,7) this] show ?thesis
    by (simp add: tail(1) project_append foldl_apply_event)
qed

definition denied_script :: "command list" where
  "denied_script = [demo_create, demo_request, demo_deny]"

lemma terminal_actions_final_witness:
  "\<exists>x. ca_status x = ActDenied \<and>
     action_of (project (history (after (denied_script @ [demo_start])) demo_conversation))
       (ActionId ''a1'') = Some x"
proof -
  let ?k = "after denied_script" and ?a = "ActionId ''a1''"
  have after: "after (denied_script @ [demo_start]) = snd (run_all demo_deps [demo_start] ?k)"
    by code_simp
  have "map_option ca_status (action_of (project (history ?k demo_conversation)) ?a) = Some ActDenied"
    by code_simp
  then obtain x where x: "action_of (project (history ?k demo_conversation)) ?a = Some x"
    "ca_status x = ActDenied" by auto
  have "\<not> (\<exists>e \<in> set (drop (length (history ?k demo_conversation))
       (history (after (denied_script @ [demo_start])) demo_conversation)).
       requests_action ?a (env_event e))"
    by code_simp
  from terminal_actions_final [OF after_reach [unfolded start_state_def] run_all_reach demo_deps_ok
      x(1) _ this [unfolded after]] x(2)
  show ?thesis by (auto simp: after act_is_terminal_def)
qed

section \<open>Agent runs\<close>

text \<open>
  A terminal agent run is final: once a run is completed, failed, cancelled or timed
  out in a reachable state, no sequence of commands changes anything recorded about it.
\<close>

lemma terminal_runs_final:
  assumes "kernel_reach D \<lparr>ks_journal = [], ks_ids = 0, ks_ticks = 0\<rparr> k" and "kernel_reach D k k'"
    and "kd_journal D = memory_ops" and "order_ok D" and "inj (kd_new_id D)"
    and "run_of (project (history k c)) r = Some x" and "run_terminal x"
  shows "run_of (project (history k' c)) r = Some x"
proof -
  obtain tail where tail: "history k' c = history k c @ tail" "distinct (ids_of (history k c @ tail))"
    "allowed_seq (project (history k c)) (map env_event tail)"
    using reachable_extension [OF assms(1-5)] by blast
  have "\<forall>ev \<in> set (map env_event tail). \<not> requests_run r ev"
    using run_requested_once [OF tail(2)] assms(6) by simp
  from terminal_run_frozen [OF tail(3) assms(6,7) this] show ?thesis
    by (simp add: tail(1) project_append foldl_apply_event)
qed

definition run_script :: "command list" where
  "run_script = [demo_create, DoAppendMessage (say alice ''hi''), demo_run, demo_cancel]"

lemma terminal_runs_final_witness:
  "\<exists>x. run_status x = RunCancelled \<and>
     run_of (project (history (snd (run_all demo_deps [demo_cancel, demo_run] (after run_script)))
       demo_conversation)) (replicate 6 (CHR ''x'')) = Some x"
proof -
  have "map_option run_status (run_of (project (history (after run_script) demo_conversation))
      (replicate 6 (CHR ''x''))) = Some RunCancelled"
    by code_simp
  then obtain x where x: "run_of (project (history (after run_script) demo_conversation))
      (replicate 6 (CHR ''x'')) = Some x" "run_status x = RunCancelled" by auto
  moreover have "run_terminal x" using x(2) by (simp add: run_terminal_def)
  ultimately show ?thesis
    using terminal_runs_final [OF after_reach [unfolded start_state_def] run_all_reach demo_deps_ok x(1)]
    by blast
qed

section \<open>Messages\<close>

text \<open>
  The timeline and the message index of a reachable conversation agree: no two
  messages of the timeline share an identifier, and looking an identifier up in the index
  gives exactly the message of the timeline with that identifier, edits included.
\<close>

lemma timeline_matches_index:
  assumes "kernel_reach D \<lparr>ks_journal = [], ks_ids = 0, ks_ticks = 0\<rparr> k"
    and "kd_journal D = memory_ops" and "order_ok D" and "inj (kd_new_id D)"
  shows "distinct (map msg_id (cs_messages (project (history k c)))) \<and>
    m_get (cs_messages_by_id (project (history k c))) i =
      find (\<lambda>m. msg_id m = i) (cs_messages (project (history k c)))"
  using timeline_sync_history reachable_histories [OF assms, of c]
  by (auto simp: timeline_sync_def)

lemma timeline_matches_index_witness:
  "map_option msg_content (find (\<lambda>m. msg_id m = MessageId (replicate 4 (CHR ''x'')))
     (cs_messages (project (history (after run_script) demo_conversation)))) = Some (Text ''hi'')"
proof -
  have "map_option msg_content (m_get (cs_messages_by_id (project (history (after run_script)
      demo_conversation))) (MessageId (replicate 4 (CHR ''x'')))) = Some (Text ''hi'')"
    by code_simp
  then show ?thesis
    using timeline_matches_index [OF after_reach [unfolded start_state_def] demo_deps_ok] by metis
qed

text \<open>The kernel over memory: one envelope added at the end of a history.\<close>

lemma memory_append_history:
  assumes "kd_journal D = memory_ops"
  shows "append_envelope D c actor now ev k =
    (Inr (), k\<lparr>ks_ids := ks_ids k + 1,
       ks_journal := hm_put c (history k c @ [envelope D (ks_ids k) c actor now ev]) (ks_journal k)\<rparr>)"
  using assms
  by (simp add: append_envelope_def journal_append_def memory_append_def history_def envelope_def)

lemma memory_then:
  assumes "kd_journal D = memory_ops"
  shows "andThen (append_envelope D c actor now ev) f k =
    f () (k\<lparr>ks_ids := ks_ids k + 1,
       ks_journal := hm_put c (history k c @ [envelope D (ks_ids k) c actor now ev]) (ks_journal k)\<rparr>)"
  by (simp add: andThen_def memory_append_history [OF assms])

lemma history_put [simp]:
  "history (k\<lparr>ks_ids := n, ks_journal := hm_put c es j\<rparr>) c' =
     (if c' = c then es else history (k\<lparr>ks_ids := n, ks_journal := j\<rparr>) c')"
  by (simp add: history_def)

lemma history_counters [simp]:
  "history (k\<lparr>ks_ids := n\<rparr>) = history k" "history (k\<lparr>ks_ticks := n\<rparr>) = history k"
  by (simp_all add: history_def fun_eq_iff)

text \<open>
  Appending a message. It succeeds exactly when the conversation is active, the
  sender is one of its human or agent participants, a replied-to message exists in it,
  a named thread exists and the visibility names only participants (an agent, for
  agent-only); then the returned identifier is a fresh one, and the projection of the
  conversation is the old one with the message as given in the command added, no other
  conversation changes. Otherwise the journal is untouched.
\<close>

lemma append_message_correct:
  fixes D :: "(memory_journal, 'e) kernel_deps"
  assumes "kd_journal D = memory_ops"
  shows "let c = cam_conversation_id cmd; st = project (history k c);
      i = MessageId (kd_new_id D (ks_ids k)); m = new_message cmd i (kd_now D (ks_ticks k));
      (r, k') = append_message D cmd k
    in if session_active st \<and> foreground_sender st (cam_sender_id cmd) \<and>
          reply_allowed st c (cam_reply_to cmd) \<and> thread_allowed st (cam_thread_id cmd) \<and>
          visibility_allowed st (cam_visibility cmd)
       then r = Inr i \<and> project (history k' c) = add_message m st \<and>
            (\<forall>c'. c' \<noteq> c \<longrightarrow> history k' c' = history k c')
       else (\<exists>err. r = Inl err) \<and> ks_journal k' = ks_journal k"
proof -
  let ?c = "cam_conversation_id cmd"
  let ?st = "project (history k ?c)"
  let ?check = "check_message cmd ?st :: ('e, unit) checked"
  have load: "jo_load (kd_journal D) ?c (ks_journal k) = Inr (history k ?c)"
    using assms memory_load_history by simp
  have iff: "?check = Inr () \<longleftrightarrow> session_active ?st \<and> foreground_sender ?st (cam_sender_id cmd) \<and>
      reply_allowed ?st ?c (cam_reply_to cmd) \<and> thread_allowed ?st (cam_thread_id cmd) \<and>
      visibility_allowed ?st (cam_visibility cmd)"
    by (auto simp: check_message_def)
  show ?thesis
  proof (cases ?check)
    case (Inl err)
    then have "append_message D cmd k = (Inl err, k)"
      using load by (simp add: append_message_def)
    moreover have "?check \<noteq> Inr ()" using Inl by simp
    ultimately show ?thesis using iff by (simp add: Let_def)
  next
    case (Inr u)
    then have "append_message D cmd k =
      andThen (append_envelope D ?c (Some (cam_sender_id cmd)) (kd_now D (ks_ticks k))
        (MessageAppended (new_message cmd (MessageId (kd_new_id D (ks_ids k))) (kd_now D (ks_ticks k)))))
        (\<lambda>_. ret (MessageId (kd_new_id D (ks_ids k))))
        (k\<lparr>ks_ids := ks_ids k + 1, ks_ticks := ks_ticks k + 1\<rparr>)"
      using load by (simp add: append_message_def)
    moreover have "?check = Inr ()" using Inr by simp
    ultimately show ?thesis
      using iff
      by (simp add: Let_def andThen_run(1) [OF memory_append_history [OF assms]] project_snoc
          ret_def history_def)
  qed
qed

lemma append_message_correct_witness:
  "fst (append_message demo_deps (say alice ''hi'') (after [demo_create])) =
     Inr (MessageId (replicate 4 (CHR ''x'')))"
proof -
  let ?k = "after [demo_create]" and ?st = "project (history (after [demo_create]) demo_conversation)"
  have c: "cam_conversation_id (say alice ''hi'') = demo_conversation"
    "cam_sender_id (say alice ''hi'') = p_id alice" "cam_reply_to (say alice ''hi'') = None"
    "cam_thread_id (say alice ''hi'') = None" "cam_visibility (say alice ''hi'') = VisConversation"
    by (simp_all add: say_def)
  have "session_active ?st" "foreground_sender ?st (p_id alice)" "reply_allowed ?st demo_conversation None"
    "thread_allowed ?st None" "visibility_allowed ?st VisConversation"
    "kd_new_id demo_deps (ks_ids ?k) = replicate 4 (CHR ''x'')"
    by code_simp+
  with append_message_correct [OF demo_deps_ok(1), of "say alice ''hi''" ?k] show ?thesis
    by (simp add: c Let_def split: prod.splits)
qed

text \<open>
  No message can be placed in a thread: no command starts one, so in every reachable
  state a command to append a message to a named thread is rejected.
\<close>

lemma threaded_messages_rejected:
  fixes D :: "(memory_journal, 'e) kernel_deps"
  assumes "kernel_reach D \<lparr>ks_journal = [], ks_ids = 0, ks_ticks = 0\<rparr> k"
    and "kd_journal D = memory_ops" and "order_ok D" and "inj (kd_new_id D)"
    and "cam_thread_id cmd = Some t"
  shows "\<exists>err. append_message D cmd k = (Inl err, k)"
proof -
  let ?st = "project (history k (cam_conversation_id cmd))"
  have "history_ok (history k (cam_conversation_id cmd))"
    using reachable_histories [OF assms(1-4)] by simp
  then have "cs_threads (replay empty_state (history k (cam_conversation_id cmd))) = []"
    using no_threads [of empty_state] foldl_apply_event [of empty_state]
    by (force simp: history_ok_def empty_state_def)
  then have "check_message cmd ?st \<noteq> (Inr () :: ('e, unit) checked)"
    using assms(5) by (auto simp: check_message_def thread_allowed_def project_def)
  then obtain err where "check_message cmd ?st = (Inl err :: ('e, unit) checked)"
    by (cases "check_message cmd ?st :: ('e, unit) checked") auto
  moreover have "jo_load (kd_journal D) (cam_conversation_id cmd) (ks_journal k) =
      Inr (history k (cam_conversation_id cmd))"
    using assms(2) memory_load_history by simp
  ultimately show ?thesis by (simp add: append_message_def)
qed

lemma threaded_messages_rejected_witness:
  "\<exists>err. append_message demo_deps ((say alice ''hi'')\<lparr>cam_thread_id := Some (ThreadId ''t'')\<rparr>)
     (after [demo_create]) = (Inl err, after [demo_create])"
  by (rule threaded_messages_rejected [OF after_reach [unfolded start_state_def] demo_deps_ok]) simp

section \<open>Creating a conversation\<close>

lemma append_participants_history:
  assumes "kd_journal D = memory_ops"
  shows "\<exists>k' envs. append_participants D c actor now ps k = (Inr (), k') \<and>
    history k' c = history k c @ envs \<and> map env_event envs = map ParticipantAdded ps \<and>
    (\<forall>c'. c' \<noteq> c \<longrightarrow> history k' c' = history k c')"
proof (induction ps arbitrary: k)
  case Nil
  then show ?case by simp
next
  case (Cons p ps)
  let ?e = "envelope D (ks_ids k) c actor now (ParticipantAdded p)"
  let ?k1 = "k\<lparr>ks_ids := ks_ids k + 1, ks_journal := hm_put c (history k c @ [?e]) (ks_journal k)\<rparr>"
  obtain k' envs where IH: "append_participants D c actor now ps ?k1 = (Inr (), k')"
    "history k' c = history ?k1 c @ envs" "map env_event envs = map ParticipantAdded ps"
    "\<forall>c'. c' \<noteq> c \<longrightarrow> history k' c' = history ?k1 c'"
    using Cons.IH by blast
  then show ?case
    by (intro exI [of _ k'] exI [of _ "?e # envs"])
       (simp add: andThen_run(1) [OF memory_append_history [OF assms]] history_def)
qed

lemma replay_participants:
  "foldl apply_event st (map ParticipantAdded ps) =
     st\<lparr>cs_participants := foldl (\<lambda>m p. hm_put (p_id p) p m) (cs_participants st) ps\<rparr>"
  by (induction ps arbitrary: st) simp_all

lemma get_foldl_put:
  "m_get (foldl (\<lambda>m p. hm_put (p_id p) p m) m ps) i =
     (case find (\<lambda>p. p_id p = i) (rev ps) of Some p \<Rightarrow> Some p | None \<Rightarrow> m_get m i)"
  by (induction ps arbitrary: m rule: rev_induct) (auto split: option.splits)

text \<open>
  Creating a conversation. Without participants it is rejected. Otherwise, under a
  fresh identifier, it returns that identifier, and the projection of the new history has
  an active session that lists the participants in the order given, the participant
  index (a repeated identifier keeps its last entry) and nothing else; no other
  conversation changes.
\<close>

lemma create_conversation_correct:
  fixes D :: "(memory_journal, 'e) kernel_deps"
  assumes "kd_journal D = memory_ops"
    and "history k (ConversationId (kd_new_id D (ks_ids k))) = []"
  shows "let c = ConversationId (kd_new_id D (ks_ids k)); ps = ccc_participants cmd;
      (r, k') = create_conversation D cmd k; st = project (history k' c)
    in if ps = [] then r = Inl AtLeastOneParticipantRequired \<and> k' = k
       else r = Inr c \<and> cs_session st = Some (new_session cmd c (kd_now D (ks_ticks k))) \<and>
         (\<forall>i. m_get (cs_participants st) i = find (\<lambda>p. p_id p = i) (rev ps)) \<and>
         st = empty_state\<lparr>cs_session := cs_session st, cs_participants := cs_participants st\<rparr> \<and>
         (\<forall>c'. c' \<noteq> c \<longrightarrow> history k' c' = history k c')"
proof (cases "ccc_participants cmd = []")
  case True
  then show ?thesis by (simp add: create_conversation_def raise_def)
next
  case False
  let ?c = "ConversationId (kd_new_id D (ks_ids k))" and ?now = "kd_now D (ks_ticks k)"
  let ?ev = "ConversationCreated (new_session cmd ?c ?now)" and ?actor = "ccc_actor_id cmd"
  let ?k0 = "k\<lparr>ks_ids := ks_ids k + 1, ks_ticks := ks_ticks k + 1\<rparr>"
  let ?e = "envelope D (ks_ids k + 1) ?c ?actor ?now ?ev"
  obtain k1 where first: "append_envelope D ?c ?actor ?now ?ev ?k0 = (Inr (), k1)"
    and k1: "history k1 ?c = [?e]" "\<forall>c'. c' \<noteq> ?c \<longrightarrow> history k1 c' = history k c'"
    using assms(2) by (simp add: memory_append_history [OF assms(1)] history_def)
  obtain k' envs where parts:
    "append_participants D ?c ?actor ?now (ccc_participants cmd) k1 = (Inr (), k')"
    "history k' ?c = [?e] @ envs" "map env_event envs = map ParticipantAdded (ccc_participants cmd)"
    "\<forall>c'. c' \<noteq> ?c \<longrightarrow> history k' c' = history k1 c'"
    using append_participants_history [OF assms(1), of ?c ?actor ?now "ccc_participants cmd" k1,
        unfolded k1(1)] by blast
  have "create_conversation D cmd k = andThen (append_envelope D ?c ?actor ?now ?ev)
      (\<lambda>_. andThen (append_participants D ?c ?actor ?now (ccc_participants cmd)) (\<lambda>_. ret ?c)) ?k0"
    using False by (simp add: create_conversation_def Let_def)
  also have "\<dots> = (Inr ?c, k')"
    unfolding andThen_def first prod.case sum.case parts(1) by (simp add: ret_def)
  finally have run: "create_conversation D cmd k = (Inr ?c, k')" .
  have "project (history k' ?c) = foldl apply_event (apply_event empty_state ?ev)
      (map ParticipantAdded (ccc_participants cmd))"
    unfolding parts(3) [symmetric] foldl_apply_event by (simp add: parts(2) project_def)
  then have "project (history k' ?c) = empty_state
      \<lparr>cs_session := Some (new_session cmd ?c ?now),
       cs_participants := foldl (\<lambda>m p. hm_put (p_id p) p m) [] (ccc_participants cmd)\<rparr>"
    by (simp add: replay_participants) (simp add: empty_state_def)
  then show ?thesis
    using False run parts(4) k1(2)
    by (simp add: Let_def get_foldl_put split: option.splits)
qed

lemma create_conversation_correct_witness:
  "fst (create_conversation demo_deps
     \<lparr>ccc_kind = Direct, ccc_title = None, ccc_participants = [alice], ccc_actor_id = None\<rparr>
     start_state) = Inr demo_conversation"
  using create_conversation_correct [OF demo_deps_ok(1), of start_state
      "\<lparr>ccc_kind = Direct, ccc_title = None, ccc_participants = [alice], ccc_actor_id = None\<rparr>"]
  by (simp add: start_state_def history_def demo_deps_def demo_conversation_def Let_def
      split: prod.splits)

section \<open>Acceptance conditions\<close>

text \<open>Over memory, a single-event handler is its checks followed by its event.\<close>

lemma record_event_memory:
  assumes "kd_journal D = memory_ops"
  shows "record_event D c checks actor ev k =
    (case checks (project (history k c)) of
       Inl err \<Rightarrow> (Inl err, k)
     | Inr _ \<Rightarrow>
         let now = kd_now D (ks_ticks k) in
         (Inr (), k\<lparr>ks_ticks := ks_ticks k + 1, ks_ids := ks_ids k + 1,
            ks_journal := hm_put c (history k c @ [envelope D (ks_ids k) c actor now (ev now)])
              (ks_journal k)\<rparr>))"
proof -
  have load: "jo_load (kd_journal D) c (ks_journal k) = Inr (history k c)"
    using assms memory_load_history by simp
  show ?thesis
    by (cases "checks (project (history k c))")
       (simp_all add: record_event_def load memory_append_history [OF assms] raise_def Let_def)
qed

lemma record_event_ok:
  assumes "kd_journal D = memory_ops"
  shows "is_ok (fst (record_event D c checks actor ev k)) \<longleftrightarrow>
    checks (project (history k c)) = Inr ()"
  by (simp add: record_event_memory [OF assms] Let_def split: sum.splits)

definition actor_ok :: "conversation_state \<Rightarrow> participant_id option \<Rightarrow> bool" where
  "actor_ok st actor = (case actor of None \<Rightarrow> True | Some p \<Rightarrow> is_participant st p)"

lemma actor_ok_iff: "actor_ok st actor \<longleftrightarrow> (\<forall>p. actor = Some p \<longrightarrow> is_participant st p)"
  by (cases actor) (simp_all add: actor_ok_def)

lemma action_not_terminal_iff:
  "(\<exists>x. m_get (cs_actions st) a = Some x \<and> \<not> act_is_terminal (ca_status x)) \<longleftrightarrow>
   action_in st a {ActRequested, ActApprovalRequired, ActApproved, ActStarted}"
proof -
  have "\<not> act_is_terminal s \<longleftrightarrow> s \<in> {ActRequested, ActApprovalRequired, ActApproved, ActStarted}" for s
    by (cases s) (simp_all add: act_is_terminal_def)
  then show ?thesis by (auto simp: action_in_def split: option.splits)
qed

text \<open>
  The acceptance condition of every action command, over any in-memory journal: a
  request needs an existing conversation; requiring approval and denying need an action
  that is not terminal; approving needs one that awaits approval; starting one that is
  requested or approved; completing and failing one that is started; and the acting
  participant, where given, must belong to the conversation.
\<close>

lemma action_commands_accepted_iff:
  assumes "kd_journal D = memory_ops"
  shows "
     (is_ok (fst (request_action D q k)) \<longleftrightarrow>
       (let st = project (history k (cra_conversation_id q))
        in has_session st \<and> actor_ok st (cra_requested_by q))) \<and>
     (is_ok (fst (require_action_approval D ra k)) \<longleftrightarrow>
       (let st = project (history k (craa_conversation_id ra))
        in has_session st \<and> actor_ok st (craa_required_by ra) \<and>
           action_in st (craa_action_id ra) {ActRequested, ActApprovalRequired, ActApproved, ActStarted})) \<and>
     (is_ok (fst (approve_action D ap k)) \<longleftrightarrow>
       (let st = project (history k (caa_conversation_id ap))
        in has_session st \<and> is_participant st (caa_approved_by ap) \<and>
           action_in st (caa_action_id ap) {ActApprovalRequired})) \<and>
     (is_ok (fst (deny_action D dn k)) \<longleftrightarrow>
       (let st = project (history k (cda_conversation_id dn))
        in has_session st \<and> actor_ok st (cda_denied_by dn) \<and>
           action_in st (cda_action_id dn) {ActRequested, ActApprovalRequired, ActApproved, ActStarted})) \<and>
     (is_ok (fst (start_action D sa k)) \<longleftrightarrow>
       (let st = project (history k (csa_conversation_id sa))
        in has_session st \<and> actor_ok st (csa_started_by sa) \<and>
           action_in st (csa_action_id sa) {ActRequested, ActApproved})) \<and>
     (is_ok (fst (complete_action D co k)) \<longleftrightarrow>
       (let st = project (history k (ccoa_conversation_id co))
        in has_session st \<and> actor_ok st (ccoa_completed_by co) \<and>
           action_in st (ccoa_action_id co) {ActStarted})) \<and>
     (is_ok (fst (fail_action D fl k)) \<longleftrightarrow>
       (let st = project (history k (cfa_conversation_id fl))
        in has_session st \<and> actor_ok st (cfa_failed_by fl) \<and>
           action_in st (cfa_action_id fl) {ActStarted}))"
  unfolding request_action_def require_action_approval_def approve_action_def deny_action_def
    start_action_def complete_action_def fail_action_def record_event_ok [OF assms] Let_def
    action_not_terminal_iff [symmetric]
  by (intro conjI) (auto simp: guard_simps actor_ok_iff action_in_def split: option.splits)

lemma action_commands_accepted_iff_witness:
  "\<not> is_ok (fst (approve_action demo_deps
     \<lparr>caa_conversation_id = demo_conversation, caa_action_id = ActionId ''a1'',
      caa_approved_by = p_id alice\<rparr> (after [demo_create, demo_request])))"
  unfolding action_commands_accepted_iff [OF demo_deps_ok(1), THEN conjunct2, THEN conjunct2,
      THEN conjunct1]
  by code_simp

text \<open>
  The acceptance condition of every agent-run command, over any in-memory journal: a
  request needs the conversation and its trigger message and nothing of the requester,
  who need not be a participant; the other commands need a run that is requested or
  started, completion also its output message, and the acting participant must belong to
  the conversation (a timeout may have none).
\<close>

lemma run_commands_accepted_iff:
  assumes "kd_journal D = memory_ops"
  shows "
     (is_ok (fst (request_agent_run D rq k)) \<longleftrightarrow>
       (let st = project (history k (crar_conversation_id rq))
        in has_session st \<and> m_contains (cs_messages_by_id st) (crar_trigger_message_id rq))) \<and>
     (is_ok (fst (start_agent_run D sr k)) \<longleftrightarrow>
       (let st = project (history k (csar_conversation_id sr))
        in has_session st \<and> run_live st (csar_run_id sr) \<and> is_participant st (csar_started_by sr))) \<and>
     (is_ok (fst (complete_agent_run D co k)) \<longleftrightarrow>
       (let st = project (history k (ccar_conversation_id co))
        in has_session st \<and> run_live st (ccar_run_id co) \<and>
           m_contains (cs_messages_by_id st) (ccar_output_message_id co) \<and>
           is_participant st (ccar_completed_by co))) \<and>
     (is_ok (fst (fail_agent_run D fl k)) \<longleftrightarrow>
       (let st = project (history k (cfar_conversation_id fl))
        in has_session st \<and> run_live st (cfar_run_id fl) \<and> is_participant st (cfar_failed_by fl))) \<and>
     (is_ok (fst (cancel_agent_run D ca k)) \<longleftrightarrow>
       (let st = project (history k (cxar_conversation_id ca))
        in has_session st \<and> run_live st (cxar_run_id ca) \<and> is_participant st (cxar_cancelled_by ca))) \<and>
     (is_ok (fst (timeout_agent_run D tm k)) \<longleftrightarrow>
       (let st = project (history k (ctar_conversation_id tm))
        in has_session st \<and> run_live st (ctar_run_id tm) \<and> actor_ok st (ctar_timed_out_by tm)))"
proof (intro conjI)
  let ?st = "project (history k (crar_conversation_id rq))"
  have load: "jo_load (kd_journal D) (crar_conversation_id rq) (ks_journal k) =
      Inr (history k (crar_conversation_id rq))"
    using assms memory_load_history by simp
  show "is_ok (fst (request_agent_run D rq k)) \<longleftrightarrow>
       (let st = ?st in has_session st \<and> m_contains (cs_messages_by_id st) (crar_trigger_message_id rq))"
    by (cases "has_session ?st"; cases "m_contains (cs_messages_by_id ?st) (crar_trigger_message_id rq)")
       (simp_all add: request_agent_run_def load Let_def raise_def ret_def memory_then [OF assms])
qed (simp_all add: start_agent_run_def complete_agent_run_def fail_agent_run_def cancel_agent_run_def
      timeout_agent_run_def record_event_ok [OF assms] Let_def actor_ok_iff conj_assoc)

lemma run_commands_accepted_iff_witness:
  "is_ok (fst (request_agent_run demo_deps
     \<lparr>crar_conversation_id = demo_conversation,
      crar_trigger_message_id = MessageId (replicate 4 (CHR ''x'')),
      crar_requested_by = ParticipantId ''mallory''\<rparr>
     (after [demo_create, DoAppendMessage (say alice ''hi'')])))"
  unfolding run_commands_accepted_iff [OF demo_deps_ok(1), THEN conjunct1]
  by code_simp

text \<open>
  A repeated request resets the approval gate: whatever state an action is in, denied,
  completed or waiting for approval, a participant who requests an action under its
  identifier again can start it at once.
\<close>

lemma rerequest_resets_gate:
  fixes D :: "(memory_journal, 'e) kernel_deps"
  assumes "kd_journal D = memory_ops"
    and "has_session (project (history k c))" and "is_participant (project (history k c)) p"
  shows "let (r1, k1) = request_action D
           \<lparr>cra_conversation_id = c, cra_action_request = q, cra_requested_by = Some p\<rparr> k;
         (r2, k2) = start_action D
           \<lparr>csa_conversation_id = c, csa_action_id = req_action_id q, csa_started_by = Some p\<rparr> k1
     in r1 = Inr () \<and> r2 = Inr () \<and>
        action_of (project (history k2 c)) (req_action_id q) =
          Some ((action_state_requested q)\<lparr>ca_status := ActStarted\<rparr>)"
  using assms(2,3)
  by (simp add: request_action_def start_action_def record_event_memory [OF assms(1)] Let_def
      check_actor_def validate_conversation_exists_def validate_optional_actor_def
      validate_action_exists_def check_startable_def project_append modify_action_def
      action_state_requested_def is_participant_def history_def)

lemma rerequest_resets_gate_witness:
  "ca_status (the (action_of (project (history
     (snd (start_action demo_deps
       \<lparr>csa_conversation_id = demo_conversation, csa_action_id = ActionId ''a1'',
        csa_started_by = Some (p_id bot)\<rparr>
       (snd (request_action demo_deps
         \<lparr>cra_conversation_id = demo_conversation, cra_action_request = demo_action,
          cra_requested_by = Some (p_id bot)\<rparr> (after denied_script)))))
     demo_conversation)) (ActionId ''a1''))) = ActStarted"
proof -
  have "has_session (project (history (after denied_script) demo_conversation))"
    "is_participant (project (history (after denied_script) demo_conversation)) (p_id bot)"
    by code_simp+
  from rerequest_resets_gate [OF demo_deps_ok(1) this, of demo_action] show ?thesis
    by (simp add: demo_action_def split: prod.splits)
qed

end
