(* ===== verification/Utf8.thy ===== *)
theory Utf8
  imports Prelude
begin

text \<open>
  The parts of the standard library's string handling that the code relies on: validity of
  UTF-8 (\<open>std::str::from_utf8\<close>), trimming of Unicode white space (\<open>str::trim\<close>) and
  splitting at newlines.
\<close>

abbreviation byte :: "char \<Rightarrow> nat" where
  "byte c \<equiv> of_char c"

definition in_range :: "nat \<Rightarrow> nat \<Rightarrow> char \<Rightarrow> bool" where
  "in_range lo hi c = (lo \<le> byte c \<and> byte c \<le> hi)"

section \<open>UTF-8 validity\<close>

text \<open>The number of bytes of the well-formed sequence at the head of the string, 0 if none.\<close>

definition utf8_head :: "string \<Rightarrow> nat" where
  "utf8_head s =
     (case s of
        [] \<Rightarrow> 0
      | a # t \<Rightarrow>
          if byte a < 128 then 1
          else (case t of
                  [] \<Rightarrow> 0
                | b # t' \<Rightarrow>
                    if in_range 194 223 a then (if is_continuation b then 2 else 0)
                    else (case t' of
                            [] \<Rightarrow> 0
                          | c # t'' \<Rightarrow>
                              if byte a = 224 then
                                (if in_range 160 191 b \<and> is_continuation c then 3 else 0)
                              else if in_range 225 236 a \<or> in_range 238 239 a then
                                (if is_continuation b \<and> is_continuation c then 3 else 0)
                              else if byte a = 237 then
                                (if in_range 128 159 b \<and> is_continuation c then 3 else 0)
                              else (case t'' of
                                      [] \<Rightarrow> 0
                                    | d # _ \<Rightarrow>
                                        if is_continuation c \<and> is_continuation d \<and>
                                           (byte a = 240 \<and> in_range 144 191 b \<or>
                                            in_range 241 243 a \<and> is_continuation b \<or>
                                            byte a = 244 \<and> in_range 128 143 b)
                                        then 4 else 0))))"

function utf8_valid :: "string \<Rightarrow> bool" where
  "utf8_valid s =
     (if s = [] then True
      else if utf8_head s = 0 then False
      else utf8_valid (drop (utf8_head s) s))"
  by pat_completeness auto
termination
  by (relation "measure length") auto

declare utf8_valid.simps [simp del]

lemma utf8_valid_Nil [simp]: "utf8_valid []"
  by (simp add: utf8_valid.simps)

lemma utf8_valid_ascii [simp]: "byte c < 128 \<Longrightarrow> utf8_valid (c # s) = utf8_valid s"
  by (subst utf8_valid.simps) (simp add: utf8_head_def)

lemma ascii_utf8_valid: "list_all (\<lambda>c. byte c < 128) s \<Longrightarrow> utf8_valid s"
  by (induction s) auto

lemma utf8_head_append: "utf8_head s \<noteq> 0 \<Longrightarrow> utf8_head (s @ t) = utf8_head s"
proof -
  assume h: "utf8_head s \<noteq> 0"
  consider "s = []" | a where "s = [a]" | a b where "s = [a, b]" | a b c where "s = [a, b, c]"
    | a b c d r where "s = a # b # c # d # r"
    by (metis list.exhaust)
  then show ?thesis using h by cases (auto simp: utf8_head_def split: list.splits if_splits)
qed
lemma utf8_head_le: "utf8_head s \<le> length s"
  by (auto simp: utf8_head_def split: list.splits if_splits)

lemma utf8_valid_append: "utf8_valid s \<Longrightarrow> utf8_valid t \<Longrightarrow> utf8_valid (s @ t)"
proof (induction s rule: utf8_valid.induct)
  case (1 s)
  show ?case
  proof (cases "s = []")
    case False
    with 1 have ok: "utf8_head s \<noteq> 0" "utf8_valid (drop (utf8_head s) s @ t)"
      by (auto simp: utf8_valid.simps [of s] split: if_splits)
    with False show ?thesis
      by (subst utf8_valid.simps) (simp add: utf8_head_append utf8_head_le)
  qed (simp add: 1)
qed
section \<open>White space\<close>

text \<open>The length of the white-space character that a string starts with, 0 if it does not.\<close>

definition ws_head :: "string \<Rightarrow> nat" where
  "ws_head s =
     (case map byte (take 3 s) of
        [] \<Rightarrow> 0
      | a # t \<Rightarrow>
          if 9 \<le> a \<and> a \<le> 13 \<or> a = 32 then 1
          else if a = 194 \<and> (take 1 t = [133] \<or> take 1 t = [160]) then 2
          else if a = 225 \<and> t = [154, 128] \<or> a = 226 \<and> take 1 t = [128] \<and> length t = 2 \<and>
                    (128 \<le> t ! 1 \<and> t ! 1 \<le> 138 \<or> t ! 1 = 168 \<or> t ! 1 = 169 \<or> t ! 1 = 175) \<or>
                  a = 226 \<and> t = [129, 159] \<or> a = 227 \<and> t = [128, 128] then 3
          else 0)"

function trim_start :: "string \<Rightarrow> string" where
  "trim_start s =
     (if s = [] \<or> ws_head s = 0 then s else trim_start (drop (ws_head s) s))"
  by pat_completeness auto
termination
  by (relation "measure length") auto

declare trim_start.simps [simp del]

text \<open>The length of the white-space character that a string ends with.\<close>

definition ws_last :: "string \<Rightarrow> nat" where
  "ws_last s =
     (if s \<noteq> [] \<and> ws_head (drop (length s - 1) s) = 1 then 1
      else if 2 \<le> length s \<and> ws_head (drop (length s - 2) s) = 2 then 2
      else if 3 \<le> length s \<and> ws_head (drop (length s - 3) s) = 3 then 3
      else 0)"

function trim_end :: "string \<Rightarrow> string" where
  "trim_end s =
     (if s = [] \<or> ws_last s = 0 then s else trim_end (take (length s - ws_last s) s))"
  by pat_completeness auto
termination
  by (relation "measure length") auto

declare trim_end.simps [simp del]

definition trim :: "string \<Rightarrow> string" where
  "trim s = trim_end (trim_start s)"

lemma ws_head_Nil [simp]: "ws_head [] = 0"
  by (simp add: ws_head_def)

lemma trim_Nil [simp]: "trim [] = []"
  by (simp add: trim_def trim_start.simps trim_end.simps)

text \<open>\<open>split_whitespace\<close>: \<open>w\<close> is the word so far, \<open>k\<close> the bytes left of a white-space character.\<close>

fun tokens_from :: "string \<Rightarrow> nat \<Rightarrow> string \<Rightarrow> string list" where
  "tokens_from w k [] = (if w = [] then [] else [w])"
| "tokens_from w (Suc k) (c # s) = tokens_from w k s"
| "tokens_from w 0 (c # s) =
     (if ws_head (c # s) \<noteq> 0
      then (if w = [] then [] else [w]) @ tokens_from [] (ws_head (c # s) - 1) s
      else tokens_from (w @ [c]) 0 s)"

definition split_whitespace :: "string \<Rightarrow> string list" where
  "split_whitespace s = tokens_from [] 0 s"

section \<open>Lines\<close>

text \<open>\<open>bytes.split(|b| *b == b'\n')\<close>: the pieces between newlines, at least one.\<close>

fun split_newline :: "string \<Rightarrow> string list" where
  "split_newline [] = [[]]"
| "split_newline (c # s) =
     (if c = CHR 0x0A then [] # split_newline s
      else (case split_newline s of [] \<Rightarrow> [[c]] | l # ls \<Rightarrow> (c # l) # ls))"

lemma split_newline_not_Nil [simp]: "split_newline s \<noteq> []"
  by (cases s) (auto split: list.splits)

lemma split_newline_line:
  "CHR 0x0A \<notin> set l \<Longrightarrow> split_newline (l @ CHR 0x0A # s) = l # split_newline s"
  by (induction l) auto

lemma split_newline_lines:
  "(\<And>l. l \<in> set ls \<Longrightarrow> CHR 0x0A \<notin> set l) \<Longrightarrow>
   split_newline (concat (map (\<lambda>l. l @ [CHR 0x0A]) ls)) = ls @ [[]]"
  by (induction ls) (auto simp: split_newline_line)

section \<open>Characters\<close>

text \<open>\<open>chars().take(n)\<close> on valid UTF-8: the first characters, each with all its bytes.\<close>

fun take_chars :: "nat \<Rightarrow> string \<Rightarrow> string" where
  "take_chars 0 s = []"
| "take_chars (Suc n) [] = []"
| "take_chars (Suc n) (c # s) =
     (let k = max 1 (utf8_head (c # s)) in take k (c # s) @ take_chars n (drop k (c # s)))"

lemma take_chars_prefix: "\<exists>t. s = take_chars n s @ t"
proof (induction n s rule: take_chars.induct)
  case (3 n c s)
  let ?k = "max 1 (utf8_head (c # s))"
  from 3 obtain t where "drop ?k (c # s) = take_chars n (drop ?k (c # s)) @ t" by metis
  then have "c # s = (take ?k (c # s) @ take_chars n (drop ?k (c # s))) @ t"
    using append_take_drop_id [of ?k "c # s"] by (metis append.assoc)
  then show ?case unfolding take_chars.simps Let_def by blast
qed simp_all

end
