(* ===== verification/File_System.thy ===== *)
theory File_System
  imports Prelude "HOL-Library.Sublist"
begin
text \<open>
  The file system that the stores of \<open>agentos-storage\<close> work on: a tree of directories and
  files. The calls are those of \<open>std::fs\<close> that the code makes, with the errors that come
  from the shape of the tree; there are no symbolic links. The entries of a directory are
  listed in the order in which they were made, which no caller relies on.
\<close>

section \<open>Trees\<close>

datatype (plugins only: code size) fs_node = FFile string | FDir "(string \<times> fs_node) list"

type_synonym path = "string list"

datatype (plugins only: code size) io_error =
    IoNotFound | IoAlreadyExists | IoNotADirectory | IoIsADirectory | IoInvalidData | IoOther string

type_synonym 'a fs_prog = "(fs_node, io_error, 'a) prog"

fun node_at :: "path \<Rightarrow> fs_node \<Rightarrow> fs_node option" where
  "node_at [] n = Some n"
| "node_at (c # cs) (FDir es) = Option.bind (m_get es c) (node_at cs)"
| "node_at (c # cs) (FFile b) = None"

text \<open>A node is put where its parent is a directory.\<close>

fun put_node :: "path \<Rightarrow> fs_node \<Rightarrow> fs_node \<Rightarrow> io_error + fs_node" where
  "put_node [] x n = Inr x"
| "put_node (c # cs) x (FFile b) = Inl IoNotADirectory"
| "put_node (c # cs) x (FDir es) =
     (if cs = [] then Inr (FDir (hm_put c x es))
      else case m_get es c of
        None \<Rightarrow> Inl IoNotFound
      | Some n \<Rightarrow> bind_result (put_node cs x n) (\<lambda>n'. Inr (FDir (hm_put c n' es))))"

fun del_node :: "path \<Rightarrow> fs_node \<Rightarrow> fs_node" where
  "del_node [] n = n"
| "del_node (c # cs) (FFile b) = FFile b"
| "del_node (c # cs) (FDir es) = (if cs = [] then FDir (m_remove c es) else FDir (m_modify c (del_node cs) es))"

fun make_dirs :: "path \<Rightarrow> fs_node \<Rightarrow> io_error + fs_node" where
  "make_dirs [] (FDir es) = Inr (FDir es)"
| "make_dirs [] (FFile b) = Inl IoAlreadyExists"
| "make_dirs (c # cs) (FFile b) = Inl IoNotADirectory"
| "make_dirs (c # cs) (FDir es) =
     bind_result (make_dirs cs (case m_get es c of None \<Rightarrow> FDir [] | Some n \<Rightarrow> n)) (\<lambda>n'. Inr (FDir (hm_put c n' es)))"

text \<open>Joining a path with a text splits the text at its slashes.\<close>

fun segments :: "string \<Rightarrow> path" where
  "segments [] = [[]]"
| "segments (c # cs) = (if c = CHR ''/'' then [] # segments cs else case segments cs of [] \<Rightarrow> [[c]] | w # ws \<Rightarrow> (c # w) # ws)"

definition join_path :: "path \<Rightarrow> string \<Rightarrow> path" where
  "join_path p t = p @ filter (\<lambda>w. w \<noteq> [] \<and> w \<noteq> ''.'') (segments t)"

section \<open>Calls\<close>

definition path_exists :: "path \<Rightarrow> fs_node \<Rightarrow> bool" where
  "path_exists p s \<longleftrightarrow> node_at p s \<noteq> None"

definition path_is_dir :: "path \<Rightarrow> fs_node \<Rightarrow> bool" where
  "path_is_dir p s \<longleftrightarrow> (case node_at p s of Some (FDir _) \<Rightarrow> True | _ \<Rightarrow> False)"

definition path_is_file :: "path \<Rightarrow> fs_node \<Rightarrow> bool" where
  "path_is_file p s \<longleftrightarrow> (case node_at p s of Some (FFile _) \<Rightarrow> True | _ \<Rightarrow> False)"

definition changed :: "io_error + fs_node \<Rightarrow> unit fs_prog" where
  "changed r s = (case r of Inl e \<Rightarrow> (Inl e, s) | Inr s' \<Rightarrow> (Inr (), s'))"

definition fs_read :: "path \<Rightarrow> string fs_prog" where
  "fs_read p s =
     (case node_at p s of
        None \<Rightarrow> (Inl IoNotFound, s)
      | Some (FDir _) \<Rightarrow> (Inl IoIsADirectory, s)
      | Some (FFile b) \<Rightarrow> (Inr b, s))"

definition fs_write :: "path \<Rightarrow> string \<Rightarrow> unit fs_prog" where
  "fs_write p b s = (if path_is_dir p s then (Inl IoIsADirectory, s) else changed (put_node p (FFile b) s) s)"

definition fs_append :: "path \<Rightarrow> string \<Rightarrow> unit fs_prog" where
  "fs_append p b s =
     (case node_at p s of
        Some (FDir _) \<Rightarrow> (Inl IoIsADirectory, s)
      | Some (FFile old) \<Rightarrow> changed (put_node p (FFile (old @ b)) s) s
      | None \<Rightarrow> changed (put_node p (FFile b) s) s)"

definition fs_create_dir_all :: "path \<Rightarrow> unit fs_prog" where
  "fs_create_dir_all p s = changed (make_dirs p s) s"

definition fs_create_dir :: "path \<Rightarrow> unit fs_prog" where
  "fs_create_dir p s = (if path_exists p s then (Inl IoAlreadyExists, s) else changed (put_node p (FDir []) s) s)"

definition fs_create_new :: "path \<Rightarrow> unit fs_prog" where
  "fs_create_new p s = (if path_exists p s then (Inl IoAlreadyExists, s) else changed (put_node p (FFile []) s) s)"

definition fs_remove_file :: "path \<Rightarrow> unit fs_prog" where
  "fs_remove_file p s =
     (case node_at p s of
        None \<Rightarrow> (Inl IoNotFound, s)
      | Some (FDir _) \<Rightarrow> (Inl IoIsADirectory, s)
      | Some (FFile _) \<Rightarrow> (Inr (), del_node p s))"

definition fs_rename :: "path \<Rightarrow> path \<Rightarrow> unit fs_prog" where
  "fs_rename p q s =
     (case node_at p s of
        None \<Rightarrow> (Inl IoNotFound, s)
      | Some n \<Rightarrow> if path_is_dir q s then (Inl IoIsADirectory, s) else changed (put_node q n (del_node p s)) s)"

definition fs_read_dir :: "path \<Rightarrow> (string \<times> fs_node) list fs_prog" where
  "fs_read_dir p s =
     (case node_at p s of
        None \<Rightarrow> (Inl IoNotFound, s)
      | Some (FFile _) \<Rightarrow> (Inl IoNotADirectory, s)
      | Some (FDir es) \<Rightarrow> (Inr es, s))"

definition fs_copy :: "path \<Rightarrow> path \<Rightarrow> unit fs_prog" where
  "fs_copy p q = andThen (fs_read p) (fs_write q)"

section \<open>Well-formed trees\<close>

definition file_name_ok :: "string \<Rightarrow> bool" where
  "file_name_ok c \<longleftrightarrow> c \<noteq> [] \<and> CHR ''/'' \<notin> set c \<and> c \<noteq> ''.'' \<and> c \<noteq> ''..''"

fun tree_ok :: "fs_node \<Rightarrow> bool" where
  "tree_ok (FFile b) = True"
| "tree_ok (FDir es) = (distinct (map fst es) \<and> (\<forall>(c, n) \<in> set es. file_name_ok c \<and> tree_ok n))"

section \<open>Looking at one place of a tree\<close>

lemmas entry_Cons [simp] = m_get_Cons

lemma node_at_append: "node_at (p @ q) s = Option.bind (node_at p s) (node_at q)"
proof (induction p s rule: node_at.induct)
  case (2 c cs es)
  then show ?case by (cases "m_get es c") simp_all
qed simp_all

lemma put_node_at: "put_node p x s = Inr s' \<Longrightarrow> node_at p s' = Some x"
  by (induction p x s arbitrary: s' rule: put_node.induct) (auto simp: bind_result_Inr_iff split: if_splits option.splits)

text \<open>What is done below a place that exists is done to the node there, which is then put back.\<close>

lemma put_node_append:
  "node_at p s = Some n \<Longrightarrow> q \<noteq> [] \<Longrightarrow> put_node (p @ q) x s = bind_result (put_node q x n) (\<lambda>n'. put_node p n' s)"
proof (induction p s rule: node_at.induct)
  case (1 s)
  then show ?case by (cases "put_node q x s") simp_all
next
  case (2 c cs es)
  then obtain m where m: "m_get es c = Some m" "node_at cs m = Some n" by (cases "m_get es c") auto
  show ?case
    using 2(1) [OF m(1) m(2)] 2(3) m by (cases "put_node q x n") (auto simp: split: option.splits)
qed simp

lemma put_node_put: "put_node p x s = Inr s' \<Longrightarrow> put_node p y s' = put_node p y s"
proof (induction p x s arbitrary: s' rule: put_node.induct)
  case (3 c cs x es)
  have put: "hm_put k v (hm_put k w m) = hm_put k v m" for k v w and m :: "(string \<times> fs_node) list"
    by (induction m) auto
  from 3 show ?case by (auto simp: put bind_result_Inr_iff split: if_splits option.splits)
qed simp_all

lemma put_node_same: "node_at p s = Some n \<Longrightarrow> put_node p n s = Inr s"
proof (induction p s rule: node_at.induct)
  case (2 c cs es)
  have same: "m_get m k = Some v \<Longrightarrow> hm_put k v m = m" for k v and m :: "(string \<times> fs_node) list"
    by (induction m) auto
  from 2 show ?case by (cases "m_get es c") (auto simp: same)
qed simp_all

lemma put_node_ok: "node_at p s = Some n \<Longrightarrow> \<exists>s'. put_node p x s = Inr s'"
proof (induction p s rule: node_at.induct)
  case (2 c cs es)
  then show ?case by (cases "m_get es c") fastforce+
qed simp_all

lemma make_dirs_append:
  "node_at p s = Some n \<Longrightarrow> make_dirs (p @ q) s = bind_result (make_dirs q n) (\<lambda>n'. put_node p n' s)"
proof (induction p s rule: node_at.induct)
  case (1 s)
  then show ?case by (cases "make_dirs q s") simp_all
next
  case (2 c cs es)
  then obtain m where m: "m_get es c = Some m" "node_at cs m = Some n" by (cases "m_get es c") auto
  show ?case
    using 2(1) [OF m] m by (cases "make_dirs q n") auto
qed simp

lemma node_at_put_other:
  assumes "put_node p x s = Inr s'" and "\<not> prefix p q" and "\<not> prefix q p"
  shows "node_at q s' = node_at q s"
  using assms
proof (induction p x s arbitrary: q s' rule: put_node.induct)
  case (3 c cs x es)
  then obtain d ds where q: "q = d # ds" by (cases q) auto
  show ?case
  proof (cases "d = c")
    case False
    with 3(2) q show ?thesis by (auto simp: bind_result_Inr_iff split: if_splits option.splits)
  next
    case True
    with 3(3,4) q have cs: "cs \<noteq> []" and apart: "\<not> prefix cs ds" "\<not> prefix ds cs" by auto
    with 3(2) obtain m m' where m: "m_get es c = Some m" "put_node cs x m = Inr m'" "s' = FDir (hm_put c m' es)"
      by (auto simp: bind_result_Inr_iff split: option.splits)
    from 3(1) [OF cs m(1,2) apart] m True q show ?thesis by simp
  qed
qed simp_all

section \<open>What the calls do to the files\<close>

definition file_at :: "path \<Rightarrow> fs_node \<Rightarrow> string option" where
  "file_at p s = (case node_at p s of Some (FFile b) \<Rightarrow> Some b | _ \<Rightarrow> None)"

lemma file_at_Cons: "file_at (c # cs) (FDir es) = (case m_get es c of None \<Rightarrow> None | Some n \<Rightarrow> file_at cs n)"
  by (simp add: file_at_def split: option.splits)

lemma file_at_simps [simp]:
  "file_at [] (FFile b) = Some b" "file_at [] (FDir es) = None" "file_at (c # cs) (FFile b) = None"
  by (simp_all add: file_at_def)

lemma file_at_node: "file_at p s = Some b \<longleftrightarrow> node_at p s = Some (FFile b)"
  by (auto simp: file_at_def split: option.splits fs_node.splits)

lemma path_is_dir_iff: "path_is_dir p s \<longleftrightarrow> (\<exists>es. node_at p s = Some (FDir es))"
  by (auto simp: path_is_dir_def split: option.splits fs_node.splits)

lemma path_is_file_iff: "path_is_file p s \<longleftrightarrow> file_at p s \<noteq> None"
  by (auto simp: path_is_file_def file_at_def split: option.splits fs_node.splits)

lemma file_at_put:
  assumes "put_node p (FFile b) s = Inr s'" and "\<not> path_is_dir p s"
  shows "file_at q s' = (if q = p then Some b else file_at q s)"
proof -
  have "\<not> path_is_dir p s \<Longrightarrow> put_node p x s = Inr s' \<Longrightarrow> x = FFile b \<Longrightarrow>
      file_at q s' = (if q = p then Some b else file_at q s)" for x
  proof (induction p x s arbitrary: q s' rule: put_node.induct)
    case (1 x n)
    then show ?case by (cases q; cases n) (auto simp: path_is_dir_def file_at_def)
  next
    case (2 c cs x b')
    then show ?case by simp
  next
    case (3 c cs x es)
    show ?case
    proof (cases "cs = []")
      case True
      with 3(2) have old: "m_get es c = None \<or> (\<exists>b'. m_get es c = Some (FFile b'))"
        by (cases "m_get es c") (auto simp: path_is_dir_def split: fs_node.splits)
      have leaf: "file_at ds (FFile b') = (if ds = [] then Some b' else None)" for ds b' by (cases ds) simp_all
      from 3(3,4) True have s': "s' = FDir (hm_put c (FFile b) es)" by simp
      show ?thesis
      proof (cases q)
        case (Cons d ds)
        with old True s' show ?thesis by (auto simp: file_at_Cons leaf)
      qed (simp add: s')
    next
      case False
      with 3(3) obtain m m' where m: "m_get es c = Some m" "put_node cs x m = Inr m'" "s' = FDir (hm_put c m' es)"
        by (auto simp: bind_result_Inr_iff split: option.splits)
      have "\<not> path_is_dir cs m" using 3(2) m(1) by (simp add: path_is_dir_def)
      with 3(1) [OF False m(1) this m(2) 3(4)] m show ?thesis
        by (cases q) (auto simp: file_at_Cons)
    qed
  qed
  with assms show ?thesis by blast
qed

lemma file_at_make_dirs: "make_dirs p s = Inr s' \<Longrightarrow> file_at q s' = file_at q s"
proof (induction p s arbitrary: q s' rule: make_dirs.induct)
  case (4 c cs es)
  then obtain n where n: "make_dirs cs (case m_get es c of None \<Rightarrow> FDir [] | Some n \<Rightarrow> n) = Inr n" "s' = FDir (hm_put c n es)"
    by (auto simp: bind_result_Inr_iff)
  have "file_at ds (FDir []) = None" for ds by (cases ds) (simp_all add: file_at_Cons m_get_def)
  with 4(1) [OF n(1)] n(2) show ?case
    by (cases q) (auto simp: file_at_Cons split: option.splits)
qed simp_all

lemma make_dirs_dir: "make_dirs p s = Inr s' \<Longrightarrow> path_is_dir p s'"
  by (induction p s arbitrary: s' rule: make_dirs.induct) (auto simp: path_is_dir_def bind_result_Inr_iff)

lemma fs_write_file:
  assumes "fs_write p b s = (Inr (), s')"
  shows "file_at q s' = (if q = p then Some b else file_at q s)"
  using assms file_at_put [of p b s s' q] by (auto simp: fs_write_def changed_def split: if_splits sum.splits)

lemma fs_append_file:
  assumes "fs_append p b s = (Inr (), s')"
  shows "file_at q s' = (if q = p then Some ((case file_at p s of None \<Rightarrow> [] | Some old \<Rightarrow> old) @ b) else file_at q s)"
  using assms file_at_put [of p _ s s' q]
  by (auto simp: fs_append_def changed_def file_at_node path_is_dir_def file_at_def [of p] split: option.splits fs_node.splits sum.splits)

lemma fs_create_dir_all_file: "fs_create_dir_all p s = (r, s') \<Longrightarrow> file_at q s' = file_at q s"
  using file_at_make_dirs [of p s s' q] by (auto simp: fs_create_dir_all_def changed_def split: sum.splits)

lemma fs_read_file: "fs_read p s = (Inr b, s') \<longleftrightarrow> file_at p s = Some b \<and> s' = s"
  by (auto simp: fs_read_def file_at_def split: option.splits fs_node.splits)

text \<open>A call that fails changes nothing.\<close>

lemma failed_call:
  "fs_read p s = (r, s1) \<Longrightarrow> s1 = s"
  "fs_read_dir p s = (r', s2) \<Longrightarrow> s2 = s"
  "fs_write p b s = (Inl e, s3) \<Longrightarrow> s3 = s"
  "fs_append p b s = (Inl e, s4) \<Longrightarrow> s4 = s"
  "fs_create_dir_all p s = (Inl e, s5) \<Longrightarrow> s5 = s"
  "fs_rename p q s = (Inl e, s6) \<Longrightarrow> s6 = s"
  by (auto simp: fs_read_def fs_read_dir_def fs_write_def fs_append_def fs_create_dir_all_def fs_rename_def changed_def
      split: option.splits fs_node.splits sum.splits if_splits)

text \<open>Directories stay.\<close>

lemma path_is_dir_Cons: "path_is_dir (c # cs) (FDir es) \<longleftrightarrow> (case m_get es c of None \<Rightarrow> False | Some n \<Rightarrow> path_is_dir cs n)"
  by (simp add: path_is_dir_def split: option.splits)

lemma path_is_dir_simps [simp]:
  "path_is_dir [] (FDir es)" "\<not> path_is_dir p (FFile b)"
  by (cases p; simp add: path_is_dir_def)+

lemma dir_put: "put_node p x s = Inr s' \<Longrightarrow> \<not> path_is_dir p s \<Longrightarrow> path_is_dir q s \<Longrightarrow> path_is_dir q s'"
proof (induction p x s arbitrary: q s' rule: put_node.induct)
  case (1 x n)
  then show ?case by (cases n) simp_all
next
  case (3 c cs x es)
  show ?case
  proof (cases "cs = []")
    case True
    with 3(3) have old: "\<not> path_is_dir ds n" if "m_get es c = Some n" for ds n
      using that by (cases n) (simp_all add: path_is_dir_Cons)
    from True 3(2,4) old show ?thesis
      by (cases q) (auto simp: path_is_dir_Cons split: option.splits)
  next
    case False
    with 3(2) obtain m m' where m: "m_get es c = Some m" "put_node cs x m = Inr m'" "s' = FDir (hm_put c m' es)"
      by (auto simp: bind_result_Inr_iff split: option.splits)
    with 3(1) [OF False m(1,2)] 3(3,4) show ?thesis by (cases q) (auto simp: path_is_dir_Cons)
  qed
qed simp

lemma dir_make_dirs: "make_dirs p s = Inr s' \<Longrightarrow> path_is_dir q s \<Longrightarrow> path_is_dir q s'"
proof (induction p s arbitrary: q s' rule: make_dirs.induct)
  case (4 c cs es)
  then obtain n where n: "make_dirs cs (case m_get es c of None \<Rightarrow> FDir [] | Some n \<Rightarrow> n) = Inr n" "s' = FDir (hm_put c n es)"
    by (auto simp: bind_result_Inr_iff)
  with 4(1) [OF n(1)] 4(3) show ?case
    by (cases q) (auto simp: path_is_dir_Cons split: option.splits)
qed simp_all

lemma fs_write_dir: "fs_write p b s = (r, s') \<Longrightarrow> path_is_dir q s \<Longrightarrow> path_is_dir q s'"
  using dir_put [of p "FFile b" s s' q] by (auto simp: fs_write_def changed_def split: if_splits sum.splits)

lemma fs_create_dir_all_dir: "fs_create_dir_all p s = (r, s') \<Longrightarrow> path_is_dir q s \<Longrightarrow> path_is_dir q s'"
  using dir_make_dirs [of p s s' q] by (auto simp: fs_create_dir_all_def changed_def split: sum.splits)

lemma file_at_exists: "file_at p s = Some b \<Longrightarrow> path_exists p s"
  by (auto simp: file_at_node path_exists_def)

lemma fs_create_new_file:
  assumes "fs_create_new p s = (Inr (), s')"
  shows "\<not> path_exists p s" and "file_at q s' = (if q = p then Some [] else file_at q s)"
  using assms file_at_put [of p "[]" s s' q]
  by (auto simp: fs_create_new_def changed_def path_exists_def path_is_dir_def split: if_splits sum.splits)

lemma node_at_del: "p \<noteq> [] \<Longrightarrow> node_at p (del_node p s) = None"
proof (induction p s rule: del_node.induct)
  case (3 c cs es)
  show ?case
  proof (cases "cs = []")
    case False
    with 3(1) show ?thesis by (cases "m_get es c") simp_all
  qed simp
qed simp_all

end
