(* ===== verification/Jsonl_Journal.thy ===== *)
theory Jsonl_Journal
  imports Journal Utf8 File_System
begin

text \<open>
  The durable journal (\<open>conversation-journal/src/jsonl.rs\<close>): one directory per
  conversation with a manifest and numbered segment files of JSON lines, each segment
  recorded with its byte count, event count and checksum and chained to its predecessor.

  \<open>serde_json\<close> and \<open>sha2\<close> are parameters, gathered in a codec. A directory is the
  manifest it holds, if any, and its segment files; the manifest file is kept as the value
  it denotes. Directories are kept by their path, which joins the root with the identifier as
  it is: two identifiers may name one directory. Counters are unbounded (the code's are 64
  bit). File operations succeed, so directories of which one lies inside another do not get in
  each other's way; a crash between two operations is a separate definition.
\<close>

record codec =
  enc_event :: "event_envelope \<Rightarrow> string"
  dec_event :: "string \<Rightarrow> string + event_envelope"
  sha256_hex :: "string \<Rightarrow> string"

section \<open>Manifest\<close>

record segment_metadata =
  sg_index :: nat
  sg_file_name :: string
  sg_event_count :: nat
  sg_bytes :: nat
  sg_checksum :: "string option"
  sg_previous_checksum :: "string option"

record journal_manifest =
  mf_version :: nat
  mf_max_segment_bytes :: nat
  mf_active_segment_index :: nat
  mf_total_events :: nat
  mf_segments :: "segment_metadata list"

text \<open>\<open>format!("{index:020}.jsonl")\<close>: at least twenty decimal digits.\<close>

definition segment_file_name :: "nat \<Rightarrow> string" where
  "segment_file_name i =
     replicate (20 - length (decimal i)) (CHR ''0'') @ decimal i @ ''.jsonl''"

definition segment_new :: "nat \<Rightarrow> segment_metadata" where
  "segment_new i =
     \<lparr>sg_index = i, sg_file_name = segment_file_name i, sg_event_count = 0, sg_bytes = 0,
      sg_checksum = None, sg_previous_checksum = None\<rparr>"

definition manifest_new :: "nat \<Rightarrow> journal_manifest" where
  "manifest_new max_bytes =
     \<lparr>mf_version = 1, mf_max_segment_bytes = max_bytes, mf_active_segment_index = 0,
      mf_total_events = 0, mf_segments = [segment_new 0]\<rparr>"

text \<open>\<open>None\<close> is the panic of \<open>expect\<close>.\<close>

definition active_segment :: "journal_manifest \<Rightarrow> segment_metadata option" where
  "active_segment m = find (\<lambda>g. sg_index g = mf_active_segment_index m) (mf_segments m)"

definition modify_active_segment ::
    "(segment_metadata \<Rightarrow> segment_metadata) \<Rightarrow> journal_manifest \<Rightarrow> journal_manifest" where
  "modify_active_segment f m =
     m\<lparr>mf_segments := update_first (\<lambda>g. sg_index g = mf_active_segment_index m) f (mf_segments m)\<rparr>"

definition roll_segment :: "journal_manifest \<Rightarrow> journal_manifest" where
  "roll_segment m =
     (let next_index = mf_active_segment_index m + 1
      in m\<lparr>mf_active_segment_index := next_index,
           mf_segments := mf_segments m @ [segment_new next_index]\<rparr>)"

definition has_integrity_metadata :: "journal_manifest \<Rightarrow> bool" where
  "has_integrity_metadata m = list_ex (\<lambda>g. sg_checksum g \<noteq> None) (mf_segments m)"

section \<open>Files\<close>

record conversation_dir =
  cd_manifest :: "journal_manifest option"
  cd_segments :: "(string, string) hmap"

type_synonym jsonl_store = "(path, conversation_dir) hmap"

text \<open>
  Where the file system finds a path: empty components and \<open>.\<close> stay where they are and \<open>..\<close> goes
  one directory up. An absolute text replaces the path that it is joined to.
\<close>

fun resolve_path :: "path \<Rightarrow> string list \<Rightarrow> path" where
  "resolve_path p [] = p"
| "resolve_path p (w # ws) = resolve_path (if w = [] \<or> w = ''.'' then p else if w = ''..'' then butlast p else p @ [w]) ws"

definition conversation_path :: "path \<Rightarrow> conversation_id \<Rightarrow> path" where
  "conversation_path root c = (case c of ConversationId s \<Rightarrow> resolve_path (if starts_with s ''/'' then [] else root) (segments s))"

definition empty_dir :: conversation_dir where
  "empty_dir = \<lparr>cd_manifest = None, cd_segments = []\<rparr>"

definition dir_at :: "path \<Rightarrow> jsonl_store \<Rightarrow> conversation_dir" where
  "dir_at p fs = (case m_get fs p of None \<Rightarrow> empty_dir | Some d \<Rightarrow> d)"

definition get_dir :: "path \<Rightarrow> conversation_id \<Rightarrow> jsonl_store \<Rightarrow> conversation_dir" where
  "get_dir root c fs = dir_at (conversation_path root c) fs"

text \<open>A file opened with \<open>append(true).create(true)\<close> and written to.\<close>

definition append_file :: "string \<Rightarrow> string \<Rightarrow> (string, string) hmap \<Rightarrow> (string, string) hmap" where
  "append_file name bs files =
     hm_put name ((case m_get files name of None \<Rightarrow> [] | Some old \<Rightarrow> old) @ bs) files"

section \<open>Append\<close>

datatype (plugins only: code size) integrity_issue =
    MissingSegment string
  | SegmentByteMismatch string nat nat
  | SegmentChecksumMismatch string string string
  | SegmentEventCountMismatch string nat nat
  | TotalEventCountMismatch nat nat
  | CorruptedEventLine string nat string
  | HashChainMismatch string string "string option"

datatype (plugins only: code size) jsonl_error =
    VerificationFailed conversation_id "integrity_issue list"
  | ByteCountMismatch string nat nat
  | CorruptedEvent nat string
  | TotalEventsMismatch nat nat
  | InvalidUtf8Line
  | NoActiveSegment

definition load_or_create_manifest :: "nat \<Rightarrow> conversation_dir \<Rightarrow> journal_manifest" where
  "load_or_create_manifest max_bytes d =
     (case cd_manifest d of Some m \<Rightarrow> m | None \<Rightarrow> manifest_new max_bytes)"

text \<open>The manifest with which the line is written: a full active segment is closed first.\<close>

definition manifest_for_line :: "nat \<Rightarrow> journal_manifest \<Rightarrow> jsonl_error + journal_manifest" where
  "manifest_for_line line_bytes m =
     (case active_segment m of
        None \<Rightarrow> Inl NoActiveSegment
      | Some a \<Rightarrow>
          Inr (if 0 < sg_bytes a \<and> mf_max_segment_bytes m < sg_bytes a + line_bytes
               then roll_segment m else m))"

definition previous_checksum :: "journal_manifest \<Rightarrow> string option" where
  "previous_checksum m =
     (if 0 < mf_active_segment_index m
      then Option.bind (find (\<lambda>g. sg_index g + 1 = mf_active_segment_index m) (mf_segments m))
             sg_checksum
      else None)"

text \<open>The entry of the active segment after the line.\<close>

definition record_line ::
    "nat \<Rightarrow> string \<Rightarrow> string option \<Rightarrow> segment_metadata \<Rightarrow> segment_metadata" where
  "record_line line_bytes checksum prev g =
     g\<lparr>sg_event_count := sg_event_count g + 1, sg_bytes := sg_bytes g + line_bytes,
       sg_checksum := Some checksum, sg_previous_checksum := prev\<rparr>"

text \<open>Writing the line to the segment file, the first of the two durable effects.\<close>

definition write_line ::
    "codec \<Rightarrow> nat \<Rightarrow> event_envelope \<Rightarrow> conversation_dir \<Rightarrow>
     jsonl_error + journal_manifest \<times> string \<times> conversation_dir" where
  "write_line C max_bytes e d =
     (let line = enc_event C e @ [CHR 0x0A]
      in bind_result (manifest_for_line (length line) (load_or_create_manifest max_bytes d)) (\<lambda>m.
         bind_result (ok_or (active_segment m) NoActiveSegment) (\<lambda>a.
           Inr (m, sg_file_name a,
                d\<lparr>cd_segments := append_file (sg_file_name a) line (cd_segments d)\<rparr>))))"

text \<open>Saving the manifest, the second.\<close>

definition save_manifest ::
    "codec \<Rightarrow> event_envelope \<Rightarrow> journal_manifest \<Rightarrow> string \<Rightarrow> conversation_dir \<Rightarrow> conversation_dir" where
  "save_manifest C e m name d =
     (let active_bytes = (case m_get (cd_segments d) name of None \<Rightarrow> [] | Some b \<Rightarrow> b);
          m' = modify_active_segment
                 (record_line (length (enc_event C e) + 1) (sha256_hex C active_bytes)
                    (previous_checksum m)) m
      in d\<lparr>cd_manifest := Some (m'\<lparr>mf_total_events := mf_total_events m + 1\<rparr>)\<rparr>)"

definition jsonl_append ::
    "codec \<Rightarrow> path \<Rightarrow> nat \<Rightarrow> event_envelope \<Rightarrow> (jsonl_store, jsonl_error, unit) prog" where
  "jsonl_append C root max_bytes e fs =
     (let c = env_conversation_id e in
      case write_line C max_bytes e (get_dir root c fs) of
        Inl x \<Rightarrow> (Inl x, fs)
      | Inr (m, name, d) \<Rightarrow> (Inr (), hm_put (conversation_path root c) (save_manifest C e m name d) fs))"

text \<open>A crash after the first effect.\<close>

definition crashed_append ::
    "codec \<Rightarrow> path \<Rightarrow> nat \<Rightarrow> event_envelope \<Rightarrow> jsonl_store \<Rightarrow> jsonl_store" where
  "crashed_append C root max_bytes e fs =
     (let c = env_conversation_id e in
      case write_line C max_bytes e (get_dir root c fs) of
        Inl x \<Rightarrow> fs
      | Inr (m, name, d) \<Rightarrow> hm_put (conversation_path root c) d fs)"

section \<open>Verify\<close>

text \<open>Counting the event lines of a segment; line numbers start at one.\<close>

fun verify_lines ::
    "codec \<Rightarrow> string \<Rightarrow> nat \<Rightarrow> string list \<Rightarrow> nat \<times> integrity_issue list" where
  "verify_lines C name n [] = (0, [])"
| "verify_lines C name n (raw # ls) =
     (let (count, issues) = verify_lines C name (Suc n) ls in
      if \<not> utf8_valid raw then (count, CorruptedEventLine name n ''invalid utf-8'' # issues)
      else if trim raw = [] then (count, issues)
      else (case dec_event C (trim raw) of
              Inr _ \<Rightarrow> (count + 1, issues)
            | Inl msg \<Rightarrow> (count, CorruptedEventLine name n msg # issues)))"

definition verify_jsonl_event_lines :: "codec \<Rightarrow> string \<Rightarrow> string \<Rightarrow> nat \<times> integrity_issue list" where
  "verify_jsonl_event_lines C name bs = verify_lines C name 1 (split_newline bs)"

record integrity_report =
  rep_verified_segments :: nat
  rep_verified_events :: nat
  rep_issues :: "integrity_issue list"

definition opt_issue :: "bool \<Rightarrow> 'i \<Rightarrow> 'i list" where
  "opt_issue b i = (if b then [i] else [])"

text \<open>The issues of one segment that is present, in the order they are reported.\<close>

definition segment_issues ::
    "codec \<Rightarrow> string option \<Rightarrow> segment_metadata \<Rightarrow> string \<Rightarrow> integrity_issue list" where
  "segment_issues C prev g bs =
     (let name = sg_file_name g;
          actual = sha256_hex C bs;
          (count, parse_issues) = verify_jsonl_event_lines C name bs
      in opt_issue (length bs \<noteq> sg_bytes g) (SegmentByteMismatch name (sg_bytes g) (length bs)) @
         (case sg_checksum g of
            None \<Rightarrow> []
          | Some expected \<Rightarrow>
              opt_issue (expected \<noteq> actual) (SegmentChecksumMismatch name expected actual)) @
         (case sg_previous_checksum g of
            None \<Rightarrow> []
          | Some expected \<Rightarrow>
              opt_issue (Some expected \<noteq> prev) (HashChainMismatch name expected prev)) @
         parse_issues @
         opt_issue (count \<noteq> sg_event_count g)
           (SegmentEventCountMismatch name (sg_event_count g) count))"

fun verify_segments ::
    "codec \<Rightarrow> (string, string) hmap \<Rightarrow> string option \<Rightarrow> segment_metadata list \<Rightarrow> integrity_report" where
  "verify_segments C files prev [] =
     \<lparr>rep_verified_segments = 0, rep_verified_events = 0, rep_issues = []\<rparr>"
| "verify_segments C files prev (g # gs) =
     (case m_get files (sg_file_name g) of
        None \<Rightarrow>
          (let r = verify_segments C files None gs
           in r\<lparr>rep_issues := MissingSegment (sg_file_name g) # rep_issues r\<rparr>)
      | Some bs \<Rightarrow>
          (let r = verify_segments C files (Some (sha256_hex C bs)) gs
           in r\<lparr>rep_verified_segments := rep_verified_segments r + 1,
                rep_verified_events :=
                  fst (verify_jsonl_event_lines C (sg_file_name g) bs) + rep_verified_events r,
                rep_issues := segment_issues C prev g bs @ rep_issues r\<rparr>))"

definition verify :: "codec \<Rightarrow> conversation_dir \<Rightarrow> integrity_report" where
  "verify C d =
     (case cd_manifest d of
        None \<Rightarrow> \<lparr>rep_verified_segments = 0, rep_verified_events = 0, rep_issues = []\<rparr>
      | Some m \<Rightarrow>
          (let r = verify_segments C (cd_segments d) None (sort_key sg_index (mf_segments m))
           in r\<lparr>rep_issues := rep_issues r @
                  opt_issue (rep_verified_events r \<noteq> mf_total_events m)
                    (TotalEventCountMismatch (mf_total_events m) (rep_verified_events r))\<rparr>))"

section \<open>Load\<close>

text \<open>
  Reading a segment line by line; the buffered reader yields no line after the last
  newline, and an empty line is skipped either way.
\<close>

fun parse_lines :: "codec \<Rightarrow> nat \<Rightarrow> string list \<Rightarrow> jsonl_error + event_envelope list" where
  "parse_lines C n [] = Inr []"
| "parse_lines C n (raw # ls) =
     (if \<not> utf8_valid raw then Inl InvalidUtf8Line
      else if trim raw = [] then parse_lines C (Suc n) ls
      else (case dec_event C (trim raw) of
              Inl msg \<Rightarrow> Inl (CorruptedEvent n msg)
            | Inr e \<Rightarrow> bind_result (parse_lines C (Suc n) ls) (\<lambda>es. Inr (e # es))))"

definition load_events_from_file :: "codec \<Rightarrow> string option \<Rightarrow> jsonl_error + event_envelope list" where
  "load_events_from_file C content =
     (case content of None \<Rightarrow> Inr [] | Some bs \<Rightarrow> parse_lines C 1 (split_newline bs))"

fun load_segments ::
    "codec \<Rightarrow> (string, string) hmap \<Rightarrow> segment_metadata list \<Rightarrow> jsonl_error + event_envelope list" where
  "load_segments C files [] = Inr []"
| "load_segments C files (g # gs) =
     (let content = m_get files (sg_file_name g) in
      if content \<noteq> None \<and> length (the content) \<noteq> sg_bytes g
      then Inl (ByteCountMismatch (sg_file_name g) (sg_bytes g) (length (the content)))
      else bind_result (load_events_from_file C content) (\<lambda>es.
           bind_result (load_segments C files gs) (\<lambda>rest. Inr (es @ rest))))"

definition jsonl_load_dir ::
    "codec \<Rightarrow> conversation_id \<Rightarrow> conversation_dir \<Rightarrow> jsonl_error + event_envelope list" where
  "jsonl_load_dir C c d =
     (case cd_manifest d of
        None \<Rightarrow> Inr []
      | Some m \<Rightarrow>
          (let issues = (if has_integrity_metadata m then rep_issues (verify C d) else []) in
           if issues \<noteq> [] then Inl (VerificationFailed c issues)
           else
             bind_result (load_segments C (cd_segments d) (sort_key sg_index (mf_segments m)))
               (\<lambda>es. if length es \<noteq> mf_total_events m
                     then Inl (TotalEventsMismatch (mf_total_events m) (length es))
                     else Inr es)))"

definition jsonl_load ::
    "codec \<Rightarrow> path \<Rightarrow> conversation_id \<Rightarrow> jsonl_store \<Rightarrow> jsonl_error + event_envelope list" where
  "jsonl_load C root c fs = jsonl_load_dir C c (get_dir root c fs)"

definition jsonl_ops :: "codec \<Rightarrow> path \<Rightarrow> nat \<Rightarrow> (jsonl_store, jsonl_error) journal_ops" where
  "jsonl_ops C root max_bytes =
     \<lparr>jo_append = jsonl_append C root max_bytes, jo_load = jsonl_load C root\<rparr>"

section \<open>What a well-formed directory holds\<close>

text \<open>The envelopes the serialiser represents faithfully, one per line.\<close>

definition jsonl_accepts :: "codec \<Rightarrow> event_envelope \<Rightarrow> bool" where
  "jsonl_accepts C e =
     (let s = enc_event C e in
      CHR 0x0A \<notin> set s \<and> utf8_valid s \<and> trim s = s \<and> s \<noteq> [] \<and> dec_event C s = Inr e)"

definition content :: "codec \<Rightarrow> event_envelope list \<Rightarrow> string" where
  "content C es = concat (map (\<lambda>l. l @ [CHR 0x0A]) (map (enc_event C) es))"

definition segment_of ::
    "codec \<Rightarrow> nat \<Rightarrow> string option \<Rightarrow> event_envelope list \<Rightarrow> segment_metadata" where
  "segment_of C i prev es =
     \<lparr>sg_index = i, sg_file_name = segment_file_name i, sg_event_count = length es,
      sg_bytes = length (content C es), sg_checksum = Some (sha256_hex C (content C es)),
      sg_previous_checksum = prev\<rparr>"

lemma segment_of_simps [simp]:
  "sg_index (segment_of C i prev es) = i"
  "sg_file_name (segment_of C i prev es) = segment_file_name i"
  "sg_event_count (segment_of C i prev es) = length es"
  "sg_bytes (segment_of C i prev es) = length (content C es)"
  "sg_checksum (segment_of C i prev es) = Some (sha256_hex C (content C es))"
  "sg_previous_checksum (segment_of C i prev es) = prev"
  by (simp_all add: segment_of_def)

text \<open>The entries of the chunks from index \<open>i\<close> on, each chained to the one before.\<close>

fun segment_list ::
    "codec \<Rightarrow> nat \<Rightarrow> string option \<Rightarrow> event_envelope list list \<Rightarrow> segment_metadata list" where
  "segment_list C i prev [] = []"
| "segment_list C i prev (es # css) =
     segment_of C i prev es # segment_list C (Suc i) (Some (sha256_hex C (content C es))) css"

definition last_checksum :: "codec \<Rightarrow> string option \<Rightarrow> event_envelope list list \<Rightarrow> string option" where
  "last_checksum C prev css =
     (if css = [] then prev else Some (sha256_hex C (content C (last css))))"

definition dir_holds :: "codec \<Rightarrow> conversation_dir \<Rightarrow> event_envelope list list \<Rightarrow> bool" where
  "dir_holds C d css =
     (list_all (list_all (jsonl_accepts C)) css \<and> [] \<notin> set css \<and>
      (\<forall>i. m_get (cd_segments d) (segment_file_name i) =
             (if i < length css then Some (content C (css ! i)) else None)) \<and>
      (case cd_manifest d of
         None \<Rightarrow> css = []
       | Some m \<Rightarrow>
           css \<noteq> [] \<and> mf_segments m = segment_list C 0 None css \<and>
           mf_active_segment_index m = length css - 1 \<and>
           mf_total_events m = length (concat css)))"

definition jsonl_inv :: "codec \<Rightarrow> jsonl_store \<Rightarrow> bool" where
  "jsonl_inv C fs = (\<forall>p. \<exists>css. dir_holds C (dir_at p fs) css)"

text \<open>
  An identifier that is a file name, and so names a directory of its own. The identifiers that
  the kernel draws are UUIDs and of this kind.
\<close>

definition plain_conversation :: "conversation_id \<Rightarrow> bool" where
  "plain_conversation c = (case c of ConversationId s \<Rightarrow> file_name_ok s \<and> CHR 0x00 \<notin> set s)"

definition same_directory :: "path \<Rightarrow> conversation_id \<Rightarrow> conversation_id \<Rightarrow> bool" where
  "same_directory root c c' \<longleftrightarrow> conversation_path root c = conversation_path root c'"

lemma segments_plain: "CHR ''/'' \<notin> set s \<Longrightarrow> segments s = [s]"
  by (induction s) auto

lemma plain_path: "plain_conversation (ConversationId s) \<Longrightarrow> conversation_path root (ConversationId s) = root @ [s]"
  by (cases s) (auto simp: plain_conversation_def file_name_ok_def conversation_path_def segments_plain starts_with_prefix)

lemma plain_apart: "plain_conversation c \<Longrightarrow> plain_conversation c' \<Longrightarrow> same_directory root c c' \<longleftrightarrow> c = c'"
  by (cases c; cases c') (auto simp: same_directory_def plain_path)

subsection \<open>Segment names are injective\<close>

fun digits_value :: "nat \<Rightarrow> string \<Rightarrow> nat" where
  "digits_value n [] = n"
| "digits_value n (c # s) =
     (if 48 \<le> byte c \<and> byte c \<le> 57 then digits_value (10 * n + (byte c - 48)) s else n)"

lemma byte_digit [simp]: "d < 10 \<Longrightarrow> byte (char_of (48 + d)) = 48 + d"
  by (simp add: of_char_of)

lemma digits_value_snoc:
  "list_all (\<lambda>c. 48 \<le> byte c \<and> byte c \<le> 57) s \<Longrightarrow>
   digits_value n (s @ t) = digits_value (digits_value n s) t"
  by (induction s arbitrary: n) auto

lemma decimal_digits: "list_all (\<lambda>c. 48 \<le> byte c \<and> byte c \<le> 57) (decimal n)"
proof (induction n rule: decimal.induct)
  case (1 n)
  then show ?case by (subst decimal.simps) (auto simp del: of_char_of)
qed

lemma digits_value_decimal: "digits_value 0 (decimal n @ ''.jsonl'') = n"
proof -
  have "digits_value 0 (decimal n) = n"
  proof (induction n rule: decimal.induct)
    case (1 n)
    show ?case
    proof (cases "n < 10")
      case True
      then show ?thesis by (subst decimal.simps) simp
    next
      case False
      with 1 show ?thesis
        by (subst decimal.simps) (simp add: digits_value_snoc decimal_digits)
    qed
  qed
  then show ?thesis by (simp add: digits_value_snoc decimal_digits)
qed

lemma digits_value_zeros: "digits_value 0 (replicate k (CHR ''0'') @ s) = digits_value 0 s"
  by (induction k) auto

lemma segment_file_name_inj [simp]: "segment_file_name i = segment_file_name j \<longleftrightarrow> i = j"
  unfolding segment_file_name_def
  by (metis digits_value_decimal digits_value_zeros)

subsection \<open>Reading back what was written\<close>

lemma content_simps [simp]:
  "content C [] = []"
  "content C (es @ [e]) = content C es @ enc_event C e @ [CHR 0x0A]"
  by (simp_all add: content_def)

lemma content_eq_Nil [simp]: "content C es = [] \<longleftrightarrow> es = []"
  by (cases es) (auto simp: content_def)

lemma split_content:
  "list_all (jsonl_accepts C) es \<Longrightarrow> split_newline (content C es) = map (enc_event C) es @ [[]]"
  unfolding content_def
  by (rule split_newline_lines) (auto simp: list_all_iff jsonl_accepts_def Let_def)

lemma parse_lines_content:
  "list_all (jsonl_accepts C) es \<Longrightarrow> parse_lines C n (map (enc_event C) es @ [[]]) = Inr es"
  by (induction es arbitrary: n) (auto simp: jsonl_accepts_def Let_def)

lemma verify_lines_content:
  "list_all (jsonl_accepts C) es \<Longrightarrow>
   verify_lines C name n (map (enc_event C) es @ [[]]) = (length es, [])"
  by (induction es arbitrary: n) (auto simp: jsonl_accepts_def Let_def)

lemma load_content:
  "list_all (jsonl_accepts C) es \<Longrightarrow> load_events_from_file C (Some (content C es)) = Inr es"
  by (simp add: load_events_from_file_def split_content parse_lines_content)

lemma verify_content:
  "list_all (jsonl_accepts C) es \<Longrightarrow>
   verify_jsonl_event_lines C name (content C es) = (length es, [])"
  by (simp add: verify_jsonl_event_lines_def split_content verify_lines_content)

lemma segment_issues_ok:
  "list_all (jsonl_accepts C) es \<Longrightarrow> segment_issues C prev (segment_of C i prev es) (content C es) = []"
  by (simp add: segment_issues_def segment_of_def verify_content opt_issue_def split: option.splits)

lemma verify_segments_ok:
  "list_all (list_all (jsonl_accepts C)) css \<Longrightarrow>
   (\<And>k. k < length css \<Longrightarrow> m_get files (segment_file_name (i + k)) = Some (content C (css ! k))) \<Longrightarrow>
   verify_segments C files prev (segment_list C i prev css) =
     \<lparr>rep_verified_segments = length css, rep_verified_events = length (concat css),
      rep_issues = []\<rparr>"
proof (induction css arbitrary: i prev)
  case Nil
  then show ?case by simp
next
  case (Cons es css)
  have head: "m_get files (segment_file_name i) = Some (content C es)"
    using Cons.prems(2) [of 0] by simp
  have "verify_segments C files (Some (sha256_hex C (content C es)))
      (segment_list C (Suc i) (Some (sha256_hex C (content C es))) css) =
     \<lparr>rep_verified_segments = length css, rep_verified_events = length (concat css),
      rep_issues = []\<rparr>"
    using Cons.prems(1) Cons.prems(2) [of "Suc k" for k] by (intro Cons.IH) auto
  with head Cons.prems(1) show ?case
    by (simp add: segment_issues_ok verify_content)
qed

lemma load_segments_ok:
  "list_all (list_all (jsonl_accepts C)) css \<Longrightarrow>
   (\<And>k. k < length css \<Longrightarrow> m_get files (segment_file_name (i + k)) = Some (content C (css ! k))) \<Longrightarrow>
   load_segments C files (segment_list C i prev css) = Inr (concat css)"
proof (induction css arbitrary: i prev)
  case Nil
  then show ?case by simp
next
  case (Cons es css)
  have head: "m_get files (segment_file_name i) = Some (content C es)"
    using Cons.prems(2) [of 0] by simp
  have "load_segments C files
      (segment_list C (Suc i) (Some (sha256_hex C (content C es))) css) = Inr (concat css)"
    using Cons.prems(1) Cons.prems(2) [of "Suc k" for k] by (intro Cons.IH) auto
  with head Cons.prems(1) show ?case
    by (simp add: segment_of_def load_content)
qed

lemma segment_list_indices: "map sg_index (segment_list C i prev css) = [i ..< i + length css]"
  by (induction css arbitrary: i prev) (auto simp: segment_of_def upt_rec)

lemma segment_list_sorted: "sort_key sg_index (segment_list C i prev css) = segment_list C i prev css"
  by (rule sort_key_id_if_sorted) (simp add: segment_list_indices)

lemma segment_list_snoc:
  "segment_list C i prev (css @ [es]) =
     segment_list C i prev css @ [segment_of C (i + length css) (last_checksum C prev css) es]"
  by (induction css arbitrary: i prev) (auto simp: last_checksum_def)

lemma segment_list_index:
  "g \<in> set (segment_list C i prev css) \<Longrightarrow> sg_index g < i + length css"
  by (metis atLeastLessThan_iff image_eqI image_set segment_list_indices set_upt)

lemma segment_list_integrity: "css \<noteq> [] \<Longrightarrow> list_ex (\<lambda>g. sg_checksum g \<noteq> None) (segment_list C i prev css)"
  by (cases css) (auto simp: segment_of_def)

lemma jsonl_load_dir_ok:
  assumes "dir_holds C d css"
  shows "jsonl_load_dir C c d = Inr (concat css)" and "rep_issues (verify C d) = []"
proof -
  have acc: "list_all (list_all (jsonl_accepts C)) css"
    and files: "\<And>k. k < length css \<Longrightarrow>
      m_get (cd_segments d) (segment_file_name (0 + k)) = Some (content C (css ! k))"
    using assms by (auto simp: dir_holds_def)
  show "rep_issues (verify C d) = []"
    using assms verify_segments_ok [OF acc files]
    by (auto simp: verify_def dir_holds_def segment_list_sorted opt_issue_def split: option.splits)
  with assms load_segments_ok [OF acc files]
  show "jsonl_load_dir C c d = Inr (concat css)"
    by (auto simp: jsonl_load_dir_def dir_holds_def segment_list_sorted split: option.splits)
qed

subsection \<open>Appending keeps the directory well formed\<close>

lemma active_segment_snoc:
  "mf_segments m = xs @ [g] \<Longrightarrow> sg_index g = mf_active_segment_index m \<Longrightarrow>
   (\<And>x. x \<in> set xs \<Longrightarrow> sg_index x < sg_index g) \<Longrightarrow> active_segment m = Some g"
  by (simp add: active_segment_def find_append less_imp_neq)

lemma modify_active_segment_snoc:
  "mf_segments m = xs @ [g] \<Longrightarrow> sg_index g = mf_active_segment_index m \<Longrightarrow>
   (\<And>x. x \<in> set xs \<Longrightarrow> sg_index x < sg_index g) \<Longrightarrow>
   mf_segments (modify_active_segment f m) = xs @ [f g]"
  unfolding modify_active_segment_def by (simp add: update_first_append less_imp_neq)

text \<open>The predecessor of the active segment supplies the chained checksum.\<close>

lemma find_predecessor:
  assumes "css \<noteq> []"
  shows "Option.bind (find (\<lambda>g. sg_index g + 1 = length css) (segment_list C 0 None css @ gs))
           sg_checksum = last_checksum C None css"
proof -
  obtain init es where css: "css = init @ [es]"
    using assms by (cases css rule: rev_cases) auto
  have "\<forall>x \<in> set (segment_list C 0 None init). sg_index x + 1 \<noteq> length css"
    using css by (auto dest: segment_list_index)
  then show ?thesis
    by (simp add: css segment_list_snoc find_append last_checksum_def)
qed

lemma previous_checksum_eq:
  assumes "mf_segments m = segment_list C 0 None css @ gs"
    and "mf_active_segment_index m = length css"
  shows "previous_checksum m = last_checksum C None css"
  using assms find_predecessor [of css C gs]
  by (cases "css = []") (auto simp: previous_checksum_def last_checksum_def)

text \<open>
  The common step: the manifest whose active segment holds the chunk \<open>es\<close> (possibly none
  yet) after the chunks \<open>css\<close>, and the file of that segment.
\<close>

lemma write_and_save:
  assumes m: "mf_segments m = segment_list C 0 None css @ [g]"
    "mf_active_segment_index m = length css" "mf_total_events m = length (concat css) + length es"
    and g: "sg_index g = length css" "sg_file_name g = segment_file_name (length css)"
      "sg_event_count g = length es" "sg_bytes g = length (content C es)"
    and acc: "list_all (list_all (jsonl_accepts C)) css" "[] \<notin> set css"
      "list_all (jsonl_accepts C) es" "jsonl_accepts C e"
    and files: "\<And>i. m_get (cd_segments d) (segment_file_name i) =
      (if i < length css then Some (content C (css ! i))
       else if i = length css \<and> es \<noteq> [] then Some (content C es) else None)"
  shows "dir_holds C
    (save_manifest C e m (sg_file_name g)
      (d\<lparr>cd_segments := append_file (sg_file_name g) (enc_event C e @ [CHR 0x0A]) (cd_segments d)\<rparr>))
    (css @ [es @ [e]])"
proof -
  let ?files = "append_file (sg_file_name g) (enc_event C e @ [CHR 0x0A]) (cd_segments d)"
  have new: "m_get ?files (segment_file_name i) =
      (if i < length (css @ [es @ [e]]) then Some (content C ((css @ [es @ [e]]) ! i)) else None)" for i
    using files [of i] files [of "length css"] g(2)
    by (auto simp: append_file_def nth_append)
  have lt: "x \<in> set (segment_list C 0 None css) \<Longrightarrow> sg_index x < sg_index g" for x
    using segment_list_index g(1) by fastforce
  have prev: "previous_checksum m = last_checksum C None css"
    using previous_checksum_eq [OF m(1,2)] .
  have seg: "record_line (length (enc_event C e) + 1) (sha256_hex C (content C (es @ [e])))
      (last_checksum C None css) g = segment_of C (length css) (last_checksum C None css) (es @ [e])"
    using g by (simp add: record_line_def segment_of_def)
  have bytes: "m_get ?files (sg_file_name g) = Some (content C (es @ [e]))"
    using new [of "length css"] g(2) by simp
  have segs: "mf_segments (modify_active_segment
      (record_line (length (enc_event C e) + 1) (sha256_hex C (content C (es @ [e])))
        (previous_checksum m)) m) = segment_list C 0 None (css @ [es @ [e]])"
    using modify_active_segment_snoc [OF m(1)] m(2) g(1) lt
    by (simp add: segment_list_snoc prev seg [simplified])
  show ?thesis
    unfolding dir_holds_def
    using acc m segs new bytes
    by (simp add: save_manifest_def modify_active_segment_def)
qed

lemma append_dir:
  assumes "dir_holds C d css" and "jsonl_accepts C e"
  shows "\<exists>m name d' css'. write_line C k e d = Inr (m, name, d') \<and>
    dir_holds C (save_manifest C e m name d') css' \<and> concat css' = concat css @ [e]"
proof (cases "cd_manifest d")
  case None
  let ?m = "manifest_new k"
  have act: "active_segment ?m = Some (segment_new 0)"
    by (simp add: active_segment_def manifest_new_def segment_new_def)
  have w: "write_line C k e d = Inr (?m, segment_file_name 0,
      d\<lparr>cd_segments := append_file (segment_file_name 0) (enc_event C e @ [CHR 0x0A]) (cd_segments d)\<rparr>)"
    using None act
    by (simp add: write_line_def load_or_create_manifest_def manifest_for_line_def segment_new_def)
  have "dir_holds C (save_manifest C e ?m (sg_file_name (segment_new 0))
      (d\<lparr>cd_segments := append_file (sg_file_name (segment_new 0)) (enc_event C e @ [CHR 0x0A])
           (cd_segments d)\<rparr>)) ([] @ [[] @ [e]])"
    using assms None
    by (intro write_and_save) (auto simp: manifest_new_def segment_new_def dir_holds_def)
  then have dh: "dir_holds C (save_manifest C e ?m (segment_file_name 0)
      (d\<lparr>cd_segments := append_file (segment_file_name 0) (enc_event C e @ [CHR 0x0A])
           (cd_segments d)\<rparr>)) [[e]]"
    by (simp add: segment_new_def)
  have "css = []" using assms(1) None by (simp add: dir_holds_def)
  then have "concat [[e]] = concat css @ [e]" by simp
  with w dh show ?thesis by blast
next
  case (Some m)
  with assms(1) have acc: "list_all (list_all (jsonl_accepts C)) css" "[] \<notin> set css"
    and ne: "css \<noteq> []" and m: "mf_segments m = segment_list C 0 None css"
      "mf_active_segment_index m = length css - 1" "mf_total_events m = length (concat css)"
    and files: "\<And>i. m_get (cd_segments d) (segment_file_name i) =
             (if i < length css then Some (content C (css ! i)) else None)"
    by (auto simp: dir_holds_def)
  from ne obtain init es where css: "css = init @ [es]"
    by (cases css rule: rev_cases) auto
  let ?g = "segment_of C (length init) (last_checksum C None init) es"
  have segs: "mf_segments m = segment_list C 0 None init @ [?g]"
    using m(1) by (simp add: css segment_list_snoc)
  have act: "active_segment m = Some ?g"
    using m(2) by (intro active_segment_snoc [OF segs]) (auto simp: css dest: segment_list_index)
  let ?line = "enc_event C e @ [CHR 0x0A]"
  show ?thesis
  proof (cases "mf_max_segment_bytes m < length (content C es) + length ?line")
    case False
    have w: "write_line C k e d = Inr (m, sg_file_name ?g,
        d\<lparr>cd_segments := append_file (sg_file_name ?g) ?line (cd_segments d)\<rparr>)"
      using Some act False
      by (simp add: write_line_def load_or_create_manifest_def manifest_for_line_def)
    have "dir_holds C (save_manifest C e m (sg_file_name ?g)
        (d\<lparr>cd_segments := append_file (sg_file_name ?g) ?line (cd_segments d)\<rparr>))
        (init @ [es @ [e]])"
      using m(2,3) acc assms(2) files
      by (intro write_and_save [OF segs]) (auto simp: css nth_append)
    with w show ?thesis by (auto simp: css)
  next
    case True
    let ?m = "roll_segment m" and ?n = "segment_new (length css)"
    have rsegs: "mf_segments ?m = segment_list C 0 None css @ [?n]"
      and ract: "mf_active_segment_index ?m = length css"
      using m(1,2) ne by (simp_all add: roll_segment_def Let_def)
    have act': "active_segment ?m = Some ?n"
      using ract by (intro active_segment_snoc [OF rsegs])
        (auto simp: segment_new_def dest: segment_list_index)
    have "0 < length (content C es)"
      using acc(2) by (auto simp: css)
    then have w: "write_line C k e d = Inr (?m, sg_file_name ?n,
        d\<lparr>cd_segments := append_file (sg_file_name ?n) ?line (cd_segments d)\<rparr>)"
      using Some act act' True
      by (simp add: write_line_def load_or_create_manifest_def manifest_for_line_def)
    have "dir_holds C (save_manifest C e ?m (sg_file_name ?n)
        (d\<lparr>cd_segments := append_file (sg_file_name ?n) ?line (cd_segments d)\<rparr>))
        (css @ [[] @ [e]])"
      using m(3) acc assms(2) files
      by (intro write_and_save [OF rsegs ract])
         (auto simp: segment_new_def roll_segment_def Let_def)
    with w show ?thesis by auto
  qed
qed

subsection \<open>The durable journal satisfies the contract\<close>

lemma dir_at_put [simp]: "dir_at p (hm_put q d fs) = (if p = q then d else dir_at p fs)"
  by (simp add: dir_at_def)

lemma jsonl_append_ok:
  assumes "jsonl_inv C fs" and "jsonl_accepts C e"
  shows "\<exists>d css css'. jsonl_append C root k e fs = (Inr (), hm_put (conversation_path root (env_conversation_id e)) d fs) \<and>
    dir_holds C (get_dir root (env_conversation_id e) fs) css \<and> dir_holds C d css' \<and>
    concat css' = concat css @ [e]"
proof -
  obtain css where css: "dir_holds C (get_dir root (env_conversation_id e) fs) css"
    using assms(1) unfolding jsonl_inv_def get_dir_def by blast
  from append_dir [OF this assms(2), of k] css show ?thesis
    by (fastforce simp: jsonl_append_def)
qed

lemma jsonl_load_holds: "dir_holds C (get_dir root c fs) css \<Longrightarrow> jsonl_load C root c fs = Inr (concat css)"
  by (simp add: jsonl_load_def jsonl_load_dir_ok)

lemma jsonl_inv_put: "jsonl_inv C fs \<Longrightarrow> dir_holds C d css \<Longrightarrow> jsonl_inv C (hm_put p d fs)"
  by (auto simp: jsonl_inv_def)

interpretation jsonl: reliable_journal "jsonl_ops C root k" "jsonl_inv C" "jsonl_accepts C" "same_directory root" for C root k
proof unfold_locales
  fix j c
  assume "jsonl_inv C j"
  then obtain css where "dir_holds C (get_dir root c j) css" unfolding jsonl_inv_def get_dir_def by blast
  then show "\<exists>es. jo_load (jsonl_ops C root k) c j = Inr es"
    by (auto simp: jsonl_ops_def dest: jsonl_load_holds)
next
  fix j e r j'
  assume j: "jsonl_inv C j" "jsonl_accepts C e" and run: "jo_append (jsonl_ops C root k) e j = (r, j')"
  from jsonl_append_ok [OF j, of root k] run obtain d css
    where "j' = hm_put (conversation_path root (env_conversation_id e)) d j" "dir_holds C d css"
    by (auto simp: jsonl_ops_def)
  then show "jsonl_inv C j'" using jsonl_inv_put [OF j(1)] by blast
next
  fix j e j' c es
  assume "jsonl_inv C j" "jsonl_accepts C e" "jo_append (jsonl_ops C root k) e j = (Inr (), j')"
    and old: "jo_load (jsonl_ops C root k) c j = Inr es"
  with jsonl_append_ok [of C j e root k] obtain d css css'
    where j': "j' = hm_put (conversation_path root (env_conversation_id e)) d j"
      and css: "dir_holds C (get_dir root (env_conversation_id e) j) css" "dir_holds C d css'"
        "concat css' = concat css @ [e]"
    by (auto simp: jsonl_ops_def)
  show "jo_load (jsonl_ops C root k) c j' = Inr (if same_directory root (env_conversation_id e) c then es @ [e] else es)"
  proof (cases "same_directory root (env_conversation_id e) c")
    case True
    then have "dir_holds C (get_dir root c j) css" "dir_holds C (get_dir root c j') css'"
      using css(1,2) j' by (simp_all add: same_directory_def get_dir_def)
    with old True css(3) show ?thesis
      by (simp add: jsonl_ops_def jsonl_load_holds)
  next
    case False
    with old j' show ?thesis
      by (auto simp: jsonl_ops_def jsonl_load_def get_dir_def same_directory_def)
  qed
next
  fix j e x j' c
  assume "jsonl_inv C j" "jsonl_accepts C e" "jo_append (jsonl_ops C root k) e j = (Inl x, j')"
  with jsonl_append_ok [of C j e root k]
  show "jo_load (jsonl_ops C root k) c j' = jo_load (jsonl_ops C root k) c j"
    by (auto simp: jsonl_ops_def)
next
  fix j e
  assume "jsonl_inv C j" "jsonl_accepts C e"
  with jsonl_append_ok [of C j e root k] show "\<exists>j'. jo_append (jsonl_ops C root k) e j = (Inr (), j')"
    by (auto simp: jsonl_ops_def)
qed

section \<open>Damage is detected\<close>

lemma verify_segments_damage:
  "g \<in> set gs \<Longrightarrow>
   (case m_get files (sg_file_name g) of
      None \<Rightarrow> True | Some bs \<Rightarrow> sg_checksum g \<noteq> None \<and> sg_checksum g \<noteq> Some (sha256_hex C bs)) \<Longrightarrow>
   rep_issues (verify_segments C files prev gs) \<noteq> []"
  by (induction gs arbitrary: prev)
     (auto simp: segment_issues_def opt_issue_def Let_def split: option.splits prod.splits)

lemma load_dir_issues:
  assumes "cd_manifest d = Some m" and "has_integrity_metadata m"
    and "rep_issues (verify_segments C (cd_segments d) None (sort_key sg_index (mf_segments m))) \<noteq> []"
  shows "\<exists>issues. jsonl_load_dir C c d = Inl (VerificationFailed c issues)"
  using assms by (simp add: jsonl_load_dir_def verify_def Let_def)

lemma verify_segments_bytes:
  "g \<in> set gs \<Longrightarrow> m_get files (sg_file_name g) = Some bs \<Longrightarrow> length bs \<noteq> sg_bytes g \<Longrightarrow>
   rep_issues (verify_segments C files prev gs) \<noteq> []"
  by (induction gs arbitrary: prev)
     (auto simp: segment_issues_def opt_issue_def Let_def split: option.splits prod.splits)

lemma holds_manifest:
  assumes "dir_holds C d css" and "cd_manifest d = Some m"
  shows "css \<noteq> []" and "mf_segments m = segment_list C 0 None css" and "has_integrity_metadata m"
  using assms segment_list_integrity [of css C 0 None]
  by (simp_all add: dir_holds_def has_integrity_metadata_def)

lemma segment_list_checksum: "g \<in> set (segment_list C i prev css) \<Longrightarrow> sg_checksum g \<noteq> None"
  by (induction css arbitrary: i prev) auto

lemma segment_list_nth:
  "g \<in> set (segment_list C i prev css) \<Longrightarrow>
   \<exists>k < length css. sg_file_name g = segment_file_name (i + k) \<and>
     sg_bytes g = length (content C (css ! k)) \<and>
     sg_checksum g = Some (sha256_hex C (content C (css ! k)))"
proof (induction css arbitrary: i prev)
  case Nil
  then show ?case by simp
next
  case (Cons es css)
  show ?case
  proof (cases "g = segment_of C i prev es")
    case True
    then show ?thesis by (intro exI [of _ 0]) simp
  next
    case False
    with Cons obtain k where "k < length css" "sg_file_name g = segment_file_name (Suc i + k)"
      "sg_bytes g = length (content C (css ! k))"
      "sg_checksum g = Some (sha256_hex C (content C (css ! k)))"
      by fastforce
    then show ?thesis by (intro exI [of _ "Suc k"]) simp
  qed
qed

lemma verify_segments_cong:
  "(\<And>g. g \<in> set gs \<Longrightarrow> m_get files (sg_file_name g) = m_get files' (sg_file_name g)) \<Longrightarrow>
   verify_segments C files prev gs = verify_segments C files' prev gs"
  by (induction gs arbitrary: prev) (auto split: option.splits)

lemma load_segments_cong:
  "(\<And>g. g \<in> set gs \<Longrightarrow> m_get files (sg_file_name g) = m_get files' (sg_file_name g)) \<Longrightarrow>
   load_segments C files gs = load_segments C files' gs"
  by (induction gs) (simp_all add: Let_def)

text \<open>
  After a crash between the two effects the directory still holds the old manifest. If
  the line went to a file the manifest knows, its byte count no longer matches; if it
  opened a new segment, the manifest does not see it and the old events are loaded.
\<close>

lemma crash_dir:
  assumes "dir_holds C d css" and "write_line C k e d = Inr (m', name, d')"
  shows "jsonl_load_dir C c d' = Inr (concat css) \<or>
         (\<exists>issues. jsonl_load_dir C c d' = Inl (VerificationFailed c issues))"
proof (cases "cd_manifest d")
  case None
  with assms have "cd_manifest d' = None" and "css = []"
    by (auto simp: write_line_def Let_def bind_result_Inr_iff dir_holds_def)
  then show ?thesis by (simp add: jsonl_load_dir_def)
next
  case (Some m)
  from assms(2) obtain a where act: "active_segment m' = Some a" and name: "name = sg_file_name a"
    and d': "d' = d\<lparr>cd_segments := append_file name (enc_event C e @ [CHR 0x0A]) (cd_segments d)\<rparr>"
    and m': "manifest_for_line (length (enc_event C e @ [CHR 0x0A])) m = Inr m'"
    using Some by (auto simp: write_line_def Let_def bind_result_Inr_iff load_or_create_manifest_def)
  have man: "cd_manifest d' = Some m" using Some d' by simp
  note hm = holds_manifest [OF assms(1) Some]
  show ?thesis
  proof (cases "\<exists>g \<in> set (mf_segments m). sg_file_name g = name")
    case True
    then obtain g where g: "g \<in> set (mf_segments m)" "sg_file_name g = name" by blast
    then obtain i where i: "i < length css" "name = segment_file_name i"
      "sg_bytes g = length (content C (css ! i))"
      using segment_list_nth [OF g(1) [unfolded hm(2)]] by auto
    have "m_get (cd_segments d) name = Some (content C (css ! i))"
      using assms(1) i by (simp add: dir_holds_def)
    then have "m_get (cd_segments d') (sg_file_name g) =
        Some (content C (css ! i) @ enc_event C e @ [CHR 0x0A])"
      using g(2) by (simp add: d' append_file_def)
    then have "rep_issues (verify_segments C (cd_segments d') None
        (sort_key sg_index (mf_segments m))) \<noteq> []"
      using g(1) i(3) by (intro verify_segments_bytes [of g]) auto
    with load_dir_issues [OF man hm(3)] show ?thesis by blast
  next
    case False
    have same: "m_get (cd_segments d') (sg_file_name g) = m_get (cd_segments d) (sg_file_name g)"
      if "g \<in> set (mf_segments m)" for g
      using False that by (auto simp: d' append_file_def)
    let ?gs = "sort_key sg_index (mf_segments m)"
    have "load_segments C (cd_segments d') ?gs = load_segments C (cd_segments d) ?gs"
      "verify_segments C (cd_segments d') None ?gs = verify_segments C (cd_segments d) None ?gs"
      using same by (auto intro: load_segments_cong verify_segments_cong)
    note segs_same = this
    then have "verify C d' = verify C d"
      using Some man by (simp add: verify_def)
    then have "jsonl_load_dir C c d' = jsonl_load_dir C c d"
      using Some man segs_same by (simp only: jsonl_load_dir_def option.case)
    then show ?thesis using jsonl_load_dir_ok(1) [OF assms(1)] by simp
  qed
qed

section \<open>Properties\<close>

lemma jsonl_inv_empty: "jsonl_inv C []"
  unfolding jsonl_inv_def
  by (rule allI, rule exI [of _ "[]"]) (simp add: dir_holds_def dir_at_def empty_dir_def)

lemma jsonl_load_empty: "jsonl_load C root c [] = Inr []"
  by (simp add: jsonl_load_def jsonl_load_dir_def get_dir_def dir_at_def empty_dir_def)

text \<open>A load returns the events of all identifiers that name the directory.\<close>

lemma jsonl_replays_directory:
  assumes "list_all (jsonl_accepts C) es"
  shows "\<exists>fs. append_all (jsonl_ops C root k) es [] = (Inr (), fs) \<and>
    (\<forall>c. jsonl_load C root c fs = Inr (filter (\<lambda>e. same_directory root (env_conversation_id e) c) es))"
proof -
  obtain fs where fs: "append_all (jsonl_ops C root k) es [] = (Inr (), fs)"
    using jsonl.append_all_ok [OF jsonl_inv_empty assms] by blast
  have load: "jsonl_load C root c fs = Inr (filter (\<lambda>e. same_directory root (env_conversation_id e) c) es)" for c
    using jsonl.append_all_load [OF jsonl_inv_empty assms fs, of c "[]"]
    by (simp add: jsonl_ops_def jsonl_load_empty)
  with fs show ?thesis by blast
qed

text \<open>
  C4. Starting from an empty root directory, appending any sequence of events the
  serialiser represents, in conversations whose identifiers are file names, succeeds,
  whatever the segment size, and loading a conversation then returns exactly its events in
  the order they were appended, across segment rollovers, manifests, checksums and parsing.
\<close>

theorem jsonl_replays_history:
  assumes "list_all (jsonl_accepts C) es" and "list_all (\<lambda>e. plain_conversation (env_conversation_id e)) es"
  shows "\<exists>fs. append_all (jsonl_ops C root k) es [] = (Inr (), fs) \<and>
    (\<forall>c. plain_conversation c \<longrightarrow> jsonl_load C root c fs = Inr (filter (\<lambda>e. env_conversation_id e = c) es))"
proof -
  have "filter (\<lambda>e. same_directory root (env_conversation_id e) c) es = filter (\<lambda>e. env_conversation_id e = c) es"
    if "plain_conversation c" for c
    using that assms(2) by (intro filter_cong) (auto simp: list_all_iff plain_apart)
  with jsonl_replays_directory [OF assms(1), of root k] show ?thesis by auto
qed

text \<open>
  C5. Tamper evidence: when a segment file recorded in the manifest of a well-formed
  journal is missing, or its bytes have a checksum other than the recorded one, loading
  that conversation is refused with an integrity failure; no events are returned.
\<close>

theorem jsonl_tamper_evident:
  assumes "jsonl_inv C fs" and "cd_manifest (get_dir root c fs) = Some m" and "g \<in> set (mf_segments m)"
    and "\<And>bs. m_get files (sg_file_name g) = Some bs \<Longrightarrow> sg_checksum g \<noteq> Some (sha256_hex C bs)"
  shows "\<exists>issues. jsonl_load C root c (hm_put (conversation_path root c) ((get_dir root c fs)\<lparr>cd_segments := files\<rparr>) fs) =
    Inl (VerificationFailed c issues)"
proof -
  let ?d = "(get_dir root c fs)\<lparr>cd_segments := files\<rparr>"
  obtain css where holds: "dir_holds C (get_dir root c fs) css"
    using assms(1) unfolding jsonl_inv_def get_dir_def by blast
  note hm = holds_manifest [OF holds assms(2)]
  have "sg_checksum g \<noteq> None"
    using assms(3) hm(2) by (simp add: segment_list_checksum)
  with assms(4) have "rep_issues (verify_segments C (cd_segments ?d) None
      (sort_key sg_index (mf_segments m))) \<noteq> []"
    using assms(3) by (intro verify_segments_damage [of g]) (auto split: option.splits)
  with load_dir_issues [of ?d m C c] assms(2) hm(3) show ?thesis
    by (simp add: jsonl_load_def get_dir_def)
qed

text \<open>
  C6. A crash between writing the event line and saving the manifest never yields wrong
  events: a later load returns exactly the events before the interrupted append, or it
  is refused with an integrity failure.
\<close>

theorem jsonl_crash_safe:
  assumes "jsonl_inv C fs" and "env_conversation_id e = c"
  shows "jsonl_load C root c (crashed_append C root k e fs) = jsonl_load C root c fs \<or>
    (\<exists>issues. jsonl_load C root c (crashed_append C root k e fs) = Inl (VerificationFailed c issues))"
proof -
  obtain css where holds: "dir_holds C (get_dir root c fs) css"
    using assms(1) unfolding jsonl_inv_def get_dir_def by blast
  show ?thesis
  proof (cases "write_line C k e (get_dir root c fs)")
    case (Inl x)
    then show ?thesis using assms(2) by (simp add: crashed_append_def)
  next
    case (Inr r)
    obtain m name d where r: "r = (m, name, d)" by (cases r)
    then have crashed: "crashed_append C root k e fs = hm_put (conversation_path root c) d fs"
      using Inr assms(2) by (simp add: crashed_append_def)
    have "get_dir root c (hm_put (conversation_path root c) d fs) = d" by (simp add: get_dir_def)
    with crash_dir [OF holds Inr [unfolded r], of c] show ?thesis
      by (simp add: crashed jsonl_load_def jsonl_load_dir_ok(1) [OF holds])
  qed
qed

text \<open>
  The identifier of a conversation is joined to the root unchecked. One that ends in a slash
  shares its directory with another conversation, one that goes up leaves the root.
\<close>

lemma shared_directories:
  "conversation_path root (ConversationId ''a/'') = conversation_path root (ConversationId ''a'')"
  "conversation_path root (ConversationId ''a/.'') = conversation_path root (ConversationId ''a'')"
  "conversation_path root (ConversationId ''..'') = butlast root"
  by (simp_all add: conversation_path_def starts_with_prefix)

section \<open>A concrete codec\<close>

text \<open>
  A small serialiser for closed examples: an event is written as its identifier in
  braces, and read back by looking it up in a given list.
\<close>

definition example_enc :: "event_envelope \<Rightarrow> string" where
  "example_enc e = (case env_event_id e of EventId s \<Rightarrow> ''{'' @ s @ ''}'')"

definition example_codec :: "event_envelope list \<Rightarrow> codec" where
  "example_codec es =
     \<lparr>enc_event = example_enc,
      dec_event = (\<lambda>s. case find (\<lambda>e. example_enc e = s) es of
                          Some e \<Rightarrow> Inr e | None \<Rightarrow> Inl ''unknown event''),
      sha256_hex = (\<lambda>s. s)\<rparr>"

definition example_event :: "string \<Rightarrow> event_envelope" where
  "example_event i =
     \<lparr>env_schema_version = CURRENT_SCHEMA_VERSION, env_event_id = EventId i,
      env_conversation_id = ConversationId ''c1'', env_occurred_at = 0, env_actor_id = None,
      env_event = AgentRunStarted i\<rparr>"

definition example_events :: "event_envelope list" where
  "example_events = [example_event ''a'', example_event ''b'', example_event ''c'']"

definition example_jsonl :: codec where
  "example_jsonl = example_codec example_events"

lemma example_accepts: "list_all (jsonl_accepts example_jsonl) example_events"
  by code_simp

definition example_store :: jsonl_store where
  "example_store = snd (append_all (jsonl_ops example_jsonl [''root''] 6) example_events [])"

lemma example_store_inv: "jsonl_inv example_jsonl example_store"
proof -
  obtain fs where fs: "append_all (jsonl_ops example_jsonl [''root''] 6) example_events [] = (Inr (), fs)"
    using jsonl.append_all_ok [OF jsonl_inv_empty example_accepts] by blast
  then have "jsonl_inv example_jsonl fs"
    using jsonl.append_all_inv [OF jsonl_inv_empty example_accepts] by simp
  with fs show ?thesis by (simp add: example_store_def)
qed

theorem jsonl_replays_history_witness:
  "\<exists>fs. append_all (jsonl_ops example_jsonl [''root''] 6) example_events [] = (Inr (), fs) \<and>
     jsonl_load example_jsonl [''root''] (ConversationId ''c1'') fs = Inr example_events"
proof -
  have "list_all (\<lambda>e. plain_conversation (env_conversation_id e)) example_events" "plain_conversation (ConversationId ''c1'')"
    "filter (\<lambda>e. env_conversation_id e = ConversationId ''c1'') example_events = example_events"
    by code_simp+
  with jsonl_replays_history [OF example_accepts, of "[''root'']" 6] show ?thesis by auto
qed

definition example_manifest :: journal_manifest where
  "example_manifest = the (cd_manifest (get_dir [''root''] (ConversationId ''c1'') example_store))"

lemma example_manifest_eqs:
  "cd_manifest (get_dir [''root''] (ConversationId ''c1'') example_store) = Some example_manifest"
  "map sg_file_name (mf_segments example_manifest) =
     [segment_file_name 0, segment_file_name 1, segment_file_name 2]"
  "sg_checksum (hd (mf_segments example_manifest)) = Some (''{a}'' @ [CHR 0x0A])"
  by code_simp+

theorem jsonl_tamper_evident_witness:
  "\<exists>issues. jsonl_load example_jsonl [''root''] (ConversationId ''c1'')
     (hm_put (conversation_path [''root''] (ConversationId ''c1''))
       ((get_dir [''root''] (ConversationId ''c1'') example_store)
          \<lparr>cd_segments := [(segment_file_name 0, ''forged'')]\<rparr>) example_store) =
     Inl (VerificationFailed (ConversationId ''c1'') issues)"
proof (rule jsonl_tamper_evident [OF example_store_inv example_manifest_eqs(1),
      of "hd (mf_segments example_manifest)"])
  show "hd (mf_segments example_manifest) \<in> set (mf_segments example_manifest)"
    using example_manifest_eqs(2) by (cases "mf_segments example_manifest") auto
next
  fix bs
  assume "m_get [(segment_file_name 0, ''forged'')] (sg_file_name (hd (mf_segments example_manifest))) = Some bs"
  moreover have "sg_file_name (hd (mf_segments example_manifest)) = segment_file_name 0"
    using example_manifest_eqs(2) by (cases "mf_segments example_manifest") auto
  ultimately show "sg_checksum (hd (mf_segments example_manifest)) \<noteq> Some (sha256_hex example_jsonl bs)"
    by (auto simp: m_get_Cons example_manifest_eqs(3) example_jsonl_def example_codec_def)
qed

theorem jsonl_crash_safe_witness:
  "jsonl_load example_jsonl [''root''] (ConversationId ''c1'')
       (crashed_append example_jsonl [''root''] 60 (example_event ''a'') example_store) =
     jsonl_load example_jsonl [''root''] (ConversationId ''c1'') example_store \<or>
   (\<exists>issues. jsonl_load example_jsonl [''root''] (ConversationId ''c1'')
       (crashed_append example_jsonl [''root''] 60 (example_event ''a'') example_store) =
     Inl (VerificationFailed (ConversationId ''c1'') issues))"
  by (rule jsonl_crash_safe [OF example_store_inv]) (simp add: example_event_def)

text \<open>
  A crash during the very first append of a conversation is not recovered: the event line
  is in the segment file, the manifest was never written, a load returns no events, and
  the next append records only its own bytes, after which every load is refused.
\<close>

theorem crash_on_first_event_poisons:
  "jsonl_load example_jsonl [''root''] (ConversationId ''c1'')
     (crashed_append example_jsonl [''root''] 60 (example_event ''a'') []) = Inr [] \<and>
   (let (r, fs) = jsonl_append example_jsonl [''root''] 60 (example_event ''b'')
                    (crashed_append example_jsonl [''root''] 60 (example_event ''a'') [])
    in r = Inr () \<and> \<not> is_ok (jsonl_load example_jsonl [''root''] (ConversationId ''c1'') fs))"
  by code_simp

end
