(* ===== verification/Kernel_Durable.thy ===== *)
theory Kernel_Durable
  imports Kernel_Properties Jsonl_Journal
begin

text \<open>
  The kernel over the durable journal. A run of commands over any reliable journal is
  simulated by the run over memory: the same results, the same counters, the same
  histories, provided the envelopes that end up in the histories are ones the journal can
  represent and the conversations that are addressed are kept apart by it. For the journal of JSON lines this makes every property of the in-memory
  kernel a property of the kernel on disk.
\<close>

definition grows :: "memory_journal kernel_state \<Rightarrow> memory_journal kernel_state \<Rightarrow> bool" where
  "grows k k' = (\<forall>c. prefix (history k c) (history k' c))"

lemma grows_refl [simp]: "grows k k"
  by (simp add: grows_def)

lemma grows_trans: "grows k1 k2 \<Longrightarrow> grows k2 k3 \<Longrightarrow> grows k1 k3"
  unfolding grows_def by (meson prefix_order.trans)

text \<open>The conversation a command addresses, if it does not create one.\<close>

fun addressed :: "command \<Rightarrow> conversation_id option" where
  "addressed (DoCreateConversation x) = None"
| "addressed (DoAppendMessage x) = Some (cam_conversation_id x)"
| "addressed (DoCreateAssistantSuggestion x) = Some (ccas_conversation_id x)"
| "addressed (DoRequestAgentRun x) = Some (crar_conversation_id x)"
| "addressed (DoEditMessage x) = Some (cem_conversation_id x)"
| "addressed (DoLinkEntity x) = Some (cle_conversation_id x)"
| "addressed (DoUnlinkEntity x) = Some (cue_conversation_id x)"
| "addressed (DoLinkArtifact x) = Some (cla_conversation_id x)"
| "addressed (DoUnlinkArtifact x) = Some (cua_conversation_id x)"
| "addressed (DoAttachSurface x) = Some (cats_conversation_id x)"
| "addressed (DoUpdateSurface x) = Some (cus_conversation_id x)"
| "addressed (DoCloseSurface x) = Some (ccs_conversation_id x)"
| "addressed (DoObserveAsset x) = Some (coa_conversation_id x)"
| "addressed (DoCaptureAsset x) = Some (ccpa_conversation_id x)"
| "addressed (DoProcessAsset x) = Some (cpa_conversation_id x)"
| "addressed (DoObserveEntityState x) = Some (coes_conversation_id x)"
| "addressed (DoQueryEntity x) = Some (cqe_conversation_id x)"
| "addressed (DoStartAgentRun x) = Some (csar_conversation_id x)"
| "addressed (DoCompleteAgentRun x) = Some (ccar_conversation_id x)"
| "addressed (DoFailAgentRun x) = Some (cfar_conversation_id x)"
| "addressed (DoCancelAgentRun x) = Some (cxar_conversation_id x)"
| "addressed (DoTimeoutAgentRun x) = Some (ctar_conversation_id x)"
| "addressed (DoRequestAction x) = Some (cra_conversation_id x)"
| "addressed (DoRequireActionApproval x) = Some (craa_conversation_id x)"
| "addressed (DoApproveAction x) = Some (caa_conversation_id x)"
| "addressed (DoDenyAction x) = Some (cda_conversation_id x)"
| "addressed (DoStartAction x) = Some (csa_conversation_id x)"
| "addressed (DoCompleteAction x) = Some (ccoa_conversation_id x)"
| "addressed (DoFailAction x) = Some (cfa_conversation_id x)"

text \<open>A journal with identifiers that it keeps apart.\<close>

locale separating_journal = reliable_journal J inv accepts same
  for J :: "('j, 'e) journal_ops" and inv :: "'j \<Rightarrow> bool" and accepts :: "event_envelope \<Rightarrow> bool"
    and same :: "conversation_id \<Rightarrow> conversation_id \<Rightarrow> bool" +
  fixes names :: "conversation_id \<Rightarrow> bool"
  assumes names_apart: "names c \<Longrightarrow> names c' \<Longrightarrow> same c c' \<longleftrightarrow> c = c'"
begin

definition sim :: "memory_journal kernel_state \<Rightarrow> 'j kernel_state \<Rightarrow> bool" where
  "sim k1 k2 =
     (ks_ids k2 = ks_ids k1 \<and> ks_ticks k2 = ks_ticks k1 \<and> inv (ks_journal k2) \<and>
      (\<forall>c. names c \<longrightarrow> jo_load J c (ks_journal k2) = Inr (history k1 c)))"

definition representable :: "memory_journal kernel_state \<Rightarrow> bool" where
  "representable k = (\<forall>c. list_all (\<lambda>e. accepts e \<and> names (env_conversation_id e)) (history k c))"

definition sim_prog ::
    "(memory_journal, 'e, 'a) kernel_prog \<Rightarrow> ('j, 'e, 'a) kernel_prog \<Rightarrow> bool" where
  "sim_prog m1 m2 =
     (\<forall>k1. grows k1 (snd (m1 k1)) \<and>
        (\<forall>k2. sim k1 k2 \<longrightarrow> representable (snd (m1 k1)) \<longrightarrow>
           fst (m2 k2) = fst (m1 k1) \<and> sim (snd (m1 k1)) (snd (m2 k2))))"

lemma representable_earlier: "grows k k' \<Longrightarrow> representable k' \<Longrightarrow> representable k"
  unfolding grows_def representable_def by (metis list_all_append prefix_def)

lemma sim_ret: "sim_prog (ret x) (ret x)"
  by (simp add: sim_prog_def ret_def)

lemma sim_lift: "sim_prog (lift r) (lift r)"
  by (simp add: sim_prog_def lift_def)

lemma sim_andThen:
  assumes "sim_prog m1 m2" and "\<And>x. sim_prog (f1 x) (f2 x)"
  shows "sim_prog (andThen m1 f1) (andThen m2 f2)"
  unfolding sim_prog_def
proof (rule allI)
  fix k1
  obtain r k1' where m1: "m1 k1 = (r, k1')" by (cases "m1 k1")
  have g: "grows k1 k1'" using assms(1) m1 by (metis sim_prog_def snd_conv)
  show "grows k1 (snd (andThen m1 f1 k1)) \<and>
      (\<forall>k2. sim k1 k2 \<longrightarrow> representable (snd (andThen m1 f1 k1)) \<longrightarrow>
         fst (andThen m2 f2 k2) = fst (andThen m1 f1 k1) \<and>
         sim (snd (andThen m1 f1 k1)) (snd (andThen m2 f2 k2)))"
  proof (cases r)
    case (Inl e)
    have run1: "andThen m1 f1 k1 = (Inl e, k1')" using m1 Inl by (simp add: andThen_def)
    have "fst (andThen m2 f2 k2) = Inl e \<and> sim k1' (snd (andThen m2 f2 k2))"
      if "sim k1 k2" "representable k1'" for k2
    proof -
      have "fst (m2 k2) = Inl e \<and> sim k1' (snd (m2 k2))"
        using assms(1) m1 Inl that by (metis sim_prog_def fst_conv snd_conv)
      then obtain k2' where "m2 k2 = (Inl e, k2')" "sim k1' k2'" by (metis prod.collapse)
      then show ?thesis by (simp add: andThen_def)
    qed
    with run1 g show ?thesis by simp
  next
    case (Inr x)
    obtain r' k1'' where f1: "f1 x k1' = (r', k1'')" by (cases "f1 x k1'")
    have g': "grows k1' k1''" using assms(2) f1 by (metis sim_prog_def snd_conv)
    have run1: "andThen m1 f1 k1 = (r', k1'')" using m1 Inr f1 by (simp add: andThen_def)
    have "fst (andThen m2 f2 k2) = r' \<and> sim k1'' (snd (andThen m2 f2 k2))"
      if s: "sim k1 k2" and rep: "representable k1''" for k2
    proof -
      have "representable k1'" using representable_earlier [OF g' rep] .
      then have "fst (m2 k2) = Inr x \<and> sim k1' (snd (m2 k2))"
        using assms(1) m1 Inr s by (metis sim_prog_def fst_conv snd_conv)
      then obtain k2' where k2': "m2 k2 = (Inr x, k2')" "sim k1' k2'" by (metis prod.collapse)
      then have "fst (f2 x k2') = r' \<and> sim k1'' (snd (f2 x k2'))"
        using assms(2) f1 rep by (metis sim_prog_def fst_conv snd_conv)
      with k2' show ?thesis by (simp add: andThen_def)
    qed
    with run1 grows_trans [OF g g'] show ?thesis by simp
  qed
qed

text \<open>The two kernels share everything but the journal.\<close>

definition same_env :: "(memory_journal, 'e) kernel_deps \<Rightarrow> ('j, 'e) kernel_deps \<Rightarrow> bool" where
  "same_env D1 D2 =
     (kd_journal D1 = memory_ops \<and> kd_journal D2 = J \<and> kd_new_id D1 = kd_new_id D2 \<and>
      kd_now D1 = kd_now D2 \<and> kd_order D1 = kd_order D2)"

lemma sim_fresh: "same_env D1 D2 \<Longrightarrow> sim_prog (fresh_id D1) (fresh_id D2)"
  by (auto simp: sim_prog_def fresh_id_def sim_def same_env_def grows_def)

lemma sim_clock: "same_env D1 D2 \<Longrightarrow> sim_prog (read_clock D1) (read_clock D2)"
  by (auto simp: sim_prog_def read_clock_def sim_def same_env_def grows_def)

lemma sim_load: "same_env D1 D2 \<Longrightarrow> names c \<Longrightarrow> sim_prog (load_state D1 c) (load_state D2 c)"
  by (auto simp: sim_prog_def load_state_run sim_def same_env_def memory_load_history)

lemma sim_append:
  assumes "same_env D1 D2"
  shows "sim_prog (append_envelope D1 c actor at ev) (append_envelope D2 c actor at ev)"
  unfolding sim_prog_def
proof (rule allI)
  fix k1 :: "memory_journal kernel_state"
  let ?e = "envelope D1 (ks_ids k1) c actor at ev"
  let ?k1 = "k1\<lparr>ks_ids := ks_ids k1 + 1, ks_journal := hm_put c (history k1 c @ [?e]) (ks_journal k1)\<rparr>"
  have mem: "append_envelope D1 c actor at ev k1 = (Inr (), ?k1)"
    using assms by (simp add: memory_append_history same_env_def)
  have hist: "history ?k1 c' = (if c' = c then history k1 c @ [?e] else history k1 c')" for c'
    by (simp add: history_def)
  have "fst (append_envelope D2 c actor at ev k2) = Inr () \<and> sim ?k1 (snd (append_envelope D2 c actor at ev k2))"
    if s: "sim k1 k2" and rep: "representable ?k1" for k2
  proof -
    have e: "envelope D2 (ks_ids k2) c actor at ev = ?e"
      using assms s by (simp add: envelope_def same_env_def sim_def)
    have acc: "accepts ?e" "names c"
    proof -
      have "list_all (\<lambda>e. accepts e \<and> names (env_conversation_id e)) (history ?k1 c)" using rep by (simp only: representable_def)
      then show "accepts ?e" "names c" using hist by simp_all
    qed
    have inv: "inv (ks_journal k2)" and load: "\<And>c. names c \<Longrightarrow> jo_load J c (ks_journal k2) = Inr (history k1 c)"
      using s by (simp_all add: sim_def)
    obtain j' where j': "jo_append J ?e (ks_journal k2) = (Inr (), j')"
      using append_ok [OF inv acc(1)] by blast
    have run: "append_envelope D2 c actor at ev k2 =
        (Inr (), k2\<lparr>ks_ids := ks_ids k2 + 1, ks_journal := j'\<rparr>)"
      using assms j' e
      by (simp add: append_envelope_def journal_append_def same_env_def envelope_def)
    have "jo_load J c' j' = Inr (if c' = c then history k1 c @ [?e] else history k1 c')" if "names c'" for c'
      using append_load [OF inv acc(1) j' load [OF that]] names_apart [OF acc(2) that] by auto
    then show ?thesis
      using run s hist append_inv [OF inv acc(1) j'] by (simp add: sim_def)
  qed
  moreover have "grows k1 ?k1" using hist by (simp add: grows_def)
  ultimately show "grows k1 (snd (append_envelope D1 c actor at ev k1)) \<and>
      (\<forall>k2. sim k1 k2 \<longrightarrow> representable (snd (append_envelope D1 c actor at ev k1)) \<longrightarrow>
         fst (append_envelope D2 c actor at ev k2) = fst (append_envelope D1 c actor at ev k1) \<and>
         sim (snd (append_envelope D1 c actor at ev k1)) (snd (append_envelope D2 c actor at ev k2)))"
    by (simp add: mem del: history_put)
qed

lemmas sim_rules = sim_ret sim_lift sim_andThen sim_fresh sim_clock sim_load sim_append

lemma sim_participants:
  "same_env D1 D2 \<Longrightarrow>
   sim_prog (append_participants D1 c actor at ps) (append_participants D2 c actor at ps)"
  by (induction ps) (auto intro: sim_rules)

lemma sim_record:
  "same_env D1 D2 \<Longrightarrow> names c \<Longrightarrow>
   sim_prog (record_event D1 c checks actor ev) (record_event D2 c checks actor ev)"
  unfolding record_event_def by (intro sim_rules)

definition well_addressed_command :: "command \<Rightarrow> bool" where
  "well_addressed_command cmd \<longleftrightarrow> (case addressed cmd of None \<Rightarrow> True | Some c \<Rightarrow> names c)"

lemma sim_dispatch:
  "same_env D1 D2 \<Longrightarrow> well_addressed_command cmd \<Longrightarrow> sim_prog (dispatch D1 cmd) (dispatch D2 cmd)"
proof (cases cmd)
  case (DoCreateConversation x)
  assume "same_env D1 D2"
  then show ?thesis unfolding DoCreateConversation
    by (auto simp: then_reply_def create_conversation_def Let_def intro!: sim_rules sim_participants)
next
  case (DoCreateAssistantSuggestion x)
  assume env: "same_env D1 D2" and names: "well_addressed_command cmd"
  then have "kd_order D1 = kd_order D2" by (simp add: same_env_def)
  with env names show ?thesis unfolding DoCreateAssistantSuggestion
    by (auto simp: well_addressed_command_def then_reply_def create_assistant_suggestion_def intro!: sim_rules)
qed (auto simp: well_addressed_command_def then_reply_def single_event_handlers append_message_def request_agent_run_def
      Let_def intro!: sim_rules sim_record)

lemma run_all_grows: "same_env D1 D2 \<Longrightarrow> list_all well_addressed_command cmds \<Longrightarrow> grows k1 (snd (run_all D1 cmds k1))"
proof (induction cmds arbitrary: k1)
  case Nil
  then show ?case by simp
next
  case (Cons cmd cmds)
  obtain r k1' where step: "dispatch D1 cmd k1 = (r, k1')" by (cases "dispatch D1 cmd k1")
  then have "grows k1 k1'"
    using sim_dispatch [OF Cons.prems(1), of cmd] Cons.prems(2) by (simp add: sim_prog_def) (metis snd_conv)
  moreover have "grows k1' (snd (run_all D1 cmds k1'))" using Cons by simp
  ultimately show ?case
    using step by (cases "run_all D1 cmds k1'") (auto intro: grows_trans)
qed

lemma run_all_sim:
  "same_env D1 D2 \<Longrightarrow> list_all well_addressed_command cmds \<Longrightarrow> sim k1 k2 \<Longrightarrow> representable (snd (run_all D1 cmds k1)) \<Longrightarrow>
   fst (run_all D2 cmds k2) = fst (run_all D1 cmds k1) \<and>
   sim (snd (run_all D1 cmds k1)) (snd (run_all D2 cmds k2))"
proof (induction cmds arbitrary: k1 k2)
  case Nil
  then show ?case by simp
next
  case (Cons cmd cmds)
  obtain r k1' where step: "dispatch D1 cmd k1 = (r, k1')" by (cases "dispatch D1 cmd k1")
  obtain rs k1'' where rest: "run_all D1 cmds k1' = (rs, k1'')" by (cases "run_all D1 cmds k1'")
  have rep: "representable k1''" using Cons.prems(4) step rest by simp
  have names: "well_addressed_command cmd" "list_all well_addressed_command cmds" using Cons.prems(2) by simp_all
  have "representable k1'"
    using run_all_grows [OF Cons.prems(1) names(2), of k1'] rest rep by (auto intro: representable_earlier)
  then have "fst (dispatch D2 cmd k2) = r \<and> sim k1' (snd (dispatch D2 cmd k2))"
    using sim_dispatch [OF Cons.prems(1) names(1)] Cons.prems(3) step by (metis sim_prog_def fst_conv snd_conv)
  then obtain k2' where k2': "dispatch D2 cmd k2 = (r, k2')" "sim k1' k2'" by (metis prod.collapse)
  from Cons.IH [OF Cons.prems(1) names(2) k2'(2)] rest rep show ?case
    using step k2'(1) by (cases "run_all D2 cmds k2'") auto
qed

end

section \<open>The kernel on disk\<close>

definition empty_kernel :: "'j \<Rightarrow> 'j kernel_state" where
  "empty_kernel j = \<lparr>ks_journal = j, ks_ids = 0, ks_ticks = 0\<rparr>"

interpretation jsonl_names: separating_journal "jsonl_ops C root k" "jsonl_inv C" "jsonl_accepts C" "same_directory root" plain_conversation
  for C root k
  by unfold_locales (rule plain_apart)

text \<open>
  C3. The kernel over the durable journal refines the kernel over memory. Take two kernels
  that differ only in their journal, and any sequence of commands from empty journals that
  address conversations by identifiers that are file names: if the conversations in the
  resulting histories have such identifiers too and the serialiser represents the envelopes,
  then every command returns the same result on disk as in memory, rejections included, and
  afterwards loading any such conversation from its segment files gives its in-memory history.
\<close>

theorem kernel_on_disk_refines_memory:
  assumes "kd_journal Dm = memory_ops" and "kd_journal Dd = jsonl_ops C root n"
    and "kd_new_id Dd = kd_new_id Dm" and "kd_now Dd = kd_now Dm" and "kd_order Dd = kd_order Dm"
    and "run_all Dm cmds (empty_kernel []) = (rs, km)"
    and "\<And>c e. e \<in> set (history km c) \<Longrightarrow> jsonl_accepts C e \<and> plain_conversation (env_conversation_id e)"
    and "\<And>cmd c. cmd \<in> set cmds \<Longrightarrow> addressed cmd = Some c \<Longrightarrow> plain_conversation c"
  shows "\<exists>kd. run_all Dd cmds (empty_kernel []) = (rs, kd) \<and>
    (\<forall>c. plain_conversation c \<longrightarrow> jsonl_load C root c (ks_journal kd) = Inr (history km c))"
proof -
  have env: "jsonl_names.same_env C root n Dm Dd"
    using assms(1-5) by (simp add: jsonl_names.same_env_def)
  have sim: "jsonl_names.sim C root n (empty_kernel []) (empty_kernel [])"
    unfolding jsonl_names.sim_def
    by (simp add: empty_kernel_def jsonl_inv_empty history_def jsonl_ops_def jsonl_load_empty)
  have rep: "jsonl_names.representable C km"
    using assms(7) by (simp add: jsonl_names.representable_def list_all_iff)
  have names: "list_all jsonl_names.well_addressed_command cmds"
    using assms(8) by (auto simp: jsonl_names.well_addressed_command_def list_all_iff split: option.split)
  obtain rs' kd where disk: "run_all Dd cmds (empty_kernel []) = (rs', kd)"
    by (cases "run_all Dd cmds (empty_kernel [])")
  from jsonl_names.run_all_sim [OF env names sim] rep assms(6) disk
  have rs: "rs' = rs" and "jsonl_names.sim C root n km kd" by simp_all
  then have "plain_conversation c \<Longrightarrow> jo_load (jsonl_ops C root n) c (ks_journal kd) = Inr (history km c)" for c
    unfolding jsonl_names.sim_def by blast
  with disk rs show ?thesis by (simp add: jsonl_ops_def)
qed

text \<open>The script of the approval gate in a conversation whose identifier is a file name.\<close>

definition disk_conversation :: conversation_id where
  "disk_conversation = ConversationId ''x''"

definition disk_script :: "command list" where
  "disk_script =
     (let start = DoStartAction \<lparr>csa_conversation_id = disk_conversation, csa_action_id = ActionId ''a1'', csa_started_by = Some (p_id bot)\<rparr> in
      [demo_create,
       DoRequestAction \<lparr>cra_conversation_id = disk_conversation, cra_action_request = demo_action, cra_requested_by = Some (p_id bot)\<rparr>,
       DoRequireActionApproval \<lparr>craa_conversation_id = disk_conversation, craa_action_id = ActionId ''a1'',
         craa_reason = ''policy'', craa_required_by = None\<rparr>,
       start,
       DoApproveAction \<lparr>caa_conversation_id = disk_conversation, caa_action_id = ActionId ''a1'', caa_approved_by = p_id alice\<rparr>,
       start])"

definition memory_deps :: "(memory_journal, jsonl_error) kernel_deps" where
  "memory_deps =
     \<lparr>kd_journal = memory_ops, kd_new_id = (\<lambda>n. replicate (n + 1) (CHR ''x'')), kd_now = int,
      kd_order = m_values\<rparr>"

definition memory_result :: "(jsonl_error kernel_error + reply) list \<times> memory_journal kernel_state" where
  "memory_result = run_all memory_deps disk_script (empty_kernel [])"

definition demo_codec :: codec where
  "demo_codec = example_codec (history (snd memory_result) disk_conversation)"

definition disk_deps :: "(jsonl_store, jsonl_error) kernel_deps" where
  "disk_deps =
     \<lparr>kd_journal = jsonl_ops demo_codec [''root''] 20, kd_new_id = kd_new_id memory_deps,
      kd_now = kd_now memory_deps, kd_order = kd_order memory_deps\<rparr>"

lemma demo_representable:
  assumes "e \<in> set (history (snd memory_result) c)"
  shows "jsonl_accepts demo_codec e \<and> plain_conversation (env_conversation_id e)"
proof -
  have "list_all (\<lambda>(c, es). list_all (\<lambda>e. jsonl_accepts demo_codec e \<and> plain_conversation (env_conversation_id e)) es)
      (ks_journal (snd memory_result))"
    by code_simp
  moreover obtain es where "(c, es) \<in> set (ks_journal (snd memory_result))" "e \<in> set es"
    using assms by (auto simp: history_def dest: m_get_in_set [OF sym] split: option.splits)
  ultimately show ?thesis unfolding list_all_iff by fastforce
qed

lemma demo_addressed: "cmd \<in> set disk_script \<Longrightarrow> addressed cmd = Some c \<Longrightarrow> plain_conversation c"
  by (auto simp: Let_def disk_script_def disk_conversation_def demo_create_def plain_conversation_def file_name_ok_def)

theorem kernel_on_disk_refines_memory_witness:
  "map is_ok (fst (run_all disk_deps disk_script (empty_kernel []))) =
     [True, True, True, False, True, True] \<and>
   (\<exists>es. length es = 7 \<and>
      jsonl_load demo_codec [''root''] disk_conversation
        (ks_journal (snd (run_all disk_deps disk_script (empty_kernel [])))) = Inr es)"
proof -
  obtain rs km where mem: "memory_result = (rs, km)" by (cases memory_result)
  have "map is_ok (fst memory_result) = [True, True, True, False, True, True]"
    "length (history (snd memory_result) disk_conversation) = 7" by code_simp+
  note small = this [unfolded mem fst_conv snd_conv]
  have "\<exists>kd. run_all disk_deps disk_script (empty_kernel []) = (rs, kd) \<and>
    (\<forall>c. plain_conversation c \<longrightarrow> jsonl_load demo_codec [''root''] c (ks_journal kd) = Inr (history km c))"
  proof (rule kernel_on_disk_refines_memory [where Dm = memory_deps and n = 20])
    show "kd_journal memory_deps = memory_ops" by (simp add: memory_deps_def)
    show "run_all memory_deps disk_script (empty_kernel []) = (rs, km)" using mem by (simp add: memory_result_def)
  qed (use demo_representable [unfolded mem snd_conv] demo_addressed in \<open>simp_all add: disk_deps_def\<close>)
  then obtain kd where kd: "run_all disk_deps disk_script (empty_kernel []) = (rs, kd)"
    "\<forall>c. plain_conversation c \<longrightarrow> jsonl_load demo_codec [''root''] c (ks_journal kd) = Inr (history km c)" by blast
  have "plain_conversation disk_conversation" by (simp add: plain_conversation_def disk_conversation_def file_name_ok_def)
  then show ?thesis
    unfolding kd(1) fst_conv snd_conv using small kd(2) by blast
qed

end
