(* ===== verification/Registries.thy ===== *)
theory Registries
  imports Core_Types "HOL-Library.Multiset"
begin

text \<open>
  The in-memory registries of the core crates: actions (\<open>action-core/src/lib.rs\<close>), entities
  (\<open>entity-core/src/lib.rs\<close>), surfaces (\<open>surface-core/src/lib.rs\<close>), assets
  (\<open>asset-core/src/lib.rs\<close>), the memory artifact store (\<open>artifact-core/src/lib.rs\<close>) and the
  searchable asset index (\<open>asset-index/src/lib.rs\<close>), together with the approval card that the
  surface crate derives from an action request.

  All of them refuse a second registration under a key; that common contract is a locale,
  interpreted on each of them. A lock that was poisoned by a panic of another thread is
  not modelled.
\<close>

section \<open>Actions\<close>

datatype (plugins only: code size) action_registry_error =
    DuplicateActionKind action_kind
  | ActionKindNotFound action_kind

type_synonym action_registry = "(string, action_schema) hmap"

fun kind_text :: "action_kind \<Rightarrow> string" where
  "kind_text (ActionKind s) = s"

fun action_text :: "action_id \<Rightarrow> string" where
  "action_text (ActionId s) = s"

definition register_action :: "action_schema \<Rightarrow> (action_registry, action_registry_error, unit) prog" where
  "register_action sch reg =
     (let k = kind_text (sch_kind sch) in
      if m_contains reg k then (Inl (DuplicateActionKind (sch_kind sch)), reg)
      else (Inr (), bt_put k sch reg))"

definition get_action :: "action_registry \<Rightarrow> action_kind \<Rightarrow> action_schema option" where
  "get_action reg kind = m_get reg (kind_text kind)"

definition side_effect_of :: "action_registry \<Rightarrow> action_kind \<Rightarrow> side_effect_kind option" where
  "side_effect_of reg kind = map_option sch_side_effect (m_get reg (kind_text kind))"

text \<open>The executor used in tests: a fixed text and the time of the call.\<close>

definition static_execute :: "string \<Rightarrow> datetime \<Rightarrow> action_request \<Rightarrow> action_result" where
  "static_execute response_text now r =
     \<lparr>res_status = StCompleted,
      res_payload = PText (kind_text (req_action_kind r) @ '': '' @ response_text),
      res_summary = kind_text (req_action_kind r) @ '' completed'',
      res_completed_at = now\<rparr>"

section \<open>Entities and surfaces\<close>

datatype (plugins only: code size) entity_registry_error = DuplicateEntityId entity_id

type_synonym entity_registry = "(entity_id, entity_descriptor) hmap"

definition register_entity :: "entity_descriptor \<Rightarrow> (entity_registry, entity_registry_error, unit) prog" where
  "register_entity d reg =
     (if m_contains reg (ent_id d) then (Inl (DuplicateEntityId (ent_id d)), reg)
      else (Inr (), hm_put (ent_id d) d reg))"

datatype (plugins only: code size) surface_registry_error = DuplicateSurfaceId surface_id

type_synonym surface_registry = "(surface_id, surface_state) hmap"

definition register_surface :: "surface_state \<Rightarrow> (surface_registry, surface_registry_error, unit) prog" where
  "register_surface st reg =
     (let k = sd_id (ss_descriptor st) in
      if m_contains reg k then (Inl (DuplicateSurfaceId k), reg) else (Inr (), hm_put k st reg))"

section \<open>Assets and artifacts\<close>

datatype (plugins only: code size) asset_registry_error = DuplicateAssetId asset_id

type_synonym asset_registry = "(asset_id, asset_metadata) hmap"

definition register_asset :: "asset_metadata \<Rightarrow> (asset_registry, asset_registry_error, unit) prog" where
  "register_asset md reg =
     (if m_contains reg (asset_meta_id md) then (Inl (DuplicateAssetId (asset_meta_id md)), reg)
      else (Inr (), hm_put (asset_meta_id md) md reg))"

datatype (plugins only: code size) artifact_store_error =
    DuplicateArtifactId artifact_id
  | LockPoisoned
  | ArtifactStorage string

type_synonym artifact_store = "(artifact_id, artifact_descriptor) hmap"

fun artifact_text :: "artifact_id \<Rightarrow> string" where
  "artifact_text (ArtifactId s) = s"

definition put_artifact :: "artifact_descriptor \<Rightarrow> (artifact_store, artifact_store_error, unit) prog" where
  "put_artifact d st =
     (if m_contains st (art_id d) then (Inl (DuplicateArtifactId (art_id d)), st)
      else (Inr (), hm_put (art_id d) d st))"

definition list_artifacts :: "artifact_store \<Rightarrow> artifact_descriptor list" where
  "list_artifacts st = sort_key (\<lambda>d. artifact_text (art_id d)) (m_values st)"

section \<open>Asset index\<close>

datatype (plugins only: code size) work_object_id = WorkObjectId string

datatype (plugins only: code size) work_object_type =
    WoConversation | WoKnowledgeEntry | WoKnowledgeDraft | WoProject | WoPerson | WoMailThread
  | WoBrowserSession | WoQuestion | WoAnswer | WoExternal

datatype (plugins only: code size) work_object_link_reason =
    LinkSource | LinkDerivedFrom | LinkEvidence | LinkAttachment | LinkRelated

record work_object_link =
  wl_type :: work_object_type
  wl_id :: work_object_id
  wl_reason :: work_object_link_reason
  wl_linked_at :: datetime

definition relevance_level :: "asset_relevance \<Rightarrow> nat" where
  "relevance_level r =
     (case r of Critical \<Rightarrow> 5 | High \<Rightarrow> 4 | Medium \<Rightarrow> 3 | Low \<Rightarrow> 2 | Background \<Rightarrow> 1)"

definition meets_threshold :: "asset_relevance \<Rightarrow> asset_relevance \<Rightarrow> bool" where
  "meets_threshold r threshold \<longleftrightarrow> relevance_level threshold \<le> relevance_level r"

record index_entry =
  ie_metadata :: asset_metadata
  ie_status :: asset_processing_status
  ie_indexed_at :: datetime
  ie_links :: "work_object_link list"

definition index_entry_new :: "asset_metadata \<Rightarrow> asset_processing_status \<Rightarrow> datetime \<Rightarrow> index_entry" where
  "index_entry_new md st now =
     \<lparr>ie_metadata = md, ie_status = st, ie_indexed_at = now, ie_links = []\<rparr>"

record index_query =
  iq_kind :: "asset_kind option"
  iq_status :: "asset_processing_status option"
  iq_min_relevance :: "asset_relevance option"
  iq_tag :: "string option"
  iq_source_uri_prefix :: "string option"
  iq_work_object_type :: "work_object_type option"
  iq_work_object_id :: "work_object_id option"

datatype (plugins only: code size) index_error =
    IndexDuplicateAsset asset_id
  | IndexAssetNotFound asset_id
  | IndexDuplicateLink asset_id work_object_type work_object_id

type_synonym asset_index = "(asset_id, index_entry) hmap"

abbreviation entry_id :: "index_entry \<Rightarrow> asset_id" where
  "entry_id e \<equiv> asset_meta_id (ie_metadata e)"

fun asset_text :: "asset_id \<Rightarrow> string" where
  "asset_text (AssetId s) = s"

definition index_insert :: "index_entry \<Rightarrow> (asset_index, index_error, unit) prog" where
  "index_insert e ix =
     (if m_contains ix (entry_id e) then (Inl (IndexDuplicateAsset (entry_id e)), ix)
      else (Inr (), hm_put (entry_id e) e ix))"

definition index_upsert :: "index_entry \<Rightarrow> asset_index \<Rightarrow> asset_index" where
  "index_upsert e ix = hm_put (entry_id e) e ix"

definition index_update_status ::
    "asset_id \<Rightarrow> asset_processing_status \<Rightarrow> (asset_index, index_error, unit) prog" where
  "index_update_status i st ix =
     (if m_contains ix i then (Inr (), m_modify i (\<lambda>e. e\<lparr>ie_status := st\<rparr>) ix)
      else (Inl (IndexAssetNotFound i), ix))"

definition same_work_object :: "work_object_link \<Rightarrow> work_object_link \<Rightarrow> bool" where
  "same_work_object l l' \<longleftrightarrow> wl_type l = wl_type l' \<and> wl_id l = wl_id l'"

definition index_link_work_object ::
    "asset_id \<Rightarrow> work_object_link \<Rightarrow> (asset_index, index_error, unit) prog" where
  "index_link_work_object i l ix =
     (case m_get ix i of
        None \<Rightarrow> (Inl (IndexAssetNotFound i), ix)
      | Some e \<Rightarrow>
          if list_ex (\<lambda>c. same_work_object c l) (ie_links e)
          then (Inl (IndexDuplicateLink i (wl_type l) (wl_id l)), ix)
          else (Inr (), m_modify i (\<lambda>e. e\<lparr>ie_links := ie_links e @ [l]\<rparr>) ix))"

text \<open>\<open>opt.is_none_or(|x| p x)\<close>, also the code's \<open>if let Some(x) = opt && !p x { return false }\<close>.\<close>

definition none_or :: "('a \<Rightarrow> bool) \<Rightarrow> 'a option \<Rightarrow> bool" where
  "none_or p x = (case x of None \<Rightarrow> True | Some y \<Rightarrow> p y)"

lemma none_or_simps [simp]: "none_or p None" "none_or p (Some y) = p y"
  by (simp_all add: none_or_def)

definition index_matches :: "index_entry \<Rightarrow> index_query \<Rightarrow> bool" where
  "index_matches e q \<longleftrightarrow>
     none_or (\<lambda>kind. asset_meta_kind (ie_metadata e) = kind) (iq_kind q) \<and>
     none_or (\<lambda>st. ie_status e = st) (iq_status q) \<and>
     none_or (\<lambda>r. meets_threshold (asset_meta_relevance (ie_metadata e)) r) (iq_min_relevance q) \<and>
     none_or (\<lambda>tag. list_ex (\<lambda>c. c = tag) (asset_tags (ie_metadata e))) (iq_tag q) \<and>
     none_or (\<lambda>p. case src_uri (asset_meta_source (ie_metadata e)) of
                    None \<Rightarrow> False | Some uri \<Rightarrow> starts_with uri p) (iq_source_uri_prefix q) \<and>
     (iq_work_object_type q \<noteq> None \<or> iq_work_object_id q \<noteq> None \<longrightarrow>
        list_ex (\<lambda>l. none_or (\<lambda>t. wl_type l = t) (iq_work_object_type q) \<and>
                     none_or (\<lambda>i. wl_id l = i) (iq_work_object_id q)) (ie_links e))"

definition index_query_entries :: "asset_index \<Rightarrow> index_query \<Rightarrow> index_entry list" where
  "index_query_entries ix q =
     sort_key (\<lambda>e. asset_text (entry_id e)) (filter (\<lambda>e. index_matches e q) (m_values ix))"

section \<open>The approval card\<close>

datatype (plugins only: code size) approval_risk_level = RiskLow | RiskMedium | RiskHigh

record approval_side_effect_summary =
  se_side_effect :: side_effect_kind
  se_risk_level :: approval_risk_level
  se_summary :: string

definition from_side_effect :: "side_effect_kind \<Rightarrow> approval_side_effect_summary" where
  "from_side_effect k =
     (let (risk, txt) = (case k of
          NoEffect \<Rightarrow> (RiskLow, ''Low risk: no external side effects.'')
        | ReadOnly \<Rightarrow> (RiskLow, ''Low risk: read-only access.'')
        | RuntimeStateMutation \<Rightarrow> (RiskMedium, ''Medium risk: modifies local runtime state.'')
        | FileSystemMutation \<Rightarrow> (RiskMedium, ''Medium risk: modifies the local filesystem.'')
        | NetworkAccess \<Rightarrow> (RiskMedium, ''Medium risk: accesses the network.'')
        | ExternalSystemMutation \<Rightarrow> (RiskHigh, ''High risk: modifies an external system.'')
        | UiSideEffect \<Rightarrow> (RiskMedium, ''Medium risk: changes user-visible UI state.'')
        | DeviceControl \<Rightarrow> (RiskHigh, ''High risk: controls local device capabilities.'')
        | SensitiveProfileMutation \<Rightarrow> (RiskHigh, ''High risk: modifies sensitive profile data.''))
      in \<lparr>se_side_effect = k, se_risk_level = risk, se_summary = txt\<rparr>)"

text \<open>The values seen so far and the order in which they were first seen.\<close>

type_synonym destinations = "string set \<times> string list"

fun collect_destination_value :: "json \<Rightarrow> destinations \<Rightarrow> destinations" where
  "collect_destination_value (JString d) (seen, ordered) =
     (if d \<in> seen then (seen, ordered) else (insert d seen, ordered @ [d]))"
| "collect_destination_value (JArray vs) st = fold collect_destination_value vs st"
| "collect_destination_value _ st = st"

fun collect_destination_key :: "string \<Rightarrow> json \<Rightarrow> destinations \<Rightarrow> destinations" where
  "collect_destination_key k (JObject es) st =
     fold (\<lambda>(key, child) st.
             collect_destination_key k child
               (if key = k then collect_destination_value child st else st)) es st"
| "collect_destination_key k (JArray vs) st = fold (collect_destination_key k) vs st"
| "collect_destination_key k _ st = st"

definition destination_keys :: "string list" where
  "destination_keys = [''recipient'', ''recipients'', ''to'', ''email'', ''url'', ''endpoint'', ''domain'']"

definition extract_destinations :: "json \<Rightarrow> string list" where
  "extract_destinations v =
     snd (fold (\<lambda>k st. collect_destination_key k v st) destination_keys ({}, []))"

record approval_data_exposure =
  ex_external_data :: bool
  ex_sensitive_profile :: bool
  ex_destinations :: "string list"
  ex_summary :: string

definition data_exposure_summary_text :: "bool \<Rightarrow> bool \<Rightarrow> nat \<Rightarrow> string" where
  "data_exposure_summary_text external sensitive n =
     (if sensitive then ''May expose or modify sensitive profile data.''
      else if external \<and> 0 < n then ''May expose data to '' @ decimal n @ '' destination(s).''
      else if external then ''May expose data to an external destination.''
      else ''No external data exposure detected.'')"

definition from_action_input :: "side_effect_kind \<Rightarrow> json \<Rightarrow> approval_data_exposure" where
  "from_action_input k input =
     (let destinations = extract_destinations input;
          external = (k = NetworkAccess \<or> k = ExternalSystemMutation);
          sensitive = (k = SensitiveProfileMutation)
      in \<lparr>ex_external_data = external, ex_sensitive_profile = sensitive,
          ex_destinations = destinations,
          ex_summary = data_exposure_summary_text external sensitive (length destinations)\<rparr>)"

section \<open>The contract of a registry\<close>

text \<open>
  A new key is registered and nothing else changes; a key that is taken is refused and the
  registry keeps what it had.
\<close>

locale unique_registry =
  fixes register :: "'v \<Rightarrow> ('m, 'e, unit) prog"
    and lookup :: "'m \<Rightarrow> 'k \<Rightarrow> 'v option"
    and key :: "'v \<Rightarrow> 'k"
    and empty :: 'm
  assumes lookup_empty: "lookup empty k = None"
    and register_new:
      "lookup m (key v) = None \<Longrightarrow>
       \<exists>m'. register v m = (Inr (), m') \<and> lookup m' = (lookup m)(key v \<mapsto> v)"
    and register_taken: "lookup m (key v) = Some w \<Longrightarrow> \<exists>e. register v m = (Inl e, m)"
begin

definition register_all :: "'v list \<Rightarrow> 'm \<Rightarrow> 'm" where
  "register_all vs m = fold (\<lambda>v m. snd (register v m)) vs m"

lemma register_lookup:
  "lookup (snd (register v m)) k =
     (case lookup m k of Some w \<Rightarrow> Some w | None \<Rightarrow> if k = key v then Some v else None)"
  using register_new [of m v] register_taken [of m v]
  by (cases "lookup m (key v)") (auto split: option.split)

lemma register_ok_iff: "is_ok (fst (register v m)) \<longleftrightarrow> lookup m (key v) = None"
  using register_new [of m v] register_taken [of m v]
  by (cases "lookup m (key v)") auto

lemma register_all_lookup:
  "lookup (register_all vs m) k =
     (case lookup m k of Some w \<Rightarrow> Some w | None \<Rightarrow> find (\<lambda>v. key v = k) vs)"
  unfolding register_all_def
  by (induction vs arbitrary: m) (auto simp: register_lookup split: option.split)

text \<open>What is found under a key is the first value that was ever registered under it.\<close>

lemma first_registration_wins:
  "lookup (register_all vs empty) k = find (\<lambda>v. key v = k) vs"
  by (simp add: register_all_lookup lookup_empty)

end

lemma m_contains_get: "m_contains m k \<longleftrightarrow> m_get m k \<noteq> None"
  by (simp add: m_contains_def)

interpretation actions: unique_registry register_action "\<lambda>m k. m_get m k" "\<lambda>s. kind_text (sch_kind s)" "[]"
  by unfold_locales (auto simp: register_action_def m_contains_get Let_def)

interpretation entities: unique_registry register_entity "\<lambda>m k. m_get m k" ent_id "[]"
  by unfold_locales (auto simp: register_entity_def m_contains_get)

interpretation surfaces: unique_registry register_surface "\<lambda>m k. m_get m k" "\<lambda>s. sd_id (ss_descriptor s)" "[]"
  by unfold_locales (auto simp: register_surface_def m_contains_get Let_def)

interpretation assets: unique_registry register_asset "\<lambda>m k. m_get m k" asset_meta_id "[]"
  by unfold_locales (auto simp: register_asset_def m_contains_get)

interpretation artifacts: unique_registry put_artifact "\<lambda>m k. m_get m k" art_id "[]"
  by unfold_locales (auto simp: put_artifact_def m_contains_get)

interpretation asset_entries: unique_registry index_insert "\<lambda>m k. m_get m k" entry_id "[]"
  by unfold_locales (auto simp: index_insert_def m_contains_get)

section \<open>Queries of the asset index\<close>

text \<open>Every entry is stored under its own identifier, once.\<close>

definition index_ok :: "asset_index \<Rightarrow> bool" where
  "index_ok ix \<longleftrightarrow> hm_inv ix \<and> (\<forall>i e. m_get ix i = Some e \<longrightarrow> entry_id e = i)"

lemma asset_text_inj: "inj asset_text"
  by (rule injI) (metis asset_text.cases asset_text.simps)

lemma index_ok_values:
  assumes "index_ok ix"
  shows "distinct (map (\<lambda>e. asset_text (entry_id e)) (m_values ix))"
proof -
  have "map entry_id (m_values ix) = map fst ix"
    using assms by (auto simp: index_ok_def m_values_def dest!: in_set_m_get)
  then have "distinct (map entry_id (m_values ix))"
    using assms by (simp add: index_ok_def hm_inv_def)
  then have "distinct (map asset_text (map entry_id (m_values ix)))"
    by (rule distinct_map [THEN iffD2, OF conjI]) (blast intro: inj_on_subset [OF asset_text_inj])
  then show ?thesis by (simp add: comp_def)
qed

text \<open>Listing by a key that tells the entries apart does not depend on the order they come in.\<close>

lemma sort_key_order_irrelevant:
  assumes "mset xs = mset ys" and "distinct (map f xs)"
  shows "sort_key f xs = sort_key f ys"
proof (rule map_sorted_distinct_set_unique [where f = f])
  have sets: "set xs = set ys" using assms(1) by (rule mset_eq_setD)
  show "inj_on f (set (sort_key f xs) \<union> set (sort_key f ys))"
    using assms(2) sets by (simp add: distinct_map)
  have d: "distinct (map f ys)"
    using assms by (metis distinct_map mset_eq_imp_distinct_iff mset_map)
  show "distinct (map f (sort_key f xs))" "distinct (map f (sort_key f ys))"
    using assms(2) d by (simp_all add: distinct_map)
  show "set (sort_key f xs) = set (sort_key f ys)" using sets by simp
qed simp_all

text \<open>The index keeps its entries under their own identifiers, whatever is done to it.\<close>

datatype (plugins only: code size) index_op =
    OpInsert index_entry
  | OpUpsert index_entry
  | OpUpdateStatus asset_id asset_processing_status
  | OpLink asset_id work_object_link

fun index_step :: "index_op \<Rightarrow> asset_index \<Rightarrow> asset_index" where
  "index_step (OpInsert e) ix = snd (index_insert e ix)"
| "index_step (OpUpsert e) ix = index_upsert e ix"
| "index_step (OpUpdateStatus i st) ix = snd (index_update_status i st ix)"
| "index_step (OpLink i l) ix = snd (index_link_work_object i l ix)"

lemma index_ok_put: "index_ok ix \<Longrightarrow> index_ok (hm_put (entry_id e) e ix)"
  by (simp add: index_ok_def)

lemma index_ok_modify:
  "index_ok ix \<Longrightarrow> (\<And>e. ie_metadata (f e) = ie_metadata e) \<Longrightarrow> index_ok (m_modify i f ix)"
  by (auto simp: index_ok_def)

lemma index_ok_step: "index_ok ix \<Longrightarrow> index_ok (index_step op ix)"
  by (cases op)
     (auto simp: index_insert_def index_upsert_def index_update_status_def index_link_work_object_def
       intro: index_ok_put index_ok_modify split: option.split)

lemma index_ok_steps: "index_ok (fold index_step ops [])"
  by (rule fold_invariant [where Q = "\<lambda>_. True"]) (auto simp: index_ok_step, simp add: index_ok_def)

lemma index_values_get:
  assumes "index_ok ix"
  shows "e \<in> set (m_values ix) \<longleftrightarrow> m_get ix (entry_id e) = Some e"
proof
  assume "e \<in> set (m_values ix)"
  then obtain i where "(i, e) \<in> set ix" by (auto simp: m_values_def)
  then show "m_get ix (entry_id e) = Some e"
    using assms in_set_m_get [of ix i e] by (auto simp: index_ok_def)
qed (rule m_get_values)

text \<open>
  A query of the asset index returns exactly the indexed entries that match it, each
  once and in the order of their identifiers, whatever operations built the index; and the
  answer does not depend on the order in which the hash map happens to hold the entries.
\<close>

lemma index_query_correct:
  assumes "ix = fold index_step ops []"
  shows "(\<forall>e. e \<in> set (index_query_entries ix q) \<longleftrightarrow>
            m_get ix (entry_id e) = Some e \<and> index_matches e q) \<and>
         sorted (map (\<lambda>e. asset_text (entry_id e)) (index_query_entries ix q)) \<and>
         distinct (map entry_id (index_query_entries ix q)) \<and>
         (\<forall>ix'. mset ix' = mset ix \<longrightarrow> index_query_entries ix' q = index_query_entries ix q)"
proof -
  have ok: "index_ok ix" using assms index_ok_steps by simp
  let ?f = "\<lambda>e. asset_text (entry_id e)" and ?p = "\<lambda>e. index_matches e q"
  have d: "distinct (map ?f (filter ?p (m_values ix)))"
    using index_ok_values [OF ok] by (rule distinct_map_filter)
  have "distinct (map entry_id (index_query_entries ix q))"
  proof -
    have "distinct (map ?f (index_query_entries ix q))"
      using d by (simp add: index_query_entries_def distinct_map)
    then have "distinct (map asset_text (map entry_id (index_query_entries ix q)))"
      by (simp add: comp_def)
    then show ?thesis by (rule distinct_map [THEN iffD1, THEN conjunct1])
  qed
  moreover have "index_query_entries ix' q = index_query_entries ix q" if "mset ix' = mset ix" for ix'
  proof -
    have "mset (filter ?p (m_values ix)) = mset (filter ?p (m_values ix'))"
      using that by (simp add: m_values_def mset_filter mset_map)
    then show ?thesis
      unfolding index_query_entries_def using sort_key_order_irrelevant [OF _ d] by metis
  qed
  moreover have "e \<in> set (index_query_entries ix q) \<longleftrightarrow> m_get ix (entry_id e) = Some e \<and> index_matches e q" for e
    using index_values_get [OF ok, of e] by (auto simp: index_query_entries_def)
  moreover have "sorted (map ?f (index_query_entries ix q))"
    by (simp add: index_query_entries_def)
  ultimately show ?thesis by blast
qed

definition demo_asset :: "string \<Rightarrow> asset_relevance \<Rightarrow> index_entry" where
  "demo_asset i r =
     index_entry_new
       \<lparr>asset_meta_id = AssetId i, asset_meta_kind = AkPdf, asset_title = None, asset_mime_type = None,
        asset_file_size_bytes = None,
        asset_meta_source = \<lparr>src_uri = None, src_discovered_at = 0, src_context = JNull\<rparr>,
        asset_meta_relevance = r, asset_tags = [], asset_created_at = 0\<rparr> Observed 0"

lemma index_query_correct_witness:
  "map entry_id (index_query_entries
      (fold index_step [OpInsert (demo_asset ''b'' High), OpInsert (demo_asset ''c'' Low),
         OpInsert (demo_asset ''a'' Critical), OpInsert (demo_asset ''a'' Low)] [])
      \<lparr>iq_kind = None, iq_status = Some Observed, iq_min_relevance = Some Medium, iq_tag = None,
       iq_source_uri_prefix = None, iq_work_object_type = None, iq_work_object_id = None\<rparr>) =
     [AssetId ''a'', AssetId ''b''] \<and>
   sorted (map (\<lambda>e. asset_text (entry_id e)) (index_query_entries
      (fold index_step [OpInsert (demo_asset ''b'' High), OpInsert (demo_asset ''c'' Low),
         OpInsert (demo_asset ''a'' Critical), OpInsert (demo_asset ''a'' Low)] [])
      \<lparr>iq_kind = None, iq_status = Some Observed, iq_min_relevance = Some Medium, iq_tag = None,
       iq_source_uri_prefix = None, iq_work_object_type = None, iq_work_object_id = None\<rparr>))"
  (is "_ \<and> sorted (map _ (index_query_entries ?ix ?q))")
proof
  show "sorted (map (\<lambda>e. asset_text (entry_id e)) (index_query_entries ?ix ?q))"
    using index_query_correct [OF refl] by blast
  show "map entry_id (index_query_entries ?ix ?q) = [AssetId ''a'', AssetId ''b'']"
    by code_simp
qed

section \<open>Destinations shown for approval\<close>

text \<open>A string that is a destination: itself, or in a list of destinations.\<close>

inductive destination_in :: "string \<Rightarrow> json \<Rightarrow> bool" for d where
  here: "destination_in d (JString d)"
| element: "v \<in> set vs \<Longrightarrow> destination_in d v \<Longrightarrow> destination_in d (JArray vs)"

inductive_simps destination_in_simps [simp]:
  "destination_in d (JString x)" "destination_in d (JArray vs)" "destination_in d JNull"
  "destination_in d (JBool b)" "destination_in d (JNumber n)" "destination_in d (JObject es)"

text \<open>A destination named by a key somewhere in a value.\<close>

inductive names_destination :: "string \<Rightarrow> string \<Rightarrow> json \<Rightarrow> bool" for k d where
  field: "(k, v) \<in> set es \<Longrightarrow> destination_in d v \<Longrightarrow> names_destination k d (JObject es)"
| member: "(key, v) \<in> set es \<Longrightarrow> names_destination k d v \<Longrightarrow> names_destination k d (JObject es)"
| element: "v \<in> set vs \<Longrightarrow> names_destination k d v \<Longrightarrow> names_destination k d (JArray vs)"

inductive_simps names_destination_simps [simp]:
  "names_destination k d (JObject es)" "names_destination k d (JArray vs)"
  "names_destination k d (JString x)" "names_destination k d JNull"
  "names_destination k d (JBool b)" "names_destination k d (JNumber n)"

text \<open>The two parts of the state agree, and the list has no repetitions.\<close>

definition dest_ok :: "destinations \<Rightarrow> bool" where
  "dest_ok st \<longleftrightarrow> fst st = set (snd st) \<and> distinct (snd st)"

text \<open>A step that adds exactly the strings of a set.\<close>

definition adds :: "(destinations \<Rightarrow> destinations) \<Rightarrow> (string \<Rightarrow> bool) \<Rightarrow> bool" where
  "adds f P \<longleftrightarrow> (\<forall>st. dest_ok st \<longrightarrow>
     dest_ok (f st) \<and> (\<forall>d. d \<in> set (snd (f st)) \<longleftrightarrow> d \<in> set (snd st) \<or> P d))"

lemma adds_id [simp]: "adds (\<lambda>st. st) (\<lambda>d. False)"
  by (simp add: adds_def)

lemma adds_comp: "adds f P \<Longrightarrow> adds g Q \<Longrightarrow> adds (\<lambda>st. g (f st)) (\<lambda>d. P d \<or> Q d)"
  by (auto simp: adds_def simp del: split_paired_All)

lemma adds_fold:
  assumes "\<And>x. x \<in> set xs \<Longrightarrow> adds (f x) (P x)"
  shows "adds (fold f xs) (\<lambda>d. \<exists>x \<in> set xs. P x d)"
  using assms
proof (induction xs)
  case Nil
  show ?case by (simp add: adds_def)
next
  case (Cons x xs)
  then have "adds (\<lambda>st. fold f xs (f x st)) (\<lambda>d. P x d \<or> (\<exists>x \<in> set xs. P x d))"
    by (intro adds_comp) simp_all
  then show ?case by (simp add: comp_def)
qed

lemma adds_cong: "adds f P \<Longrightarrow> (\<And>d. P d = Q d) \<Longrightarrow> adds f Q"
  by (simp add: adds_def)

lemma adds_value: "adds (collect_destination_value v) (\<lambda>d. destination_in d v)"
proof (induction v)
  case (JArray vs)
  then have "adds (fold collect_destination_value vs) (\<lambda>d. \<exists>v \<in> set vs. destination_in d v)"
    by (rule adds_fold)
  then show ?case by (auto simp: adds_def)
qed (auto simp: adds_def dest_ok_def)

lemma adds_key: "adds (collect_destination_key k v) (\<lambda>d. names_destination k d v)"
proof (induction v)
  case (JArray vs)
  then have "adds (fold (collect_destination_key k) vs) (\<lambda>d. \<exists>v \<in> set vs. names_destination k d v)"
    by (rule adds_fold)
  then show ?case by (auto simp: adds_def)
next
  case (JObject es)
  let ?f = "\<lambda>(key, child) st. collect_destination_key k child
               (if key = k then collect_destination_value child st else st)"
  let ?P = "\<lambda>(key, child) d. key = k \<and> destination_in d child \<or> names_destination k d child"
  have "adds (?f e) (?P e)" if "e \<in> set es" for e
  proof -
    obtain key child where e: "e = (key, child)" by (cases e)
    then have key: "adds (collect_destination_key k child) (\<lambda>d. names_destination k d child)"
      using JObject that by fastforce
    show ?thesis
      using adds_comp [OF adds_value [of child] key] key by (cases "key = k") (simp_all add: e)
  qed
  then have "adds (fold ?f es) (\<lambda>d. \<exists>e \<in> set es. ?P e d)" by (rule adds_fold)
  moreover have "collect_destination_key k (JObject es) = fold ?f es"
    by (rule ext) (simp add: case_prod_beta)
  ultimately have "adds (collect_destination_key k (JObject es)) (\<lambda>d. \<exists>e \<in> set es. ?P e d)"
    by simp
  then show ?case by (rule adds_cong) auto
qed (simp_all add: adds_def)

text \<open>
  The destinations on an approval card are complete and listed once: they are exactly
  the strings that occur, alone or in lists, under one of the seven destination keys
  anywhere in the input of the action, however deeply nested.
\<close>

lemma extract_destinations_correct:
  "distinct (extract_destinations v) \<and>
   (\<forall>d. d \<in> set (extract_destinations v) \<longleftrightarrow> (\<exists>k \<in> set destination_keys. names_destination k d v))"
proof -
  have "adds (fold (\<lambda>k. collect_destination_key k v) destination_keys)
          (\<lambda>d. \<exists>k \<in> set destination_keys. names_destination k d v)"
    by (rule adds_fold) (rule adds_key)
  from this [unfolded adds_def, rule_format, of "({}, [])"] show ?thesis
    by (simp add: extract_destinations_def dest_ok_def)
qed

text \<open>
  A registry of actions, and by the same contract every other registry, is write-once:
  whatever is registered in whatever order, a kind resolves to the first schema registered
  for it, and the side effect by which an action is judged is the one of that schema.
\<close>

lemma action_registry_first_wins:
  "get_action (fold (\<lambda>sch reg. snd (register_action sch reg)) schs []) k =
     find (\<lambda>sch. sch_kind sch = k) schs \<and>
   side_effect_of (fold (\<lambda>sch reg. snd (register_action sch reg)) schs []) k =
     map_option sch_side_effect (find (\<lambda>sch. sch_kind sch = k) schs)"
proof -
  have "(kind_text a = kind_text b) = (a = b)" for a b
    by (cases a; cases b) simp
  then show ?thesis
    using actions.first_registration_wins [of schs "kind_text k", unfolded actions.register_all_def]
    by (simp add: get_action_def side_effect_of_def)
qed

end
