(* ===== verification/Receipts.thy ===== *)
theory Receipts
  imports Registries Utf8 "HOL-Library.Word"
begin

unbundle bit_operations_syntax

text \<open>
  Approval receipts (\<open>capability-policy/src/approval_receipt.rs\<close>): the request shown for
  approval, the receipt issued for a decision, and its validation against the action that
  is about to run.

  \<open>serde_json::to_string\<close> and the 64-bit hash function behind \<open>DefaultHasher\<close> are
  parameters; the bytes that the standard library feeds to the hasher are modelled: a
  string is followed by the byte 255, an option is preceded by its discriminant as a
  64-bit little-endian integer.
\<close>

record receipt_codec =
  json_text :: "json \<Rightarrow> string"
  hash_bytes :: "string \<Rightarrow> 64 word"

section \<open>Payload hashes\<close>

datatype (plugins only: code size) payload_hash = ActionPayloadHash string

definition feed_string :: "string \<Rightarrow> string" where
  "feed_string s = s @ [CHR 0xFF]"

definition feed_option :: "string option \<Rightarrow> string" where
  "feed_option x =
     (case x of
        None \<Rightarrow> replicate 8 (CHR 0x00)
      | Some s \<Rightarrow> CHR 0x01 # replicate 7 (CHR 0x00) @ feed_string s)"

definition hashed_bytes :: "receipt_codec \<Rightarrow> action_request \<Rightarrow> string" where
  "hashed_bytes C r =
     feed_string (action_text (req_action_id r)) @
     feed_string (kind_text (req_action_kind r)) @
     feed_string (json_text C (req_input r)) @
     feed_string (req_requested_by r) @
     feed_option (req_conversation_id r) @
     feed_option (req_message_id r)"

text \<open>\<open>{:016x}\<close> of a 64-bit number.\<close>

definition hex_digit :: "nat \<Rightarrow> char" where
  "hex_digit n = (if n < 10 then char_of (48 + n) else char_of (87 + n))"

definition hex16 :: "64 word \<Rightarrow> string" where
  "hex16 w = map (\<lambda>i. hex_digit (unat (take_bit 4 (drop_bit (4 * i) w)))) (rev [0..<16])"

definition for_request :: "receipt_codec \<Rightarrow> action_request \<Rightarrow> payload_hash" where
  "for_request C r = ActionPayloadHash (''agentos-hash-v1:'' @ hex16 (hash_bytes C (hashed_bytes C r)))"

section \<open>Requests, decisions and receipts\<close>

datatype (plugins only: code size) approval_request_id = ApprovalRequestId string

datatype (plugins only: code size) reuse_policy = OneTime | ReusableUntilExpiry

record receipt_side_effect_summary =
  rs_side_effect :: side_effect_kind
  rs_risk_level :: string
  rs_affected_resources :: "string list"
  rs_external_destinations :: "string list"
  rs_data_exposure :: "string list"
  rs_reversible :: bool
  rs_user_visible_description :: string

definition for_side_effect :: "side_effect_kind \<Rightarrow> string \<Rightarrow> receipt_side_effect_summary" where
  "for_side_effect k description =
     \<lparr>rs_side_effect = k,
      rs_risk_level = (case k of
          NoEffect \<Rightarrow> ''none''
        | ReadOnly \<Rightarrow> ''low''
        | RuntimeStateMutation \<Rightarrow> ''medium'' | UiSideEffect \<Rightarrow> ''medium''
        | FileSystemMutation \<Rightarrow> ''high'' | NetworkAccess \<Rightarrow> ''high''
        | ExternalSystemMutation \<Rightarrow> ''high'' | DeviceControl \<Rightarrow> ''high''
        | SensitiveProfileMutation \<Rightarrow> ''high''),
      rs_affected_resources = [], rs_external_destinations = [], rs_data_exposure = [],
      rs_reversible = False, rs_user_visible_description = description\<rparr>"

record kernel_approval_request =
  ka_approval_request_id :: approval_request_id
  ka_action_id :: action_id
  ka_action_kind :: action_kind
  ka_action_payload_hash :: payload_hash
  ka_requested_by :: string
  ka_requested_at :: datetime
  ka_expires_at :: "datetime option"
  ka_reuse_policy :: reuse_policy
  ka_side_effect_summary :: receipt_side_effect_summary

definition from_action_request ::
    "receipt_codec \<Rightarrow> datetime \<Rightarrow> approval_request_id \<Rightarrow> action_request \<Rightarrow>
     receipt_side_effect_summary \<Rightarrow> kernel_approval_request" where
  "from_action_request C now i r summary =
     \<lparr>ka_approval_request_id = i, ka_action_id = req_action_id r, ka_action_kind = req_action_kind r,
      ka_action_payload_hash = for_request C r, ka_requested_by = req_requested_by r,
      ka_requested_at = now, ka_expires_at = None, ka_reuse_policy = OneTime,
      ka_side_effect_summary = summary\<rparr>"

definition with_expires_at :: "datetime \<Rightarrow> kernel_approval_request \<Rightarrow> kernel_approval_request" where
  "with_expires_at t q = q\<lparr>ka_expires_at := Some t\<rparr>"

definition with_reuse_policy :: "reuse_policy \<Rightarrow> kernel_approval_request \<Rightarrow> kernel_approval_request" where
  "with_reuse_policy u q = q\<lparr>ka_reuse_policy := u\<rparr>"

datatype (plugins only: code size) kernel_decision_kind = KdApproved | KdDenied

record kernel_approval_decision =
  kd_kind :: kernel_decision_kind
  kd_decided_by :: string
  kd_reason :: string
  kd_decided_at :: datetime

definition kd_approved :: "datetime \<Rightarrow> string \<Rightarrow> string \<Rightarrow> kernel_approval_decision" where
  "kd_approved now who why =
     \<lparr>kd_kind = KdApproved, kd_decided_by = who, kd_reason = why, kd_decided_at = now\<rparr>"

definition kd_denied :: "datetime \<Rightarrow> string \<Rightarrow> string \<Rightarrow> kernel_approval_decision" where
  "kd_denied now who why =
     \<lparr>kd_kind = KdDenied, kd_decided_by = who, kd_reason = why, kd_decided_at = now\<rparr>"

record approval_receipt =
  rc_approval_request_id :: approval_request_id
  rc_action_id :: action_id
  rc_action_payload_hash :: payload_hash
  rc_decision :: kernel_approval_decision
  rc_issued_at :: datetime
  rc_expires_at :: "datetime option"
  rc_reuse_policy :: reuse_policy
  rc_consumed_at :: "datetime option"

definition issue :: "datetime \<Rightarrow> kernel_approval_request \<Rightarrow> kernel_approval_decision \<Rightarrow> approval_receipt" where
  "issue now q d =
     \<lparr>rc_approval_request_id = ka_approval_request_id q, rc_action_id = ka_action_id q,
      rc_action_payload_hash = ka_action_payload_hash q, rc_decision = d, rc_issued_at = now,
      rc_expires_at = ka_expires_at q, rc_reuse_policy = ka_reuse_policy q, rc_consumed_at = None\<rparr>"

definition consume :: "datetime \<Rightarrow> approval_receipt \<Rightarrow> approval_receipt" where
  "consume now rc = rc\<lparr>rc_consumed_at := Some now\<rparr>"

datatype (plugins only: code size) validation_error =
    ReceiptDenied string
  | ReceiptExpired datetime
  | ReceiptAlreadyConsumed
  | ReceiptActionIdMismatch
  | ReceiptPayloadHashMismatch

definition validate_approval_receipt ::
    "receipt_codec \<Rightarrow> approval_receipt \<Rightarrow> action_request \<Rightarrow> datetime \<Rightarrow> validation_error + unit" where
  "validate_approval_receipt C rc r now =
     (if kd_kind (rc_decision rc) = KdDenied then Inl (ReceiptDenied (kd_reason (rc_decision rc)))
      else
        (let rest =
           (if rc_consumed_at rc \<noteq> None \<and> rc_reuse_policy rc = OneTime then Inl ReceiptAlreadyConsumed
            else if rc_action_id rc \<noteq> req_action_id r then Inl ReceiptActionIdMismatch
            else if rc_action_payload_hash rc \<noteq> for_request C r then Inl ReceiptPayloadHashMismatch
            else Inr ())
         in case rc_expires_at rc of
              Some t \<Rightarrow> if t < now then Inl (ReceiptExpired t) else rest
            | None \<Rightarrow> rest))"

section \<open>What a receipt is bound to\<close>

text \<open>No byte of a UTF-8 string is 255, so the hashed bytes determine the hashed fields.\<close>

lemma no_255_head:
  "is_continuation (CHR 0xFF) = False" "in_range lo hi (CHR 0xFF) \<longleftrightarrow> lo \<le> 255 \<and> 255 \<le> hi"
  by (simp_all add: is_continuation_def in_range_def)

lemma utf8_head_255_0: "utf8_head (CHR 0xFF # t) = 0"
  by (cases t) (simp_all add: utf8_head_def no_255_head split: list.split)

lemma utf8_head_255_1: "utf8_head (a # CHR 0xFF # t) \<le> 1"
  by (simp add: utf8_head_def no_255_head split: list.split)

lemma utf8_head_255_2: "utf8_head (a # b # CHR 0xFF # t) \<le> 2"
  by (simp add: utf8_head_def no_255_head split: list.split)

lemma utf8_head_255_3: "utf8_head (a # b # c # CHR 0xFF # t) \<le> 3"
  by (simp add: utf8_head_def no_255_head)

lemma utf8_head_le_4: "utf8_head s \<le> 4"
  by (simp add: utf8_head_def split: list.split)

lemma utf8_head_no_255: "CHR 0xFF \<notin> set (take (utf8_head s) s)"
proof
  assume "CHR 0xFF \<in> set (take (utf8_head s) s)"
  then obtain k where k: "k < utf8_head s" "k < length s" "s ! k = CHR 0xFF"
    by (auto simp: in_set_conv_nth)
  then have s: "s = take k s @ CHR 0xFF # drop (Suc k) s"
    by (metis id_take_nth_drop)
  have "k < 4" using k(1) utf8_head_le_4 [of s] by simp
  then consider "k = 0" | "k = 1" | "k = 2" | "k = 3" by linarith
  then have "utf8_head s \<le> k"
  proof cases
    case 1
    then show ?thesis using s utf8_head_255_0 by (metis append_Nil take0 le_refl)
  next
    case 2
    with k(2) obtain a where "take k s = [a]" by (cases s) auto
    then show ?thesis using s utf8_head_255_1 2 by (metis append_Cons append_Nil)
  next
    case 3
    with k(2) obtain a b where "take k s = [a, b]"
      by (cases s; cases "tl s") (auto simp: numeral_eq_Suc)
    then show ?thesis using s utf8_head_255_2 3 by (metis append_Cons append_Nil)
  next
    case 4
    with k(2) obtain a b c where "take k s = [a, b, c]"
      by (cases s; cases "tl s"; cases "tl (tl s)") (auto simp: numeral_eq_Suc)
    then show ?thesis using s utf8_head_255_3 4 by (metis append_Cons append_Nil)
  qed
  with k(1) show False by simp
qed

lemma utf8_valid_no_255: "utf8_valid s \<Longrightarrow> CHR 0xFF \<notin> set s"
proof (induction s rule: utf8_valid.induct)
  case (1 s)
  show ?case
  proof (cases "s = []")
    case False
    with 1 have ok: "utf8_head s \<noteq> 0" "utf8_valid (drop (utf8_head s) s)"
      by (auto simp: utf8_valid.simps [of s] split: if_splits)
    with 1 False have "CHR 0xFF \<notin> set (drop (utf8_head s) s)" by simp
    moreover have "CHR 0xFF \<notin> set (take (utf8_head s) s)"
      by (rule utf8_head_no_255)
    ultimately show ?thesis
      using append_take_drop_id [of "utf8_head s" s] by (metis UnE set_append)
  qed simp
qed

lemma feed_string_inj:
  assumes "feed_string s @ x = feed_string t @ y" and "CHR 0xFF \<notin> set s" and "CHR 0xFF \<notin> set t"
  shows "s = t \<and> x = y"
  using assms
proof (induction s arbitrary: t)
  case Nil
  then show ?case by (cases t) (auto simp: feed_string_def)
next
  case (Cons c s)
  then show ?case by (cases t) (auto simp: feed_string_def)
qed

lemma feed_option_inj:
  assumes "feed_option s @ x = feed_option t @ y"
    and "\<And>u. s = Some u \<Longrightarrow> CHR 0xFF \<notin> set u" and "\<And>u. t = Some u \<Longrightarrow> CHR 0xFF \<notin> set u"
  shows "s = t \<and> x = y"
proof (cases s)
  case None
  then show ?thesis using assms(1) by (cases t) (auto simp: feed_option_def numeral_eq_Suc)
next
  case (Some u)
  then show ?thesis
  proof (cases t)
    case None
    then show ?thesis using assms(1) Some by (auto simp: feed_option_def numeral_eq_Suc)
  next
    case (Some v)
    with \<open>s = Some u\<close> have "feed_string u @ x = feed_string v @ y"
      using assms(1) by (simp add: feed_option_def numeral_eq_Suc)
    then show ?thesis using feed_string_inj assms(2,3) Some \<open>s = Some u\<close> by blast
  qed
qed

text \<open>All texts of a request are UTF-8, as every Rust string is.\<close>

definition request_utf8 :: "receipt_codec \<Rightarrow> action_request \<Rightarrow> bool" where
  "request_utf8 C r \<longleftrightarrow>
     utf8_valid (action_text (req_action_id r)) \<and> utf8_valid (kind_text (req_action_kind r)) \<and>
     utf8_valid (json_text C (req_input r)) \<and> utf8_valid (req_requested_by r) \<and>
     (\<forall>s. req_conversation_id r = Some s \<longrightarrow> utf8_valid s) \<and>
     (\<forall>s. req_message_id r = Some s \<longrightarrow> utf8_valid s)"

text \<open>The fields of an action that a receipt covers; the time of the request is not one.\<close>

definition covered :: "receipt_codec \<Rightarrow> action_request \<Rightarrow>
    action_id \<times> action_kind \<times> string \<times> string \<times> string option \<times> string option" where
  "covered C r = (req_action_id r, req_action_kind r, json_text C (req_input r), req_requested_by r,
     req_conversation_id r, req_message_id r)"

lemma hashed_bytes_inj:
  assumes "hashed_bytes C r = hashed_bytes C r'" and "request_utf8 C r" and "request_utf8 C r'"
  shows "covered C r = covered C r'"
proof -
  note no255 = utf8_valid_no_255
  have a: "action_text (req_action_id r) = action_text (req_action_id r') \<and>
      feed_string (kind_text (req_action_kind r)) @ feed_string (json_text C (req_input r)) @
        feed_string (req_requested_by r) @ feed_option (req_conversation_id r) @ feed_option (req_message_id r) =
      feed_string (kind_text (req_action_kind r')) @ feed_string (json_text C (req_input r')) @
        feed_string (req_requested_by r') @ feed_option (req_conversation_id r') @ feed_option (req_message_id r')"
    using assms by (intro feed_string_inj) (auto simp: hashed_bytes_def request_utf8_def no255)
  then have b: "kind_text (req_action_kind r) = kind_text (req_action_kind r') \<and>
      feed_string (json_text C (req_input r)) @
        feed_string (req_requested_by r) @ feed_option (req_conversation_id r) @ feed_option (req_message_id r) =
      feed_string (json_text C (req_input r')) @
        feed_string (req_requested_by r') @ feed_option (req_conversation_id r') @ feed_option (req_message_id r')"
    using assms by (intro feed_string_inj) (auto simp: request_utf8_def no255)
  then have c: "json_text C (req_input r) = json_text C (req_input r') \<and>
      feed_string (req_requested_by r) @ feed_option (req_conversation_id r) @ feed_option (req_message_id r) =
      feed_string (req_requested_by r') @ feed_option (req_conversation_id r') @ feed_option (req_message_id r')"
    using assms by (intro feed_string_inj) (auto simp: request_utf8_def no255)
  then have d: "req_requested_by r = req_requested_by r' \<and>
      feed_option (req_conversation_id r) @ feed_option (req_message_id r) =
      feed_option (req_conversation_id r') @ feed_option (req_message_id r')"
    using assms by (intro feed_string_inj) (auto simp: request_utf8_def no255)
  then have e: "req_conversation_id r = req_conversation_id r' \<and>
      feed_option (req_message_id r) = feed_option (req_message_id r')"
    using assms by (intro feed_option_inj) (auto simp: request_utf8_def no255)
  then have "feed_option (req_message_id r) @ [] = feed_option (req_message_id r') @ []" by simp
  then have "req_message_id r = req_message_id r'"
    using assms by (intro feed_option_inj [THEN conjunct1]) (auto simp: request_utf8_def no255)
  with a b c d e show ?thesis
    by (cases "req_action_id r"; cases "req_action_id r'"; cases "req_action_kind r";
        cases "req_action_kind r'") (simp add: covered_def)
qed

lemma hex_digit_inj: "m < 16 \<Longrightarrow> n < 16 \<Longrightarrow> hex_digit m = hex_digit n \<Longrightarrow> m = n"
proof -
  assume m: "m < 16" and n: "n < 16" and eq: "hex_digit m = hex_digit n"
  have "(of_char (hex_digit k) :: nat) = (if k < 10 then 48 + k else 87 + k)" if "k < 16" for k
    using that by (simp add: hex_digit_def)
  with m n have "(if m < 10 then 48 + m else 87 + m) = (if n < 10 then 48 + n else 87 + n)"
    using eq by metis
  then show ?thesis using m n by (auto split: if_splits)
qed

lemma hex16_inj:
  assumes "hex16 v = hex16 w"
  shows "v = w"
proof (rule bit_eqI)
  fix n
  assume "possible_bit TYPE(64 word) n"
  then have n: "n < 64" by simp
  let ?d = "\<lambda>(x :: 64 word) i. take_bit 4 (drop_bit (4 * i) x)"
  have small: "unat (?d x i) < 16" for x i
    using take_bit_nat_less_exp [of 4 "unat (drop_bit (4 * i) x)"] by (simp add: unsigned_take_bit_eq)
  have "n div 4 \<in> set (rev [0..<16])" using n by simp
  then have "hex_digit (unat (?d v (n div 4))) = hex_digit (unat (?d w (n div 4)))"
    using assms unfolding hex16_def map_eq_conv by blast
  then have "unat (?d v (n div 4)) = unat (?d w (n div 4))"
    by (rule hex_digit_inj [OF small small])
  then have "?d v (n div 4) = ?d w (n div 4)" by (rule word_unat_eq_iff [THEN iffD2])
  then have "bit (?d v (n div 4)) (n mod 4) = bit (?d w (n div 4)) (n mod 4)" by simp
  then show "bit v n = bit w n"
    by (simp add: bit_take_bit_iff bit_drop_bit_eq)
qed

lemma for_request_eq_iff:
  "for_request C r = for_request C r' \<longleftrightarrow> hash_bytes C (hashed_bytes C r) = hash_bytes C (hashed_bytes C r')"
  by (auto simp: for_request_def dest: hex16_inj)

lemma validate_iff:
  "validate_approval_receipt C rc r now = Inr () \<longleftrightarrow>
     kd_kind (rc_decision rc) = KdApproved \<and> (\<forall>t. rc_expires_at rc = Some t \<longrightarrow> now \<le> t) \<and>
     \<not> (rc_consumed_at rc \<noteq> None \<and> rc_reuse_policy rc = OneTime) \<and>
     rc_action_id rc = req_action_id r \<and> rc_action_payload_hash rc = for_request C r"
  by (cases "kd_kind (rc_decision rc)")
     (auto simp: validate_approval_receipt_def Let_def split: option.splits)

text \<open>
  C10. A receipt is bound to the action it was issued for. If the receipt of a request for
  one action validates against another, then it was approved, is validated no later than
  its expiry and, if it may be used only once, has not been consumed; and the two actions
  agree in identifier, kind, input, requester, conversation and message, unless the 64-bit
  hash function has a collision on the two byte sequences. A receipt that is denied,
  expired or consumed after a single use validates against nothing.
\<close>

theorem receipt_binds_action:
  assumes "rc_action_payload_hash rc = ka_action_payload_hash (from_action_request C t0 i r summary)"
    and "validate_approval_receipt C rc r' now = Inr ()"
    and "request_utf8 C r" and "request_utf8 C r'"
  shows "kd_kind (rc_decision rc) = KdApproved \<and>
         (\<forall>t. rc_expires_at rc = Some t \<longrightarrow> now \<le> t) \<and>
         (rc_reuse_policy rc = OneTime \<longrightarrow> rc_consumed_at rc = None) \<and>
         rc_action_id rc = req_action_id r' \<and>
         (covered C r' = covered C r \<or>
          hashed_bytes C r \<noteq> hashed_bytes C r' \<and>
          hash_bytes C (hashed_bytes C r) = hash_bytes C (hashed_bytes C r'))"
proof -
  have valid: "kd_kind (rc_decision rc) = KdApproved" "\<forall>t. rc_expires_at rc = Some t \<longrightarrow> now \<le> t"
    "rc_reuse_policy rc = OneTime \<longrightarrow> rc_consumed_at rc = None" "rc_action_id rc = req_action_id r'"
    "for_request C r = for_request C r'"
    using assms(1,2) unfolding validate_iff by (auto simp: from_action_request_def)
  moreover have "covered C r' = covered C r" if "hashed_bytes C r = hashed_bytes C r'"
    using hashed_bytes_inj [OF that assms(3,4)] by simp
  ultimately show ?thesis by (auto simp: for_request_eq_iff)
qed

definition demo_codec :: receipt_codec where
  "demo_codec = \<lparr>json_text = (\<lambda>_. ''null''), hash_bytes = (\<lambda>s. of_nat (length s))\<rparr>"

definition demo_action :: "string \<Rightarrow> action_request" where
  "demo_action i =
     \<lparr>req_action_id = ActionId i, req_action_kind = ActionKind ''mail.send'', req_input = JNull,
      req_requested_by = ''u'', req_conversation_id = Some ''c'', req_message_id = None,
      req_requested_at = 0\<rparr>"

definition demo_receipt :: approval_receipt where
  "demo_receipt =
     issue 2 (with_expires_at 9 (from_action_request demo_codec 1 (ApprovalRequestId ''q'') (demo_action ''a'')
        (for_side_effect NetworkAccess ''send a mail''))) (kd_approved 2 ''alice'' ''fine'')"

theorem receipt_binds_action_witness:
  "validate_approval_receipt demo_codec demo_receipt (demo_action ''a'') 9 = Inr () \<and>
   validate_approval_receipt demo_codec demo_receipt (demo_action ''a'') 10 = Inl (ReceiptExpired 9) \<and>
   validate_approval_receipt demo_codec (consume 5 demo_receipt) (demo_action ''a'') 6 = Inl ReceiptAlreadyConsumed \<and>
   validate_approval_receipt demo_codec demo_receipt (demo_action ''b'') 5 = Inl ReceiptActionIdMismatch \<and>
   rc_action_id demo_receipt = req_action_id (demo_action ''a'')"
proof -
  have ok: "validate_approval_receipt demo_codec demo_receipt (demo_action ''a'') 9 = Inr ()"
    by (simp add: validate_approval_receipt_def demo_receipt_def issue_def with_expires_at_def
        from_action_request_def kd_approved_def demo_action_def)
  have hash: "rc_action_payload_hash demo_receipt =
      ka_action_payload_hash (from_action_request demo_codec 1 (ApprovalRequestId ''q'') (demo_action ''a'')
        (for_side_effect NetworkAccess ''send a mail''))"
    by (simp add: demo_receipt_def issue_def with_expires_at_def from_action_request_def)
  have utf8: "request_utf8 demo_codec (demo_action ''a'')"
    by (simp add: request_utf8_def demo_codec_def demo_action_def ascii_utf8_valid)
  have "rc_action_id demo_receipt = req_action_id (demo_action ''a'')"
    using receipt_binds_action [OF hash ok utf8 utf8] by blast
  with ok show ?thesis
    by (simp add: validate_approval_receipt_def demo_receipt_def issue_def with_expires_at_def
        from_action_request_def kd_approved_def demo_action_def consume_def)
qed

end
