(* ===== verification/Record_Log.thy ===== *)
theory Record_Log
  imports Utf8
begin

text \<open>
  Append-only files of JSON lines, as the durable stores of \<open>agent-runtime/src\<close>
  (\<open>run_store.rs\<close>, \<open>action_store.rs\<close>, \<open>approval_queue.rs\<close>) and of \<open>asset-core/src/lib.rs\<close>
  use them: every change appends the new version of one record, and opening the file
  replays the records into an ordered map, a later version of a record replacing an
  earlier one.

  \<open>serde_json\<close> is a parameter, one codec per record type. A file is its bytes, or absent.
  Reads and writes succeed except that reading a line that is not UTF-8 fails.
\<close>

record 'r line_codec =
  enc_record :: "'r \<Rightarrow> string"
  dec_record :: "string \<Rightarrow> string + 'r"

datatype (plugins only: code size) log_error = LogIo | LogSerde string

abbreviation newline :: char where
  "newline \<equiv> CHR 0x0A"

section \<open>Lines\<close>

text \<open>
  The lines of \<open>BufReader::lines\<close>: a line that ends with a newline loses it and a carriage
  return before it; what follows the last newline is a line if it is not empty.
\<close>

definition drop_cr :: "string \<Rightarrow> string" where
  "drop_cr l = (if l \<noteq> [] \<and> last l = CHR 0x0D then butlast l else l)"

definition file_lines :: "string \<Rightarrow> string list" where
  "file_lines bs =
     (let pieces = split_newline bs in
      map drop_cr (butlast pieces) @ (if last pieces = [] then [] else [last pieces]))"

fun read_records :: "'r line_codec \<Rightarrow> string list \<Rightarrow> log_error + 'r list" where
  "read_records C [] = Inr []"
| "read_records C (l # ls) =
     (if \<not> utf8_valid l then Inl LogIo
      else if trim l = [] then read_records C ls
      else (case dec_record C l of
              Inl msg \<Rightarrow> Inl (LogSerde msg)
            | Inr r \<Rightarrow> bind_result (read_records C ls) (\<lambda>rs. Inr (r # rs))))"

definition read_log :: "'r line_codec \<Rightarrow> string option \<Rightarrow> log_error + 'r list" where
  "read_log C file = (case file of None \<Rightarrow> Inr [] | Some bs \<Rightarrow> read_records C (file_lines bs))"

definition append_record :: "'r line_codec \<Rightarrow> 'r \<Rightarrow> string option \<Rightarrow> string option" where
  "append_record C r file =
     Some ((case file of None \<Rightarrow> [] | Some bs \<Rightarrow> bs) @ enc_record C r @ [newline])"

text \<open>The loop of \<open>open\<close>: each record read replaces what the map holds under its key.\<close>

definition replay_records :: "('r \<Rightarrow> 'k::linorder) \<Rightarrow> 'r list \<Rightarrow> ('k, 'r) hmap" where
  "replay_records key rs = fold (\<lambda>(k, r). bt_put k r) (map (\<lambda>r. (key r, r)) rs) []"

definition open_log ::
    "'r line_codec \<Rightarrow> ('r \<Rightarrow> 'k::linorder) \<Rightarrow> string option \<Rightarrow> log_error + ('k, 'r) hmap" where
  "open_log C key file = bind_result (read_log C file) (\<lambda>rs. Inr (replay_records key rs))"

section \<open>Appending and reading again\<close>

text \<open>A record whose line survives: what \<open>serde_json\<close> promises of the text it writes.\<close>

definition record_ok :: "'r line_codec \<Rightarrow> 'r \<Rightarrow> bool" where
  "record_ok C r \<longleftrightarrow>
     newline \<notin> set (enc_record C r) \<and> utf8_valid (enc_record C r) \<and> trim (enc_record C r) \<noteq> [] \<and>
     last (enc_record C r) \<noteq> CHR 0x0D \<and> dec_record C (enc_record C r) = Inr r"

text \<open>A file in which a new line can be started.\<close>

definition at_line_start :: "string option \<Rightarrow> bool" where
  "at_line_start file \<longleftrightarrow> (case file of None \<Rightarrow> True | Some bs \<Rightarrow> last (split_newline bs) = [])"

lemma split_newline_append:
  "split_newline (xs @ ys) =
     butlast (split_newline xs) @ (last (split_newline xs) @ hd (split_newline ys)) # tl (split_newline ys)"
proof (induction xs)
  case Nil
  then show ?case by simp
next
  case (Cons c xs)
  then show ?case by (cases "split_newline xs") (auto split: list.splits)
qed

lemma file_lines_append:
  assumes "at_line_start (Some bs)" and "newline \<notin> set l"
  shows "file_lines (bs @ l @ [newline]) = file_lines bs @ [drop_cr l]"
    and "at_line_start (Some (bs @ l @ [newline]))"
proof -
  have split: "split_newline (bs @ l @ [newline]) = butlast (split_newline bs) @ [l, []]"
    using assms split_newline_line [OF assms(2), of "[]"]
    by (simp add: split_newline_append at_line_start_def)
  then show "file_lines (bs @ l @ [newline]) = file_lines bs @ [drop_cr l]"
    using assms(1) by (simp add: file_lines_def at_line_start_def butlast_append)
  show "at_line_start (Some (bs @ l @ [newline]))"
    using split by (simp add: at_line_start_def)
qed

lemma read_records_append:
  "read_records C (xs @ ys) = bind_result (read_records C xs) (\<lambda>rs.
     bind_result (read_records C ys) (\<lambda>rs'. Inr (rs @ rs')))"
  by (induction xs) (auto simp: bind_result_def split: sum.splits)

lemma read_appended:
  assumes "at_line_start file" and "read_log C file = Inr rs" and "record_ok C r"
  shows "read_log C (append_record C r file) = Inr (rs @ [r])"
    and "at_line_start (append_record C r file)"
proof -
  let ?bs = "case file of None \<Rightarrow> [] | Some bs \<Rightarrow> bs"
  have bs: "at_line_start (Some ?bs)" "read_records C (file_lines ?bs) = Inr rs"
    using assms(1,2) by (auto simp: at_line_start_def read_log_def file_lines_def split: option.splits)
  have nl: "newline \<notin> set (enc_record C r)" using assms(3) by (simp add: record_ok_def)
  have "drop_cr (enc_record C r) = enc_record C r"
    using assms(3) by (simp add: drop_cr_def record_ok_def)
  then show "read_log C (append_record C r file) = Inr (rs @ [r])"
    using bs(2) assms(3)
    by (simp add: append_record_def read_log_def file_lines_append [OF bs(1) nl] read_records_append
        record_ok_def)
  show "at_line_start (append_record C r file)"
    using file_lines_append(2) [OF bs(1) nl] by (simp add: append_record_def)
qed

lemma replay_records_snoc: "replay_records key (rs @ [r]) = bt_put (key r) r (replay_records key rs)"
  by (simp add: replay_records_def)

lemma replay_records_inv [simp]: "bt_inv (replay_records key rs)"
  unfolding replay_records_def by (rule btree.inv_replay) (rule btree.inv_empty)

section \<open>Stores over a log\<close>

text \<open>The state of a durable store: its map in memory and its file.\<close>

record ('k, 'r) durable =
  dur_records :: "('k, 'r) hmap"
  dur_file :: "string option"

text \<open>An operation on the map, followed by \<open>append_record\<close> of the record it returns.\<close>

definition logged ::
    "'r line_codec \<Rightarrow> (('k, 'r) hmap, 'e, 'r) prog \<Rightarrow> (('k, 'r) durable, 'e, 'r) prog" where
  "logged C m s =
     (case m (dur_records s) of
        (Inl e, m') \<Rightarrow> (Inl e, s\<lparr>dur_records := m'\<rparr>)
      | (Inr r, m') \<Rightarrow> (Inr r, s\<lparr>dur_records := m', dur_file := append_record C r (dur_file s)\<rparr>))"

definition keyed :: "('r \<Rightarrow> 'k::linorder) \<Rightarrow> ('k, 'r) hmap \<Rightarrow> bool" where
  "keyed key m \<longleftrightarrow> bt_inv m \<and> (\<forall>k r. m_get m k = Some r \<longrightarrow> key r = k)"

lemma keyed_put: "keyed key m \<Longrightarrow> keyed key (bt_put (key r) r m)"
  by (auto simp: keyed_def split: if_splits)

lemma keyed_replay: "keyed key (replay_records key rs)"
proof (induction rs rule: rev_induct)
  case Nil
  show ?case by (simp add: keyed_def replay_records_def)
qed (simp add: replay_records_snoc keyed_put)

lemma keyed_Nil [simp]: "keyed key []"
  by (simp add: keyed_def)

lemma keyed_pairs: "keyed key m \<longleftrightarrow> bt_inv m \<and> (\<forall>p \<in> set m. key (snd p) = fst p)"
proof -
  have "m_get m k = Some r \<longleftrightarrow> (k, r) \<in> set m" if "bt_inv m" for k r
    using in_set_m_get [OF bt_inv_hm_inv [OF that], of k r] m_get_in_set [of m k r] by blast
  then show ?thesis unfolding keyed_def by fastforce
qed

text \<open>The operations of a list one after the other, with the records that they returned.\<close>

fun store_run :: "('op \<Rightarrow> ('s, 'e, 'r) prog) \<Rightarrow> 'op list \<Rightarrow> 's \<Rightarrow> 's \<times> 'r list" where
  "store_run step [] s = (s, [])"
| "store_run step (op # ops) s =
     (let (x, s') = step op s; (s'', rs) = store_run step ops s'
      in (s'', case x of Inl e \<Rightarrow> rs | Inr r \<Rightarrow> r # rs))"

text \<open>Opening the file gives the map that the store holds, and the file can be appended to.\<close>

definition in_sync :: "'r line_codec \<Rightarrow> ('r \<Rightarrow> 'k::linorder) \<Rightarrow> ('k, 'r) durable \<Rightarrow> bool" where
  "in_sync C key s \<longleftrightarrow> at_line_start (dur_file s) \<and> open_log C key (dur_file s) = Inr (dur_records s)"

lemma in_sync_keyed: "in_sync C key s \<Longrightarrow> keyed key (dur_records s)"
  using keyed_replay [of key] by (auto simp: in_sync_def open_log_def bind_result_Inr_iff) metis

lemma in_sync_append:
  assumes "in_sync C key s" and "record_ok C r"
  shows "in_sync C key (s\<lparr>dur_records := bt_put (key r) r (dur_records s),
    dur_file := append_record C r (dur_file s)\<rparr>)"
  using assms read_appended [of "dur_file s" C _ r]
  by (auto simp: in_sync_def open_log_def bind_result_Inr_iff replay_records_snoc)

text \<open>
  What the operations of such a store promise: one that succeeds has put the record it
  returns under the key of that record and done nothing else; one that fails has done
  nothing.
\<close>

locale record_store =
  fixes key :: "'r \<Rightarrow> 'k::linorder"
    and step :: "'op \<Rightarrow> (('k, 'r) hmap, 'e, 'r) prog"
  assumes step_put: "keyed key m \<Longrightarrow> step op m = (Inr r, m') \<Longrightarrow> m' = bt_put (key r) r m"
    and step_error: "step op m = (Inl e, m') \<Longrightarrow> m' = m"
begin

lemma step_keyed: "keyed key m \<Longrightarrow> step op m = (x, m') \<Longrightarrow> keyed key m'"
proof (cases x)
  case (Inl e)
  assume "keyed key m" and "step op m = (x, m')"
  with step_error [of op m e m'] Inl show ?thesis by simp
next
  case (Inr r)
  assume m: "keyed key m" and "step op m = (x, m')"
  with step_put [OF m, of op r m'] keyed_put [OF m, of r] Inr show ?thesis by simp
qed

lemma logged_in_sync:
  assumes "in_sync C key s" and "logged C (step op) s = (x, s')" and "\<And>r. x = Inr r \<Longrightarrow> record_ok C r"
  shows "in_sync C key s'"
proof -
  obtain x' m' where step: "step op (dur_records s) = (x', m')" by (cases "step op (dur_records s)")
  show ?thesis
  proof (cases x')
    case (Inl e)
    with step step_error [of op "dur_records s" e m'] have "m' = dur_records s" by simp
    with assms(1,2) step Inl show ?thesis by (auto simp: logged_def in_sync_def)
  next
    case (Inr r)
    with step step_put [OF in_sync_keyed [OF assms(1)], of op r m']
    have "m' = bt_put (key r) r (dur_records s)" by simp
    with assms step Inr in_sync_append [OF assms(1), of r] show ?thesis by (auto simp: logged_def)
  qed
qed

text \<open>A crash after any number of operations: opening the file restores the map they built.\<close>

lemma reopen:
  assumes "in_sync C key s" and "\<forall>r \<in> set (snd (store_run (\<lambda>op. logged C (step op)) ops s)). record_ok C r"
  shows "in_sync C key (fst (store_run (\<lambda>op. logged C (step op)) ops s))"
  using assms
proof (induction ops arbitrary: s)
  case (Cons op ops)
  obtain x s' where step: "logged C (step op) s = (x, s')" by (cases "logged C (step op) s")
  have "in_sync C key s'"
    using Cons.prems(2) step by (intro logged_in_sync [OF Cons.prems(1) step]) (simp add: split_beta)
  with Cons.IH [of s'] Cons.prems(2) step show ?case by (auto simp: split_beta split: sum.splits)
qed simp

lemma run_keyed: "keyed key m \<Longrightarrow> keyed key (fst (store_run step ops m))"
proof (induction ops arbitrary: m)
  case (Cons op ops)
  then show ?case
    using step_keyed [of m op "fst (step op m)" "snd (step op m)"] by (simp add: split_beta)
qed simp

end

end
