(* ===== verification/Approval_Queue.thy ===== *)
theory Approval_Queue
  imports Record_Log Core_Types
begin

text \<open>
  The queue of approvals that wait for a decision, in memory and over a log
  (\<open>agent-runtime/src/approval_queue.rs\<close>).

  Every reading of the clock is an argument: \<open>now\<close> is compared with the expiry, \<open>stamp\<close> is
  written to \<open>updated_at\<close>. \<open>pending\<close> reads the clock anew for every record, so it takes the
  readings as a function of the identifier.
\<close>

section \<open>Records and decisions\<close>

datatype (plugins only: code size) approval_status =
    ApPending | ApApproved | ApDenied | ApRevoked | ApExpired

definition approval_status_is_terminal :: "approval_status \<Rightarrow> bool" where
  "approval_status_is_terminal s \<longleftrightarrow> s = ApApproved \<or> s = ApDenied \<or> s = ApRevoked \<or> s = ApExpired"

datatype (plugins only: code size) approval_decision_kind = DkApproved | DkDenied | DkRevoked

record approval_decision =
  ad_kind :: approval_decision_kind
  ad_decided_by :: participant_id
  ad_reason :: string
  ad_decided_at :: datetime

definition decision_approved :: "datetime \<Rightarrow> participant_id \<Rightarrow> string \<Rightarrow> approval_decision" where
  "decision_approved now p reason =
     \<lparr>ad_kind = DkApproved, ad_decided_by = p, ad_reason = reason, ad_decided_at = now\<rparr>"

definition decision_denied :: "datetime \<Rightarrow> participant_id \<Rightarrow> string \<Rightarrow> approval_decision" where
  "decision_denied now p reason =
     \<lparr>ad_kind = DkDenied, ad_decided_by = p, ad_reason = reason, ad_decided_at = now\<rparr>"

definition decision_revoked :: "datetime \<Rightarrow> string \<Rightarrow> approval_decision" where
  "decision_revoked now reason =
     \<lparr>ad_kind = DkRevoked, ad_decided_by = ParticipantId ''system'', ad_reason = reason, ad_decided_at = now\<rparr>"

record queued_approval =
  qa_approval_id :: string
  qa_action_id :: action_id
  qa_conversation_id :: conversation_id
  qa_requested_by :: participant_id
  qa_reason :: string
  qa_requested_at :: datetime
  qa_expires_at :: "datetime option"

record approval_record =
  ap_approval_id :: string
  ap_request :: queued_approval
  ap_status :: approval_status
  ap_decision :: "approval_decision option"
  ap_updated_at :: datetime

definition pending_record :: "datetime \<Rightarrow> queued_approval \<Rightarrow> approval_record" where
  "pending_record stamp q =
     \<lparr>ap_approval_id = qa_approval_id q, ap_request = q, ap_status = ApPending, ap_decision = None,
      ap_updated_at = stamp\<rparr>"

datatype (plugins only: code size) approval_queue_error =
    ApprovalNotFound string
  | ApprovalAlreadyExists string
  | ApprovalAlreadyDecided string
  | ApprovalHasExpired string

section \<open>The queue in memory\<close>

type_synonym approval_map = "(string, approval_record) hmap"

definition enqueue_approval ::
    "datetime \<Rightarrow> queued_approval \<Rightarrow> (approval_map, approval_queue_error, approval_record) prog" where
  "enqueue_approval stamp q m =
     (let r = pending_record stamp q in
      if m_contains m (ap_approval_id r) then (Inl (ApprovalAlreadyExists (ap_approval_id r)), m)
      else (Inr r, bt_put (ap_approval_id r) r m))"

definition approval_expired :: "datetime \<Rightarrow> approval_record \<Rightarrow> bool" where
  "approval_expired now r \<longleftrightarrow> (case qa_expires_at (ap_request r) of None \<Rightarrow> False | Some t \<Rightarrow> t \<le> now)"

definition decide ::
    "datetime \<Rightarrow> datetime \<Rightarrow> string \<Rightarrow> approval_status \<Rightarrow> approval_decision \<Rightarrow>
     (approval_map, approval_queue_error, approval_record) prog" where
  "decide now stamp i st d m =
     (case m_get m i of
        None \<Rightarrow> (Inl (ApprovalNotFound i), m)
      | Some r \<Rightarrow>
          if approval_status_is_terminal (ap_status r) then (Inl (ApprovalAlreadyDecided i), m)
          else if approval_expired now r
          then (Inl (ApprovalHasExpired i), bt_put i (r\<lparr>ap_status := ApExpired, ap_updated_at := stamp\<rparr>) m)
          else (let r' = r\<lparr>ap_status := st, ap_decision := Some d, ap_updated_at := stamp\<rparr>
                in (Inr r', bt_put i r' m)))"

definition expire_pending_records :: "(string \<Rightarrow> datetime) \<Rightarrow> (string \<Rightarrow> datetime) \<Rightarrow> approval_map \<Rightarrow> approval_map" where
  "expire_pending_records now stamp m =
     map (\<lambda>(i, r).
       (i, if ap_status r = ApPending \<and> approval_expired (now i) r
           then r\<lparr>ap_status := ApExpired, ap_updated_at := stamp i\<rparr> else r)) m"

definition pending_approvals ::
    "(string \<Rightarrow> datetime) \<Rightarrow> (string \<Rightarrow> datetime) \<Rightarrow> (approval_map, approval_queue_error, approval_record list) prog" where
  "pending_approvals now stamp m =
     (let m' = expire_pending_records now stamp m
      in (Inr (filter (\<lambda>r. ap_status r = ApPending) (m_values m')), m'))"

definition approve_approval ::
    "datetime \<Rightarrow> datetime \<Rightarrow> string \<Rightarrow> approval_decision \<Rightarrow> (approval_map, approval_queue_error, approval_record) prog" where
  "approve_approval now stamp i d = decide now stamp i ApApproved d"

definition deny_approval ::
    "datetime \<Rightarrow> datetime \<Rightarrow> string \<Rightarrow> approval_decision \<Rightarrow> (approval_map, approval_queue_error, approval_record) prog" where
  "deny_approval now stamp i d = decide now stamp i ApDenied d"

definition revoke_approval ::
    "datetime \<Rightarrow> datetime \<Rightarrow> datetime \<Rightarrow> string \<Rightarrow> string \<Rightarrow> (approval_map, approval_queue_error, approval_record) prog" where
  "revoke_approval decided now stamp i reason = decide now stamp i ApRevoked (decision_revoked decided reason)"

text \<open>The operations that change the queue, with their clock readings.\<close>

datatype (plugins only: code size) approval_op =
    Enqueue datetime queued_approval
  | ListPending "string \<Rightarrow> datetime" "string \<Rightarrow> datetime"
  | Approve datetime datetime string approval_decision
  | Deny datetime datetime string approval_decision
  | Revoke datetime datetime datetime string string

text \<open>A step gives the record that it would log; listing gives none.\<close>

fun approval_step :: "approval_op \<Rightarrow> (approval_map, approval_queue_error, approval_record option) prog" where
  "approval_step (Enqueue stamp q) = andThen (enqueue_approval stamp q) (\<lambda>r. ret (Some r))"
| "approval_step (ListPending now stamp) = andThen (pending_approvals now stamp) (\<lambda>_. ret None)"
| "approval_step (Approve now stamp i d) = andThen (approve_approval now stamp i d) (\<lambda>r. ret (Some r))"
| "approval_step (Deny now stamp i d) = andThen (deny_approval now stamp i d) (\<lambda>r. ret (Some r))"
| "approval_step (Revoke decided now stamp i reason) =
     andThen (revoke_approval decided now stamp i reason) (\<lambda>r. ret (Some r))"

section \<open>The queue over a log\<close>

definition open_approval_queue ::
    "approval_record line_codec \<Rightarrow> string option \<Rightarrow> log_error + (string, approval_record) durable" where
  "open_approval_queue C file =
     bind_result (open_log C ap_approval_id file) (\<lambda>m.
       Inr \<lparr>dur_records = m, dur_file = Some (case file of None \<Rightarrow> [] | Some bs \<Rightarrow> bs)\<rparr>)"

text \<open>The operation in memory; the record of a successful one is appended.\<close>

definition jsonl_approval_step ::
    "approval_record line_codec \<Rightarrow> approval_op \<Rightarrow>
     ((string, approval_record) durable, approval_queue_error, approval_record option) prog" where
  "jsonl_approval_step C op s =
     (case approval_step op (dur_records s) of
        (Inr (Some r), m) \<Rightarrow> (Inr (Some r), s\<lparr>dur_records := m, dur_file := append_record C r (dur_file s)\<rparr>)
      | (x, m) \<Rightarrow> (x, s\<lparr>dur_records := m\<rparr>))"

fun jsonl_approval_run ::
    "approval_record line_codec \<Rightarrow> approval_op list \<Rightarrow> (string, approval_record) durable \<Rightarrow>
     (string, approval_record) durable" where
  "jsonl_approval_run C [] s = s"
| "jsonl_approval_run C (op # ops) s = jsonl_approval_run C ops (snd (jsonl_approval_step C op s))"

section \<open>What the steps do to a record\<close>

lemma m_get_map_values: "m_get (map (\<lambda>(k, v). (k, f k v)) m) k = map_option (f k) (m_get m k)"
  by (induction m) (auto simp: m_get_def)

lemma keys_map_values: "map fst (map (\<lambda>(k, v). (k, f k v)) m) = map fst m"
  by (induction m) auto

lemma pending_get:
  "m_get (expire_pending_records now stamp m) i = map_option
     (\<lambda>r. if ap_status r = ApPending \<and> approval_expired (now i) r
           then r\<lparr>ap_status := ApExpired, ap_updated_at := stamp i\<rparr> else r) (m_get m i)"
  unfolding expire_pending_records_def by (rule m_get_map_values)

definition may_expire :: "approval_record \<Rightarrow> approval_record \<Rightarrow> bool" where
  "may_expire r r' \<longleftrightarrow> (\<exists>now t. ap_status r = ApPending \<and> approval_expired now r \<and>
     r' = r\<lparr>ap_status := ApExpired, ap_updated_at := t\<rparr>)"

text \<open>The decision that an operation takes on an approval, with the clock it compares.\<close>

fun takes :: "approval_op \<Rightarrow> (datetime \<times> datetime \<times> string \<times> approval_status \<times> approval_decision) option" where
  "takes (Approve now stamp i d) = Some (now, stamp, i, ApApproved, d)"
| "takes (Deny now stamp i d) = Some (now, stamp, i, ApDenied, d)"
| "takes (Revoke decided now stamp i reason) = Some (now, stamp, i, ApRevoked, decision_revoked decided reason)"
| "takes _ = None"

lemma takes_step:
  assumes "takes op = Some (now, stamp, i, st, d)"
  shows "approval_step op m = andThen (decide now stamp i st d) (\<lambda>r. ret (Some r)) m"
  using assms
  by (cases op) (auto simp: approve_approval_def deny_approval_def revoke_approval_def)

lemma not_terminal_pending: "\<not> approval_status_is_terminal s \<longleftrightarrow> s = ApPending"
  by (cases s) (auto simp: approval_status_is_terminal_def)

text \<open>An entry after a step: unchanged, expired while pending, or decided while pending and live.\<close>

lemma step_get:
  assumes "m_get m i = Some r"
  shows "\<exists>r'. m_get (snd (approval_step op m)) i = Some r' \<and>
    (r' = r \<or> may_expire r r' \<or>
     (\<exists>now stamp st d. takes op = Some (now, stamp, i, st, d) \<and> ap_status r = ApPending \<and>
        \<not> approval_expired now r \<and> r' = r\<lparr>ap_status := st, ap_decision := Some d, ap_updated_at := stamp\<rparr>))"
proof (cases "takes op")
  case None
  then show ?thesis
    using assms
    by (cases op) (auto simp: enqueue_approval_def pending_approvals_def pending_get may_expire_def andThen_def
        ret_def Let_def m_contains_def pending_record_def)
next
  case (Some t)
  obtain now stamp j st d where t: "takes op = Some (now, stamp, j, st, d)"
    using Some by (cases t) auto
  show ?thesis
    unfolding takes_step [OF t] using assms
    by (auto simp: decide_def andThen_def ret_def Let_def may_expire_def t not_terminal_pending split: option.splits)
qed

lemma step_new:
  assumes "m_get m i = None" and "m_get (snd (approval_step op m)) i = Some r"
  shows "\<exists>stamp q. op = Enqueue stamp q \<and> r = pending_record stamp q \<and> i = qa_approval_id q"
proof (cases "takes op")
  case None
  then show ?thesis
    using assms
    by (cases op) (auto simp: enqueue_approval_def pending_approvals_def pending_get andThen_def
        ret_def Let_def pending_record_def split: if_splits)
next
  case (Some t)
  obtain now stamp j st d where t: "takes op = Some (now, stamp, j, st, d)"
    using Some by (cases t) auto
  show ?thesis
    using assms unfolding takes_step [OF t]
    by (auto simp: decide_def andThen_def ret_def Let_def split: option.splits if_splits)
qed

fun approval_run :: "approval_op list \<Rightarrow> approval_map \<Rightarrow> approval_map" where
  "approval_run [] m = m"
| "approval_run (op # ops) m = approval_run ops (snd (approval_step op m))"

lemma approval_run_append: "approval_run (ops @ ops') m = approval_run ops' (approval_run ops m)"
  by (induction ops arbitrary: m) auto

text \<open>A record that is not pending is never touched again.\<close>

lemma settled_stays:
  assumes "m_get m i = Some r" and "ap_status r \<noteq> ApPending"
  shows "m_get (approval_run ops m) i = Some r"
  using assms(1)
proof (induction ops arbitrary: m)
  case (Cons op ops)
  then have "m_get (snd (approval_step op m)) i = Some r"
    using step_get [OF Cons.prems, of op] assms(2) by (auto simp: may_expire_def)
  with Cons.IH show ?case by simp
qed simp

text \<open>How the status of a record came about, from the operations that ran.\<close>

definition accounted :: "approval_op list \<Rightarrow> string \<Rightarrow> approval_record \<Rightarrow> bool" where
  "accounted ops i r \<longleftrightarrow>
     (\<exists>stamp. Enqueue stamp (ap_request r) \<in> set ops) \<and> qa_approval_id (ap_request r) = i \<and> ap_approval_id r = i \<and>
     (if ap_status r = ApPending \<or> ap_status r = ApExpired then ap_decision r = None
      else \<exists>op now stamp d. op \<in> set ops \<and> takes op = Some (now, stamp, i, ap_status r, d) \<and>
        \<not> approval_expired now r \<and> ap_decision r = Some d)"

lemma accounted_mono: "accounted ops i r \<Longrightarrow> set ops \<subseteq> set ops' \<Longrightarrow> accounted ops' i r"
  unfolding accounted_def by (auto split: if_splits)

lemma takes_status: "takes op = Some (now, stamp, i, st, d) \<Longrightarrow> st \<noteq> ApPending \<and> st \<noteq> ApExpired"
  by (cases op) auto

lemma runs_accounted: "m_get (approval_run ops []) i = Some r \<Longrightarrow> accounted ops i r"
proof (induction ops arbitrary: i r rule: rev_induct)
  case (snoc op ops)
  let ?m = "approval_run ops []"
  show ?case
  proof (cases "m_get ?m i")
    case None
    then show ?thesis
      using step_new [of ?m i op r] snoc.prems
      by (auto simp: approval_run_append accounted_def pending_record_def)
  next
    case (Some r0)
    have old: "accounted (ops @ [op]) i r0" using accounted_mono [OF snoc.IH [OF Some], of "ops @ [op]"] by auto
    consider "r = r0" | "may_expire r0 r"
      | now stamp st d where "takes op = Some (now, stamp, i, st, d)" "ap_status r0 = ApPending"
        "\<not> approval_expired now r0" "r = r0\<lparr>ap_status := st, ap_decision := Some d, ap_updated_at := stamp\<rparr>"
      using step_get [OF Some, of op] snoc.prems by (auto simp: approval_run_append)
    then show ?thesis
    proof cases
      case 1 with old show ?thesis by simp
    next
      case 2 with old show ?thesis by (auto simp: may_expire_def accounted_def)
    next
      case 3 with old takes_status [OF 3(1)] show ?thesis
        by (auto simp: accounted_def approval_expired_def)
    qed
  qed
qed simp

text \<open>
  C16. An approval is decided at most once and never against its terms: whatever the queue
  has been through, a record with a decision got it from an approve, deny or revoke of
  that very approval made before the request expired, the status saying which; and a
  record that is decided or expired is never changed again, every further decision on it
  being refused.
\<close>

theorem approvals_decided_once:
  assumes "m_get (approval_run ops []) i = Some r" and "ap_status r \<noteq> ApPending"
  shows "m_get (approval_run (ops @ ops') []) i = Some r \<and>
    (ap_status r = ApExpired \<or> (\<exists>op now stamp d. op \<in> set ops \<and>
      takes op = Some (now, stamp, i, ap_status r, d) \<and> \<not> approval_expired now r \<and> ap_decision r = Some d)) \<and>
    fst (decide now' stamp' i st d' (approval_run (ops @ ops') [])) = Inl (ApprovalAlreadyDecided i)"
proof -
  have stays: "m_get (approval_run (ops @ ops') []) i = Some r"
    using settled_stays [OF assms] by (simp add: approval_run_append)
  moreover have "approval_status_is_terminal (ap_status r)"
    using assms(2) not_terminal_pending by blast
  ultimately show ?thesis
    using runs_accounted [OF assms(1)] assms(2) by (auto simp: accounted_def decide_def split: if_splits)
qed

definition demo_approval :: queued_approval where
  "demo_approval = \<lparr>qa_approval_id = ''p'', qa_action_id = ActionId ''a'', qa_conversation_id = ConversationId ''c'',
     qa_requested_by = ParticipantId ''u'', qa_reason = ''r'', qa_requested_at = 0, qa_expires_at = Some 5\<rparr>"

abbreviation demo_decision :: approval_decision where
  "demo_decision \<equiv> decision_approved 2 (ParticipantId ''boss'') ''ok''"

definition approved_demo :: approval_record where
  "approved_demo = \<lparr>ap_approval_id = ''p'', ap_request = demo_approval, ap_status = ApApproved,
     ap_decision = Some demo_decision, ap_updated_at = 3\<rparr>"

lemmas approval_eval = enqueue_approval_def pending_record_def demo_approval_def approve_approval_def decide_def
  approval_status_is_terminal_def approval_expired_def andThen_def ret_def m_get_def m_contains_def approved_demo_def Let_def

lemma demo_approved:
  "approval_run [Enqueue 1 demo_approval, Approve 2 3 ''p'' demo_decision] [] = [(''p'', approved_demo)]"
  by (simp add: approval_eval)

theorem approvals_decided_once_witness:
  "m_get (approval_run ([Enqueue 1 demo_approval, Approve 2 3 ''p'' demo_decision] @
      [Revoke 4 4 4 ''p'' ''late'']) []) ''p'' = Some approved_demo"
proof -
  have "m_get (approval_run [Enqueue 1 demo_approval, Approve 2 3 ''p'' demo_decision] []) ''p'' = Some approved_demo"
    by (simp only: demo_approved) (simp add: m_get_def)
  moreover have "ap_status approved_demo \<noteq> ApPending" by (simp add: approved_demo_def)
  ultimately show ?thesis
    using approvals_decided_once [of "[Enqueue 1 demo_approval, Approve 2 3 ''p'' demo_decision]" "''p''"
        approved_demo "[Revoke 4 4 4 ''p'' ''late'']"]
    by blast
qed

section \<open>Restarts\<close>

text \<open>
  An expiry that the queue notices is not logged. What the file holds may lag behind the
  queue: a record that the queue holds as expired may be pending in the file, but its
  expiry is then not after any reading of the clock so far.
\<close>

definition lag :: "datetime \<Rightarrow> approval_record \<Rightarrow> approval_record \<Rightarrow> bool" where
  "lag T d r \<longleftrightarrow> d = r \<or> ap_status d = ApPending \<and> ap_status r = ApExpired \<and> approval_expired T d \<and>
     (\<exists>t. d = r\<lparr>ap_status := ApPending, ap_updated_at := t\<rparr>)"

definition lags :: "datetime \<Rightarrow> approval_map \<Rightarrow> approval_map \<Rightarrow> bool" where
  "lags T disk m \<longleftrightarrow> (\<forall>i. rel_option (lag T) (m_get disk i) (m_get m i))"

text \<open>The readings of an operation are bounded by T.\<close>

fun until :: "datetime \<Rightarrow> approval_op \<Rightarrow> bool" where
  "until T (Enqueue stamp q) \<longleftrightarrow> True"
| "until T (ListPending now stamp) \<longleftrightarrow> (\<forall>i. now i \<le> T)"
| "until T (Approve now stamp i d) \<longleftrightarrow> now \<le> T"
| "until T (Deny now stamp i d) \<longleftrightarrow> now \<le> T"
| "until T (Revoke decided now stamp i reason) \<longleftrightarrow> now \<le> T"

lemma approval_expired_mono: "approval_expired now r \<Longrightarrow> now \<le> T \<Longrightarrow> approval_expired T r"
  by (auto simp: approval_expired_def split: option.splits)

lemma lag_expired:
  assumes "lag T d r" and "ap_status r = ApPending" and "approval_expired T r"
  shows "lag T d (r\<lparr>ap_status := ApExpired, ap_updated_at := stamp\<rparr>)"
proof -
  have "d = r" using assms(1,2) by (auto simp: lag_def)
  moreover have "r = r\<lparr>ap_status := ApExpired, ap_updated_at := stamp,
      ap_status := ApPending, ap_updated_at := ap_updated_at r\<rparr>"
    using assms(2) by (cases r) simp
  ultimately have "\<exists>t. d = r\<lparr>ap_status := ApExpired, ap_updated_at := stamp, ap_status := ApPending, ap_updated_at := t\<rparr>"
    by blast
  then show ?thesis unfolding lag_def using assms(2,3) \<open>d = r\<close> by simp
qed

lemma lags_put_both: "lags T disk m \<Longrightarrow> lags T (bt_put i r disk) (bt_put i r m)"
  by (auto simp: lags_def lag_def)

lemma lags_put_expired:
  assumes "lags T disk m" and "m_get m i = Some r" and "ap_status r = ApPending" and "approval_expired T r"
  shows "lags T disk (bt_put i (r\<lparr>ap_status := ApExpired, ap_updated_at := stamp\<rparr>) m)"
proof -
  have "rel_option (lag T) (m_get disk i) (Some r)" using assms(1,2) unfolding lags_def by metis
  then obtain d where d: "m_get disk i = Some d" "lag T d r" by (cases "m_get disk i") auto
  then have "lag T d (r\<lparr>ap_status := ApExpired, ap_updated_at := stamp\<rparr>)"
    using assms(3,4) lag_expired by blast
  with d assms(1) show ?thesis by (auto simp: lags_def)
qed

lemma lags_expire_pending:
  assumes "lags T disk m" and "\<forall>i. now i \<le> T"
  shows "lags T disk (expire_pending_records now stamp m)"
  unfolding lags_def
proof
  fix i
  have "rel_option (lag T) (m_get disk i) (m_get m i)" using assms(1) by (simp add: lags_def)
  then show "rel_option (lag T) (m_get disk i) (m_get (expire_pending_records now stamp m) i)"
    using approval_expired_mono [of "now i" _ T] assms(2)
    by (cases rule: option.rel_cases) (auto simp: pending_get intro: lag_expired)
qed

lemma decide_lags:
  assumes "lags T disk m" and "now \<le> T" and "keyed ap_approval_id m" and "decide now stamp i st d m = (x, m')"
  shows "case x of Inr r \<Rightarrow> lags T (bt_put (ap_approval_id r) r disk) m' | Inl e \<Rightarrow> lags T disk m'"
proof (cases "m_get m i")
  case None
  with assms(1,4) show ?thesis by (auto simp: decide_def)
next
  case (Some r)
  have "ap_approval_id r = i" using assms(3) Some by (simp add: keyed_def)
  with Some assms lags_put_expired [OF assms(1) Some, of stamp] approval_expired_mono [OF _ assms(2), of r]
  show ?thesis
    by (auto simp: decide_def Let_def not_terminal_pending lags_put_both split: if_splits)
qed

lemma step_lags:
  assumes "lags T disk m" and "until T op" and "keyed ap_approval_id m" and "approval_step op m = (x, m')"
  shows "case x of Inr (Some r) \<Rightarrow> lags T (bt_put (ap_approval_id r) r disk) m' | _ \<Rightarrow> lags T disk m'"
proof (cases "takes op")
  case None
  then show ?thesis
    using assms
    by (cases op) (auto simp: enqueue_approval_def pending_approvals_def andThen_def ret_def Let_def
        lags_put_both lags_expire_pending split: if_splits)
next
  case (Some t)
  obtain now stamp j st d where t: "takes op = Some (now, stamp, j, st, d)"
    using Some by (cases t) auto
  have "now \<le> T" using assms(2) t by (cases op) auto
  then show ?thesis
    using decide_lags [OF assms(1) _ assms(3)] assms(4) unfolding takes_step [OF t]
    by (fastforce simp: andThen_def ret_def split: prod.splits sum.splits)
qed

lemma step_bt_inv: "bt_inv m \<Longrightarrow> bt_inv (snd (approval_step op m))"
proof (cases "takes op")
  case None
  assume m: "bt_inv m"
  have "bt_inv (expire_pending_records now stamp m)" for now stamp
    using m unfolding bt_inv_def expire_pending_records_def keys_map_values .
  with None m show ?thesis
    by (cases op) (auto simp: enqueue_approval_def pending_approvals_def andThen_def ret_def Let_def)
next
  case (Some t)
  obtain now stamp j st d where t: "takes op = Some (now, stamp, j, st, d)"
    using Some by (cases t) auto
  assume "bt_inv m"
  then show ?thesis
    unfolding takes_step [OF t] by (auto simp: decide_def andThen_def ret_def Let_def split: option.splits)
qed

lemma approval_step_keyed:
  assumes "keyed ap_approval_id m"
  shows "keyed ap_approval_id (snd (approval_step op m))"
  unfolding keyed_def
proof (intro conjI allI impI)
  show "bt_inv (snd (approval_step op m))" using assms step_bt_inv by (simp add: keyed_def)
  fix i r assume r: "m_get (snd (approval_step op m)) i = Some r"
  show "ap_approval_id r = i"
  proof (cases "m_get m i")
    case None
    from step_new [OF None r] show ?thesis by (auto simp: pending_record_def)
  next
    case (Some r0)
    then have "ap_approval_id r0 = i" using assms by (simp add: keyed_def)
    then show ?thesis using step_get [OF Some, of op] r by (auto simp: may_expire_def)
  qed
qed

text \<open>A queue and its file: the file can be opened and lags behind the queue.\<close>

definition follows ::
    "approval_record line_codec \<Rightarrow> datetime \<Rightarrow> (string, approval_record) durable \<Rightarrow> bool" where
  "follows C T s \<longleftrightarrow> keyed ap_approval_id (dur_records s) \<and>
     (\<exists>disk. in_sync C ap_approval_id (s\<lparr>dur_records := disk\<rparr>) \<and> lags T disk (dur_records s))"

lemma step_follows:
  assumes "follows C T s" and "until T op"
    and "\<And>r. fst (jsonl_approval_step C op s) = Inr (Some r) \<Longrightarrow> record_ok C r"
  shows "follows C T (snd (jsonl_approval_step C op s))"
proof -
  obtain disk where disk: "in_sync C ap_approval_id (s\<lparr>dur_records := disk\<rparr>)" "lags T disk (dur_records s)"
      and keyed: "keyed ap_approval_id (dur_records s)"
    using assms(1) by (auto simp: follows_def)
  obtain x m' where step: "approval_step op (dur_records s) = (x, m')" by (cases "approval_step op (dur_records s)")
  have m': "keyed ap_approval_id m'" using approval_step_keyed [OF keyed, of op] step by simp
  note lags = step_lags [OF disk(2) assms(2) keyed step]
  show ?thesis
  proof (cases "\<exists>r. x = Inr (Some r)")
    case True
    then obtain r where x: "x = Inr (Some r)" by blast
    then have "record_ok C r" using assms(3) step by (simp add: jsonl_approval_step_def)
    from in_sync_append [OF disk(1) this] have "in_sync C ap_approval_id
        (s\<lparr>dur_records := bt_put (ap_approval_id r) r disk, dur_file := append_record C r (dur_file s)\<rparr>)"
      by simp
    moreover have "lags T (bt_put (ap_approval_id r) r disk) m'" using lags x by simp
    ultimately show ?thesis
      using x step m' by (auto simp: jsonl_approval_step_def follows_def in_sync_def)
  next
    case False
    then have "lags T disk m'" using lags by (auto split: sum.splits option.splits)
    moreover have "snd (jsonl_approval_step C op s) = s\<lparr>dur_records := m'\<rparr>"
      using False step by (auto simp: jsonl_approval_step_def split: sum.splits option.splits)
    ultimately show ?thesis using disk m' by (auto simp: follows_def)
  qed
qed

text \<open>The records that a run appends.\<close>

fun logged_records ::
    "approval_record line_codec \<Rightarrow> approval_op list \<Rightarrow> (string, approval_record) durable \<Rightarrow> approval_record list" where
  "logged_records C [] s = []"
| "logged_records C (op # ops) s =
     (case jsonl_approval_step C op s of
        (Inr (Some r), s') \<Rightarrow> r # logged_records C ops s'
      | (_, s') \<Rightarrow> logged_records C ops s')"

lemma run_follows:
  assumes "follows C T s" and "\<forall>op \<in> set ops. until T op" and "\<forall>r \<in> set (logged_records C ops s). record_ok C r"
  shows "follows C T (jsonl_approval_run C ops s)"
  using assms
proof (induction ops arbitrary: s)
  case (Cons op ops)
  obtain x s' where step: "jsonl_approval_step C op s = (x, s')" by (cases "jsonl_approval_step C op s")
  have "follows C T s'"
    using step_follows [OF Cons.prems(1), of op] Cons.prems(2,3) step by (auto split: sum.splits option.splits)
  moreover have "\<forall>r \<in> set (logged_records C ops s'). record_ok C r"
    using Cons.prems(3) step by (auto split: sum.splits option.splits)
  ultimately show ?case using Cons.IH [of s'] Cons.prems(2) step by simp
qed simp

lemma bt_inv_keys_eqI:
  assumes "bt_inv m" and "bt_inv n" and "\<And>i. m_contains m i = m_contains n i"
  shows "m_keys m = m_keys n"
proof (rule strict_sorted_equal)
  show "set (m_keys m) = set (m_keys n)" using assms(3) by (auto simp: m_contains_iff)
qed (use assms(1,2) in \<open>simp_all add: bt_inv_def m_keys_def\<close>)

text \<open>A decision made at \<open>T\<close> or later does not see the lag.\<close>

lemma decide_unaffected:
  assumes "lags T disk m" and "T \<le> now"
  shows "is_ok (fst (decide now stamp i st d disk)) = is_ok (fst (decide now stamp i st d m))"
    and "fst (decide now stamp i st d m) = Inr r \<Longrightarrow> fst (decide now stamp i st d disk) = Inr r"
proof -
  have rel: "rel_option (lag T) (m_get disk i) (m_get m i)" using assms(1) by (simp add: lags_def)
  show "is_ok (fst (decide now stamp i st d disk)) = is_ok (fst (decide now stamp i st d m))"
    using rel approval_expired_mono [OF _ assms(2)]
    by (cases rule: option.rel_cases) (auto simp: decide_def lag_def approval_status_is_terminal_def Let_def)
  show "fst (decide now stamp i st d m) = Inr r \<Longrightarrow> fst (decide now stamp i st d disk) = Inr r"
    using rel by (cases rule: option.rel_cases)
      (auto simp: decide_def lag_def not_terminal_pending Let_def split: if_splits)
qed

text \<open>
  C17. Restarting the process neither loses nor changes an approval but for expiries that
  were not logged. After any operations on a queue opened from its file, with clock readings
  up to a time T, opening the file again succeeds and gives the same approvals, each as the
  running queue has it, except that one which the running queue holds as expired may be
  pending again, with its expiry not after T. From T on the reopened queue accepts exactly the
  decisions that the running queue would accept, with the same record as result. The JSON codec
  is to read back the records written.
\<close>

theorem approvals_survive_restart:
  assumes "open_approval_queue C f = Inr s" and "at_line_start f"
    and "\<forall>op \<in> set ops. until T op" and "\<forall>r \<in> set (logged_records C ops s). record_ok C r" and "T \<le> now"
  shows "\<exists>s'. open_approval_queue C (dur_file (jsonl_approval_run C ops s)) = Inr s' \<and>
    m_keys (dur_records s') = m_keys (dur_records (jsonl_approval_run C ops s)) \<and>
    (\<forall>j r. m_get (dur_records (jsonl_approval_run C ops s)) j = Some r \<longrightarrow>
       m_get (dur_records s') j = Some r \<or>
       ap_status r = ApExpired \<and>
       (\<exists>t. m_get (dur_records s') j = Some (r\<lparr>ap_status := ApPending, ap_updated_at := t\<rparr>)) \<and> approval_expired T r) \<and>
    is_ok (fst (decide now stamp i st d (dur_records s'))) =
      is_ok (fst (decide now stamp i st d (dur_records (jsonl_approval_run C ops s)))) \<and>
    (\<forall>r. fst (decide now stamp i st d (dur_records (jsonl_approval_run C ops s))) = Inr r \<longrightarrow>
      fst (decide now stamp i st d (dur_records s')) = Inr r)"
proof -
  have sync: "in_sync C ap_approval_id s"
    using assms(1,2)
    by (auto simp: open_approval_queue_def in_sync_def open_log_def read_log_def file_lines_def
        at_line_start_def bind_result_Inr_iff split: option.splits)
  have "lags T (dur_records s) (dur_records s)"
    by (simp add: lags_def lag_def option.rel_refl)
  with sync have "follows C T s"
    unfolding follows_def using in_sync_keyed [OF sync] by (intro conjI exI [of _ "dur_records s"]) simp_all
  then have follows: "follows C T (jsonl_approval_run C ops s)" using assms(3,4) by (rule run_follows)
  then obtain disk where disk: "in_sync C ap_approval_id (jsonl_approval_run C ops s\<lparr>dur_records := disk\<rparr>)"
      "lags T disk (dur_records (jsonl_approval_run C ops s))"
    by (auto simp: follows_def)
  then have "\<exists>f'. open_approval_queue C (dur_file (jsonl_approval_run C ops s)) =
      Inr \<lparr>dur_records = disk, dur_file = f'\<rparr>"
    by (auto simp: in_sync_def open_approval_queue_def)
  then obtain s' where s': "open_approval_queue C (dur_file (jsonl_approval_run C ops s)) = Inr s'"
      "dur_records s' = disk"
    by auto
  have "m_keys disk = m_keys (dur_records (jsonl_approval_run C ops s))"
  proof (rule bt_inv_keys_eqI)
    show "bt_inv disk" using in_sync_keyed [OF disk(1)] by (simp add: keyed_def)
    show "bt_inv (dur_records (jsonl_approval_run C ops s))"
      using follows by (simp add: follows_def keyed_def)
    fix i
    have "rel_option (lag T) (m_get disk i) (m_get (dur_records (jsonl_approval_run C ops s)) i)"
      using disk(2) by (simp add: lags_def)
    then show "m_contains disk i = m_contains (dur_records (jsonl_approval_run C ops s)) i"
      by (cases rule: option.rel_cases) (auto simp: m_contains_def)
  qed
  moreover have "m_get disk j = Some r \<or> ap_status r = ApExpired \<and>
      (\<exists>t. m_get disk j = Some (r\<lparr>ap_status := ApPending, ap_updated_at := t\<rparr>)) \<and> approval_expired T r"
    if "m_get (dur_records (jsonl_approval_run C ops s)) j = Some r" for j r
  proof -
    have "rel_option (lag T) (m_get disk j) (Some r)" using disk(2) that by (simp add: lags_def flip: that)
    then show ?thesis by (cases "m_get disk j") (auto simp: lag_def approval_expired_def)
  qed
  ultimately show ?thesis
    using s' decide_unaffected [OF disk(2) assms(5), of stamp i st d] by (intro exI [of _ s']) auto
qed

text \<open>A codec that writes the identifier of the approved request above, for the witness.\<close>

definition demo_approval_codec :: "approval_record line_codec" where
  "demo_approval_codec = \<lparr>enc_record = ap_approval_id, dec_record = (\<lambda>l. Inr (pending_record 1 demo_approval))\<rparr>"

theorem approvals_survive_restart_witness:
  "\<exists>s'. open_approval_queue demo_approval_codec (Some [CHR ''p'', CHR 0x0A]) = Inr s' \<and>
     m_keys (dur_records s') = [''p''] \<and> \<not> is_ok (fst (decide 9 9 ''p'' ApApproved demo_decision (dur_records s')))"
proof -
  let ?s = "\<lparr>dur_records = [], dur_file = Some []\<rparr> :: (string, approval_record) durable"
  let ?ops = "[Enqueue 1 demo_approval, Approve 6 6 ''p'' demo_decision]"
  let ?t = "\<lparr>dur_records = [(''p'', pending_record 1 demo_approval\<lparr>ap_status := ApExpired, ap_updated_at := 6\<rparr>)],
    dur_file = Some [CHR ''p'', CHR 0x0A]\<rparr> :: (string, approval_record) durable"
  have run: "jsonl_approval_run demo_approval_codec ?ops ?s = ?t"
      "logged_records demo_approval_codec ?ops ?s = [pending_record 1 demo_approval]"
    by (simp_all add: jsonl_approval_step_def approval_eval append_record_def demo_approval_codec_def)
  have opened: "open_approval_queue demo_approval_codec None = Inr ?s"
    by (simp add: open_approval_queue_def open_log_def read_log_def replay_records_def)
  have ok: "record_ok demo_approval_codec (pending_record 1 demo_approval)"
    by (simp add: record_ok_def demo_approval_codec_def pending_record_def demo_approval_def) code_simp
  have line: "at_line_start None" by (simp add: at_line_start_def)
  have until: "\<forall>op \<in> set ?ops. until 6 op" by simp
  have written: "\<forall>r \<in> set (logged_records demo_approval_codec ?ops ?s). record_ok demo_approval_codec r"
    unfolding run by (simp add: ok)
  have later: "6 \<le> (9 :: int)" by simp
  obtain s' where "open_approval_queue demo_approval_codec (dur_file ?t) = Inr s'"
      "m_keys (dur_records s') = m_keys (dur_records ?t)"
      "is_ok (fst (decide 9 9 ''p'' ApApproved demo_decision (dur_records s'))) =
        is_ok (fst (decide 9 9 ''p'' ApApproved demo_decision (dur_records ?t)))"
    using approvals_survive_restart [OF opened line until written later, of 9 "''p''" ApApproved demo_decision]
    unfolding run by blast
  moreover have "m_keys (dur_records ?t) = [''p'']"
      "\<not> is_ok (fst (decide 9 9 ''p'' ApApproved demo_decision (dur_records ?t)))"
    by (simp_all add: m_keys_def decide_def m_get_def approval_status_is_terminal_def)
  ultimately show ?thesis by auto
qed

end
