(* ===== verification/Permissions.thy ===== *)
theory Permissions
  imports Prelude
begin

text \<open>
  Enterprise permissions (\<open>enterprise-permission-core/src/lib.rs\<close>): the life cycle of a
  user, direct grants, grants inherited through organizations, teams and groups, and the
  cache of a server snapshot with its freshness policy. The provider of snapshots is a
  trait, hence a function here. Instants and durations are integers of nanoseconds.
\<close>

section \<open>Users and their life cycle\<close>

type_synonym instant = int

datatype (plugins only: code size) enterprise_user_id = EnterpriseUserId string

datatype (plugins only: code size) user_lifecycle = UserActive | UserSuspended | UserDisabled | UserOffboarded

definition lifecycle_is_active :: "user_lifecycle \<Rightarrow> bool" where
  "lifecycle_is_active l = (l = UserActive)"

record enterprise_user_status =
  us_user_id :: enterprise_user_id
  us_lifecycle :: user_lifecycle
  us_changed_at :: instant
  us_reason :: "string option"

definition user_status_active :: "enterprise_user_id \<Rightarrow> instant \<Rightarrow> enterprise_user_status" where
  "user_status_active u at =
     \<lparr>us_user_id = u, us_lifecycle = UserActive, us_changed_at = at, us_reason = None\<rparr>"

definition can_transition_to :: "enterprise_user_status \<Rightarrow> user_lifecycle \<Rightarrow> bool" where
  "can_transition_to s next = (us_lifecycle s \<noteq> UserOffboarded \<or> next = UserOffboarded)"

datatype (plugins only: code size) organization_id = OrganizationId string
datatype (plugins only: code size) team_id = TeamId string
datatype (plugins only: code size) group_id = GroupId string

datatype (plugins only: code size) offboarding_event_kind =
    UserRemoved | AccountDisabled | MembershipRevoked | AllMembershipsRevoked

record offboarding_event =
  ob_event_id :: string
  ob_user_id :: enterprise_user_id
  ob_organization_id :: organization_id
  ob_event_kind :: offboarding_event_kind
  ob_triggered_by :: enterprise_user_id
  ob_reason :: "string option"
  ob_occurred_at :: instant

type_synonym offboarding_store = "offboarding_event list"

definition record_offboarding :: "offboarding_event \<Rightarrow> offboarding_store \<Rightarrow> offboarding_store" where
  "record_offboarding e s = s @ [e]"

definition list_by_user :: "enterprise_user_id \<Rightarrow> offboarding_store \<Rightarrow> offboarding_event list" where
  "list_by_user u s = filter (\<lambda>e. ob_user_id e = u) s"

definition list_by_org :: "organization_id \<Rightarrow> offboarding_store \<Rightarrow> offboarding_event list" where
  "list_by_org g s = filter (\<lambda>e. ob_organization_id e = g) s"

section \<open>Grants\<close>

datatype (plugins only: code size) enterprise_role = RoleUser | RoleAdmin | RoleSuperAdmin

datatype (plugins only: code size) resource_type =
    ResConversation | ResAction | ResKnowledgeBase | ResFileArea | ResFile | ResAsset
  | ResSearchResult | ResAnswerCacheEvidence

datatype (plugins only: code size) resource_id = ResourceId string

datatype (plugins only: code size) permission_action = PermRead | PermWrite | PermDelete | PermAdmin

record permission_grant =
  gr_grant_id :: string
  gr_user_id :: enterprise_user_id
  gr_role :: enterprise_role
  gr_resource_type :: resource_type
  gr_resource_id :: resource_id
  gr_actions :: "permission_action list"
  gr_granted_at :: instant
  gr_expires_at :: "instant option"
  gr_revoked :: bool

definition grant_is_active :: "permission_grant \<Rightarrow> instant \<Rightarrow> bool" where
  "grant_is_active g now =
     (if gr_revoked g then False
      else (case gr_expires_at g of Some expires \<Rightarrow> now < expires | None \<Rightarrow> True))"

definition grant_allows :: "permission_grant \<Rightarrow> permission_action \<Rightarrow> bool" where
  "grant_allows g a = (a \<in> set (gr_actions g))"

datatype (plugins only: code size) permission_decision = Allow | Deny

definition decision_is_allowed :: "permission_decision \<Rightarrow> bool" where
  "decision_is_allowed d = (d = Allow)"

record asset_policy =
  ap_resource_type :: resource_type
  ap_resource_id :: resource_id
  ap_default_decision :: permission_decision
  ap_require_explicit_grant :: bool

definition deny_by_default :: "resource_type \<Rightarrow> resource_id \<Rightarrow> asset_policy" where
  "deny_by_default t i =
     \<lparr>ap_resource_type = t, ap_resource_id = i, ap_default_decision = Deny,
      ap_require_explicit_grant = True\<rparr>"

definition allow_by_default :: "resource_type \<Rightarrow> resource_id \<Rightarrow> asset_policy" where
  "allow_by_default t i =
     \<lparr>ap_resource_type = t, ap_resource_id = i, ap_default_decision = Allow,
      ap_require_explicit_grant = False\<rparr>"

text \<open>What is asked of a store: a resource, an action and the time of asking.\<close>

record permission_query =
  pq_resource_type :: resource_type
  pq_resource_id :: resource_id
  pq_action :: permission_action
  pq_now :: instant

record permission_store =
  ps_grants :: "permission_grant list"
  ps_user_lifecycles :: "(enterprise_user_id, enterprise_user_status) hmap"

definition permission_store_new :: permission_store where
  "permission_store_new = \<lparr>ps_grants = [], ps_user_lifecycles = []\<rparr>"

definition add_grant :: "permission_grant \<Rightarrow> permission_store \<Rightarrow> permission_store" where
  "add_grant g s = s\<lparr>ps_grants := ps_grants s @ [g]\<rparr>"

definition revoke :: "permission_grant \<Rightarrow> permission_grant" where
  "revoke g = g\<lparr>gr_revoked := True\<rparr>"

definition revoke_grant :: "string \<Rightarrow> permission_store \<Rightarrow> bool \<times> permission_store" where
  "revoke_grant i s =
     (case find (\<lambda>g. gr_grant_id g = i) (ps_grants s) of
        Some g \<Rightarrow> (True, s\<lparr>ps_grants := update_first (\<lambda>g. gr_grant_id g = i) revoke (ps_grants s)\<rparr>)
      | None \<Rightarrow> (False, s))"

definition revoke_all_grants_for_user ::
    "enterprise_user_id \<Rightarrow> permission_store \<Rightarrow> nat \<times> permission_store" where
  "revoke_all_grants_for_user u s =
     (let hit = (\<lambda>g. gr_user_id g = u \<and> \<not> gr_revoked g) in
      (length (filter hit (ps_grants s)),
       s\<lparr>ps_grants := map (\<lambda>g. if hit g then revoke g else g) (ps_grants s)\<rparr>))"

definition set_user_lifecycle ::
    "enterprise_user_status \<Rightarrow> permission_store \<Rightarrow> bool \<times> permission_store" where
  "set_user_lifecycle st s =
     (let refused = (case m_get (ps_user_lifecycles s) (us_user_id st) of
                       Some existing \<Rightarrow> \<not> can_transition_to existing (us_lifecycle st)
                     | None \<Rightarrow> False)
      in if refused then (False, s)
         else (True, s\<lparr>ps_user_lifecycles := hm_put (us_user_id st) st (ps_user_lifecycles s)\<rparr>))"

definition get_user_lifecycle :: "permission_store \<Rightarrow> enterprise_user_id \<Rightarrow> user_lifecycle" where
  "get_user_lifecycle s u =
     (case m_get (ps_user_lifecycles s) u of Some st \<Rightarrow> us_lifecycle st | None \<Rightarrow> UserActive)"

definition is_user_active :: "permission_store \<Rightarrow> enterprise_user_id \<Rightarrow> bool" where
  "is_user_active s u = lifecycle_is_active (get_user_lifecycle s u)"

definition grant_matches ::
    "enterprise_user_id \<Rightarrow> permission_query \<Rightarrow> permission_grant \<Rightarrow> bool" where
  "grant_matches u q g =
     (gr_user_id g = u \<and> gr_resource_type g = pq_resource_type q \<and>
      gr_resource_id g = pq_resource_id q \<and> grant_is_active g (pq_now q) \<and>
      grant_allows g (pq_action q))"

definition check :: "permission_store \<Rightarrow> enterprise_user_id \<Rightarrow> permission_query \<Rightarrow> permission_decision" where
  "check s u q =
     (if \<not> is_user_active s u then Deny
      else if filter (grant_matches u q) (ps_grants s) = [] then Deny else Allow)"

definition check_with_role ::
    "permission_store \<Rightarrow> enterprise_user_id \<Rightarrow> enterprise_role \<Rightarrow> permission_query \<Rightarrow> permission_decision" where
  "check_with_role s u role q =
     (if \<not> is_user_active s u then Deny
      else if role = RoleSuperAdmin then Allow
      else if role = RoleAdmin \<and> pq_action q = PermRead then Allow
      else check s u q)"

definition get_grants_for_user :: "permission_store \<Rightarrow> enterprise_user_id \<Rightarrow> permission_grant list" where
  "get_grants_for_user s u = filter (\<lambda>g. gr_user_id g = u) (ps_grants s)"

section \<open>Organizations, teams and groups\<close>

datatype (plugins only: code size) membership_type = MemOrganization | MemTeam | MemGroup

record membership =
  mb_membership_id :: string
  mb_user_id :: enterprise_user_id
  mb_membership_type :: membership_type
  mb_org_id :: "organization_id option"
  mb_team_id :: "team_id option"
  mb_group_id :: "group_id option"
  mb_role :: enterprise_role
  mb_joined_at :: instant
  mb_expires_at :: "instant option"

definition membership_is_active :: "membership \<Rightarrow> instant \<Rightarrow> bool" where
  "membership_is_active m now =
     (case mb_expires_at m of Some expires \<Rightarrow> now < expires | None \<Rightarrow> True)"

datatype (plugins only: code size) inheritance_source =
    SrcDirect | SrcOrganization organization_id | SrcTeam team_id | SrcGroup group_id

record inherited_grant =
  ig_grant :: permission_grant
  ig_inherited_from :: inheritance_source

record org_store =
  og_inner :: permission_store
  og_memberships :: "membership list"
  og_org_grants :: "(organization_id \<times> permission_grant) list"
  og_team_grants :: "(team_id \<times> permission_grant) list"
  og_group_grants :: "(group_id \<times> permission_grant) list"

definition org_store_new :: org_store where
  "org_store_new =
     \<lparr>og_inner = permission_store_new, og_memberships = [], og_org_grants = [],
      og_team_grants = [], og_group_grants = []\<rparr>"

definition add_membership :: "membership \<Rightarrow> org_store \<Rightarrow> org_store" where
  "add_membership m s = s\<lparr>og_memberships := og_memberships s @ [m]\<rparr>"

definition add_org_grant :: "organization_id \<Rightarrow> permission_grant \<Rightarrow> org_store \<Rightarrow> org_store" where
  "add_org_grant i g s = s\<lparr>og_org_grants := og_org_grants s @ [(i, g)]\<rparr>"

definition add_team_grant :: "team_id \<Rightarrow> permission_grant \<Rightarrow> org_store \<Rightarrow> org_store" where
  "add_team_grant i g s = s\<lparr>og_team_grants := og_team_grants s @ [(i, g)]\<rparr>"

definition add_group_grant :: "group_id \<Rightarrow> permission_grant \<Rightarrow> org_store \<Rightarrow> org_store" where
  "add_group_grant i g s = s\<lparr>og_group_grants := og_group_grants s @ [(i, g)]\<rparr>"

definition add_direct_grant :: "permission_grant \<Rightarrow> org_store \<Rightarrow> org_store" where
  "add_direct_grant g s = s\<lparr>og_inner := add_grant g (og_inner s)\<rparr>"

definition org_set_user_lifecycle :: "enterprise_user_status \<Rightarrow> org_store \<Rightarrow> bool \<times> org_store" where
  "org_set_user_lifecycle st s =
     (let (ok, inner) = set_user_lifecycle st (og_inner s) in (ok, s\<lparr>og_inner := inner\<rparr>))"

definition org_get_user_lifecycle :: "org_store \<Rightarrow> enterprise_user_id \<Rightarrow> user_lifecycle" where
  "org_get_user_lifecycle s u = get_user_lifecycle (og_inner s) u"

definition org_revoke_all_grants_for_user :: "enterprise_user_id \<Rightarrow> org_store \<Rightarrow> nat \<times> org_store" where
  "org_revoke_all_grants_for_user u s =
     (let (n, inner) = revoke_all_grants_for_user u (og_inner s) in (n, s\<lparr>og_inner := inner\<rparr>))"

definition remove_all_memberships_for_user :: "enterprise_user_id \<Rightarrow> org_store \<Rightarrow> nat \<times> org_store" where
  "remove_all_memberships_for_user u s =
     (let before = length (og_memberships s);
          kept = filter (\<lambda>m. mb_user_id m \<noteq> u) (og_memberships s)
      in (before - length kept, s\<lparr>og_memberships := kept\<rparr>))"

text \<open>
  The grants one kind of membership passes on: for every active membership of the user of
  that kind that names an owner, the active grants of that owner.
\<close>

definition inherited_from ::
    "membership_type \<Rightarrow> (membership \<Rightarrow> 'o option) \<Rightarrow> ('o \<Rightarrow> inheritance_source) \<Rightarrow>
     ('o \<times> permission_grant) list \<Rightarrow> membership list \<Rightarrow> enterprise_user_id \<Rightarrow> instant \<Rightarrow>
     inherited_grant list" where
  "inherited_from kind owner src grants ms u now =
     concat (map (\<lambda>m.
       if mb_user_id m = u \<and> mb_membership_type m = kind \<and> membership_is_active m now
       then (case owner m of
               None \<Rightarrow> []
             | Some i \<Rightarrow> map (\<lambda>(_, g). \<lparr>ig_grant = g, ig_inherited_from = src i\<rparr>)
                 (filter (\<lambda>(j, g). j = i \<and> grant_is_active g now) grants))
       else []) ms)"

definition get_inherited_grants ::
    "org_store \<Rightarrow> enterprise_user_id \<Rightarrow> instant \<Rightarrow> inherited_grant list" where
  "get_inherited_grants s u now =
     (if \<not> is_user_active (og_inner s) u then []
      else
        map (\<lambda>g. \<lparr>ig_grant = g, ig_inherited_from = SrcDirect\<rparr>)
          (filter (\<lambda>g. grant_is_active g now) (get_grants_for_user (og_inner s) u)) @
        inherited_from MemOrganization mb_org_id SrcOrganization (og_org_grants s) (og_memberships s) u now @
        inherited_from MemTeam mb_team_id SrcTeam (og_team_grants s) (og_memberships s) u now @
        inherited_from MemGroup mb_group_id SrcGroup (og_group_grants s) (og_memberships s) u now)"

definition inherited_allows :: "permission_query \<Rightarrow> inherited_grant \<Rightarrow> bool" where
  "inherited_allows q i =
     (gr_resource_type (ig_grant i) = pq_resource_type q \<and>
      gr_resource_id (ig_grant i) = pq_resource_id q \<and>
      grant_allows (ig_grant i) (pq_action q))"

definition check_with_inheritance ::
    "org_store \<Rightarrow> enterprise_user_id \<Rightarrow> permission_query \<Rightarrow> permission_decision" where
  "check_with_inheritance s u q =
     (if \<not> is_user_active (og_inner s) u then Deny
      else if list_ex (inherited_allows q) (get_inherited_grants s u (pq_now q)) then Allow
      else Deny)"

section \<open>The cached server store\<close>

record server_snapshot =
  sn_snapshot_id :: string
  sn_fetched_at :: instant
  sn_direct_grants :: "permission_grant list"
  sn_memberships :: "membership list"
  sn_org_grants :: "(organization_id \<times> permission_grant) list"
  sn_team_grants :: "(team_id \<times> permission_grant) list"
  sn_group_grants :: "(group_id \<times> permission_grant) list"

definition into_store :: "server_snapshot \<Rightarrow> org_store" where
  "into_store sn =
     fold (\<lambda>(i, g). add_group_grant i g) (sn_group_grants sn)
     (fold (\<lambda>(i, g). add_team_grant i g) (sn_team_grants sn)
     (fold (\<lambda>(i, g). add_org_grant i g) (sn_org_grants sn)
     (fold add_membership (sn_memberships sn)
     (fold add_direct_grant (sn_direct_grants sn) org_store_new))))"

datatype (plugins only: code size) cache_status = CacheFresh | CacheStale | CacheExpired

definition show_cache_status :: "cache_status \<Rightarrow> string" where
  "show_cache_status s =
     (case s of CacheFresh \<Rightarrow> ''fresh'' | CacheStale \<Rightarrow> ''stale'' | CacheExpired \<Rightarrow> ''expired'')"

record cache_policy =
  fresh_for :: int
  stale_for :: int

record cache_refresh_report =
  rr_status :: cache_status
  rr_snapshot_id :: "string option"
  rr_explanation :: string

record cached_decision =
  cd_decision :: permission_decision
  cd_cache_status :: cache_status
  cd_explanation :: string

datatype (plugins only: code size) provider_error = Unavailable string | InvalidSnapshot string

definition show_provider_error :: "provider_error \<Rightarrow> string" where
  "show_provider_error e =
     (case e of
        Unavailable s \<Rightarrow> ''provider unavailable: '' @ s
      | InvalidSnapshot s \<Rightarrow> ''provider returned invalid snapshot: '' @ s)"

text \<open>The in-memory provider of the crate; any other provider is a function of the same type.\<close>

record memory_provider =
  mp_snapshot :: server_snapshot
  mp_available :: bool

definition memory_fetch_snapshot ::
    "memory_provider \<Rightarrow> instant \<Rightarrow> provider_error + server_snapshot" where
  "memory_fetch_snapshot p now =
     (if mp_available p then Inr (mp_snapshot p) else Inl (Unavailable ''provider unavailable''))"

definition set_snapshot :: "server_snapshot \<Rightarrow> memory_provider \<Rightarrow> memory_provider" where
  "set_snapshot sn p = p\<lparr>mp_snapshot := sn\<rparr>"

definition set_available :: "bool \<Rightarrow> memory_provider \<Rightarrow> memory_provider" where
  "set_available b p = p\<lparr>mp_available := b\<rparr>"

record 'p server_store =
  sv_provider :: 'p
  sv_policy :: cache_policy
  sv_snapshot_id :: "string option"
  sv_fetched_at :: "instant option"
  sv_store :: "org_store option"
  sv_last_status :: cache_status
  sv_last_explanation :: string

definition server_store_new :: "'p \<Rightarrow> cache_policy \<Rightarrow> 'p server_store" where
  "server_store_new p pol =
     \<lparr>sv_provider = p, sv_policy = pol, sv_snapshot_id = None, sv_fetched_at = None,
      sv_store = None, sv_last_status = CacheExpired,
      sv_last_explanation = ''cache not populated''\<rparr>"

definition set_provider :: "'p \<Rightarrow> 'p server_store \<Rightarrow> 'p server_store" where
  "set_provider p s = s\<lparr>sv_provider := p\<rparr>"

definition cache_status_at :: "'p server_store \<Rightarrow> instant \<Rightarrow> cache_status" where
  "cache_status_at s now =
     (case sv_fetched_at s of
        None \<Rightarrow> CacheExpired
      | Some fetched \<Rightarrow>
          (let age = now - fetched in
           if age \<le> fresh_for (sv_policy s) then CacheFresh
           else if age \<le> fresh_for (sv_policy s) + stale_for (sv_policy s) then CacheStale
           else CacheExpired))"

definition server_set_user_lifecycle ::
    "enterprise_user_status \<Rightarrow> 'p server_store \<Rightarrow> bool \<times> 'p server_store" where
  "server_set_user_lifecycle st s =
     (let store = (case sv_store s of None \<Rightarrow> org_store_new | Some x \<Rightarrow> x);
          (ok, store') = org_set_user_lifecycle st store
      in (ok, s\<lparr>sv_store := Some store'\<rparr>))"

definition server_get_user_lifecycle :: "'p server_store \<Rightarrow> enterprise_user_id \<Rightarrow> user_lifecycle" where
  "server_get_user_lifecycle s u =
     (case sv_store s of Some x \<Rightarrow> org_get_user_lifecycle x u | None \<Rightarrow> UserActive)"

definition invalidate_user :: "enterprise_user_id \<Rightarrow> 'p server_store \<Rightarrow> bool \<times> 'p server_store" where
  "invalidate_user u s =
     (case sv_store s of
        None \<Rightarrow> (False, s)
      | Some store \<Rightarrow>
          (let (revoked, store1) = org_revoke_all_grants_for_user u store;
               (removed, store2) = remove_all_memberships_for_user u store1
           in (0 < revoked \<or> 0 < removed, s\<lparr>sv_store := Some store2\<rparr>)))"

definition refresh ::
    "('p \<Rightarrow> instant \<Rightarrow> provider_error + server_snapshot) \<Rightarrow> instant \<Rightarrow> 'p server_store \<Rightarrow>
     cache_refresh_report \<times> 'p server_store" where
  "refresh fetch now s =
     (case fetch (sv_provider s) now of
        Inr sn \<Rightarrow>
          (let s1 = s\<lparr>sv_store := Some (into_store sn), sv_snapshot_id := Some (sn_snapshot_id sn),
                       sv_fetched_at := Some (sn_fetched_at sn)\<rparr>;
               status = cache_status_at s1 now;
               text = ''permission snapshot '' @ sn_snapshot_id sn @ '' refreshed from provider''
           in (\<lparr>rr_status = status, rr_snapshot_id = Some (sn_snapshot_id sn), rr_explanation = text\<rparr>,
               s1\<lparr>sv_last_status := status, sv_last_explanation := text\<rparr>))
      | Inl e \<Rightarrow>
          (let status = cache_status_at s now;
               text = (if status = CacheExpired
                       then ''provider unavailable; permission cache expired: '' @ show_provider_error e
                       else ''provider unavailable; using '' @ show_cache_status status @
                            '' permission cache: '' @ show_provider_error e)
           in (\<lparr>rr_status = status, rr_snapshot_id = sv_snapshot_id s, rr_explanation = text\<rparr>,
               s\<lparr>sv_last_status := status, sv_last_explanation := text\<rparr>)))"

definition server_check ::
    "'p server_store \<Rightarrow> enterprise_user_id \<Rightarrow> permission_query \<Rightarrow> cached_decision" where
  "server_check s u q =
     (let status = cache_status_at s (pq_now q) in
      if status = CacheExpired
      then \<lparr>cd_decision = Deny, cd_cache_status = status,
            cd_explanation = ''permission cache expired; deny by default''\<rparr>
      else \<lparr>cd_decision = (case sv_store s of
                             Some store \<Rightarrow> check_with_inheritance store u q | None \<Rightarrow> Deny),
            cd_cache_status = status, cd_explanation = sv_last_explanation s\<rparr>)"

section \<open>Offboarding\<close>

text \<open>
  What every store of permissions promises about user life cycles: a user who is not
  active is denied everything, and no operation takes a user out of the offboarded state.
\<close>

locale lifecycle_store =
  fixes lifecycle :: "'s \<Rightarrow> enterprise_user_id \<Rightarrow> user_lifecycle"
    and decide :: "'s \<Rightarrow> enterprise_user_id \<Rightarrow> 'q \<Rightarrow> permission_decision"
    and step :: "'op \<Rightarrow> 's \<Rightarrow> 's"
  assumes inactive_denied: "lifecycle s u \<noteq> UserActive \<Longrightarrow> decide s u q = Deny"
    and offboarded_kept: "lifecycle s u = UserOffboarded \<Longrightarrow> lifecycle (step x s) u = UserOffboarded"
begin

lemma offboarded_stays:
  "lifecycle s u = UserOffboarded \<Longrightarrow> lifecycle (fold step ops s) u = UserOffboarded"
  by (induction ops arbitrary: s) (auto simp: offboarded_kept)

lemma offboarded_denied:
  "lifecycle s u = UserOffboarded \<Longrightarrow> decide (fold step ops s) u q = Deny"
  using offboarded_stays [of s u ops] by (intro inactive_denied) simp

end

datatype (plugins only: code size) store_op =
    OpAddGrant permission_grant
  | OpRevokeGrant string
  | OpRevokeAll enterprise_user_id
  | OpSetLifecycle enterprise_user_status

fun store_step :: "store_op \<Rightarrow> permission_store \<Rightarrow> permission_store" where
  "store_step (OpAddGrant g) s = add_grant g s"
| "store_step (OpRevokeGrant i) s = snd (revoke_grant i s)"
| "store_step (OpRevokeAll u) s = snd (revoke_all_grants_for_user u s)"
| "store_step (OpSetLifecycle st) s = snd (set_user_lifecycle st s)"

datatype (plugins only: code size) org_op =
    OpMembership membership
  | OpOrgGrant organization_id permission_grant
  | OpTeamGrant team_id permission_grant
  | OpGroupGrant group_id permission_grant
  | OpDirectGrant permission_grant
  | OpOrgLifecycle enterprise_user_status
  | OpOrgRevokeAll enterprise_user_id
  | OpRemoveMemberships enterprise_user_id

fun org_step :: "org_op \<Rightarrow> org_store \<Rightarrow> org_store" where
  "org_step (OpMembership m) s = add_membership m s"
| "org_step (OpOrgGrant i g) s = add_org_grant i g s"
| "org_step (OpTeamGrant i g) s = add_team_grant i g s"
| "org_step (OpGroupGrant i g) s = add_group_grant i g s"
| "org_step (OpDirectGrant g) s = add_direct_grant g s"
| "org_step (OpOrgLifecycle st) s = snd (org_set_user_lifecycle st s)"
| "org_step (OpOrgRevokeAll u) s = snd (org_revoke_all_grants_for_user u s)"
| "org_step (OpRemoveMemberships u) s = snd (remove_all_memberships_for_user u s)"

lemma set_user_lifecycle_keeps:
  "get_user_lifecycle s u = UserOffboarded \<Longrightarrow>
   get_user_lifecycle (snd (set_user_lifecycle st s)) u = UserOffboarded"
  by (auto simp: set_user_lifecycle_def get_user_lifecycle_def Let_def can_transition_to_def
      split: option.splits)

lemma lifecycle_other_ops [simp]:
  "get_user_lifecycle (add_grant g s) = get_user_lifecycle s"
  "get_user_lifecycle (snd (revoke_grant i s)) = get_user_lifecycle s"
  "get_user_lifecycle (snd (revoke_all_grants_for_user u s)) = get_user_lifecycle s"
  by (auto simp: fun_eq_iff get_user_lifecycle_def add_grant_def revoke_grant_def
      revoke_all_grants_for_user_def Let_def split: option.splits)

lemma is_user_active_iff: "is_user_active s u \<longleftrightarrow> get_user_lifecycle s u = UserActive"
  by (simp add: is_user_active_def lifecycle_is_active_def)

lemmas org_op_defs = add_membership_def add_org_grant_def add_team_grant_def add_group_grant_def
  add_direct_grant_def org_set_user_lifecycle_def org_get_user_lifecycle_def
  org_revoke_all_grants_for_user_def remove_all_memberships_for_user_def

interpretation direct: lifecycle_store get_user_lifecycle check store_step
proof
  fix s u x
  assume "get_user_lifecycle s u = UserOffboarded"
  then show "get_user_lifecycle (store_step x s) u = UserOffboarded"
    by (cases x) (simp_all add: set_user_lifecycle_keeps)
qed (simp add: check_def is_user_active_iff)

interpretation by_role: lifecycle_store get_user_lifecycle
    "\<lambda>s u (role, q). check_with_role s u role q" store_step
  by unfold_locales (auto simp: check_with_role_def is_user_active_iff direct.offboarded_kept)

interpretation org: lifecycle_store org_get_user_lifecycle check_with_inheritance org_step
proof
  fix s u x
  assume "org_get_user_lifecycle s u = UserOffboarded"
  then show "org_get_user_lifecycle (org_step x s) u = UserOffboarded"
    by (cases x) (simp_all add: org_op_defs set_user_lifecycle_keeps Let_def split: prod.splits,
      metis set_user_lifecycle_keeps snd_conv, metis lifecycle_other_ops(3) snd_conv)
qed (simp add: check_with_inheritance_def is_user_active_iff org_get_user_lifecycle_def)

section \<open>What a check decides\<close>

definition covers :: "permission_query \<Rightarrow> permission_grant \<Rightarrow> bool" where
  "covers q g =
     (gr_resource_type g = pq_resource_type q \<and> gr_resource_id g = pq_resource_id q \<and>
      grant_is_active g (pq_now q) \<and> pq_action q \<in> set (gr_actions g))"

text \<open>The grants that reach a user, directly or through an active membership.\<close>

definition reaches_user :: "org_store \<Rightarrow> enterprise_user_id \<Rightarrow> instant \<Rightarrow> permission_grant \<Rightarrow> bool" where
  "reaches_user s u now g =
     (g \<in> set (ps_grants (og_inner s)) \<and> gr_user_id g = u \<or>
      (\<exists>m \<in> set (og_memberships s). mb_user_id m = u \<and> membership_is_active m now \<and>
         (mb_membership_type m = MemOrganization \<and> (\<exists>i. mb_org_id m = Some i \<and> (i, g) \<in> set (og_org_grants s)) \<or>
          mb_membership_type m = MemTeam \<and> (\<exists>i. mb_team_id m = Some i \<and> (i, g) \<in> set (og_team_grants s)) \<or>
          mb_membership_type m = MemGroup \<and> (\<exists>i. mb_group_id m = Some i \<and> (i, g) \<in> set (og_group_grants s)))))"

lemma bex_filter: "(\<exists>x \<in> set (filter P xs). Q x) \<longleftrightarrow> (\<exists>x \<in> set xs. P x \<and> Q x)"
  by (induction xs) auto

lemma bex_map: "(\<exists>x \<in> set (map f xs). Q x) \<longleftrightarrow> (\<exists>x \<in> set xs. Q (f x))"
  by simp

lemma inherited_single:
  "(\<exists>x \<in> set (inherited_from kind owner src grants [m] u now). P (ig_grant x)) \<longleftrightarrow>
   mb_user_id m = u \<and> mb_membership_type m = kind \<and> membership_is_active m now \<and>
   (\<exists>i. owner m = Some i \<and> (\<exists>g. (i, g) \<in> set grants \<and> grant_is_active g now \<and> P g))"
proof (cases "mb_user_id m = u \<and> mb_membership_type m = kind \<and> membership_is_active m now")
  case True
  then have single: "inherited_from kind owner src grants [m] u now =
      (case owner m of
         None \<Rightarrow> []
       | Some i \<Rightarrow> map (\<lambda>(_, g). \<lparr>ig_grant = g, ig_inherited_from = src i\<rparr>)
           (filter (\<lambda>(j, g). j = i \<and> grant_is_active g now) grants))"
    by (simp add: inherited_from_def split: option.split)
  show ?thesis
    using True unfolding single by (cases "owner m") (auto simp only: bex_map bex_filter option.case
      list.set simp_thms option.inject split_beta prod.sel inherited_grant.simps intro: bexI [rotated])
next
  case False
  then have "inherited_from kind owner src grants [m] u now = []"
    by (simp only: inherited_from_def list.map concat.simps if_not_P if_False append_Nil)
  with False show ?thesis by auto
qed

lemma inherited_from_iff:
  "(\<exists>x \<in> set (inherited_from kind owner src grants ms u now). P (ig_grant x)) \<longleftrightarrow>
   (\<exists>g. P g \<and> grant_is_active g now \<and>
     (\<exists>m \<in> set ms. mb_user_id m = u \<and> membership_is_active m now \<and> mb_membership_type m = kind \<and>
        (\<exists>i. owner m = Some i \<and> (i, g) \<in> set grants)))"
proof (induction ms)
  case Nil
  then show ?case by (simp add: inherited_from_def)
next
  case (Cons m ms)
  have step: "inherited_from kind owner src grants (m # ms) u now =
      inherited_from kind owner src grants [m] u now @ inherited_from kind owner src grants ms u now"
    by (simp add: inherited_from_def)
  show ?case
    unfolding step set_append bex_Un Cons.IH inherited_single list.set by blast
qed

lemma inherited_grants_iff:
  "(\<exists>x \<in> set (get_inherited_grants s u now). P (ig_grant x)) \<longleftrightarrow>
   is_user_active (og_inner s) u \<and> (\<exists>g. P g \<and> grant_is_active g now \<and> reaches_user s u now g)"
proof (cases "is_user_active (og_inner s) u")
  case True
  have direct: "(\<exists>x \<in> set (map (\<lambda>g. \<lparr>ig_grant = g, ig_inherited_from = SrcDirect\<rparr>)
       (filter (\<lambda>g. grant_is_active g now) (get_grants_for_user (og_inner s) u))). P (ig_grant x)) \<longleftrightarrow>
     (\<exists>g. P g \<and> grant_is_active g now \<and> g \<in> set (ps_grants (og_inner s)) \<and> gr_user_id g = u)"
    by (auto simp: get_grants_for_user_def)
  have "get_inherited_grants s u now =
      map (\<lambda>g. \<lparr>ig_grant = g, ig_inherited_from = SrcDirect\<rparr>)
        (filter (\<lambda>g. grant_is_active g now) (get_grants_for_user (og_inner s) u)) @
      inherited_from MemOrganization mb_org_id SrcOrganization (og_org_grants s) (og_memberships s) u now @
      inherited_from MemTeam mb_team_id SrcTeam (og_team_grants s) (og_memberships s) u now @
      inherited_from MemGroup mb_group_id SrcGroup (og_group_grants s) (og_memberships s) u now"
    using True by (simp add: get_inherited_grants_def)
  then show ?thesis
    using True unfolding reaches_user_def
    by (simp only: set_append bex_Un direct inherited_from_iff) blast
qed (simp add: get_inherited_grants_def)

lemma check_with_inheritance_spec:
  "check_with_inheritance s u q = Allow \<longleftrightarrow>
     org_get_user_lifecycle s u = UserActive \<and> (\<exists>g. covers q g \<and> reaches_user s u (pq_now q) g)"
proof -
  let ?P = "\<lambda>g. gr_resource_type g = pq_resource_type q \<and> gr_resource_id g = pq_resource_id q \<and>
            pq_action q \<in> set (gr_actions g)"
  have "list_ex (inherited_allows q) (get_inherited_grants s u (pq_now q)) \<longleftrightarrow>
      (\<exists>x \<in> set (get_inherited_grants s u (pq_now q)). ?P (ig_grant x))"
    by (simp add: list_ex_iff inherited_allows_def grant_allows_def)
  also have "\<dots> \<longleftrightarrow> is_user_active (og_inner s) u \<and>
      (\<exists>g. ?P g \<and> grant_is_active g (pq_now q) \<and> reaches_user s u (pq_now q) g)"
    by (rule inherited_grants_iff)
  finally have "list_ex (inherited_allows q) (get_inherited_grants s u (pq_now q)) \<longleftrightarrow>
      is_user_active (og_inner s) u \<and> (\<exists>g. covers q g \<and> reaches_user s u (pq_now q) g)"
    unfolding covers_def by blast
  then show ?thesis
    by (simp add: check_with_inheritance_def is_user_active_iff org_get_user_lifecycle_def)
qed

text \<open>
  The decision with inheritance: a query is allowed exactly when the user is active
  and some grant in force at the time of asking covers the resource and the action and
  reaches the user directly or through an unexpired membership of the organization, team
  or group it was given to.
\<close>

lemma check_with_inheritance_iff:
  "check_with_inheritance s u q = Allow \<longleftrightarrow>
     org_get_user_lifecycle s u = UserActive \<and> (\<exists>g. covers q g \<and> reaches_user s u (pq_now q) g)"
  by (rule check_with_inheritance_spec)

lemma check_with_inheritance_iff_witness:
  "check_with_inheritance
     (add_team_grant (TeamId ''t'')
        \<lparr>gr_grant_id = ''g'', gr_user_id = EnterpriseUserId ''owner'', gr_role = RoleUser,
         gr_resource_type = ResFile, gr_resource_id = ResourceId ''f'', gr_actions = [PermRead],
         gr_granted_at = 0, gr_expires_at = Some 10, gr_revoked = False\<rparr>
       (add_membership
        \<lparr>mb_membership_id = ''m'', mb_user_id = EnterpriseUserId ''u'', mb_membership_type = MemTeam,
         mb_org_id = None, mb_team_id = Some (TeamId ''t''), mb_group_id = None, mb_role = RoleUser,
         mb_joined_at = 0, mb_expires_at = None\<rparr> org_store_new))
     (EnterpriseUserId ''u'')
     \<lparr>pq_resource_type = ResFile, pq_resource_id = ResourceId ''f'', pq_action = PermRead, pq_now = 9\<rparr> = Allow"
  unfolding check_with_inheritance_iff
  by (auto simp: reaches_user_def covers_def grant_is_active_def membership_is_active_def org_op_defs
      org_store_new_def permission_store_new_def get_user_lifecycle_def)

section \<open>Properties of the stores\<close>

text \<open>
  C9. Offboarding is final: once a user of an organizational store is offboarded, no
  sequence of its operations, new grants, memberships and life-cycle changes included,
  gives the user any permission again.
\<close>

theorem offboarded_user_denied:
  assumes "org_get_user_lifecycle s u = UserOffboarded"
  shows "check_with_inheritance (fold org_step ops s) u q = Deny"
  by (rule org.offboarded_denied [OF assms])

definition offboarded_store :: org_store where
  "offboarded_store = snd (org_set_user_lifecycle
     \<lparr>us_user_id = EnterpriseUserId ''u'', us_lifecycle = UserOffboarded, us_changed_at = 0,
      us_reason = None\<rparr> org_store_new)"

definition file_grant :: "string \<Rightarrow> permission_grant" where
  "file_grant u =
     \<lparr>gr_grant_id = ''g'', gr_user_id = EnterpriseUserId u, gr_role = RoleUser,
      gr_resource_type = ResFile, gr_resource_id = ResourceId ''f'', gr_actions = [PermRead],
      gr_granted_at = 0, gr_expires_at = Some 10, gr_revoked = False\<rparr>"

definition file_query :: "instant \<Rightarrow> permission_query" where
  "file_query now =
     \<lparr>pq_resource_type = ResFile, pq_resource_id = ResourceId ''f'', pq_action = PermRead,
      pq_now = now\<rparr>"

theorem offboarded_user_denied_witness:
  "check_with_inheritance
     (fold org_step
        [OpDirectGrant (file_grant ''u''),
         OpOrgLifecycle (user_status_active (EnterpriseUserId ''u'') 1)] offboarded_store)
     (EnterpriseUserId ''u'') (file_query 5) = Deny"
  by (rule offboarded_user_denied) code_simp

definition invalidated :: "enterprise_user_id \<Rightarrow> org_store \<Rightarrow> org_store" where
  "invalidated u s = snd (remove_all_memberships_for_user u (snd (org_revoke_all_grants_for_user u s)))"

definition revoked_for :: "enterprise_user_id \<Rightarrow> permission_grant \<Rightarrow> permission_grant" where
  "revoked_for u g = (if gr_user_id g = u \<and> \<not> gr_revoked g then revoke g else g)"

lemma revoked_for_simps [simp]:
  "gr_user_id (revoked_for u g) = gr_user_id g"
  "gr_user_id g = u \<Longrightarrow> gr_revoked (revoked_for u g)"
  "gr_user_id g \<noteq> u \<Longrightarrow> revoked_for u g = g"
  by (simp_all add: revoked_for_def revoke_def)

lemma invalidated_simps [simp]:
  "ps_grants (og_inner (invalidated u s)) = map (revoked_for u) (ps_grants (og_inner s))"
  "ps_user_lifecycles (og_inner (invalidated u s)) = ps_user_lifecycles (og_inner s)"
  "og_memberships (invalidated u s) = filter (\<lambda>m. mb_user_id m \<noteq> u) (og_memberships s)"
  "og_org_grants (invalidated u s) = og_org_grants s"
  "og_team_grants (invalidated u s) = og_team_grants s"
  "og_group_grants (invalidated u s) = og_group_grants s"
  by (simp_all add: invalidated_def org_op_defs revoke_all_grants_for_user_def revoked_for_def Let_def)

lemma reaches_after_invalidation:
  assumes "v \<noteq> u"
  shows "reaches_user (invalidated u s) v now g \<longleftrightarrow> reaches_user s v now g"
proof -
  have direct: "g \<in> set (map (revoked_for u) gs) \<and> gr_user_id g = v \<longleftrightarrow> g \<in> set gs \<and> gr_user_id g = v"
    for gs using assms by (induction gs) auto
  have member: "m \<in> set (filter (\<lambda>m. mb_user_id m \<noteq> u) ms) \<and> mb_user_id m = v \<longleftrightarrow>
      m \<in> set ms \<and> mb_user_id m = v" for m ms
    using assms by auto
  show ?thesis
    by (simp only: reaches_user_def Bex_def conj_assoc [symmetric] invalidated_simps direct member)
qed

lemma nothing_reaches_invalidated: "\<not> (covers q g \<and> reaches_user (invalidated u s) u now g)"
proof
  assume a: "covers q g \<and> reaches_user (invalidated u s) u now g"
  have "m \<in> set (og_memberships (invalidated u s)) \<Longrightarrow> mb_user_id m \<noteq> u" for m by simp
  with a have g: "g \<in> set (map (revoked_for u) (ps_grants (og_inner s)))" "gr_user_id g = u"
    unfolding reaches_user_def invalidated_simps by blast+
  then obtain h where h: "g = revoked_for u h" unfolding set_map by blast
  then have "gr_user_id h = u" using g(2) by (simp only: revoked_for_simps(1))
  with h have "gr_revoked g" by (simp only: revoked_for_simps(2))
  with a show False by (simp add: covers_def grant_is_active_def)
qed

lemma invalidated_lifecycle: "org_get_user_lifecycle (invalidated u s) v = org_get_user_lifecycle s v"
  by (simp add: org_get_user_lifecycle_def get_user_lifecycle_def)

lemma check_invalidated:
  "check_with_inheritance (invalidated u s) v q =
     (if v = u then Deny else check_with_inheritance s v q)"
proof (cases "v = u")
  case True
  have "check_with_inheritance (invalidated u s) u q \<noteq> Allow"
    unfolding check_with_inheritance_spec using nothing_reaches_invalidated [of q] by blast
  with True show ?thesis by (cases "check_with_inheritance (invalidated u s) u q") simp_all
next
  case False
  then have "check_with_inheritance (invalidated u s) v q = Allow \<longleftrightarrow> check_with_inheritance s v q = Allow"
    unfolding check_with_inheritance_spec invalidated_lifecycle
    by (simp only: reaches_after_invalidation [OF False])
  with False show ?thesis
    by (cases "check_with_inheritance (invalidated u s) v q"; cases "check_with_inheritance s v q") simp_all
qed

lemma cache_status_update [simp]:
  "cache_status_at (s\<lparr>sv_store := x\<rparr>) now = cache_status_at s now"
  "cache_status_at (s\<lparr>sv_last_status := y\<rparr>) now = cache_status_at s now"
  "cache_status_at (s\<lparr>sv_last_explanation := z\<rparr>) now = cache_status_at s now"
  by (simp_all add: cache_status_at_def Let_def split: option.split)

text \<open>
  Invalidating a user in the cached store takes away everything the user holds in the
  cache, and nothing of anybody else: afterwards every query of the user is denied, while
  the answers for all other users are what they were.
\<close>

lemma invalidate_user_correct:
  "cd_decision (server_check (snd (invalidate_user u s)) v q) =
     (if v = u then Deny else cd_decision (server_check s v q))"
proof (cases "sv_store s")
  case None
  then show ?thesis by (simp add: invalidate_user_def server_check_def Let_def)
next
  case (Some store)
  then have "snd (invalidate_user u s) = s\<lparr>sv_store := Some (invalidated u store)\<rparr>"
    by (simp add: invalidate_user_def invalidated_def split_beta Let_def)
  with Some show ?thesis by (simp add: server_check_def check_invalidated Let_def)
qed

lemma invalidate_user_correct_witness:
  "cd_decision (server_check (snd (invalidate_user (EnterpriseUserId ''u'')
     (server_store_new () \<lparr>fresh_for = 5, stale_for = 5\<rparr>))) (EnterpriseUserId ''u'') (file_query 5)) = Deny"
  by (simp add: invalidate_user_correct)

text \<open>
  The cache fails closed and an outage changes nothing. A query is allowed only from a
  snapshot that was fetched and whose age at the time of asking is within the fresh and
  stale windows together, and only if the cached store allows it; and a refresh that
  fails leaves the answer to every query and the cached snapshot as they were.
\<close>

lemma cache_fails_closed:
  "(cd_decision (server_check s u q) = Allow \<longleftrightarrow>
      (\<exists>fetched store. sv_fetched_at s = Some fetched \<and> sv_store s = Some store \<and>
         (pq_now q - fetched \<le> fresh_for (sv_policy s) \<or>
          pq_now q - fetched \<le> fresh_for (sv_policy s) + stale_for (sv_policy s)) \<and>
         check_with_inheritance store u q = Allow)) \<and>
   (\<forall>e. fetch (sv_provider s) now = Inl e \<longrightarrow>
      cd_decision (server_check (snd (refresh fetch now s)) u q) = cd_decision (server_check s u q) \<and>
      cd_cache_status (server_check (snd (refresh fetch now s)) u q) = cd_cache_status (server_check s u q) \<and>
      sv_snapshot_id (snd (refresh fetch now s)) = sv_snapshot_id s \<and>
      rr_status (fst (refresh fetch now s)) = cache_status_at s now)"
proof
  show "cd_decision (server_check s u q) = Allow \<longleftrightarrow>
      (\<exists>fetched store. sv_fetched_at s = Some fetched \<and> sv_store s = Some store \<and>
         (pq_now q - fetched \<le> fresh_for (sv_policy s) \<or>
          pq_now q - fetched \<le> fresh_for (sv_policy s) + stale_for (sv_policy s)) \<and>
         check_with_inheritance store u q = Allow)"
    by (cases "sv_fetched_at s"; cases "sv_store s")
       (auto simp: server_check_def cache_status_at_def Let_def)
  show "\<forall>e. fetch (sv_provider s) now = Inl e \<longrightarrow>
      cd_decision (server_check (snd (refresh fetch now s)) u q) = cd_decision (server_check s u q) \<and>
      cd_cache_status (server_check (snd (refresh fetch now s)) u q) = cd_cache_status (server_check s u q) \<and>
      sv_snapshot_id (snd (refresh fetch now s)) = sv_snapshot_id s \<and>
      rr_status (fst (refresh fetch now s)) = cache_status_at s now"
    by (auto simp: refresh_def server_check_def Let_def)
qed

lemma cache_fails_closed_witness:
  "cd_decision (server_check (snd (refresh (\<lambda>_ _. Inl (Unavailable ''down'')) 3
     (server_store_new () \<lparr>fresh_for = 5, stale_for = 5\<rparr>))) (EnterpriseUserId ''u'') (file_query 4)) = Deny"
proof -
  let ?s = "server_store_new () \<lparr>fresh_for = 5, stale_for = 5\<rparr>"
    and ?fetch = "\<lambda>(_::unit) (_::int). Inl (Unavailable ''down'') :: provider_error + server_snapshot"
  have "cd_decision (server_check (snd (refresh ?fetch 3 ?s)) (EnterpriseUserId ''u'') (file_query 4)) =
      cd_decision (server_check ?s (EnterpriseUserId ''u'') (file_query 4))"
    using cache_fails_closed [where s = ?s and fetch = ?fetch and now = 3 and
        u = "EnterpriseUserId ''u''" and q = "file_query 4"] by blast
  then show ?thesis by (simp add: server_check_def server_store_new_def cache_status_at_def)
qed

section \<open>Refreshing\<close>

lemma into_store_eq:
  "into_store sn =
     \<lparr>og_inner = \<lparr>ps_grants = sn_direct_grants sn, ps_user_lifecycles = []\<rparr>,
      og_memberships = sn_memberships sn, og_org_grants = sn_org_grants sn,
      og_team_grants = sn_team_grants sn, og_group_grants = sn_group_grants sn\<rparr>"
proof -
  have a: "fold add_direct_grant gs s = s\<lparr>og_inner := (og_inner s)\<lparr>ps_grants := ps_grants (og_inner s) @ gs\<rparr>\<rparr>"
    for gs s by (induction gs arbitrary: s) (simp_all add: add_direct_grant_def add_grant_def)
  have b: "fold add_membership ms s = s\<lparr>og_memberships := og_memberships s @ ms\<rparr>" for ms s
    by (induction ms arbitrary: s) (simp_all add: add_membership_def)
  have c: "fold (\<lambda>(i, g). add_org_grant i g) gs s = s\<lparr>og_org_grants := og_org_grants s @ gs\<rparr>" for gs s
    by (induction gs arbitrary: s) (simp_all add: add_org_grant_def split_beta)
  have d: "fold (\<lambda>(i, g). add_team_grant i g) gs s = s\<lparr>og_team_grants := og_team_grants s @ gs\<rparr>" for gs s
    by (induction gs arbitrary: s) (simp_all add: add_team_grant_def split_beta)
  have e: "fold (\<lambda>(i, g). add_group_grant i g) gs s = s\<lparr>og_group_grants := og_group_grants s @ gs\<rparr>" for gs s
    by (induction gs arbitrary: s) (simp_all add: add_group_grant_def split_beta)
  show ?thesis
    unfolding into_store_def a b c d e by (simp add: org_store_new_def permission_store_new_def)
qed

text \<open>
  A successful refresh forgets offboarding: the snapshot carries no life cycles, so
  after it every user counts as active, an offboarded one too, and a grant of the
  snapshot that covers a query is honoured as long as the snapshot is not expired.
\<close>

lemma refresh_forgets_offboarding:
  assumes "fetch (sv_provider s) now = Inr sn"
    and "g \<in> set (sn_direct_grants sn)" and "gr_user_id g = u" and "covers q g"
    and "pq_now q - sn_fetched_at sn \<le> fresh_for (sv_policy s)"
  shows "server_get_user_lifecycle (snd (refresh fetch now s)) u = UserActive \<and>
    cd_decision (server_check (snd (refresh fetch now s)) u q) = Allow"
proof -
  let ?store = "into_store sn"
  have "check_with_inheritance ?store u q = Allow"
    unfolding check_with_inheritance_spec using assms(2-4)
    by (auto simp: into_store_eq reaches_user_def org_get_user_lifecycle_def get_user_lifecycle_def)
  then show ?thesis
    using assms(1,5)
    by (simp add: refresh_def Let_def server_get_user_lifecycle_def server_check_def
        cache_status_at_def into_store_eq org_get_user_lifecycle_def get_user_lifecycle_def)
qed

definition demo_snapshot :: server_snapshot where
  "demo_snapshot =
     \<lparr>sn_snapshot_id = ''s1'', sn_fetched_at = 3, sn_direct_grants = [file_grant ''u''],
      sn_memberships = [], sn_org_grants = [], sn_team_grants = [], sn_group_grants = []\<rparr>"

definition offboarded_server :: "memory_provider server_store" where
  "offboarded_server =
     snd (server_set_user_lifecycle
       \<lparr>us_user_id = EnterpriseUserId ''u'', us_lifecycle = UserOffboarded, us_changed_at = 2,
        us_reason = None\<rparr>
       (server_store_new \<lparr>mp_snapshot = demo_snapshot, mp_available = True\<rparr>
          \<lparr>fresh_for = 5, stale_for = 5\<rparr>))"

lemma refresh_forgets_offboarding_witness:
  "server_get_user_lifecycle offboarded_server (EnterpriseUserId ''u'') = UserOffboarded \<and>
   cd_decision (server_check (snd (refresh memory_fetch_snapshot 4 offboarded_server))
     (EnterpriseUserId ''u'') (file_query 5)) = Allow"
proof
  show "server_get_user_lifecycle offboarded_server (EnterpriseUserId ''u'') = UserOffboarded"
    by code_simp
  have "covers (file_query 5) (file_grant ''u'')" by code_simp
  moreover have "sv_policy offboarded_server = \<lparr>fresh_for = 5, stale_for = 5\<rparr>"
    "memory_fetch_snapshot (sv_provider offboarded_server) 4 = Inr demo_snapshot" by code_simp+
  ultimately show "cd_decision (server_check (snd (refresh memory_fetch_snapshot 4 offboarded_server))
     (EnterpriseUserId ''u'') (file_query 5)) = Allow"
    using refresh_forgets_offboarding [of memory_fetch_snapshot offboarded_server 4 demo_snapshot
        "file_grant ''u''" "EnterpriseUserId ''u''" "file_query 5"]
    by (simp add: demo_snapshot_def file_grant_def file_query_def)
qed

end
