(* ===== verification/Policy.thy ===== *)
theory Policy
  imports Registries Permissions Utf8
begin

text \<open>
  The capability policy (\<open>capability-policy/src/lib.rs\<close>): the policy document with its
  validation, the rules it turns into, and the evaluation of an action by side effect, by
  registry and under an enterprise permission context.

  Reading and parsing the document (\<open>std::fs\<close>, \<open>toml\<close>) is outside the model; a document
  is the value the parser returns.
\<close>

section \<open>Decisions and explanations\<close>

datatype (plugins only: code size) policy_decision =
    PolicyAllow
  | PolicyAsk (ask_reason: string)
  | PolicyDeny (deny_reason: string)

definition policy_is_denied :: "policy_decision \<Rightarrow> bool" where
  "policy_is_denied d = (case d of PolicyDeny _ \<Rightarrow> True | _ \<Rightarrow> False)"

datatype (plugins only: code size) rule_decision = RuleAllow | RuleAsk | RuleDeny

datatype (plugins only: code size) matched_rule =
    MatchedRule side_effect_kind
  | MatchedDefault
  | MatchedEnterprise resource_type resource_id permission_action permission_decision

record policy_explanation =
  px_action_kind :: string
  px_side_effect :: side_effect_kind
  px_decision :: rule_decision
  px_matched_rule :: matched_rule
  px_risk_summary :: string
  px_user_facing_reason :: string

record policy_evaluation =
  pe_decision :: policy_decision
  pe_explanation :: policy_explanation

text \<open>\<open>{:?}\<close> of a side effect.\<close>

definition debug_side_effect :: "side_effect_kind \<Rightarrow> string" where
  "debug_side_effect k =
     (case k of
        NoEffect \<Rightarrow> ''None'' | ReadOnly \<Rightarrow> ''ReadOnly''
      | RuntimeStateMutation \<Rightarrow> ''RuntimeStateMutation''
      | FileSystemMutation \<Rightarrow> ''FileSystemMutation'' | NetworkAccess \<Rightarrow> ''NetworkAccess''
      | ExternalSystemMutation \<Rightarrow> ''ExternalSystemMutation'' | UiSideEffect \<Rightarrow> ''UiSideEffect''
      | DeviceControl \<Rightarrow> ''DeviceControl''
      | SensitiveProfileMutation \<Rightarrow> ''SensitiveProfileMutation'')"

definition user_facing_reason :: "rule_decision \<Rightarrow> side_effect_kind \<Rightarrow> string" where
  "user_facing_reason d k =
     (case d of
        RuleAllow \<Rightarrow> ''Action is allowed by policy: side_effect='' @ debug_side_effect k
      | RuleAsk \<Rightarrow> ''Action requires approval: side_effect='' @ debug_side_effect k
      | RuleDeny \<Rightarrow> ''Action denied by policy: side_effect='' @ debug_side_effect k)"

definition risk_summary :: "side_effect_kind \<Rightarrow> string" where
  "risk_summary k =
     (case k of
        NoEffect \<Rightarrow> ''Low risk: action has no external side effects.''
      | ReadOnly \<Rightarrow> ''Low risk: action reads data without mutating external state.''
      | RuntimeStateMutation \<Rightarrow> ''approval recommended: action mutates runtime state.''
      | NetworkAccess \<Rightarrow> ''approval recommended: action may access the network.''
      | UiSideEffect \<Rightarrow> ''approval recommended: action may change user-visible UI state.''
      | FileSystemMutation \<Rightarrow> ''High risk: action may modify local filesystem data.''
      | ExternalSystemMutation \<Rightarrow> ''High risk: action may mutate an external system.''
      | DeviceControl \<Rightarrow> ''High risk: action may control local device hardware.''
      | SensitiveProfileMutation \<Rightarrow> ''High risk: action may modify sensitive user profile data.'')"

section \<open>Policy documents\<close>

record policy_rule =
  rule_side_effect :: side_effect_kind
  rule_decision_of :: rule_decision

record action_kind_rule =
  akr_action_kind :: string
  akr_decision :: rule_decision

record provider_domain_rule =
  pdr_provider :: string
  pdr_domain :: string
  pdr_decision :: rule_decision

definition CURRENT_POLICY_FILE_VERSION :: nat where
  "CURRENT_POLICY_FILE_VERSION = 1"

record policy_document =
  doc_version :: "nat option"
  doc_default_decision :: rule_decision
  doc_side_effect_rules :: "policy_rule list"
  doc_action_kind_rules :: "action_kind_rule list"
  doc_provider_domain_rules :: "provider_domain_rule list"

definition policy_document_default :: policy_document where
  "policy_document_default =
     \<lparr>doc_version = None, doc_default_decision = RuleDeny, doc_side_effect_rules = [],
      doc_action_kind_rules = [], doc_provider_domain_rules = []\<rparr>"

datatype (plugins only: code size) diagnostic_severity = SevError | SevWarning

datatype (plugins only: code size) diagnostic_code =
    UnsupportedPolicyVersion | DuplicateSideEffectRule | DuplicateActionKindRule
  | DuplicateProviderDomainRule | EmptyActionKind | EmptyProvider | EmptyDomain

record policy_diagnostic =
  dg_severity :: diagnostic_severity
  dg_code :: diagnostic_code
  dg_path :: string
  dg_message :: string

definition diagnostic_error :: "diagnostic_code \<Rightarrow> string \<Rightarrow> string \<Rightarrow> policy_diagnostic" where
  "diagnostic_error c path msg =
     \<lparr>dg_severity = SevError, dg_code = c, dg_path = path, dg_message = msg\<rparr>"

definition report_is_valid :: "policy_diagnostic list \<Rightarrow> bool" where
  "report_is_valid ds \<longleftrightarrow> \<not> list_ex (\<lambda>d. dg_severity d = SevError) ds"

definition report_has_error :: "diagnostic_code \<Rightarrow> policy_diagnostic list \<Rightarrow> bool" where
  "report_has_error c ds \<longleftrightarrow> list_ex (\<lambda>d. dg_severity d = SevError \<and> dg_code d = c) ds"

text \<open>One pass over the rules of each kind, with the set of what was seen before.\<close>

fun check_side_effect_rules :: "side_effect_kind set \<Rightarrow> policy_rule list \<Rightarrow> policy_diagnostic list" where
  "check_side_effect_rules seen [] = []"
| "check_side_effect_rules seen (r # rs) =
     (if rule_side_effect r \<in> seen
      then diagnostic_error DuplicateSideEffectRule ''side_effect_rules''
             (''duplicate side effect rule: '' @ debug_side_effect (rule_side_effect r))
           # check_side_effect_rules seen rs
      else check_side_effect_rules (insert (rule_side_effect r) seen) rs)"

fun check_action_kind_rules :: "string set \<Rightarrow> action_kind_rule list \<Rightarrow> policy_diagnostic list" where
  "check_action_kind_rules seen [] = []"
| "check_action_kind_rules seen (r # rs) =
     (if trim (akr_action_kind r) = []
      then diagnostic_error EmptyActionKind ''action_kind_rules.action_kind''
             ''action_kind must not be empty'' # check_action_kind_rules seen rs
      else if akr_action_kind r \<in> seen
      then diagnostic_error DuplicateActionKindRule ''action_kind_rules.action_kind''
             (''duplicate action kind rule: '' @ akr_action_kind r) # check_action_kind_rules seen rs
      else check_action_kind_rules (insert (akr_action_kind r) seen) rs)"

fun check_provider_domain_rules ::
    "(string \<times> string) set \<Rightarrow> provider_domain_rule list \<Rightarrow> policy_diagnostic list" where
  "check_provider_domain_rules seen [] = []"
| "check_provider_domain_rules seen (r # rs) =
     (let empty_provider = trim (pdr_provider r) = [];
          empty_domain = trim (pdr_domain r) = [];
          pair = (pdr_provider r, pdr_domain r);
          named = \<not> empty_provider \<and> \<not> empty_domain
      in (if empty_provider
          then [diagnostic_error EmptyProvider ''provider_domain_rules.provider'' ''provider must not be empty'']
          else []) @
         (if empty_domain
          then [diagnostic_error EmptyDomain ''provider_domain_rules.domain'' ''domain must not be empty'']
          else []) @
         (if named \<and> pair \<in> seen
          then [diagnostic_error DuplicateProviderDomainRule ''provider_domain_rules''
                  (''duplicate provider/domain rule: '' @ pdr_provider r @ ''/'' @ pdr_domain r)]
          else []) @
         check_provider_domain_rules (if named then insert pair seen else seen) rs)"

definition check_version :: "nat option \<Rightarrow> policy_diagnostic list" where
  "check_version v =
     (case v of
        None \<Rightarrow> []
      | Some n \<Rightarrow>
          if CURRENT_POLICY_FILE_VERSION < n
          then [diagnostic_error UnsupportedPolicyVersion ''version''
                  (''policy file version '' @ decimal n @ '' is newer than supported version '' @
                   decimal CURRENT_POLICY_FILE_VERSION)]
          else [])"

definition validate :: "policy_document \<Rightarrow> policy_diagnostic list" where
  "validate d =
     check_version (doc_version d) @
     check_side_effect_rules {} (doc_side_effect_rules d) @
     check_action_kind_rules {} (doc_action_kind_rules d) @
     check_provider_domain_rules {} (doc_provider_domain_rules d)"

section \<open>The policy\<close>

record capability_policy =
  cp_rules :: "policy_rule list"
  cp_default_decision :: rule_decision

definition into_capability_policy :: "policy_document \<Rightarrow> policy_diagnostic list + capability_policy" where
  "into_capability_policy d =
     (if \<not> report_is_valid (validate d) then Inl (validate d)
      else Inr \<lparr>cp_rules = doc_side_effect_rules d, cp_default_decision = doc_default_decision d\<rparr>)"

definition default_safe :: capability_policy where
  "default_safe =
     \<lparr>cp_rules = map (\<lambda>(k, d). \<lparr>rule_side_effect = k, rule_decision_of = d\<rparr>)
        [(NoEffect, RuleAllow), (ReadOnly, RuleAllow), (RuntimeStateMutation, RuleAsk),
         (NetworkAccess, RuleAsk), (UiSideEffect, RuleAsk), (FileSystemMutation, RuleDeny),
         (ExternalSystemMutation, RuleDeny), (DeviceControl, RuleDeny),
         (SensitiveProfileMutation, RuleDeny)],
      cp_default_decision = RuleDeny\<rparr>"

definition evaluate_with_explanation ::
    "capability_policy \<Rightarrow> action_request \<Rightarrow> side_effect_kind \<Rightarrow> policy_evaluation" where
  "evaluate_with_explanation p r k =
     (let (d, matched) = (case find (\<lambda>x. rule_side_effect x = k) (cp_rules p) of
            Some x \<Rightarrow> (rule_decision_of x, MatchedRule (rule_side_effect x))
          | None \<Rightarrow> (cp_default_decision p, MatchedDefault));
          reason = user_facing_reason d k
      in \<lparr>pe_decision = (case d of RuleAllow \<Rightarrow> PolicyAllow | RuleAsk \<Rightarrow> PolicyAsk reason
                          | RuleDeny \<Rightarrow> PolicyDeny reason),
          pe_explanation =
            \<lparr>px_action_kind = kind_text (req_action_kind r), px_side_effect = k, px_decision = d,
             px_matched_rule = matched, px_risk_summary = risk_summary k,
             px_user_facing_reason = reason\<rparr>\<rparr>)"

definition evaluate :: "capability_policy \<Rightarrow> action_request \<Rightarrow> side_effect_kind \<Rightarrow> policy_decision" where
  "evaluate p r k = pe_decision (evaluate_with_explanation p r k)"

text \<open>An action whose kind is not registered is treated as network access.\<close>

definition registered_side_effect :: "action_registry \<Rightarrow> action_request \<Rightarrow> side_effect_kind" where
  "registered_side_effect reg r =
     (case side_effect_of reg (req_action_kind r) of Some k \<Rightarrow> k | None \<Rightarrow> NetworkAccess)"

definition evaluate_with_registry_explanation ::
    "capability_policy \<Rightarrow> action_request \<Rightarrow> action_registry \<Rightarrow> policy_evaluation" where
  "evaluate_with_registry_explanation p r reg =
     evaluate_with_explanation p r (registered_side_effect reg r)"

definition evaluate_with_registry ::
    "capability_policy \<Rightarrow> action_request \<Rightarrow> action_registry \<Rightarrow> policy_decision" where
  "evaluate_with_registry p r reg = pe_decision (evaluate_with_registry_explanation p r reg)"

section \<open>The enterprise context\<close>

record policy_actor =
  pa_actor_id :: string
  pa_enterprise_user_id :: "enterprise_user_id option"
  pa_enterprise_role :: "enterprise_role option"

record policy_session =
  psn_conversation_id :: "string option"
  psn_session_id :: "string option"

record policy_server =
  psv_server_id :: "string option"
  psv_provider :: "string option"
  psv_domain :: "string option"

record policy_resource =
  pr_resource_type :: resource_type
  pr_resource_id :: resource_id
  pr_permission_action :: permission_action

record policy_context =
  pc_actor :: "policy_actor option"
  pc_session :: "policy_session option"
  pc_server :: "policy_server option"
  pc_resource :: "policy_resource option"

fun resource_id_text :: "resource_id \<Rightarrow> string" where
  "resource_id_text (ResourceId s) = s"

definition show_resource_type :: "resource_type \<Rightarrow> string" where
  "show_resource_type t =
     (case t of
        ResConversation \<Rightarrow> ''conversation'' | ResAction \<Rightarrow> ''action''
      | ResKnowledgeBase \<Rightarrow> ''knowledge_base'' | ResFileArea \<Rightarrow> ''file_area'' | ResFile \<Rightarrow> ''file''
      | ResAsset \<Rightarrow> ''asset'' | ResSearchResult \<Rightarrow> ''search_result''
      | ResAnswerCacheEvidence \<Rightarrow> ''answer_cache_evidence'')"

definition show_permission_action :: "permission_action \<Rightarrow> string" where
  "show_permission_action a =
     (case a of PermRead \<Rightarrow> ''read'' | PermWrite \<Rightarrow> ''write'' | PermDelete \<Rightarrow> ''delete'' | PermAdmin \<Rightarrow> ''admin'')"

definition enterprise_permission_denied :: "policy_resource \<Rightarrow> policy_evaluation \<Rightarrow> policy_evaluation" where
  "enterprise_permission_denied res e =
     (let reason = ''Action denied by enterprise permission: resource='' @
                     show_resource_type (pr_resource_type res) @ '':'' @
                     resource_id_text (pr_resource_id res) @ '' action='' @
                     show_permission_action (pr_permission_action res)
      in \<lparr>pe_decision = PolicyDeny reason,
          pe_explanation = (pe_explanation e)
            \<lparr>px_decision := RuleDeny,
             px_matched_rule := MatchedEnterprise (pr_resource_type res) (pr_resource_id res)
                                  (pr_permission_action res) Deny,
             px_risk_summary := ''High risk: enterprise resource access denied by permission policy.'',
             px_user_facing_reason := reason\<rparr>\<rparr>)"

definition resource_query :: "policy_resource \<Rightarrow> instant \<Rightarrow> permission_query" where
  "resource_query res now =
     \<lparr>pq_resource_type = pr_resource_type res, pq_resource_id = pr_resource_id res,
      pq_action = pr_permission_action res, pq_now = now\<rparr>"

definition context_permission ::
    "policy_context \<Rightarrow> permission_store option \<Rightarrow> policy_resource \<Rightarrow> instant \<Rightarrow> permission_decision" where
  "context_permission c store res now =
     (case (Option.bind (pc_actor c) pa_enterprise_user_id, store) of
        (Some u, Some st) \<Rightarrow>
          (let role = (case Option.bind (pc_actor c) pa_enterprise_role of
                         Some r \<Rightarrow> r | None \<Rightarrow> RoleUser)
           in check_with_role st u role (resource_query res now))
      | _ \<Rightarrow> Deny)"

definition apply_context ::
    "policy_context \<Rightarrow> permission_store option \<Rightarrow> instant \<Rightarrow> policy_evaluation \<Rightarrow> policy_evaluation" where
  "apply_context c store now e =
     (if policy_is_denied (pe_decision e) then e
      else case pc_resource c of
        None \<Rightarrow> e
      | Some res \<Rightarrow>
          (case context_permission c store res now of
             Allow \<Rightarrow> e
           | Deny \<Rightarrow> enterprise_permission_denied res e))"

definition evaluate_with_context ::
    "capability_policy \<Rightarrow> action_request \<Rightarrow> side_effect_kind \<Rightarrow> policy_context \<Rightarrow>
     permission_store option \<Rightarrow> instant \<Rightarrow> policy_evaluation" where
  "evaluate_with_context p r k c store now =
     apply_context c store now (evaluate_with_explanation p r k)"

definition evaluate_with_registry_and_context ::
    "capability_policy \<Rightarrow> action_request \<Rightarrow> action_registry \<Rightarrow> policy_context \<Rightarrow>
     permission_store option \<Rightarrow> instant \<Rightarrow> policy_evaluation" where
  "evaluate_with_registry_and_context p r reg c store now =
     evaluate_with_context p r (registered_side_effect reg r) c store now"

section \<open>Validation\<close>

lemma diagnostic_error_severity [simp]: "dg_severity (diagnostic_error c path msg) = SevError"
  by (simp add: diagnostic_error_def)

text \<open>The validator only produces errors, so a document is valid when it produces nothing.\<close>

lemma side_effect_diagnostics_errors:
  "d \<in> set (check_side_effect_rules seen rs) \<Longrightarrow> dg_severity d = SevError"
  by (induction rs arbitrary: seen) (auto split: if_splits)

lemma action_kind_diagnostics_errors:
  "d \<in> set (check_action_kind_rules seen rs) \<Longrightarrow> dg_severity d = SevError"
  by (induction rs arbitrary: seen) (auto split: if_splits)

lemma provider_domain_diagnostics_errors:
  "d \<in> set (check_provider_domain_rules seen rs) \<Longrightarrow> dg_severity d = SevError"
  by (induction rs arbitrary: seen) (auto simp: Let_def split: if_splits)

lemma version_diagnostics_errors: "d \<in> set (check_version v) \<Longrightarrow> dg_severity d = SevError"
  by (auto simp: check_version_def split: option.splits if_splits)

lemma valid_iff_no_diagnostics: "report_is_valid (validate d) \<longleftrightarrow> validate d = []"
proof -
  have "dg_severity x = SevError" if "x \<in> set (validate d)" for x
    using that side_effect_diagnostics_errors action_kind_diagnostics_errors
      provider_domain_diagnostics_errors version_diagnostics_errors
    by (auto simp: validate_def)
  then show ?thesis
    by (cases "validate d") (auto simp: report_is_valid_def list_ex_iff)
qed

lemma side_effect_rules_clean:
  "check_side_effect_rules seen rs = [] \<longleftrightarrow>
     distinct (map rule_side_effect rs) \<and> (\<forall>r \<in> set rs. rule_side_effect r \<notin> seen)"
  by (induction rs arbitrary: seen) (auto simp: image_iff)

lemma action_kind_rules_clean:
  "check_action_kind_rules seen rs = [] \<longleftrightarrow>
     (\<forall>r \<in> set rs. trim (akr_action_kind r) \<noteq> [] \<and> akr_action_kind r \<notin> seen) \<and>
     distinct (map akr_action_kind rs)"
  by (induction rs arbitrary: seen) (auto simp: image_iff)

lemma provider_domain_rules_clean:
  "check_provider_domain_rules seen rs = [] \<longleftrightarrow>
     (\<forall>r \<in> set rs. trim (pdr_provider r) \<noteq> [] \<and> trim (pdr_domain r) \<noteq> [] \<and>
        (pdr_provider r, pdr_domain r) \<notin> seen) \<and>
     distinct (map (\<lambda>r. (pdr_provider r, pdr_domain r)) rs)"
  by (induction rs arbitrary: seen) (auto simp: Let_def image_iff)

lemma version_clean: "check_version v = [] \<longleftrightarrow> (\<forall>n. v = Some n \<longrightarrow> n \<le> 1)"
  by (auto simp: check_version_def CURRENT_POLICY_FILE_VERSION_def split: option.splits)

lemma validate_clean:
  "validate d = [] \<longleftrightarrow>
     (\<forall>n. doc_version d = Some n \<longrightarrow> n \<le> 1) \<and>
     distinct (map rule_side_effect (doc_side_effect_rules d)) \<and>
     distinct (map akr_action_kind (doc_action_kind_rules d)) \<and>
     distinct (map (\<lambda>r. (pdr_provider r, pdr_domain r)) (doc_provider_domain_rules d)) \<and>
     (\<forall>r \<in> set (doc_action_kind_rules d). trim (akr_action_kind r) \<noteq> []) \<and>
     (\<forall>r \<in> set (doc_provider_domain_rules d). trim (pdr_provider r) \<noteq> [] \<and> trim (pdr_domain r) \<noteq> [])"
  by (auto simp: validate_def version_clean side_effect_rules_clean action_kind_rules_clean
      provider_domain_rules_clean)

lemma into_capability_policy_cases:
  "into_capability_policy d =
     (if validate d = []
      then Inr \<lparr>cp_rules = doc_side_effect_rules d, cp_default_decision = doc_default_decision d\<rparr>
      else Inl (validate d))"
  by (simp add: into_capability_policy_def valid_iff_no_diagnostics)

lemma find_unique:
  assumes "distinct (map f xs)" and "x \<in> set xs"
  shows "find (\<lambda>y. f y = f x) xs = Some x"
  using assms by (induction xs) (auto simp: image_iff)

lemma evaluate_rule:
  assumes "distinct (map rule_side_effect (cp_rules p))" and "x \<in> set (cp_rules p)"
  shows "px_decision (pe_explanation (evaluate_with_explanation p r (rule_side_effect x))) = rule_decision_of x"
  by (simp add: evaluate_with_explanation_def find_unique [OF assms] Let_def)

lemma evaluate_default:
  assumes "k \<notin> rule_side_effect ` set (cp_rules p)"
  shows "px_decision (pe_explanation (evaluate_with_explanation p r k)) = cp_default_decision p"
proof -
  have "find (\<lambda>x. rule_side_effect x = k) (cp_rules p) = None"
    using assms by (auto simp: find_None_iff)
  then show ?thesis by (simp add: evaluate_with_explanation_def Let_def)
qed

text \<open>
  A policy document is accepted exactly when its version is supported, no side effect,
  action kind or provider and domain has two rules, and no rule has a blank name; every
  other document is rejected with a non-empty report. An accepted document means what it
  says: a side effect with a rule gets the decision of that rule and any other side effect
  the default, independently of the order in which the rules are written.
\<close>

lemma policy_document_correct:
  "(is_ok (into_capability_policy d) \<longleftrightarrow>
      (\<forall>n. doc_version d = Some n \<longrightarrow> n \<le> 1) \<and>
      distinct (map rule_side_effect (doc_side_effect_rules d)) \<and>
      distinct (map akr_action_kind (doc_action_kind_rules d)) \<and>
      distinct (map (\<lambda>r. (pdr_provider r, pdr_domain r)) (doc_provider_domain_rules d)) \<and>
      (\<forall>r \<in> set (doc_action_kind_rules d). trim (akr_action_kind r) \<noteq> []) \<and>
      (\<forall>r \<in> set (doc_provider_domain_rules d). trim (pdr_provider r) \<noteq> [] \<and> trim (pdr_domain r) \<noteq> [])) \<and>
   (\<forall>report. into_capability_policy d = Inl report \<longrightarrow> report \<noteq> []) \<and>
   (\<forall>p r k. into_capability_policy d = Inr p \<longrightarrow>
      (\<forall>x \<in> set (doc_side_effect_rules d). rule_side_effect x = k \<longrightarrow>
         px_decision (pe_explanation (evaluate_with_explanation p r k)) = rule_decision_of x) \<and>
      (k \<notin> rule_side_effect ` set (doc_side_effect_rules d) \<longrightarrow>
         px_decision (pe_explanation (evaluate_with_explanation p r k)) = doc_default_decision d))"
proof (intro conjI allI impI ballI)
  show "is_ok (into_capability_policy d) \<longleftrightarrow>
      (\<forall>n. doc_version d = Some n \<longrightarrow> n \<le> 1) \<and>
      distinct (map rule_side_effect (doc_side_effect_rules d)) \<and>
      distinct (map akr_action_kind (doc_action_kind_rules d)) \<and>
      distinct (map (\<lambda>r. (pdr_provider r, pdr_domain r)) (doc_provider_domain_rules d)) \<and>
      (\<forall>r \<in> set (doc_action_kind_rules d). trim (akr_action_kind r) \<noteq> []) \<and>
      (\<forall>r \<in> set (doc_provider_domain_rules d). trim (pdr_provider r) \<noteq> [] \<and> trim (pdr_domain r) \<noteq> [])"
    unfolding validate_clean [symmetric] by (simp add: into_capability_policy_cases)
next
  fix report
  assume "into_capability_policy d = Inl report"
  then show "report \<noteq> []" by (auto simp: into_capability_policy_cases split: if_splits)
next
  fix p r k x
  assume p: "into_capability_policy d = Inr p" and x: "x \<in> set (doc_side_effect_rules d)"
    and "rule_side_effect x = k"
  from p have "distinct (map rule_side_effect (cp_rules p))" and "cp_rules p = doc_side_effect_rules d"
    by (auto simp: into_capability_policy_cases validate_clean split: if_splits)
  then show "px_decision (pe_explanation (evaluate_with_explanation p r k)) = rule_decision_of x"
    using evaluate_rule x \<open>rule_side_effect x = k\<close> by auto
next
  fix p r k
  assume p: "into_capability_policy d = Inr p" and "k \<notin> rule_side_effect ` set (doc_side_effect_rules d)"
  moreover from p have "cp_rules p = doc_side_effect_rules d" "cp_default_decision p = doc_default_decision d"
    by (auto simp: into_capability_policy_cases split: if_splits)
  ultimately show "px_decision (pe_explanation (evaluate_with_explanation p r k)) = doc_default_decision d"
    using evaluate_default by simp
qed

lemma policy_document_correct_witness:
  "is_ok (into_capability_policy (policy_document_default
     \<lparr>doc_side_effect_rules := [\<lparr>rule_side_effect = ReadOnly, rule_decision_of = RuleAllow\<rparr>]\<rparr>)) \<and>
   \<not> is_ok (into_capability_policy (policy_document_default
     \<lparr>doc_side_effect_rules := [\<lparr>rule_side_effect = ReadOnly, rule_decision_of = RuleAllow\<rparr>,
        \<lparr>rule_side_effect = ReadOnly, rule_decision_of = RuleDeny\<rparr>]\<rparr>))"
  using policy_document_correct [of "policy_document_default
     \<lparr>doc_side_effect_rules := [\<lparr>rule_side_effect = ReadOnly, rule_decision_of = RuleAllow\<rparr>]\<rparr>"]
    policy_document_correct [of "policy_document_default
     \<lparr>doc_side_effect_rules := [\<lparr>rule_side_effect = ReadOnly, rule_decision_of = RuleAllow\<rparr>,
        \<lparr>rule_side_effect = ReadOnly, rule_decision_of = RuleDeny\<rparr>]\<rparr>"]
  by (simp add: policy_document_default_def)

text \<open>
  The rules of a policy document for action kinds and for provider domains have no
  effect: an accepted document turns into the same policy as the document without them,
  so that an action whose kind the document denies by name is judged by its side effect
  alone.
\<close>

lemma kind_and_domain_rules_ignored:
  assumes "into_capability_policy d = Inr p"
  shows "into_capability_policy (d\<lparr>doc_action_kind_rules := [], doc_provider_domain_rules := []\<rparr>) = Inr p \<and>
         (\<forall>r r' k. evaluate p r k = evaluate p r' k)"
  using assms
  by (auto simp: into_capability_policy_cases validate_clean evaluate_def evaluate_with_explanation_def
      Let_def split: if_splits option.split)

definition purge_denied :: policy_document where
  "purge_denied = policy_document_default
     \<lparr>doc_default_decision := RuleAllow,
      doc_action_kind_rules := [\<lparr>akr_action_kind = ''mail.purge'', akr_decision = RuleDeny\<rparr>]\<rparr>"

definition purge_request :: action_request where
  "purge_request =
     \<lparr>req_action_id = ActionId ''a'', req_action_kind = ActionKind ''mail.purge'', req_input = JNull,
      req_requested_by = ''u'', req_conversation_id = None, req_message_id = None, req_requested_at = 0\<rparr>"

lemma purge_denied_accepted:
  "into_capability_policy purge_denied = Inr \<lparr>cp_rules = [], cp_default_decision = RuleAllow\<rparr>"
  by code_simp

lemma kind_and_domain_rules_ignored_witness:
  "into_capability_policy (purge_denied\<lparr>doc_action_kind_rules := [], doc_provider_domain_rules := []\<rparr>) =
     Inr \<lparr>cp_rules = [], cp_default_decision = RuleAllow\<rparr> \<and>
   evaluate \<lparr>cp_rules = [], cp_default_decision = RuleAllow\<rparr> purge_request NetworkAccess = PolicyAllow"
  using kind_and_domain_rules_ignored [OF purge_denied_accepted]
  by (simp add: evaluate_def evaluate_with_explanation_def Let_def)

section \<open>Evaluation in an enterprise context\<close>

lemma context_permission_inactive:
  assumes "Option.bind (pc_actor c) pa_enterprise_user_id = Some u" and "store = Some st"
    and "\<not> is_user_active st u"
  shows "context_permission c store res now = Deny"
  using assms by (simp add: context_permission_def check_with_role_def)

text \<open>
  The enterprise context can only restrict what the policy grants. The decision under
  a context is the one without it, or a denial; a denial is added exactly when the context
  names a resource that the acting user may not use, which includes a context without an
  enterprise user, a missing permission store and every user who is not active, whatever
  the role. The explanation agrees with the decision.
\<close>

lemma context_only_restricts:
  "pe_decision (evaluate_with_context p r k c store now) =
     (case pc_resource c of
        None \<Rightarrow> evaluate p r k
      | Some res \<Rightarrow>
          if policy_is_denied (evaluate p r k) \<or> context_permission c store res now = Allow
          then evaluate p r k
          else PolicyDeny (px_user_facing_reason (pe_explanation (evaluate_with_context p r k c store now)))) \<and>
   (policy_is_denied (pe_decision (evaluate_with_context p r k c store now)) \<longleftrightarrow>
      px_decision (pe_explanation (evaluate_with_context p r k c store now)) = RuleDeny) \<and>
   (\<forall>u st. Option.bind (pc_actor c) pa_enterprise_user_id = Some u \<and> store = Some st \<and>
      \<not> is_user_active st u \<and> pc_resource c \<noteq> None \<longrightarrow>
      policy_is_denied (pe_decision (evaluate_with_context p r k c store now)))"
proof (intro conjI allI impI)
  let ?e = "evaluate_with_context p r k c store now"
  have denied [simp]: "policy_is_denied (pe_decision (enterprise_permission_denied res e))"
    "px_decision (pe_explanation (enterprise_permission_denied res e)) = RuleDeny"
    "pe_decision (enterprise_permission_denied res e) =
       PolicyDeny (px_user_facing_reason (pe_explanation (enterprise_permission_denied res e)))" for res e
    by (simp_all add: enterprise_permission_denied_def Let_def policy_is_denied_def)
  have agree: "policy_is_denied (pe_decision (evaluate_with_explanation p r k)) \<longleftrightarrow>
      px_decision (pe_explanation (evaluate_with_explanation p r k)) = RuleDeny"
    by (simp add: evaluate_with_explanation_def Let_def policy_is_denied_def
        split: rule_decision.split prod.split)
  show "pe_decision ?e = (case pc_resource c of
        None \<Rightarrow> evaluate p r k
      | Some res \<Rightarrow>
          if policy_is_denied (evaluate p r k) \<or> context_permission c store res now = Allow
          then evaluate p r k
          else PolicyDeny (px_user_facing_reason (pe_explanation ?e)))"
    using denied(3)
    by (auto simp: evaluate_with_context_def apply_context_def evaluate_def
        split: option.split permission_decision.split)
  show "policy_is_denied (pe_decision ?e) \<longleftrightarrow> px_decision (pe_explanation ?e) = RuleDeny"
    using agree denied(1,2)
    by (auto simp: evaluate_with_context_def apply_context_def
        simp del: denied(3) split: option.split permission_decision.split)
  fix u st
  assume "Option.bind (pc_actor c) pa_enterprise_user_id = Some u \<and> store = Some st \<and>
      \<not> is_user_active st u \<and> pc_resource c \<noteq> None"
  then have "\<forall>res. context_permission c store res now = Deny" and "pc_resource c \<noteq> None"
    using context_permission_inactive by blast+
  then show "policy_is_denied (pe_decision ?e)"
    using denied(1) by (auto simp: evaluate_with_context_def apply_context_def simp del: denied(3))
qed

definition offboarded_context :: policy_context where
  "offboarded_context =
     \<lparr>pc_actor = Some \<lparr>pa_actor_id = ''u'', pa_enterprise_user_id = Some (EnterpriseUserId ''u''),
        pa_enterprise_role = Some RoleSuperAdmin\<rparr>,
      pc_session = None, pc_server = None,
      pc_resource = Some \<lparr>pr_resource_type = ResFile, pr_resource_id = ResourceId ''f'',
        pr_permission_action = PermRead\<rparr>\<rparr>"

definition offboarded_users :: permission_store where
  "offboarded_users = permission_store_new\<lparr>ps_user_lifecycles := [(EnterpriseUserId ''u'',
     \<lparr>us_user_id = EnterpriseUserId ''u'', us_lifecycle = UserOffboarded, us_changed_at = 1,
      us_reason = None\<rparr>)]\<rparr>"

lemma context_only_restricts_witness:
  "policy_is_denied (pe_decision (evaluate_with_context default_safe purge_request ReadOnly offboarded_context
     (Some offboarded_users) 5)) \<and> evaluate default_safe purge_request ReadOnly = PolicyAllow"
proof
  have "Option.bind (pc_actor offboarded_context) pa_enterprise_user_id = Some (EnterpriseUserId ''u'') \<and>
      Some offboarded_users = Some offboarded_users \<and>
      \<not> is_user_active offboarded_users (EnterpriseUserId ''u'') \<and> pc_resource offboarded_context \<noteq> None"
    by code_simp
  then show "policy_is_denied (pe_decision (evaluate_with_context default_safe purge_request ReadOnly
      offboarded_context (Some offboarded_users) 5))"
    by (rule context_only_restricts [THEN conjunct2, THEN conjunct2, rule_format])
  show "evaluate default_safe purge_request ReadOnly = PolicyAllow"
    by code_simp
qed

end
