(* ===== verification/Action_Runtime.thy ===== *)
theory Action_Runtime
  imports Kernel_Properties Policy
begin

text \<open>
  The action runtime (\<open>action-runtime/src/lib.rs\<close>): it requests an action in the
  conversation kernel, looks its kind up in the registry, asks the policy, executes or
  holds the action, records what happened in the kernel and writes an audit event.

  The executor and the audit log are trait objects: functions over a state of their own,
  the world the executor acts on and the log. \<open>serde_json\<close> is a parameter. A panic is an
  error of its own kind; it ends the call where it happens. The kernel is the model of
  \<open>Kernel\<close>, over any journal.
\<close>

section \<open>Executors and artifacts\<close>

datatype (plugins only: code size) executor_error =
    NotSupported action_kind
  | ExecutionFailed string
  | InvalidInput string

definition action_executor_error_message :: "executor_error \<Rightarrow> string" where
  "action_executor_error_message e =
     (case e of
        NotSupported k \<Rightarrow> ''action not supported: '' @ kind_text k
      | ExecutionFailed s \<Rightarrow> ''execution failed: '' @ s
      | InvalidInput s \<Rightarrow> ''invalid input: '' @ s)"

text \<open>How an executor turns the errors of its store, and of reading its input, into its own.\<close>

definition to_failed :: "('e \<Rightarrow> string) \<Rightarrow> ('s, 'e, 'a) prog \<Rightarrow> ('s, executor_error, 'a) prog" where
  "to_failed msg p = (\<lambda>s. case p s of (Inl e, s') \<Rightarrow> (Inl (ExecutionFailed (msg e)), s') | (Inr x, s') \<Rightarrow> (Inr x, s'))"

definition parsed :: "string + 'a \<Rightarrow> executor_error + 'a" where
  "parsed r = (case r of Inl e \<Rightarrow> Inl (InvalidInput e) | Inr x \<Rightarrow> Inr x)"

definition opt_json :: "string option \<Rightarrow> json" where
  "opt_json x = (case x of None \<Rightarrow> JNull | Some s \<Rightarrow> JString s)"

definition descriptor_for :: "artifact_kind \<Rightarrow> datetime \<Rightarrow> action_request \<Rightarrow> artifact_descriptor" where
  "descriptor_for kind now r =
     \<lparr>art_id = ArtifactId (''artifact-'' @ action_text (req_action_id r)), art_kind = kind,
      art_title = Some (kind_text (req_action_kind r) @ '' result''), art_source_uri = None,
      art_mime_type = Some ''application/json'',
      art_metadata = JObject
        [(''action_id'', JString (action_text (req_action_id r))),
         (''action_kind'', JString (kind_text (req_action_kind r))),
         (''conversation_id'', opt_json (req_conversation_id r)),
         (''message_id'', opt_json (req_message_id r))],
      art_created_at = now\<rparr>"

fun show_artifact_store_error :: "artifact_store_error \<Rightarrow> string" where
  "show_artifact_store_error (DuplicateArtifactId i) = ''duplicate artifact id: '' @ artifact_text i"
| "show_artifact_store_error LockPoisoned = ''artifact store lock poisoned''"
| "show_artifact_store_error (ArtifactStorage s) = ''artifact storage error: '' @ s"

text \<open>The executor that stores an artifact; \<open>done\<close> is its second reading of the clock.\<close>

definition artifact_execute ::
    "(action_request \<Rightarrow> artifact_descriptor) \<Rightarrow> datetime \<Rightarrow> action_request \<Rightarrow> artifact_store \<Rightarrow>
     (executor_error + action_result) \<times> artifact_store" where
  "artifact_execute factory finished r st =
     (let d = factory r in
      case put_artifact d st of
        (Inl e, st') \<Rightarrow> (Inl (ExecutionFailed (show_artifact_store_error e)), st')
      | (Inr _, st') \<Rightarrow>
          (Inr \<lparr>res_status = StCompleted, res_payload = PArtifactRef (art_id d),
                res_summary = kind_text (req_action_kind r) @ '' produced an artifact'',
                res_completed_at = finished\<rparr>, st'))"

definition store_resolve :: "artifact_id \<Rightarrow> artifact_store \<Rightarrow> string + artifact_descriptor option" where
  "store_resolve i st = Inr (m_get st i)"

section \<open>Audit events\<close>

record audit_event =
  au_audit_id :: string
  au_action_id :: string
  au_action_kind :: string
  au_requested_by :: string
  au_approved_by :: "string option"
  au_input_summary :: string
  au_side_effect :: string
  au_policy_decision :: string
  au_result_status :: string
  au_result_summary :: "string option"
  au_conversation_id :: "string option"
  au_message_id :: "string option"
  au_timestamp :: datetime

record audit_input =
  ai_request :: action_request
  ai_side_effect :: "side_effect_kind option"
  ai_policy_decision :: string
  ai_result_status :: string
  ai_result_summary :: "string option"
  ai_approved_by :: "participant_id option"

text \<open>\<open>&text[..200]\<close> panics when byte 200 is inside a character.\<close>

definition summarize_input :: "string \<Rightarrow> string option" where
  "summarize_input txt =
     (if length txt \<le> 200 then Some txt
      else map_option (\<lambda>s. s @ [CHR 0xE2, CHR 0x80, CHR 0xA6]) (slice_to txt 200))"

fun participant_text :: "participant_id \<Rightarrow> string" where
  "participant_text (ParticipantId s) = s"

definition build_audit_event :: "(json \<Rightarrow> string) \<Rightarrow> audit_input \<Rightarrow> datetime \<Rightarrow> audit_event option" where
  "build_audit_event to_text inp now =
     map_option (\<lambda>summary.
       (let r = ai_request inp in
        \<lparr>au_audit_id = ''audit-'' @ action_text (req_action_id r) @ ''-'' @ ai_result_status inp,
         au_action_id = action_text (req_action_id r), au_action_kind = kind_text (req_action_kind r),
         au_requested_by = req_requested_by r,
         au_approved_by = map_option participant_text (ai_approved_by inp),
         au_input_summary = summary,
         au_side_effect = (case ai_side_effect inp of Some k \<Rightarrow> debug_side_effect k | None \<Rightarrow> ''unknown''),
         au_policy_decision = ai_policy_decision inp, au_result_status = ai_result_status inp,
         au_result_summary = ai_result_summary inp, au_conversation_id = req_conversation_id r,
         au_message_id = req_message_id r, au_timestamp = now\<rparr>))
       (summarize_input (to_text (req_input (ai_request inp))))"

section \<open>The runtime\<close>

datatype (plugins only: code size) action_outcome =
    OutCompleted action_id action_result
  | OutApprovalRequired action_id string
  | OutDenied action_id string
  | OutFailed action_id string

datatype (plugins only: code size) 'e runtime_error =
    RtKernel "'e kernel_error"
  | RtAudit string
  | RtArtifact string
  | RtPanic
  | RtActionNotFound action_id
  | RtNotApproved action_id
  | RtMissingRequest action_id
  | RtKindNotRegistered action_kind

record ('j, 'e, 'x, 'l) action_runtime =
  ar_kernel :: "('j, 'e) kernel_deps"
  ar_registry :: action_registry
  ar_policy :: capability_policy
  ar_execute :: "action_request \<Rightarrow> 'x \<Rightarrow> (executor_error + action_result) \<times> 'x"
  ar_record :: "audit_event \<Rightarrow> 'l \<Rightarrow> (string + unit) \<times> 'l"
  ar_resolver :: "(artifact_id \<Rightarrow> 'x \<Rightarrow> string + artifact_descriptor option) option"
  ar_to_text :: "json \<Rightarrow> string"
  ar_now :: "nat \<Rightarrow> datetime"

record ('j, 'x, 'l) runtime_state =
  rt_kernel :: "'j kernel_state"
  rt_world :: 'x
  rt_audit :: 'l
  rt_ticks :: nat

type_synonym ('j, 'e, 'x, 'l, 'a) runtime_prog = "(('j, 'x, 'l) runtime_state, 'e runtime_error, 'a) prog"

definition in_kernel :: "('j, 'e, 'a) kernel_prog \<Rightarrow> ('j, 'e, 'x, 'l, 'a) runtime_prog" where
  "in_kernel m s = (let (r, k) = m (rt_kernel s) in (map_sum RtKernel id r, s\<lparr>rt_kernel := k\<rparr>))"

definition run_executor ::
    "('j, 'e, 'x, 'l) action_runtime \<Rightarrow> action_request \<Rightarrow>
     ('j, 'e, 'x, 'l, executor_error + action_result) runtime_prog" where
  "run_executor R q s = (let (r, w) = ar_execute R q (rt_world s) in (Inr r, s\<lparr>rt_world := w\<rparr>))"

definition record_audit ::
    "('j, 'e, 'x, 'l) action_runtime \<Rightarrow> audit_input \<Rightarrow> ('j, 'e, 'x, 'l, unit) runtime_prog" where
  "record_audit R inp s =
     (case build_audit_event (ar_to_text R) inp (ar_now R (rt_ticks s)) of
        None \<Rightarrow> (Inl RtPanic, s)
      | Some ev \<Rightarrow>
          (let (r, l) = ar_record R ev (rt_audit s)
           in (map_sum RtAudit id r, s\<lparr>rt_audit := l, rt_ticks := rt_ticks s + 1\<rparr>)))"

definition link_artifact_result ::
    "('j, 'e, 'x, 'l) action_runtime \<Rightarrow> conversation_id \<Rightarrow> action_result \<Rightarrow> participant_id option \<Rightarrow>
     ('j, 'e, 'x, 'l, unit) runtime_prog" where
  "link_artifact_result R c res linked_by s =
     (case (res_payload res, ar_resolver R) of
        (PArtifactRef i, Some resolve) \<Rightarrow>
          (case resolve i (rt_world s) of
             Inl e \<Rightarrow> (Inl (RtArtifact e), s)
           | Inr None \<Rightarrow> (Inr (), s)
           | Inr (Some artifact) \<Rightarrow>
               in_kernel (link_artifact (ar_kernel R)
                 \<lparr>cla_conversation_id = c, cla_artifact = artifact, cla_linked_by = linked_by\<rparr>) s)
      | _ \<Rightarrow> (Inr (), s))"

text \<open>
  What \<open>process\<close> does after the policy allows an action and \<open>execute_approved\<close> after the
  approval is found: start, execute, record the result in the kernel and in the audit log.
\<close>

definition start_and_execute ::
    "('j, 'e, 'x, 'l) action_runtime \<Rightarrow> conversation_id \<Rightarrow> action_id \<Rightarrow> action_request \<Rightarrow>
     side_effect_kind \<Rightarrow> string \<Rightarrow> participant_id option \<Rightarrow> participant_id option \<Rightarrow>
     ('j, 'e, 'x, 'l, action_outcome) runtime_prog" where
  "start_and_execute R c a q k decision approved_by actor =
     (let audit = (\<lambda>status summary. record_audit R
        \<lparr>ai_request = q, ai_side_effect = Some k, ai_policy_decision = decision,
         ai_result_status = status, ai_result_summary = Some summary, ai_approved_by = approved_by\<rparr>)
      in
      andThen (in_kernel (start_action (ar_kernel R)
        \<lparr>csa_conversation_id = c, csa_action_id = a, csa_started_by = actor\<rparr>)) (\<lambda>_.
      andThen (run_executor R q) (\<lambda>outcome.
      case outcome of
        Inr res \<Rightarrow>
          andThen (in_kernel (complete_action (ar_kernel R)
            \<lparr>ccoa_conversation_id = c, ccoa_action_id = a, ccoa_result = res, ccoa_completed_by = actor\<rparr>)) (\<lambda>_.
          andThen (link_artifact_result R c res actor) (\<lambda>_.
          andThen (audit ''completed'' (res_summary res)) (\<lambda>_.
            ret (OutCompleted a res))))
      | Inl err \<Rightarrow>
          (let msg = action_executor_error_message err in
           andThen (in_kernel (fail_action (ar_kernel R)
             \<lparr>cfa_conversation_id = c, cfa_action_id = a, cfa_error_message = msg, cfa_failed_by = actor\<rparr>)) (\<lambda>_.
           andThen (audit ''failed'' msg) (\<lambda>_.
             ret (OutFailed a msg)))))))"

definition deny_and_audit ::
    "('j, 'e, 'x, 'l) action_runtime \<Rightarrow> conversation_id \<Rightarrow> action_request \<Rightarrow> side_effect_kind option \<Rightarrow>
     string \<Rightarrow> participant_id option \<Rightarrow> ('j, 'e, 'x, 'l, action_outcome) runtime_prog" where
  "deny_and_audit R c q k reason actor =
     andThen (in_kernel (deny_action (ar_kernel R)
       \<lparr>cda_conversation_id = c, cda_action_id = req_action_id q, cda_reason = reason, cda_denied_by = actor\<rparr>)) (\<lambda>_.
     andThen (record_audit R
       \<lparr>ai_request = q, ai_side_effect = k, ai_policy_decision = ''deny'', ai_result_status = ''denied'',
        ai_result_summary = Some reason, ai_approved_by = None\<rparr>) (\<lambda>_.
       ret (OutDenied (req_action_id q) reason)))"

record process_request =
  pq_conversation_id :: conversation_id
  pq_action_request :: action_request
  pq_requested_by :: "participant_id option"
  pq_runtime_actor :: "participant_id option"

text \<open>The part of \<open>process\<close> after the request is recorded.\<close>

definition judge ::
    "('j, 'e, 'x, 'l) action_runtime \<Rightarrow> conversation_id \<Rightarrow> action_request \<Rightarrow> participant_id option \<Rightarrow>
     ('j, 'e, 'x, 'l, action_outcome) runtime_prog" where
  "judge R c q actor =
     (let a = req_action_id q in
      case get_action (ar_registry R) (req_action_kind q) of
        None \<Rightarrow> deny_and_audit R c q None (''action kind not registered: '' @ kind_text (req_action_kind q)) actor
      | Some schema \<Rightarrow>
          (let k = sch_side_effect schema in
           case evaluate (ar_policy R) q k of
             PolicyAllow \<Rightarrow> start_and_execute R c a q k ''allow'' None actor
           | PolicyAsk reason \<Rightarrow>
               andThen (in_kernel (require_action_approval (ar_kernel R)
                 \<lparr>craa_conversation_id = c, craa_action_id = a, craa_reason = reason, craa_required_by = actor\<rparr>)) (\<lambda>_.
               andThen (record_audit R
                 \<lparr>ai_request = q, ai_side_effect = Some k, ai_policy_decision = ''ask'',
                  ai_result_status = ''approval_required'', ai_result_summary = Some reason,
                  ai_approved_by = None\<rparr>) (\<lambda>_.
                 ret (OutApprovalRequired a reason)))
           | PolicyDeny reason \<Rightarrow> deny_and_audit R c q (Some k) reason actor))"

definition process ::
    "('j, 'e, 'x, 'l) action_runtime \<Rightarrow> process_request \<Rightarrow> ('j, 'e, 'x, 'l, action_outcome) runtime_prog" where
  "process R req =
     andThen (in_kernel (request_action (ar_kernel R)
       \<lparr>cra_conversation_id = pq_conversation_id req, cra_action_request = pq_action_request req,
        cra_requested_by = pq_requested_by req\<rparr>)) (\<lambda>_.
       judge R (pq_conversation_id req) (pq_action_request req) (pq_runtime_actor req))"

record execute_request =
  xq_conversation_id :: conversation_id
  xq_action_id :: action_id
  xq_runtime_actor :: "participant_id option"

definition execute_approved ::
    "('j, 'e, 'x, 'l) action_runtime \<Rightarrow> execute_request \<Rightarrow> ('j, 'e, 'x, 'l, action_outcome) runtime_prog" where
  "execute_approved R req =
     (let c = xq_conversation_id req; a = xq_action_id req in
      andThen (in_kernel (load_state (ar_kernel R) c)) (\<lambda>st.
      case m_get (cs_actions st) a of
        None \<Rightarrow> raise (RtActionNotFound a)
      | Some action \<Rightarrow>
          if ca_status action \<noteq> ActApproved then raise (RtNotApproved a)
          else case ca_request action of
            None \<Rightarrow> raise (RtMissingRequest a)
          | Some q \<Rightarrow>
              (case get_action (ar_registry R) (req_action_kind q) of
                 None \<Rightarrow> raise (RtKindNotRegistered (req_action_kind q))
               | Some schema \<Rightarrow>
                   start_and_execute R c a q (sch_side_effect schema) ''approved''
                     (ca_approved_by action) (xq_runtime_actor req))))"

section \<open>What a call can do\<close>

text \<open>A program that only moves along a relation on states.\<close>

definition moves :: "('s \<Rightarrow> 's \<Rightarrow> bool) \<Rightarrow> ('s, 'e, 'a) prog \<Rightarrow> bool" where
  "moves Q m \<longleftrightarrow> (\<forall>s. Q s (snd (m s)))"

lemma moves_andThen:
  assumes "transp Q" and "moves Q m" and "\<And>x. moves Q (f x)"
  shows "moves Q (andThen m f)"
  unfolding moves_def
proof
  fix s
  obtain r s1 where m: "m s = (r, s1)" by (cases "m s")
  then have "Q s s1" using assms(2) by (metis moves_def snd_conv)
  then show "Q s (snd (andThen m f s))"
    using m assms(3) transpD [OF assms(1)] by (cases r) (auto simp: andThen_def moves_def)
qed

lemma moves_pure: "reflp Q \<Longrightarrow> moves Q (ret x)" "reflp Q \<Longrightarrow> moves Q (raise e)"
  by (simp_all add: moves_def ret_def raise_def reflpD)

lemma moves_option:
  "(x = None \<Longrightarrow> moves Q m) \<Longrightarrow> (\<And>y. x = Some y \<Longrightarrow> moves Q (f y)) \<Longrightarrow>
   moves Q (case x of None \<Rightarrow> m | Some y \<Rightarrow> f y)"
  by (cases x) simp_all

lemma moves_if: "(b \<Longrightarrow> moves Q m) \<Longrightarrow> (\<not> b \<Longrightarrow> moves Q n) \<Longrightarrow> moves Q (if b then m else n)"
  by simp

lemma moves_sum:
  "(\<And>y. x = Inl y \<Longrightarrow> moves Q (f y)) \<Longrightarrow> (\<And>y. x = Inr y \<Longrightarrow> moves Q (g y)) \<Longrightarrow>
   moves Q (case x of Inl y \<Rightarrow> f y | Inr y \<Rightarrow> g y)"
  by (cases x) simp_all

lemma moves_decision:
  "(d = PolicyAllow \<Longrightarrow> moves Q m) \<Longrightarrow> (\<And>y. d = PolicyAsk y \<Longrightarrow> moves Q (f y)) \<Longrightarrow>
   (\<And>y. d = PolicyDeny y \<Longrightarrow> moves Q (g y)) \<Longrightarrow>
   moves Q (case d of PolicyAllow \<Rightarrow> m | PolicyAsk y \<Rightarrow> f y | PolicyDeny y \<Rightarrow> g y)"
  by (cases d) simp_all

lemmas moves_intros = moves_andThen moves_pure moves_option moves_if moves_sum moves_decision

definition same_world :: "('j, 'x, 'l) runtime_state \<Rightarrow> ('j, 'x, 'l) runtime_state \<Rightarrow> bool" where
  "same_world s s' \<longleftrightarrow> rt_world s' = rt_world s"

definition kernel_steps ::
    "('j, 'e) kernel_deps \<Rightarrow> ('j, 'x, 'l) runtime_state \<Rightarrow> ('j, 'x, 'l) runtime_state \<Rightarrow> bool" where
  "kernel_steps D s s' \<longleftrightarrow> kernel_reach D (rt_kernel s) (rt_kernel s')"

lemma same_world_order: "reflp same_world" "transp same_world"
  by (auto simp: reflp_def transp_def same_world_def)

lemma kernel_steps_order: "reflp (kernel_steps D)" "transp (kernel_steps D)"
  by (auto simp: reflp_def transp_def kernel_steps_def intro: kernel_reach.start kernel_reach_trans)

lemma world_in_kernel: "moves same_world (in_kernel m)"
  by (auto simp: moves_def same_world_def in_kernel_def split: prod.split)

lemma world_record_audit: "moves same_world (record_audit R inp)"
  by (auto simp: moves_def same_world_def record_audit_def Let_def split: option.split prod.split)

lemma steps_run_executor: "moves (kernel_steps D) (run_executor R q)"
  by (auto simp: moves_def kernel_steps_def run_executor_def Let_def intro: kernel_reach.start split: prod.split)

lemma steps_record_audit: "moves (kernel_steps D) (record_audit R inp)"
  by (auto simp: moves_def kernel_steps_def record_audit_def Let_def intro: kernel_reach.start
      split: option.split prod.split)

lemma steps_handler:
  assumes "\<And>k. dispatch D cmd k = then_reply f m k"
  shows "moves (kernel_steps D) (in_kernel m)"
  unfolding moves_def kernel_steps_def
proof
  fix s :: "('a, 'd, 'f) runtime_state"
  obtain r k where m: "m (rt_kernel s) = (r, k)" by (cases "m (rt_kernel s)")
  then have "\<exists>r'. dispatch D cmd (rt_kernel s) = (r', k)"
    using assms by (cases r) (simp_all add: then_reply_def andThen_def ret_def)
  then have "kernel_reach D (rt_kernel s) k" by (blast intro: kernel_reach.intros)
  then show "kernel_reach D (rt_kernel s) (rt_kernel (snd (in_kernel m s)))"
    using m by (simp add: in_kernel_def)
qed

lemmas steps_handlers =
  steps_handler [where cmd = "DoRequestAction q" for q, OF dispatch.simps(23) [THEN fun_cong]]
  steps_handler [where cmd = "DoDenyAction q" for q, OF dispatch.simps(26) [THEN fun_cong]]
  steps_handler [where cmd = "DoStartAction q" for q, OF dispatch.simps(27) [THEN fun_cong]]
  steps_handler [where cmd = "DoCompleteAction q" for q, OF dispatch.simps(28) [THEN fun_cong]]
  steps_handler [where cmd = "DoFailAction q" for q, OF dispatch.simps(29) [THEN fun_cong]]
  steps_handler [where cmd = "DoRequireActionApproval q" for q, OF dispatch.simps(24) [THEN fun_cong]]
  steps_handler [where cmd = "DoLinkArtifact q" for q, OF dispatch.simps(8) [THEN fun_cong]]

lemma steps_load: "moves (kernel_steps D) (in_kernel (load_state D c))"
  by (auto simp: moves_def kernel_steps_def in_kernel_def load_state_run intro: kernel_reach.start
      split: sum.split)

lemma moves_link:
  assumes "reflp Q" and "\<And>cmd. moves Q (in_kernel (link_artifact (ar_kernel R) cmd))"
  shows "moves Q (link_artifact_result R c res actor)"
  using assms
  by (auto simp: moves_def link_artifact_result_def reflpD
      split: action_result_payload.split option.split sum.split)

text \<open>Everything the runtime does in the kernel is a sequence of kernel commands.\<close>

lemma steps_start_and_execute:
  "moves (kernel_steps (ar_kernel R)) (start_and_execute R c a q k d ab actor)"
  unfolding start_and_execute_def Let_def
  by (intro moves_intros kernel_steps_order steps_handlers steps_run_executor steps_record_audit moves_link)

lemma steps_deny_and_audit: "moves (kernel_steps (ar_kernel R)) (deny_and_audit R c q k reason actor)"
  unfolding deny_and_audit_def
  by (intro moves_intros kernel_steps_order steps_handlers steps_record_audit)

lemma steps_process: "moves (kernel_steps (ar_kernel R)) (process R req)"
  unfolding process_def judge_def Let_def
  by (intro moves_intros kernel_steps_order steps_handlers steps_record_audit
      steps_deny_and_audit steps_start_and_execute)

lemma steps_execute_approved: "moves (kernel_steps (ar_kernel R)) (execute_approved R req)"
  unfolding execute_approved_def Let_def
  by (intro moves_intros kernel_steps_order steps_load steps_start_and_execute)

lemma world_deny_and_audit: "moves same_world (deny_and_audit R c q k reason actor)"
  unfolding deny_and_audit_def
  by (intro moves_intros same_world_order world_in_kernel world_record_audit)


text \<open>Unless the action is approved, executing it is an error and does not touch anything.\<close>

lemma execute_unapproved:
  assumes "jo_load (kd_journal (ar_kernel R)) (xq_conversation_id req) (ks_journal (rt_kernel s)) = Inr es"
    and "\<And>x. action_of (project es) (xq_action_id req) = Some x \<Longrightarrow> ca_status x \<noteq> ActApproved"
  shows "\<exists>e. execute_approved R req s = (Inl e, s)"
  using assms
  by (auto simp: execute_approved_def Let_def in_kernel_def load_state_run andThen_def raise_def
      split: option.split)

section \<open>Runtime histories\<close>

text \<open>
  Any interleaving of whole runtime calls with kernel commands issued by other clients,
  approvals among them.
\<close>

inductive runtime_reach ::
    "('j, 'e, 'x, 'l) action_runtime \<Rightarrow> ('j, 'x, 'l) runtime_state \<Rightarrow> ('j, 'x, 'l) runtime_state \<Rightarrow> bool"
  for R s0 where
  start: "runtime_reach R s0 s0"
| process: "runtime_reach R s0 s \<Longrightarrow> runtime_reach R s0 (snd (process R req s))"
| execute: "runtime_reach R s0 s \<Longrightarrow> runtime_reach R s0 (snd (execute_approved R req' s))"
| command: "runtime_reach R s0 s \<Longrightarrow> runtime_reach R s0 (snd (in_kernel (dispatch (ar_kernel R) cmd) s))"

lemma runtime_reach_kernel:
  "runtime_reach R s0 s \<Longrightarrow> kernel_reach (ar_kernel R) (rt_kernel s0) (rt_kernel s)"
proof (induction rule: runtime_reach.induct)
  case start
  show ?case by (rule kernel_reach.start)
next
  case (process s req)
  then show ?case
    using steps_process [of R req] by (auto simp: moves_def kernel_steps_def intro: kernel_reach_trans)
next
  case (execute s req)
  then show ?case
    using steps_execute_approved [of R req] by (auto simp: moves_def kernel_steps_def intro: kernel_reach_trans)
next
  case (command s cmd)
  then show ?case
    by (auto simp: in_kernel_def Let_def intro: kernel_reach.step split: prod.split)
qed

section \<open>Results over the in-memory journal\<close>

lemma record_event_project:
  assumes "kd_journal D = memory_ops" and "record_event D c checks actor ev k = (Inr u, k')"
  shows "checks (project (history k c)) = Inr () \<and>
    (\<exists>now. project (history k' c) = apply_event (project (history k c)) (ev now))"
proof -
  have "checks (project (history k c)) = Inr () \<and>
      (\<exists>e. history k' c = history k c @ [e] \<and> (\<exists>now. env_event e = ev now))"
    using assms(2)
    by (auto simp: record_event_memory [OF assms(1)] Let_def history_def split: sum.splits)
  then show ?thesis by (auto simp: project_snoc)
qed

lemma in_kernel_Inr_iff:
  "in_kernel m s = (Inr x, s') \<longleftrightarrow> (\<exists>k. m (rt_kernel s) = (Inr x, k) \<and> s' = s\<lparr>rt_kernel := k\<rparr>)"
  by (cases "m (rt_kernel s)") (auto simp: in_kernel_def split: sum.splits, (case_tac a; simp)+)

lemma record_audit_Inr_iff:
  "record_audit R inp s = (Inr u, s') \<longleftrightarrow>
     (\<exists>ev l. build_audit_event (ar_to_text R) inp (ar_now R (rt_ticks s)) = Some ev \<and>
        ar_record R ev (rt_audit s) = (Inr (), l) \<and> s' = s\<lparr>rt_audit := l, rt_ticks := rt_ticks s + 1\<rparr>)"
  by (cases "build_audit_event (ar_to_text R) inp (ar_now R (rt_ticks s))")
     (auto simp: record_audit_def split: prod.splits sum.splits, (case_tac x1; simp)+)

text \<open>What an outcome says about the action in the kernel.\<close>

fun outcome_action :: "action_outcome \<Rightarrow> action_id" where
  "outcome_action (OutCompleted a res) = a"
| "outcome_action (OutApprovalRequired a reason) = a"
| "outcome_action (OutDenied a reason) = a"
| "outcome_action (OutFailed a msg) = a"

fun outcome_status :: "action_outcome \<Rightarrow> string" where
  "outcome_status (OutCompleted a res) = ''completed''"
| "outcome_status (OutApprovalRequired a reason) = ''approval_required''"
| "outcome_status (OutDenied a reason) = ''denied''"
| "outcome_status (OutFailed a msg) = ''failed''"

fun outcome_recorded :: "action_outcome \<Rightarrow> conversation_action_state \<Rightarrow> bool" where
  "outcome_recorded (OutCompleted a res) x \<longleftrightarrow> ca_status x = ActCompleted \<and> ca_result x = Some res"
| "outcome_recorded (OutApprovalRequired a reason) x \<longleftrightarrow>
     ca_status x = ActApprovalRequired \<and> ca_approval_required_reason x = Some reason"
| "outcome_recorded (OutDenied a reason) x \<longleftrightarrow> ca_status x = ActDenied \<and> ca_denial_reason x = Some reason"
| "outcome_recorded (OutFailed a msg) x \<longleftrightarrow> ca_status x = ActFailed \<and> ca_error_message x = Some msg"

text \<open>The kernel and the audit log agree with an outcome reached from a state.\<close>

definition settled ::
    "('j, 'e, 'x, 'l) action_runtime \<Rightarrow> conversation_id \<Rightarrow> action_id \<Rightarrow> action_request \<Rightarrow> string \<Rightarrow>
     action_outcome \<Rightarrow> (memory_journal, 'x, 'l) runtime_state \<Rightarrow>
     (memory_journal, 'x, 'l) runtime_state \<Rightarrow> bool" where
  "settled R c a q decision out s s' \<longleftrightarrow>
     outcome_action out = a \<and>
     (\<exists>x. action_of (project (history (rt_kernel s') c)) a = Some x \<and> outcome_recorded out x) \<and>
     (\<exists>ev. ar_record R ev (rt_audit s) = (Inr (), rt_audit s') \<and>
        au_action_id ev = action_text (req_action_id q) \<and> au_policy_decision ev = decision \<and>
        au_result_status ev = outcome_status out)"

lemma build_audit_fields:
  "build_audit_event f inp now = Some ev \<Longrightarrow>
   au_action_id ev = action_text (req_action_id (ai_request inp)) \<and>
   au_policy_decision ev = ai_policy_decision inp \<and> au_result_status ev = ai_result_status inp"
  by (auto simp: build_audit_event_def Let_def)

lemma deny_action_recorded:
  assumes "kd_journal D = memory_ops" and "deny_action D cmd k = (Inr u, k')"
  shows "\<exists>x. action_of (project (history k' (cda_conversation_id cmd))) (cda_action_id cmd) = Some x \<and>
    outcome_recorded (OutDenied b (cda_reason cmd)) x"
  using record_event_project [OF assms(1) assms(2) [unfolded deny_action_def]]
  by (auto simp: validate_action_not_terminal_iff modify_action_def)

lemma require_approval_recorded:
  assumes "kd_journal D = memory_ops" and "require_action_approval D cmd k = (Inr u, k')"
  shows "\<exists>x. action_of (project (history k' (craa_conversation_id cmd))) (craa_action_id cmd) = Some x \<and>
    outcome_recorded (OutApprovalRequired b (craa_reason cmd)) x"
  using record_event_project [OF assms(1) assms(2) [unfolded require_action_approval_def]]
  by (auto simp: validate_action_not_terminal_iff modify_action_def)

lemma complete_action_recorded:
  assumes "kd_journal D = memory_ops" and "complete_action D cmd k = (Inr u, k')"
  shows "\<exists>x. action_of (project (history k' (ccoa_conversation_id cmd))) (ccoa_action_id cmd) = Some x \<and>
    outcome_recorded (OutCompleted b (ccoa_result cmd)) x"
  using record_event_project [OF assms(1) assms(2) [unfolded complete_action_def]]
  by (auto simp: bind_result_Inr_iff validate_action_exists_iff modify_action_def)

lemma fail_action_recorded:
  assumes "kd_journal D = memory_ops" and "fail_action D cmd k = (Inr u, k')"
  shows "\<exists>x. action_of (project (history k' (cfa_conversation_id cmd))) (cfa_action_id cmd) = Some x \<and>
    outcome_recorded (OutFailed b (cfa_error_message cmd)) x"
  using record_event_project [OF assms(1) assms(2) [unfolded fail_action_def]]
  by (auto simp: bind_result_Inr_iff validate_action_exists_iff modify_action_def)

lemma link_keeps_actions:
  assumes "kd_journal (ar_kernel R) = memory_ops" and "link_artifact_result R c res actor s = (Inr u, s')"
  shows "cs_actions (project (history (rt_kernel s') c)) = cs_actions (project (history (rt_kernel s) c))"
    and "rt_audit s' = rt_audit s" and "rt_world s' = rt_world s"
proof -
  have "s' = s \<or> (\<exists>artifact k. link_artifact (ar_kernel R)
      \<lparr>cla_conversation_id = c, cla_artifact = artifact, cla_linked_by = actor\<rparr> (rt_kernel s) = (Inr u, k) \<and>
      s' = s\<lparr>rt_kernel := k\<rparr>)"
    using assms(2)
    by (auto simp: link_artifact_result_def in_kernel_Inr_iff
        split: action_result_payload.splits option.splits sum.splits)
  moreover have "cs_actions (project (history k c)) = cs_actions (project (history k0 c))"
    if "link_artifact (ar_kernel R)
      \<lparr>cla_conversation_id = c, cla_artifact = artifact, cla_linked_by = actor\<rparr> k0 = (Inr u, k)" for artifact k k0
    using record_event_project [OF assms(1) that [unfolded link_artifact_def, simplified]] by auto
  ultimately show "cs_actions (project (history (rt_kernel s') c)) = cs_actions (project (history (rt_kernel s) c))"
    and "rt_audit s' = rt_audit s" and "rt_world s' = rt_world s"
    by auto
qed

lemma deny_and_audit_settled:
  assumes "kd_journal (ar_kernel R) = memory_ops" and "deny_and_audit R c q k reason actor s = (Inr out, s')"
  shows "settled R c (req_action_id q) q ''deny'' out s s'"
proof -
  obtain k1 ev l where deny: "deny_action (ar_kernel R) \<lparr>cda_conversation_id = c,
      cda_action_id = req_action_id q, cda_reason = reason, cda_denied_by = actor\<rparr> (rt_kernel s) = (Inr (), k1)"
    and ev: "build_audit_event (ar_to_text R) \<lparr>ai_request = q, ai_side_effect = k,
      ai_policy_decision = ''deny'', ai_result_status = ''denied'', ai_result_summary = Some reason,
      ai_approved_by = None\<rparr> (ar_now R (rt_ticks s)) = Some ev" "ar_record R ev (rt_audit s) = (Inr (), l)"
    and s': "out = OutDenied (req_action_id q) reason"
      "s' = s\<lparr>rt_kernel := k1, rt_audit := l, rt_ticks := rt_ticks s + 1\<rparr>"
    using assms(2) by (auto simp: deny_and_audit_def andThen_Inr_iff in_kernel_Inr_iff record_audit_Inr_iff)
  from deny_action_recorded [OF assms(1) deny] build_audit_fields [OF ev(1)] ev(2) show ?thesis
    by (auto simp: settled_def s')
qed

lemma deny_and_audit_outcome:
  "deny_and_audit R c q k reason actor s = (Inr out, s') \<Longrightarrow> out = OutDenied (req_action_id q) reason"
  by (auto simp: deny_and_audit_def andThen_Inr_iff in_kernel_Inr_iff record_audit_Inr_iff)

lemma run_executor_Inr_iff:
  "run_executor R q s = (Inr x, s') \<longleftrightarrow>
     (\<exists>w. ar_execute R q (rt_world s) = (x, w) \<and> s' = s\<lparr>rt_world := w\<rparr>)"
  by (auto simp: run_executor_def split: prod.split)

text \<open>What is recorded of an execution is what the executor returned.\<close>

definition executed ::
    "('j, 'e, 'x, 'l) action_runtime \<Rightarrow> action_id \<Rightarrow> action_request \<Rightarrow> action_outcome \<Rightarrow> 'x \<Rightarrow> 'x \<Rightarrow> bool" where
  "executed R a q out w w' \<longleftrightarrow>
     (\<exists>r. ar_execute R q w = (r, w') \<and>
        out = (case r of Inr res \<Rightarrow> OutCompleted a res
               | Inl err \<Rightarrow> OutFailed a (action_executor_error_message err)))"

lemma start_and_execute_settled:
  assumes mem: "kd_journal (ar_kernel R) = memory_ops"
    and run: "start_and_execute R c a q k d ab actor s = (Inr out, s')"
  shows "settled R c a q d out s s' \<and> executed R a q out (rt_world s) (rt_world s')"
proof -
  obtain k1 r w where start: "start_action (ar_kernel R)
      \<lparr>csa_conversation_id = c, csa_action_id = a, csa_started_by = actor\<rparr> (rt_kernel s) = (Inr (), k1)"
    and exec: "ar_execute R q (rt_world s) = (r, w)"
    using run
    by (auto simp: start_and_execute_def andThen_Inr_iff in_kernel_Inr_iff run_executor_Inr_iff Let_def)
  let ?s2 = "s\<lparr>rt_kernel := k1, rt_world := w\<rparr>"
  show ?thesis
  proof (cases r)
    case (Inl err)
    let ?msg = "action_executor_error_message err"
    from run start exec Inl obtain k2 ev l where
      fail: "fail_action (ar_kernel R) \<lparr>cfa_conversation_id = c, cfa_action_id = a,
        cfa_error_message = ?msg, cfa_failed_by = actor\<rparr> k1 = (Inr (), k2)"
      and ev: "build_audit_event (ar_to_text R) \<lparr>ai_request = q, ai_side_effect = Some k,
        ai_policy_decision = d, ai_result_status = ''failed'', ai_result_summary = Some ?msg,
        ai_approved_by = ab\<rparr> (ar_now R (rt_ticks s)) = Some ev" "ar_record R ev (rt_audit s) = (Inr (), l)"
      and s': "out = OutFailed a ?msg"
        "s' = ?s2\<lparr>rt_kernel := k2, rt_audit := l, rt_ticks := rt_ticks s + 1\<rparr>"
      by (auto simp: start_and_execute_def andThen_Inr_iff in_kernel_Inr_iff run_executor_Inr_iff
          record_audit_Inr_iff Let_def)
    from fail_action_recorded [OF mem fail] build_audit_fields [OF ev(1)] ev(2) exec Inl show ?thesis
      by (auto simp: settled_def executed_def s')
  next
    case (Inr res)
    from run start exec Inr obtain k2 s3 ev l where
      complete: "complete_action (ar_kernel R) \<lparr>ccoa_conversation_id = c, ccoa_action_id = a,
        ccoa_result = res, ccoa_completed_by = actor\<rparr> k1 = (Inr (), k2)"
      and link: "link_artifact_result R c res actor (?s2\<lparr>rt_kernel := k2\<rparr>) = (Inr (), s3)"
      and ev: "build_audit_event (ar_to_text R) \<lparr>ai_request = q, ai_side_effect = Some k,
        ai_policy_decision = d, ai_result_status = ''completed'', ai_result_summary = Some (res_summary res),
        ai_approved_by = ab\<rparr> (ar_now R (rt_ticks s3)) = Some ev" "ar_record R ev (rt_audit s3) = (Inr (), l)"
      and s': "out = OutCompleted a res" "s' = s3\<lparr>rt_audit := l, rt_ticks := rt_ticks s3 + 1\<rparr>"
      by (auto simp: start_and_execute_def andThen_Inr_iff in_kernel_Inr_iff run_executor_Inr_iff
          record_audit_Inr_iff Let_def)
    from complete_action_recorded [OF mem complete, of a] build_audit_fields [OF ev(1)] ev(2) exec Inr
      link_keeps_actions [OF mem link]
    show ?thesis by (auto simp: settled_def executed_def s')
  qed
qed

lemma judge_holds:
  assumes "kd_journal (ar_kernel R) = memory_ops"
    and "judge R c q actor s = (Inr (OutApprovalRequired a reason), s')"
  shows "\<exists>x. action_of (project (history (rt_kernel s') c)) a = Some x \<and> ca_status x = ActApprovalRequired"
proof (cases "get_action (ar_registry R) (req_action_kind q)")
  case None
  with assms(2) deny_and_audit_outcome show ?thesis by (fastforce simp: judge_def Let_def)
next
  case (Some sch)
  show ?thesis
  proof (cases "evaluate (ar_policy R) q (sch_side_effect sch)")
    case PolicyAllow
    with Some assms(2) have "executed R (req_action_id q) q (OutApprovalRequired a reason) (rt_world s) (rt_world s')"
      using start_and_execute_settled [OF assms(1)] by (auto simp: judge_def Let_def)
    then obtain r where "OutApprovalRequired a reason = (case r of Inr res \<Rightarrow> OutCompleted (req_action_id q) res
        | Inl err \<Rightarrow> OutFailed (req_action_id q) (action_executor_error_message err))"
      by (auto simp: executed_def)
    then show ?thesis by (cases r) simp_all
  next
    case (PolicyAsk why)
    with Some assms(2) obtain k1 where
      "require_action_approval (ar_kernel R) \<lparr>craa_conversation_id = c, craa_action_id = a,
         craa_reason = why, craa_required_by = actor\<rparr> (rt_kernel s) = (Inr (), k1)"
      and "rt_kernel s' = k1"
      by (auto simp: judge_def Let_def andThen_Inr_iff in_kernel_Inr_iff record_audit_Inr_iff)
    from require_approval_recorded [OF assms(1) this(1), of a] this(2) show ?thesis by auto
  next
    case (PolicyDeny why)
    with Some assms(2) deny_and_audit_outcome show ?thesis by (fastforce simp: judge_def Let_def)
  qed
qed

lemma unapproved_stays:
  "allowed_seq st evs \<Longrightarrow> action_in st a {ActApprovalRequired, ActDenied} \<Longrightarrow>
   \<forall>ev \<in> set evs. \<not> requests_action a ev \<and> \<not> approves_action a ev \<Longrightarrow>
   action_in (foldl apply_event st evs) a {ActApprovalRequired, ActDenied}"
proof (induction evs arbitrary: st)
  case Nil
  then show ?case by simp
next
  case (Cons ev evs)
  then have "action_in (apply_event st ev) a {ActApprovalRequired, ActDenied}"
    using unapproved_step [of st ev a] by auto
  with Cons show ?case by auto
qed

text \<open>
  What the action runtime reports is what happened. When processing a request returns
  an outcome, the kernel's record of the action has exactly the status and the result,
  reason or error of the outcome; one audit event was written, for that action, with the
  outcome's status and the policy's decision; and the executor ran, once, if and only if
  the kind is registered and the policy allows the action, the reported result or failure
  being what it returned. An unregistered kind is denied.
\<close>

lemma process_outcome_correct:
  assumes "kd_journal (ar_kernel R) = memory_ops" and "process R req s = (Inr out, s')"
  shows "let q = pq_action_request req; a = req_action_id q; c = pq_conversation_id req in
    case get_action (ar_registry R) (req_action_kind q) of
      None \<Rightarrow> settled R c a q ''deny'' out s s' \<and> (\<exists>reason. out = OutDenied a reason) \<and>
              rt_world s' = rt_world s
    | Some sch \<Rightarrow>
        (case evaluate (ar_policy R) q (sch_side_effect sch) of
           PolicyAllow \<Rightarrow> settled R c a q ''allow'' out s s' \<and> executed R a q out (rt_world s) (rt_world s')
         | PolicyAsk reason \<Rightarrow> settled R c a q ''ask'' out s s' \<and> out = OutApprovalRequired a reason \<and>
              rt_world s' = rt_world s
         | PolicyDeny reason \<Rightarrow> settled R c a q ''deny'' out s s' \<and> out = OutDenied a reason \<and>
              rt_world s' = rt_world s)"
proof -
  let ?q = "pq_action_request req" and ?c = "pq_conversation_id req" and ?actor = "pq_runtime_actor req"
  let ?a = "req_action_id ?q"
  obtain k where k: "judge R ?c ?q ?actor (s\<lparr>rt_kernel := k\<rparr>) = (Inr out, s')"
    using assms(2) by (auto simp: process_def andThen_Inr_iff in_kernel_Inr_iff)
  define s1 where "s1 = s\<lparr>rt_kernel := k\<rparr>"
  then have s1: "rt_audit s1 = rt_audit s" "rt_world s1 = rt_world s" "rt_ticks s1 = rt_ticks s"
    by simp_all
  have rest: "judge R ?c ?q ?actor s1 = (Inr out, s')" using k by (simp add: s1_def)
  note rest = rest [unfolded judge_def Let_def]
  have moved: "settled R ?c ?a ?q d out s1 s' \<Longrightarrow> settled R ?c ?a ?q d out s s'" for d
    using s1 by (simp add: settled_def)
  have denied: "settled R ?c ?a ?q ''deny'' out s s' \<and> out = OutDenied ?a reason \<and> rt_world s' = rt_world s"
    if "deny_and_audit R ?c ?q k reason ?actor s1 = (Inr out, s')" for k reason
  proof -
    have "out = OutDenied ?a reason" by (rule deny_and_audit_outcome [OF that])
    moreover have "rt_world s' = rt_world s1"
      using world_deny_and_audit [of R ?c ?q k reason ?actor, unfolded moves_def, rule_format, of s1] that
      by (simp add: same_world_def)
    ultimately show ?thesis
      using moved deny_and_audit_settled [OF assms(1) that] s1 by simp
  qed
  show ?thesis
  proof (cases "get_action (ar_registry R) (req_action_kind ?q)")
    case None
    with rest denied show ?thesis by (auto simp: Let_def)
  next
    case (Some sch)
    show ?thesis
    proof (cases "evaluate (ar_policy R) ?q (sch_side_effect sch)")
      case PolicyAllow
      with Some rest start_and_execute_settled [OF assms(1)] moved s1 show ?thesis
        by (fastforce simp: Let_def)
    next
      case (PolicyAsk reason)
      with Some rest obtain k1 ev l where
        req: "require_action_approval (ar_kernel R) \<lparr>craa_conversation_id = ?c, craa_action_id = ?a,
          craa_reason = reason, craa_required_by = ?actor\<rparr> (rt_kernel s1) = (Inr (), k1)"
        and ev: "build_audit_event (ar_to_text R) \<lparr>ai_request = ?q,
          ai_side_effect = Some (sch_side_effect sch), ai_policy_decision = ''ask'',
          ai_result_status = ''approval_required'', ai_result_summary = Some reason,
          ai_approved_by = None\<rparr> (ar_now R (rt_ticks s1)) = Some ev" "ar_record R ev (rt_audit s1) = (Inr (), l)"
        and s': "out = OutApprovalRequired ?a reason"
          "s' = s1\<lparr>rt_kernel := k1, rt_audit := l, rt_ticks := rt_ticks s1 + 1\<rparr>"
        by (auto simp: andThen_Inr_iff in_kernel_Inr_iff record_audit_Inr_iff)
      from require_approval_recorded [OF assms(1) req] build_audit_fields [OF ev(1)] ev(2)
      have "settled R ?c ?a ?q ''ask'' out s1 s'" by (auto simp: settled_def s')
      with moved Some PolicyAsk s' s1 show ?thesis by (simp add: Let_def)
    next
      case (PolicyDeny reason)
      with Some rest denied show ?thesis by (auto simp: Let_def)
    qed
  qed
qed

text \<open>A small deployment: a kind that is only read, one that sends, and an executor that logs its calls.\<close>

definition demo_schema :: "string \<Rightarrow> side_effect_kind \<Rightarrow> action_schema" where
  "demo_schema kind k =
     \<lparr>sch_kind = ActionKind kind, sch_display_name = kind, sch_description = [], sch_side_effect = k,
      sch_input_schema = None, sch_output_schema = None\<rparr>"

definition demo_runtime ::
    "string \<Rightarrow> (memory_journal, string, action_request list, audit_event list) action_runtime" where
  "demo_runtime txt =
     \<lparr>ar_kernel = demo_deps,
      ar_registry = [(''mail.read'', demo_schema ''mail.read'' ReadOnly),
                     (''mail.send'', demo_schema ''mail.send'' NetworkAccess)],
      ar_policy = default_safe,
      ar_execute = (\<lambda>q w. (Inr (static_execute ''ok'' 7 q), w @ [q])),
      ar_record = (\<lambda>ev l. (Inr (), l @ [ev])),
      ar_resolver = None, ar_to_text = (\<lambda>_. txt), ar_now = int\<rparr>"

definition demo_process :: "string \<Rightarrow> process_request" where
  "demo_process kind =
     \<lparr>pq_conversation_id = demo_conversation,
      pq_action_request = demo_action\<lparr>req_action_kind := ActionKind kind\<rparr>,
      pq_requested_by = Some (p_id bot), pq_runtime_actor = None\<rparr>"

definition demo_start_state :: "(memory_journal, action_request list, audit_event list) runtime_state" where
  "demo_start_state =
     \<lparr>rt_kernel = after [demo_create], rt_world = [], rt_audit = [], rt_ticks = 0\<rparr>"

lemma process_outcome_correct_witness:
  "executed (demo_runtime ''{}'') (ActionId ''a1'') (pq_action_request (demo_process ''mail.read''))
     (OutCompleted (ActionId ''a1'') (static_execute ''ok'' 7 (pq_action_request (demo_process ''mail.read''))))
     [] [pq_action_request (demo_process ''mail.read'')]"
proof -
  let ?R = "demo_runtime ''{}''" and ?req = "demo_process ''mail.read''"
  let ?q = "pq_action_request ?req"
  have "map_prod (\<lambda>r. r = Inr (OutCompleted (ActionId ''a1'') (static_execute ''ok'' 7 ?q))) rt_world
      (process ?R ?req demo_start_state) = (True, [?q])"
    by code_simp
  then obtain s' where run: "process ?R ?req demo_start_state =
      (Inr (OutCompleted (ActionId ''a1'') (static_execute ''ok'' 7 ?q)), s')" "rt_world s' = [?q]"
    by (cases "process ?R ?req demo_start_state") auto
  have "kd_journal (ar_kernel ?R) = memory_ops"
    by (simp add: demo_runtime_def)
  moreover have "get_action (ar_registry ?R) (req_action_kind ?q) = Some (demo_schema ''mail.read'' ReadOnly)"
    "evaluate (ar_policy ?R) ?q ReadOnly = PolicyAllow" "sch_side_effect (demo_schema ''mail.read'' ReadOnly) = ReadOnly"
    "req_action_id ?q = ActionId ''a1''" "rt_world demo_start_state = []"
    by code_simp+
  ultimately show ?thesis
    using process_outcome_correct [OF _ run(1)] run(2) by (simp add: Let_def)
qed

section \<open>No execution without approval\<close>

text \<open>
  An action that the policy asks about runs only after a human approved it. Suppose
  the runtime, in a state reached from an empty journal, held an action for approval. In
  every later state, whatever the runtime and other clients of the kernel did in between,
  as long as the action was neither approved nor requested again, executing it is refused
  and changes nothing at all: not the world, not the kernel, not the audit log.
\<close>

lemma held_action_stays_refused:
  assumes "kernel_reach (ar_kernel R) \<lparr>ks_journal = [], ks_ids = 0, ks_ticks = 0\<rparr> (rt_kernel s0)"
    and deps: "kd_journal (ar_kernel R) = memory_ops" "order_ok (ar_kernel R)" "inj (kd_new_id (ar_kernel R))"
    and held: "process R req s0 = (Inr (OutApprovalRequired a reason), s1)"
    and later: "runtime_reach R s1 s2" and c: "c = pq_conversation_id req"
    and no_approval: "\<not> (\<exists>e \<in> set (drop (length (history (rt_kernel s1) c)) (history (rt_kernel s2) c)).
      approves_action a (env_event e) \<or> requests_action a (env_event e))"
  shows "\<exists>e. execute_approved R \<lparr>xq_conversation_id = c, xq_action_id = a, xq_runtime_actor = actor\<rparr> s2 = (Inl e, s2)"
proof -
  have reach1: "kernel_reach (ar_kernel R) \<lparr>ks_journal = [], ks_ids = 0, ks_ticks = 0\<rparr> (rt_kernel s1)"
    using steps_process [of R req, unfolded moves_def, rule_format, of s0] held assms(1)
    by (auto simp: kernel_steps_def intro: kernel_reach_trans)
  obtain k where judged: "judge R c (pq_action_request req) (pq_runtime_actor req) (s0\<lparr>rt_kernel := k\<rparr>) =
      (Inr (OutApprovalRequired a reason), s1)"
    using held c by (auto simp: process_def andThen_Inr_iff in_kernel_Inr_iff)
  have "action_in (project (history (rt_kernel s1) c)) a {ActApprovalRequired, ActDenied}"
    using judge_holds [OF deps(1) judged] by (auto simp: action_in_def)
  moreover obtain tail where tail: "history (rt_kernel s2) c = history (rt_kernel s1) c @ tail"
    "allowed_seq (project (history (rt_kernel s1) c)) (map env_event tail)"
    using reachable_extension [OF reach1 runtime_reach_kernel [OF later] deps] by blast
  moreover have "\<forall>ev \<in> set (map env_event tail). \<not> requests_action a ev \<and> \<not> approves_action a ev"
    using no_approval tail(1) by auto
  ultimately have "action_in (foldl apply_event (project (history (rt_kernel s1) c)) (map env_event tail)) a
      {ActApprovalRequired, ActDenied}"
    using unapproved_stays by blast
  then have "action_in (project (history (rt_kernel s2) c)) a {ActApprovalRequired, ActDenied}"
    by (simp add: tail(1) project_append foldl_apply_event)
  then have "ca_status x \<noteq> ActApproved" if "action_of (project (history (rt_kernel s2) c)) a = Some x" for x
    using that by (auto simp: action_in_def)
  then show ?thesis
    by (intro execute_unapproved) (auto simp: deps(1) memory_load_history)
qed













section \<open>Actions that cannot be audited\<close>

lemma in_kernel_event:
  assumes "kd_journal D = memory_ops" and "checks (project (history (rt_kernel s) c)) = Inr ()"
  shows "\<exists>k now. in_kernel (record_event D c checks actor ev) s = (Inr (), s\<lparr>rt_kernel := k\<rparr>) \<and>
    project (history k c) = apply_event (project (history (rt_kernel s) c)) (ev now)"
proof -
  obtain k where k: "record_event D c checks actor ev (rt_kernel s) = (Inr (), k)"
    using assms(2) by (simp add: record_event_memory [OF assms(1)] Let_def)
  with record_event_project [OF assms(1) k] show ?thesis by (auto simp: in_kernel_def)
qed

lemma summarize_input_None:
  "summarize_input txt = None \<longleftrightarrow> 200 < length txt \<and> is_continuation (txt ! 200)"
  by (auto simp: summarize_input_def slice_to_def is_char_boundary_def)

text \<open>
  An input whose text has a multi-byte character across byte 200 defeats the audit log.
  The runtime panics when it summarizes such an input, after the fact: an action that the
  policy allows has then been executed and is recorded as completed in the kernel, while
  the call returns no outcome and no audit event is written.
\<close>

lemma unauditable_action_executed:
  assumes mem: "kd_journal (ar_kernel R) = memory_ops"
    and conv: "c = pq_conversation_id req" "has_session (project (history (rt_kernel s) c))"
    and actors: "actor_ok (project (history (rt_kernel s) c)) (pq_requested_by req)"
      "actor_ok (project (history (rt_kernel s) c)) (pq_runtime_actor req)"
    and q: "q = pq_action_request req" "get_action (ar_registry R) (req_action_kind q) = Some sch"
    and allowed: "evaluate (ar_policy R) q (sch_side_effect sch) = PolicyAllow"
    and exec: "ar_execute R q (rt_world s) = (Inr res, w)" "res_payload res = PText txt"
    and input: "200 < length (ar_to_text R (req_input q))" "is_continuation (ar_to_text R (req_input q) ! 200)"
  shows "let (r, s') = process R req s in
     r = Inl RtPanic \<and> rt_world s' = w \<and> rt_audit s' = rt_audit s \<and>
     (\<exists>x. action_of (project (history (rt_kernel s') c)) (req_action_id q) = Some x \<and>
        ca_status x = ActCompleted \<and> ca_result x = Some res)"
proof -
  let ?st = "project (history (rt_kernel s) c)" and ?D = "ar_kernel R" and ?a = "req_action_id q"
  let ?actor = "pq_runtime_actor req"
  have audit: "record_audit R \<lparr>ai_request = q, ai_side_effect = k, ai_policy_decision = d,
      ai_result_status = st, ai_result_summary = sm, ai_approved_by = ab\<rparr> s1 = (Inl RtPanic, s1)" for k d st sm ab s1
    using input by (simp add: record_audit_def build_audit_event_def summarize_input_None [THEN iffD2])
  have actor: "validate_optional_actor st ?actor f = Inr ()" "validate_optional_actor st (pq_requested_by req) f = Inr ()"
    if "cs_participants st = cs_participants ?st" for st f
    using actors that by (simp_all add: actor_ok_iff is_participant_def)
  obtain k1 where k1: "in_kernel (request_action ?D \<lparr>cra_conversation_id = c, cra_action_request = q,
      cra_requested_by = pq_requested_by req\<rparr>) s = (Inr (), s\<lparr>rt_kernel := k1\<rparr>)"
    "project (history k1 c) = apply_event ?st (ActionRequested q)"
    using in_kernel_event [OF mem, of "check_actor c (pq_requested_by req) ''requested_by''" s c
        "pq_requested_by req" "\<lambda>_. ActionRequested q"] conv(2) actor(2) [OF refl]
    by (auto simp: request_action_def check_actor_def)
  let ?s1 = "s\<lparr>rt_kernel := k1\<rparr>"
  obtain k2 where k2: "in_kernel (start_action ?D \<lparr>csa_conversation_id = c, csa_action_id = ?a,
      csa_started_by = ?actor\<rparr>) ?s1 = (Inr (), s\<lparr>rt_kernel := k2\<rparr>)"
    "project (history k2 c) = apply_event (project (history k1 c)) (ActionStarted ?a)"
    using in_kernel_event [OF mem, of "\<lambda>st. bind_result (validate_action_exists st c ?a) (\<lambda>action.
          both (check_startable ?a (ca_status action)) (validate_optional_actor st ?actor ''started_by''))" ?s1 c
        ?actor "\<lambda>_. ActionStarted ?a"] conv(2) actor(1)
    by (auto simp: start_action_def k1(2) bind_result_Inr_iff validate_action_exists_iff action_state_requested_def)
  let ?s2 = "s\<lparr>rt_kernel := k2, rt_world := w\<rparr>"
  obtain k3 where k3: "in_kernel (complete_action ?D \<lparr>ccoa_conversation_id = c, ccoa_action_id = ?a,
      ccoa_result = res, ccoa_completed_by = ?actor\<rparr>) ?s2 = (Inr (), s\<lparr>rt_world := w, rt_kernel := k3\<rparr>)"
    "project (history k3 c) = apply_event (project (history k2 c)) (ActionCompleted ?a res)"
    using in_kernel_event [OF mem, of "\<lambda>st. bind_result (validate_action_exists st c ?a) (\<lambda>action.
          both (ensure (ca_status action = ActStarted) (ActionNotStarted ?a))
            (validate_optional_actor st ?actor ''completed_by''))" ?s2 c
        ?actor "\<lambda>_. ActionCompleted ?a res"] conv(2) actor(1)
    by (auto simp: complete_action_def k1(2) k2(2) bind_result_Inr_iff validate_action_exists_iff
        action_state_requested_def modify_action_def)
  have "process R req s = (Inl RtPanic, s\<lparr>rt_world := w, rt_kernel := k3\<rparr>)"
    using q allowed exec
    by (simp add: process_def judge_def start_and_execute_def Let_def andThen_def k1(1) k2(1) k3(1)
        conv(1) [symmetric] q(1) [symmetric] run_executor_def link_artifact_result_def audit)
  moreover have "\<exists>x. action_of (project (history k3 c)) ?a = Some x \<and> ca_status x = ActCompleted \<and> ca_result x = Some res"
    by (simp add: k1(2) k2(2) k3(2) modify_action_def)
  ultimately show ?thesis by simp
qed

definition unlucky_text :: string where
  "unlucky_text = replicate 199 (CHR ''x'') @ [CHR 0xC3, CHR 0xA9]"

lemma unauditable_action_executed_witness:
  "let (r, s') = process (demo_runtime unlucky_text) (demo_process ''mail.read'') demo_start_state in
     r = Inl RtPanic \<and> rt_audit s' = [] \<and> length (rt_world s') = 1"
proof -
  let ?R = "demo_runtime unlucky_text" and ?req = "demo_process ''mail.read''"
  have "has_session (project (history (rt_kernel demo_start_state) demo_conversation))"
    "actor_ok (project (history (rt_kernel demo_start_state) demo_conversation)) (pq_requested_by ?req)"
    "actor_ok (project (history (rt_kernel demo_start_state) demo_conversation)) (pq_runtime_actor ?req)"
    "get_action (ar_registry ?R) (req_action_kind (pq_action_request ?req)) = Some (demo_schema ''mail.read'' ReadOnly)"
    "evaluate (ar_policy ?R) (pq_action_request ?req) (sch_side_effect (demo_schema ''mail.read'' ReadOnly)) = PolicyAllow"
    by code_simp+
  moreover have "200 < length (ar_to_text ?R (req_input (pq_action_request ?req)))"
    "is_continuation (ar_to_text ?R (req_input (pq_action_request ?req)) ! 200)"
    "res_payload (static_execute ''ok'' 7 (pq_action_request ?req)) = PText ''mail.read: ok''"
    "ar_execute ?R (pq_action_request ?req) (rt_world demo_start_state) =
       (Inr (static_execute ''ok'' 7 (pq_action_request ?req)), [pq_action_request ?req])"
    "pq_conversation_id ?req = demo_conversation" "rt_audit demo_start_state = []"
    "kd_journal (ar_kernel ?R) = memory_ops"
    by (simp_all add: demo_runtime_def demo_process_def demo_start_state_def unlucky_text_def
        static_execute_def is_continuation_def nth_append)
  ultimately show ?thesis
    using unauditable_action_executed [of ?R demo_conversation ?req demo_start_state "pq_action_request ?req"]
    by (auto split: prod.splits)
qed

end
