(* ===== verification/Action_Store.thy ===== *)
theory Action_Store
  imports Record_Log Action_Runtime
begin

text \<open>
  The store of action requests and their outcomes, in memory and over a log
  (\<open>agent-runtime/src/action_store.rs\<close>). An outcome is what the action runtime returned.
\<close>

section \<open>The store\<close>

record action_record =
  as_action_id :: action_id
  as_request :: action_request
  as_status :: action_status
  as_outcome :: "action_outcome option"
  as_audit_correlation_id :: string
  as_idempotency_key :: string
  as_requested_at :: datetime
  as_updated_at :: datetime

definition action_record_requested ::
    "datetime \<Rightarrow> action_request \<Rightarrow> string \<Rightarrow> string \<Rightarrow> action_record" where
  "action_record_requested now q audit_id key =
     \<lparr>as_action_id = req_action_id q, as_request = q, as_status = StPending, as_outcome = None,
      as_audit_correlation_id = audit_id, as_idempotency_key = key, as_requested_at = now, as_updated_at = now\<rparr>"

datatype (plugins only: code size) action_store_error =
    StoredActionNotFound string
  | StoredActionExists string
  | StoredActionCompleted string

type_synonym action_map = "(string, action_record) hmap"

abbreviation action_key :: "action_record \<Rightarrow> string" where
  "action_key r \<equiv> action_text (as_action_id r)"

fun status_from_outcome :: "action_outcome \<Rightarrow> action_status" where
  "status_from_outcome (OutCompleted a r) = StCompleted"
| "status_from_outcome (OutApprovalRequired a reason) = StApprovalRequired"
| "status_from_outcome (OutDenied a reason) = StDenied"
| "status_from_outcome (OutFailed a msg) = StFailed"

definition apply_outcome :: "datetime \<Rightarrow> action_outcome \<Rightarrow> action_record \<Rightarrow> action_store_error + action_record" where
  "apply_outcome now out r =
     (case as_outcome r of
        Some existing \<Rightarrow> if existing = out then Inr r else Inl (StoredActionCompleted (action_text (as_action_id r)))
      | None \<Rightarrow> Inr (r\<lparr>as_status := status_from_outcome out, as_outcome := Some out, as_updated_at := now\<rparr>))"

definition insert_request :: "action_record \<Rightarrow> (action_map, action_store_error, unit) prog" where
  "insert_request r m =
     (let i = action_text (as_action_id r) in
      if m_contains m i then (Inl (StoredActionExists i), m) else (Inr (), bt_put i r m))"

definition record_outcome ::
    "datetime \<Rightarrow> string \<Rightarrow> action_outcome \<Rightarrow> (action_map, action_store_error, action_record) prog" where
  "record_outcome now i out m =
     (case m_get m i of
        None \<Rightarrow> (Inl (StoredActionNotFound i), m)
      | Some r \<Rightarrow>
          (case apply_outcome now out r of
             Inl e \<Rightarrow> (Inl e, m)
           | Inr r' \<Rightarrow> (Inr r', bt_put i r' m)))"

datatype (plugins only: code size) action_store_op =
    InsertRequest action_record
  | RecordOutcome datetime string action_outcome

fun action_store_step :: "action_store_op \<Rightarrow> (action_map, action_store_error, action_record) prog" where
  "action_store_step (InsertRequest r) = andThen (insert_request r) (\<lambda>_. ret r)"
| "action_store_step (RecordOutcome now i out) = record_outcome now i out"

interpretation action_store: record_store action_key action_store_step
proof
  fix m m' :: action_map and op r
  assume "keyed action_key m" and "action_store_step op m = (Inr r, m')"
  then show "m' = bt_put (action_key r) r m"
    by (cases op)
       (auto simp: insert_request_def record_outcome_def apply_outcome_def andThen_def keyed_def Let_def
         split: if_splits option.splits sum.splits)
next
  fix m m' :: action_map and op e
  assume "action_store_step op m = (Inl e, m')"
  then show "m' = m"
    by (cases op)
       (auto simp: insert_request_def record_outcome_def apply_outcome_def andThen_def Let_def
         split: if_splits option.splits sum.splits)
qed

section \<open>The store over a log\<close>

definition open_action_store ::
    "action_record line_codec \<Rightarrow> string option \<Rightarrow> log_error + (string, action_record) durable" where
  "open_action_store C f =
     bind_result (open_log C action_key f) (\<lambda>m.
       Inr \<lparr>dur_records = m, dur_file = Some (case f of None \<Rightarrow> [] | Some bs \<Rightarrow> bs)\<rparr>)"

text \<open>An outcome that was recorded before is not logged again.\<close>

fun jsonl_action_step ::
    "action_record line_codec \<Rightarrow> action_store_op \<Rightarrow>
     ((string, action_record) durable, action_store_error, action_record) prog" where
  "jsonl_action_step C (InsertRequest r) s = logged C (action_store_step (InsertRequest r)) s"
| "jsonl_action_step C (RecordOutcome now i out) s =
     (let existing = m_get (dur_records s) i in
      case record_outcome now i out (dur_records s) of
        (Inl e, m) \<Rightarrow> (Inl e, s\<lparr>dur_records := m\<rparr>)
      | (Inr r, m) \<Rightarrow>
          (Inr r, s\<lparr>dur_records := m, dur_file :=
             (if Option.bind existing as_outcome \<noteq> as_outcome r then append_record C r (dur_file s)
              else dur_file s)\<rparr>))"

lemma bt_put_same: "bt_inv m \<Longrightarrow> m_get m k = Some r \<Longrightarrow> bt_put k r m = m"
  by (rule bt_inv_eqI) auto

text \<open>A step on disk is the step in memory, logged unless it changed nothing.\<close>

lemma jsonl_action_step_cases:
  assumes "bt_inv (dur_records s)"
  shows "jsonl_action_step C op s = logged C (action_store_step op) s \<or>
    (\<exists>r. jsonl_action_step C op s = (Inr r, s) \<and> fst (action_store_step op (dur_records s)) = Inr r)"
proof (cases op)
  case (InsertRequest r)
  then show ?thesis by simp
next
  case (RecordOutcome now i out)
  show ?thesis
  proof (cases "m_get (dur_records s) i")
    case None
    with RecordOutcome show ?thesis by (simp add: record_outcome_def logged_def)
  next
    case (Some r)
    with RecordOutcome bt_put_same [OF assms Some] show ?thesis
      by (auto simp: record_outcome_def logged_def apply_outcome_def split: option.splits)
  qed
qed

lemma jsonl_action_in_sync:
  assumes "in_sync C action_key s" and "\<And>r. fst (jsonl_action_step C op s) = Inr r \<Longrightarrow> record_ok C r"
  shows "in_sync C action_key (snd (jsonl_action_step C op s))"
proof -
  have "bt_inv (dur_records s)" using in_sync_keyed [OF assms(1)] by (simp add: keyed_def)
  from jsonl_action_step_cases [OF this, of C op] show ?thesis
  proof
    assume eq: "jsonl_action_step C op s = logged C (action_store_step op) s"
    show ?thesis
      unfolding eq by (rule action_store.logged_in_sync [OF assms(1) prod.collapse [symmetric]])
        (rule assms(2), simp add: eq)
  qed (use assms(1) in auto)
qed

lemma action_reopen:
  assumes "in_sync C action_key s"
    and "\<forall>r \<in> set (snd (store_run (jsonl_action_step C) ops s)). record_ok C r"
  shows "in_sync C action_key (fst (store_run (jsonl_action_step C) ops s))"
  using assms
proof (induction ops arbitrary: s)
  case (Cons op ops)
  obtain x s' where step: "jsonl_action_step C op s = (x, s')" by (cases "jsonl_action_step C op s")
  have "in_sync C action_key s'"
    using jsonl_action_in_sync [OF Cons.prems(1), of op] Cons.prems(2) step by (simp add: split_beta)
  with Cons.IH [of s'] Cons.prems(2) step show ?case by (auto simp: split_beta split: sum.splits)
qed simp

section \<open>Properties\<close>

lemma action_keyed: "keyed action_key m \<Longrightarrow> keyed action_key (fst (store_run action_store_step ops m))"
  by (rule action_store.run_keyed)

lemma outcome_stays:
  assumes "m_get m i = Some r" and "as_outcome r = Some out"
  shows "m_get (fst (store_run action_store_step ops m)) i = Some r"
  using assms(1)
proof (induction ops arbitrary: m)
  case (Cons op ops)
  have "m_get (snd (action_store_step op m)) i = Some r"
    using Cons.prems assms(2)
    by (cases op) (auto simp: insert_request_def record_outcome_def apply_outcome_def andThen_def ret_def
        Let_def m_contains_def split: option.splits if_splits)
  with Cons.IH show ?case by (simp add: split_beta)
qed simp

text \<open>
  The outcome of an action is recorded once: after it is there, whatever operations
  run, the record stays as it is; recording the same outcome again succeeds and changes
  neither the store nor its file, and recording any other outcome is refused.
\<close>

lemma outcome_recorded_once:
  assumes "m_get (dur_records s) i = Some r" and "as_outcome r = Some out" and "keyed action_key (dur_records s)"
  shows "m_get (fst (store_run action_store_step ops (dur_records s))) i = Some r \<and>
    jsonl_action_step C (RecordOutcome now i out) s = (Inr r, s) \<and>
    (\<forall>out'. out' \<noteq> out \<longrightarrow> jsonl_action_step C (RecordOutcome now i out') s = (Inl (StoredActionCompleted i), s))"
proof -
  have "action_key r = i" using assms(1,3) by (simp add: keyed_def)
  then show ?thesis
    using outcome_stays [OF assms(1,2)] assms bt_put_same [of "dur_records s" i r]
    by (simp add: record_outcome_def apply_outcome_def keyed_def)
qed

definition demo_stored :: action_record where
  "demo_stored = action_record_requested 0
     \<lparr>req_action_id = ActionId ''a'', req_action_kind = ActionKind ''k'', req_input = JNull,
      req_requested_by = ''u'', req_conversation_id = None, req_message_id = None, req_requested_at = 0\<rparr> ''t'' ''i''"

definition demo_waiting :: action_record where
  "demo_waiting = demo_stored\<lparr>as_status := StApprovalRequired,
     as_outcome := Some (OutApprovalRequired (ActionId ''a'') ''ask''), as_updated_at := 1\<rparr>"

lemmas action_store_eval = demo_waiting_def demo_stored_def action_record_requested_def keyed_pairs bt_inv_def m_get_def

lemma outcome_recorded_once_witness:
  "jsonl_action_step C (RecordOutcome 2 ''a'' (OutApprovalRequired (ActionId ''a'') ''ask''))
     \<lparr>dur_records = [(''a'', demo_waiting)], dur_file = None\<rparr> =
   (Inr demo_waiting, \<lparr>dur_records = [(''a'', demo_waiting)], dur_file = None\<rparr>)"
  by (rule outcome_recorded_once [THEN conjunct2, THEN conjunct1]) (simp_all add: action_store_eval)

text \<open>
  What the runtime answers for an action that waits for approval is recorded like a
  final outcome, so what becomes of the action after the approval can never be recorded:
  completion, failure and denial are all refused as if the action had completed.
\<close>

lemma approval_outcome_blocks_completion:
  assumes "m_get m i = Some r" and "as_outcome r = None" and "keyed action_key m"
    and "\<forall>reason'. out \<noteq> OutApprovalRequired a reason'"
  shows "fst (record_outcome later i out
      (fst (store_run action_store_step (RecordOutcome now i (OutApprovalRequired a reason) # ops) m))) =
    Inl (StoredActionCompleted i)"
proof -
  let ?r = "r\<lparr>as_status := StApprovalRequired, as_outcome := Some (OutApprovalRequired a reason), as_updated_at := now\<rparr>"
  let ?m = "bt_put i ?r m"
  have step: "action_store_step (RecordOutcome now i (OutApprovalRequired a reason)) m = (Inr ?r, ?m)"
    using assms(1,2) by (simp add: record_outcome_def apply_outcome_def)
  have "m_get (fst (store_run action_store_step ops ?m)) i = Some ?r"
    by (rule outcome_stays [where out = "OutApprovalRequired a reason"]) simp_all
  moreover have "action_text (as_action_id r) = i" using assms(1,3) by (simp add: keyed_def)
  ultimately show ?thesis
    using assms(4) step by (auto simp: split_beta record_outcome_def apply_outcome_def)
qed

lemma approval_outcome_blocks_completion_witness:
  "fst (record_outcome 3 ''a'' (OutFailed (ActionId ''a'') ''boom'')
      (fst (store_run action_store_step [RecordOutcome 1 ''a'' (OutApprovalRequired (ActionId ''a'') ''ask'')]
        [(''a'', demo_stored)]))) = Inl (StoredActionCompleted ''a'')"
  by (rule approval_outcome_blocks_completion [where r = demo_stored]) (simp_all add: action_store_eval)

end
