(* ===== verification/Run_Store.thy ===== *)
theory Run_Store
  imports Record_Log Core_Types "HOL-Library.Product_Lexorder" "HOL-Library.Multiset"
begin

text \<open>
  Agent runs at rest: the run store, in memory and over a log
  (\<open>agent-runtime/src/run_store.rs\<close>), and the work queue with leases on top of it
  (\<open>agent-runtime/src/run_queue.rs\<close>).

  The clock readings of an operation are arguments. Times and durations are unbounded
  integers. The queue's operations hold a lock or are single store calls; each is one
  step here.
\<close>

section \<open>The store\<close>

datatype (plugins only: code size) durable_run_status =
    DrQueued | DrRunning | DrWaitingForApproval | DrCompleted | DrFailed | DrCancelled | DrTimedOut

definition run_status_is_terminal :: "durable_run_status \<Rightarrow> bool" where
  "run_status_is_terminal s \<longleftrightarrow> s = DrCompleted \<or> s = DrFailed \<or> s = DrCancelled \<or> s = DrTimedOut"

record agent_run_record =
  rr_run_id :: string
  rr_conversation_id :: conversation_id
  rr_trigger_message_id :: message_id
  rr_requested_by :: participant_id
  rr_run_status :: durable_run_status
  rr_created_at :: datetime
  rr_updated_at :: datetime
  rr_error_message :: "string option"

datatype (plugins only: code size) run_store_error =
    RunNotFound string
  | RunAlreadyExists string
  | RunInvalidTransition string durable_run_status durable_run_status

type_synonym run_map = "(string, agent_run_record) hmap"

definition is_valid_transition :: "durable_run_status \<Rightarrow> durable_run_status \<Rightarrow> bool" where
  "is_valid_transition from to \<longleftrightarrow>
     (if from = to then True
      else if run_status_is_terminal from then False
      else (from, to) \<in> {(DrQueued, DrRunning), (DrQueued, DrCancelled), (DrQueued, DrTimedOut),
        (DrRunning, DrQueued), (DrRunning, DrWaitingForApproval), (DrRunning, DrCompleted),
        (DrRunning, DrFailed), (DrRunning, DrCancelled), (DrRunning, DrTimedOut),
        (DrWaitingForApproval, DrRunning), (DrWaitingForApproval, DrCancelled),
        (DrWaitingForApproval, DrTimedOut)})"

definition transition_record ::
    "datetime \<Rightarrow> durable_run_status \<Rightarrow> agent_run_record \<Rightarrow> run_store_error + agent_run_record" where
  "transition_record now to r =
     (if \<not> is_valid_transition (rr_run_status r) to
      then Inl (RunInvalidTransition (rr_run_id r) (rr_run_status r) to)
      else Inr (r\<lparr>rr_run_status := to, rr_updated_at := now\<rparr>))"

definition insert_run :: "agent_run_record \<Rightarrow> (run_map, run_store_error, unit) prog" where
  "insert_run r m =
     (if m_contains m (rr_run_id r) then (Inl (RunAlreadyExists (rr_run_id r)), m)
      else (Inr (), bt_put (rr_run_id r) r m))"

definition transition_run ::
    "datetime \<Rightarrow> string \<Rightarrow> durable_run_status \<Rightarrow> (run_map, run_store_error, agent_run_record) prog" where
  "transition_run now i to m =
     (case m_get m i of
        None \<Rightarrow> (Inl (RunNotFound i), m)
      | Some r \<Rightarrow>
          (case transition_record now to r of
             Inl e \<Rightarrow> (Inl e, m)
           | Inr r' \<Rightarrow> (Inr r', bt_put i r' m)))"

text \<open>The store over a log: the operation in memory, then the record it left is appended.\<close>

datatype (plugins only: code size) run_op =
    InsertRun agent_run_record
  | TransitionRun datetime string durable_run_status

fun run_step :: "run_op \<Rightarrow> (run_map, run_store_error, agent_run_record) prog" where
  "run_step (InsertRun r) = andThen (insert_run r) (\<lambda>_. ret r)"
| "run_step (TransitionRun now i to) = transition_run now i to"

interpretation run_store: record_store rr_run_id run_step
proof
  fix m m' :: run_map and op r
  assume "keyed rr_run_id m" and "run_step op m = (Inr r, m')"
  then show "m' = bt_put (rr_run_id r) r m"
    by (cases op)
       (auto simp: insert_run_def transition_run_def transition_record_def andThen_def keyed_def
         split: if_splits option.splits sum.splits)
next
  fix m m' :: run_map and op e
  assume "run_step op m = (Inl e, m')"
  then show "m' = m"
    by (cases op)
       (auto simp: insert_run_def transition_run_def transition_record_def andThen_def
         split: if_splits option.splits sum.splits)
qed

definition open_run_store ::
    "agent_run_record line_codec \<Rightarrow> string option \<Rightarrow> log_error + (string, agent_run_record) durable" where
  "open_run_store C file =
     bind_result (open_log C rr_run_id file) (\<lambda>m.
       Inr \<lparr>dur_records = m, dur_file = Some (case file of None \<Rightarrow> [] | Some bs \<Rightarrow> bs)\<rparr>)"

definition jsonl_run_step ::
    "agent_run_record line_codec \<Rightarrow> run_op \<Rightarrow> ((string, agent_run_record) durable, run_store_error, agent_run_record) prog" where
  "jsonl_run_step C op = logged C (run_step op)"

section \<open>The queue\<close>

record agent_run_lease =
  le_run_id :: string
  le_leased_at :: datetime
  le_expires_at :: datetime

text \<open>The lease timeout as \<open>chrono::Duration::from_std\<close> converts it.\<close>

definition run_before :: "agent_run_record \<Rightarrow> agent_run_record \<Rightarrow> bool" where
  "run_before r r' \<longleftrightarrow>
     rr_created_at r < rr_created_at r' \<or> rr_created_at r = rr_created_at r' \<and> rr_run_id r < rr_run_id r'"

text \<open>\<open>min_by\<close>: the first of the least elements.\<close>

fun min_run :: "agent_run_record list \<Rightarrow> agent_run_record option" where
  "min_run [] = None"
| "min_run (r # rs) =
     (case min_run rs of
        None \<Rightarrow> Some r
      | Some r' \<Rightarrow> Some (if run_before r' r then r' else r))"

definition queued_runs :: "run_map \<Rightarrow> agent_run_record list" where
  "queued_runs m = filter (\<lambda>r. rr_run_status r = DrQueued) (m_values m)"

definition running_runs :: "run_map \<Rightarrow> agent_run_record list" where
  "running_runs m = filter (\<lambda>r. rr_run_status r = DrRunning) (m_values m)"

definition enqueue_run :: "agent_run_record \<Rightarrow> (run_map, run_store_error, unit) prog" where
  "enqueue_run = insert_run"

text \<open>\<open>now\<close> is the time of the transition, \<open>leased\<close> that of the lease.\<close>

definition lease :: "int \<Rightarrow> datetime \<Rightarrow> datetime \<Rightarrow> (run_map, run_store_error, agent_run_lease option) prog" where
  "lease timeout now leased m =
     (case min_run (queued_runs m) of
        None \<Rightarrow> (Inr None, m)
      | Some r \<Rightarrow>
          andThen (transition_run now (rr_run_id r) DrRunning) (\<lambda>_.
            ret (Some \<lparr>le_run_id = rr_run_id r, le_leased_at = leased, le_expires_at = leased + timeout\<rparr>)) m)"

definition ack :: "datetime \<Rightarrow> string \<Rightarrow> (run_map, run_store_error, unit) prog" where
  "ack now i = andThen (transition_run now i DrCompleted) (\<lambda>_. ret ())"

definition nack :: "datetime \<Rightarrow> string \<Rightarrow> (run_map, run_store_error, unit) prog" where
  "nack now i = andThen (transition_run now i DrQueued) (\<lambda>_. ret ())"

text \<open>
  \<open>recover_expired_leases\<close>: the list is read once; \<open>now\<close> is the time compared with, \<open>stamp\<close>
  gives the time of the transition of a run.
\<close>

fun recover_runs ::
    "int \<Rightarrow> datetime \<Rightarrow> (string \<Rightarrow> datetime) \<Rightarrow> agent_run_record list \<Rightarrow> string list \<Rightarrow>
     (run_map, run_store_error, string list) prog" where
  "recover_runs timeout now stamp [] acc = ret acc"
| "recover_runs timeout now stamp (r # rs) acc =
     (if rr_run_status r \<noteq> DrRunning then recover_runs timeout now stamp rs acc
      else if rr_updated_at r + timeout \<le> now
      then andThen (transition_run (stamp (rr_run_id r)) (rr_run_id r) DrQueued) (\<lambda>_.
             recover_runs timeout now stamp rs (acc @ [rr_run_id r]))
      else recover_runs timeout now stamp rs acc)"

definition recover_expired_leases ::
    "int \<Rightarrow> datetime \<Rightarrow> (string \<Rightarrow> datetime) \<Rightarrow> (run_map, run_store_error, string list) prog" where
  "recover_expired_leases timeout now stamp m =
     andThen (recover_runs timeout now stamp (m_values m) []) (\<lambda>ids. ret (sort ids)) m"

definition lease_from_record :: "int \<Rightarrow> agent_run_record \<Rightarrow> string \<times> agent_run_lease" where
  "lease_from_record timeout r =
     (rr_run_id r, \<lparr>le_run_id = rr_run_id r, le_leased_at = rr_updated_at r,
        le_expires_at = rr_updated_at r + timeout\<rparr>)"

definition active_leases :: "int \<Rightarrow> run_map \<Rightarrow> agent_run_lease list" where
  "active_leases timeout m =
     m_values (fold (\<lambda>(k, l). bt_put k l) (map (lease_from_record timeout) (running_runs m)) [])"

definition queued_run_ids :: "run_map \<Rightarrow> string list" where
  "queued_run_ids m = map snd (sort (map (\<lambda>r. (rr_created_at r, rr_run_id r)) (queued_runs m)))"

section \<open>Lemmas\<close>

lemma min_run_None [simp]: "min_run rs = None \<longleftrightarrow> rs = []"
  by (cases rs) (auto split: option.splits)

abbreviation queue_key :: "agent_run_record \<Rightarrow> datetime \<times> string" where
  "queue_key r \<equiv> (rr_created_at r, rr_run_id r)"

lemma run_before_key: "run_before r r' \<longleftrightarrow> queue_key r < queue_key r'"
  by (auto simp: run_before_def less_prod_def)

lemma min_run_Some:
  "min_run rs = Some r \<Longrightarrow> r \<in> set rs \<and> (\<forall>r' \<in> set rs. queue_key r \<le> queue_key r')"
proof (induction rs arbitrary: r)
  case (Cons x rs)
  show ?case
  proof (cases "min_run rs")
    case None
    with Cons.prems show ?thesis by simp
  next
    case (Some y)
    from Cons.IH [OF Some] Cons.prems Some show ?thesis
      by (auto simp: run_before_key simp del: less_eq_prod_simp less_prod_simp split: if_splits
          intro: order_trans less_imp_le)
  qed
qed simp

lemma sort_extract_min:
  assumes "mset xs = add_mset x (mset ys)" and "\<forall>y \<in> set ys. x \<le> y"
  shows "sort xs = x # sort ys"
proof (rule properties_for_sort)
  show "mset (x # sort ys) = mset xs" using assms(1) by simp
  show "sorted (x # sort ys)" using assms(2) by simp
qed


text \<open>The queued runs, one replaced by a version of it that is not queued.\<close>

lemma queued_runs_take:
  assumes "keyed rr_run_id m" and "r \<in> set (queued_runs m)" and "rr_run_status r' \<noteq> DrQueued"
  shows "m_get m (rr_run_id r) = Some r"
    and "mset (queued_runs m) = add_mset r (mset (queued_runs (bt_put (rr_run_id r) r' m)))"
proof -
  have inv: "bt_inv m" using assms(1) by (simp add: keyed_def)
  show get: "m_get m (rr_run_id r) = Some r"
    using assms(1,2) by (auto simp: queued_runs_def m_values_get [OF bt_inv_hm_inv [OF inv]] keyed_def)
  obtain xs ys where m: "m = xs @ (rr_run_id r, r) # ys"
    using split_list [OF m_get_in_set [OF get]] by blast
  have "bt_put (rr_run_id r) r' m = xs @ (rr_run_id r, r') # ys"
    using bt_put_mid(1) [OF inv [unfolded m], of r'] m by simp
  moreover note m
  moreover have "rr_run_status r = DrQueued" using assms(2) by (simp add: queued_runs_def)
  ultimately show "mset (queued_runs m) = add_mset r (mset (queued_runs (bt_put (rr_run_id r) r' m)))"
    using assms(3) by (simp add: queued_runs_def m_values_def)
qed

lemma queued_run_ids_take:
  assumes "keyed rr_run_id m" and "min_run (queued_runs m) = Some r" and "rr_run_status r' \<noteq> DrQueued"
  shows "queued_run_ids m = rr_run_id r # queued_run_ids (bt_put (rr_run_id r) r' m)"
proof -
  have r: "r \<in> set (queued_runs m)" and least: "\<forall>r' \<in> set (queued_runs m). queue_key r \<le> queue_key r'"
    using min_run_Some [OF assms(2)] by blast+
  note take = queued_runs_take(2) [OF assms(1) r assms(3)]
  have "set (queued_runs (bt_put (rr_run_id r) r' m)) \<subseteq> set (queued_runs m)"
    using arg_cong [OF take, of set_mset] by auto
  then have "sort (map queue_key (queued_runs m)) =
      queue_key r # sort (map queue_key (queued_runs (bt_put (rr_run_id r) r' m)))"
    using take least by (intro sort_extract_min) (auto simp del: less_eq_prod_simp)
  then show ?thesis by (simp add: queued_run_ids_def)
qed

text \<open>A lease takes the head of the queue.\<close>

lemma lease_empty:
  assumes "queued_run_ids m = []"
  shows "lease timeout now leased m = (Inr None, m)"
proof -
  have "length (queued_runs m) = 0"
    using arg_cong [OF assms, of length] by (simp add: queued_run_ids_def)
  then show ?thesis by (simp add: lease_def)
qed

lemma lease_head:
  assumes "keyed rr_run_id m" and "queued_run_ids m = i # is"
  obtains m' where "lease timeout now leased m =
      (Inr (Some \<lparr>le_run_id = i, le_leased_at = leased, le_expires_at = leased + timeout\<rparr>), m')"
    and "keyed rr_run_id m'" and "queued_run_ids m' = is"
proof -
  obtain r where min: "min_run (queued_runs m) = Some r"
    using assms(2) by (cases "min_run (queued_runs m)") (auto simp: queued_run_ids_def)
  then have r: "r \<in> set (queued_runs m)" using min_run_Some by blast
  let ?r' = "r\<lparr>rr_run_status := DrRunning, rr_updated_at := now\<rparr>"
  have "rr_run_status r = DrQueued" using r by (simp add: queued_runs_def)
  moreover have "m_get m (rr_run_id r) = Some r"
    by (rule queued_runs_take(1) [OF assms(1) r, of ?r']) simp
  ultimately have "transition_run now (rr_run_id r) DrRunning m = (Inr ?r', bt_put (rr_run_id r) ?r' m)"
    by (simp add: transition_run_def transition_record_def is_valid_transition_def run_status_is_terminal_def)
  moreover have "queued_run_ids m = rr_run_id r # queued_run_ids (bt_put (rr_run_id r) ?r' m)"
    by (rule queued_run_ids_take [OF assms(1) min]) simp
  moreover have "keyed rr_run_id (bt_put (rr_run_id r) ?r' m)"
    using keyed_put [OF assms(1), of ?r'] by simp
  ultimately show thesis
    using that assms(2) min by (simp add: lease_def andThen_def ret_def)
qed

text \<open>Workers that lease one after the other, each with its clock readings.\<close>

fun lease_each :: "int \<Rightarrow> (datetime \<times> datetime) list \<Rightarrow> run_map \<Rightarrow> string option list \<times> run_map" where
  "lease_each timeout [] m = ([], m)"
| "lease_each timeout ((now, leased) # ts) m =
     (case lease timeout now leased m of
        (Inl e, m') \<Rightarrow> ([], m')
      | (Inr l, m') \<Rightarrow> (let (ls, m'') = lease_each timeout ts m' in (map_option le_run_id l # ls, m'')))"

lemma lease_each_drains:
  assumes "keyed rr_run_id m"
  shows "fst (lease_each timeout ts m) =
      map Some (take (length ts) (queued_run_ids m)) @
      replicate (length ts - length (queued_run_ids m)) None"
    and "queued_run_ids (snd (lease_each timeout ts m)) = drop (length ts) (queued_run_ids m)"
  using assms
proof (induction ts arbitrary: m)
  case Nil
  { case 1 then show ?case by simp next case 2 then show ?case by simp }
next
  case (Cons t ts)
  obtain now leased where t: "t = (now, leased)" by force
  { case 1
    show ?case
    proof (cases "queued_run_ids m")
      case Nil
      then show ?thesis using Cons.IH(1) [OF 1] t lease_empty [OF Nil] by (simp add: split_beta Let_def)
    next
      case (Cons i "is")
      obtain m' where "lease timeout now leased m =
          (Inr (Some \<lparr>le_run_id = i, le_leased_at = leased, le_expires_at = leased + timeout\<rparr>), m')"
        "keyed rr_run_id m'" "queued_run_ids m' = is"
        using lease_head [OF 1 Cons] .
      then show ?thesis using Cons.IH(1) [of m'] t Cons by (simp add: split_beta Let_def)
    qed
  next
    case 2
    show ?case
    proof (cases "queued_run_ids m")
      case Nil
      then show ?thesis using Cons.IH(2) [OF 2] t lease_empty [OF Nil] by (simp add: split_beta Let_def)
    next
      case (Cons i "is")
      obtain m' where "lease timeout now leased m =
          (Inr (Some \<lparr>le_run_id = i, le_leased_at = leased, le_expires_at = leased + timeout\<rparr>), m')"
        "keyed rr_run_id m'" "queued_run_ids m' = is"
        using lease_head [OF 2 Cons] .
      then show ?thesis using Cons.IH(2) [of m'] t Cons by (simp add: split_beta Let_def)
    qed }
qed

definition lease_expired :: "int \<Rightarrow> datetime \<Rightarrow> agent_run_record \<Rightarrow> bool" where
  "lease_expired timeout now r \<longleftrightarrow> rr_run_status r = DrRunning \<and> rr_updated_at r + timeout \<le> now"

definition requeued :: "int \<Rightarrow> datetime \<Rightarrow> (string \<Rightarrow> datetime) \<Rightarrow> agent_run_record \<Rightarrow> agent_run_record" where
  "requeued timeout now stamp r =
     (if lease_expired timeout now r
      then r\<lparr>rr_run_status := DrQueued, rr_updated_at := stamp (rr_run_id r)\<rparr> else r)"

lemma requeued_id [simp]: "rr_run_id (requeued timeout now stamp r) = rr_run_id r"
  by (simp add: requeued_def)

lemma requeue_running:
  assumes "keyed rr_run_id (xs @ (k, r) # ys)" and "rr_run_status r = DrRunning"
  shows "transition_run t k DrQueued (xs @ (k, r) # ys) =
    (Inr (r\<lparr>rr_run_status := DrQueued, rr_updated_at := t\<rparr>),
     xs @ (k, r\<lparr>rr_run_status := DrQueued, rr_updated_at := t\<rparr>) # ys)"
  using assms bt_put_mid [of xs k r ys]
  by (simp add: keyed_def transition_run_def transition_record_def is_valid_transition_def
      run_status_is_terminal_def)

lemma recover_runs_spec:
  assumes "keyed rr_run_id (xs @ ys)"
  shows "recover_runs timeout now stamp (map snd ys) acc (xs @ ys) =
    (Inr (acc @ map fst (filter (\<lambda>p. lease_expired timeout now (snd p)) ys)),
     xs @ map (apsnd (requeued timeout now stamp)) ys)"
  using assms
proof (induction ys arbitrary: xs acc)
  case Nil
  then show ?case by (simp add: ret_def)
next
  case (Cons p ys)
  obtain k r where p: "p = (k, r)" by force
  have k: "rr_run_id r = k" using Cons.prems p by (simp add: keyed_pairs)
  let ?r = "requeued timeout now stamp r"
  have "keyed rr_run_id ((xs @ [(k, ?r)]) @ ys)"
    using Cons.prems p by (auto simp: keyed_pairs bt_inv_def)
  note IH = Cons.IH [OF this]
  show ?case
  proof (cases "lease_expired timeout now r")
    case True
    with IH [of "acc @ [k]"] requeue_running [of xs k r ys "stamp k"] Cons.prems p k show ?thesis
      by (simp add: lease_expired_def requeued_def andThen_def)
  next
    case False
    with IH [of acc] p k show ?thesis by (auto simp: lease_expired_def requeued_def)
  qed
qed

lemma recovers_exactly:
  assumes "keyed rr_run_id m"
  shows "recover_expired_leases timeout now stamp m =
    (Inr (map fst (filter (\<lambda>p. lease_expired timeout now (snd p)) m)),
     map (apsnd (requeued timeout now stamp)) m)"
proof -
  have "sorted (map fst m)" using assms by (simp add: keyed_def bt_inv_def strict_sorted_iff)
  then have "sorted (map fst (filter (\<lambda>p. lease_expired timeout now (snd p)) m))"
    by (rule sorted_filter)
  then show ?thesis
    using recover_runs_spec [of "[]" m timeout now stamp "[]"] assms
    by (simp add: recover_expired_leases_def andThen_def ret_def m_values_def sorted_sort_id)
qed

text \<open>What no operation of the store changes.\<close>

definition same_run :: "agent_run_record \<Rightarrow> agent_run_record \<Rightarrow> bool" where
  "same_run r r' \<longleftrightarrow> rr_run_id r' = rr_run_id r \<and> rr_conversation_id r' = rr_conversation_id r \<and>
     rr_trigger_message_id r' = rr_trigger_message_id r \<and> rr_requested_by r' = rr_requested_by r \<and>
     rr_created_at r' = rr_created_at r \<and> rr_error_message r' = rr_error_message r"

abbreviation run_ops :: "run_op list \<Rightarrow> run_map \<Rightarrow> run_map" where
  "run_ops ops m \<equiv> fst (store_run run_step ops m)"

lemma run_step_get:
  assumes "m_get m i = Some r"
  shows "\<exists>r'. m_get (snd (run_step op m)) i = Some r' \<and> same_run r r' \<and>
    is_valid_transition (rr_run_status r) (rr_run_status r')"
  using assms
proof (cases op)
  case (InsertRun r')
  have "\<not> m_contains m (rr_run_id r') \<Longrightarrow> rr_run_id r' \<noteq> i"
    using assms by (auto simp: m_contains_def)
  then have "m_get (snd (run_step op m)) i = Some r"
    using InsertRun assms by (auto simp: insert_run_def andThen_def ret_def)
  then show ?thesis by (simp add: same_run_def is_valid_transition_def)
next
  case (TransitionRun now j to)
  show ?thesis
  proof (cases "i = j \<and> is_valid_transition (rr_run_status r) to")
    case True
    with TransitionRun assms
    have "m_get (snd (run_step op m)) i = Some (r\<lparr>rr_run_status := to, rr_updated_at := now\<rparr>)"
      by (simp add: transition_run_def transition_record_def)
    with True show ?thesis by (simp add: same_run_def)
  next
    case False
    with TransitionRun assms have "m_get (snd (run_step op m)) i = Some r"
      by (auto simp: transition_run_def transition_record_def split: option.splits)
    then show ?thesis by (simp add: same_run_def is_valid_transition_def)
  qed
qed

lemma run_ops_get:
  assumes "m_get m i = Some r"
  shows "\<exists>r'. m_get (run_ops ops m) i = Some r' \<and> same_run r r' \<and>
    (run_status_is_terminal (rr_run_status r) \<longrightarrow> rr_run_status r' = rr_run_status r)"
  using assms
proof (induction ops arbitrary: m r)
  case Nil
  then show ?case by (simp add: same_run_def)
next
  case (Cons op ops)
  obtain r1 where r1: "m_get (snd (run_step op m)) i = Some r1" "same_run r r1"
      "is_valid_transition (rr_run_status r) (rr_run_status r1)"
    using run_step_get [OF Cons.prems] by blast
  obtain r' where "m_get (run_ops ops (snd (run_step op m))) i = Some r'" "same_run r1 r'"
      "run_status_is_terminal (rr_run_status r1) \<longrightarrow> rr_run_status r' = rr_run_status r1"
    using Cons.IH [OF r1(1)] by blast
  then show ?case
    using r1(2,3) by (auto simp: split_beta same_run_def is_valid_transition_def split: if_splits)
qed

section \<open>Properties\<close>

lemma stores_keyed: "keyed rr_run_id (run_ops ops [])"
  by (rule run_store.run_keyed) simp

lemma set_queued_run_ids:
  assumes "keyed rr_run_id m"
  shows "set (queued_run_ids m) = {i. \<exists>r. m_get m i = Some r \<and> rr_run_status r = DrQueued}"
proof -
  have "set (queued_run_ids m) = rr_run_id ` set (queued_runs m)"
    by (simp add: queued_run_ids_def image_image)
  also have "\<dots> = {i. \<exists>r. m_get m i = Some r \<and> rr_run_status r = DrQueued}"
    using assms by (force simp: queued_runs_def keyed_def m_values_get [OF bt_inv_hm_inv])
  finally show ?thesis .
qed

lemma distinct_queued_run_ids:
  assumes "keyed rr_run_id m"
  shows "distinct (queued_run_ids m)"
proof -
  have "map rr_run_id (m_values m) = map fst m"
    using assms by (simp add: keyed_pairs m_values_def)
  then have "distinct (map rr_run_id (queued_runs m))"
    using assms by (simp add: keyed_def bt_inv_def strict_sorted_iff queued_runs_def distinct_map_filter)
  moreover have "mset (queued_run_ids m) = mset (map rr_run_id (queued_runs m))"
    by (simp add: queued_run_ids_def flip: mset_map) (simp add: multiset.map_comp comp_def)
  ultimately show ?thesis by (metis mset_eq_imp_distinct_iff)
qed

text \<open>
  C12. Whatever the store has been through, workers that lease one after the other get the
  queued runs oldest first (ties by identifier), each run exactly once, every queued run
  is leased after as many leases as the queue is long, and only then a worker goes away
  empty-handed.
\<close>

theorem queue_drains_in_order:
  "distinct (queued_run_ids (run_ops ops [])) \<and>
   set (queued_run_ids (run_ops ops [])) =
     {i. \<exists>r. m_get (run_ops ops []) i = Some r \<and> rr_run_status r = DrQueued} \<and>
   fst (lease_each timeout ts (run_ops ops [])) =
     map Some (take (length ts) (queued_run_ids (run_ops ops []))) @
     replicate (length ts - length (queued_run_ids (run_ops ops []))) None \<and>
   queued_run_ids (snd (lease_each timeout ts (run_ops ops []))) =
     drop (length ts) (queued_run_ids (run_ops ops []))"
  using lease_each_drains [OF stores_keyed] distinct_queued_run_ids [OF stores_keyed]
    set_queued_run_ids [OF stores_keyed]
  by simp

text \<open>
  Recovery after a crash of workers never fails and requeues exactly the running runs
  whose lease has expired: it returns their identifiers in order, stamps them, puts them
  back into the queue and leaves every other run as it was.
\<close>

lemma recovery_requeues_expired:
  "recover_expired_leases timeout now stamp (run_ops ops []) =
     (Inr (map fst (filter (\<lambda>p. lease_expired timeout now (snd p)) (run_ops ops []))),
      map (apsnd (requeued timeout now stamp)) (run_ops ops []))"
  by (rule recovers_exactly) (rule stores_keyed)

text \<open>
  A run once stored is never lost or confused: its identity, conversation, trigger,
  requester and creation time never change, and a terminal status is final.
\<close>

lemma stored_run_keeps_identity:
  assumes "m_get (run_ops ops []) i = Some r"
  shows "\<exists>r'. m_get (run_ops (ops @ ops') []) i = Some r' \<and> same_run r r' \<and> rr_run_id r' = i \<and>
    (run_status_is_terminal (rr_run_status r) \<longrightarrow> rr_run_status r' = rr_run_status r)"
proof -
  have append: "run_ops (ops @ ops') m = run_ops ops' (run_ops ops m)" for m
    by (induction ops arbitrary: m) (simp_all add: split_beta)
  obtain r' where "m_get (run_ops (ops @ ops') []) i = Some r'" "same_run r r'"
      "run_status_is_terminal (rr_run_status r) \<longrightarrow> rr_run_status r' = rr_run_status r"
    using run_ops_get [OF assms, of ops'] append by auto
  moreover from this have "rr_run_id r' = i" using stores_keyed [of "ops @ ops'"] by (simp add: keyed_def)
  ultimately show ?thesis by blast
qed

definition demo_run :: "string \<Rightarrow> datetime \<Rightarrow> agent_run_record" where
  "demo_run i t = \<lparr>rr_run_id = i, rr_conversation_id = ConversationId ''c'', rr_trigger_message_id = MessageId ''m'',
     rr_requested_by = ParticipantId ''u'', rr_run_status = DrQueued, rr_created_at = t, rr_updated_at = t,
     rr_error_message = None\<rparr>"

lemmas run_store_eval = demo_run_def insert_run_def transition_run_def transition_record_def andThen_def
  ret_def m_contains_def m_get_def is_valid_transition_def run_status_is_terminal_def

lemma stored_run_keeps_identity_witness:
  "\<exists>r'. m_get (run_ops ([InsertRun (demo_run ''r'' 1), TransitionRun 2 ''r'' DrRunning,
      TransitionRun 3 ''r'' DrCompleted] @ [TransitionRun 4 ''r'' DrQueued]) []) ''r'' = Some r' \<and>
    rr_run_status r' = DrCompleted"
proof -
  let ?r = "demo_run ''r'' 1\<lparr>rr_run_status := DrCompleted, rr_updated_at := 3\<rparr>"
  have "m_get (run_ops [InsertRun (demo_run ''r'' 1), TransitionRun 2 ''r'' DrRunning,
      TransitionRun 3 ''r'' DrCompleted] []) ''r'' = Some ?r"
    by (simp add: run_store_eval)
  from stored_run_keeps_identity [OF this, of "[TransitionRun 4 ''r'' DrQueued]"] show ?thesis
    by (auto simp: run_status_is_terminal_def)
qed

text \<open>
  C13. A run store on disk survives a crash between operations: whatever operations ran on
  a store opened from a file that ends in a whole line, opening the file again gives
  exactly the store they left, provided the JSON codec reads back the records written.
\<close>

theorem run_store_survives_restart:
  assumes "open_run_store C file = Inr s" and "at_line_start file"
    and "\<forall>r \<in> set (snd (store_run (jsonl_run_step C) ops s)). record_ok C r"
  shows "open_run_store C (dur_file (fst (store_run (jsonl_run_step C) ops s))) =
    Inr (fst (store_run (jsonl_run_step C) ops s))"
proof -
  let ?t = "fst (store_run (jsonl_run_step C) ops s)"
  have opened: "dur_file s \<noteq> None" and sync: "in_sync C rr_run_id s"
    using assms(1,2)
    by (auto simp: open_run_store_def in_sync_def open_log_def read_log_def file_lines_def
        at_line_start_def bind_result_Inr_iff split: option.splits)
  have "in_sync C rr_run_id ?t"
    using run_store.reopen [OF sync, of ops] assms(3)
    by (simp add: jsonl_run_step_def [abs_def])
  moreover have "dur_file ?t \<noteq> None"
    using opened
  proof (induction ops arbitrary: s)
    case (Cons op ops)
    obtain x s' where step: "jsonl_run_step C op s = (x, s')" by (cases "jsonl_run_step C op s")
    then have "dur_file s' \<noteq> None"
      using Cons.prems by (auto simp: jsonl_run_step_def logged_def append_record_def split: prod.splits sum.splits)
    with Cons.IH step show ?case by (simp add: split_beta)
  qed simp
  ultimately show ?thesis by (auto simp: in_sync_def open_run_store_def)
qed

text \<open>A codec that writes the identifier of a queued run, for the witness.\<close>

definition demo_run_codec :: "agent_run_record line_codec" where
  "demo_run_codec = \<lparr>enc_record = rr_run_id, dec_record = (\<lambda>l. Inr (demo_run l 0))\<rparr>"

theorem run_store_survives_restart_witness:
  "open_run_store demo_run_codec (Some [CHR ''a'', CHR 0x0A]) =
     Inr \<lparr>dur_records = [(''a'', demo_run ''a'' 0)], dur_file = Some [CHR ''a'', CHR 0x0A]\<rparr>"
proof -
  let ?s = "\<lparr>dur_records = [], dur_file = Some []\<rparr> :: (string, agent_run_record) durable"
  let ?ops = "[InsertRun (demo_run ''a'' 0)]"
  have run: "store_run (jsonl_run_step demo_run_codec) ?ops ?s =
      (\<lparr>dur_records = [(''a'', demo_run ''a'' 0)], dur_file = Some [CHR ''a'', CHR 0x0A]\<rparr>, [demo_run ''a'' 0])"
    by (simp add: jsonl_run_step_def logged_def run_store_eval append_record_def demo_run_codec_def)
  have "open_run_store demo_run_codec None = Inr ?s"
    by (simp add: open_run_store_def open_log_def read_log_def replay_records_def)
  moreover have "at_line_start None" by (simp add: at_line_start_def)
  moreover have "record_ok demo_run_codec (demo_run ''a'' 0)"
    by (simp add: record_ok_def demo_run_codec_def demo_run_def) code_simp
  ultimately show ?thesis
    using run_store_survives_restart [of demo_run_codec None ?s ?ops] run by simp
qed

text \<open>
  A crash between the two writes of \<open>append_record\<close> leaves a record without its newline.
  The store still opens, with that record; but the next record is appended to the same
  line, and from then on the file cannot be opened, unless the parser accepts two records
  on a line.
\<close>

lemma torn_line_poisons_store:
  assumes "at_line_start (Some bs)" and "open_log C rr_run_id (Some bs) = Inr m"
    and "record_ok C r" and "record_ok C r'"
    and "trim (enc_record C r @ enc_record C r') \<noteq> []"
    and "dec_record C (enc_record C r @ enc_record C r') = Inl msg"
  shows "open_run_store C (Some (bs @ enc_record C r)) =
      Inr \<lparr>dur_records = bt_put (rr_run_id r) r m, dur_file = Some (bs @ enc_record C r)\<rparr>"
    and "open_run_store C (append_record C r' (Some (bs @ enc_record C r))) = Inl (LogSerde msg)"
proof -
  obtain rs where rs: "read_records C (file_lines bs) = Inr rs" "m = replay_records rr_run_id rs"
    using assms(2) by (auto simp: open_log_def read_log_def bind_result_Inr_iff)
  have nl: "newline \<notin> set (enc_record C r)" "newline \<notin> set (enc_record C r')"
    using assms(3,4) by (simp_all add: record_ok_def)
  have ne: "enc_record C r \<noteq> []" using assms(3) by (auto simp: record_ok_def)
  have split: "split_newline l = [l]" if "newline \<notin> set l" for l :: string
    using that by (induction l) auto
  have "file_lines (bs @ enc_record C r) = file_lines bs @ [enc_record C r]"
    using assms(1) split [OF nl(1)] ne
    by (simp add: file_lines_def split_newline_append at_line_start_def)
  then show "open_run_store C (Some (bs @ enc_record C r)) =
      Inr \<lparr>dur_records = bt_put (rr_run_id r) r m, dur_file = Some (bs @ enc_record C r)\<rparr>"
    using rs assms(3)
    by (simp add: open_run_store_def open_log_def read_log_def read_records_append record_ok_def
        replay_records_snoc)
  have "newline \<notin> set (enc_record C r @ enc_record C r')" using nl by simp
  note file_lines_append(1) [OF assms(1) this]
  moreover have "enc_record C r' \<noteq> []" using assms(4) by (auto simp: record_ok_def)
  then have "drop_cr (enc_record C r @ enc_record C r') = enc_record C r @ enc_record C r'"
    using assms(4) by (simp add: drop_cr_def record_ok_def)
  moreover have "utf8_valid (enc_record C r @ enc_record C r')"
    using assms(3,4) by (simp add: record_ok_def utf8_valid_append)
  ultimately show "open_run_store C (append_record C r' (Some (bs @ enc_record C r))) = Inl (LogSerde msg)"
    using rs assms(5,6)
    by (simp add: append_record_def open_run_store_def open_log_def read_log_def read_records_append)
qed

end
