(* ===== verification/Run_Journal.thy ===== *)
theory Run_Journal
  imports Record_Log Run_Store
begin

text \<open>
  The journal of run events, its cursors and checkpoints, and what it recommends for each
  run after a restart (\<open>agent-runtime/src/run_journal.rs\<close>).

  An event identifier is a natural number; \<open>BTreeSet<u64>\<close> is a set. A \<open>RunEvent::new\<close>
  reads the clock; the reading is an argument.
\<close>

section \<open>Events, cursors and checkpoints\<close>

datatype (plugins only: code size) run_journal_cursor = RunJournalCursor "nat option"

fun last_seen :: "run_journal_cursor \<Rightarrow> nat option" where
  "last_seen (RunJournalCursor i) = i"

definition cursor_beginning :: run_journal_cursor where
  "cursor_beginning = RunJournalCursor None"

definition cursor_after :: "nat \<Rightarrow> run_journal_cursor" where
  "cursor_after i = RunJournalCursor (Some i)"

datatype (plugins only: code size) run_event_kind =
    EvRunRequested | EvRunStarted
  | EvModelCallStarted | EvModelCallCompleted | EvModelCallFailed
  | EvToolCallRequested | EvApprovalRequested | EvApprovalGranted | EvApprovalDenied
  | EvToolCallStarted | EvToolCallCompleted | EvToolCallFailed
  | EvAssistantOutputDelta | EvAssistantOutputFinalized
  | EvRunCompleted | EvRunFailed | EvRunCancelled | EvRunTimedOut
  | EvRetryScheduled | EvRecoveryCheckpointed | EvRecoveryNeeded

record run_event =
  re_event_id :: nat
  re_run_id :: string
  re_kind :: run_event_kind
  re_occurred_at :: datetime
  re_conversation_id :: "conversation_id option"
  re_trigger_message_id :: "message_id option"
  re_actor :: "participant_id option"
  re_payload :: json

definition run_event_new :: "datetime \<Rightarrow> nat \<Rightarrow> string \<Rightarrow> run_event_kind \<Rightarrow> run_event" where
  "run_event_new now i r k =
     \<lparr>re_event_id = i, re_run_id = r, re_kind = k, re_occurred_at = now, re_conversation_id = None,
      re_trigger_message_id = None, re_actor = None, re_payload = JNull\<rparr>"

record run_checkpoint =
  rcp_run_id :: string
  rcp_event_cursor :: run_journal_cursor
  rcp_status :: durable_run_status
  rcp_checkpointed_at :: datetime
  rcp_payload :: json

datatype (plugins only: code size) run_recovery_action =
    Resume | RestorePendingApproval | NeedsInspection | MarkCancelledAfterRestart | IgnoreTerminal

record recoverable_run =
  rec_run_id :: string
  rec_last_kind :: run_event_kind
  rec_action :: run_recovery_action

datatype (plugins only: code size) run_journal_error =
    EventAlreadyExists nat
  | NonMonotonicId nat nat
  | JournalLogError log_error

section \<open>The journal in memory\<close>

record memory_run_journal =
  mj_events :: "run_event list"
  mj_event_ids :: "nat set"
  mj_checkpoints :: "(string, run_checkpoint list) hmap"

definition run_journal_empty :: memory_run_journal where
  "run_journal_empty = \<lparr>mj_events = [], mj_event_ids = {}, mj_checkpoints = []\<rparr>"

definition append_run_event :: "run_event \<Rightarrow> (memory_run_journal, run_journal_error, run_journal_cursor) prog" where
  "append_run_event e m =
     (if re_event_id e \<in> mj_event_ids m then (Inl (EventAlreadyExists (re_event_id e)), m)
      else if mj_events m \<noteq> [] \<and> re_event_id e \<le> re_event_id (last (mj_events m))
      then (Inl (NonMonotonicId (re_event_id (last (mj_events m))) (re_event_id e)), m)
      else (Inr (cursor_after (re_event_id e)),
            m\<lparr>mj_events := mj_events m @ [e], mj_event_ids := insert (re_event_id e) (mj_event_ids m)\<rparr>))"

definition events_for_run :: "string \<Rightarrow> memory_run_journal \<Rightarrow> run_event list" where
  "events_for_run r m = filter (\<lambda>e. re_run_id e = r) (mj_events m)"

definition events_after :: "run_journal_cursor option \<Rightarrow> memory_run_journal \<Rightarrow> run_event list" where
  "events_after c m =
     (let seen = Option.bind c last_seen in
      filter (\<lambda>e. case seen of None \<Rightarrow> True | Some i \<Rightarrow> i < re_event_id e) (mj_events m))"

definition latest_cursor :: "memory_run_journal \<Rightarrow> run_journal_cursor option" where
  "latest_cursor m = (if mj_events m = [] then None else Some (cursor_after (re_event_id (last (mj_events m)))))"

definition checkpoint_run :: "run_checkpoint \<Rightarrow> memory_run_journal \<Rightarrow> memory_run_journal" where
  "checkpoint_run c m =
     m\<lparr>mj_checkpoints := bt_put (rcp_run_id c)
        ((case m_get (mj_checkpoints m) (rcp_run_id c) of None \<Rightarrow> [] | Some cs \<Rightarrow> cs) @ [c]) (mj_checkpoints m)\<rparr>"

definition checkpoints_of :: "string \<Rightarrow> memory_run_journal \<Rightarrow> run_checkpoint list" where
  "checkpoints_of r m = (case m_get (mj_checkpoints m) r of None \<Rightarrow> [] | Some cs \<Rightarrow> cs)"

section \<open>Recovery\<close>

fun recovery_action :: "run_event_kind \<Rightarrow> run_recovery_action option" where
  "recovery_action EvRunCompleted = None"
| "recovery_action EvRunFailed = None"
| "recovery_action EvRunCancelled = None"
| "recovery_action EvRunTimedOut = None"
| "recovery_action EvApprovalRequested = Some RestorePendingApproval"
| "recovery_action EvToolCallStarted = Some NeedsInspection"
| "recovery_action EvToolCallRequested = Some NeedsInspection"
| "recovery_action EvApprovalGranted = Some NeedsInspection"
| "recovery_action EvRunStarted = Some MarkCancelledAfterRestart"
| "recovery_action EvModelCallStarted = Some MarkCancelledAfterRestart"
| "recovery_action EvAssistantOutputDelta = Some MarkCancelledAfterRestart"
| "recovery_action _ = Some Resume"

definition latest_by_run :: "run_event list \<Rightarrow> (string, run_event) hmap" where
  "latest_by_run es = fold (\<lambda>(k, e). bt_put k e) (map (\<lambda>e. (re_run_id e, e)) es) []"

definition build_recovery_report :: "run_event list \<Rightarrow> recoverable_run list" where
  "build_recovery_report es =
     List.map_filter (\<lambda>(r, e). map_option
       (\<lambda>a. \<lparr>rec_run_id = r, rec_last_kind = re_kind e, rec_action = a\<rparr>) (recovery_action (re_kind e)))
     (latest_by_run es)"

definition recover_pending_runs :: "memory_run_journal \<Rightarrow> recoverable_run list" where
  "recover_pending_runs m = build_recovery_report (mj_events m)"

section \<open>The journal on disk\<close>

record jsonl_run_journal =
  rj_memory :: memory_run_journal
  rj_events_file :: "string option"
  rj_checkpoints_file :: "string option"

fun load_run_events ::
    "run_event line_codec \<Rightarrow> string list \<Rightarrow> memory_run_journal \<Rightarrow> run_journal_error + memory_run_journal" where
  "load_run_events C [] m = Inr m"
| "load_run_events C (l # ls) m =
     (if \<not> utf8_valid l then Inl (JournalLogError LogIo)
      else if trim l = [] then load_run_events C ls m
      else (case dec_record C l of
              Inl msg \<Rightarrow> Inl (JournalLogError (LogSerde msg))
            | Inr e \<Rightarrow>
                (case append_run_event e m of
                   (Inl err, _) \<Rightarrow> Inl err
                 | (Inr _, m') \<Rightarrow> load_run_events C ls m')))"

definition map_error :: "('e \<Rightarrow> 'f) \<Rightarrow> 'e + 'a \<Rightarrow> 'f + 'a" where
  "map_error f r = (case r of Inl e \<Rightarrow> Inl (f e) | Inr x \<Rightarrow> Inr x)"

definition open_run_journal ::
    "run_event line_codec \<Rightarrow> run_checkpoint line_codec \<Rightarrow> string option \<Rightarrow> string option \<Rightarrow>
     run_journal_error + jsonl_run_journal" where
  "open_run_journal CE CC ef cf =
     bind_result (case ef of None \<Rightarrow> Inr run_journal_empty
                  | Some bs \<Rightarrow> load_run_events CE (file_lines bs) run_journal_empty) (\<lambda>m.
     bind_result (map_error JournalLogError (read_log CC cf)) (\<lambda>cs.
       Inr \<lparr>rj_memory = fold checkpoint_run cs m,
            rj_events_file = Some (case ef of None \<Rightarrow> [] | Some bs \<Rightarrow> bs),
            rj_checkpoints_file = Some (case cf of None \<Rightarrow> [] | Some bs \<Rightarrow> bs)\<rparr>))"

definition jsonl_append_run_event ::
    "run_event line_codec \<Rightarrow> run_event \<Rightarrow> (jsonl_run_journal, run_journal_error, run_journal_cursor) prog" where
  "jsonl_append_run_event CE e s =
     (case append_run_event e (rj_memory s) of
        (Inl err, m) \<Rightarrow> (Inl err, s\<lparr>rj_memory := m\<rparr>)
      | (Inr c, m) \<Rightarrow> (Inr c, s\<lparr>rj_memory := m, rj_events_file := append_record CE e (rj_events_file s)\<rparr>))"

definition jsonl_checkpoint_run ::
    "run_checkpoint line_codec \<Rightarrow> run_checkpoint \<Rightarrow> jsonl_run_journal \<Rightarrow> jsonl_run_journal" where
  "jsonl_checkpoint_run CC c s =
     s\<lparr>rj_memory := checkpoint_run c (rj_memory s),
       rj_checkpoints_file := append_record CC c (rj_checkpoints_file s)\<rparr>"

section \<open>Order of events\<close>

definition journal_ok :: "memory_run_journal \<Rightarrow> bool" where
  "journal_ok m \<longleftrightarrow> sorted_wrt (<) (map re_event_id (mj_events m)) \<and> mj_event_ids m = re_event_id ` set (mj_events m)"

lemma last_greatest:
  assumes "sorted_wrt (<) xs" and "x \<in> set xs"
  shows "(x::nat) \<le> last xs"
proof -
  have "xs = butlast xs @ [last xs]" using assms(2) by (cases xs rule: rev_cases) auto
  then have "sorted_wrt (<) (butlast xs @ [last xs])" and "x \<in> set (butlast xs) \<union> {last xs}"
    using assms by (metis, metis Un_insert_right empty_set list.simps(15) set_append sup_bot_right)
  then show ?thesis by (auto simp: sorted_wrt_append less_imp_le)
qed

text \<open>An event is accepted exactly if its identifier exceeds all identifiers so far.\<close>

lemma append_accepted_iff:
  assumes "journal_ok m"
  shows "is_ok (fst (append_run_event e m)) \<longleftrightarrow> (\<forall>e' \<in> set (mj_events m). re_event_id e' < re_event_id e)"
proof (cases "mj_events m = []")
  case True
  with assms show ?thesis by (auto simp: append_run_event_def journal_ok_def)
next
  case False
  have "re_event_id e' \<le> re_event_id (last (mj_events m))" if "e' \<in> set (mj_events m)" for e'
    using last_greatest [of "map re_event_id (mj_events m)" "re_event_id e'"] assms that False
    by (simp add: journal_ok_def last_map)
  then have below: "re_event_id (last (mj_events m)) < re_event_id e \<longrightarrow>
      (\<forall>e' \<in> set (mj_events m). re_event_id e' < re_event_id e)"
    by (meson le_less_trans)
  have "last (mj_events m) \<in> set (mj_events m)" using False by simp
  moreover have "is_ok (fst (append_run_event e m)) \<longleftrightarrow>
      re_event_id e \<notin> re_event_id ` set (mj_events m) \<and> re_event_id (last (mj_events m)) < re_event_id e"
    using assms False by (simp add: append_run_event_def journal_ok_def not_le)
  ultimately show ?thesis using below by (metis imageE less_irrefl)
qed

lemma append_cases:
  assumes "journal_ok m"
  shows "journal_ok (snd (append_run_event e m)) \<and>
    (if is_ok (fst (append_run_event e m))
     then snd (append_run_event e m) =
       m\<lparr>mj_events := mj_events m @ [e], mj_event_ids := insert (re_event_id e) (mj_event_ids m)\<rparr>
     else snd (append_run_event e m) = m)"
proof (cases "is_ok (fst (append_run_event e m))")
  case True
  then have "\<forall>e' \<in> set (mj_events m). re_event_id e' < re_event_id e"
    using append_accepted_iff [OF assms] by simp
  moreover have "snd (append_run_event e m) =
      m\<lparr>mj_events := mj_events m @ [e], mj_event_ids := insert (re_event_id e) (mj_event_ids m)\<rparr>"
    using True by (auto simp: append_run_event_def split: if_splits)
  ultimately show ?thesis
    using assms True by (auto simp: journal_ok_def sorted_wrt_append)
next
  case False
  then show ?thesis using assms by (auto simp: append_run_event_def split: if_splits)
qed

definition append_all_run_events :: "run_event list \<Rightarrow> memory_run_journal \<Rightarrow> memory_run_journal" where
  "append_all_run_events es m = fold (\<lambda>e m. snd (append_run_event e m)) es m"

lemma append_all_grows:
  assumes "journal_ok m"
  shows "journal_ok (append_all_run_events es m) \<and>
    (\<exists>new. mj_events (append_all_run_events es m) = mj_events m @ new \<and> set new \<subseteq> set es \<and>
       (\<forall>e \<in> set (mj_events m). \<forall>e' \<in> set new. re_event_id e < re_event_id e'))"
  using assms
proof (induction es arbitrary: m)
  case Nil
  then show ?case by (simp add: append_all_run_events_def)
next
  case (Cons e es)
  let ?m = "snd (append_run_event e m)"
  have ok: "journal_ok ?m" using append_cases [OF Cons.prems, of e] by blast
  obtain new where new: "mj_events (append_all_run_events es ?m) = mj_events ?m @ new" "set new \<subseteq> set es"
      "\<forall>e \<in> set (mj_events ?m). \<forall>e' \<in> set new. re_event_id e < re_event_id e'"
      "journal_ok (append_all_run_events es ?m)"
    using Cons.IH [OF ok] by blast
  have step: "append_all_run_events (e # es) m = append_all_run_events es ?m"
    by (simp add: append_all_run_events_def)
  show ?case
  proof (cases "is_ok (fst (append_run_event e m))")
    case True
    then have "mj_events ?m = mj_events m @ [e]" using append_cases [OF Cons.prems, of e] by simp
    moreover have "\<forall>e' \<in> set (mj_events m). re_event_id e' < re_event_id e"
      using True append_accepted_iff [OF Cons.prems] by simp
    ultimately show ?thesis unfolding step using new by (intro conjI exI [of _ "e # new"]) auto
  next
    case False
    then have "?m = m" using append_cases [OF Cons.prems, of e] by simp
    then show ?thesis unfolding step using new by (intro conjI exI [of _ new]) auto
  qed
qed

lemma empty_ok [simp]: "journal_ok run_journal_empty"
  by (simp add: journal_ok_def run_journal_empty_def)

lemma after_latest:
  assumes "journal_ok m" and "\<forall>e \<in> set (mj_events m). \<forall>e' \<in> set new. re_event_id e < re_event_id e'"
    and "mj_events m' = mj_events m @ new"
  shows "events_after (latest_cursor m) m' = new"
proof (cases "mj_events m = []")
  case True
  with assms(3) show ?thesis by (simp add: events_after_def latest_cursor_def)
next
  case False
  have "\<not> re_event_id (last (mj_events m)) < re_event_id e" if "e \<in> set (mj_events m)" for e
    using last_greatest [of "map re_event_id (mj_events m)" "re_event_id e"] assms(1) that False
    by (simp add: journal_ok_def last_map leD)
  moreover have "last (mj_events m) \<in> set (mj_events m)" using False by simp
  ultimately show ?thesis
    using False assms(2,3) by (simp add: events_after_def latest_cursor_def cursor_after_def)
qed

text \<open>
  A reader that polls with cursors sees every event once and in order: whatever was
  appended before, the events after the latest cursor are exactly those that were
  accepted since it was taken, and together with the events seen before they are the
  whole journal, in which identifiers strictly increase.
\<close>

lemma cursors_deliver_once:
  "mj_events (append_all_run_events (es @ es') run_journal_empty) =
     mj_events (append_all_run_events es run_journal_empty) @
     events_after (latest_cursor (append_all_run_events es run_journal_empty))
       (append_all_run_events (es @ es') run_journal_empty) \<and>
   sorted_wrt (<) (map re_event_id (mj_events (append_all_run_events (es @ es') run_journal_empty)))"
proof -
  let ?m = "append_all_run_events es run_journal_empty" and ?n = "append_all_run_events (es @ es') run_journal_empty"
  have ok: "journal_ok ?m" using append_all_grows [OF empty_ok] by blast
  have n: "?n = append_all_run_events es' ?m" by (simp add: append_all_run_events_def)
  obtain new where "mj_events ?n = mj_events ?m @ new"
      "\<forall>e \<in> set (mj_events ?m). \<forall>e' \<in> set new. re_event_id e < re_event_id e'" "journal_ok ?n"
    using append_all_grows [OF ok, of es'] unfolding n by blast
  then show ?thesis using after_latest [OF ok, of new ?n] by (simp add: journal_ok_def)
qed

section \<open>What a restart recommends\<close>

lemma latest_by_run_snoc: "latest_by_run (es @ [e]) = bt_put (re_run_id e) e (latest_by_run es)"
  by (simp add: latest_by_run_def)

lemma latest_by_run_inv: "bt_inv (latest_by_run es)"
  unfolding latest_by_run_def by (rule btree.inv_replay) (rule btree.inv_empty)

lemma latest_by_run_get:
  "m_get (latest_by_run es) r =
     (if filter (\<lambda>e. re_run_id e = r) es = [] then None else Some (last (filter (\<lambda>e. re_run_id e = r) es)))"
proof (induction es rule: rev_induct)
  case Nil
  then show ?case by (simp add: latest_by_run_def)
next
  case (snoc e es)
  then show ?case by (simp add: latest_by_run_snoc)
qed

text \<open>
  The recovery report names every run of the journal that has not ended, once, in the
  order of the run identifiers, and no other; what it recommends depends on the last
  event of that run alone, and a run that may have left a tool call half done (the call
  requested, approved or started) is never recommended to be resumed.
\<close>

lemma recovery_report_exact:
  "sorted_wrt (<) (map rec_run_id (build_recovery_report es)) \<and>
   (rc \<in> set (build_recovery_report es) \<longleftrightarrow>
     (\<exists>e es' a. filter (\<lambda>e. re_run_id e = rec_run_id rc) es = es' @ [e] \<and> recovery_action (re_kind e) = Some a \<and>
        rc = \<lparr>rec_run_id = rec_run_id rc, rec_last_kind = re_kind e, rec_action = a\<rparr> \<and>
        \<not> (re_kind e \<in> {EvToolCallRequested, EvApprovalGranted, EvToolCallStarted} \<and> a = Resume)))"
proof
  let ?f = "\<lambda>(r, e). map_option (\<lambda>a. \<lparr>rec_run_id = r, rec_last_kind = re_kind e, rec_action = a\<rparr>)
    (recovery_action (re_kind e))"
  have "sorted_wrt (<) (map rec_run_id (List.map_filter ?f m))"
    if "sorted_wrt (<) (map fst m)" for m :: "(string \<times> run_event) list"
    using that by (induction m) (auto simp: List.map_filter_def split: option.splits)
  then show "sorted_wrt (<) (map rec_run_id (build_recovery_report es))"
    using latest_by_run_inv [of es] by (simp add: build_recovery_report_def bt_inv_def)
  have "rc \<in> set (build_recovery_report es) \<longleftrightarrow> (\<exists>e a. (rec_run_id rc, e) \<in> set (latest_by_run es) \<and>
      recovery_action (re_kind e) = Some a \<and> rc = \<lparr>rec_run_id = rec_run_id rc, rec_last_kind = re_kind e, rec_action = a\<rparr>)"
    by (force simp: build_recovery_report_def List.map_filter_def)
  also have "\<dots> \<longleftrightarrow> (\<exists>e a. m_get (latest_by_run es) (rec_run_id rc) = Some e \<and>
      recovery_action (re_kind e) = Some a \<and> rc = \<lparr>rec_run_id = rec_run_id rc, rec_last_kind = re_kind e, rec_action = a\<rparr>)"
    using in_set_m_get [OF bt_inv_hm_inv [OF latest_by_run_inv [of es]], of "rec_run_id rc"]
      m_get_in_set [of "latest_by_run es" "rec_run_id rc"] by metis
  also have "\<dots> \<longleftrightarrow> (\<exists>e es' a. filter (\<lambda>e. re_run_id e = rec_run_id rc) es = es' @ [e] \<and>
      recovery_action (re_kind e) = Some a \<and> rc = \<lparr>rec_run_id = rec_run_id rc, rec_last_kind = re_kind e, rec_action = a\<rparr>)"
  proof (cases "filter (\<lambda>e. re_run_id e = rec_run_id rc) es" rule: rev_cases)
    case (snoc es' e)
    then have "m_get (latest_by_run es) (rec_run_id rc) = Some e"
      by (simp add: latest_by_run_get)
    with snoc show ?thesis by auto
  qed (simp add: latest_by_run_get)
  finally show "rc \<in> set (build_recovery_report es) \<longleftrightarrow>
     (\<exists>e es' a. filter (\<lambda>e. re_run_id e = rec_run_id rc) es = es' @ [e] \<and> recovery_action (re_kind e) = Some a \<and>
        rc = \<lparr>rec_run_id = rec_run_id rc, rec_last_kind = re_kind e, rec_action = a\<rparr> \<and>
        \<not> (re_kind e \<in> {EvToolCallRequested, EvApprovalGranted, EvToolCallStarted} \<and> a = Resume))"
    by auto
qed

section \<open>Restarts\<close>

datatype (plugins only: code size) run_journal_op =
    AppendRunEvent run_event
  | CheckpointRun run_checkpoint

fun jsonl_journal_step ::
    "run_event line_codec \<Rightarrow> run_checkpoint line_codec \<Rightarrow> run_journal_op \<Rightarrow> jsonl_run_journal \<Rightarrow> jsonl_run_journal" where
  "jsonl_journal_step CE CC (AppendRunEvent e) s = snd (jsonl_append_run_event CE e s)"
| "jsonl_journal_step CE CC (CheckpointRun c) s = jsonl_checkpoint_run CC c s"

fun op_encodable :: "run_event line_codec \<Rightarrow> run_checkpoint line_codec \<Rightarrow> run_journal_op \<Rightarrow> bool" where
  "op_encodable CE CC (AppendRunEvent e) = record_ok CE e"
| "op_encodable CE CC (CheckpointRun c) = record_ok CC c"

lemma load_run_events_append:
  "load_run_events C (ls @ ls') m = bind_result (load_run_events C ls m) (load_run_events C ls')"
  by (induction ls arbitrary: m) (auto split: sum.splits prod.splits)

lemma checkpoints_independent:
  "fold checkpoint_run cs (m\<lparr>mj_events := es, mj_event_ids := ids\<rparr>) =
     fold checkpoint_run cs m\<lparr>mj_events := es, mj_event_ids := ids\<rparr>"
  "mj_events (fold checkpoint_run cs m) = mj_events m"
  "mj_event_ids (fold checkpoint_run cs m) = mj_event_ids m"
proof -
  have "checkpoint_run c (n\<lparr>mj_events := es, mj_event_ids := ids\<rparr>) =
      checkpoint_run c n\<lparr>mj_events := es, mj_event_ids := ids\<rparr>" for c n
    by (simp add: checkpoint_run_def)
  then show "fold checkpoint_run cs (m\<lparr>mj_events := es, mj_event_ids := ids\<rparr>) =
      fold checkpoint_run cs m\<lparr>mj_events := es, mj_event_ids := ids\<rparr>"
    by (induction cs arbitrary: m) simp_all
  show "mj_events (fold checkpoint_run cs m) = mj_events m"
    and "mj_event_ids (fold checkpoint_run cs m) = mj_event_ids m"
    by (induction cs arbitrary: m) (simp_all add: checkpoint_run_def)
qed

definition journal_in_sync ::
    "run_event line_codec \<Rightarrow> run_checkpoint line_codec \<Rightarrow> jsonl_run_journal \<Rightarrow> bool" where
  "journal_in_sync CE CC s \<longleftrightarrow>
     (\<exists>es cs m ms. rj_events_file s = Some es \<and> rj_checkpoints_file s = Some cs \<and>
        at_line_start (Some es) \<and> at_line_start (Some cs) \<and>
        load_run_events CE (file_lines es) run_journal_empty = Inr m \<and>
        read_log CC (Some cs) = Inr ms \<and> rj_memory s = fold checkpoint_run ms m)"

lemma journal_in_sync_reopens:
  "journal_in_sync CE CC s \<Longrightarrow> open_run_journal CE CC (rj_events_file s) (rj_checkpoints_file s) = Inr s"
  by (auto simp: journal_in_sync_def open_run_journal_def map_error_def)

lemma opened_in_sync:
  assumes "open_run_journal CE CC ef cf = Inr s" and "at_line_start ef" and "at_line_start cf"
  shows "journal_in_sync CE CC s"
proof -
  have empty: "file_lines [] = []" by (simp add: file_lines_def)
  then show ?thesis
    using assms unfolding open_run_journal_def journal_in_sync_def
    by (auto simp: bind_result_Inr_iff map_error_def at_line_start_def read_log_def split: option.splits sum.splits)
qed

lemma step_in_sync:
  assumes "journal_in_sync CE CC s" and "op_encodable CE CC op"
  shows "journal_in_sync CE CC (jsonl_journal_step CE CC op s)"
proof -
  obtain es cs m ms where s: "rj_events_file s = Some es" "rj_checkpoints_file s = Some cs"
      "at_line_start (Some es)" "at_line_start (Some cs)"
      "load_run_events CE (file_lines es) run_journal_empty = Inr m"
      "read_log CC (Some cs) = Inr ms" "rj_memory s = fold checkpoint_run ms m"
    using assms(1) by (auto simp: journal_in_sync_def)
  show ?thesis
  proof (cases op)
    case (CheckpointRun c)
    then have "record_ok CC c" using assms(2) by simp
    note read_appended [OF s(4,6) this]
    then show ?thesis
      using s CheckpointRun
      by (simp add: journal_in_sync_def jsonl_checkpoint_run_def append_record_def)
  next
    case (AppendRunEvent e)
    then have ok: "record_ok CE e" using assms(2) by simp
    then have nl: "newline \<notin> set (enc_record CE e)" and cr: "drop_cr (enc_record CE e) = enc_record CE e"
      by (simp_all add: record_ok_def drop_cr_def)
    show ?thesis
    proof (cases "fst (append_run_event e (rj_memory s))")
      case (Inl err)
      then have "jsonl_journal_step CE CC op s = s"
        using AppendRunEvent
        by (auto simp: jsonl_append_run_event_def append_run_event_def split: if_splits prod.splits)
      with assms(1) show ?thesis by simp
    next
      case (Inr c)
      let ?m = "m\<lparr>mj_events := mj_events m @ [e], mj_event_ids := insert (re_event_id e) (mj_event_ids m)\<rparr>"
      have acc: "append_run_event e m = (Inr c, ?m)"
          "append_run_event e (rj_memory s) = (Inr c, fold checkpoint_run ms ?m)"
        using Inr unfolding s(7)
        by (auto simp: append_run_event_def checkpoints_independent split: if_splits)
      have "file_lines (es @ enc_record CE e @ [newline]) = file_lines es @ [enc_record CE e]"
        using file_lines_append(1) [OF s(3) nl] cr by simp
      then have "load_run_events CE (file_lines (es @ enc_record CE e @ [newline])) run_journal_empty = Inr ?m"
        using s(5) ok acc(1) by (simp add: load_run_events_append record_ok_def)
      moreover have "at_line_start (Some (es @ enc_record CE e @ [newline]))"
        by (rule file_lines_append(2) [OF s(3) nl])
      moreover have "jsonl_journal_step CE CC op s = s\<lparr>rj_memory := fold checkpoint_run ms ?m,
          rj_events_file := Some (es @ enc_record CE e @ [newline])\<rparr>"
        using AppendRunEvent acc(2) s(1) by (simp add: jsonl_append_run_event_def append_record_def)
      ultimately show ?thesis using s by (auto simp: journal_in_sync_def)
    qed
  qed
qed

lemma journal_survives_restart:
  assumes "open_run_journal CE CC ef cf = Inr s" and "at_line_start ef" and "at_line_start cf"
    and "\<forall>op \<in> set ops. op_encodable CE CC op"
  shows "open_run_journal CE CC (rj_events_file (fold (jsonl_journal_step CE CC) ops s))
      (rj_checkpoints_file (fold (jsonl_journal_step CE CC) ops s)) = Inr (fold (jsonl_journal_step CE CC) ops s)"
proof (rule journal_in_sync_reopens)
  show "journal_in_sync CE CC (fold (jsonl_journal_step CE CC) ops s)"
    using opened_in_sync [OF assms(1,2,3)] assms(4)
    by (induction ops arbitrary: s) (auto simp: step_in_sync)
qed

end
