(* ===== verification/Retry_Policy.thy ===== *)
theory Retry_Policy
  imports Prelude
begin

text \<open>
  When a failed run is tried again and after how long
  (\<open>agent-runtime/src/retry_policy.rs\<close>).

  A \<open>Duration\<close> is its number of nanoseconds. The operations on \<open>u32\<close> and \<open>Duration\<close> are the
  saturating ones of the standard library, with their bounds written out.
\<close>

section \<open>Saturating arithmetic\<close>

type_synonym duration = nat

definition U32_MAX :: nat where
  "U32_MAX = 2 ^ 32 - 1"

text \<open>\<open>u64::MAX\<close> seconds and 999,999,999 nanoseconds.\<close>

definition DURATION_MAX :: duration where
  "DURATION_MAX = 2 ^ 64 * 10 ^ 9 - 1"

definition saturating_pow :: "nat \<Rightarrow> nat \<Rightarrow> nat" where
  "saturating_pow b e = min U32_MAX (b ^ e)"

definition saturating_mul :: "duration \<Rightarrow> nat \<Rightarrow> duration" where
  "saturating_mul d n = min DURATION_MAX (d * n)"

definition from_millis :: "nat \<Rightarrow> duration" where
  "from_millis n = n * 10 ^ 6"

definition from_secs :: "nat \<Rightarrow> duration" where
  "from_secs n = n * 10 ^ 9"

section \<open>The policy\<close>

record backoff_config =
  bc_initial_delay :: duration
  bc_multiplier :: nat
  bc_max_delay :: duration
  bc_max_attempts :: nat

definition backoff_config_default :: backoff_config where
  "backoff_config_default =
     \<lparr>bc_initial_delay = from_millis 250, bc_multiplier = 2, bc_max_delay = from_secs 10, bc_max_attempts = 3\<rparr>"

datatype (plugins only: code size) retry_error_class =
    RateLimited | TransientNetwork | TimeoutError | PermissionDenied | ValidationError | UnknownError

definition class_is_retryable :: "retry_error_class \<Rightarrow> bool" where
  "class_is_retryable c \<longleftrightarrow> c = RateLimited \<or> c = TransientNetwork \<or> c = TimeoutError"

fun debug_class :: "retry_error_class \<Rightarrow> string" where
  "debug_class RateLimited = ''RateLimited''"
| "debug_class TransientNetwork = ''TransientNetwork''"
| "debug_class TimeoutError = ''Timeout''"
| "debug_class PermissionDenied = ''PermissionDenied''"
| "debug_class ValidationError = ''Validation''"
| "debug_class UnknownError = ''Unknown''"

datatype (plugins only: code size) retry_decision =
    Retry retry_error_class nat duration
  | DoNotRetry retry_error_class nat string
  | Exhausted retry_error_class nat

definition contains_any :: "string list \<Rightarrow> string \<Rightarrow> bool" where
  "contains_any ps s = list_ex (contains_str s) ps"

definition classify_error_message :: "string \<Rightarrow> retry_error_class" where
  "classify_error_message e =
     (let n = to_ascii_lowercase e in
      if contains_any [''permission denied'', ''unauthorized'', ''forbidden'', ''missing capability''] n
      then PermissionDenied
      else if contains_any [''429'', ''rate limit'', ''too many requests''] n then RateLimited
      else if contains_any [''timeout'', ''timed out'', ''deadline''] n then TimeoutError
      else if contains_any [''transient'', ''network'', ''connection reset'', ''connection refused'',
        ''temporarily unavailable'', ''503'', ''502'', ''504''] n then TransientNetwork
      else if contains_any [''validation'', ''invalid request'', ''bad request'', ''400''] n then ValidationError
      else UnknownError)"

definition backoff_delay :: "backoff_config \<Rightarrow> nat \<Rightarrow> duration option" where
  "backoff_delay c attempts =
     (if attempts = 0 \<or> bc_max_attempts c \<le> attempts then None
      else (let exponent = attempts - 1;
                factor = saturating_pow (bc_multiplier c) exponent;
                delay = saturating_mul (bc_initial_delay c) factor
            in Some (min delay (bc_max_delay c))))"

definition classify_error :: "backoff_config \<Rightarrow> string \<Rightarrow> nat \<Rightarrow> retry_decision" where
  "classify_error c e attempts =
     (let cls = classify_error_message e in
      if bc_max_attempts c \<le> attempts then Exhausted cls attempts
      else if \<not> class_is_retryable cls then DoNotRetry cls attempts (debug_class cls @ '' is not retryable'')
      else (case backoff_delay c attempts of
              Some d \<Rightarrow> Retry cls attempts d
            | None \<Rightarrow> Exhausted cls attempts))"

section \<open>Bounds\<close>

lemma saturating_pow_mono: "1 \<le> b \<Longrightarrow> e \<le> e' \<Longrightarrow> saturating_pow b e \<le> saturating_pow b e'"
  unfolding saturating_pow_def by (meson min.mono order_refl power_increasing)

lemma saturating_mul_mono: "n \<le> n' \<Longrightarrow> saturating_mul d n \<le> saturating_mul d n'"
  unfolding saturating_mul_def by (meson min.mono mult_le_mono2 order_refl)

lemma backoff_delay_defined: "backoff_delay c n \<noteq> None \<longleftrightarrow> 0 < n \<and> n < bc_max_attempts c"
  by (simp add: backoff_delay_def Let_def)

lemma backoff_delay_bounded: "backoff_delay c n = Some d \<Longrightarrow> d \<le> bc_max_delay c \<and> d \<le> DURATION_MAX"
  by (auto simp: backoff_delay_def Let_def saturating_mul_def split: if_splits)

lemma backoff_delay_mono:
  assumes "1 \<le> bc_multiplier c" and "n \<le> n'" and "backoff_delay c n = Some d" and "backoff_delay c n' = Some d'"
  shows "d \<le> d'"
proof -
  have "saturating_mul (bc_initial_delay c) (saturating_pow (bc_multiplier c) (n - 1)) \<le>
      saturating_mul (bc_initial_delay c) (saturating_pow (bc_multiplier c) (n' - 1))"
    using assms(1,2) by (intro saturating_mul_mono saturating_pow_mono) simp_all
  then show ?thesis
    using assms(3,4) by (auto simp: backoff_delay_def Let_def split: if_splits)
qed

text \<open>Saturation is invisible while the power fits its 32 bits and the longest delay is a duration.\<close>

lemma backoff_delay_exact:
  assumes "0 < n" and "n < bc_max_attempts c" and "bc_multiplier c ^ (n - 1) \<le> U32_MAX"
    and "bc_max_delay c \<le> DURATION_MAX"
  shows "backoff_delay c n = Some (min (bc_initial_delay c * bc_multiplier c ^ (n - 1)) (bc_max_delay c))"
  using assms by (simp add: backoff_delay_def Let_def saturating_pow_def saturating_mul_def min_def)

text \<open>
  The waiting time between attempts is bounded: it exists exactly for the attempts
  from the first to the last but one, never exceeds the configured maximum, never
  shrinks from one attempt to a later one, and is the geometric one, initial delay times
  multiplier to the power of the attempts before, capped at the maximum, as long as that
  power fits 32 bits; no input makes the arithmetic overflow.
\<close>

lemma backoff_bounds:
  assumes "1 \<le> bc_multiplier c" and "bc_max_delay c \<le> DURATION_MAX" and "n \<le> n'"
    and "backoff_delay c n = Some d" and "backoff_delay c n' = Some d'"
  shows "0 < n \<and> n' < bc_max_attempts c \<and> d \<le> d' \<and> d' \<le> bc_max_delay c \<and>
    (bc_multiplier c ^ (n - 1) \<le> U32_MAX \<longrightarrow>
      d = min (bc_initial_delay c * bc_multiplier c ^ (n - 1)) (bc_max_delay c))"
proof -
  have n: "0 < n" "n < bc_max_attempts c" "n' < bc_max_attempts c"
    using assms(4,5) backoff_delay_defined by blast+
  then show ?thesis
    using backoff_delay_mono [OF assms(1,3,4,5)] backoff_delay_bounded [OF assms(5)]
      backoff_delay_exact [OF n(1,2) _ assms(2)] assms(4)
    by auto
qed

lemma backoff_bounds_witness:
  "from_millis 250 \<le> from_millis 500 \<and> from_millis 500 \<le> from_secs 10"
proof -
  have "backoff_delay backoff_config_default 1 = Some (from_millis 250)"
      "backoff_delay backoff_config_default 2 = Some (from_millis 500)"
    by (simp_all add: backoff_delay_def backoff_config_default_def saturating_pow_def saturating_mul_def
        from_millis_def from_secs_def U32_MAX_def DURATION_MAX_def)
  from backoff_bounds [OF _ _ _ this] show ?thesis
    by (simp add: backoff_config_default_def from_secs_def DURATION_MAX_def)
qed

text \<open>A decision to retry: the error is of a kind that passes and an attempt is left.\<close>

lemma classify_error_Retry:
  "classify_error c e n = Retry cls k d \<longleftrightarrow>
     cls = classify_error_message e \<and> k = n \<and> class_is_retryable cls \<and> backoff_delay c n = Some d"
  using backoff_delay_defined [of c n] by (auto simp: classify_error_def Let_def split: option.splits)

text \<open>A failure reported with no attempt made is exhausted, not retried.\<close>

lemma zero_attempts_exhausted:
  "class_is_retryable (classify_error_message e) \<Longrightarrow> 0 < bc_max_attempts c \<Longrightarrow>
   classify_error c e 0 = Exhausted (classify_error_message e) 0"
  by (simp add: classify_error_def Let_def backoff_delay_def)

end
