(* ===== verification/Model_Types.thy ===== *)
theory Model_Types
  imports Core_Types Retry_Policy Utf8
begin

text \<open>
  The vocabulary of model calls and the registry of models
  (\<open>model-adapter/src/lib.rs\<close>): profiles and capabilities, requests, outputs, stream
  events, errors, and the checks of structured output. Token counts are natural numbers,
  with the bound of \<open>u32\<close> written out where the code adds them.
\<close>

section \<open>Models\<close>

datatype (plugins only: code size) model_id = ModelId string

fun model_text :: "model_id \<Rightarrow> string" where
  "model_text (ModelId s) = s"

text \<open>The derived order, that of the identifiers as strings.\<close>

instantiation model_id :: linorder
begin

definition less_eq_model_id :: "model_id \<Rightarrow> model_id \<Rightarrow> bool" where
  "less_eq_model_id a b \<longleftrightarrow> model_text a \<le> model_text b"

definition less_model_id :: "model_id \<Rightarrow> model_id \<Rightarrow> bool" where
  "less_model_id a b \<longleftrightarrow> model_text a < model_text b"

instance
proof
  fix a b c :: model_id
  show "a < b \<longleftrightarrow> a \<le> b \<and> \<not> b \<le> a" by (auto simp: less_eq_model_id_def less_model_id_def)
  show "a \<le> a" by (simp add: less_eq_model_id_def)
  show "a \<le> b \<Longrightarrow> b \<le> c \<Longrightarrow> a \<le> c" by (simp add: less_eq_model_id_def)
  show "a \<le> b \<Longrightarrow> b \<le> a \<Longrightarrow> a = b" by (cases a; cases b) (simp add: less_eq_model_id_def)
  show "a \<le> b \<or> b \<le> a" by (auto simp: less_eq_model_id_def)
qed

end

datatype (plugins only: code size) model_provider =
    ProvOpenAi | ProvAnthropic | ProvGoogle | ProvLocal | ProvTest | ProvCustom string

record model_capabilities =
  mc_streaming :: bool
  mc_tools :: bool
  mc_vision :: bool
  mc_json :: bool
  mc_max_context_tokens :: "nat option"

definition text_only :: model_capabilities where
  "text_only = \<lparr>mc_streaming = False, mc_tools = False, mc_vision = False, mc_json = False,
     mc_max_context_tokens = None\<rparr>"

definition tool_calling :: model_capabilities where
  "tool_calling = text_only\<lparr>mc_tools := True, mc_json := True\<rparr>"

record model_profile =
  mp_id :: model_id
  mp_provider :: model_provider
  mp_display_name :: string
  mp_capabilities :: model_capabilities

definition test_profile :: "model_id \<Rightarrow> model_profile" where
  "test_profile i = \<lparr>mp_id = i, mp_provider = ProvTest, mp_display_name = model_text i, mp_capabilities = text_only\<rparr>"

section \<open>Requests and outputs\<close>

datatype (plugins only: code size) model_role = RoleSystem | RoleUser | RoleAssistant | RoleTool

record model_message =
  mm_role :: model_role
  mm_text :: string

record model_request =
  mr_model_id :: model_id
  mr_messages :: "model_message list"
  mr_temperature_millis :: "nat option"
  mr_max_output_tokens :: "nat option"
  mr_metadata :: "(string, string) hmap"

definition model_request_new :: "model_id \<Rightarrow> model_message list \<Rightarrow> model_request" where
  "model_request_new i ms =
     \<lparr>mr_model_id = i, mr_messages = ms, mr_temperature_millis = None, mr_max_output_tokens = None, mr_metadata = []\<rparr>"

record model_usage =
  mu_input_tokens :: nat
  mu_output_tokens :: nat

text \<open>The unchecked addition of two \<open>u32\<close>; \<open>None\<close> is the overflow panic.\<close>

definition total_tokens :: "model_usage \<Rightarrow> nat option" where
  "total_tokens u =
     (if mu_input_tokens u + mu_output_tokens u \<le> U32_MAX then Some (mu_input_tokens u + mu_output_tokens u) else None)"

record tool_definition =
  td_name :: string
  td_description :: string
  td_input_schema :: json

record tool_call =
  tc_id :: string
  tc_name :: string
  tc_arguments :: json
  tc_raw_arguments :: string

datatype (plugins only: code size) tool_choice = ChoiceAuto | ChoiceNone | ChoiceRequired | ChoiceNamed string

datatype (plugins only: code size) model_output =
    TextOutput string "model_usage option"
  | ToolCallsOutput "string option" "tool_call list" "model_usage option"

fun output_text :: "model_output \<Rightarrow> string option" where
  "output_text (TextOutput t u) = Some t"
| "output_text (ToolCallsOutput c ts u) = c"

fun output_usage :: "model_output \<Rightarrow> model_usage option" where
  "output_usage (TextOutput t u) = u"
| "output_usage (ToolCallsOutput c ts u) = u"

section \<open>Errors\<close>

datatype (plugins only: code size) model_adapter_error =
    EmptyRequest
  | ModelNotFound model_id
  | UnsupportedModelCapability model_id string
  | DuplicateModelId model_id
  | DefaultModelNotSet
  | ExecutorFailed string
  | MalformedToolCallArguments string
  | MalformedStructuredOutput string
  | StructuredOutputSchemaViolation string
  | StructuredOutputRepairFailed string
  | MissingToolCallName
  | MissingToolCallId
  | ConfigError string
  | HttpError string
  | AuthError string
  | RateLimitExceeded
  | EmptyResponse

fun show_model_error :: "model_adapter_error \<Rightarrow> string" where
  "show_model_error EmptyRequest = ''empty model request''"
| "show_model_error (ModelNotFound i) = ''model not found: '' @ model_text i"
| "show_model_error (UnsupportedModelCapability i c) =
     ''model capability unsupported: '' @ model_text i @ '' does not support '' @ c"
| "show_model_error (DuplicateModelId i) = ''duplicate model id: '' @ model_text i"
| "show_model_error DefaultModelNotSet = ''default model not set''"
| "show_model_error (ExecutorFailed m) = ''executor failed: '' @ m"
| "show_model_error (MalformedToolCallArguments m) = ''malformed tool call arguments: '' @ m"
| "show_model_error (MalformedStructuredOutput m) = ''malformed structured output: '' @ m"
| "show_model_error (StructuredOutputSchemaViolation m) = ''structured output schema violation: '' @ m"
| "show_model_error (StructuredOutputRepairFailed m) = ''structured output repair failed: '' @ m"
| "show_model_error MissingToolCallName = ''missing tool call function name''"
| "show_model_error MissingToolCallId = ''missing tool call id''"
| "show_model_error (ConfigError m) = ''config error: '' @ m"
| "show_model_error (HttpError m) = ''HTTP error: '' @ m"
| "show_model_error (AuthError m) = ''auth error: '' @ m"
| "show_model_error RateLimitExceeded = ''rate limit exceeded''"
| "show_model_error EmptyResponse = ''empty response''"

section \<open>The registry\<close>

record model_registry =
  reg_models :: "(model_id, model_profile) hmap"
  reg_default_model_id :: "model_id option"

definition model_registry_new :: model_registry where
  "model_registry_new = \<lparr>reg_models = [], reg_default_model_id = None\<rparr>"

definition register_model :: "model_profile \<Rightarrow> (model_registry, model_adapter_error, unit) prog" where
  "register_model p r =
     (if m_contains (reg_models r) (mp_id p) then (Inl (DuplicateModelId (mp_id p)), r)
      else (Inr (), r\<lparr>reg_models := bt_put (mp_id p) p (reg_models r)\<rparr>))"

definition set_default_model :: "model_id \<Rightarrow> (model_registry, model_adapter_error, unit) prog" where
  "set_default_model i r =
     (if \<not> m_contains (reg_models r) i then (Inl (ModelNotFound i), r)
      else (Inr (), r\<lparr>reg_default_model_id := Some i\<rparr>))"

definition require_capability ::
    "model_registry \<Rightarrow> model_id \<Rightarrow> string \<Rightarrow> (model_profile \<Rightarrow> bool) \<Rightarrow> model_adapter_error + model_profile" where
  "require_capability r i capability p =
     bind_result (ok_or (m_get (reg_models r) i) (ModelNotFound i)) (\<lambda>profile.
       if p profile then Inr profile else Inl (UnsupportedModelCapability i capability))"

definition require_tools :: "model_registry \<Rightarrow> model_id \<Rightarrow> model_adapter_error + model_profile" where
  "require_tools r i = require_capability r i ''tools'' (\<lambda>p. mc_tools (mp_capabilities p))"

definition require_streaming :: "model_registry \<Rightarrow> model_id \<Rightarrow> model_adapter_error + model_profile" where
  "require_streaming r i = require_capability r i ''streaming'' (\<lambda>p. mc_streaming (mp_capabilities p))"

definition require_json :: "model_registry \<Rightarrow> model_id \<Rightarrow> model_adapter_error + model_profile" where
  "require_json r i = require_capability r i ''json'' (\<lambda>p. mc_json (mp_capabilities p))"

definition require_vision :: "model_registry \<Rightarrow> model_id \<Rightarrow> model_adapter_error + model_profile" where
  "require_vision r i = require_capability r i ''vision'' (\<lambda>p. mc_vision (mp_capabilities p))"

definition default_model :: "model_registry \<Rightarrow> model_adapter_error + model_profile" where
  "default_model r =
     bind_result (ok_or (reg_default_model_id r) DefaultModelNotSet) (\<lambda>i.
       ok_or (m_get (reg_models r) i) (ModelNotFound i))"

text \<open>A registry that was built by its operations: its default is registered.\<close>

definition registry_ok :: "model_registry \<Rightarrow> bool" where
  "registry_ok r \<longleftrightarrow> bt_inv (reg_models r) \<and> (\<forall>i p. m_get (reg_models r) i = Some p \<longrightarrow> mp_id p = i) \<and>
     (\<forall>i. reg_default_model_id r = Some i \<longrightarrow> m_contains (reg_models r) i)"

lemma registry_ok_new: "registry_ok model_registry_new"
  by (simp add: registry_ok_def model_registry_new_def)

lemma registry_ok_step:
  assumes "registry_ok r"
  shows "registry_ok (snd (register_model p r))" and "registry_ok (snd (set_default_model i r))"
  using assms by (auto simp: registry_ok_def register_model_def set_default_model_def)

lemma default_model_found:
  assumes "registry_ok r" and "reg_default_model_id r = Some i"
  shows "\<exists>p. default_model r = Inr p \<and> mp_id p = i"
  using assms by (auto simp: registry_ok_def default_model_def m_contains_def)

section \<open>Structured output\<close>

record structured_output_format =
  so_name :: string
  so_schema :: json
  so_strict :: bool

fun json_get :: "string \<Rightarrow> json \<Rightarrow> json option" where
  "json_get k (JObject kvs) = map_of kvs k"
| "json_get k _ = None"

fun json_as_str :: "json \<Rightarrow> string option" where
  "json_as_str (JString s) = Some s"
| "json_as_str _ = None"

fun json_as_array :: "json \<Rightarrow> json list option" where
  "json_as_array (JArray js) = Some js"
| "json_as_array _ = None"

fun json_as_object :: "json \<Rightarrow> (string \<times> json) list option" where
  "json_as_object (JObject kvs) = Some kvs"
| "json_as_object _ = None"

text \<open>A number is an integer for \<open>serde_json\<close> if its text has no fraction and no exponent.\<close>

definition integer_text :: "string \<Rightarrow> bool" where
  "integer_text t = list_all (\<lambda>c. c = CHR ''-'' \<or> 48 \<le> byte c \<and> byte c \<le> 57) t"

definition json_has_type :: "json \<Rightarrow> string \<Rightarrow> bool" where
  "json_has_type v expected =
     (if expected = ''object'' then (case v of JObject _ \<Rightarrow> True | _ \<Rightarrow> False)
      else if expected = ''array'' then (case v of JArray _ \<Rightarrow> True | _ \<Rightarrow> False)
      else if expected = ''string'' then (case v of JString _ \<Rightarrow> True | _ \<Rightarrow> False)
      else if expected = ''number'' then (case v of JNumber _ \<Rightarrow> True | _ \<Rightarrow> False)
      else if expected = ''integer'' then (case v of JNumber t \<Rightarrow> integer_text t | _ \<Rightarrow> False)
      else if expected = ''boolean'' then (case v of JBool _ \<Rightarrow> True | _ \<Rightarrow> False)
      else if expected = ''null'' then v = JNull
      else True)"

definition validate_json_type :: "json \<Rightarrow> string \<Rightarrow> string \<Rightarrow> string + unit" where
  "validate_json_type v expected path =
     ensure (json_has_type v expected) (path @ '': expected '' @ expected)"

fun check_required :: "(string \<times> json) list \<Rightarrow> json list \<Rightarrow> string + unit" where
  "check_required obj [] = Inr ()"
| "check_required obj (j # js) =
     (case json_as_str j of
        None \<Rightarrow> check_required obj js
      | Some k \<Rightarrow>
          if map_of obj k = None then Inl (''$: missing required property `'' @ k @ ''`'')
          else check_required obj js)"

fun check_properties :: "(string \<times> json) list \<Rightarrow> (string \<times> json) list \<Rightarrow> string + unit" where
  "check_properties obj [] = Inr ()"
| "check_properties obj ((k, schema) # ps) =
     bind_result
       (case (map_of obj k, Option.bind (json_get ''type'' schema) json_as_str) of
          (Some v, Some t) \<Rightarrow> validate_json_type v t (''$.'' @ k)
        | _ \<Rightarrow> Inr ())
       (\<lambda>_. check_properties obj ps)"

definition validate_json_schema_subset :: "json \<Rightarrow> json \<Rightarrow> string + unit" where
  "validate_json_schema_subset v schema =
     bind_result (case Option.bind (json_get ''type'' schema) json_as_str of
                    None \<Rightarrow> Inr () | Some t \<Rightarrow> validate_json_type v t ''$'') (\<lambda>_.
     bind_result (case Option.bind (json_get ''required'' schema) json_as_array of
                    None \<Rightarrow> Inr ()
                  | Some required \<Rightarrow>
                      bind_result (ok_or (json_as_object v) ''$: expected object for required properties'') (\<lambda>obj.
                        check_required obj required)) (\<lambda>_.
     case Option.bind (json_get ''properties'' schema) json_as_object of
       None \<Rightarrow> Inr ()
     | Some properties \<Rightarrow>
         bind_result (ok_or (json_as_object v) ''$: expected object for properties'') (\<lambda>obj.
           check_properties obj properties)))"

text \<open>
  \<open>serde_json::from_str\<close> is the argument \<open>parse\<close>; a repair policy is a function, absent in
  a validator without one.
\<close>

definition validate_once ::
    "(string \<Rightarrow> string + json) \<Rightarrow> structured_output_format \<Rightarrow> string \<Rightarrow> model_adapter_error + json" where
  "validate_once parse fmt raw =
     (case parse raw of
        Inl e \<Rightarrow> Inl (MalformedStructuredOutput (so_name fmt @ '': '' @ e))
      | Inr v \<Rightarrow>
          (case validate_json_schema_subset v (so_schema fmt) of
             Inl e \<Rightarrow> Inl (StructuredOutputSchemaViolation e)
           | Inr _ \<Rightarrow> Inr v))"

definition validate_structured ::
    "(string \<Rightarrow> string + json) \<Rightarrow> (string \<Rightarrow> structured_output_format \<Rightarrow> model_adapter_error \<Rightarrow> string option) option \<Rightarrow>
     structured_output_format \<Rightarrow> string \<Rightarrow> model_adapter_error + json" where
  "validate_structured parse repair fmt raw =
     (case validate_once parse fmt raw of
        Inr v \<Rightarrow> Inr v
      | Inl e \<Rightarrow>
          (case repair of
             None \<Rightarrow> Inl e
           | Some rp \<Rightarrow>
               (case rp raw fmt e of
                  None \<Rightarrow> Inl e
                | Some fixed \<Rightarrow>
                    (case validate_once parse fmt fixed of
                       Inr v \<Rightarrow> Inr v
                     | Inl e' \<Rightarrow> Inl (StructuredOutputRepairFailed (show_model_error e'))))))"

text \<open>What an accepted value satisfies.\<close>

definition conforms :: "json \<Rightarrow> json \<Rightarrow> bool" where
  "conforms v schema \<longleftrightarrow>
     (\<forall>t. Option.bind (json_get ''type'' schema) json_as_str = Some t \<longrightarrow> json_has_type v t) \<and>
     (\<forall>ks. Option.bind (json_get ''required'' schema) json_as_array = Some ks \<longrightarrow>
        (\<exists>obj. v = JObject obj \<and> (\<forall>k. JString k \<in> set ks \<longrightarrow> k \<in> fst ` set obj))) \<and>
     (\<forall>ps. Option.bind (json_get ''properties'' schema) json_as_object = Some ps \<longrightarrow>
        (\<exists>obj. v = JObject obj \<and> (\<forall>k s x t. (k, s) \<in> set ps \<longrightarrow> map_of obj k = Some x \<longrightarrow>
           Option.bind (json_get ''type'' s) json_as_str = Some t \<longrightarrow> json_has_type x t)))"

lemma json_as_str_Some [simp]: "json_as_str j = Some s \<longleftrightarrow> j = JString s"
  by (cases j) auto

lemma json_as_object_Some [simp]: "json_as_object j = Some kvs \<longleftrightarrow> j = JObject kvs"
  by (cases j) auto

lemma check_required_iff:
  "check_required obj js = Inr () \<longleftrightarrow> (\<forall>k. JString k \<in> set js \<longrightarrow> k \<in> fst ` set obj)"
proof (induction js)
  case (Cons j js)
  then show ?case
    by (cases j) (auto simp: map_of_eq_None_iff)
qed simp

lemma check_properties_iff:
  "check_properties obj ps = Inr () \<longleftrightarrow>
     (\<forall>k s x t. (k, s) \<in> set ps \<longrightarrow> map_of obj k = Some x \<longrightarrow>
        Option.bind (json_get ''type'' s) json_as_str = Some t \<longrightarrow> json_has_type x t)"
proof (induction ps)
  case (Cons p ps)
  obtain k s where p: "p = (k, s)" by force
  show ?case
    unfolding p
    by (cases "map_of obj k"; cases "Option.bind (json_get ''type'' s) json_as_str")
       (auto simp: bind_result_Inr_iff validate_json_type_def Cons.IH)
qed simp

lemma validate_json_schema_subset_iff: "validate_json_schema_subset v schema = Inr () \<longleftrightarrow> conforms v schema"
  unfolding validate_json_schema_subset_def conforms_def
  by (cases "Option.bind (json_get ''type'' schema) json_as_str";
      cases "Option.bind (json_get ''required'' schema) json_as_array";
      cases "Option.bind (json_get ''properties'' schema) json_as_object")
     (auto simp: bind_result_Inr_iff validate_json_type_def check_required_iff check_properties_iff)

end
