(* ===== verification/Token_Budget.thy ===== *)
theory Token_Budget
  imports Model_Types
begin

text \<open>
  Budgets of tokens: what of a tool result, of the tool schemas and of the history is
  sent to a model, and what the calls cost (\<open>model-adapter/src/token_budget.rs\<close>).

  Unchecked arithmetic on \<open>u32\<close> and \<open>u64\<close>, and slicing a string off a character boundary,
  are options: \<open>None\<close> is the panic of a build with overflow checks.
\<close>

section \<open>Checked arithmetic\<close>

definition U64_MAX :: nat where
  "U64_MAX = 2 ^ 64 - 1"

definition add32 :: "nat \<Rightarrow> nat \<Rightarrow> nat option" where
  "add32 a b = (if a + b \<le> U32_MAX then Some (a + b) else None)"

definition mul32 :: "nat \<Rightarrow> nat \<Rightarrow> nat option" where
  "mul32 a b = (if a * b \<le> U32_MAX then Some (a * b) else None)"

definition add64 :: "nat \<Rightarrow> nat \<Rightarrow> nat option" where
  "add64 a b = (if a + b \<le> U64_MAX then Some (a + b) else None)"

definition mul64 :: "nat \<Rightarrow> nat \<Rightarrow> nat option" where
  "mul64 a b = (if a * b \<le> U64_MAX then Some (a * b) else None)"

text \<open>\<open>Iterator::sum\<close>: from the left, starting at zero.\<close>

fun sum_with :: "(nat \<Rightarrow> nat \<Rightarrow> nat option) \<Rightarrow> nat \<Rightarrow> nat list \<Rightarrow> nat option" where
  "sum_with add a [] = Some a"
| "sum_with add a (x # xs) = Option.bind (add a x) (\<lambda>b. sum_with add b xs)"

definition sum32 :: "nat list \<Rightarrow> nat option" where
  "sum32 xs = sum_with add32 0 xs"

definition sum64 :: "nat list \<Rightarrow> nat option" where
  "sum64 xs = sum_with add64 0 xs"

lemma sum_with_add32: "sum_with add32 a xs = (if xs = [] \<or> a + sum_list xs \<le> U32_MAX then Some (a + sum_list xs) else None)"
  by (induction xs arbitrary: a) (auto simp: add32_def)

lemma sum32_spec: "sum32 xs = (if sum_list xs \<le> U32_MAX then Some (sum_list xs) else None)"
  by (auto simp: sum32_def sum_with_add32)

section \<open>Estimates and configuration\<close>

type_synonym estimator = "string \<Rightarrow> nat"

text \<open>The length as \<open>u32\<close>, divided by four, rounded up.\<close>

definition simple_estimate :: estimator where
  "simple_estimate t = (length t mod 2 ^ 32 + 3) div 4"

record budget_config =
  tb_tool_result_inline_limit :: nat
  tb_tool_schema_budget :: nat
  tb_history_budget :: nat
  tb_total_context_budget :: nat

definition budget_config_default :: budget_config where
  "budget_config_default = \<lparr>tb_tool_result_inline_limit = 512, tb_tool_schema_budget = 4096,
     tb_history_budget = 32768, tb_total_context_budget = 100000\<rparr>"

section \<open>Usage and cost\<close>

record aggregated_usage =
  au_input_tokens :: nat
  au_output_tokens :: nat
  au_turns :: nat

definition aggregated_usage_default :: aggregated_usage where
  "aggregated_usage_default = \<lparr>au_input_tokens = 0, au_output_tokens = 0, au_turns = 0\<rparr>"

definition record_tokens :: "nat \<Rightarrow> nat \<Rightarrow> aggregated_usage \<Rightarrow> aggregated_usage option" where
  "record_tokens i out u =
     Option.bind (add64 (au_input_tokens u) i) (\<lambda>i'.
     Option.bind (add64 (au_output_tokens u) out) (\<lambda>o'.
     Option.bind (add32 (au_turns u) 1) (\<lambda>t'.
       Some \<lparr>au_input_tokens = i', au_output_tokens = o', au_turns = t'\<rparr>)))"

definition record_model_usage :: "model_usage \<Rightarrow> aggregated_usage \<Rightarrow> aggregated_usage option" where
  "record_model_usage m u = record_tokens (mu_input_tokens m) (mu_output_tokens m) u"

definition record_model_output :: "model_output \<Rightarrow> aggregated_usage \<Rightarrow> aggregated_usage option" where
  "record_model_output out u = (case output_usage out of None \<Rightarrow> Some u | Some m \<Rightarrow> record_model_usage m u)"

definition usage_total :: "aggregated_usage \<Rightarrow> nat option" where
  "usage_total u = add64 (au_input_tokens u) (au_output_tokens u)"

record cost_config =
  cc_input_micro_cents_per_token :: nat
  cc_output_micro_cents_per_token :: nat

definition cost_micro_cents :: "cost_config \<Rightarrow> model_usage \<Rightarrow> nat option" where
  "cost_micro_cents c u =
     Option.bind (mul64 (mu_input_tokens u) (cc_input_micro_cents_per_token c)) (\<lambda>a.
     Option.bind (mul64 (mu_output_tokens u) (cc_output_micro_cents_per_token c)) (\<lambda>b. add64 a b))"

type_synonym cost_catalog = "(string, cost_config) hmap"

definition catalog_insert :: "string \<Rightarrow> cost_config \<Rightarrow> cost_catalog \<Rightarrow> cost_catalog" where
  "catalog_insert i c m = bt_put i c m"

text \<open>The outer option is the result, the inner one the panic.\<close>

definition cost_for_usage :: "cost_catalog \<Rightarrow> string \<Rightarrow> model_usage \<Rightarrow> nat option option" where
  "cost_for_usage m i u = map_option (\<lambda>c. cost_micro_cents c u) (m_get m i)"

record ledger_entry =
  lg_run_id :: string
  lg_turn :: nat
  lg_provider :: string
  lg_model_id :: string
  lg_usage :: model_usage
  lg_cost_micro_cents :: "nat option"

definition ledger_record :: "ledger_entry \<Rightarrow> ledger_entry list \<Rightarrow> ledger_entry list" where
  "ledger_record e es = es @ [e]"

definition aggregate_for_run :: "string \<Rightarrow> ledger_entry list \<Rightarrow> aggregated_usage option" where
  "aggregate_for_run r es =
     fold (\<lambda>e u. Option.bind u (record_model_usage (lg_usage e)))
       (filter (\<lambda>e. lg_run_id e = r) es) (Some aggregated_usage_default)"

definition total_cost_for_run :: "string \<Rightarrow> ledger_entry list \<Rightarrow> nat option" where
  "total_cost_for_run r es = sum64 (List.map_filter lg_cost_micro_cents (filter (\<lambda>e. lg_run_id e = r) es))"

section \<open>Tool results and schemas\<close>

datatype (plugins only: code size) tool_result_decision =
    Inline string
  | Truncated string nat
  | ArtifactRef string string

definition gate_decide :: "budget_config \<Rightarrow> estimator \<Rightarrow> string \<Rightarrow> tool_result_decision option" where
  "gate_decide c est result =
     (let tokens = est result in
      if tokens \<le> tb_tool_result_inline_limit c then Some (Inline result)
      else Option.bind (mul32 (tb_tool_result_inline_limit c) 4) (\<lambda>limit_chars.
        Option.bind
          (if limit_chars < length result
           then map_option (\<lambda>s. s @ ''...(truncated, '' @ decimal tokens @ '' tokens)'') (slice_to result limit_chars)
           else Some result)
          (\<lambda>truncated. Some (Truncated truncated tokens))))"

fun gate_results ::
    "budget_config \<Rightarrow> estimator \<Rightarrow> (string \<times> string) list \<Rightarrow> (string \<times> tool_result_decision) list option" where
  "gate_results c est [] = Some []"
| "gate_results c est ((i, t) # rs) =
     Option.bind (gate_decide c est t) (\<lambda>d. map_option (\<lambda>ds. (i, d) # ds) (gate_results c est rs))"

type_synonym tool_text = "string \<times> string \<times> string"

fun schema_text :: "tool_text \<Rightarrow> string" where
  "schema_text (name, desc, schema) = name @ '' '' @ desc @ '' '' @ schema"

fun select_tools ::
    "nat \<Rightarrow> estimator \<Rightarrow> tool_text list \<Rightarrow> tool_text list \<Rightarrow> nat \<Rightarrow> (tool_text list \<times> nat) option" where
  "select_tools budget est [] selected used = Some (selected, used)"
| "select_tools budget est (t # ts) selected used =
     Option.bind (add32 used (est (schema_text t))) (\<lambda>sum.
       if sum \<le> budget then select_tools budget est ts (selected @ [t]) sum
       else select_tools budget est ts selected used)"

definition select_schemas :: "budget_config \<Rightarrow> estimator \<Rightarrow> tool_text list \<Rightarrow> (tool_text list \<times> nat) option" where
  "select_schemas c est ts = select_tools (tb_tool_schema_budget c) est ts [] 0"

section \<open>History\<close>

record dedupe_report =
  dd_messages_before :: nat
  dd_messages_after :: nat
  dd_tokens_saved :: nat

type_synonym history = "(string \<times> string) list"

fun dedupe_messages :: "estimator \<Rightarrow> history \<Rightarrow> history \<Rightarrow> nat \<Rightarrow> (history \<times> nat) option" where
  "dedupe_messages est [] result saved = Some (result, saved)"
| "dedupe_messages est ((role, text) # ms) result saved =
     (if result \<noteq> [] \<and> snd (last result) = text
      then Option.bind (add32 saved (est text)) (\<lambda>saved'. dedupe_messages est ms result saved')
      else dedupe_messages est ms (result @ [(role, text)]) saved)"

definition deduplicate :: "estimator \<Rightarrow> history \<Rightarrow> (history \<times> dedupe_report) option" where
  "deduplicate est ms =
     map_option (\<lambda>(result, saved).
       (result, \<lparr>dd_messages_before = length ms, dd_messages_after = length result, dd_tokens_saved = saved\<rparr>))
     (dedupe_messages est ms [] 0)"

record compacted_history =
  ch_messages :: history
  ch_removed_count :: nat
  ch_tokens_removed :: nat

fun count_removed :: "nat \<Rightarrow> estimator \<Rightarrow> history \<Rightarrow> nat \<Rightarrow> nat" where
  "count_removed budget est [] current = 0"
| "count_removed budget est ((role, text) # ms) current =
     (if current \<le> budget then 0 else Suc (count_removed budget est ms (current - est text)))"

definition compact :: "budget_config \<Rightarrow> estimator \<Rightarrow> history \<Rightarrow> compacted_history option" where
  "compact c est ms =
     Option.bind (sum32 (map (\<lambda>m. est (snd m)) ms)) (\<lambda>used.
       if used \<le> tb_history_budget c
       then Some \<lparr>ch_messages = ms, ch_removed_count = 0, ch_tokens_removed = 0\<rparr>
       else (let n = count_removed (tb_history_budget c) est ms used in
             Option.bind (sum32 (map (\<lambda>m. est (snd m)) (take n ms))) (\<lambda>removed.
               Some \<lparr>ch_messages = drop n ms, ch_removed_count = n, ch_tokens_removed = removed\<rparr>)))"

section \<open>Properties\<close>

abbreviation tokens_of :: "estimator \<Rightarrow> history \<Rightarrow> nat" where
  "tokens_of est ms \<equiv> sum_list (map (\<lambda>m. est (snd m)) ms)"

lemma count_removed_spec:
  assumes "current = tokens_of est ms"
  shows "count_removed budget est ms current \<le> length ms"
    and "tokens_of est (drop (count_removed budget est ms current) ms) \<le> budget"
    and "k < count_removed budget est ms current \<Longrightarrow> budget < tokens_of est (drop k ms)"
  using assms
proof (induction ms arbitrary: current k)
  case Nil
  { case 1 then show ?case by simp next case 2 then show ?case by simp next case 3 then show ?case by simp }
next
  case (Cons m ms)
  obtain role body where m: "m = (role, body)" by force
  { case 1
    then show ?case using Cons.IH(1) [of "current - est body"] m by simp
  next
    case 2
    then show ?case using Cons.IH(2) [of "current - est body"] m by simp
  next
    case 3
    then show ?case using Cons.IH(3) [of "k - 1" "current - est body"] m by (cases k) (auto split: if_splits) }
qed

text \<open>
  Compacting a history keeps as much of it as fits: unless the total overflows 32
  bits, the result is the longest run of newest messages whose estimate is within the
  budget (one message more would exceed it), nothing is reordered or changed, and the
  reported numbers are those of the removed messages.
\<close>

lemma compaction_keeps_longest_suffix:
  assumes "compact c est ms = Some h"
  shows "ms = take (ch_removed_count h) ms @ ch_messages h \<and> ch_removed_count h + length (ch_messages h) = length ms \<and>
    tokens_of est (ch_messages h) \<le> tb_history_budget c \<and>
    (\<forall>k < ch_removed_count h. tb_history_budget c < tokens_of est (drop k ms)) \<and>
    ch_tokens_removed h = tokens_of est (take (ch_removed_count h) ms)"
proof -
  let ?total = "tokens_of est ms" and ?b = "tb_history_budget c"
  have fits: "?total \<le> U32_MAX"
    using assms by (auto simp: compact_def sum32_spec split: if_splits)
  show ?thesis
  proof (cases "?total \<le> ?b")
    case True
    then have "h = \<lparr>ch_messages = ms, ch_removed_count = 0, ch_tokens_removed = 0\<rparr>"
      using assms fits by (simp add: compact_def sum32_spec)
    with True show ?thesis by simp
  next
    case False
    let ?n = "count_removed ?b est ms ?total"
    have "h = \<lparr>ch_messages = drop ?n ms, ch_removed_count = ?n, ch_tokens_removed = tokens_of est (take ?n ms)\<rparr>"
      using assms fits False by (auto simp: compact_def sum32_spec Let_def split: if_splits)
    with count_removed_spec [OF refl, where budget = ?b and est = est and ms = ms] show ?thesis by simp
  qed
qed

lemma compaction_keeps_longest_suffix_witness:
  "tokens_of simple_estimate [(''user'', ''a question'')] \<le> 3 \<and>
   3 < tokens_of simple_estimate [(''assistant'', ''an answer''), (''user'', ''a question'')]"
proof -
  let ?c = "budget_config_default\<lparr>tb_history_budget := 3\<rparr>"
  let ?ms = "[(''assistant'', ''an answer''), (''user'', ''a question'')]"
  have "compact ?c simple_estimate ?ms =
      Some \<lparr>ch_messages = [(''user'', ''a question'')], ch_removed_count = 1, ch_tokens_removed = 3\<rparr>"
    by (simp add: compact_def sum32_spec simple_estimate_def budget_config_default_def U32_MAX_def Let_def)
  from compaction_keeps_longest_suffix [OF this] show ?thesis by simp
qed

text \<open>Selection of schemas: the total is that of the selected ones and within the budget.\<close>

lemma select_tools_spec:
  assumes "select_tools budget est ts sel used = Some (sel', used')" and "used \<le> budget"
    and "used = sum_list (map (\<lambda>t. est (schema_text t)) sel)"
  shows "used' \<le> budget \<and> used' = sum_list (map (\<lambda>t. est (schema_text t)) sel') \<and> (\<exists>new. sel' = sel @ new \<and> subseq new ts)"
  using assms
proof (induction ts arbitrary: sel used)
  case Nil
  then show ?case by auto
next
  case (Cons t ts)
  let ?sum = "used + est (schema_text t)"
  have sum: "add32 used (est (schema_text t)) = Some ?sum"
    using Cons.prems(1) by (auto simp: add32_def split: if_splits)
  show ?case
  proof (cases "?sum \<le> budget")
    case True
    then obtain new where "used' \<le> budget" "used' = sum_list (map (\<lambda>t. est (schema_text t)) sel')"
        "sel' = (sel @ [t]) @ new" "subseq new ts"
      using Cons.IH [of "sel @ [t]" ?sum] Cons.prems sum by auto
    then show ?thesis by (intro conjI exI [of _ "t # new"]) auto
  next
    case False
    then show ?thesis using Cons.IH [of sel used] Cons.prems sum by auto
  qed
qed

text \<open>Duplicates: no two neighbours of the result have the same text.\<close>

lemma dedupe_no_neighbours:
  assumes "dedupe_messages est ms result saved = Some (result', saved')"
    and "successively (\<lambda>x y. snd x \<noteq> snd y) result"
  shows "successively (\<lambda>x y. snd x \<noteq> snd y) result'"
  using assms
proof (induction est ms result saved rule: dedupe_messages.induct)
  case (2 est role body ms result saved)
  show ?case
  proof (cases "result \<noteq> [] \<and> snd (last result) = body")
    case True
    with 2 show ?thesis by (auto split: bind_splits)
  next
    case False
    with 2 show ?thesis by (auto simp: successively_append_iff)
  qed
qed simp

text \<open>An inline result is unchanged; a cut off one panics off a character boundary.\<close>

lemma gate_decide_inline: "gate_decide c est t = Some (Inline s) \<longleftrightarrow> est t \<le> tb_tool_result_inline_limit c \<and> s = t"
  by (auto simp: gate_decide_def Let_def split: bind_splits)

lemma gate_decide_panics:
  assumes "tb_tool_result_inline_limit c < est t" and "tb_tool_result_inline_limit c * 4 < length t"
    and "\<not> is_char_boundary t (tb_tool_result_inline_limit c * 4)"
  shows "gate_decide c est t = None"
  using assms by (simp add: gate_decide_def mul32_def slice_to_def Let_def)

end
