(* ===== verification/Tool_Checkpoints.thy ===== *)
theory Tool_Checkpoints
  imports Core_Types
begin

text \<open>
  Checkpoints of the tool loop, the store that keeps them per run, and the plan that a
  resumed run derives from them (\<open>agent-runtime/src/tool_loop_checkpoint.rs\<close>).
\<close>

record tool_result_checkpoint =
  trc_tool_call_id :: string
  trc_action_id :: string
  trc_result_text :: string
  trc_read_only :: bool

datatype (plugins only: code size) checkpoint_kind = BeforeModelCall | AfterModelCall | ToolResultKind

record tool_loop_checkpoint =
  tlc_run_id :: string
  tlc_turn :: nat
  tlc_kind :: checkpoint_kind
  tlc_tool_result :: "tool_result_checkpoint option"
  tlc_created_at :: datetime

definition before_model_call :: "datetime \<Rightarrow> string \<Rightarrow> nat \<Rightarrow> tool_loop_checkpoint" where
  "before_model_call now r turn = \<lparr>tlc_run_id = r, tlc_turn = turn, tlc_kind = BeforeModelCall,
     tlc_tool_result = None, tlc_created_at = now\<rparr>"

definition after_model_call :: "datetime \<Rightarrow> string \<Rightarrow> nat \<Rightarrow> tool_loop_checkpoint" where
  "after_model_call now r turn = \<lparr>tlc_run_id = r, tlc_turn = turn, tlc_kind = AfterModelCall,
     tlc_tool_result = None, tlc_created_at = now\<rparr>"

definition tool_result_checkpoint_of :: "datetime \<Rightarrow> string \<Rightarrow> nat \<Rightarrow> tool_result_checkpoint \<Rightarrow> tool_loop_checkpoint" where
  "tool_result_checkpoint_of now r turn t = \<lparr>tlc_run_id = r, tlc_turn = turn, tlc_kind = ToolResultKind,
     tlc_tool_result = Some t, tlc_created_at = now\<rparr>"

section \<open>The store in memory\<close>

type_synonym checkpoint_map = "(string, tool_loop_checkpoint list) hmap"

definition append_checkpoint :: "tool_loop_checkpoint \<Rightarrow> checkpoint_map \<Rightarrow> checkpoint_map" where
  "append_checkpoint c m =
     bt_put (tlc_run_id c) ((case m_get m (tlc_run_id c) of None \<Rightarrow> [] | Some cs \<Rightarrow> cs) @ [c]) m"

definition list_checkpoints :: "string \<Rightarrow> checkpoint_map \<Rightarrow> tool_loop_checkpoint list" where
  "list_checkpoints r m = (case m_get m r of None \<Rightarrow> [] | Some cs \<Rightarrow> cs)"

lemma list_after_append:
  "list_checkpoints r (append_checkpoint c m) =
     list_checkpoints r m @ (if tlc_run_id c = r then [c] else [])"
  by (simp add: list_checkpoints_def append_checkpoint_def)

section \<open>The plan of a resumed run\<close>

record resume_plan =
  pl_completed :: "(string, tool_result_checkpoint) hmap"
  pl_skippable :: "string set"
  pl_last_started_turn :: "nat option"
  pl_last_completed_turn :: "nat option"

definition resume_plan_default :: resume_plan where
  "resume_plan_default = \<lparr>pl_completed = [], pl_skippable = {}, pl_last_started_turn = None, pl_last_completed_turn = None\<rparr>"

definition later_turn :: "nat option \<Rightarrow> nat \<Rightarrow> nat option" where
  "later_turn t n = Some (case t of None \<Rightarrow> n | Some k \<Rightarrow> max k n)"

definition plan_step :: "tool_loop_checkpoint \<Rightarrow> resume_plan \<Rightarrow> resume_plan" where
  "plan_step c p =
     (case tlc_kind c of
        BeforeModelCall \<Rightarrow> p\<lparr>pl_last_started_turn := later_turn (pl_last_started_turn p) (tlc_turn c)\<rparr>
      | AfterModelCall \<Rightarrow> p\<lparr>pl_last_completed_turn := later_turn (pl_last_completed_turn p) (tlc_turn c)\<rparr>
      | ToolResultKind \<Rightarrow>
          (case tlc_tool_result c of
             None \<Rightarrow> p
           | Some r \<Rightarrow>
               p\<lparr>pl_skippable := (if trc_read_only r then insert (trc_tool_call_id r) (pl_skippable p) else pl_skippable p),
                 pl_completed := (if m_contains (pl_completed p) (trc_tool_call_id r) then pl_completed p
                   else bt_put (trc_tool_call_id r) r (pl_completed p))\<rparr>))"

definition plan_from_checkpoints :: "tool_loop_checkpoint list \<Rightarrow> resume_plan" where
  "plan_from_checkpoints cs = fold plan_step cs resume_plan_default"

definition should_skip :: "resume_plan \<Rightarrow> string \<Rightarrow> bool" where
  "should_skip p i \<longleftrightarrow> i \<in> pl_skippable p"

definition completed_result :: "resume_plan \<Rightarrow> string \<Rightarrow> string option" where
  "completed_result p i = map_option trc_result_text (m_get (pl_completed p) i)"

text \<open>The results that the checkpoints of a run record, in order.\<close>

definition results_of :: "tool_loop_checkpoint list \<Rightarrow> tool_result_checkpoint list" where
  "results_of cs = List.map_filter (\<lambda>c. if tlc_kind c = ToolResultKind then tlc_tool_result c else None) cs"

definition turns_of :: "checkpoint_kind \<Rightarrow> tool_loop_checkpoint list \<Rightarrow> nat set" where
  "turns_of k cs = tlc_turn ` {c \<in> set cs. tlc_kind c = k}"

lemma results_of_snoc:
  "results_of (cs @ [c]) = results_of cs @
     (case (if tlc_kind c = ToolResultKind then tlc_tool_result c else None) of None \<Rightarrow> [] | Some r \<Rightarrow> [r])"
  by (auto simp: results_of_def List.map_filter_def split: option.splits)

lemma plan_from_snoc: "plan_from_checkpoints (cs @ [c]) = plan_step c (plan_from_checkpoints cs)"
  by (simp add: plan_from_checkpoints_def)

lemma plan_completed:
  "m_get (pl_completed (plan_from_checkpoints cs)) i = find (\<lambda>r. trc_tool_call_id r = i) (results_of cs)"
proof (induction cs rule: rev_induct)
  case Nil
  then show ?case by (simp add: plan_from_checkpoints_def resume_plan_default_def results_of_def List.map_filter_def)
next
  case (snoc c cs)
  have find_snoc: "find p (xs @ [x]) = (case find p xs of None \<Rightarrow> if p x then Some x else None | Some y \<Rightarrow> Some y)"
    for p :: "tool_result_checkpoint \<Rightarrow> bool" and xs x
    by (induction xs) auto
  show ?case
    using snoc
    by (auto simp: plan_from_snoc plan_step_def results_of_snoc find_snoc m_contains_def
        split: checkpoint_kind.splits option.splits)
qed

lemma plan_skippable:
  "pl_skippable (plan_from_checkpoints cs) = trc_tool_call_id ` {r \<in> set (results_of cs). trc_read_only r}"
proof (induction cs rule: rev_induct)
  case Nil
  then show ?case by (simp add: plan_from_checkpoints_def resume_plan_default_def results_of_def List.map_filter_def)
next
  case (snoc c cs)
  then show ?case
    by (auto simp: plan_from_snoc plan_step_def results_of_snoc split: checkpoint_kind.splits option.splits)
qed

lemma plan_turns:
  "pl_last_started_turn (plan_from_checkpoints cs) =
     (if turns_of BeforeModelCall cs = {} then None else Some (Max (turns_of BeforeModelCall cs)))"
  "pl_last_completed_turn (plan_from_checkpoints cs) =
     (if turns_of AfterModelCall cs = {} then None else Some (Max (turns_of AfterModelCall cs)))"
proof (induction cs rule: rev_induct)
  case Nil
  { case 1 then show ?case by (simp add: plan_from_checkpoints_def resume_plan_default_def turns_of_def)
  next case 2 then show ?case by (simp add: plan_from_checkpoints_def resume_plan_default_def turns_of_def) }
next
  case (snoc c cs)
  have turns: "turns_of k (cs @ [c]) = (if tlc_kind c = k then insert (tlc_turn c) (turns_of k cs) else turns_of k cs)" for k
    by (auto simp: turns_of_def)
  have fin: "finite (turns_of k cs)" for k by (simp add: turns_of_def)
  { case 1 then show ?case
      using snoc.IH(1) fin by (auto simp: plan_from_snoc plan_step_def turns later_turn_def max.commute
          split: checkpoint_kind.splits option.splits)
  next case 2 then show ?case
      using snoc.IH(2) fin by (auto simp: plan_from_snoc plan_step_def turns later_turn_def max.commute
          split: checkpoint_kind.splits option.splits) }
qed

text \<open>
  The resume plan says what the checkpoints of the run say: a tool call has the first
  result recorded for it, it is skipped exactly if some recorded result for it was read
  only, so that whatever is skipped has a result to use instead, and the turns are the
  greatest ones started and completed.
\<close>

lemma resume_plan_correct:
  "completed_result (plan_from_checkpoints cs) i =
     map_option trc_result_text (find (\<lambda>r. trc_tool_call_id r = i) (results_of cs)) \<and>
   (should_skip (plan_from_checkpoints cs) i \<longleftrightarrow> (\<exists>r. r \<in> set (results_of cs) \<and> trc_tool_call_id r = i \<and> trc_read_only r)) \<and>
   {i. should_skip (plan_from_checkpoints cs) i} \<subseteq> {i. completed_result (plan_from_checkpoints cs) i \<noteq> None} \<and>
   pl_last_started_turn (plan_from_checkpoints cs) =
     (if turns_of BeforeModelCall cs = {} then None else Some (Max (turns_of BeforeModelCall cs))) \<and>
   pl_last_completed_turn (plan_from_checkpoints cs) =
     (if turns_of AfterModelCall cs = {} then None else Some (Max (turns_of AfterModelCall cs)))"
  by (auto simp: completed_result_def should_skip_def plan_completed plan_skippable plan_turns find_None_iff)

end
