(* ===== verification/Model_Adapter.thy ===== *)
theory Model_Adapter
  imports Model_Types
begin

text \<open>
  Adapters that call models, and the wrappers around them: retries with backoff, a circuit
  breaker, tracing, and a gate that checks the capabilities of a model
  (\<open>model-adapter/src/lib.rs\<close>), with the deterministic adapter of the tests.

  An adapter is a program over a state of the outside world; a wrapper with a state of its
  own is a program over the pair of both. Clock readings are functions of the world.
\<close>

type_synonym ('s, 'a) model_call = "('s, model_adapter_error, 'a) prog"

section \<open>Error classes\<close>

datatype (plugins only: code size) model_error_class =
    McRateLimited | McTimeout | McTransientNetwork | McServerError | McAuth | McValidation
  | McPermissionDenied | McEmptyRequest | McEmptyResponse | McUnknown

definition model_class_is_retryable :: "model_error_class \<Rightarrow> bool" where
  "model_class_is_retryable c \<longleftrightarrow>
     c = McRateLimited \<or> c = McTimeout \<or> c = McTransientNetwork \<or> c = McServerError"

definition classify_model_error_message :: "string \<Rightarrow> model_error_class" where
  "classify_model_error_message m =
     (let n = to_ascii_lowercase m in
      if contains_any [''429'', ''rate limit'', ''too many requests''] n then McRateLimited
      else if contains_any [''timeout'', ''timed out'', ''deadline''] n then McTimeout
      else if contains_any [''401'', ''403'', ''unauthorized'', ''forbidden'', ''permission denied''] n
      then McPermissionDenied
      else if contains_any [''400'', ''bad request'', ''invalid request'', ''validation''] n then McValidation
      else if contains_any [''500'', ''server error''] n then McServerError
      else if contains_any [''network'', ''connection reset'', ''connection refused'', ''temporarily unavailable'',
        ''502'', ''503'', ''504''] n then McTransientNetwork
      else McUnknown)"

fun classify_model_adapter_error :: "model_adapter_error \<Rightarrow> model_error_class" where
  "classify_model_adapter_error RateLimitExceeded = McRateLimited"
| "classify_model_adapter_error (AuthError m) = McAuth"
| "classify_model_adapter_error EmptyRequest = McEmptyRequest"
| "classify_model_adapter_error EmptyResponse = McEmptyResponse"
| "classify_model_adapter_error (MalformedToolCallArguments m) = McValidation"
| "classify_model_adapter_error (MalformedStructuredOutput m) = McValidation"
| "classify_model_adapter_error (StructuredOutputSchemaViolation m) = McValidation"
| "classify_model_adapter_error (StructuredOutputRepairFailed m) = McValidation"
| "classify_model_adapter_error MissingToolCallName = McValidation"
| "classify_model_adapter_error MissingToolCallId = McValidation"
| "classify_model_adapter_error (ConfigError m) = McValidation"
| "classify_model_adapter_error (ModelNotFound i) = McValidation"
| "classify_model_adapter_error (UnsupportedModelCapability i c) = McValidation"
| "classify_model_adapter_error (DuplicateModelId i) = McValidation"
| "classify_model_adapter_error DefaultModelNotSet = McValidation"
| "classify_model_adapter_error (HttpError m) = classify_model_error_message m"
| "classify_model_adapter_error (ExecutorFailed m) = classify_model_error_message m"

section \<open>Retries\<close>

record model_retry_config =
  rt_initial_delay :: duration
  rt_multiplier :: nat
  rt_max_delay :: duration
  rt_max_attempts :: nat

definition model_retry_config_default :: model_retry_config where
  "model_retry_config_default =
     \<lparr>rt_initial_delay = from_millis 250, rt_multiplier = 2, rt_max_delay = from_secs 10, rt_max_attempts = 3\<rparr>"

datatype (plugins only: code size) model_retry_decision =
    MRetry model_error_class nat duration
  | MDoNotRetry model_error_class nat string
  | MExhausted model_error_class nat

text \<open>The trait: a policy classifies errors and knows the delay before a further attempt.\<close>

record model_retry_policy =
  rp_classify :: "model_adapter_error \<Rightarrow> model_error_class"
  rp_backoff :: "nat \<Rightarrow> duration option"

fun debug_model_class :: "model_error_class \<Rightarrow> string" where
  "debug_model_class McRateLimited = ''RateLimited''"
| "debug_model_class McTimeout = ''Timeout''"
| "debug_model_class McTransientNetwork = ''TransientNetwork''"
| "debug_model_class McServerError = ''ServerError''"
| "debug_model_class McAuth = ''Auth''"
| "debug_model_class McValidation = ''Validation''"
| "debug_model_class McPermissionDenied = ''PermissionDenied''"
| "debug_model_class McEmptyRequest = ''EmptyRequest''"
| "debug_model_class McEmptyResponse = ''EmptyResponse''"
| "debug_model_class McUnknown = ''Unknown''"

definition decide_retry :: "model_retry_policy \<Rightarrow> model_adapter_error \<Rightarrow> nat \<Rightarrow> model_retry_decision" where
  "decide_retry P e attempt =
     (let cls = rp_classify P e in
      if \<not> model_class_is_retryable cls
      then MDoNotRetry cls attempt (debug_model_class cls @ '' is not retryable'')
      else (case rp_backoff P attempt of
              Some d \<Rightarrow> MRetry cls attempt d
            | None \<Rightarrow> MExhausted cls attempt))"

definition model_backoff_delay :: "model_retry_config \<Rightarrow> nat \<Rightarrow> duration option" where
  "model_backoff_delay c attempt =
     (if attempt = 0 \<or> rt_max_attempts c \<le> attempt then None
      else (let exponent = attempt - 1;
                factor = saturating_pow (rt_multiplier c) exponent;
                delay = saturating_mul (rt_initial_delay c) factor
            in Some (min delay (rt_max_delay c))))"

definition default_model_retry_policy :: "model_retry_config \<Rightarrow> model_retry_policy" where
  "default_model_retry_policy c =
     \<lparr>rp_classify = classify_model_adapter_error, rp_backoff = model_backoff_delay c\<rparr>"

text \<open>
  The loop of \<open>RetryingModelAdapter\<close>, for \<open>complete\<close> and for \<open>stream\<close>. A policy of the caller
  may retry for ever, so the loop is partial; \<open>sleep\<close> lets time pass in the world.
\<close>

partial_function (option) retry_loop ::
    "model_retry_policy \<Rightarrow> (duration \<Rightarrow> 's \<Rightarrow> 's) \<Rightarrow> ('s, 'a) model_call \<Rightarrow> nat \<Rightarrow> 's \<Rightarrow>
     ((model_adapter_error + 'a) \<times> 's) option" where
  "retry_loop P sleep call attempt s =
     (case call s of
        (Inr x, s') \<Rightarrow> Some (Inr x, s')
      | (Inl e, s') \<Rightarrow>
          (case decide_retry P e attempt of
             MRetry _ _ d \<Rightarrow> retry_loop P sleep call (attempt + 1) (sleep d s')
           | _ \<Rightarrow> Some (Inl e, s')))"

definition retrying :: "model_retry_policy \<Rightarrow> (duration \<Rightarrow> 's \<Rightarrow> 's) \<Rightarrow> ('q \<Rightarrow> ('s, 'a) model_call) \<Rightarrow>
     'q \<Rightarrow> 's \<Rightarrow> ((model_adapter_error + 'a) \<times> 's) option" where
  "retrying P sleep call q s = retry_loop P sleep (call q) 1 s"

section \<open>The circuit breaker\<close>

record breaker_config =
  cb_failure_threshold :: nat
  cb_cooldown :: duration

definition breaker_config_default :: breaker_config where
  "breaker_config_default = \<lparr>cb_failure_threshold = 3, cb_cooldown = from_secs 30\<rparr>"

datatype (plugins only: code size) breaker_state = Closed | Open | HalfOpen

text \<open>An \<open>Instant\<close> is a natural number of nanoseconds; \<open>elapsed\<close> saturates at zero.\<close>

record circuit_breaker =
  br_provider :: string
  br_config :: breaker_config
  br_state :: breaker_state
  br_consecutive_failures :: nat
  br_opened_at :: "nat option"

record breaker_health =
  bh_provider :: string
  bh_state :: breaker_state
  bh_consecutive_failures :: nat
  bh_failure_threshold :: nat
  bh_cooldown :: duration

definition breaker_new :: "string \<Rightarrow> breaker_config \<Rightarrow> circuit_breaker" where
  "breaker_new p c = \<lparr>br_provider = p, br_config = c, br_state = Closed, br_consecutive_failures = 0, br_opened_at = None\<rparr>"

definition before_call :: "nat \<Rightarrow> (circuit_breaker, model_adapter_error, unit) prog" where
  "before_call now b =
     (if br_state b = Open then
        (if (case br_opened_at b of None \<Rightarrow> False | Some t \<Rightarrow> cb_cooldown (br_config b) \<le> now - t)
         then (Inr (), b\<lparr>br_state := HalfOpen\<rparr>)
         else (Inl (ExecutorFailed (''model circuit breaker open for provider '' @ br_provider b)), b))
      else (Inr (), b))"

definition record_success :: "circuit_breaker \<Rightarrow> circuit_breaker" where
  "record_success b = b\<lparr>br_state := Closed, br_consecutive_failures := 0, br_opened_at := None\<rparr>"

definition trips_on :: "model_error_class \<Rightarrow> bool" where
  "trips_on c \<longleftrightarrow> c = McRateLimited \<or> c = McTimeout \<or> c = McTransientNetwork \<or> c = McServerError"

definition record_error :: "nat \<Rightarrow> model_adapter_error \<Rightarrow> circuit_breaker \<Rightarrow> circuit_breaker" where
  "record_error now e b =
     (if \<not> trips_on (classify_model_adapter_error e) then b
      else (let n = min U32_MAX (br_consecutive_failures b + 1);
                b' = b\<lparr>br_consecutive_failures := n\<rparr>
            in if cb_failure_threshold (br_config b) \<le> n
               then b'\<lparr>br_state := Open, br_opened_at := Some now\<rparr> else b'))"

definition health :: "circuit_breaker \<Rightarrow> breaker_health" where
  "health b = \<lparr>bh_provider = br_provider b, bh_state = br_state b, bh_consecutive_failures = br_consecutive_failures b,
     bh_failure_threshold = cb_failure_threshold (br_config b), bh_cooldown = cb_cooldown (br_config b)\<rparr>"

text \<open>\<open>CircuitBreakingModelAdapter\<close>, for \<open>complete\<close> and \<open>stream\<close>; \<open>now\<close> reads the clock of the world.\<close>

definition circuit_breaking ::
    "('s \<Rightarrow> nat) \<Rightarrow> ('q \<Rightarrow> ('s, 'a) model_call) \<Rightarrow> 'q \<Rightarrow> ('s \<times> circuit_breaker, 'a) model_call" where
  "circuit_breaking now call q = (\<lambda>(s, b).
     case before_call (now s) b of
       (Inl e, b') \<Rightarrow> (Inl e, (s, b'))
     | (Inr _, b') \<Rightarrow>
         (case call q s of
            (Inr x, s') \<Rightarrow> (Inr x, (s', record_success b'))
          | (Inl e, s') \<Rightarrow> (Inl e, (s', record_error (now s') e b'))))"

section \<open>Tracing\<close>

datatype (plugins only: code size) model_call_operation = OpComplete | OpStream | OpToolCall

datatype (plugins only: code size) model_trace_outcome = TraceSuccess | TraceError

record model_call_trace =
  mt_operation :: model_call_operation
  mt_model_id :: model_id
  mt_latency_ms :: nat
  mt_usage :: "model_usage option"
  mt_outcome :: model_trace_outcome
  mt_error_class :: "model_error_class option"
  mt_metadata :: "(string, string) hmap"

definition duration_to_millis :: "duration \<Rightarrow> nat" where
  "duration_to_millis d = min (2 ^ 64 - 1) (d div 10 ^ 6)"

definition is_sensitive_metadata_key :: "string \<Rightarrow> bool" where
  "is_sensitive_metadata_key k = contains_any [''api_key'', ''apikey'', ''authorization'', ''auth'', ''bearer'',
     ''credential'', ''password'', ''secret'', ''token''] (to_ascii_lowercase k)"

definition redacted_model_metadata :: "(string, string) hmap \<Rightarrow> (string, string) hmap" where
  "redacted_model_metadata m =
     map (\<lambda>(k, v). if is_sensitive_metadata_key k then (k, ''<redacted>'') else (k, v)) m"

text \<open>
  \<open>ObservedModelAdapter\<close>: the trace of a call is recorded after it, whatever its result;
  \<open>usage\<close> finds the token usage in a result, \<open>clock\<close> is read before and after the call.
\<close>

definition observed ::
    "model_call_operation \<Rightarrow> ('s \<Rightarrow> nat) \<Rightarrow> ('a \<Rightarrow> model_usage option) \<Rightarrow> (model_request \<Rightarrow> ('s, 'a) model_call) \<Rightarrow>
     model_request \<Rightarrow> ('s \<times> model_call_trace list, 'a) model_call" where
  "observed op clock usage call q = (\<lambda>(s, sink).
     let (r, s') = call q s;
         latency = duration_to_millis (clock s' - clock s);
         trace = (case r of
            Inr x \<Rightarrow> \<lparr>mt_operation = op, mt_model_id = mr_model_id q, mt_latency_ms = latency, mt_usage = usage x,
              mt_outcome = TraceSuccess, mt_error_class = None, mt_metadata = redacted_model_metadata (mr_metadata q)\<rparr>
          | Inl e \<Rightarrow> \<lparr>mt_operation = op, mt_model_id = mr_model_id q, mt_latency_ms = latency, mt_usage = None,
              mt_outcome = TraceError, mt_error_class = Some (classify_model_adapter_error e),
              mt_metadata = redacted_model_metadata (mr_metadata q)\<rparr>)
     in (r, (s', sink @ [trace])))"

section \<open>The capability gate\<close>

type_synonym 's tool_model = "model_request \<Rightarrow> tool_definition list \<Rightarrow> tool_choice \<Rightarrow> ('s, model_output) model_call"

definition gated_tools :: "model_registry \<Rightarrow> 's tool_model \<Rightarrow> 's tool_model" where
  "gated_tools r call q tools choice =
     (if tools \<noteq> [] \<or> (case choice of ChoiceRequired \<Rightarrow> True | ChoiceNamed _ \<Rightarrow> True | _ \<Rightarrow> False)
      then andThen (lift (require_tools r (mr_model_id q))) (\<lambda>_. call q tools choice)
      else call q tools choice)"

section \<open>Streams\<close>

datatype (plugins only: code size) stream_finish_reason = FinStop | FinLength | FinToolCalls | FinError

record tool_call_delta =
  dl_index :: nat
  dl_id :: "string option"
  dl_name :: "string option"
  dl_arguments :: "string option"

datatype (plugins only: code size) model_stream_event =
    StStarted model_id
  | StTextDelta string
  | StToolCallDelta tool_call_delta
  | StUsage model_usage
  | StFinished stream_finish_reason
  | StError string

record stream_accumulator =
  acc_text :: string
  acc_usage :: "model_usage option"
  acc_finished :: "stream_finish_reason option"
  acc_errors :: "string list"

definition accumulator_new :: stream_accumulator where
  "accumulator_new = \<lparr>acc_text = [], acc_usage = None, acc_finished = None, acc_errors = []\<rparr>"

fun accumulate :: "model_stream_event \<Rightarrow> stream_accumulator \<Rightarrow> stream_accumulator" where
  "accumulate (StTextDelta d) a = a\<lparr>acc_text := acc_text a @ d\<rparr>"
| "accumulate (StUsage u) a = a\<lparr>acc_usage := Some u\<rparr>"
| "accumulate (StFinished r) a = a\<lparr>acc_finished := Some r\<rparr>"
| "accumulate (StError m) a = a\<lparr>acc_errors := acc_errors a @ [m]\<rparr>"
| "accumulate _ a = a"

definition accumulator_from_events :: "model_stream_event list \<Rightarrow> stream_accumulator" where
  "accumulator_from_events es = fold accumulate es accumulator_new"

text \<open>\<open>split_inclusive(' ')\<close>: the pieces of a text, each up to and with a blank.\<close>

fun split_inclusive :: "string \<Rightarrow> string \<Rightarrow> string list" where
  "split_inclusive piece [] = (if piece = [] then [] else [piece])"
| "split_inclusive piece (c # s) =
     (if c = CHR '' '' then (piece @ [c]) # split_inclusive [] s else split_inclusive (piece @ [c]) s)"

fun join_chunks :: "string \<Rightarrow> string list \<Rightarrow> string list" where
  "join_chunks current [] = (if current = [] then [] else [current])"
| "join_chunks current (t # ts) =
     (if 16 \<le> length (current @ t) then (current @ t) # join_chunks [] ts else join_chunks (current @ t) ts)"

definition text_delta_chunks :: "string \<Rightarrow> string list" where
  "text_delta_chunks t = (if t = [] then [] else join_chunks [] (split_inclusive [] t))"

text \<open>The words of a text, counted in 32 bits.\<close>

fun words_from :: "bool \<Rightarrow> nat \<Rightarrow> string \<Rightarrow> nat" where
  "words_from in_word k [] = (if in_word then 1 else 0)"
| "words_from in_word (Suc k) (c # s) = words_from in_word k s"
| "words_from in_word 0 (c # s) =
     (if ws_head (c # s) \<noteq> 0 then (if in_word then 1 else 0) + words_from False (ws_head (c # s) - 1) s
      else words_from True 0 s)"

definition count_words :: "string \<Rightarrow> nat" where
  "count_words t = words_from False 0 t mod 2 ^ 32"

text \<open>The deterministic adapter of the tests; its sums of word counts are far from 32 bits.\<close>

definition static_complete :: "string \<Rightarrow> model_request \<Rightarrow> model_adapter_error + model_output" where
  "static_complete prefix_text q =
     (if mr_messages q = [] then Inl EmptyRequest
      else (let last_user = (case find (\<lambda>m. mm_role m = RoleUser) (rev (mr_messages q)) of
                               Some m \<Rightarrow> mm_text m | None \<Rightarrow> [])
            in Inr (TextOutput
                 (prefix_text @ '' for '' @ model_text (mr_model_id q) @ '' with '' @
                    decimal (length (mr_messages q)) @ '' message(s): '' @ last_user)
                 (Some \<lparr>mu_input_tokens = sum_list (map (\<lambda>m. count_words (mm_text m)) (mr_messages q)),
                        mu_output_tokens = count_words prefix_text + count_words last_user\<rparr>))))"

text \<open>The events that \<open>StaticStreamingModelAdapter\<close> makes of an output.\<close>

definition usage_events :: "model_usage option \<Rightarrow> model_stream_event list" where
  "usage_events u = (case u of None \<Rightarrow> [] | Some x \<Rightarrow> [StUsage x])"

fun output_events :: "model_output \<Rightarrow> model_stream_event list" where
  "output_events (TextOutput t u) =
     map StTextDelta (text_delta_chunks t) @ usage_events u @ [StFinished FinStop]"
| "output_events (ToolCallsOutput c ts u) =
     (case c of None \<Rightarrow> [] | Some t \<Rightarrow> map StTextDelta (text_delta_chunks t)) @
     map (\<lambda>(i, tc). StToolCallDelta \<lparr>dl_index = i, dl_id = Some (tc_id tc), dl_name = Some (tc_name tc),
       dl_arguments = Some (tc_raw_arguments tc)\<rparr>) (enumerate 0 ts) @
     usage_events u @ [StFinished FinToolCalls]"

definition static_stream :: "string \<Rightarrow> model_request \<Rightarrow> model_adapter_error + model_stream_event list" where
  "static_stream prefix_text q =
     bind_result (static_complete prefix_text q) (\<lambda>out. Inr (StStarted (mr_model_id q) # output_events out))"

section \<open>Retrying ends\<close>

lemma model_backoff_delay_defined: "model_backoff_delay c n \<noteq> None \<longleftrightarrow> 0 < n \<and> n < rt_max_attempts c"
  by (simp add: model_backoff_delay_def Let_def)

text \<open>The backoff of model calls is that of agent runs.\<close>

lemma model_backoff_is_run_backoff:
  "model_backoff_delay c = backoff_delay \<lparr>bc_initial_delay = rt_initial_delay c, bc_multiplier = rt_multiplier c,
     bc_max_delay = rt_max_delay c, bc_max_attempts = rt_max_attempts c\<rparr>"
  by (simp add: fun_eq_iff model_backoff_delay_def backoff_delay_def)

text \<open>A call with a counter of how often it was made, and a sleep that leaves the counter alone.\<close>

definition counted :: "('s, 'a) model_call \<Rightarrow> ('s \<times> nat, 'a) model_call" where
  "counted call = (\<lambda>(s, n). let (x, s') = call s in (x, (s', Suc n)))"

lemma decide_retry_default:
  assumes "decide_retry (default_model_retry_policy c) e n = MRetry cls k d"
  shows "0 < n" and "n < rt_max_attempts c"
  using assms model_backoff_delay_defined [of c n]
  by (auto simp: decide_retry_def default_model_retry_policy_def Let_def split: if_splits option.splits)

lemma decide_retry_gives_up:
  assumes "\<And>cls k d. decide_retry (default_model_retry_policy c) e n \<noteq> MRetry cls k d" and "0 < n"
    and "model_class_is_retryable (classify_model_adapter_error e)"
  shows "rt_max_attempts c \<le> n"
proof (rule ccontr)
  assume "\<not> rt_max_attempts c \<le> n"
  then obtain d where "model_backoff_delay c n = Some d"
    using model_backoff_delay_defined [of c n] assms(2) by auto
  then have "decide_retry (default_model_retry_policy c) e n = MRetry (classify_model_adapter_error e) n d"
    using assms(3) by (simp add: decide_retry_def default_model_retry_policy_def)
  with assms(1) show False by blast
qed

lemma retry_loop_ends:
  "\<exists>x s' m. retry_loop (default_model_retry_policy c) (\<lambda>d (s, n). (sleep d s, n)) (counted call) (Suc n) (s, n) =
       Some (x, (s', m)) \<and> n < m \<and> m \<le> max (Suc n) (rt_max_attempts c) \<and>
     (\<forall>e. x = Inl e \<longrightarrow> model_class_is_retryable (classify_model_adapter_error e) \<longrightarrow> rt_max_attempts c \<le> m)"
proof (induction "rt_max_attempts c - n" arbitrary: n s rule: less_induct)
  case less
  let ?P = "default_model_retry_policy c" and ?sleep = "\<lambda>d (s, n). (sleep d s, n :: nat)"
  note unfold = retry_loop.simps [of ?P ?sleep "counted call" "Suc n" "(s, n)"]
  obtain x s1 where call: "call s = (x, s1)" by (cases "call s")
  show ?case
  proof (cases "\<exists>e cls k d. x = Inl e \<and> decide_retry ?P e (Suc n) = MRetry cls k d")
    case True
    then obtain e cls k d where x: "x = Inl e" and retry: "decide_retry ?P e (Suc n) = MRetry cls k d" by blast
    then have less_max: "Suc n < rt_max_attempts c" using decide_retry_default by blast
    then have "rt_max_attempts c - Suc n < rt_max_attempts c - n" by simp
    from less.hyps [OF this, of "sleep d s1"] obtain y s' m where
      "retry_loop ?P ?sleep (counted call) (Suc (Suc n)) (sleep d s1, Suc n) = Some (y, s', m)"
      "Suc n < m" "m \<le> max (Suc (Suc n)) (rt_max_attempts c)"
      "\<forall>e. y = Inl e \<longrightarrow> model_class_is_retryable (classify_model_adapter_error e) \<longrightarrow> rt_max_attempts c \<le> m"
      by blast
    moreover from this less_max have "n < m" "m \<le> max (Suc n) (rt_max_attempts c)" by simp_all
    ultimately show ?thesis
      using unfold call x retry by (simp add: counted_def)
  next
    case False
    then have "retry_loop ?P ?sleep (counted call) (Suc n) (s, n) = Some (x, s1, Suc n)"
      using unfold call
      by (cases x) (auto simp: counted_def split: model_retry_decision.splits)
    moreover have "rt_max_attempts c \<le> Suc n"
      if "x = Inl e" "model_class_is_retryable (classify_model_adapter_error e)" for e
      using decide_retry_gives_up [of c e "Suc n"] False that by blast
    ultimately show ?thesis by auto
  qed
qed

text \<open>
  Retrying a model call always ends, whatever the call does: with the default policy
  the provider is called at least once and at most as often as the configured number of
  attempts (once if that is zero), and an error that is worth retrying is only returned
  after that many calls.
\<close>

lemma retrying_terminates:
  "\<exists>x s' m. retrying (default_model_retry_policy c) (\<lambda>d (s, n). (sleep d s, n)) (\<lambda>q. counted (call q)) q (s, 0) =
       Some (x, (s', m)) \<and> 1 \<le> m \<and> m \<le> max 1 (rt_max_attempts c) \<and>
     (\<forall>e. x = Inl e \<longrightarrow> model_class_is_retryable (classify_model_adapter_error e) \<longrightarrow> rt_max_attempts c \<le> m)"
  using retry_loop_ends [of c sleep "call q" 0 s] by (auto simp: retrying_def)

lemma retrying_terminates_witness:
  "\<exists>s' m. retrying (default_model_retry_policy model_retry_config_default) (\<lambda>d (s, n). (s + d, n))
     (\<lambda>q. counted (\<lambda>s. (Inl RateLimitExceeded, s))) () (0, 0) =
     Some (Inl RateLimitExceeded :: model_adapter_error + model_output, (s', m)) \<and> m = 3"
proof -
  let ?r = "retrying (default_model_retry_policy model_retry_config_default) (\<lambda>d (s, n). (s + d, n))
    (\<lambda>q. counted (\<lambda>s. (Inl RateLimitExceeded :: model_adapter_error + model_output, s))) () (0, 0)"
  obtain x s' m where r: "?r = Some (x, (s', m))" "m \<le> max 1 (rt_max_attempts model_retry_config_default)"
      "\<forall>e. x = Inl e \<longrightarrow> model_class_is_retryable (classify_model_adapter_error e) \<longrightarrow>
        rt_max_attempts model_retry_config_default \<le> m"
    using retrying_terminates [of model_retry_config_default "\<lambda>d s. s + d"
        "\<lambda>q s. (Inl RateLimitExceeded :: model_adapter_error + model_output, s)" "()" 0]
    by blast
  have "x = Inl RateLimitExceeded"
    using r(1)
    by (simp add: retrying_def retry_loop.simps counted_def decide_retry_def default_model_retry_policy_def
        model_class_is_retryable_def model_backoff_delay_def model_retry_config_default_def Let_def)
  with r show ?thesis by (auto simp: model_retry_config_default_def model_class_is_retryable_def)
qed

section \<open>What the breaker guarantees\<close>

definition breaker_run ::
    "('s \<Rightarrow> nat) \<Rightarrow> ('q \<Rightarrow> ('s, 'a) model_call) \<Rightarrow> 'q list \<Rightarrow> 's \<times> circuit_breaker \<Rightarrow> 's \<times> circuit_breaker" where
  "breaker_run now call qs st = fold (\<lambda>q st. snd (circuit_breaking now call q st)) qs st"

definition breaker_ok :: "breaker_config \<Rightarrow> circuit_breaker \<Rightarrow> bool" where
  "breaker_ok c b \<longleftrightarrow> br_config b = c \<and>
     (br_state b = Closed \<longrightarrow> br_consecutive_failures b < cb_failure_threshold c) \<and>
     (br_state b \<noteq> Closed \<longrightarrow> cb_failure_threshold c \<le> br_consecutive_failures b) \<and>
     (br_state b = Open \<longrightarrow> br_opened_at b \<noteq> None)"

lemma breaker_ok_step:
  assumes "breaker_ok c b" and "1 \<le> cb_failure_threshold c" and "cb_failure_threshold c \<le> U32_MAX"
  shows "breaker_ok c (snd (snd (circuit_breaking now call q (s, b))))"
proof -
  have before: "breaker_ok c (snd (before_call t b)) \<and> (is_ok (fst (before_call t b)) \<longrightarrow> br_state (snd (before_call t b)) \<noteq> Open)"
    for t using assms(1) by (auto simp: breaker_ok_def before_call_def)
  have success: "breaker_ok c (record_success b')" if "breaker_ok c b'" for b'
    using that assms(2) by (auto simp: breaker_ok_def record_success_def)
  have failure: "breaker_ok c (record_error t e b')" if "breaker_ok c b'" "br_state b' \<noteq> Open" for t e b'
    using that assms(3) by (auto simp: breaker_ok_def record_error_def Let_def)
  show ?thesis
    using before [of "now s"] success failure
    by (auto simp: circuit_breaking_def split: prod.splits sum.splits)
qed

lemma breaker_run_ok:
  assumes "1 \<le> cb_failure_threshold c" and "cb_failure_threshold c \<le> U32_MAX" and "breaker_ok c b"
  shows "breaker_ok c (snd (breaker_run now call qs (s, b)))"
  using assms(3)
proof (induction qs arbitrary: s b)
  case (Cons q qs)
  obtain s' b' where st: "snd (circuit_breaking now call q (s, b)) = (s', b')" by force
  then have "breaker_ok c b'" using breaker_ok_step [OF Cons.prems assms(1,2), of now call q s] by simp
  with Cons.IH st show ?case by (simp add: breaker_run_def)
qed (simp add: breaker_run_def)

lemma open_call:
  assumes "breaker_ok c b" and "cb_failure_threshold c \<le> U32_MAX" and "br_state b = Open"
  shows "\<exists>t. br_opened_at b = Some t \<and>
      circuit_breaking now call q (s', b) =
        (if now s' - t < cb_cooldown c
         then (Inl (ExecutorFailed (''model circuit breaker open for provider '' @ br_provider b)), (s', b))
         else (case call q s' of
             (Inr x, s'') \<Rightarrow> (Inr x, (s'', b\<lparr>br_state := Closed, br_consecutive_failures := 0, br_opened_at := None\<rparr>))
           | (Inl e, s'') \<Rightarrow> (Inl e, (s'',
               if trips_on (classify_model_adapter_error e)
               then b\<lparr>br_state := Open, br_opened_at := Some (now s''),
                      br_consecutive_failures := min U32_MAX (br_consecutive_failures b + 1)\<rparr>
               else b\<lparr>br_state := HalfOpen\<rparr>))))"
proof -
  obtain t where t: "br_opened_at b = Some t" using assms(1,3) by (auto simp: breaker_ok_def)
  have cfg: "br_config b = c" and "cb_failure_threshold c \<le> br_consecutive_failures b"
    using assms(1,3) by (simp_all add: breaker_ok_def)
  then have "cb_failure_threshold c \<le> min U32_MAX (br_consecutive_failures b + 1)"
    using assms(2) by simp
  then show ?thesis
    using assms(3) t cfg
    by (auto simp: circuit_breaking_def before_call_def record_success_def record_error_def Let_def
        split: prod.splits sum.splits)
qed

text \<open>
  The circuit breaker keeps its promise in every state that calls can bring it to: it
  is closed exactly while fewer failures of the kinds that count than the threshold came
  in a row; while it is open and the cooldown has not passed, a call fails at once and
  neither the provider nor the breaker is touched; after the cooldown the next call gets
  through, and if it succeeds the breaker is closed with no failures counted, if it fails
  with an error that counts the breaker is open again from that moment.
\<close>

lemma circuit_breaker_protects:
  assumes "1 \<le> cb_failure_threshold c" and "cb_failure_threshold c \<le> U32_MAX"
    and "(s', b) = breaker_run now call qs (s, breaker_new p c)"
  shows "(br_state b = Closed \<longleftrightarrow> br_consecutive_failures b < cb_failure_threshold c) \<and>
    (br_state b = Open \<longrightarrow> (\<exists>t. br_opened_at b = Some t \<and>
      circuit_breaking now call q (s', b) =
        (if now s' - t < cb_cooldown c
         then (Inl (ExecutorFailed (''model circuit breaker open for provider '' @ br_provider b)), (s', b))
         else (case call q s' of
             (Inr x, s'') \<Rightarrow> (Inr x, (s'', b\<lparr>br_state := Closed, br_consecutive_failures := 0, br_opened_at := None\<rparr>))
           | (Inl e, s'') \<Rightarrow> (Inl e, (s'',
               if trips_on (classify_model_adapter_error e)
               then b\<lparr>br_state := Open, br_opened_at := Some (now s''),
                      br_consecutive_failures := min U32_MAX (br_consecutive_failures b + 1)\<rparr>
               else b\<lparr>br_state := HalfOpen\<rparr>))))))"
proof -
  have "breaker_ok c (breaker_new p c)" using assms(1) by (simp add: breaker_ok_def breaker_new_def)
  from breaker_run_ok [OF assms(1,2) this, of now call qs s] assms(3)
  have ok: "breaker_ok c b" by (metis snd_conv)
  then have closed: "br_state b = Closed \<longleftrightarrow> br_consecutive_failures b < cb_failure_threshold c"
    by (auto simp: breaker_ok_def)
  show ?thesis by (rule conjI [OF closed impI [OF open_call [OF ok assms(2)]]])
qed

text \<open>A provider that is rate limited for ever, with a clock that stands still.\<close>

lemma circuit_breaker_protects_witness:
  "br_state (snd (breaker_run (\<lambda>s. s) (\<lambda>q s. (Inl RateLimitExceeded :: model_adapter_error + model_output, s))
     [(), (), ()] (0, breaker_new ''p'' breaker_config_default))) \<noteq> Closed"
proof -
  let ?call = "\<lambda>q s. (Inl RateLimitExceeded :: model_adapter_error + model_output, s)"
  obtain s' b where run: "(s', b) = breaker_run (\<lambda>s. s) ?call [(), (), ()] (0, breaker_new ''p'' breaker_config_default)"
    by (metis surj_pair)
  have "br_consecutive_failures b = 3"
    using run
    by (simp add: breaker_run_def circuit_breaking_def before_call_def record_error_def trips_on_def
        breaker_new_def breaker_config_default_def U32_MAX_def Let_def)
  moreover have "br_state b = Closed \<longleftrightarrow> br_consecutive_failures b < cb_failure_threshold breaker_config_default"
    by (rule circuit_breaker_protects [OF _ _ run, THEN conjunct1]) (simp_all add: breaker_config_default_def U32_MAX_def)
  ultimately show ?thesis using run by (metis breaker_config_default_def breaker_config.select_convs(1) less_irrefl snd_conv)
qed

section \<open>Streams and complete answers\<close>

lemma split_inclusive_concat: "concat (split_inclusive piece s) = piece @ s"
  by (induction piece s rule: split_inclusive.induct) auto

lemma join_chunks_concat: "concat (join_chunks current ts) = current @ concat ts"
  by (induction current ts rule: join_chunks.induct) auto

lemma join_chunks_long: "\<forall>c \<in> set (butlast (join_chunks current ts)). 16 \<le> length c"
  by (induction current ts rule: join_chunks.induct) (auto split: if_splits)

lemma join_chunks_nonempty: "\<forall>c \<in> set (join_chunks current ts). c \<noteq> []"
  by (induction current ts rule: join_chunks.induct) auto

lemma text_delta_chunks_spec:
  "concat (text_delta_chunks t) = t" "\<forall>c \<in> set (butlast (text_delta_chunks t)). 16 \<le> length c"
  "[] \<notin> set (text_delta_chunks t)"
  using join_chunks_long [of "[]" "split_inclusive [] t"] join_chunks_nonempty [of "[]" "split_inclusive [] t"]
  by (auto simp: text_delta_chunks_def join_chunks_concat split_inclusive_concat)

lemma accumulate_deltas: "fold accumulate (map StTextDelta ds) a = a\<lparr>acc_text := acc_text a @ concat ds\<rparr>"
  by (induction ds arbitrary: a) simp_all

lemma accumulate_calls:
  "fold accumulate (map (\<lambda>(i, tc). StToolCallDelta (f i tc)) xs) a = a"
  by (induction xs arbitrary: a) auto

lemma accumulate_usage: "fold accumulate (usage_events u) a = (case u of None \<Rightarrow> a | Some x \<Rightarrow> a\<lparr>acc_usage := Some x\<rparr>)"
  by (simp add: usage_events_def split: option.splits)

lemma accumulate_output:
  "accumulator_from_events (StStarted i # output_events out) =
     \<lparr>acc_text = (case output_text out of None \<Rightarrow> [] | Some t \<Rightarrow> t), acc_usage = output_usage out,
      acc_finished = Some (case out of TextOutput t u \<Rightarrow> FinStop | ToolCallsOutput c ts u \<Rightarrow> FinToolCalls),
      acc_errors = []\<rparr>"
  by (cases out) (auto simp: accumulator_from_events_def accumulator_new_def accumulate_deltas accumulate_calls
      accumulate_usage text_delta_chunks_spec split: option.splits)

text \<open>
  A streamed answer is the complete answer in pieces: accumulating the events of the
  streaming adapter gives exactly the text, the usage and the end of the complete call,
  it fails exactly when the complete call fails and with the same error, and the text
  pieces are not empty, join to the text and are all but the last at least 16 bytes long.
\<close>

lemma stream_equals_complete:
  "static_stream p q = bind_result (static_complete p q) (\<lambda>out. Inr (StStarted (mr_model_id q) # output_events out)) \<and>
   accumulator_from_events (StStarted (mr_model_id q) # output_events out) =
     \<lparr>acc_text = (case output_text out of None \<Rightarrow> [] | Some t \<Rightarrow> t), acc_usage = output_usage out,
      acc_finished = Some (case out of TextOutput t u \<Rightarrow> FinStop | ToolCallsOutput c ts u \<Rightarrow> FinToolCalls),
      acc_errors = []\<rparr> \<and>
   concat (text_delta_chunks t) = t \<and> [] \<notin> set (text_delta_chunks t) \<and>
   list_all (\<lambda>c. 16 \<le> length c) (butlast (text_delta_chunks t))"
  using text_delta_chunks_spec [of t] by (simp add: static_stream_def accumulate_output list_all_iff)

section \<open>Traces and the gate\<close>

lemma redacted_keys: "map fst (redacted_model_metadata m) = map fst m"
  by (induction m) (auto simp: redacted_model_metadata_def)

lemma redacted_values:
  "(k, v) \<in> set (redacted_model_metadata m) \<Longrightarrow> is_sensitive_metadata_key k \<Longrightarrow> v = ''<redacted>''"
  by (auto simp: redacted_model_metadata_def split: if_splits)

lemma redacted_keeps:
  "(k, v) \<in> set (redacted_model_metadata m) \<Longrightarrow> \<not> is_sensitive_metadata_key k \<Longrightarrow> (k, v) \<in> set m"
  by (auto simp: redacted_model_metadata_def split: if_splits)

text \<open>Tracing changes no answer and adds one trace, without the values of sensitive keys.\<close>

lemma observed_spec:
  "\<exists>tr. observed op clock usage call q (s, sink) = (fst (call q s), (snd (call q s), sink @ [tr])) \<and>
     mt_model_id tr = mr_model_id q \<and> map fst (mt_metadata tr) = map fst (mr_metadata q) \<and>
     (\<forall>k v. (k, v) \<in> set (mt_metadata tr) \<longrightarrow>
        (if is_sensitive_metadata_key k then v = ''<redacted>'' else (k, v) \<in> set (mr_metadata q)))"
  using redacted_keeps redacted_values
  by (cases "call q s"; cases "fst (call q s)")
     (auto simp: observed_def redacted_keys Let_def split: if_splits)

text \<open>Behind the gate a model gets tools only if it is registered as able to use them.\<close>

lemma gated_tools_spec:
  "gated_tools r call q tools choice s =
     (if tools = [] \<and> (case choice of ChoiceRequired \<Rightarrow> False | ChoiceNamed _ \<Rightarrow> False | _ \<Rightarrow> True)
      then call q tools choice s
      else (case m_get (reg_models r) (mr_model_id q) of
              None \<Rightarrow> (Inl (ModelNotFound (mr_model_id q)), s)
            | Some p \<Rightarrow> if mc_tools (mp_capabilities p) then call q tools choice s
                else (Inl (UnsupportedModelCapability (mr_model_id q) ''tools''), s)))"
  by (cases choice) (auto simp: gated_tools_def require_tools_def require_capability_def andThen_def lift_def
      split: option.splits)

end
