(* ===== verification/Tool_Loop.thy ===== *)
theory Tool_Loop
  imports Tool_Checkpoints Model_Adapter Action_Runtime
begin

text \<open>
  The tool loop of the agent: call the model, run the tool calls it asks for, send the
  results back, until it answers with text or the turns are used up
  (\<open>agent-runtime/src/lib.rs\<close>, \<open>AgentToolLoop\<close>).

  The loop is a program over a state of the outside world. A call that may be cut off by
  a timer returns \<open>None\<close> when the timer fired; what a cut off future had done by then is up
  to the world. An early return is the error of a program, and so is the panic of an action,
  which unwinds the loop and leaves no outcome. Counters are natural numbers;
  turns stay below the \<open>u32\<close> limit by the guard of the loop.
\<close>

section \<open>Configuration and outcomes\<close>

datatype (plugins only: code size) timeout_operation = TimeoutModelCall | TimeoutAction | TimeoutBrowserOperation

text \<open>\<open>LoopPanicked\<close> stands for the panic that unwinds the loop; the code has no outcome for it.\<close>

datatype (plugins only: code size) tool_loop_outcome =
    LoopCompleted string nat nat "model_usage option"
  | LoopMaxTurnsReached "tool_call list" nat
  | LoopCancelled string nat
  | LoopTimedOut timeout_operation nat nat
  | LoopFailed string nat
  | LoopPanicked

text \<open>How a call of the action runtime can fail: with an error or, where it panics, without an answer.\<close>

datatype (plugins only: code size) action_failure = ActionError string | ActionPanicked

record loop_controls =
  lc_model_call_timeout :: "duration option"
  lc_action_timeout :: "duration option"
  lc_browser_operation_timeout :: "duration option"

definition loop_controls_default :: loop_controls where
  "loop_controls_default = \<lparr>lc_model_call_timeout = None, lc_action_timeout = None, lc_browser_operation_timeout = None\<rparr>"

datatype (plugins only: code size) obs_event =
    ObsTrace string nat "(string \<times> json) list"
  | ObsCounter string nat

record 's checkpoint_store =
  cst_list :: "string \<Rightarrow> 's \<Rightarrow> (string + tool_loop_checkpoint list) \<times> 's"
  cst_append :: "tool_loop_checkpoint \<Rightarrow> 's \<Rightarrow> (string + unit) \<times> 's"

text \<open>
  Everything the loop is given. Without a cancellation token \<open>tl_cancelled\<close> answers
  \<open>False\<close>, without observability \<open>tl_emit\<close> does nothing; the checkpoint store may be absent.
\<close>

record 's tool_loop =
  tl_run_id :: string
  tl_conversation_id :: string
  tl_max_turns :: nat
  tl_tools :: "tool_definition list"
  tl_tool_choice :: tool_choice
  tl_controls :: loop_controls
  tl_model :: "duration option \<Rightarrow> model_request \<Rightarrow> tool_definition list \<Rightarrow> tool_choice \<Rightarrow> 's \<Rightarrow>
    (model_adapter_error + model_output) option \<times> 's"
  tl_mapper :: "tool_call \<Rightarrow> string \<Rightarrow> string \<Rightarrow> string + action_request"
  tl_action :: "duration option \<Rightarrow> process_request \<Rightarrow> 's \<Rightarrow> (action_failure + action_outcome) option \<times> 's"
  tl_cancelled :: "'s \<Rightarrow> bool \<times> 's"
  tl_store :: "'s checkpoint_store option"
  tl_emit :: "obs_event \<Rightarrow> 's \<Rightarrow> 's"
  tl_clock :: "'s \<Rightarrow> datetime"

type_synonym ('s, 'a) loop_prog = "('s, tool_loop_outcome, 'a) prog"

section \<open>Helpers\<close>

definition is_browser_tool_action :: "string \<Rightarrow> bool" where
  "is_browser_tool_action k = starts_with k ''browser.''"

definition is_read_only_tool_action :: "string \<Rightarrow> bool" where
  "is_read_only_tool_action k = contains_any [''.search'', ''.read'', ''.list'', ''.get'', ''.fetch''] k"

definition action_timeout_for :: "loop_controls \<Rightarrow> string \<Rightarrow> duration option" where
  "action_timeout_for c k =
     (if is_browser_tool_action k
      then (case lc_browser_operation_timeout c of None \<Rightarrow> lc_action_timeout c | Some t \<Rightarrow> Some t)
      else lc_action_timeout c)"

fun action_outcome_kind :: "action_outcome \<Rightarrow> string" where
  "action_outcome_kind (OutCompleted a r) = ''completed''"
| "action_outcome_kind (OutApprovalRequired a reason) = ''approval_required''"
| "action_outcome_kind (OutDenied a reason) = ''denied''"
| "action_outcome_kind (OutFailed a m) = ''failed''"

fun outcome_result_text :: "action_outcome \<Rightarrow> string" where
  "outcome_result_text (OutCompleted a r) = res_summary r"
| "outcome_result_text (OutDenied a reason) = ''denied: '' @ reason"
| "outcome_result_text (OutApprovalRequired a reason) = ''approval_required: '' @ action_text a"
| "outcome_result_text (OutFailed a m) = ''failed ('' @ action_text a @ ''): '' @ m"

definition jnum :: "nat \<Rightarrow> json" where
  "jnum n = JNumber (decimal n)"

definition emit :: "'s tool_loop \<Rightarrow> obs_event \<Rightarrow> ('s, unit) loop_prog" where
  "emit L e s = (Inr (), tl_emit L e s)"

definition trace_and_count :: "'s tool_loop \<Rightarrow> string \<Rightarrow> nat \<Rightarrow> (string \<times> json) list \<Rightarrow> string \<Rightarrow> ('s, unit) loop_prog" where
  "trace_and_count L op turn attrs counter =
     andThen (emit L (ObsTrace op turn attrs)) (\<lambda>_. emit L (ObsCounter counter 1))"

definition is_cancelled :: "'s tool_loop \<Rightarrow> ('s, bool) loop_prog" where
  "is_cancelled L s = (let (b, s') = tl_cancelled L s in (Inr b, s'))"

text \<open>Appending a checkpoint; a failed append ends the run one turn back.\<close>

definition checkpoint :: "'s tool_loop \<Rightarrow> nat \<Rightarrow> (datetime \<Rightarrow> tool_loop_checkpoint) \<Rightarrow> ('s, unit) loop_prog" where
  "checkpoint L turns_used c s =
     (case tl_store L of
        None \<Rightarrow> (Inr (), s)
      | Some st \<Rightarrow>
          (case cst_append st (c (tl_clock L s)) s of
             (Inl e, s') \<Rightarrow> (Inl (LoopFailed (''checkpoint write failed: '' @ e) (turns_used - 1)), s')
           | (Inr _, s') \<Rightarrow> (Inr (), s')))"

section \<open>A turn\<close>

definition call_model :: "'s tool_loop \<Rightarrow> nat \<Rightarrow> model_request \<Rightarrow> ('s, model_output) loop_prog" where
  "call_model L turns_used q s =
     (let timeout = lc_model_call_timeout (tl_controls L) in
      case tl_model L timeout q (tl_tools L) (tl_tool_choice L) s of
        (Some (Inr out), s') \<Rightarrow>
          andThen (trace_and_count L ''tool_loop.model_call_completed'' turns_used [] ''tool_loop.model_call.completed'')
            (\<lambda>_. ret out) s'
      | (None, s') \<Rightarrow>
          (let ms = duration_to_millis (case timeout of None \<Rightarrow> 0 | Some t \<Rightarrow> t) in
           andThen (trace_and_count L ''tool_loop.model_call_timed_out'' (turns_used - 1) [(''timeout_ms'', jnum ms)]
             ''tool_loop.model_call.timed_out'') (\<lambda>_. raise (LoopTimedOut TimeoutModelCall ms (turns_used - 1))) s')
      | (Some (Inl e), s') \<Rightarrow>
          andThen (trace_and_count L ''tool_loop.model_call_failed'' (turns_used - 1) [(''error'', JString (show_model_error e))]
            ''tool_loop.model_call.failed'')
            (\<lambda>_. raise (LoopFailed (''model call failed: '' @ show_model_error e) (turns_used - 1))) s')"

text \<open>Running one action; a failed one is an answer to the model, a cut off one ends the run.\<close>

definition run_action :: "'s tool_loop \<Rightarrow> nat \<Rightarrow> tool_call \<Rightarrow> action_request \<Rightarrow> ('s, string + string) loop_prog" where
  "run_action L turns_used tc q s =
     (let aid = action_text (req_action_id q); kind = kind_text (req_action_kind q);
          attrs = [(''action_id'', JString aid), (''action_kind'', JString kind)];
          timeout = action_timeout_for (tl_controls L) kind;
          req = \<lparr>pq_conversation_id = ConversationId (tl_conversation_id L), pq_action_request = q,
                 pq_requested_by = Some (ParticipantId ''agent''), pq_runtime_actor = Some (ParticipantId ''tool_loop'')\<rparr>
      in case tl_action L timeout req s of
        (Some (Inr out), s') \<Rightarrow>
          andThen (trace_and_count L ''tool_loop.action_completed'' turns_used
              (attrs @ [(''outcome'', JString (action_outcome_kind out))]) (''tool_loop.action.'' @ action_outcome_kind out))
            (\<lambda>_. ret (Inr (outcome_result_text out))) s'
      | (None, s') \<Rightarrow>
          (let ms = duration_to_millis (case timeout of None \<Rightarrow> 0 | Some t \<Rightarrow> t) in
           andThen (trace_and_count L ''tool_loop.action_timed_out'' turns_used
               (attrs @ [(''timeout_ms'', jnum ms)]) ''tool_loop.action.timed_out'')
             (\<lambda>_. raise (LoopTimedOut (if is_browser_tool_action (tc_name tc) then TimeoutBrowserOperation else TimeoutAction)
                ms turns_used)) s')
      | (Some (Inl ActionPanicked), s') \<Rightarrow> (Inl LoopPanicked, s')
      | (Some (Inl (ActionError e)), s') \<Rightarrow>
          andThen (trace_and_count L ''tool_loop.action_failed'' turns_used (attrs @ [(''error'', JString e)])
              ''tool_loop.action.failed'')
            (\<lambda>_. ret (Inl (''error: '' @ e))) s')"

text \<open>One tool call: the results so far and the number of calls made, updated.\<close>

definition run_tool_call ::
    "'s tool_loop \<Rightarrow> resume_plan \<Rightarrow> nat \<Rightarrow> tool_call \<Rightarrow> (string \<times> string) list \<times> nat \<Rightarrow>
     ('s, (string \<times> string) list \<times> nat) loop_prog" where
  "run_tool_call L plan turns_used tc = (\<lambda>(results, made).
     andThen (is_cancelled L) (\<lambda>cancelled.
     if cancelled then raise (LoopCancelled ''run cancelled'' turns_used)
     else
       (case (if should_skip plan (tc_id tc) then completed_result plan (tc_id tc) else None) of
          Some r \<Rightarrow> ret (results @ [(tc_id tc, r)], made)
        | None \<Rightarrow>
            (case tl_mapper L tc (tl_run_id L) (tl_conversation_id L) of
               Inl e \<Rightarrow>
                 andThen (trace_and_count L ''tool_loop.tool_mapping_failed'' turns_used
                   [(''tool_call_id'', JString (tc_id tc)), (''tool_name'', JString (tc_name tc)), (''error'', JString e)]
                   ''tool_loop.tool_mapping.failed'') (\<lambda>_.
                   ret (results @ [(tc_id tc, ''error: '' @ e)], made))
             | Inr q \<Rightarrow>
                 (let aid = action_text (req_action_id q); kind = kind_text (req_action_kind q);
                      read_only = is_read_only_tool_action kind in
                  andThen (trace_and_count L ''tool_loop.action_started'' turns_used
                    [(''tool_call_id'', JString (tc_id tc)), (''tool_name'', JString (tc_name tc)),
                     (''action_id'', JString aid), (''action_kind'', JString kind), (''read_only'', JBool read_only)]
                    ''tool_loop.action.started'') (\<lambda>_.
                  andThen (run_action L turns_used tc q) (\<lambda>r.
                  case r of
                    Inl err \<Rightarrow> ret (results @ [(tc_id tc, err)], made + 1)
                  | Inr txt \<Rightarrow>
                      andThen (checkpoint L turns_used (\<lambda>now. tool_result_checkpoint_of now (tl_run_id L) turns_used
                        \<lparr>trc_tool_call_id = tc_id tc, trc_action_id = aid, trc_result_text = txt,
                         trc_read_only = read_only\<rparr>)) (\<lambda>_.
                        ret (results @ [(tc_id tc, txt)], made + 1)))))))))"

fun run_tool_calls ::
    "'s tool_loop \<Rightarrow> resume_plan \<Rightarrow> nat \<Rightarrow> tool_call list \<Rightarrow> (string \<times> string) list \<times> nat \<Rightarrow>
     ('s, (string \<times> string) list \<times> nat) loop_prog" where
  "run_tool_calls L plan turns_used [] acc = ret acc"
| "run_tool_calls L plan turns_used (tc # tcs) acc =
     andThen (run_tool_call L plan turns_used tc acc) (run_tool_calls L plan turns_used tcs)"

definition tool_message :: "string \<times> string \<Rightarrow> model_message" where
  "tool_message = (\<lambda>(i, r). \<lparr>mm_role = RoleTool, mm_text = ''tool_call_id: '' @ i @ [CHR 0x0A] @ ''result: '' @ r\<rparr>)"

definition next_request :: "model_request \<Rightarrow> string option \<Rightarrow> tool_call list \<Rightarrow> (string \<times> string) list \<Rightarrow> model_request" where
  "next_request q content tcs results =
     (let assistant = (case content of None \<Rightarrow> [] | Some c \<Rightarrow> c);
          assistant' = (if assistant = [] \<and> tcs \<noteq> [] then ''calling tools'' else assistant)
      in q\<lparr>mr_messages := mr_messages q @ [\<lparr>mm_role = RoleAssistant, mm_text = assistant'\<rparr>] @ map tool_message results\<rparr>)"

definition add_usage :: "model_usage \<Rightarrow> model_usage option \<Rightarrow> model_usage" where
  "add_usage u v =
     (case v of
        None \<Rightarrow> u
      | Some w \<Rightarrow> \<lparr>mu_input_tokens = min U32_MAX (mu_input_tokens u + mu_input_tokens w),
                  mu_output_tokens = min U32_MAX (mu_output_tokens u + mu_output_tokens w)\<rparr>)"

record loop_state =
  ls_request :: model_request
  ls_tool_calls_made :: nat
  ls_usage :: model_usage

text \<open>
  The body of the loop, from the state after \<open>t\<close> turns to the state after one more, or to
  the outcome of the run.
\<close>

definition loop_turn ::
    "'s tool_loop \<Rightarrow> resume_plan \<Rightarrow> nat \<Rightarrow> loop_state \<Rightarrow> ('s, loop_state) loop_prog" where
  "loop_turn L plan t st =
     andThen (is_cancelled L) (\<lambda>cancelled.
     if cancelled
     then andThen (trace_and_count L ''tool_loop.cancelled'' t [(''reason'', JString ''run cancelled'')] ''tool_loop.cancelled'')
            (\<lambda>_. raise (LoopCancelled ''run cancelled'' t))
     else
       (let turns_used = t + 1 in
        if tl_max_turns L < turns_used
        then andThen (trace_and_count L ''tool_loop.max_turns_reached'' (turns_used - 1) [(''max_turns'', jnum (tl_max_turns L))]
               ''tool_loop.max_turns_reached'') (\<lambda>_. raise (LoopMaxTurnsReached [] (turns_used - 1)))
        else
          andThen (emit L (ObsTrace ''tool_loop.turn_started'' turns_used
            [(''request_messages'', jnum (length (mr_messages (ls_request st))))])) (\<lambda>_.
          andThen (checkpoint L turns_used (\<lambda>now. before_model_call now (tl_run_id L) turns_used)) (\<lambda>_.
          andThen (call_model L turns_used (ls_request st)) (\<lambda>out.
          andThen (checkpoint L turns_used (\<lambda>now. after_model_call now (tl_run_id L) turns_used)) (\<lambda>_.
          let usage = add_usage (ls_usage st) (output_usage out) in
          case out of
            TextOutput txt _ \<Rightarrow>
              andThen (emit L (ObsTrace ''tool_loop.completed'' (turns_used - 1)
                [(''tool_calls_made'', jnum (ls_tool_calls_made st)), (''input_tokens'', jnum (mu_input_tokens usage)),
                 (''output_tokens'', jnum (mu_output_tokens usage))])) (\<lambda>_.
              andThen (emit L (ObsCounter ''tool_loop.completed'' 1)) (\<lambda>_.
              andThen (emit L (ObsCounter ''tool_loop.tool_calls_made'' (ls_tool_calls_made st))) (\<lambda>_.
                raise (LoopCompleted txt (turns_used - 1) (ls_tool_calls_made st) (Some usage)))))
          | ToolCallsOutput content tcs _ \<Rightarrow>
              andThen (run_tool_calls L plan turns_used tcs ([], ls_tool_calls_made st)) (\<lambda>(results, made).
                if tl_max_turns L \<le> turns_used then raise (LoopMaxTurnsReached tcs turns_used)
                else ret \<lparr>ls_request = next_request (ls_request st) content tcs results,
                          ls_tool_calls_made = made, ls_usage = usage\<rparr>)))))))"

section \<open>The loop\<close>

text \<open>A turn that does not end the run leaves turns to go.\<close>

lemma loop_turn_next: "loop_turn L plan t st s = (Inr st', s') \<Longrightarrow> t + 1 < tl_max_turns L"
  unfolding loop_turn_def Let_def
  apply (clarsimp simp: andThen_Inr_iff split: if_splits)
  subgoal for _ _ _ _ out
    by (cases out) (auto simp: andThen_Inr_iff raise_def split: if_splits)
  done

function turn_loop ::
    "'s tool_loop \<Rightarrow> resume_plan \<Rightarrow> nat \<Rightarrow> loop_state \<Rightarrow> 's \<Rightarrow> tool_loop_outcome \<times> 's" where
  "turn_loop L plan t st s =
     (case loop_turn L plan t st s of
        (Inl out, s') \<Rightarrow> (out, s')
      | (Inr st', s') \<Rightarrow> turn_loop L plan (t + 1) st' s')"
  by pat_completeness auto
termination
  by (relation "measure (\<lambda>(L, plan, t, st, s). tl_max_turns L - t)") (auto dest: loop_turn_next [OF sym])

declare turn_loop.simps [simp del]

definition run_tool_loop :: "'s tool_loop \<Rightarrow> model_request \<Rightarrow> 's \<Rightarrow> tool_loop_outcome \<times> 's" where
  "run_tool_loop L q s =
     (let start = \<lparr>ls_request = q, ls_tool_calls_made = 0, ls_usage = \<lparr>mu_input_tokens = 0, mu_output_tokens = 0\<rparr>\<rparr> in
      case tl_store L of
        None \<Rightarrow> turn_loop L resume_plan_default 0 start s
      | Some store \<Rightarrow>
          (case cst_list store (tl_run_id L) s of
             (Inl e, s') \<Rightarrow> (LoopFailed (''checkpoint load failed: '' @ e) 0, s')
           | (Inr cs, s') \<Rightarrow> turn_loop L (plan_from_checkpoints cs) 0 start s'))"

section \<open>What a run can do\<close>

text \<open>
  A path of the loop from one state of the world to another: the requests that were sent
  to the model and the actions that were run, in order, between other steps of the loop.
\<close>

inductive loop_path ::
    "'s tool_loop \<Rightarrow> model_request list \<Rightarrow> action_request list \<Rightarrow> 's \<Rightarrow> 's \<Rightarrow> bool" for L where
  finished: "loop_path L [] [] s s"
| looked: "loop_path L ms as (snd (tl_cancelled L s)) s' \<Longrightarrow> loop_path L ms as s s'"
| emitted: "loop_path L ms as (tl_emit L e s) s' \<Longrightarrow> loop_path L ms as s s'"
| stored: "tl_store L = Some st \<Longrightarrow> loop_path L ms as (snd (cst_append st c s)) s' \<Longrightarrow> loop_path L ms as s s'"
| listed: "tl_store L = Some st \<Longrightarrow> loop_path L ms as (snd (cst_list st r s)) s' \<Longrightarrow> loop_path L ms as s s'"
| asked: "loop_path L ms as (snd (tl_model L (lc_model_call_timeout (tl_controls L)) q (tl_tools L) (tl_tool_choice L) s)) s' \<Longrightarrow>
    loop_path L (q # ms) as s s'"
| acted: "loop_path L ms as (snd (tl_action L (action_timeout_for (tl_controls L) (kind_text (req_action_kind a)))
      \<lparr>pq_conversation_id = ConversationId (tl_conversation_id L), pq_action_request = a,
       pq_requested_by = Some (ParticipantId ''agent''), pq_runtime_actor = Some (ParticipantId ''tool_loop'')\<rparr> s)) s' \<Longrightarrow>
    loop_path L ms (a # as) s s'"

lemma loop_path_trans:
  "loop_path L ms as s s1 \<Longrightarrow> loop_path L ms' as' s1 s2 \<Longrightarrow> loop_path L (ms @ ms') (as @ as') s s2"
  by (induction rule: loop_path.induct) (auto intro: loop_path.intros)

text \<open>
  A program that takes a path whose model requests, actions and result satisfy a predicate,
  and the rules that compute with it step by step.
\<close>

definition does ::
    "'s tool_loop \<Rightarrow> ('s, 'a) loop_prog \<Rightarrow> (model_request list \<Rightarrow> action_request list \<Rightarrow> tool_loop_outcome + 'a \<Rightarrow> bool) \<Rightarrow> bool" where
  "does L m P \<longleftrightarrow> (\<forall>s. \<exists>ms as. loop_path L ms as s (snd (m s)) \<and> P ms as (fst (m s)))"

lemma does_mono: "does L m P \<Longrightarrow> (\<And>ms as r. P ms as r \<Longrightarrow> Q ms as r) \<Longrightarrow> does L m Q"
  unfolding does_def by meson

lemma doesE:
  assumes "does L m P"
  obtains ms as where "loop_path L ms as s (snd (m s))" and "P ms as (fst (m s))"
  using assms unfolding does_def by meson

lemma does_ret: "P [] [] (Inr x) \<Longrightarrow> does L (ret x) P"
  unfolding does_def ret_def fst_conv snd_conv
  by (intro allI exI [of _ "[]"] conjI loop_path.finished)

lemma does_raise: "P [] [] (Inl e) \<Longrightarrow> does L (raise e) P"
  unfolding does_def raise_def fst_conv snd_conv
  by (intro allI exI [of _ "[]"] conjI loop_path.finished)

lemma does_andThen:
  assumes "does L m Q" and "\<And>ms as e. Q ms as (Inl e) \<Longrightarrow> P ms as (Inl e)"
    and "\<And>ms as x. Q ms as (Inr x) \<Longrightarrow> does L (f x) (\<lambda>ms' as' r. P (ms @ ms') (as @ as') r)"
  shows "does L (andThen m f) P"
  unfolding does_def
proof
  fix s
  obtain r s1 where m: "m s = (r, s1)" by (cases "m s")
  obtain ms as where p1: "loop_path L ms as s s1" "Q ms as r"
    using doesE [OF assms(1), of s] m by (metis fst_conv snd_conv)
  show "\<exists>ms as. loop_path L ms as s (snd (andThen m f s)) \<and> P ms as (fst (andThen m f s))"
  proof (cases r)
    case (Inl e)
    with m p1 assms(2) show ?thesis by (auto simp: andThen_def intro!: exI [of _ ms] exI [of _ as])
  next
    case (Inr x)
    obtain ms' as' where "loop_path L ms' as' s1 (snd (f x s1))" "P (ms @ ms') (as @ as') (fst (f x s1))"
      using doesE [OF assms(3) [OF p1(2) [unfolded Inr]], of s1] by metis
    with loop_path_trans [OF p1(1)] m Inr show ?thesis
      by (intro exI [of _ "ms @ ms'"] exI [of _ "as @ as'"]) (auto simp: andThen_def)
  qed
qed

lemma does_emit: "does L (f ()) P \<Longrightarrow> does L (andThen (emit L e) f) P"
proof (rule does_andThen [where Q = "\<lambda>ms as r. ms = [] \<and> as = [] \<and> r = Inr ()"])
  show "does L (emit L e) (\<lambda>ms as r. ms = [] \<and> as = [] \<and> r = Inr ())"
    unfolding does_def emit_def fst_conv snd_conv
    by (intro allI exI [of _ "[]"] conjI loop_path.emitted [OF loop_path.finished]) simp_all
qed simp_all

lemma andThen_assoc: "andThen (andThen m f) g = andThen m (\<lambda>x. andThen (f x) g)"
  by (auto simp: andThen_def fun_eq_iff split: prod.splits sum.splits)

lemma does_trace: "does L (f ()) P \<Longrightarrow> does L (andThen (trace_and_count L op t attrs ctr) f) P"
  unfolding trace_and_count_def andThen_assoc by (intro does_emit)

lemma does_cancelled:
  assumes "\<And>b. does L (f b) P"
  shows "does L (andThen (is_cancelled L) f) P"
proof (rule does_andThen [where Q = "\<lambda>ms as r. ms = [] \<and> as = [] \<and> (\<exists>b. r = Inr b)"])
  show "does L (is_cancelled L) (\<lambda>ms as r. ms = [] \<and> as = [] \<and> (\<exists>b. r = Inr b))"
    unfolding does_def is_cancelled_def Let_def split_beta fst_conv snd_conv
    by (intro allI exI [of _ "[]"] conjI loop_path.looked [OF loop_path.finished]) simp_all
qed (use assms in auto)

lemma does_checkpoint:
  assumes "\<And>e. P [] [] (Inl (LoopFailed e (t - 1)))" and "does L (f ()) P"
  shows "does L (andThen (checkpoint L t c) f) P"
proof (rule does_andThen [where Q = "\<lambda>ms as r. ms = [] \<and> as = [] \<and> (r = Inr () \<or> (\<exists>e. r = Inl (LoopFailed e (t - 1))))"])
  show "does L (checkpoint L t c) (\<lambda>ms as r. ms = [] \<and> as = [] \<and> (r = Inr () \<or> (\<exists>e. r = Inl (LoopFailed e (t - 1)))))"
    unfolding does_def
  proof (intro allI exI [of _ "[]"] conjI refl)
    fix s
    have "snd (checkpoint L t c s) = (case tl_store L of None \<Rightarrow> s | Some st \<Rightarrow> snd (cst_append st (c (tl_clock L s)) s))"
      by (simp add: checkpoint_def split: option.splits prod.splits sum.splits)
    then show "loop_path L [] [] s (snd (checkpoint L t c s))"
      by (auto split: option.splits intro: loop_path.stored loop_path.finished)
    show "fst (checkpoint L t c s) = Inr () \<or> (\<exists>e. fst (checkpoint L t c s) = Inl (LoopFailed e (t - 1)))"
      by (auto simp: checkpoint_def split: option.splits prod.splits sum.splits)
  qed
qed (use assms in auto)

text \<open>A program that goes on from what a call of the outside left.\<close>

lemma does_from:
  assumes "does L m (\<lambda>ms as r. ms = [] \<and> as = [] \<and> R r)"
  shows "loop_path L [] [] s (snd (m s))" and "R (fst (m s))"
  by (rule doesE [OF assms, of s], simp)+

lemma call_model_does:
  "does L (call_model L t q) (\<lambda>ms as r. ms = [q] \<and> as = [] \<and>
     (case r of Inl e \<Rightarrow> (\<exists>d m. e \<in> {LoopTimedOut TimeoutModelCall d (t - 1), LoopFailed m (t - 1)}) | Inr out \<Rightarrow> True))"
    (is "does L ?m (\<lambda>ms as r. _ \<and> _ \<and> ?R r)")
  unfolding does_def
proof (rule allI, rule exI [of _ "[q]"], rule exI [of _ "[]"], intro conjI refl)
  fix s
  let ?c = "tl_model L (lc_model_call_timeout (tl_controls L)) q (tl_tools L) (tl_tool_choice L) s"
  obtain x s1 where c: "?c = (x, s1)" by (cases ?c)
  have out: "loop_path L [] [] s1 (snd (m s1)) \<and> ?R (fst (m s1)) \<Longrightarrow> ?m s = m s1 \<Longrightarrow>
      loop_path L [q] [] s (snd (?m s)) \<and> ?R (fst (?m s))" for m
    using loop_path.asked [where L = L and q = q and s = s] by (simp add: c)
  have quiet: "loop_path L [] [] s1 (snd (m s1)) \<and> ?R (fst (m s1))"
    if "does L m (\<lambda>ms as r. ms = [] \<and> as = [] \<and> ?R r)" for m
    using does_from [OF that, of s1] by blast
  have "loop_path L [q] [] s (snd (?m s)) \<and> ?R (fst (?m s))"
  proof (cases x)
    case None
    show ?thesis
      by (rule out, rule quiet, rule does_trace, rule does_raise)
        (auto simp: call_model_def Let_def c None)
  next
    case (Some y)
    show ?thesis
    proof (cases y)
      case (Inl e)
      show ?thesis
        by (rule out, rule quiet, rule does_trace, rule does_raise) (auto simp: call_model_def Let_def c Some Inl)
    next
      case (Inr z)
      show ?thesis
        by (rule out, rule quiet, rule does_trace, rule does_ret) (auto simp: call_model_def Let_def c Some Inr)
    qed
  qed
  then show "loop_path L [q] [] s (snd (?m s))" "?R (fst (?m s))" by blast+
qed

text \<open>Some call of the action runtime panics.\<close>

definition may_panic :: "'s tool_loop \<Rightarrow> bool" where
  "may_panic L \<longleftrightarrow> (\<exists>d req s. fst (tl_action L d req s) = Some (Inl ActionPanicked))"

lemma run_action_does:
  "does L (run_action L t tc a) (\<lambda>ms as r. ms = [] \<and> as = [a] \<and>
     (case r of Inl e \<Rightarrow> (\<exists>op d. e = LoopTimedOut op d t \<and> op \<noteq> TimeoutModelCall) \<or> e = LoopPanicked \<and> may_panic L
      | Inr out \<Rightarrow> True))"
    (is "does L ?m (\<lambda>ms as r. _ \<and> _ \<and> ?R r)")
  unfolding does_def
proof (rule allI, rule exI [of _ "[]"], rule exI [of _ "[a]"], intro conjI refl)
  fix s
  let ?c = "tl_action L (action_timeout_for (tl_controls L) (kind_text (req_action_kind a)))
      \<lparr>pq_conversation_id = ConversationId (tl_conversation_id L), pq_action_request = a,
       pq_requested_by = Some (ParticipantId ''agent''), pq_runtime_actor = Some (ParticipantId ''tool_loop'')\<rparr> s"
  obtain x s1 where c: "?c = (x, s1)" by (cases ?c)
  have out: "loop_path L [] [] s1 (snd (m s1)) \<and> ?R (fst (m s1)) \<Longrightarrow> ?m s = m s1 \<Longrightarrow>
      loop_path L [] [a] s (snd (?m s)) \<and> ?R (fst (?m s))" for m
    using loop_path.acted [where L = L and a = a and s = s] by (simp add: c)
  have quiet: "loop_path L [] [] s1 (snd (m s1)) \<and> ?R (fst (m s1))"
    if "does L m (\<lambda>ms as r. ms = [] \<and> as = [] \<and> ?R r)" for m
    using does_from [OF that, of s1] by blast
  have "loop_path L [] [a] s (snd (?m s)) \<and> ?R (fst (?m s))"
  proof (cases x)
    case None
    show ?thesis
      by (rule out, rule quiet, rule does_trace, rule does_raise)
        (auto simp: run_action_def Let_def c None)
  next
    case (Some y)
    show ?thesis
    proof (cases y)
      case (Inl e)
      show ?thesis
      proof (cases e)
        case (ActionError m)
        show ?thesis
          by (rule out, rule quiet, rule does_trace, rule does_ret) (auto simp: run_action_def Let_def c Some Inl ActionError)
      next
        case ActionPanicked
        have "may_panic L" unfolding may_panic_def using c Some Inl ActionPanicked by (metis fst_conv)
        with out [of "raise LoopPanicked"] show ?thesis
          by (simp add: run_action_def Let_def c Some Inl ActionPanicked raise_def loop_path.finished)
      qed
    next
      case (Inr z)
      show ?thesis
        by (rule out, rule quiet, rule does_trace, rule does_ret) (auto simp: run_action_def Let_def c Some Inr)
    qed
  qed
  then show "loop_path L [] [a] s (snd (?m s))" "?R (fst (?m s))" by blast+
qed

section \<open>What a run is accountable for\<close>

text \<open>The action requests that the mapper makes of some tool call.\<close>

definition mapped :: "'s tool_loop \<Rightarrow> action_request set" where
  "mapped L = {a. \<exists>tc. tl_mapper L tc (tl_run_id L) (tl_conversation_id L) = Inr a}"

text \<open>How the numbers in an outcome relate to the model calls and the actions of the run.\<close>

fun accounted :: "'s tool_loop \<Rightarrow> nat \<Rightarrow> nat \<Rightarrow> tool_loop_outcome \<Rightarrow> bool" where
  "accounted L calls acts (LoopCompleted txt k made u) \<longleftrightarrow> calls = k + 1 \<and> acts = made"
| "accounted L calls acts (LoopMaxTurnsReached tcs k) \<longleftrightarrow> calls = k"
| "accounted L calls acts (LoopCancelled reason k) \<longleftrightarrow> calls = k"
| "accounted L calls acts (LoopTimedOut op ms k) \<longleftrightarrow> calls = (if op = TimeoutModelCall then k + 1 else k)"
| "accounted L calls acts (LoopFailed m k) \<longleftrightarrow> calls = k \<or> calls = k + 1"
| "accounted L calls acts LoopPanicked \<longleftrightarrow> 0 < acts \<and> may_panic L"

text \<open>What may have happened when a number of tool calls of turn \<open>t\<close> have been worked off.\<close>

definition tools_done ::
    "'s tool_loop \<Rightarrow> nat \<Rightarrow> nat \<Rightarrow> model_request list \<Rightarrow> action_request list \<Rightarrow> tool_loop_outcome + 'r \<times> nat \<Rightarrow> bool" where
  "tools_done L t made ms as r \<longleftrightarrow> ms = [] \<and> set as \<subseteq> mapped L \<and>
     (case r of Inl e \<Rightarrow> (\<forall>n. accounted L t (n + length as) e) | Inr p \<Rightarrow> snd p = made + length as)"

lemma tools_done_simps [simp]:
  "tools_done L t made ms as (Inl e) \<longleftrightarrow> ms = [] \<and> set as \<subseteq> mapped L \<and> (\<forall>n. accounted L t (n + length as) e)"
  "tools_done L t made ms as (Inr p) \<longleftrightarrow> ms = [] \<and> set as \<subseteq> mapped L \<and> snd p = made + length as"
  by (simp_all add: tools_done_def)

lemma does_when: "(b \<Longrightarrow> does L m P) \<Longrightarrow> (\<not> b \<Longrightarrow> does L m' P) \<Longrightarrow> does L (if b then m else m') P"
  by simp

lemma does_option:
  "(x = None \<Longrightarrow> does L m P) \<Longrightarrow> (\<And>y. x = Some y \<Longrightarrow> does L (f y) P) \<Longrightarrow>
   does L (case x of None \<Rightarrow> m | Some y \<Rightarrow> f y) P"
  by (cases x) simp_all

lemma does_sum:
  "(\<And>e. x = Inl e \<Longrightarrow> does L (g e) P) \<Longrightarrow> (\<And>y. x = Inr y \<Longrightarrow> does L (f y) P) \<Longrightarrow>
   does L (case x of Inl e \<Rightarrow> g e | Inr y \<Rightarrow> f y) P"
  by (cases x) simp_all

lemmas does_intros = does_cancelled does_when does_option does_sum does_trace does_emit

lemma run_tool_call_does:
  assumes "0 < t"
  shows "does L (run_tool_call L plan t tc (rs, made)) (tools_done L t made)"
proof -
  have act: "does L (andThen (run_action L t tc q) (\<lambda>r.
      case r of
        Inl err \<Rightarrow> ret (rs @ [(tc_id tc, err)], made + 1)
      | Inr txt \<Rightarrow> andThen (checkpoint L t (c txt)) (\<lambda>_. ret (rs @ [(tc_id tc, txt)], made + 1)))) (tools_done L t made)"
    if q: "q \<in> mapped L" for q c
  proof (rule does_andThen [OF run_action_does], goal_cases)
    case (1 ms as e)
    with q show ?case by auto
  next
    case (2 ms as x)
    with q show ?case
      by (cases x) (use assms in \<open>auto intro!: does_ret does_checkpoint\<close>)
  qed
  show ?thesis
    unfolding run_tool_call_def prod.case Let_def
    by (intro does_intros act) (auto simp: mapped_def does_raise does_ret)
qed

lemma run_tool_calls_does:
  assumes "0 < t"
  shows "does L (run_tool_calls L plan t tcs acc) (tools_done L t (snd acc))"
proof (induction tcs arbitrary: acc)
  case Nil
  show ?case by (simp add: does_ret)
next
  case (Cons tc tcs)
  obtain rs made where acc: "acc = (rs, made)" by (cases acc)
  show ?case
    unfolding acc run_tool_calls.simps snd_conv
  proof (rule does_andThen [OF run_tool_call_does [OF assms]], goal_cases)
    case (1 ms as e)
    then show ?case by simp
  next
    case (2 ms as x)
    show ?case
      by (rule does_mono [OF Cons.IH], use 2 in \<open>auto simp: tools_done_def add.assoc [symmetric] split: sum.splits\<close>)
  qed
qed

text \<open>A turn, and with it the run.\<close>

definition turn_done ::
    "'s tool_loop \<Rightarrow> nat \<Rightarrow> nat \<Rightarrow> model_request list \<Rightarrow> action_request list \<Rightarrow> tool_loop_outcome + loop_state \<Rightarrow> bool" where
  "turn_done L t made ms as r \<longleftrightarrow> t + length ms \<le> tl_max_turns L \<and> set as \<subseteq> mapped L \<and>
     (case r of Inl e \<Rightarrow> accounted L (t + length ms) (made + length as) e
      | Inr st \<Rightarrow> length ms = 1 \<and> ls_tool_calls_made st = made + length as)"

lemma turn_done_simps [simp]:
  "turn_done L t made ms as (Inl e) \<longleftrightarrow> t + length ms \<le> tl_max_turns L \<and> set as \<subseteq> mapped L \<and>
     accounted L (t + length ms) (made + length as) e"
  "turn_done L t made ms as (Inr st) \<longleftrightarrow> t + length ms \<le> tl_max_turns L \<and> set as \<subseteq> mapped L \<and>
     length ms = 1 \<and> ls_tool_calls_made st = made + length as"
  by (simp_all add: turn_done_def)

lemma does_output:
  "(\<And>txt u. does L (f txt u) P) \<Longrightarrow> (\<And>c tcs u. does L (g c tcs u) P) \<Longrightarrow>
   does L (case out of TextOutput txt u \<Rightarrow> f txt u | ToolCallsOutput c tcs u \<Rightarrow> g c tcs u) P"
  by (cases out) simp_all

lemma tools_then_does:
  assumes "t < tl_max_turns L"
  shows "does L (andThen (run_tool_calls L plan (t + 1) tcs ([], made)) (\<lambda>(results, made).
       if tl_max_turns L \<le> t + 1 then raise (LoopMaxTurnsReached tcs (t + 1))
       else ret (\<lparr>ls_request = r results, ls_tool_calls_made = made, ls_usage = u\<rparr>)))
     (\<lambda>ms as. turn_done L t made (q # ms) as)"
proof (rule does_andThen [OF run_tool_calls_does], goal_cases)
  case 1
  show ?case by simp
next
  case (2 ms as e)
  with assms show ?case by simp
next
  case (3 ms as x)
  with assms show ?case by (cases x) (auto intro!: does_ret does_raise)
qed

lemma loop_turn_does:
  assumes "t \<le> tl_max_turns L"
  shows "does L (loop_turn L plan t st) (turn_done L t (ls_tool_calls_made st))"
proof -
  have asked: "does L (andThen (call_model L (t + 1) q) f) (turn_done L t (ls_tool_calls_made st))"
    if "t < tl_max_turns L" and "\<And>out. does L (f out) (\<lambda>ms as. turn_done L t (ls_tool_calls_made st) (q # ms) as)" for q f
    by (rule does_andThen [OF call_model_does]) (use that in auto)
  show ?thesis
  proof (cases "t < tl_max_turns L")
    case True
    show ?thesis
      unfolding loop_turn_def Let_def
      by (intro does_intros does_checkpoint asked does_output tools_then_does True does_raise) (use True in auto)
  next
    case False
    with assms show ?thesis
      unfolding loop_turn_def Let_def
      by (intro does_cancelled) (auto intro!: does_trace does_raise)
  qed
qed

lemma turn_loop_does:
  "t \<le> tl_max_turns L \<Longrightarrow>
   \<exists>ms as. loop_path L ms as s (snd (turn_loop L plan t st s)) \<and> t + length ms \<le> tl_max_turns L \<and>
     set as \<subseteq> mapped L \<and>
     accounted L (t + length ms) (ls_tool_calls_made st + length as) (fst (turn_loop L plan t st s))"
proof (induction L plan t st s rule: turn_loop.induct)
  case (1 L plan t st s)
  obtain ms as where p: "loop_path L ms as s (snd (loop_turn L plan t st s))"
    and d: "turn_done L t (ls_tool_calls_made st) ms as (fst (loop_turn L plan t st s))"
    using doesE [OF loop_turn_does [OF 1(2)]] by metis
  obtain r s1 where turn: "loop_turn L plan t st s = (r, s1)" by (cases "loop_turn L plan t st s")
  show ?case
  proof (cases r)
    case (Inl e)
    with p d turn show ?thesis
      by (subst turn_loop.simps, subst turn_loop.simps) (auto intro!: exI [of _ ms] exI [of _ as])
  next
    case (Inr st1)
    have step: "turn_loop L plan t st s = turn_loop L plan (t + 1) st1 s1"
      by (subst turn_loop.simps) (simp add: turn Inr)
    from d turn Inr have st1: "length ms = 1" "ls_tool_calls_made st1 = ls_tool_calls_made st + length as"
      "set as \<subseteq> mapped L" "t + 1 \<le> tl_max_turns L" by auto
    obtain ms' as' where "loop_path L ms' as' s1 (snd (turn_loop L plan (t + 1) st1 s1))"
      "t + 1 + length ms' \<le> tl_max_turns L" "set as' \<subseteq> mapped L"
      "accounted L (t + 1 + length ms') (ls_tool_calls_made st1 + length as') (fst (turn_loop L plan (t + 1) st1 s1))"
      using 1(1) [OF turn [symmetric] Inr st1(4)] by blast
    then show ?thesis
      unfolding step using loop_path_trans [of L ms as s s1 ms' as'] p turn st1
      by (intro exI [of _ "ms @ ms'"] exI [of _ "as @ as'"]) (simp add: add.assoc)
  qed
qed

lemma run_tool_loop_does:
  "\<exists>ms as. loop_path L ms as s (snd (run_tool_loop L q s)) \<and> length ms \<le> tl_max_turns L \<and>
     set as \<subseteq> mapped L \<and> accounted L (length ms) (length as) (fst (run_tool_loop L q s))"
proof -
  let ?start = "\<lparr>ls_request = q, ls_tool_calls_made = 0, ls_usage = \<lparr>mu_input_tokens = 0, mu_output_tokens = 0\<rparr>\<rparr>"
  have loop: "\<exists>ms as. loop_path L ms as s' (snd (turn_loop L plan 0 ?start s')) \<and> length ms \<le> tl_max_turns L \<and>
      set as \<subseteq> mapped L \<and> accounted L (length ms) (length as) (fst (turn_loop L plan 0 ?start s'))" for plan s'
    using turn_loop_does [of 0 L s' plan ?start] by simp
  show ?thesis
  proof (cases "tl_store L")
    case None
    with loop [of s] show ?thesis by (simp add: run_tool_loop_def)
  next
    case (Some store)
    obtain r s1 where l: "cst_list store (tl_run_id L) s = (r, s1)" by (cases "cst_list store (tl_run_id L) s")
    have first: "loop_path L ms as s1 s' \<Longrightarrow> loop_path L ms as s s'" for ms as s'
      using loop_path.listed [OF Some, of ms as "tl_run_id L" s s'] by (simp add: l)
    show ?thesis
    proof (cases r)
      case (Inl e)
      with Some l first [OF loop_path.finished] show ?thesis
        by (intro exI [of _ "[]"]) (simp add: run_tool_loop_def)
    next
      case (Inr cs)
      with Some l have "run_tool_loop L q s = turn_loop L (plan_from_checkpoints cs) 0 ?start s1"
        by (simp add: run_tool_loop_def)
      with loop [of s1] first show ?thesis by metis
    qed
  qed
qed

text \<open>
  C14. A run of the tool loop asks the model at most as often as the configured number of
  turns, every action it runs is what the mapper made of a tool call, and its outcome
  accounts for what it did: a completed run reports exactly the actions it ran and one turn
  less than the model calls it made, a run that hit the limit or was cancelled or cut off in
  an action reports its model calls, one cut off in a model call leaves that call out, and a
  failed one is off by at most one. A run is without an outcome only where it ran an action
  and the action runtime panics.
\<close>

theorem tool_loop_accounts_for_run:
  "\<exists>ms as. loop_path L ms as s (snd (run_tool_loop L q s)) \<and> length ms \<le> tl_max_turns L \<and>
     set as \<subseteq> mapped L \<and> accounted L (length ms) (length as) (fst (run_tool_loop L q s))"
  by (rule run_tool_loop_does)

section \<open>Over the action runtime\<close>

text \<open>The request that the loop makes of an action.\<close>

definition loop_process_request :: "'s tool_loop \<Rightarrow> action_request \<Rightarrow> process_request" where
  "loop_process_request L a =
     \<lparr>pq_conversation_id = ConversationId (tl_conversation_id L), pq_action_request = a,
      pq_requested_by = Some (ParticipantId ''agent''), pq_runtime_actor = Some (ParticipantId ''tool_loop'')\<rparr>"

text \<open>
  The loop without action timeouts, wired to an action runtime whose state is a part of the
  world that the model, the cancellation token, the checkpoint store and the observer leave
  alone.
\<close>

definition wired ::
    "'s tool_loop \<Rightarrow> ('j, 'e, 'x, 'l) action_runtime \<Rightarrow> ('s \<Rightarrow> ('j, 'x, 'l) runtime_state) \<Rightarrow> bool" where
  "wired L R view \<longleftrightarrow>
     lc_action_timeout (tl_controls L) = None \<and> lc_browser_operation_timeout (tl_controls L) = None \<and>
     (\<forall>req s. view (snd (tl_action L None req s)) = snd (process R req (view s)) \<and>
        (fst (tl_action L None req s) = Some (Inl ActionPanicked) \<longleftrightarrow> fst (process R req (view s)) = Inl RtPanic)) \<and>
     (\<forall>d q ts c s. view (snd (tl_model L d q ts c s)) = view s) \<and>
     (\<forall>s. view (snd (tl_cancelled L s)) = view s) \<and> (\<forall>e s. view (tl_emit L e s) = view s) \<and>
     (\<forall>st. tl_store L = Some st \<longrightarrow>
        (\<forall>c s. view (snd (cst_append st c s)) = view s) \<and> (\<forall>r s. view (snd (cst_list st r s)) = view s))"

lemma loop_path_view:
  assumes "loop_path L ms as s s'" and w: "wired L R view"
  shows "view s' = foldl (\<lambda>r a. snd (process R (loop_process_request L a) r)) (view s) as"
  using assms(1)
proof (induction rule: loop_path.induct)
  case (acted a s ms as s')
  have "action_timeout_for (tl_controls L) k = None" for k
    using w by (simp add: wired_def action_timeout_for_def split: option.split)
  with acted.IH w show ?case by (simp add: wired_def loop_process_request_def)
qed (use w in \<open>auto simp: wired_def\<close>)

text \<open>
  The tool loop touches actions only through the process call of the runtime. Wired to a
  runtime, a run changes the runtime exactly as processing some of the mapped action
  requests one after the other does, for the agent and in the conversation of the loop; so
  it never starts an action past the policy, and never approves one. What it leaves is a
  state the runtime can reach, and all that is known of those holds after any run.
\<close>

lemma tool_loop_acts_through_runtime:
  assumes "wired L R view"
  shows "\<exists>as. set as \<subseteq> mapped L \<and> runtime_reach R (view s) (view (snd (run_tool_loop L q s))) \<and>
    view (snd (run_tool_loop L q s)) =
      foldl (\<lambda>r a. snd (process R (loop_process_request L a) r)) (view s) as"
proof -
  obtain ms as where p: "loop_path L ms as s (snd (run_tool_loop L q s))" "set as \<subseteq> mapped L"
    using run_tool_loop_does [of L s q] by blast
  have reach: "runtime_reach R r0 (foldl (\<lambda>r a. snd (process R (loop_process_request L a) r)) r as')" if "runtime_reach R r0 r" for r0 r as'
    using that by (induction as' arbitrary: r) (auto intro: runtime_reach.process)
  from loop_path_view [OF p(1) assms] p(2) reach [OF runtime_reach.start] show ?thesis
    by (intro exI [of _ as]) simp
qed

text \<open>A loop whose model asks for one tool and then answers, over the runtime of the examples.\<close>

definition demo_agents :: "participant list" where
  "demo_agents =
     [\<lparr>p_id = ParticipantId ''agent'', p_kind = Agent, p_display_name = ''Agent''\<rparr>,
      \<lparr>p_id = ParticipantId ''tool_loop'', p_kind = Agent, p_display_name = ''Tools''\<rparr>]"

definition demo_world :: "(memory_journal, action_request list, audit_event list) runtime_state \<times> nat" where
  "demo_world =
     (\<lparr>rt_kernel = after [DoCreateConversation
          \<lparr>ccc_kind = Group, ccc_title = None, ccc_participants = demo_agents, ccc_actor_id = Some (ParticipantId ''agent'')\<rparr>],
       rt_world = [], rt_audit = [], rt_ticks = 0\<rparr>, 0)"

definition demo_loop ::
    "string \<Rightarrow> ((memory_journal, action_request list, audit_event list) runtime_state \<times> nat) tool_loop" where
  "demo_loop kind =
     \<lparr>tl_run_id = ''r'', tl_conversation_id = [], tl_max_turns = 3, tl_tools = [], tl_tool_choice = ChoiceAuto,
      tl_controls = loop_controls_default,
      tl_model = (\<lambda>d q ts c (r, n). (Some (Inr (if n = 0
         then ToolCallsOutput None [\<lparr>tc_id = ''t1'', tc_name = ''mail_read'', tc_arguments = JNull, tc_raw_arguments = []\<rparr>] None
         else TextOutput ''done'' None)), (r, n + 1))),
      tl_mapper = (\<lambda>tc run conv. Inr (demo_action\<lparr>req_action_kind := ActionKind kind\<rparr>)),
      tl_action = (\<lambda>d req (r, n).
         let (x, r') = process (demo_runtime ''{}'') req r in (Some (map_sum (\<lambda>e. if e = RtPanic then ActionPanicked else ActionError ''rejected'') id x), (r', n))),
      tl_cancelled = (\<lambda>w. (False, w)), tl_store = None, tl_emit = (\<lambda>e w. w), tl_clock = (\<lambda>w. 0)\<rparr>"

lemma map_sum_Inl_iff: "map_sum f id x = Inl y \<longleftrightarrow> (\<exists>e. x = Inl e \<and> f e = y)"
  by (cases x) auto

lemma demo_loop_wired: "wired (demo_loop kind) (demo_runtime ''{}'') fst"
  by (auto simp: wired_def demo_loop_def loop_controls_default_def Let_def map_sum_Inl_iff
      split: prod.splits if_splits)

lemma tool_loop_acts_through_runtime_witness:
  "\<exists>as s'. run_tool_loop (demo_loop ''mail.read'') (model_request_new (ModelId ''m'') []) demo_world =
       (LoopCompleted ''done'' 1 1 (Some \<lparr>mu_input_tokens = 0, mu_output_tokens = 0\<rparr>), s') \<and>
     length (rt_world (fst s')) = 1 \<and> set as \<subseteq> mapped (demo_loop ''mail.read'') \<and>
     fst s' = foldl (\<lambda>r a. snd (process (demo_runtime ''{}'') (loop_process_request (demo_loop ''mail.read'') a) r))
       (fst demo_world) as"
proof -
  let ?run = "run_tool_loop (demo_loop ''mail.read'') (model_request_new (ModelId ''m'') []) demo_world"
  have "map_prod (\<lambda>out. out = LoopCompleted ''done'' 1 1 (Some \<lparr>mu_input_tokens = 0, mu_output_tokens = 0\<rparr>))
      (\<lambda>w. length (rt_world (fst w))) ?run = (True, 1)"
    by code_simp
  then obtain s' where "?run = (LoopCompleted ''done'' 1 1 (Some \<lparr>mu_input_tokens = 0, mu_output_tokens = 0\<rparr>), s')"
    "length (rt_world (fst s')) = 1"
    by (cases ?run) auto
  with tool_loop_acts_through_runtime [OF demo_loop_wired [of "''mail.read''"], where q = "model_request_new (ModelId ''m'') []" and s = demo_world]
  show ?thesis by auto
qed

end
