(* ===== verification/Slices.thy ===== *)
theory Slices
  imports Projector
begin

text \<open>
  The context slices handed to a model
  (\<open>conversation-kernel/src/slice_builder.rs\<close>): the recent window, the thread of the
  trigger, the messages around the trigger and the window of one user. A slice gets a
  fresh identifier from the UUID generator, which is an argument here. The lemmas say
  which messages a slice holds, in which order, and how many.
\<close>

datatype (plugins only: code size) slice_build_reason =
    RecentWindow | CurrentThread | AroundTrigger | AssistantSuggestionAccepted

record conversation_slice =
  sl_id :: string
  sl_conversation_id :: conversation_id
  sl_trigger_message_id :: message_id
  sl_messages :: "message list"
  sl_reason :: slice_build_reason

datatype (plugins only: code size) slice_error =
    NoSession
  | TriggerNotFound
  | TriggerNotInThread
  | ThreadNotFound
  | TriggerNotInMessages
  | IndexOverflow

record slice_builder =
  max_recent_messages :: nat

definition recent_visible :: "message \<Rightarrow> bool" where
  "recent_visible m = (msg_visibility m = VisConversation \<or> msg_visibility m = AgentOnly)"

definition user_visible :: "participant_id \<Rightarrow> message \<Rightarrow> bool" where
  "user_visible u m =
     (case msg_visibility m of
        VisConversation \<Rightarrow> True
      | AgentOnly \<Rightarrow> True
      | PrivateToUser uid \<Rightarrow> uid = u
      | Participants ids \<Rightarrow> u \<in> set ids)"

definition build_recent_window ::
    "slice_builder \<Rightarrow> string \<Rightarrow> conversation_state \<Rightarrow> message_id \<Rightarrow> slice_error + conversation_slice" where
  "build_recent_window b fresh st trigger =
     bind_result (ok_or (cs_session st) NoSession) (\<lambda>session.
       Inr \<lparr>sl_id = fresh, sl_conversation_id = ses_id session,
            sl_trigger_message_id = trigger,
            sl_messages = last_n (max_recent_messages b) (filter recent_visible (cs_messages st)),
            sl_reason = RecentWindow\<rparr>)"

definition build_current_thread ::
    "slice_builder \<Rightarrow> string \<Rightarrow> conversation_state \<Rightarrow> message_id \<Rightarrow> slice_error + conversation_slice" where
  "build_current_thread b fresh st trigger =
     bind_result (ok_or (cs_session st) NoSession) (\<lambda>session.
     bind_result (ok_or (m_get (cs_messages_by_id st) trigger) TriggerNotFound) (\<lambda>trigger_msg.
     bind_result (ok_or (msg_thread_id trigger_msg) TriggerNotInThread) (\<lambda>thread_id.
     bind_result (ok_or (m_get (cs_threads st) thread_id) ThreadNotFound) (\<lambda>thread_msg_ids.
       Inr \<lparr>sl_id = fresh, sl_conversation_id = ses_id session,
            sl_trigger_message_id = trigger,
            sl_messages = List.map_filter (m_get (cs_messages_by_id st)) thread_msg_ids,
            sl_reason = CurrentThread\<rparr>))))"

text \<open>\<open>iter().position(p)\<close>.\<close>

fun position :: "('a \<Rightarrow> bool) \<Rightarrow> 'a list \<Rightarrow> nat option" where
  "position p [] = None"
| "position p (x # xs) = (if p x then Some 0 else map_option Suc (position p xs))"

text \<open>
  The sum \<open>trigger_idx + context_after + 1\<close> is a \<open>usize\<close>; with overflow checks on it
  panics past \<open>2 ^ 64\<close>, the \<open>IndexOverflow\<close> branch.
\<close>

definition build_around_trigger ::
    "slice_builder \<Rightarrow> string \<Rightarrow> conversation_state \<Rightarrow> message_id \<Rightarrow> nat \<Rightarrow> nat \<Rightarrow>
     slice_error + conversation_slice" where
  "build_around_trigger b fresh st trigger context_before context_after =
     bind_result (ok_or (cs_session st) NoSession) (\<lambda>session.
     bind_result (ok_or (position (\<lambda>m. msg_id m = trigger) (cs_messages st)) TriggerNotInMessages)
       (\<lambda>trigger_idx.
     if 2 ^ 64 \<le> trigger_idx + context_after + 1 then Inl IndexOverflow
     else
       (let start = trigger_idx - context_before;
            stop = min (trigger_idx + context_after + 1) (length (cs_messages st))
        in Inr \<lparr>sl_id = fresh, sl_conversation_id = ses_id session,
                sl_trigger_message_id = trigger,
                sl_messages = drop start (take stop (cs_messages st)),
                sl_reason = AroundTrigger\<rparr>)))"

definition build_for_user ::
    "slice_builder \<Rightarrow> string \<Rightarrow> conversation_state \<Rightarrow> message_id \<Rightarrow> participant_id \<Rightarrow>
     slice_error + conversation_slice" where
  "build_for_user b fresh st trigger u =
     bind_result (ok_or (cs_session st) NoSession) (\<lambda>session.
       Inr \<lparr>sl_id = fresh, sl_conversation_id = ses_id session,
            sl_trigger_message_id = trigger,
            sl_messages = last_n (max_recent_messages b) (filter (user_visible u) (cs_messages st)),
            sl_reason = RecentWindow\<rparr>)"

lemmas slice_defs = build_recent_window_def build_current_thread_def build_around_trigger_def
  build_for_user_def

section \<open>What a window holds\<close>

text \<open>
  A window of at most \<open>n\<close> elements of a timeline: the newest ones, contiguous, and all of
  them when they fit.
\<close>

definition newest_window :: "nat \<Rightarrow> 'a list \<Rightarrow> 'a list \<Rightarrow> bool" where
  "newest_window n all w =
     (\<exists>older. all = older @ w \<and> length w \<le> n \<and> (older \<noteq> [] \<longrightarrow> length w = n))"

lemma newest_window_last_n: "newest_window n xs (last_n n xs)"
proof (cases "n < length xs")
  case True
  then have "xs = take (length xs - n) xs @ last_n n xs" by (simp add: last_n_def)
  with True show ?thesis unfolding newest_window_def by (intro exI) auto
next
  case False
  then show ?thesis by (auto simp: newest_window_def last_n_def)
qed

lemma position_Some:
  "position p xs = Some i \<Longrightarrow> i < length xs \<and> p (xs ! i) \<and> (\<forall>j<i. \<not> p (xs ! j))"
proof (induction xs arbitrary: i)
  case Nil
  then show ?case by simp
next
  case (Cons x xs)
  then show ?case by (auto split: if_splits simp: nth_Cons split: nat.splits)
qed

lemma position_None: "position p xs = None \<longleftrightarrow> (\<forall>x \<in> set xs. \<not> p x)"
  by (induction xs) auto

lemma nth_drop_take:
  "a \<le> i \<Longrightarrow> i < b \<Longrightarrow> i < length xs \<Longrightarrow> drop a (take b xs) ! (i - a) = xs ! i"
  by simp

lemma nth_in_drop_take:
  assumes "a \<le> i" and "i < b" and "i < length xs"
  shows "xs ! i \<in> set (drop a (take b xs))"
proof -
  have "drop a (take b xs) ! (i - a) = xs ! i" using assms by (rule nth_drop_take)
  moreover have "i - a < length (drop a (take b xs))" using assms by simp
  ultimately show ?thesis by (metis nth_mem)
qed

section \<open>Properties\<close>

text \<open>
  The slice of a user: it is built whenever the conversation exists, and holds the newest
  messages of the timeline that pass the filter of \<open>build_for_user\<close>, in order and without
  gaps, at most the configured number and all of them when they fit; in particular no message
  private to somebody else and none addressed to a list without the user. The filter lets
  messages for agents only through, which \<open>Visibility::AgentOnly\<close> says are not for human
  participants: see \<open>agent_only_reaches_user\<close>.
\<close>

lemma user_slice_correct:
  "case build_for_user b fresh st trigger u of
     Inl err \<Rightarrow> err = NoSession \<and> cs_session st = None
   | Inr sl \<Rightarrow>
       newest_window (max_recent_messages b) (filter (user_visible u) (cs_messages st)) (sl_messages sl) \<and>
       (\<forall>m \<in> set (sl_messages sl). m \<in> set (cs_messages st) \<and>
          (\<forall>v. msg_visibility m = PrivateToUser v \<longrightarrow> v = u) \<and>
          (\<forall>vs. msg_visibility m = Participants vs \<longrightarrow> u \<in> set vs))"
proof (cases "cs_session st")
  case None
  then show ?thesis by (simp add: build_for_user_def)
next
  case (Some session)
  have "set (last_n (max_recent_messages b) (filter (user_visible u) (cs_messages st))) \<subseteq>
      set (filter (user_visible u) (cs_messages st))"
    by (rule set_last_n_subset)
  with Some show ?thesis
    by (auto simp: build_for_user_def newest_window_last_n user_visible_def)
qed

lemma agent_only_reaches_user:
  assumes "m \<in> set (cs_messages st)" and "msg_visibility m = AgentOnly" and "cs_session st \<noteq> None"
    and "length (filter (user_visible u) (cs_messages st)) \<le> max_recent_messages b"
  shows "\<exists>sl. build_for_user b fresh st trigger u = Inr sl \<and> m \<in> set (sl_messages sl)"
proof -
  have "m \<in> set (filter (user_visible u) (cs_messages st))" using assms(1,2) by (simp add: user_visible_def)
  with assms(3,4) show ?thesis by (auto simp: build_for_user_def last_n_def)
qed

definition slice_message :: "string \<Rightarrow> visibility \<Rightarrow> thread_id option \<Rightarrow> message" where
  "slice_message i v t =
     \<lparr>msg_id = MessageId i, msg_conversation_id = ConversationId ''c'',
      msg_sender_id = ParticipantId ''alice'', msg_content = Text i, msg_reply_to = None,
      msg_thread_id = t, msg_visibility = v, msg_created_at = 0, msg_edited_at = None\<rparr>"

definition slice_state :: conversation_state where
  "slice_state =
     (add_message (slice_message ''m2'' (PrivateToUser (ParticipantId ''alice'')) (Some (ThreadId ''t'')))
       (add_message (slice_message ''m1'' VisConversation (Some (ThreadId ''t''))) empty_state))
     \<lparr>cs_session := Some
        \<lparr>ses_id = ConversationId ''c'', ses_kind = Direct, ses_title = None, ses_participants = [],
         ses_created_at = 0, ses_updated_at = 0, ses_status = Active\<rparr>\<rparr>"

lemma user_slice_correct_witness:
  "case build_for_user \<lparr>max_recent_messages = 5\<rparr> ''s'' slice_state (MessageId ''m1'') (ParticipantId ''bob'') of
     Inl err \<Rightarrow> False
   | Inr sl \<Rightarrow> map msg_id (sl_messages sl) = [MessageId ''m1''] \<and>
       newest_window 5 (filter (user_visible (ParticipantId ''bob'')) (cs_messages slice_state)) (sl_messages sl)"
proof -
  have "case build_for_user \<lparr>max_recent_messages = 5\<rparr> ''s'' slice_state (MessageId ''m1'') (ParticipantId ''bob'') of
     Inl err \<Rightarrow> False | Inr sl \<Rightarrow> map msg_id (sl_messages sl) = [MessageId ''m1'']"
    by code_simp
  with user_slice_correct [where b = "\<lparr>max_recent_messages = 5\<rparr>" and fresh = "''s''"
      and st = slice_state and trigger = "MessageId ''m1''" and u = "ParticipantId ''bob''"]
  show ?thesis by (auto split: sum.splits)
qed

text \<open>
  The slice around a trigger. It is built exactly when the conversation exists, the
  trigger is in the timeline and the upper index does not overflow; it is a contiguous
  part of the timeline that contains the trigger, has at most the requested number of
  messages on each side of it, and as many as the timeline offers.
\<close>

lemma around_trigger_correct:
  "case build_around_trigger b fresh st trigger before aft of
     Inl err \<Rightarrow>
       (err = NoSession \<and> cs_session st = None) \<or>
       (err = TriggerNotInMessages \<and> trigger \<notin> msg_id ` set (cs_messages st)) \<or>
       (err = IndexOverflow \<and> (\<exists>i < length (cs_messages st). 2 ^ 64 \<le> i + aft + 1))
   | Inr sl \<Rightarrow>
       (\<exists>pre left m right post.
          cs_messages st = pre @ left @ [m] @ right @ post \<and> msg_id m = trigger \<and>
          sl_messages sl = left @ [m] @ right \<and>
          length left = min before (length (pre @ left)) \<and>
          length right = min aft (length (right @ post)))"
proof (cases "build_around_trigger b fresh st trigger before aft")
  case (Inl err)
  then show ?thesis
    by (auto simp: build_around_trigger_def Let_def ok_or_def bind_result_def position_None
        dest!: position_Some split: option.splits if_splits)
next
  case (Inr sl)
  then obtain i where pos: "position (\<lambda>m. msg_id m = trigger) (cs_messages st) = Some i"
    and sl: "sl_messages sl = drop (i - before) (take (min (i + aft + 1) (length (cs_messages st))) (cs_messages st))"
    by (auto simp: build_around_trigger_def Let_def bind_result_Inr_iff split: if_splits)
  let ?ms = "cs_messages st"
  let ?pre = "take (i - before) ?ms" and ?left = "drop (i - before) (take i ?ms)"
  let ?right = "take aft (drop (Suc i) ?ms)" and ?post = "drop (Suc i + aft) ?ms"
  have i: "i < length ?ms" "msg_id (?ms ! i) = trigger"
    using position_Some [OF pos] by simp_all
  have left_part: "take i ?ms = ?pre @ ?left"
    using append_take_drop_id [of "i - before" "take i ?ms"] by (simp add: min_def)
  have right_part: "drop (Suc i) ?ms = ?right @ ?post"
    using append_take_drop_id [of aft "drop (Suc i) ?ms"] by (simp add: add.commute)
  have all: "?ms = take i ?ms @ [?ms ! i] @ drop (Suc i) ?ms"
    using i(1) id_take_nth_drop by simp
  have "take (min (i + aft + 1) (length ?ms)) ?ms = take i ?ms @ [?ms ! i] @ ?right"
  proof -
    have "take (min (i + aft + 1) (length ?ms)) ?ms = take (Suc (i + aft)) ?ms" by (simp add: min_def)
    also have "\<dots> = take (Suc i) ?ms @ take aft (drop (Suc i) ?ms)"
      using take_add [of "Suc i" aft ?ms] by simp
    finally show ?thesis using i(1) by (simp add: take_Suc_conv_app_nth)
  qed
  then have "sl_messages sl = ?left @ [?ms ! i] @ ?right"
    using sl i(1) by simp
  moreover have "?ms = ?pre @ ?left @ [?ms ! i] @ ?right @ ?post"
    using all left_part right_part by (metis append.assoc)
  moreover have "length ?left = min before (length (?pre @ ?left))"
    using i(1) unfolding left_part [symmetric] by simp
  moreover have "length ?right = min aft (length (?right @ ?post))"
    unfolding right_part [symmetric] by simp
  ultimately show ?thesis
    using Inr i(2) by (simp only: sum.case) blast
qed

lemma around_trigger_correct_witness:
  "case build_around_trigger \<lparr>max_recent_messages = 5\<rparr> ''s'' slice_state (MessageId ''m1'') 1 1 of
     Inl err \<Rightarrow> False
   | Inr sl \<Rightarrow> (\<exists>pre left m right post.
       cs_messages slice_state = pre @ left @ [m] @ right @ post \<and> msg_id m = MessageId ''m1'' \<and>
       sl_messages sl = left @ [m] @ right)"
proof -
  have "is_ok (build_around_trigger \<lparr>max_recent_messages = 5\<rparr> ''s'' slice_state (MessageId ''m1'') 1 1)"
    by (simp add: build_around_trigger_def slice_state_def add_message_def empty_state_def
        slice_message_def Let_def)
  with around_trigger_correct [where b = "\<lparr>max_recent_messages = 5\<rparr>" and fresh = "''s''"
      and st = slice_state and trigger = "MessageId ''m1''" and before = 1 and aft = 1]
  show ?thesis by (auto split: sum.splits simp del: append.simps) blast
qed

text \<open>
  The thread slice and the slice around a trigger do not look at visibility: a message
  private to one user is handed out with the rest.
\<close>

theorem thread_slice_ignores_visibility:
  "case build_current_thread \<lparr>max_recent_messages = 5\<rparr> ''s'' slice_state (MessageId ''m1'') of
     Inl err \<Rightarrow> False
   | Inr sl \<Rightarrow> list_ex (\<lambda>m. msg_visibility m = PrivateToUser (ParticipantId ''alice'')) (sl_messages sl)"
  by code_simp

end
