(* ===== verification/Agent_Run.thy ===== *)
theory Agent_Run
  imports Tool_Loop Slices
begin

text \<open>
  A run of the agent (\<open>agent-runtime/src/lib.rs\<close>): the window of messages around the
  trigger, the prompt made of it, the action proposal read out of the answer, and the two
  processors that take a requested run through the kernel, the model and the action
  runtime.

  \<open>?\<close> on an error of the kernel or of the action runtime is the error of the program; the
  state at that point stays, as nothing rolls it back. The model is an operation on the
  world, parsing JSON is a parameter, and the clock is read by number as in the runtime.
\<close>

section \<open>Context and prompt\<close>

record agent_runtime_config =
  arc_default_model_id :: model_id
  arc_max_context_messages :: nat
  arc_system_prompt :: "string option"

definition agent_runtime_config_default :: agent_runtime_config where
  "agent_runtime_config_default =
     \<lparr>arc_default_model_id = ModelId ''test/default'', arc_max_context_messages = 50, arc_system_prompt = None\<rparr>"

record agent_context =
  ax_conversation_id :: conversation_id
  ax_run_id :: string
  ax_trigger_message :: message
  ax_messages :: "message list"
  ax_participants :: "(participant_id, participant) hmap"
  ax_linked_entities :: "entity_descriptor list"
  ax_model_id :: model_id
  ax_system_prompt :: "string option"

text \<open>
  A window of no messages makes \<open>max_context_messages - 1\<close> overflow: that panic is \<open>None\<close>.
\<close>

definition build_context ::
    "nat \<Rightarrow> conversation_state \<Rightarrow> string \<Rightarrow> message_id \<Rightarrow> agent_runtime_config \<Rightarrow> (string + agent_context) option" where
  "build_context max_messages st run trigger config =
     (case cs_session st of
        None \<Rightarrow> Some (Inl ''conversation has no session'')
      | Some session \<Rightarrow>
          (case m_get (cs_messages_by_id st) trigger of
             None \<Rightarrow> Some (Inl ''trigger message not found'')
           | Some trigger_message \<Rightarrow>
               (case position (\<lambda>m. msg_id m = trigger) (cs_messages st) of
                  None \<Rightarrow> Some (Inl ''trigger message not in ordered list'')
                | Some trigger_index \<Rightarrow>
                    if max_messages = 0 then None
                    else
                      (let start = trigger_index - (max_messages - 1);
                           messages = take (trigger_index + 1 - start) (drop start (cs_messages st))
                       in Some (Inr
                         \<lparr>ax_conversation_id = ses_id session, ax_run_id = run,
                          ax_trigger_message = trigger_message, ax_messages = messages,
                          ax_participants = cs_participants st,
                          ax_linked_entities = m_values (cs_linked_entities st),
                          ax_model_id = arc_default_model_id config,
                          ax_system_prompt = arc_system_prompt config\<rparr>)))))"

definition prompt_role :: "(participant_id, participant) hmap \<Rightarrow> participant_id \<Rightarrow> model_role" where
  "prompt_role ps p =
     (case m_get ps p of
        None \<Rightarrow> model_role.RoleUser
      | Some x \<Rightarrow> (case p_kind x of Agent \<Rightarrow> RoleAssistant | _ \<Rightarrow> model_role.RoleUser))"

fun prompt_text :: "message_content \<Rightarrow> string" where
  "prompt_text (Text s) = s"
| "prompt_text (SystemNotice s) = ''[System] '' @ s"
| "prompt_text (AgentSuggestion s acts) = ''[Suggestion] '' @ s"

definition render_prompt :: "agent_context \<Rightarrow> model_request" where
  "render_prompt cx =
     model_request_new (ax_model_id cx)
       ((case ax_system_prompt cx of None \<Rightarrow> [] | Some p \<Rightarrow> [\<lparr>mm_role = RoleSystem, mm_text = p\<rparr>]) @
        map (\<lambda>m. \<lparr>mm_role = prompt_role (ax_participants cx) (msg_sender_id m), mm_text = prompt_text (msg_content m)\<rparr>)
          (ax_messages cx))"

section \<open>Action proposals\<close>

record action_proposal =
  ap_action_id :: action_id
  ap_action_kind :: action_kind
  ap_input :: json
  ap_summary :: string

type_synonym proposal_detector = "agent_context \<Rightarrow> model_output \<Rightarrow> action_proposal option"

definition noop_detector :: proposal_detector where
  "noop_detector cx out = None"

text \<open>\<open>text.find(marker)\<close> and what follows the marker.\<close>

fun after_marker :: "string \<Rightarrow> string \<Rightarrow> string option" where
  "after_marker marker [] = (if marker = [] then Some [] else None)"
| "after_marker marker (c # s) =
     (if starts_with (c # s) marker then Some (drop (length marker) (c # s)) else after_marker marker s)"

text \<open>\<open>splitn(2, char::is_whitespace)\<close>: the text before the first white space and, if there is one, the text after it.\<close>

fun split_at_space :: "string \<Rightarrow> string \<times> string option" where
  "split_at_space [] = ([], None)"
| "split_at_space (c # s) =
     (if ws_head (c # s) \<noteq> 0 then ([], Some (drop (ws_head (c # s)) (c # s)))
      else (let (w, rest) = split_at_space s in (c # w, rest)))"

definition parse_action_marker :: "string \<Rightarrow> (string \<times> string) option" where
  "parse_action_marker s =
     (case after_marker ''ACTION '' s of
        None \<Rightarrow> None
      | Some rest \<Rightarrow>
          (let (first, second) = split_at_space (trim rest); kind = trim first in
           if kind = [] then None
           else Some (kind, trim (case second of None \<Rightarrow> ''{}'' | Some t \<Rightarrow> t))))"

text \<open>A character past ASCII has one leading byte, which stands for it.\<close>

definition kind_slug :: "string \<Rightarrow> string" where
  "kind_slug kind =
     (let dashed = map (\<lambda>c. if is_ascii_alphanumeric c then c else CHR ''-'') (filter (\<lambda>c. \<not> is_continuation c) kind);
          dash = (\<lambda>c. c = CHR ''-'')
      in rev (dropWhile dash (rev (dropWhile dash dashed))))"

definition action_id_for_detected_action :: "string \<Rightarrow> string \<Rightarrow> action_id" where
  "action_id_for_detected_action run kind = ActionId (''action-'' @ run @ ''-'' @ kind_slug kind)"

definition proposal_from_parts :: "string \<Rightarrow> string \<Rightarrow> json \<Rightarrow> action_proposal" where
  "proposal_from_parts run kind input =
     \<lparr>ap_action_id = action_id_for_detected_action run kind, ap_action_kind = ActionKind kind,
      ap_input = input, ap_summary = ''Proposed action '' @ kind\<rparr>"

definition reply_text :: "model_output \<Rightarrow> string" where
  "reply_text out = (case output_text out of None \<Rightarrow> [] | Some t \<Rightarrow> t)"

definition keyword_detector :: "(string \<Rightarrow> json option) \<Rightarrow> proposal_detector" where
  "keyword_detector parse_json cx out =
     (case parse_action_marker (reply_text out) of
        None \<Rightarrow> None
      | Some (kind, input_text) \<Rightarrow>
          Some (proposal_from_parts (ax_run_id cx) kind
            (if input_text = [] then JObject []
             else case parse_json input_text of
                    Some j \<Rightarrow> j
                  | None \<Rightarrow> JObject [(''raw'', JString input_text)])))"

definition registry_detector :: "action_registry \<Rightarrow> (string \<Rightarrow> json option) \<Rightarrow> proposal_detector" where
  "registry_detector reg parse_json cx out =
     (case parse_action_marker (reply_text out) of
        None \<Rightarrow> None
      | Some (kind, input_text) \<Rightarrow>
          (case get_action reg (ActionKind kind) of
             None \<Rightarrow> None
           | Some schema \<Rightarrow>
               (case (if input_text = [] then Some (JObject []) else parse_json input_text) of
                  None \<Rightarrow> None
                | Some input \<Rightarrow> Some (proposal_from_parts (ax_run_id cx) kind input))))"

section \<open>The processors\<close>

datatype (plugins only: code size) agent_run_outcome =
    AgentCompleted string message_id string
  | AgentFailed string string string

datatype (plugins only: code size) agent_run_with_actions_outcome =
    CompletedText string message_id string
  | CompletedWithAction string message_id string action_outcome
  | RunFailedWith string string string

record ('j, 'e, 'x, 'l) agent_runtime =
  ag_kernel :: "('j, 'e) kernel_deps"
  ag_complete :: "model_request \<Rightarrow> 'x \<Rightarrow> (model_adapter_error + model_output) \<times> 'x"
  ag_max_context :: nat
  ag_config :: agent_runtime_config
  ag_participant :: participant_id

definition agent_runtime_new ::
    "('j, 'e) kernel_deps \<Rightarrow> (model_request \<Rightarrow> 'x \<Rightarrow> (model_adapter_error + model_output) \<times> 'x) \<Rightarrow>
     agent_runtime_config \<Rightarrow> participant_id \<Rightarrow> ('j, 'e, 'x, 'l) agent_runtime" where
  "agent_runtime_new D complete config p =
     \<lparr>ag_kernel = D, ag_complete = complete, ag_max_context = arc_max_context_messages config,
      ag_config = config, ag_participant = p\<rparr>"

definition complete_model ::
    "('j, 'e, 'x, 'l) agent_runtime \<Rightarrow> model_request \<Rightarrow>
     ('j, 'e, 'x, 'l, model_adapter_error + model_output) runtime_prog" where
  "complete_model A q s = (let (r, w) = ag_complete A q (rt_world s) in (Inr r, s\<lparr>rt_world := w\<rparr>))"

definition start_run ::
    "('j, 'e, 'x, 'l) agent_runtime \<Rightarrow> conversation_id \<Rightarrow> string \<Rightarrow> ('j, 'e, 'x, 'l, unit) runtime_prog" where
  "start_run A c run =
     in_kernel (start_agent_run (ag_kernel A)
       \<lparr>csar_conversation_id = c, csar_run_id = run, csar_started_by = ag_participant A\<rparr>)"

definition fail_run ::
    "('j, 'e, 'x, 'l) agent_runtime \<Rightarrow> conversation_id \<Rightarrow> string \<Rightarrow> string \<Rightarrow> string \<Rightarrow> ('j, 'e, 'x, 'l, unit) runtime_prog" where
  "fail_run A c run code msg =
     in_kernel (fail_agent_run (ag_kernel A)
       \<lparr>cfar_conversation_id = c, cfar_run_id = run, cfar_error_code = code, cfar_error_message = msg,
        cfar_failed_by = ag_participant A\<rparr>)"

definition reply_and_complete ::
    "('j, 'e, 'x, 'l) agent_runtime \<Rightarrow> conversation_id \<Rightarrow> string \<Rightarrow> message_id \<Rightarrow> string \<Rightarrow>
     ('j, 'e, 'x, 'l, message_id) runtime_prog" where
  "reply_and_complete A c run trigger reply =
     andThen (in_kernel (append_message (ag_kernel A)
       \<lparr>cam_conversation_id = c, cam_sender_id = ag_participant A, cam_content = Text reply,
        cam_reply_to = Some trigger, cam_thread_id = None, cam_visibility = VisConversation\<rparr>)) (\<lambda>m.
     andThen (in_kernel (complete_agent_run (ag_kernel A)
       \<lparr>ccar_conversation_id = c, ccar_run_id = run, ccar_output_message_id = m,
        ccar_completed_by = ag_participant A\<rparr>)) (\<lambda>_.
       ret m))"

text \<open>
  Start the run, build the context, ask the model; a failure of the last two fails the run
  and is the result, \<open>Inl\<close> with its code and message.
\<close>

definition ask_for_run ::
    "('j, 'e, 'x, 'l) agent_runtime \<Rightarrow> conversation_id \<Rightarrow> string \<Rightarrow> message_id \<Rightarrow>
     ('j, 'e, 'x, 'l, (string \<times> string) + (agent_context \<times> model_output)) runtime_prog" where
  "ask_for_run A c run trigger =
     andThen (start_run A c run) (\<lambda>_.
     andThen (in_kernel (load_state (ag_kernel A) c)) (\<lambda>st.
     case build_context (ag_max_context A) st run trigger (ag_config A) of
       None \<Rightarrow> raise RtPanic
     | Some (Inl e) \<Rightarrow>
         andThen (fail_run A c run ''context_build_failed'' e) (\<lambda>_. ret (Inl (''context_build_failed'', e)))
     | Some (Inr cx) \<Rightarrow>
         andThen (complete_model A (render_prompt cx)) (\<lambda>r.
         case r of
           Inl e \<Rightarrow>
             andThen (fail_run A c run ''model_call_failed'' (show_model_error e)) (\<lambda>_.
               ret (Inl (''model_call_failed'', show_model_error e)))
         | Inr out \<Rightarrow> ret (Inr (cx, out)))))"

definition process_run ::
    "('j, 'e, 'x, 'l) agent_runtime \<Rightarrow> conversation_id \<Rightarrow> string \<Rightarrow> message_id \<Rightarrow>
     ('j, 'e, 'x, 'l, agent_run_outcome) runtime_prog" where
  "process_run A c run trigger =
     andThen (ask_for_run A c run trigger) (\<lambda>asked.
     case asked of
       Inl (code, msg) \<Rightarrow> ret (AgentFailed run code msg)
     | Inr (cx, out) \<Rightarrow>
         andThen (reply_and_complete A c run trigger (reply_text out)) (\<lambda>m.
           ret (AgentCompleted run m (reply_text out))))"

fun summarize_action_outcome :: "action_outcome \<Rightarrow> string" where
  "summarize_action_outcome (OutCompleted a r) = ''action '' @ action_text a @ '' completed: '' @ res_summary r"
| "summarize_action_outcome (OutApprovalRequired a reason) = ''action '' @ action_text a @ '' requires approval: '' @ reason"
| "summarize_action_outcome (OutDenied a reason) = ''action '' @ action_text a @ '' denied: '' @ reason"
| "summarize_action_outcome (OutFailed a m) = ''action '' @ action_text a @ '' failed: '' @ m"

fun conversation_text :: "conversation_id \<Rightarrow> string" where
  "conversation_text (ConversationId s) = s"

fun message_id_text :: "message_id \<Rightarrow> string" where
  "message_id_text (MessageId s) = s"

definition read_now :: "('j, 'e, 'x, 'l) action_runtime \<Rightarrow> ('j, 'e, 'x, 'l, datetime) runtime_prog" where
  "read_now R s = (Inr (ar_now R (rt_ticks s)), s\<lparr>rt_ticks := rt_ticks s + 1\<rparr>)"

definition proposed_request ::
    "participant_id \<Rightarrow> conversation_id \<Rightarrow> message_id \<Rightarrow> action_proposal \<Rightarrow> datetime \<Rightarrow> process_request" where
  "proposed_request p c trigger proposal now =
     \<lparr>pq_conversation_id = c,
      pq_action_request =
        \<lparr>req_action_id = ap_action_id proposal, req_action_kind = ap_action_kind proposal, req_input = ap_input proposal,
         req_requested_by = participant_text p, req_conversation_id = Some (conversation_text c),
         req_message_id = Some (message_id_text trigger), req_requested_at = now\<rparr>,
      pq_requested_by = Some p, pq_runtime_actor = Some p\<rparr>"

definition run_proposal ::
    "('j, 'e, 'x, 'l) agent_runtime \<Rightarrow> ('j, 'e, 'x, 'l) action_runtime \<Rightarrow> conversation_id \<Rightarrow> message_id \<Rightarrow>
     action_proposal option \<Rightarrow> ('j, 'e, 'x, 'l, action_outcome option) runtime_prog" where
  "run_proposal A R c trigger proposal =
     (case proposal of
        None \<Rightarrow> ret None
      | Some p \<Rightarrow>
          andThen (read_now R) (\<lambda>now.
          andThen (process R (proposed_request (ag_participant A) c trigger p now)) (\<lambda>out. ret (Some out))))"

definition response_with_action :: "string \<Rightarrow> action_outcome option \<Rightarrow> string" where
  "response_with_action reply out =
     (case out of
        None \<Rightarrow> reply
      | Some out \<Rightarrow> reply @ [CHR 0x0A, CHR 0x0A] @ ''[Action outcome] '' @ summarize_action_outcome out)"

definition process_with_actions ::
    "('j, 'e, 'x, 'l) agent_runtime \<Rightarrow> ('j, 'e, 'x, 'l) action_runtime \<Rightarrow> proposal_detector \<Rightarrow>
     conversation_id \<Rightarrow> string \<Rightarrow> message_id \<Rightarrow> ('j, 'e, 'x, 'l, agent_run_with_actions_outcome) runtime_prog" where
  "process_with_actions A R detect c run trigger =
     andThen (ask_for_run A c run trigger) (\<lambda>asked.
     case asked of
       Inl (code, msg) \<Rightarrow> ret (RunFailedWith run code msg)
     | Inr (cx, out) \<Rightarrow>
         andThen (run_proposal A R c trigger (detect cx out)) (\<lambda>action_outcome.
         let response = response_with_action (reply_text out) action_outcome in
         andThen (reply_and_complete A c run trigger response) (\<lambda>m.
           ret (case action_outcome of
                  Some a \<Rightarrow> CompletedWithAction run m response a
                | None \<Rightarrow> CompletedText run m response))))"

section \<open>The window of messages\<close>

text \<open>
  What the agent gets to see: the last messages of the conversation up to the trigger, the
  trigger the last of them, and their visibility plays no part.
\<close>

lemma build_context_window:
  assumes "build_context n st run t config = Some (Inr cx)"
  shows "\<exists>i. position (\<lambda>m. msg_id m = t) (cs_messages st) = Some i \<and> n \<noteq> 0 \<and>
    ax_messages cx = last_n n (take (i + 1) (cs_messages st)) \<and> m_get (cs_messages_by_id st) t = Some (ax_trigger_message cx)"
proof -
  from assms obtain i where i: "position (\<lambda>m. msg_id m = t) (cs_messages st) = Some i" "n \<noteq> 0"
    "m_get (cs_messages_by_id st) t = Some (ax_trigger_message cx)"
    "ax_messages cx = take (i + 1 - (i - (n - 1))) (drop (i - (n - 1)) (cs_messages st))"
    by (auto simp: build_context_def Let_def split: option.splits if_splits)
  have "i < length (cs_messages st)" using position_Some [OF i(1)] by blast
  then have "ax_messages cx = last_n n (take (i + 1) (cs_messages st))"
    unfolding i(4) using i(2) by (simp add: last_n_def min_absorb1 drop_take Suc_diff_le)
  with i show ?thesis by blast
qed

section \<open>What a run adds to its conversation\<close>

definition added ::
    "conversation_id \<Rightarrow> conversation_event list \<Rightarrow> (memory_journal, 'x, 'l) runtime_state \<Rightarrow>
     (memory_journal, 'x, 'l) runtime_state \<Rightarrow> bool" where
  "added c evs s s' \<longleftrightarrow>
     (\<exists>es. history (rt_kernel s') c = history (rt_kernel s) c @ es \<and> map env_event es = evs) \<and>
     (\<forall>c'. c' \<noteq> c \<longrightarrow> history (rt_kernel s') c' = history (rt_kernel s) c')"

lemma added_refl: "rt_kernel s' = rt_kernel s \<Longrightarrow> added c [] s s'"
  by (simp add: added_def)

lemma added_trans: "added c evs s s1 \<Longrightarrow> added c evs' s1 s2 \<Longrightarrow> added c (evs @ evs') s s2"
  unfolding added_def by (metis append.assoc map_append)

lemma record_event_added:
  assumes "kd_journal D = memory_ops" and "in_kernel (record_event D c checks actor (\<lambda>_. ev)) s = (r, s')"
  shows "r = Inr () \<and> added c [ev] s s' \<or> (\<exists>e. r = Inl e) \<and> added c [] s s'"
  using assms(2)
  by (cases "checks (project (history (rt_kernel s) c))")
     (auto simp: in_kernel_def record_event_memory [OF assms(1)] Let_def added_def envelope_def history_def)

lemma start_run_added:
  "kd_journal (ag_kernel A) = memory_ops \<Longrightarrow> start_run A c run s = (r, s') \<Longrightarrow>
   r = Inr () \<and> added c [AgentRunStarted run] s s' \<or> (\<exists>e. r = Inl e) \<and> added c [] s s'"
  unfolding start_run_def start_agent_run_def by (drule record_event_added, assumption) simp

lemma fail_run_added:
  "kd_journal (ag_kernel A) = memory_ops \<Longrightarrow> fail_run A c run code msg s = (r, s') \<Longrightarrow>
   r = Inr () \<and> added c [AgentRunFailed run code msg] s s' \<or> (\<exists>e. r = Inl e) \<and> added c [] s s'"
  unfolding fail_run_def fail_agent_run_def by (drule record_event_added, assumption) simp

text \<open>The reply: a message of the agent to the trigger, for the whole conversation.\<close>

definition is_reply :: "conversation_id \<Rightarrow> participant_id \<Rightarrow> message_id \<Rightarrow> string \<Rightarrow> message_id \<Rightarrow> message \<Rightarrow> bool" where
  "is_reply c p t reply i m \<longleftrightarrow>
     msg_id m = i \<and> msg_conversation_id m = c \<and> msg_sender_id m = p \<and> msg_content m = Text reply \<and>
     msg_reply_to m = Some t \<and> msg_thread_id m = None \<and> msg_visibility m = VisConversation"

lemma append_message_added:
  fixes D :: "(memory_journal, 'e) kernel_deps"
  assumes "kd_journal D = memory_ops"
    and "in_kernel (append_message D \<lparr>cam_conversation_id = c, cam_sender_id = p, cam_content = Text reply,
        cam_reply_to = Some t, cam_thread_id = None, cam_visibility = VisConversation\<rparr>) s = (r, s')"
  shows "(\<exists>i m. r = Inr i \<and> is_reply c p t reply i m \<and> added c [MessageAppended m] s s') \<or>
    (\<exists>e. r = Inl e) \<and> added c [] s s'"
proof -
  let ?cmd = "\<lparr>cam_conversation_id = c, cam_sender_id = p, cam_content = Text reply,
        cam_reply_to = Some t, cam_thread_id = None, cam_visibility = VisConversation\<rparr>"
  let ?k = "rt_kernel s"
  have load: "jo_load (kd_journal D) c (ks_journal ?k) = Inr (history ?k c)"
    using assms(1) memory_load_history by simp
  show ?thesis
  proof (cases "check_message ?cmd (project (history ?k c)) :: ('e, unit) checked")
    case (Inl e)
    then have "append_message D ?cmd ?k = (Inl e, ?k)"
      using load by (simp add: append_message_def)
    with assms(2) show ?thesis by (auto simp: in_kernel_def added_def)
  next
    case (Inr u)
    then have "append_message D ?cmd ?k =
      andThen (append_envelope D c (Some p) (kd_now D (ks_ticks ?k))
        (MessageAppended (new_message ?cmd (MessageId (kd_new_id D (ks_ids ?k))) (kd_now D (ks_ticks ?k)))))
        (\<lambda>_. ret (MessageId (kd_new_id D (ks_ids ?k))))
        (?k\<lparr>ks_ids := ks_ids ?k + 1, ks_ticks := ks_ticks ?k + 1\<rparr>)"
      using load by (simp add: append_message_def)
    with assms(2) show ?thesis
      by (auto simp: in_kernel_def andThen_run(1) [OF memory_append_history [OF assms(1)]] ret_def added_def
          history_def envelope_def is_reply_def new_message_def)
  qed
qed

lemma reply_and_complete_added:
  assumes "kd_journal (ag_kernel A) = memory_ops" and "reply_and_complete A c run t reply s = (r, s')"
  shows "(\<exists>i m. r = Inr i \<and> is_reply c (ag_participant A) t reply i m \<and>
      added c [MessageAppended m, AgentRunCompleted run i] s s') \<or>
    (\<exists>e. r = Inl e) \<and> (added c [] s s' \<or>
      (\<exists>i m. is_reply c (ag_participant A) t reply i m \<and> added c [MessageAppended m] s s'))"
proof -
  obtain r1 s1 where one: "in_kernel (append_message (ag_kernel A)
       \<lparr>cam_conversation_id = c, cam_sender_id = ag_participant A, cam_content = Text reply,
        cam_reply_to = Some t, cam_thread_id = None, cam_visibility = VisConversation\<rparr>) s = (r1, s1)"
    by (metis surj_pair)
  note a1 = append_message_added [OF assms(1) one]
  show ?thesis
  proof (cases r1)
    case (Inl e)
    with assms(2) one a1 show ?thesis by (auto simp: reply_and_complete_def andThen_def)
  next
    case (Inr i)
    obtain r2 s2 where two: "in_kernel (complete_agent_run (ag_kernel A)
       \<lparr>ccar_conversation_id = c, ccar_run_id = run, ccar_output_message_id = i,
        ccar_completed_by = ag_participant A\<rparr>) s1 = (r2, s2)"
      by (metis surj_pair)
    have "r2 = Inr () \<and> added c [AgentRunCompleted run i] s1 s2 \<or> (\<exists>e. r2 = Inl e) \<and> added c [] s1 s2"
      using record_event_added [OF assms(1) two [unfolded complete_agent_run_def]] by simp
    moreover from a1 Inr obtain m where m: "is_reply c (ag_participant A) t reply i m" "added c [MessageAppended m] s s1" by auto
    moreover have "(r, s') = (map_sum id (\<lambda>_. i) r2, s2)"
      using assms(2) one two Inr by (cases r2) (simp_all add: reply_and_complete_def andThen_def ret_def)
    ultimately show ?thesis
      using added_trans [OF m(2), of _ s2] by fastforce
  qed
qed

text \<open>What \<open>ask_for_run\<close> did, by its result; its context is built from the projection after the start.\<close>

lemma ask_for_run_added:
  assumes mem: "kd_journal (ag_kernel A) = memory_ops" and run: "ask_for_run A c run t s = (r, s')"
  shows "(case r of
      Inl e \<Rightarrow> added c [] s s' \<or> added c [AgentRunStarted run] s s'
    | Inr (Inl (code, msg)) \<Rightarrow> added c [AgentRunStarted run, AgentRunFailed run code msg] s s'
    | Inr (Inr (cx, out)) \<Rightarrow> added c [AgentRunStarted run] s s' \<and>
        build_context (ag_max_context A) (project (history (rt_kernel s') c)) run t (ag_config A) = Some (Inr cx) \<and>
        ag_complete A (render_prompt cx) (rt_world s) = (Inr out, rt_world s'))"
proof -
  obtain r1 s1 where one: "start_run A c run s = (r1, s1)" by (metis surj_pair)
  note a1 = start_run_added [OF mem one]
  have w1: "rt_world s1 = rt_world s" using one by (auto simp: start_run_def in_kernel_def split: prod.splits)
  have load: "in_kernel (load_state (ag_kernel A) c) s1 = (Inr (project (history (rt_kernel s1) c)), s1)"
    using mem by (simp add: in_kernel_def load_state_run memory_load_history)
  show ?thesis
  proof (cases r1)
    case (Inl e)
    with run one a1 show ?thesis by (auto simp: ask_for_run_def andThen_def)
  next
    case (Inr u)
    with a1 have st: "added c [AgentRunStarted run] s s1" by simp
    have failed: "(case r of Inl e \<Rightarrow> added c [] s s' \<or> added c [AgentRunStarted run] s s'
        | Inr (Inl (code, msg)) \<Rightarrow> added c [AgentRunStarted run, AgentRunFailed run code msg] s s' | Inr (Inr p) \<Rightarrow> Q p)"
      if f: "andThen (fail_run A c run code msg) (\<lambda>_. ret (Inl (code, msg))) s2 = (r, s')"
        and s2: "rt_kernel s2 = rt_kernel s1" for code msg s2 Q
    proof -
      obtain r3 s3 where three: "fail_run A c run code msg s2 = (r3, s3)" by (metis surj_pair)
      have "added c [AgentRunStarted run] s s2"
        using added_trans [OF st added_refl [OF s2]] by simp
      with fail_run_added [OF mem three] f three added_trans show ?thesis
        by (cases r3) (fastforce simp: andThen_def ret_def)+
    qed
    let ?b = "build_context (ag_max_context A) (project (history (rt_kernel s1) c)) run t (ag_config A)"
    have go: "ask_for_run A c run t s = (case ?b of
       None \<Rightarrow> raise RtPanic
     | Some (Inl e) \<Rightarrow>
         andThen (fail_run A c run ''context_build_failed'' e) (\<lambda>_. ret (Inl (''context_build_failed'', e)))
     | Some (Inr cx) \<Rightarrow>
         andThen (complete_model A (render_prompt cx)) (\<lambda>r.
         case r of
           Inl e \<Rightarrow>
             andThen (fail_run A c run ''model_call_failed'' (show_model_error e)) (\<lambda>_.
               ret (Inl (''model_call_failed'', show_model_error e)))
         | Inr out \<Rightarrow> ret (Inr (cx, out)))) s1"
      by (simp add: ask_for_run_def andThen_def one Inr load)
    show ?thesis
    proof (cases ?b)
      case None
      with go run st show ?thesis by (simp add: raise_def)
    next
      case (Some b)
      show ?thesis
      proof (cases b)
        case (Inl e)
        with go run Some show ?thesis by (intro failed [where ?s2.0 = s1]) simp_all
      next
        case (Inr cx)
        obtain x w where call: "ag_complete A (render_prompt cx) (rt_world s1) = (x, w)" by (metis surj_pair)
        show ?thesis
        proof (cases x)
          case (Inl e)
          with go run Some Inr call show ?thesis
            by (intro failed [where ?s2.0 = "s1\<lparr>rt_world := w\<rparr>"]) (simp_all add: complete_model_def andThen_def)
        next
          case (Inr out)
          with go run Some \<open>b = Inr cx\<close> call have "r = Inr (Inr (cx, out))" "s' = s1\<lparr>rt_world := w\<rparr>"
            by (simp_all add: complete_model_def andThen_def ret_def)
          with Some \<open>b = Inr cx\<close> call w1 Inr st show ?thesis
            by (simp add: added_def)
        qed
      qed
    qed
  qed
qed

section \<open>Correctness of a run\<close>

text \<open>The events a run may leave behind, by its result.\<close>

fun run_events :: "conversation_id \<Rightarrow> participant_id \<Rightarrow> string \<Rightarrow> message_id \<Rightarrow>
    'e runtime_error + agent_run_outcome \<Rightarrow> conversation_event list \<Rightarrow> bool" where
  "run_events c p run t (Inr (AgentCompleted run' i reply)) evs \<longleftrightarrow> run' = run \<and>
     (\<exists>m. is_reply c p t reply i m \<and> evs = [AgentRunStarted run, MessageAppended m, AgentRunCompleted run i])"
| "run_events c p run t (Inr (AgentFailed run' code msg)) evs \<longleftrightarrow> run' = run \<and>
     evs = [AgentRunStarted run, AgentRunFailed run code msg]"
| "run_events c p run t (Inl e) evs \<longleftrightarrow> evs = [] \<or> evs = [AgentRunStarted run] \<or>
     (\<exists>i m reply. is_reply c p t reply i m \<and> evs = [AgentRunStarted run, MessageAppended m])"

text \<open>
  C15. What a run of the agent does to its conversation, over memory. A completed run has
  started the run, appended one message of the agent that answers the trigger, visible to
  the whole conversation and with exactly the reply of its outcome as its text, and completed
  the run with that message; a failed one has started and failed it with the code and message it reports.
  A run that ends in an error has left a prefix of the completed one, which may be a
  started run that nothing will end. Other conversations do not change.
\<close>

theorem agent_run_history:
  assumes "kd_journal (ag_kernel A) = memory_ops"
  shows "\<exists>evs. added c evs s (snd (process_run A c run t s)) \<and>
    run_events c (ag_participant A) run t (fst (process_run A c run t s)) evs"
proof -
  obtain r s1 where one: "ask_for_run A c run t s = (r, s1)" by (metis surj_pair)
  note a = ask_for_run_added [OF assms one]
  show ?thesis
  proof (cases r)
    case (Inl e)
    then have "process_run A c run t s = (Inl e, s1)" by (simp add: process_run_def andThen_def one)
    with a Inl show ?thesis by auto
  next
    case (Inr asked)
    show ?thesis
    proof (cases asked)
      case (Inl p)
      obtain code msg where p: "p = (code, msg)" by (cases p)
      with Inl Inr have "process_run A c run t s = (Inr (AgentFailed run code msg), s1)"
        by (simp add: process_run_def andThen_def one ret_def)
      with a Inl Inr p show ?thesis by auto
    next
      case (Inr p)
      obtain cx out where p: "p = (cx, out)" by (cases p)
      obtain r2 s2 where two: "reply_and_complete A c run t (reply_text out) s1 = (r2, s2)" by (metis surj_pair)
      have res: "process_run A c run t s = (map_sum id (\<lambda>m. AgentCompleted run m (reply_text out)) r2, s2)"
        using \<open>r = Inr asked\<close> Inr p two
        by (cases r2) (simp_all add: process_run_def andThen_def one ret_def)
      have st: "added c [AgentRunStarted run] s s1" using a \<open>r = Inr asked\<close> Inr p by simp
      show ?thesis
        using reply_and_complete_added [OF assms two] added_trans [OF st, of _ s2] unfolding res
        by fastforce
    qed
  qed
qed

section \<open>A run with an action\<close>

lemmas steps_agent_handlers =
  steps_handler [where cmd = "DoAppendMessage q" for q, OF dispatch.simps(2) [THEN fun_cong]]
  steps_handler [where cmd = "DoStartAgentRun q" for q, OF dispatch.simps(18) [THEN fun_cong]]
  steps_handler [where cmd = "DoCompleteAgentRun q" for q, OF dispatch.simps(19) [THEN fun_cong]]
  steps_handler [where cmd = "DoFailAgentRun q" for q, OF dispatch.simps(20) [THEN fun_cong]]

text \<open>Steps that only send commands to the kernel.\<close>

definition only_kernel ::
    "('j, 'e) kernel_deps \<Rightarrow> ('j, 'x, 'l) runtime_state \<Rightarrow> ('j, 'x, 'l) runtime_state \<Rightarrow> bool" where
  "only_kernel D s s' \<longleftrightarrow> kernel_steps D s s' \<and> rt_world s' = rt_world s \<and> rt_audit s' = rt_audit s"

lemma only_kernel_order: "reflp (only_kernel D)" "transp (only_kernel D)"
  using kernel_steps_order [of D] by (auto simp: only_kernel_def reflp_def transp_def)

lemma only_kernel_trans: "only_kernel D s s1 \<Longrightarrow> only_kernel D s1 s2 \<Longrightarrow> only_kernel D s s2"
  using only_kernel_order(2) [of D] by (rule transpD)

lemma only_kernelI:
  fixes m :: "('j, 'f, 'a) kernel_prog"
  assumes "moves (kernel_steps D) (in_kernel m :: ('j, 'f, 'x, 'l, 'a) runtime_prog)"
  shows "moves (only_kernel D) (in_kernel m :: ('j, 'f, 'x, 'l, 'a) runtime_prog)"
  using assms by (auto simp: moves_def only_kernel_def in_kernel_def split: prod.splits)

lemma moves_at: "moves Q m \<Longrightarrow> m s = (r, s') \<Longrightarrow> Q s s'"
  by (metis moves_def snd_conv)

lemmas only_agent_handlers = steps_agent_handlers [THEN only_kernelI] steps_load [THEN only_kernelI]

lemma only_reply_and_complete: "moves (only_kernel (ag_kernel A)) (reply_and_complete A c run t reply)"
  unfolding reply_and_complete_def by (intro moves_intros only_kernel_order only_agent_handlers)

lemma ask_for_run_answered:
  assumes "ask_for_run A c run t s = (Inr (Inr (cx, out)), s1)"
  shows "ag_complete A (render_prompt cx) (rt_world s) = (Inr out, rt_world s1)" (is ?call)
    and "kernel_steps (ag_kernel A) s s1" and "rt_audit s1 = rt_audit s"
proof -
  let ?D = "ag_kernel A"
  obtain u s2 where start: "start_run A c run s = (Inr u, s2)"
    using assms by (auto simp: ask_for_run_def andThen_Inr_iff)
  have k2: "only_kernel ?D s s2"
    by (rule moves_at [where m = "start_run A c run", OF _ start]) (simp add: start_run_def only_agent_handlers)
  obtain st s3 where load: "in_kernel (load_state ?D c) s2 = (Inr st, s3)"
    using assms start by (auto simp: ask_for_run_def andThen_Inr_iff)
  have k3: "only_kernel ?D s s3"
    by (rule only_kernel_trans [OF k2], rule moves_at [where m = "in_kernel (load_state ?D c)", OF _ load])
      (rule only_agent_handlers)
  obtain x w where call: "ag_complete A (render_prompt cx) (rt_world s3) = (x, w)" by (metis surj_pair)
  have "x = Inr out \<and> s1 = s3\<lparr>rt_world := w\<rparr>"
  proof (cases "build_context (ag_max_context A) st run t (ag_config A)")
    case None
    with assms start load show ?thesis by (simp add: ask_for_run_def andThen_def raise_def)
  next
    case (Some b)
    show ?thesis
    proof (cases b)
      case (Inl e)
      with assms start load Some show ?thesis
        by (auto simp: ask_for_run_def andThen_def ret_def split: prod.splits sum.splits)
    next
      case (Inr cx')
      obtain y v where call': "ag_complete A (render_prompt cx') (rt_world s3) = (y, v)" by (metis surj_pair)
      with assms start load Some Inr call show ?thesis
        by (cases y) (auto simp: ask_for_run_def andThen_def ret_def complete_model_def split: prod.splits sum.splits)
    qed
  qed
  with call have "ag_complete A (render_prompt cx) (rt_world s3) = (Inr out, w)" "s1 = s3\<lparr>rt_world := w\<rparr>" by simp_all
  with k3 show ?call and "kernel_steps ?D s s1" and "rt_audit s1 = rt_audit s"
    by (simp_all add: only_kernel_def kernel_steps_def)
qed

text \<open>
  A proposal of the model is acted on only through the action runtime. When a run
  reports the outcome of an action, the detector found the action in the answer of the
  model to the prompt of the run; the runtime processed it once, between two stretches of
  kernel commands, in which neither the world nor the audit log changes, apart from what
  asking the model did to the world; and the message of the run is the answer with the
  summary of that very outcome. So the policy, the approvals and the audit of the runtime
  govern whatever the model proposes.
\<close>

lemma proposal_goes_through_runtime:
  assumes "process_with_actions A R detect c run t s = (Inr (CompletedWithAction run' i response out), s')"
  shows "\<exists>cx answer p now s1 s2. detect cx answer = Some p \<and>
    ag_complete A (render_prompt cx) (rt_world s) = (Inr answer, rt_world s1) \<and>
    kernel_reach (ag_kernel A) (rt_kernel s) (rt_kernel s1) \<and> rt_audit s1 = rt_audit s \<and>
    process R (proposed_request (ag_participant A) c t p now) s1 = (Inr out, s2) \<and>
    only_kernel (ag_kernel A) s2 s' \<and> response = response_with_action (reply_text answer) (Some out)"
proof -
  from assms obtain x s0 where x: "ask_for_run A c run t s = (Inr x, s0)"
    by (auto simp: process_with_actions_def andThen_Inr_iff)
  with assms obtain cx answer where asked: "ask_for_run A c run t s = (Inr (Inr (cx, answer)), s0)"
    by (cases x) (auto simp: process_with_actions_def andThen_Inr_iff ret_def)
  from assms asked obtain act s2 where act: "run_proposal A R c t (detect cx answer) s0 = (Inr act, s2)"
    by (auto simp: process_with_actions_def andThen_Inr_iff Let_def)
  from assms asked act have rest: "act = Some out" "response = response_with_action (reply_text answer) act"
      "\<exists>m. reply_and_complete A c run t response s2 = (Inr m, s')"
    by (auto simp: process_with_actions_def andThen_Inr_iff Let_def ret_def split: option.splits)
  from act rest(1) obtain p where p: "detect cx answer = Some p"
    "process R (proposed_request (ag_participant A) c t p (ar_now R (rt_ticks s0))) (s0\<lparr>rt_ticks := rt_ticks s0 + 1\<rparr>) = (Inr out, s2)"
    by (auto simp: run_proposal_def read_now_def andThen_Inr_iff ret_def split: option.splits)
  have "only_kernel (ag_kernel A) s2 s'"
    using rest(3) moves_at [where m = "reply_and_complete A c run t response", OF only_reply_and_complete] by blast
  with p rest ask_for_run_answered [OF asked] show ?thesis
    by (intro exI [of _ cx] exI [of _ answer] exI [of _ p] exI [of _ "ar_now R (rt_ticks s0)"]
        exI [of _ "s0\<lparr>rt_ticks := rt_ticks s0 + 1\<rparr>"] exI [of _ s2])
       (simp add: kernel_steps_def)
qed

text \<open>A conversation in which the user has asked the agent, which answers with an action.\<close>

definition demo_agent ::
    "string \<Rightarrow> (memory_journal, string, action_request list, audit_event list) agent_runtime" where
  "demo_agent answer =
     \<lparr>ag_kernel = demo_deps, ag_complete = (\<lambda>q w. (Inr (TextOutput answer None), w)), ag_max_context = 5,
      ag_config = agent_runtime_config_default, ag_participant = p_id bot\<rparr>"

definition demo_trigger :: message_id where
  "demo_trigger = MessageId (replicate 4 (CHR ''x''))"

definition demo_asked :: "(memory_journal, action_request list, audit_event list) runtime_state" where
  "demo_asked =
     \<lparr>rt_kernel = after [demo_create, DoAppendMessage (say alice ''hi''), demo_run],
      rt_world = [], rt_audit = [], rt_ticks = 0\<rparr>"

definition demo_run_id :: string where
  "demo_run_id = replicate 6 (CHR ''x'')"

theorem agent_run_history_witness:
  "\<exists>s' i m. process_run (demo_agent ''hello'') demo_conversation demo_run_id demo_trigger demo_asked =
       (Inr (AgentCompleted demo_run_id i ''hello''), s') \<and>
     is_reply demo_conversation (p_id bot) demo_trigger ''hello'' i m \<and>
     added demo_conversation [AgentRunStarted demo_run_id, MessageAppended m, AgentRunCompleted demo_run_id i] demo_asked s'"
proof -
  let ?run = "process_run (demo_agent ''hello'') demo_conversation demo_run_id demo_trigger demo_asked"
  have "(case fst ?run of Inr (AgentCompleted r i txt) \<Rightarrow> r = demo_run_id \<and> txt = ''hello'' | _ \<Rightarrow> False)"
    by code_simp
  then obtain i where out: "fst ?run = Inr (AgentCompleted demo_run_id i ''hello'')"
    by (auto split: sum.splits agent_run_outcome.splits)
  have "kd_journal (ag_kernel (demo_agent ''hello'')) = memory_ops" "ag_participant (demo_agent ''hello'') = p_id bot"
    by (simp_all add: demo_agent_def)
  with agent_run_history [of "demo_agent ''hello''" demo_conversation demo_asked demo_run_id demo_trigger] out
  show ?thesis by (cases ?run) auto
qed

lemma proposal_goes_through_runtime_witness:
  "\<exists>i response out s' p now s1 s2.
     process_with_actions (demo_agent ''reading ACTION mail.read {}'') (demo_runtime ''{}'') (keyword_detector (\<lambda>_. None))
         demo_conversation demo_run_id demo_trigger demo_asked =
       (Inr (CompletedWithAction demo_run_id i response out), s') \<and>
     length (rt_world s') = 1 \<and>
     process (demo_runtime ''{}'') (proposed_request (p_id bot) demo_conversation demo_trigger p now) s1 = (Inr out, s2) \<and>
     only_kernel demo_deps s2 s'"
proof -
  let ?run = "process_with_actions (demo_agent ''reading ACTION mail.read {}'') (demo_runtime ''{}'')
    (keyword_detector (\<lambda>_. None)) demo_conversation demo_run_id demo_trigger demo_asked"
  have "map_prod (\<lambda>r. case r of Inr (CompletedWithAction r i txt out) \<Rightarrow> r = demo_run_id | _ \<Rightarrow> False)
      (\<lambda>s. length (rt_world s)) ?run = (True, 1)"
    by code_simp
  then obtain i response out s' where run: "?run = (Inr (CompletedWithAction demo_run_id i response out), s')"
    "length (rt_world s') = 1"
    by (cases ?run) (auto split: sum.splits agent_run_with_actions_outcome.splits)
  have "ag_kernel (demo_agent ''reading ACTION mail.read {}'') = demo_deps"
    "ag_participant (demo_agent ''reading ACTION mail.read {}'') = p_id bot"
    by (simp_all add: demo_agent_def)
  with proposal_goes_through_runtime [OF run(1)] run show ?thesis by auto
qed

end
