(* ===== verification/Audit_Log.thy ===== *)
theory Audit_Log
  imports Action_Runtime Model_Types Record_Log "HOL-Library.Product_Lexorder"
begin

text \<open>
  The audit log (\<open>audit-log/src/lib.rs\<close>): audit events chained by hashes in a JSONL file and
  their verification, queries, exports with permissions and redaction, and the mirror that
  forwards events to an enterprise sink in batches.

  The JSON text of a record, its parser and SHA-256 are parameters. The file is its bytes,
  or absent; reading it as a string fails when it is not UTF-8.
\<close>

section \<open>The hash chain\<close>

record audit_envelope =
  ae_schema_version :: nat
  ae_event :: audit_event
  ae_event_hash :: string
  ae_previous_event_hash :: "string option"
  ae_chain_hash :: string

datatype (plugins only: code size) audit_issue =
    AuditParseError nat string
  | LegacyEventWithoutIntegrity nat string
  | EventHashMismatch string string string
  | PreviousHashMismatch string "string option" "string option"
  | ChainHashMismatch string string string

record audit_segment_checksum =
  asc_event_count :: nat
  asc_checksum :: string

record audit_report =
  arp_verified :: bool
  arp_event_count :: nat
  arp_segment_checksum :: "audit_segment_checksum option"
  arp_issues :: "audit_issue list"

datatype (plugins only: code size) audit_line = EnvelopeLine audit_envelope | LegacyLine audit_event

record audit_codec =
  event_text :: "audit_event \<Rightarrow> string"
  envelope_text :: "audit_envelope \<Rightarrow> string"
  dec_json :: "string \<Rightarrow> string + json"
  dec_envelope :: "json \<Rightarrow> string + audit_envelope"
  dec_event :: "json \<Rightarrow> string + audit_event"
  sha256_hex :: "string \<Rightarrow> string"

definition compute_hash :: "audit_codec \<Rightarrow> audit_event \<Rightarrow> string" where
  "compute_hash C e = sha256_hex C (event_text C e)"

definition compute_chain_hash :: "audit_codec \<Rightarrow> string option \<Rightarrow> string \<Rightarrow> string" where
  "compute_chain_hash C previous event_hash =
     sha256_hex C ((case previous of None \<Rightarrow> [] | Some h \<Rightarrow> h) @ [newline] @ event_hash)"

definition envelope_new :: "audit_codec \<Rightarrow> audit_event \<Rightarrow> string option \<Rightarrow> audit_envelope" where
  "envelope_new C e previous =
     \<lparr>ae_schema_version = 1, ae_event = e, ae_event_hash = compute_hash C e,
      ae_previous_event_hash = previous, ae_chain_hash = compute_chain_hash C previous (compute_hash C e)\<rparr>"

definition when_issue :: "bool \<Rightarrow> audit_issue \<Rightarrow> audit_issue list" where
  "when_issue b i = (if b then [i] else [])"

definition verify_envelope :: "audit_codec \<Rightarrow> audit_envelope \<Rightarrow> string option \<Rightarrow> audit_issue list" where
  "verify_envelope C v expected =
     (let i = au_audit_id (ae_event v); event_hash = compute_hash C (ae_event v);
          chain_hash = compute_chain_hash C (ae_previous_event_hash v) (ae_event_hash v) in
      when_issue (ae_event_hash v \<noteq> event_hash) (EventHashMismatch i (ae_event_hash v) event_hash) @
      when_issue (ae_previous_event_hash v \<noteq> expected) (PreviousHashMismatch i expected (ae_previous_event_hash v)) @
      when_issue (ae_chain_hash v \<noteq> chain_hash) (ChainHashMismatch i (ae_chain_hash v) chain_hash))"

definition report_clean :: "nat \<Rightarrow> audit_segment_checksum option \<Rightarrow> audit_report" where
  "report_clean n ck = \<lparr>arp_verified = True, arp_event_count = n, arp_segment_checksum = ck, arp_issues = []\<rparr>"

definition report_with_issues ::
    "nat \<Rightarrow> audit_segment_checksum option \<Rightarrow> audit_issue list \<Rightarrow> audit_report" where
  "report_with_issues n ck issues =
     \<lparr>arp_verified = (issues = []), arp_event_count = n, arp_segment_checksum = ck, arp_issues = issues\<rparr>"

section \<open>The JSONL sink\<close>

definition parse_audit_line :: "audit_codec \<Rightarrow> string \<Rightarrow> string + audit_line" where
  "parse_audit_line C l =
     bind_result (dec_json C l) (\<lambda>j.
     if json_get ''event'' j \<noteq> None \<and> json_get ''event_hash'' j \<noteq> None
     then bind_result (dec_envelope C j) (\<lambda>v. Inr (EnvelopeLine v))
     else bind_result (dec_event C j) (\<lambda>e. Inr (LegacyLine e)))"

definition read_to_string :: "string \<Rightarrow> string + string" where
  "read_to_string bs = (if utf8_valid bs then Inr bs else Inl ''stream did not contain valid UTF-8'')"

text \<open>The loop of \<open>verify\<close>: line number, number of events, previous chain hash.\<close>

fun verify_audit_lines ::
    "audit_codec \<Rightarrow> nat \<Rightarrow> nat \<Rightarrow> string option \<Rightarrow> string list \<Rightarrow> nat \<times> audit_issue list" where
  "verify_audit_lines C n seen previous [] = (seen, [])"
| "verify_audit_lines C n seen previous (l # ls) =
     (if trim l = [] then verify_audit_lines C (n + 1) seen previous ls
      else case parse_audit_line C (trim l) of
        Inr (EnvelopeLine v) \<Rightarrow>
          (let (k, issues) = verify_audit_lines C (n + 1) (seen + 1) (Some (ae_chain_hash v)) ls
           in (k, verify_envelope C v previous @ issues))
      | Inr (LegacyLine e) \<Rightarrow>
          (let (k, issues) = verify_audit_lines C (n + 1) (seen + 1) None ls
           in (k, LegacyEventWithoutIntegrity n (au_audit_id e) # issues))
      | Inl reason \<Rightarrow>
          (let (k, issues) = verify_audit_lines C (n + 1) seen previous ls
           in (k, AuditParseError n reason # issues)))"

text \<open>
  The checksum reads the file lossily: a line with bytes that are not UTF-8 gets
  replacement characters and so is not blank.
\<close>

definition compute_segment_checksum :: "audit_codec \<Rightarrow> string option \<Rightarrow> audit_segment_checksum" where
  "compute_segment_checksum C file =
     (case file of
        None \<Rightarrow> \<lparr>asc_event_count = 0, asc_checksum = sha256_hex C []\<rparr>
      | Some bs \<Rightarrow>
          \<lparr>asc_event_count = length (filter (\<lambda>l. \<not> (utf8_valid l \<and> trim l = [])) (file_lines bs)),
           asc_checksum = sha256_hex C bs\<rparr>)"

definition verify_audit_file :: "audit_codec \<Rightarrow> string option \<Rightarrow> string + audit_report" where
  "verify_audit_file C file =
     (case file of
        None \<Rightarrow> Inr (report_clean 0 (Some \<lparr>asc_event_count = 0, asc_checksum = sha256_hex C []\<rparr>))
      | Some bs \<Rightarrow>
          bind_result (read_to_string bs) (\<lambda>content.
          let (seen, issues) = verify_audit_lines C 1 0 None (file_lines content) in
          Inr (report_with_issues seen (Some (compute_segment_checksum C file)) issues)))"

fun last_chain_hash :: "audit_codec \<Rightarrow> string list \<Rightarrow> string option" where
  "last_chain_hash C [] = None"
| "last_chain_hash C (l # ls) =
     (if trim l = [] then last_chain_hash C ls
      else case parse_audit_line C (trim l) of
        Inr (EnvelopeLine v) \<Rightarrow> Some (ae_chain_hash v)
      | _ \<Rightarrow> None)"

definition previous_chain_hash :: "audit_codec \<Rightarrow> string option \<Rightarrow> string + string option" where
  "previous_chain_hash C file =
     (case file of
        None \<Rightarrow> Inr None
      | Some bs \<Rightarrow> bind_result (read_to_string bs) (\<lambda>content.
          Inr (last_chain_hash C (rev (file_lines content)))))"

definition jsonl_audit_record :: "audit_codec \<Rightarrow> audit_event \<Rightarrow> string option \<Rightarrow> (string + unit) \<times> string option" where
  "jsonl_audit_record C e file =
     (case previous_chain_hash C file of
        Inl err \<Rightarrow> (Inl err, file)
      | Inr previous \<Rightarrow>
          (Inr (), Some ((case file of None \<Rightarrow> [] | Some bs \<Rightarrow> bs) @
             envelope_text C (envelope_new C e previous) @ [newline])))"

fun list_audit_lines :: "audit_codec \<Rightarrow> string list \<Rightarrow> string + audit_event list" where
  "list_audit_lines C [] = Inr []"
| "list_audit_lines C (l # ls) =
     (if trim l = [] then list_audit_lines C ls
      else bind_result (parse_audit_line C (trim l)) (\<lambda>x.
        bind_result (list_audit_lines C ls) (\<lambda>es.
          Inr ((case x of EnvelopeLine v \<Rightarrow> ae_event v | LegacyLine e \<Rightarrow> e) # es))))"

definition jsonl_audit_list :: "audit_codec \<Rightarrow> string option \<Rightarrow> string + audit_event list" where
  "jsonl_audit_list C file =
     (case file of
        None \<Rightarrow> Inr []
      | Some bs \<Rightarrow> bind_result (read_to_string bs) (\<lambda>content. list_audit_lines C (file_lines content)))"

section \<open>Queries\<close>

record audit_pagination =
  pg_offset :: nat
  pg_limit :: nat

definition audit_pagination_default :: audit_pagination where
  "audit_pagination_default = \<lparr>pg_offset = 0, pg_limit = 100\<rparr>"

record audit_query =
  aq_action_id :: "string option"
  aq_action_kind :: "string option"
  aq_requested_by :: "string option"
  aq_approved_by :: "string option"
  aq_user :: "string option"
  aq_conversation_id :: "string option"
  aq_message_id :: "string option"
  aq_resource :: "string option"
  aq_policy_decision :: "string option"
  aq_result_status :: "string option"
  aq_from :: "datetime option"
  aq_to :: "datetime option"
  aq_pagination :: audit_pagination

record audit_query_result =
  aqr_events :: "audit_event list"
  aqr_total_matched :: nat
  aqr_offset :: nat
  aqr_limit :: nat
  aqr_has_more :: bool

definition option_matches :: "string option \<Rightarrow> string \<Rightarrow> bool" where
  "option_matches expected actual = (case expected of None \<Rightarrow> True | Some x \<Rightarrow> x = actual)"

definition option_matches_optional :: "string option \<Rightarrow> string option \<Rightarrow> bool" where
  "option_matches_optional expected actual = (case expected of None \<Rightarrow> True | Some x \<Rightarrow> Some x = actual)"

definition user_matches :: "string option \<Rightarrow> audit_event \<Rightarrow> bool" where
  "user_matches user e =
     (case user of None \<Rightarrow> True | Some u \<Rightarrow> au_requested_by e = u \<or> au_approved_by e = Some u)"

definition resource_matches :: "string option \<Rightarrow> audit_event \<Rightarrow> bool" where
  "resource_matches resource e =
     (case resource of
        None \<Rightarrow> True
      | Some r \<Rightarrow> contains_str (au_input_summary e) r \<or>
          (case au_result_summary e of None \<Rightarrow> False | Some s \<Rightarrow> contains_str s r))"

definition audit_matches :: "audit_query \<Rightarrow> audit_event \<Rightarrow> bool" where
  "audit_matches q e \<longleftrightarrow>
     option_matches (aq_action_id q) (au_action_id e) \<and>
     option_matches (aq_action_kind q) (au_action_kind e) \<and>
     option_matches (aq_requested_by q) (au_requested_by e) \<and>
     option_matches_optional (aq_approved_by q) (au_approved_by e) \<and>
     user_matches (aq_user q) e \<and>
     option_matches_optional (aq_conversation_id q) (au_conversation_id e) \<and>
     option_matches_optional (aq_message_id q) (au_message_id e) \<and>
     resource_matches (aq_resource q) e \<and>
     option_matches (aq_policy_decision q) (au_policy_decision e) \<and>
     option_matches (aq_result_status q) (au_result_status e) \<and>
     (case aq_from q of None \<Rightarrow> True | Some t \<Rightarrow> t \<le> au_timestamp e) \<and>
     (case aq_to q of None \<Rightarrow> True | Some t \<Rightarrow> au_timestamp e \<le> t)"

definition audit_query_run :: "audit_query \<Rightarrow> audit_event list \<Rightarrow> audit_query_result" where
  "audit_query_run q all_events =
     (let events = sort_key (\<lambda>e. (au_timestamp e, au_audit_id e)) (filter (audit_matches q) all_events);
          total_matched = length events;
          offset = pg_offset (aq_pagination q); limit = pg_limit (aq_pagination q)
      in \<lparr>aqr_events = (if limit = 0 then [] else take limit (drop offset events)),
          aqr_total_matched = total_matched, aqr_offset = offset, aqr_limit = limit,
          aqr_has_more = (min (2 ^ 64 - 1) (offset + limit) < total_matched)\<rparr>)"

section \<open>Exports\<close>

record audit_export_request =
  aer_query :: audit_query
  aer_requested_by :: "string option"
  aer_generated_at :: datetime

record audit_export_manifest =
  aem_schema_version :: nat
  aem_generated_at :: datetime
  aem_generated_by :: "string option"
  aem_event_count :: nat

record audit_export =
  ax_manifest :: audit_export_manifest
  ax_body :: string

text \<open>The pieces between the characters that satisfy \<open>p\<close>; every byte past ASCII is one of them.\<close>

fun pieces :: "(char \<Rightarrow> bool) \<Rightarrow> string \<Rightarrow> string list" where
  "pieces p [] = [[]]"
| "pieces p (c # s) =
     (case pieces p s of
        [] \<Rightarrow> [[c]]
      | w # ws \<Rightarrow> if p c then [] # w # ws else (c # w) # ws)"

definition kb_tokens :: "string \<Rightarrow> string list" where
  "kb_tokens s =
     filter (\<lambda>w. starts_with w ''kb-'')
       (pieces (\<lambda>c. \<not> is_ascii_alphanumeric c \<and> c \<noteq> CHR ''-'' \<and> c \<noteq> CHR ''_'') s)"

definition extract_knowledge_resource_ids :: "audit_event \<Rightarrow> string list" where
  "extract_knowledge_resource_ids e =
     kb_tokens (au_input_summary e) @ kb_tokens (case au_result_summary e of None \<Rightarrow> [] | Some s \<Rightarrow> s)"

definition export_permission_allows ::
    "audit_export_request \<Rightarrow> permission_store option \<Rightarrow> audit_event \<Rightarrow> bool" where
  "export_permission_allows req permissions e =
     (case permissions of
        None \<Rightarrow> True
      | Some ps \<Rightarrow>
          (case aer_requested_by req of
             None \<Rightarrow> False
           | Some user \<Rightarrow>
               list_ex (\<lambda>i. check ps (EnterpriseUserId user)
                   \<lparr>pq_resource_type = ResKnowledgeBase, pq_resource_id = ResourceId i, pq_action = PermAdmin,
                    pq_now = aer_generated_at req\<rparr> = Allow)
                 (extract_knowledge_resource_ids e)))"

definition secret_like :: "string \<Rightarrow> bool" where
  "secret_like token =
     (let lower = to_ascii_lowercase token in
      list_ex (starts_with lower) [''token='', ''password='', ''secret='', ''api_key='', ''credential=''])"

definition redact_token :: "string \<Rightarrow> string" where
  "redact_token token =
     (if secret_like token then takeWhile (\<lambda>c. c \<noteq> CHR ''='') token @ ''=[REDACTED]'' else token)"

definition redact_secret_like_text :: "string \<Rightarrow> string" where
  "redact_secret_like_text s = join_with '' '' (map redact_token (split_whitespace s))"

definition redact_audit_event :: "audit_event \<Rightarrow> audit_event" where
  "redact_audit_event e =
     e\<lparr>au_input_summary := redact_secret_like_text (au_input_summary e),
       au_result_summary := map_option redact_secret_like_text (au_result_summary e)\<rparr>"

definition render_audit_export_jsonl :: "audit_codec \<Rightarrow> audit_event list \<Rightarrow> string" where
  "render_audit_export_jsonl C es = concat (map (\<lambda>e. event_text C e @ [newline]) es)"

definition exported_events ::
    "audit_export_request \<Rightarrow> permission_store option \<Rightarrow> audit_event list \<Rightarrow> audit_event list" where
  "exported_events req permissions all_events =
     map redact_audit_event
       (filter (export_permission_allows req permissions) (aqr_events (audit_query_run (aer_query req) all_events)))"

definition export_filtered ::
    "audit_codec \<Rightarrow> audit_export_request \<Rightarrow> permission_store option \<Rightarrow> audit_event list \<Rightarrow> audit_export" where
  "export_filtered C req permissions all_events =
     (let events = exported_events req permissions all_events in
      \<lparr>ax_manifest =
         \<lparr>aem_schema_version = 1, aem_generated_at = aer_generated_at req, aem_generated_by = aer_requested_by req,
          aem_event_count = length events\<rparr>,
       ax_body = render_audit_export_jsonl C events\<rparr>)"

section \<open>The enterprise mirror\<close>

record enterprise_batch =
  eb_batch_id :: string
  eb_events :: "audit_event list"
  eb_created_at :: datetime

datatype (plugins only: code size) sink_status = SinkAccepted | SinkPartiallyAccepted | SinkRejected | SinkTransientFailure

record sink_result =
  sr_accepted_count :: nat
  sr_status :: sink_status
  sr_message :: "string option"

datatype (plugins only: code size) enterprise_audit_error = PermanentError string | TransientError string

record delivery_failure =
  df_batch_id :: string
  df_audit_ids :: "string list"
  df_reason :: string
  df_transient :: bool
  df_failed_at :: datetime

fun error_reason :: "enterprise_audit_error \<Rightarrow> string" where
  "error_reason (PermanentError r) = r"
| "error_reason (TransientError r) = r"

fun error_is_transient :: "enterprise_audit_error \<Rightarrow> bool" where
  "error_is_transient (TransientError r) = True"
| "error_is_transient (PermanentError r) = False"

fun debug_sink_status :: "sink_status \<Rightarrow> string" where
  "debug_sink_status SinkAccepted = ''Accepted''"
| "debug_sink_status SinkPartiallyAccepted = ''PartiallyAccepted''"
| "debug_sink_status SinkRejected = ''Rejected''"
| "debug_sink_status SinkTransientFailure = ''TransientFailure''"

definition enterprise_batch_id :: "audit_event list \<Rightarrow> string" where
  "enterprise_batch_id es =
     ''enterprise-batch-'' @ (case es of [] \<Rightarrow> ''empty'' | e # _ \<Rightarrow> au_audit_id e) @ ''-'' @ decimal (length es)"

definition batch_new :: "audit_event list \<Rightarrow> string + enterprise_batch" where
  "batch_new es =
     (case es of
        [] \<Rightarrow> Inl ''enterprise audit batch cannot be empty''
      | e # _ \<Rightarrow> Inr \<lparr>eb_batch_id = enterprise_batch_id es, eb_events = es, eb_created_at = au_timestamp e\<rparr>)"

definition batch_audit_ids :: "enterprise_batch \<Rightarrow> string list" where
  "batch_audit_ids b = map au_audit_id (eb_events b)"

text \<open>The local log, the sink and the clock that a mirror works with.\<close>

record ('l, 'x) mirror_deps =
  md_record :: "audit_event \<Rightarrow> 'l \<Rightarrow> (string + unit) \<times> 'l"
  md_send :: "enterprise_batch \<Rightarrow> 'x \<Rightarrow> (enterprise_audit_error + sink_result) \<times> 'x"
  md_now :: "nat \<Rightarrow> datetime"

record ('l, 'x) mirror =
  mi_local :: 'l
  mi_enterprise :: 'x
  mi_batch_size :: nat
  mi_pending :: "audit_event list"
  mi_failures :: "delivery_failure list"
  mi_ticks :: nat

definition mirror_new :: "'l \<Rightarrow> 'x \<Rightarrow> nat \<Rightarrow> ('l, 'x) mirror" where
  "mirror_new l x n =
     \<lparr>mi_local = l, mi_enterprise = x, mi_batch_size = max n 1, mi_pending = [], mi_failures = [], mi_ticks = 0\<rparr>"

definition record_delivery_failure ::
    "('l, 'x) mirror_deps \<Rightarrow> enterprise_batch \<Rightarrow> string \<Rightarrow> bool \<Rightarrow> ('l, 'x) mirror \<Rightarrow> ('l, 'x) mirror" where
  "record_delivery_failure D b reason transient s =
     s\<lparr>mi_failures := mi_failures s @
         [\<lparr>df_batch_id = eb_batch_id b, df_audit_ids = batch_audit_ids b, df_reason = reason,
           df_transient = transient, df_failed_at = md_now D (mi_ticks s)\<rparr>],
       mi_ticks := mi_ticks s + 1\<rparr>"

definition send_enterprise_batch ::
    "('l, 'x) mirror_deps \<Rightarrow> enterprise_batch \<Rightarrow> ('l, 'x) mirror \<Rightarrow> ('l, 'x) mirror" where
  "send_enterprise_batch D b s =
     (let (r, x) = md_send D b (mi_enterprise s); s' = s\<lparr>mi_enterprise := x\<rparr> in
      case r of
        Inr res \<Rightarrow>
          if sr_status res = SinkAccepted then s'
          else record_delivery_failure D b
            (case sr_message res of
               Some m \<Rightarrow> m
             | None \<Rightarrow> ''enterprise audit sink returned '' @ debug_sink_status (sr_status res))
            (sr_status res = SinkTransientFailure) s'
      | Inl e \<Rightarrow> record_delivery_failure D b (error_reason e) (error_is_transient e) s')"

definition mirror_record ::
    "('l, 'x) mirror_deps \<Rightarrow> audit_event \<Rightarrow> ('l, 'x) mirror \<Rightarrow> (string + unit) \<times> ('l, 'x) mirror" where
  "mirror_record D e s =
     (case md_record D e (mi_local s) of
        (Inl err, l) \<Rightarrow> (Inl err, s\<lparr>mi_local := l\<rparr>)
      | (Inr _, l) \<Rightarrow>
          (let pending = mi_pending s @ [e] in
           if mi_batch_size s \<le> length pending
           then (case batch_new pending of
                   Inl err \<Rightarrow> (Inl err, s\<lparr>mi_local := l, mi_pending := []\<rparr>)
                 | Inr b \<Rightarrow> (Inr (), send_enterprise_batch D b (s\<lparr>mi_local := l, mi_pending := []\<rparr>)))
           else (Inr (), s\<lparr>mi_local := l, mi_pending := pending\<rparr>)))"

text \<open>The sink of the tests: a switch for failing, one for the status, and the batches it got.\<close>

record memory_sink =
  ms_batches :: "enterprise_batch list"
  ms_failure :: "enterprise_audit_error option"
  ms_status :: "sink_status option"

definition memory_sink_send ::
    "enterprise_batch \<Rightarrow> memory_sink \<Rightarrow> (enterprise_audit_error + sink_result) \<times> memory_sink" where
  "memory_sink_send b s =
     (case ms_failure s of
        Some e \<Rightarrow> (Inl e, s)
      | None \<Rightarrow>
          (Inr \<lparr>sr_accepted_count = length (eb_events b),
                sr_status = (case ms_status s of None \<Rightarrow> SinkAccepted | Some st \<Rightarrow> st), sr_message = None\<rparr>,
           s\<lparr>ms_batches := ms_batches s @ [b]\<rparr>))"

definition memory_audit_record :: "audit_event \<Rightarrow> audit_event list \<Rightarrow> (string + unit) \<times> audit_event list" where
  "memory_audit_record e es = (Inr (), es @ [e])"

section \<open>Nothing is lost on the way to the enterprise\<close>

text \<open>Recording a list of events; the ones that were accepted, and the mirror after them.\<close>

fun mirror_run ::
    "('l, 'x) mirror_deps \<Rightarrow> audit_event list \<Rightarrow> ('l, 'x) mirror \<Rightarrow> audit_event list \<times> ('l, 'x) mirror" where
  "mirror_run D [] s = ([], s)"
| "mirror_run D (e # es) s =
     (let (r, s1) = mirror_record D e s; (recorded, s2) = mirror_run D es s1
      in (if is_ok r then e # recorded else recorded, s2))"

text \<open>Sending batches one after the other: those the sink did not accept, and the sink after them.\<close>

definition batch_of :: "audit_event list \<Rightarrow> enterprise_batch" where
  "batch_of es = \<lparr>eb_batch_id = enterprise_batch_id es, eb_events = es, eb_created_at = au_timestamp (hd es)\<rparr>"

definition sink_accepts :: "enterprise_audit_error + sink_result \<Rightarrow> bool" where
  "sink_accepts r = (case r of Inl e \<Rightarrow> False | Inr res \<Rightarrow> sr_status res = SinkAccepted)"

fun undelivered ::
    "('l, 'x) mirror_deps \<Rightarrow> audit_event list list \<Rightarrow> 'x \<Rightarrow> audit_event list list \<times> 'x" where
  "undelivered D [] x = ([], x)"
| "undelivered D (bs # bss) x =
     (let (r, x1) = md_send D (batch_of bs) x; (u, x2) = undelivered D bss x1
      in (if sink_accepts r then u else bs # u, x2))"

lemma undelivered_snoc:
  "undelivered D (bss @ [bs]) x =
     (let (u, x1) = undelivered D bss x; (r, x2) = md_send D (batch_of bs) x1
      in (if sink_accepts r then u else u @ [bs], x2))"
  by (induction bss arbitrary: x) (auto simp: Let_def split: prod.splits)

definition mirrors ::
    "('l, 'x) mirror_deps \<Rightarrow> nat \<Rightarrow> 'x \<Rightarrow> audit_event list \<Rightarrow> ('l, 'x) mirror \<Rightarrow> bool" where
  "mirrors D n x recorded s \<longleftrightarrow> mi_batch_size s = n \<and> length (mi_pending s) < n \<and>
     (\<exists>bss. recorded = concat bss @ mi_pending s \<and> list_all (\<lambda>bs. length bs = n) bss \<and>
        undelivered D bss x = (fst (undelivered D bss x), mi_enterprise s) \<and>
        map df_audit_ids (mi_failures s) = map (map au_audit_id) (fst (undelivered D bss x)))"

lemma mirrors_send:
  assumes "mirrors D n x recorded s" and "length (mi_pending s @ [e]) = n"
  shows "mirrors D n x (recorded @ [e])
    (send_enterprise_batch D (batch_of (mi_pending s @ [e])) (s\<lparr>mi_local := l, mi_pending := []\<rparr>))"
proof -
  let ?bs = "mi_pending s @ [e]"
  from assms(1) obtain bss where s: "recorded = concat bss @ mi_pending s" "list_all (\<lambda>bs. length bs = n) bss"
    "undelivered D bss x = (fst (undelivered D bss x), mi_enterprise s)" "mi_batch_size s = n"
    "map df_audit_ids (mi_failures s) = map (map au_audit_id) (fst (undelivered D bss x))"
    by (auto simp: mirrors_def)
  obtain r x1 where r: "md_send D (batch_of ?bs) (mi_enterprise s) = (r, x1)" by (metis surj_pair)
  obtain u where u: "undelivered D bss x = (u, mi_enterprise s)" using s(3) by metis
  have "undelivered D (bss @ [?bs]) x = (if sink_accepts r then u else u @ [?bs], x1)"
    by (simp add: undelivered_snoc u r)
  then show ?thesis
    unfolding mirrors_def using s u r assms(2)
    by (intro conjI exI [of _ "bss @ [?bs]"])
       (auto simp: send_enterprise_batch_def Let_def record_delivery_failure_def batch_audit_ids_def batch_of_def
        sink_accepts_def split: sum.splits if_splits)
qed

lemma mirrors_record:
  assumes "mirrors D n x recorded s" and "mirror_record D e s = (r, s')"
  shows "mirrors D n x (if is_ok r then recorded @ [e] else recorded) s'"
proof -
  obtain lr l where loc: "md_record D e (mi_local s) = (lr, l)" by (metis surj_pair)
  have size: "mi_batch_size s = n" "length (mi_pending s) < n" using assms(1) by (auto simp: mirrors_def)
  show ?thesis
  proof (cases lr)
    case (Inl err)
    with assms loc show ?thesis by (auto simp: mirror_record_def mirrors_def)
  next
    case (Inr u)
    show ?thesis
    proof (cases "length (mi_pending s @ [e]) = n")
      case True
      then have "mirror_record D e s = (Inr (), send_enterprise_batch D (batch_of (mi_pending s @ [e])) (s\<lparr>mi_local := l, mi_pending := []\<rparr>))"
        using size loc Inr by (auto simp: mirror_record_def batch_new_def batch_of_def Let_def split: list.split)
      with mirrors_send [OF assms(1) True] assms(2) show ?thesis by auto
    next
      case False
      then have "mirror_record D e s = (Inr (), s\<lparr>mi_local := l, mi_pending := mi_pending s @ [e]\<rparr>)"
        using size loc Inr by (auto simp: mirror_record_def Let_def)
      with assms False size show ?thesis by (auto simp: mirrors_def)
    qed
  qed
qed

lemma mirrors_run:
  "mirrors D n x recorded s \<Longrightarrow> mirror_run D es s = (recorded', s') \<Longrightarrow> mirrors D n x (recorded @ recorded') s'"
proof (induction es arbitrary: s s' recorded recorded')
  case Nil
  then show ?case by simp
next
  case (Cons e es)
  obtain r s1 where one: "mirror_record D e s = (r, s1)" by (metis surj_pair)
  obtain rs s2 where rest: "mirror_run D es s1 = (rs, s2)" by (metis surj_pair)
  from Cons.IH [OF mirrors_record [OF Cons.prems(1) one] rest] one rest Cons.prems(2) show ?case
    by (auto split: if_splits)
qed

text \<open>
  The mirror neither loses, repeats nor reorders an event. Whatever the local log and
  the sink do, the events that were recorded are, in order, those of the batches handed to
  the sink, all of the configured size, followed by the pending ones, fewer than a batch;
  and the delivery failures name, in order, exactly the batches that the sink did not
  accept.
\<close>

lemma mirror_conserves_events:
  "let (recorded, s) = mirror_run D es (mirror_new l x n) in
     \<exists>bss. recorded = concat bss @ mi_pending s \<and> list_all (\<lambda>bs. length bs = max n 1) bss \<and>
       length (mi_pending s) < max n 1 \<and>
       undelivered D bss x = (fst (undelivered D bss x), mi_enterprise s) \<and>
       map df_audit_ids (mi_failures s) = map (map au_audit_id) (fst (undelivered D bss x))"
proof -
  obtain recorded s where run: "mirror_run D es (mirror_new l x n) = (recorded, s)" by (metis surj_pair)
  have "mirrors D (max n 1) x [] (mirror_new l x n)"
    by (auto simp: mirrors_def mirror_new_def intro!: exI [of _ "[]"])
  from mirrors_run [OF this run] show ?thesis by (auto simp: run mirrors_def)
qed

section \<open>What the chain of hashes protects\<close>

text \<open>What is asked of the hash: no collisions, and a text that is not empty and has no newline.\<close>

definition hash_ideal :: "audit_codec \<Rightarrow> bool" where
  "hash_ideal C \<longleftrightarrow> inj (sha256_hex C) \<and> (\<forall>x. newline \<notin> set (sha256_hex C x) \<and> sha256_hex C x \<noteq> [])"

fun chain_ok :: "audit_codec \<Rightarrow> string option \<Rightarrow> audit_envelope list \<Rightarrow> bool" where
  "chain_ok C previous [] = True"
| "chain_ok C previous (v # vs) \<longleftrightarrow> verify_envelope C v previous = [] \<and> chain_ok C (Some (ae_chain_hash v)) vs"

definition chain_end :: "string option \<Rightarrow> audit_envelope list \<Rightarrow> string option" where
  "chain_end previous vs = (if vs = [] then previous else Some (ae_chain_hash (last vs)))"

lemma chain_ok_append: "chain_ok C p (vs @ ws) \<longleftrightarrow> chain_ok C p vs \<and> chain_ok C (chain_end p vs) ws"
  by (induction vs arbitrary: p) (auto simp: chain_end_def)

lemma verify_envelope_iff:
  "verify_envelope C v previous = [] \<longleftrightarrow>
     ae_event_hash v = compute_hash C (ae_event v) \<and> ae_previous_event_hash v = previous \<and>
     ae_chain_hash v = compute_chain_hash C previous (ae_event_hash v)"
  by (auto simp: verify_envelope_def Let_def when_issue_def split: if_splits)

text \<open>Lines that verify cleanly are the envelopes of a chain, between blank lines.\<close>

lemma clean_lines:
  "verify_audit_lines C n k previous ls = (k', []) \<Longrightarrow>
   \<exists>vs. chain_ok C previous vs \<and> list_audit_lines C ls = Inr (map ae_event vs) \<and> k' = k + length vs \<and>
     (\<forall>rest. last_chain_hash C (rev ls @ rest) =
        (if vs = [] then last_chain_hash C rest else Some (ae_chain_hash (last vs))))"
proof (induction ls arbitrary: n k previous)
  case Nil
  then show ?case by (auto intro!: exI [of _ "[]"])
next
  case (Cons l ls)
  show ?case
  proof (cases "trim l = []")
    case True
    with Cons.prems have "verify_audit_lines C (n + 1) k previous ls = (k', [])" by simp
    from Cons.IH [OF this] obtain vs where "chain_ok C previous vs" "list_audit_lines C ls = Inr (map ae_event vs)"
      "k' = k + length vs" "\<forall>rest. last_chain_hash C (rev ls @ rest) =
        (if vs = [] then last_chain_hash C rest else Some (ae_chain_hash (last vs)))" by blast
    with True show ?thesis by (intro exI [of _ vs]) auto
  next
    case False
    with Cons.prems obtain v where v: "parse_audit_line C (trim l) = Inr (EnvelopeLine v)"
      "verify_envelope C v previous = []"
      "verify_audit_lines C (n + 1) (k + 1) (Some (ae_chain_hash v)) ls = (k', [])"
      by (auto split: sum.splits audit_line.splits prod.splits)
    from Cons.IH [OF v(3)] obtain vs where vs: "chain_ok C (Some (ae_chain_hash v)) vs"
      "list_audit_lines C ls = Inr (map ae_event vs)" "k' = k + 1 + length vs"
      "\<forall>rest. last_chain_hash C (rev ls @ rest) =
        (if vs = [] then last_chain_hash C rest else Some (ae_chain_hash (last vs)))" by blast
    with v False show ?thesis by (intro exI [of _ "v # vs"]) (auto simp: bind_result_def)
  qed
qed

lemma split_at_newline:
  "newline \<notin> set a \<Longrightarrow> newline \<notin> set b \<Longrightarrow> a @ [newline] @ x = b @ [newline] @ y \<Longrightarrow> a = b \<and> x = y"
proof (induction a arbitrary: b)
  case Nil
  then show ?case by (cases b) auto
next
  case (Cons c a)
  then show ?case by (cases b) auto
qed

lemma chain_binds:
  assumes ideal: "hash_ideal C"
  shows "chain_ok C None vs \<Longrightarrow> chain_ok C None ws \<Longrightarrow> chain_end None vs = chain_end None ws \<Longrightarrow>
    inj_on (event_text C) (ae_event ` (set vs \<union> set ws)) \<Longrightarrow> map ae_event vs = map ae_event ws"
proof (induction vs arbitrary: ws rule: rev_induct)
  case Nil
  then show ?case by (auto simp: chain_end_def split: if_splits)
next
  case (snoc v vs)
  then obtain w ws' where ws: "ws = ws' @ [w]" by (cases ws rule: rev_cases) (auto simp: chain_end_def)
  let ?text = "\<lambda>p. case p of None \<Rightarrow> [] | Some h \<Rightarrow> h"
  have sha: "sha256_hex C x = sha256_hex C y \<longleftrightarrow> x = y" "newline \<notin> set (sha256_hex C x)" "sha256_hex C x \<noteq> []" for x y
    using ideal by (auto simp: hash_ideal_def inj_eq)
  have ends: "\<exists>x. h = sha256_hex C x" if "chain_end None us = Some h" "chain_ok C None us" for us h
    using that by (cases us rule: rev_cases)
      (auto simp: chain_end_def chain_ok_append verify_envelope_iff compute_chain_hash_def)
  have free: "newline \<notin> set (?text (chain_end None us))" if "chain_ok C None us" for us
  proof (cases "chain_end None us")
    case (Some h)
    with ends [OF Some that] sha(2) show ?thesis by auto
  qed simp
  from snoc.prems ws have v: "chain_ok C None vs" "verify_envelope C v (chain_end None vs) = []"
    and w: "chain_ok C None ws'" "verify_envelope C w (chain_end None ws') = []"
    by (simp_all add: chain_ok_append)
  have "ae_chain_hash v = ae_chain_hash w" using snoc.prems(3) ws by (simp add: chain_end_def)
  with v(2) w(2) have texts: "?text (chain_end None vs) @ [newline] @ compute_hash C (ae_event v) =
      ?text (chain_end None ws') @ [newline] @ compute_hash C (ae_event w)"
    by (simp add: verify_envelope_iff compute_chain_hash_def sha(1))
  then have eq: "?text (chain_end None vs) = ?text (chain_end None ws')"
      "compute_hash C (ae_event v) = compute_hash C (ae_event w)"
    using split_at_newline [OF free [OF v(1)] free [OF w(1)] texts] by simp_all
  have "\<exists>x. h = sha256_hex C x" if "chain_end None vs = Some h \<or> chain_end None ws' = Some h" for h
    using that ends [OF _ v(1)] ends [OF _ w(1)] by blast
  with eq(1) sha(3) have "chain_end None vs = chain_end None ws'"
    by (cases "chain_end None vs"; cases "chain_end None ws'"; fastforce)
  with snoc.IH [OF v(1) w(1)] snoc.prems(4) ws have "map ae_event vs = map ae_event ws'"
    by (auto intro: inj_on_subset)
  moreover have "event_text C (ae_event v) = event_text C (ae_event w)"
    using eq(2) by (simp add: compute_hash_def sha(1))
  then have "ae_event v = ae_event w"
    by (rule inj_onD [OF snoc.prems(4)]) (simp_all add: ws)
  ultimately show ?case using ws by simp
qed

section \<open>The JSONL sink keeps the chain\<close>

lemma clean_last:
  assumes "verify_audit_lines C n k previous ls = (k', [])"
  shows "\<exists>vs :: audit_envelope list. \<forall>rest. last_chain_hash C (rev ls @ rest) =
    (if vs = [] then last_chain_hash C rest else Some (ae_chain_hash (last vs)))"
  using clean_lines [OF assms] by (elim exE conjE) (rule exI, assumption)

lemma clean_lines_snoc:
  assumes "trim l \<noteq> []" and "parse_audit_line C (trim l) = Inr (EnvelopeLine v)"
  shows "verify_audit_lines C n k p ls = (k', []) \<Longrightarrow>
    verify_audit_lines C n k p (ls @ [l]) =
      (k' + 1, verify_envelope C v (case last_chain_hash C (rev ls) of None \<Rightarrow> p | Some h \<Rightarrow> Some h)) \<and>
    list_audit_lines C (ls @ [l]) = bind_result (list_audit_lines C ls) (\<lambda>es. Inr (es @ [ae_event v]))"
proof (induction ls arbitrary: n k p)
  case Nil
  with assms show ?case by (auto simp: bind_result_def)
next
  case (Cons x xs)
  show ?case
  proof (cases "trim x = []")
    case True
    with Cons.prems have xs: "verify_audit_lines C (n + 1) k p xs = (k', [])" by simp
    from clean_lines [OF xs] have "last_chain_hash C (rev xs @ [x]) = last_chain_hash C (rev xs @ [])"
      using True by (metis last_chain_hash.simps)
    with Cons.IH [OF xs] True show ?thesis by simp
  next
    case False
    with Cons.prems obtain w where w: "parse_audit_line C (trim x) = Inr (EnvelopeLine w)"
      "verify_envelope C w p = []"
      "verify_audit_lines C (n + 1) (k + 1) (Some (ae_chain_hash w)) xs = (k', [])"
      by (auto split: sum.splits audit_line.splits prod.splits)
    obtain vs :: "audit_envelope list" where vs: "\<forall>rest. last_chain_hash C (rev xs @ rest) =
        (if vs = [] then last_chain_hash C rest else Some (ae_chain_hash (last vs)))"
      using clean_last [OF w(3)] by (elim exE)
    have "last_chain_hash C (rev (x # xs)) = (case last_chain_hash C (rev xs) of None \<Rightarrow> Some (ae_chain_hash w) | Some h \<Rightarrow> Some h)"
      using vs [rule_format, of "[x]"] vs [rule_format, of "[]"] False w(1) by simp
    with Cons.IH [OF w(3)] w False show ?thesis
      by (auto simp: bind_result_def split: option.splits sum.splits)
  qed
qed

text \<open>The clean log of a list of events: it verifies, lists them, and a line can be started in it.\<close>

definition clean_log :: "audit_codec \<Rightarrow> string option \<Rightarrow> audit_event list \<Rightarrow> bool" where
  "clean_log C file es \<longleftrightarrow>
     (\<exists>r. verify_audit_file C file = Inr r \<and> arp_verified r \<and> arp_event_count r = length es) \<and>
     jsonl_audit_list C file = Inr es \<and> at_line_start file"

text \<open>What serde promises of the line it writes for an envelope.\<close>

definition envelope_ok :: "audit_codec \<Rightarrow> audit_envelope \<Rightarrow> bool" where
  "envelope_ok C v \<longleftrightarrow>
     (let t = envelope_text C v in
      newline \<notin> set t \<and> utf8_valid t \<and> t \<noteq> [] \<and> trim t = t \<and> last t \<noteq> CHR 0x0D \<and>
      parse_audit_line C t = Inr (EnvelopeLine v))"

definition lines_in :: "string option \<Rightarrow> string list" where
  "lines_in file = (case file of None \<Rightarrow> [] | Some bs \<Rightarrow> file_lines bs)"

lemma clean_log_iff:
  "clean_log C file es \<longleftrightarrow>
     (case file of None \<Rightarrow> True | Some bs \<Rightarrow> utf8_valid bs) \<and> at_line_start file \<and>
     (\<exists>k. verify_audit_lines C 1 0 None (lines_in file) = (k, []) \<and> k = length es) \<and>
     list_audit_lines C (lines_in file) = Inr es"
  by (auto simp: clean_log_def verify_audit_file_def jsonl_audit_list_def lines_in_def report_clean_def
      report_with_issues_def read_to_string_def bind_result_def at_line_start_def
      split: option.splits if_splits prod.splits)

lemma clean_logI:
  "utf8_valid bs \<Longrightarrow> at_line_start (Some bs) \<Longrightarrow> verify_audit_lines C 1 0 None (lines_in (Some bs)) = (length es, []) \<Longrightarrow>
   list_audit_lines C (lines_in (Some bs)) = Inr es \<Longrightarrow> clean_log C (Some bs) es"
  by (auto simp: clean_log_iff)

text \<open>
  Recording to the JSONL audit log and reading it back. On a log that verifies, an
  event is recorded without error, as long as the line of its envelope survives encoding;
  the log then verifies again, counts one event more and lists the old events followed by
  the new one. So a log that starts out absent verifies for ever.
\<close>

lemma audit_log_roundtrip:
  assumes "clean_log C file es" and "previous_chain_hash C file = Inr previous"
    and "envelope_ok C (envelope_new C e previous)"
  shows "\<exists>file'. jsonl_audit_record C e file = (Inr (), file') \<and> clean_log C file' (es @ [e])"
proof -
  define v where "v = envelope_new C e previous"
  define bs where "bs = (case file of None \<Rightarrow> [] | Some bs \<Rightarrow> bs)"
  note ok = assms(3) [folded v_def, unfolded envelope_ok_def Let_def]
  have utf8: "utf8_valid bs" and start: "at_line_start (Some bs)"
    and clean: "verify_audit_lines C 1 0 None (file_lines bs) = (length es, [])"
      "list_audit_lines C (file_lines bs) = Inr es"
    using assms(1) unfolding clean_log_iff
    by (auto simp: bs_def lines_in_def file_lines_def at_line_start_def split: option.splits)
  have prev: "previous = last_chain_hash C (rev (file_lines bs))"
    using assms(2) utf8
    by (auto simp: previous_chain_hash_def bs_def read_to_string_def file_lines_def bind_result_def split: option.splits)
  have rec: "jsonl_audit_record C e file = (Inr (), Some (bs @ envelope_text C v @ [newline]))"
    using assms(2) by (simp add: jsonl_audit_record_def bs_def v_def)
  have lines: "file_lines (bs @ envelope_text C v @ [newline]) = file_lines bs @ [envelope_text C v]"
    using file_lines_append(1) [OF start, of "envelope_text C v"] ok by (simp add: drop_cr_def)
  have check: "verify_envelope C v (case last_chain_hash C (rev (file_lines bs)) of None \<Rightarrow> None | Some h \<Rightarrow> Some h) = []"
    by (simp add: verify_envelope_iff v_def envelope_new_def prev split: option.split)
  have "utf8_valid (bs @ envelope_text C v @ [newline])"
    using utf8 ok by (simp add: utf8_valid_append ascii_utf8_valid)
  moreover have "ae_event v = e" by (simp add: v_def envelope_new_def)
  ultimately have "clean_log C (Some (bs @ envelope_text C v @ [newline])) (es @ [e])"
    unfolding clean_log_iff
    using clean_lines_snoc [of "envelope_text C v" C v, OF _ _ clean(1)] ok check clean(2)
      file_lines_append(2) [OF start, of "envelope_text C v"]
    by (auto simp: lines_in_def lines bind_result_def)
  with rec show ?thesis by blast
qed

text \<open>
  C19. The last chain hash commits to the whole log. With a hash without collisions, two
  files that both verify and end in the same chain hash list the same events: changing,
  dropping, adding or reordering an event anywhere shows in a failed verification or in
  the last hash, for whoever has kept it.
\<close>

theorem audit_chain_binds_history:
  assumes "hash_ideal C" and "clean_log C f es" and "clean_log C g es'"
    and "previous_chain_hash C f = previous_chain_hash C g" and "inj_on (event_text C) (set es \<union> set es')"
  shows "es = es'"
proof -
  have chain: "\<exists>vs. chain_ok C None vs \<and> es'' = map ae_event vs \<and> previous_chain_hash C f' = Inr (chain_end None vs)"
    if "clean_log C f' es''" for f' es''
  proof -
    from that have clean: "verify_audit_lines C 1 0 None (lines_in f') = (length es'', [])"
      and l: "list_audit_lines C (lines_in f') = Inr es''"
      and utf8: "case f' of None \<Rightarrow> True | Some bs \<Rightarrow> utf8_valid bs"
      by (auto simp: clean_log_iff)
    obtain vs where "chain_ok C None vs" "list_audit_lines C (lines_in f') = Inr (map ae_event vs)"
      "\<forall>rest. last_chain_hash C (rev (lines_in f') @ rest) =
        (if vs = [] then last_chain_hash C rest else Some (ae_chain_hash (last vs)))"
      using clean_lines [OF clean] by (elim exE conjE) blast
    moreover from this(3) [rule_format, of "[]"] have "previous_chain_hash C f' = Inr (chain_end None vs)"
      using utf8 by (auto simp: previous_chain_hash_def lines_in_def read_to_string_def chain_end_def bind_result_def split: option.splits if_splits)
    ultimately show ?thesis using l by auto
  qed
  obtain vs ws where v: "chain_ok C None vs" "es = map ae_event vs" "previous_chain_hash C f = Inr (chain_end None vs)"
    and w: "chain_ok C None ws" "es' = map ae_event ws" "previous_chain_hash C g = Inr (chain_end None ws)"
    using chain [OF assms(2)] chain [OF assms(3)] by blast
  have "chain_end None vs = chain_end None ws" using v(3) w(3) assms(4) by simp
  with chain_binds [OF assms(1) v(1) w(1)] assms(5) v(2) w(2) show ?thesis by (simp add: image_Un)
qed

text \<open>
  Nothing in the file itself shows that its end is missing: every prefix of a clean chain
  is a clean chain.
\<close>

lemma truncation_undetected: "chain_ok C None (vs @ ws) \<Longrightarrow> chain_ok C None vs"
  by (simp add: chain_ok_append)

text \<open>A concrete hash without collisions and a codec for one event.\<close>

definition demo_hash :: "string \<Rightarrow> string" where
  "demo_hash s = ''h'' @ concat (map (\<lambda>c. [char_of (65 + (of_char c :: nat) div 16), char_of (65 + (of_char c :: nat) mod 16)]) s)"

lemma char_of_inj: "n < 256 \<Longrightarrow> m < 256 \<Longrightarrow> char_of (n :: nat) = (char_of m :: char) \<Longrightarrow> n = m"
  by (metis of_char_of mod_less)

lemma nibbles: "65 + (of_char c :: nat) div 16 < 81" "65 + (of_char c :: nat) mod 16 < 81"
  using less_mult_imp_div_less [of "(of_char c :: nat)" 16 16] by auto

lemma demo_hash_inj: "demo_hash s = demo_hash t \<Longrightarrow> s = t"
proof (induction s arbitrary: t)
  case Nil
  then show ?case by (cases t) (auto simp: demo_hash_def)
next
  case (Cons c s)
  then obtain d t' where t: "t = d # t'" by (cases t) (auto simp: demo_hash_def)
  have "char_of (65 + (of_char c :: nat) div 16) = (char_of (65 + (of_char d :: nat) div 16) :: char)"
    "char_of (65 + (of_char c :: nat) mod 16) = (char_of (65 + (of_char d :: nat) mod 16) :: char)"
    "demo_hash s = demo_hash t'"
    using Cons.prems t by (auto simp: demo_hash_def)
  moreover have "65 + (of_char x :: nat) div 16 < 256" "65 + (of_char x :: nat) mod 16 < 256" for x :: char
    using nibbles [of x] by auto
  ultimately have "(of_char c :: nat) div 16 = of_char d div 16" "(of_char c :: nat) mod 16 = of_char d mod 16"
    by (auto dest!: char_of_inj)
  then have "(of_char c :: nat) = of_char d" by (metis div_mult_mod_eq)
  with Cons.IH [OF \<open>demo_hash s = demo_hash t'\<close>] t show ?case by (simp add: of_char_eq_iff)
qed

definition demo_audit_event :: audit_event where
  "demo_audit_event =
     \<lparr>au_audit_id = ''audit-a1-completed'', au_action_id = ''a1'', au_action_kind = ''mail.read'',
      au_requested_by = ''bot'', au_approved_by = None, au_input_summary = ''{}'', au_side_effect = ''ReadOnly'',
      au_policy_decision = ''allow'', au_result_status = ''completed'', au_result_summary = Some ''ok'',
      au_conversation_id = None, au_message_id = None, au_timestamp = 7\<rparr>"

definition demo_audit_codec :: audit_codec where
  "demo_audit_codec =
     \<lparr>event_text = au_audit_id, envelope_text = (\<lambda>v. ''{v}''),
      dec_json = (\<lambda>s. if s = ''{v}'' then Inr (JObject [(''event'', JNull), (''event_hash'', JNull)]) else Inl ''eof''),
      dec_envelope = (\<lambda>j. Inr
        \<lparr>ae_schema_version = 1, ae_event = demo_audit_event, ae_event_hash = demo_hash (au_audit_id demo_audit_event),
         ae_previous_event_hash = None,
         ae_chain_hash = demo_hash ([newline] @ demo_hash (au_audit_id demo_audit_event))\<rparr>),
      dec_event = (\<lambda>j. Inl ''missing field''), sha256_hex = demo_hash\<rparr>"

lemma demo_parse:
  "parse_audit_line demo_audit_codec ''{v}'' = Inr (EnvelopeLine (envelope_new demo_audit_codec demo_audit_event None))"
  by (simp add: parse_audit_line_def demo_audit_codec_def envelope_new_def compute_hash_def compute_chain_hash_def
      bind_result_def)

lemma demo_trim: "trim ''{v}'' = ''{v}''"
  by code_simp

lemma demo_envelope_ok: "envelope_ok demo_audit_codec (envelope_new demo_audit_codec demo_audit_event None)"
proof -
  have "utf8_valid ''{v}''" by code_simp
  moreover have "envelope_text demo_audit_codec v = ''{v}''" for v by (simp add: demo_audit_codec_def)
  ultimately show ?thesis by (simp add: envelope_ok_def demo_parse demo_trim)
qed

text \<open>The line of the event, with and without a blank line before it, is a clean log.\<close>

lemma demo_lines_clean:
  assumes "file_lines bs = ls" and "ls \<in> {[''{v}''], [[], ''{v}'']}" and "utf8_valid bs" and "at_line_start (Some bs)"
  shows "clean_log demo_audit_codec (Some bs) [demo_audit_event]"
    and "previous_chain_hash demo_audit_codec (Some bs) =
      Inr (Some (ae_chain_hash (envelope_new demo_audit_codec demo_audit_event None)))"
proof -
  have ok: "verify_envelope demo_audit_codec (envelope_new demo_audit_codec demo_audit_event None) None = []"
    by (simp add: verify_envelope_iff envelope_new_def)
  show "clean_log demo_audit_codec (Some bs) [demo_audit_event]"
    using assms ok by (intro clean_logI) (auto simp: lines_in_def demo_parse demo_trim bind_result_def envelope_new_def)
  show "previous_chain_hash demo_audit_codec (Some bs) =
      Inr (Some (ae_chain_hash (envelope_new demo_audit_codec demo_audit_event None)))"
    using assms by (auto simp: previous_chain_hash_def read_to_string_def bind_result_def demo_parse demo_trim)
qed

lemma audit_log_roundtrip_witness:
  "\<exists>file'. jsonl_audit_record demo_audit_codec demo_audit_event None = (Inr (), file') \<and>
     clean_log demo_audit_codec file' [demo_audit_event]"
proof -
  have "clean_log demo_audit_codec None []"
    by (simp add: clean_log_iff lines_in_def at_line_start_def)
  moreover have "previous_chain_hash demo_audit_codec None = Inr None" by (simp add: previous_chain_hash_def)
  ultimately show ?thesis using audit_log_roundtrip [OF _ _ demo_envelope_ok] by fastforce
qed

theorem audit_chain_binds_history_witness:
  "previous_chain_hash demo_audit_codec (Some (''{v}'' @ [newline])) =
     previous_chain_hash demo_audit_codec (Some ([newline] @ ''{v}'' @ [newline])) \<and>
   [demo_audit_event] = [demo_audit_event]"
proof -
  let ?f = "Some (''{v}'' @ [newline])" and ?g = "Some ([newline] @ ''{v}'' @ [newline])"
  have ideal: "hash_ideal demo_audit_codec"
  proof -
    have "char_of (65 + (of_char c :: nat) div 16) \<noteq> newline" "char_of (65 + (of_char c :: nat) mod 16) \<noteq> newline" for c
    proof -
      have "newline = (char_of (10 :: nat) :: char)" by code_simp
      then show "char_of (65 + (of_char c :: nat) div 16) \<noteq> newline" "char_of (65 + (of_char c :: nat) mod 16) \<noteq> newline"
        using nibbles [of c] char_of_inj [of "65 + (of_char c :: nat) div 16" 10]
          char_of_inj [of "65 + (of_char c :: nat) mod 16" 10] by auto
    qed
    then have "newline \<noteq> char_of (65 + (of_char c :: nat) div 16)" "newline \<noteq> char_of (65 + (of_char c :: nat) mod 16)" for c
      by metis+
    then have "newline \<notin> set (demo_hash x)" for x by (auto simp del: char_of_eq_iff simp: demo_hash_def)
    moreover have "inj demo_hash" using demo_hash_inj by (auto simp: inj_def)
    moreover have "demo_hash x \<noteq> []" for x by (simp add: demo_hash_def)
    ultimately show ?thesis by (simp add: hash_ideal_def demo_audit_codec_def)
  qed
  have f: "file_lines (''{v}'' @ [newline]) = [''{v}'']" "utf8_valid (''{v}'' @ [newline])" "at_line_start ?f"
    by code_simp+
  have g: "file_lines ([newline] @ ''{v}'' @ [newline]) = [[], ''{v}'']"
      "utf8_valid ([newline] @ ''{v}'' @ [newline])" "at_line_start ?g"
    by code_simp+
  note cf = demo_lines_clean [OF f(1) _ f(2,3)] and cg = demo_lines_clean [OF g(1) _ g(2,3)]
  have prev: "previous_chain_hash demo_audit_codec ?f = previous_chain_hash demo_audit_codec ?g"
    using cf(2) cg(2) by (metis insertCI)
  show ?thesis
    by (intro conjI prev audit_chain_binds_history [OF ideal cf(1) cg(1) prev]) simp_all
qed

end
