(* ===== verification/Sync_Runtime.thy ===== *)
theory Sync_Runtime
  imports Model_Types "HOL-Library.Word" "HOL-Library.Multiset"
begin

text \<open>
  Synchronization between devices (\<open>sync-runtime/src/lib.rs\<close>) and the trust between them
  (\<open>device-pairing-core/src/lib.rs\<close>): the reducer of server events for knowledge entries,
  manifests with their difference and merge, the object store, the transfer encryption, the
  memory transport and the ownership filter.

  A hash table is walked in an order that nothing promises: where a result lists what a
  walk found, the order is a parameter \<open>ho\<close>. Decoding a payload, the default hasher and
  UUIDs are parameters, a clock reading is an argument. Bytes are 8-bit words.
\<close>

unbundle bit_operations_syntax

type_synonym byte_string = "8 word list"

section \<open>Server events\<close>

record server_sync_cursor =
  last_applied_sequence :: nat

definition sync_cursor_beginning :: server_sync_cursor where
  "sync_cursor_beginning = \<lparr>last_applied_sequence = 0\<rparr>"

datatype (plugins only: code size) server_object_type =
    SoProfile | SoConversation | SoParticipant | SoMessage | SoSkill | SoAgent | SoServer | SoKnowledge
  | SoContact | SoPlugin

datatype (plugins only: code size) server_operation =
    SyCreated | SyUpdated | SyDeleted | SyEnabled | SyDisabled | SyAdded | SyRemoved | SyInstalled | SyUninstalled
  | SyPermissionGranted | SyPermissionRevoked | SyRead | SyReactionAdded | SyReactionRemoved

record server_sync_event =
  se_id :: string
  se_user_id :: string
  se_device_id :: string
  se_event_type :: string
  se_schema_version :: nat
  se_object_type :: server_object_type
  se_object_id :: string
  se_operation :: server_operation
  se_source_device_id :: string
  se_client_event_id :: "string option"
  se_payload :: json
  se_timestamp :: datetime
  se_sequence :: nat

definition should_apply :: "server_sync_cursor \<Rightarrow> server_sync_event \<Rightarrow> bool" where
  "should_apply c e \<longleftrightarrow> last_applied_sequence c < se_sequence e"

definition advance_to :: "nat \<Rightarrow> server_sync_cursor \<Rightarrow> server_sync_cursor" where
  "advance_to n c = (if last_applied_sequence c < n then \<lparr>last_applied_sequence = n\<rparr> else c)"

datatype (plugins only: code size) knowledge_entry_status = EntryActive | EntryDeleted

record knowledge_payload =
  kp_entry_id :: string
  kp_object_id :: string
  kp_title :: string
  kp_content :: string
  kp_summary :: string
  kp_tags :: "string list"
  kp_metadata :: json
  kp_source_uri :: string
  kp_status :: knowledge_entry_status
  kp_version :: nat
  kp_content_hash :: string
  kp_updated_by_device_id :: string
  kp_updated_at :: datetime
  kp_deleted_at :: "datetime option"

record knowledge_projection =
  kn_cursor :: server_sync_cursor
  kn_entries :: "(string, knowledge_payload) hmap"

definition knowledge_projection_new :: knowledge_projection where
  "knowledge_projection_new = \<lparr>kn_cursor = sync_cursor_beginning, kn_entries = []\<rparr>"

datatype (plugins only: code size) sync_apply_error =
    UnsupportedSchemaVersion nat nat
  | UnexpectedObjectType server_object_type
  | UnexpectedOperation server_operation
  | InvalidPayload string
  | ObjectIdMismatch string string
  | DeleteWithoutTombstone string
  | SameVersionMismatch string nat

definition ensure_supported :: "server_sync_event \<Rightarrow> sync_apply_error + unit" where
  "ensure_supported e = ensure (se_schema_version e = 1) (UnsupportedSchemaVersion 1 (se_schema_version e))"

text \<open>What an accepted payload does to the entries.\<close>

definition upsert_entry ::
    "string \<Rightarrow> knowledge_payload \<Rightarrow> (string, knowledge_payload) hmap \<Rightarrow>
     sync_apply_error + (string, knowledge_payload) hmap" where
  "upsert_entry i p entries =
     (case m_get entries i of
        None \<Rightarrow> Inr (hm_put i p entries)
      | Some local \<Rightarrow>
          if kp_version local < kp_version p then Inr (hm_put i p entries)
          else if kp_version p = kp_version local then
            (if kp_status p \<noteq> kp_status local \<or> kp_content_hash p \<noteq> kp_content_hash local
             then Inl (SameVersionMismatch i (kp_version p)) else Inr entries)
          else Inr entries)"

definition apply_sync_event ::
    "(json \<Rightarrow> string + knowledge_payload) \<Rightarrow> server_sync_event \<Rightarrow> knowledge_projection \<Rightarrow>
     (sync_apply_error + unit) \<times> knowledge_projection" where
  "apply_sync_event dec e s =
     (if \<not> should_apply (kn_cursor s) e then (Inr (), s)
      else
        (case (bind_result (ensure_supported e) (\<lambda>_.
               bind_result (ensure (se_object_type e = SoKnowledge) (UnexpectedObjectType (se_object_type e))) (\<lambda>_.
               bind_result (ensure (se_operation e \<in> {SyCreated, SyUpdated, SyDeleted})
                 (UnexpectedOperation (se_operation e))) (\<lambda>_.
               bind_result (case dec (se_payload e) of Inl m \<Rightarrow> Inl (InvalidPayload m) | Inr p \<Rightarrow> Inr p) (\<lambda>p.
               bind_result (ensure (kp_entry_id p = se_object_id e) (ObjectIdMismatch (se_object_id e) (kp_entry_id p))) (\<lambda>_.
               bind_result (ensure (\<not> (se_operation e = SyDeleted \<and> kp_status p \<noteq> EntryDeleted))
                 (DeleteWithoutTombstone (se_object_id e))) (\<lambda>_.
               upsert_entry (se_object_id e) p (kn_entries s)))))))) of
           Inl err \<Rightarrow> (Inl err, s)
         | Inr entries \<Rightarrow> (Inr (), \<lparr>kn_cursor = advance_to (se_sequence e) (kn_cursor s), kn_entries = entries\<rparr>)))"

fun apply_sync_events ::
    "(json \<Rightarrow> string + knowledge_payload) \<Rightarrow> server_sync_event list \<Rightarrow> knowledge_projection \<Rightarrow>
     (sync_apply_error + unit) \<times> knowledge_projection" where
  "apply_sync_events dec [] s = (Inr (), s)"
| "apply_sync_events dec (e # es) s = andThen (apply_sync_event dec e) (\<lambda>_. apply_sync_events dec es) s"

section \<open>Devices and trust\<close>

datatype (plugins only: code size) device_id = DeviceId string

fun device_text :: "device_id \<Rightarrow> string" where
  "device_text (DeviceId s) = s"

definition pairing_code :: "device_id \<Rightarrow> device_id \<Rightarrow> string" where
  "pairing_code a b =
     (let (first, second) = (if device_text a \<le> device_text b then (a, b) else (b, a))
      in ''pair-'' @ device_text first @ ''-'' @ device_text second)"

datatype (plugins only: code size) pairing_status =
    PairingPending | HandshakeInProgress | PairingCompleted | PairingFailed string | PairingCancelled

record pairing_session =
  pse_session_id :: string
  pse_code :: string
  pse_initiator :: device_id
  pse_peer :: "device_id option"
  pse_status :: pairing_status
  pse_created_at :: datetime
  pse_updated_at :: datetime

datatype (plugins only: code size) trust_level = TrustBasic | TrustFull | TrustTemporary | TrustRevoked

record trust_record =
  tr_device_id :: device_id
  tr_peer_device_id :: device_id
  tr_trust_level :: trust_level
  tr_paired_at :: datetime
  tr_last_verified_at :: "datetime option"
  tr_pairing_session_id :: string

datatype (plugins only: code size) pairing_error = SessionNotFound string | DeviceNotTrustedYet string

record device_trust_store =
  dts_records :: "(device_id, trust_record) hmap"
  dts_sessions :: "(string, pairing_session) hmap"

definition upsert_trust :: "trust_record \<Rightarrow> device_trust_store \<Rightarrow> device_trust_store" where
  "upsert_trust r s = s\<lparr>dts_records := hm_put (tr_device_id r) r (dts_records s)\<rparr>"

definition is_trusted :: "device_trust_store \<Rightarrow> device_id \<Rightarrow> bool" where
  "is_trusted s d = (case m_get (dts_records s) d of None \<Rightarrow> False | Some r \<Rightarrow> tr_trust_level r \<noteq> TrustRevoked)"

definition revoke_trust :: "device_id \<Rightarrow> device_trust_store \<Rightarrow> (pairing_error + unit) \<times> device_trust_store" where
  "revoke_trust d s =
     (case m_get (dts_records s) d of
        None \<Rightarrow> (Inl (DeviceNotTrustedYet (device_text d)), s)
      | Some r \<Rightarrow> (Inr (), s\<lparr>dts_records := m_modify d (\<lambda>r. r\<lparr>tr_trust_level := TrustRevoked\<rparr>) (dts_records s)\<rparr>))"

definition store_session :: "pairing_session \<Rightarrow> device_trust_store \<Rightarrow> device_trust_store" where
  "store_session p s = s\<lparr>dts_sessions := hm_put (pse_session_id p) p (dts_sessions s)\<rparr>"

definition update_session :: "pairing_session \<Rightarrow> device_trust_store \<Rightarrow> (pairing_error + unit) \<times> device_trust_store" where
  "update_session p s =
     (if \<not> m_contains (dts_sessions s) (pse_session_id p) then (Inl (SessionNotFound (pse_session_id p)), s)
      else (Inr (), store_session p s))"

definition list_trusted_devices :: "device_trust_store \<Rightarrow> trust_record list" where
  "list_trusted_devices s = m_values (dts_records s)"

section \<open>Manifests\<close>

datatype (plugins only: code size) sync_object_id = SyncObjectId string

datatype (plugins only: code size) sync_object_kind =
    PersonalKnowledgeEntry | PersonProfile | RelationshipProfile | QuestionLedgerEntry | AnswerCachePackage
  | AssetMetadataObject | ConversationMetadata

datatype (plugins only: code size) merge_policy = AppendOnly | LastWriteWins

record sync_record =
  sr_object_id :: sync_object_id
  sr_kind :: sync_object_kind
  sr_source_device :: device_id
  sr_version_hash :: string
  sr_updated_at :: datetime
  sr_merge_policy :: merge_policy
  sr_payload :: json

record sync_manifest =
  sm_device_id :: device_id
  sm_agent_os_id :: string
  sm_objects :: "(sync_object_id, sync_record) hmap"
  sm_captured_at :: datetime

definition sync_manifest_new :: "device_id \<Rightarrow> string \<Rightarrow> datetime \<Rightarrow> sync_manifest" where
  "sync_manifest_new d os now = \<lparr>sm_device_id = d, sm_agent_os_id = os, sm_objects = [], sm_captured_at = now\<rparr>"

definition manifest_upsert :: "sync_record \<Rightarrow> sync_manifest \<Rightarrow> sync_manifest" where
  "manifest_upsert r m = m\<lparr>sm_objects := hm_put (sr_object_id r) r (sm_objects m)\<rparr>"

definition manifest_remove :: "sync_object_id \<Rightarrow> sync_manifest \<Rightarrow> sync_record option \<times> sync_manifest" where
  "manifest_remove i m = (m_get (sm_objects m) i, m\<lparr>sm_objects := m_remove i (sm_objects m)\<rparr>)"

record manifest_diff =
  md_local_only :: "sync_object_id list"
  md_remote_only :: "sync_object_id list"
  md_conflicting :: "sync_object_id list"
  md_in_sync :: "sync_object_id list"

type_synonym walk_order = "sync_object_id list \<Rightarrow> sync_object_id list"

definition version_at :: "sync_manifest \<Rightarrow> sync_object_id \<Rightarrow> string option" where
  "version_at m i = map_option sr_version_hash (m_get (sm_objects m) i)"

definition diff_manifests :: "walk_order \<Rightarrow> sync_manifest \<Rightarrow> sync_manifest \<Rightarrow> manifest_diff" where
  "diff_manifests ho local remote =
     (let local_ids = ho (m_keys (sm_objects local)); remote_ids = ho (m_keys (sm_objects remote));
          common = filter (m_contains (sm_objects remote)) local_ids
      in \<lparr>md_local_only = filter (\<lambda>i. \<not> m_contains (sm_objects remote) i) local_ids,
          md_remote_only = filter (\<lambda>i. \<not> m_contains (sm_objects local) i) remote_ids,
          md_conflicting = filter (\<lambda>i. version_at local i \<noteq> version_at remote i) common,
          md_in_sync = filter (\<lambda>i. version_at local i = version_at remote i) common\<rparr>)"

definition diff_is_empty :: "manifest_diff \<Rightarrow> bool" where
  "diff_is_empty d \<longleftrightarrow> md_local_only d = [] \<and> md_remote_only d = [] \<and> md_conflicting d = []"

definition needs_sync :: "manifest_diff \<Rightarrow> bool" where
  "needs_sync d \<longleftrightarrow> md_local_only d \<noteq> [] \<or> md_remote_only d \<noteq> [] \<or> md_conflicting d \<noteq> []"

section \<open>Merging\<close>

datatype (plugins only: code size) conflict_resolution = LocalWins | RemoteWins | Merged

record sync_conflict =
  sc_object_id :: sync_object_id
  sc_kind :: sync_object_kind
  sc_local_record :: sync_record
  sc_remote_record :: sync_record
  sc_resolution :: conflict_resolution

record merge_result =
  mg_added :: "sync_object_id list"
  mg_updated :: "sync_object_id list"
  mg_skipped :: "sync_object_id list"
  mg_conflicts :: "sync_conflict list"

definition total_changes :: "merge_result \<Rightarrow> nat" where
  "total_changes r = length (mg_added r) + length (mg_updated r) + length (mg_conflicts r)"

definition resolve_conflict :: "sync_object_id \<Rightarrow> sync_record \<Rightarrow> sync_record \<Rightarrow> sync_conflict" where
  "resolve_conflict i local remote =
     \<lparr>sc_object_id = i, sc_kind = sr_kind local, sc_local_record = local, sc_remote_record = remote,
      sc_resolution =
        (case sr_merge_policy local of
           AppendOnly \<Rightarrow> Merged
         | LastWriteWins \<Rightarrow>
             if sr_updated_at local < sr_updated_at remote then RemoteWins
             else if sr_updated_at remote < sr_updated_at local then LocalWins
             else if device_text (sr_source_device local) < device_text (sr_source_device remote) then RemoteWins
             else LocalWins)\<rparr>"

fun extract_events :: "json \<Rightarrow> json list" where
  "extract_events (JArray js) = js"
| "extract_events j = [j]"

definition extract_event_id :: "json \<Rightarrow> string option" where
  "extract_event_id j =
     Option.bind
       (case json_get ''id'' j of
          Some v \<Rightarrow> Some v
        | None \<Rightarrow> (case json_get ''event_id'' j of Some v \<Rightarrow> Some v | None \<Rightarrow> json_get ''message_id'' j))
       json_as_str"

fun dedupe_events :: "string list \<Rightarrow> json list \<Rightarrow> json list" where
  "dedupe_events seen [] = []"
| "dedupe_events seen (e # es) =
     (case extract_event_id e of
        None \<Rightarrow> e # dedupe_events seen es
      | Some i \<Rightarrow> if i \<in> set seen then dedupe_events seen es else e # dedupe_events (i # seen) es)"

text \<open>The version of a merged record is a UUID of its own, here the \<open>n\<close>-th.\<close>

definition merge_append_only_payloads ::
    "(nat \<Rightarrow> string) \<Rightarrow> nat \<Rightarrow> sync_record \<Rightarrow> sync_record \<Rightarrow> sync_record" where
  "merge_append_only_payloads uuid n local remote =
     local\<lparr>sr_version_hash := ''merged-'' @ uuid n,
           sr_updated_at := (if sr_updated_at local < sr_updated_at remote then sr_updated_at remote
                             else sr_updated_at local),
           sr_payload := JArray (dedupe_events [] (extract_events (sr_payload local) @ extract_events (sr_payload remote)))\<rparr>"

definition put_object :: "sync_object_id \<Rightarrow> sync_record \<Rightarrow> sync_manifest \<Rightarrow> sync_manifest" where
  "put_object i r m = m\<lparr>sm_objects := hm_put i r (sm_objects m)\<rparr>"

type_synonym merging = "nat \<times> sync_manifest \<times> merge_result"

definition merge_object ::
    "(nat \<Rightarrow> string) \<Rightarrow> sync_object_id \<Rightarrow> sync_record \<Rightarrow> merging \<Rightarrow> merging" where
  "merge_object uuid i remote = (\<lambda>(n, local, res).
     (case m_get (sm_objects local) i of
        None \<Rightarrow> (n, put_object i remote local, res\<lparr>mg_added := mg_added res @ [i]\<rparr>)
      | Some l \<Rightarrow>
          if sr_version_hash l = sr_version_hash remote
          then (n, local, res\<lparr>mg_skipped := mg_skipped res @ [i]\<rparr>)
          else
            (let conflict = resolve_conflict i l remote;
                 res' = res\<lparr>mg_conflicts := mg_conflicts res @ [conflict]\<rparr> in
             case sc_resolution conflict of
               RemoteWins \<Rightarrow> (n, put_object i remote local, res'\<lparr>mg_updated := mg_updated res @ [i]\<rparr>)
             | LocalWins \<Rightarrow> (n, local, res'\<lparr>mg_skipped := mg_skipped res @ [i]\<rparr>)
             | Merged \<Rightarrow> (n + 1, put_object i (merge_append_only_payloads uuid n l remote) local,
                  res'\<lparr>mg_updated := mg_updated res @ [i]\<rparr>))))"

definition merge_ids :: "(nat \<Rightarrow> string) \<Rightarrow> sync_manifest \<Rightarrow> sync_object_id list \<Rightarrow> merging \<Rightarrow> merging" where
  "merge_ids uuid remote =
     fold (\<lambda>i m. case m_get (sm_objects remote) i of None \<Rightarrow> m | Some r \<Rightarrow> merge_object uuid i r m)"

definition merge_manifests ::
    "(nat \<Rightarrow> string) \<Rightarrow> walk_order \<Rightarrow> sync_manifest \<Rightarrow> nat \<Rightarrow> sync_manifest \<Rightarrow> merging" where
  "merge_manifests uuid ho remote n local =
     merge_ids uuid remote (ho (m_keys (sm_objects remote)))
       (n, local, \<lparr>mg_added = [], mg_updated = [], mg_skipped = [], mg_conflicts = []\<rparr>)"

section \<open>The object store and the transfer encryption\<close>

record sync_object_metadata =
  om_object_id :: sync_object_id
  om_kind :: sync_object_kind
  om_content_hash :: string
  om_size_bytes :: nat
  om_created_at :: datetime
  om_updated_at :: datetime
  om_source_device :: device_id

record sync_object =
  so_metadata :: sync_object_metadata
  so_content :: byte_string

definition sync_object_new ::
    "(byte_string \<Rightarrow> string) \<Rightarrow> datetime \<Rightarrow> sync_object_id \<Rightarrow> sync_object_kind \<Rightarrow> byte_string \<Rightarrow> device_id \<Rightarrow> sync_object" where
  "sync_object_new hash now i k content d =
     \<lparr>so_metadata = \<lparr>om_object_id = i, om_kind = k, om_content_hash = hash content, om_size_bytes = length content,
        om_created_at = now, om_updated_at = now, om_source_device = d\<rparr>,
      so_content = content\<rparr>"

definition verify_hash :: "(byte_string \<Rightarrow> string) \<Rightarrow> sync_object \<Rightarrow> bool" where
  "verify_hash hash x \<longleftrightarrow> hash (so_content x) = om_content_hash (so_metadata x)"

datatype (plugins only: code size) object_store_error = ObjectNotFound string

type_synonym object_store = "(sync_object_id, sync_object) hmap"

fun object_id_text :: "sync_object_id \<Rightarrow> string" where
  "object_id_text (SyncObjectId s) = s"

definition store_put :: "sync_object \<Rightarrow> object_store \<Rightarrow> object_store" where
  "store_put x s = hm_put (om_object_id (so_metadata x)) x s"

definition store_get :: "sync_object_id \<Rightarrow> object_store \<Rightarrow> object_store_error + sync_object" where
  "store_get i s = ok_or (m_get s i) (ObjectNotFound (object_id_text i))"

definition store_get_metadata :: "sync_object_id \<Rightarrow> object_store \<Rightarrow> object_store_error + sync_object_metadata" where
  "store_get_metadata i s = ok_or (map_option so_metadata (m_get s i)) (ObjectNotFound (object_id_text i))"

definition store_delete :: "sync_object_id \<Rightarrow> object_store \<Rightarrow> object_store" where
  "store_delete i s = m_remove i s"

definition store_list :: "object_store \<Rightarrow> sync_object_metadata list" where
  "store_list s = map so_metadata (m_values s)"

definition store_verify :: "(byte_string \<Rightarrow> string) \<Rightarrow> sync_object_id \<Rightarrow> object_store \<Rightarrow> object_store_error + bool" where
  "store_verify hash i s = bind_result (store_get i s) (\<lambda>x. Inr (verify_hash hash x))"

record session_key =
  sk_key_id :: string
  sk_key_bytes :: byte_string
  sk_created_at :: datetime
  sk_expires_at :: datetime

text \<open>The time to live is in seconds, instants are in nanoseconds.\<close>

definition session_key_new :: "datetime \<Rightarrow> string \<Rightarrow> byte_string \<Rightarrow> int \<Rightarrow> session_key" where
  "session_key_new now i bs ttl = \<lparr>sk_key_id = i, sk_key_bytes = bs, sk_created_at = now, sk_expires_at = now + ttl * 1000000000\<rparr>"

definition key_is_expired :: "datetime \<Rightarrow> session_key \<Rightarrow> bool" where
  "key_is_expired now k \<longleftrightarrow> sk_expires_at k < now"

record encrypted_payload =
  ep_key_id :: string
  ep_nonce :: byte_string
  ep_ciphertext :: byte_string
  ep_tag :: byte_string
  ep_content_hash :: string
  ep_encrypted_at :: datetime

datatype (plugins only: code size) encryption_error =
    KeyExpired | DecryptionFailed string | HashMismatch string string | InvalidKey string

text \<open>\<open>content.iter().zip(key.iter().cycle())\<close>: an empty key cycles to nothing.\<close>

definition xor_cycle :: "byte_string \<Rightarrow> byte_string \<Rightarrow> byte_string" where
  "xor_cycle key bs =
     (if key = [] then [] else map (\<lambda>i. (bs ! i) XOR (key ! (i mod length key))) [0..<length bs])"

definition encrypt_sync_object ::
    "(byte_string \<Rightarrow> string) \<Rightarrow> (byte_string \<Rightarrow> byte_string \<Rightarrow> byte_string) \<Rightarrow> datetime \<Rightarrow> byte_string \<Rightarrow>
     session_key \<Rightarrow> sync_object \<Rightarrow> encryption_error + encrypted_payload" where
  "encrypt_sync_object hash tag now nonce k x =
     (if key_is_expired now k then Inl KeyExpired
      else (let ciphertext = xor_cycle (sk_key_bytes k) (so_content x) in
        Inr \<lparr>ep_key_id = sk_key_id k, ep_nonce = nonce, ep_ciphertext = ciphertext,
             ep_tag = tag ciphertext (sk_key_bytes k), ep_content_hash = hash (so_content x), ep_encrypted_at = now\<rparr>))"

definition decrypt_payload ::
    "(byte_string \<Rightarrow> string) \<Rightarrow> (byte_string \<Rightarrow> byte_string \<Rightarrow> byte_string) \<Rightarrow> datetime \<Rightarrow>
     session_key \<Rightarrow> encrypted_payload \<Rightarrow> encryption_error + byte_string" where
  "decrypt_payload hash tag now k p =
     (if key_is_expired now k then Inl KeyExpired
      else if sk_key_id k \<noteq> ep_key_id p then Inl (InvalidKey ''key ID mismatch'')
      else if ep_tag p \<noteq> tag (ep_ciphertext p) (sk_key_bytes k) then Inl (DecryptionFailed ''tag mismatch'')
      else (let plaintext = xor_cycle (sk_key_bytes k) (ep_ciphertext p) in
        if hash plaintext \<noteq> ep_content_hash p then Inl (HashMismatch (ep_content_hash p) (hash plaintext))
        else Inr plaintext))"

section \<open>Transport and ownership\<close>

datatype (plugins only: code size) sync_transport_message =
    TmSyncObject encrypted_payload
  | TmManifest sync_manifest
  | TmDiscoveryAnnouncement device_id string "string list"
  | TmDiscoveryResponse device_id string bool
  | TmSignalingOffer device_id device_id string
  | TmSignalingAnswer device_id device_id string
  | TmSignalingIceCandidate device_id device_id string

datatype (plugins only: code size) sync_transport_error = ConnectionFailed string | TransportTimeout

record memory_transport =
  mt_inbox :: "(device_id \<times> sync_transport_message) list"
  mt_connected :: "device_id list"

definition transport_send ::
    "device_id \<Rightarrow> sync_transport_message \<Rightarrow> memory_transport \<Rightarrow> (sync_transport_error + unit) \<times> memory_transport" where
  "transport_send d msg t =
     (if d \<notin> set (mt_connected t) then (Inl (ConnectionFailed (''not connected to '' @ device_text d)), t)
      else (Inr (), t\<lparr>mt_inbox := mt_inbox t @ [(d, msg)]\<rparr>))"

definition transport_receive ::
    "memory_transport \<Rightarrow> (sync_transport_error + device_id \<times> sync_transport_message) \<times> memory_transport" where
  "transport_receive t =
     (case mt_inbox t of [] \<Rightarrow> (Inl TransportTimeout, t) | x # xs \<Rightarrow> (Inr x, t\<lparr>mt_inbox := xs\<rparr>))"

definition transport_connect :: "device_id \<Rightarrow> memory_transport \<Rightarrow> memory_transport" where
  "transport_connect d t = t\<lparr>mt_connected := List.insert d (mt_connected t)\<rparr>"

definition transport_disconnect :: "device_id \<Rightarrow> memory_transport \<Rightarrow> memory_transport" where
  "transport_disconnect d t = t\<lparr>mt_connected := removeAll d (mt_connected t)\<rparr>"

datatype (plugins only: code size) data_ownership = OwnPersonal | OwnEnterprise

datatype (plugins only: code size) sync_policy = PersonalOnly | EnterpriseOnly | SyncAll

record ownership_marker =
  ow_ownership :: data_ownership
  ow_organization_id :: "string option"
  ow_marked_at :: datetime

definition should_include :: "sync_policy \<Rightarrow> ownership_marker \<Rightarrow> bool" where
  "should_include p m =
     (case p of
        PersonalOnly \<Rightarrow> ow_ownership m = OwnPersonal
      | EnterpriseOnly \<Rightarrow> ow_ownership m = OwnEnterprise
      | SyncAll \<Rightarrow> True)"

definition filter_objects :: "sync_policy \<Rightarrow> (sync_object_id \<times> ownership_marker) list \<Rightarrow> sync_object_id list" where
  "filter_objects p xs = map fst (filter (\<lambda>(i, m). should_include p m) xs)"

definition filter_manifest ::
    "sync_policy \<Rightarrow> walk_order \<Rightarrow> (sync_object_id, ownership_marker) hmap \<Rightarrow> sync_manifest \<Rightarrow> sync_manifest" where
  "filter_manifest p ho owners m =
     fold (\<lambda>i f. case (m_get (sm_objects m) i, m_get owners i) of
         (Some r, Some mk) \<Rightarrow> if should_include p mk then manifest_upsert r f else f
       | _ \<Rightarrow> f)
       (ho (m_keys (sm_objects m))) (sync_manifest_new (sm_device_id m) (sm_agent_os_id m) (sm_captured_at m))"

section \<open>Replaying server events\<close>

lemma apply_sync_event_ok:
  assumes "apply_sync_event dec e s = (Inr u, s')"
  shows "se_sequence e \<le> last_applied_sequence (kn_cursor s')"
    and "last_applied_sequence (kn_cursor s) \<le> last_applied_sequence (kn_cursor s')"
  using assms
  by (auto simp: apply_sync_event_def should_apply_def advance_to_def split: if_splits sum.splits)

lemma apply_sync_events_ok:
  "apply_sync_events dec es s = (Inr u, s') \<Longrightarrow>
   last_applied_sequence (kn_cursor s) \<le> last_applied_sequence (kn_cursor s') \<and>
   (\<forall>e \<in> set es. se_sequence e \<le> last_applied_sequence (kn_cursor s'))"
proof (induction es arbitrary: s)
  case Nil
  then show ?case by simp
next
  case (Cons e es)
  then obtain s1 where s1: "apply_sync_event dec e s = (Inr (), s1)" "apply_sync_events dec es s1 = (Inr u, s')"
    by (auto simp: andThen_Inr_iff)
  from Cons.IH [OF s1(2)] apply_sync_event_ok [OF s1(1)] show ?case by auto
qed

lemma apply_observed:
  "\<forall>e \<in> set es. se_sequence e \<le> last_applied_sequence (kn_cursor s) \<Longrightarrow> apply_sync_events dec es s = (Inr (), s)"
  by (induction es) (auto simp: apply_sync_event_def should_apply_def andThen_def)

text \<open>
  Replaying server events is harmless. Once a batch has been applied, applying it
  again, or any selection of its events in any order and with repetitions, succeeds and
  changes nothing.
\<close>

lemma sync_replay_idempotent:
  assumes "apply_sync_events dec es s = (Inr u, s')" and "set es' \<subseteq> set es"
  shows "apply_sync_events dec es' s' = (Inr (), s')"
  using apply_observed apply_sync_events_ok [OF assms(1)] assms(2) by blast

text \<open>The version of an entry never goes down, and an entry never disappears: a deletion leaves a tombstone.\<close>

lemma versions_grow:
  assumes "apply_sync_event dec e s = (r, s')" and "m_get (kn_entries s) i = Some p"
  shows "\<exists>p'. m_get (kn_entries s') i = Some p' \<and> kp_version p \<le> kp_version p' \<and> (kp_version p' = kp_version p \<longrightarrow> p' = p)"
  using assms
  by (auto simp: apply_sync_event_def upsert_entry_def bind_result_Inr_iff split: if_splits sum.splits option.splits)

section \<open>Merging replicas\<close>

definition walks :: "walk_order \<Rightarrow> bool" where
  "walks ho \<longleftrightarrow> (\<forall>xs. mset (ho xs) = mset xs)"

lemma walks_facts: "walks ho \<Longrightarrow> set (ho xs) = set xs \<and> distinct (ho xs) = distinct xs"
  unfolding walks_def by (metis mset_eq_imp_distinct_iff mset_eq_setD)

text \<open>The record that a merge leaves where both sides have one and the last write wins.\<close>

definition newer :: "sync_record \<Rightarrow> sync_record \<Rightarrow> bool" where
  "newer r l \<longleftrightarrow> sr_updated_at l < sr_updated_at r \<or>
     sr_updated_at l = sr_updated_at r \<and> device_text (sr_source_device l) < device_text (sr_source_device r)"

definition last_write :: "sync_record \<Rightarrow> sync_record \<Rightarrow> sync_record" where
  "last_write l r = (if sr_version_hash l \<noteq> sr_version_hash r \<and> newer r l then r else l)"

abbreviation merged_manifest :: "merging \<Rightarrow> sync_manifest" where
  "merged_manifest m \<equiv> fst (snd m)"

lemma merge_object_get:
  assumes "\<And>l. m_get (sm_objects (merged_manifest m)) i = Some l \<Longrightarrow> sr_merge_policy l = LastWriteWins"
  shows "m_get (sm_objects (merged_manifest (merge_object uuid i r m))) j =
    (if j = i then Some (case m_get (sm_objects (merged_manifest m)) i of None \<Rightarrow> r | Some l \<Rightarrow> last_write l r)
     else m_get (sm_objects (merged_manifest m)) j)"
proof -
  obtain n local res where m: "m = (n, local, res)" by (cases m)
  show ?thesis
  proof (cases "m_get (sm_objects local) i")
    case None
    with m show ?thesis by (simp add: merge_object_def put_object_def)
  next
    case (Some l)
    with assms m have "sr_merge_policy l = LastWriteWins" by simp
    with Some m show ?thesis
      by (auto simp: merge_object_def put_object_def Let_def resolve_conflict_def last_write_def newer_def)
  qed
qed

lemma merge_object_other:
  "j \<noteq> i \<Longrightarrow> m_get (sm_objects (merged_manifest (merge_object uuid i r m))) j = m_get (sm_objects (merged_manifest m)) j"
  by (cases m)
     (auto simp: merge_object_def put_object_def Let_def split: option.split conflict_resolution.split)

lemma merge_ids_get:
  assumes "distinct ids"
    and "\<And>l. m_get (sm_objects (merged_manifest m)) j = Some l \<Longrightarrow> sr_merge_policy l = LastWriteWins"
  shows "m_get (sm_objects (merged_manifest (merge_ids uuid remote ids m))) j =
    (if j \<in> set ids
     then (case m_get (sm_objects remote) j of
             None \<Rightarrow> m_get (sm_objects (merged_manifest m)) j
           | Some r \<Rightarrow> Some (case m_get (sm_objects (merged_manifest m)) j of None \<Rightarrow> r | Some l \<Rightarrow> last_write l r))
     else m_get (sm_objects (merged_manifest m)) j)"
  using assms
proof (induction ids arbitrary: m)
  case Nil
  then show ?case by (simp add: merge_ids_def)
next
  case (Cons i ids)
  let ?m = "case m_get (sm_objects remote) i of None \<Rightarrow> m | Some r \<Rightarrow> merge_object uuid i r m"
  have step: "merge_ids uuid remote (i # ids) m = merge_ids uuid remote ids ?m"
    by (simp add: merge_ids_def)
  show ?case
  proof (cases "j = i")
    case False
    then have "m_get (sm_objects (merged_manifest ?m)) j = m_get (sm_objects (merged_manifest m)) j"
      by (simp add: merge_object_other split: option.split)
    with Cons.IH [of ?m] Cons.prems False show ?thesis by (simp only: step) simp
  next
    case True
    with Cons.prems have here: "m_get (sm_objects (merged_manifest ?m)) i =
      (case m_get (sm_objects remote) i of
         None \<Rightarrow> m_get (sm_objects (merged_manifest m)) i
       | Some r \<Rightarrow> Some (case m_get (sm_objects (merged_manifest m)) i of None \<Rightarrow> r | Some l \<Rightarrow> last_write l r))"
      by (simp add: merge_object_get split: option.split)
    have rest: "m_get (sm_objects (merged_manifest (merge_ids uuid remote ids m'))) i = m_get (sm_objects (merged_manifest m')) i"
      if "i \<notin> set ids" for m'
      using that by (induction ids arbitrary: m') (auto simp: merge_ids_def merge_object_other split: option.split)
    with here Cons.prems(1) show ?thesis unfolding True by (simp add: step)
  qed
qed

lemma m_get_None_iff: "m_get m k = None \<longleftrightarrow> k \<notin> set (m_keys m)"
  using m_contains_iff [of m k] by (auto simp: m_contains_def)

lemma merge_manifests_get:
  assumes "walks ho" and "hm_inv (sm_objects remote)"
    and policy: "\<And>l. m_get (sm_objects local) j = Some l \<Longrightarrow> sr_merge_policy l = LastWriteWins"
  shows "m_get (sm_objects (merged_manifest (merge_manifests uuid ho remote n local))) j =
    (case m_get (sm_objects remote) j of
       None \<Rightarrow> m_get (sm_objects local) j
     | Some r \<Rightarrow> Some (case m_get (sm_objects local) j of None \<Rightarrow> r | Some l \<Rightarrow> last_write l r))"
proof -
  have d: "distinct (ho (m_keys (sm_objects remote)))"
    using walks_facts [OF assms(1)] assms(2) by (simp add: hm_inv_def m_keys_def)
  have k: "j \<in> set (ho (m_keys (sm_objects remote))) \<longleftrightarrow> m_get (sm_objects remote) j \<noteq> None"
    using walks_facts [OF assms(1)] by (simp add: m_get_None_iff)
  have "m_get (sm_objects (merged_manifest (merge_manifests uuid ho remote n local))) j =
    (if j \<in> set (ho (m_keys (sm_objects remote)))
     then (case m_get (sm_objects remote) j of
             None \<Rightarrow> m_get (sm_objects local) j
           | Some r \<Rightarrow> Some (case m_get (sm_objects local) j of None \<Rightarrow> r | Some l \<Rightarrow> last_write l r))
     else m_get (sm_objects local) j)"
    unfolding merge_manifests_def by (subst merge_ids_get [OF d]) (auto dest: policy split: option.split)
  with k show ?thesis by (auto split: option.split)
qed

definition lww_manifest :: "sync_manifest \<Rightarrow> bool" where
  "lww_manifest m = (hm_inv (sm_objects m) \<and> list_all (\<lambda>(i, r). sr_merge_policy r = LastWriteWins) (sm_objects m))"

text \<open>Two replicas never hold different versions written at the same instant by the same device.\<close>

definition no_tie :: "sync_manifest \<Rightarrow> sync_manifest \<Rightarrow> bool" where
  "no_tie a b = list_all (\<lambda>(i, l). list_all (\<lambda>(j, r).
       i = j \<and> sr_updated_at l = sr_updated_at r \<and> device_text (sr_source_device l) = device_text (sr_source_device r) \<longrightarrow>
       sr_version_hash l = sr_version_hash r) (sm_objects b)) (sm_objects a)"

lemma lww_manifest_policy: "lww_manifest m \<Longrightarrow> m_get (sm_objects m) i = Some l \<Longrightarrow> sr_merge_policy l = LastWriteWins"
  by (auto simp: lww_manifest_def list_all_iff dest!: m_get_in_set)

lemma no_tie_at:
  assumes "no_tie a b" and "m_get (sm_objects a) i = Some l" and "m_get (sm_objects b) i = Some r"
  shows "sr_updated_at l = sr_updated_at r \<and> device_text (sr_source_device l) = device_text (sr_source_device r) \<longrightarrow>
    sr_version_hash l = sr_version_hash r"
  using assms(1) m_get_in_set [OF assms(2)] m_get_in_set [OF assms(3)] unfolding no_tie_def list_all_iff by fastforce

lemma last_write_commutes:
  assumes "sr_updated_at l = sr_updated_at r \<and> device_text (sr_source_device l) = device_text (sr_source_device r) \<longrightarrow>
    sr_version_hash l = sr_version_hash r"
  shows "sr_version_hash (last_write l r) = sr_version_hash (last_write r l)"
  using assms by (auto simp: last_write_def newer_def)

lemma merged_versions_agree:
  assumes "walks ho" "walks ho'" "lww_manifest a" "lww_manifest b" "no_tie a b"
  shows "version_at (merged_manifest (merge_manifests uuid ho b n a)) i =
         version_at (merged_manifest (merge_manifests uuid' ho' a n' b)) i"
proof -
  have "hm_inv (sm_objects a)" "hm_inv (sm_objects b)" using assms(3,4) by (simp_all add: lww_manifest_def)
  then show ?thesis
    using merge_manifests_get [OF assms(1), of b a i uuid n] merge_manifests_get [OF assms(2), of a b i uuid' n']
      lww_manifest_policy [OF assms(3), of i] lww_manifest_policy [OF assms(4), of i]
      last_write_commutes no_tie_at [OF assms(5), of i]
    by (auto simp: version_at_def split: option.splits)
qed

lemma version_at_None: "version_at m i = None \<longleftrightarrow> \<not> m_contains (sm_objects m) i"
  by (auto simp: version_at_def m_contains_def)

lemma needs_sync_iff:
  assumes "walks ho"
  shows "needs_sync (diff_manifests ho a b) \<longleftrightarrow> (\<exists>i. version_at a i \<noteq> version_at b i)"
proof -
  have ids: "set (ho (m_keys (sm_objects m))) = {i. m_contains (sm_objects m) i}" for m
    using walks_facts [OF assms] by (auto simp: m_contains_iff)
  have "needs_sync (diff_manifests ho a b) \<longleftrightarrow>
    (\<exists>i. (m_contains (sm_objects a) i \<or> m_contains (sm_objects b) i) \<and> version_at a i \<noteq> version_at b i)"
    using version_at_None [of a] version_at_None [of b]
    by (simp add: needs_sync_def diff_manifests_def Let_def filter_empty_conv ids) metis
  also have "\<dots> \<longleftrightarrow> (\<exists>i. version_at a i \<noteq> version_at b i)"
    by (metis version_at_None)
  finally show ?thesis .
qed

text \<open>
  C18. Replicas under last-write-wins converge, provided that the two manifests hold no two
  different versions of an object with the same update time and the same source device. When
  each of two devices merges the manifest the other one had, in whatever order its hash table
  is walked, both end with the same version of every object, and their manifests have no
  difference left to sync. The proviso cannot be left out: in a tie both devices keep their
  own version, see tie_keeps_replicas_apart.
\<close>

theorem lww_replicas_converge:
  assumes "walks ho" "walks ho'" "walks ho''" "lww_manifest a" "lww_manifest b" "no_tie a b"
  shows "version_at (merged_manifest (merge_manifests uuid ho b n a)) i =
           version_at (merged_manifest (merge_manifests uuid' ho' a n' b)) i \<and>
         \<not> needs_sync (diff_manifests ho'' (merged_manifest (merge_manifests uuid ho b n a))
                        (merged_manifest (merge_manifests uuid' ho' a n' b)))"
  using merged_versions_agree [OF assms(1,2,4-6)] by (simp add: needs_sync_iff [OF assms(3)])

section \<open>Append-only merges\<close>

definition event_ids :: "json list \<Rightarrow> string list" where
  "event_ids es = List.map_filter extract_event_id es"

lemma event_ids_simps [simp]:
  "event_ids [] = []"
  "event_ids (e # es) = (case extract_event_id e of None \<Rightarrow> event_ids es | Some i \<Rightarrow> i # event_ids es)"
  "event_ids (es @ es') = event_ids es @ event_ids es'"
  by (auto simp: event_ids_def map_filter_simps map_filter_def split: option.split)

lemma dedupe_ids:
  "distinct (event_ids (dedupe_events seen es)) \<and>
   set (event_ids (dedupe_events seen es)) = set (event_ids es) - set seen"
  by (induction es arbitrary: seen) (auto split: option.split)

lemma dedupe_anonymous:
  "filter (\<lambda>e. extract_event_id e = None) (dedupe_events seen es) = filter (\<lambda>e. extract_event_id e = None) es"
  by (induction es arbitrary: seen) (auto split: option.split)

lemma dedupe_subset: "set (dedupe_events seen es) \<subseteq> set es"
  by (induction es arbitrary: seen) (auto split: option.split)

lemma dedupe_prefix:
  assumes "distinct (event_ids es)" and "set (event_ids es) \<inter> set seen = {}"
  shows "\<exists>rest. dedupe_events seen (es @ es') = es @ rest"
  using assms by (induction es arbitrary: seen) (auto split: option.splits)

text \<open>
  An append-only merge loses no event. The merged history starts with the local one,
  has exactly the event identifiers of the two histories, each of them once, keeps every
  event that has no identifier, and holds no event that neither side had.
\<close>

lemma append_only_merge_keeps_events:
  assumes "distinct (event_ids (extract_events (sr_payload l)))"
  shows "let es = extract_events (sr_payload (merge_append_only_payloads uuid n l r));
             le = extract_events (sr_payload l); re = extract_events (sr_payload r) in
    take (length le) es = le \<and>
    distinct (event_ids es) \<and> set (event_ids es) = set (event_ids le) \<union> set (event_ids re) \<and>
    filter (\<lambda>e. extract_event_id e = None) es = filter (\<lambda>e. extract_event_id e = None) (le @ re) \<and>
    set es \<subseteq> set le \<union> set re"
proof -
  let ?le = "extract_events (sr_payload l)" and ?re = "extract_events (sr_payload r)"
  obtain rest where "dedupe_events [] (?le @ ?re) = ?le @ rest"
    using dedupe_prefix [OF assms, of "[]"] by auto
  then show ?thesis
    using dedupe_ids [of "[]" "?le @ ?re"] dedupe_anonymous [of "[]" "?le @ ?re"] dedupe_subset [of "[]" "?le @ ?re"]
    by (auto simp: merge_append_only_payloads_def Let_def)
qed

text \<open>But the merged record has a version of its own on each device, so that the two still differ.\<close>

lemma append_only_never_settles:
  assumes "uuid n \<noteq> uuid' n'"
  shows "sr_version_hash (merge_append_only_payloads uuid n l r) \<noteq> sr_version_hash (merge_append_only_payloads uuid' n' r l)"
  using assms by (simp add: merge_append_only_payloads_def)

section \<open>The transfer encryption\<close>

lemma xor_cycle_twice: "key \<noteq> [] \<Longrightarrow> xor_cycle key (xor_cycle key bs) = bs"
  by (rule nth_equalityI) (simp_all add: xor_cycle_def xor.assoc)

text \<open>
  What is encrypted under a session key is decrypted to the same bytes under that key,
  as long as the key is not empty and has not expired at either time.
\<close>

lemma decrypt_encrypt:
  assumes "sk_key_bytes k \<noteq> []" and "\<not> key_is_expired now k" and "\<not> key_is_expired later k"
  shows "bind_result (encrypt_sync_object hash tag now nonce k x) (decrypt_payload hash tag later k) = Inr (so_content x)"
  using assms by (simp add: encrypt_sync_object_def decrypt_payload_def Let_def xor_cycle_twice)

text \<open>With an empty key nothing is sent: the ciphertext is empty whatever the content.\<close>

lemma encrypt_empty_key:
  assumes "sk_key_bytes k = []" and "\<not> key_is_expired now k"
  shows "\<exists>p. encrypt_sync_object hash tag now nonce k x = Inr p \<and> ep_ciphertext p = []"
  using assms by (simp add: encrypt_sync_object_def xor_cycle_def Let_def)

section \<open>Concrete runs\<close>

definition sync_example_payload :: knowledge_payload where
  "sync_example_payload = \<lparr>kp_entry_id = ''k1'', kp_object_id = ''o1'', kp_title = ''t'', kp_content = ''c'',
     kp_summary = ''s'', kp_tags = [], kp_metadata = JNull, kp_source_uri = ''u'', kp_status = EntryActive,
     kp_version = 1, kp_content_hash = ''h1'', kp_updated_by_device_id = ''d1'', kp_updated_at = 10,
     kp_deleted_at = None\<rparr>"

definition sync_example_event :: "nat \<Rightarrow> server_sync_event" where
  "sync_example_event n = \<lparr>se_id = ''e'', se_user_id = ''u'', se_device_id = ''d1'', se_event_type = ''knowledge.created'',
     se_schema_version = 1, se_object_type = SoKnowledge, se_object_id = ''k1'', se_operation = SyCreated,
     se_source_device_id = ''d1'', se_client_event_id = None, se_payload = JNull, se_timestamp = 10, se_sequence = n\<rparr>"

lemma sync_replay_idempotent_witness:
  "\<exists>s'. apply_sync_events (\<lambda>_. Inr sync_example_payload) [sync_example_event 1, sync_example_event 2]
      knowledge_projection_new = (Inr (), s') \<and> kn_cursor s' = \<lparr>last_applied_sequence = 2\<rparr> \<and>
    apply_sync_events (\<lambda>_. Inr sync_example_payload) [sync_example_event 2, sync_example_event 1, sync_example_event 2] s' =
      (Inr (), s')"
proof -
  let ?s = "\<lparr>kn_cursor = \<lparr>last_applied_sequence = 2\<rparr>, kn_entries = [(''k1'', sync_example_payload)]\<rparr>"
  have run: "apply_sync_events (\<lambda>_. Inr sync_example_payload) [sync_example_event 1, sync_example_event 2]
      knowledge_projection_new = (Inr (), ?s)"
    by code_simp
  show ?thesis
    using sync_replay_idempotent [OF run, of "[sync_example_event 2, sync_example_event 1, sync_example_event 2]"] run
    by auto
qed

definition sync_example_record :: "string \<Rightarrow> string \<Rightarrow> datetime \<Rightarrow> string \<Rightarrow> merge_policy \<Rightarrow> json \<Rightarrow> sync_record" where
  "sync_example_record i d t v p j = \<lparr>sr_object_id = SyncObjectId i, sr_kind = PersonProfile,
     sr_source_device = DeviceId d, sr_version_hash = v, sr_updated_at = t, sr_merge_policy = p, sr_payload = j\<rparr>"

text \<open>
  Two versions of an object with one time stamp and one source device: neither record wins at
  the other side, and the replicas stay apart however often they are merged.
\<close>

lemma tie_keeps_replicas_apart:
  assumes "sr_merge_policy l = LastWriteWins" and "sr_merge_policy r = LastWriteWins"
    and "sr_updated_at l = sr_updated_at r" and "sr_source_device l = sr_source_device r"
  shows "sc_resolution (resolve_conflict i l r) = LocalWins \<and> sc_resolution (resolve_conflict i r l) = LocalWins"
  using assms by (simp add: resolve_conflict_def)

definition sync_example_manifest :: "string \<Rightarrow> sync_record list \<Rightarrow> sync_manifest" where
  "sync_example_manifest d rs = fold manifest_upsert rs (sync_manifest_new (DeviceId d) ''os'' 0)"

theorem lww_replicas_converge_witness:
  "let a = sync_example_manifest ''A'' [sync_example_record ''x'' ''A'' 5 ''xa'' LastWriteWins JNull,
             sync_example_record ''y'' ''A'' 5 ''ya'' LastWriteWins JNull];
       b = sync_example_manifest ''B'' [sync_example_record ''x'' ''B'' 7 ''xb'' LastWriteWins JNull,
             sync_example_record ''z'' ''B'' 5 ''zb'' LastWriteWins JNull];
       a' = merged_manifest (merge_manifests (\<lambda>_. []) rev b 0 a);
       b' = merged_manifest (merge_manifests (\<lambda>_. []) id a 0 b)
   in version_at a' (SyncObjectId ''x'') = Some ''xb'' \<and>
      version_at a' (SyncObjectId ''x'') = version_at b' (SyncObjectId ''x'') \<and>
      \<not> needs_sync (diff_manifests rev a' b')"
proof -
  let ?a = "sync_example_manifest ''A'' [sync_example_record ''x'' ''A'' 5 ''xa'' LastWriteWins JNull,
             sync_example_record ''y'' ''A'' 5 ''ya'' LastWriteWins JNull]"
  let ?b = "sync_example_manifest ''B'' [sync_example_record ''x'' ''B'' 7 ''xb'' LastWriteWins JNull,
             sync_example_record ''z'' ''B'' 5 ''zb'' LastWriteWins JNull]"
  have orders: "walks rev" "walks id" by (simp_all add: walks_def)
  have lww: "lww_manifest ?a" "lww_manifest ?b" and tie: "no_tie ?a ?b" by code_simp+
  have "version_at (merged_manifest (merge_manifests (\<lambda>_. []) rev ?b 0 ?a)) (SyncObjectId ''x'') = Some ''xb''"
    by code_simp
  then show ?thesis
    using lww_replicas_converge [OF orders(1,2,1) lww tie, of "\<lambda>_. []" 0 "SyncObjectId ''x''" "\<lambda>_. []" 0]
    by (simp add: Let_def)
qed

lemma append_only_merge_keeps_events_witness:
  "let l = sync_example_record ''q'' ''A'' 5 ''qa'' AppendOnly
             (JArray [JObject [(''id'', JString ''e1'')], JString ''note'', JObject [(''id'', JString ''e2'')]]);
       r = sync_example_record ''q'' ''B'' 7 ''qb'' AppendOnly
             (JArray [JObject [(''id'', JString ''e1'')], JObject [(''event_id'', JString ''e3'')]]);
       es = extract_events (sr_payload (merge_append_only_payloads (\<lambda>_. ''u'') 0 l r))
   in take 3 es = extract_events (sr_payload l) \<and> distinct (event_ids es) \<and>
      set (event_ids es) = {''e1'', ''e2'', ''e3''}"
proof -
  let ?l = "sync_example_record ''q'' ''A'' 5 ''qa'' AppendOnly
             (JArray [JObject [(''id'', JString ''e1'')], JString ''note'', JObject [(''id'', JString ''e2'')]])"
  let ?r = "sync_example_record ''q'' ''B'' 7 ''qb'' AppendOnly
             (JArray [JObject [(''id'', JString ''e1'')], JObject [(''event_id'', JString ''e3'')]])"
  have ids: "event_ids (extract_events (sr_payload ?l)) = [''e1'', ''e2'']"
    "event_ids (extract_events (sr_payload ?r)) = [''e1'', ''e3'']"
    "length (extract_events (sr_payload ?l)) = 3"
    by (simp_all add: sync_example_record_def extract_event_id_def)
  show ?thesis
    using append_only_merge_keeps_events [of ?l "\<lambda>_. ''u''" 0 ?r] ids by (simp add: Let_def insert_commute)
qed

lemma decrypt_encrypt_witness:
  "bind_result
     (encrypt_sync_object (\<lambda>bs. map (char_of \<circ> unat) bs) (\<lambda>c k. [of_nat (length c + length k)]) 1 [7]
        (session_key_new 0 ''k'' [1, 2] 10) \<lparr>so_metadata = m, so_content = [5, 6, 7]\<rparr>)
     (decrypt_payload (\<lambda>bs. map (char_of \<circ> unat) bs) (\<lambda>c k. [of_nat (length c + length k)]) 2
        (session_key_new 0 ''k'' [1, 2] 10)) = Inr [5, 6, 7]"
  using decrypt_encrypt [of "session_key_new 0 ''k'' [1, 2] 10" 1 2 "\<lambda>bs. map (char_of \<circ> unat) bs"
      "\<lambda>c k. [of_nat (length c + length k)]" "[7]" "\<lparr>so_metadata = m, so_content = [5, 6, 7]\<rparr>"]
  by (simp add: session_key_new_def key_is_expired_def)

end
