(* ===== verification/P2p_Sync.thy ===== *)
theory P2p_Sync
  imports Sync_Runtime
begin

text \<open>
  One synchronization session between two trusted devices
  (\<open>p2p-sync-runtime/src/lib.rs\<close>): the messages, the memory transport and
  \<open>P2pSyncOrchestrator.sync\<close>.

  A transport is an operation on a world of any type, so that a peer may answer anything.
  The state of a session is the local manifest, the number of UUIDs drawn and that world.
\<close>

section \<open>Messages and transports\<close>

datatype (plugins only: code size) sync_message =
    ManifestRequest device_id string
  | ManifestResponse device_id sync_manifest
  | ObjectRequest device_id "sync_object_id list"
  | ObjectResponse device_id "sync_record list"
  | SyncAck device_id nat

datatype (plugins only: code size) transport_error =
    DeviceNotReachable string
  | MessageTooLarge nat
  | Timeout nat
  | Serialization string
  | ConnectionClosed

type_synonym 'w sync_transport = "device_id \<Rightarrow> sync_message \<Rightarrow> ('w, transport_error, sync_message) prog"

record memory_sync_transport =
  ms_inbox :: "(device_id, sync_message list) hmap"
  ms_manifests :: "(device_id, sync_manifest) hmap"
  ms_records :: "(device_id, (sync_object_id, sync_record) hmap) hmap"
  ms_reachable :: "(device_id, bool) hmap"

definition memory_sync_new :: memory_sync_transport where
  "memory_sync_new = \<lparr>ms_inbox = [], ms_manifests = [], ms_records = [], ms_reachable = []\<rparr>"

definition register_device ::
    "device_id \<Rightarrow> sync_manifest \<Rightarrow> (sync_object_id, sync_record) hmap \<Rightarrow> memory_sync_transport \<Rightarrow> memory_sync_transport" where
  "register_device d m rs t = t\<lparr>ms_manifests := hm_put d m (ms_manifests t), ms_records := hm_put d rs (ms_records t),
     ms_reachable := hm_put d True (ms_reachable t)\<rparr>"

definition set_reachable :: "device_id \<Rightarrow> bool \<Rightarrow> memory_sync_transport \<Rightarrow> memory_sync_transport" where
  "set_reachable d b t = t\<lparr>ms_reachable := hm_put d b (ms_reachable t)\<rparr>"

definition get_inbox :: "memory_sync_transport \<Rightarrow> device_id \<Rightarrow> sync_message list" where
  "get_inbox t d = (case m_get (ms_inbox t) d of None \<Rightarrow> [] | Some ms \<Rightarrow> ms)"

definition is_reachable :: "memory_sync_transport \<Rightarrow> device_id \<Rightarrow> bool" where
  "is_reachable t d = (case m_get (ms_reachable t) d of None \<Rightarrow> False | Some b \<Rightarrow> b)"

text \<open>The clock is read only to date the empty manifest of a device that has none.\<close>

definition memory_sync_send :: "datetime \<Rightarrow> memory_sync_transport sync_transport" where
  "memory_sync_send now d msg = (\<lambda>t.
     if \<not> is_reachable t d then (Inl (DeviceNotReachable (device_text d)), t)
     else
       (let t' = t\<lparr>ms_inbox := hm_put d (get_inbox t d @ [msg]) (ms_inbox t)\<rparr> in
        case msg of
          ManifestRequest _ _ \<Rightarrow>
            (Inr (ManifestResponse d
               (case m_get (ms_manifests t') d of None \<Rightarrow> sync_manifest_new d [] now | Some m \<Rightarrow> m)), t')
        | ObjectRequest _ ids \<Rightarrow>
            (let rs = (case m_get (ms_records t') d of None \<Rightarrow> [] | Some rs \<Rightarrow> rs)
             in (Inr (ObjectResponse d (List.map_filter (m_get rs) ids)), t'))
        | _ \<Rightarrow> (Inl (Serialization ''unexpected message type''), t')))"

section \<open>The orchestrator\<close>

datatype (plugins only: code size) sync_error =
    AgentOsIdMismatch string string
  | DeviceNotTrusted string
  | TransportFailure transport_error
  | AlreadyInProgress

record sync_outcome =
  oc_peer_device :: device_id
  oc_diff :: manifest_diff
  oc_merge_result :: merge_result
  oc_objects_received :: nat
  oc_completed_at :: datetime

record orchestrator =
  or_local_device :: device_id
  or_agent_os_id :: string
  or_trust_store :: device_trust_store

type_synonym ('w, 'a) session = "(sync_manifest \<times> nat \<times> 'w, sync_error, 'a) prog"

definition exchange :: "'w sync_transport \<Rightarrow> device_id \<Rightarrow> sync_message \<Rightarrow> ('w, sync_message) session" where
  "exchange send peer msg = (\<lambda>(m, n, w).
     case send peer msg w of
       (Inl e, w') \<Rightarrow> (Inl (TransportFailure e), m, n, w')
     | (Inr r, w') \<Rightarrow> (Inr r, m, n, w'))"

definition expected_manifest :: "sync_message \<Rightarrow> sync_error + sync_manifest" where
  "expected_manifest msg = (case msg of
       ManifestResponse _ m \<Rightarrow> Inr m
     | _ \<Rightarrow> Inl (TransportFailure (Serialization ''expected manifest response'')))"

definition expected_objects :: "sync_message \<Rightarrow> sync_error + sync_record list" where
  "expected_objects msg = (case msg of
       ObjectResponse _ rs \<Rightarrow> Inr rs
     | _ \<Rightarrow> Inl (TransportFailure (Serialization ''expected object response'')))"

text \<open>Step 4: what was asked for is written into the local manifest as it arrives.\<close>

definition fetch_objects ::
    "'w sync_transport \<Rightarrow> orchestrator \<Rightarrow> device_id \<Rightarrow> sync_object_id list \<Rightarrow> ('w, nat) session" where
  "fetch_objects send me peer ids =
     (if ids = [] then (\<lambda>s. (Inr 0, s))
      else
        andThen (exchange send peer (ObjectRequest (or_local_device me) ids)) (\<lambda>response.
        andThen (lift (expected_objects response)) (\<lambda>objects (m, n, w).
          let m' = fold manifest_upsert objects m in (Inr (length (sm_objects m')), m', n, w))))"

text \<open>Steps 5 and 6: the merge, and an acknowledgement whose failure is ignored.\<close>

definition merge_and_ack ::
    "'w sync_transport \<Rightarrow> (nat \<Rightarrow> string) \<Rightarrow> walk_order \<Rightarrow> datetime \<Rightarrow> orchestrator \<Rightarrow> device_id \<Rightarrow>
     manifest_diff \<Rightarrow> sync_manifest \<Rightarrow> nat \<Rightarrow> ('w, sync_outcome) session" where
  "merge_and_ack send uuid ho now me peer diff remote received = (\<lambda>(m, n, w).
     let (n', m', res) = merge_manifests uuid ho remote n m;
         w' = snd (send peer (SyncAck (or_local_device me) (total_changes res)) w)
     in (Inr \<lparr>oc_peer_device = peer, oc_diff = diff, oc_merge_result = res, oc_objects_received = received,
              oc_completed_at = now\<rparr>, m', n', w'))"

definition p2p_sync ::
    "'w sync_transport \<Rightarrow> (nat \<Rightarrow> string) \<Rightarrow> walk_order \<Rightarrow> datetime \<Rightarrow> orchestrator \<Rightarrow> device_id \<Rightarrow> ('w, sync_outcome) session" where
  "p2p_sync send uuid ho now me peer =
     andThen (lift (ensure (is_trusted (or_trust_store me) peer) (DeviceNotTrusted (device_text peer)))) (\<lambda>_.
     andThen (exchange send peer (ManifestRequest (or_local_device me) (or_agent_os_id me))) (\<lambda>response.
     andThen (lift (expected_manifest response)) (\<lambda>remote.
     andThen (lift (ensure (sm_agent_os_id remote = or_agent_os_id me)
       (AgentOsIdMismatch (or_agent_os_id me) (sm_agent_os_id remote)))) (\<lambda>_ s.
     (let diff = diff_manifests ho (fst s) remote in
      andThen (fetch_objects send me peer (md_remote_only diff @ md_conflicting diff))
        (merge_and_ack send uuid ho now me peer diff remote) s)))))"

section \<open>What a failed session leaves\<close>

lemma revoke_then_untrusted: "revoke_trust d s = (Inr u, s') \<Longrightarrow> \<not> is_trusted s' d"
  by (auto simp: revoke_trust_def is_trusted_def split: option.splits)

lemma untrusted_session:
  "\<not> is_trusted (or_trust_store me) peer \<Longrightarrow>
   p2p_sync send uuid ho now me peer s = (Inl (DeviceNotTrusted (device_text peer)), s)"
  by (simp add: p2p_sync_def ensure_def raise_def)

lemma exchange_manifest: "exchange send peer msg s = (r, s') \<Longrightarrow> fst s' = fst s"
  by (cases s) (auto simp: exchange_def split: prod.splits sum.splits)

lemma fetch_objects_fails: "fetch_objects send me peer ids s = (Inl e, s') \<Longrightarrow> fst s' = fst s"
  by (auto simp: fetch_objects_def andThen_Inl_iff lift_def Let_def split: if_splits prod.splits dest: exchange_manifest)

lemma merge_and_ack_succeeds: "merge_and_ack send uuid ho now me peer diff remote k s \<noteq> (Inl e, s')"
  by (cases s) (auto simp: merge_and_ack_def Let_def split: prod.splits)

lemma failed_session_keeps_manifest:
  assumes "p2p_sync send uuid ho now me peer s = (Inl e, s')"
  shows "fst s' = fst s"
  using assms
  by (auto simp: p2p_sync_def andThen_Inl_iff Let_def lift_def merge_and_ack_succeeds
      dest!: exchange_manifest fetch_objects_fails)

text \<open>
  A session with an untrusted device fails before anything is sent, so that neither the
  manifest nor the world changes; and however a session fails, whatever the transport
  answers, the local manifest is the one from before.
\<close>

lemma failed_sync_changes_nothing:
  assumes "p2p_sync send uuid ho now me peer s = (Inl e, s')"
  shows "fst s' = fst s \<and> (is_trusted (or_trust_store me) peer \<or> (s' = s \<and> e = DeviceNotTrusted (device_text peer)))"
  using failed_session_keeps_manifest [OF assms] untrusted_session [of me peer send uuid ho now s] assms by auto

section \<open>A session with a peer that answers from its manifest\<close>

definition keyed_manifest :: "sync_manifest \<Rightarrow> bool" where
  "keyed_manifest m = list_all (\<lambda>(i, r). sr_object_id r = i) (sm_objects m)"

definition serves_manifest :: "memory_sync_transport \<Rightarrow> device_id \<Rightarrow> sync_manifest \<Rightarrow> bool" where
  "serves_manifest t d m \<longleftrightarrow> is_reachable t d \<and> m_get (ms_manifests t) d = Some m \<and>
     m_get (ms_records t) d = Some (sm_objects m) \<and> keyed_manifest m"

lemma keyed_manifestD: "keyed_manifest m \<Longrightarrow> m_get (sm_objects m) i = Some r \<Longrightarrow> sr_object_id r = i"
  by (auto simp: keyed_manifest_def list_all_iff dest!: m_get_in_set)

lemma send_keeps_serving:
  "serves_manifest t d m \<Longrightarrow> serves_manifest (snd (memory_sync_send now d msg t)) d m"
  by (auto simp: memory_sync_send_def serves_manifest_def is_reachable_def Let_def split: sync_message.split)

lemma upsert_fetched:
  assumes "keyed_manifest r"
  shows "m_get (sm_objects (fold manifest_upsert (List.map_filter (m_get (sm_objects r)) ids) m)) j =
    (if j \<in> set ids \<and> m_get (sm_objects r) j \<noteq> None then m_get (sm_objects r) j else m_get (sm_objects m) j)"
proof (induction ids arbitrary: m)
  case Nil
  then show ?case by (simp add: map_filter_simps)
next
  case (Cons i ids)
  then show ?case
    using keyed_manifestD [OF assms, of i]
    by (auto simp: map_filter_simps manifest_upsert_def split: option.split)
qed

lemma merge_ids_in_sync:
  assumes "\<And>i. i \<in> set ids \<Longrightarrow> version_at m i = version_at remote i"
  shows "\<exists>skipped. merge_ids uuid remote ids (n, m, res) = (n, m, res\<lparr>mg_skipped := skipped\<rparr>)"
  using assms
proof (induction ids arbitrary: res)
  case Nil
  then show ?case by (auto simp: merge_ids_def intro: exI [of _ "mg_skipped res"])
next
  case (Cons i ids)
  have here: "version_at m i = version_at remote i" using Cons.prems by simp
  have "\<exists>sk. merge_ids uuid remote (i # ids) (n, m, res) = merge_ids uuid remote ids (n, m, res\<lparr>mg_skipped := sk\<rparr>)"
  proof (cases "m_get (sm_objects remote) i")
    case None
    then show ?thesis by (auto simp: merge_ids_def intro!: exI [of _ "mg_skipped res"])
  next
    case (Some r)
    with here obtain l where "m_get (sm_objects m) i = Some l" "sr_version_hash l = sr_version_hash r"
      by (auto simp: version_at_def)
    with Some show ?thesis by (auto simp: merge_ids_def merge_object_def)
  qed
  with Cons.IH Cons.prems show ?case by (metis (no_types, lifting) list.set_intros(2) merge_result.update_convs(3) merge_result.surjective)
qed

text \<open>What the local manifest is after the answer to the object request.\<close>

definition fetched :: "walk_order \<Rightarrow> sync_manifest \<Rightarrow> sync_manifest \<Rightarrow> sync_manifest" where
  "fetched ho local remote =
     (let d = diff_manifests ho local remote
      in fold manifest_upsert (List.map_filter (m_get (sm_objects remote)) (md_remote_only d @ md_conflicting d)) local)"

lemma version_at_fetched:
  assumes "walks ho" and "keyed_manifest remote"
  shows "version_at (fetched ho local remote) j =
    (case version_at remote j of None \<Rightarrow> version_at local j | Some v \<Rightarrow> Some v)"
proof -
  have ids: "set (ho (m_keys (sm_objects m))) = {i. m_contains (sm_objects m) i}" for m
    using walks_facts [OF assms(1)] by (auto simp: m_contains_iff)
  show ?thesis
    unfolding fetched_def Let_def version_at_def [of _ j] upsert_fetched [OF assms(2)]
    by (auto simp: diff_manifests_def Let_def ids version_at_def m_contains_def split: option.split)
qed

lemma fetch_objects_served:
  assumes "serves_manifest t peer remote" and "d = diff_manifests ho m remote"
  shows "\<exists>k t'. serves_manifest t' peer remote \<and>
    fetch_objects (memory_sync_send clock) me peer (md_remote_only d @ md_conflicting d) (m, n, t) =
      (Inr k, fetched ho m remote, n, t')"
proof (cases "md_remote_only d @ md_conflicting d = []")
  case True
  with assms show ?thesis
    by (auto simp: fetch_objects_def fetched_def Let_def map_filter_simps)
next
  case False
  let ?msg = "ObjectRequest (or_local_device me) (md_remote_only d @ md_conflicting d)"
  obtain t' where t': "memory_sync_send clock peer ?msg t =
      (Inr (ObjectResponse peer (List.map_filter (m_get (sm_objects remote)) (md_remote_only d @ md_conflicting d))), t')"
    using assms(1) by (auto simp: memory_sync_send_def serves_manifest_def Let_def)
  from send_keeps_serving [OF assms(1), of clock ?msg] t' have "serves_manifest t' peer remote" by simp
  moreover have "fetch_objects (memory_sync_send clock) me peer (md_remote_only d @ md_conflicting d) (m, n, t) =
      (Inr (length (sm_objects (fetched ho m remote))), fetched ho m remote, n, t')"
    unfolding fetch_objects_def if_not_P [OF False]
    by (simp add: andThen_def exchange_def t' [unfolded assms(2)] expected_objects_def lift_def fetched_def assms(2) Let_def
        del: append_is_Nil_conv)
  ultimately show ?thesis by blast
qed

lemma merge_after_fetch:
  assumes "walks ho" and "keyed_manifest remote"
  shows "\<exists>skipped. merge_manifests uuid ho remote n (fetched ho m remote) =
    (n, fetched ho m remote, \<lparr>mg_added = [], mg_updated = [], mg_skipped = skipped, mg_conflicts = []\<rparr>)"
proof -
  let ?r = "\<lparr>mg_added = [], mg_updated = [], mg_skipped = [], mg_conflicts = []\<rparr>"
  have "version_at (fetched ho m remote) i = version_at remote i" if "i \<in> set (ho (m_keys (sm_objects remote)))" for i
    using that walks_facts [OF assms(1)] version_at_fetched [OF assms, of m i] version_at_None [of remote i]
    by (auto simp: m_contains_iff split: option.splits)
  from merge_ids_in_sync [of "ho (m_keys (sm_objects remote))", OF this, of uuid n ?r]
  show ?thesis by (auto simp: merge_manifests_def)
qed

lemma served_session:
  assumes "walks ho" and "serves_manifest t peer remote" and "is_trusted (or_trust_store me) peer"
    and "sm_agent_os_id remote = or_agent_os_id me"
  shows "\<exists>oc t'. p2p_sync (memory_sync_send clock) uuid ho now me peer (m, n, t) = (Inr oc, fetched ho m remote, n, t') \<and>
    mg_conflicts (oc_merge_result oc) = [] \<and> mg_added (oc_merge_result oc) = [] \<and> mg_updated (oc_merge_result oc) = []"
proof -
  let ?msg = "ManifestRequest (or_local_device me) (or_agent_os_id me)"
  obtain t1 where t1: "memory_sync_send clock peer ?msg t = (Inr (ManifestResponse peer remote), t1)"
    using assms(2) by (auto simp: memory_sync_send_def serves_manifest_def Let_def)
  from send_keeps_serving [OF assms(2), of clock ?msg] t1 have "serves_manifest t1 peer remote" by simp
  then obtain k t2 where fetch: "fetch_objects (memory_sync_send clock) me peer
      (md_remote_only (diff_manifests ho m remote) @ md_conflicting (diff_manifests ho m remote)) (m, n, t1) =
      (Inr k, fetched ho m remote, n, t2)"
    using fetch_objects_served [OF _ refl] by blast
  have "keyed_manifest remote" using assms(2) by (simp add: serves_manifest_def)
  then obtain sk where merge: "merge_manifests uuid ho remote n (fetched ho m remote) =
      (n, fetched ho m remote, \<lparr>mg_added = [], mg_updated = [], mg_skipped = sk, mg_conflicts = []\<rparr>)"
    using merge_after_fetch [OF assms(1)] by blast
  show ?thesis
    using assms(3,4)
    by (simp add: p2p_sync_def ensure_def andThen_def lift_def exchange_def t1 expected_manifest_def Let_def fetch
        merge_and_ack_def merge)
qed

text \<open>
  What a session does to a conflict. When a trusted, reachable peer of the same AgentOS
  answers from its manifest, the session succeeds and every object the peer has ends up at
  the peer's version; only objects the peer lacks keep the local one. The merge that follows
  the download therefore never sees a conflict, whatever the timestamps and merge policies. This
  is what the code does, not what it means to do: the comment on the merge has conflicts resolved
  by their policies.
\<close>

lemma sync_takes_the_peers_version:
  assumes "walks ho" and "serves_manifest t peer remote" and "is_trusted (or_trust_store me) peer"
    and "sm_agent_os_id remote = or_agent_os_id me"
  shows "\<exists>oc m' t'. p2p_sync (memory_sync_send clock) uuid ho now me peer (m, n, t) = (Inr oc, m', n, t') \<and>
    mg_conflicts (oc_merge_result oc) = [] \<and>
    version_at m' j = (case version_at remote j of None \<Rightarrow> version_at m j | Some v \<Rightarrow> Some v)"
proof -
  have "keyed_manifest remote" using assms(2) by (simp add: serves_manifest_def)
  then show ?thesis
    using served_session [OF assms, of clock uuid now m n] version_at_fetched [OF assms(1), of remote m j] by metis
qed

section \<open>Concrete sessions\<close>

definition example_trust :: "trust_level \<Rightarrow> device_trust_store" where
  "example_trust l = upsert_trust \<lparr>tr_device_id = DeviceId ''B'', tr_peer_device_id = DeviceId ''A'', tr_trust_level = l,
     tr_paired_at = 0, tr_last_verified_at = None, tr_pairing_session_id = ''s''\<rparr> \<lparr>dts_records = [], dts_sessions = []\<rparr>"

definition example_orchestrator :: "trust_level \<Rightarrow> orchestrator" where
  "example_orchestrator l =
     \<lparr>or_local_device = DeviceId ''A'', or_agent_os_id = ''os'', or_trust_store = example_trust l\<rparr>"

lemma failed_sync_changes_nothing_witness:
  "\<exists>s'. p2p_sync (memory_sync_send 0) (\<lambda>_. []) rev 0 (example_orchestrator TrustRevoked) (DeviceId ''B'')
      (sync_example_manifest ''A'' [], 0, memory_sync_new) = (Inl (DeviceNotTrusted ''B''), s') \<and>
    s' = (sync_example_manifest ''A'' [], 0, memory_sync_new)"
proof -
  let ?s = "(sync_example_manifest ''A'' [], 0, memory_sync_new)"
  have run: "p2p_sync (memory_sync_send 0) (\<lambda>_. []) rev 0 (example_orchestrator TrustRevoked) (DeviceId ''B'') ?s =
      (Inl (DeviceNotTrusted ''B''), ?s)"
    by code_simp
  show ?thesis using failed_sync_changes_nothing [OF run] run by auto
qed

text \<open>The local record is from instant 9, the peer's from instant 1: the peer's stays.\<close>

lemma sync_takes_the_peers_version_witness:
  "let new = sync_example_record ''x'' ''A'' 9 ''new'' LastWriteWins JNull;
       old = sync_example_record ''x'' ''B'' 1 ''old'' LastWriteWins JNull;
       a = sync_example_manifest ''A'' [new]; b = sync_example_manifest ''B'' [old];
       t = register_device (DeviceId ''B'') b (sm_objects b) memory_sync_new
   in \<exists>oc m' t'. p2p_sync (memory_sync_send 0) (\<lambda>_. []) rev 0 (example_orchestrator TrustFull) (DeviceId ''B'') (a, 0, t) =
        (Inr oc, m', 0, t') \<and> mg_conflicts (oc_merge_result oc) = [] \<and>
        version_at m' (SyncObjectId ''x'') = Some ''old''"
proof -
  let ?a = "sync_example_manifest ''A'' [sync_example_record ''x'' ''A'' 9 ''new'' LastWriteWins JNull]"
  let ?b = "sync_example_manifest ''B'' [sync_example_record ''x'' ''B'' 1 ''old'' LastWriteWins JNull]"
  let ?t = "register_device (DeviceId ''B'') ?b (sm_objects ?b) memory_sync_new"
  have "serves_manifest ?t (DeviceId ''B'') ?b" by code_simp
  moreover have "is_trusted (or_trust_store (example_orchestrator TrustFull)) (DeviceId ''B'')" by code_simp
  moreover have "version_at ?b (SyncObjectId ''x'') = Some ''old''" by code_simp
  moreover have "sm_agent_os_id ?b = or_agent_os_id (example_orchestrator TrustFull)" by code_simp
  ultimately show ?thesis
    using sync_takes_the_peers_version [of rev ?t "DeviceId ''B''" ?b "example_orchestrator TrustFull" 0 "\<lambda>_. []" 0 ?a 0
        "SyncObjectId ''x''"]
    by (simp add: walks_def Let_def)
qed

end
