(* ===== verification/Example_Codec.thy ===== *)
theory Example_Codec
  imports Prelude
begin

text \<open>
  A small text format with a reader for every writer. The formats of the program come from
  serde and are parameters of the model; the witnesses of the properties that assume a round
  trip of such a format use this one.
\<close>

type_synonym 'a writer = "'a \<Rightarrow> string"
type_synonym 'a reader = "string \<Rightarrow> ('a \<times> string) option"

definition reads_back :: "'a writer \<Rightarrow> 'a reader \<Rightarrow> bool" where
  "reads_back w r \<longleftrightarrow> (\<forall>x t. r (w x @ t) = Some (x, t))"

named_theorems codec_laws \<open>readers that read back what is written\<close>

fun write_nat :: "nat writer" where
  "write_nat 0 = [CHR ''.'']"
| "write_nat (Suc n) = CHR ''i'' # write_nat n"

fun read_nat :: "nat reader" where
  "read_nat [] = None"
| "read_nat (c # s) = (if c = CHR ''i'' then map_option (\<lambda>(n, t). (Suc n, t)) (read_nat s) else Some (0, s))"

lemma reads_nat [codec_laws]: "reads_back write_nat read_nat"
proof -
  have "read_nat (write_nat n @ t) = Some (n, t)" for n t by (induction n) simp_all
  then show ?thesis by (simp add: reads_back_def)
qed

definition write_char :: "char writer" where
  "write_char c = [c]"

fun read_char :: "char reader" where
  "read_char [] = None"
| "read_char (c # s) = Some (c, s)"

lemma reads_char [codec_laws]: "reads_back write_char read_char"
  by (simp add: reads_back_def write_char_def)

definition write_pair :: "'a writer \<Rightarrow> 'b writer \<Rightarrow> ('a \<times> 'b) writer" where
  "write_pair w v p = w (fst p) @ v (snd p)"

definition read_pair :: "'a reader \<Rightarrow> 'b reader \<Rightarrow> ('a \<times> 'b) reader" where
  "read_pair r q s = Option.bind (r s) (\<lambda>(x, t). map_option (\<lambda>(y, u). ((x, y), u)) (q t))"

lemma reads_pair [codec_laws]: "reads_back w r \<Longrightarrow> reads_back v q \<Longrightarrow> reads_back (write_pair w v) (read_pair r q)"
  by (simp add: reads_back_def write_pair_def read_pair_def)

text \<open>A type that is an image of another one.\<close>

definition write_via :: "('a \<Rightarrow> 'b) \<Rightarrow> 'b writer \<Rightarrow> 'a writer" where
  "write_via f w x = w (f x)"

definition read_via :: "('b \<Rightarrow> 'a) \<Rightarrow> 'b reader \<Rightarrow> 'a reader" where
  "read_via g r s = map_option (\<lambda>(y, t). (g y, t)) (r s)"

lemma reads_via: "reads_back w r \<Longrightarrow> (\<And>x. g (f x) = x) \<Longrightarrow> reads_back (write_via f w) (read_via g r)"
  by (simp add: reads_back_def write_via_def read_via_def)

fun read_times :: "'a reader \<Rightarrow> nat \<Rightarrow> 'a list reader" where
  "read_times r 0 s = Some ([], s)"
| "read_times r (Suc n) s =
     Option.bind (r s) (\<lambda>(x, t). map_option (\<lambda>(xs, u). (x # xs, u)) (read_times r n t))"

definition write_list :: "'a writer \<Rightarrow> 'a list writer" where
  "write_list w xs = write_nat (length xs) @ concat (map w xs)"

definition read_list :: "'a reader \<Rightarrow> 'a list reader" where
  "read_list r s = Option.bind (read_nat s) (\<lambda>(n, t). read_times r n t)"

lemma reads_list [codec_laws]:
  assumes "reads_back w r"
  shows "reads_back (write_list w) (read_list r)"
proof -
  have "read_times r (length xs) (concat (map w xs) @ t) = Some (xs, t)" for xs t
    using assms by (induction xs) (simp_all add: reads_back_def)
  then show ?thesis
    using reads_nat by (simp add: reads_back_def write_list_def read_list_def)
qed

abbreviation "write_string \<equiv> write_list write_char"
abbreviation "read_string \<equiv> read_list read_char"

definition write_int :: "int writer" where
  "write_int = write_via (\<lambda>i. (nat i, nat (- i))) (write_pair write_nat write_nat)"

definition read_int :: "int reader" where
  "read_int = read_via (\<lambda>(m, n). int m - int n) (read_pair read_nat read_nat)"

lemma reads_int [codec_laws]: "reads_back write_int read_int"
  unfolding write_int_def read_int_def by (rule reads_via) (auto intro: codec_laws)

definition write_option :: "'a writer \<Rightarrow> 'a option writer" where
  "write_option w = write_via (\<lambda>x. case x of None \<Rightarrow> [] | Some y \<Rightarrow> [y]) (write_list w)"

definition read_option :: "'a reader \<Rightarrow> 'a option reader" where
  "read_option r = read_via (\<lambda>xs. case xs of [] \<Rightarrow> None | y # _ \<Rightarrow> Some y) (read_list r)"

lemma reads_option [codec_laws]: "reads_back w r \<Longrightarrow> reads_back (write_option w) (read_option r)"
  unfolding write_option_def read_option_def by (rule reads_via) (auto intro: codec_laws split: option.split)

text \<open>A whole text: what is read must leave nothing.\<close>

definition read_all :: "'a reader \<Rightarrow> string \<Rightarrow> string + 'a" where
  "read_all r s = (case r s of Some (x, []) \<Rightarrow> Inr x | _ \<Rightarrow> Inl ''not readable'')"

lemma read_all_written: "reads_back w r \<Longrightarrow> read_all r (w x) = Inr x"
  using append_Nil2 [of "w x"] unfolding reads_back_def read_all_def by (metis (no_types, lifting) list.simps(4) option.simps(5) prod.simps(2))

end
