(* ===== verification/Credentials.thy ===== *)
theory Credentials
  imports Record_Log Example_Codec "HOL-Library.Word" "HOL-Library.Multiset"
begin

text \<open>
  Identities and credentials (\<open>identity-core/src/lib.rs\<close>): the policy on cryptography, the
  text forms of keys and signatures, the credential store as an interface with its three
  providers (memory, a key chain with its metadata beside it, an encrypted file), and what
  is done over any store: rotation, revocation of a device, and the life of OAuth tokens.

  Ed25519, the cipher, the key chain and JSON are parameters. The file system is the content
  of the one file, \<open>None\<close> while it does not exist; that reading and writing it succeed is
  part of the model.
\<close>

section \<open>Identities\<close>

datatype (plugins only: code size) agentos_id = AgentOsId string

datatype (plugins only: code size) identity_device_id = IdentityDeviceId string

datatype (plugins only: code size) local_master_key_ref = LocalMasterKeyRef string

record public_identity =
  pi_agentos_id :: agentos_id
  pi_device_id :: identity_device_id
  pi_display_name :: string
  pi_created_at :: int

record identity_proof =
  ip_agentos_id :: agentos_id
  ip_device_id :: identity_device_id
  ip_challenge :: string
  ip_signature :: string
  ip_created_at :: int

record signed_challenge =
  sg_challenge :: string
  sg_signature :: string
  sg_public_key :: string

datatype (plugins only: code size) identity_error =
    IdentityNotFound string | InvalidSignature | InvalidKey string | InvalidEncoding string | CryptoError string
  | IdentityInternal string

datatype (plugins only: code size) identity_runtime_mode = Development | Production

datatype (plugins only: code size) crypto_provider_kind = FakeCrypto | Ed25519Crypto

record identity_runtime_policy =
  rp_mode :: identity_runtime_mode
  rp_crypto_provider :: crypto_provider_kind

definition identity_runtime_policy_default :: identity_runtime_policy where
  "identity_runtime_policy_default = \<lparr>rp_mode = Development, rp_crypto_provider = FakeCrypto\<rparr>"

datatype (plugins only: code size) identity_policy_error = TestCryptoForbiddenInProduction

definition is_production :: "identity_runtime_policy \<Rightarrow> bool" where
  "is_production p \<longleftrightarrow> rp_mode p = Production"

definition uses_test_crypto :: "identity_runtime_policy \<Rightarrow> bool" where
  "uses_test_crypto p \<longleftrightarrow> rp_crypto_provider p = FakeCrypto"

definition validate_runtime_policy :: "identity_runtime_policy \<Rightarrow> identity_policy_error + unit" where
  "validate_runtime_policy p =
     ensure (\<not> (is_production p \<and> uses_test_crypto p)) TestCryptoForbiddenInProduction"

definition save_identity :: "public_identity \<Rightarrow> (string, public_identity) hmap \<Rightarrow> (string, public_identity) hmap" where
  "save_identity p m = (case pi_agentos_id p of AgentOsId s \<Rightarrow> hm_put s p m)"

definition get_identity :: "agentos_id \<Rightarrow> (string, public_identity) hmap \<Rightarrow> identity_error + public_identity" where
  "get_identity i m = (case i of AgentOsId s \<Rightarrow> ok_or (m_get m s) (IdentityNotFound s))"

definition list_identities :: "(string, public_identity) hmap \<Rightarrow> public_identity list" where
  "list_identities m = m_values m"

section \<open>Text forms of keys and signatures\<close>

unbundle bit_operations_syntax

type_synonym key_material = "8 word list"

definition HEX :: string where
  "HEX = ''0123456789abcdef''"

definition encode_hex :: "key_material \<Rightarrow> string" where
  "encode_hex bs = concat (map (\<lambda>b. [HEX ! unat (drop_bit 4 b), HEX ! unat (b AND 15)]) bs)"

definition decode_hex_nibble :: "char \<Rightarrow> identity_error + 8 word" where
  "decode_hex_nibble c =
     (let n = byte c in
      if 48 \<le> n \<and> n \<le> 57 then Inr (of_nat (n - 48))
      else if 97 \<le> n \<and> n \<le> 102 then Inr (of_nat (n - 97 + 10))
      else if 65 \<le> n \<and> n \<le> 70 then Inr (of_nat (n - 65 + 10))
      else Inl (InvalidEncoding ''hex value contains non-hex character''))"

text \<open>\<open>chunks_exact(2)\<close> drops a last single byte.\<close>

fun decode_hex_pairs :: "string \<Rightarrow> identity_error + key_material" where
  "decode_hex_pairs (h # l # s) =
     bind_result (decode_hex_nibble h) (\<lambda>high.
     bind_result (decode_hex_nibble l) (\<lambda>low.
     bind_result (decode_hex_pairs s) (\<lambda>bs. Inr ((push_bit 4 high OR low) # bs))))"
| "decode_hex_pairs _ = Inr []"

definition decode_hex_exact :: "string \<Rightarrow> nat \<Rightarrow> identity_error + key_material" where
  "decode_hex_exact s n =
     (if length s \<noteq> n * 2
      then Inl (InvalidEncoding (''hex value must be '' @ decimal n @ '' bytes / '' @ decimal (n * 2) @
        '' chars, got '' @ decimal (length s) @ '' chars''))
      else decode_hex_pairs s)"

datatype (plugins only: code size) crypto_algorithm = Ed25519

datatype (plugins only: code size) key_encoding = Hex

text \<open>A serialized private key, public key or signature.\<close>

record serialized_key =
  sz_algorithm :: crypto_algorithm
  sz_encoding :: key_encoding
  sz_value :: string

record crypto_key_pair =
  ck_private_key :: serialized_key
  ck_public_key :: serialized_key

text \<open>The operations of \<open>ed25519_dalek\<close>; \<open>ed_from_bytes\<close> rejects what is no key.\<close>

record ed25519 =
  ed_verifying_key :: "key_material \<Rightarrow> key_material"
  ed_sign :: "key_material \<Rightarrow> string \<Rightarrow> key_material"
  ed_from_bytes :: "key_material \<Rightarrow> string + unit"
  ed_verify :: "key_material \<Rightarrow> string \<Rightarrow> key_material \<Rightarrow> bool"

definition ensure_ed25519_hex :: "crypto_algorithm \<Rightarrow> key_encoding \<Rightarrow> identity_error + unit" where
  "ensure_ed25519_hex a e =
     bind_result (ensure (a = Ed25519) (InvalidKey ''unsupported algorithm'')) (\<lambda>_.
     ensure (e = Hex) (InvalidEncoding ''unsupported encoding''))"

abbreviation ed25519_hex :: "key_material \<Rightarrow> serialized_key" where
  "ed25519_hex bs \<equiv> \<lparr>sz_algorithm = Ed25519, sz_encoding = Hex, sz_value = encode_hex bs\<rparr>"

text \<open>The 32 bytes drawn for the signing key are an argument.\<close>

definition generate_keypair :: "ed25519 \<Rightarrow> key_material \<Rightarrow> crypto_key_pair" where
  "generate_keypair E seed =
     \<lparr>ck_private_key = ed25519_hex seed, ck_public_key = ed25519_hex (ed_verifying_key E seed)\<rparr>"

definition ed25519_sign :: "ed25519 \<Rightarrow> string \<Rightarrow> serialized_key \<Rightarrow> identity_error + serialized_key" where
  "ed25519_sign E message k =
     bind_result (ensure_ed25519_hex (sz_algorithm k) (sz_encoding k)) (\<lambda>_.
     bind_result (decode_hex_exact (sz_value k) 32) (\<lambda>bs.
     bind_result (ensure (length bs = 32) (InvalidKey ''ed25519 private key must be 32 bytes'')) (\<lambda>_.
     Inr (ed25519_hex (ed_sign E bs message)))))"

definition ed25519_verify :: "ed25519 \<Rightarrow> string \<Rightarrow> serialized_key \<Rightarrow> serialized_key \<Rightarrow> identity_error + bool" where
  "ed25519_verify E message sig k =
     bind_result (ensure_ed25519_hex (sz_algorithm sig) (sz_encoding sig)) (\<lambda>_.
     bind_result (ensure_ed25519_hex (sz_algorithm k) (sz_encoding k)) (\<lambda>_.
     bind_result (decode_hex_exact (sz_value k) 32) (\<lambda>kb.
     bind_result (ensure (length kb = 32) (InvalidKey ''ed25519 public key must be 32 bytes'')) (\<lambda>_.
     bind_result (case ed_from_bytes E kb of Inl e \<Rightarrow> Inl (InvalidKey e) | Inr _ \<Rightarrow> Inr ()) (\<lambda>_.
     bind_result (decode_hex_exact (sz_value sig) 64) (\<lambda>sb.
     bind_result (ensure (length sb = 64) (InvalidKey ''ed25519 signature must be 64 bytes'')) (\<lambda>_.
     Inr (ed_verify E kb message sb))))))))"

definition sign_challenge :: "ed25519 \<Rightarrow> string \<Rightarrow> serialized_key \<Rightarrow> serialized_key \<Rightarrow> identity_error + signed_challenge" where
  "sign_challenge E challenge private public =
     bind_result (ed25519_sign E challenge private) (\<lambda>sig.
     Inr \<lparr>sg_challenge = challenge, sg_signature = sz_value sig, sg_public_key = sz_value public\<rparr>)"

definition verify_challenge :: "ed25519 \<Rightarrow> signed_challenge \<Rightarrow> identity_error + bool" where
  "verify_challenge E s =
     ed25519_verify E (sg_challenge s)
       \<lparr>sz_algorithm = Ed25519, sz_encoding = Hex, sz_value = sg_signature s\<rparr>
       \<lparr>sz_algorithm = Ed25519, sz_encoding = Hex, sz_value = sg_public_key s\<rparr>"

text \<open>The provider for tests signs with a prefix, whatever the key.\<close>

definition fake_sign :: "string \<Rightarrow> local_master_key_ref \<Rightarrow> string" where
  "fake_sign challenge key = ''signed:'' @ challenge"

definition fake_verify :: "string \<Rightarrow> string \<Rightarrow> bool" where
  "fake_verify challenge sig \<longleftrightarrow> sig = ''signed:'' @ challenge"

definition create_proof ::
    "int \<Rightarrow> agentos_id \<Rightarrow> identity_device_id \<Rightarrow> string \<Rightarrow> local_master_key_ref \<Rightarrow> identity_proof" where
  "create_proof now i d challenge key =
     \<lparr>ip_agentos_id = i, ip_device_id = d, ip_challenge = challenge, ip_signature = fake_sign challenge key,
      ip_created_at = now\<rparr>"

definition verify_proof :: "identity_proof \<Rightarrow> bool" where
  "verify_proof p = fake_verify (ip_challenge p) (ip_signature p)"

section \<open>Credentials\<close>

datatype (plugins only: code size) credential_id = CredentialId string

fun credential_text :: "credential_id \<Rightarrow> string" where
  "credential_text (CredentialId s) = s"

instantiation credential_id :: linorder
begin

definition less_eq_credential_id :: "credential_id \<Rightarrow> credential_id \<Rightarrow> bool" where
  "less_eq_credential_id a b \<longleftrightarrow> credential_text a \<le> credential_text b"

definition less_credential_id :: "credential_id \<Rightarrow> credential_id \<Rightarrow> bool" where
  "less_credential_id a b \<longleftrightarrow> credential_text a < credential_text b"

instance
proof
  fix a b c :: credential_id
  show "a < b \<longleftrightarrow> a \<le> b \<and> \<not> b \<le> a" by (auto simp: less_eq_credential_id_def less_credential_id_def)
  show "a \<le> a" by (simp add: less_eq_credential_id_def)
  show "a \<le> b \<Longrightarrow> b \<le> c \<Longrightarrow> a \<le> c" by (simp add: less_eq_credential_id_def)
  show "a \<le> b \<Longrightarrow> b \<le> a \<Longrightarrow> a = b" by (cases a; cases b) (simp add: less_eq_credential_id_def)
  show "a \<le> b \<or> b \<le> a" by (auto simp: less_eq_credential_id_def)
qed

end

datatype (plugins only: code size) credential_scope =
    ScopeGlobal
  | ScopeAgent agentos_id
  | ScopeDevice identity_device_id
  | ScopeServer string
  | ScopeConnector string
  | ScopeConnectorAccount string string
  | ScopeCustom string string

fun scope_connector_id :: "credential_scope \<Rightarrow> string option" where
  "scope_connector_id (ScopeConnector c) = Some c"
| "scope_connector_id (ScopeConnectorAccount c a) = Some c"
| "scope_connector_id _ = None"

fun scope_account_id :: "credential_scope \<Rightarrow> string option" where
  "scope_account_id (ScopeConnectorAccount c a) = Some a"
| "scope_account_id _ = None"

definition is_for_device :: "credential_scope \<Rightarrow> identity_device_id \<Rightarrow> bool" where
  "is_for_device s d \<longleftrightarrow> s = ScopeDevice d"

record credential_metadata =
  cm_id :: credential_id
  cm_scope :: credential_scope
  cm_label :: string
  cm_created_at :: int
  cm_updated_at :: int

datatype (plugins only: code size) secret_value = SecretValue string

fun expose_secret :: "secret_value \<Rightarrow> string" where
  "expose_secret (SecretValue s) = s"

record credential_record =
  cr_metadata :: credential_metadata
  cr_secret :: secret_value

definition credential_record_new ::
    "credential_id \<Rightarrow> credential_scope \<Rightarrow> string \<Rightarrow> secret_value \<Rightarrow> int \<Rightarrow> credential_record" where
  "credential_record_new i s l v now =
     \<lparr>cr_metadata = \<lparr>cm_id = i, cm_scope = s, cm_label = l, cm_created_at = now, cm_updated_at = now\<rparr>, cr_secret = v\<rparr>"

abbreviation cred_id :: "credential_record \<Rightarrow> credential_id" where
  "cred_id r \<equiv> cm_id (cr_metadata r)"

datatype (plugins only: code size) credential_error =
    CredentialNotFound string | CredentialAlreadyExists string | BackendUnavailable string
  | EncryptionUnavailable string | CredentialIo string | ScopeMismatch string | CredentialInternal string

section \<open>The store interface\<close>

type_synonym credential_map = "(credential_id, credential_record) hmap"

record 's credential_ops =
  cs_write :: "credential_record \<Rightarrow> ('s, credential_error, unit) prog"
  cs_read :: "credential_id \<Rightarrow> ('s, credential_error, credential_record) prog"
  cs_delete :: "credential_id \<Rightarrow> ('s, credential_error, unit) prog"
  cs_list_metadata :: "('s, credential_error, credential_metadata list) prog"

definition find_credential :: "credential_id \<Rightarrow> (credential_id, 'a) hmap \<Rightarrow> credential_error + 'a" where
  "find_credential i m = ok_or (m_get m i) (CredentialNotFound (credential_text i))"

definition memory_credential_ops :: "credential_map credential_ops" where
  "memory_credential_ops =
     \<lparr>cs_write = (\<lambda>r m. (Inr (), bt_put (cred_id r) r m)),
      cs_read = (\<lambda>i m. (find_credential i m, m)),
      cs_delete = (\<lambda>i m. (Inr (), m_remove i m)),
      cs_list_metadata = (\<lambda>m. (Inr (map cr_metadata (m_values m)), m))\<rparr>"

subsection \<open>The key chain\<close>

text \<open>The operations of the backend on its own state.\<close>

record 'b keychain_backend =
  kb_write :: "string \<Rightarrow> string \<Rightarrow> string \<Rightarrow> ('b, credential_error, unit) prog"
  kb_read :: "string \<Rightarrow> string \<Rightarrow> ('b, credential_error, string) prog"
  kb_delete :: "string \<Rightarrow> string \<Rightarrow> ('b, credential_error, unit) prog"

record 'b keychain_store =
  kc_backend :: 'b
  kc_metadata :: "(credential_id, credential_metadata) hmap"

definition keychain_new :: "'b \<Rightarrow> 'b keychain_store" where
  "keychain_new b = \<lparr>kc_backend = b, kc_metadata = []\<rparr>"

definition on_backend :: "('b, credential_error, 'a) prog \<Rightarrow> ('b keychain_store, credential_error, 'a) prog" where
  "on_backend p = (\<lambda>s. case p (kc_backend s) of (r, b) \<Rightarrow> (r, s\<lparr>kc_backend := b\<rparr>))"

definition keychain_ops :: "'b keychain_backend \<Rightarrow> string \<Rightarrow> 'b keychain_store credential_ops" where
  "keychain_ops B service =
     \<lparr>cs_write = (\<lambda>r.
        andThen (on_backend (kb_write B service (credential_text (cred_id r)) (expose_secret (cr_secret r)))) (\<lambda>_ s.
          (Inr (), s\<lparr>kc_metadata := bt_put (cred_id r) (cr_metadata r) (kc_metadata s)\<rparr>))),
      cs_read = (\<lambda>i s.
        andThen (lift (find_credential i (kc_metadata s))) (\<lambda>meta.
        andThen (on_backend (kb_read B service (credential_text i))) (\<lambda>secret.
          ret \<lparr>cr_metadata = meta, cr_secret = SecretValue secret\<rparr>)) s),
      cs_delete = (\<lambda>i.
        andThen (on_backend (kb_delete B service (credential_text i))) (\<lambda>_ s.
          (Inr (), s\<lparr>kc_metadata := m_remove i (kc_metadata s)\<rparr>))),
      cs_list_metadata = (\<lambda>s. (Inr (m_values (kc_metadata s)), s))\<rparr>"

text \<open>The backend of the repository is not linked to the key chain yet: it refuses every call.\<close>

definition system_keychain_refusal :: credential_error where
  "system_keychain_refusal = BackendUnavailable
     ''system macOS Keychain backend is feature-gated but not linked to Security.framework in PR99''"

definition system_keychain_backend :: "unit keychain_backend" where
  "system_keychain_backend =
     \<lparr>kb_write = (\<lambda>s a x b. (Inl system_keychain_refusal, b)),
      kb_read = (\<lambda>s a b. (Inl system_keychain_refusal, b)),
      kb_delete = (\<lambda>s a b. (Inl system_keychain_refusal, b))\<rparr>"

subsection \<open>The encrypted file\<close>

record credential_file_entry =
  fe_metadata :: credential_metadata
  fe_secret :: string

record credential_file_document =
  fd_version :: nat
  fd_records :: "credential_file_entry list"

definition from_record :: "credential_record \<Rightarrow> credential_file_entry" where
  "from_record r = \<lparr>fe_metadata = cr_metadata r, fe_secret = expose_secret (cr_secret r)\<rparr>"

definition into_record :: "credential_file_entry \<Rightarrow> credential_record" where
  "into_record e = \<lparr>cr_metadata = fe_metadata e, cr_secret = SecretValue (fe_secret e)\<rparr>"

definition ENCRYPTED_CREDENTIAL_FILE_VERSION :: nat where
  "ENCRYPTED_CREDENTIAL_FILE_VERSION = 1"

text \<open>The cipher and the JSON form of the document.\<close>

record file_cipher =
  fc_encrypt :: "string \<Rightarrow> credential_error + string"
  fc_decrypt :: "string \<Rightarrow> credential_error + string"
  fc_encode :: "credential_file_document \<Rightarrow> string + string"
  fc_decode :: "string \<Rightarrow> string + credential_file_document"

definition map_err :: "('e \<Rightarrow> 'f) \<Rightarrow> 'e + 'a \<Rightarrow> 'f + 'a" where
  "map_err f r = (case r of Inl e \<Rightarrow> Inl (f e) | Inr x \<Rightarrow> Inr x)"

definition load_records :: "file_cipher \<Rightarrow> string option \<Rightarrow> credential_error + credential_map" where
  "load_records C file =
     (case file of
        None \<Rightarrow> Inr []
      | Some ciphertext \<Rightarrow>
          if ciphertext = [] then Inr []
          else
            bind_result (fc_decrypt C ciphertext) (\<lambda>plaintext.
            bind_result (map_err (\<lambda>e. CredentialInternal (''decode credential file: '' @ e)) (fc_decode C plaintext)) (\<lambda>d.
            bind_result (ensure (fd_version d = ENCRYPTED_CREDENTIAL_FILE_VERSION)
              (CredentialInternal (''unsupported encrypted credential file version '' @ decimal (fd_version d) @
                ''; current '' @ decimal ENCRYPTED_CREDENTIAL_FILE_VERSION))) (\<lambda>_.
            Inr (replay_records cred_id (map into_record (fd_records d)))))))"

definition persist_records :: "file_cipher \<Rightarrow> credential_map \<Rightarrow> (string option, credential_error, unit) prog" where
  "persist_records C m =
     andThen (lift (map_err (\<lambda>e. CredentialInternal (''encode credential file: '' @ e))
       (fc_encode C \<lparr>fd_version = ENCRYPTED_CREDENTIAL_FILE_VERSION, fd_records = map from_record (m_values m)\<rparr>))) (\<lambda>plaintext.
     andThen (lift (fc_encrypt C plaintext)) (\<lambda>ciphertext file. (Inr (), Some ciphertext)))"

definition with_records ::
    "file_cipher \<Rightarrow> (credential_map \<Rightarrow> (string option, credential_error, 'a) prog) \<Rightarrow> (string option, credential_error, 'a) prog" where
  "with_records C f = (\<lambda>file. andThen (lift (load_records C file)) f file)"

definition encrypted_file_ops :: "file_cipher \<Rightarrow> string option credential_ops" where
  "encrypted_file_ops C =
     \<lparr>cs_write = (\<lambda>r. with_records C (\<lambda>m. persist_records C (bt_put (cred_id r) r m))),
      cs_read = (\<lambda>i. with_records C (\<lambda>m. lift (find_credential i m))),
      cs_delete = (\<lambda>i. with_records C (\<lambda>m. persist_records C (m_remove i m))),
      cs_list_metadata = with_records C (\<lambda>m. ret (map cr_metadata (m_values m)))\<rparr>"

section \<open>What is done over any store\<close>

definition list_credentials_by_scope ::
    "'s credential_ops \<Rightarrow> credential_scope \<Rightarrow> ('s, credential_error, credential_metadata list) prog" where
  "list_credentials_by_scope S sc =
     andThen (cs_list_metadata S) (\<lambda>ms. ret (filter (\<lambda>m. cm_scope m = sc) ms))"

record rotation_result =
  ro_id :: credential_id
  ro_rotated_at :: int
  ro_previous_updated_at :: int

definition rotate_credential_secret ::
    "'s credential_ops \<Rightarrow> credential_id \<Rightarrow> secret_value \<Rightarrow> int \<Rightarrow> ('s, credential_error, rotation_result) prog" where
  "rotate_credential_secret S i v now =
     andThen (cs_read S i) (\<lambda>r.
     andThen (cs_write S (r\<lparr>cr_secret := v, cr_metadata := (cr_metadata r)\<lparr>cm_updated_at := now\<rparr>\<rparr>)) (\<lambda>_.
     ret \<lparr>ro_id = i, ro_rotated_at = now, ro_previous_updated_at = cm_updated_at (cr_metadata r)\<rparr>))"

fun delete_each :: "'s credential_ops \<Rightarrow> credential_id list \<Rightarrow> ('s, credential_error, unit) prog" where
  "delete_each S [] = ret ()"
| "delete_each S (i # is) = andThen (cs_delete S i) (\<lambda>_. delete_each S is)"

record device_revocation =
  dr_device_id :: identity_device_id
  dr_revoked_credential_ids :: "credential_id list"
  dr_revoked_at :: int

definition revoke_device_credentials ::
    "'s credential_ops \<Rightarrow> identity_device_id \<Rightarrow> int \<Rightarrow> ('s, credential_error, device_revocation) prog" where
  "revoke_device_credentials S d now =
     andThen (cs_list_metadata S) (\<lambda>ms.
     let ids = sort (map cm_id (filter (\<lambda>m. is_for_device (cm_scope m) d) ms)) in
     andThen (delete_each S ids) (\<lambda>_.
     ret \<lparr>dr_device_id = d, dr_revoked_credential_ids = ids, dr_revoked_at = now\<rparr>))"

section \<open>The contract of a store\<close>

text \<open>
  A program simulates another through an abstraction: from every state with the invariant
  it gives the same result, keeps the invariant, and its state afterwards abstracts to the
  state of the other program.
\<close>

definition simulates ::
    "('s \<Rightarrow> 'm) \<Rightarrow> ('s \<Rightarrow> bool) \<Rightarrow> ('s, 'e, 'a) prog \<Rightarrow> ('m, 'e, 'a) prog \<Rightarrow> bool" where
  "simulates \<alpha> I p q \<longleftrightarrow> (\<forall>s. I s \<longrightarrow> I (snd (p s)) \<and> q (\<alpha> s) = (fst (p s), \<alpha> (snd (p s))))"

lemma simulatesI:
  assumes "\<And>s. I s \<Longrightarrow> \<exists>r s'. p s = (r, s') \<and> I s' \<and> q (\<alpha> s) = (r, \<alpha> s')"
  shows "simulates \<alpha> I p q"
  unfolding simulates_def
proof (intro allI impI)
  fix s
  assume "I s"
  from assms [OF this] obtain r s' where "p s = (r, s')" "I s'" "q (\<alpha> s) = (r, \<alpha> s')" by blast
  then show "I (snd (p s)) \<and> q (\<alpha> s) = (fst (p s), \<alpha> (snd (p s)))" by simp
qed

lemma simulatesD: "simulates \<alpha> I p q \<Longrightarrow> I s \<Longrightarrow> p s = (r, s') \<Longrightarrow> I s' \<and> q (\<alpha> s) = (r, \<alpha> s')"
  unfolding simulates_def by (metis fst_conv snd_conv)

named_theorems sim_intros \<open>simulation of composed programs\<close>

lemma simulates_ret [sim_intros]: "simulates \<alpha> I (ret x) (ret x)"
  by (simp add: simulates_def ret_def)

lemma simulates_lift [sim_intros]: "simulates \<alpha> I (lift x) (lift x)"
  by (simp add: simulates_def lift_def)

lemma simulates_andThen [sim_intros]:
  assumes "simulates \<alpha> I p q" and "\<And>x. simulates \<alpha> I (f x) (g x)"
  shows "simulates \<alpha> I (andThen p f) (andThen q g)"
  using assms unfolding simulates_def andThen_def
  by (fastforce split: prod.splits sum.splits)

locale credential_provider =
  fixes S :: "'s credential_ops"
    and contents :: "'s \<Rightarrow> credential_map"
    and inv :: "'s \<Rightarrow> bool"
  assumes contents_keyed: "inv s \<Longrightarrow> keyed cred_id (contents s)"
    and write_sim [sim_intros]: "simulates contents inv (cs_write S r) (cs_write memory_credential_ops r)"
    and read_sim [sim_intros]: "simulates contents inv (cs_read S i) (cs_read memory_credential_ops i)"
    and delete_sim [sim_intros]: "simulates contents inv (cs_delete S i) (cs_delete memory_credential_ops i)"
    and list_sim [sim_intros]: "simulates contents inv (cs_list_metadata S) (cs_list_metadata memory_credential_ops)"
begin

lemma scope_sim: "simulates contents inv (list_credentials_by_scope S sc) (list_credentials_by_scope memory_credential_ops sc)"
  unfolding list_credentials_by_scope_def by (intro sim_intros)

lemma rotate_sim:
  "simulates contents inv (rotate_credential_secret S i v now) (rotate_credential_secret memory_credential_ops i v now)"
  unfolding rotate_credential_secret_def by (intro sim_intros)

lemma delete_each_sim: "simulates contents inv (delete_each S is) (delete_each memory_credential_ops is)"
  by (induction "is") (auto intro!: sim_intros)

lemma revoke_device_sim:
  "simulates contents inv (revoke_device_credentials S d now) (revoke_device_credentials memory_credential_ops d now)"
  unfolding revoke_device_credentials_def Let_def by (intro sim_intros delete_each_sim)

end

lemma replay_keyed_values:
  assumes "keyed key m"
  shows "replay_records key (m_values m) = m"
proof -
  have inv: "bt_inv m" and keys: "\<forall>p \<in> set m. key (snd p) = fst p" using assms by (simp_all add: keyed_pairs)
  have pairs: "map (\<lambda>r. (key r, r)) (m_values m) = m"
    using keys by (auto simp: m_values_def intro!: map_idI)
  have d: "distinct (map fst m)" using bt_inv_hm_inv [OF inv] by (simp add: hm_inv_def)
  then have "map_of (rev m) = map_of m"
    by (intro map_of_eqI) (auto simp: rev_map [symmetric])
  then have "m_get (fold (\<lambda>(k, r). bt_put k r) m []) k = m_get m k" for k
    unfolding btree.get_replay by (simp add: m_get_def split: option.split)
  then show ?thesis
    unfolding replay_records_def pairs using bt_inv_eqI [OF btree.inv_replay [OF btree.inv_empty] inv] by blast
qed

lemma keyed_put_cred: "keyed cred_id m \<Longrightarrow> keyed cred_id (bt_put (cred_id r) r m)"
  using keyed_put [of cred_id m r] by simp

lemma keyed_remove: "keyed key m \<Longrightarrow> keyed key (m_remove k m)"
  by (auto simp: keyed_def)

subsection \<open>The memory\<close>

interpretation memory: credential_provider memory_credential_ops "\<lambda>m. m" "keyed cred_id"
  by unfold_locales
    (auto simp: simulates_def memory_credential_ops_def keyed_put_cred keyed_remove)

subsection \<open>The encrypted file\<close>

text \<open>The documented behaviour of the cipher and of JSON: what is written can be read back.\<close>

definition cipher_ok :: "file_cipher \<Rightarrow> bool" where
  "cipher_ok C \<longleftrightarrow> (\<forall>d. \<exists>p c. fc_encode C d = Inr p \<and> fc_encrypt C p = Inr c \<and> c \<noteq> [] \<and>
     fc_decrypt C c = Inr p \<and> fc_decode C p = Inr d)"

definition file_contents :: "file_cipher \<Rightarrow> string option \<Rightarrow> credential_map" where
  "file_contents C file = (case load_records C file of Inl _ \<Rightarrow> [] | Inr m \<Rightarrow> m)"

definition file_inv :: "file_cipher \<Rightarrow> string option \<Rightarrow> bool" where
  "file_inv C file \<longleftrightarrow> cipher_ok C \<and> load_records C file = Inr (file_contents C file) \<and> keyed cred_id (file_contents C file)"

lemma into_from_record [simp]: "into_record (from_record r) = r"
  by (cases "cr_secret r") (simp add: into_record_def from_record_def)

lemma persist_then_load:
  assumes "cipher_ok C" and "keyed cred_id m"
  shows "\<exists>c. persist_records C m file = (Inr (), Some c) \<and> load_records C (Some c) = Inr m"
proof -
  let ?d = "\<lparr>fd_version = ENCRYPTED_CREDENTIAL_FILE_VERSION, fd_records = map from_record (m_values m)\<rparr>"
  obtain p c where "fc_encode C ?d = Inr p" "fc_encrypt C p = Inr c" "c \<noteq> []" "fc_decrypt C c = Inr p" "fc_decode C p = Inr ?d"
    using assms(1) unfolding cipher_ok_def by blast
  moreover have "map (into_record \<circ> from_record) (m_values m) = m_values m" by (simp add: comp_def)
  ultimately show ?thesis
    using replay_keyed_values [OF assms(2)]
    by (simp add: persist_records_def load_records_def map_err_def andThen_def lift_def)
qed

lemma persist_inv:
  assumes "file_inv C file" and "keyed cred_id m"
  shows "\<exists>file'. persist_records C m file = (Inr (), file') \<and> file_inv C file' \<and> file_contents C file' = m"
proof -
  have "cipher_ok C" using assms(1) by (simp add: file_inv_def)
  with persist_then_load [OF this assms(2)] assms(2) show ?thesis
    by (fastforce simp: file_inv_def file_contents_def)
qed

lemma with_records_run:
  "file_inv C file \<Longrightarrow> with_records C f file = f (file_contents C file) file"
  by (simp add: with_records_def file_inv_def)

interpretation encrypted: credential_provider "encrypted_file_ops C" "file_contents C" "file_inv C" for C
proof unfold_locales
  fix s r i
  show "file_inv C s \<Longrightarrow> keyed cred_id (file_contents C s)"
    by (simp add: file_inv_def)
  show "simulates (file_contents C) (file_inv C) (cs_write (encrypted_file_ops C) r) (cs_write memory_credential_ops r)"
  proof (rule simulatesI)
    fix s
    assume s: "file_inv C s"
    then have "keyed cred_id (bt_put (cred_id r) r (file_contents C s))" by (simp add: file_inv_def keyed_put_cred)
    from persist_inv [OF s this] s
    show "\<exists>x s'. cs_write (encrypted_file_ops C) r s = (x, s') \<and> file_inv C s' \<and>
        cs_write memory_credential_ops r (file_contents C s) = (x, file_contents C s')"
      by (auto simp: encrypted_file_ops_def memory_credential_ops_def with_records_run)
  qed
  show "simulates (file_contents C) (file_inv C) (cs_delete (encrypted_file_ops C) i) (cs_delete memory_credential_ops i)"
  proof (rule simulatesI)
    fix s
    assume s: "file_inv C s"
    then have "keyed cred_id (m_remove i (file_contents C s))" by (simp add: file_inv_def keyed_remove)
    from persist_inv [OF s this] s
    show "\<exists>x s'. cs_delete (encrypted_file_ops C) i s = (x, s') \<and> file_inv C s' \<and>
        cs_delete memory_credential_ops i (file_contents C s) = (x, file_contents C s')"
      by (auto simp: encrypted_file_ops_def memory_credential_ops_def with_records_run)
  qed
qed (auto simp: simulates_def encrypted_file_ops_def memory_credential_ops_def with_records_run lift_def ret_def)

subsection \<open>The key chain\<close>

text \<open>
  A key chain that answers every call, with \<open>secrets\<close> for what it holds under a service and
  an account. The trait \<open>MacOsKeychainBackend\<close> does not promise this, and the backend of the
  repository, \<open>system_keychain_backend\<close>, refuses every call; what holds of that one is
  \<open>system_keychain_stays_empty\<close> below.
\<close>

type_synonym secret_map = "(string \<times> string) \<Rightarrow> string option"

definition backend_ok :: "'b keychain_backend \<Rightarrow> ('b \<Rightarrow> secret_map) \<Rightarrow> bool" where
  "backend_ok B secrets \<longleftrightarrow>
     (\<forall>s a x b. \<exists>b'. kb_write B s a x b = (Inr (), b') \<and> secrets b' = (secrets b)((s, a) \<mapsto> x)) \<and>
     (\<forall>s a b. \<exists>b'. kb_delete B s a b = (Inr (), b') \<and> secrets b' = (secrets b)((s, a) := None)) \<and>
     (\<forall>s a x b. secrets b (s, a) = Some x \<longrightarrow> (\<exists>b'. kb_read B s a b = (Inr x, b') \<and> secrets b' = secrets b))"

definition with_secret :: "string \<Rightarrow> secret_map \<Rightarrow> credential_id \<Rightarrow> credential_metadata \<Rightarrow> credential_record" where
  "with_secret service f i m = \<lparr>cr_metadata = m, cr_secret = SecretValue (the (f (service, credential_text i)))\<rparr>"

definition keychain_contents :: "string \<Rightarrow> ('b \<Rightarrow> secret_map) \<Rightarrow> 'b keychain_store \<Rightarrow> credential_map" where
  "keychain_contents service secrets s =
     map (\<lambda>(i, m). (i, with_secret service (secrets (kc_backend s)) i m)) (kc_metadata s)"

definition keychain_inv :: "'b keychain_backend \<Rightarrow> string \<Rightarrow> ('b \<Rightarrow> secret_map) \<Rightarrow> 'b keychain_store \<Rightarrow> bool" where
  "keychain_inv B service secrets s \<longleftrightarrow>
     backend_ok B secrets \<and> keyed cm_id (kc_metadata s) \<and>
     (\<forall>i m. m_get (kc_metadata s) i = Some m \<longrightarrow> secrets (kc_backend s) (service, credential_text i) \<noteq> None)"

lemma m_get_map_with: "m_get (map (\<lambda>(i, x). (i, f i x)) m) k = map_option (f k) (m_get m k)"
  by (induction m) (auto simp: m_get_Cons)

lemma credential_text_inject [simp]: "credential_text i = credential_text j \<longleftrightarrow> i = j"
  by (cases i; cases j) simp

lemma with_secret_other [simp]: "i \<noteq> j \<Longrightarrow> with_secret service (f((service, credential_text j) := x)) i = with_secret service f i"
  by (auto simp: with_secret_def)

lemma with_secret_same [simp]:
  "with_secret service (f((service, credential_text i) \<mapsto> expose_secret (cr_secret r))) i (cr_metadata r) = r"
  by (cases "cr_secret r") (simp add: with_secret_def)

lemma keychain_get:
  "m_get (keychain_contents service secrets s) i =
     map_option (with_secret service (secrets (kc_backend s)) i) (m_get (kc_metadata s) i)"
  unfolding keychain_contents_def m_get_map_with ..

lemma keychain_contents_inv: "bt_inv (kc_metadata s) \<Longrightarrow> bt_inv (keychain_contents service secrets s)"
  by (simp add: keychain_contents_def bt_inv_def comp_def case_prod_unfold)

lemma keychain_backend:
  "secrets b = secrets (kc_backend s) \<Longrightarrow>
   keychain_contents service secrets (s\<lparr>kc_backend := b\<rparr>) = keychain_contents service secrets s"
  by (simp add: keychain_contents_def)

lemma keychain_keyed: "keyed cm_id (kc_metadata s) \<Longrightarrow> keyed cred_id (keychain_contents service secrets s)"
  by (auto simp: keyed_def keychain_contents_inv keychain_get with_secret_def)

lemma keychain_eqI:
  assumes "bt_inv (kc_metadata s)" and "bt_inv m"
    and "\<And>i. m_get m i = map_option (with_secret service (secrets (kc_backend s)) i) (m_get (kc_metadata s) i)"
  shows "m = keychain_contents service secrets s"
  using bt_inv_eqI [OF assms(2) keychain_contents_inv [OF assms(1)]] assms(3) keychain_get by metis

interpretation keychain: credential_provider "keychain_ops B service" "keychain_contents service secrets" "keychain_inv B service secrets"
  for B service secrets
proof unfold_locales
  fix s :: "'a keychain_store" and r i
  show "keychain_inv B service secrets s \<Longrightarrow> keyed cred_id (keychain_contents service secrets s)"
    by (simp add: keychain_inv_def keychain_keyed)
  let ?sim = "\<lambda>p q. simulates (keychain_contents service secrets) (keychain_inv B service secrets) p q"
  show "?sim (cs_write (keychain_ops B service) r) (cs_write memory_credential_ops r)"
  proof (rule simulatesI)
    fix s :: "'a keychain_store"
    assume s: "keychain_inv B service secrets s"
    let ?t = "credential_text (cred_id r)" and ?x = "expose_secret (cr_secret r)"
    obtain b where b: "kb_write B service ?t ?x (kc_backend s) = (Inr (), b)"
      "secrets b = (secrets (kc_backend s))((service, ?t) \<mapsto> ?x)"
      using s unfolding keychain_inv_def backend_ok_def by blast
    let ?s = "s\<lparr>kc_backend := b, kc_metadata := bt_put (cred_id r) (cr_metadata r) (kc_metadata s)\<rparr>"
    have inv: "keychain_inv B service secrets ?s"
      using s b(2) keyed_put [of cm_id "kc_metadata s" "cr_metadata r"] by (auto simp: keychain_inv_def)
    have "bt_put (cred_id r) r (keychain_contents service secrets s) = keychain_contents service secrets ?s"
      using s b(2) by (intro keychain_eqI) (auto simp: keychain_inv_def keyed_def keychain_contents_inv keychain_get)
    with inv b(1) show "\<exists>x s'. cs_write (keychain_ops B service) r s = (x, s') \<and> keychain_inv B service secrets s' \<and>
        cs_write memory_credential_ops r (keychain_contents service secrets s) = (x, keychain_contents service secrets s')"
      by (simp add: keychain_ops_def memory_credential_ops_def andThen_def on_backend_def)
  qed
  show "?sim (cs_delete (keychain_ops B service) i) (cs_delete memory_credential_ops i)"
  proof (rule simulatesI)
    fix s :: "'a keychain_store"
    assume s: "keychain_inv B service secrets s"
    obtain b where b: "kb_delete B service (credential_text i) (kc_backend s) = (Inr (), b)"
      "secrets b = (secrets (kc_backend s))((service, credential_text i) := None)"
      using s unfolding keychain_inv_def backend_ok_def by blast
    let ?s = "s\<lparr>kc_backend := b, kc_metadata := m_remove i (kc_metadata s)\<rparr>"
    have inv: "keychain_inv B service secrets ?s"
      using s b(2) keyed_remove [of cm_id "kc_metadata s" i] by (auto simp: keychain_inv_def split: if_splits)
    have "m_remove i (keychain_contents service secrets s) = keychain_contents service secrets ?s"
      using s b(2) by (intro keychain_eqI) (auto simp: keychain_inv_def keyed_def keychain_contents_inv keychain_get)
    with inv b(1) show "\<exists>x s'. cs_delete (keychain_ops B service) i s = (x, s') \<and> keychain_inv B service secrets s' \<and>
        cs_delete memory_credential_ops i (keychain_contents service secrets s) = (x, keychain_contents service secrets s')"
      by (simp add: keychain_ops_def memory_credential_ops_def andThen_def on_backend_def)
  qed
  show "?sim (cs_read (keychain_ops B service) i) (cs_read memory_credential_ops i)"
  proof (rule simulatesI)
    fix s :: "'a keychain_store"
    assume s: "keychain_inv B service secrets s"
    show "\<exists>x s'. cs_read (keychain_ops B service) i s = (x, s') \<and> keychain_inv B service secrets s' \<and>
        cs_read memory_credential_ops i (keychain_contents service secrets s) = (x, keychain_contents service secrets s')"
    proof (cases "m_get (kc_metadata s) i")
      case None
      with s show ?thesis
        by (simp add: keychain_ops_def memory_credential_ops_def find_credential_def keychain_get raise_def)
    next
      case (Some m)
      with s obtain x where x: "secrets (kc_backend s) (service, credential_text i) = Some x"
        by (auto simp: keychain_inv_def)
      then obtain b where b: "kb_read B service (credential_text i) (kc_backend s) = (Inr x, b)" "secrets b = secrets (kc_backend s)"
        using s unfolding keychain_inv_def backend_ok_def by blast
      with s Some x show ?thesis
        by (simp add: keychain_ops_def memory_credential_ops_def find_credential_def keychain_get andThen_def on_backend_def
            ret_def with_secret_def keychain_inv_def keychain_backend lift_def)
    qed
  qed
  show "?sim (cs_list_metadata (keychain_ops B service)) (cs_list_metadata memory_credential_ops)"
    by (auto simp: simulates_def keychain_ops_def memory_credential_ops_def keychain_contents_def m_values_def
        with_secret_def comp_def case_prod_unfold)
qed

text \<open>The metadata is only in memory: after a restart the secrets are still there but no credential is found.\<close>

lemma keychain_forgets:
  "cs_read (keychain_ops B service) i (keychain_new b) = (Inl (CredentialNotFound (credential_text i)), keychain_new b)"
  "cs_list_metadata (keychain_ops B service) (keychain_new b) = (Inr [], keychain_new b)"
  by (simp_all add: keychain_ops_def keychain_new_def find_credential_def raise_def m_values_def)

section \<open>OAuth tokens\<close>

record oauth_token_set =
  ot_access_token :: secret_value
  ot_refresh_token :: "secret_value option"
  ot_token_type :: string
  ot_expires_at :: "int option"
  ot_scopes :: "string list"

definition normalize_scopes :: "string list \<Rightarrow> string list" where
  "normalize_scopes xs = remdups_adj (sort (filter (\<lambda>s. trim s \<noteq> []) xs))"

definition oauth_token_set_new ::
    "secret_value \<Rightarrow> secret_value option \<Rightarrow> string \<Rightarrow> int option \<Rightarrow> string list \<Rightarrow> oauth_token_set" where
  "oauth_token_set_new a r t e sc =
     \<lparr>ot_access_token = a, ot_refresh_token = r, ot_token_type = t, ot_expires_at = e, ot_scopes = normalize_scopes sc\<rparr>"

definition token_is_expired :: "int \<Rightarrow> oauth_token_set \<Rightarrow> bool" where
  "token_is_expired now t = (case ot_expires_at t of None \<Rightarrow> False | Some e \<Rightarrow> e \<le> now)"

text \<open>The skew is in seconds, instants are in nanoseconds.\<close>

definition needs_refresh :: "int \<Rightarrow> int \<Rightarrow> oauth_token_set \<Rightarrow> bool" where
  "needs_refresh now skew t =
     (case ot_expires_at t of None \<Rightarrow> False | Some e \<Rightarrow> e \<le> now + max skew 0 * 1000000000)"

record oauth_credential_ref =
  rf_credential_id :: credential_id
  rf_connector_id :: string
  rf_account_id :: "string option"
  rf_scopes :: "string list"

definition oauth_credential_ref_new ::
    "credential_id \<Rightarrow> string \<Rightarrow> string option \<Rightarrow> string list \<Rightarrow> oauth_credential_ref" where
  "oauth_credential_ref_new i c a sc =
     \<lparr>rf_credential_id = i, rf_connector_id = c, rf_account_id = a, rf_scopes = normalize_scopes sc\<rparr>"

definition named_account :: "oauth_credential_ref \<Rightarrow> string option" where
  "named_account r = (case rf_account_id r of None \<Rightarrow> None | Some a \<Rightarrow> if trim a \<noteq> [] then Some a else None)"

definition ref_credential_scope :: "oauth_credential_ref \<Rightarrow> credential_scope" where
  "ref_credential_scope r =
     (case named_account r of
        Some a \<Rightarrow> ScopeConnectorAccount (rf_connector_id r) a
      | None \<Rightarrow> ScopeConnector (rf_connector_id r))"

definition metadata_label :: "oauth_credential_ref \<Rightarrow> string" where
  "metadata_label r =
     (case named_account r of
        Some a \<Rightarrow> ''OAuth '' @ rf_connector_id r @ '' '' @ a
      | None \<Rightarrow> ''OAuth '' @ rf_connector_id r)"

record token_serde =
  ts_access_token :: string
  ts_refresh_token :: "string option"
  ts_token_type :: string
  ts_expires_at :: "int option"
  ts_scopes :: "string list"

definition from_token_set :: "oauth_token_set \<Rightarrow> token_serde" where
  "from_token_set t =
     \<lparr>ts_access_token = expose_secret (ot_access_token t), ts_refresh_token = map_option expose_secret (ot_refresh_token t),
      ts_token_type = ot_token_type t, ts_expires_at = ot_expires_at t, ts_scopes = ot_scopes t\<rparr>"

definition into_token_set :: "token_serde \<Rightarrow> oauth_token_set" where
  "into_token_set d =
     oauth_token_set_new (SecretValue (ts_access_token d)) (map_option SecretValue (ts_refresh_token d))
       (ts_token_type d) (ts_expires_at d) (ts_scopes d)"

text \<open>The JSON form of a token.\<close>

record token_codec =
  tk_encode :: "token_serde \<Rightarrow> string + string"
  tk_decode :: "string \<Rightarrow> string + token_serde"

definition to_credential_record ::
    "token_codec \<Rightarrow> oauth_token_set \<Rightarrow> oauth_credential_ref \<Rightarrow> string \<Rightarrow> int \<Rightarrow> credential_error + credential_record" where
  "to_credential_record K t r label now =
     bind_result (map_err CredentialInternal (tk_encode K (from_token_set t))) (\<lambda>s.
     Inr (credential_record_new (rf_credential_id r) (ref_credential_scope r) label (SecretValue s) now))"

definition from_credential_record :: "token_codec \<Rightarrow> credential_record \<Rightarrow> credential_error + oauth_token_set" where
  "from_credential_record K r =
     bind_result (map_err CredentialInternal (tk_decode K (expose_secret (cr_secret r)))) (\<lambda>d. Inr (into_token_set d))"

datatype (plugins only: code size) oauth_refresh_error =
    MissingRefreshToken | RefreshProviderUnavailable string | RefreshInvalidResponse string
  | RefreshCredential credential_error

datatype (plugins only: code size) oauth_revocation_error =
    MissingRevocationEndpoint string | RevokeProviderUnavailable string | RevokeInvalidResponse string
  | RevokeCredential credential_error

text \<open>A store and a provider: the state is that of both.\<close>

definition on_store :: "(credential_error \<Rightarrow> 'e) \<Rightarrow> ('s, credential_error, 'a) prog \<Rightarrow> ('s \<times> 'w, 'e, 'a) prog" where
  "on_store f p = (\<lambda>(s, w). case p s of (r, s') \<Rightarrow> (map_err f r, s', w))"

definition on_provider :: "('w, 'e, 'a) prog \<Rightarrow> ('s \<times> 'w, 'e, 'a) prog" where
  "on_provider p = (\<lambda>(s, w). case p w of (r, w') \<Rightarrow> (r, s, w'))"

type_synonym 'w token_refresher = "string \<Rightarrow> oauth_token_set \<Rightarrow> ('w, oauth_refresh_error, oauth_token_set) prog"

record scripted_refresher =
  sr_access_token_prefix :: string
  sr_failure :: "string option"
  sr_refresh_count :: nat
  sr_expires_in_secs :: int

definition scripted_refresher_new :: "string \<Rightarrow> scripted_refresher" where
  "scripted_refresher_new p =
     \<lparr>sr_access_token_prefix = p, sr_failure = None, sr_refresh_count = 0, sr_expires_in_secs = 3600\<rparr>"

definition scripted_refresh :: "int \<Rightarrow> scripted_refresher token_refresher" where
  "scripted_refresh clock connector current = (\<lambda>s.
     case sr_failure s of
       Some reason \<Rightarrow> (Inl (RefreshProviderUnavailable reason), s)
     | None \<Rightarrow>
         (case ot_refresh_token current of
            None \<Rightarrow> (Inl MissingRefreshToken, s)
          | Some token \<Rightarrow>
              (let n = sr_refresh_count s + 1 in
               (Inr (oauth_token_set_new (SecretValue (sr_access_token_prefix s @ ''-'' @ decimal n)) (Some token)
                  (ot_token_type current) (Some (clock + sr_expires_in_secs s * 1000000000)) (ot_scopes current)),
                s\<lparr>sr_refresh_count := n\<rparr>))))"

definition refresh_oauth_credential ::
    "'s credential_ops \<Rightarrow> token_codec \<Rightarrow> 'w token_refresher \<Rightarrow> oauth_credential_ref \<Rightarrow> int \<Rightarrow> int \<Rightarrow>
     ('s \<times> 'w, oauth_refresh_error, oauth_token_set) prog" where
  "refresh_oauth_credential S K refresh r now skew =
     andThen (on_store RefreshCredential (cs_read S (rf_credential_id r))) (\<lambda>record.
     andThen (lift (map_err RefreshCredential (from_credential_record K record))) (\<lambda>current.
     if \<not> needs_refresh now skew current then ret current
     else
       andThen (on_provider (refresh (rf_connector_id r) current)) (\<lambda>refreshed.
       andThen (lift (map_err RefreshCredential
         (to_credential_record K refreshed r (cm_label (cr_metadata record)) now))) (\<lambda>updated.
       andThen (on_store RefreshCredential (cs_write S updated)) (\<lambda>_. ret refreshed)))))"

record endpoint_config =
  ec_provider_id :: string
  ec_token_endpoint :: string
  ec_revocation_endpoint :: "string option"

record revocation_outcome =
  ro_provider_id :: string
  ro_connector_id :: string
  ro_account_id :: "string option"
  ro_credential_id :: credential_id
  ro_revocation_endpoint :: "string option"
  ro_revoked_at :: int
  ro_provider_status :: string

type_synonym 'w token_revoker =
  "oauth_credential_ref \<Rightarrow> oauth_token_set \<Rightarrow> int \<Rightarrow> ('w, oauth_revocation_error, revocation_outcome) prog"

record scripted_revoker =
  sv_endpoint_config :: endpoint_config
  sv_failure :: "string option"
  sv_revocation_count :: nat

definition scripted_revoke :: "scripted_revoker token_revoker" where
  "scripted_revoke r current at = (\<lambda>s.
     case ec_revocation_endpoint (sv_endpoint_config s) of
       None \<Rightarrow> (Inl (MissingRevocationEndpoint (ec_provider_id (sv_endpoint_config s))), s)
     | Some url \<Rightarrow>
         (case sv_failure s of
            Some reason \<Rightarrow> (Inl (RevokeProviderUnavailable reason), s)
          | None \<Rightarrow>
              (Inr \<lparr>ro_provider_id = ec_provider_id (sv_endpoint_config s), ro_connector_id = rf_connector_id r,
                 ro_account_id = rf_account_id r, ro_credential_id = rf_credential_id r,
                 ro_revocation_endpoint = Some url, ro_revoked_at = at, ro_provider_status = ''revoked''\<rparr>,
               s\<lparr>sv_revocation_count := sv_revocation_count s + 1\<rparr>)))"

definition revoke_oauth_credential ::
    "'s credential_ops \<Rightarrow> token_codec \<Rightarrow> 'w token_revoker \<Rightarrow> oauth_credential_ref \<Rightarrow> int \<Rightarrow>
     ('s \<times> 'w, oauth_revocation_error, revocation_outcome) prog" where
  "revoke_oauth_credential S K revoke r at =
     andThen (on_store RevokeCredential (cs_read S (rf_credential_id r))) (\<lambda>record.
     andThen (lift (map_err RevokeCredential (from_credential_record K record))) (\<lambda>current.
     andThen (on_provider (revoke r current at)) (\<lambda>outcome.
     andThen (on_store RevokeCredential (cs_delete S (rf_credential_id r))) (\<lambda>_. ret outcome))))"

fun revoke_each ::
    "(oauth_credential_ref \<Rightarrow> ('s, 'e, revocation_outcome) prog) \<Rightarrow> string \<Rightarrow> string \<Rightarrow> credential_metadata list \<Rightarrow>
     ('s, 'e, revocation_outcome list) prog" where
  "revoke_each revoke c a [] = ret []"
| "revoke_each revoke c a (m # ms) =
     andThen (revoke (oauth_credential_ref_new (cm_id m) c (Some a) [])) (\<lambda>out.
     andThen (revoke_each revoke c a ms) (\<lambda>outs. ret (out # outs)))"

definition offboard_connector_account_oauth_credentials ::
    "'s credential_ops \<Rightarrow> token_codec \<Rightarrow> 'w token_revoker \<Rightarrow> string \<Rightarrow> string \<Rightarrow> int \<Rightarrow>
     ('s \<times> 'w, oauth_revocation_error, revocation_outcome list) prog" where
  "offboard_connector_account_oauth_credentials S K revoke c a at =
     andThen (on_store RevokeCredential (list_credentials_by_scope S (ScopeConnectorAccount c a))) (\<lambda>ms.
     revoke_each (\<lambda>r. revoke_oauth_credential S K revoke r at) c a ms)"

datatype (plugins only: code size) lifecycle_event_kind = Refreshed | RefreshFailed | Revoked | OffboardingDenied

record lifecycle_audit_event =
  le_kind :: lifecycle_event_kind
  le_connector_id :: string
  le_account_id :: "string option"
  le_credential_id :: credential_id
  le_scopes :: "string list"
  le_provider_status :: string
  le_occurred_at :: int
  le_secret_redaction :: string

definition lifecycle_audit_event_new ::
    "lifecycle_event_kind \<Rightarrow> oauth_credential_ref \<Rightarrow> string \<Rightarrow> int \<Rightarrow> lifecycle_audit_event" where
  "lifecycle_audit_event_new k r status at =
     \<lparr>le_kind = k, le_connector_id = rf_connector_id r, le_account_id = rf_account_id r,
      le_credential_id = rf_credential_id r, le_scopes = rf_scopes r, le_provider_status = status,
      le_occurred_at = at, le_secret_redaction = ''oauth token material omitted''\<rparr>"

section \<open>The stores agree\<close>

datatype (plugins only: code size) credential_op =
    OpWrite credential_record
  | OpRead credential_id
  | OpDelete credential_id
  | OpList
  | OpListScope credential_scope
  | OpRotate credential_id secret_value int
  | OpRevokeDevice identity_device_id int

datatype (plugins only: code size) credential_reply =
    ReplyDone
  | ReplyRecord credential_record
  | ReplyMetadata "credential_metadata list"
  | ReplyRotated rotation_result
  | ReplyRevoked device_revocation

definition credential_step :: "'s credential_ops \<Rightarrow> credential_op \<Rightarrow> ('s, credential_error, credential_reply) prog" where
  "credential_step S op =
     (case op of
        OpWrite r \<Rightarrow> andThen (cs_write S r) (\<lambda>_. ret ReplyDone)
      | OpRead i \<Rightarrow> andThen (cs_read S i) (\<lambda>r. ret (ReplyRecord r))
      | OpDelete i \<Rightarrow> andThen (cs_delete S i) (\<lambda>_. ret ReplyDone)
      | OpList \<Rightarrow> andThen (cs_list_metadata S) (\<lambda>ms. ret (ReplyMetadata ms))
      | OpListScope sc \<Rightarrow> andThen (list_credentials_by_scope S sc) (\<lambda>ms. ret (ReplyMetadata ms))
      | OpRotate i v now \<Rightarrow> andThen (rotate_credential_secret S i v now) (\<lambda>x. ret (ReplyRotated x))
      | OpRevokeDevice d now \<Rightarrow> andThen (revoke_device_credentials S d now) (\<lambda>x. ret (ReplyRevoked x)))"

text \<open>The answers to a list of operations; a failed one does not stop those after it.\<close>

fun credential_run :: "'s credential_ops \<Rightarrow> credential_op list \<Rightarrow> 's \<Rightarrow> (credential_error + credential_reply) list \<times> 's" where
  "credential_run S [] s = ([], s)"
| "credential_run S (op # ops) s =
     (case credential_step S op s of (r, s1) \<Rightarrow> case credential_run S ops s1 of (rs, s2) \<Rightarrow> (r # rs, s2))"

context credential_provider
begin

lemma step_sim: "simulates contents inv (credential_step S op) (credential_step memory_credential_ops op)"
  by (cases op) (auto simp: credential_step_def intro!: sim_intros scope_sim rotate_sim revoke_device_sim)

lemma run_sim:
  "inv s \<Longrightarrow> credential_run S ops s = (rs, s') \<Longrightarrow>
   inv s' \<and> credential_run memory_credential_ops ops (contents s) = (rs, contents s')"
proof (induction ops arbitrary: s rs)
  case Nil
  then show ?case by simp
next
  case (Cons op ops)
  from Cons.prems(2) obtain r s1 rs' where run: "credential_step S op s = (r, s1)" "credential_run S ops s1 = (rs', s')" "rs = r # rs'"
    by (auto split: prod.splits)
  from simulatesD [OF step_sim Cons.prems(1) run(1)] Cons.IH [OF _ run(2)] run(3) show ?case by simp
qed

lemma same_answers: "inv s \<Longrightarrow> contents s = m \<Longrightarrow> fst (credential_run S ops s) = fst (credential_run memory_credential_ops ops m)"
  using run_sim by (metis fst_conv surj_pair)

end

lemma file_inv_None: "cipher_ok C \<Longrightarrow> file_inv C None \<and> file_contents C None = []"
  by (simp add: file_inv_def file_contents_def load_records_def)

lemma keychain_inv_new:
  "backend_ok B secrets \<Longrightarrow> keychain_inv B service secrets (keychain_new b) \<and> keychain_contents service secrets (keychain_new b) = []"
  by (simp add: keychain_inv_def keychain_new_def keychain_contents_def)

text \<open>
  C20. The encrypted file implements the store in memory. Take a cipher and a JSON form that
  read back what they wrote, and a file system on which reading and writing the one file of
  the store does not fail. Whatever operations are done one after the other on a new file, each
  gives the answer that the store in memory gives, the refusals of unknown and of already
  existing credentials included; and what is then read from the file are the records that the
  store in memory holds.
\<close>

theorem encrypted_file_implements_memory:
  assumes "cipher_ok C"
  shows "fst (credential_run (encrypted_file_ops C) ops None) = fst (credential_run memory_credential_ops ops []) \<and>
    load_records C (snd (credential_run (encrypted_file_ops C) ops None)) = Inr (snd (credential_run memory_credential_ops ops []))"
proof -
  have start: "file_inv C None \<and> file_contents C None = []" using file_inv_None [OF assms] .
  obtain rs file' where run: "credential_run (encrypted_file_ops C) ops None = (rs, file')" by fastforce
  from encrypted.run_sim [OF conjunct1 [OF start] run] start
  have "file_inv C file' \<and> credential_run memory_credential_ops ops [] = (rs, file_contents C file')" by simp
  with run show ?thesis by (auto simp: file_inv_def file_contents_def)
qed

text \<open>
  A key chain that answers every call gives the answers of the store in memory as well; the
  one of the repository refuses each write, so that nothing is ever stored there.
\<close>

lemma keychain_agrees:
  assumes "backend_ok B secrets"
  shows "fst (credential_run (keychain_ops B service) ops (keychain_new b)) = fst (credential_run memory_credential_ops ops [])"
  using keychain.same_answers keychain_inv_new [OF assms] by metis

lemma system_keychain_write:
  "cs_write (keychain_ops system_keychain_backend service) r s = (Inl system_keychain_refusal, s)"
  by (simp add: keychain_ops_def system_keychain_backend_def on_backend_def andThen_def)

lemma system_keychain_stays_empty:
  assumes "kc_metadata s = []"
  shows "fst (cs_list_metadata (keychain_ops system_keychain_backend service)
           (snd (cs_write (keychain_ops system_keychain_backend service) r s))) = Inr []"
  using assms by (simp add: system_keychain_write) (simp add: keychain_ops_def m_values_def)

section \<open>Revocation of a device\<close>

lemma delete_each_memory:
  "delete_each memory_credential_ops is m = (Inr (), fold m_remove is m)"
  by (induction "is" arbitrary: m) (simp_all add: ret_def andThen_def memory_credential_ops_def)

lemma m_get_fold_remove: "m_get (fold m_remove is m) i = (if i \<in> set is then None else m_get m i)"
  by (induction "is" arbitrary: m) auto

definition credentials_where :: "(credential_scope \<Rightarrow> bool) \<Rightarrow> credential_map \<Rightarrow> credential_id list" where
  "credentials_where P m = map fst (filter (\<lambda>(i, r). P (cm_scope (cr_metadata r))) m)"

definition device_credentials :: "identity_device_id \<Rightarrow> credential_map \<Rightarrow> credential_id list" where
  "device_credentials d = credentials_where (\<lambda>s. is_for_device s d)"

lemma m_get_iff: "bt_inv m \<Longrightarrow> m_get m i = Some r \<longleftrightarrow> (i, r) \<in> set m"
  using in_set_m_get [OF bt_inv_hm_inv, of m i r] m_get_in_set [of m i r] by iprover

lemma in_credentials_where:
  "bt_inv m \<Longrightarrow> i \<in> set (credentials_where P m) \<longleftrightarrow> (\<exists>r. m_get m i = Some r \<and> P (cm_scope (cr_metadata r)))"
  by (auto simp: credentials_where_def m_get_iff image_iff)

lemma credentials_where_metadata:
  assumes "keyed cred_id m"
  shows "map cm_id (filter (\<lambda>x. P (cm_scope x)) (map cr_metadata (m_values m))) = credentials_where P m"
proof -
  have "\<forall>p \<in> set m. cred_id (snd p) = fst p" using assms by (simp add: keyed_pairs)
  then show ?thesis by (induction m) (auto simp: m_values_def credentials_where_def)
qed

lemma credentials_where_sorted: "bt_inv m \<Longrightarrow> sorted (credentials_where P m) \<and> distinct (credentials_where P m)"
  by (auto simp: bt_inv_def credentials_where_def strict_sorted_iff distinct_map inj_on_filter_key_eq intro: sorted_filter
      intro!: inj_on_subset [of fst "set m"])

lemma device_credentials_metadata:
  assumes "keyed cred_id m"
  shows "sort (map cm_id (filter (\<lambda>x. is_for_device (cm_scope x) d) (map cr_metadata (m_values m)))) = device_credentials d m"
  using credentials_where_metadata [OF assms, of "\<lambda>s. is_for_device s d"] credentials_where_sorted [of m] assms
  by (simp add: device_credentials_def keyed_def sorted_sort_id)

lemma revoke_device_memory:
  assumes "keyed cred_id m"
  shows "revoke_device_credentials memory_credential_ops d now m =
    (Inr \<lparr>dr_device_id = d, dr_revoked_credential_ids = device_credentials d m, dr_revoked_at = now\<rparr>,
     fold m_remove (device_credentials d m) m)"
  unfolding revoke_device_credentials_def Let_def andThen_def
  by (simp add: memory_credential_ops_def device_credentials_metadata [OF assms, unfolded memory_credential_ops_def]
      delete_each_memory [unfolded memory_credential_ops_def] ret_def)

text \<open>
  C21. Revoking a device on the encrypted store, on a file system where reading and writing its
  file does not fail, reports exactly the credentials scoped to that device, in order, and
  leaves a file with every other credential as it was and none of these.
\<close>

theorem device_revocation_complete:
  assumes "file_inv C file"
  shows "\<exists>file'. revoke_device_credentials (encrypted_file_ops C) d now file =
      (Inr \<lparr>dr_device_id = d, dr_revoked_credential_ids = device_credentials d (file_contents C file), dr_revoked_at = now\<rparr>, file') \<and>
    file_inv C file' \<and>
    m_get (file_contents C file') i =
      (if i \<in> set (device_credentials d (file_contents C file)) then None else m_get (file_contents C file) i)"
proof -
  obtain r file' where run: "revoke_device_credentials (encrypted_file_ops C) d now file = (r, file')" by fastforce
  from simulatesD [OF encrypted.revoke_device_sim assms run] revoke_device_memory [OF encrypted.contents_keyed [OF assms], of d now]
  have "r = Inr \<lparr>dr_device_id = d, dr_revoked_credential_ids = device_credentials d (file_contents C file), dr_revoked_at = now\<rparr>"
    and "file_contents C file' = fold m_remove (device_credentials d (file_contents C file)) (file_contents C file)"
    and "file_inv C file'"
    by simp_all
  with run show ?thesis by (simp add: m_get_fold_remove)
qed

section \<open>The life of OAuth tokens\<close>

definition paired :: "('s \<Rightarrow> 'm) \<Rightarrow> 's \<times> 'w \<Rightarrow> 'm \<times> 'w" where
  "paired \<alpha> s = (\<alpha> (fst s), snd s)"

lemma on_store_sim [sim_intros]:
  "simulates \<alpha> I p q \<Longrightarrow> simulates (paired \<alpha>) (\<lambda>s. I (fst s)) (on_store f p) (on_store f q)"
  by (auto simp: simulates_def on_store_def paired_def split: prod.splits)

lemma on_provider_sim [sim_intros]: "simulates (paired \<alpha>) (\<lambda>s. I (fst s)) (on_provider p) (on_provider p)"
  by (auto simp: simulates_def on_provider_def paired_def split: prod.splits)

lemma simulates_if [sim_intros]:
  "simulates \<alpha> I p q \<Longrightarrow> simulates \<alpha> I p' q' \<Longrightarrow> simulates \<alpha> I (if b then p else p') (if b then q else q')"
  by simp

context credential_provider
begin

lemma refresh_sim:
  "simulates (paired contents) (\<lambda>s. inv (fst s)) (refresh_oauth_credential S K refresh r now skew)
     (refresh_oauth_credential memory_credential_ops K refresh r now skew)"
  unfolding refresh_oauth_credential_def by (intro sim_intros)

lemma revoke_oauth_sim:
  "simulates (paired contents) (\<lambda>s. inv (fst s)) (revoke_oauth_credential S K revoke r at)
     (revoke_oauth_credential memory_credential_ops K revoke r at)"
  unfolding revoke_oauth_credential_def by (intro sim_intros)

lemma revoke_each_sim:
  "simulates (paired contents) (\<lambda>s. inv (fst s)) (revoke_each (\<lambda>r. revoke_oauth_credential S K revoke r at) c a ms)
     (revoke_each (\<lambda>r. revoke_oauth_credential memory_credential_ops K revoke r at) c a ms)"
  by (induction ms) (auto intro!: sim_intros revoke_oauth_sim)

lemma offboard_sim:
  "simulates (paired contents) (\<lambda>s. inv (fst s)) (offboard_connector_account_oauth_credentials S K revoke c a at)
     (offboard_connector_account_oauth_credentials memory_credential_ops K revoke c a at)"
  unfolding offboard_connector_account_oauth_credentials_def by (intro sim_intros scope_sim revoke_each_sim)

end

lemmas memory_steps = memory_credential_ops_def on_store_def on_provider_def map_err_def find_credential_def

text \<open>The three ways a refresh can end.\<close>

lemma refresh_memory:
  "case refresh_oauth_credential memory_credential_ops K refresh r now skew (m, w) of
     (Inl e, m', w') \<Rightarrow> m' = m
   | (Inr t, m', w') \<Rightarrow>
       \<exists>old current. m_get m (rf_credential_id r) = Some old \<and> from_credential_record K old = Inr current \<and>
         (if needs_refresh now skew current
          then refresh (rf_connector_id r) current w = (Inr t, w') \<and>
               (\<exists>stored. to_credential_record K t r (cm_label (cr_metadata old)) now = Inr stored \<and>
                  m' = bt_put (rf_credential_id r) stored m)
          else t = current \<and> m' = m \<and> w' = w)"
  by (auto simp: refresh_oauth_credential_def memory_steps andThen_def lift_def ret_def to_credential_record_def
      credential_record_new_def bind_result_def ok_or_def split: prod.splits sum.splits option.splits)

definition token_codec_ok :: "token_codec \<Rightarrow> bool" where
  "token_codec_ok K \<longleftrightarrow> (\<forall>d. \<exists>s. tk_encode K d = Inr s \<and> tk_decode K s = Inr d)"

lemma stored_token:
  assumes "token_codec_ok K"
  shows "\<exists>x. to_credential_record K t r label now = Inr x \<and>
    from_credential_record K x = Inr (t\<lparr>ot_scopes := normalize_scopes (ot_scopes t)\<rparr>)"
proof -
  obtain s where "tk_encode K (from_token_set t) = Inr s" "tk_decode K s = Inr (from_token_set t)"
    using assms unfolding token_codec_ok_def by blast
  moreover have "into_token_set (from_token_set t) = t\<lparr>ot_scopes := normalize_scopes (ot_scopes t)\<rparr>"
    by (cases "ot_access_token t"; cases "ot_refresh_token t"; cases "the (ot_refresh_token t)"; cases t)
       (simp_all add: into_token_set_def from_token_set_def oauth_token_set_new_def)
  ultimately show ?thesis
    by (simp add: to_credential_record_def from_credential_record_def map_err_def credential_record_new_def)
qed

lemma read_stored:
  assumes "token_codec_ok K" and "to_credential_record K t r label now = Inr x"
  shows "from_credential_record K x = Inr (t\<lparr>ot_scopes := normalize_scopes (ot_scopes t)\<rparr>)"
  using stored_token [OF assms(1), of t r label now] assms(2) by auto

text \<open>
  The record written by a refresh is a new one: its scope is the one of the reference and its
  creation is the time of the refresh, whatever the record had before.
\<close>

lemma refresh_replaces_metadata:
  "to_credential_record K t r label now = Inr x \<Longrightarrow>
   cm_scope (cr_metadata x) = ref_credential_scope r \<and> cm_created_at (cr_metadata x) = now \<and> cred_id x = rf_credential_id r"
  by (auto simp: to_credential_record_def credential_record_new_def bind_result_Inr_iff)

text \<open>
  Refreshing an OAuth credential over the encrypted store. If it fails, at the store or at
  the provider, the file holds what it held. A token that is not about to expire is returned as
  stored and the provider is not asked. Otherwise the provider was asked once, its token is
  returned, reading the credential again gives that token, and no other credential changed.
\<close>

lemma oauth_refresh_correct:
  assumes "file_inv C file" and "token_codec_ok K"
    and "refresh_oauth_credential (encrypted_file_ops C) K refresh r now skew (file, w) = (res, file', w')"
  shows "case res of
      Inl e \<Rightarrow> file_contents C file' = file_contents C file
    | Inr t \<Rightarrow>
        \<exists>old current. m_get (file_contents C file) (rf_credential_id r) = Some old \<and> from_credential_record K old = Inr current \<and>
          (if needs_refresh now skew current
           then refresh (rf_connector_id r) current w = (Inr t, w') \<and>
                (\<exists>stored. file_contents C file' = bt_put (rf_credential_id r) stored (file_contents C file) \<and>
                   from_credential_record K stored = Inr (t\<lparr>ot_scopes := normalize_scopes (ot_scopes t)\<rparr>))
           else t = current \<and> file_contents C file' = file_contents C file \<and> w' = w)"
proof -
  have inv: "file_inv C (fst (file, w))" using assms(1) by simp
  have "refresh_oauth_credential memory_credential_ops K refresh r now skew (file_contents C file, w) =
      (res, file_contents C file', w')"
    using simulatesD [OF encrypted.refresh_sim inv assms(3)] by (simp add: paired_def)
  then have spec: "case (res, file_contents C file', w') of
     (Inl e, m', w') \<Rightarrow> m' = file_contents C file
   | (Inr t, m', w') \<Rightarrow>
       \<exists>old current. m_get (file_contents C file) (rf_credential_id r) = Some old \<and> from_credential_record K old = Inr current \<and>
         (if needs_refresh now skew current
          then refresh (rf_connector_id r) current w = (Inr t, w') \<and>
               (\<exists>stored. to_credential_record K t r (cm_label (cr_metadata old)) now = Inr stored \<and>
                  m' = bt_put (rf_credential_id r) stored (file_contents C file))
          else t = current \<and> m' = file_contents C file \<and> w' = w)"
    using refresh_memory [where m = "file_contents C file" and K = K and refresh = refresh and r = r and now = now and skew = skew and w = w]
    by simp
  show ?thesis
  proof (cases res)
    case (Inl e)
    with spec show ?thesis by simp
  next
    case (Inr t)
    with spec read_stored [OF assms(2), of t r] show ?thesis by (simp split: if_splits) blast
  qed
qed

section \<open>Offboarding an account\<close>

lemma revoke_memory:
  "revoke_oauth_credential memory_credential_ops K revoke r at (m, w) = (res, m', w') \<Longrightarrow>
   m' = (case res of Inl e \<Rightarrow> m | Inr out \<Rightarrow> m_remove (rf_credential_id r) m)"
  by (auto simp: revoke_oauth_credential_def memory_steps andThen_def lift_def ret_def ok_or_def
      split: prod.splits sum.splits option.splits if_splits)

lemma revoke_each_memory:
  "revoke_each (\<lambda>r. revoke_oauth_credential memory_credential_ops K revoke r at) c a ms (m, w) = (res, m', w') \<Longrightarrow>
   (\<forall>i. m_get m' i = m_get m i \<or> i \<in> cm_id ` set ms \<and> m_get m' i = None) \<and>
   (case res of Inl e \<Rightarrow> True
    | Inr outs \<Rightarrow> length outs = length ms \<and> (\<forall>i. m_get m' i = (if i \<in> cm_id ` set ms then None else m_get m i)))"
proof (induction ms arbitrary: m w res m' w')
  case Nil
  then show ?case by simp
next
  case (Cons x ms)
  let ?r = "oauth_credential_ref_new (cm_id x) c (Some a) []"
  have id: "rf_credential_id ?r = cm_id x" by (simp add: oauth_credential_ref_new_def)
  obtain r1 m1 w1 where first: "revoke_oauth_credential memory_credential_ops K revoke ?r at (m, w) = (r1, m1, w1)"
    by (metis surj_pair)
  show ?case
  proof (cases r1)
    case (Inl e)
    with Cons.prems first revoke_memory [OF first] show ?thesis by (auto simp: andThen_def)
  next
    case (Inr out)
    with revoke_memory [OF first] id have m1: "m1 = m_remove (cm_id x) m" by simp
    obtain r2 m2 w2 where rest:
      "revoke_each (\<lambda>r. revoke_oauth_credential memory_credential_ops K revoke r at) c a ms (m1, w1) = (r2, m2, w2)"
      by (metis surj_pair)
    with Cons.prems first Inr have res: "m' = m2" "res = (case r2 of Inl e \<Rightarrow> Inl e | Inr outs \<Rightarrow> Inr (out # outs))"
      by (auto simp: andThen_def ret_def split: sum.splits)
    from Cons.IH [OF rest] show ?thesis
      unfolding res m1 by (auto split: sum.splits if_splits)
  qed
qed

definition account_credentials :: "string \<Rightarrow> string \<Rightarrow> credential_map \<Rightarrow> credential_id list" where
  "account_credentials c a = credentials_where (\<lambda>s. s = ScopeConnectorAccount c a)"

lemma offboard_memory:
  assumes "keyed cred_id m"
    and "offboard_connector_account_oauth_credentials memory_credential_ops K revoke c a at (m, w) = (res, m', w')"
  shows "(\<forall>i. m_get m' i = m_get m i \<or> i \<in> set (account_credentials c a m) \<and> m_get m' i = None) \<and>
   (case res of Inl e \<Rightarrow> True
    | Inr outs \<Rightarrow> length outs = length (account_credentials c a m) \<and>
        (\<forall>i. m_get m' i = (if i \<in> set (account_credentials c a m) then None else m_get m i)))"
proof -
  let ?ms = "filter (\<lambda>x. cm_scope x = ScopeConnectorAccount c a) (map cr_metadata (m_values m))"
  have ids: "map cm_id ?ms = account_credentials c a m"
    using credentials_where_metadata [OF assms(1), of "\<lambda>s. s = ScopeConnectorAccount c a"] by (simp add: account_credentials_def)
  have "revoke_each (\<lambda>r. revoke_oauth_credential memory_credential_ops K revoke r at) c a ?ms (m, w) = (res, m', w')"
    using assms(2)
    by (simp add: offboard_connector_account_oauth_credentials_def andThen_def on_store_def list_credentials_by_scope_def
        memory_credential_ops_def map_err_def ret_def)
  from revoke_each_memory [OF this] show ?thesis
    unfolding ids [symmetric] set_map length_map .
qed

text \<open>
  Offboarding an account of a connector. If it succeeds no credential of that account is
  left in the file, each was revoked at the provider, and all others are as they were. If it
  fails half way, credentials already revoked are gone and nothing else has changed.
\<close>

lemma offboarding_removes_account:
  assumes "file_inv C file"
    and "offboard_connector_account_oauth_credentials (encrypted_file_ops C) K revoke c a at (file, w) = (res, file', w')"
  shows "(m_get (file_contents C file') i = m_get (file_contents C file) i \<or>
      i \<in> set (account_credentials c a (file_contents C file)) \<and> m_get (file_contents C file') i = None) \<and>
    (case res of Inl e \<Rightarrow> True
     | Inr outs \<Rightarrow> length outs = length (account_credentials c a (file_contents C file)) \<and>
         (i \<in> set (account_credentials c a (file_contents C file)) \<longrightarrow> m_get (file_contents C file') i = None))"
proof -
  have inv: "file_inv C (fst (file, w))" using assms(1) by simp
  have "offboard_connector_account_oauth_credentials memory_credential_ops K revoke c a at (file_contents C file, w) =
      (res, file_contents C file', w')"
    using simulatesD [OF encrypted.offboard_sim inv assms(2)] by (simp add: paired_def)
  from offboard_memory [OF encrypted.contents_keyed [OF assms(1)] this] show ?thesis
    by (auto split: sum.splits)
qed

section \<open>Round trips of keys and signatures\<close>

lemma nibble_table: "list_all (\<lambda>n. decode_hex_nibble (HEX ! n) = Inr (of_nat n)) [0..<16]"
  by code_simp

lemma decode_nibble: "n < 16 \<Longrightarrow> decode_hex_nibble (HEX ! n) = Inr (of_nat n)"
  using nibble_table by (simp add: list_all_iff)

lemma nibbles_less:
  fixes b :: "8 word"
  shows "unat (drop_bit 4 b) < 16" and "unat (b AND 15) < 16"
proof -
  have "unat b < 256" using unsigned_less [of b, where ?'a = nat] by simp
  then show "unat (drop_bit 4 b) < 16" unfolding unat_drop_bit_eq by (simp add: drop_bit_eq_div less_mult_imp_div_less)
  have "b AND 15 = take_bit 4 b" by (simp add: take_bit_eq_mask mask_eq_exp_minus_1)
  then show "unat (b AND 15) < 16" by (simp add: unsigned_take_bit_eq) (simp add: take_bit_eq_mod)
qed

lemma nibbles_join:
  fixes b :: "8 word"
  shows "push_bit 4 (drop_bit 4 b) OR (b AND 15) = b"
proof -
  have "b AND 15 = take_bit 4 b" by (simp add: take_bit_eq_mask mask_eq_exp_minus_1)
  then show ?thesis by (simp add: bits_ident disjunctive_add [symmetric] bit_simps)
qed

lemma length_encode_hex [simp]: "length (encode_hex bs) = 2 * length bs"
  by (induction bs) (simp_all add: encode_hex_def)

lemma decode_pairs_encode: "decode_hex_pairs (encode_hex bs) = Inr bs"
  by (induction bs) (simp_all add: encode_hex_def decode_nibble nibbles_less nibbles_join)

lemma decode_hex_encode: "length bs = n \<Longrightarrow> decode_hex_exact (encode_hex bs) n = Inr bs"
  by (simp add: decode_hex_exact_def decode_pairs_encode)

text \<open>The documented behaviour of Ed25519: sizes, and a signature verifies under its own key.\<close>

definition ed25519_ok :: "ed25519 \<Rightarrow> bool" where
  "ed25519_ok E \<longleftrightarrow> (\<forall>seed. length seed = 32 \<longrightarrow>
     length (ed_verifying_key E seed) = 32 \<and> ed_from_bytes E (ed_verifying_key E seed) = Inr () \<and>
     (\<forall>msg. length (ed_sign E seed msg) = 64 \<and> ed_verify E (ed_verifying_key E seed) msg (ed_sign E seed msg)))"

text \<open>
  A challenge signed with a generated key pair verifies, through the hexadecimal text of
  the keys and of the signature.
\<close>

lemma signed_challenge_verifies:
  assumes "ed25519_ok E" and "length seed = 32"
  shows "bind_result (sign_challenge E challenge (ck_private_key (generate_keypair E seed)) (ck_public_key (generate_keypair E seed)))
      (verify_challenge E) = Inr True"
  using assms
  by (simp add: sign_challenge_def verify_challenge_def ed25519_sign_def ed25519_verify_def generate_keypair_def
      ensure_ed25519_hex_def decode_hex_encode ed25519_ok_def)

section \<open>Concrete stores\<close>

text \<open>A scope as its number and two texts.\<close>

fun scope_parts :: "credential_scope \<Rightarrow> nat \<times> string \<times> string" where
  "scope_parts ScopeGlobal = (0, [], [])"
| "scope_parts (ScopeAgent (AgentOsId i)) = (1, i, [])"
| "scope_parts (ScopeDevice (IdentityDeviceId d)) = (2, d, [])"
| "scope_parts (ScopeServer s) = (3, s, [])"
| "scope_parts (ScopeConnector c) = (4, c, [])"
| "scope_parts (ScopeConnectorAccount c a) = (5, c, a)"
| "scope_parts (ScopeCustom n i) = (6, n, i)"

definition scope_of_parts :: "nat \<times> string \<times> string \<Rightarrow> credential_scope" where
  "scope_of_parts p = (case p of (n, a, b) \<Rightarrow>
     [ScopeGlobal, ScopeAgent (AgentOsId a), ScopeDevice (IdentityDeviceId a), ScopeServer a, ScopeConnector a,
      ScopeConnectorAccount a b, ScopeCustom a b] ! n)"

lemma scope_of_scope_parts: "scope_of_parts (scope_parts s) = s"
  by (cases s rule: scope_parts.cases) (simp_all add: scope_of_parts_def)

type_synonym entry_parts = "string \<times> (nat \<times> string \<times> string) \<times> string \<times> int \<times> int \<times> string"

definition entry_parts :: "credential_file_entry \<Rightarrow> entry_parts" where
  "entry_parts e = (let m = fe_metadata e in
     (credential_text (cm_id m), scope_parts (cm_scope m), cm_label m, cm_created_at m, cm_updated_at m, fe_secret e))"

definition entry_of_parts :: "entry_parts \<Rightarrow> credential_file_entry" where
  "entry_of_parts p = (case p of (i, s, l, c, u, x) \<Rightarrow>
     \<lparr>fe_metadata = \<lparr>cm_id = CredentialId i, cm_scope = scope_of_parts s, cm_label = l, cm_created_at = c, cm_updated_at = u\<rparr>,
      fe_secret = x\<rparr>)"

lemma credential_id_text [simp]: "CredentialId (credential_text i) = i"
  by (cases i) simp

lemma entry_of_entry_parts: "entry_of_parts (entry_parts e) = e"
  by (simp add: entry_of_parts_def entry_parts_def Let_def scope_of_scope_parts)

definition write_document :: "credential_file_document writer" where
  "write_document = write_via (\<lambda>d. (fd_version d, map entry_parts (fd_records d)))
     (write_pair write_nat (write_list (write_pair write_string (write_pair
       (write_pair write_nat (write_pair write_string write_string))
       (write_pair write_string (write_pair write_int (write_pair write_int write_string)))))))"

definition read_document :: "credential_file_document reader" where
  "read_document = read_via (\<lambda>(v, es). \<lparr>fd_version = v, fd_records = map entry_of_parts es\<rparr>)
     (read_pair read_nat (read_list (read_pair read_string (read_pair
       (read_pair read_nat (read_pair read_string read_string))
       (read_pair read_string (read_pair read_int (read_pair read_int read_string)))))))"

lemma reads_document: "reads_back write_document read_document"
  unfolding write_document_def read_document_def
  by (rule reads_via) (auto intro!: codec_laws simp: entry_of_entry_parts comp_def)

definition example_cipher :: file_cipher where
  "example_cipher = \<lparr>fc_encrypt = (\<lambda>s. Inr (CHR ''!'' # rev s)),
     fc_decrypt = (\<lambda>s. if take 1 s = ''!'' then Inr (rev (drop 1 s)) else Inl (EncryptionUnavailable ''bad magic'')),
     fc_encode = (\<lambda>d. Inr (write_document d)), fc_decode = read_all read_document\<rparr>"

lemma example_cipher_ok: "cipher_ok example_cipher"
  by (simp add: cipher_ok_def example_cipher_def read_all_written [OF reads_document])

definition example_backend :: "secret_map keychain_backend" where
  "example_backend =
     \<lparr>kb_write = (\<lambda>s a x f. (Inr (), f((s, a) \<mapsto> x))),
      kb_read = (\<lambda>s a f. (case f (s, a) of Some x \<Rightarrow> Inr x | None \<Rightarrow> Inl (CredentialNotFound a), f)),
      kb_delete = (\<lambda>s a f. (Inr (), f((s, a) := None)))\<rparr>"

lemma example_backend_ok: "backend_ok example_backend (\<lambda>f. f)"
  by (auto simp: backend_ok_def example_backend_def)

definition example_credential :: "string \<Rightarrow> credential_scope \<Rightarrow> string \<Rightarrow> credential_record" where
  "example_credential i s x = credential_record_new (CredentialId i) s ''label'' (SecretValue x) 5"

theorem encrypted_file_implements_memory_witness:
  "let ops = [OpWrite (example_credential ''a'' ScopeGlobal ''s1''), OpRotate (CredentialId ''a'') (SecretValue ''s2'') 9,
              OpRead (CredentialId ''b'')]
   in fst (credential_run (encrypted_file_ops example_cipher) ops None) =
        [Inr ReplyDone, Inr (ReplyRotated \<lparr>ro_id = CredentialId ''a'', ro_rotated_at = 9, ro_previous_updated_at = 5\<rparr>),
         Inl (CredentialNotFound ''b'')]"
proof -
  let ?ops = "[OpWrite (example_credential ''a'' ScopeGlobal ''s1''), OpRotate (CredentialId ''a'') (SecretValue ''s2'') 9,
              OpRead (CredentialId ''b'')]"
  have "fst (credential_run memory_credential_ops ?ops []) =
        [Inr ReplyDone, Inr (ReplyRotated \<lparr>ro_id = CredentialId ''a'', ro_rotated_at = 9, ro_previous_updated_at = 5\<rparr>),
         Inl (CredentialNotFound ''b'')]"
    by code_simp
  then show ?thesis
    using encrypted_file_implements_memory [OF example_cipher_ok, of ?ops] by (simp add: Let_def)
qed

text \<open>A file that holds a credential of the device and an OAuth token of an account.\<close>

definition write_token :: "token_serde writer" where
  "write_token = write_via (\<lambda>t. (ts_access_token t, ts_refresh_token t, ts_token_type t, ts_expires_at t, ts_scopes t))
     (write_pair write_string (write_pair (write_option write_string) (write_pair write_string
       (write_pair (write_option write_int) (write_list write_string)))))"

definition read_token :: "token_serde reader" where
  "read_token = read_via (\<lambda>(a, r, t, e, s). \<lparr>ts_access_token = a, ts_refresh_token = r, ts_token_type = t,
       ts_expires_at = e, ts_scopes = s\<rparr>)
     (read_pair read_string (read_pair (read_option read_string) (read_pair read_string
       (read_pair (read_option read_int) (read_list read_string)))))"

lemma reads_token: "reads_back write_token read_token"
  unfolding write_token_def read_token_def by (rule reads_via) (auto intro!: codec_laws)

definition example_token_codec :: token_codec where
  "example_token_codec = \<lparr>tk_encode = (\<lambda>d. Inr (write_token d)), tk_decode = read_all read_token\<rparr>"

lemma example_token_codec_ok: "token_codec_ok example_token_codec"
  by (simp add: token_codec_ok_def example_token_codec_def read_all_written [OF reads_token])

definition example_token :: oauth_token_set where
  "example_token = oauth_token_set_new (SecretValue ''t'') (Some (SecretValue ''r'')) ''Bearer'' (Some 100) [''mail'']"

definition example_credentials :: credential_map where
  "example_credentials =
     [(CredentialId ''d'', example_credential ''d'' (ScopeDevice (IdentityDeviceId ''D'')) ''x''),
      (CredentialId ''o'', example_credential ''o'' (ScopeConnectorAccount ''mail'' ''me'') (write_token (from_token_set example_token)))]"

lemma example_credentials_keyed: "keyed cred_id example_credentials"
  by (auto simp: keyed_pairs example_credentials_def bt_inv_def example_credential_def credential_record_new_def
      less_credential_id_def)

lemma example_file:
  "\<exists>st. file_inv example_cipher st \<and> file_contents example_cipher st = example_credentials"
  using persist_inv [OF conjunct1 [OF file_inv_None [OF example_cipher_ok]] example_credentials_keyed] by blast

theorem device_revocation_complete_witness:
  "\<exists>st st'. file_contents example_cipher st = example_credentials \<and>
    snd (revoke_device_credentials (encrypted_file_ops example_cipher) (IdentityDeviceId ''D'') 9 st) = st' \<and>
    m_get (file_contents example_cipher st') (CredentialId ''d'') = None \<and>
    m_get (file_contents example_cipher st') (CredentialId ''o'') \<noteq> None"
proof -
  obtain st where held: "file_inv example_cipher st" "file_contents example_cipher st = example_credentials"
    using example_file by blast
  have "device_credentials (IdentityDeviceId ''D'') example_credentials = [CredentialId ''d'']"
    by code_simp
  moreover have "m_get example_credentials (CredentialId ''o'') \<noteq> None"
    by code_simp
  ultimately show ?thesis
    using device_revocation_complete [OF held(1), of "IdentityDeviceId ''D''" 9 "CredentialId ''d''"]
      device_revocation_complete [OF held(1), of "IdentityDeviceId ''D''" 9 "CredentialId ''o''"] held(2)
    by fastforce
qed

definition example_ref :: oauth_credential_ref where
  "example_ref = oauth_credential_ref_new (CredentialId ''o'') ''mail'' (Some ''me'') []"

lemma example_encode: "tk_encode example_token_codec d = Inr (write_token d)"
  by (simp add: example_token_codec_def)

lemma example_stored:
  "m_get example_credentials (CredentialId ''o'') =
     Some (example_credential ''o'' (ScopeConnectorAccount ''mail'' ''me'') (write_token (from_token_set example_token)))"
  by (simp add: example_credentials_def m_get_Cons)

lemma example_readable:
  "from_credential_record example_token_codec (example_credential i s (write_token (from_token_set example_token))) = Inr example_token"
proof -
  have "into_token_set (from_token_set example_token) = example_token" by code_simp
  then show ?thesis
    by (simp add: from_credential_record_def example_credential_def credential_record_new_def example_token_codec_def
        map_err_def read_all_written [OF reads_token])
qed

lemma example_stale: "needs_refresh 150 30 example_token" and example_refreshable: "ot_refresh_token example_token = Some (SecretValue ''r'')"
  by code_simp+

lemma oauth_refresh_correct_witness:
  "\<exists>st st' w' t. file_contents example_cipher st = example_credentials \<and>
    refresh_oauth_credential (encrypted_file_ops example_cipher) example_token_codec (scripted_refresh 200) example_ref 150 30
      (st, scripted_refresher_new ''new'') = (Inr t, st', w') \<and>
    ot_access_token t = SecretValue ''new-1'' \<and>
    (\<exists>stored. m_get (file_contents example_cipher st') (CredentialId ''o'') = Some stored \<and>
       from_credential_record example_token_codec stored = Inr (t\<lparr>ot_scopes := normalize_scopes (ot_scopes t)\<rparr>))"
proof -
  let ?refresh = "\<lambda>S. refresh_oauth_credential S example_token_codec (scripted_refresh 200) example_ref 150 30"
  obtain st where held: "file_inv example_cipher st" "file_contents example_cipher st = example_credentials"
    using example_file by blast
  obtain res st' w' where run: "?refresh (encrypted_file_ops example_cipher) (st, scripted_refresher_new ''new'') = (res, st', w')"
    by (metis surj_pair)
  have inv: "file_inv example_cipher (fst (st, scripted_refresher_new ''new''))" using held(1) by simp
  have id: "rf_credential_id example_ref = CredentialId ''o''" by (simp add: example_ref_def oauth_credential_ref_new_def)
  have one: "decimal (Suc 0) = ''1''" by code_simp
  have "\<exists>t m' w'. ?refresh memory_credential_ops (example_credentials, scripted_refresher_new ''new'') = (Inr t, m', w') \<and>
      ot_access_token t = SecretValue ''new-1''"
    by (simp add: refresh_oauth_credential_def memory_steps id example_stored example_readable example_stale example_refreshable
        andThen_def ret_def lift_def scripted_refresh_def scripted_refresher_new_def to_credential_record_def
        example_encode oauth_token_set_new_def Let_def one)
  then obtain t where t: "res = Inr t" "ot_access_token t = SecretValue ''new-1''"
    using simulatesD [OF encrypted.refresh_sim inv run] held(2) by (auto simp: paired_def)
  show ?thesis
    using oauth_refresh_correct [OF held(1) example_token_codec_ok run] run t held(2)
    by (auto simp: id example_stored example_readable example_stale)
qed

lemma offboarding_removes_account_witness:
  "\<exists>st st' w' outs. file_contents example_cipher st = example_credentials \<and>
    offboard_connector_account_oauth_credentials (encrypted_file_ops example_cipher) example_token_codec scripted_revoke
      ''mail'' ''me'' 9
      (st, \<lparr>sv_endpoint_config = \<lparr>ec_provider_id = ''p'', ec_token_endpoint = ''u'', ec_revocation_endpoint = Some ''v''\<rparr>,
              sv_failure = None, sv_revocation_count = 0\<rparr>) = (Inr outs, st', w') \<and>
    length outs = 1 \<and> m_get (file_contents example_cipher st') (CredentialId ''o'') = None"
proof -
  let ?w = "\<lparr>sv_endpoint_config = \<lparr>ec_provider_id = ''p'', ec_token_endpoint = ''u'', ec_revocation_endpoint = Some ''v''\<rparr>,
              sv_failure = None, sv_revocation_count = 0\<rparr>"
  let ?offboard = "\<lambda>S. offboard_connector_account_oauth_credentials S example_token_codec scripted_revoke ''mail'' ''me'' 9"
  obtain st where held: "file_inv example_cipher st" "file_contents example_cipher st = example_credentials"
    using example_file by blast
  obtain res st' w' where run: "?offboard (encrypted_file_ops example_cipher) (st, ?w) = (res, st', w')"
    by (metis surj_pair)
  have inv: "file_inv example_cipher (fst (st, ?w))" using held(1) by simp
  have "is_ok (fst (?offboard memory_credential_ops (example_credentials, ?w)))" by code_simp
  then obtain outs where outs: "res = Inr outs"
    using simulatesD [OF encrypted.offboard_sim inv run] held(2) by (cases res) (auto simp: paired_def)
  have "account_credentials ''mail'' ''me'' example_credentials = [CredentialId ''o'']" by code_simp
  then show ?thesis
    using offboarding_removes_account [OF held(1) run, of "CredentialId ''o''"] run outs held(2) by auto
qed

lemma signed_challenge_verifies_witness:
  "let E = \<lparr>ed_verifying_key = (\<lambda>s. s), ed_sign = (\<lambda>s m. s @ s), ed_from_bytes = (\<lambda>k. Inr ()),
            ed_verify = (\<lambda>k m x. x = k @ k)\<rparr>; seed = replicate 32 171
   in bind_result (sign_challenge E ''hello'' (ck_private_key (generate_keypair E seed)) (ck_public_key (generate_keypair E seed)))
      (verify_challenge E) = Inr True"
  using signed_challenge_verifies [of "\<lparr>ed_verifying_key = (\<lambda>s. s), ed_sign = (\<lambda>s m. s @ s), ed_from_bytes = (\<lambda>k. Inr ()),
            ed_verify = (\<lambda>k m x. x = k @ k)\<rparr>" "replicate 32 171" "''hello''"]
  by (simp add: ed25519_ok_def Let_def)

end
