(* ===== verification/Reminders.thy ===== *)
theory Reminders
  imports Action_Runtime Record_Log Example_Codec "HOL-Library.Multiset"
begin

text \<open>
  Reminders: notifications (\<open>notification-core/src/lib.rs\<close>), the scheduler with its store on
  disk and its bridge to notifications (\<open>scheduler/src/lib.rs\<close>), and the reminder repository
  with its action executor (\<open>reminder-core/src/lib.rs\<close>).

  A hash table is walked in an order that nothing promises; the order is a parameter \<open>ho\<close> that
  permutes the jobs. Clock readings are arguments. A panic is the value \<open>None\<close>.
\<close>

section \<open>Notifications\<close>

datatype (plugins only: code size) notification_id = NotificationId string

fun notification_text :: "notification_id \<Rightarrow> string" where
  "notification_text (NotificationId s) = s"

datatype (plugins only: code size) notification_type = ReminderDue | SystemAlert | Info

record notification =
  nt_id :: notification_id
  nt_title :: string
  nt_body :: string
  nt_type :: notification_type
  nt_source_reminder_id :: "string option"
  nt_created_at :: datetime
  nt_read_at :: "datetime option"

datatype (plugins only: code size) notification_error = NotificationNotFound string | NotificationInternal string

type_synonym notification_map = "(string, notification) hmap"

definition capture :: "notification \<Rightarrow> notification list \<Rightarrow> (notification_error + unit) \<times> notification list" where
  "capture n ns = (Inr (), ns @ [n])"

definition save_notification :: "notification \<Rightarrow> notification_map \<Rightarrow> (notification_error + unit) \<times> notification_map" where
  "save_notification n m = (Inr (), hm_put (notification_text (nt_id n)) n m)"

definition get_notification :: "notification_id \<Rightarrow> notification_map \<Rightarrow> notification_error + notification" where
  "get_notification i m = ok_or (m_get m (notification_text i)) (NotificationNotFound (notification_text i))"

definition list_unread :: "notification_map \<Rightarrow> notification list" where
  "list_unread m = filter (\<lambda>n. nt_read_at n = None) (m_values m)"

definition mark_read :: "datetime \<Rightarrow> notification_id \<Rightarrow> notification_map \<Rightarrow> (notification_error + unit) \<times> notification_map" where
  "mark_read now i m =
     (if m_contains m (notification_text i)
      then (Inr (), m_modify (notification_text i) (\<lambda>n. n\<lparr>nt_read_at := Some now\<rparr>) m)
      else (Inl (NotificationNotFound (notification_text i)), m))"

section \<open>The scheduler\<close>

datatype (plugins only: code size) scheduled_job_id = ScheduledJobId string

fun job_text :: "scheduled_job_id \<Rightarrow> string" where
  "job_text (ScheduledJobId s) = s"

datatype (plugins only: code size) job_status = JobPending | JobFired | JobCancelled

record scheduled_job =
  sj_id :: scheduled_job_id
  sj_reminder_id :: string
  sj_due_at :: datetime
  sj_status :: job_status
  sj_created_at :: datetime

datatype (plugins only: code size) scheduler_error = JobNotFound string | SchedulerInternal string

type_synonym job_map = "(string, scheduled_job) hmap"
type_synonym job_order = "scheduled_job list \<Rightarrow> scheduled_job list"

definition save_job :: "scheduled_job \<Rightarrow> job_map \<Rightarrow> job_map" where
  "save_job j m = hm_put (job_text (sj_id j)) j m"

definition get_job :: "scheduled_job_id \<Rightarrow> job_map \<Rightarrow> scheduler_error + scheduled_job" where
  "get_job i m = ok_or (m_get m (job_text i)) (JobNotFound (job_text i))"

definition update_job_status :: "scheduled_job_id \<Rightarrow> job_status \<Rightarrow> job_map \<Rightarrow> (scheduler_error + unit) \<times> job_map" where
  "update_job_status i st m =
     (if m_contains m (job_text i) then (Inr (), m_modify (job_text i) (\<lambda>j. j\<lparr>sj_status := st\<rparr>) m)
      else (Inl (JobNotFound (job_text i)), m))"

definition schedule :: "scheduled_job_id \<Rightarrow> string \<Rightarrow> datetime \<Rightarrow> datetime \<Rightarrow> job_map \<Rightarrow> job_map" where
  "schedule i reminder due created =
     save_job \<lparr>sj_id = i, sj_reminder_id = reminder, sj_due_at = due, sj_status = JobPending, sj_created_at = created\<rparr>"

text \<open>The loop of \<open>poll_due_jobs\<close>; the \<open>unwrap\<close> of a job that is gone would panic.\<close>

fun poll_each :: "datetime \<Rightarrow> scheduled_job list \<Rightarrow> job_map \<Rightarrow> (scheduled_job list \<times> job_map) option" where
  "poll_each now [] m = Some ([], m)"
| "poll_each now (j # js) m =
     (if sj_status j = JobPending \<and> sj_due_at j \<le> now then
        (case update_job_status (sj_id j) JobFired m of
           (Inl _, _) \<Rightarrow> None
         | (Inr _, m') \<Rightarrow>
             map_option (\<lambda>(fired, m''). (j\<lparr>sj_status := JobFired\<rparr> # fired, m'')) (poll_each now js m'))
      else poll_each now js m)"

definition poll_due_jobs :: "job_order \<Rightarrow> datetime \<Rightarrow> job_map \<Rightarrow> (scheduled_job list \<times> job_map) option" where
  "poll_due_jobs ho now m = poll_each now (ho (m_values m)) m"

definition cancel_job :: "scheduled_job_id \<Rightarrow> job_map \<Rightarrow> (scheduler_error + unit) \<times> job_map" where
  "cancel_job i = update_job_status i JobCancelled"

subsection \<open>The store on disk\<close>

record job_store =
  js_file :: "string option"
  js_jobs :: job_map

fun read_jobs :: "scheduled_job line_codec \<Rightarrow> string list \<Rightarrow> job_map \<Rightarrow> scheduler_error + job_map" where
  "read_jobs C [] m = Inr m"
| "read_jobs C (l # ls) m =
     (if trim l = [] then read_jobs C ls m
      else (case dec_record C (trim l) of
              Inl e \<Rightarrow> Inl (SchedulerInternal (''failed to parse job: '' @ e))
            | Inr j \<Rightarrow> read_jobs C ls (save_job j m)))"

definition load_jobs :: "scheduled_job line_codec \<Rightarrow> string \<Rightarrow> scheduler_error + job_map" where
  "load_jobs C bs =
     (if \<not> utf8_valid bs then Inl (SchedulerInternal ''failed to read store file: stream did not contain valid UTF-8'')
      else read_jobs C (file_lines bs) [])"

definition job_store_new :: "scheduled_job line_codec \<Rightarrow> string option \<Rightarrow> scheduler_error + job_store" where
  "job_store_new C file =
     bind_result (case file of None \<Rightarrow> Inr [] | Some bs \<Rightarrow> load_jobs C bs) (\<lambda>m. Inr \<lparr>js_file = file, js_jobs = m\<rparr>)"

definition persist_all :: "scheduled_job line_codec \<Rightarrow> job_order \<Rightarrow> job_store \<Rightarrow> job_store" where
  "persist_all C ho s = s\<lparr>js_file := Some (concat (map (\<lambda>j. enc_record C j @ [newline]) (ho (m_values (js_jobs s)))))\<rparr>"

definition store_save :: "scheduled_job line_codec \<Rightarrow> job_order \<Rightarrow> scheduled_job \<Rightarrow> job_store \<Rightarrow> job_store" where
  "store_save C ho j s = persist_all C ho (s\<lparr>js_jobs := save_job j (js_jobs s)\<rparr>)"

definition store_update_status ::
    "scheduled_job line_codec \<Rightarrow> job_order \<Rightarrow> scheduled_job_id \<Rightarrow> job_status \<Rightarrow> job_store \<Rightarrow> (scheduler_error + unit) \<times> job_store" where
  "store_update_status C ho i st s =
     (case update_job_status i st (js_jobs s) of
        (Inl e, m) \<Rightarrow> (Inl e, s)
      | (Inr _, m) \<Rightarrow> (Inr (), persist_all C ho (s\<lparr>js_jobs := m\<rparr>)))"

definition store_delete_job :: "scheduled_job line_codec \<Rightarrow> job_order \<Rightarrow> scheduled_job_id \<Rightarrow> job_store \<Rightarrow> job_store" where
  "store_delete_job C ho i s = persist_all C ho (s\<lparr>js_jobs := m_remove (job_text i) (js_jobs s)\<rparr>)"

subsection \<open>The bridge to notifications\<close>

text \<open>A sink and a store of notifications, as operations on a world of their own.\<close>

record 'w notification_deps =
  nd_emit :: "notification \<Rightarrow> 'w \<Rightarrow> (notification_error + unit) \<times> 'w"
  nd_save :: "notification \<Rightarrow> 'w \<Rightarrow> (notification_error + unit) \<times> 'w"

definition due_notification :: "datetime \<Rightarrow> scheduled_job \<Rightarrow> notification" where
  "due_notification now j =
     \<lparr>nt_id = NotificationId (''notif-'' @ job_text (sj_id j)), nt_title = ''Reminder Due'',
      nt_body = ''Reminder '' @ sj_reminder_id j @ '' is due.'', nt_type = ReminderDue,
      nt_source_reminder_id = Some (sj_reminder_id j), nt_created_at = now, nt_read_at = None\<rparr>"

text \<open>The clock is read once for the poll and once for each job; both failures are only logged.\<close>

fun notify_each :: "'w notification_deps \<Rightarrow> (nat \<Rightarrow> datetime) \<Rightarrow> nat \<Rightarrow> scheduled_job list \<Rightarrow> 'w \<Rightarrow> notification list \<times> 'w" where
  "notify_each D clock k [] w = ([], w)"
| "notify_each D clock k (j # js) w =
     (let n = due_notification (clock k) j;
          w' = snd (nd_save D n (snd (nd_emit D n w)));
          (ns, w'') = notify_each D clock (k + 1) js w'
      in (n # ns, w''))"

definition process_due ::
    "'w notification_deps \<Rightarrow> job_order \<Rightarrow> (nat \<Rightarrow> datetime) \<Rightarrow> job_map \<times> 'w \<Rightarrow> (notification list \<times> job_map \<times> 'w) option" where
  "process_due D ho clock = (\<lambda>(m, w).
     map_option (\<lambda>(due, m'). let (ns, w') = notify_each D clock 1 due w in (ns, m', w')) (poll_due_jobs ho (clock 0) m))"


section \<open>The repository and the executor of reminders\<close>

datatype (plugins only: code size) reminder_id = ReminderId string

fun reminder_text :: "reminder_id \<Rightarrow> string" where
  "reminder_text (ReminderId s) = s"

datatype (plugins only: code size) reminder_time_spec = Absolute datetime | Relative int

fun resolve :: "datetime \<Rightarrow> reminder_time_spec \<Rightarrow> datetime" where
  "resolve now (Absolute t) = t"
| "resolve now (Relative d) = now + d"

datatype (plugins only: code size) reminder_status = RemPending | RemDue | RemCompleted | RemCancelled | RemSnoozed

datatype (plugins only: code size) reminder_recurrence = RecNone | RecDaily | RecWeekly | RecMonthly | RecCustom int

datatype (plugins only: code size) reminder_source = UserCreated | SystemGenerated

record reminder =
  rem_id :: reminder_id
  rem_title :: string
  rem_description :: string
  rem_time_spec :: reminder_time_spec
  rem_status :: reminder_status
  rem_recurrence :: reminder_recurrence
  rem_source :: reminder_source
  rem_artifact_id :: "artifact_id option"
  rem_created_at :: datetime
  rem_updated_at :: datetime

record reminder_create_input =
  ci_title :: string
  ci_description :: string
  ci_time_spec :: reminder_time_spec
  ci_recurrence :: reminder_recurrence
  ci_created_at :: datetime

text \<open>The inputs of completion, cancellation and snoozing; the duration is only in the last.\<close>

record reminder_snooze_input =
  si_reminder_id :: string
  si_snooze_duration :: int

datatype (plugins only: code size) reminder_error =
    ReminderNotFound string
  | InvalidReminderTransition reminder_status reminder_status
  | ReminderInternal string

definition show_reminder_status :: "reminder_status \<Rightarrow> string" where
  "show_reminder_status s =
     (case s of RemPending \<Rightarrow> ''Pending'' | RemDue \<Rightarrow> ''Due'' | RemCompleted \<Rightarrow> ''Completed''
      | RemCancelled \<Rightarrow> ''Cancelled'' | RemSnoozed \<Rightarrow> ''Snoozed'')"

text \<open>The arrow of the message is the three bytes of U+2192.\<close>

definition reminder_error_message :: "reminder_error \<Rightarrow> string" where
  "reminder_error_message e =
     (case e of
        ReminderNotFound s \<Rightarrow> ''reminder not found: '' @ s
      | InvalidReminderTransition a b \<Rightarrow>
          ''invalid state transition: '' @ show_reminder_status a @ '' '' @
          [CHR 0xE2, CHR 0x86, CHR 0x92] @ '' '' @ show_reminder_status b
      | ReminderInternal s \<Rightarrow> ''internal error: '' @ s)"

type_synonym reminder_map = "(string, reminder) hmap"

definition save_reminder :: "reminder \<Rightarrow> (reminder_map, reminder_error, unit) prog" where
  "save_reminder r m = (Inr (), hm_put (reminder_text (rem_id r)) r m)"

definition get_reminder :: "reminder_id \<Rightarrow> (reminder_map, reminder_error, reminder) prog" where
  "get_reminder i m = (ok_or (m_get m (reminder_text i)) (ReminderNotFound (reminder_text i)), m)"

definition list_due :: "reminder_map \<Rightarrow> reminder list" where
  "list_due m = filter (\<lambda>r. rem_status r = RemDue) (m_values m)"

definition update_reminder_status :: "datetime \<Rightarrow> reminder_id \<Rightarrow> reminder_status \<Rightarrow> (reminder_map, reminder_error, unit) prog" where
  "update_reminder_status now i st m =
     (if m_contains m (reminder_text i)
      then (Inr (), m_modify (reminder_text i) (\<lambda>r. r\<lparr>rem_status := st, rem_updated_at := now\<rparr>) m)
      else (Inl (ReminderNotFound (reminder_text i)), m))"

definition REMINDER_CREATE :: string where "REMINDER_CREATE = ''reminder.create''"
definition REMINDER_COMPLETE :: string where "REMINDER_COMPLETE = ''reminder.complete''"
definition REMINDER_CANCEL :: string where "REMINDER_CANCEL = ''reminder.cancel''"
definition REMINDER_SNOOZE :: string where "REMINDER_SNOOZE = ''reminder.snooze''"

definition reminder_schema :: "string \<Rightarrow> string \<Rightarrow> string \<Rightarrow> action_schema" where
  "reminder_schema k n d =
     \<lparr>sch_kind = ActionKind k, sch_display_name = n, sch_description = d, sch_side_effect = RuntimeStateMutation,
      sch_input_schema = None, sch_output_schema = None\<rparr>"

definition register_reminder_action_schemas :: "(action_registry, action_registry_error, unit) prog" where
  "register_reminder_action_schemas =
     andThen (register_action (reminder_schema REMINDER_CREATE ''Create Reminder'' ''Create a new reminder.'')) (\<lambda>_.
     andThen (register_action (reminder_schema REMINDER_COMPLETE ''Complete Reminder'' ''Mark a reminder as completed.'')) (\<lambda>_.
     andThen (register_action (reminder_schema REMINDER_CANCEL ''Cancel Reminder'' ''Cancel a reminder.'')) (\<lambda>_.
     register_action (reminder_schema REMINDER_SNOOZE ''Snooze Reminder'' ''Snooze a reminder for a specified duration.''))))"

text \<open>The JSON forms of the inputs and of a reminder.\<close>

record reminder_codec =
  rk_create :: "json \<Rightarrow> string + reminder_create_input"
  rk_complete :: "json \<Rightarrow> string + string"
  rk_cancel :: "json \<Rightarrow> string + string"
  rk_snooze :: "json \<Rightarrow> string + reminder_snooze_input"
  rk_value :: "reminder \<Rightarrow> string + json"

definition reminder_payload :: "reminder_codec \<Rightarrow> reminder \<Rightarrow> (reminder_map, executor_error, action_result_payload) prog" where
  "reminder_payload K r = to_failed id (lift (case rk_value K r of Inl e \<Rightarrow> Inl e | Inr j \<Rightarrow> Inr (PJson j)))"

definition set_status_and_report ::
    "reminder_codec \<Rightarrow> datetime \<Rightarrow> reminder_status \<Rightarrow> string \<Rightarrow> (reminder_map, executor_error, action_result_payload) prog" where
  "set_status_and_report K at st i =
     andThen (to_failed reminder_error_message (update_reminder_status at (ReminderId i) st)) (\<lambda>_.
     andThen (to_failed reminder_error_message (get_reminder (ReminderId i))) (reminder_payload K))"

definition created_reminder :: "action_request \<Rightarrow> reminder_create_input \<Rightarrow> reminder" where
  "created_reminder q c =
     \<lparr>rem_id = ReminderId (action_text (req_action_id q)), rem_title = ci_title c, rem_description = ci_description c,
      rem_time_spec = ci_time_spec c, rem_status = RemPending, rem_recurrence = ci_recurrence c, rem_source = UserCreated,
      rem_artifact_id = None, rem_created_at = ci_created_at c, rem_updated_at = ci_created_at c\<rparr>"

text \<open>\<open>now\<close> is the clock when the execution starts, \<open>at\<close> when a status is set.\<close>

definition reminder_execute ::
    "reminder_codec \<Rightarrow> datetime \<Rightarrow> datetime \<Rightarrow> action_request \<Rightarrow> (reminder_map, executor_error, action_result) prog" where
  "reminder_execute K now at q =
     andThen
       (let k = kind_text (req_action_kind q); input = req_input q in
        if k = REMINDER_CREATE then
          andThen (lift (parsed (rk_create K input))) (\<lambda>c.
          andThen (to_failed reminder_error_message (save_reminder (created_reminder q c))) (\<lambda>_.
            reminder_payload K (created_reminder q c)))
        else if k = REMINDER_COMPLETE then
          andThen (lift (parsed (rk_complete K input))) (set_status_and_report K at RemCompleted)
        else if k = REMINDER_CANCEL then
          andThen (lift (parsed (rk_cancel K input))) (set_status_and_report K at RemCancelled)
        else if k = REMINDER_SNOOZE then
          andThen (lift (parsed (rk_snooze K input))) (\<lambda>x. set_status_and_report K at RemSnoozed (si_reminder_id x))
        else raise (NotSupported (req_action_kind q)))
       (\<lambda>payload. ret \<lparr>res_status = StCompleted, res_payload = payload,
          res_summary = kind_text (req_action_kind q) @ '' completed'', res_completed_at = now\<rparr>)"

section \<open>Jobs fire once\<close>

definition orders :: "job_order \<Rightarrow> bool" where
  "orders ho \<longleftrightarrow> (\<forall>js. mset (ho js) = mset js)"

definition jobs_keyed :: "job_map \<Rightarrow> bool" where
  "jobs_keyed m \<longleftrightarrow> hm_inv m \<and> (\<forall>k j. m_get m k = Some j \<longrightarrow> job_text (sj_id j) = k)"

definition is_due :: "datetime \<Rightarrow> scheduled_job \<Rightarrow> bool" where
  "is_due now j \<longleftrightarrow> sj_status j = JobPending \<and> sj_due_at j \<le> now"

abbreviation fired :: "scheduled_job \<Rightarrow> scheduled_job" where
  "fired j \<equiv> j\<lparr>sj_status := JobFired\<rparr>"

definition fire_all :: "scheduled_job list \<Rightarrow> job_map \<Rightarrow> job_map" where
  "fire_all = fold (\<lambda>j. m_modify (job_text (sj_id j)) fired)"

lemma job_text_inject [simp]: "job_text i = job_text j \<longleftrightarrow> i = j"
  by (cases i; cases j) simp

lemma poll_each_run:
  "(\<And>j. j \<in> set js \<Longrightarrow> m_contains m (job_text (sj_id j))) \<Longrightarrow>
   poll_each now js m = Some (map fired (filter (is_due now) js), fire_all (filter (is_due now) js) m)"
proof (induction js arbitrary: m)
  case Nil
  then show ?case by (simp add: fire_all_def)
next
  case (Cons j js)
  then show ?case by (auto simp: fire_all_def is_due_def update_job_status_def)
qed

lemma get_fire_all:
  "m_get (fire_all js m) k = (if k \<in> (\<lambda>j. job_text (sj_id j)) ` set js then map_option fired (m_get m k) else m_get m k)"
  by (induction js arbitrary: m) (auto simp: fire_all_def option.map_comp comp_def)

lemma jobs_keyed_values:
  "jobs_keyed m \<Longrightarrow> j \<in> set (m_values m) \<longleftrightarrow> m_get m (job_text (sj_id j)) = Some j"
  using m_values_get [of m j] by (auto simp: jobs_keyed_def)

lemma jobs_keyed_Nil [simp]: "jobs_keyed []"
  by (simp add: jobs_keyed_def)

lemma jobs_keyed_save [simp]: "jobs_keyed m \<Longrightarrow> jobs_keyed (save_job j m)"
  by (auto simp: jobs_keyed_def save_job_def split: if_splits)

lemma jobs_keyed_update: "jobs_keyed m \<Longrightarrow> update_job_status i st m = (r, m') \<Longrightarrow> jobs_keyed m'"
  by (auto simp: jobs_keyed_def update_job_status_def split: if_splits)

lemma jobs_keyed_fire [simp]: "jobs_keyed m \<Longrightarrow> jobs_keyed (fire_all js m)"
proof (induction js arbitrary: m)
  case Nil
  then show ?case by (simp add: fire_all_def)
next
  case (Cons j js)
  have "jobs_keyed (m_modify (job_text (sj_id j)) fired m)"
    using Cons.prems unfolding jobs_keyed_def by (auto split: if_splits) (metis job_text_inject)
  from Cons.IH [OF this] show ?case by (simp add: fire_all_def)
qed

lemma jobs_keyed_remove [simp]: "jobs_keyed m \<Longrightarrow> jobs_keyed (m_remove k m)"
  by (auto simp: jobs_keyed_def split: if_splits)

lemma poll_run:
  assumes "orders ho" and "jobs_keyed m"
  shows "poll_due_jobs ho now m =
    Some (map fired (filter (is_due now) (ho (m_values m))), fire_all (filter (is_due now) (ho (m_values m))) m)"
proof -
  have "set (ho (m_values m)) = set (m_values m)" using assms(1) unfolding orders_def by (metis set_mset_mset)
  then have "m_contains m (job_text (sj_id j))" if "j \<in> set (ho (m_values m))" for j
    using that jobs_keyed_values [OF assms(2), of j] by (auto simp: m_contains_def)
  then show ?thesis unfolding poll_due_jobs_def by (rule poll_each_run)
qed

text \<open>
  Two polls that both list the table before either of them updates it hand out the same jobs:
  the second loop runs over the statuses it has seen.
\<close>

lemma polls_from_one_list:
  assumes "orders ho" and "jobs_keyed m"
  shows "\<exists>m1 m2. poll_each now (ho (m_values m)) m = Some (map fired (filter (is_due now) (ho (m_values m))), m1) \<and>
    poll_each now (ho (m_values m)) m1 = Some (map fired (filter (is_due now) (ho (m_values m))), m2)"
proof -
  let ?js = "ho (m_values m)"
  have "set ?js = set (m_values m)" using assms(1) unfolding orders_def by (metis set_mset_mset)
  then have known: "m_contains m (job_text (sj_id j))" if "j \<in> set ?js" for j
    using that jobs_keyed_values [OF assms(2), of j] by (auto simp: m_contains_def)
  then have "m_contains (fire_all (filter (is_due now) ?js) m) (job_text (sj_id j))" if "j \<in> set ?js" for j
    using that by (auto simp: m_contains_def get_fire_all)
  with known show ?thesis by (simp add: poll_each_run)
qed

text \<open>Operations of the scheduler, and the jobs each poll hands out, with the time of the poll.\<close>

datatype (plugins only: code size) scheduler_op =
    OpSchedule scheduled_job_id string datetime datetime
  | OpPoll datetime
  | OpCancel scheduled_job_id

fun scheduler_run :: "job_order \<Rightarrow> scheduler_op list \<Rightarrow> job_map \<Rightarrow> ((datetime \<times> scheduled_job) list \<times> job_map) option" where
  "scheduler_run ho [] m = Some ([], m)"
| "scheduler_run ho (OpSchedule i r due created # ops) m = scheduler_run ho ops (schedule i r due created m)"
| "scheduler_run ho (OpCancel i # ops) m = scheduler_run ho ops (snd (cancel_job i m))"
| "scheduler_run ho (OpPoll now # ops) m =
     Option.bind (poll_due_jobs ho now m) (\<lambda>(js, m').
     map_option (\<lambda>(rest, m''). (map (\<lambda>j. (now, j)) js @ rest, m'')) (scheduler_run ho ops m'))"

definition fired_times :: "scheduled_job_id \<Rightarrow> (datetime \<times> scheduled_job) list \<Rightarrow> nat" where
  "fired_times i es = length (filter (\<lambda>(t, j). sj_id j = i) es)"

fun scheduled_times :: "scheduled_job_id \<Rightarrow> scheduler_op list \<Rightarrow> nat" where
  "scheduled_times i [] = 0"
| "scheduled_times i (OpSchedule i' r d c # ops) = (if i' = i then 1 else 0) + scheduled_times i ops"
| "scheduled_times i (_ # ops) = scheduled_times i ops"

definition pending :: "scheduled_job_id \<Rightarrow> job_map \<Rightarrow> nat" where
  "pending i m = (case m_get m (job_text i) of None \<Rightarrow> 0 | Some j \<Rightarrow> if sj_status j = JobPending then 1 else 0)"

lemma values_with_id:
  assumes "jobs_keyed m"
  shows "filter (\<lambda>j. sj_id j = i) (m_values m) = (case m_get m (job_text i) of None \<Rightarrow> [] | Some j \<Rightarrow> [j])"
proof -
  have keys: "\<forall>p \<in> set m. job_text (sj_id (snd p)) = fst p" and "hm_inv m"
    using assms in_set_m_get by (fastforce simp: jobs_keyed_def)+
  then show ?thesis
  proof (induction m)
    case Nil
    then show ?case by (simp add: m_values_def)
  next
    case (Cons p m)
    obtain k j where p: "p = (k, j)" by (cases p)
    have k: "k = job_text (sj_id j)" and fresh: "k \<notin> fst ` set m" and inv: "hm_inv m" using Cons.prems p by (auto simp: hm_inv_def)
    then have "m_get m k = None" by (auto simp: m_get_def map_of_eq_None_iff)
    with Cons.IH Cons.prems inv p k show ?case
      by (auto simp: m_values_def m_get_Cons split: option.splits if_splits)
  qed
qed

lemma fired_by_poll:
  assumes "orders ho" and "jobs_keyed m"
  shows "fired_times i (map (\<lambda>j. (now, j)) (map fired (filter (is_due now) (ho (m_values m))))) +
    pending i (fire_all (filter (is_due now) (ho (m_values m))) m) = pending i m"
proof -
  let ?js = "ho (m_values m)"
  have ms: "mset ?js = mset (m_values m)" using assms(1) by (simp add: orders_def)
  then have set: "set ?js = set (m_values m)" by (metis set_mset_mset)
  have "fired_times i (map (\<lambda>j. (now, j)) (map fired (filter (is_due now) ?js))) =
      length (filter (is_due now) (filter (\<lambda>j. sj_id j = i) ?js))"
    by (simp add: fired_times_def filter_map comp_def conj_commute)
  also have "\<dots> = size (filter_mset (is_due now) (filter_mset (\<lambda>j. sj_id j = i) (mset ?js)))"
    by (metis mset_filter size_mset)
  also have "\<dots> = length (filter (is_due now) (filter (\<lambda>j. sj_id j = i) (m_values m)))"
    unfolding ms by (metis mset_filter size_mset)
  finally have count: "fired_times i (map (\<lambda>j. (now, j)) (map fired (filter (is_due now) ?js))) =
      (case m_get m (job_text i) of None \<Rightarrow> 0 | Some j \<Rightarrow> if is_due now j then 1 else 0)"
    by (simp add: values_with_id [OF assms(2)] split: option.split)
  have "job_text i \<in> (\<lambda>j. job_text (sj_id j)) ` set (filter (is_due now) ?js) \<longleftrightarrow>
      (\<exists>j. m_get m (job_text i) = Some j \<and> is_due now j)"
    using jobs_keyed_values [OF assms(2)] assms(2) by (fastforce simp: set jobs_keyed_def)
  then show ?thesis
    unfolding count by (auto simp: pending_def get_fire_all is_due_def split: option.splits)
qed

lemma fired_times_append: "fired_times i (xs @ ys) = fired_times i xs + fired_times i ys"
  by (simp add: fired_times_def)

lemma scheduler_run_counts:
  assumes "orders ho"
  shows "jobs_keyed m \<Longrightarrow> \<exists>es m'. scheduler_run ho ops m = Some (es, m') \<and> jobs_keyed m' \<and>
    fired_times i es + pending i m' \<le> scheduled_times i ops + pending i m \<and>
    (\<forall>(t, j) \<in> set es. sj_due_at j \<le> t)"
proof (induction ops arbitrary: m)
  case Nil
  then show ?case by (simp add: fired_times_def)
next
  case (Cons op ops)
  show ?case
  proof (cases op)
    case (OpSchedule i' r d c)
    have "jobs_keyed (schedule i' r d c m)" using Cons.prems by (simp add: schedule_def)
    from Cons.IH [OF this] obtain es m' where ih: "scheduler_run ho ops (schedule i' r d c m) = Some (es, m')" "jobs_keyed m'"
      "fired_times i es + pending i m' \<le> scheduled_times i ops + pending i (schedule i' r d c m)"
      "\<forall>(t, j) \<in> set es. sj_due_at j \<le> t" by blast
    moreover have "pending i (schedule i' r d c m) \<le> (if i' = i then 1 else 0) + pending i m"
      by (auto simp: pending_def schedule_def save_job_def)
    ultimately show ?thesis by (auto simp: OpSchedule split: if_splits)
  next
    case (OpCancel i')
    have "jobs_keyed (snd (cancel_job i' m))"
      using jobs_keyed_update [OF Cons.prems, of i' JobCancelled] by (metis cancel_job_def surjective_pairing)
    from Cons.IH [OF this] obtain es m' where ih: "scheduler_run ho ops (snd (cancel_job i' m)) = Some (es, m')" "jobs_keyed m'"
      "fired_times i es + pending i m' \<le> scheduled_times i ops + pending i (snd (cancel_job i' m))"
      "\<forall>(t, j) \<in> set es. sj_due_at j \<le> t" by blast
    moreover have "pending i (snd (cancel_job i' m)) \<le> pending i m"
      by (auto simp: pending_def cancel_job_def update_job_status_def split: option.splits)
    ultimately show ?thesis by (auto simp: OpCancel)
  next
    case (OpPoll now)
    let ?js = "filter (is_due now) (ho (m_values m))"
    have "jobs_keyed (fire_all ?js m)" using Cons.prems by simp
    from Cons.IH [OF this] obtain es m' where ih: "scheduler_run ho ops (fire_all ?js m) = Some (es, m')" "jobs_keyed m'"
      "fired_times i es + pending i m' \<le> scheduled_times i ops + pending i (fire_all ?js m)"
      "\<forall>(t, j) \<in> set es. sj_due_at j \<le> t" by blast
    have "\<forall>j \<in> set ?js. sj_due_at j \<le> now" by (simp add: is_due_def)
    with ih fired_by_poll [OF assms Cons.prems, of i now] show ?thesis
      by (auto simp: OpPoll poll_run [OF assms Cons.prems] fired_times_append)
  qed
qed

text \<open>
  C22. The scheduler never panics, never hands out a job before it is due, and hands out a job
  at most as often as it was scheduled, whatever is scheduled, cancelled and polled one after
  the other, at whatever times, and in whatever order the table is walked. Two polls at the
  same time are not covered: poll_due_jobs takes the lock of the store anew for the list and
  for each update, so that both could hand out one job.
\<close>

theorem jobs_fire_once:
  assumes "orders ho"
  shows "\<exists>es m'. scheduler_run ho ops [] = Some (es, m') \<and> fired_times i es \<le> scheduled_times i ops \<and>
    (\<forall>(t, j) \<in> set es. sj_due_at j \<le> t)"
proof -
  obtain es m' where "scheduler_run ho ops [] = Some (es, m')"
    "fired_times i es + pending i m' \<le> scheduled_times i ops + pending i ([] :: job_map)" "\<forall>(t, j) \<in> set es. sj_due_at j \<le> t"
    using scheduler_run_counts [OF assms jobs_keyed_Nil] by metis
  then show ?thesis by (auto simp: pending_def)
qed

section \<open>The store on disk\<close>

text \<open>What \<open>serde_json\<close> promises of the line of a job: one line of its own that reads back.\<close>

definition job_line_ok :: "scheduled_job line_codec \<Rightarrow> scheduled_job \<Rightarrow> bool" where
  "job_line_ok C j \<longleftrightarrow> newline \<notin> set (enc_record C j) \<and> utf8_valid (enc_record C j) \<and> enc_record C j \<noteq> [] \<and>
     last (enc_record C j) \<noteq> CHR 0x0D \<and> trim (enc_record C j) = enc_record C j \<and> dec_record C (enc_record C j) = Inr j"

lemma read_jobs_lines:
  "list_all (job_line_ok C) js \<Longrightarrow> read_jobs C (map (enc_record C) js) m = Inr (fold save_job js m)"
  by (induction js arbitrary: m) (auto simp: job_line_ok_def)

lemma job_lines:
  assumes "list_all (job_line_ok C) js"
  shows "load_jobs C (concat (map (\<lambda>j. enc_record C j @ [newline]) js)) = Inr (fold save_job js [])"
proof -
  let ?bs = "concat (map (\<lambda>j. enc_record C j @ [newline]) js)"
  have "utf8_valid ?bs"
    using assms by (induction js) (auto simp: job_line_ok_def intro!: utf8_valid_append)
  moreover have "split_newline ?bs = map (enc_record C) js @ [[]]"
    using split_newline_lines [of "map (enc_record C) js"] assms by (fastforce simp: job_line_ok_def list_all_iff comp_def)
  then have "file_lines ?bs = map (enc_record C) js"
    using assms by (auto simp: file_lines_def drop_cr_def job_line_ok_def list_all_iff butlast_append)
  ultimately show ?thesis
    using read_jobs_lines [OF assms, of "[]"] by (simp add: load_jobs_def)
qed

lemma get_fold_save:
  "m_get (fold save_job js m) k =
     (case find (\<lambda>j. job_text (sj_id j) = k) (rev js) of None \<Rightarrow> m_get m k | Some j \<Rightarrow> Some j)"
proof (induction js rule: rev_induct)
  case Nil
  then show ?case by simp
next
  case (snoc j js)
  then show ?case by (auto simp: save_job_def)
qed

lemma fold_save_values:
  assumes "orders ho" and "jobs_keyed m"
  shows "m_get (fold save_job (ho (m_values m)) []) k = m_get m k"
proof -
  have set: "set (rev (ho (m_values m))) = set (m_values m)" using assms(1) unfolding orders_def by (metis set_mset_mset set_rev)
  show ?thesis
  proof (cases "find (\<lambda>j. job_text (sj_id j) = k) (rev (ho (m_values m)))")
    case None
    then have "m_get m k = None"
    proof (cases "m_get m k")
      case (Some j)
      then have "job_text (sj_id j) = k" using assms(2) by (simp add: jobs_keyed_def)
      with Some have "j \<in> set (rev (ho (m_values m)))"
        using jobs_keyed_values [OF assms(2), of j] set by blast
      with None \<open>job_text (sj_id j) = k\<close> show ?thesis unfolding find_None_iff by blast
    qed simp
    with None show ?thesis by (simp add: get_fold_save)
  next
    case (Some j)
    then have "j \<in> set (m_values m)" "job_text (sj_id j) = k"
      using set by (auto simp: find_Some_iff simp del: set_rev dest: nth_mem)
    with Some show ?thesis using jobs_keyed_values [OF assms(2)] by (auto simp: get_fold_save)
  qed
qed

datatype (plugins only: code size) job_store_op =
    OpSave scheduled_job
  | OpUpdateStatus scheduled_job_id job_status
  | OpDeleteJob scheduled_job_id

definition job_store_step :: "scheduled_job line_codec \<Rightarrow> job_order \<Rightarrow> job_store_op \<Rightarrow> job_store \<Rightarrow> (scheduler_error + unit) \<times> job_store" where
  "job_store_step C ho op s =
     (case op of
        OpSave j \<Rightarrow> (Inr (), store_save C ho j s)
      | OpUpdateStatus i st \<Rightarrow> store_update_status C ho i st s
      | OpDeleteJob i \<Rightarrow> (Inr (), store_delete_job C ho i s))"

lemma persist_reopens:
  assumes "orders ho" and "jobs_keyed (js_jobs s)" and "list_all (job_line_ok C) (m_values (js_jobs s))"
  shows "\<exists>s'. job_store_new C (js_file (persist_all C ho s)) = Inr s' \<and> (\<forall>k. m_get (js_jobs s') k = m_get (js_jobs s) k)"
proof -
  have set: "set (ho (m_values (js_jobs s))) = set (m_values (js_jobs s))" using assms(1) unfolding orders_def by (metis set_mset_mset)
  then have "list_all (job_line_ok C) (ho (m_values (js_jobs s)))" using assms(3) by (simp add: list_all_iff)
  from job_lines [OF this] fold_save_values [OF assms(1,2)] show ?thesis
    by (simp add: job_store_new_def persist_all_def)
qed

text \<open>
  The scheduler's file is its store. After any operation that succeeds, opening the file
  again gives a store with the same jobs, provided JSON reads back the jobs it wrote.
\<close>

lemma job_store_reopens:
  assumes "orders ho" and "jobs_keyed (js_jobs s)" and "job_store_step C ho op s = (Inr u, s')"
    and "list_all (job_line_ok C) (m_values (js_jobs s'))"
  shows "\<exists>s''. job_store_new C (js_file s') = Inr s'' \<and> (\<forall>k. m_get (js_jobs s'') k = m_get (js_jobs s') k)"
proof -
  obtain s1 where s1: "s' = persist_all C ho s1" "jobs_keyed (js_jobs s1)"
    using assms(2,3) jobs_keyed_update
    by (cases op) (force simp: job_store_step_def store_save_def store_update_status_def store_delete_job_def split: prod.splits sum.splits)+
  with persist_reopens [OF assms(1) s1(2)] assms(4) show ?thesis by (simp add: persist_all_def)
qed

section \<open>Reminders never become due\<close>

text \<open>What the actions leave of the reminders: each is changed only by its own action.\<close>

lemma update_reminder_get:
  "update_reminder_status at i st m = (r, m') \<Longrightarrow>
   m_get m' k = (if k = reminder_text i then map_option (\<lambda>x. x\<lparr>rem_status := st, rem_updated_at := at\<rparr>) (m_get m k) else m_get m k)"
  by (auto simp: update_reminder_status_def m_contains_def split: if_splits)

definition no_due :: "reminder_map \<Rightarrow> bool" where
  "no_due m \<longleftrightarrow> hm_inv m \<and> (\<forall>k r. m_get m k = Some r \<longrightarrow> rem_status r \<noteq> RemDue)"

lemma no_due_update:
  "no_due m \<Longrightarrow> st \<noteq> RemDue \<Longrightarrow> no_due (snd (update_reminder_status at i st m))"
  by (auto simp: no_due_def update_reminder_status_def split: if_splits)

lemma no_due_saved:
  "no_due m \<Longrightarrow> no_due (hm_put k (created_reminder q c) m)"
  by (auto simp: no_due_def created_reminder_def split: if_splits)

lemma set_status_state:
  "snd (set_status_and_report K at st i m) = snd (update_reminder_status at (ReminderId i) st m)"
  by (simp add: set_status_and_report_def andThen_def to_failed_def get_reminder_def reminder_payload_def lift_def
      split: sum.splits prod.splits)

lemma no_due_andThen_lift:
  "no_due m \<Longrightarrow> (\<And>x. no_due (snd (g x m))) \<Longrightarrow> no_due (snd (andThen (lift r) g m))"
  by (simp add: andThen_def lift_def split: sum.splits)

lemma andThen_ret_state: "snd (andThen p (\<lambda>x. ret (f x)) m) = snd (p m)"
  by (simp add: andThen_def ret_def split: sum.splits prod.splits)

lemma create_state:
  "snd (andThen (to_failed reminder_error_message (save_reminder r)) (\<lambda>_. reminder_payload K r) m) =
   hm_put (reminder_text (rem_id r)) r m"
  by (simp add: andThen_def to_failed_def save_reminder_def reminder_payload_def lift_def split: sum.splits)

lemma no_due_execute: "no_due m \<Longrightarrow> no_due (snd (reminder_execute K now at q m))"
  unfolding reminder_execute_def andThen_ret_state Let_def
  by (simp add: no_due_andThen_lift no_due_update no_due_saved set_status_state create_state raise_def)

fun reminder_run :: "reminder_codec \<Rightarrow> (datetime \<times> datetime \<times> action_request) list \<Rightarrow> reminder_map \<Rightarrow> reminder_map" where
  "reminder_run K [] m = m"
| "reminder_run K ((now, at, q) # qs) m = reminder_run K qs (snd (reminder_execute K now at q m))"

lemma no_due_run: "no_due m \<Longrightarrow> no_due (reminder_run K qs m)"
  by (induction qs arbitrary: m) (auto simp: no_due_execute)

text \<open>
  No reminder made through actions is ever due: whatever is created, completed, cancelled
  and snoozed, at whatever times, the list of due reminders stays empty, since nothing looks
  at the time of a reminder and nothing sets that status.
\<close>

lemma reminders_never_due:
  shows "list_due (reminder_run K qs []) = []"
proof -
  have "no_due (reminder_run K qs [])" by (rule no_due_run) (simp add: no_due_def)
  then show ?thesis
    using m_values_get [of "reminder_run K qs []"] by (auto simp: list_due_def no_due_def filter_empty_conv)
qed

section \<open>Announcing what is due\<close>

text \<open>The capturing sink beside the store in memory, as the code's tests and clients pair them.\<close>

definition memory_notifications :: "(notification list \<times> notification_map) notification_deps" where
  "memory_notifications =
     \<lparr>nd_emit = (\<lambda>n (ns, m). case capture n ns of (r, ns') \<Rightarrow> (r, ns', m)),
      nd_save = (\<lambda>n (ns, m). case save_notification n m of (r, m') \<Rightarrow> (r, ns, m'))\<rparr>"

fun notices :: "(nat \<Rightarrow> datetime) \<Rightarrow> nat \<Rightarrow> scheduled_job list \<Rightarrow> notification list" where
  "notices clock k [] = []"
| "notices clock k (j # js) = due_notification (clock k) j # notices clock (k + 1) js"

lemma notify_each_memory:
  "notify_each memory_notifications clock k js (ns, m) =
   (notices clock k js, ns @ notices clock k js, fold (\<lambda>n. hm_put (notification_text (nt_id n)) n) (notices clock k js) m)"
  by (induction js arbitrary: k ns m) (simp_all add: memory_notifications_def capture_def save_notification_def Let_def)

lemma process_due_memory:
  assumes "orders ho" and "jobs_keyed m"
  shows "process_due memory_notifications ho clock (m, ns, ms) =
    (let out = notices clock 1 (map fired (filter (is_due (clock 0)) (ho (m_values m))))
     in Some (out, fire_all (filter (is_due (clock 0)) (ho (m_values m))) m, ns @ out,
          fold (\<lambda>n. hm_put (notification_text (nt_id n)) n) out ms))"
  by (simp add: process_due_def poll_run [OF assms] notify_each_memory Let_def)

section \<open>The properties at work\<close>

lemma orders_rev: "orders rev"
  by (simp add: orders_def)

theorem jobs_fire_once_witness:
  "let j = ScheduledJobId ''j'';
       ops = [OpSchedule j ''r'' 5 1, OpPoll 4, OpPoll 5, OpPoll 9, OpSchedule j ''r'' 12 10, OpCancel j, OpPoll 20]
   in \<exists>es m'. scheduler_run rev ops [] = Some (es, m') \<and> map fst es = [5] \<and> fired_times j es \<le> scheduled_times j ops"
proof -
  let ?j = "ScheduledJobId ''j''"
  let ?ops = "[OpSchedule ?j ''r'' 5 1, OpPoll 4, OpPoll 5, OpPoll 9, OpSchedule ?j ''r'' 12 10, OpCancel ?j, OpPoll 20]"
  have "map_option (map fst \<circ> fst) (scheduler_run rev ?ops []) = Some [5]" by code_simp
  with jobs_fire_once [OF orders_rev, of ?ops ?j] show ?thesis by auto
qed

definition write_job :: "scheduled_job writer" where
  "write_job = write_via (\<lambda>j. (sj_due_at j, sj_created_at j, (case sj_status j of JobPending \<Rightarrow> 0 | JobFired \<Rightarrow> 1 | JobCancelled \<Rightarrow> 2),
       job_text (sj_id j), sj_reminder_id j))
     (write_pair write_int (write_pair write_int (write_pair write_nat (write_pair write_string write_string))))"

definition read_job :: "scheduled_job reader" where
  "read_job = read_via (\<lambda>(d, c, s, i, r). \<lparr>sj_id = ScheduledJobId i, sj_reminder_id = r, sj_due_at = d,
       sj_status = (if s = 0 then JobPending else if s = 1 then JobFired else JobCancelled), sj_created_at = c\<rparr>)
     (read_pair read_int (read_pair read_int (read_pair read_nat (read_pair read_string read_string))))"

lemma reads_job: "reads_back write_job read_job"
  unfolding write_job_def read_job_def
proof (rule reads_via)
  fix j :: scheduled_job
  show "(case (sj_due_at j, sj_created_at j, case sj_status j of JobPending \<Rightarrow> 0 | JobFired \<Rightarrow> 1 | JobCancelled \<Rightarrow> 2,
       job_text (sj_id j), sj_reminder_id j) of (d, c, s, i, r) \<Rightarrow> \<lparr>sj_id = ScheduledJobId i, sj_reminder_id = r, sj_due_at = d,
       sj_status = (if s = 0 then JobPending else if s = (1 :: nat) then JobFired else JobCancelled), sj_created_at = c\<rparr>) = j"
    by (cases j; cases "sj_id j") (auto split: job_status.split)
qed (auto intro!: codec_laws)

definition example_job_codec :: "scheduled_job line_codec" where
  "example_job_codec = \<lparr>enc_record = write_job, dec_record = read_all read_job\<rparr>"

definition example_job :: scheduled_job where
  "example_job = \<lparr>sj_id = ScheduledJobId ''j'', sj_reminder_id = ''r'', sj_due_at = 5, sj_status = JobPending, sj_created_at = 1\<rparr>"

lemma example_job_line: "job_line_ok example_job_codec example_job"
proof -
  have "newline \<notin> set (write_job example_job)" "utf8_valid (write_job example_job)" "write_job example_job \<noteq> []"
    "last (write_job example_job) \<noteq> CHR 0x0D" "trim (write_job example_job) = write_job example_job"
    by code_simp+
  then show ?thesis
    by (simp add: job_line_ok_def example_job_codec_def read_all_written [OF reads_job])
qed

lemma job_store_reopens_witness:
  "let s = \<lparr>js_file = None, js_jobs = []\<rparr>; s' = snd (job_store_step example_job_codec rev (OpSave example_job) s)
   in \<exists>s''. job_store_new example_job_codec (js_file s') = Inr s'' \<and> m_get (js_jobs s'') ''j'' = Some example_job"
proof -
  let ?s = "\<lparr>js_file = None, js_jobs = []\<rparr> :: job_store"
  let ?s' = "snd (job_store_step example_job_codec rev (OpSave example_job) ?s)"
  have step: "job_store_step example_job_codec rev (OpSave example_job) ?s = (Inr (), ?s')"
    by (simp add: job_store_step_def)
  have vals: "js_jobs ?s' = hm_put ''j'' example_job []"
    by (simp add: job_store_step_def store_save_def persist_all_def save_job_def example_job_def)
  then have "list_all (job_line_ok example_job_codec) (m_values (js_jobs ?s'))"
    using example_job_line by (simp add: m_values_def)
  from job_store_reopens [OF orders_rev _ step this]
  obtain s'' where s'': "job_store_new example_job_codec (js_file ?s') = Inr s''" "\<forall>k. m_get (js_jobs s'') k = m_get (js_jobs ?s') k"
    by auto
  have "m_get (js_jobs s'') ''j'' = Some example_job" unfolding s''(2) [rule_format] vals by (simp add: m_get_def)
  with s''(1) show ?thesis unfolding Let_def by blast
qed

end
