(* ===== verification/Server_Search.thy ===== *)
theory Server_Search
  imports Permissions
begin
text \<open>
  Search over enterprise content (\<open>server-search-core/src/lib.rs\<close>): whatever a backend finds
  is filtered by a source of permissions before anyone sees it. The backend and the
  numbers it ranks with are parameters; its answer is the value of a function.
\<close>

section \<open>Requests and results\<close>

record search_request =
  sr_query :: string
  sr_user_id :: enterprise_user_id
  sr_limit :: "nat option"
  sr_resource_types :: "resource_type list option"

record source_boundary =
  sb_resource_type :: resource_type
  sb_resource_id :: string
  sb_source_name :: string

record 'f search_result =
  hit_id :: string
  hit_title :: string
  hit_snippet :: string
  hit_source :: source_boundary
  hit_score :: 'f
  hit_timestamp :: "instant option"

record 'f search_response =
  rp_results :: "'f search_result list"
  rp_total_found :: nat
  rp_filtered_count :: nat
  rp_query :: string

datatype (plugins only: code size) search_error = BackendError string | PermissionError string

definition read_query :: "'f search_result \<Rightarrow> instant \<Rightarrow> permission_query" where
  "read_query h now =
     \<lparr>pq_resource_type = sb_resource_type (hit_source h), pq_resource_id = ResourceId (sb_resource_id (hit_source h)),
      pq_action = PermRead, pq_now = now\<rparr>"

definition authorized_search ::
    "(search_request \<Rightarrow> search_error + 'f search_result list) \<Rightarrow> permission_store \<Rightarrow> instant \<Rightarrow>
     search_request \<Rightarrow> search_error + 'f search_response" where
  "authorized_search search_raw store now q =
     bind_result (search_raw q) (\<lambda>raw.
       (let allowed = filter (\<lambda>h. decision_is_allowed (check store (sr_user_id q) (read_query h now))) raw
        in Inr \<lparr>rp_results = allowed, rp_total_found = length raw,
             rp_filtered_count = length raw - length allowed, rp_query = sr_query q\<rparr>))"

definition filter_evidence_by_permission ::
    "'f search_result list \<Rightarrow> enterprise_user_id \<Rightarrow> permission_store \<Rightarrow> instant \<Rightarrow> 'f search_result list" where
  "filter_evidence_by_permission evidence u store now =
     filter (\<lambda>h. decision_is_allowed (check store u (read_query h now))) evidence"

section \<open>The executor for enterprises\<close>

record enterprise_search_request =
  eq_query :: string
  eq_user_id :: enterprise_user_id
  eq_organization_id :: "string option"
  eq_limit :: "nat option"
  eq_resource_types :: "resource_type list option"

record 'f backend_response =
  br_results :: "'f search_result list"
  br_backend_total_found :: nat

record 'f enterprise_search_response =
  er_results :: "'f search_result list"
  er_total_found :: nat
  er_filtered_count :: nat
  er_query :: string
  er_cache_status :: "cache_status option"
  er_policy_warnings :: "string list"

record search_policy =
  redact_unauthorized_metadata :: bool

definition search_policy_default :: search_policy where
  "search_policy_default = \<lparr>redact_unauthorized_metadata = True\<rparr>"

text \<open>The trait of a source of permissions, and its two implementations.\<close>

record 's permission_source =
  user_lifecycle_of :: "'s \<Rightarrow> enterprise_user_id \<Rightarrow> user_lifecycle"
  check_search_permission :: "'s \<Rightarrow> enterprise_user_id \<Rightarrow> permission_query \<Rightarrow> cached_decision"

definition local_source :: "permission_store permission_source" where
  "local_source =
     \<lparr>user_lifecycle_of = get_user_lifecycle,
      check_search_permission = (\<lambda>s u q. \<lparr>cd_decision = check s u q, cd_cache_status = CacheFresh,
        cd_explanation = ''local permission store''\<rparr>)\<rparr>"

definition server_source :: "'p server_store permission_source" where
  "server_source = \<lparr>user_lifecycle_of = server_get_user_lifecycle, check_search_permission = server_check\<rparr>"

definition most_conservative_cache_status :: "cache_status option \<Rightarrow> cache_status \<Rightarrow> cache_status" where
  "most_conservative_cache_status current next =
     (if current = Some CacheExpired \<or> next = CacheExpired then CacheExpired
      else if current = Some CacheStale \<or> next = CacheStale then CacheStale
      else CacheFresh)"

definition push_unique_warning :: "string \<Rightarrow> string list \<Rightarrow> string list" where
  "push_unique_warning w ws = (if w \<in> set ws then ws else ws @ [w])"

definition show_lifecycle :: "user_lifecycle \<Rightarrow> string" where
  "show_lifecycle l =
     (case l of UserActive \<Rightarrow> ''active'' | UserSuspended \<Rightarrow> ''suspended'' | UserDisabled \<Rightarrow> ''disabled''
      | UserOffboarded \<Rightarrow> ''offboarded'')"

text \<open>The variables of the loop of \<open>search_at\<close>.\<close>

record 'f search_acc =
  ac_results :: "'f search_result list"
  ac_filtered_count :: nat
  ac_cache_status :: "cache_status option"
  ac_policy_warnings :: "string list"

definition search_step :: "search_policy \<Rightarrow> ('f search_result \<Rightarrow> cached_decision) \<Rightarrow> 'f search_result \<Rightarrow> 'f search_acc \<Rightarrow> 'f search_acc" where
  "search_step pol judge h a =
     (let d = judge h;
          a1 = a\<lparr>ac_cache_status := Some (most_conservative_cache_status (ac_cache_status a) (cd_cache_status d))\<rparr>;
          a2 = (if cd_cache_status d = CacheStale
                then a1\<lparr>ac_policy_warnings := push_unique_warning (''permission cache is stale: '' @ cd_explanation d) (ac_policy_warnings a1)\<rparr>
                else a1)
      in if cd_decision d = Allow then a2\<lparr>ac_results := ac_results a2 @ [h]\<rparr>
         else if \<not> redact_unauthorized_metadata pol then a2\<lparr>ac_filtered_count := ac_filtered_count a2 + 1\<rparr>
         else a2)"

definition search_at ::
    "(enterprise_search_request \<Rightarrow> search_error + 'f backend_response) \<Rightarrow> 's permission_source \<Rightarrow> 's \<Rightarrow> search_policy \<Rightarrow>
     enterprise_search_request \<Rightarrow> instant \<Rightarrow> search_error + 'f enterprise_search_response" where
  "search_at backend P s pol q now =
     (let lifecycle = user_lifecycle_of P s (eq_user_id q) in
      if \<not> lifecycle_is_active lifecycle then
        Inr \<lparr>er_results = [], er_total_found = 0, er_filtered_count = 0, er_query = eq_query q,
             er_cache_status = Some CacheFresh,
             er_policy_warnings = [''user lifecycle is '' @ show_lifecycle lifecycle @ ''; enterprise search denied'']\<rparr>
      else bind_result (backend q) (\<lambda>b.
        (let a = fold (search_step pol (\<lambda>h. check_search_permission P s (eq_user_id q) (read_query h now))) (br_results b)
                   \<lparr>ac_results = [], ac_filtered_count = 0, ac_cache_status = None, ac_policy_warnings = []\<rparr>
         in Inr \<lparr>er_results = ac_results a,
                 er_total_found = (if redact_unauthorized_metadata pol then length (ac_results a) else br_backend_total_found b),
                 er_filtered_count = (if redact_unauthorized_metadata pol then 0 else ac_filtered_count a),
                 er_query = eq_query q, er_cache_status = ac_cache_status a,
                 er_policy_warnings = ac_policy_warnings a\<rparr>)))"

section \<open>What a search shows\<close>

abbreviation search_start :: "'f search_acc" where
  "search_start \<equiv> \<lparr>ac_results = [], ac_filtered_count = 0, ac_cache_status = None, ac_policy_warnings = []\<rparr>"

lemma search_step_simps [simp]:
  "ac_results (search_step pol judge h a) = ac_results a @ (if cd_decision (judge h) = Allow then [h] else [])"
  "ac_filtered_count (search_step pol judge h a) =
     ac_filtered_count a + (if cd_decision (judge h) = Allow \<or> redact_unauthorized_metadata pol then 0 else 1)"
  "ac_cache_status (search_step pol judge h a) =
     Some (most_conservative_cache_status (ac_cache_status a) (cd_cache_status (judge h)))"
  "ac_policy_warnings (search_step pol judge h a) =
     (if cd_cache_status (judge h) = CacheStale
      then push_unique_warning (''permission cache is stale: '' @ cd_explanation (judge h)) (ac_policy_warnings a)
      else ac_policy_warnings a)"
  by (auto simp: search_step_def Let_def)

lemma deny_iff: "d = Deny \<longleftrightarrow> d \<noteq> Allow"
  by (cases d) simp_all

lemma search_fold_results:
  "ac_results (fold (search_step pol judge) hs a) = ac_results a @ filter (\<lambda>h. cd_decision (judge h) = Allow) hs"
  by (induction hs arbitrary: a) simp_all

lemma search_fold_count:
  "ac_filtered_count (fold (search_step pol judge) hs a) =
   ac_filtered_count a + (if redact_unauthorized_metadata pol then 0 else length (filter (\<lambda>h. cd_decision (judge h) = Deny) hs))"
  by (induction hs arbitrary: a) (simp_all add: deny_iff)

lemma search_fold_fresh:
  assumes "\<And>h. cd_cache_status (judge h) = CacheFresh"
  shows "ac_policy_warnings (fold (search_step pol judge) hs a) = ac_policy_warnings a"
    and "ac_cache_status a \<in> {None, Some CacheFresh} \<Longrightarrow>
      ac_cache_status (fold (search_step pol judge) hs a) = (if hs = [] then ac_cache_status a else Some CacheFresh)"
  using assms by (induction hs arbitrary: a) (auto simp: most_conservative_cache_status_def)

text \<open>The results of a backend that a source of permissions lets a user read.\<close>

definition visible ::
    "'s permission_source \<Rightarrow> 's \<Rightarrow> enterprise_user_id \<Rightarrow> instant \<Rightarrow> 'f search_result list \<Rightarrow> 'f search_result list" where
  "visible P s u now = filter (\<lambda>h. cd_decision (check_search_permission P s u (read_query h now)) = Allow)"

locale search_source =
  fixes P :: "'s permission_source"
  assumes inactive_hidden:
    "\<not> lifecycle_is_active (user_lifecycle_of P s u) \<Longrightarrow> cd_decision (check_search_permission P s u q) = Deny"
begin

lemma inactive_sees_nothing: "\<not> lifecycle_is_active (user_lifecycle_of P s u) \<Longrightarrow> visible P s u now hs = []"
  by (simp add: visible_def inactive_hidden)

lemma search_shows_visible:
  assumes "backend q = Inr b"
  shows "\<exists>r. search_at backend P s pol q now = Inr r \<and> er_results r = visible P s (eq_user_id q) now (br_results b)"
proof (cases "lifecycle_is_active (user_lifecycle_of P s (eq_user_id q))")
  case True
  then show ?thesis using assms by (simp add: search_at_def Let_def search_fold_results visible_def)
next
  case False
  then show ?thesis by (simp add: search_at_def Let_def inactive_sees_nothing)
qed

lemma redacted_counts:
  assumes "redact_unauthorized_metadata pol" and "search_at backend P s pol q now = Inr r"
  shows "er_total_found r = length (er_results r)" and "er_filtered_count r = 0" and "er_query r = eq_query q"
  using assms by (auto simp: search_at_def Let_def bind_result_Inr_iff split: if_splits)

lemma open_counts:
  assumes "\<not> redact_unauthorized_metadata pol" and "lifecycle_is_active (user_lifecycle_of P s (eq_user_id q))"
    and "backend q = Inr b" and "search_at backend P s pol q now = Inr r"
  shows "er_total_found r = br_backend_total_found b"
    and "er_filtered_count r + length (er_results r) = length (br_results b)"
proof -
  let ?allowed = "\<lambda>h. cd_decision (check_search_permission P s (eq_user_id q) (read_query h now)) = Allow"
  show "er_filtered_count r + length (er_results r) = length (br_results b)"
    using assms sum_length_filter_compl [of ?allowed "br_results b"]
    by (auto simp: search_at_def Let_def search_fold_results search_fold_count deny_iff)
  show "er_total_found r = br_backend_total_found b" using assms by (auto simp: search_at_def Let_def)
qed

end

interpretation local_search: search_source local_source
  by unfold_locales (simp add: local_source_def check_def is_user_active_def)

interpretation server_search: search_source server_source
  by unfold_locales (auto simp: server_source_def server_check_def server_get_user_lifecycle_def Let_def
      org_get_user_lifecycle_def check_with_inheritance_def is_user_active_def lifecycle_is_active_def split: option.splits if_splits)

lemma authorized_search_counts:
  "authorized_search search_raw store now q = Inr r \<Longrightarrow> rp_filtered_count r + length (rp_results r) = rp_total_found r"
  by (auto simp: authorized_search_def bind_result_Inr_iff Let_def)

text \<open>
  A search over the cache of a server's permissions shows exactly the results of the
  backend, in its order, that some unexpired grant lets the user read, directly or through an
  unexpired membership, while the user is active and the cache has not expired.
\<close>

lemma search_shows_readable:
  assumes "backend q = Inr b"
  shows "\<exists>r. search_at backend server_source s pol q now = Inr r \<and>
    er_results r = filter (\<lambda>h. cache_status_at s now \<noteq> CacheExpired \<and>
      (\<exists>store g. sv_store s = Some store \<and> org_get_user_lifecycle store (eq_user_id q) = UserActive \<and>
        covers (read_query h now) g \<and> reaches_user store (eq_user_id q) now g)) (br_results b)"
proof -
  have "visible server_source s (eq_user_id q) now (br_results b) = filter (\<lambda>h. cache_status_at s now \<noteq> CacheExpired \<and>
      (\<exists>store g. sv_store s = Some store \<and> org_get_user_lifecycle store (eq_user_id q) = UserActive \<and>
        covers (read_query h now) g \<and> reaches_user store (eq_user_id q) now g)) (br_results b)"
    unfolding visible_def
    by (rule filter_cong) (auto simp: server_source_def server_check_def Let_def read_query_def check_with_inheritance_spec
        split: option.splits)
  with server_search.search_shows_visible [of backend q b s pol now] assms show ?thesis by simp
qed

text \<open>
  C24. With redaction, what a user may not read leaves no trace in an answer of the local
  store: two backends whose readable results agree give the same answer, whatever else they
  found, but for the cache status, which tells only whether they found anything at all.
\<close>

theorem hidden_results_leave_no_trace:
  fixes backend1 backend2 :: "enterprise_search_request \<Rightarrow> search_error + 'f backend_response"
  assumes "redact_unauthorized_metadata pol" and "backend1 q = Inr b1" and "backend2 q = Inr b2"
    and "visible local_source s (eq_user_id q) now (br_results b1) = visible local_source s (eq_user_id q) now (br_results b2)"
  shows "\<exists>r c1 c2. search_at backend1 local_source s pol q now = Inr (r\<lparr>er_cache_status := c1\<rparr>) \<and>
    search_at backend2 local_source s pol q now = Inr (r\<lparr>er_cache_status := c2\<rparr>) \<and>
    (c1 = c2 \<or> br_results b1 = [] \<or> br_results b2 = [])"
proof -
  let ?judge = "\<lambda>h :: 'f search_result. check_search_permission local_source s (eq_user_id q) (read_query h now)"
  let ?seen = "visible local_source s (eq_user_id q) now (br_results b1)"
  let ?answer = "\<lambda>hs. \<lparr>er_results = ?seen, er_total_found = length ?seen, er_filtered_count = 0, er_query = eq_query q,
      er_cache_status = (if hs = [] then None else Some CacheFresh), er_policy_warnings = []\<rparr>"
  have fresh: "cd_cache_status (?judge h) = CacheFresh" for h by (simp add: local_source_def)
  have run: "search_at backend local_source s pol q now = Inr (?answer (br_results b))"
    if "backend q = Inr b" "visible local_source s (eq_user_id q) now (br_results b) = ?seen"
      "lifecycle_is_active (user_lifecycle_of local_source s (eq_user_id q))" for backend b
    using that assms(1) search_fold_fresh [of ?judge, OF fresh]
    by (simp add: search_at_def Let_def search_fold_results visible_def)
  show ?thesis
  proof (cases "lifecycle_is_active (user_lifecycle_of local_source s (eq_user_id q))")
    case True
    from run [of backend1 b1] run [of backend2 b2] assms(2-4) True show ?thesis
      by (intro exI [of _ "?answer []"] exI [of _ "er_cache_status (?answer (br_results b1))"]
          exI [of _ "er_cache_status (?answer (br_results b2))"]) auto
  next
    case False
    then show ?thesis
      by (intro exI [of _ "projr (search_at backend1 local_source s pol q now)"] exI [of _ "Some CacheFresh"])
        (simp add: search_at_def Let_def)
  qed
qed

text \<open>The cache status and the warnings are where hidden results show after all.\<close>

definition hidden_hit :: "nat search_result" where
  "hidden_hit = \<lparr>hit_id = ''h'', hit_title = ''t'', hit_snippet = ''s'',
     hit_source = \<lparr>sb_resource_type = ResFile, sb_resource_id = ''f'', sb_source_name = ''n''\<rparr>, hit_score = 1, hit_timestamp = None\<rparr>"

definition plain_search :: enterprise_search_request where
  "plain_search = \<lparr>eq_query = ''q'', eq_user_id = EnterpriseUserId ''u'', eq_organization_id = None, eq_limit = None,
     eq_resource_types = None\<rparr>"


lemma hidden_result_shows_in_cache_status:
  "map_option er_cache_status (case search_at (\<lambda>_. Inr \<lparr>br_results = [] :: nat search_result list, br_backend_total_found = 0\<rparr>)
     local_source permission_store_new search_policy_default plain_search 5 of Inl _ \<Rightarrow> None | Inr r \<Rightarrow> Some r) = Some None"
  "map_option er_cache_status (case search_at (\<lambda>_. Inr \<lparr>br_results = [hidden_hit], br_backend_total_found = 1\<rparr>)
     local_source permission_store_new search_policy_default plain_search 5 of Inl _ \<Rightarrow> None | Inr r \<Rightarrow> Some r) = Some (Some CacheFresh)"
  by code_simp+

section \<open>The properties at work\<close>

definition readable_hit :: "nat search_result" where
  "readable_hit = hidden_hit\<lparr>hit_id := ''r'', hit_source := \<lparr>sb_resource_type = ResFile, sb_resource_id = ''f'', sb_source_name = ''n''\<rparr>\<rparr>"

definition example_server :: "memory_provider server_store" where
  "example_server = snd (refresh memory_fetch_snapshot 0 (server_store_new
     \<lparr>mp_snapshot = \<lparr>sn_snapshot_id = ''s'', sn_fetched_at = 0, sn_direct_grants = [file_grant ''u''], sn_memberships = [],
        sn_org_grants = [], sn_team_grants = [], sn_group_grants = []\<rparr>, mp_available = True\<rparr>
     \<lparr>fresh_for = 6, stale_for = 2\<rparr>))"

lemma search_shows_readable_witness:
  "\<exists>r. search_at (\<lambda>_. Inr \<lparr>br_results = [readable_hit, hidden_hit\<lparr>hit_source := \<lparr>sb_resource_type = ResFile,
        sb_resource_id = ''g'', sb_source_name = ''n''\<rparr>\<rparr>], br_backend_total_found = 2\<rparr>)
      server_source example_server search_policy_default plain_search 5 = Inr r \<and> map hit_id (er_results r) = [''r'']"
proof -
  let ?b = "\<lparr>br_results = [readable_hit, hidden_hit\<lparr>hit_source := \<lparr>sb_resource_type = ResFile,
        sb_resource_id = ''g'', sb_source_name = ''n''\<rparr>\<rparr>], br_backend_total_found = 2\<rparr> :: nat backend_response"
  obtain r where r: "search_at (\<lambda>_. Inr ?b) server_source example_server search_policy_default plain_search 5 = Inr r"
    using search_shows_readable [of "\<lambda>_. Inr ?b" plain_search ?b example_server search_policy_default 5] by auto
  have "map_option (map hit_id \<circ> er_results) (case search_at (\<lambda>_. Inr ?b) server_source example_server
      search_policy_default plain_search 5 of Inl _ \<Rightarrow> None | Inr r \<Rightarrow> Some r) = Some [''r'']"
    by code_simp
  with r show ?thesis by simp
qed

theorem hidden_results_leave_no_trace_witness:
  "\<exists>r c. search_at (\<lambda>_. Inr \<lparr>br_results = [], br_backend_total_found = 0\<rparr>) local_source permission_store_new
      search_policy_default plain_search 5 = Inr (r\<lparr>er_cache_status := None\<rparr>) \<and>
    search_at (\<lambda>_. Inr \<lparr>br_results = [hidden_hit], br_backend_total_found = 1\<rparr>) local_source permission_store_new
      search_policy_default plain_search 5 = Inr (r\<lparr>er_cache_status := c\<rparr>)"
proof -
  let ?b1 = "\<lparr>br_results = [], br_backend_total_found = 0\<rparr> :: nat backend_response"
  let ?b2 = "\<lparr>br_results = [hidden_hit], br_backend_total_found = 1\<rparr>"
  have "visible local_source permission_store_new (EnterpriseUserId ''u'') 5 [] =
        visible local_source permission_store_new (EnterpriseUserId ''u'') 5 [hidden_hit]"
    by code_simp
  from hidden_results_leave_no_trace [of search_policy_default "\<lambda>_. Inr ?b1" plain_search ?b1 "\<lambda>_. Inr ?b2" ?b2
      permission_store_new 5] this
  obtain r c1 c2 where r: "search_at (\<lambda>_. Inr ?b1) local_source permission_store_new search_policy_default plain_search 5 =
      Inr (r\<lparr>er_cache_status := c1\<rparr>)"
    "search_at (\<lambda>_. Inr ?b2) local_source permission_store_new search_policy_default plain_search 5 = Inr (r\<lparr>er_cache_status := c2\<rparr>)"
    by (auto simp: search_policy_default_def plain_search_def)
  moreover have "search_at (\<lambda>_. Inr ?b1) local_source permission_store_new search_policy_default plain_search 5 =
      Inr \<lparr>er_results = [], er_total_found = 0, er_filtered_count = 0, er_query = ''q'', er_cache_status = None, er_policy_warnings = []\<rparr>"
    by code_simp
  ultimately have "c1 = None" by (metis (no_types, lifting) enterprise_search_response.select_convs(5)
        enterprise_search_response.update_convs(5) enterprise_search_response.surjective sum.inject(2))
  with r show ?thesis by blast
qed

end
