(* ===== verification/Skills.thy ===== *)
theory Skills
  imports Registries Model_Types
begin
text \<open>
  Skills (\<open>skill-core/src/lib.rs\<close>): identifiers, manifests, their validation against what a
  host offers, and the registry that takes only valid ones. A \<open>BTreeSet\<close> of the environment
  is only asked for membership and is a list here.
\<close>

section \<open>Identity\<close>

datatype (plugins only: code size) skill_id = SkillId string

fun skill_text :: "skill_id \<Rightarrow> string" where
  "skill_text (SkillId s) = s"

instantiation skill_id :: linorder
begin

definition less_eq_skill_id :: "skill_id \<Rightarrow> skill_id \<Rightarrow> bool" where
  "less_eq_skill_id a b \<longleftrightarrow> skill_text a \<le> skill_text b"

definition less_skill_id :: "skill_id \<Rightarrow> skill_id \<Rightarrow> bool" where
  "less_skill_id a b \<longleftrightarrow> skill_text a < skill_text b"

instance
proof
  fix a b c :: skill_id
  show "a < b \<longleftrightarrow> a \<le> b \<and> \<not> b \<le> a" by (auto simp: less_eq_skill_id_def less_skill_id_def)
  show "a \<le> a" by (simp add: less_eq_skill_id_def)
  show "a \<le> b \<Longrightarrow> b \<le> c \<Longrightarrow> a \<le> c" by (simp add: less_eq_skill_id_def)
  show "a \<le> b \<Longrightarrow> b \<le> a \<Longrightarrow> a = b" by (cases a; cases b) (simp add: less_eq_skill_id_def)
  show "a \<le> b \<or> b \<le> a" by (auto simp: less_eq_skill_id_def)
qed

end

datatype (plugins only: code size) skill_version = SkillVersion string

fun version_text :: "skill_version \<Rightarrow> string" where
  "version_text (SkillVersion s) = s"

datatype (plugins only: code size) skill_identity_error =
    InvalidSkillId string string
  | EmptySkillVersion

definition identity_error_message :: "skill_identity_error \<Rightarrow> string" where
  "identity_error_message e =
     (case e of InvalidSkillId v r \<Rightarrow> ''invalid skill id `'' @ v @ ''`: '' @ r
      | EmptySkillVersion \<Rightarrow> ''skill version must not be empty'')"

definition MAX_LEN :: nat where "MAX_LEN = 128"

definition id_byte :: "char \<Rightarrow> bool" where
  "id_byte c \<longleftrightarrow> (CHR ''a'' \<le> c \<and> c \<le> CHR ''z'') \<or> (CHR ''0'' \<le> c \<and> c \<le> CHR ''9'') \<or> c = CHR ''-'' \<or> c = CHR ''.''"

definition dash_or_dot :: "char \<Rightarrow> bool" where
  "dash_or_dot c \<longleftrightarrow> c = CHR ''-'' \<or> c = CHR ''.''"

definition validate_skill_id :: "string \<Rightarrow> skill_identity_error + unit" where
  "validate_skill_id v =
     (if v = [] then Inl (InvalidSkillId v ''skill id must not be empty'')
      else if MAX_LEN < length v then Inl (InvalidSkillId v (''skill id must be at most '' @ decimal MAX_LEN @ '' bytes''))
      else if dash_or_dot (hd v) \<or> dash_or_dot (last v)
        then Inl (InvalidSkillId v (''skill id must not start or end with '' @ [CHR 0x27] @ ''-'' @ [CHR 0x27] @ '' or '' @ [CHR 0x27] @ ''.'' @ [CHR 0x27]))
      else if contains_str v ''..'' then Inl (InvalidSkillId v ''skill id must not contain consecutive dots'')
      else if \<not> list_all id_byte v
        then Inl (InvalidSkillId v (''skill id may only contain lowercase ASCII letters, numbers, '' @
               [CHR 0x27] @ ''-'' @ [CHR 0x27] @ '', and '' @ [CHR 0x27] @ ''.'' @ [CHR 0x27]))
      else Inr ())"

definition skill_id_new :: "string \<Rightarrow> skill_identity_error + skill_id" where
  "skill_id_new v = bind_result (validate_skill_id v) (\<lambda>_. Inr (SkillId v))"

definition skill_version_new :: "string \<Rightarrow> skill_identity_error + skill_version" where
  "skill_version_new v = (if trim v = [] then Inl EmptySkillVersion else Inr (SkillVersion v))"

section \<open>Manifests\<close>

datatype (plugins only: code size) skill_instruction_kind = InsSystem | InsDeveloper | InsUserGuidance

record skill_instruction =
  in_kind :: skill_instruction_kind
  in_content :: string

datatype (plugins only: code size) skill_action_mode = ModeAllow | ModeRequireApproval | ModeDeny

record skill_action_binding =
  bd_action_kind :: action_kind
  bd_mode :: skill_action_mode
  bd_reason :: "string option"

record skill_permission_requirement =
  pm_scope :: string
  pm_reason :: string
  pm_required :: bool

record skill_context_requirement =
  cx_provider :: string
  cx_required :: bool
  cx_reason :: "string option"

record skill_runtime_profile =
  rt_model_profile :: "model_id option"
  rt_max_tool_turns :: "nat option"
  rt_requires_network :: bool
  rt_supports_local_only :: bool

record skill_metadata =
  me_author :: "string option"
  me_tags :: "string list"
  me_homepage :: "string option"

datatype (plugins only: code size) skill_availability = Production | DevelopmentOnly | TestOnly

record skill_manifest =
  sm_id :: skill_id
  sm_name :: string
  sm_version :: skill_version
  sm_description :: "string option"
  sm_instructions :: "skill_instruction list"
  sm_action_bindings :: "skill_action_binding list"
  sm_permissions :: "skill_permission_requirement list"
  sm_context :: "skill_context_requirement list"
  sm_runtime :: skill_runtime_profile
  sm_availability :: skill_availability
  sm_metadata :: skill_metadata

record skill_summary =
  su_id :: skill_id
  su_name :: string
  su_version :: skill_version
  su_description :: "string option"
  su_availability :: skill_availability

definition summary_of :: "skill_manifest \<Rightarrow> skill_summary" where
  "summary_of m = \<lparr>su_id = sm_id m, su_name = sm_name m, su_version = sm_version m,
     su_description = sm_description m, su_availability = sm_availability m\<rparr>"

section \<open>Validation\<close>

record skill_environment =
  se_available_actions :: "action_kind list"
  se_granted_permissions :: "string list"
  se_available_context_providers :: "string list"
  se_available_model_profiles :: "model_id list"
  se_production_mode :: bool
  se_network_available :: bool
  se_local_only :: bool

datatype (plugins only: code size) skill_issue_code =
    SkillIdInvalid | SkillNameEmpty | SkillVersionEmpty | InstructionMissing | InstructionContentEmpty
  | ActionUnavailable | ActionBindingConflict | PermissionScopeEmpty | RequiredPermissionMissing
  | OptionalPermissionMissing | ContextProviderEmpty | RequiredContextMissing | OptionalContextMissing
  | ModelProfileUnavailable | MaxToolTurnsZero | NetworkRequiredButUnavailable | LocalOnlyUnsupported
  | DevelopmentOnlySkillInProduction | TestOnlySkillInProduction | MetadataTagEmpty

record skill_issue =
  si_code :: skill_issue_code
  si_message :: string
  si_field :: "string option"

definition skill_issue_new :: "skill_issue_code \<Rightarrow> string \<Rightarrow> string \<Rightarrow> skill_issue" where
  "skill_issue_new c f m = \<lparr>si_code = c, si_message = m, si_field = Some f\<rparr>"

datatype (plugins only: code size) skill_validation_status = SkillValid | SkillValidWithWarnings | SkillInvalid

record skill_report =
  sp_status :: skill_validation_status
  sp_errors :: "skill_issue list"
  sp_warnings :: "skill_issue list"

definition from_issues :: "skill_issue list \<Rightarrow> skill_issue list \<Rightarrow> skill_validation_status" where
  "from_issues errors warnings =
     (if errors \<noteq> [] then SkillInvalid else if warnings \<noteq> [] then SkillValidWithWarnings else SkillValid)"

definition skill_report_new :: "skill_issue list \<Rightarrow> skill_issue list \<Rightarrow> skill_report" where
  "skill_report_new errors warnings = \<lparr>sp_status = from_issues errors warnings, sp_errors = errors, sp_warnings = warnings\<rparr>"

definition skill_report_is_valid :: "skill_report \<Rightarrow> bool" where
  "skill_report_is_valid r \<longleftrightarrow> sp_status r \<noteq> SkillInvalid"

definition error_summary :: "skill_report \<Rightarrow> string" where
  "error_summary r =
     (if sp_errors r = [] then ''manifest has no validation errors''
      else join_with ''; '' (map si_message (sp_errors r)))"

text \<open>The loops over parts of a manifest, with the index of the part.\<close>

fun each_issue :: "(nat \<Rightarrow> 'a \<Rightarrow> 'b list) \<Rightarrow> nat \<Rightarrow> 'a list \<Rightarrow> 'b list" where
  "each_issue f i [] = []"
| "each_issue f i (x # xs) = f i x @ each_issue f (i + 1) xs"

definition at_index :: "string \<Rightarrow> nat \<Rightarrow> string \<Rightarrow> string" where
  "at_index part i field = part @ ''['' @ decimal i @ '']'' @ field"

definition identity_issues :: "skill_manifest \<Rightarrow> skill_issue list" where
  "identity_issues m =
     (case validate_skill_id (skill_text (sm_id m)) of
        Inl e \<Rightarrow> [skill_issue_new SkillIdInvalid ''id'' (identity_error_message e)] | Inr _ \<Rightarrow> []) @
     (if trim (sm_name m) = [] then [skill_issue_new SkillNameEmpty ''name'' ''skill name must not be empty''] else []) @
     (if trim (version_text (sm_version m)) = []
      then [skill_issue_new SkillVersionEmpty ''version'' ''skill version must not be empty''] else [])"

definition instruction_issues :: "skill_manifest \<Rightarrow> skill_issue list" where
  "instruction_issues m =
     (if sm_instructions m = []
      then [skill_issue_new InstructionMissing ''instructions'' ''skill must include at least one instruction''] else []) @
     each_issue (\<lambda>i x. if trim (in_content x) = []
       then [skill_issue_new InstructionContentEmpty (at_index ''instructions'' i ''.content'') ''instruction content must not be empty'']
       else []) 0 (sm_instructions m)"

fun binding_issues ::
    "skill_environment \<Rightarrow> nat \<Rightarrow> skill_action_binding list \<Rightarrow> (action_kind, skill_action_mode) hmap \<Rightarrow> skill_issue list" where
  "binding_issues env i [] modes = []"
| "binding_issues env i (b # bs) modes =
     (if bd_action_kind b \<in> set (se_available_actions env) then []
      else [skill_issue_new ActionUnavailable (at_index ''action_bindings'' i ''.action_kind'')
              (''action is unavailable: '' @ kind_text (bd_action_kind b))]) @
     (case m_get modes (bd_action_kind b) of
        Some existing \<Rightarrow>
          (if existing \<noteq> bd_mode b
           then [skill_issue_new ActionBindingConflict (at_index ''action_bindings'' i ''.mode'')
                   (''conflicting modes for action '' @ kind_text (bd_action_kind b))]
           else [])
      | None \<Rightarrow> []) @
     binding_issues env (i + 1) bs (hm_put (bd_action_kind b) (bd_mode b) modes)"

text \<open>Permissions and contexts are checked alike; an error is on the left, a warning on the right.\<close>

definition permission_issue :: "skill_environment \<Rightarrow> nat \<Rightarrow> skill_permission_requirement \<Rightarrow> (skill_issue + skill_issue) list" where
  "permission_issue env i p =
     (if trim (pm_scope p) = []
      then [Inl (skill_issue_new PermissionScopeEmpty (at_index ''permissions'' i ''.scope'') ''permission scope must not be empty'')]
      else if pm_scope p \<notin> set (se_granted_permissions env) then
        (if pm_required p
         then [Inl (skill_issue_new RequiredPermissionMissing (at_index ''permissions'' i ''.scope'')
                 (''required permission is missing: '' @ pm_scope p))]
         else [Inr (skill_issue_new OptionalPermissionMissing (at_index ''permissions'' i ''.scope'')
                 (''optional permission is missing: '' @ pm_scope p))])
      else [])"

definition context_issue :: "skill_environment \<Rightarrow> nat \<Rightarrow> skill_context_requirement \<Rightarrow> (skill_issue + skill_issue) list" where
  "context_issue env i c =
     (if trim (cx_provider c) = []
      then [Inl (skill_issue_new ContextProviderEmpty (at_index ''context'' i ''.provider'') ''context provider must not be empty'')]
      else if cx_provider c \<notin> set (se_available_context_providers env) then
        (if cx_required c
         then [Inl (skill_issue_new RequiredContextMissing (at_index ''context'' i ''.provider'')
                 (''required context provider is missing: '' @ cx_provider c))]
         else [Inr (skill_issue_new OptionalContextMissing (at_index ''context'' i ''.provider'')
                 (''optional context provider is missing: '' @ cx_provider c))])
      else [])"

definition errors_of :: "('a + 'b) list \<Rightarrow> 'a list" where
  "errors_of xs = concat (map (\<lambda>x. case x of Inl e \<Rightarrow> [e] | Inr _ \<Rightarrow> []) xs)"

definition warnings_of :: "('a + 'b) list \<Rightarrow> 'b list" where
  "warnings_of xs = concat (map (\<lambda>x. case x of Inl _ \<Rightarrow> [] | Inr w \<Rightarrow> [w]) xs)"

definition runtime_issues :: "skill_environment \<Rightarrow> skill_runtime_profile \<Rightarrow> skill_issue list" where
  "runtime_issues env r =
     (case rt_model_profile r of
        Some p \<Rightarrow> (if p \<in> set (se_available_model_profiles env) then []
                   else [skill_issue_new ModelProfileUnavailable ''runtime.model_profile'' (''model profile is unavailable: '' @ model_text p)])
      | None \<Rightarrow> []) @
     (if rt_max_tool_turns r = Some 0
      then [skill_issue_new MaxToolTurnsZero ''runtime.max_tool_turns'' ''max_tool_turns must be greater than zero''] else []) @
     (if rt_requires_network r \<and> \<not> se_network_available env
      then [skill_issue_new NetworkRequiredButUnavailable ''runtime.requires_network'' ''skill requires network but network is unavailable'']
      else []) @
     (if se_local_only env \<and> \<not> rt_supports_local_only r
      then [skill_issue_new LocalOnlyUnsupported ''runtime.supports_local_only'' ''local-only host cannot run this skill''] else [])"

definition availability_issues :: "skill_environment \<Rightarrow> skill_availability \<Rightarrow> skill_issue list" where
  "availability_issues env a =
     (if se_production_mode env then
        (case a of
           Production \<Rightarrow> []
         | DevelopmentOnly \<Rightarrow> [skill_issue_new DevelopmentOnlySkillInProduction ''availability''
             ''development-only skill cannot be enabled in production'']
         | TestOnly \<Rightarrow> [skill_issue_new TestOnlySkillInProduction ''availability''
             ''test-only skill cannot be enabled in production''])
      else [])"

definition tag_issues :: "skill_metadata \<Rightarrow> skill_issue list" where
  "tag_issues m = each_issue (\<lambda>i t. if trim t = []
     then [skill_issue_new MetadataTagEmpty (at_index ''metadata.tags'' i '''') ''metadata tag must not be empty''] else []) 0 (me_tags m)"

definition validate_manifest :: "skill_environment \<Rightarrow> skill_manifest \<Rightarrow> skill_report" where
  "validate_manifest env m =
     (let perms = each_issue (permission_issue env) 0 (sm_permissions m);
          ctx = each_issue (context_issue env) 0 (sm_context m)
      in skill_report_new
           (identity_issues m @ instruction_issues m @ binding_issues env 0 (sm_action_bindings m) [] @ errors_of perms @
            errors_of ctx @ runtime_issues env (sm_runtime m) @ availability_issues env (sm_availability m) @ tag_issues (sm_metadata m))
           (warnings_of perms @ warnings_of ctx))"

section \<open>The registry\<close>

record skill_registry =
  sg_skills :: "(skill_id, skill_manifest) hmap"
  sg_environment :: skill_environment

datatype (plugins only: code size) skill_registry_error =
    DuplicateSkill skill_id
  | InvalidManifest skill_id string skill_report

definition skill_registry_new :: "skill_environment \<Rightarrow> skill_registry" where
  "skill_registry_new env = \<lparr>sg_skills = [], sg_environment = env\<rparr>"

definition register_skill :: "skill_manifest \<Rightarrow> (skill_registry, skill_registry_error, unit) prog" where
  "register_skill m s =
     (if m_contains (sg_skills s) (sm_id m) then raise (DuplicateSkill (sm_id m)) s
      else
        let report = validate_manifest (sg_environment s) m in
        if \<not> skill_report_is_valid report then raise (InvalidManifest (sm_id m) (error_summary report) report) s
        else (Inr (), s\<lparr>sg_skills := bt_put (sm_id m) m (sg_skills s)\<rparr>))"

definition get_skill :: "skill_registry \<Rightarrow> skill_id \<Rightarrow> skill_manifest option" where
  "get_skill s i = m_get (sg_skills s) i"

definition list_skills :: "skill_registry \<Rightarrow> skill_summary list" where
  "list_skills s = map summary_of (m_values (sg_skills s))"

section \<open>What a valid manifest is\<close>

text \<open>The rules of the code, as conditions on the manifest.\<close>

definition good_skill_id :: "string \<Rightarrow> bool" where
  "good_skill_id v \<longleftrightarrow> v \<noteq> [] \<and> length v \<le> MAX_LEN \<and> \<not> dash_or_dot (hd v) \<and> \<not> dash_or_dot (last v) \<and>
     \<not> contains_str v ''..'' \<and> list_all id_byte v"

definition good_bindings :: "skill_environment \<Rightarrow> skill_action_binding list \<Rightarrow> bool" where
  "good_bindings env bs \<longleftrightarrow>
     (\<forall>b \<in> set bs. bd_action_kind b \<in> set (se_available_actions env)) \<and>
     (\<forall>b \<in> set bs. \<forall>c \<in> set bs. bd_action_kind b = bd_action_kind c \<longrightarrow> bd_mode b = bd_mode c)"

definition good_permission :: "skill_environment \<Rightarrow> skill_permission_requirement \<Rightarrow> bool" where
  "good_permission env p \<longleftrightarrow> trim (pm_scope p) \<noteq> [] \<and> (pm_required p \<longrightarrow> pm_scope p \<in> set (se_granted_permissions env))"

definition good_context :: "skill_environment \<Rightarrow> skill_context_requirement \<Rightarrow> bool" where
  "good_context env c \<longleftrightarrow> trim (cx_provider c) \<noteq> [] \<and> (cx_required c \<longrightarrow> cx_provider c \<in> set (se_available_context_providers env))"

definition good_runtime :: "skill_environment \<Rightarrow> skill_runtime_profile \<Rightarrow> bool" where
  "good_runtime env r \<longleftrightarrow>
     (\<forall>p \<in> set_option (rt_model_profile r). p \<in> set (se_available_model_profiles env)) \<and> rt_max_tool_turns r \<noteq> Some 0 \<and>
     (rt_requires_network r \<longrightarrow> se_network_available env) \<and> (se_local_only env \<longrightarrow> rt_supports_local_only r)"

definition runnable :: "skill_environment \<Rightarrow> skill_manifest \<Rightarrow> bool" where
  "runnable env m \<longleftrightarrow>
     good_skill_id (skill_text (sm_id m)) \<and> trim (sm_name m) \<noteq> [] \<and> trim (version_text (sm_version m)) \<noteq> [] \<and>
     sm_instructions m \<noteq> [] \<and> list_all (\<lambda>x. trim (in_content x) \<noteq> []) (sm_instructions m) \<and>
     good_bindings env (sm_action_bindings m) \<and>
     list_all (good_permission env) (sm_permissions m) \<and> list_all (good_context env) (sm_context m) \<and>
     good_runtime env (sm_runtime m) \<and> (se_production_mode env \<longrightarrow> sm_availability m = Production) \<and>
     list_all (\<lambda>t. trim t \<noteq> []) (me_tags (sm_metadata m))"

lemma validate_skill_id_iff: "validate_skill_id v = Inr u \<longleftrightarrow> good_skill_id v"
  by (auto simp: validate_skill_id_def good_skill_id_def)

lemma each_issue_Nil: "each_issue f i xs = [] \<longleftrightarrow> (\<forall>j < length xs. f (i + j) (xs ! j) = [])"
proof (induction xs arbitrary: i)
  case Nil
  then show ?case by simp
next
  case (Cons x xs)
  then show ?case by (auto simp: less_Suc_eq_0_disj)
qed

lemma each_issue_uniform:
  assumes "\<And>i x. f i x = [] \<longleftrightarrow> P x"
  shows "each_issue f i xs = [] \<longleftrightarrow> list_all P xs"
  by (simp add: each_issue_Nil assms list_all_length)

lemma errors_each_issue:
  assumes "\<And>i x. errors_of (f i x) = [] \<longleftrightarrow> P x"
  shows "errors_of (each_issue f i xs) = [] \<longleftrightarrow> list_all P xs"
proof (induction xs arbitrary: i)
  case Nil
  then show ?case by (simp add: errors_of_def)
next
  case (Cons x xs)
  have "errors_of (f i x @ each_issue f (i + 1) xs) = errors_of (f i x) @ errors_of (each_issue f (i + 1) xs)"
    by (simp add: errors_of_def)
  with Cons.IH assms show ?case by simp
qed

lemma identity_issues_iff:
  "identity_issues m = [] \<longleftrightarrow> good_skill_id (skill_text (sm_id m)) \<and> trim (sm_name m) \<noteq> [] \<and> trim (version_text (sm_version m)) \<noteq> []"
  using validate_skill_id_iff [of "skill_text (sm_id m)"]
  by (cases "validate_skill_id (skill_text (sm_id m))") (auto simp: identity_issues_def)

lemma instruction_issues_iff:
  "instruction_issues m = [] \<longleftrightarrow> sm_instructions m \<noteq> [] \<and> list_all (\<lambda>x. trim (in_content x) \<noteq> []) (sm_instructions m)"
proof -
  have "each_issue (\<lambda>i x. if trim (in_content x) = []
      then [skill_issue_new InstructionContentEmpty (at_index ''instructions'' i ''.content'') ''instruction content must not be empty'']
      else []) 0 (sm_instructions m) = [] \<longleftrightarrow> list_all (\<lambda>x. trim (in_content x) \<noteq> []) (sm_instructions m)"
    by (rule each_issue_uniform) simp
  then show ?thesis by (simp add: instruction_issues_def)
qed

definition fits_modes :: "(action_kind, skill_action_mode) hmap \<Rightarrow> skill_action_binding \<Rightarrow> bool" where
  "fits_modes modes b \<longleftrightarrow> m_get modes (bd_action_kind b) \<in> {None, Some (bd_mode b)}"

definition one_mode :: "skill_action_binding list \<Rightarrow> bool" where
  "one_mode bs \<longleftrightarrow> (\<forall>b \<in> set bs. \<forall>c \<in> set bs. bd_action_kind b = bd_action_kind c \<longrightarrow> bd_mode b = bd_mode c)"

lemma ball_pairs_insert:
  assumes "\<And>x. Q x x" and "\<And>x y. Q x y \<Longrightarrow> Q y x"
  shows "(\<forall>x \<in> insert b S. \<forall>y \<in> insert b S. Q x y) \<longleftrightarrow> (\<forall>y \<in> S. Q b y) \<and> (\<forall>x \<in> S. \<forall>y \<in> S. Q x y)"
  using assms by blast

lemma one_mode_Cons:
  "one_mode (b # bs) \<longleftrightarrow> (\<forall>c \<in> set bs. bd_action_kind b = bd_action_kind c \<longrightarrow> bd_mode b = bd_mode c) \<and> one_mode bs"
  unfolding one_mode_def list.set
  by (rule ball_pairs_insert [where Q = "\<lambda>b c. bd_action_kind b = bd_action_kind c \<longrightarrow> bd_mode b = bd_mode c"]) auto

lemma fits_modes_put:
  "fits_modes (hm_put (bd_action_kind b) (bd_mode b) modes) c \<longleftrightarrow>
     (if bd_action_kind b = bd_action_kind c then bd_mode b = bd_mode c else fits_modes modes c)"
  by (simp add: fits_modes_def)

lemma fits_modes_same:
  "bd_action_kind b = bd_action_kind c \<Longrightarrow> bd_mode b = bd_mode c \<Longrightarrow> fits_modes modes b \<longleftrightarrow> fits_modes modes c"
  by (simp add: fits_modes_def)

lemma binding_issues_iff:
  "binding_issues env i bs modes = [] \<longleftrightarrow>
     (\<forall>b \<in> set bs. bd_action_kind b \<in> set (se_available_actions env)) \<and> (\<forall>b \<in> set bs. fits_modes modes b) \<and> one_mode bs"
proof (induction bs arbitrary: i modes)
  case Nil
  then show ?case by (simp add: one_mode_def)
next
  case (Cons b bs)
  let ?ms = "hm_put (bd_action_kind b) (bd_mode b) modes"
  have head: "binding_issues env i (b # bs) modes = [] \<longleftrightarrow>
      bd_action_kind b \<in> set (se_available_actions env) \<and> fits_modes modes b \<and> binding_issues env (i + 1) bs ?ms = []"
    by (auto simp: fits_modes_def split: option.split)
  have "fits_modes modes b \<and> (\<forall>c \<in> set bs. fits_modes ?ms c) \<longleftrightarrow>
      fits_modes modes b \<and> (\<forall>c \<in> set bs. fits_modes modes c) \<and>
      (\<forall>c \<in> set bs. bd_action_kind b = bd_action_kind c \<longrightarrow> bd_mode b = bd_mode c)"
    unfolding fits_modes_put using fits_modes_same [of b _ modes] by metis
  then show ?case unfolding head Cons.IH one_mode_Cons list.set ball_simps by blast
qed

lemma availability_issues_iff:
  "availability_issues env a = [] \<longleftrightarrow> (se_production_mode env \<longrightarrow> a = Production)"
  by (simp add: availability_issues_def split: skill_availability.split)

lemma runtime_issues_iff: "runtime_issues env r = [] \<longleftrightarrow> good_runtime env r"
  by (auto simp: runtime_issues_def good_runtime_def split: option.splits)

lemma tag_issues_iff: "tag_issues m = [] \<longleftrightarrow> list_all (\<lambda>t. trim t \<noteq> []) (me_tags m)"
  unfolding tag_issues_def by (rule each_issue_uniform) simp

lemma permission_errors_iff:
  "errors_of (each_issue (permission_issue env) 0 ps) = [] \<longleftrightarrow> list_all (good_permission env) ps"
  by (rule errors_each_issue) (simp add: permission_issue_def good_permission_def errors_of_def)

lemma context_errors_iff:
  "errors_of (each_issue (context_issue env) 0 cs) = [] \<longleftrightarrow> list_all (good_context env) cs"
  by (rule errors_each_issue) (simp add: context_issue_def good_context_def errors_of_def)

lemma skill_valid_iff: "skill_report_is_valid (validate_manifest env m) \<longleftrightarrow> runnable env m"
proof -
  have "skill_report_is_valid (validate_manifest env m) \<longleftrightarrow> sp_errors (validate_manifest env m) = []"
    by (simp add: skill_report_is_valid_def validate_manifest_def skill_report_new_def from_issues_def Let_def)
  also have "\<dots> \<longleftrightarrow> runnable env m"
    unfolding validate_manifest_def Let_def skill_report_new_def skill_report.select_convs append_is_Nil_conv
      identity_issues_iff instruction_issues_iff binding_issues_iff permission_errors_iff context_errors_iff
      runtime_issues_iff availability_issues_iff tag_issues_iff runnable_def good_bindings_def one_mode_def
    by (simp add: fits_modes_def m_get_def conj_assoc)
  finally show ?thesis .
qed

section \<open>The registry holds runnable skills only\<close>

fun register_skills :: "skill_manifest list \<Rightarrow> skill_registry \<Rightarrow> skill_registry" where
  "register_skills [] s = s"
| "register_skills (m # ms) s = register_skills ms (snd (register_skill m s))"

lemma register_skill_state:
  "snd (register_skill m s) =
     (if m_contains (sg_skills s) (sm_id m) \<or> \<not> runnable (sg_environment s) m then s
      else s\<lparr>sg_skills := bt_put (sm_id m) m (sg_skills s)\<rparr>)"
  by (simp add: register_skill_def skill_valid_iff raise_def Let_def)

lemma register_skills_environment [simp]: "sg_environment (register_skills ms s) = sg_environment s"
  by (induction ms arbitrary: s) (simp_all add: register_skill_state)

lemma register_skills_ordered: "bt_inv (sg_skills s) \<Longrightarrow> bt_inv (sg_skills (register_skills ms s))"
  by (induction ms arbitrary: s) (simp_all add: register_skill_state)

lemma get_registered:
  "get_skill (snd (register_skill m s)) i =
     (case get_skill s i of Some x \<Rightarrow> Some x | None \<Rightarrow> if sm_id m = i \<and> runnable (sg_environment s) m then Some m else None)"
  by (auto simp: register_skill_state get_skill_def m_contains_def split: option.split)

lemma register_skills_get:
  "bt_inv (sg_skills s) \<Longrightarrow>
   get_skill (register_skills ms s) i =
     (case get_skill s i of Some m \<Rightarrow> Some m | None \<Rightarrow> find (\<lambda>m. sm_id m = i \<and> runnable (sg_environment s) m) ms)"
proof (induction ms arbitrary: s)
  case Nil
  then show ?case by (simp split: option.split)
next
  case (Cons m ms)
  have inv: "bt_inv (sg_skills (snd (register_skill m s)))" using Cons.prems by (simp add: register_skill_state)
  have env: "sg_environment (snd (register_skill m s)) = sg_environment s" by (simp add: register_skill_state)
  show ?case
    unfolding register_skills.simps Cons.IH [OF inv] env get_registered by (simp split: option.split)
qed

text \<open>
  C23. The registry of skills is well formed however it was filled: under an identifier it
  holds the first manifest registered with it that the host can run, with a well-formed
  identifier, instructions that are not blank, one mode for each of its actions, all of them
  available, and everything it requires at hand; and it lists the skills in the order of
  their identifiers, each once.
\<close>

theorem registry_holds_runnable_skills:
  "get_skill (register_skills ms (skill_registry_new env)) i = find (\<lambda>m. sm_id m = i \<and> runnable env m) ms \<and>
   sorted_wrt (<) (map su_id (list_skills (register_skills ms (skill_registry_new env))))"
proof
  let ?s = "register_skills ms (skill_registry_new env)"
  have start: "bt_inv (sg_skills (skill_registry_new env))" by (simp add: skill_registry_new_def)
  have get: "get_skill ?s i = find (\<lambda>m. sm_id m = i \<and> runnable env m) ms" for i
    using register_skills_get [OF start, of ms i] by (simp add: skill_registry_new_def get_skill_def m_get_def)
  then show "get_skill ?s i = find (\<lambda>m. sm_id m = i \<and> runnable env m) ms" .
  have inv: "bt_inv (sg_skills ?s)" by (rule register_skills_ordered [OF start])
  have "sm_id (snd p) = fst p" if "p \<in> set (sg_skills ?s)" for p
    using get [of "fst p"] in_set_m_get [OF bt_inv_hm_inv [OF inv], of "fst p" "snd p"] that
    by (auto simp: get_skill_def find_Some_iff find_Some_iff2)
  then have "map su_id (list_skills ?s) = map fst (sg_skills ?s)"
    by (simp add: list_skills_def m_values_def summary_of_def comp_def)
  with inv show "sorted_wrt (<) (map su_id (list_skills ?s))" by (simp add: bt_inv_def)
qed

text \<open>An identifier may still have a dash beside a dot, though its parts are meant to be kebab-case names.\<close>

lemma dash_beside_dot_accepted: "skill_id_new ''mail.-draft'' = Inr (SkillId ''mail.-draft'')"
  by code_simp

end
