(* ===== verification/Connectors.thy ===== *)
theory Connectors
  imports Credentials
begin
text \<open>
  Connections to servers and external services: \<open>server-account-core/src/lib.rs\<close> with the
  registry of servers, the store of bindings and the decision whether to bind, and
  \<open>connector-runtime/src/lib.rs\<close> with the runtime that uses them, the registry of external
  connectors, the Gmail connector and its retry policy. A name made of the nanoseconds of
  the clock is an argument, as are the readings of the clock.
\<close>

section \<open>Servers and bindings\<close>

datatype (plugins only: code size) server_id = ServerId string

fun server_text :: "server_id \<Rightarrow> string" where
  "server_text (ServerId s) = s"

datatype (plugins only: code size) server_endpoint = ServerEndpoint string

datatype (plugins only: code size) server_account_id = ServerAccountId string

fun account_text :: "server_account_id \<Rightarrow> string" where
  "account_text (ServerAccountId s) = s"

datatype (plugins only: code size) server_kind = OpenSourceRelay | EnterpriseManagedServer | Official | PersonalSelfHosted

datatype (plugins only: code size) connection_policy =
    AllowAll | RequireInviteCode | RequireOwnershipNotice | EnterpriseManaged string

datatype (plugins only: code size) server_trust_status = Trusted | Unverified | Blocked

record server_registration =
  sv_id :: server_id
  sv_endpoint :: server_endpoint
  sv_kind :: server_kind
  sv_connection_policy :: connection_policy
  sv_trust_status :: server_trust_status
  sv_display_name :: string
  sv_registered_at :: int

record server_account_binding =
  ab_id :: server_account_id
  ab_agentos_id :: string
  ab_server_id :: server_id
  ab_bound_at :: int

datatype (plugins only: code size) server_account_error =
    ServerNotFound string | BindingNotFound string | AlreadyRegistered string | PolicyViolation string
  | InvalidTrustPin string | ServerAccountInternal string

datatype (plugins only: code size) server_trust_pin_kind = PublicKeySha256 | CertificateSha256 | ServerIdentityKey

record server_trust_pin =
  tp_kind :: server_trust_pin_kind
  tp_value :: string
  tp_pinned_at :: int

definition server_trust_pin_new :: "server_trust_pin_kind \<Rightarrow> string \<Rightarrow> int \<Rightarrow> server_account_error + server_trust_pin" where
  "server_trust_pin_new k v at =
     (if trim v = [] then Inl (InvalidTrustPin ''trust pin value cannot be empty'')
      else Inr \<lparr>tp_kind = k, tp_value = v, tp_pinned_at = at\<rparr>)"

datatype (plugins only: code size) binding_approval = ApprovalNotRequired | ApprovedBy string string

datatype (plugins only: code size) server_binding_decision =
    BindingAllowed | BindingNeedsApproval string | BindingRefused string

definition evaluate_server_binding_trust :: "server_registration \<Rightarrow> binding_approval \<Rightarrow> server_binding_decision" where
  "evaluate_server_binding_trust server approval =
     (case sv_trust_status server of
        Trusted \<Rightarrow> BindingAllowed
      | Unverified \<Rightarrow>
          (case approval of
             ApprovalNotRequired \<Rightarrow>
               BindingNeedsApproval (''server '' @ server_text (sv_id server) @ '' is unverified and requires approval before binding'')
           | ApprovedBy by reason \<Rightarrow> BindingAllowed)
      | Blocked \<Rightarrow> BindingRefused (''server '' @ server_text (sv_id server) @ '' is blocked and cannot be bound''))"

datatype (plugins only: code size) binding_audit_outcome = AuditAllowed | AuditRequiresApproval | AuditRejected

record binding_audit_event =
  be_id :: string
  be_agentos_id :: string
  be_server_id :: server_id
  be_trust_status :: server_trust_status
  be_approval :: binding_approval
  be_outcome :: binding_audit_outcome
  be_reason :: string
  be_created_at :: int

type_synonym server_map = "(string, server_registration) hmap"
type_synonym account_map = "(string, server_account_binding) hmap"

definition register_server_record :: "server_registration \<Rightarrow> (server_map, server_account_error, unit) prog" where
  "register_server_record server m =
     (if m_contains m (server_text (sv_id server)) then raise (AlreadyRegistered (server_text (sv_id server))) m
      else (Inr (), hm_put (server_text (sv_id server)) server m))"

definition get_server :: "server_id \<Rightarrow> server_map \<Rightarrow> server_account_error + server_registration" where
  "get_server i m = ok_or (m_get m (server_text i)) (ServerNotFound (server_text i))"

definition unregister_server :: "server_id \<Rightarrow> server_map \<Rightarrow> server_map" where
  "unregister_server i = m_remove (server_text i)"

definition bind_record :: "server_account_binding \<Rightarrow> account_map \<Rightarrow> account_map" where
  "bind_record b = hm_put (account_text (ab_id b)) b"

definition unbind :: "server_account_id \<Rightarrow> account_map \<Rightarrow> account_map" where
  "unbind i = m_remove (account_text i)"

definition get_binding :: "server_account_id \<Rightarrow> account_map \<Rightarrow> server_account_error + server_account_binding" where
  "get_binding i m = ok_or (m_get m (account_text i)) (BindingNotFound (account_text i))"

definition list_by_agent :: "string \<Rightarrow> account_map \<Rightarrow> server_account_binding list" where
  "list_by_agent a m = filter (\<lambda>b. ab_agentos_id b = a) (m_values m)"

definition list_by_server :: "server_id \<Rightarrow> account_map \<Rightarrow> server_account_binding list" where
  "list_by_server i m = filter (\<lambda>b. ab_server_id b = i) (m_values m)"

section \<open>The connector runtime\<close>

datatype (plugins only: code size) connector_error =
    ConnectorServerAccount server_account_error
  | ConnectorIdentity identity_error
  | BindingRequiresApproval string
  | BindingRejected string
  | ConnectorAudit string

text \<open>The runtime over the stores in memory, as \<open>with_memory_stores\<close> makes it.\<close>

record connector_runtime =
  ct_identities :: "(string, public_identity) hmap"
  ct_servers :: server_map
  ct_accounts :: account_map
  ct_audit :: "binding_audit_event list"

definition with_memory_stores :: connector_runtime where
  "with_memory_stores = \<lparr>ct_identities = [], ct_servers = [], ct_accounts = [], ct_audit = []\<rparr>"

type_synonym 'a connector_prog = "(connector_runtime, connector_error, 'a) prog"

definition create_identity :: "string \<Rightarrow> string \<Rightarrow> int \<Rightarrow> string \<Rightarrow> public_identity connector_prog" where
  "create_identity u1 u2 now name s =
     (let i = \<lparr>pi_agentos_id = AgentOsId (''agent-'' @ u1), pi_device_id = IdentityDeviceId (''device-'' @ u2),
               pi_display_name = name, pi_created_at = now\<rparr>
      in (Inr i, s\<lparr>ct_identities := save_identity i (ct_identities s)\<rparr>))"

definition register_server :: "string \<Rightarrow> int \<Rightarrow> string \<Rightarrow> server_kind \<Rightarrow> connection_policy \<Rightarrow> string \<Rightarrow> server_id connector_prog" where
  "register_server u now endpoint kind policy name s =
     (let i = ServerId (''server-'' @ u) in
      case register_server_record \<lparr>sv_id = i, sv_endpoint = ServerEndpoint endpoint, sv_kind = kind,
             sv_connection_policy = policy, sv_trust_status = Unverified, sv_display_name = name, sv_registered_at = now\<rparr> (ct_servers s) of
        (Inl e, m) \<Rightarrow> (Inl (ConnectorServerAccount e), s)
      | (Inr _, m) \<Rightarrow> (Inr i, s\<lparr>ct_servers := m\<rparr>))"

definition record_binding_audit_event ::
    "int \<Rightarrow> string \<Rightarrow> server_registration \<Rightarrow> binding_approval \<Rightarrow> binding_audit_outcome \<Rightarrow> string \<Rightarrow> unit connector_prog" where
  "record_binding_audit_event now agent server approval outcome reason s =
     (Inr (), s\<lparr>ct_audit := ct_audit s @
        [\<lparr>be_id = ''binding-audit-'' @ decimal (length (ct_audit s) + 1), be_agentos_id = agent, be_server_id = sv_id server,
          be_trust_status = sv_trust_status server, be_approval = approval, be_outcome = outcome, be_reason = reason,
          be_created_at = now\<rparr>]\<rparr>)"

definition bind_account_with_approval ::
    "string \<Rightarrow> int \<Rightarrow> string \<Rightarrow> server_id \<Rightarrow> binding_approval \<Rightarrow> server_account_binding connector_prog" where
  "bind_account_with_approval u now agent i approval =
     andThen (\<lambda>s. (map_err ConnectorServerAccount (get_server i (ct_servers s)), s)) (\<lambda>server.
     case evaluate_server_binding_trust server approval of
       BindingAllowed \<Rightarrow>
         andThen (record_binding_audit_event now agent server approval AuditAllowed ''server binding allowed'') (\<lambda>_ s.
           let b = \<lparr>ab_id = ServerAccountId (''binding-'' @ u), ab_agentos_id = agent, ab_server_id = i, ab_bound_at = now\<rparr>
           in (Inr b, s\<lparr>ct_accounts := bind_record b (ct_accounts s)\<rparr>))
     | BindingNeedsApproval reason \<Rightarrow>
         andThen (record_binding_audit_event now agent server approval AuditRequiresApproval reason) (\<lambda>_.
           raise (BindingRequiresApproval reason))
     | BindingRefused reason \<Rightarrow>
         andThen (record_binding_audit_event now agent server approval AuditRejected reason) (\<lambda>_.
           raise (BindingRejected reason)))"

definition bind_account :: "string \<Rightarrow> int \<Rightarrow> string \<Rightarrow> server_id \<Rightarrow> server_account_binding connector_prog" where
  "bind_account u now agent i = bind_account_with_approval u now agent i ApprovalNotRequired"

definition runtime_verify_challenge :: "string \<Rightarrow> string \<Rightarrow> bool" where
  "runtime_verify_challenge = fake_verify"

definition check_enterprise_notice_required :: "server_id \<Rightarrow> bool connector_prog" where
  "check_enterprise_notice_required i s =
     (map_err ConnectorServerAccount
        (bind_result (get_server i (ct_servers s)) (\<lambda>server.
           Inr (case sv_connection_policy server of RequireOwnershipNotice \<Rightarrow> True | EnterpriseManaged _ \<Rightarrow> True | _ \<Rightarrow> False))), s)"

definition disconnect_server :: "server_id \<Rightarrow> unit connector_prog" where
  "disconnect_server i s =
     (Inr (), s\<lparr>ct_accounts := fold (\<lambda>b. unbind (ab_id b)) (list_by_server i (ct_accounts s)) (ct_accounts s),
                ct_servers := unregister_server i (ct_servers s)\<rparr>)"

section \<open>External services\<close>

datatype (plugins only: code size) external_service_kind =
    SvcGmail | SvcGitHub | SvcLinear | SvcSlack | SvcNotion | SvcCalendar | SvcCustom string

datatype (plugins only: code size) external_resource_kind =
    XEmail | XEmailThread | XIssue | XPullRequest | XDocument | XMessage | XCalendarEvent | XContact | XCustom string

fun show_resource_kind :: "external_resource_kind \<Rightarrow> string" where
  "show_resource_kind XEmail = ''email''"
| "show_resource_kind XEmailThread = ''email_thread''"
| "show_resource_kind XIssue = ''issue''"
| "show_resource_kind XPullRequest = ''pull_request''"
| "show_resource_kind XDocument = ''document''"
| "show_resource_kind XMessage = ''message''"
| "show_resource_kind XCalendarEvent = ''calendar_event''"
| "show_resource_kind XContact = ''contact''"
| "show_resource_kind (XCustom s) = s"

record external_credentials =
  xc_access_token :: string
  xc_refresh_token :: "string option"
  xc_expires_at :: "int option"
  xc_scopes :: "string list"
  xc_token_type :: string

definition external_credentials_new :: "string \<Rightarrow> external_credentials" where
  "external_credentials_new t =
     \<lparr>xc_access_token = t, xc_refresh_token = None, xc_expires_at = None, xc_scopes = [], xc_token_type = ''Bearer''\<rparr>"

definition credentials_expired :: "int \<Rightarrow> external_credentials \<Rightarrow> bool" where
  "credentials_expired now c = (case xc_expires_at c of Some expiry \<Rightarrow> expiry < now | None \<Rightarrow> False)"

definition credentials_need_refresh :: "int \<Rightarrow> int \<Rightarrow> external_credentials \<Rightarrow> bool" where
  "credentials_need_refresh now skew c =
     (case xc_expires_at c of Some expires \<Rightarrow> expires \<le> now + max skew 0 * 1000000000 | None \<Rightarrow> False)"

definition to_oauth_token_set :: "external_credentials \<Rightarrow> oauth_token_set" where
  "to_oauth_token_set c =
     oauth_token_set_new (SecretValue (xc_access_token c)) (map_option SecretValue (xc_refresh_token c)) (xc_token_type c)
       (xc_expires_at c) (xc_scopes c)"

definition from_oauth_token_set :: "oauth_token_set \<Rightarrow> external_credentials" where
  "from_oauth_token_set t =
     \<lparr>xc_access_token = expose_secret (ot_access_token t), xc_refresh_token = map_option expose_secret (ot_refresh_token t),
      xc_expires_at = ot_expires_at t, xc_scopes = ot_scopes t, xc_token_type = ot_token_type t\<rparr>"

datatype (plugins only: code size) external_connector_error =
    ConnectorNotFound string | AuthenticationRequired | TokenExpired | TokenRefreshNotSupported
  | OAuthRefresh oauth_refresh_error | ServiceUnavailable string | RateLimited nat | ResourceNotFound string
  | InvalidRequest string | RegistryLock string | ExternalIo string

record 's token_refresh_provider =
  trp_store :: "'s credential_ops"
  trp_refresh_skew_secs :: int

definition token_refresh_provider_new :: "'s credential_ops \<Rightarrow> 's token_refresh_provider" where
  "token_refresh_provider_new S = \<lparr>trp_store = S, trp_refresh_skew_secs = 300\<rparr>"

definition with_refresh_skew_secs :: "int \<Rightarrow> 's token_refresh_provider \<Rightarrow> 's token_refresh_provider" where
  "with_refresh_skew_secs k p = p\<lparr>trp_refresh_skew_secs := max k 0\<rparr>"

definition refresh_if_needed ::
    "'s token_refresh_provider \<Rightarrow> token_codec \<Rightarrow> 'w token_refresher \<Rightarrow> oauth_credential_ref \<Rightarrow> int \<Rightarrow>
     ('s \<times> 'w, external_connector_error, external_credentials) prog" where
  "refresh_if_needed p K refresh r now s =
     (case refresh_oauth_credential (trp_store p) K refresh r now (trp_refresh_skew_secs p) s of
        (res, s') \<Rightarrow> (map_err OAuthRefresh (bind_result res (\<lambda>t. Inr (from_oauth_token_set t))), s'))"

datatype (plugins only: code size) external_connector_id = ExternalConnectorId string

record external_registration =
  xr_id :: external_connector_id
  xr_service :: external_service_kind
  xr_display_name :: string
  xr_connected_at :: int
  xr_last_synced_at :: "int option"

type_synonym external_map = "(external_connector_id, external_registration) hmap"

definition register_external :: "external_registration \<Rightarrow> external_map \<Rightarrow> external_map" where
  "register_external r = hm_put (xr_id r) r"

definition unregister_external :: "external_connector_id \<Rightarrow> external_map \<Rightarrow> external_map" where
  "unregister_external i = m_remove i"

definition get_external :: "external_connector_id \<Rightarrow> external_map \<Rightarrow> external_connector_error + external_registration" where
  "get_external i m = ok_or (m_get m i) (ConnectorNotFound (case i of ExternalConnectorId s \<Rightarrow> s))"

definition list_by_service :: "external_service_kind \<Rightarrow> external_map \<Rightarrow> external_registration list" where
  "list_by_service k m = filter (\<lambda>c. xr_service c = k) (m_values m)"

subsection \<open>The retry policy of Gmail\<close>

record gmail_retry_config =
  gc_max_attempts :: nat
  gc_base_delay_ms :: nat
  gc_max_delay_ms :: nat
  gc_timeout_ms :: nat

definition gmail_retry_config_default :: gmail_retry_config where
  "gmail_retry_config_default = \<lparr>gc_max_attempts = 3, gc_base_delay_ms = 250, gc_max_delay_ms = 5000, gc_timeout_ms = 10000\<rparr>"

datatype (plugins only: code size) gmail_error_class =
    GmRateLimited | GmTimeout | GmTransientProvider | GmAuthentication | GmInvalidRequest | GmNotFound | GmUnknown

definition gmail_is_retryable :: "gmail_error_class \<Rightarrow> bool" where
  "gmail_is_retryable c \<longleftrightarrow> c \<in> {GmRateLimited, GmTimeout, GmTransientProvider}"

datatype (plugins only: code size) gmail_retry_decision =
    GmRetry gmail_error_class nat "nat option"
  | GmDoNotRetry gmail_error_class string
  | GmExhausted gmail_error_class nat

definition classify_gmail_provider_error :: "external_connector_error \<Rightarrow> gmail_error_class" where
  "classify_gmail_provider_error e =
     (case e of
        RateLimited _ \<Rightarrow> GmRateLimited
      | AuthenticationRequired \<Rightarrow> GmAuthentication
      | TokenExpired \<Rightarrow> GmAuthentication
      | OAuthRefresh _ \<Rightarrow> GmAuthentication
      | InvalidRequest _ \<Rightarrow> GmInvalidRequest
      | ResourceNotFound _ \<Rightarrow> GmNotFound
      | ServiceUnavailable message \<Rightarrow>
          (let m = to_ascii_lowercase message in
           if contains_str m ''timeout'' \<or> contains_str m ''timed out'' then GmTimeout
           else if contains_str m ''503'' \<or> contains_str m ''500'' \<or> contains_str m ''backend'' \<or>
                   contains_str m ''unavailable'' \<or> contains_str m ''transient'' then GmTransientProvider
           else GmUnknown)
      | _ \<Rightarrow> GmUnknown)"

definition non_retryable_gmail_reason :: "gmail_error_class \<Rightarrow> string" where
  "non_retryable_gmail_reason c =
     (case c of
        GmAuthentication \<Rightarrow> ''authentication/credential failure is not retryable''
      | GmInvalidRequest \<Rightarrow> ''invalid request is not retryable''
      | GmNotFound \<Rightarrow> ''resource not found is not retryable''
      | GmUnknown \<Rightarrow> ''unknown Gmail provider error is not retryable''
      | _ \<Rightarrow> ''retryable Gmail provider error'')"

abbreviation u64_max :: nat where
  "u64_max \<equiv> 2 ^ 64 - 1"

text \<open>\<open>checked_shl\<close> fails at a shift of 64 or more, \<open>saturating_mul\<close> stops at the largest number.\<close>

definition gmail_decide :: "gmail_retry_config \<Rightarrow> external_connector_error \<Rightarrow> nat \<Rightarrow> gmail_retry_decision" where
  "gmail_decide cfg e attempt =
     (let c = classify_gmail_provider_error e in
      if \<not> gmail_is_retryable c then GmDoNotRetry c (non_retryable_gmail_reason c)
      else if gc_max_attempts cfg \<le> attempt then GmExhausted c attempt
      else
        let after = (case e of RateLimited seconds \<Rightarrow> Some (min (seconds * 1000) u64_max) | _ \<Rightarrow> None);
            multiplier = (if attempt - 1 < 64 then 2 ^ (attempt - 1) else u64_max)
        in GmRetry c (case after of Some d \<Rightarrow> d | None \<Rightarrow> min (min (gc_base_delay_ms cfg * multiplier) u64_max) (gc_max_delay_ms cfg)) after)"

subsection \<open>Access to an account\<close>

datatype (plugins only: code size) connector_operation_kind = ListResources | GetResource
datatype (plugins only: code size) connector_operation_outcome = OpStarted | OpSucceeded | OpFailed | OpDenied
datatype (plugins only: code size) account_lifecycle = AccountActive | AccountDisabled | AccountOffboarded

record connector_audit_event =
  ce_service :: external_service_kind
  ce_connector_id :: string
  ce_account_id :: "string option"
  ce_operation :: connector_operation_kind
  ce_resource_kind :: external_resource_kind
  ce_resource_id :: "string option"
  ce_outcome :: connector_operation_outcome
  ce_error_class :: "gmail_error_class option"
  ce_reason :: string
  ce_occurred_at :: int
  ce_payload_redaction :: string
  ce_credential_redaction :: string

definition connector_payload_redaction :: "external_service_kind \<Rightarrow> string" where
  "connector_payload_redaction k = (case k of SvcGmail \<Rightarrow> ''gmail message content omitted'' | _ \<Rightarrow> ''connector payload omitted'')"

definition connector_audit_event_new ::
    "external_service_kind \<Rightarrow> string \<Rightarrow> string option \<Rightarrow> connector_operation_kind \<Rightarrow> external_resource_kind \<Rightarrow> string option \<Rightarrow>
     connector_operation_outcome \<Rightarrow> gmail_error_class option \<Rightarrow> string \<Rightarrow> int \<Rightarrow> connector_audit_event" where
  "connector_audit_event_new k c a operation rk ri outcome cls reason at =
     \<lparr>ce_service = k, ce_connector_id = c, ce_account_id = a, ce_operation = operation, ce_resource_kind = rk, ce_resource_id = ri,
      ce_outcome = outcome, ce_error_class = cls, ce_reason = reason, ce_occurred_at = at,
      ce_payload_redaction = connector_payload_redaction k, ce_credential_redaction = ''oauth token material omitted''\<rparr>"

definition connector_operation_started ::
    "external_service_kind \<Rightarrow> string \<Rightarrow> string option \<Rightarrow> connector_operation_kind \<Rightarrow> external_resource_kind \<Rightarrow> string option \<Rightarrow>
     int \<Rightarrow> connector_audit_event" where
  "connector_operation_started k c a operation rk ri at =
     connector_audit_event_new k c a operation rk ri OpStarted None ''connector operation started'' at"

datatype (plugins only: code size) account_access_decision = AccessAllowed | AccessDenied connector_audit_event

definition evaluate_connector_account_access ::
    "external_service_kind \<Rightarrow> string \<Rightarrow> string option \<Rightarrow> account_lifecycle \<Rightarrow> connector_operation_kind \<Rightarrow>
     external_resource_kind \<Rightarrow> string option \<Rightarrow> int \<Rightarrow> account_access_decision" where
  "evaluate_connector_account_access k c a lifecycle operation rk ri at =
     (case lifecycle of
        AccountActive \<Rightarrow> AccessAllowed
      | _ \<Rightarrow> AccessDenied (connector_audit_event_new k c a operation rk ri OpDenied (Some GmAuthentication)
               (if lifecycle = AccountDisabled then ''connector account is disabled'' else ''connector account is offboarded'') at))"

subsection \<open>The Gmail connector\<close>

record gmail_config =
  gg_max_results_per_page :: nat
  gg_query_filter :: "string option"
  gg_label_ids :: "string list"

definition gmail_config_default :: gmail_config where
  "gmail_config_default = \<lparr>gg_max_results_per_page = 20, gg_query_filter = None, gg_label_ids = [''INBOX'']\<rparr>"

record 's gmail_connector =
  gm_credentials :: external_credentials
  gm_config :: gmail_config
  gm_last_synced_at :: "int option"
  gm_credential_ref :: "oauth_credential_ref option"
  gm_token_refresh_provider :: "'s token_refresh_provider option"

definition gmail_connector_new :: "external_credentials \<Rightarrow> gmail_config \<Rightarrow> 's gmail_connector" where
  "gmail_connector_new c g =
     \<lparr>gm_credentials = c, gm_config = g, gm_last_synced_at = None, gm_credential_ref = None, gm_token_refresh_provider = None\<rparr>"

definition with_token_refresh_provider ::
    "oauth_credential_ref \<Rightarrow> 's token_refresh_provider \<Rightarrow> 's gmail_connector \<Rightarrow> 's gmail_connector" where
  "with_token_refresh_provider r p g = g\<lparr>gm_credential_ref := Some r, gm_token_refresh_provider := Some p\<rparr>"

definition build_list_threads_url :: "gmail_config \<Rightarrow> string option \<Rightarrow> nat option \<Rightarrow> string" where
  "build_list_threads_url g page limit =
     ''https://gmail.googleapis.com/gmail/v1/users/me/threads?maxResults='' @
     decimal (case limit of None \<Rightarrow> gg_max_results_per_page g | Some n \<Rightarrow> n) @
     (case gg_query_filter g of None \<Rightarrow> [] | Some q \<Rightarrow> ''&q='' @ q) @
     concat (map (\<lambda>l. ''&labelIds='' @ l) (gg_label_ids g)) @
     (case page of None \<Rightarrow> [] | Some t \<Rightarrow> ''&pageToken='' @ t)"

definition build_get_thread_url :: "string \<Rightarrow> string" where
  "build_get_thread_url i = ''https://gmail.googleapis.com/gmail/v1/users/me/threads/'' @ i @ ''?format=metadata''"

definition is_authenticated :: "int \<Rightarrow> 's gmail_connector \<Rightarrow> bool" where
  "is_authenticated now g \<longleftrightarrow> xc_access_token (gm_credentials g) \<noteq> [] \<and> \<not> credentials_expired now (gm_credentials g)"

text \<open>Both operations only ever fail: the calls to the service belong to a host.\<close>

definition gmail_list_resources :: "int \<Rightarrow> 's gmail_connector \<Rightarrow> external_resource_kind \<Rightarrow> external_connector_error" where
  "gmail_list_resources now g k =
     (if \<not> is_authenticated now g then AuthenticationRequired
      else if k = XEmailThread then ServiceUnavailable ''gmail resource listing requires a host-provided Gmail API adapter''
      else InvalidRequest (''Gmail connector does not support resource kind: '' @ show_resource_kind k))"

definition gmail_get_resource :: "int \<Rightarrow> 's gmail_connector \<Rightarrow> external_resource_kind \<Rightarrow> string \<Rightarrow> external_connector_error" where
  "gmail_get_resource now g k i =
     (if \<not> is_authenticated now g then AuthenticationRequired
      else if k = XEmailThread then ServiceUnavailable (''gmail resource retrieval for '' @ [CHR 0x27] @ i @ [CHR 0x27] @
             '' requires a host-provided Gmail API adapter'')
      else InvalidRequest (''Gmail connector does not support resource kind: '' @ show_resource_kind k))"

definition gmail_refresh_token ::
    "token_codec \<Rightarrow> 'w token_refresher \<Rightarrow> int \<Rightarrow> ('s gmail_connector \<times> 's \<times> 'w, external_connector_error, unit) prog" where
  "gmail_refresh_token K refresh now = (\<lambda>(g, w).
     case (gm_credential_ref g, gm_token_refresh_provider g) of
       (Some r, Some p) \<Rightarrow>
         (case refresh_if_needed p K refresh r now w of
            (Inl e, w') \<Rightarrow> (Inl e, g, w')
          | (Inr c, w') \<Rightarrow> (Inr (), g\<lparr>gm_credentials := c\<rparr>, w'))
     | _ \<Rightarrow> (Inl TokenRefreshNotSupported, g, w))"

record gmail_oauth_boundary =
  go_client_id :: string
  go_client_secret :: string
  go_redirect_uri :: string
  go_scopes :: "string list"

definition gmail_oauth_boundary_new :: "string \<Rightarrow> string \<Rightarrow> string \<Rightarrow> gmail_oauth_boundary" where
  "gmail_oauth_boundary_new c s r =
     \<lparr>go_client_id = c, go_client_secret = s, go_redirect_uri = r,
      go_scopes = [''https://www.googleapis.com/auth/gmail.readonly'']\<rparr>"

definition authorization_url :: "gmail_oauth_boundary \<Rightarrow> string \<Rightarrow> string" where
  "authorization_url b state =
     ''https://accounts.google.com/o/oauth2/v2/auth?client_id='' @ go_client_id b @ ''&redirect_uri='' @ go_redirect_uri b @
     ''&response_type=code&scope='' @ join_with '' '' (go_scopes b) @ ''&state='' @ state @ ''&access_type=offline''"

section \<open>No binding without trust or approval\<close>

datatype (plugins only: code size) connector_op =
    CoIdentity string string int string
  | CoRegister string int string server_kind connection_policy string
  | CoBind string int string server_id binding_approval
  | CoDisconnect server_id

fun connector_step :: "connector_op \<Rightarrow> connector_runtime \<Rightarrow> connector_runtime" where
  "connector_step (CoIdentity u1 u2 now name) s = snd (create_identity u1 u2 now name s)"
| "connector_step (CoRegister u now e k p name) s = snd (register_server u now e k p name s)"
| "connector_step (CoBind u now agent i approval) s = snd (bind_account_with_approval u now agent i approval s)"
| "connector_step (CoDisconnect i) s = snd (disconnect_server i s)"

abbreviation connector_run :: "connector_op list \<Rightarrow> connector_runtime \<Rightarrow> connector_runtime" where
  "connector_run \<equiv> fold connector_step"

definition stores_keyed :: "connector_runtime \<Rightarrow> bool" where
  "stores_keyed s \<longleftrightarrow>
     hm_inv (ct_accounts s) \<and>
     (\<forall>k server. m_get (ct_servers s) k = Some server \<longrightarrow> server_text (sv_id server) = k) \<and>
     (\<forall>k b. m_get (ct_accounts s) k = Some b \<longrightarrow> account_text (ab_id b) = k)"

text \<open>The event that lets a binding be: of the same agent and server, which was trusted or vouched for.\<close>

definition licenses :: "binding_audit_event \<Rightarrow> server_account_binding \<Rightarrow> bool" where
  "licenses e b \<longleftrightarrow>
     be_agentos_id e = ab_agentos_id b \<and> be_server_id e = ab_server_id b \<and> be_outcome e = AuditAllowed \<and>
     (be_trust_status e = Trusted \<or> be_trust_status e = Unverified \<and> be_approval e \<noteq> ApprovalNotRequired)"

definition all_licensed :: "connector_runtime \<Rightarrow> bool" where
  "all_licensed s \<longleftrightarrow> (\<forall>k b. m_get (ct_accounts s) k = Some b \<longrightarrow> (\<exists>e \<in> set (ct_audit s). licenses e b))"

lemma server_text_inject [simp]: "server_text i = server_text j \<longleftrightarrow> i = j"
  by (cases i; cases j) simp

lemma account_text_inject [simp]: "account_text i = account_text j \<longleftrightarrow> i = j"
  by (cases i; cases j) simp

lemma trust_allows:
  "evaluate_server_binding_trust server approval = BindingAllowed \<longleftrightarrow>
     sv_trust_status server = Trusted \<or> sv_trust_status server = Unverified \<and> approval \<noteq> ApprovalNotRequired"
  by (simp add: evaluate_server_binding_trust_def split: server_trust_status.split binding_approval.split)

text \<open>What a request to bind does, in one step: the event first, then the binding.\<close>

lemma bind_cases:
  obtains (unknown) "m_get (ct_servers s) (server_text i) = None"
      "snd (bind_account_with_approval u now agent i approval s) = s"
  | (refused) server reason outcome where "m_get (ct_servers s) (server_text i) = Some server"
      "evaluate_server_binding_trust server approval \<noteq> BindingAllowed"
      "snd (bind_account_with_approval u now agent i approval s) =
         snd (record_binding_audit_event now agent server approval outcome reason s)"
  | (bound) server where "m_get (ct_servers s) (server_text i) = Some server"
      "evaluate_server_binding_trust server approval = BindingAllowed"
      "snd (bind_account_with_approval u now agent i approval s) =
         snd (record_binding_audit_event now agent server approval AuditAllowed ''server binding allowed'' s)
           \<lparr>ct_accounts := bind_record \<lparr>ab_id = ServerAccountId (''binding-'' @ u), ab_agentos_id = agent, ab_server_id = i,
              ab_bound_at = now\<rparr> (ct_accounts s)\<rparr>"
proof (cases "m_get (ct_servers s) (server_text i)")
  case None
  then show ?thesis
    by (intro unknown) (simp_all add: bind_account_with_approval_def andThen_def get_server_def map_err_def)
next
  case (Some server)
  show ?thesis
  proof (cases "evaluate_server_binding_trust server approval")
    case BindingAllowed
    with Some show ?thesis
      by (intro bound) (simp_all add: bind_account_with_approval_def andThen_def get_server_def map_err_def
          record_binding_audit_event_def Let_def)
  next
    case (BindingNeedsApproval reason)
    with Some show ?thesis
      by (intro refused [of server AuditRequiresApproval reason]) (simp_all add: bind_account_with_approval_def andThen_def
          get_server_def map_err_def record_binding_audit_event_def raise_def)
  next
    case (BindingRefused reason)
    with Some show ?thesis
      by (intro refused [of server AuditRejected reason]) (simp_all add: bind_account_with_approval_def andThen_def
          get_server_def map_err_def record_binding_audit_event_def raise_def)
  qed
qed

lemma record_event_parts [simp]:
  "ct_servers (snd (record_binding_audit_event now agent server approval outcome reason s)) = ct_servers s"
  "ct_accounts (snd (record_binding_audit_event now agent server approval outcome reason s)) = ct_accounts s"
  "set (ct_audit s) \<subseteq> set (ct_audit (snd (record_binding_audit_event now agent server approval outcome reason s)))"
  by (auto simp: record_binding_audit_event_def)

lemma fold_unbind:
  "m_get (fold (\<lambda>b. unbind (ab_id b)) bs m) k = (if k \<in> (\<lambda>b. account_text (ab_id b)) ` set bs then None else m_get m k)"
  by (induction bs arbitrary: m) (auto simp: unbind_def)

lemma hm_inv_fold_unbind: "hm_inv m \<Longrightarrow> hm_inv (fold (\<lambda>b. unbind (ab_id b)) bs m)"
  by (induction bs arbitrary: m) (auto simp: unbind_def)

lemma disconnect_accounts:
  assumes "stores_keyed s"
  shows "m_get (ct_accounts (snd (disconnect_server i s))) k =
    (case m_get (ct_accounts s) k of None \<Rightarrow> None | Some b \<Rightarrow> if ab_server_id b = i then None else Some b)"
proof -
  have "k \<in> (\<lambda>b. account_text (ab_id b)) ` set (list_by_server i (ct_accounts s)) \<longleftrightarrow>
      (\<exists>b. m_get (ct_accounts s) k = Some b \<and> ab_server_id b = i)"
    using assms m_values_get [of "ct_accounts s"] by (force simp: list_by_server_def stores_keyed_def)
  then show ?thesis by (auto simp: disconnect_server_def fold_unbind split: option.split)
qed

lemma register_server_effect:
  obtains (same) "snd (register_server u now e k p name s) = s"
  | (new) server where "sv_trust_status server = Unverified" "m_get (ct_servers s) (server_text (sv_id server)) = None"
      "snd (register_server u now e k p name s) = s\<lparr>ct_servers := hm_put (server_text (sv_id server)) server (ct_servers s)\<rparr>"
proof (cases "m_contains (ct_servers s) (''server-'' @ u)")
  case True
  then show ?thesis by (intro same) (simp add: register_server_def register_server_record_def raise_def Let_def)
next
  case False
  then show ?thesis
    by (intro new [of "\<lparr>sv_id = ServerId (''server-'' @ u), sv_endpoint = ServerEndpoint e, sv_kind = k, sv_connection_policy = p,
          sv_trust_status = Unverified, sv_display_name = name, sv_registered_at = now\<rparr>"])
      (simp_all add: register_server_def register_server_record_def Let_def m_contains_def)
qed

lemma all_licensed_grow:
  "all_licensed s \<Longrightarrow> ct_accounts s' = ct_accounts s \<Longrightarrow> set (ct_audit s) \<subseteq> set (ct_audit s') \<Longrightarrow> all_licensed s'"
  by (force simp: all_licensed_def)

lemma connector_step_inv:
  assumes "stores_keyed s" and "all_licensed s"
  shows "stores_keyed (connector_step x s) \<and> all_licensed (connector_step x s)"
proof (cases x)
  case (CoIdentity u1 u2 now name)
  with assms show ?thesis by (simp add: create_identity_def Let_def stores_keyed_def all_licensed_def)
next
  case (CoRegister u now e k p name)
  show ?thesis
  proof (cases rule: register_server_effect [of u now e k p name s])
    case same
    with assms CoRegister show ?thesis by simp
  next
    case (new server)
    with assms CoRegister show ?thesis by (simp add: stores_keyed_def all_licensed_def)
  qed
next
  case (CoBind u now agent i approval)
  show ?thesis
  proof (cases rule: bind_cases [of s i u now agent approval])
    case unknown
    with assms CoBind show ?thesis by simp
  next
    case (refused server reason outcome)
    with assms CoBind all_licensed_grow [OF assms(2)] show ?thesis by (simp add: stores_keyed_def)
  next
    case (bound server)
    let ?b = "\<lparr>ab_id = ServerAccountId (''binding-'' @ u), ab_agentos_id = agent, ab_server_id = i, ab_bound_at = now\<rparr>"
    have "sv_id server = i" using assms(1) bound(1) unfolding stores_keyed_def by (metis server_text_inject)
    with bound(2) have last: "licenses (last (ct_audit (connector_step x s))) ?b"
      unfolding trust_allows by (auto simp: CoBind bound(3) record_binding_audit_event_def licenses_def)
    have accounts: "ct_accounts (connector_step x s) = hm_put (account_text (ab_id ?b)) ?b (ct_accounts s)"
      and servers: "ct_servers (connector_step x s) = ct_servers s"
      and kept: "set (ct_audit s) \<subseteq> set (ct_audit (connector_step x s))"
      and new: "last (ct_audit (connector_step x s)) \<in> set (ct_audit (connector_step x s))"
      by (auto simp: CoBind bound(3) bind_record_def record_binding_audit_event_def)
    have "\<exists>e \<in> set (ct_audit (connector_step x s)). licenses e b" if "m_get (ct_accounts (connector_step x s)) k = Some b" for k b
    proof (cases "k = account_text (ab_id ?b)")
      case True
      with that last new show ?thesis unfolding accounts by auto
    next
      case False
      with that have "m_get (ct_accounts s) k = Some b" unfolding accounts by simp
      with assms(2) kept show ?thesis unfolding all_licensed_def by blast
    qed
    moreover have "stores_keyed (connector_step x s)"
      using assms(1) unfolding stores_keyed_def accounts servers by simp
    ultimately show ?thesis unfolding all_licensed_def by blast
  qed
next
  case (CoDisconnect i)
  have "hm_inv (ct_accounts (snd (disconnect_server i s)))"
    using assms(1) by (simp add: disconnect_server_def stores_keyed_def hm_inv_fold_unbind)
  moreover have "ct_audit (snd (disconnect_server i s)) = ct_audit s" by (simp add: disconnect_server_def)
  moreover have "m_get (ct_servers (snd (disconnect_server i s))) k = (if k = server_text i then None else m_get (ct_servers s) k)" for k
    by (auto simp: disconnect_server_def unregister_server_def)
  ultimately show ?thesis
    using assms
    by (auto simp: CoDisconnect stores_keyed_def all_licensed_def disconnect_accounts [OF assms(1)] split: option.splits if_splits)
qed

lemma connector_run_inv:
  "stores_keyed s \<Longrightarrow> all_licensed s \<Longrightarrow> stores_keyed (connector_run ops s) \<and> all_licensed (connector_run ops s)"
  by (induction ops arbitrary: s) (simp_all add: connector_step_inv)

text \<open>
  However identities are made, servers registered, accounts bound and servers
  disconnected, in any order: each binding that is held is licensed by an event of the audit
  trail, of the same agent and server, that says that the server was trusted, or that it was
  unverified and someone approved; a blocked server is never bound. And a server that has
  been disconnected is unknown and has no binding left, while no other binding is touched.
\<close>

lemma bindings_are_licensed:
  assumes "stores_keyed s" and "ct_accounts s = []" and "connector_run ops s = s'"
  shows "(\<forall>b. get_binding i (ct_accounts s') = Inr b \<longrightarrow> (\<exists>e \<in> set (ct_audit s'). licenses e b)) \<and>
    get_server j (ct_servers (snd (disconnect_server j s'))) = Inl (ServerNotFound (server_text j)) \<and>
    m_get (ct_accounts (snd (disconnect_server j s'))) k =
      (case m_get (ct_accounts s') k of None \<Rightarrow> None | Some b \<Rightarrow> if ab_server_id b = j then None else Some b)"
proof -
  have "all_licensed s" using assms(2) by (simp add: all_licensed_def m_get_def)
  with connector_run_inv [OF assms(1), of ops] assms(3) have inv: "stores_keyed s'" "all_licensed s'" by auto
  have "get_server j (ct_servers (snd (disconnect_server j s'))) = Inl (ServerNotFound (server_text j))"
    by (simp add: disconnect_server_def unregister_server_def get_server_def)
  with inv(2) disconnect_accounts [OF inv(1)] show ?thesis by (simp add: all_licensed_def get_binding_def ok_or_Inr_iff)
qed

definition example_ops :: "connector_op list" where
  "example_ops =
     [CoRegister ''1'' 0 ''https://x'' Official AllowAll ''x'', CoBind ''2'' 1 ''agent'' (ServerId ''server-1'') ApprovalNotRequired,
      CoBind ''3'' 2 ''agent'' (ServerId ''server-1'') (ApprovedBy ''admin'' ''known''),
      CoBind ''4'' 3 ''agent'' (ServerId ''server-9'') (ApprovedBy ''admin'' ''known'')]"

lemma bindings_are_licensed_witness:
  "let s' = connector_run example_ops with_memory_stores
   in \<exists>b. get_binding (ServerAccountId ''binding-3'') (ct_accounts s') = Inr b \<and> (\<exists>e \<in> set (ct_audit s'). licenses e b) \<and>
        m_get (ct_accounts (snd (disconnect_server (ServerId ''server-1'') s'))) ''binding-3'' = None"
proof -
  let ?s = "connector_run example_ops with_memory_stores"
  have start: "stores_keyed with_memory_stores" "ct_accounts with_memory_stores = []"
    by (simp_all add: stores_keyed_def with_memory_stores_def m_get_def)
  have held: "get_binding (ServerAccountId ''binding-3'') (ct_accounts ?s) =
      Inr \<lparr>ab_id = ServerAccountId ''binding-3'', ab_agentos_id = ''agent'', ab_server_id = ServerId ''server-1'', ab_bound_at = 2\<rparr>"
    by code_simp
  then have "m_get (ct_accounts ?s) ''binding-3'' =
      Some \<lparr>ab_id = ServerAccountId ''binding-3'', ab_agentos_id = ''agent'', ab_server_id = ServerId ''server-1'', ab_bound_at = 2\<rparr>"
    by (simp add: get_binding_def ok_or_Inr_iff)
  with held bindings_are_licensed [OF start refl, where ops = example_ops and i = "ServerAccountId ''binding-3''" and j = "ServerId ''server-1''"
      and k = "''binding-3''"]
  show ?thesis by (simp add: Let_def)
qed

section \<open>Smaller facts about connectors\<close>

text \<open>Anyone can answer a challenge of the runtime: it verifies with the provider that is meant for tests.\<close>

lemma any_challenge_can_be_forged: "runtime_verify_challenge challenge (''signed:'' @ challenge)"
  by (simp add: runtime_verify_challenge_def fake_verify_def)

lemma token_set_keeps_credentials:
  "from_oauth_token_set (to_oauth_token_set c) = c\<lparr>xc_scopes := normalize_scopes (xc_scopes c)\<rparr>"
  by (simp add: from_oauth_token_set_def to_oauth_token_set_def oauth_token_set_new_def option.map_comp comp_def option.map_ident)

lemma failed_refresh_keeps_credentials:
  "gmail_refresh_token K refresh now (g, w) = (Inl e, g', w') \<Longrightarrow> g' = g"
  by (auto simp: gmail_refresh_token_def split: option.splits prod.splits sum.splits)

text \<open>A delay is bounded by the configuration unless the service names one, which is taken as it is.\<close>

lemma gmail_delay_bounded:
  "gmail_decide cfg e attempt = GmRetry c d after \<Longrightarrow>
   attempt < gc_max_attempts cfg \<and> (if after = None then d \<le> gc_max_delay_ms cfg else after = Some d \<and> (\<exists>n. e = RateLimited n))"
  by (auto simp: gmail_decide_def Let_def split: if_splits external_connector_error.splits)

text \<open>The class of an error depends on the identifier of the thread that was asked for.\<close>

lemma thread_name_decides_retry:
  "let g = gmail_connector_new (external_credentials_new ''t'') gmail_config_default :: unit gmail_connector
   in classify_gmail_provider_error (gmail_get_resource 0 g XEmailThread ''18c4'') = GmUnknown \<and>
      classify_gmail_provider_error (gmail_get_resource 0 g XEmailThread ''18c500'') = GmTransientProvider"
  by code_simp

lemma query_can_name_labels:
  "build_list_threads_url (gmail_config_default\<lparr>gg_query_filter := Some ''a&labelIds=SPAM'', gg_label_ids := []\<rparr>) None None =
   build_list_threads_url (gmail_config_default\<lparr>gg_query_filter := Some ''a'', gg_label_ids := [''SPAM'']\<rparr>) None None"
  by code_simp

end
