(* ===== verification/Tables.thy ===== *)
theory Tables
  imports Prelude Utf8 "HOL-Library.Multiset"
begin

text \<open>
  Listings of the tables in memory: the values of a hash table in the order of a ranking,
  and tables whose keys are a prefix and the number of the entry, as in \<open>question-3\<close>.
\<close>

section \<open>Ranked lists\<close>

text \<open>\<open>sort_by\<close> with a comparison; \<open>le x y\<close> means that \<open>x\<close> may stand before \<open>y\<close>.\<close>

fun insert_ranked :: "('a \<Rightarrow> 'a \<Rightarrow> bool) \<Rightarrow> 'a \<Rightarrow> 'a list \<Rightarrow> 'a list" where
  "insert_ranked le x [] = [x]"
| "insert_ranked le x (y # ys) = (if le x y then x # y # ys else y # insert_ranked le x ys)"

definition sort_ranked :: "('a \<Rightarrow> 'a \<Rightarrow> bool) \<Rightarrow> 'a list \<Rightarrow> 'a list" where
  "sort_ranked le xs = foldr (insert_ranked le) xs []"

lemma sort_ranked_simps [simp]:
  "sort_ranked le [] = []"
  "sort_ranked le (x # xs) = insert_ranked le x (sort_ranked le xs)"
  by (simp_all add: sort_ranked_def)

lemma mset_insert_ranked [simp]: "mset (insert_ranked le x ys) = {#x#} + mset ys"
  by (induction ys) simp_all

lemma mset_sort_ranked [simp]: "mset (sort_ranked le xs) = mset xs"
  by (induction xs) simp_all

lemma set_sort_ranked [simp]: "set (sort_ranked le xs) = set xs"
  by (metis mset_sort_ranked set_mset_mset)

lemma length_sort_ranked [simp]: "length (sort_ranked le xs) = length xs"
  by (metis mset_sort_ranked size_mset)

lemma distinct_sort_ranked [simp]: "distinct (map f (sort_ranked le xs)) = distinct (map f xs)"
  by (metis mset_sort_ranked mset_map mset_eq_imp_distinct_iff)

lemma distinct_take_ranked: "distinct (map f xs) \<Longrightarrow> distinct (map f (take n (sort_ranked le xs)))"
  by (simp add: distinct_take flip: take_map)

locale ranking =
  fixes le :: "'a \<Rightarrow> 'a \<Rightarrow> bool"
  assumes total: "le x y \<or> le y x"
    and trans: "le x y \<Longrightarrow> le y z \<Longrightarrow> le x z"
begin

lemma insert_ranked_sorted: "sorted_wrt le ys \<Longrightarrow> sorted_wrt le (insert_ranked le x ys)"
proof (induction ys)
  case Nil
  then show ?case by simp
next
  case (Cons y ys)
  show ?case
  proof (cases "le x y")
    case True
    with Cons.prems trans show ?thesis by auto
  next
    case False
    then have "le y x" using total by blast
    moreover have "set (insert_ranked le x ys) = insert x (set ys)"
      by (metis mset_insert_ranked set_mset_add_mset_insert set_mset_mset add_mset_add_single union_commute)
    ultimately show ?thesis using Cons False by auto
  qed
qed

lemma sort_ranked_sorted: "sorted_wrt le (sort_ranked le xs)"
  by (induction xs) (simp_all add: insert_ranked_sorted)

text \<open>The first elements of a ranked list rank before all others.\<close>

lemma take_ranked:
  "x \<in> set (take n (sort_ranked le xs)) \<Longrightarrow> y \<in> set xs \<Longrightarrow> y \<notin> set (take n (sort_ranked le xs)) \<Longrightarrow> le x y"
proof -
  assume x: "x \<in> set (take n (sort_ranked le xs))" and y: "y \<in> set xs" "y \<notin> set (take n (sort_ranked le xs))"
  have "sorted_wrt le (take n (sort_ranked le xs) @ drop n (sort_ranked le xs))"
    using sort_ranked_sorted by simp
  moreover have "y \<in> set (drop n (sort_ranked le xs))"
    using y by (metis Un_iff append_take_drop_id set_append set_sort_ranked)
  ultimately show "le x y" using x unfolding sorted_wrt_append by blast
qed

text \<open>Where elements that rank alike are equal, the order of the table does not show.\<close>

lemma ranked_unique:
  assumes "mset xs = mset ys" and "\<And>x y. x \<in> set xs \<Longrightarrow> y \<in> set xs \<Longrightarrow> le x y \<Longrightarrow> le y x \<Longrightarrow> x = y"
  shows "sort_ranked le xs = sort_ranked le ys"
proof -
  have unique: "us = vs" if "sorted_wrt le us" "sorted_wrt le vs" "mset us = mset vs"
    "\<And>x y. x \<in> set us \<Longrightarrow> y \<in> set us \<Longrightarrow> le x y \<Longrightarrow> le y x \<Longrightarrow> x = y" for us vs
    using that
  proof (induction us arbitrary: vs)
    case Nil
    then show ?case by simp
  next
    case (Cons u us)
    then obtain v vs' where vs: "vs = v # vs'" by (cases vs) auto
    have same: "set (u # us) = set (v # vs')" using Cons.prems(3) vs by (metis set_mset_mset)
    have "le u v" using Cons.prems(1) same total [of u u] by (cases "u = v") auto
    moreover have "le v u" using Cons.prems(2) vs same total [of u u] by (cases "u = v") auto
    ultimately have "u = v" using Cons.prems(4) same by (metis list.set_intros(1))
    with Cons vs show ?case by simp
  qed
  show ?thesis
    by (rule unique) (use assms in \<open>simp_all add: sort_ranked_sorted\<close>)
qed

end

text \<open>Ranking by the text of an identifier alone.\<close>

definition by_text :: "('a \<Rightarrow> string) \<Rightarrow> 'a \<Rightarrow> 'a \<Rightarrow> bool" where
  "by_text f x y \<longleftrightarrow> f x \<le> f y"

interpretation text_rank: ranking "by_text f" for f
  by unfold_locales (auto simp: by_text_def)

text \<open>Ranking by a score, the highest first, and by the text of an identifier where it is equal.\<close>

definition by_score :: "('a \<Rightarrow> 'f :: linorder) \<Rightarrow> ('a \<Rightarrow> string) \<Rightarrow> 'a \<Rightarrow> 'a \<Rightarrow> bool" where
  "by_score g f x y \<longleftrightarrow> g y < g x \<or> g x = g y \<and> f x \<le> f y"

interpretation score_rank: ranking "by_score g f" for g f
  by unfold_locales (auto simp: by_score_def)

lemma by_score_antisym: "by_score g f x y \<Longrightarrow> by_score g f y x \<Longrightarrow> f x = f y"
  by (auto simp: by_score_def)

section \<open>Tables with the same contents\<close>

lemma same_values:
  assumes "hm_inv m" and "hm_inv m'" and "\<And>k. m_get m k = m_get m' k"
  shows "mset (m_values m) = mset (m_values m')"
proof -
  have entry: "p \<in> set m \<longleftrightarrow> m_get m (fst p) = Some (snd p)" if "hm_inv m" for p and m :: "('a, 'b) hmap"
    using that by (cases p) (simp add: m_get_def hm_inv_def map_of_eq_Some_iff)
  have "set m = set m'"
    by (rule set_eqI) (simp only: entry [OF assms(1)] entry [OF assms(2)] assms(3))
  moreover have "distinct m" and "distinct m'" using assms(1,2) by (auto simp: hm_inv_def distinct_map)
  ultimately have "mset m = mset m'" by (simp add: set_eq_iff_mset_eq_distinct)
  then show ?thesis by (simp add: m_values_def)
qed

section \<open>Numbered tables\<close>

lemma decimal_digit: "decimal n \<noteq> []"
  by (subst decimal.simps) simp

lemma decimal_inject [simp]: "decimal m = decimal n \<longleftrightarrow> m = n"
proof (induction m arbitrary: n rule: less_induct)
  case (less m)
  have digit: "char_of (48 + a) = (char_of (48 + b) :: char) \<longleftrightarrow> a = b" if "a < 10" "b < 10" for a b :: nat
  proof -
    have "of_char (char_of (48 + k) :: char) = 48 + k" if "k < 10" for k :: nat
      using that by (simp add: of_char_of take_bit_eq_mod)
    then show ?thesis using that by (metis add_left_cancel)
  qed
  show ?case
  proof (cases "m < 10 \<or> n < 10")
    case True
    then show ?thesis
      using decimal_digit decimal_digit [symmetric] by (subst (1 2) decimal.simps) (auto simp: digit)
  next
    case False
    then have "decimal m = decimal n \<longleftrightarrow> m div 10 = n div 10 \<and> m mod 10 = n mod 10"
      using less.IH [of "m div 10"] by (subst (1 2) decimal.simps) (auto simp: digit)
    then show ?thesis by (metis mult_div_mod_eq)
  qed
qed

text \<open>
  A table whose next entry gets the number of its entries plus one as its name. Nothing is
  ever removed, so every name is new and names an entry for good.
\<close>

definition numbered :: "(nat \<Rightarrow> 'k) \<Rightarrow> ('k, 'v) hmap \<Rightarrow> bool" where
  "numbered name m \<longleftrightarrow> map fst m = map name [1..<length m + 1]"

locale numbered_table =
  fixes name :: "nat \<Rightarrow> 'k"
  assumes name_inject: "name i = name j \<Longrightarrow> i = j"
begin

lemma numbered_Nil: "numbered name []"
  by (simp add: numbered_def)

lemma numbered_inv: "numbered name m \<Longrightarrow> hm_inv m"
  by (simp add: numbered_def hm_inv_def distinct_map inj_on_def name_inject)

lemma next_fresh: "numbered name m \<Longrightarrow> name (length m + 1) \<notin> fst ` set m"
proof
  assume "numbered name m" and "name (length m + 1) \<in> fst ` set m"
  then have "name (length m + 1) \<in> set (map name [1..<length m + 1])" by (metis list.set_map numbered_def)
  then show False using name_inject by fastforce
qed

lemma put_fresh: "k \<notin> fst ` set m \<Longrightarrow> hm_put k v m = m @ [(k, v)]"
  by (induction m) auto

lemma put_next: "numbered name m \<Longrightarrow> hm_put (name (length m + 1)) v m = m @ [(name (length m + 1), v)]"
  by (rule put_fresh [OF next_fresh])

lemma numbered_snoc: "numbered name m \<Longrightarrow> numbered name (m @ [(name (length m + 1), v)])"
  by (simp add: numbered_def)

lemma numbered_put: "numbered name m \<Longrightarrow> numbered name (hm_put (name (length m + 1)) v m)"
  using put_next [of m v] by (metis (no_types, lifting) numbered_snoc)

lemma numbered_modify: "numbered name m \<Longrightarrow> numbered name (m_modify k f m)"
proof -
  have keys: "map fst (m_modify k f m) = map fst m" by (induction m) auto
  from keys have "length (m_modify k f m) = length m" by (metis length_map)
  with keys show "numbered name m \<Longrightarrow> numbered name (m_modify k f m)" by (simp add: numbered_def)
qed

lemma get_next: "numbered name m \<Longrightarrow> m_get m (name (length m + 1)) = None"
  using next_fresh by (auto simp: m_get_def map_of_eq_None_iff)

end

end
