(* ===== verification/Knowledge_Index.thy ===== *)
theory Knowledge_Index
  imports Tables Model_Types Registries Permissions Action_Runtime
begin
text \<open>
  The knowledge index of \<open>knowledge-entity/src/lib.rs\<close>: full-text search, semantic search by
  embeddings, their fusion, and search under permissions. The arithmetic of \<open>f32\<close> is a
  parameter over a linear order of scores that are not NaN; the text form of a JSON value is
  one too. A hash table is its list of entries.
\<close>

section \<open>Entries and queries\<close>

datatype (plugins only: code size) knowledge_entry_id = KnowledgeEntryId string

fun entry_text :: "knowledge_entry_id \<Rightarrow> string" where
  "entry_text (KnowledgeEntryId s) = s"

record knowledge_entry_ref =
  ke_id :: knowledge_entry_id
  ke_title :: string
  ke_source_uri :: "string option"
  ke_artifact_id :: "artifact_id option"
  ke_asset_id :: "asset_id option"
  ke_created_at :: datetime

record 'f knowledge_search_result =
  kr_entry :: knowledge_entry_ref
  kr_score :: 'f
  kr_snippet :: "string option"
  kr_permission_required :: bool
  kr_confidentiality :: "string option"

record full_text_query =
  fq_text :: string
  fq_tags :: "string list"
  fq_metadata_filters :: "(string \<times> string) list"
  fq_limit :: nat

definition full_text_query_new :: "string \<Rightarrow> full_text_query" where
  "full_text_query_new t = \<lparr>fq_text = t, fq_tags = [], fq_metadata_filters = [], fq_limit = 10\<rparr>"

record index_document =
  id_entry :: knowledge_entry_ref
  id_body :: string
  id_tags :: "string list"
  id_metadata :: json

record 'f semantic_query =
  sq_embedding :: "'f list"
  sq_tags :: "string list"
  sq_metadata_filters :: "(string \<times> string) list"
  sq_limit :: nat

record 'f embedding_document =
  ed_entry :: knowledge_entry_ref
  ed_embedding :: "'f list"
  ed_tags :: "string list"
  ed_metadata :: json

record rebuild_report =
  rb_indexed_count :: nat
  rb_deleted_count :: nat
  rb_rebuilt_at :: datetime

datatype (plugins only: code size) knowledge_index_error =
    IndexLockPoisoned | InvalidQuery string | InvalidEmbedding string | DimensionMismatch nat nat

text \<open>What the code uses of \<open>f32\<close>.\<close>

record 'f float_ops =
  fl_of_nat :: "nat \<Rightarrow> 'f"
  fl_add :: "'f \<Rightarrow> 'f \<Rightarrow> 'f"
  fl_mul :: "'f \<Rightarrow> 'f \<Rightarrow> 'f"
  fl_div :: "'f \<Rightarrow> 'f \<Rightarrow> 'f"
  fl_sqrt :: "'f \<Rightarrow> 'f"
  fl_is_finite :: "'f \<Rightarrow> bool"

definition embedding_vector_new :: "'f float_ops \<Rightarrow> 'f list \<Rightarrow> knowledge_index_error + 'f list" where
  "embedding_vector_new F vs =
     (if vs = [] then Inl (InvalidEmbedding ''knowledge embedding vector must not be empty'')
      else if list_ex (\<lambda>v. \<not> fl_is_finite F v) vs then Inl (InvalidEmbedding ''knowledge embedding vector values must be finite'')
      else Inr vs)"

section \<open>Full text\<close>

record term_weights =
  tw_title :: nat
  tw_body :: nat
  tw_tags :: nat
  tw_metadata :: nat

definition term_weights_default :: term_weights where
  "term_weights_default = \<lparr>tw_title = 4, tw_body = 2, tw_tags = 3, tw_metadata = 1\<rparr>"

type_synonym document_table = "(knowledge_entry_id, index_document) hmap"

definition query_terms :: "string \<Rightarrow> string list" where
  "query_terms t = filter (\<lambda>w. w \<noteq> []) (map trim (split_whitespace (to_ascii_lowercase t)))"

definition indexed_text :: "(json \<Rightarrow> string) \<Rightarrow> index_document \<Rightarrow> string" where
  "indexed_text show d =
     to_ascii_lowercase (ke_title (id_entry d) @ [CHR 0x0A] @ id_body d @ [CHR 0x0A] @ join_with '' '' (id_tags d) @ [CHR 0x0A] @ show (id_metadata d))"

definition has_tags :: "string list \<Rightarrow> string list \<Rightarrow> bool" where
  "has_tags wanted tags \<longleftrightarrow> list_all (\<lambda>t. t \<in> set tags) wanted"

definition has_metadata :: "(string \<times> string) list \<Rightarrow> json \<Rightarrow> bool" where
  "has_metadata filters meta \<longleftrightarrow>
     list_all (\<lambda>(k, v). (case Option.bind (json_get k meta) json_as_str of Some c \<Rightarrow> c = v | None \<Rightarrow> False)) filters"

definition full_text_matches :: "(json \<Rightarrow> string) \<Rightarrow> full_text_query \<Rightarrow> index_document \<Rightarrow> bool" where
  "full_text_matches show q d \<longleftrightarrow>
     (query_terms (fq_text q) = [] \<or> list_all (\<lambda>w. contains_str (indexed_text show d) w) (query_terms (fq_text q))) \<and>
     has_tags (fq_tags q) (id_tags d) \<and> has_metadata (fq_metadata_filters q) (id_metadata d)"

definition weighted_contains :: "'f float_ops \<Rightarrow> string \<Rightarrow> string \<Rightarrow> nat \<Rightarrow> 'f" where
  "weighted_contains F t w k = fl_of_nat F (if contains_str t w then k else 0)"

definition full_text_score :: "'f float_ops \<Rightarrow> (json \<Rightarrow> string) \<Rightarrow> term_weights \<Rightarrow> full_text_query \<Rightarrow> index_document \<Rightarrow> 'f" where
  "full_text_score F show weights q d =
     (let title = to_ascii_lowercase (ke_title (id_entry d));
          body = to_ascii_lowercase (id_body d);
          tags = to_ascii_lowercase (join_with '' '' (id_tags d));
          metadata = to_ascii_lowercase (show (id_metadata d))
      in fold (\<lambda>w score.
           fl_add F (fl_add F (fl_add F (fl_add F score (weighted_contains F title w (tw_title weights)))
             (weighted_contains F body w (tw_body weights))) (weighted_contains F tags w (tw_tags weights)))
             (weighted_contains F metadata w (tw_metadata weights)))
         (query_terms (fq_text q)) (fl_of_nat F 0))"

definition upsert_document :: "index_document \<Rightarrow> document_table \<Rightarrow> document_table" where
  "upsert_document d = hm_put (ke_id (id_entry d)) d"

definition delete_document :: "knowledge_entry_id \<Rightarrow> document_table \<Rightarrow> document_table" where
  "delete_document i = m_remove i"

abbreviation result_rank :: "'f :: linorder knowledge_search_result \<Rightarrow> 'f knowledge_search_result \<Rightarrow> bool" where
  "result_rank \<equiv> by_score kr_score (\<lambda>r. entry_text (ke_id (kr_entry r)))"

definition full_text_search ::
    "('f :: linorder) float_ops \<Rightarrow> (json \<Rightarrow> string) \<Rightarrow> document_table \<Rightarrow> full_text_query \<Rightarrow>
     knowledge_index_error + 'f knowledge_search_result list" where
  "full_text_search F show m q =
     (if fq_limit q = 0 then Inl (InvalidQuery ''knowledge full-text query limit must be greater than zero'')
      else Inr (take (fq_limit q) (sort_ranked result_rank
        (map (\<lambda>d. \<lparr>kr_entry = id_entry d, kr_score = full_text_score F show term_weights_default q d,
                   kr_snippet = Some (take_chars 160 (id_body d)), kr_permission_required = False, kr_confidentiality = None\<rparr>)
           (filter (full_text_matches show q) (m_values m))))))"

definition rebuild_documents :: "index_document list \<Rightarrow> datetime \<Rightarrow> document_table \<Rightarrow> rebuild_report \<times> document_table" where
  "rebuild_documents ds at m =
     (let m' = fold upsert_document ds []
      in (\<lparr>rb_indexed_count = length m', rb_deleted_count = length m, rb_rebuilt_at = at\<rparr>, m'))"

section \<open>Embeddings\<close>

type_synonym 'f embedding_table = "(knowledge_entry_id, 'f embedding_document) hmap"

definition semantic_matches :: "'f semantic_query \<Rightarrow> 'f embedding_document \<Rightarrow> bool" where
  "semantic_matches q d \<longleftrightarrow> has_tags (sq_tags q) (ed_tags d) \<and> has_metadata (sq_metadata_filters q) (ed_metadata d)"

definition cosine_similarity :: "'f float_ops \<Rightarrow> 'f list \<Rightarrow> 'f list \<Rightarrow> knowledge_index_error + 'f" where
  "cosine_similarity F left right =
     (if length left \<noteq> length right then Inl (DimensionMismatch (length left) (length right))
      else
        let zero = fl_of_nat F 0;
            (d, l, r) = fold (\<lambda>(x, y) (d, l, r).
              (fl_add F d (fl_mul F x y), fl_add F l (fl_mul F x x), fl_add F r (fl_mul F y y))) (zip left right) (zero, zero, zero)
        in Inr (if l = zero \<or> r = zero then zero else fl_div F d (fl_mul F (fl_sqrt F l) (fl_sqrt F r))))"

definition upsert_embedding :: "'f embedding_document \<Rightarrow> ('f embedding_table, knowledge_index_error, unit) prog" where
  "upsert_embedding d m =
     (case m_values m of
        existing # _ \<Rightarrow>
          if length (ed_embedding existing) \<noteq> length (ed_embedding d)
          then (Inl (DimensionMismatch (length (ed_embedding existing)) (length (ed_embedding d))), m)
          else (Inr (), hm_put (ke_id (ed_entry d)) d m)
      | [] \<Rightarrow> (Inr (), hm_put (ke_id (ed_entry d)) d m))"

definition delete_embedding :: "knowledge_entry_id \<Rightarrow> 'f embedding_table \<Rightarrow> 'f embedding_table" where
  "delete_embedding i = m_remove i"

fun semantic_results ::
    "'f float_ops \<Rightarrow> 'f semantic_query \<Rightarrow> 'f embedding_document list \<Rightarrow> knowledge_index_error + 'f knowledge_search_result list" where
  "semantic_results F q [] = Inr []"
| "semantic_results F q (d # ds) =
     bind_result (cosine_similarity F (ed_embedding d) (sq_embedding q)) (\<lambda>score.
     bind_result (semantic_results F q ds) (\<lambda>rs.
     Inr (\<lparr>kr_entry = ed_entry d, kr_score = score, kr_snippet = None, kr_permission_required = False, kr_confidentiality = None\<rparr> # rs)))"

definition semantic_search ::
    "('f :: linorder) float_ops \<Rightarrow> 'f embedding_table \<Rightarrow> 'f semantic_query \<Rightarrow> knowledge_index_error + 'f knowledge_search_result list" where
  "semantic_search F m q =
     (if sq_limit q = 0 then Inl (InvalidQuery ''knowledge semantic query limit must be greater than zero'')
      else bind_result (semantic_results F q (filter (semantic_matches q) (m_values m))) (\<lambda>rs.
        Inr (take (sq_limit q) (sort_ranked result_rank rs))))"

definition rebuild_embeddings ::
    "'f embedding_document list \<Rightarrow> datetime \<Rightarrow> ('f embedding_table, knowledge_index_error, rebuild_report) prog" where
  "rebuild_embeddings ds at m =
     (let expected = (case ds of [] \<Rightarrow> 0 | d # _ \<Rightarrow> length (ed_embedding d)) in
      case find (\<lambda>d. length (ed_embedding d) \<noteq> expected) ds of
        Some d \<Rightarrow> (Inl (DimensionMismatch expected (length (ed_embedding d))), m)
      | None \<Rightarrow>
          (let m' = fold (\<lambda>d. hm_put (ke_id (ed_entry d)) d) ds []
           in (Inr \<lparr>rb_indexed_count = length m', rb_deleted_count = length m, rb_rebuilt_at = at\<rparr>, m')))"

section \<open>Hybrid search\<close>

record 'f hybrid_weights =
  hw_full_text :: 'f
  hw_semantic :: 'f

datatype (plugins only: code size) rerank_mode = RerankDisabled | DeterministicHook

record 'f hybrid_query =
  hq_full_text :: full_text_query
  hq_semantic :: "'f semantic_query"
  hq_weights :: "'f hybrid_weights"
  hq_limit :: nat
  hq_rerank :: rerank_mode

record 'f hybrid_result =
  hr_entry :: knowledge_entry_ref
  hr_fused_score :: 'f
  hr_full_text_score :: "'f option"
  hr_semantic_score :: "'f option"
  hr_snippet :: "string option"

definition merge_full_text :: "'f float_ops \<Rightarrow> 'f \<Rightarrow> 'f knowledge_search_result \<Rightarrow> (knowledge_entry_id, 'f hybrid_result) hmap \<Rightarrow>
    (knowledge_entry_id, 'f hybrid_result) hmap" where
  "merge_full_text F w r =
     hm_put (ke_id (kr_entry r)) \<lparr>hr_entry = kr_entry r, hr_fused_score = fl_mul F w (kr_score r), hr_full_text_score = Some (kr_score r),
       hr_semantic_score = None, hr_snippet = kr_snippet r\<rparr>"

definition merge_semantic :: "'f float_ops \<Rightarrow> 'f \<Rightarrow> 'f knowledge_search_result \<Rightarrow> (knowledge_entry_id, 'f hybrid_result) hmap \<Rightarrow>
    (knowledge_entry_id, 'f hybrid_result) hmap" where
  "merge_semantic F w r m =
     (let i = ke_id (kr_entry r) in
      if m_contains m i
      then m_modify i (\<lambda>x. x\<lparr>hr_semantic_score := Some (kr_score r), hr_fused_score := fl_add F (hr_fused_score x) (fl_mul F w (kr_score r)),
             hr_snippet := (case hr_snippet x of None \<Rightarrow> kr_snippet r | Some s \<Rightarrow> Some s)\<rparr>) m
      else hm_put i \<lparr>hr_entry = kr_entry r, hr_fused_score = fl_mul F w (kr_score r), hr_full_text_score = None,
             hr_semantic_score = Some (kr_score r), hr_snippet = kr_snippet r\<rparr> m)"

abbreviation hybrid_rank :: "'f :: linorder hybrid_result \<Rightarrow> 'f hybrid_result \<Rightarrow> bool" where
  "hybrid_rank \<equiv> by_score hr_fused_score (\<lambda>r. entry_text (ke_id (hr_entry r)))"

text \<open>Both indexes are asked with the limit of the hybrid query; the reranker comes last, whatever
  mode the query names.\<close>

definition hybrid_search ::
    "('f :: linorder) float_ops \<Rightarrow> (full_text_query \<Rightarrow> knowledge_index_error + 'f knowledge_search_result list) \<Rightarrow>
     ('f semantic_query \<Rightarrow> knowledge_index_error + 'f knowledge_search_result list) \<Rightarrow>
     ('f hybrid_result list \<Rightarrow> 'f hybrid_result list) \<Rightarrow> 'f hybrid_query \<Rightarrow> knowledge_index_error + 'f hybrid_result list" where
  "hybrid_search F full_text semantic rerank q =
     (if hq_limit q = 0 then Inl (InvalidQuery ''knowledge hybrid query limit must be greater than zero'')
      else
        bind_result (full_text ((hq_full_text q)\<lparr>fq_limit := hq_limit q\<rparr>)) (\<lambda>fs.
        bind_result (semantic ((hq_semantic q)\<lparr>sq_limit := hq_limit q\<rparr>)) (\<lambda>ss.
        (let m = fold (merge_semantic F (hw_semantic (hq_weights q))) ss (fold (merge_full_text F (hw_full_text (hq_weights q))) fs []);
             ranked = take (hq_limit q) (sort_ranked hybrid_rank (m_values m))
         in Inr (take (hq_limit q) (rerank ranked))))))"

section \<open>Search under permissions\<close>

definition entry_query :: "knowledge_entry_id \<Rightarrow> instant \<Rightarrow> permission_query" where
  "entry_query i now =
     \<lparr>pq_resource_type = ResKnowledgeBase, pq_resource_id = ResourceId (entry_text i), pq_action = PermRead, pq_now = now\<rparr>"

text \<open>The clock is read for every result; here it stands still during one search.\<close>

definition query_with_permissions ::
    "(full_text_query \<Rightarrow> knowledge_index_error + 'f knowledge_search_result list) \<Rightarrow> permission_store \<Rightarrow> instant \<Rightarrow>
     full_text_query \<Rightarrow> enterprise_user_id \<Rightarrow> knowledge_index_error + 'f knowledge_search_result list" where
  "query_with_permissions index store now q u =
     (if \<not> lifecycle_is_active (get_user_lifecycle store u) then Inr []
      else bind_result (index q) (\<lambda>rs.
        Inr (filter (\<lambda>r. decision_is_allowed (check store u (entry_query (ke_id (kr_entry r)) now))) rs)))"

section \<open>The order of the table does not show\<close>

definition documents_keyed :: "document_table \<Rightarrow> bool" where
  "documents_keyed m \<longleftrightarrow> hm_inv m \<and> (\<forall>k d. m_get m k = Some d \<longrightarrow> ke_id (id_entry d) = k)"

lemma entry_text_inject [simp]: "entry_text i = entry_text j \<longleftrightarrow> i = j"
  by (cases i; cases j) simp

lemma documents_keyed_ops [simp]:
  "documents_keyed []"
  "documents_keyed m \<Longrightarrow> documents_keyed (upsert_document d m)"
  "documents_keyed m \<Longrightarrow> documents_keyed (delete_document i m)"
  by (auto simp: documents_keyed_def upsert_document_def delete_document_def split: if_splits)

lemma documents_keyed_rebuild [simp]: "documents_keyed (snd (rebuild_documents ds at m))"
proof -
  have "documents_keyed (fold upsert_document ds m)" if "documents_keyed m" for m
    using that by (induction ds arbitrary: m) simp_all
  then show ?thesis by (simp add: rebuild_documents_def Let_def)
qed

lemma keyed_entries_distinct:
  assumes "documents_keyed m"
  shows "distinct (map (\<lambda>d. ke_id (id_entry d)) (m_values m))"
proof -
  have "ke_id (id_entry (snd p)) = fst p" if "p \<in> set m" for p
    using assms in_set_m_get [of m "fst p" "snd p"] that by (simp add: documents_keyed_def)
  then have "map (\<lambda>d. ke_id (id_entry d)) (m_values m) = map fst m"
    by (simp add: m_values_def)
  with assms show ?thesis by (simp add: documents_keyed_def hm_inv_def)
qed

abbreviation hit ::
    "'f float_ops \<Rightarrow> (json \<Rightarrow> string) \<Rightarrow> full_text_query \<Rightarrow> index_document \<Rightarrow> 'f knowledge_search_result" where
  "hit F show q d \<equiv> \<lparr>kr_entry = id_entry d, kr_score = full_text_score F show term_weights_default q d,
     kr_snippet = Some (take_chars 160 (id_body d)), kr_permission_required = False, kr_confidentiality = None\<rparr>"

lemma hits_rank_apart:
  assumes "distinct (map (\<lambda>d. ke_id (id_entry d)) ds)" and "r \<in> set (map (hit F show q) ds)" and "r' \<in> set (map (hit F show q) ds)"
    and "result_rank r r'" and "result_rank r' r"
  shows "r = r'"
proof -
  obtain d d' where d: "d \<in> set ds" "r = hit F show q d" "d' \<in> set ds" "r' = hit F show q d'" using assms(2,3) by auto
  have "ke_id (id_entry d) = ke_id (id_entry d')"
    using by_score_antisym [OF assms(4,5)] d by simp
  with d assms(1) have "d = d'" by (auto simp: distinct_map inj_on_def)
  with d show ?thesis by simp
qed

text \<open>
  The answer of the full-text index depends on the documents it holds and not on how its
  hash table walks them: two tables with the same documents answer every query alike.
\<close>

lemma index_answers_deterministically:
  assumes "documents_keyed m" and "documents_keyed m'" and "\<And>k. m_get m k = m_get m' k"
  shows "full_text_search F show m q = full_text_search F show m' q"
proof -
  let ?ds = "filter (full_text_matches show q) (m_values m)" and ?ds' = "filter (full_text_matches show q) (m_values m')"
  have "mset (m_values m) = mset (m_values m')"
    using same_values [of m m'] assms by (simp add: documents_keyed_def)
  then have "mset (map (hit F show q) ?ds) = mset (map (hit F show q) ?ds')" by (simp only: mset_map mset_filter)
  moreover have "distinct (map (\<lambda>d. ke_id (id_entry d)) ?ds)"
    using keyed_entries_distinct [OF assms(1)] by (simp add: distinct_map_filter)
  ultimately have "sort_ranked result_rank (map (hit F show q) ?ds) = sort_ranked result_rank (map (hit F show q) ?ds')"
    by (intro score_rank.ranked_unique hits_rank_apart)
  then show ?thesis unfolding full_text_search_def by simp
qed

text \<open>What a full-text search returns: the best of the documents that match, each once.\<close>

lemma full_text_search_best:
  assumes "documents_keyed m" and "full_text_search F show m q = Inr rs"
  shows "length rs = min (fq_limit q) (length (filter (full_text_matches show q) (m_values m)))"
    and "sorted_wrt result_rank rs" and "distinct (map (\<lambda>r. ke_id (kr_entry r)) rs)"
    and "d \<in> set (m_values m) \<Longrightarrow> full_text_matches show q d \<Longrightarrow> r \<in> set rs \<Longrightarrow> hit F show q d \<notin> set rs \<Longrightarrow>
      result_rank r (hit F show q d)"
proof -
  let ?hits = "map (hit F show q) (filter (full_text_matches show q) (m_values m))"
  have rs: "rs = take (fq_limit q) (sort_ranked result_rank ?hits)"
    using assms(2) by (simp add: full_text_search_def split: if_splits)
  show "length rs = min (fq_limit q) (length (filter (full_text_matches show q) (m_values m)))"
    unfolding rs by simp
  show "sorted_wrt result_rank rs"
    unfolding rs by (rule sorted_wrt_take [OF score_rank.sort_ranked_sorted])
  have "distinct (map (\<lambda>r. ke_id (kr_entry r)) ?hits)"
    using keyed_entries_distinct [OF assms(1)] by (simp add: comp_def distinct_map_filter)
  then show "distinct (map (\<lambda>r. ke_id (kr_entry r)) rs)"
    unfolding rs by (rule distinct_take_ranked)
  show "d \<in> set (m_values m) \<Longrightarrow> full_text_matches show q d \<Longrightarrow> r \<in> set rs \<Longrightarrow> hit F show q d \<notin> set rs \<Longrightarrow>
      result_rank r (hit F show q d)"
    unfolding rs by (rule score_rank.take_ranked [where xs = ?hits]) auto
qed

section \<open>Embeddings of one dimension\<close>

definition one_dimension :: "'f embedding_table \<Rightarrow> bool" where
  "one_dimension m \<longleftrightarrow> list_all (\<lambda>d. length (ed_embedding d) = length (ed_embedding (hd (m_values m)))) (m_values m)"

abbreviation dimension_is :: "nat \<Rightarrow> 'f embedding_document set \<Rightarrow> bool" where
  "dimension_is n ds \<equiv> (\<forall>d \<in> ds. length (ed_embedding d) = n)"

lemma one_dimension_iff: "one_dimension m \<longleftrightarrow> (\<exists>n. dimension_is n (set (m_values m)))"
proof
  show "one_dimension m \<Longrightarrow> \<exists>n. dimension_is n (set (m_values m))"
    unfolding one_dimension_def list_all_iff by blast
  assume "\<exists>n. dimension_is n (set (m_values m))"
  then obtain n where n: "dimension_is n (set (m_values m))" ..
  show "one_dimension m"
  proof (cases "m_values m")
    case (Cons e es)
    with n have "length (ed_embedding e) = n" by simp
    with n Cons show ?thesis by (simp add: one_dimension_def list_all_iff)
  qed (simp add: one_dimension_def)
qed

lemma dimension_mono: "dimension_is n A \<Longrightarrow> B \<subseteq> A \<Longrightarrow> dimension_is n B"
  by blast

lemma values_put: "set (m_values (hm_put k v m)) \<subseteq> insert v (set (m_values m))"
  by (induction k v m rule: hm_put.induct) (auto simp: m_values_def)

lemma values_remove: "set (m_values (m_remove k m)) \<subseteq> set (m_values m)"
  by (auto simp: m_values_def m_remove_def)

lemma values_fold_put: "set (m_values (fold (\<lambda>d. hm_put (f d) d) ds m)) \<subseteq> set ds \<union> set (m_values m)"
proof (induction ds arbitrary: m)
  case (Cons d ds)
  from Cons.IH [of "hm_put (f d) d m"] values_put [of "f d" d m] show ?case by auto
qed simp

lemma one_dimension_upsert: "one_dimension m \<Longrightarrow> one_dimension (snd (upsert_embedding d m))"
proof -
  assume inv: "one_dimension m"
  let ?n = "length (ed_embedding d)"
  have new: "one_dimension (hm_put (ke_id (ed_entry d)) d m)" if "dimension_is ?n (set (m_values m))"
  proof -
    have "dimension_is ?n (insert d (set (m_values m)))" using that by simp
    from dimension_mono [OF this values_put] show ?thesis unfolding one_dimension_iff by blast
  qed
  show ?thesis
  proof (cases "m_values m")
    case Nil
    with new show ?thesis by (simp add: upsert_embedding_def)
  next
    case (Cons e es)
    from inv obtain n where n: "dimension_is n (set (m_values m))" unfolding one_dimension_iff ..
    with Cons have "length (ed_embedding e) = n" by simp
    with n new inv Cons show ?thesis by (simp add: upsert_embedding_def)
  qed
qed

lemma one_dimension_delete: "one_dimension m \<Longrightarrow> one_dimension (delete_embedding i m)"
  unfolding one_dimension_iff delete_embedding_def using dimension_mono [OF _ values_remove] by metis

lemma one_dimension_rebuild: "one_dimension m \<Longrightarrow> one_dimension (snd (rebuild_embeddings ds at m))"
proof -
  assume inv: "one_dimension m"
  define expected where "expected = (case ds of [] \<Rightarrow> 0 | d # _ \<Rightarrow> length (ed_embedding d))"
  show ?thesis
  proof (cases "find (\<lambda>d. length (ed_embedding d) \<noteq> expected) ds")
    case None
    then have "dimension_is expected (set ds \<union> set (m_values []))"
      unfolding find_None_iff by (auto simp: m_values_def)
    from dimension_mono [OF this values_fold_put [of "\<lambda>d. ke_id (ed_entry d)"]]
    have "one_dimension (fold (\<lambda>d. hm_put (ke_id (ed_entry d)) d) ds [])" unfolding one_dimension_iff by blast
    with None show ?thesis by (simp add: rebuild_embeddings_def Let_def flip: expected_def)
  next
    case (Some d)
    with inv show ?thesis by (simp add: rebuild_embeddings_def Let_def flip: expected_def)
  qed
qed

lemma semantic_results_total:
  "dimension_is (length (sq_embedding q)) (set ds) \<Longrightarrow> \<exists>rs. semantic_results F q ds = Inr rs"
  by (induction ds) (auto simp: cosine_similarity_def Let_def split: prod.splits)

lemma one_dimension_search:
  assumes "one_dimension m" and "d \<in> set (m_values m)" and "length (sq_embedding q) = length (ed_embedding d)" and "sq_limit q \<noteq> 0"
  shows "\<exists>rs. semantic_search F m q = Inr rs"
proof -
  from assms(1) obtain n where n: "dimension_is n (set (m_values m))" unfolding one_dimension_iff ..
  with assms(2,3) have "length (sq_embedding q) = n" by simp
  with n have "dimension_is (length (sq_embedding q)) (set (filter (semantic_matches q) (m_values m)))" by simp
  from semantic_results_total [OF this] obtain rs
    where "semantic_results F q (filter (semantic_matches q) (m_values m)) = Inr rs" by blast
  with assms(4) show ?thesis by (simp add: semantic_search_def)
qed

section \<open>Hybrid answers\<close>

lemma merged_keyed:
  assumes "hm_inv m" and "\<forall>k r. m_get m k = Some r \<longrightarrow> ke_id (hr_entry r) = k"
  shows "hm_inv (merge_full_text F w x m) \<and> (\<forall>k r. m_get (merge_full_text F w x m) k = Some r \<longrightarrow> ke_id (hr_entry r) = k)"
    and "hm_inv (merge_semantic F w x m) \<and> (\<forall>k r. m_get (merge_semantic F w x m) k = Some r \<longrightarrow> ke_id (hr_entry r) = k)"
  using assms by (auto simp: merge_full_text_def merge_semantic_def Let_def split: if_splits)

lemma fold_merged_keyed:
  assumes "hm_inv m \<and> (\<forall>k r. m_get m k = Some r \<longrightarrow> ke_id (hr_entry r) = k)"
  shows "hm_inv (fold (merge_full_text F w) xs m) \<and> (\<forall>k r. m_get (fold (merge_full_text F w) xs m) k = Some r \<longrightarrow> ke_id (hr_entry r) = k)"
    and "hm_inv (fold (merge_semantic F w) xs m) \<and> (\<forall>k r. m_get (fold (merge_semantic F w) xs m) k = Some r \<longrightarrow> ke_id (hr_entry r) = k)"
proof -
  show "hm_inv (fold (merge_full_text F w) xs m) \<and> (\<forall>k r. m_get (fold (merge_full_text F w) xs m) k = Some r \<longrightarrow> ke_id (hr_entry r) = k)"
    using assms
  proof (induction xs arbitrary: m)
    case (Cons x xs)
    from Cons.IH [OF merged_keyed(1) [of m F w x]] Cons.prems show ?case by simp
  qed simp
  show "hm_inv (fold (merge_semantic F w) xs m) \<and> (\<forall>k r. m_get (fold (merge_semantic F w) xs m) k = Some r \<longrightarrow> ke_id (hr_entry r) = k)"
    using assms
  proof (induction xs arbitrary: m)
    case (Cons x xs)
    from Cons.IH [OF merged_keyed(2) [of m F w x]] Cons.prems show ?case by simp
  qed simp
qed

lemma keys_put: "fst ` set (hm_put k v m) = insert k (fst ` set m)"
  by (induction k v m rule: hm_put.induct) auto

lemma merged_keys:
  "fst ` set (fold (merge_full_text F w) fs m) = (\<lambda>r. ke_id (kr_entry r)) ` set fs \<union> fst ` set m"
  "fst ` set (fold (merge_semantic F w) ss m) = (\<lambda>r. ke_id (kr_entry r)) ` set ss \<union> fst ` set m"
proof -
  show "fst ` set (fold (merge_full_text F w) fs m) = (\<lambda>r. ke_id (kr_entry r)) ` set fs \<union> fst ` set m"
    by (induction fs arbitrary: m) (auto simp: merge_full_text_def keys_put)
  have modified: "fst ` set (m_modify k f m) = fst ` set m" for k f and m :: "(knowledge_entry_id, 'a hybrid_result) hmap"
    using keys_modify [of k f m] by (metis list.set_map)
  have step: "fst ` set (merge_semantic F w r m) = insert (ke_id (kr_entry r)) (fst ` set m)" for r m
    by (simp add: merge_semantic_def Let_def keys_put modified) (auto simp: m_contains_iff m_keys_def image_iff)
  show "fst ` set (fold (merge_semantic F w) ss m) = (\<lambda>r. ke_id (kr_entry r)) ` set ss \<union> fst ` set m"
    by (induction ss arbitrary: m) (auto simp: step)
qed

lemma hybrid_without_reranker:
  assumes "hybrid_search F full_text semantic id q = Inr rs"
    and "full_text ((hq_full_text q)\<lparr>fq_limit := hq_limit q\<rparr>) = Inr fs" and "semantic ((hq_semantic q)\<lparr>sq_limit := hq_limit q\<rparr>) = Inr ss"
  shows "sorted_wrt hybrid_rank rs" and "distinct (map (\<lambda>r. ke_id (hr_entry r)) rs)" and "length rs \<le> hq_limit q"
    and "set (map (\<lambda>r. ke_id (hr_entry r)) rs) \<subseteq> (\<lambda>r. ke_id (kr_entry r)) ` (set fs \<union> set ss)"
proof -
  let ?m = "fold (merge_semantic F (hw_semantic (hq_weights q))) ss (fold (merge_full_text F (hw_full_text (hq_weights q))) fs [])"
  have rs: "rs = take (hq_limit q) (sort_ranked hybrid_rank (m_values ?m))"
    using assms by (simp add: hybrid_search_def Let_def split: if_splits)
  have inv: "hm_inv ?m \<and> (\<forall>k r. m_get ?m k = Some r \<longrightarrow> ke_id (hr_entry r) = k)"
    by (rule fold_merged_keyed(2), rule fold_merged_keyed(1)) (simp add: m_get_def)
  have "ke_id (hr_entry (snd p)) = fst p" if "p \<in> set ?m" for p
    using inv in_set_m_get [of ?m "fst p" "snd p"] that by simp
  then have keys: "map (\<lambda>r. ke_id (hr_entry r)) (m_values ?m) = map fst ?m"
    by (simp add: m_values_def)
  show "sorted_wrt hybrid_rank rs"
    unfolding rs by (rule sorted_wrt_take [OF score_rank.sort_ranked_sorted])
  show "distinct (map (\<lambda>r. ke_id (hr_entry r)) rs)"
    using inv keys unfolding rs by (intro distinct_take_ranked) (simp add: hm_inv_def)
  show "length rs \<le> hq_limit q" unfolding rs by simp
  have "set (map (\<lambda>r. ke_id (hr_entry r)) rs) \<subseteq> (\<lambda>r. ke_id (hr_entry r)) ` set (m_values ?m)"
    unfolding rs by (auto dest!: in_set_takeD)
  also have "\<dots> = fst ` set ?m" using keys by (metis set_map)
  finally show "set (map (\<lambda>r. ke_id (hr_entry r)) rs) \<subseteq> (\<lambda>r. ke_id (kr_entry r)) ` (set fs \<union> set ss)"
    unfolding merged_keys by auto
qed

text \<open>Two documents, in both orders; the scores are whole numbers.\<close>

definition whole_scores :: "int float_ops" where
  "whole_scores = \<lparr>fl_of_nat = int, fl_add = (+), fl_mul = (*), fl_div = (div), fl_sqrt = id, fl_is_finite = (\<lambda>_. True)\<rparr>"

definition example_document :: "string \<Rightarrow> index_document" where
  "example_document t =
     \<lparr>id_entry = \<lparr>ke_id = KnowledgeEntryId t, ke_title = t, ke_source_uri = None, ke_artifact_id = None, ke_asset_id = None, ke_created_at = 0\<rparr>,
      id_body = ''body'', id_tags = [], id_metadata = JNull\<rparr>"

lemma index_answers_deterministically_witness:
  "full_text_search whole_scores (\<lambda>_. [])
     (upsert_document (example_document ''a'') (upsert_document (example_document ''b'') [])) (full_text_query_new ''body'') =
   full_text_search whole_scores (\<lambda>_. [])
     (upsert_document (example_document ''b'') (upsert_document (example_document ''a'') [])) (full_text_query_new ''body'')"
proof (rule index_answers_deterministically)
  show "m_get (upsert_document (example_document ''a'') (upsert_document (example_document ''b'') [])) k =
      m_get (upsert_document (example_document ''b'') (upsert_document (example_document ''a'') [])) k" for k
    by (auto simp: upsert_document_def example_document_def m_get_def)
qed simp_all

text \<open>The limit of the query comes before the check of permissions: where the best result is
  hidden, a search for one result is empty, whatever else the user may read.\<close>

lemma limit_before_permissions:
  assumes "full_text_search F show m q = Inr rs" and "\<And>r. r \<in> set rs \<Longrightarrow>
      \<not> decision_is_allowed (check store u (entry_query (ke_id (kr_entry r)) now))"
  shows "query_with_permissions (full_text_search F show m) store now q u = Inr []"
  using assms by (simp add: query_with_permissions_def)

lemma permitted_results:
  assumes "query_with_permissions index store now q u = Inr rs" and "r \<in> set rs"
  shows "lifecycle_is_active (get_user_lifecycle store u)"
    and "decision_is_allowed (check store u (entry_query (ke_id (kr_entry r)) now))"
    and "\<exists>found. index q = Inr found \<and> r \<in> set found"
  using assms by (auto simp: query_with_permissions_def bind_result_Inr_iff split: if_splits)

end
