(* ===== verification/Knowledge_Ledger.thy ===== *)
theory Knowledge_Ledger
  imports Knowledge_Index
begin
text \<open>
  The ledgers of \<open>knowledge-entity/src/lib.rs\<close>: questions, cited evidence, the governance of
  entries and cached answers, with the queries across them. Locks are left out, so the
  errors of a poisoned lock never occur.
\<close>

section \<open>Questions\<close>

datatype (plugins only: code size) question_id = QuestionId string

fun question_text :: "question_id \<Rightarrow> string" where
  "question_text (QuestionId s) = s"

record question_answer_ref =
  qa_answer_id :: string
  qa_answer_cache_ref :: "string option"
  qa_knowledge_entry_id :: "knowledge_entry_id option"

record question_entry =
  qe_id :: question_id
  qe_question :: string
  qe_conversation_id :: "string option"
  qe_message_id :: "string option"
  qe_work_object_id :: "work_object_id option"
  qe_answer_ref :: "question_answer_ref option"
  qe_related :: "knowledge_entry_id list"
  qe_tags :: "string list"
  qe_created_at :: datetime
  qe_updated_at :: datetime

record question_request =
  qr_question :: string
  qr_conversation_id :: "string option"
  qr_message_id :: "string option"
  qr_work_object_id :: "work_object_id option"
  qr_related :: "knowledge_entry_id list"
  qr_tags :: "string list"
  qr_created_at :: datetime

datatype (plugins only: code size) question_error = QuestionLockPoisoned | BlankQuestion | QuestionNotFound string

type_synonym question_table = "(question_id, question_entry) hmap"

definition question_name :: "nat \<Rightarrow> question_id" where
  "question_name n = QuestionId (''question-'' @ decimal n)"

definition create_question :: "question_request \<Rightarrow> (question_table, question_error, question_entry) prog" where
  "create_question r m =
     (if trim (qr_question r) = [] then (Inl BlankQuestion, m)
      else
        let e = \<lparr>qe_id = question_name (length m + 1), qe_question = qr_question r, qe_conversation_id = qr_conversation_id r,
                 qe_message_id = qr_message_id r, qe_work_object_id = qr_work_object_id r, qe_answer_ref = None,
                 qe_related = qr_related r, qe_tags = qr_tags r, qe_created_at = qr_created_at r, qe_updated_at = qr_created_at r\<rparr>
        in (Inr e, hm_put (qe_id e) e m))"

definition get_question :: "question_id \<Rightarrow> question_table \<Rightarrow> question_entry option" where
  "get_question i m = m_get m i"

definition push_new :: "'a \<Rightarrow> 'a list \<Rightarrow> 'a list" where
  "push_new x xs = (if x \<in> set xs then xs else xs @ [x])"

definition answered :: "question_answer_ref \<Rightarrow> datetime \<Rightarrow> question_entry \<Rightarrow> question_entry" where
  "answered a at e =
     e\<lparr>qe_related := (case qa_knowledge_entry_id a of Some k \<Rightarrow> push_new k (qe_related e) | None \<Rightarrow> qe_related e),
       qe_answer_ref := Some a, qe_updated_at := at\<rparr>"

definition link_answer :: "question_id \<Rightarrow> question_answer_ref \<Rightarrow> datetime \<Rightarrow> (question_table, question_error, question_entry) prog" where
  "link_answer i a at m =
     (case m_get m i of
        None \<Rightarrow> (Inl (QuestionNotFound (question_text i)), m)
      | Some e \<Rightarrow> (Inr (answered a at e), m_modify i (answered a at) m))"

abbreviation listing :: "('v \<Rightarrow> string) \<Rightarrow> ('v \<Rightarrow> bool) \<Rightarrow> ('k, 'v) hmap \<Rightarrow> 'v list" where
  "listing f P m \<equiv> sort_ranked (by_text f) (filter P (m_values m))"

definition questions_by_conversation :: "string \<Rightarrow> question_table \<Rightarrow> question_entry list" where
  "questions_by_conversation c m = listing (\<lambda>e. question_text (qe_id e)) (\<lambda>e. qe_conversation_id e = Some c) m"

definition questions_by_work_object :: "work_object_id \<Rightarrow> question_table \<Rightarrow> question_entry list" where
  "questions_by_work_object w m = listing (\<lambda>e. question_text (qe_id e)) (\<lambda>e. qe_work_object_id e = Some w) m"

section \<open>Cited evidence\<close>

datatype (plugins only: code size) evidence_id = EvidenceId string

fun evidence_text :: "evidence_id \<Rightarrow> string" where
  "evidence_text (EvidenceId s) = s"

datatype (plugins only: code size) browser_snapshot_id = BrowserSnapshotId string

datatype (plugins only: code size) citation_ref =
    CiteSourceUri string
  | CiteArtifact artifact_id
  | CiteMessage string string
  | CiteSnapshot browser_snapshot_id "string option"

record citation_record =
  ct_id :: evidence_id
  ct_source_ref :: citation_ref
  ct_excerpt :: "string option"
  ct_created_at :: datetime

record answer_trace =
  at_answer_id :: string
  at_evidence :: "citation_record list"

datatype (plugins only: code size) citation_error = CitationLockPoisoned | BlankAnswerId | EvidenceNotFound string

record citation_store =
  cs_evidence :: "(evidence_id, citation_record) hmap"
  cs_citations :: "(string, evidence_id list) hmap"

definition citation_store_new :: citation_store where
  "citation_store_new = \<lparr>cs_evidence = [], cs_citations = []\<rparr>"

definition evidence_name :: "nat \<Rightarrow> evidence_id" where
  "evidence_name n = EvidenceId (''evidence-'' @ decimal n)"

definition register_evidence ::
    "citation_ref \<Rightarrow> string option \<Rightarrow> datetime \<Rightarrow> (citation_store, citation_error, citation_record) prog" where
  "register_evidence src excerpt at s =
     (let r = \<lparr>ct_id = evidence_name (length (cs_evidence s) + 1), ct_source_ref = src, ct_excerpt = excerpt, ct_created_at = at\<rparr>
      in (Inr r, s\<lparr>cs_evidence := hm_put (ct_id r) r (cs_evidence s)\<rparr>))"

definition citations_of :: "string \<Rightarrow> citation_store \<Rightarrow> evidence_id list" where
  "citations_of a s = (case m_get (cs_citations s) a of None \<Rightarrow> [] | Some is \<Rightarrow> is)"

definition cite_answer :: "string \<Rightarrow> evidence_id \<Rightarrow> (citation_store, citation_error, unit) prog" where
  "cite_answer a i s =
     (if trim a = [] then (Inl BlankAnswerId, s)
      else if \<not> m_contains (cs_evidence s) i then (Inl (EvidenceNotFound (evidence_text i)), s)
      else (Inr (), s\<lparr>cs_citations := hm_put a (push_new i (citations_of a s)) (cs_citations s)\<rparr>))"

definition trace_answer :: "string \<Rightarrow> citation_store \<Rightarrow> answer_trace" where
  "trace_answer a s =
     \<lparr>at_answer_id = a,
      at_evidence = sort_ranked (by_text (\<lambda>r. evidence_text (ct_id r))) (List.map_filter (m_get (cs_evidence s)) (citations_of a s))\<rparr>"

text \<open>Only artifacts are asked for; the other kinds of evidence are shown to everyone.\<close>

definition evidence_readable :: "permission_store \<Rightarrow> enterprise_user_id \<Rightarrow> instant \<Rightarrow> citation_record \<Rightarrow> bool" where
  "evidence_readable store u now r =
     (case ct_source_ref r of
        CiteArtifact (ArtifactId a) \<Rightarrow> decision_is_allowed (check store u
          \<lparr>pq_resource_type = ResKnowledgeBase, pq_resource_id = ResourceId a, pq_action = PermRead, pq_now = now\<rparr>)
      | _ \<Rightarrow> True)"

definition trace_answer_with_permissions ::
    "permission_store \<Rightarrow> instant \<Rightarrow> string \<Rightarrow> enterprise_user_id \<Rightarrow> citation_store \<Rightarrow> answer_trace" where
  "trace_answer_with_permissions store now a u s =
     (let t = trace_answer a s
      in \<lparr>at_answer_id = at_answer_id t, at_evidence = filter (evidence_readable store u now) (at_evidence t)\<rparr>)"

section \<open>Governance\<close>

datatype (plugins only: code size) governance_status = GovDraft | GovActive | GovDeprecated | GovArchived

datatype (plugins only: code size) governance_validation_error = MissingTitle | MissingSummary | MissingTags

datatype (plugins only: code size) governance_error =
    GovernanceLockPoisoned | GovernanceNotFound string | GovernanceValidationFailed "governance_validation_error list"

record governance_record =
  gv_entry_id :: knowledge_entry_id
  gv_status :: governance_status
  gv_metadata :: json
  gv_created_at :: datetime
  gv_updated_at :: datetime

definition nonblank_field :: "string \<Rightarrow> json \<Rightarrow> bool" where
  "nonblank_field k j = (case Option.bind (json_get k j) json_as_str of None \<Rightarrow> False | Some s \<Rightarrow> trim s \<noteq> [])"

definition governance_errors :: "governance_record \<Rightarrow> governance_validation_error list" where
  "governance_errors g =
     (if nonblank_field ''title'' (gv_metadata g) then [] else [MissingTitle]) @
     (if nonblank_field ''summary'' (gv_metadata g) then [] else [MissingSummary]) @
     (case Option.bind (json_get ''tags'' (gv_metadata g)) json_as_array of Some (t # ts) \<Rightarrow> [] | _ \<Rightarrow> [MissingTags])"

definition activate_record :: "datetime \<Rightarrow> governance_record \<Rightarrow> governance_error + governance_record" where
  "activate_record at g =
     (if governance_errors g \<noteq> [] then Inl (GovernanceValidationFailed (governance_errors g))
      else Inr (g\<lparr>gv_status := GovActive, gv_updated_at := at\<rparr>))"

record review_item =
  rv_entry_id :: knowledge_entry_id
  rv_status :: governance_status
  rv_validation_errors :: "governance_validation_error list"
  rv_updated_at :: datetime

definition review_item_of :: "governance_record \<Rightarrow> review_item" where
  "review_item_of g = \<lparr>rv_entry_id = gv_entry_id g, rv_status = gv_status g, rv_validation_errors = governance_errors g,
     rv_updated_at = gv_updated_at g\<rparr>"

type_synonym governance_table = "(knowledge_entry_id, governance_record) hmap"

definition upsert_governance :: "governance_record \<Rightarrow> governance_table \<Rightarrow> governance_table" where
  "upsert_governance g = hm_put (gv_entry_id g) g"

definition transition_status ::
    "knowledge_entry_id \<Rightarrow> governance_status \<Rightarrow> datetime \<Rightarrow> (governance_table, governance_error, governance_record) prog" where
  "transition_status i st at m =
     (case m_get m i of
        None \<Rightarrow> (Inl (GovernanceNotFound (entry_text i)), m)
      | Some g \<Rightarrow>
          (case (if st = GovActive then activate_record at g else Inr (g\<lparr>gv_status := st, gv_updated_at := at\<rparr>)) of
             Inl e \<Rightarrow> (Inl e, m)
           | Inr g' \<Rightarrow> (Inr g', hm_put i g' m)))"

definition review_queue :: "governance_table \<Rightarrow> review_item list" where
  "review_queue m =
     sort_ranked (by_text (\<lambda>x. entry_text (rv_entry_id x)))
       (filter (\<lambda>x. rv_validation_errors x \<noteq> []) (map review_item_of (filter (\<lambda>g. gv_status g \<noteq> GovActive) (m_values m))))"

definition active_index_entry_ids :: "governance_table \<Rightarrow> knowledge_entry_id list" where
  "active_index_entry_ids m =
     sort_ranked (by_text entry_text) (map gv_entry_id (filter (\<lambda>g. gv_status g = GovActive \<and> governance_errors g = []) (m_values m)))"

section \<open>Cached answers\<close>

datatype (plugins only: code size) package_id = PackageId string

fun package_text :: "package_id \<Rightarrow> string" where
  "package_text (PackageId s) = s"

record freshness_policy =
  fp_expires_after_days :: "nat option"

datatype (plugins only: code size) answer_evidence =
    EvEntry knowledge_entry_id "string option"
  | EvMessage string string
  | EvArtifact artifact_id
  | EvAsset asset_id

record answer_package =
  pk_id :: package_id
  pk_question_id :: "question_id option"
  pk_work_object_id :: "work_object_id option"
  pk_answer_id :: string
  pk_version :: nat
  pk_answer_markdown :: string
  pk_evidence :: "answer_evidence list"
  pk_related :: "knowledge_entry_id list"
  pk_freshness :: freshness_policy
  pk_created_at :: datetime
  pk_updated_at :: datetime

record answer_request =
  an_question_id :: "question_id option"
  an_work_object_id :: "work_object_id option"
  an_answer_id :: string
  an_answer_markdown :: string
  an_evidence :: "answer_evidence list"
  an_freshness :: freshness_policy
  an_created_at :: datetime

datatype (plugins only: code size) answer_cache_error = AnswerLockPoisoned | InvalidVersion | BlankAnswer | PackageNotFound string

type_synonym package_table = "(package_id, answer_package) hmap"

definition related_entries :: "answer_evidence list \<Rightarrow> knowledge_entry_id list" where
  "related_entries es = fold (\<lambda>e is. case e of EvEntry k _ \<Rightarrow> push_new k is | _ \<Rightarrow> is) es []"

definition package_name :: "nat \<Rightarrow> package_id" where
  "package_name n = PackageId (''answer-cache-'' @ decimal n)"

definition package_version_new :: "nat \<Rightarrow> answer_cache_error + nat" where
  "package_version_new v = (if v = 0 then Inl InvalidVersion else Inr v)"

text \<open>A version is an \<open>u32\<close>; the addition past its maximum panics, which is the value \<open>None\<close>.\<close>

definition next_version_for_answer :: "package_table \<Rightarrow> string \<Rightarrow> (answer_cache_error + nat) option" where
  "next_version_for_answer m a =
     (let latest = fold max (map pk_version (filter (\<lambda>p. pk_answer_id p = a) (m_values m))) 0
      in if latest = 2 ^ 32 - 1 then None else Some (package_version_new (latest + 1)))"

definition create_package :: "answer_request \<Rightarrow> package_table \<Rightarrow> ((answer_cache_error + answer_package) \<times> package_table) option" where
  "create_package r m =
     (if trim (an_answer_markdown r) = [] then Some (Inl BlankAnswer, m)
      else map_option (\<lambda>v. case v of
          Inl e \<Rightarrow> (Inl e, m)
        | Inr version \<Rightarrow>
            (let p = \<lparr>pk_id = package_name (length m + 1), pk_question_id = an_question_id r, pk_work_object_id = an_work_object_id r,
                      pk_answer_id = an_answer_id r, pk_version = version, pk_answer_markdown = an_answer_markdown r,
                      pk_evidence = an_evidence r, pk_related = related_entries (an_evidence r), pk_freshness = an_freshness r,
                      pk_created_at = an_created_at r, pk_updated_at = an_created_at r\<rparr>
             in (Inr p, hm_put (pk_id p) p m))) (next_version_for_answer m (an_answer_id r)))"

definition newest_first :: "answer_package \<Rightarrow> answer_package \<Rightarrow> bool" where
  "newest_first a b \<longleftrightarrow>
     pk_version b < pk_version a \<or> pk_version a = pk_version b \<and>
       (pk_updated_at b < pk_updated_at a \<or> pk_updated_at a = pk_updated_at b \<and> package_text (pk_id a) \<le> package_text (pk_id b))"

definition latest_for_question :: "question_id \<Rightarrow> package_table \<Rightarrow> answer_package option" where
  "latest_for_question i m =
     (case sort_ranked newest_first (filter (\<lambda>p. pk_question_id p = Some i) (m_values m)) of [] \<Rightarrow> None | p # _ \<Rightarrow> Some p)"

definition get_package :: "package_id \<Rightarrow> package_table \<Rightarrow> answer_package option" where
  "get_package i m = m_get m i"

definition packages_by_entry :: "knowledge_entry_id \<Rightarrow> package_table \<Rightarrow> answer_package list" where
  "packages_by_entry k m = listing (\<lambda>p. package_text (pk_id p)) (\<lambda>p. k \<in> set (pk_related p)) m"

definition packages_by_work_object :: "work_object_id \<Rightarrow> package_table \<Rightarrow> answer_package list" where
  "packages_by_work_object w m = listing (\<lambda>p. package_text (pk_id p)) (\<lambda>p. pk_work_object_id p = Some w) m"

section \<open>Work objects across the ledgers\<close>

record work_object_result =
  wr_work_object_id :: work_object_id
  wr_question_ids :: "question_id list"
  wr_answer_ids :: "package_id list"
  wr_knowledge_entry_ids :: "knowledge_entry_id list"

definition work_object_query :: "work_object_id \<Rightarrow> question_table \<Rightarrow> package_table \<Rightarrow> work_object_result" where
  "work_object_query w qs ps =
     (let questions = questions_by_work_object w qs;
          answers = packages_by_work_object w ps;
          entries = fold push_new (concat (map qe_related questions @ map pk_related answers)) []
      in \<lparr>wr_work_object_id = w, wr_question_ids = map qe_id questions, wr_answer_ids = map pk_id answers,
          wr_knowledge_entry_ids = sort_ranked (by_text entry_text) entries\<rparr>)"

section \<open>Names are never given twice\<close>

interpretation question_names: numbered_table question_name
  by unfold_locales (simp add: question_name_def)

interpretation evidence_names: numbered_table evidence_name
  by unfold_locales (simp add: evidence_name_def)

interpretation package_names: numbered_table package_name
  by unfold_locales (simp add: package_name_def)

lemma create_question_numbered:
  "numbered question_name m \<Longrightarrow> numbered question_name (snd (create_question r m))"
  using question_names.numbered_put [of m] by (simp add: create_question_def Let_def)

lemma link_answer_numbered:
  "numbered question_name m \<Longrightarrow> numbered question_name (snd (link_answer i a at m))"
  by (simp add: link_answer_def question_names.numbered_modify split: option.splits)

lemma create_question_new:
  assumes "numbered question_name m" and "create_question r m = (Inr e, m')"
  shows "m_get m (qe_id e) = None" and "get_question (qe_id e) m' = Some e"
    and "j \<noteq> qe_id e \<Longrightarrow> get_question j m' = get_question j m"
  using assms question_names.get_next [of m] by (auto simp: create_question_def get_question_def Let_def split: if_splits)

lemma set_push_new [simp]: "set (push_new x xs) = insert x (set xs)"
  by (auto simp: push_new_def)

lemma distinct_push_new [simp]: "distinct (push_new x xs) = distinct xs"
  by (auto simp: push_new_def)

lemma link_answer_correct:
  assumes "link_answer i a at m = (Inr e, m')"
  shows "get_question i m' = Some e" and "qe_answer_ref e = Some a" and "qe_updated_at e = at"
    and "qa_knowledge_entry_id a = Some k \<Longrightarrow> k \<in> set (qe_related e)"
    and "j \<noteq> i \<Longrightarrow> get_question j m' = get_question j m"
  using assms by (auto simp: link_answer_def answered_def get_question_def split: option.splits)

section \<open>Citations resolve\<close>

definition citations_inv :: "citation_store \<Rightarrow> bool" where
  "citations_inv s \<longleftrightarrow> numbered evidence_name (cs_evidence s) \<and>
     (\<forall>k r. m_get (cs_evidence s) k = Some r \<longrightarrow> ct_id r = k) \<and>
     (\<forall>a is. m_get (cs_citations s) a = Some is \<longrightarrow> distinct is \<and> (\<forall>i \<in> set is. m_contains (cs_evidence s) i))"

datatype (plugins only: code size) citation_op = RegisterOp citation_ref "string option" datetime | CiteOp string evidence_id

fun citation_step :: "citation_op \<Rightarrow> citation_store \<Rightarrow> citation_store" where
  "citation_step (RegisterOp src x at) s = snd (register_evidence src x at s)"
| "citation_step (CiteOp a i) s = snd (cite_answer a i s)"

lemma citations_inv_new: "citations_inv citation_store_new"
  by (simp add: citations_inv_def citation_store_new_def numbered_def m_get_def)

lemma citations_of_inv:
  "citations_inv s \<Longrightarrow> distinct (citations_of a s) \<and> (\<forall>i \<in> set (citations_of a s). m_contains (cs_evidence s) i)"
  by (cases "m_get (cs_citations s) a") (auto simp: citations_inv_def citations_of_def)

lemma citations_inv_register:
  assumes "citations_inv s" shows "citations_inv (snd (register_evidence src x at s))"
proof -
  have "m_contains (hm_put k v (cs_evidence s)) i" if "m_contains (cs_evidence s) i" for k v i
    using that by (simp add: m_contains_def)
  with assms show ?thesis
    unfolding citations_inv_def register_evidence_def Let_def
    by (auto simp: evidence_names.numbered_put [simplified] split: if_splits)
qed

lemma citations_inv_cite:
  assumes "citations_inv s" shows "citations_inv (snd (cite_answer a i s))"
proof -
  have "distinct (push_new i (citations_of a s)) \<and>
      (\<forall>j \<in> set (push_new i (citations_of a s)). m_contains (cs_evidence s) j)" if "m_contains (cs_evidence s) i"
    using citations_of_inv [OF assms, of a] that by simp
  with assms show ?thesis
    unfolding citations_inv_def cite_answer_def by (auto simp del: set_push_new distinct_push_new split: if_splits)
qed

lemma citations_inv_steps: "citations_inv (fold citation_step ops citation_store_new)"
proof -
  have "citations_inv (citation_step x s)" if "citations_inv s" for x s
    using that by (cases x) (simp_all add: citations_inv_register citations_inv_cite)
  then have "citations_inv s \<Longrightarrow> citations_inv (fold citation_step ops s)" for s
    by (induction ops arbitrary: s) simp_all
  then show ?thesis using citations_inv_new by blast
qed

lemma trace_resolves:
  assumes "citations_inv s"
  shows "map ct_id (at_evidence (trace_answer a s)) = sort_ranked (by_text evidence_text) (citations_of a s)"
    and "r \<in> set (at_evidence (trace_answer a s)) \<Longrightarrow> m_get (cs_evidence s) (ct_id r) = Some r"
proof -
  let ?found = "List.map_filter (m_get (cs_evidence s))"
  have ids: "map ct_id (?found is) = is" if "\<forall>i \<in> set is. m_contains (cs_evidence s) i" for "is"
    using that assms by (induction "is") (auto simp: citations_inv_def m_contains_def map_filter_simps)
  have sorted: "map f (sort_ranked (by_text (\<lambda>r. g (f r))) rs) = sort_ranked (by_text g) (map f rs)"
    for f :: "citation_record \<Rightarrow> evidence_id" and g rs
  proof -
    have "map f (insert_ranked (by_text (\<lambda>r. g (f r))) x ys) = insert_ranked (by_text g) (f x) (map f ys)" for x ys
      by (induction ys) (simp_all add: by_text_def)
    then show ?thesis by (induction rs) simp_all
  qed
  show "map ct_id (at_evidence (trace_answer a s)) = sort_ranked (by_text evidence_text) (citations_of a s)"
    using ids citations_of_inv [OF assms] by (simp add: trace_answer_def sorted)
  show "r \<in> set (at_evidence (trace_answer a s)) \<Longrightarrow> m_get (cs_evidence s) (ct_id r) = Some r"
    using assms by (auto simp: trace_answer_def citations_inv_def map_filter_def)
qed

text \<open>
  Whatever evidence was registered and cited, the trace of an answer names each piece of
  evidence cited for it exactly once, in the order of their names, and each of them is the
  evidence registered under its name.
\<close>

lemma traces_resolve:
  fixes ops :: "citation_op list" and a :: string
  defines "s \<equiv> fold citation_step ops citation_store_new"
  shows "map ct_id (at_evidence (trace_answer a s)) = sort_ranked (by_text evidence_text) (citations_of a s) \<and>
    distinct (citations_of a s) \<and> list_all (\<lambda>r. m_get (cs_evidence s) (ct_id r) = Some r) (at_evidence (trace_answer a s))"
proof -
  have "citations_inv s" unfolding s_def by (rule citations_inv_steps)
  then show ?thesis using trace_resolves [of s] citations_of_inv [of s a] by (simp add: list_all_iff)
qed

section \<open>Governed entries\<close>

definition governance_keyed :: "governance_table \<Rightarrow> bool" where
  "governance_keyed m \<longleftrightarrow> hm_inv m \<and> (\<forall>k g. m_get m k = Some g \<longrightarrow> gv_entry_id g = k)"

lemma governance_keyed_ops:
  "governance_keyed m \<Longrightarrow> governance_keyed (upsert_governance g m)"
  "governance_keyed m \<Longrightarrow> governance_keyed (snd (transition_status i st at m))"
  by (auto simp: governance_keyed_def upsert_governance_def transition_status_def activate_record_def split: option.splits sum.splits if_splits)

lemma governed_iff: "governance_keyed m \<Longrightarrow> g \<in> set (m_values m) \<longleftrightarrow> m_get m (gv_entry_id g) = Some g"
proof -
  assume keyed: "governance_keyed m"
  then have get: "m_get m k = Some v \<longleftrightarrow> (k, v) \<in> set m" for k v
    by (simp add: governance_keyed_def m_get_def hm_inv_def map_of_eq_Some_iff)
  show ?thesis
  proof
    assume "g \<in> set (m_values m)"
    then obtain k where "m_get m k = Some g" by (auto simp: m_values_def get)
    with keyed show "m_get m (gv_entry_id g) = Some g" unfolding governance_keyed_def by blast
  next
    assume "m_get m (gv_entry_id g) = Some g"
    then show "g \<in> set (m_values m)" by (force simp: m_values_def get)
  qed
qed

lemma governed_image:
  assumes "governance_keyed m"
  shows "i \<in> gv_entry_id ` {g \<in> set (m_values m). P g} \<longleftrightarrow> (\<exists>g. m_get m i = Some g \<and> P g)"
proof
  show "i \<in> gv_entry_id ` {g \<in> set (m_values m). P g} \<Longrightarrow> \<exists>g. m_get m i = Some g \<and> P g"
    by (auto simp: governed_iff [OF assms])
  assume "\<exists>g. m_get m i = Some g \<and> P g"
  then obtain g where g: "m_get m i = Some g" "P g" by blast
  with assms have "gv_entry_id g = i" unfolding governance_keyed_def by blast
  with g show "i \<in> gv_entry_id ` {g \<in> set (m_values m). P g}" using governed_iff [OF assms, of g] by blast
qed

lemma active_entries_valid:
  assumes "governance_keyed m"
  shows "i \<in> set (active_index_entry_ids m) \<longleftrightarrow>
    (\<exists>g. m_get m i = Some g \<and> gv_status g = GovActive \<and> governance_errors g = [])"
  unfolding governed_image [OF assms, symmetric] by (simp add: active_index_entry_ids_def)

lemma review_queue_invalid:
  assumes "governance_keyed m"
  shows "i \<in> rv_entry_id ` set (review_queue m) \<longleftrightarrow>
    (\<exists>g. m_get m i = Some g \<and> gv_status g \<noteq> GovActive \<and> governance_errors g \<noteq> [])"
  unfolding governed_image [OF assms, symmetric] by (force simp: review_queue_def review_item_of_def)

text \<open>A record stored as active with invalid metadata is in neither list.\<close>

lemma upserted_invalid_unlisted:
  assumes "governance_keyed m" and "gv_status g = GovActive" and "governance_errors g \<noteq> []"
  shows "gv_entry_id g \<notin> set (active_index_entry_ids (upsert_governance g m))"
    and "gv_entry_id g \<notin> rv_entry_id ` set (review_queue (upsert_governance g m))"
  using assms governance_keyed_ops(1) [OF assms(1), of g]
  by (simp_all add: active_entries_valid review_queue_invalid) (simp_all add: upsert_governance_def)

lemma transition_correct:
  assumes "transition_status i st at m = (r, m')"
  shows "r = Inr g \<Longrightarrow> m_get m' i = Some g \<and> gv_status g = st \<and> gv_updated_at g = at \<and> (st = GovActive \<longrightarrow> governance_errors g = [])"
    and "r = Inl e \<Longrightarrow> m' = m" and "j \<noteq> i \<Longrightarrow> m_get m' j = m_get m j"
  using assms
  by (auto simp: transition_status_def activate_record_def governance_errors_def split: option.splits sum.splits if_splits)

section \<open>Versions of answers\<close>

fun create_packages :: "answer_request list \<Rightarrow> package_table \<Rightarrow> package_table option" where
  "create_packages [] m = Some m"
| "create_packages (r # rs) m = (case create_package r m of None \<Rightarrow> None | Some (_, m') \<Rightarrow> create_packages rs m')"

abbreviation versions_of :: "string \<Rightarrow> package_table \<Rightarrow> nat list" where
  "versions_of a m \<equiv> map pk_version (filter (\<lambda>p. pk_answer_id p = a) (m_values m))"

definition versions_inv :: "package_table \<Rightarrow> bool" where
  "versions_inv m \<longleftrightarrow> numbered package_name m \<and> (\<forall>a. versions_of a m = [1..<length (versions_of a m) + 1])"

lemma upto_snoc: "vs = [1..<length vs + 1] \<Longrightarrow> vs @ [length vs + 1] = [1..<length (vs @ [x]) + 1]"
  by (metis One_nat_def Suc_eq_plus1 le_add2 length_append_singleton upt_Suc_append)

lemma fold_max_upto: "fold max [1..<n + 1] (0 :: nat) = n"
  by (induction n) simp_all

lemma versions_inv_create:
  assumes "versions_inv m" and "create_package r m = Some (x, m')"
  shows "versions_inv m'"
proof -
  let ?a = "an_answer_id r" and ?n = "length (versions_of (an_answer_id r) m)"
  have vs: "versions_of ?a m = [1..<?n + 1]" using assms(1) unfolding versions_inv_def by blast
  then have latest: "fold max (versions_of ?a m) 0 = ?n" using fold_max_upto by metis
  have next_v: "next_version_for_answer m ?a = (if ?n = 2 ^ 32 - 1 then None else Some (Inr (?n + 1)))"
    unfolding next_version_for_answer_def latest Let_def by (simp add: package_version_new_def)
  show ?thesis
  proof (cases "m' = m")
    case True
    with assms(1) show ?thesis by simp
  next
    case False
    then obtain p where p: "m' = hm_put (package_name (length m + 1)) p m" "pk_answer_id p = ?a" "pk_version p = ?n + 1"
      using assms(2) by (auto simp: create_package_def next_v Let_def split: if_splits)
    have m': "m' = m @ [(package_name (length m + 1), p)]"
      using p(1) package_names.put_next [of m p] assms(1) by (simp add: versions_inv_def)
    have versions: "versions_of a m' = [1..<length (versions_of a m') + 1]" for a
    proof (cases "a = ?a")
      case True
      with m' p(2,3) have snoc: "versions_of a m' = versions_of ?a m @ [?n + 1]" by (simp add: m_values_def)
      show ?thesis unfolding snoc by (rule upto_snoc [OF vs])
    next
      case False
      with m' p(2) have same: "versions_of a m' = versions_of a m" by (simp add: m_values_def)
      show ?thesis unfolding same using assms(1) unfolding versions_inv_def by (elim conjE) (erule spec)
    qed
    have "numbered package_name m'"
      unfolding m' using assms(1) unfolding versions_inv_def by (elim conjE) (rule package_names.numbered_snoc)
    then show ?thesis unfolding versions_inv_def by (intro conjI allI versions)
  qed
qed

text \<open>
  Where no version overflows, the packages of an answer have the versions 1, 2, 3 and so
  on in the order in which they were made, however the requests for different answers
  were mixed; no package is ever replaced.
\<close>

lemma answers_versioned_in_order:
  assumes "create_packages rs [] = Some m"
  shows "versions_of a m = [1..<length (versions_of a m) + 1] \<and> map fst m = map package_name [1..<length m + 1]"
proof -
  have "versions_inv m" if "versions_inv m0" and "create_packages rs m0 = Some m" for m0
    using that by (induction rs arbitrary: m0) (auto dest: versions_inv_create split: option.splits)
  moreover have "versions_inv []" by (simp add: versions_inv_def numbered_def m_values_def)
  ultimately show ?thesis using assms unfolding versions_inv_def numbered_def by metis
qed

definition example_answer :: "string \<Rightarrow> answer_request" where
  "example_answer a = \<lparr>an_question_id = None, an_work_object_id = None, an_answer_id = a, an_answer_markdown = ''text'',
     an_evidence = [], an_freshness = \<lparr>fp_expires_after_days = None\<rparr>, an_created_at = 0\<rparr>"

lemma answers_versioned_in_order_witness:
  "\<exists>m. create_packages [example_answer ''a'', example_answer ''b'', example_answer ''a''] [] = Some m \<and>
     map fst m = map package_name [1..<length m + 1]"
proof -
  have "create_packages [example_answer ''a'', example_answer ''b'', example_answer ''a''] [] \<noteq> None"
    by (simp add: create_package_def example_answer_def next_version_for_answer_def package_version_new_def m_values_def Let_def)
  then obtain m where "create_packages [example_answer ''a'', example_answer ''b'', example_answer ''a''] [] = Some m" by blast
  with answers_versioned_in_order [OF this] show ?thesis by blast
qed

section \<open>The latest answer of a question\<close>

interpretation newest: ranking newest_first
  by unfold_locales (auto simp: newest_first_def)

text \<open>The package with the highest version wins, whichever answer it is a version of.\<close>

lemma latest_is_newest:
  assumes "latest_for_question i m = Some p" and "q \<in> set (m_values m)" and "pk_question_id q = Some i"
  shows "p \<in> set (m_values m)" and "pk_question_id p = Some i" and "newest_first p q"
proof -
  let ?ps = "sort_ranked newest_first (filter (\<lambda>p. pk_question_id p = Some i) (m_values m))"
  obtain ps where ps: "?ps = p # ps" using assms(1) by (auto simp: latest_for_question_def split: list.splits)
  then have "p \<in> set ?ps" by simp
  then show "p \<in> set (m_values m)" "pk_question_id p = Some i" by simp_all
  have q: "q \<in> set ?ps" using assms(2,3) by simp
  have "sorted_wrt newest_first (p # ps)" using newest.sort_ranked_sorted ps by metis
  moreover have "q \<in> set (p # ps)" using q ps by simp
  ultimately show "newest_first p q" using newest.total [of p p] by auto
qed

lemma latest_none: "latest_for_question i m = None \<longleftrightarrow> (\<forall>p \<in> set (m_values m). pk_question_id p \<noteq> Some i)"
proof -
  have "sort_ranked newest_first ps = [] \<longleftrightarrow> ps = []" for ps by (metis length_0_conv length_sort_ranked)
  then have "latest_for_question i m = None \<longleftrightarrow> filter (\<lambda>p. pk_question_id p = Some i) (m_values m) = []"
    unfolding latest_for_question_def by (metis (no_types, lifting) list.case(1,2) list.exhaust option.distinct(1))
  then show ?thesis by (simp add: filter_empty_conv)
qed

end
