(* ===== verification/Knowledge_Repository.thy ===== *)
theory Knowledge_Repository
  imports Knowledge_Ledger
begin
text \<open>
  The repository of knowledge entries of \<open>knowledge-entity/src/lib.rs\<close> (its interface and the
  one in memory), the executor of the knowledge actions over any repository, and the
  records of the knowledge engine. The lower case of a text (Unicode) is a parameter, as are
  the JSON forms and the arithmetic of \<open>f32\<close>.
\<close>

section \<open>Drafts, updates and queries\<close>

record knowledge_draft =
  kd_title :: string
  kd_content :: string
  kd_source_uri :: "string option"
  kd_source_artifact_id :: "artifact_id option"
  kd_source_asset_id :: "asset_id option"
  kd_tags :: "string list"
  kd_metadata :: json
  kd_created_at :: datetime

definition knowledge_draft_new :: "string \<Rightarrow> string \<Rightarrow> datetime \<Rightarrow> knowledge_draft" where
  "knowledge_draft_new t c at =
     \<lparr>kd_title = t, kd_content = c, kd_source_uri = None, kd_source_artifact_id = None, kd_source_asset_id = None,
      kd_tags = [], kd_metadata = JObject [], kd_created_at = at\<rparr>"

record knowledge_update =
  ku_title :: "string option"
  ku_content :: "string option"
  ku_tags :: "string list option"
  ku_source_uri :: "string option"
  ku_metadata :: "json option"

definition knowledge_update_new :: knowledge_update where
  "knowledge_update_new = \<lparr>ku_title = None, ku_content = None, ku_tags = None, ku_source_uri = None, ku_metadata = None\<rparr>"

record knowledge_query =
  kq_text :: string
  kq_tags :: "string list"
  kq_limit :: nat

definition knowledge_query_new :: "string \<Rightarrow> knowledge_query" where
  "knowledge_query_new t = \<lparr>kq_text = t, kq_tags = [], kq_limit = 10\<rparr>"

datatype (plugins only: code size) knowledge_validation_error = BlankTitle | BlankContent

fun validation_message :: "knowledge_validation_error \<Rightarrow> string" where
  "validation_message BlankTitle = ''knowledge draft title cannot be blank''"
| "validation_message BlankContent = ''knowledge draft content cannot be blank''"

definition validate_draft_fields :: "string \<Rightarrow> string \<Rightarrow> knowledge_validation_error + unit" where
  "validate_draft_fields t c = (if trim t = [] then Inl BlankTitle else if trim c = [] then Inl BlankContent else Inr ())"

definition validate_for_write :: "knowledge_draft \<Rightarrow> knowledge_validation_error + unit" where
  "validate_for_write d = validate_draft_fields (kd_title d) (kd_content d)"

text \<open>The input of the action that makes a draft has the fields of a draft.\<close>

definition into_draft :: "knowledge_draft \<Rightarrow> knowledge_validation_error + knowledge_draft" where
  "into_draft i = bind_result (validate_draft_fields (kd_title i) (kd_content i)) (\<lambda>_. Inr i)"

section \<open>The repository\<close>

datatype (plugins only: code size) knowledge_repository_error =
    RepositoryLockPoisoned
  | RepositoryIo string
  | FrontmatterParse string string
  | EntryExists string
  | InvalidEntryId string
  | EntryNotFound string

fun repository_message :: "knowledge_repository_error \<Rightarrow> string" where
  "repository_message RepositoryLockPoisoned = ''knowledge repository lock poisoned''"
| "repository_message (RepositoryIo e) = ''io error: '' @ e"
| "repository_message (FrontmatterParse p e) = ''metadata parse error in '' @ p @ '': '' @ e"
| "repository_message (EntryExists i) = ''entry already exists: '' @ i"
| "repository_message (InvalidEntryId i) = ''invalid entry id: '' @ i"
| "repository_message (EntryNotFound i) = ''entry not found: '' @ i"

text \<open>The operations of a repository with state \<open>'s\<close>.\<close>

record ('s, 'f) knowledge_repository =
  rp_save_draft :: "knowledge_draft \<Rightarrow> ('s, knowledge_repository_error, knowledge_entry_ref) prog"
  rp_get_entry :: "knowledge_entry_id \<Rightarrow> ('s, knowledge_repository_error, knowledge_entry_ref option) prog"
  rp_search :: "knowledge_query \<Rightarrow> ('s, knowledge_repository_error, 'f knowledge_search_result list) prog"
  rp_list_entries :: "('s, knowledge_repository_error, knowledge_entry_ref list) prog"
  rp_update_entry :: "knowledge_entry_id \<Rightarrow> knowledge_update \<Rightarrow> ('s, knowledge_repository_error, knowledge_entry_ref) prog"

record stored_entry =
  se_ref :: knowledge_entry_ref
  se_content :: string
  se_tags :: "string list"

type_synonym entry_table = "(knowledge_entry_id, stored_entry) hmap"

definition entry_name :: "nat \<Rightarrow> knowledge_entry_id" where
  "entry_name n = KnowledgeEntryId (''knowledge-entry-'' @ decimal n)"

definition memory_save_draft :: "knowledge_draft \<Rightarrow> (entry_table, knowledge_repository_error, knowledge_entry_ref) prog" where
  "memory_save_draft d m =
     (let r = \<lparr>ke_id = entry_name (length m + 1), ke_title = kd_title d, ke_source_uri = kd_source_uri d,
              ke_artifact_id = kd_source_artifact_id d, ke_asset_id = kd_source_asset_id d, ke_created_at = kd_created_at d\<rparr>
      in (Inr r, hm_put (ke_id r) \<lparr>se_ref = r, se_content = kd_content d, se_tags = kd_tags d\<rparr> m))"

definition memory_get_entry :: "knowledge_entry_id \<Rightarrow> (entry_table, knowledge_repository_error, knowledge_entry_ref option) prog" where
  "memory_get_entry i m = (Inr (map_option se_ref (m_get m i)), m)"

definition entry_found :: "(string \<Rightarrow> string) \<Rightarrow> knowledge_query \<Rightarrow> stored_entry \<Rightarrow> bool" where
  "entry_found lc q e \<longleftrightarrow>
     (lc (kq_text q) = [] \<or> contains_str (lc (ke_title (se_ref e))) (lc (kq_text q)) \<or>
      contains_str (lc (se_content e)) (lc (kq_text q))) \<and>
     list_all (\<lambda>t. t \<in> set (se_tags e)) (kq_tags q)"

definition memory_search ::
    "'f float_ops \<Rightarrow> (string \<Rightarrow> string) \<Rightarrow> knowledge_query \<Rightarrow>
     (entry_table, knowledge_repository_error, 'f knowledge_search_result list) prog" where
  "memory_search F lc q m =
     (Inr (take (kq_limit q) (sort_ranked (by_text (\<lambda>r. entry_text (ke_id (kr_entry r))))
        (map (\<lambda>e. \<lparr>kr_entry = se_ref e, kr_score = fl_of_nat F (if lc (kq_text q) = [] then 0 else 1),
                   kr_snippet = Some (take_chars 120 (se_content e)), kr_permission_required = False, kr_confidentiality = None\<rparr>)
           (filter (entry_found lc q) (m_values m))))), m)"

definition memory_list_entries :: "(entry_table, knowledge_repository_error, knowledge_entry_ref list) prog" where
  "memory_list_entries m = (Inr (sort_ranked (by_text (\<lambda>r. entry_text (ke_id r))) (map se_ref (m_values m))), m)"

text \<open>The metadata of an update is dropped.\<close>

definition updated_entry :: "knowledge_update \<Rightarrow> stored_entry \<Rightarrow> stored_entry" where
  "updated_entry u e =
     e\<lparr>se_ref := (se_ref e)\<lparr>ke_title := (case ku_title u of None \<Rightarrow> ke_title (se_ref e) | Some t \<Rightarrow> t),
                            ke_source_uri := (case ku_source_uri u of None \<Rightarrow> ke_source_uri (se_ref e) | Some x \<Rightarrow> Some x)\<rparr>,
       se_content := (case ku_content u of None \<Rightarrow> se_content e | Some c \<Rightarrow> c),
       se_tags := (case ku_tags u of None \<Rightarrow> se_tags e | Some ts \<Rightarrow> ts)\<rparr>"

definition memory_update_entry ::
    "knowledge_entry_id \<Rightarrow> knowledge_update \<Rightarrow> (entry_table, knowledge_repository_error, knowledge_entry_ref) prog" where
  "memory_update_entry i u m =
     (case m_get m i of
        None \<Rightarrow> (Inl (EntryNotFound (entry_text i)), m)
      | Some e \<Rightarrow> (Inr (se_ref (updated_entry u e)), m_modify i (updated_entry u) m))"

definition memory_repository :: "'f float_ops \<Rightarrow> (string \<Rightarrow> string) \<Rightarrow> (entry_table, 'f) knowledge_repository" where
  "memory_repository F lc =
     \<lparr>rp_save_draft = memory_save_draft, rp_get_entry = memory_get_entry, rp_search = memory_search F lc,
      rp_list_entries = memory_list_entries, rp_update_entry = memory_update_entry\<rparr>"

section \<open>The executor\<close>

definition KNOWLEDGE_SEARCH :: string where "KNOWLEDGE_SEARCH = ''knowledge.search''"
definition KNOWLEDGE_GET_ENTRY :: string where "KNOWLEDGE_GET_ENTRY = ''knowledge.get_entry''"
definition KNOWLEDGE_CREATE_DRAFT :: string where "KNOWLEDGE_CREATE_DRAFT = ''knowledge.create_draft''"
definition KNOWLEDGE_SAVE_ENTRY :: string where "KNOWLEDGE_SAVE_ENTRY = ''knowledge.save_entry''"
definition KNOWLEDGE_UPDATE_ENTRY :: string where "KNOWLEDGE_UPDATE_ENTRY = ''knowledge.update_entry''"

definition knowledge_schema :: "string \<Rightarrow> string \<Rightarrow> string \<Rightarrow> side_effect_kind \<Rightarrow> action_schema" where
  "knowledge_schema k name descr effect =
     \<lparr>sch_kind = ActionKind k, sch_display_name = name, sch_description = descr, sch_side_effect = effect,
      sch_input_schema = None, sch_output_schema = None\<rparr>"

definition register_knowledge_action_schemas :: "(action_registry, action_registry_error, unit) prog" where
  "register_knowledge_action_schemas =
     andThen (register_action (knowledge_schema KNOWLEDGE_SEARCH ''Search Knowledge''
       ''Search known knowledge entries without mutating state.'' ReadOnly)) (\<lambda>_.
     andThen (register_action (knowledge_schema KNOWLEDGE_GET_ENTRY ''Get Knowledge Entry''
       ''Get a knowledge entry reference by id without mutating state.'' ReadOnly)) (\<lambda>_.
     andThen (register_action (knowledge_schema KNOWLEDGE_CREATE_DRAFT ''Create Knowledge Draft''
       ''Create a session-local knowledge draft payload.'' RuntimeStateMutation)) (\<lambda>_.
     register_action (knowledge_schema KNOWLEDGE_SAVE_ENTRY ''Save Knowledge Entry''
       ''Persist a knowledge draft through the configured repository.'' FileSystemMutation))))"

record 'f knowledge_codec =
  kc_query :: "json \<Rightarrow> string + knowledge_query"
  kc_entry_id :: "json \<Rightarrow> string + knowledge_entry_id"
  kc_draft_fields :: "json \<Rightarrow> string + knowledge_draft"
  kc_draft :: "json \<Rightarrow> string + knowledge_draft"
  kc_update :: "json \<Rightarrow> string + knowledge_entry_id \<times> knowledge_update"
  kc_results_value :: "'f knowledge_search_result list \<Rightarrow> string + json"
  kc_entry_value :: "knowledge_entry_ref option \<Rightarrow> string + json"
  kc_draft_value :: "knowledge_draft \<Rightarrow> string + json"

definition json_payload :: "string + json \<Rightarrow> ('s, executor_error, action_result_payload) prog" where
  "json_payload r = lift (parsed (map_sum id PJson r))"

definition knowledge_execute ::
    "'f knowledge_codec \<Rightarrow> ('s, 'f) knowledge_repository \<Rightarrow> datetime \<Rightarrow> action_request \<Rightarrow> ('s, executor_error, action_result) prog" where
  "knowledge_execute K R now q =
     andThen
       (let k = kind_text (req_action_kind q); input = req_input q in
        if k = KNOWLEDGE_SEARCH then
          andThen (lift (parsed (kc_query K input))) (\<lambda>i.
          andThen (to_failed repository_message (rp_search R i)) (\<lambda>rs. json_payload (kc_results_value K rs)))
        else if k = KNOWLEDGE_GET_ENTRY then
          andThen (lift (parsed (kc_entry_id K input))) (\<lambda>i.
          andThen (to_failed repository_message (rp_get_entry R i)) (\<lambda>e. json_payload (kc_entry_value K e)))
        else if k = KNOWLEDGE_CREATE_DRAFT then
          andThen (lift (parsed (kc_draft_fields K input))) (\<lambda>i.
          andThen (lift (parsed (map_sum validation_message id (into_draft i)))) (\<lambda>d. json_payload (kc_draft_value K d)))
        else if k = KNOWLEDGE_SAVE_ENTRY then
          andThen (lift (parsed (kc_draft K input))) (\<lambda>d.
          andThen (lift (parsed (map_sum validation_message id (validate_for_write d)))) (\<lambda>_.
          andThen (to_failed repository_message (rp_save_draft R d)) (\<lambda>e. json_payload (kc_entry_value K (Some e)))))
        else if k = KNOWLEDGE_UPDATE_ENTRY then
          andThen (lift (parsed (kc_update K input))) (\<lambda>(i, u).
          andThen (to_failed repository_message (rp_update_entry R i u)) (\<lambda>e. json_payload (kc_entry_value K (Some e))))
        else raise (NotSupported (req_action_kind q)))
       (\<lambda>payload. ret \<lparr>res_status = StCompleted, res_payload = payload,
          res_summary = kind_text (req_action_kind q) @ '' completed'', res_completed_at = now\<rparr>)"

section \<open>Entries keep their names\<close>

interpretation entry_names: numbered_table entry_name
  by unfold_locales (simp add: entry_name_def)

text \<open>What a repository holds after any requests: the entry names are given in order, and every
  entry stands under its own name.\<close>

definition entries_inv :: "entry_table \<Rightarrow> bool" where
  "entries_inv m \<longleftrightarrow> numbered entry_name m \<and> (\<forall>k e. m_get m k = Some e \<longrightarrow> ke_id (se_ref e) = k)"

lemma entries_inv_save: "entries_inv m \<Longrightarrow> entries_inv (snd (memory_save_draft d m))"
  using entry_names.numbered_put [of m] by (auto simp: entries_inv_def memory_save_draft_def Let_def split: if_splits)

lemma entries_inv_update: "entries_inv m \<Longrightarrow> entries_inv (snd (memory_update_entry i u m))"
  by (auto simp: entries_inv_def memory_update_entry_def entry_names.numbered_modify updated_entry_def split: option.splits if_splits)

lemma map_sum_id_Inr [simp]: "map_sum f id x = Inr y \<longleftrightarrow> x = Inr y"
  by (cases x) simp_all

text \<open>An action changes the repository in memory by one saved draft, by one update or not at all.\<close>

lemma knowledge_execute_effect:
  assumes "knowledge_execute K (memory_repository F lc) now q m = (r, m')"
  shows "m' = m \<or> (\<exists>d. kc_draft K (req_input q) = Inr d \<and> validate_for_write d = Inr () \<and> m' = snd (memory_save_draft d m)) \<or>
    (\<exists>i u. kc_update K (req_input q) = Inr (i, u) \<and> m' = snd (memory_update_entry i u m))"
  using assms
  by (auto simp: knowledge_execute_def memory_repository_def prog_simps andThen_def to_failed_def parsed_def json_payload_def Let_def
      memory_get_entry_def memory_search_def into_draft_def split: if_splits sum.splits prod.splits)

text \<open>What never changes of an entry once it is saved.\<close>

definition same_origin :: "stored_entry \<Rightarrow> stored_entry \<Rightarrow> bool" where
  "same_origin e e' \<longleftrightarrow> ke_id (se_ref e') = ke_id (se_ref e) \<and> ke_artifact_id (se_ref e') = ke_artifact_id (se_ref e) \<and>
     ke_asset_id (se_ref e') = ke_asset_id (se_ref e) \<and> ke_created_at (se_ref e') = ke_created_at (se_ref e)"

definition entries_kept :: "entry_table \<Rightarrow> entry_table \<Rightarrow> bool" where
  "entries_kept m m' \<longleftrightarrow> list_all (\<lambda>(k, e). case m_get m' k of None \<Rightarrow> False | Some e' \<Rightarrow> same_origin e e') m"

lemma entries_kept_iff:
  assumes "entries_inv m"
  shows "entries_kept m m' \<longleftrightarrow> (\<forall>k e. m_get m k = Some e \<longrightarrow> (\<exists>e'. m_get m' k = Some e' \<and> same_origin e e'))"
proof -
  have "hm_inv m" using assms entry_names.numbered_inv unfolding entries_inv_def by blast
  then have "(k, e) \<in> set m \<longleftrightarrow> m_get m k = Some e" for k e
    by (simp add: m_get_def hm_inv_def map_of_eq_Some_iff)
  then show ?thesis by (fastforce simp: entries_kept_def list_all_iff split: option.splits prod.splits)
qed

lemma same_origin_refl [simp]: "same_origin e e"
  by (simp add: same_origin_def)

lemma same_origin_trans: "same_origin a b \<Longrightarrow> same_origin b c \<Longrightarrow> same_origin a c"
  by (simp add: same_origin_def)

lemma entries_kept_save: "entries_inv m \<Longrightarrow> entries_kept m (snd (memory_save_draft d m))"
  using entry_names.get_next [of m] by (auto simp: entries_kept_iff entries_inv_def memory_save_draft_def Let_def)

lemma entries_kept_update: "entries_inv m \<Longrightarrow> entries_kept m (snd (memory_update_entry i u m))"
  by (auto simp: entries_kept_iff memory_update_entry_def updated_entry_def same_origin_def split: option.splits)

definition repository_action ::
    "'f knowledge_codec \<Rightarrow> 'f float_ops \<Rightarrow> (string \<Rightarrow> string) \<Rightarrow> datetime \<times> action_request \<Rightarrow> entry_table \<Rightarrow> entry_table" where
  "repository_action K F lc x m = snd (knowledge_execute K (memory_repository F lc) (fst x) (snd x) m)"

lemma repository_action_keeps:
  assumes "entries_inv m"
  shows "entries_inv (repository_action K F lc x m)" and "entries_kept m (repository_action K F lc x m)"
proof -
  obtain r m' where step: "knowledge_execute K (memory_repository F lc) (fst x) (snd x) m = (r, m')" by fastforce
  have "entries_kept m m" using assms by (simp add: entries_kept_iff)
  with knowledge_execute_effect [OF step] assms step
  show "entries_inv (repository_action K F lc x m)" and "entries_kept m (repository_action K F lc x m)"
    by (auto simp: repository_action_def entries_inv_save entries_inv_update entries_kept_save entries_kept_update)
qed

text \<open>
  Whatever actions run on the repository in memory, its entries are named
  knowledge-entry-1, knowledge-entry-2 and so on, and an entry once saved stays
  in it under its name with its artifact, its asset and its time of creation.
\<close>

lemma saved_entries_stay:
  fixes before later :: "(datetime \<times> action_request) list" and K :: "'f knowledge_codec" and F :: "'f float_ops" and lc :: "string \<Rightarrow> string"
  defines "m \<equiv> fold (repository_action K F lc) before []" and "m' \<equiv> fold (repository_action K F lc) (before @ later) []"
  shows "entries_kept m m' \<and> map fst m' = map entry_name [1..<length m' + 1]"
proof -
  have run: "entries_inv (fold (repository_action K F lc) xs m0) \<and> entries_kept m0 (fold (repository_action K F lc) xs m0)"
    if "entries_inv m0" for xs m0
    using that
  proof (induction xs arbitrary: m0)
    case Nil
    then show ?case by (simp add: entries_kept_iff)
  next
    case (Cons x xs)
    note first = repository_action_keeps [OF Cons.prems, of K F lc x]
    note rest = Cons.IH [OF first(1)]
    have "entries_kept m0 (fold (repository_action K F lc) xs (repository_action K F lc x m0))"
      using first rest Cons.prems by (fastforce simp: entries_kept_iff intro: same_origin_trans)
    with rest show ?case by simp
  qed
  have empty: "entries_inv []" by (simp add: entries_inv_def numbered_def m_get_def)
  have "entries_inv m" using run [OF empty, of "before"] by (simp add: m_def)
  from run [OF this, of later] show ?thesis
    by (simp add: m_def m'_def entries_inv_def numbered_def)
qed

text \<open>What a search shows: the entries that match, in the order of their names, none twice.\<close>

lemma memory_search_correct:
  assumes "memory_search F lc q m = (Inr rs, m')" and "r \<in> set rs"
  shows "\<exists>e \<in> set (m_values m). entry_found lc q e \<and> kr_entry r = se_ref e" and "length rs \<le> kq_limit q" and "m' = m"
  using assms by (auto simp: memory_search_def dest!: in_set_takeD) blast

lemma memory_search_complete:
  assumes "memory_search F lc q m = (Inr rs, m')" and "length m \<le> kq_limit q" and "e \<in> set (m_values m)" and "entry_found lc q e"
  shows "\<exists>r \<in> set rs. kr_entry r = se_ref e"
proof -
  have "length (filter (entry_found lc q) (m_values m)) \<le> kq_limit q"
    using length_filter_le [of "entry_found lc q" "m_values m"] assms(2) unfolding m_values_def by (metis le_trans length_map)
  then have "set rs = (\<lambda>e. \<lparr>kr_entry = se_ref e, kr_score = fl_of_nat F (if lc (kq_text q) = [] then 0 else 1),
      kr_snippet = Some (take_chars 120 (se_content e)), kr_permission_required = False, kr_confidentiality = None\<rparr>) `
      {e \<in> set (m_values m). entry_found lc q e}"
    using assms(1) by (auto simp: memory_search_def)
  with assms(3,4) show ?thesis by auto
qed

text \<open>An update is not validated: it can make a title blank.\<close>

lemma update_may_blank_title:
  "m_get m i = Some e \<Longrightarrow> \<exists>r. memory_update_entry i (knowledge_update_new\<lparr>ku_title := Some []\<rparr>) m = (Inr r, m_modify i (updated_entry (knowledge_update_new\<lparr>ku_title := Some []\<rparr>)) m) \<and> ke_title r = []"
  by (simp add: memory_update_entry_def updated_entry_def)

text \<open>The schema of the update action is never registered.\<close>

lemma update_kind_unregistered:
  "get_action (snd (register_knowledge_action_schemas [])) (ActionKind KNOWLEDGE_UPDATE_ENTRY) = None"
  by (simp add: register_knowledge_action_schemas_def andThen_def register_action_def knowledge_schema_def get_action_def m_get_def m_contains_def
      KNOWLEDGE_SEARCH_def KNOWLEDGE_GET_ENTRY_def KNOWLEDGE_CREATE_DRAFT_def KNOWLEDGE_SAVE_ENTRY_def KNOWLEDGE_UPDATE_ENTRY_def Let_def)

section \<open>Records of the knowledge engine\<close>

text \<open>The fields of a JSON object stand in the order of their names.\<close>

datatype (plugins only: code size) knowledge_object_id = KnowledgeObjectId string
datatype (plugins only: code size) knowledge_relation_id = KnowledgeRelationId string
datatype (plugins only: code size) knowledge_attribute_id = KnowledgeAttributeId string
datatype (plugins only: code size) knowledge_claim_id = KnowledgeClaimId string
datatype (plugins only: code size) knowledge_asset_binding_id = KnowledgeAssetBindingId string
datatype (plugins only: code size) knowledge_event_id = KnowledgeEventId string
datatype (plugins only: code size) knowledge_audit_id = KnowledgeAuditId string
datatype (plugins only: code size) knowledge_transaction_id = KnowledgeTransactionId string

record knowledge_actor =
  ka_actor_type :: string
  ka_actor_id :: string
  ka_delegated_by :: "string option"

definition actor_engine :: "string \<Rightarrow> knowledge_actor" where
  "actor_engine d = \<lparr>ka_actor_type = ''engine'', ka_actor_id = ''knowledge-engine'', ka_delegated_by = Some d\<rparr>"

definition actor_llm :: "string \<Rightarrow> string \<Rightarrow> knowledge_actor" where
  "actor_llm i d = \<lparr>ka_actor_type = ''llm'', ka_actor_id = i, ka_delegated_by = Some d\<rparr>"

record knowledge_event_envelope =
  kv_event_id :: knowledge_event_id
  kv_event_type :: string
  kv_schema_version :: string
  kv_timestamp :: datetime
  kv_transaction_id :: knowledge_transaction_id
  kv_causation_id :: "string option"
  kv_correlation_id :: "string option"
  kv_actor :: knowledge_actor
  kv_payload :: json
  kv_evidence_refs :: "evidence_id list"
  kv_audit_refs :: "knowledge_audit_id list"
  kv_prev_event_hash :: "string option"
  kv_event_hash :: "string option"

definition event_envelope_new ::
    "knowledge_event_id \<Rightarrow> string \<Rightarrow> knowledge_transaction_id \<Rightarrow> knowledge_actor \<Rightarrow> json \<Rightarrow> datetime \<Rightarrow> knowledge_event_envelope" where
  "event_envelope_new i ty tx actor payload at =
     \<lparr>kv_event_id = i, kv_event_type = ty, kv_schema_version = ''0.1.0'', kv_timestamp = at, kv_transaction_id = tx,
      kv_causation_id = None, kv_correlation_id = None, kv_actor = actor, kv_payload = payload, kv_evidence_refs = [],
      kv_audit_refs = [], kv_prev_event_hash = None, kv_event_hash = None\<rparr>"

record 'f knowledge_object_record =
  ko_record_type :: string
  ko_object_id :: knowledge_object_id
  ko_canonical_name :: string
  ko_object_types :: "string list"
  ko_status :: string
  ko_identity :: json
  ko_created_at :: datetime
  ko_updated_at :: datetime
  ko_version :: nat
  ko_last_event_id :: knowledge_event_id
  ko_trust_score :: 'f

definition object_record_new ::
    "'f float_ops \<Rightarrow> knowledge_object_id \<Rightarrow> string \<Rightarrow> string list \<Rightarrow> knowledge_event_id \<Rightarrow> datetime \<Rightarrow> 'f knowledge_object_record" where
  "object_record_new F i name types ev now =
     \<lparr>ko_record_type = ''object'', ko_object_id = i, ko_canonical_name = name, ko_object_types = types, ko_status = ''active'',
      ko_identity = JObject [(''aliases'', JArray []), (''canonical_name'', JString name)], ko_created_at = now, ko_updated_at = now,
      ko_version = 1, ko_last_event_id = ev, ko_trust_score = fl_of_nat F 0\<rparr>"

record 'f knowledge_attribute_record =
  kt_record_type :: string
  kt_attribute_id :: knowledge_attribute_id
  kt_object_id :: knowledge_object_id
  kt_attribute_key :: string
  kt_attribute_type :: string
  kt_value :: json
  kt_constraints :: json
  kt_status :: string
  kt_confidence :: 'f
  kt_evidence_refs :: "evidence_id list"
  kt_created_at :: datetime
  kt_updated_at :: datetime
  kt_last_event_id :: knowledge_event_id

record 'f knowledge_relation_record =
  kl_record_type :: string
  kl_relation_id :: knowledge_relation_id
  kl_from_object_id :: knowledge_object_id
  kl_relation_type :: string
  kl_to_object_id :: knowledge_object_id
  kl_direction :: string
  kl_relation_attributes :: json
  kl_status :: string
  kl_confidence :: 'f
  kl_evidence_refs :: "evidence_id list"
  kl_created_at :: datetime
  kl_updated_at :: datetime
  kl_last_event_id :: knowledge_event_id

record 'f knowledge_claim_record =
  km_record_type :: string
  km_claim_id :: knowledge_claim_id
  km_subject :: json
  km_claim_text :: string
  km_claim_status :: string
  km_confidence :: 'f
  km_evidence_refs :: "evidence_id list"
  km_negotiation_refs :: "string list"
  km_created_at :: datetime
  km_updated_at :: datetime

datatype (plugins only: code size) knowledge_asset_status =
    ImportedUnbound | CandidateBound | ActiveBound | EvidenceBound | AssetDeprecated | GarbageCollectable

datatype (plugins only: code size) asset_representation_kind =
    MetadataOnly | BindingSummary | SemanticSummary | OcrText | Transcript | Thumbnail | Preview | OptimizedBlob | RawBlob

datatype (plugins only: code size) knowledge_binding_target =
    TargetObject knowledge_object_id
  | TargetObjectAttribute knowledge_object_id string
  | TargetObjectState knowledge_object_id string
  | TargetRelation knowledge_relation_id
  | TargetClaim knowledge_claim_id
  | TargetEvidence evidence_id
  | TargetEvent knowledge_event_id

record knowledge_asset_visibility =
  av_llm_access :: string
  av_raw_blob_access :: bool

definition asset_visibility_default :: knowledge_asset_visibility where
  "asset_visibility_default = \<lparr>av_llm_access = ''metadata_and_derivatives_only'', av_raw_blob_access = False\<rparr>"

record knowledge_blob_metadata =
  kb_blob_hash :: string
  kb_size_bytes :: nat
  kb_mime_type_detected :: string
  kb_compression :: string
  kb_created_at :: datetime
  kb_integrity :: json
  kb_storage :: json

text \<open>\<open>show_time\<close> is the JSON text of a time.\<close>

definition blob_metadata_sha256 :: "(datetime \<Rightarrow> string) \<Rightarrow> string \<Rightarrow> nat \<Rightarrow> string \<Rightarrow> string \<Rightarrow> datetime \<Rightarrow> knowledge_blob_metadata" where
  "blob_metadata_sha256 show_time h n mime path at =
     \<lparr>kb_blob_hash = h, kb_size_bytes = n, kb_mime_type_detected = mime, kb_compression = ''none'', kb_created_at = at,
      kb_integrity = JObject [(''hash_algorithm'', JString ''sha256''), (''verified_at'', JString (show_time at))],
      kb_storage = JObject [(''encrypted'', JBool False), (''path'', JString path)]\<rparr>"

record knowledge_asset_record =
  kx_record_type :: string
  kx_asset_id :: asset_id
  kx_asset_type :: string
  kx_mime_type :: string
  kx_original_filename :: "string option"
  kx_blob_refs :: "(string, string) hmap"
  kx_title :: "string option"
  kx_description :: "string option"
  kx_source :: json
  kx_technical_metadata :: json
  kx_semantic_metadata :: json
  kx_status :: knowledge_asset_status
  kx_visibility :: knowledge_asset_visibility
  kx_created_at :: datetime
  kx_updated_at :: datetime
  kx_last_event_id :: knowledge_event_id

record 'f asset_binding_confidence =
  bc_extraction :: 'f
  bc_binding :: 'f
  bc_truth :: 'f

definition confidence_candidate :: "'f float_ops \<Rightarrow> 'f \<Rightarrow> 'f \<Rightarrow> 'f asset_binding_confidence" where
  "confidence_candidate F x b = \<lparr>bc_extraction = x, bc_binding = b, bc_truth = fl_of_nat F 0\<rparr>"

record 'f asset_property_binding =
  kp_record_type :: string
  kp_binding_id :: knowledge_asset_binding_id
  kp_asset_id :: asset_id
  kp_binding_target :: knowledge_binding_target
  kp_evidence_mode :: string
  kp_observed_value :: json
  kp_localization :: json
  kp_confidence :: "'f asset_binding_confidence"
  kp_status :: string
  kp_extracted_by :: json
  kp_evidence_refs :: "evidence_id list"
  kp_negotiation_refs :: "string list"
  kp_created_at :: datetime

definition property_binding_candidate ::
    "knowledge_asset_binding_id \<Rightarrow> asset_id \<Rightarrow> knowledge_binding_target \<Rightarrow> string \<Rightarrow> json \<Rightarrow> 'f asset_binding_confidence \<Rightarrow> datetime \<Rightarrow>
     'f asset_property_binding" where
  "property_binding_candidate i a target mode observed c at =
     \<lparr>kp_record_type = ''asset_property_binding'', kp_binding_id = i, kp_asset_id = a, kp_binding_target = target, kp_evidence_mode = mode,
      kp_observed_value = observed, kp_localization = JObject [], kp_confidence = c, kp_status = ''candidate'',
      kp_extracted_by = JObject [], kp_evidence_refs = [], kp_negotiation_refs = [], kp_created_at = at\<rparr>"

record knowledge_audit_record =
  kz_audit_id :: knowledge_audit_id
  kz_timestamp :: datetime
  kz_operation_type :: string
  kz_operation_id :: string
  kz_transaction_id :: "knowledge_transaction_id option"
  kz_actor :: knowledge_actor
  kz_interface :: json
  kz_target :: json
  kz_request :: json
  kz_process :: json
  kz_result :: json
  kz_prev_audit_hash :: "string option"
  kz_audit_hash :: "string option"

definition audit_record_query ::
    "knowledge_audit_id \<Rightarrow> string \<Rightarrow> knowledge_actor \<Rightarrow> string \<Rightarrow> string \<Rightarrow> nat \<Rightarrow> string list \<Rightarrow> datetime \<Rightarrow> knowledge_audit_record" where
  "audit_record_query i op actor endpoint params_hash n ids at =
     \<lparr>kz_audit_id = i, kz_timestamp = at, kz_operation_type = ''query'', kz_operation_id = op, kz_transaction_id = None, kz_actor = actor,
      kz_interface = JObject [(''endpoint'', JString endpoint), (''kind'', JString ''engine_api'')], kz_target = JObject [],
      kz_request = JObject [(''params_hash'', JString params_hash)], kz_process = JObject [],
      kz_result = JObject [(''result_summary'', JObject
        [(''result_count'', JNumber (decimal n)), (''returned_ids'', JArray (map JString ids)), (''truncated'', JBool False)]),
        (''status'', JString ''returned'')],
      kz_prev_audit_hash = None, kz_audit_hash = None\<rparr>"

datatype (plugins only: code size) engine_access_mode = LlmControlledPacket | EngineApi | DirectFilesystem

definition access_mode_allowed :: "engine_access_mode \<Rightarrow> bool" where
  "access_mode_allowed m \<longleftrightarrow> m \<noteq> DirectFilesystem"

end
