(* ===== verification/Storage.thy ===== *)
theory Storage
  imports File_System Registries "HOL-Library.Product_Lexorder"
begin
text \<open>
  The storage root of \<open>agentos-storage\<close>: the layout and its manifest (\<open>lib.rs\<close>), the lock of
  its single writer (\<open>lock.rs\<close>) and migrations (\<open>migration.rs\<close>). A JSON form is a pair of
  functions; the texts of times and of errors of the system are parameters.
\<close>

section \<open>Errors and files\<close>

datatype (plugins only: code size) storage_error =
    StorageIo path io_error
  | ManifestSerde path string
  | LockSerde path string
  | ArtifactSerde path string
  | KnowledgeEngineSerde path string
  | KnowledgeEngineRecordShape path string
  | InvalidKnowledgeBlobHash string
  | ArtifactAlreadyExists string
  | InvalidArtifactIdPath string
  | BackupManifestSerde path string
  | BackupTargetNotEmpty path
  | BackupFileMissing string
  | BackupUnexpectedFile string
  | BackupInvalidFilePath string
  | BackupIntegrityMismatch string string string
  | RestoreIntegrityFailed string
  | LockAlreadyHeld path string datetime
  | UnsupportedVersion nat nat
  | DuplicateMigration nat nat
  | InvalidMigration string nat nat
  | MigrationPathNotFound nat nat
  | MigrationFailed string string

record storage_texts =
  tx_io :: "io_error \<Rightarrow> string"
  tx_time :: "datetime \<Rightarrow> string"

definition path_text :: "path \<Rightarrow> string" where
  "path_text p = ''/'' @ join_with ''/'' p"

fun storage_message :: "storage_texts \<Rightarrow> storage_error \<Rightarrow> string" where
  "storage_message T (StorageIo p e) = ''storage io error at '' @ path_text p @ '': '' @ tx_io T e"
| "storage_message T (ManifestSerde p e) = ''storage manifest serialization failed at '' @ path_text p @ '': '' @ e"
| "storage_message T (LockSerde p e) = ''storage lock serialization failed at '' @ path_text p @ '': '' @ e"
| "storage_message T (ArtifactSerde p e) = ''artifact serialization failed at '' @ path_text p @ '': '' @ e"
| "storage_message T (KnowledgeEngineSerde p e) = ''knowledge engine serialization failed at '' @ path_text p @ '': '' @ e"
| "storage_message T (KnowledgeEngineRecordShape p e) = ''knowledge engine record shape error at '' @ path_text p @ '': '' @ e"
| "storage_message T (InvalidKnowledgeBlobHash h) = ''invalid knowledge blob sha256 hash: '' @ h"
| "storage_message T (ArtifactAlreadyExists i) = ''artifact already exists: '' @ i"
| "storage_message T (InvalidArtifactIdPath i) = ''invalid artifact id for filesystem path: '' @ i"
| "storage_message T (BackupManifestSerde p e) = ''backup manifest serialization failed at '' @ path_text p @ '': '' @ e"
| "storage_message T (BackupTargetNotEmpty p) = ''backup/restore target is not empty: '' @ path_text p"
| "storage_message T (BackupFileMissing p) = ''backup file missing: '' @ p"
| "storage_message T (BackupUnexpectedFile p) = ''backup contains unexpected file: '' @ p"
| "storage_message T (BackupInvalidFilePath p) = ''backup manifest contains invalid file path: '' @ p"
| "storage_message T (BackupIntegrityMismatch p x a) = ''backup integrity mismatch at '' @ p @ '': expected '' @ x @ '', actual '' @ a"
| "storage_message T (RestoreIntegrityFailed m) = ''restore integrity failed: '' @ m"
| "storage_message T (LockAlreadyHeld p owner at) =
     ''storage lock already held at '' @ path_text p @ '' by '' @ owner @ '' until '' @ tx_time T at"
| "storage_message T (UnsupportedVersion f x) = ''unsupported storage version '' @ decimal f @ '', expected '' @ decimal x"
| "storage_message T (DuplicateMigration f t) = ''duplicate storage migration '' @ decimal f @ '' -> '' @ decimal t"
| "storage_message T (InvalidMigration n f t) = ''invalid storage migration '' @ n @ '': '' @ decimal f @ '' -> '' @ decimal t"
| "storage_message T (MigrationPathNotFound f t) =
     ''storage migration path not found from '' @ decimal f @ '' to '' @ decimal t"
| "storage_message T (MigrationFailed n m) = ''storage migration '' @ n @ '' failed: '' @ m"

type_synonym 'a storage_prog = "(fs_node, storage_error, 'a) prog"

definition io :: "path \<Rightarrow> 'a fs_prog \<Rightarrow> 'a storage_prog" where
  "io p m = (\<lambda>s. case m s of (r, s') \<Rightarrow> (map_sum (StorageIo p) id r, s'))"

record 'a json_form =
  jf_write :: "'a \<Rightarrow> string + string"
  jf_read :: "string \<Rightarrow> string + 'a"

definition json_form_ok :: "'a json_form \<Rightarrow> bool" where
  "json_form_ok J \<longleftrightarrow> (\<forall>x b. jf_write J x = Inr b \<longrightarrow> jf_read J b = Inr x)"

definition read_json :: "(path \<Rightarrow> string \<Rightarrow> storage_error) \<Rightarrow> 'a json_form \<Rightarrow> path \<Rightarrow> 'a storage_prog" where
  "read_json err J p = andThen (io p (fs_read p)) (\<lambda>b. lift (map_sum (err p) id (jf_read J b)))"

definition write_json :: "(path \<Rightarrow> string \<Rightarrow> storage_error) \<Rightarrow> 'a json_form \<Rightarrow> path \<Rightarrow> 'a \<Rightarrow> unit storage_prog" where
  "write_json err J p x = andThen (lift (map_sum (err p) id (jf_write J x))) (\<lambda>b. io p (fs_write p b))"

section \<open>Layout and manifest\<close>

definition STORAGE_LAYOUT_VERSION :: nat where "STORAGE_LAYOUT_VERSION = 1"

definition STORAGE_LAYOUT_DIRECTORIES :: "string list" where
  "STORAGE_LAYOUT_DIRECTORIES =
     [''config'', ''conversations'', ''runs'', ''actions'', ''approvals'', ''audit'', ''artifacts'', ''knowledge'', ''indexes'',
      ''identity'', ''connectors'']"

definition KNOWLEDGE_ENGINE_STORE_DIR :: string where "KNOWLEDGE_ENGINE_STORE_DIR = ''.ke-store''"

definition KNOWLEDGE_ENGINE_AUTHORITATIVE_LAYERS :: "string list" where
  "KNOWLEDGE_ENGINE_AUTHORITATIVE_LAYERS = [''events'', ''audit'', ''blobs'']"

definition KNOWLEDGE_ENGINE_PROJECTION_LAYERS :: "string list" where
  "KNOWLEDGE_ENGINE_PROJECTION_LAYERS = [''records'', ''indexes'', ''snapshots'', ''derivatives'']"

definition KNOWLEDGE_ENGINE_LAYOUT_DIRECTORIES :: "string list" where
  "KNOWLEDGE_ENGINE_LAYOUT_DIRECTORIES =
     [''events'', ''audit'', ''records'', ''blobs'', ''blobs/sha256'', ''derivatives'', ''derivatives/previews'',
      ''derivatives/thumbnails'', ''derivatives/ocr'', ''derivatives/extracted'', ''derivatives/transcripts'',
      ''derivatives/keyframes'', ''derivatives/embeddings'', ''indexes'', ''indexes/sqlite'', ''indexes/tantivy'',
      ''indexes/graph'', ''indexes/vector'', ''snapshots'', ''exports'', ''quarantine'']"

record storage_manifest =
  mf_storage_version :: nat
  mf_created_at :: datetime
  mf_updated_at :: datetime
  mf_layout_directories :: "string list"
  mf_knowledge_engine_store_dir :: string
  mf_knowledge_engine_layout_directories :: "string list"
  mf_knowledge_engine_authoritative_layers :: "string list"
  mf_knowledge_engine_projection_layers :: "string list"

definition storage_manifest_new :: "datetime \<Rightarrow> storage_manifest" where
  "storage_manifest_new now =
     \<lparr>mf_storage_version = STORAGE_LAYOUT_VERSION, mf_created_at = now, mf_updated_at = now,
      mf_layout_directories = STORAGE_LAYOUT_DIRECTORIES, mf_knowledge_engine_store_dir = KNOWLEDGE_ENGINE_STORE_DIR,
      mf_knowledge_engine_layout_directories = KNOWLEDGE_ENGINE_LAYOUT_DIRECTORIES,
      mf_knowledge_engine_authoritative_layers = KNOWLEDGE_ENGINE_AUTHORITATIVE_LAYERS,
      mf_knowledge_engine_projection_layers = KNOWLEDGE_ENGINE_PROJECTION_LAYERS\<rparr>"

definition refreshed :: "datetime \<Rightarrow> storage_manifest \<Rightarrow> storage_manifest" where
  "refreshed now m =
     m\<lparr>mf_updated_at := now, mf_layout_directories := STORAGE_LAYOUT_DIRECTORIES,
       mf_knowledge_engine_store_dir := KNOWLEDGE_ENGINE_STORE_DIR,
       mf_knowledge_engine_layout_directories := KNOWLEDGE_ENGINE_LAYOUT_DIRECTORIES,
       mf_knowledge_engine_authoritative_layers := KNOWLEDGE_ENGINE_AUTHORITATIVE_LAYERS,
       mf_knowledge_engine_projection_layers := KNOWLEDGE_ENGINE_PROJECTION_LAYERS\<rparr>"

record agent_os_storage =
  os_root :: path
  os_manifest :: storage_manifest

definition manifest_path :: "path \<Rightarrow> path" where
  "manifest_path root = root @ [''manifest.json'']"

definition read_manifest :: "storage_manifest json_form \<Rightarrow> path \<Rightarrow> storage_manifest storage_prog" where
  "read_manifest J = read_json ManifestSerde J"

definition write_manifest :: "storage_manifest json_form \<Rightarrow> path \<Rightarrow> storage_manifest \<Rightarrow> unit storage_prog" where
  "write_manifest J = write_json ManifestSerde J"

definition create_dir_all :: "path \<Rightarrow> unit storage_prog" where
  "create_dir_all p = io p (fs_create_dir_all p)"

fun create_dirs :: "path list \<Rightarrow> unit storage_prog" where
  "create_dirs [] = ret ()"
| "create_dirs (p # ps) = andThen (create_dir_all p) (\<lambda>_. create_dirs ps)"

definition knowledge_engine_root :: "path \<Rightarrow> path" where
  "knowledge_engine_root root = root @ [KNOWLEDGE_ENGINE_STORE_DIR]"

text \<open>The manifest found, brought up to date, or a new one.\<close>

definition current_manifest :: "storage_manifest json_form \<Rightarrow> datetime \<Rightarrow> path \<Rightarrow> storage_manifest storage_prog" where
  "current_manifest J now root s =
     (if path_exists (manifest_path root) s
      then andThen (read_manifest J (manifest_path root)) (\<lambda>m. ret (refreshed now m)) s
      else (Inr (storage_manifest_new now), s))"

definition storage_init :: "storage_manifest json_form \<Rightarrow> datetime \<Rightarrow> path \<Rightarrow> agent_os_storage storage_prog" where
  "storage_init J now root =
     andThen (create_dir_all root) (\<lambda>_.
     andThen (create_dirs (map (join_path root) STORAGE_LAYOUT_DIRECTORIES)) (\<lambda>_.
     andThen (create_dir_all (knowledge_engine_root root)) (\<lambda>_.
     andThen (create_dirs (map (join_path (knowledge_engine_root root)) KNOWLEDGE_ENGINE_LAYOUT_DIRECTORIES)) (\<lambda>_.
     andThen (current_manifest J now root) (\<lambda>m.
       if mf_storage_version m \<noteq> STORAGE_LAYOUT_VERSION
       then raise (UnsupportedVersion (mf_storage_version m) STORAGE_LAYOUT_VERSION)
       else andThen (write_manifest J (manifest_path root) m) (\<lambda>_. ret \<lparr>os_root = root, os_manifest = m\<rparr>))))))"

section \<open>The lock of the single writer\<close>

definition STORAGE_LOCK_VERSION :: nat where "STORAGE_LOCK_VERSION = 1"
definition STORAGE_LOCK_FILE_NAME :: string where "STORAGE_LOCK_FILE_NAME = ''.agentos-storage.lock''"

record storage_lock_info =
  lk_version :: nat
  lk_owner_id :: string
  lk_process_id :: nat
  lk_acquired_at :: datetime
  lk_expires_at :: datetime

record storage_lock_options =
  lo_owner_id :: string
  lo_ttl :: int

record storage_lock_guard =
  lg_lock_path :: path
  lg_info :: storage_lock_info
  lg_released :: bool

definition read_lock_info :: "storage_lock_info json_form \<Rightarrow> path \<Rightarrow> storage_lock_info storage_prog" where
  "read_lock_info J = read_json LockSerde J"

definition remove_lock_file :: "path \<Rightarrow> unit storage_prog" where
  "remove_lock_file p s =
     (case fs_remove_file p s of
        (Inl IoNotFound, s') \<Rightarrow> (Inr (), s')
      | (r, s') \<Rightarrow> (map_sum (StorageIo p) id r, s'))"

text \<open>The three steps of taking the lock: looking at it (the result tells whether a stale lock
  has to go), removing a stale one, and creating one's own.\<close>

definition inspect_lock :: "storage_lock_info json_form \<Rightarrow> datetime \<Rightarrow> path \<Rightarrow> bool storage_prog" where
  "inspect_lock J now p s =
     (if path_exists p s
      then andThen (read_lock_info J p) (\<lambda>existing.
        if now < lk_expires_at existing then raise (LockAlreadyHeld p (lk_owner_id existing) (lk_expires_at existing)) else ret True) s
      else (Inr False, s))"

definition lock_info_of :: "storage_lock_options \<Rightarrow> nat \<Rightarrow> datetime \<Rightarrow> storage_lock_info" where
  "lock_info_of opts pid now =
     \<lparr>lk_version = STORAGE_LOCK_VERSION, lk_owner_id = lo_owner_id opts, lk_process_id = pid, lk_acquired_at = now,
      lk_expires_at = now + lo_ttl opts\<rparr>"

definition create_lock :: "storage_lock_info json_form \<Rightarrow> path \<Rightarrow> storage_lock_info \<Rightarrow> storage_lock_guard storage_prog" where
  "create_lock J p info =
     andThen (lift (map_sum (LockSerde p) id (jf_write J info))) (\<lambda>b.
     andThen (\<lambda>s. case fs_create_new p s of
         (Inl IoAlreadyExists, s') \<Rightarrow>
           andThen (read_lock_info J p) (\<lambda>existing.
             raise (LockAlreadyHeld p (lk_owner_id existing) (lk_expires_at existing))) s'
       | (r, s') \<Rightarrow> (map_sum (StorageIo p) id r, s')) (\<lambda>_.
     andThen (io p (fs_append p b)) (\<lambda>_.
     ret \<lparr>lg_lock_path = p, lg_info = info, lg_released = False\<rparr>)))"

definition lock_acquire ::
    "storage_lock_info json_form \<Rightarrow> nat \<Rightarrow> datetime \<Rightarrow> path \<Rightarrow> storage_lock_options \<Rightarrow> storage_lock_guard storage_prog" where
  "lock_acquire J pid now root opts =
     (let p = root @ [STORAGE_LOCK_FILE_NAME] in
      andThen (inspect_lock J now p) (\<lambda>stale.
      andThen (if stale then remove_lock_file p else ret ()) (\<lambda>_.
      create_lock J p (lock_info_of opts pid now))))"

definition release_inner :: "storage_lock_info json_form \<Rightarrow> storage_lock_guard \<Rightarrow> unit storage_prog" where
  "release_inner J g s =
     (if lg_released g \<or> \<not> path_exists (lg_lock_path g) s then (Inr (), s)
      else case read_lock_info J (lg_lock_path g) s of
        (Inl _, s') \<Rightarrow> (Inr (), s')
      | (Inr current, s') \<Rightarrow>
          if lk_owner_id current = lk_owner_id (lg_info g) \<and> lk_process_id current = lk_process_id (lg_info g) \<and>
             lk_acquired_at current = lk_acquired_at (lg_info g)
          then remove_lock_file (lg_lock_path g) s' else (Inr (), s'))"

definition lock_release :: "storage_lock_info json_form \<Rightarrow> storage_lock_guard \<Rightarrow> storage_lock_guard storage_prog" where
  "lock_release J g = andThen (release_inner J g) (\<lambda>_. ret (g\<lparr>lg_released := True\<rparr>))"

text \<open>Dropping a guard releases it and ignores the error.\<close>

definition lock_drop :: "storage_lock_info json_form \<Rightarrow> storage_lock_guard \<Rightarrow> fs_node \<Rightarrow> storage_lock_guard \<times> fs_node" where
  "lock_drop J g s = (g\<lparr>lg_released := True\<rparr>, snd (release_inner J g s))"

section \<open>Migrations\<close>

datatype (plugins only: code size) migration_mode = DryRunMode | ApplyMode

record migration_plan_step =
  ms_from_version :: nat
  ms_to_version :: nat
  ms_name :: string

record migration_plan =
  mp_current_version :: nat
  mp_target_version :: nat
  mp_steps :: "migration_plan_step list"

datatype (plugins only: code size) migration_status = MigrationDryRun | MigrationApplied | MigrationNoop

record migration_report =
  mr_status :: migration_status
  mr_from_version :: nat
  mr_to_version :: nat
  mr_applied_steps :: "migration_plan_step list"
  mr_backup_manifest_path :: "path option"

text \<open>A migration changes the files and the manifest; a manifest of a migration that fails is dropped.\<close>

record storage_migration =
  mg_name :: string
  mg_from_version :: nat
  mg_to_version :: nat
  mg_migrate :: "path \<Rightarrow> storage_manifest \<Rightarrow> storage_manifest storage_prog"

type_synonym migration_registry = "(nat \<times> nat, storage_migration) hmap"

definition register_migration :: "storage_migration \<Rightarrow> (migration_registry, storage_error, unit) prog" where
  "register_migration m reg =
     (let from = mg_from_version m; to = mg_to_version m in
      if to \<le> from then (Inl (InvalidMigration (mg_name m) from to), reg)
      else if m_contains reg (from, to) then (Inl (DuplicateMigration from to), reg)
      else (Inr (), bt_put (from, to) m reg))"

function plan_steps :: "migration_registry \<Rightarrow> nat \<Rightarrow> nat \<Rightarrow> storage_error + migration_plan_step list" where
  "plan_steps reg version target =
     (if version < target
      then case m_get reg (version, version + 1) of
          None \<Rightarrow> Inl (MigrationPathNotFound version target)
        | Some m \<Rightarrow> bind_result (plan_steps reg (version + 1) target) (\<lambda>steps.
            Inr (\<lparr>ms_from_version = version, ms_to_version = version + 1, ms_name = mg_name m\<rparr> # steps))
      else Inr [])"
  by pat_completeness auto

termination
  by (relation "measure (\<lambda>(reg, version, target). target - version)") auto

declare plan_steps.simps [simp del]

definition migration_plan_for :: "migration_registry \<Rightarrow> nat \<Rightarrow> nat \<Rightarrow> storage_error + migration_plan" where
  "migration_plan_for reg current target =
     (if current = target then Inr \<lparr>mp_current_version = current, mp_target_version = target, mp_steps = []\<rparr>
      else if target < current then Inl (MigrationPathNotFound current target)
      else bind_result (plan_steps reg current target) (\<lambda>steps.
        Inr \<lparr>mp_current_version = current, mp_target_version = target, mp_steps = steps\<rparr>))"

definition backup_manifest_file :: "path \<Rightarrow> nat \<Rightarrow> path storage_prog" where
  "backup_manifest_file root v =
     (let backup = root @ [''manifest.v'' @ decimal v @ ''.bak.json''] in
      andThen (io backup (fs_copy (manifest_path root) backup)) (\<lambda>_. ret backup))"

text \<open>The steps of a plan name registered migrations; \<open>None\<close> is the panic of the code where one does not.\<close>

fun run_steps ::
    "storage_texts \<Rightarrow> migration_registry \<Rightarrow> path \<Rightarrow> migration_plan_step list \<Rightarrow> storage_manifest \<Rightarrow> fs_node \<Rightarrow>
     ((storage_error + storage_manifest) \<times> fs_node) option" where
  "run_steps T reg root [] m s = Some (Inr m, s)"
| "run_steps T reg root (step # steps) m s =
     (case m_get reg (ms_from_version step, ms_to_version step) of
        None \<Rightarrow> None
      | Some migration \<Rightarrow>
          (case mg_migrate migration root m s of
             (Inl e, s') \<Rightarrow> Some (Inl (MigrationFailed (ms_name step) (storage_message T e)), s')
           | (Inr m', s') \<Rightarrow> run_steps T reg root steps (m'\<lparr>mf_storage_version := ms_to_version step\<rparr>) s'))"

definition migrate ::
    "storage_texts \<Rightarrow> storage_manifest json_form \<Rightarrow> migration_registry \<Rightarrow> path \<Rightarrow> nat \<Rightarrow> migration_mode \<Rightarrow> fs_node \<Rightarrow>
     ((storage_error + migration_report) \<times> fs_node) option" where
  "migrate T J reg root target mode s =
     (case read_manifest J (manifest_path root) s of
        (Inl e, s1) \<Rightarrow> Some (Inl e, s1)
      | (Inr original, s1) \<Rightarrow>
          (let from = mf_storage_version original;
               report = \<lambda>st steps backup. \<lparr>mr_status = st, mr_from_version = from, mr_to_version = target,
                 mr_applied_steps = steps, mr_backup_manifest_path = backup\<rparr> in
           case migration_plan_for reg from target of
             Inl e \<Rightarrow> Some (Inl e, s1)
           | Inr plan \<Rightarrow>
               if mp_steps plan = [] then Some (Inr (report MigrationNoop [] None), s1)
               else if mode = DryRunMode then Some (Inr (report MigrationDryRun (mp_steps plan) None), s1)
               else case backup_manifest_file root from s1 of
                   (Inl e, s2) \<Rightarrow> Some (Inl e, s2)
                 | (Inr backup, s2) \<Rightarrow>
                     (case run_steps T reg root (mp_steps plan) original s2 of
                        None \<Rightarrow> None
                      | Some (Inl e, s3) \<Rightarrow> Some (Inl e, s3)
                      | Some (Inr m, s3) \<Rightarrow>
                          Some (andThen (write_manifest J (manifest_path root) m) (\<lambda>_.
                            ret (report MigrationApplied (mp_steps plan) (Some backup))) s3))))"

section \<open>Reading and writing\<close>

lemma io_Inr [simp]: "io p m s = (Inr x, s') \<longleftrightarrow> m s = (Inr x, s')"
  by (cases "m s"; cases "fst (m s)") (auto simp: io_def)

lemma io_state: "io p m s = (r, s') \<Longrightarrow> \<exists>r'. m s = (r', s')"
  by (cases "m s") (auto simp: io_def)

lemma read_json_state: "read_json err J p s = (r, s') \<Longrightarrow> s' = s"
  by (auto simp: read_json_def andThen_def prog_simps io_def fs_read_def split: option.splits fs_node.splits prod.splits sum.splits)

lemma read_json_Inr: "read_json err J p s = (Inr x, s') \<longleftrightarrow> s' = s \<and> (\<exists>b. file_at p s = Some b \<and> jf_read J b = Inr x)"
proof -
  have "map_sum f id r = Inr y \<longleftrightarrow> r = Inr y" for f and r :: "string + 'a" and y by (cases r) simp_all
  then show ?thesis
    by (auto simp: read_json_def andThen_Inr_iff prog_simps fs_read_file)
qed

lemma write_json_Inr:
  assumes "write_json err J p x s = (Inr u, s')"
  obtains b where "jf_write J x = Inr b" and "fs_write p b s = (Inr (), s')"
  using assms by (cases "jf_write J x") (auto simp: write_json_def andThen_Inr_iff prog_simps)

lemma written_json_read:
  assumes "json_form_ok J" and "write_json err J p x s = (Inr u, s')"
  shows "read_json err' J p s' = (Inr x, s')"
  using write_json_Inr [OF assms(2)] assms(1) fs_write_file unfolding read_json_Inr json_form_ok_def by metis

section \<open>A storage after its initialization\<close>

lemma create_dirs_effect:
  assumes "create_dirs ps s = (r, s')"
  shows "file_at q s' = file_at q s" and "path_is_dir q s \<Longrightarrow> path_is_dir q s'"
  using assms
proof (induction ps arbitrary: s)
  case (Cons p ps)
  { case 1
    then obtain r1 s1 where "create_dir_all p s = (r1, s1)" by fastforce
    then have "file_at q s1 = file_at q s"
      unfolding create_dir_all_def by (metis io_state fs_create_dir_all_file)
    with 1 Cons(1) [of s1] \<open>create_dir_all p s = (r1, s1)\<close> show ?case by (auto simp: andThen_def split: sum.splits) }
  { case 2
    then obtain r1 s1 where "create_dir_all p s = (r1, s1)" by fastforce
    then have "path_is_dir q s1"
      using 2 unfolding create_dir_all_def by (metis io_state fs_create_dir_all_dir)
    with 2 Cons(2) [of s1] \<open>create_dir_all p s = (r1, s1)\<close> show ?case by (auto simp: andThen_def split: sum.splits) }
qed (simp_all add: prog_simps)

lemma create_dirs_dirs: "create_dirs ps s = (Inr u, s') \<Longrightarrow> p \<in> set ps \<Longrightarrow> path_is_dir p s'"
proof (induction ps arbitrary: s)
  case (Cons q qs)
  then obtain s1 where s1: "create_dir_all q s = (Inr (), s1)" "create_dirs qs s1 = (Inr u, s')"
    by (auto simp: andThen_Inr_iff)
  show ?case
  proof (cases "p = q")
    case True
    from s1(1) have "make_dirs q s = Inr s1"
      by (auto simp: create_dir_all_def fs_create_dir_all_def changed_def split: sum.splits)
    with make_dirs_dir create_dirs_effect(2) [OF s1(2)] True show ?thesis by blast
  next
    case False
    with Cons s1 show ?thesis by auto
  qed
qed simp

lemma storage_init_steps:
  assumes "storage_init J now root s = (Inr st, s')"
  obtains s1 s2 s3 s4 m where "create_dir_all root s = (Inr (), s1)"
    and "create_dirs (map (join_path root) STORAGE_LAYOUT_DIRECTORIES) s1 = (Inr (), s2)"
    and "create_dir_all (knowledge_engine_root root) s2 = (Inr (), s3)"
    and "create_dirs (map (join_path (knowledge_engine_root root)) KNOWLEDGE_ENGINE_LAYOUT_DIRECTORIES) s3 = (Inr (), s4)"
    and "mf_storage_version m = STORAGE_LAYOUT_VERSION" and "write_manifest J (manifest_path root) m s4 = (Inr (), s')"
    and "st = \<lparr>os_root = root, os_manifest = m\<rparr>"
proof -
  from assms obtain s1 s2 s3 s4 s5 m where st: "create_dir_all root s = (Inr (), s1)"
    "create_dirs (map (join_path root) STORAGE_LAYOUT_DIRECTORIES) s1 = (Inr (), s2)"
    "create_dir_all (knowledge_engine_root root) s2 = (Inr (), s3)"
    "create_dirs (map (join_path (knowledge_engine_root root)) KNOWLEDGE_ENGINE_LAYOUT_DIRECTORIES) s3 = (Inr (), s4)"
    and found: "current_manifest J now root s4 = (Inr m, s5)"
    and rest: "mf_storage_version m = STORAGE_LAYOUT_VERSION" "write_manifest J (manifest_path root) m s5 = (Inr (), s')"
      "st = \<lparr>os_root = root, os_manifest = m\<rparr>"
    by (auto simp: storage_init_def andThen_Inr_iff ret_def raise_def split: if_splits)
  from found have "s5 = s4"
    by (auto simp: current_manifest_def andThen_Inr_iff ret_def read_manifest_def read_json_Inr split: if_splits)
  with st rest that show ?thesis by blast
qed

text \<open>
  A storage that was initialized has every directory of the layout and of the knowledge
  engine and a manifest of the current version, and every file that was there before,
  the manifest apart, is there unchanged.
\<close>

lemma initialized_storage:
  assumes "json_form_ok J" and "storage_init J now root s = (Inr st, s')"
  shows "(\<forall>d \<in> set STORAGE_LAYOUT_DIRECTORIES. path_is_dir (join_path root d) s') \<and>
    (\<forall>d \<in> set KNOWLEDGE_ENGINE_LAYOUT_DIRECTORIES. path_is_dir (join_path (knowledge_engine_root root) d) s') \<and>
    read_manifest J (manifest_path root) s' = (Inr (os_manifest st), s') \<and> mf_storage_version (os_manifest st) = STORAGE_LAYOUT_VERSION \<and>
    (q \<noteq> manifest_path root \<longrightarrow> file_at q s' = file_at q s)"
proof -
  obtain s1 s2 s3 s4 m where st: "create_dir_all root s = (Inr (), s1)"
    "create_dirs (map (join_path root) STORAGE_LAYOUT_DIRECTORIES) s1 = (Inr (), s2)"
    "create_dir_all (knowledge_engine_root root) s2 = (Inr (), s3)"
    "create_dirs (map (join_path (knowledge_engine_root root)) KNOWLEDGE_ENGINE_LAYOUT_DIRECTORIES) s3 = (Inr (), s4)"
    "mf_storage_version m = STORAGE_LAYOUT_VERSION" "write_manifest J (manifest_path root) m s4 = (Inr (), s')"
    "st = \<lparr>os_root = root, os_manifest = m\<rparr>"
    by (rule storage_init_steps [OF assms(2)])
  have all: "create_dir_all p x = (Inr (), y) \<Longrightarrow> file_at q y = file_at q x \<and> (path_is_dir d x \<longrightarrow> path_is_dir d y)" for p x y q d
    unfolding create_dir_all_def io_Inr by (blast intro: fs_create_dir_all_file fs_create_dir_all_dir)
  obtain b where b: "fs_write (manifest_path root) b s4 = (Inr (), s')"
    using write_json_Inr st(6) unfolding write_manifest_def by metis
  have "path_is_dir (join_path root d) s'" if "d \<in> set STORAGE_LAYOUT_DIRECTORIES" for d
  proof -
    have "path_is_dir (join_path root d) s2" using create_dirs_dirs [OF st(2)] that by simp
    then show ?thesis using all st(3) create_dirs_effect(2) [OF st(4)] fs_write_dir [OF b] by blast
  qed
  moreover have "path_is_dir (join_path (knowledge_engine_root root) d) s'" if "d \<in> set KNOWLEDGE_ENGINE_LAYOUT_DIRECTORIES" for d
    using create_dirs_dirs [OF st(4)] fs_write_dir [OF b] that by simp
  moreover have "file_at q s' = file_at q s" if "q \<noteq> manifest_path root"
    using fs_write_file [OF b, of q] all [OF st(1), of q] all [OF st(3), of q] create_dirs_effect(1) [OF st(2), of q]
      create_dirs_effect(1) [OF st(4), of q] that by simp
  ultimately show ?thesis
    using written_json_read [OF assms(1)] st(5-7) unfolding read_manifest_def write_manifest_def by auto
qed


text \<open>A manifest of another version is refused and left as it is.\<close>

lemma other_version_refused:
  assumes "read_manifest J (manifest_path root) s = (Inr m, s)" and "mf_storage_version m \<noteq> STORAGE_LAYOUT_VERSION"
  shows "\<exists>e s'. storage_init J now root s = (Inl e, s') \<and> file_at (manifest_path root) s' = file_at (manifest_path root) s"
proof -
  let ?p = "manifest_path root"
  have dirs: "file_at ?p y = file_at ?p x" if "create_dir_all p x = (r, y)" for p x y and r :: "storage_error + unit"
    using that unfolding create_dir_all_def by (metis io_state fs_create_dir_all_file)
  obtain r1 s1 where 1: "create_dir_all root s = (r1, s1)" by fastforce
  obtain r2 s2 where 2: "create_dirs (map (join_path root) STORAGE_LAYOUT_DIRECTORIES) s1 = (r2, s2)" by fastforce
  obtain r3 s3 where 3: "create_dir_all (knowledge_engine_root root) s2 = (r3, s3)" by fastforce
  obtain r4 s4 where 4: "create_dirs (map (join_path (knowledge_engine_root root)) KNOWLEDGE_ENGINE_LAYOUT_DIRECTORIES) s3 = (r4, s4)" by fastforce
  note keeps = dirs [OF 1] create_dirs_effect(1) [OF 2] dirs [OF 3] create_dirs_effect(1) [OF 4]
  have "read_manifest J ?p s4 = (Inr m, s4)" and "path_exists ?p s4"
    using assms(1) keeps by (auto simp: read_manifest_def read_json_Inr intro: file_at_exists)
  then have "current_manifest J now root s4 = (Inr (refreshed now m), s4)"
    by (simp add: current_manifest_def andThen_def ret_def)
  moreover have "mf_storage_version (refreshed now m) \<noteq> STORAGE_LAYOUT_VERSION" using assms(2) by (simp add: refreshed_def)
  ultimately show ?thesis
    using keeps by (auto simp: storage_init_def andThen_def 1 2 3 4 raise_def split: sum.splits)
qed

text \<open>A JSON form of a single value, enough for examples.\<close>

definition form_of :: "'a \<Rightarrow> 'a json_form" where
  "form_of x0 = \<lparr>jf_write = (\<lambda>x. if x = x0 then Inr ''x'' else Inl ''other value''),
                 jf_read = (\<lambda>b. if b = ''x'' then Inr x0 else Inl ''other text'')\<rparr>"

lemma form_of_ok: "json_form_ok (form_of x0)"
  by (simp add: json_form_ok_def form_of_def)

lemma initialized_storage_witness:
  "\<exists>st s'. storage_init (form_of (storage_manifest_new 5)) 5 [''root''] (FDir []) = (Inr st, s') \<and>
     read_manifest (form_of (storage_manifest_new 5)) [''root'', ''manifest.json''] s' = (Inr (os_manifest st), s') \<and>
     file_at [''other''] s' = None"
proof -
  let ?J = "form_of (storage_manifest_new 5)"
  have "isl (fst (storage_init ?J 5 [''root''] (FDir []))) = False"
    by code_simp
  then obtain st s' where init: "storage_init ?J 5 [''root''] (FDir []) = (Inr st, s')"
    by (cases "storage_init ?J 5 [''root''] (FDir [])"; cases "fst (storage_init ?J 5 [''root''] (FDir []))") auto
  from initialized_storage [OF form_of_ok init, of "[''other'']"] init show ?thesis
    by (auto simp: manifest_path_def file_at_Cons m_get_def)
qed

section \<open>At most one writer\<close>

text \<open>
  Any number of processes take and release the lock, a step of one after a step of another,
  between changes of other files. \<open>H\<close> is a time that comes before the expiry of every lock.
\<close>

datatype (plugins only: code size) lock_phase =
    LockIdle | LockStale datetime | LockClear datetime | LockHeld storage_lock_guard

inductive lock_reach ::
    "storage_lock_info json_form \<Rightarrow> path \<Rightarrow> (nat \<Rightarrow> storage_lock_options) \<Rightarrow> datetime \<Rightarrow> fs_node \<times> (nat \<Rightarrow> lock_phase) \<Rightarrow> bool"
  for J p opts H where
  start: "\<not> path_exists p s \<Longrightarrow> lock_reach J p opts H (s, \<lambda>_. LockIdle)"
| elsewhere: "lock_reach J p opts H (s, ph) \<Longrightarrow> node_at p s' = node_at p s \<Longrightarrow> lock_reach J p opts H (s', ph)"
| inspects: "lock_reach J p opts H (s, ph) \<Longrightarrow> ph i = LockIdle \<Longrightarrow> now < H \<Longrightarrow> H \<le> now + lo_ttl (opts i) \<Longrightarrow>
    inspect_lock J now p s = (Inr stale, s') \<Longrightarrow>
    lock_reach J p opts H (s', ph(i := if stale then LockStale now else LockClear now))"
| removes: "lock_reach J p opts H (s, ph) \<Longrightarrow> ph i = LockStale now \<Longrightarrow> remove_lock_file p s = (Inr (), s') \<Longrightarrow>
    lock_reach J p opts H (s', ph(i := LockClear now))"
| creates: "lock_reach J p opts H (s, ph) \<Longrightarrow> ph i = LockClear now \<Longrightarrow>
    create_lock J p (lock_info_of (opts i) i now) s = (Inr g, s') \<Longrightarrow> lock_reach J p opts H (s', ph(i := LockHeld g))"
| fails: "lock_reach J p opts H (s, ph) \<Longrightarrow> ph i = LockClear now \<Longrightarrow>
    create_lock J p (lock_info_of (opts i) i now) s = (Inl (LockAlreadyHeld q owner at), s') \<Longrightarrow>
    lock_reach J p opts H (s', ph(i := LockIdle))"
| releases: "lock_reach J p opts H (s, ph) \<Longrightarrow> ph i = LockHeld g \<Longrightarrow> lock_release J g s = (Inr g', s') \<Longrightarrow>
    lock_reach J p opts H (s', ph(i := LockIdle))"

definition lock_inv ::
    "storage_lock_info json_form \<Rightarrow> path \<Rightarrow> (nat \<Rightarrow> storage_lock_options) \<Rightarrow> datetime \<Rightarrow> fs_node \<times> (nat \<Rightarrow> lock_phase) \<Rightarrow> bool" where
  "lock_inv J p opts H w \<longleftrightarrow> (case w of (s, ph) \<Rightarrow>
     (path_exists p s \<longrightarrow> (\<exists>b info. file_at p s = Some b \<and> jf_read J b = Inr info \<and> H \<le> lk_expires_at info)) \<and>
     (\<forall>i g. ph i = LockHeld g \<longrightarrow> lg_lock_path g = p \<and> \<not> lg_released g \<and> lk_process_id (lg_info g) = i \<and>
        (\<exists>b. file_at p s = Some b \<and> jf_read J b = Inr (lg_info g))) \<and>
     (\<forall>i now. ph i \<noteq> LockStale now) \<and>
     (\<forall>i now. ph i = LockClear now \<longrightarrow> H \<le> now + lo_ttl (opts i)))"

lemma create_lock_Inr:
  assumes "create_lock J p info s = (Inr g, s')" and "json_form_ok J"
  shows "\<not> path_exists p s" and "g = \<lparr>lg_lock_path = p, lg_info = info, lg_released = False\<rparr>"
    and "\<exists>b. file_at p s' = Some b \<and> jf_read J b = Inr info"
proof -
  from assms(1) obtain b s1 where b: "jf_write J info = Inr b" "fs_create_new p s = (Inr (), s1)" "fs_append p b s1 = (Inr (), s')"
    and g: "g = \<lparr>lg_lock_path = p, lg_info = info, lg_released = False\<rparr>"
    by (cases "jf_write J info")
      (auto simp: create_lock_def andThen_Inr_iff prog_simps split: prod.splits sum.splits io_error.splits)
  show "\<not> path_exists p s" using fs_create_new_file(1) [OF b(2)] .
  show "g = \<lparr>lg_lock_path = p, lg_info = info, lg_released = False\<rparr>" by (rule g)
  show "\<exists>b. file_at p s' = Some b \<and> jf_read J b = Inr info"
    using fs_append_file [OF b(3), of p] fs_create_new_file(2) [OF b(2), of p] b(1) assms(2)
    by (auto simp: json_form_ok_def)
qed

lemma file_not_missing: "file_at p s = Some b \<Longrightarrow> \<not> path_exists p s \<Longrightarrow> P"
  using file_at_exists by blast

lemma lock_inv_inspects:
  assumes inv: "lock_inv J p opts H (s, ph)" and "now < H" and "H \<le> now + lo_ttl (opts i)" and "inspect_lock J now p s = (Inr stale, s')"
  shows "lock_inv J p opts H (s', ph(i := if stale then LockStale now else LockClear now))"
proof (cases "path_exists p s")
  case True
  with inv obtain b info where "file_at p s = Some b" "jf_read J b = Inr info" "H \<le> lk_expires_at info"
    by (auto simp: lock_inv_def)
  with assms(2,4) True show ?thesis
    by (auto simp: inspect_lock_def andThen_Inr_iff read_lock_info_def read_json_Inr raise_def split: if_splits)
next
  case False
  with assms show ?thesis by (auto simp: inspect_lock_def lock_inv_def)
qed

lemma lock_inv_creates:
  assumes inv: "lock_inv J p opts H (s, ph)" and "json_form_ok J" and "ph i = LockClear now"
    and "create_lock J p (lock_info_of (opts i) i now) s = (Inr g, s')"
  shows "lock_inv J p opts H (s', ph(i := LockHeld g))"
proof -
  note new = create_lock_Inr [OF assms(4,2)]
  have unheld: "ph j \<noteq> LockHeld g'" for j g'
  proof
    assume "ph j = LockHeld g'"
    with inv obtain b where "file_at p s = Some b" by (auto simp: lock_inv_def)
    with new(1) show False using file_at_exists by blast
  qed
  with inv new assms(3) show ?thesis by (auto simp: lock_inv_def lock_info_of_def)
qed

lemma create_lock_refused:
  assumes "create_lock J p info s = (Inl (LockAlreadyHeld q owner at), s')"
  shows "s' = s"
proof (cases "jf_write J info")
  case (Inr b)
  have state: "fs_create_new p s = (Inl e, s1) \<Longrightarrow> s1 = s" for p s e s1
    by (auto simp: fs_create_new_def changed_def split: if_splits sum.splits)
  have other: "io p m s1 \<noteq> (Inl (LockAlreadyHeld q owner at), s2)" for m :: "unit fs_prog" and s1 s2
    by (cases "m s1"; cases "fst (m s1)") (auto simp: io_def)
  from assms Inr other show ?thesis
    by (auto simp: create_lock_def andThen_def prog_simps read_lock_info_def dest!: read_json_state dest: state
        split: prod.splits sum.splits io_error.splits)
qed (use assms in \<open>auto simp: create_lock_def andThen_def prog_simps\<close>)

lemma release_removes:
  assumes "file_at (lg_lock_path g) s = Some b" and "jf_read J b = Inr (lg_info g)" and "\<not> lg_released g"
    and "lock_release J g s = (Inr g', s')"
  shows "s' = del_node (lg_lock_path g) s"
proof -
  have "path_exists (lg_lock_path g) s" using file_at_exists [OF assms(1)] .
  moreover have "read_lock_info J (lg_lock_path g) s = (Inr (lg_info g), s)"
    using assms(1,2) by (simp add: read_lock_info_def read_json_Inr)
  moreover have "fs_remove_file (lg_lock_path g) s = (Inr (), del_node (lg_lock_path g) s)"
    using assms(1) by (simp add: fs_remove_file_def file_at_node)
  ultimately show ?thesis
    using assms(3,4) by (auto simp: lock_release_def andThen_Inr_iff release_inner_def remove_lock_file_def prog_simps)
qed

lemma lock_inv_holder:
  assumes "lock_inv J p opts H (s, ph)" and "ph i = LockHeld g" and "ph j = LockHeld g'"
  shows "i = j"
proof -
  have held: "lk_process_id (lg_info h) = k \<and> (\<exists>b. file_at p s = Some b \<and> jf_read J b = Inr (lg_info h))"
    if "ph k = LockHeld h" for k h
    using assms(1) that by (auto simp: lock_inv_def)
  from held [OF assms(2)] held [OF assms(3)] have "lg_info g = lg_info g'" by auto
  with held [OF assms(2)] held [OF assms(3)] show ?thesis by simp
qed

lemma lock_inv_releases:
  assumes inv: "lock_inv J p opts H (s, ph)" and "p \<noteq> []" and "ph i = LockHeld g" and "lock_release J g s = (Inr g', s')"
  shows "lock_inv J p opts H (s', ph(i := LockIdle))"
proof -
  from inv assms(3) obtain b where "file_at p s = Some b" "jf_read J b = Inr (lg_info g)" "lg_lock_path g = p" "\<not> lg_released g"
    by (auto simp: lock_inv_def)
  with release_removes assms(4) have "s' = del_node p s" by metis
  then have gone: "\<not> path_exists p s'" using node_at_del assms(2) by (simp add: path_exists_def)
  have "(ph(i := LockIdle)) j \<noteq> LockHeld h" for j h
    using lock_inv_holder [OF inv assms(3)] by auto
  with gone inv show ?thesis by (auto simp: lock_inv_def)
qed

lemma lock_inv_reach:
  assumes "lock_reach J p opts H w" and "json_form_ok J" and "p \<noteq> []"
  shows "lock_inv J p opts H w"
  using assms(1)
proof induction
  case (start s)
  then show ?case by (simp add: lock_inv_def)
next
  case (elsewhere s ph s')
  then show ?case by (simp add: lock_inv_def path_exists_def file_at_def)
next
  case (inspects s ph i now stale s')
  then show ?case using lock_inv_inspects by blast
next
  case (removes s ph i now s')
  then show ?case by (auto simp: lock_inv_def)
next
  case (creates s ph i now g s')
  then show ?case using lock_inv_creates assms(2) by blast
next
  case (fails s ph i now q owner at s')
  then show ?case by (auto simp: lock_inv_def dest!: create_lock_refused)
next
  case (releases s ph i g g' s')
  then show ?case using lock_inv_releases assms(3) by blast
qed

text \<open>
  C25. Before the first lock expires, however the processes interleave their steps and
  whatever happens to other files, no two processes hold the lock of a storage.
\<close>

theorem single_writer:
  assumes "lock_reach J (root @ [STORAGE_LOCK_FILE_NAME]) opts H (s, ph)" and "json_form_ok J"
    and "ph i = LockHeld g" and "ph j = LockHeld h"
  shows "i = j"
  using lock_inv_holder [OF lock_inv_reach [OF assms(1,2)] assms(3,4)] by simp

text \<open>What the code runs is a sequence of these steps.\<close>

lemma lock_acquire_steps:
  "lock_acquire J pid now root opts =
     andThen (inspect_lock J now (root @ [STORAGE_LOCK_FILE_NAME])) (\<lambda>stale.
     andThen (if stale then remove_lock_file (root @ [STORAGE_LOCK_FILE_NAME]) else ret ()) (\<lambda>_.
     create_lock J (root @ [STORAGE_LOCK_FILE_NAME]) (lock_info_of opts pid now)))"
  by (simp add: lock_acquire_def Let_def)

text \<open>A lock file without content, which a writer leaves that stops between creating and writing
  it, blocks every later writer, however long ago it was made.\<close>

lemma unreadable_lock_blocks:
  assumes "file_at (root @ [STORAGE_LOCK_FILE_NAME]) s = Some b" and "jf_read J b = Inl e"
  shows "lock_acquire J pid now root opts s = (Inl (LockSerde (root @ [STORAGE_LOCK_FILE_NAME]) e), s)"
  using assms file_at_exists [OF assms(1)]
  by (simp add: lock_acquire_steps inspect_lock_def read_lock_info_def read_json_def andThen_def prog_simps io_def fs_read_def file_at_node)

definition example_lock_form :: "storage_lock_info json_form" where
  "example_lock_form =
     \<lparr>jf_write = (\<lambda>i. if i = lock_info_of \<lparr>lo_owner_id = ''a'', lo_ttl = 10\<rparr> (lk_process_id i) (lk_acquired_at i) \<and> 0 \<le> lk_acquired_at i
                    then Inr (replicate (lk_process_id i) CHR ''p'' @ CHR ''t'' # replicate (nat (lk_acquired_at i)) CHR ''t'') else Inl ''other''),
      jf_read = (\<lambda>b. if CHR ''t'' \<in> set b
                    then Inr (lock_info_of \<lparr>lo_owner_id = ''a'', lo_ttl = 10\<rparr> (length (takeWhile (\<lambda>c. c = CHR ''p'') b))
                      (int (length (dropWhile (\<lambda>c. c = CHR ''p'') b)) - 1)) else Inl ''eof'')\<rparr>"

lemma example_lock_form_ok: "json_form_ok example_lock_form"
proof -
  have "takeWhile (\<lambda>c. c = CHR ''p'') (replicate n CHR ''p'' @ CHR ''t'' # xs) = replicate n CHR ''p''" for n and xs :: string
    by (induction n) simp_all
  moreover have "dropWhile (\<lambda>c. c = CHR ''p'') (replicate n CHR ''p'' @ CHR ''t'' # xs) = CHR ''t'' # xs" for n and xs :: string
    by (induction n) simp_all
  ultimately show ?thesis
    by (auto simp: json_form_ok_def example_lock_form_def lock_info_of_def split: if_splits)
qed

definition example_options :: "nat \<Rightarrow> storage_lock_options" where
  "example_options i = \<lparr>lo_owner_id = ''a'', lo_ttl = 10\<rparr>"

definition one_holds :: "fs_node" where
  "one_holds = snd (lock_acquire example_lock_form 1 0 [] (example_options 1) (FDir []))"

abbreviation example_guard :: storage_lock_guard where
  "example_guard \<equiv> \<lparr>lg_lock_path = [STORAGE_LOCK_FILE_NAME], lg_info = lock_info_of (example_options 1) 1 0, lg_released = False\<rparr>"

theorem single_writer_witness:
  "\<exists>ph. lock_reach example_lock_form ([] @ [STORAGE_LOCK_FILE_NAME]) example_options 5 (one_holds, ph) \<and>
     ph 1 = LockHeld example_guard \<and> (\<forall>j h. ph j = LockHeld h \<longrightarrow> 1 = j)"
proof -
  let ?p = "[] @ [STORAGE_LOCK_FILE_NAME]"
  have 0: "lock_reach example_lock_form ?p example_options 5 (FDir [], \<lambda>_. LockIdle)"
    by (rule lock_reach.start) (simp add: path_exists_def m_get_def)
  have 1: "lock_reach example_lock_form ?p example_options 5 (FDir [], (\<lambda>_. LockIdle)(1 := if False then LockStale 0 else LockClear 0))"
    by (rule lock_reach.inspects [OF 0]) (simp_all add: example_options_def inspect_lock_def path_exists_def m_get_def)
  have made: "create_lock example_lock_form ?p (lock_info_of (example_options 1) 1 0) (FDir []) = (Inr example_guard, one_holds)"
    by code_simp
  have 2: "lock_reach example_lock_form ?p example_options 5
      (one_holds, ((\<lambda>_. LockIdle)(1 := if False then LockStale 0 else LockClear 0))(1 := LockHeld example_guard))"
    by (rule lock_reach.creates [OF 1 _ made]) simp
  let ?ph = "((\<lambda>_. LockIdle)(1 := if False then LockStale 0 else LockClear 0))(1 := LockHeld example_guard)"
  have "\<forall>j h. ?ph j = LockHeld h \<longrightarrow> 1 = j"
    using single_writer [OF 2 example_lock_form_ok, of 1 example_guard] by simp
  moreover have "?ph 1 = LockHeld example_guard" by simp
  ultimately show ?thesis using 2 by blast
qed

text \<open>
  After an expiry two processes can hold the lock: both find the old lock stale, the first
  removes it and creates its own, and the second removes that one and creates another.
\<close>

lemma stale_lock_race:
  assumes "json_form_ok J" and "lk_expires_at old \<le> now" and "jf_write J old = Inr b0"
    and "\<And>pid. \<exists>b. jf_write J (lock_info_of opts pid now) = Inr b"
  shows "\<exists>s s1 s2 s3 s4 g g'.
     file_at [STORAGE_LOCK_FILE_NAME] s = Some b0 \<and>
     inspect_lock J now [STORAGE_LOCK_FILE_NAME] s = (Inr True, s) \<and>
     remove_lock_file [STORAGE_LOCK_FILE_NAME] s = (Inr (), s1) \<and>
     create_lock J [STORAGE_LOCK_FILE_NAME] (lock_info_of opts 1 now) s1 = (Inr g, s2) \<and>
     remove_lock_file [STORAGE_LOCK_FILE_NAME] s2 = (Inr (), s3) \<and>
     create_lock J [STORAGE_LOCK_FILE_NAME] (lock_info_of opts 2 now) s3 = (Inr g', s4) \<and>
     lg_info g = lock_info_of opts 1 now \<and> lg_info g' = lock_info_of opts 2 now"
proof -
  let ?f = STORAGE_LOCK_FILE_NAME
  have look: "inspect_lock J now [?f] (FDir [(?f, FFile b0)]) = (Inr True, FDir [(?f, FFile b0)])"
    using assms(1-3) by (auto simp: inspect_lock_def path_exists_def read_lock_info_def andThen_Inr_iff read_json_Inr
        file_at_node json_form_ok_def prog_simps)
  have remove: "remove_lock_file [?f] (FDir [(?f, FFile b)]) = (Inr (), FDir [])" for b
    by (simp add: remove_lock_file_def fs_remove_file_def m_remove_def)
  have create: "\<exists>b. create_lock J [?f] (lock_info_of opts pid now) (FDir []) =
      (Inr \<lparr>lg_lock_path = [?f], lg_info = lock_info_of opts pid now, lg_released = False\<rparr>, FDir [(?f, FFile b)])" for pid
    using assms(4) [of pid] by (auto simp: create_lock_def andThen_def prog_simps fs_create_new_def path_exists_def m_get_def changed_def
        io_def fs_append_def)
  from create [of 1] obtain b1 where "create_lock J [?f] (lock_info_of opts 1 now) (FDir []) =
      (Inr \<lparr>lg_lock_path = [?f], lg_info = lock_info_of opts 1 now, lg_released = False\<rparr>, FDir [(?f, FFile b1)])" ..
  moreover from create [of 2] obtain b2 where "create_lock J [?f] (lock_info_of opts 2 now) (FDir []) =
      (Inr \<lparr>lg_lock_path = [?f], lg_info = lock_info_of opts 2 now, lg_released = False\<rparr>, FDir [(?f, FFile b2)])" ..
  ultimately show ?thesis
    using look remove by (intro exI [of _ "FDir [(?f, FFile b0)]"] exI [of _ "FDir []"] exI) (auto simp: file_at_node)
qed

section \<open>Migrations reach their target\<close>

lemma plan_steps_versions:
  assumes "plan_steps reg v t = Inr steps"
  shows "map ms_from_version steps = [v..<t]" and "map ms_to_version steps = map Suc [v..<t]"
    and "\<forall>step \<in> set steps. m_contains reg (ms_from_version step, ms_to_version step)"
  using assms
proof (induction reg v t arbitrary: steps rule: plan_steps.induct)
  case (1 reg v t)
  { case 1 show ?case using 1 "1.IH"(1) 1 by (cases "v < t") (auto simp: plan_steps.simps [of reg v t] bind_result_Inr_iff upt_conv_Cons split: option.splits) }
  { case 2 show ?case using 2 "1.IH"(2) by (cases "v < t") (auto simp: plan_steps.simps [of reg v t] bind_result_Inr_iff upt_conv_Cons split: option.splits) }
  { case 3 show ?case using 3 "1.IH"(3) by (cases "v < t") (auto simp: plan_steps.simps [of reg v t] bind_result_Inr_iff m_contains_def split: option.splits) }
qed

lemma migration_plan_versions:
  assumes "migration_plan_for reg c t = Inr plan"
  shows "map ms_from_version (mp_steps plan) = [c..<t]" and "map ms_to_version (mp_steps plan) = map Suc [c..<t]"
    and "\<forall>step \<in> set (mp_steps plan). m_contains reg (ms_from_version step, ms_to_version step)" and "c \<le> t"
  using assms plan_steps_versions [of reg c t] by (auto simp: migration_plan_for_def bind_result_Inr_iff split: if_splits)

lemma run_steps_total:
  "\<forall>step \<in> set steps. m_contains reg (ms_from_version step, ms_to_version step) \<Longrightarrow> \<exists>r s'. run_steps T reg root steps m s = Some (r, s')"
proof (induction steps arbitrary: m s)
  case (Cons step steps)
  then obtain migration where "m_get reg (ms_from_version step, ms_to_version step) = Some migration"
    by (auto simp: m_contains_def)
  with Cons show ?case by (auto split: prod.splits sum.splits)
qed simp

lemma run_steps_version:
  "run_steps T reg root steps m s = Some (Inr m', s') \<Longrightarrow> steps \<noteq> [] \<Longrightarrow> mf_storage_version m' = ms_to_version (last steps)"
proof (induction steps arbitrary: m s)
  case (Cons step steps)
  then show ?case by (cases "steps = []") (auto split: option.splits prod.splits sum.splits)
qed simp

lemma last_version: "map ms_to_version steps = map Suc [c..<t] \<Longrightarrow> steps \<noteq> [] \<Longrightarrow> ms_to_version (last steps) = t"
  by (metis Nil_is_map_conv last_map Suc_pred' last_upt bot_nat_0.not_eq_extremum less_nat_zero_code upt_conv_Nil upt_rec)

lemma migrate_total: "\<exists>r s'. migrate T J reg root target mode s = Some (r, s')"
proof -
  have runs: False if "migration_plan_for reg c target = Inr plan" and "run_steps T reg root (mp_steps plan) m s1 = None" for plan c m s1
    using run_steps_total [OF migration_plan_versions(3) [OF that(1)], of T root m s1] that(2) by auto
  then have "migrate T J reg root target mode s \<noteq> None"
    by (auto simp: migrate_def Let_def dest: runs split: prod.splits sum.splits option.splits)
  then show ?thesis by auto
qed

lemma migrate_Inr:
  assumes "migrate T J reg root target mode s = Some (Inr report, s')"
  obtains (idle) original plan where "read_manifest J (manifest_path root) s = (Inr original, s)"
      and "migration_plan_for reg (mf_storage_version original) target = Inr plan" and "mp_steps plan = [] \<or> mode = DryRunMode"
      and "mr_from_version report = mf_storage_version original" and "mr_applied_steps report = mp_steps plan" and "s' = s"
  | (applied) original plan backup s2 m s3 where "read_manifest J (manifest_path root) s = (Inr original, s)"
      and "migration_plan_for reg (mf_storage_version original) target = Inr plan" and "mp_steps plan \<noteq> []" and "mode = ApplyMode"
      and "backup_manifest_file root (mf_storage_version original) s = (Inr backup, s2)"
      and "run_steps T reg root (mp_steps plan) original s2 = Some (Inr m, s3)"
      and "write_manifest J (manifest_path root) m s3 = (Inr (), s')"
      and "mr_from_version report = mf_storage_version original" and "mr_applied_steps report = mp_steps plan"
proof -
  obtain r0 s0 where read: "read_manifest J (manifest_path root) s = (r0, s0)" by fastforce
  then have s0: "s0 = s" unfolding read_manifest_def by (rule read_json_state)
  with assms read obtain original plan where plan: "r0 = Inr original"
      "migration_plan_for reg (mf_storage_version original) target = Inr plan"
    by (auto simp: migrate_def Let_def split: sum.splits)
  show ?thesis
  proof (cases "mp_steps plan = [] \<or> mode = DryRunMode")
    case True
    with assms read s0 plan idle show ?thesis by (auto simp: migrate_def Let_def split: if_splits)
  next
    case False
    then have "mode = ApplyMode" by (cases mode) simp_all
    with assms read s0 plan applied False show ?thesis
      by (auto simp: migrate_def Let_def andThen_Inr_iff ret_def split: prod.splits sum.splits option.splits)
  qed
qed

text \<open>
  C26. A migration always answers. Where it succeeds, the storage is at the target version,
  having gone through every version in between by registered migrations; a dry run and a
  migration to the version at hand change nothing.
\<close>

theorem migration_reaches_target:
  assumes "json_form_ok J"
  shows "\<exists>r s'. migrate T J reg root target mode s = Some (r, s') \<and>
    (\<forall>report. r = Inr report \<longrightarrow>
      map ms_to_version (mr_applied_steps report) = map Suc [mr_from_version report..<target] \<and>
      (mode = DryRunMode \<or> mr_from_version report = target \<longrightarrow> s' = s) \<and>
      (mode = ApplyMode \<longrightarrow> (\<exists>m. read_manifest J (manifest_path root) s' = (Inr m, s') \<and> mf_storage_version m = target)))"
proof -
  obtain r s' where result: "migrate T J reg root target mode s = Some (r, s')"
    using migrate_total by blast
  have "map ms_to_version (mr_applied_steps report) = map Suc [mr_from_version report..<target] \<and>
      (mode = DryRunMode \<or> mr_from_version report = target \<longrightarrow> s' = s) \<and>
      (mode = ApplyMode \<longrightarrow> (\<exists>m. read_manifest J (manifest_path root) s' = (Inr m, s') \<and> mf_storage_version m = target))"
    if "r = Inr report" for report
    using result [unfolded that]
  proof (cases rule: migrate_Inr)
    case (idle original plan)
    note versions = migration_plan_versions [OF idle(2)]
    have "mf_storage_version original = target" if "mp_steps plan = []"
    proof -
      have "[mf_storage_version original..<target] = []" using versions(1) that by (metis list.map(1))
      with versions(4) show ?thesis by (auto simp: upt_eq_Nil_conv)
    qed
    with idle versions(2) show ?thesis by (cases "mp_steps plan = []") auto
  next
    case (applied original plan backup s2 m s3)
    note versions = migration_plan_versions [OF applied(2)]
    have "mf_storage_version m = target"
      using run_steps_version [OF applied(6,3)] last_version [OF versions(2) applied(3)] by simp
    moreover have "mf_storage_version original \<noteq> target" using versions(1) applied(3) by auto
    ultimately show ?thesis
      using applied versions(2) written_json_read [OF assms] unfolding read_manifest_def write_manifest_def by auto
  qed
  with result show ?thesis by blast
qed

definition example_migration :: storage_migration where
  "example_migration = \<lparr>mg_name = ''layout'', mg_from_version = 0, mg_to_version = 1, mg_migrate = (\<lambda>root m. ret m)\<rparr>"

definition example_texts :: storage_texts where
  "example_texts = \<lparr>tx_io = (\<lambda>_. ''error''), tx_time = (\<lambda>_. ''time'')\<rparr>"

text \<open>The version of a manifest as its number of strokes.\<close>

definition example_manifest_form :: "storage_manifest json_form" where
  "example_manifest_form =
     \<lparr>jf_write = (\<lambda>m. if m = (storage_manifest_new 0)\<lparr>mf_storage_version := mf_storage_version m\<rparr>
                   then Inr (replicate (mf_storage_version m) CHR ''i'') else Inl ''other manifest''),
      jf_read = (\<lambda>b. Inr ((storage_manifest_new 0)\<lparr>mf_storage_version := length b\<rparr>))\<rparr>"

theorem migration_reaches_target_witness:
  "json_form_ok example_manifest_form \<and>
   (\<exists>r s'. migrate example_texts example_manifest_form [((0, 1), example_migration)] [] 1 ApplyMode
      (FDir [(''manifest.json'', FFile [])]) = Some (r, s'))"
proof -
  have ok: "json_form_ok example_manifest_form"
    by (auto simp: json_form_ok_def example_manifest_form_def split: if_splits)
  with migration_reaches_target [OF ok] show ?thesis by blast
qed

end
