(* ===== verification/Artifact_Files.thy ===== *)
theory Artifact_Files
  imports Storage Tables
begin
text \<open>
  Artifacts on disk, \<open>agentos-storage/src/artifact_store.rs\<close>: each artifact is a directory with its
  descriptor, its content and a record of both. SHA-256 and the JSON forms are parameters.
\<close>

section \<open>The store\<close>

record artifact_content_metadata =
  ac_byte_len :: nat
  ac_sha256 :: string

record fs_artifact_record =
  fr_descriptor :: artifact_descriptor
  fr_content :: artifact_content_metadata

datatype (plugins only: code size) artifact_verification_issue =
    MissingRecord | MissingDescriptor | MissingContent | DescriptorMismatch
  | ContentSizeMismatch nat nat | ContentHashMismatch string string

record artifact_verification_report =
  vr_artifact_id :: artifact_id
  vr_verified :: bool
  vr_content :: "artifact_content_metadata option"
  vr_issues :: "artifact_verification_issue list"

record fs_artifact_store =
  as_root :: path
  as_sha256 :: "string \<Rightarrow> string"
  as_descriptor_form :: "artifact_descriptor json_form"
  as_record_form :: "fs_artifact_record json_form"

definition DESCRIPTOR_FILE :: string where "DESCRIPTOR_FILE = ''descriptor.json''"
definition CONTENT_FILE :: string where "CONTENT_FILE = ''content.bin''"
definition RECORD_FILE :: string where "RECORD_FILE = ''record.json''"

definition fs_artifact_store_new :: "fs_artifact_store \<Rightarrow> fs_artifact_store storage_prog" where
  "fs_artifact_store_new E = andThen (create_dir_all (as_root E)) (\<lambda>_. ret E)"

definition id_char :: "char \<Rightarrow> bool" where
  "id_char c \<longleftrightarrow> (let n = of_char c :: nat in 48 \<le> n \<and> n \<le> 57 \<or> 65 \<le> n \<and> n \<le> 90 \<or> 97 \<le> n \<and> n \<le> 122) \<or>
     c = CHR ''-'' \<or> c = CHR ''_'' \<or> c = CHR ''.''"

definition validate_artifact_id_path :: "artifact_id \<Rightarrow> storage_error + unit" where
  "validate_artifact_id_path i =
     (let t = artifact_text i in
      if t = [] \<or> t = ''.'' \<or> t = ''..'' \<or> contains_str t ''..'' \<or> \<not> list_all id_char t
      then Inl (InvalidArtifactIdPath t) else Inr ())"

definition artifact_dir :: "fs_artifact_store \<Rightarrow> artifact_id \<Rightarrow> path storage_prog" where
  "artifact_dir E i = andThen (lift (validate_artifact_id_path i)) (\<lambda>_. ret (as_root E @ [artifact_text i]))"

definition content_metadata :: "fs_artifact_store \<Rightarrow> string \<Rightarrow> artifact_content_metadata" where
  "content_metadata E c = \<lparr>ac_byte_len = length c, ac_sha256 = as_sha256 E c\<rparr>"

definition create_artifact_dir :: "artifact_id \<Rightarrow> path \<Rightarrow> unit storage_prog" where
  "create_artifact_dir i p s =
     (case fs_create_dir p s of
        (Inl IoAlreadyExists, s') \<Rightarrow> (Inl (ArtifactAlreadyExists (artifact_text i)), s')
      | (r, s') \<Rightarrow> (map_sum (StorageIo p) id r, s'))"

definition put_with_content :: "fs_artifact_store \<Rightarrow> artifact_descriptor \<Rightarrow> string \<Rightarrow> fs_artifact_record storage_prog" where
  "put_with_content E d content =
     andThen (artifact_dir E (art_id d)) (\<lambda>p.
     andThen (create_artifact_dir (art_id d) p) (\<lambda>_.
     (let record = \<lparr>fr_descriptor = d, fr_content = content_metadata E content\<rparr> in
      andThen (write_json ArtifactSerde (as_descriptor_form E) (p @ [DESCRIPTOR_FILE]) d) (\<lambda>_.
      andThen (io (p @ [CONTENT_FILE]) (fs_write (p @ [CONTENT_FILE]) content)) (\<lambda>_.
      andThen (write_json ArtifactSerde (as_record_form E) (p @ [RECORD_FILE]) record) (\<lambda>_.
      ret record))))))"

text \<open>Reading a file that may not be there.\<close>

definition if_exists :: "path \<Rightarrow> 'a storage_prog \<Rightarrow> 'a option storage_prog" where
  "if_exists p m s = (if path_exists p s then andThen m (\<lambda>x. ret (Some x)) s else (Inr None, s))"

definition get_record :: "fs_artifact_store \<Rightarrow> artifact_id \<Rightarrow> fs_artifact_record option storage_prog" where
  "get_record E i =
     andThen (artifact_dir E i) (\<lambda>p.
     if_exists (p @ [RECORD_FILE]) (read_json ArtifactSerde (as_record_form E) (p @ [RECORD_FILE])))"

definition read_content :: "fs_artifact_store \<Rightarrow> artifact_id \<Rightarrow> string option storage_prog" where
  "read_content E i =
     andThen (artifact_dir E i) (\<lambda>p.
     if_exists (p @ [CONTENT_FILE]) (io (p @ [CONTENT_FILE]) (fs_read (p @ [CONTENT_FILE]))))"

definition content_issues :: "artifact_content_metadata \<Rightarrow> artifact_content_metadata \<Rightarrow> artifact_verification_issue list" where
  "content_issues expected actual =
     (if ac_byte_len actual \<noteq> ac_byte_len expected then [ContentSizeMismatch (ac_byte_len expected) (ac_byte_len actual)] else []) @
     (if ac_sha256 actual \<noteq> ac_sha256 expected then [ContentHashMismatch (ac_sha256 expected) (ac_sha256 actual)] else [])"

definition verify_artifact :: "fs_artifact_store \<Rightarrow> artifact_id \<Rightarrow> artifact_verification_report storage_prog" where
  "verify_artifact E i =
     andThen (artifact_dir E i) (\<lambda>p.
     andThen (if_exists (p @ [RECORD_FILE]) (read_json ArtifactSerde (as_record_form E) (p @ [RECORD_FILE]))) (\<lambda>record.
     andThen (\<lambda>s. if \<not> path_exists (p @ [DESCRIPTOR_FILE]) s then (Inr [MissingDescriptor], s)
       else case record of
         None \<Rightarrow> (Inr [], s)
       | Some r \<Rightarrow> andThen (read_json ArtifactSerde (as_descriptor_form E) (p @ [DESCRIPTOR_FILE])) (\<lambda>d.
           ret (if d \<noteq> fr_descriptor r then [DescriptorMismatch] else [])) s) (\<lambda>descriptor_issues.
     andThen (\<lambda>s. if \<not> path_exists (p @ [CONTENT_FILE]) s then (Inr (None, [MissingContent]), s)
       else case record of
         None \<Rightarrow> (Inr (None, []), s)
       | Some r \<Rightarrow> andThen (io (p @ [CONTENT_FILE]) (fs_read (p @ [CONTENT_FILE]))) (\<lambda>c.
           ret (Some (content_metadata E c), content_issues (fr_content r) (content_metadata E c))) s) (\<lambda>(content, content_issues').
     (let issues = (if record = None then [MissingRecord] else []) @ descriptor_issues @ content_issues' in
      ret \<lparr>vr_artifact_id = i, vr_verified = (issues = []), vr_content = content, vr_issues = issues\<rparr>)))))"

text \<open>Every directory is taken for an artifact, also one whose name no artifact can have.\<close>

definition list_artifact_ids :: "fs_artifact_store \<Rightarrow> artifact_id list storage_prog" where
  "list_artifact_ids E s =
     (if \<not> path_exists (as_root E) s then (Inr [], s)
      else andThen (io (as_root E) (fs_read_dir (as_root E))) (\<lambda>es.
        ret (sort_ranked (by_text artifact_text)
          (map (\<lambda>e. ArtifactId (fst e)) (filter (\<lambda>e. case snd e of FDir _ \<Rightarrow> True | FFile _ \<Rightarrow> False) es)))) s)"

fun verify_each :: "fs_artifact_store \<Rightarrow> artifact_id list \<Rightarrow> artifact_verification_report list storage_prog" where
  "verify_each E [] = ret []"
| "verify_each E (i # is) = andThen (verify_artifact E i) (\<lambda>r. andThen (verify_each E is) (\<lambda>rs. ret (r # rs)))"

definition verify_all_artifacts :: "fs_artifact_store \<Rightarrow> artifact_verification_report list storage_prog" where
  "verify_all_artifacts E =
     andThen (list_artifact_ids E) (\<lambda>is. andThen (verify_each E is) (\<lambda>rs.
       ret (sort_ranked (by_text (\<lambda>r. artifact_text (vr_artifact_id r))) rs)))"

fun descriptors_of :: "fs_artifact_store \<Rightarrow> artifact_id list \<Rightarrow> artifact_descriptor list storage_prog" where
  "descriptors_of E [] = ret []"
| "descriptors_of E (i # is) =
     andThen (artifact_dir E i) (\<lambda>p.
     andThen (if_exists (p @ [DESCRIPTOR_FILE]) (read_json ArtifactSerde (as_descriptor_form E) (p @ [DESCRIPTOR_FILE]))) (\<lambda>d.
     andThen (descriptors_of E is) (\<lambda>ds. ret (case d of None \<Rightarrow> ds | Some x \<Rightarrow> x # ds))))"

definition list_descriptors :: "fs_artifact_store \<Rightarrow> artifact_descriptor list storage_prog" where
  "list_descriptors E =
     andThen (list_artifact_ids E) (\<lambda>is. andThen (descriptors_of E is) (\<lambda>ds.
       ret (sort_ranked (by_text (\<lambda>d. artifact_text (art_id d))) ds)))"

section \<open>The trait of artifact stores\<close>

fun storage_to_artifact_error :: "storage_texts \<Rightarrow> storage_error \<Rightarrow> artifact_store_error" where
  "storage_to_artifact_error T (ArtifactAlreadyExists i) = DuplicateArtifactId (ArtifactId i)"
| "storage_to_artifact_error T e = ArtifactStorage (storage_message T e)"

definition as_artifact_error :: "storage_texts \<Rightarrow> 'a storage_prog \<Rightarrow> (fs_node, artifact_store_error, 'a) prog" where
  "as_artifact_error T m = (\<lambda>s. case m s of (r, s') \<Rightarrow> (map_sum (storage_to_artifact_error T) id r, s'))"

definition fs_put :: "storage_texts \<Rightarrow> fs_artifact_store \<Rightarrow> artifact_descriptor \<Rightarrow> (fs_node, artifact_store_error, unit) prog" where
  "fs_put T E d = as_artifact_error T (andThen (put_with_content E d []) (\<lambda>_. ret ()))"

definition fs_get ::
    "storage_texts \<Rightarrow> fs_artifact_store \<Rightarrow> artifact_id \<Rightarrow> (fs_node, artifact_store_error, artifact_descriptor option) prog" where
  "fs_get T E i = as_artifact_error T (andThen (get_record E i) (\<lambda>r. ret (map_option fr_descriptor r)))"

definition fs_list :: "storage_texts \<Rightarrow> fs_artifact_store \<Rightarrow> (fs_node, artifact_store_error, artifact_descriptor list) prog" where
  "fs_list T E = as_artifact_error T (list_descriptors E)"

section \<open>What is put can be read and checked\<close>

lemma artifact_dir_Inr: "artifact_dir E i s = (Inr p, s') \<longleftrightarrow> s' = s \<and> validate_artifact_id_path i = Inr () \<and> p = as_root E @ [artifact_text i]"
  by (auto simp: artifact_dir_def andThen_Inr_iff prog_simps)

lemma if_exists_read:
  "if_exists p (read_json err J p) s = (Inr x, s') \<longleftrightarrow>
     s' = s \<and> (if path_exists p s then \<exists>b y. file_at p s = Some b \<and> jf_read J b = Inr y \<and> x = Some y else x = None)"
  by (auto simp: if_exists_def andThen_Inr_iff read_json_Inr prog_simps)

lemma file_at_put_dir:
  assumes "put_node p (FDir []) s = Inr s'" and "\<not> path_exists p s"
  shows "file_at q s' = file_at q s"
proof -
  have empty: "file_at ds (FDir []) = None" for ds by (cases ds) (simp_all add: file_at_Cons m_get_def)
  have "put_node p x s = Inr s' \<Longrightarrow> x = FDir [] \<Longrightarrow> \<not> path_exists p s \<Longrightarrow> file_at q s' = file_at q s" for x
  proof (induction p x s arbitrary: q s' rule: put_node.induct)
    case (1 x n)
    then show ?case by (simp add: path_exists_def)
  next
    case (3 c cs x es)
    show ?case
    proof (cases "cs = []")
      case True
      with 3(4) have "m_get es c = None" by (cases "m_get es c") (simp_all add: path_exists_def)
      with True 3(2,3) empty show ?thesis by (cases q) (auto simp: file_at_Cons)
    next
      case False
      with 3(2) obtain m m' where m: "m_get es c = Some m" "put_node cs x m = Inr m'" "s' = FDir (hm_put c m' es)"
        by (auto simp: bind_result_Inr_iff split: option.splits)
      have "\<not> path_exists cs m" using 3(4) m(1) by (simp add: path_exists_def)
      with 3(1) [OF False m(1,2) 3(3)] m show ?thesis by (cases q) (auto simp: file_at_Cons)
    qed
  qed simp
  with assms show ?thesis by blast
qed

text \<open>The files of an artifact.\<close>

definition artifact_file :: "fs_artifact_store \<Rightarrow> artifact_id \<Rightarrow> string \<Rightarrow> path" where
  "artifact_file E i name = as_root E @ [artifact_text i, name]"

lemma artifact_file_names [simp]:
  "artifact_file E i a = artifact_file E j b \<longleftrightarrow> i = j \<and> a = b"
  "DESCRIPTOR_FILE \<noteq> CONTENT_FILE" "DESCRIPTOR_FILE \<noteq> RECORD_FILE" "CONTENT_FILE \<noteq> RECORD_FILE"
  "CONTENT_FILE \<noteq> DESCRIPTOR_FILE" "RECORD_FILE \<noteq> DESCRIPTOR_FILE" "RECORD_FILE \<noteq> CONTENT_FILE"
  by (cases i; cases j) (auto simp: artifact_file_def DESCRIPTOR_FILE_def CONTENT_FILE_def RECORD_FILE_def)

definition artifact_forms_ok :: "fs_artifact_store \<Rightarrow> bool" where
  "artifact_forms_ok E \<longleftrightarrow> json_form_ok (as_descriptor_form E) \<and> json_form_ok (as_record_form E)"

text \<open>What an artifact on disk looks like once it has been put.\<close>

definition stored_artifact :: "fs_artifact_store \<Rightarrow> artifact_descriptor \<Rightarrow> string \<Rightarrow> fs_node \<Rightarrow> bool" where
  "stored_artifact E d c s \<longleftrightarrow>
     validate_artifact_id_path (art_id d) = Inr () \<and>
     (\<exists>b. file_at (artifact_file E (art_id d) DESCRIPTOR_FILE) s = Some b \<and> jf_read (as_descriptor_form E) b = Inr d) \<and>
     (\<exists>b. file_at (artifact_file E (art_id d) RECORD_FILE) s = Some b \<and>
        jf_read (as_record_form E) b = Inr \<lparr>fr_descriptor = d, fr_content = content_metadata E c\<rparr>) \<and>
     file_at (artifact_file E (art_id d) CONTENT_FILE) s = Some c"

lemma put_with_content_stored:
  assumes "put_with_content E d c s = (Inr r, s')" and "artifact_forms_ok E"
  shows "stored_artifact E d c s'" and "r = \<lparr>fr_descriptor = d, fr_content = content_metadata E c\<rparr>"
    and "\<And>q. (\<And>name. q \<noteq> artifact_file E (art_id d) name) \<Longrightarrow> file_at q s' = file_at q s"
    and "\<not> path_exists (as_root E @ [artifact_text (art_id d)]) s"
proof -
  let ?p = "as_root E @ [artifact_text (art_id d)]" and ?r = "\<lparr>fr_descriptor = d, fr_content = content_metadata E c\<rparr>"
  from assms(1) obtain s1 s2 s3 where valid: "validate_artifact_id_path (art_id d) = Inr ()"
    and dir: "create_artifact_dir (art_id d) ?p s = (Inr (), s1)"
    and w1: "write_json ArtifactSerde (as_descriptor_form E) (?p @ [DESCRIPTOR_FILE]) d s1 = (Inr (), s2)"
    and w2: "fs_write (?p @ [CONTENT_FILE]) c s2 = (Inr (), s3)"
    and w3: "write_json ArtifactSerde (as_record_form E) (?p @ [RECORD_FILE]) ?r s3 = (Inr (), s')" and r: "r = ?r"
    by (auto simp: put_with_content_def andThen_Inr_iff artifact_dir_Inr ret_def Let_def)
  obtain b1 b3 where b1: "jf_write (as_descriptor_form E) d = Inr b1" "fs_write (?p @ [DESCRIPTOR_FILE]) b1 s1 = (Inr (), s2)"
    and b3: "jf_write (as_record_form E) ?r = Inr b3" "fs_write (?p @ [RECORD_FILE]) b3 s3 = (Inr (), s')"
    using write_json_Inr [OF w1] write_json_Inr [OF w3] by metis
  have files: "?p @ [name] = artifact_file E (art_id d) name" for name by (simp add: artifact_file_def)
  have made: "fs_create_dir ?p s = (Inr (), s1)"
    using dir by (auto simp: create_artifact_dir_def split: prod.splits sum.splits io_error.splits)
  then have fresh: "\<not> path_exists ?p s" and put: "put_node ?p (FDir []) s = Inr s1"
    by (auto simp: fs_create_dir_def changed_def split: if_splits sum.splits)
  from fresh show "\<not> path_exists ?p s" .
  have s1: "file_at q s1 = file_at q s" for q
    by (rule file_at_put_dir [OF put fresh])
  note steps = fs_write_file [OF b1(2)] fs_write_file [OF w2] fs_write_file [OF b3(2)]
  show "r = ?r" by (rule r)
  show "stored_artifact E d c s'"
    using valid steps b1(1) b3(1) assms(2) by (simp add: stored_artifact_def artifact_file_def artifact_forms_ok_def json_form_ok_def)
  show "file_at q s' = file_at q s" if "\<And>name. q \<noteq> artifact_file E (art_id d) name" for q
    using that steps s1 by (simp add: files [symmetric])
qed

lemma stored_artifact_read:
  assumes "stored_artifact E d c s"
  shows "get_record E (art_id d) s = (Inr (Some \<lparr>fr_descriptor = d, fr_content = content_metadata E c\<rparr>), s)"
    and "read_content E (art_id d) s = (Inr (Some c), s)"
proof -
  have dir: "artifact_dir E (art_id d) s = (Inr (as_root E @ [artifact_text (art_id d)]), s)"
    using assms by (simp add: artifact_dir_Inr stored_artifact_def)
  show "get_record E (art_id d) s = (Inr (Some \<lparr>fr_descriptor = d, fr_content = content_metadata E c\<rparr>), s)"
    using assms file_at_exists
    by (fastforce simp: get_record_def andThen_Inr_iff dir if_exists_read stored_artifact_def artifact_file_def)
  show "read_content E (art_id d) s = (Inr (Some c), s)"
    using assms file_at_exists
    by (fastforce simp: read_content_def andThen_Inr_iff dir if_exists_def fs_read_file prog_simps stored_artifact_def artifact_file_def)
qed

text \<open>
  C27. An artifact that was put reads back as it was put and verifies. As long as its record and its
  descriptor are those that were put, it verifies exactly when its content is the one that
  was put, whatever has happened to the disk in between.
\<close>

theorem artifact_content_is_protected:
  assumes "put_with_content E d c s = (Inr r, s1)" and "artifact_forms_ok E" and "\<And>x. as_sha256 E x = as_sha256 E c \<Longrightarrow> x = c"
    and "file_at (artifact_file E (art_id d) DESCRIPTOR_FILE) s2 = file_at (artifact_file E (art_id d) DESCRIPTOR_FILE) s1"
    and "file_at (artifact_file E (art_id d) RECORD_FILE) s2 = file_at (artifact_file E (art_id d) RECORD_FILE) s1"
    and "verify_artifact E (art_id d) s2 = (Inr report, s3)"
  shows "read_content E (art_id d) s1 = (Inr (Some c), s1) \<and>
    (vr_verified report \<longleftrightarrow> file_at (artifact_file E (art_id d) CONTENT_FILE) s2 = Some c)"
proof -
  have put: "stored_artifact E d c s1" by (rule put_with_content_stored(1) [OF assms(1,2)])
  let ?i = "art_id d"
  define p where "p = as_root E @ [artifact_text (art_id d)]"
  have at: "artifact_file E ?i name = p @ [name]" for name by (simp add: artifact_file_def p_def)
  have dir: "artifact_dir E ?i s2 = (Inr p, s2)"
    using put by (simp add: artifact_dir_Inr stored_artifact_def p_def)
  obtain bd br where files: "file_at (p @ [DESCRIPTOR_FILE]) s2 = Some bd" "jf_read (as_descriptor_form E) bd = Inr d"
    "file_at (p @ [RECORD_FILE]) s2 = Some br"
    "jf_read (as_record_form E) br = Inr \<lparr>fr_descriptor = d, fr_content = content_metadata E c\<rparr>"
    using put assms(4,5) by (auto simp: stored_artifact_def at)
  note there = file_at_exists [OF files(1)] file_at_exists [OF files(3)]
  have rec: "if_exists (p @ [RECORD_FILE]) (read_json ArtifactSerde (as_record_form E) (p @ [RECORD_FILE])) s2 =
      (Inr (Some \<lparr>fr_descriptor = d, fr_content = content_metadata E c\<rparr>), s2)"
    using files there by (simp add: if_exists_read)
  have descriptor: "read_json ArtifactSerde (as_descriptor_form E) (p @ [DESCRIPTOR_FILE]) s2 = (Inr d, s2)"
    using files by (simp add: read_json_Inr)
  have same: "content_issues (content_metadata E c) (content_metadata E x) = [] \<longleftrightarrow> x = c" for x
    using assms(3) by (auto simp: content_issues_def content_metadata_def)
  have content: "file_at (p @ [CONTENT_FILE]) s2 = Some c \<longleftrightarrow> vr_verified report"
  proof (cases "path_exists (p @ [CONTENT_FILE]) s2")
    case False
    then have "file_at (p @ [CONTENT_FILE]) s2 = None" using file_at_exists by fastforce
    with False assms(6) there show ?thesis
      by (auto simp: verify_artifact_def andThen_def dir rec descriptor ret_def)
  next
    case True
    with assms(6) there show ?thesis
      by (cases "fs_read (p @ [CONTENT_FILE]) s2"; cases "fst (fs_read (p @ [CONTENT_FILE]) s2)")
        (auto simp: verify_artifact_def andThen_def dir rec descriptor ret_def io_def same fs_read_file)
  qed
  with stored_artifact_read(2) [OF put] show ?thesis by (simp add: at)
qed

definition example_artifacts :: "artifact_descriptor \<Rightarrow> string \<Rightarrow> fs_artifact_store" where
  "example_artifacts d c =
     \<lparr>as_root = [], as_sha256 = id, as_descriptor_form = form_of d,
      as_record_form = form_of \<lparr>fr_descriptor = d, fr_content = \<lparr>ac_byte_len = length c, ac_sha256 = c\<rparr>\<rparr>\<rparr>"

abbreviation example_descriptor :: artifact_descriptor where
  "example_descriptor \<equiv> \<lparr>art_id = ArtifactId ''a-1'', art_kind = Document, art_title = None, art_source_uri = None, art_mime_type = None,
     art_metadata = JNull, art_created_at = 0\<rparr>"

theorem artifact_content_is_protected_witness:
  "\<exists>r s1 report s2 s3.
     put_with_content (example_artifacts example_descriptor ''text'') example_descriptor ''text'' (FDir []) = (Inr r, s1) \<and>
     fs_write [''a-1'', CONTENT_FILE] ''forged'' s1 = (Inr (), s2) \<and>
     verify_artifact (example_artifacts example_descriptor ''text'') (ArtifactId ''a-1'') s2 = (Inr report, s3) \<and> \<not> vr_verified report"
proof -
  let ?E = "example_artifacts example_descriptor ''text''" and ?i = "ArtifactId ''a-1''"
  let ?put = "put_with_content ?E example_descriptor ''text'' (FDir [])"
  let ?forge = "fs_write [''a-1'', CONTENT_FILE] ''forged'' (snd ?put)"
  let ?check = "verify_artifact ?E ?i (snd ?forge)"
  have "\<not> isl (fst ?put)" and "fst ?forge = Inr ()" and "\<not> isl (fst ?check)" by code_simp+
  then obtain r report where run: "?put = (Inr r, snd ?put)" "?forge = (Inr (), snd ?forge)" "?check = (Inr report, snd ?check)"
    by (metis isl_def sum.exhaust prod.collapse)
  have ok: "artifact_forms_ok ?E" and inj: "as_sha256 ?E x = as_sha256 ?E ''text'' \<Longrightarrow> x = ''text''" for x
    by (simp_all add: artifact_forms_ok_def example_artifacts_def form_of_ok)
  have "file_at (artifact_file ?E ?i name) (snd ?forge) = file_at (artifact_file ?E ?i name) (snd ?put)" if "name \<noteq> CONTENT_FILE" for name
    using fs_write_file [OF run(2)] that by (simp add: artifact_file_def example_artifacts_def)
  moreover have "file_at (artifact_file ?E ?i CONTENT_FILE) (snd ?forge) = Some ''forged''"
    using fs_write_file [OF run(2)] by (simp add: artifact_file_def example_artifacts_def)
  ultimately have "\<not> vr_verified report"
    using artifact_content_is_protected [OF run(1) ok inj, of "snd ?forge" report "snd ?check"] run(3) by simp
  with run show ?thesis by blast
qed

text \<open>Artifacts are apart: putting one changes no file of another.\<close>

lemma artifacts_apart:
  assumes "put_with_content E d c s = (Inr r, s')" and "artifact_forms_ok E" and "i \<noteq> art_id d"
  shows "file_at (artifact_file E i name) s' = file_at (artifact_file E i name) s"
  by (rule put_with_content_stored(3) [OF assms(1,2)]) (use assms(3) in simp)

text \<open>One directory with a name that is no artifact id makes the check of all artifacts fail.\<close>

lemma foreign_directory_blocks:
  "validate_artifact_id_path i = Inl e \<Longrightarrow> verify_each E (is @ i # js) s = (r, s') \<Longrightarrow> \<exists>e'. r = Inl e'"
proof (induction "is" arbitrary: s r)
  case Nil
  then show ?case by (auto simp: andThen_def verify_artifact_def artifact_dir_def lift_def)
next
  case (Cons j "is")
  then show ?case
    by (cases "verify_artifact E j s") (auto simp: andThen_def ret_def split: sum.splits prod.splits)
qed

end
