(* ===== verification/Backup.thy ===== *)
theory Backup
  imports Artifact_Files
begin
text \<open>
  Backups of a storage, \<open>agentos-storage/src/backup.rs\<close>: export into a directory with a manifest of
  hashes, verification of such a directory, and restoring it elsewhere. The target of a copy
  is never inside its source: there the code walks what it writes and does not end.
\<close>

section \<open>Backups\<close>

definition STORAGE_BACKUP_VERSION :: nat where "STORAGE_BACKUP_VERSION = 1"
definition BACKUP_MANIFEST_FILE :: string where "BACKUP_MANIFEST_FILE = ''backup-manifest.json''"
definition BACKUP_DATA_DIR :: string where "BACKUP_DATA_DIR = ''data''"

record backup_file_entry =
  be_path :: string
  be_byte_len :: nat
  be_sha256 :: string

record backup_manifest =
  bm_backup_version :: nat
  bm_storage_version :: nat
  bm_created_at :: datetime
  bm_source_manifest :: storage_manifest
  bm_files :: "backup_file_entry list"

record backup_report =
  br_backup_dir :: path
  br_manifest_path :: path
  br_file_count :: nat
  br_total_bytes :: nat

record restore_report =
  rr_target_root :: path
  rr_file_count :: nat
  rr_total_bytes :: nat
  rr_artifact_reports :: "artifact_verification_report list"

record backup_env =
  bk_sha256 :: "string \<Rightarrow> string"
  bk_storage_form :: "storage_manifest json_form"
  bk_manifest_form :: "backup_manifest json_form"

definition ensure_empty_or_create :: "path \<Rightarrow> unit storage_prog" where
  "ensure_empty_or_create p s =
     (if path_exists p s
      then andThen (io p (fs_read_dir p)) (\<lambda>es. if es \<noteq> [] then raise (BackupTargetNotEmpty p) else ret ()) s
      else create_dir_all p s)"

definition should_export_name :: "string \<Rightarrow> bool" where
  "should_export_name n \<longleftrightarrow> n \<noteq> STORAGE_LOCK_FILE_NAME"

text \<open>The entries of a directory one after the other; a directory is copied with what is in it.\<close>

fun copy_entries :: "(string \<Rightarrow> bool) \<Rightarrow> (string \<times> fs_node) list \<Rightarrow> path \<Rightarrow> unit storage_prog" where
  "copy_entries keep [] target = ret ()"
| "copy_entries keep ((k, FFile b) # es) target =
     andThen (if keep k then io (target @ [k]) (fs_write (target @ [k]) b) else ret ()) (\<lambda>_. copy_entries keep es target)"
| "copy_entries keep ((k, FDir ds) # es) target =
     andThen (if keep k then andThen (create_dir_all (target @ [k])) (\<lambda>_. copy_entries keep ds (target @ [k])) else ret ()) (\<lambda>_.
     copy_entries keep es target)"

definition copy_dir_contents :: "(string \<Rightarrow> bool) \<Rightarrow> path \<Rightarrow> path \<Rightarrow> unit storage_prog" where
  "copy_dir_contents keep source target =
     andThen (create_dir_all target) (\<lambda>_. andThen (io source (fs_read_dir source)) (\<lambda>es. copy_entries keep es target))"

definition slash_path :: "path \<Rightarrow> string" where
  "slash_path p = join_with ''/'' p"

fun entries_of :: "(string \<Rightarrow> string) \<Rightarrow> path \<Rightarrow> (string \<times> fs_node) list \<Rightarrow> backup_file_entry list" where
  "entries_of H current [] = []"
| "entries_of H current ((k, FFile b) # es) =
     \<lparr>be_path = slash_path (current @ [k]), be_byte_len = length b, be_sha256 = H b\<rparr> # entries_of H current es"
| "entries_of H current ((k, FDir ds) # es) = entries_of H (current @ [k]) ds @ entries_of H current es"

definition collect_file_entries :: "backup_env \<Rightarrow> path \<Rightarrow> backup_file_entry list storage_prog" where
  "collect_file_entries E p = andThen (io p (fs_read_dir p)) (\<lambda>es. ret (entries_of (bk_sha256 E) [] es))"

definition backup_path_invalid :: "string \<Rightarrow> bool" where
  "backup_path_invalid t \<longleftrightarrow>
     t = [] \<or> starts_with t ''/'' \<or> starts_with t [CHR 0x5C] \<or> list_ex (\<lambda>w. w = ''..'') (segments t)"

definition validate_backup_entry_path :: "string \<Rightarrow> storage_error + unit" where
  "validate_backup_entry_path t = (if backup_path_invalid t then Inl (BackupInvalidFilePath t) else Inr ())"

type_synonym entry_map = "(string, backup_file_entry) hmap"

fun validate_entries :: "backup_file_entry list \<Rightarrow> entry_map \<Rightarrow> storage_error + entry_map" where
  "validate_entries [] m = Inr m"
| "validate_entries (e # es) m =
     bind_result (validate_backup_entry_path (be_path e)) (\<lambda>_.
     if m_contains m (be_path e)
     then Inl (BackupIntegrityMismatch (be_path e) ''unique manifest path'' ''duplicate manifest path'')
     else validate_entries es (bt_put (be_path e) e m))"

definition validate_manifest_file_entries :: "backup_file_entry list \<Rightarrow> storage_error + entry_map" where
  "validate_manifest_file_entries es = validate_entries es []"

definition entry_text_of :: "backup_file_entry \<Rightarrow> string" where
  "entry_text_of e = ''len:'' @ decimal (be_byte_len e) @ '' sha256:'' @ be_sha256 e"

fun check_entries :: "entry_map \<Rightarrow> entry_map \<Rightarrow> storage_error + unit" where
  "check_entries actual [] = Inr ()"
| "check_entries actual ((p, e) # m) =
     (case m_get actual p of
        None \<Rightarrow> Inl (BackupFileMissing p)
      | Some a \<Rightarrow>
          if be_byte_len a \<noteq> be_byte_len e then Inl (BackupIntegrityMismatch p (entry_text_of e) (entry_text_of a))
          else if be_sha256 a \<noteq> be_sha256 e then Inl (BackupIntegrityMismatch p (be_sha256 e) (be_sha256 a))
          else check_entries actual m)"

fun check_unexpected :: "entry_map \<Rightarrow> string list \<Rightarrow> storage_error + unit" where
  "check_unexpected m [] = Inr ()"
| "check_unexpected m (p # ps) = (if m_contains m p then check_unexpected m ps else Inl (BackupUnexpectedFile p))"

definition by_path :: "backup_file_entry list \<Rightarrow> entry_map" where
  "by_path es = fold (\<lambda>e. bt_put (be_path e) e) es []"

definition read_backup_manifest :: "backup_env \<Rightarrow> path \<Rightarrow> backup_manifest storage_prog" where
  "read_backup_manifest E = read_json BackupManifestSerde (bk_manifest_form E)"

definition write_backup_manifest :: "backup_env \<Rightarrow> path \<Rightarrow> backup_manifest \<Rightarrow> unit storage_prog" where
  "write_backup_manifest E = write_json BackupManifestSerde (bk_manifest_form E)"

definition backup_export :: "backup_env \<Rightarrow> datetime \<Rightarrow> agent_os_storage \<Rightarrow> path \<Rightarrow> backup_report storage_prog" where
  "backup_export E now st dir =
     andThen (ensure_empty_or_create dir) (\<lambda>_.
     andThen (create_dir_all (dir @ [BACKUP_DATA_DIR])) (\<lambda>_.
     andThen (copy_dir_contents should_export_name (os_root st) (dir @ [BACKUP_DATA_DIR])) (\<lambda>_.
     andThen (collect_file_entries E (dir @ [BACKUP_DATA_DIR])) (\<lambda>entries.
     (let files = sort_ranked (by_text be_path) entries in
      andThen (read_manifest (bk_storage_form E) (manifest_path (os_root st))) (\<lambda>source.
      andThen (write_backup_manifest E (dir @ [BACKUP_MANIFEST_FILE])
        \<lparr>bm_backup_version = STORAGE_BACKUP_VERSION, bm_storage_version = mf_storage_version source, bm_created_at = now,
         bm_source_manifest = source, bm_files = files\<rparr>) (\<lambda>_.
      ret \<lparr>br_backup_dir = dir, br_manifest_path = dir @ [BACKUP_MANIFEST_FILE], br_file_count = length files,
           br_total_bytes = sum_list (map be_byte_len files)\<rparr>)))))))"

definition verify_backup :: "backup_env \<Rightarrow> path \<Rightarrow> backup_manifest storage_prog" where
  "verify_backup E dir =
     andThen (read_backup_manifest E (dir @ [BACKUP_MANIFEST_FILE])) (\<lambda>manifest.
     andThen (lift (validate_manifest_file_entries (bm_files manifest))) (\<lambda>expected.
     andThen (collect_file_entries E (dir @ [BACKUP_DATA_DIR])) (\<lambda>entries.
     andThen (lift (check_entries (by_path entries) expected)) (\<lambda>_.
     andThen (lift (check_unexpected expected (m_keys (by_path entries)))) (\<lambda>_.
     ret manifest)))))"

fun check_layout :: "path \<Rightarrow> string list \<Rightarrow> unit storage_prog" where
  "check_layout root [] = ret ()"
| "check_layout root (d # ds) =
     (\<lambda>s. if path_is_dir (join_path root d) s then check_layout root ds s
          else (Inl (RestoreIntegrityFailed (''missing layout directory: '' @ d)), s))"

definition verify_restored_layout :: "backup_env \<Rightarrow> path \<Rightarrow> unit storage_prog" where
  "verify_restored_layout E root =
     andThen (read_manifest (bk_storage_form E) (manifest_path root)) (\<lambda>_. check_layout root STORAGE_LAYOUT_DIRECTORIES)"

definition failed_artifact_text :: "artifact_verification_report \<Rightarrow> string" where
  "failed_artifact_text r =
     ''artifact '' @ artifact_text (vr_artifact_id r) @ '' failed verification with '' @ decimal (length (vr_issues r)) @ '' issue(s)''"

text \<open>\<open>A\<close> says how the artifacts under a root are read.\<close>

definition backup_restore :: "backup_env \<Rightarrow> (path \<Rightarrow> fs_artifact_store) \<Rightarrow> path \<Rightarrow> path \<Rightarrow> restore_report storage_prog" where
  "backup_restore E A dir target =
     andThen (verify_backup E dir) (\<lambda>manifest.
     andThen (ensure_empty_or_create target) (\<lambda>_.
     andThen (copy_dir_contents (\<lambda>_. True) (dir @ [BACKUP_DATA_DIR]) target) (\<lambda>_.
     andThen (verify_restored_layout E target) (\<lambda>_.
     andThen (fs_artifact_store_new (A (target @ [''artifacts'']))) (\<lambda>artifacts.
     andThen (verify_all_artifacts artifacts) (\<lambda>reports.
     case find (\<lambda>r. \<not> vr_verified r) reports of
       Some failed \<Rightarrow> raise (RestoreIntegrityFailed (failed_artifact_text failed))
     | None \<Rightarrow> ret \<lparr>rr_target_root = target, rr_file_count = length (bm_files manifest),
                   rr_total_bytes = sum_list (map be_byte_len (bm_files manifest)), rr_artifact_reports = reports\<rparr>))))))"

section \<open>Copies are exact\<close>

fun kept_entries :: "(string \<Rightarrow> bool) \<Rightarrow> (string \<times> fs_node) list \<Rightarrow> (string \<times> fs_node) list" where
  "kept_entries keep [] = []"
| "kept_entries keep ((k, FFile b) # es) = (if keep k then (k, FFile b) # kept_entries keep es else kept_entries keep es)"
| "kept_entries keep ((k, FDir ds) # es) =
     (if keep k then (k, FDir (kept_entries keep ds)) # kept_entries keep es else kept_entries keep es)"

fun tree_entries_ok :: "(string \<times> fs_node) list \<Rightarrow> bool" where
  "tree_entries_ok [] = True"
| "tree_entries_ok ((k, FFile b) # es) \<longleftrightarrow> file_name_ok k \<and> k \<notin> fst ` set es \<and> tree_entries_ok es"
| "tree_entries_ok ((k, FDir ds) # es) \<longleftrightarrow> file_name_ok k \<and> k \<notin> fst ` set es \<and> tree_entries_ok ds \<and> tree_entries_ok es"

lemma kept_names: "fst ` set (kept_entries keep es) \<subseteq> fst ` set es"
  by (induction keep es rule: kept_entries.induct) auto

lemma kept_name: "(k, v) \<in> set (kept_entries keep es) \<Longrightarrow> k \<in> fst ` set es"
  using kept_names [of keep es] by force

lemma kept_entries_ok: "tree_entries_ok es \<Longrightarrow> tree_entries_ok (kept_entries keep es)"
  by (induction keep es rule: kept_entries.induct) (auto dest: kept_name)

lemma kept_all [simp]: "kept_entries (\<lambda>_. True) es = es"
  by (induction "\<lambda>_ :: string. True" es rule: kept_entries.induct) simp_all

lemma put_new: "k \<notin> fst ` set m \<Longrightarrow> hm_put k v m = m @ [(k, v)]"
  by (induction m) auto

lemma get_new: "k \<notin> fst ` set m \<Longrightarrow> m_get m k = None"
  by (induction m) (auto simp: m_get_def)

text \<open>Copying into a directory that has none of the names yet adds the kept entries to it.\<close>

lemma copy_entries_exact:
  assumes "tree_entries_ok es" and "node_at t s = Some (FDir fs)" and "fst ` set es \<inter> fst ` set fs = {}"
  shows "\<exists>s'. copy_entries keep es t s = (Inr (), s') \<and> put_node t (FDir (fs @ kept_entries keep es)) s = Inr s'"
  using assms
proof (induction keep es t arbitrary: s fs rule: copy_entries.induct)
  case (1 keep t)
  then show ?case by (simp add: ret_def put_node_same)
next
  case (2 keep k b es t)
  show ?case
  proof (cases "keep k")
    case False
    with 2(1) [of s fs] 2(2-4) show ?thesis by (auto simp: andThen_def ret_def)
  next
    case True
    have new: "k \<notin> fst ` set fs" using 2(4) by auto
    obtain s1 where s1: "put_node t (FDir (fs @ [(k, FFile b)])) s = Inr s1" using put_node_ok [OF 2(3)] by blast
    have "put_node (t @ [k]) (FFile b) s = Inr s1"
      using put_node_append [OF 2(3), of "[k]"] s1 new by (simp add: put_new)
    moreover have "\<not> path_is_dir (t @ [k]) s"
      using 2(3) new by (simp add: path_is_dir_def node_at_append get_new)
    ultimately have wrote: "io (t @ [k]) (fs_write (t @ [k]) b) s = (Inr (), s1)"
      by (simp add: fs_write_def changed_def)
    have "fst ` set es \<inter> fst ` set (fs @ [(k, FFile b)]) = {}" using 2(2,4) by auto
    from 2(1) [OF _ put_node_at [OF s1] this] 2(2) wrote True put_node_put [OF s1]
    show ?thesis by (auto simp: andThen_def simp del: io_Inr)
  qed
next
  case (3 keep k ds es t)
  show ?case
  proof (cases "keep k")
    case False
    with 3(2) [of s fs] 3(3) 3(4) 3(5) show ?thesis by (auto simp: andThen_def ret_def)
  next
    case True
    have new: "k \<notin> fst ` set fs" using 3(5) by auto
    obtain s1 where s1: "put_node t (FDir (fs @ [(k, FDir [])])) s = Inr s1" using put_node_ok [OF 3(4)] by blast
    have "make_dirs (t @ [k]) s = Inr s1"
      using make_dirs_append [OF 3(4), of "[k]"] s1 new by (simp add: put_new get_new)
    then have made: "create_dir_all (t @ [k]) s = (Inr (), s1)"
      by (simp add: create_dir_all_def fs_create_dir_all_def changed_def)
    have at1: "node_at (t @ [k]) s1 = Some (FDir [])"
      using put_node_at [OF s1] new by (simp add: node_at_append) (simp add: m_get_def map_of_append get_new [unfolded m_get_def] map_add_def)
    obtain s2 where s2: "copy_entries keep ds (t @ [k]) s1 = (Inr (), s2)"
      "put_node (t @ [k]) (FDir (kept_entries keep ds)) s1 = Inr s2"
      using 3(1) [OF True _ at1] 3(3) by auto
    have put2: "hm_put k v (fs @ [(k, w)]) = fs @ [(k, v)]" for v w
      using new by (induction fs) auto
    have at2: "put_node t (FDir (fs @ [(k, FDir (kept_entries keep ds))])) s = Inr s2"
      using put_node_append [OF put_node_at [OF s1], of "[k]"] s2(2) put_node_put [OF s1] by (simp add: put2)
    have "fst ` set es \<inter> fst ` set (fs @ [(k, FDir (kept_entries keep ds))]) = {}" using 3(3) 3(5) by auto
    from 3(2) [OF _ put_node_at [OF at2] this] 3(3) made s2(1) True put_node_put [OF at2]
    show ?thesis by (auto simp: andThen_def)
  qed
qed

lemma file_at_head:
  "file_at p (FDir ((k, n) # es)) = (case p of [] \<Rightarrow> None | c # cs \<Rightarrow> if k = c then file_at cs n else file_at p (FDir es))"
  by (cases p) (simp_all add: file_at_Cons)

lemma file_at_absent: "k \<notin> fst ` set es \<Longrightarrow> file_at (k # cs) (FDir es) = None"
  by (simp add: file_at_Cons get_new)

lemma file_at_leaf: "file_at ds (FFile b) = (if ds = [] then Some b else None)"
  by (cases ds) simp_all

lemma file_at_no_entries [simp]: "file_at p (FDir []) = None"
  by (cases p) (simp_all add: file_at_Cons m_get_def)

lemma file_at_kept:
  "tree_entries_ok es \<Longrightarrow> file_at p (FDir (kept_entries keep es)) = (if list_all keep p then file_at p (FDir es) else None)"
proof (induction keep es arbitrary: p rule: kept_entries.induct)
  case (2 keep k b es)
  then show ?case
    by (cases "keep k"; cases p) (auto simp: file_at_head file_at_leaf file_at_absent)
next
  case (3 keep k ds es)
  then show ?case
    by (cases "keep k"; cases p) (auto simp: file_at_head file_at_absent)
qed simp

section \<open>Names of files in a backup\<close>

text \<open>The files of a directory with their paths and contents.\<close>

fun tree_files :: "path \<Rightarrow> (string \<times> fs_node) list \<Rightarrow> (path \<times> string) list" where
  "tree_files current [] = []"
| "tree_files current ((k, FFile b) # es) = (current @ [k], b) # tree_files current es"
| "tree_files current ((k, FDir ds) # es) = tree_files (current @ [k]) ds @ tree_files current es"

definition entry_for :: "(string \<Rightarrow> string) \<Rightarrow> path \<times> string \<Rightarrow> backup_file_entry" where
  "entry_for H = (\<lambda>(p, b). \<lparr>be_path = slash_path p, be_byte_len = length b, be_sha256 = H b\<rparr>)"

lemma entries_of_files: "entries_of H current es = map (entry_for H) (tree_files current es)"
  by (induction H current es rule: entries_of.induct) (simp_all add: entry_for_def)

lemma tree_files_at:
  "tree_entries_ok es \<Longrightarrow> (q, b) \<in> set (tree_files current es) \<longleftrightarrow> (\<exists>p. q = current @ p \<and> file_at p (FDir es) = Some b)"
proof (induction current es arbitrary: q b rule: tree_files.induct)
  case (2 current k c es)
  have "file_at p (FDir ((k, FFile c) # es)) = Some b \<longleftrightarrow> p = [k] \<and> c = b \<or> file_at p (FDir es) = Some b" for p
    using file_at_absent [of k es] 2(2) by (cases p) (auto simp: file_at_head file_at_leaf)
  with 2 show ?case by auto
next
  case (3 current k ds es)
  have "file_at p (FDir ((k, FDir ds) # es)) = Some b \<longleftrightarrow>
      (\<exists>p'. p = k # p' \<and> file_at p' (FDir ds) = Some b) \<or> file_at p (FDir es) = Some b" for p
    using file_at_absent [of k es] 3(3) by (cases p) (auto simp: file_at_head)
  with 3 show ?case by auto
qed simp

lemma tree_files_paths:
  "tree_entries_ok es \<Longrightarrow> list_all file_name_ok current \<Longrightarrow> (q, b) \<in> set (tree_files current es) \<Longrightarrow> q \<noteq> [] \<and> list_all file_name_ok q"
  by (induction current es rule: tree_files.induct) auto

lemma tree_files_distinct: "tree_entries_ok es \<Longrightarrow> distinct (map fst (tree_files current es))"
proof (induction current es rule: tree_files.induct)
  case (2 current k c es)
  have "(current @ [k], b) \<notin> set (tree_files current es)" for b
    using 2(2) by (simp add: tree_files_at file_at_absent)
  with 2 show ?case by force
next
  case (3 current k ds es)
  have "fst ` set (tree_files (current @ [k]) ds) \<inter> fst ` set (tree_files current es) = {}"
    using 3(3) by (auto simp: tree_files_at file_at_absent)
  with 3 show ?case by simp
qed simp

lemma segments_nonempty: "segments t \<noteq> []"
  by (cases t) (auto split: list.splits)

lemma segments_name: "CHR ''/'' \<notin> set w \<Longrightarrow> segments (w @ t) = (w @ hd (segments t)) # tl (segments t)"
proof (induction w)
  case Nil
  then show ?case using segments_nonempty [of t] by simp
next
  case (Cons c w)
  then have "segments (w @ t) = (w @ hd (segments t)) # tl (segments t)" by simp
  with Cons.prems show ?case by auto
qed

lemma slash_path_Cons: "slash_path (w # p) = (if p = [] then w else w @ CHR ''/'' # slash_path p)"
  by (cases p) (simp_all add: slash_path_def)

lemma segments_slash: "p \<noteq> [] \<Longrightarrow> list_all file_name_ok p \<Longrightarrow> segments (slash_path p) = p"
proof (induction p)
  case (Cons w p)
  have w: "CHR ''/'' \<notin> set w" using Cons.prems(2) by (simp add: file_name_ok_def)
  show ?case
  proof (cases "p = []")
    case True
    with segments_name [OF w, of "[]"] show ?thesis by (simp add: slash_path_Cons)
  next
    case False
    with segments_name [OF w, of "CHR ''/'' # slash_path p"] Cons show ?thesis by (simp add: slash_path_Cons)
  qed
qed simp

lemma slash_path_inject:
  assumes "p \<noteq> []" and "q \<noteq> []" and "list_all file_name_ok p" and "list_all file_name_ok q" and "slash_path p = slash_path q"
  shows "p = q"
  using segments_slash [OF assms(1,3)] segments_slash [OF assms(2,4)] unfolding assms(5) by (rule trans [OF sym])

section \<open>A verified backup has the files of its manifest\<close>

lemma find_path: "distinct (map be_path es) \<Longrightarrow> find (\<lambda>e. be_path e = p) es = Some e \<longleftrightarrow> e \<in> set es \<and> be_path e = p"
  by (induction es) auto

lemma by_path_inv: "bt_inv (by_path es)"
proof -
  have "bt_inv m \<Longrightarrow> bt_inv (fold (\<lambda>e. bt_put (be_path e) e) es m)" for m by (induction es arbitrary: m) simp_all
  then show ?thesis by (simp add: by_path_def)
qed

lemma by_path_get:
  assumes "distinct (map be_path es)"
  shows "m_get (by_path es) p = Some e \<longleftrightarrow> e \<in> set es \<and> be_path e = p"
proof -
  have "m_get (fold (\<lambda>e. bt_put (be_path e) e) es m) p = Some e \<longleftrightarrow>
      e \<in> set es \<and> be_path e = p \<or> m_get m p = Some e \<and> p \<notin> be_path ` set es"
    if "distinct (map be_path es)" for m
    using that by (induction es arbitrary: m) auto
  from this [OF assms, of "[]"] show ?thesis by (simp add: by_path_def m_get_def)
qed

lemma by_path_member: "distinct (map be_path es) \<Longrightarrow> (p, e) \<in> set (by_path es) \<longleftrightarrow> e \<in> set es \<and> be_path e = p"
  using by_path_get [of es p e] bt_inv_hm_inv [OF by_path_inv [of es]]
  by (simp add: m_get_def hm_inv_def map_of_eq_Some_iff)

lemma by_path_keys: "set (m_keys (by_path es)) = be_path ` set es"
proof -
  have "fst ` set (fold (\<lambda>e. bt_put (be_path e) e) es m) = be_path ` set es \<union> fst ` set m" for m :: entry_map
    by (induction es arbitrary: m) (auto simp: keys_bt_put)
  then show ?thesis by (simp add: by_path_def m_keys_def)
qed

lemma validate_entries_Inr:
  "validate_entries es m = Inr m' \<longleftrightarrow>
     list_all (\<lambda>e. \<not> backup_path_invalid (be_path e)) es \<and> distinct (map be_path es) \<and>
     (\<forall>e \<in> set es. \<not> m_contains m (be_path e)) \<and> m' = fold (\<lambda>e. bt_put (be_path e) e) es m"
  by (induction es arbitrary: m) (auto simp: bind_result_Inr_iff validate_backup_entry_path_def split: if_splits)

lemma validated_iff:
  "validate_manifest_file_entries es = Inr m \<longleftrightarrow>
     list_all (\<lambda>e. \<not> backup_path_invalid (be_path e)) es \<and> distinct (map be_path es) \<and> m = by_path es"
  by (simp add: validate_manifest_file_entries_def validate_entries_Inr by_path_def m_contains_def m_get_def)

lemma check_entries_Inr:
  "check_entries actual m = Inr u \<longleftrightarrow>
     (\<forall>(p, e) \<in> set m. \<exists>a. m_get actual p = Some a \<and> be_byte_len a = be_byte_len e \<and> be_sha256 a = be_sha256 e)"
  by (induction actual m rule: check_entries.induct) (auto split: option.splits)

lemma check_unexpected_Inr: "check_unexpected m ps = Inr u \<longleftrightarrow> (\<forall>p \<in> set ps. m_contains m p)"
  by (induction m ps rule: check_unexpected.induct) auto

lemma entry_eqI: "be_path a = be_path b \<Longrightarrow> be_byte_len a = be_byte_len b \<Longrightarrow> be_sha256 a = be_sha256 b \<Longrightarrow> a = b"
  for a b :: backup_file_entry by simp

text \<open>The checks pass exactly when manifest and directory list the same files.\<close>

lemma checks_pass_iff:
  assumes "distinct (map be_path actual)" and "distinct (map be_path es)"
  shows "check_entries (by_path actual) (by_path es) = Inr () \<and> check_unexpected (by_path es) (m_keys (by_path actual)) = Inr () \<longleftrightarrow>
    set actual = set es"
proof -
  have "check_entries (by_path actual) (by_path es) = Inr () \<longleftrightarrow> set es \<subseteq> set actual"
  proof -
    have found: "(\<exists>a. m_get (by_path actual) (be_path e) = Some a \<and> be_byte_len a = be_byte_len e \<and> be_sha256 a = be_sha256 e) \<longleftrightarrow> e \<in> set actual" for e
      by (auto simp: by_path_get [OF assms(1)] dest: entry_eqI)
    have each: "(\<forall>(p, e) \<in> set (by_path es). Q p e) \<longleftrightarrow> (\<forall>e \<in> set es. Q (be_path e) e)" for Q
      using by_path_member [OF assms(2)] by fastforce
    show ?thesis unfolding check_entries_Inr each found by blast
  qed
  moreover have "check_unexpected (by_path es) (m_keys (by_path actual)) = Inr () \<longleftrightarrow> be_path ` set actual \<subseteq> be_path ` set es"
  proof -
    have "m_contains (by_path es) p \<longleftrightarrow> p \<in> be_path ` set es" for p
      using by_path_keys [of es] by (simp add: m_contains_iff)
    then show ?thesis by (auto simp: check_unexpected_Inr by_path_keys)
  qed
  moreover have "set actual \<subseteq> set es" if "set es \<subseteq> set actual" and "be_path ` set actual \<subseteq> be_path ` set es"
  proof
    fix a assume a: "a \<in> set actual"
    with that(2) obtain e where e: "e \<in> set es" "be_path a = be_path e" by auto
    with that(1) have "e \<in> set actual" by blast
    with a e(2) assms(1) have "a = e" by (auto simp: distinct_map inj_on_def)
    with e(1) show "a \<in> set es" by simp
  qed
  ultimately show ?thesis by blast
qed

lemma collected:
  "node_at p s = Some (FDir es) \<Longrightarrow> collect_file_entries E p s = (Inr (entries_of (bk_sha256 E) [] es), s)"
  by (simp add: collect_file_entries_def andThen_def io_def fs_read_dir_def ret_def)

lemma collected_Inr:
  "collect_file_entries E p s = (Inr entries, s') \<Longrightarrow>
     s' = s \<and> (\<exists>es. node_at p s = Some (FDir es) \<and> entries = entries_of (bk_sha256 E) [] es)"
  by (auto simp: collect_file_entries_def andThen_Inr_iff fs_read_dir_def ret_def split: option.splits fs_node.splits)

lemma entries_distinct:
  assumes "tree_entries_ok es"
  shows "distinct (map be_path (entries_of H [] es))"
proof -
  have "inj_on slash_path (fst ` set (tree_files [] es))"
    using tree_files_paths [OF assms, of "[]"] by (auto simp: inj_on_def intro!: slash_path_inject)
  moreover have "map be_path (entries_of H [] es) = map slash_path (map fst (tree_files [] es))"
    by (simp add: entries_of_files entry_for_def split_beta)
  ultimately show ?thesis
    using tree_files_distinct [OF assms, of "[]"] by (simp only: distinct_map list.set_map)
qed

lemma entries_member:
  assumes "tree_entries_ok es"
  shows "e \<in> set (entries_of H [] es) \<longleftrightarrow> (\<exists>p b. file_at p (FDir es) = Some b \<and> e = entry_for H (p, b))"
  using tree_files_at [OF assms, of _ _ "[]"] by (auto simp: entries_of_files)

lemma verify_backup_Inr:
  assumes "verify_backup E dir s = (Inr m, s')" and "node_at (dir @ [BACKUP_DATA_DIR]) s = Some (FDir es)" and "tree_entries_ok es"
  shows "set (entries_of (bk_sha256 E) [] es) = set (bm_files m)" and "s' = s"
proof -
  from assms(1) obtain expected where
    valid: "validate_manifest_file_entries (bm_files m) = Inr expected"
    and checks: "check_entries (by_path (entries_of (bk_sha256 E) [] es)) expected = Inr ()"
      "check_unexpected expected (m_keys (by_path (entries_of (bk_sha256 E) [] es))) = Inr ()"
    and "s' = s"
    by (auto simp: verify_backup_def andThen_Inr_iff lift_def ret_def read_backup_manifest_def collected [OF assms(2)]
        dest!: read_json_state)
  show "s' = s" by fact
  from checks_pass_iff [OF entries_distinct [OF assms(3)]] valid checks
  show "set (entries_of (bk_sha256 E) [] es) = set (bm_files m)" by (auto simp: validated_iff)
qed

text \<open>
  A manifest determines the files of a backup: two directories that verify against the
  same manifest hold the same files with the same contents, so that no file of a verified
  backup has been changed, added or removed since its manifest was written.
\<close>

lemma backup_manifest_binds_files:
  assumes "verify_backup E dir s = (Inr m, s1)" and "verify_backup E dir' s' = (Inr m, s2)" 
    and "inj_on (bk_sha256 E) {b. \<exists>p. file_at p (FDir es) = Some b \<or> file_at p (FDir es') = Some b}"
    and "node_at (dir @ [BACKUP_DATA_DIR]) s = Some (FDir es)" and "tree_entries_ok es"
    and "node_at (dir' @ [BACKUP_DATA_DIR]) s' = Some (FDir es')" and "tree_entries_ok es'"
  shows "file_at p (FDir es) = file_at p (FDir es')"
proof -
  have same: "set (entries_of (bk_sha256 E) [] es) = set (entries_of (bk_sha256 E) [] es')"
    using verify_backup_Inr(1) [OF assms(1,4,5)] verify_backup_Inr(1) [OF assms(2,6,7)] by simp
  have carry: "file_at p (FDir zs) = Some b" if at: "file_at p (FDir ys) = Some b" and ys: "tree_entries_ok ys" and zs: "tree_entries_ok zs"
    and within: "{ys, zs} = {es, es'}" and eq: "set (entries_of (bk_sha256 E) [] ys) = set (entries_of (bk_sha256 E) [] zs)" for ys zs b
  proof -
    have "entry_for (bk_sha256 E) (p, b) \<in> set (entries_of (bk_sha256 E) [] ys)"
      using at entries_member [OF ys] by blast
    then obtain q c where q: "file_at q (FDir zs) = Some c" "entry_for (bk_sha256 E) (p, b) = entry_for (bk_sha256 E) (q, c)"
      unfolding eq entries_member [OF zs] by blast
    have "c = b" using q at within assms(3) by (auto simp: entry_for_def dest!: inj_onD)
    moreover have "p = q"
      using q(2) tree_files_paths [OF ys, of "[]" p b] tree_files_paths [OF zs, of "[]" q c] at ys zs q(1)
      by (intro slash_path_inject) (auto simp: entry_for_def tree_files_at)
    ultimately show ?thesis using q(1) by simp
  qed
  show ?thesis
    using carry [OF _ assms(5,7) _ same] carry [OF _ assms(7,5) _ same [symmetric]]
    by (cases "file_at p (FDir es)"; cases "file_at p (FDir es')") auto
qed

section \<open>Restoring a backup gives back the files\<close>

lemma make_dirs_new: "make_dirs p s = Inr s' \<Longrightarrow> \<not> path_exists p s \<Longrightarrow> node_at p s' = Some (FDir [])"
proof (induction p s arbitrary: s' rule: make_dirs.induct)
  case (4 c cs es)
  then obtain n where n: "make_dirs cs (case m_get es c of None \<Rightarrow> FDir [] | Some n \<Rightarrow> n) = Inr n" "s' = FDir (hm_put c n es)"
    by (auto simp: bind_result_Inr_iff)
  show ?case
  proof (cases "m_get es c")
    case (Some m)
    with 4 n show ?thesis by (simp add: path_exists_def)
  next
    case None
    show ?thesis
    proof (cases cs)
      case (Cons d ds)
      then have "\<not> path_exists cs (FDir [])" by (simp add: path_exists_def m_get_def)
      with 4(1) n None show ?thesis by simp
    qed (use n None in simp)
  qed
qed (simp_all add: path_exists_def)

lemma node_at_make_dirs_other:
  "make_dirs p s = Inr s' \<Longrightarrow> \<not> prefix p q \<Longrightarrow> \<not> prefix q p \<Longrightarrow> node_at q s' = node_at q s"
proof (induction p s arbitrary: q s' rule: make_dirs.induct)
  case (4 c cs es)
  then obtain n where n: "make_dirs cs (case m_get es c of None \<Rightarrow> FDir [] | Some n \<Rightarrow> n) = Inr n" "s' = FDir (hm_put c n es)"
    by (auto simp: bind_result_Inr_iff)
  obtain d ds where q: "q = d # ds" using 4(4) by (cases q) auto
  show ?case
  proof (cases "d = c")
    case True
    with 4(3,4) q have apart: "\<not> prefix cs ds" "\<not> prefix ds cs" by auto
    then have "ds \<noteq> []" by auto
    with 4(1) [OF n(1) apart] n(2) q True show ?thesis
      using get_new [of _ "[]"] by (cases "m_get es c"; cases ds) auto
  qed (use n(2) q in simp)
qed auto

lemma create_dir_all_other:
  "create_dir_all p s = (Inr (), s') \<Longrightarrow> \<not> prefix p q \<Longrightarrow> \<not> prefix q p \<Longrightarrow> node_at q s' = node_at q s"
  by (auto simp: create_dir_all_def fs_create_dir_all_def changed_def intro: node_at_make_dirs_other split: sum.splits)

lemma create_dir_all_existing: "node_at p s = Some (FDir es) \<Longrightarrow> create_dir_all p s = (Inr (), s)"
  using make_dirs_append [of p s "FDir es" "[]"]
  by (simp add: create_dir_all_def io_def fs_create_dir_all_def changed_def put_node_same)

lemma ensured_empty:
  assumes "ensure_empty_or_create p s = (Inr (), s')"
  shows "node_at p s' = Some (FDir [])" and "\<And>q. \<not> prefix p q \<Longrightarrow> \<not> prefix q p \<Longrightarrow> node_at q s' = node_at q s"
proof -
  show "node_at p s' = Some (FDir [])"
    using assms by (auto simp: ensure_empty_or_create_def andThen_Inr_iff fs_read_dir_def ret_def raise_def create_dir_all_def
        fs_create_dir_all_def changed_def intro: make_dirs_new split: if_splits option.splits fs_node.splits sum.splits)
  show "node_at q s' = node_at q s" if "\<not> prefix p q" "\<not> prefix q p" for q
    using assms that create_dir_all_other [of p s s' q]
    by (auto simp: ensure_empty_or_create_def andThen_Inr_iff fs_read_dir_def ret_def raise_def
        split: if_splits option.splits fs_node.splits)
qed

lemma copy_dir_contents_exact:
  assumes "node_at t s = Some (FDir [])" and "node_at src s = Some (FDir es)" and "tree_entries_ok es"
  shows "\<exists>s'. copy_dir_contents keep src t s = (Inr (), s') \<and> put_node t (FDir (kept_entries keep es)) s = Inr s'"
  using copy_entries_exact [OF assms(3,1), of keep] assms(2) create_dir_all_existing [OF assms(1)]
  by (simp add: copy_dir_contents_def andThen_def io_def fs_read_dir_def)

definition no_backslash :: "(string \<times> fs_node) list \<Rightarrow> bool" where
  "no_backslash es \<longleftrightarrow> list_all (\<lambda>e. \<not> starts_with (fst e) [CHR 0x5C]) es"

section \<open>Exported backups verify and restore\<close>

lemma segment_backup_valid:
  assumes "list_all file_name_ok p" and "p \<noteq> []" and "\<not> starts_with (hd p) [CHR 0x5C]"
  shows "\<not> backup_path_invalid (slash_path p)"
proof -
  obtain w ws where p: "p = w # ws" using assms(2) by (cases p) auto
  then obtain c cs where w: "w = c # cs" "c \<noteq> CHR ''/''" using assms(1) by (cases w) (auto simp: file_name_ok_def)
  have "\<not> list_ex (\<lambda>w. w = ''..'') p" using assms(1) by (auto simp: list_all_iff list_ex_iff file_name_ok_def)
  then show ?thesis
    using w assms(3) segments_slash [OF assms(2,1)] by (auto simp: backup_path_invalid_def p slash_path_Cons)
qed

lemma read_only:
  "collect_file_entries E p s = (r, s') \<Longrightarrow> s' = s"
  "verify_backup E p s = (r1, s1) \<Longrightarrow> s1 = s"
  "verify_restored_layout E p s = (r2, s2) \<Longrightarrow> s2 = s"
proof -
  show collect: "collect_file_entries E p s = (r, s') \<Longrightarrow> s' = s" for p s r s'
    by (auto simp: collect_file_entries_def andThen_def io_def fs_read_dir_def ret_def split: option.splits fs_node.splits sum.splits prod.splits)
  show "verify_backup E p s = (r1, s1) \<Longrightarrow> s1 = s"
    by (auto simp: verify_backup_def andThen_def lift_def ret_def read_backup_manifest_def
        dest!: read_json_state collect split: prod.splits sum.splits)
  have layout: "check_layout p ds s = (r, s') \<Longrightarrow> s' = s" for ds r s'
    by (induction ds) (auto simp: ret_def split: if_splits)
  show "verify_restored_layout E p s = (r2, s2) \<Longrightarrow> s2 = s"
    by (auto simp: verify_restored_layout_def andThen_def read_manifest_def dest!: read_json_state layout split: prod.splits sum.splits)
qed

lemma artifacts_read_only:
  "if_exists p (read_json err J p) s = (r, s') \<Longrightarrow> s' = s"
  "verify_artifact A i s = (r1, s1) \<Longrightarrow> s1 = s"
  "list_artifact_ids A s = (r2, s2) \<Longrightarrow> s2 = s"
  "verify_all_artifacts A s = (r3, s3) \<Longrightarrow> s3 = s"
proof -
  show maybe: "if_exists p (read_json err J p) s = (r, s') \<Longrightarrow> s' = s" for p err s r s' and J :: "'x json_form"
    by (auto simp: if_exists_def andThen_def ret_def dest!: read_json_state split: if_splits prod.splits sum.splits)
  have read: "fs_read p s = (r, s') \<Longrightarrow> s' = s" for p s r s' by (rule failed_call(1))
  show one: "verify_artifact A i s = (r1, s1) \<Longrightarrow> s1 = s" for i s r1 s1
    by (auto simp: verify_artifact_def andThen_def artifact_dir_def lift_def ret_def io_def Let_def
        dest!: maybe read_json_state read split: prod.splits sum.splits if_splits option.splits)
  show ids: "list_artifact_ids A s = (r2, s2) \<Longrightarrow> s2 = s" for s r2 s2
    by (auto simp: list_artifact_ids_def andThen_def io_def fs_read_dir_def ret_def split: if_splits option.splits fs_node.splits)
  have each: "verify_each A is s = (r, s') \<Longrightarrow> s' = s" for "is" s r s'
    by (induction "is" arbitrary: s r) (auto simp: andThen_def ret_def dest!: one split: prod.splits sum.splits)
  show "verify_all_artifacts A s = (r3, s3) \<Longrightarrow> s3 = s"
    by (auto simp: verify_all_artifacts_def andThen_def ret_def dest!: ids each split: prod.splits sum.splits)
qed

definition apart :: "path \<Rightarrow> path \<Rightarrow> bool" where
  "apart p q \<longleftrightarrow> \<not> prefix p q \<and> \<not> prefix q p"

lemma apart_below: "apart p q \<Longrightarrow> apart (p @ r) q"
  unfolding apart_def prefix_def by (metis append.assoc append_eq_append_conv2)

lemma apart_sym: "apart p q \<Longrightarrow> apart q p"
  by (simp add: apart_def)

lemma exported:
  assumes run: "backup_export E now st dir s = (Inr rep, s1)" and root: "node_at (os_root st) s = Some (FDir es)"
    and ok: "tree_entries_ok es" and apart: "apart (os_root st) dir" and form: "json_form_ok (bk_manifest_form E)"
  shows "node_at (dir @ [BACKUP_DATA_DIR]) s1 = Some (FDir (kept_entries should_export_name es))"
    and "\<exists>m. read_backup_manifest E (dir @ [BACKUP_MANIFEST_FILE]) s1 = (Inr m, s1) \<and>
      bm_files m = sort_ranked (by_text be_path) (entries_of (bk_sha256 E) [] (kept_entries should_export_name es)) \<and>
      br_file_count rep = length (bm_files m)"
proof -
  let ?data = "dir @ [BACKUP_DATA_DIR]" and ?file = "dir @ [BACKUP_MANIFEST_FILE]" and ?kept = "kept_entries should_export_name es"
  define manifest where "manifest source entries = \<lparr>bm_backup_version = STORAGE_BACKUP_VERSION,
      bm_storage_version = mf_storage_version source, bm_created_at = now, bm_source_manifest = source,
      bm_files = sort_ranked (by_text be_path) entries\<rparr>" for source entries
  from run obtain sa sb sc entries sd source se where steps: "ensure_empty_or_create dir s = (Inr (), sa)"
      "create_dir_all ?data sa = (Inr (), sb)" "copy_dir_contents should_export_name (os_root st) ?data sb = (Inr (), sc)"
      "collect_file_entries E ?data sc = (Inr entries, sd)"
      and read: "read_json ManifestSerde (bk_storage_form E) (manifest_path (os_root st)) sd = (Inr source, se)"
    and wrote: "write_backup_manifest E ?file (manifest source entries) se = (Inr (), s1)" "br_file_count rep = length entries"
    unfolding backup_export_def andThen_Inr_iff Let_def ret_def read_manifest_def manifest_def [symmetric] by auto
  define m where "m = manifest source entries"
  have same: "se = sc" using read_json_state [OF read] read_only(1) [OF steps(4)] by simp
  have wrote: "write_backup_manifest E ?file m sc = (Inr (), s1)" "bm_files m = sort_ranked (by_text be_path) entries"
      "br_file_count rep = length (bm_files m)"
    using wrote same by (simp_all add: m_def manifest_def)
  have "make_dirs ?data sa = put_node dir (FDir [(BACKUP_DATA_DIR, FDir [])]) sa"
    using make_dirs_append [OF ensured_empty(1) [OF steps(1)], of "[BACKUP_DATA_DIR]"] by (simp add: m_get_def)
  with steps(2) have "put_node dir (FDir [(BACKUP_DATA_DIR, FDir [])]) sa = Inr sb"
    by (auto simp: create_dir_all_def io_def fs_create_dir_all_def changed_def split: sum.splits)
  then have empty: "node_at ?data sb = Some (FDir [])" by (simp add: node_at_append put_node_at)
  have "node_at (os_root st) sb = Some (FDir es)"
    using create_dir_all_other [OF steps(2)] ensured_empty(2) [OF steps(1)] root apart
      apart_below [OF apart_sym [OF apart], of "[BACKUP_DATA_DIR]"] by (simp add: apart_def)
  from copy_dir_contents_exact [OF empty this ok, of should_export_name] steps(3)
  have "put_node ?data (FDir ?kept) sb = Inr sc" by auto
  then have copied: "node_at ?data sc = Some (FDir ?kept)" by (rule put_node_at)
  obtain b where "fs_write ?file b sc = (Inr (), s1)"
    using wrote(1) unfolding write_backup_manifest_def by (rule write_json_Inr)
  then have "put_node ?file (FFile b) sc = Inr s1"
    by (auto simp: fs_write_def changed_def split: if_splits sum.splits)
  from node_at_put_other [OF this, of ?data] copied show "node_at ?data s1 = Some (FDir ?kept)"
    by (simp add: BACKUP_DATA_DIR_def BACKUP_MANIFEST_FILE_def)
  have "entries = entries_of (bk_sha256 E) [] ?kept" using collected_Inr [OF steps(4)] copied by simp
  with wrote(2,3) written_json_read [OF form wrote(1) [unfolded write_backup_manifest_def]]
  show "\<exists>m. read_backup_manifest E ?file s1 = (Inr m, s1) \<and> bm_files m = sort_ranked (by_text be_path) (entries_of (bk_sha256 E) [] ?kept) \<and>
      br_file_count rep = length (bm_files m)"
    unfolding read_backup_manifest_def by blast
qed

lemma kept_no_backslash: "no_backslash es \<Longrightarrow> no_backslash (kept_entries keep es)"
  using kept_name [of _ _ keep es] by (fastforce simp: no_backslash_def list_all_iff)

lemma file_at_first: "file_at (w # p) (FDir es) = Some b \<Longrightarrow> w \<in> fst ` set es"
  using file_at_absent [of w es p] by force

lemma entries_valid:
  assumes "tree_entries_ok es" and "no_backslash es"
  shows "list_all (\<lambda>e. \<not> backup_path_invalid (be_path e)) (entries_of H [] es)"
proof -
  have "\<not> backup_path_invalid (slash_path p)" if at: "(p, b) \<in> set (tree_files [] es)" for p b
  proof (rule segment_backup_valid)
    show p: "list_all file_name_ok p" "p \<noteq> []" using tree_files_paths [OF assms(1) _ at] by simp_all
    obtain w ws where "p = w # ws" using p by (cases p) auto
    with at tree_files_at [OF assms(1), of p b "[]"] file_at_first [of w ws es b] assms(2)
    show "\<not> starts_with (hd p) [CHR 0x5C]" by (auto simp: no_backslash_def list_all_iff)
  qed
  then show ?thesis by (auto simp: entries_of_files list_all_iff entry_for_def)
qed

lemma verify_backup_complete:
  assumes "read_backup_manifest E (dir @ [BACKUP_MANIFEST_FILE]) s = (Inr m, s)"
    and "node_at (dir @ [BACKUP_DATA_DIR]) s = Some (FDir es)" and "tree_entries_ok es" and "no_backslash es"
    and "bm_files m = sort_ranked (by_text be_path) (entries_of (bk_sha256 E) [] es)"
  shows "verify_backup E dir s = (Inr m, s)"
proof -
  let ?entries = "entries_of (bk_sha256 E) [] es"
  have distinct: "distinct (map be_path ?entries)" by (rule entries_distinct [OF assms(3)])
  have "validate_manifest_file_entries (bm_files m) = Inr (by_path (bm_files m))"
    using entries_valid [OF assms(3,4)] distinct by (simp add: validated_iff assms(5) list_all_iff)
  moreover have "check_entries (by_path ?entries) (by_path (bm_files m)) = Inr ()"
    and "check_unexpected (by_path (bm_files m)) (m_keys (by_path ?entries)) = Inr ()"
    using checks_pass_iff [OF distinct, of "bm_files m"] distinct by (simp_all add: assms(5))
  ultimately show ?thesis
    by (simp add: verify_backup_def andThen_def assms(1) collected [OF assms(2)] lift_def ret_def)
qed

lemma restored:
  assumes run: "backup_restore E A dir target s = (Inr rr, s')" and data: "node_at (dir @ [BACKUP_DATA_DIR]) s = Some (FDir es)"
    and ok: "tree_entries_ok es" and apart: "apart dir target"
  shows "file_at (target @ p) s' = file_at p (FDir es)"
proof -
  let ?data = "dir @ [BACKUP_DATA_DIR]"
  from run obtain m sa sb store sc where steps: "ensure_empty_or_create target s = (Inr (), sa)"
      "copy_dir_contents (\<lambda>_. True) ?data target sa = (Inr (), sb)"
      "fs_artifact_store_new (A (target @ [''artifacts''])) sb = (Inr store, s')"
    by (auto simp: backup_restore_def andThen_Inr_iff ret_def raise_def dest!: read_only(2,3) artifacts_read_only(4) split: option.splits)
  have "node_at ?data sa = Some (FDir es)"
    using ensured_empty(2) [OF steps(1), of ?data] data apart_below [OF apart, of "[BACKUP_DATA_DIR]"] by (simp add: apart_def)
  from copy_dir_contents_exact [OF ensured_empty(1) [OF steps(1)] this ok, of "\<lambda>_. True"] steps(2)
  have "put_node target (FDir es) sa = Inr sb" by simp
  then have "file_at (target @ p) sb = file_at p (FDir es)"
    by (simp add: file_at_def node_at_append put_node_at)
  moreover have "file_at q s' = file_at q sb" for q
    using steps(3) fs_create_dir_all_file
    by (auto simp: fs_artifact_store_new_def andThen_Inr_iff create_dir_all_def ret_def)
  ultimately show ?thesis by simp
qed

text \<open>
  C28. A backup gives the storage back: what was exported verifies, and restoring it elsewhere
  gives a directory that holds exactly the files of the storage at the time of the export,
  with the lock and what else has its name left out.
\<close>

theorem backup_roundtrip:
  assumes "backup_export E now st dir s = (Inr rep, s1)" and "node_at (os_root st) s = Some (FDir es)"
    and "tree_entries_ok es" and "no_backslash es" and "apart (os_root st) dir" and "json_form_ok (bk_manifest_form E)"
    and "apart dir target" and "backup_restore E A dir target s1 = (Inr rr, s2)"
  shows "(\<exists>m. verify_backup E dir s1 = (Inr m, s1) \<and> br_file_count rep = length (bm_files m)) \<and>
    file_at (target @ p) s2 = (if STORAGE_LOCK_FILE_NAME \<in> set p then None else file_at (os_root st @ p) s)"
proof -
  note data = exported(1) [OF assms(1-3,5,6)] and kept = kept_entries_ok [OF assms(3)] kept_no_backslash [OF assms(4)]
  have "list_all should_export_name p \<longleftrightarrow> STORAGE_LOCK_FILE_NAME \<notin> set p"
    by (auto simp: list_all_iff should_export_name_def)
  then have "file_at (target @ p) s2 = (if STORAGE_LOCK_FILE_NAME \<in> set p then None else file_at p (FDir es))"
    using restored [OF assms(8) data kept(1) assms(7)] file_at_kept [OF assms(3)] by simp
  moreover have "file_at (os_root st @ p) s = file_at p (FDir es)" using assms(2) by (simp add: file_at_def node_at_append)
  ultimately show ?thesis
    using exported(2) [OF assms(1-3,5,6)] verify_backup_complete [OF _ data kept] by auto
qed

definition example_manifest_of :: "backup_file_entry list \<Rightarrow> backup_manifest" where
  "example_manifest_of es = \<lparr>bm_backup_version = 1, bm_storage_version = 1, bm_created_at = 9, bm_source_manifest = storage_manifest_new 5,
     bm_files = es\<rparr>"

definition example_backup :: "backup_file_entry list \<Rightarrow> backup_env" where
  "example_backup es = \<lparr>bk_sha256 = id, bk_storage_form = form_of (storage_manifest_new 5), bk_manifest_form = form_of (example_manifest_of es)\<rparr>"

definition example_root :: "(string \<times> fs_node) list" where
  "example_root = (''manifest.json'', FFile ''x'') # (STORAGE_LOCK_FILE_NAME, FFile ''held'') # map (\<lambda>d. (d, FDir [])) STORAGE_LAYOUT_DIRECTORIES"

definition example_storage :: agent_os_storage where
  "example_storage = \<lparr>os_root = [''store''], os_manifest = storage_manifest_new 5\<rparr>"

abbreviation example_files :: "backup_file_entry list" where
  "example_files \<equiv> [\<lparr>be_path = ''manifest.json'', be_byte_len = 1, be_sha256 = ''x''\<rparr>]"

theorem backup_roundtrip_witness:
  "\<exists>rep s1 rr s2.
     backup_export (example_backup example_files) 9 example_storage [''backup''] (FDir [(''store'', FDir example_root)]) = (Inr rep, s1) \<and>
     backup_restore (example_backup example_files) (\<lambda>p. (example_artifacts example_descriptor [])\<lparr>as_root := p\<rparr>) [''backup''] [''copy''] s1
       = (Inr rr, s2) \<and>
     file_at ([''copy''] @ [''manifest.json'']) s2 = Some ''x'' \<and> file_at ([''copy''] @ [STORAGE_LOCK_FILE_NAME]) s2 = None"
proof -
  let ?E = "example_backup example_files" and ?A = "\<lambda>p. (example_artifacts example_descriptor [])\<lparr>as_root := p\<rparr>"
  let ?s = "FDir [(''store'', FDir example_root)]"
  let ?export = "backup_export ?E 9 example_storage [''backup''] ?s"
  let ?restore = "backup_restore ?E ?A [''backup''] [''copy''] (snd ?export)"
  have "\<not> isl (fst ?export)" and "\<not> isl (fst ?restore)" by code_simp+
  then obtain rep rr where run: "?export = (Inr rep, snd ?export)" "?restore = (Inr rr, snd ?restore)"
    by (metis isl_def sum.exhaust prod.collapse)
  have root: "node_at (os_root example_storage) ?s = Some (FDir example_root)" by (simp add: example_storage_def)
  have ok: "tree_entries_ok example_root" "no_backslash example_root" by code_simp+
  have "apart (os_root example_storage) [''backup'']" "apart [''backup''] [''copy'']" and form: "json_form_ok (bk_manifest_form ?E)"
    by (simp_all add: apart_def example_storage_def example_backup_def form_of_ok)
  from backup_roundtrip [OF run(1) root ok this(1) form this(2) run(2)]
  have same: "file_at ([''copy''] @ p) (snd ?restore) = (if STORAGE_LOCK_FILE_NAME \<in> set p then None else file_at (os_root example_storage @ p) ?s)" for p
    by blast
  have "file_at (os_root example_storage @ [''manifest.json'']) ?s = Some ''x''"
    by (simp add: example_storage_def example_root_def file_at_Cons)
  then have "file_at ([''copy''] @ [''manifest.json'']) (snd ?restore) = Some ''x''"
    and "file_at ([''copy''] @ [STORAGE_LOCK_FILE_NAME]) (snd ?restore) = None"
    unfolding same by (simp_all add: STORAGE_LOCK_FILE_NAME_def)
  with run show ?thesis by blast
qed

abbreviation example_two :: "backup_file_entry list" where
  "example_two \<equiv> [\<lparr>be_path = ''a'', be_byte_len = 1, be_sha256 = ''1''\<rparr>, \<lparr>be_path = ''b'', be_byte_len = 1, be_sha256 = ''2''\<rparr>]"

lemma backup_manifest_binds_files_witness:
  "\<exists>m. verify_backup (example_backup example_two) [''one'']
       (FDir [(''one'', FDir [(BACKUP_MANIFEST_FILE, FFile ''x''), (BACKUP_DATA_DIR, FDir [(''a'', FFile ''1''), (''b'', FFile ''2'')])])])
     = (Inr m, FDir [(''one'', FDir [(BACKUP_MANIFEST_FILE, FFile ''x''), (BACKUP_DATA_DIR, FDir [(''a'', FFile ''1''), (''b'', FFile ''2'')])])]) \<and>
   verify_backup (example_backup example_two) [''two'']
       (FDir [(''two'', FDir [(BACKUP_MANIFEST_FILE, FFile ''x''), (BACKUP_DATA_DIR, FDir [(''b'', FFile ''2''), (''a'', FFile ''1'')])])])
     = (Inr m, FDir [(''two'', FDir [(BACKUP_MANIFEST_FILE, FFile ''x''), (BACKUP_DATA_DIR, FDir [(''b'', FFile ''2''), (''a'', FFile ''1'')])])]) \<and>
   file_at [''b''] (FDir [(''a'', FFile ''1''), (''b'', FFile ''2'')]) = file_at [''b''] (FDir [(''b'', FFile ''2''), (''a'', FFile ''1'')])"
proof -
  let ?E = "example_backup example_two" and ?es = "[(''a'', FFile ''1''), (''b'', FFile ''2'')]" and ?es' = "[(''b'', FFile ''2''), (''a'', FFile ''1'')]"
  let ?s = "\<lambda>n es. FDir [(n, FDir [(BACKUP_MANIFEST_FILE, FFile ''x''), (BACKUP_DATA_DIR, FDir es)])]"
  have at: "node_at ([n] @ [BACKUP_DATA_DIR]) (?s n es) = Some (FDir es)"
    and read: "read_backup_manifest ?E ([n] @ [BACKUP_MANIFEST_FILE]) (?s n es) = (Inr (example_manifest_of example_two), ?s n es)" for n es
    by (simp_all add: BACKUP_DATA_DIR_def BACKUP_MANIFEST_FILE_def read_backup_manifest_def read_json_Inr example_backup_def form_of_def file_at_def)
  have ok: "tree_entries_ok ?es" "tree_entries_ok ?es'" "no_backslash ?es" "no_backslash ?es'"
    and listed: "bm_files (example_manifest_of example_two) = sort_ranked (by_text be_path) (entries_of (bk_sha256 ?E) [] ?es)"
      "bm_files (example_manifest_of example_two) = sort_ranked (by_text be_path) (entries_of (bk_sha256 ?E) [] ?es')"
    by code_simp+
  have runs: "verify_backup ?E [''one''] (?s ''one'' ?es) = (Inr (example_manifest_of example_two), ?s ''one'' ?es)"
    "verify_backup ?E [''two''] (?s ''two'' ?es') = (Inr (example_manifest_of example_two), ?s ''two'' ?es')"
    using verify_backup_complete [OF read at] ok listed by blast+
  have "inj_on (bk_sha256 ?E) A" for A by (simp add: example_backup_def)
  from backup_manifest_binds_files [OF runs this at ok(1) at ok(2), of "[''b'']"] runs show ?thesis by blast
qed

end
