(* ===== verification/Repair.thy ===== *)
theory Repair
  imports Backup Jsonl_Journal Projector
begin
text \<open>
  The inspection of a storage, \<open>agentos-storage/src/repair.rs\<close>: one report over the layout, the
  artifacts, the journals of \<open>Jsonl_Journal\<close>, the links between them, and the projections. The
  texts of errors and the JSON forms are parameters.
\<close>

section \<open>Reports\<close>

datatype (plugins only: code size) repair_severity = InfoSeverity | WarningSeverity | CriticalSeverity

record broken_reference =
  bk_conversation_id :: conversation_id
  bk_event_id :: event_id
  bk_artifact_id :: artifact_id

record artifact_reference_report =
  rf_referenced :: "artifact_id list"
  rf_stored :: "artifact_id list"
  rf_orphans :: "artifact_id list"
  rf_broken :: "broken_reference list"

record projection_failure =
  pf_conversation_id :: conversation_id
  pf_message :: string

record projection_rebuild_report =
  pr_checked :: nat
  pr_rebuilt :: "conversation_id list"
  pr_failed :: "projection_failure list"

datatype (plugins only: code size) repair_issue =
    MissingLayoutDirectory string
  | ArtifactIntegrityFailed artifact_id "artifact_verification_issue list"
  | ConversationJournalIntegrityFailed conversation_id "integrity_issue list"
  | ConversationProjectionRebuildFailed conversation_id string
  | OrphanArtifact artifact_id
  | BrokenArtifactReference conversation_id event_id artifact_id

definition issue_severity :: "repair_issue \<Rightarrow> repair_severity" where
  "issue_severity x = (case x of OrphanArtifact _ \<Rightarrow> WarningSeverity | _ \<Rightarrow> CriticalSeverity)"

record repair_report =
  sr_issues :: "repair_issue list"
  sr_artifact_reports :: "artifact_verification_report list"
  sr_artifact_references :: artifact_reference_report
  sr_projection_rebuild :: projection_rebuild_report

definition repair_is_clean :: "repair_report \<Rightarrow> bool" where
  "repair_is_clean r \<longleftrightarrow> sr_issues r = []"

definition has_critical_issues :: "repair_report \<Rightarrow> bool" where
  "has_critical_issues r \<longleftrightarrow> list_ex (\<lambda>x. issue_severity x = CriticalSeverity) (sr_issues r)"

fun conversation_name :: "conversation_id \<Rightarrow> string" where
  "conversation_name (ConversationId t) = t"

fun event_name :: "event_id \<Rightarrow> string" where
  "event_name (EventId t) = t"

definition issue_sort_key :: "repair_issue \<Rightarrow> string" where
  "issue_sort_key x =
     (case x of
        MissingLayoutDirectory p \<Rightarrow> ''0:'' @ p
      | ArtifactIntegrityFailed i _ \<Rightarrow> ''1:'' @ artifact_text i
      | ConversationJournalIntegrityFailed c _ \<Rightarrow> ''2:'' @ conversation_name c
      | ConversationProjectionRebuildFailed c _ \<Rightarrow> ''3:'' @ conversation_name c
      | OrphanArtifact i \<Rightarrow> ''4:'' @ artifact_text i
      | BrokenArtifactReference c e i \<Rightarrow> ''5:'' @ conversation_name c @ '':'' @ event_name e @ '':'' @ artifact_text i)"

section \<open>Journals in the tree\<close>

record repair_env =
  rp_codec :: codec
  rp_journal_form :: "journal_manifest json_form"
  rp_io_text :: "io_error \<Rightarrow> string"
  rp_journal_text :: "jsonl_error \<Rightarrow> string"
  rp_artifacts :: "path \<Rightarrow> fs_artifact_store"

definition regular_files :: "path \<Rightarrow> fs_node \<Rightarrow> (string, string) hmap" where
  "regular_files p s =
     (case node_at p s of
        Some (FDir es) \<Rightarrow> List.map_filter (\<lambda>(k, n). case n of FFile b \<Rightarrow> Some (k, b) | FDir _ \<Rightarrow> None) es
      | _ \<Rightarrow> [])"

text \<open>The directory of a conversation as \<open>Jsonl_Journal\<close> has it, or the text of the error where its manifest is not readable.\<close>

definition journal_dir :: "repair_env \<Rightarrow> path \<Rightarrow> conversation_id \<Rightarrow> fs_node \<Rightarrow> string + conversation_dir" where
  "journal_dir E root c s =
     (let dir = root @ [conversation_name c]; p = dir @ [''manifest.json''] in
      if \<not> path_exists p s then Inr empty_dir
      else case fs_read p s of
          (Inl e, _) \<Rightarrow> Inl (rp_io_text E e)
        | (Inr b, _) \<Rightarrow>
            bind_result (jf_read (rp_journal_form E) b) (\<lambda>m.
              Inr \<lparr>cd_manifest = Some m, cd_segments = regular_files (dir @ [''segments'']) s\<rparr>))"

definition journal_verify :: "repair_env \<Rightarrow> path \<Rightarrow> conversation_id \<Rightarrow> fs_node \<Rightarrow> string + integrity_report" where
  "journal_verify E root c s = map_sum id (verify (rp_codec E)) (journal_dir E root c s)"

definition journal_load :: "repair_env \<Rightarrow> path \<Rightarrow> conversation_id \<Rightarrow> fs_node \<Rightarrow> string + event_envelope list" where
  "journal_load E root c s =
     bind_result (journal_dir E root c s) (\<lambda>d. map_sum (rp_journal_text E) id (jsonl_load_dir (rp_codec E) c d))"

section \<open>Inspection\<close>

definition discover_conversation_ids_at :: "path \<Rightarrow> conversation_id list storage_prog" where
  "discover_conversation_ids_at p s =
     (if \<not> path_exists p s then (Inr [], s)
      else andThen (io p (fs_read_dir p)) (\<lambda>es.
        ret (sort_ranked (by_text conversation_name)
          (map (\<lambda>e. ConversationId (fst e))
            (filter (\<lambda>e. path_is_dir (p @ [fst e]) s \<and> path_is_file (p @ [fst e, ''manifest.json'']) s) es)))) s)"

definition path_for :: "agent_os_storage \<Rightarrow> string \<Rightarrow> path" where
  "path_for st d = join_path (os_root st) d"

definition discover_conversation_ids :: "agent_os_storage \<Rightarrow> conversation_id list storage_prog" where
  "discover_conversation_ids st = discover_conversation_ids_at (path_for st ''conversations'')"

definition artifacts_for :: "repair_env \<Rightarrow> agent_os_storage \<Rightarrow> fs_artifact_store storage_prog" where
  "artifacts_for E st = fs_artifact_store_new (rp_artifacts E (path_for st ''artifacts''))"

definition rebuild_one :: "repair_env \<Rightarrow> path \<Rightarrow> fs_node \<Rightarrow> conversation_id \<Rightarrow> projection_rebuild_report \<Rightarrow> projection_rebuild_report" where
  "rebuild_one E root s c r =
     (case journal_load E root c s of
        Inr events \<Rightarrow> r\<lparr>pr_rebuilt := pr_rebuilt r @ [c]\<rparr>
      | Inl e \<Rightarrow> r\<lparr>pr_failed := pr_failed r @ [\<lparr>pf_conversation_id = c, pf_message = e\<rparr>]\<rparr>)"

text \<open>The projector never fails on events, so a rebuild fails only where loading does.\<close>

definition rebuild_conversation_projections :: "repair_env \<Rightarrow> agent_os_storage \<Rightarrow> projection_rebuild_report storage_prog" where
  "rebuild_conversation_projections E st =
     andThen (discover_conversation_ids st) (\<lambda>cs s.
       let ids = sort_ranked (by_text conversation_name) cs;
           r = fold (rebuild_one E (path_for st ''conversations'') s) ids \<lparr>pr_checked = length ids, pr_rebuilt = [], pr_failed = []\<rparr> in
       (Inr (r\<lparr>pr_rebuilt := sort_ranked (by_text conversation_name) (pr_rebuilt r),
               pr_failed := sort_ranked (by_text (\<lambda>f. conversation_name (pf_conversation_id f))) (pr_failed r)\<rparr>), s))"

type_synonym reference_map = "(string, artifact_id \<times> (conversation_id \<times> event_id) list) hmap"

definition add_reference :: "event_envelope \<Rightarrow> reference_map \<Rightarrow> reference_map" where
  "add_reference e m =
     (case env_event e of
        ArtifactLinkedToConversation a \<Rightarrow>
          (let k = artifact_text (art_id a); (i, refs) = (case m_get m k of None \<Rightarrow> (art_id a, []) | Some x \<Rightarrow> x) in
           hm_put k (i, refs @ [(env_conversation_id e, env_event_id e)]) m)
      | _ \<Rightarrow> m)"

definition events_of :: "repair_env \<Rightarrow> path \<Rightarrow> fs_node \<Rightarrow> conversation_id \<Rightarrow> event_envelope list" where
  "events_of E root s c = (case journal_load E root c s of Inr es \<Rightarrow> es | Inl e \<Rightarrow> [])"

definition broken_rank :: "broken_reference \<Rightarrow> broken_reference \<Rightarrow> bool" where
  "broken_rank a b \<longleftrightarrow>
     (conversation_name (bk_conversation_id a), event_name (bk_event_id a), artifact_text (bk_artifact_id a)) \<le>
     (conversation_name (bk_conversation_id b), event_name (bk_event_id b), artifact_text (bk_artifact_id b))"

definition reference_report :: "artifact_id list \<Rightarrow> event_envelope list \<Rightarrow> artifact_reference_report" where
  "reference_report stored events =
     (let m = fold add_reference events [];
          broken = concat (map (\<lambda>(i, refs). if i \<in> set stored then []
                                             else map (\<lambda>(c, e). \<lparr>bk_conversation_id = c, bk_event_id = e, bk_artifact_id = i\<rparr>) refs)
                     (sort_ranked (by_text (\<lambda>x. artifact_text (fst x))) (m_values m))) in
      \<lparr>rf_referenced = sort_ranked (by_text artifact_text) (map fst (m_values m)), rf_stored = stored,
       rf_orphans = sort_ranked (by_text artifact_text) (filter (\<lambda>i. \<not> m_contains m (artifact_text i)) stored),
       rf_broken = sort_ranked broken_rank broken\<rparr>)"

definition detect_artifact_references :: "repair_env \<Rightarrow> agent_os_storage \<Rightarrow> artifact_reference_report storage_prog" where
  "detect_artifact_references E st =
     andThen (artifacts_for E st) (\<lambda>A.
     andThen (list_artifact_ids A) (\<lambda>stored.
     andThen (discover_conversation_ids st) (\<lambda>cs s.
       (Inr (reference_report stored (concat (map (events_of E (path_for st ''conversations'') s) cs))), s))))"

text \<open>A journal that cannot be verified ends the inspection.\<close>

fun journal_issues :: "repair_env \<Rightarrow> path \<Rightarrow> conversation_id list \<Rightarrow> repair_issue list storage_prog" where
  "journal_issues E root [] s = (Inr [], s)"
| "journal_issues E root (c # cs) s =
     (case journal_verify E root c s of
        Inl e \<Rightarrow> (Inl (StorageIo [''conversation journal verify''] (IoOther e)), s)
      | Inr r \<Rightarrow>
          andThen (journal_issues E root cs) (\<lambda>xs.
            ret ((if rep_issues r \<noteq> [] then [ConversationJournalIntegrityFailed c (rep_issues r)] else []) @ xs)) s)"

definition storage_inspect :: "repair_env \<Rightarrow> agent_os_storage \<Rightarrow> repair_report storage_prog" where
  "storage_inspect E st =
     andThen (\<lambda>s. (Inr (map (\<lambda>d. MissingLayoutDirectory (path_text (path_for st d)))
       (filter (\<lambda>d. \<not> path_is_dir (path_for st d) s) STORAGE_LAYOUT_DIRECTORIES)), s)) (\<lambda>missing.
     andThen (artifacts_for E st) (\<lambda>A.
     andThen (verify_all_artifacts A) (\<lambda>reports.
     andThen (discover_conversation_ids st) (\<lambda>cs.
     andThen (journal_issues E (path_for st ''conversations'') cs) (\<lambda>journals.
     andThen (detect_artifact_references E st) (\<lambda>refs.
     andThen (rebuild_conversation_projections E st) (\<lambda>rebuilt.
     ret \<lparr>sr_issues = sort_ranked (by_text issue_sort_key)
            (missing @
             map (\<lambda>r. ArtifactIntegrityFailed (vr_artifact_id r) (vr_issues r)) (filter (\<lambda>r. \<not> vr_verified r) reports) @
             journals @ map OrphanArtifact (rf_orphans refs) @
             map (\<lambda>b. BrokenArtifactReference (bk_conversation_id b) (bk_event_id b) (bk_artifact_id b)) (rf_broken refs) @
             map (\<lambda>f. ConversationProjectionRebuildFailed (pf_conversation_id f) (pf_message f)) (pr_failed rebuilt)),
          sr_artifact_reports = reports, sr_artifact_references = refs, sr_projection_rebuild = rebuilt\<rparr>)))))))"

section \<open>What a run of the inspection sees\<close>

lemma artifacts_for_Inr:
  "artifacts_for E st s = (Inr A, s') \<longleftrightarrow>
     A = rp_artifacts E (path_for st ''artifacts'') \<and> create_dir_all (as_root (rp_artifacts E (path_for st ''artifacts''))) s = (Inr (), s')"
  by (auto simp: artifacts_for_def fs_artifact_store_new_def andThen_Inr_iff ret_def)

lemma create_dir_all_made: "create_dir_all p s = (Inr (), s') \<Longrightarrow> path_is_dir p s'"
  by (auto simp: create_dir_all_def fs_create_dir_all_def changed_def dest: make_dirs_dir split: sum.splits)

lemma create_dir_all_again: "create_dir_all p s = (Inr (), s') \<Longrightarrow> create_dir_all p s' = (Inr (), s')"
  using create_dir_all_made [of p s s'] create_dir_all_existing [of p s'] by (auto simp: path_is_dir_iff)

lemma artifacts_for_again: "artifacts_for E st s = (Inr A, s') \<Longrightarrow> artifacts_for E st s' = (Inr A, s')"
  by (auto simp: artifacts_for_Inr intro: create_dir_all_again)

lemma discover_state: "discover_conversation_ids st s = (r, s') \<Longrightarrow> s' = s"
  by (auto simp: discover_conversation_ids_def discover_conversation_ids_at_def andThen_def io_def fs_read_dir_def ret_def
      split: if_splits option.splits fs_node.splits)

lemma journal_issues_Inr:
  "journal_issues E root cs s = (Inr xs, s') \<Longrightarrow>
     s' = s \<and> (xs = [] \<longleftrightarrow> (\<forall>c \<in> set cs. \<exists>r. journal_verify E root c s = Inr r \<and> rep_issues r = []))"
proof (induction cs arbitrary: xs)
  case (Cons c cs)
  then obtain r ys where r: "journal_verify E root c s = Inr r" and ys: "journal_issues E root cs s = (Inr ys, s')"
    and xs: "xs = (if rep_issues r \<noteq> [] then [ConversationJournalIntegrityFailed c (rep_issues r)] else []) @ ys"
    by (auto simp: andThen_Inr_iff ret_def split: sum.splits)
  from Cons.IH [OF ys] xs r show ?case by auto
qed simp

lemma verify_each_Inr:
  "verify_each A is s = (Inr rs, s') \<Longrightarrow>
     s' = s \<and> ((\<forall>r \<in> set rs. vr_verified r) \<longleftrightarrow> (\<forall>i \<in> set is. \<exists>r. verify_artifact A i s = (Inr r, s) \<and> vr_verified r))"
proof (induction "is" arbitrary: rs)
  case (Cons i "is")
  then obtain r ys s1 where r: "verify_artifact A i s = (Inr r, s1)" and ys: "verify_each A is s1 = (Inr ys, s')" and rs: "rs = r # ys"
    by (auto simp: andThen_Inr_iff ret_def)
  have "s1 = s" using artifacts_read_only(2) r by blast
  with Cons.IH ys r rs show ?case by auto
qed (simp add: ret_def)

lemma verify_all_Inr:
  assumes "verify_all_artifacts A s = (Inr rs, s')"
  obtains ids where "list_artifact_ids A s = (Inr ids, s)" and "s' = s"
    and "(\<forall>r \<in> set rs. vr_verified r) \<longleftrightarrow> (\<forall>i \<in> set ids. \<exists>r. verify_artifact A i s = (Inr r, s) \<and> vr_verified r)"
proof -
  from assms obtain ids s1 ys where ids: "list_artifact_ids A s = (Inr ids, s1)" and ys: "verify_each A ids s1 = (Inr ys, s')"
    and rs: "set rs = set ys"
    by (auto simp: verify_all_artifacts_def andThen_Inr_iff ret_def)
  have "s1 = s" using artifacts_read_only(3) ids by blast
  with that ids verify_each_Inr [of A ids s ys s'] ys rs show ?thesis by auto
qed

text \<open>The artifacts that the events link.\<close>

definition linked_artifacts :: "event_envelope list \<Rightarrow> artifact_id set" where
  "linked_artifacts es = {art_id a | a. ArtifactLinkedToConversation a \<in> env_event ` set es}"

lemma linked_artifacts_simps [simp]:
  "linked_artifacts [] = {}"
  "linked_artifacts (e # es) = (case env_event e of ArtifactLinkedToConversation a \<Rightarrow> insert (art_id a) (linked_artifacts es) | _ \<Rightarrow> linked_artifacts es)"
  by (auto simp: linked_artifacts_def split: conversation_event.splits)

lemma linked_artifacts_concat: "linked_artifacts (concat ess) = (\<Union>es \<in> set ess. linked_artifacts es)"
  by (auto simp: linked_artifacts_def)

definition references_ok :: "reference_map \<Rightarrow> bool" where
  "references_ok m \<longleftrightarrow> (\<forall>(k, i, refs) \<in> set m. k = artifact_text i \<and> refs \<noteq> [])"

lemma hm_put_set: "set (hm_put k v m) \<subseteq> insert (k, v) (set m)"
  by (induction k v m rule: hm_put.induct) auto

lemma artifact_text_inject [simp]: "artifact_text i = artifact_text j \<longleftrightarrow> i = j"
  by (cases i; cases j) simp

lemma references_fold:
  "references_ok m \<Longrightarrow> references_ok (fold add_reference es m) \<and>
     fst ` set (fold add_reference es m) = artifact_text ` linked_artifacts es \<union> fst ` set m"
proof (induction es arbitrary: m)
  case (Cons e es)
  have step: "references_ok (add_reference e m) \<and> fst ` set (add_reference e m) = artifact_text ` linked_artifacts [e] \<union> fst ` set m"
  proof (cases "\<exists>a. env_event e = ArtifactLinkedToConversation a")
    case True
    then obtain a where a: "env_event e = ArtifactLinkedToConversation a" by blast
    define k where "k = artifact_text (art_id a)"
    obtain i refs where x: "(case m_get m k of None \<Rightarrow> (art_id a, []) | Some x \<Rightarrow> x) = (i, refs)" by (rule prod.exhaust)
    have "i = art_id a"
    proof (cases "m_get m k")
      case (Some y)
      with x map_of_SomeD [OF Some [unfolded m_get_def]] Cons.prems show ?thesis by (auto simp: references_ok_def k_def)
    qed (use x in simp)
    with a x have put: "add_reference e m = hm_put k (art_id a, refs @ [(env_conversation_id e, env_event_id e)]) m"
      by (simp add: add_reference_def k_def [symmetric])
    have "references_ok (add_reference e m)"
      unfolding put references_ok_def
      using Cons.prems hm_put_set [of k _ m] by (fastforce simp: references_ok_def k_def)
    then show ?thesis using a by (simp add: put k_def keys_hm_put)
  next
    case False
    then have "add_reference e m = m" by (cases "env_event e") (simp_all add: add_reference_def)
    with False Cons.prems show ?thesis by (cases "env_event e") simp_all
  qed
  with Cons.IH [of "add_reference e m"] show ?case by (cases "env_event e") auto
qed simp

lemma reference_report_clean:
  "rf_orphans (reference_report stored es) = [] \<and> rf_broken (reference_report stored es) = [] \<longleftrightarrow>
     set stored = linked_artifacts es"
proof -
  define m where "m = fold add_reference es []"
  have ok: "references_ok m" and keys: "fst ` set m = artifact_text ` linked_artifacts es"
    using references_fold [of "[]" es] by (simp_all add: m_def references_ok_def)
  have empty: "sort_ranked le xs = [] \<longleftrightarrow> xs = []" for le :: "'x \<Rightarrow> 'x \<Rightarrow> bool" and xs
    by (metis length_0_conv length_sort_ranked)
  have ids: "fst ` set (m_values m) = linked_artifacts es"
  proof -
    have "fst ` set m = artifact_text ` fst ` set (m_values m)"
      using ok by (force simp: references_ok_def m_values_def image_iff)
    with keys have "artifact_text ` fst ` set (m_values m) = artifact_text ` linked_artifacts es" by simp
    then show ?thesis by (simp add: inj_image_eq_iff inj_def)
  qed
  have contains: "m_contains m (artifact_text i) \<longleftrightarrow> i \<in> linked_artifacts es" for i
    by (simp add: m_contains_iff m_keys_def keys) auto
  have refs: "(i, rs) \<in> set (m_values m) \<Longrightarrow> rs \<noteq> []" for i rs
    using ok by (fastforce simp: references_ok_def m_values_def)
  have "rf_orphans (reference_report stored es) = [] \<longleftrightarrow> set stored \<subseteq> linked_artifacts es"
    by (auto simp: reference_report_def Let_def m_def [symmetric] empty filter_empty_conv contains)
  moreover have "rf_broken (reference_report stored es) = [] \<longleftrightarrow> linked_artifacts es \<subseteq> set stored"
    unfolding ids [symmetric]
    using refs by (fastforce simp: reference_report_def Let_def m_def [symmetric] empty split: if_splits)
  ultimately show ?thesis by blast
qed

lemma rebuilt_failed:
  "pr_failed (fold (rebuild_one E root s) cs r) = [] \<longleftrightarrow> pr_failed r = [] \<and> (\<forall>c \<in> set cs. \<exists>es. journal_load E root c s = Inr es)"
  by (induction cs arbitrary: r) (auto simp: rebuild_one_def split: sum.splits)

definition conversation_sound :: "repair_env \<Rightarrow> path \<Rightarrow> fs_node \<Rightarrow> conversation_id \<Rightarrow> bool" where
  "conversation_sound E root s c \<longleftrightarrow>
     (\<exists>r. journal_verify E root c s = Inr r \<and> rep_issues r = []) \<and> (\<exists>es. journal_load E root c s = Inr es)"

definition artifact_verified :: "fs_artifact_store \<Rightarrow> fs_node \<Rightarrow> artifact_id \<Rightarrow> bool" where
  "artifact_verified A s i \<longleftrightarrow> (\<exists>r. verify_artifact A i s = (Inr r, s) \<and> vr_verified r)"

lemma inspection_steps:
  assumes "storage_inspect E st s = (Inr rep, s')"
  obtains A reports cs journals refs rebuilt where "artifacts_for E st s = (Inr A, s')"
    and "verify_all_artifacts A s' = (Inr reports, s')" and "discover_conversation_ids st s' = (Inr cs, s')"
    and "journal_issues E (path_for st ''conversations'') cs s' = (Inr journals, s')"
    and "detect_artifact_references E st s' = (Inr refs, s')" and "rebuild_conversation_projections E st s' = (Inr rebuilt, s')"
    and "sr_issues rep = [] \<longleftrightarrow> (\<forall>d \<in> set STORAGE_LAYOUT_DIRECTORIES. path_is_dir (path_for st d) s) \<and>
      (\<forall>r \<in> set reports. vr_verified r) \<and> journals = [] \<and> (rf_orphans refs = [] \<and> rf_broken refs = []) \<and> pr_failed rebuilt = []"
proof -
  have empty: "sort_ranked le xs = [] \<longleftrightarrow> xs = []" for le :: "'x \<Rightarrow> 'x \<Rightarrow> bool" and xs
    by (metis length_0_conv length_sort_ranked)
  from assms obtain A s1 reports s2 cs s3 journals s4 refs s5 rebuilt where steps: "artifacts_for E st s = (Inr A, s1)"
      "verify_all_artifacts A s1 = (Inr reports, s2)" "discover_conversation_ids st s2 = (Inr cs, s3)"
      "journal_issues E (path_for st ''conversations'') cs s3 = (Inr journals, s4)"
      "detect_artifact_references E st s4 = (Inr refs, s5)" "rebuild_conversation_projections E st s5 = (Inr rebuilt, s')"
    and issues: "sr_issues rep = [] \<longleftrightarrow> (\<forall>d \<in> set STORAGE_LAYOUT_DIRECTORIES. path_is_dir (path_for st d) s) \<and>
      (\<forall>r \<in> set reports. vr_verified r) \<and> journals = [] \<and> (rf_orphans refs = [] \<and> rf_broken refs = []) \<and> pr_failed rebuilt = []"
    by (auto simp: storage_inspect_def andThen_Inr_iff ret_def empty filter_empty_conv)
  have same: "s2 = s1" "s3 = s2" "s4 = s3"
    using artifacts_read_only(4) [OF steps(2)] discover_state [OF steps(3)] journal_issues_Inr [OF steps(4)] by simp_all
  from steps(5) obtain A' sa ids sb cs' where detect: "artifacts_for E st s1 = (Inr A', sa)" "list_artifact_ids A' sa = (Inr ids, sb)"
      "discover_conversation_ids st sb = (Inr cs', s5)"
    unfolding same detect_artifact_references_def andThen_Inr_iff by (auto dest: discover_state)
  have "s5 = s1"
    using artifacts_for_again [OF steps(1)] detect(1) artifacts_read_only(3) [OF detect(2)] discover_state [OF detect(3)] by simp
  moreover have "s' = s5"
    using steps(6) by (auto simp: rebuild_conversation_projections_def andThen_Inr_iff Let_def dest: discover_state)
  ultimately show ?thesis using that steps issues unfolding same by blast
qed

text \<open>
  C32. A storage is reported clean exactly when it is sound: its directories are there, every
  artifact verifies, every conversation has an intact journal that loads, and the artifacts
  stored are the artifacts that the conversations link. And looking changes no file.
\<close>

theorem inspection_finds_all_faults:
  assumes "storage_inspect E st s = (Inr rep, s')" and "list_artifact_ids (rp_artifacts E (path_for st ''artifacts'')) s' = (Inr ids, s')"
    and "discover_conversation_ids st s' = (Inr cs, s')"
  shows "(repair_is_clean rep \<longleftrightarrow>
      (\<forall>d \<in> set STORAGE_LAYOUT_DIRECTORIES. path_is_dir (path_for st d) s) \<and>
      (\<forall>i \<in> set ids. artifact_verified (rp_artifacts E (path_for st ''artifacts'')) s' i) \<and>
      (\<forall>c \<in> set cs. conversation_sound E (path_for st ''conversations'') s' c) \<and>
      set ids = (\<Union>c \<in> set cs. linked_artifacts (events_of E (path_for st ''conversations'') s' c))) \<and>
    file_at p s' = file_at p s"
proof -
  let ?root = "path_for st ''conversations''" and ?A = "rp_artifacts E (path_for st ''artifacts'')"
  obtain A reports cs' journals refs rebuilt where run: "artifacts_for E st s = (Inr A, s')"
      "verify_all_artifacts A s' = (Inr reports, s')" "discover_conversation_ids st s' = (Inr cs', s')"
      "journal_issues E ?root cs' s' = (Inr journals, s')" "detect_artifact_references E st s' = (Inr refs, s')"
      "rebuild_conversation_projections E st s' = (Inr rebuilt, s')"
    and issues: "sr_issues rep = [] \<longleftrightarrow> (\<forall>d \<in> set STORAGE_LAYOUT_DIRECTORIES. path_is_dir (path_for st d) s) \<and>
      (\<forall>r \<in> set reports. vr_verified r) \<and> journals = [] \<and> (rf_orphans refs = [] \<and> rf_broken refs = []) \<and> pr_failed rebuilt = []"
    by (rule inspection_steps [OF assms(1)])
  have A: "A = ?A" "cs' = cs" using run(1,3) assms(3) by (simp_all add: artifacts_for_Inr)
  have artifacts: "(\<forall>r \<in> set reports. vr_verified r) \<longleftrightarrow> (\<forall>i \<in> set ids. artifact_verified ?A s' i)"
  proof -
    obtain ids' where "list_artifact_ids A s' = (Inr ids', s')"
      and all: "(\<forall>r \<in> set reports. vr_verified r) \<longleftrightarrow> (\<forall>i \<in> set ids'. \<exists>r. verify_artifact A i s' = (Inr r, s') \<and> vr_verified r)"
      by (rule verify_all_Inr [OF run(2)])
    with assms(2) have "ids' = ids" by (simp add: A)
    with all show ?thesis by (simp add: A artifact_verified_def)
  qed
  have intact: "journals = [] \<longleftrightarrow> (\<forall>c \<in> set cs. \<exists>r. journal_verify E ?root c s' = Inr r \<and> rep_issues r = [])"
    using journal_issues_Inr [OF run(4)] unfolding A by blast
  have "refs = reference_report ids (concat (map (events_of E ?root s') cs))"
    using run(5) artifacts_for_again [OF run(1)] assms(2,3) by (simp add: A detect_artifact_references_def andThen_def)
  then have links: "rf_orphans refs = [] \<and> rf_broken refs = [] \<longleftrightarrow> set ids = (\<Union>c \<in> set cs. linked_artifacts (events_of E ?root s' c))"
    by (simp add: reference_report_clean linked_artifacts_concat)
  have loads: "pr_failed rebuilt = [] \<longleftrightarrow> (\<forall>c \<in> set cs. \<exists>es. journal_load E ?root c s' = Inr es)"
  proof -
    have empty: "sort_ranked le xs = [] \<longleftrightarrow> xs = []" for le :: "'x \<Rightarrow> 'x \<Rightarrow> bool" and xs
      by (metis length_0_conv length_sort_ranked)
    from run(6) assms(3) show ?thesis
      by (auto simp: rebuild_conversation_projections_def andThen_def Let_def empty rebuilt_failed)
  qed
  have "file_at p s' = file_at p s"
    using run(1) fs_create_dir_all_file by (auto simp: artifacts_for_Inr create_dir_all_def)
  then show ?thesis
    unfolding repair_is_clean_def issues artifacts intact links loads conversation_sound_def ball_conj_distrib by blast
qed

text \<open>Looking may make the directory of artifacts: it is missing in the first report and not in the next.\<close>

lemma inspection_makes_artifact_dir:
  assumes "storage_inspect E st s = (Inr rep, s')"
  shows "path_is_dir (as_root (rp_artifacts E (path_for st ''artifacts''))) s'"
  by (rule inspection_steps [OF assms]) (auto simp: artifacts_for_Inr intro: create_dir_all_made)

section \<open>Example\<close>

definition example_link :: event_envelope where
  "example_link = \<lparr>env_schema_version = 1, env_event_id = EventId ''e'', env_conversation_id = ConversationId ''c'', env_occurred_at = 0,
     env_actor_id = None, env_event = ArtifactLinkedToConversation example_descriptor\<rparr>"

definition example_journal :: journal_manifest where
  "example_journal = \<lparr>mf_version = 1, mf_max_segment_bytes = 100, mf_active_segment_index = 0, mf_total_events = 1,
     mf_segments = [\<lparr>sg_index = 0, sg_file_name = ''0.jsonl'', sg_event_count = 1, sg_bytes = 2, sg_checksum = Some (''l'' @ [CHR 0x0A]),
                    sg_previous_checksum = None\<rparr>]\<rparr>"

definition example_repair :: repair_env where
  "example_repair = \<lparr>rp_codec = \<lparr>enc_event = (\<lambda>_. ''l''), dec_event = (\<lambda>t. if t = ''l'' then Inr example_link else Inl ''other''), sha256_hex = id\<rparr>,
     rp_journal_form = form_of example_journal, rp_io_text = (\<lambda>_. ''io''), rp_journal_text = (\<lambda>_. ''journal''),
     rp_artifacts = (\<lambda>p. (example_artifacts example_descriptor ''text'')\<lparr>as_root := p\<rparr>)\<rparr>"

definition example_tree :: fs_node where
  "example_tree = FDir (map (\<lambda>d. (d,
     if d = ''conversations''
     then FDir [(''c'', FDir [(''manifest.json'', FFile ''x''), (''segments'', FDir [(''0.jsonl'', FFile (''l'' @ [CHR 0x0A]))])])]
     else if d = ''artifacts''
     then FDir [(''a-1'', FDir [(DESCRIPTOR_FILE, FFile ''x''), (CONTENT_FILE, FFile ''text''), (RECORD_FILE, FFile ''x'')])]
     else FDir [])) STORAGE_LAYOUT_DIRECTORIES)"

theorem inspection_finds_all_faults_witness:
  "\<exists>rep s'. storage_inspect example_repair \<lparr>os_root = [], os_manifest = storage_manifest_new 5\<rparr> example_tree = (Inr rep, s') \<and>
     repair_is_clean rep \<and> artifact_verified (rp_artifacts example_repair [''artifacts'']) s' (ArtifactId ''a-1'')"
proof -
  let ?st = "\<lparr>os_root = [], os_manifest = storage_manifest_new 5\<rparr>"
  let ?run = "storage_inspect example_repair ?st example_tree"
  let ?ids = "list_artifact_ids (rp_artifacts example_repair (path_for ?st ''artifacts'')) (snd ?run)"
  let ?cs = "discover_conversation_ids ?st (snd ?run)"
  have "case fst ?run of Inr rep \<Rightarrow> repair_is_clean rep | Inl e \<Rightarrow> False" and "fst ?ids = Inr [ArtifactId ''a-1'']" and "\<not> isl (fst ?cs)"
    by code_simp+
  then obtain rep cs where run: "?run = (Inr rep, snd ?run)" "repair_is_clean rep" and ids: "?ids = (Inr [ArtifactId ''a-1''], snd ?run)"
    and cs: "?cs = (Inr cs, snd ?run)"
    using artifacts_read_only(3) [of _ "snd ?run"] discover_state [of ?st "snd ?run"]
    by (metis (no_types, lifting) isl_def old.sum.exhaust prod.collapse sum.case)
  have "path_for ?st ''artifacts'' = [''artifacts'']" by code_simp
  with inspection_finds_all_faults [OF run(1) ids cs] run show ?thesis by auto
qed

end
