(* ===== verification/Knowledge_Store.thy ===== *)
theory Knowledge_Store
  imports Artifact_Files Record_Log Model_Types
begin
text \<open>
  The store of the knowledge engine, \<open>agentos-storage/src/knowledge_engine_store.rs\<close>:
  append-only logs of JSON lines whose records are chained by hashes, projections that are
  replaced as a whole, and blobs stored under the hash of their content. The hash, the JSON
  texts and the calendar are parameters. A hash text has 64 hexadecimal digits.
\<close>

section \<open>Data\<close>

definition EVENT_SEGMENT_FILE :: string where "EVENT_SEGMENT_FILE = ''seg-000001.kevent.ndjson''"
definition AUDIT_SEGMENT_FILE :: string where "AUDIT_SEGMENT_FILE = ''audit-seg-000001.kaudit.ndjson''"
definition BLOB_EXTENSION :: string where "BLOB_EXTENSION = ''blob''"
definition BLOB_META_EXTENSION :: string where "BLOB_META_EXTENSION = ''meta.json''"

datatype (plugins only: code size) record_projection_kind =
    ObjectsProjection | AliasesProjection | AttributesProjection | RelationsProjection | ClaimsProjection | EvidenceProjection
  | MechanismsProjection | EvaluationsProjection | MetaphorMappingsProjection | AssetsProjection
  | AssetPropertyBindingsProjection | ObservationsProjection | ToolsProjection

fun projection_file_name :: "record_projection_kind \<Rightarrow> string" where
  "projection_file_name ObjectsProjection = ''objects.krec.ndjson''"
| "projection_file_name AliasesProjection = ''aliases.krec.ndjson''"
| "projection_file_name AttributesProjection = ''attributes.krec.ndjson''"
| "projection_file_name RelationsProjection = ''relations.krec.ndjson''"
| "projection_file_name ClaimsProjection = ''claims.krec.ndjson''"
| "projection_file_name EvidenceProjection = ''evidence.krec.ndjson''"
| "projection_file_name MechanismsProjection = ''mechanisms.krec.ndjson''"
| "projection_file_name EvaluationsProjection = ''evaluations.krec.ndjson''"
| "projection_file_name MetaphorMappingsProjection = ''metaphor_mappings.krec.ndjson''"
| "projection_file_name AssetsProjection = ''assets.krec.ndjson''"
| "projection_file_name AssetPropertyBindingsProjection = ''asset_property_bindings.krec.ndjson''"
| "projection_file_name ObservationsProjection = ''observations.krec.ndjson''"
| "projection_file_name ToolsProjection = ''tools.krec.ndjson''"

record projection_write_report =
  pw_path :: path
  pw_record_count :: nat
  pw_byte_len :: nat

record log_append_report =
  la_path :: path
  la_byte_len :: nat
  la_line_count :: nat

record chained_append_report =
  ca_append :: log_append_report
  ca_record :: json

record blob_put_report =
  bp_blob_hash :: string
  bp_size_bytes :: nat
  bp_mime_type :: string
  bp_storage_path :: path
  bp_metadata_path :: path
  bp_deduplicated :: bool

record blob_integrity =
  bi_hash_algorithm :: string
  bi_verified_at :: datetime

record blob_storage_ref =
  bs_path :: string
  bs_encrypted :: bool

record blob_metadata_record =
  bt_blob_hash :: string
  bt_size_bytes :: nat
  bt_mime_type :: string
  bt_compression :: string
  bt_created_at :: datetime
  bt_integrity :: blob_integrity
  bt_storage :: blob_storage_ref

record engine_store =
  en_root :: path
  en_sha256_hex :: "string \<Rightarrow> string"
  en_value_form :: "json json_form"
  en_blob_form :: "blob_metadata_record json_form"
  en_year_month :: "datetime \<Rightarrow> int \<times> nat"

definition engine_store_new :: "engine_store \<Rightarrow> engine_store storage_prog" where
  "engine_store_new E = andThen (create_dir_all (en_root E)) (\<lambda>_. ret E)"

definition engine_store_for :: "engine_store \<Rightarrow> agent_os_storage \<Rightarrow> engine_store storage_prog" where
  "engine_store_for E st = engine_store_new (E\<lparr>en_root := knowledge_engine_root (os_root st)\<rparr>)"

section \<open>Lines of JSON\<close>

definition parent_of :: "path \<Rightarrow> path" where
  "parent_of p = butlast p"

definition append_jsonl :: "'a json_form \<Rightarrow> path \<Rightarrow> 'a \<Rightarrow> log_append_report storage_prog" where
  "append_jsonl J p x =
     andThen (create_dir_all (parent_of p)) (\<lambda>_.
     andThen (lift (map_sum (KnowledgeEngineSerde p) id (jf_write J x))) (\<lambda>t.
     (let line = t @ [newline] in
      andThen (io p (fs_append p line)) (\<lambda>_.
      ret \<lparr>la_path = p, la_byte_len = length line, la_line_count = 1\<rparr>))))"

definition fs_read_to_string :: "path \<Rightarrow> string storage_prog" where
  "fs_read_to_string p = andThen (io p (fs_read p)) (\<lambda>b. if utf8_valid b then ret b else raise (StorageIo p IoInvalidData))"

fun parse_json_lines :: "'a json_form \<Rightarrow> path \<Rightarrow> string list \<Rightarrow> storage_error + 'a list" where
  "parse_json_lines J p [] = Inr []"
| "parse_json_lines J p (l # ls) =
     (if trim l = [] then parse_json_lines J p ls
      else bind_result (map_sum (KnowledgeEngineSerde p) id (jf_read J l)) (\<lambda>x.
           bind_result (parse_json_lines J p ls) (\<lambda>xs. Inr (x # xs))))"

definition read_jsonl :: "'a json_form \<Rightarrow> path \<Rightarrow> 'a list storage_prog" where
  "read_jsonl J p s =
     (if \<not> path_exists p s then (Inr [], s)
      else andThen (fs_read_to_string p) (\<lambda>t. lift (parse_json_lines J p (file_lines t))) s)"

definition latest_jsonl_hash :: "engine_store \<Rightarrow> path \<Rightarrow> string \<Rightarrow> string option storage_prog" where
  "latest_jsonl_hash E p hash_field s =
     (if \<not> path_exists p s then (Inr None, s)
      else andThen (fs_read_to_string p) (\<lambda>t.
        case find (\<lambda>l. trim l \<noteq> []) (rev (file_lines t)) of
          None \<Rightarrow> ret None
        | Some l \<Rightarrow> andThen (lift (map_sum (KnowledgeEngineSerde p) id (jf_read (en_value_form E) l))) (\<lambda>v.
            ret (Option.bind (json_get hash_field v) json_as_str))) s)"

definition hash_text :: "engine_store \<Rightarrow> string \<Rightarrow> string" where
  "hash_text E b = ''sha256:'' @ en_sha256_hex E b"

text \<open>The record is hashed with the hash of its predecessor in it and its own still null.\<close>

definition append_jsonl_chained :: "engine_store \<Rightarrow> path \<Rightarrow> json \<Rightarrow> string \<Rightarrow> string \<Rightarrow> chained_append_report storage_prog" where
  "append_jsonl_chained E p v prev_field hash_field =
     andThen (latest_jsonl_hash E p hash_field) (\<lambda>prev_hash.
     case v of
       JObject kvs \<Rightarrow>
         (let linked = bt_put prev_field (case prev_hash of None \<Rightarrow> JNull | Some h \<Rightarrow> JString h) kvs;
              unsealed = bt_put hash_field JNull linked in
          andThen (lift (map_sum (KnowledgeEngineSerde p) id (jf_write (en_value_form E) (JObject unsealed)))) (\<lambda>t.
          (let record = JObject (bt_put hash_field (JString (hash_text E t)) unsealed) in
           andThen (append_jsonl (en_value_form E) p record) (\<lambda>appended.
           ret \<lparr>ca_append = appended, ca_record = record\<rparr>))))
     | _ \<Rightarrow> raise (KnowledgeEngineRecordShape p ''chained log record must be a JSON object''))"

definition with_extension :: "string \<Rightarrow> string \<Rightarrow> string" where
  "with_extension name ext =
     (let before = dropWhile (\<lambda>c. c \<noteq> CHR ''.'') (rev name) in
      (if length before \<le> 1 then name else rev (tl before)) @ ''.'' @ ext)"

definition write_jsonl_replace :: "'a json_form \<Rightarrow> path \<Rightarrow> 'a list \<Rightarrow> projection_write_report storage_prog" where
  "write_jsonl_replace J p xs =
     andThen (create_dir_all (parent_of p)) (\<lambda>_.
     (let tmp = parent_of p @ [with_extension (last p) ''tmp''] in
      andThen (lift (map_sum (KnowledgeEngineSerde p) id
        (fold (\<lambda>x acc. bind_result acc (\<lambda>b. bind_result (jf_write J x) (\<lambda>t. Inr (b @ t @ [newline])))) xs (Inr [])))) (\<lambda>bytes.
      andThen (io tmp (fs_write tmp bytes)) (\<lambda>_.
      andThen (io p (fs_rename tmp p)) (\<lambda>_.
      ret \<lparr>pw_path = p, pw_record_count = length xs, pw_byte_len = length bytes\<rparr>)))))"

section \<open>Operations of the store\<close>

text \<open>Numbers with leading zeros; the sign of a year counts for its width.\<close>

definition pad_nat :: "nat \<Rightarrow> nat \<Rightarrow> string" where
  "pad_nat w n = replicate (w - length (decimal n)) (CHR ''0'') @ decimal n"

definition pad_int :: "nat \<Rightarrow> int \<Rightarrow> string" where
  "pad_int w i = (if i < 0 then CHR ''-'' # pad_nat (w - 1) (nat (- i)) else pad_nat w (nat i))"

definition month_segment_path :: "engine_store \<Rightarrow> string \<Rightarrow> int \<Rightarrow> nat \<Rightarrow> string \<Rightarrow> path" where
  "month_segment_path E layer year month name = en_root E @ [layer, pad_int 4 year, pad_nat 2 month, name]"

definition segment_path :: "engine_store \<Rightarrow> string \<Rightarrow> datetime \<Rightarrow> string \<Rightarrow> path" where
  "segment_path E layer t name = (case en_year_month E t of (year, month) \<Rightarrow> month_segment_path E layer year month name)"

definition append_event :: "engine_store \<Rightarrow> 'a json_form \<Rightarrow> datetime \<Rightarrow> 'a \<Rightarrow> log_append_report storage_prog" where
  "append_event E J t x = append_jsonl J (segment_path E ''events'' t EVENT_SEGMENT_FILE) x"

definition append_event_chained :: "engine_store \<Rightarrow> datetime \<Rightarrow> json \<Rightarrow> chained_append_report storage_prog" where
  "append_event_chained E t v =
     append_jsonl_chained E (segment_path E ''events'' t EVENT_SEGMENT_FILE) v ''prev_event_hash'' ''event_hash''"

definition append_audit :: "engine_store \<Rightarrow> 'a json_form \<Rightarrow> datetime \<Rightarrow> 'a \<Rightarrow> log_append_report storage_prog" where
  "append_audit E J t x = append_jsonl J (segment_path E ''audit'' t AUDIT_SEGMENT_FILE) x"

definition append_audit_chained :: "engine_store \<Rightarrow> datetime \<Rightarrow> json \<Rightarrow> chained_append_report storage_prog" where
  "append_audit_chained E t v =
     append_jsonl_chained E (segment_path E ''audit'' t AUDIT_SEGMENT_FILE) v ''prev_audit_hash'' ''audit_hash''"

definition read_events :: "engine_store \<Rightarrow> 'a json_form \<Rightarrow> int \<Rightarrow> nat \<Rightarrow> 'a list storage_prog" where
  "read_events E J year month = read_jsonl J (month_segment_path E ''events'' year month EVENT_SEGMENT_FILE)"

definition read_audit :: "engine_store \<Rightarrow> 'a json_form \<Rightarrow> int \<Rightarrow> nat \<Rightarrow> 'a list storage_prog" where
  "read_audit E J year month = read_jsonl J (month_segment_path E ''audit'' year month AUDIT_SEGMENT_FILE)"

definition projection_path :: "engine_store \<Rightarrow> record_projection_kind \<Rightarrow> path" where
  "projection_path E k = en_root E @ [''records'', projection_file_name k]"

definition replace_projection_records ::
    "engine_store \<Rightarrow> 'a json_form \<Rightarrow> record_projection_kind \<Rightarrow> 'a list \<Rightarrow> projection_write_report storage_prog" where
  "replace_projection_records E J k xs = write_jsonl_replace J (projection_path E k) xs"

definition read_projection_records :: "engine_store \<Rightarrow> 'a json_form \<Rightarrow> record_projection_kind \<Rightarrow> 'a list storage_prog" where
  "read_projection_records E J k = read_jsonl J (projection_path E k)"

section \<open>Blobs\<close>

definition blob_dir :: "string \<Rightarrow> path" where
  "blob_dir h = [''blobs'', ''sha256'', take 2 h, take 2 (drop 2 h)]"

definition blob_path_for_hash_hex :: "engine_store \<Rightarrow> string \<Rightarrow> path" where
  "blob_path_for_hash_hex E h = en_root E @ blob_dir h @ [h @ ''.'' @ BLOB_EXTENSION]"

definition blob_metadata_path_for_hash_hex :: "engine_store \<Rightarrow> string \<Rightarrow> path" where
  "blob_metadata_path_for_hash_hex E h = en_root E @ blob_dir h @ [h @ ''.'' @ BLOB_META_EXTENSION]"

text \<open>Joined with slashes, and backslashes replaced by them.\<close>

definition relative_to_root :: "path \<Rightarrow> path \<Rightarrow> string" where
  "relative_to_root root p =
     map (\<lambda>c. if c = CHR 0x5C then CHR ''/'' else c)
       (if prefix root p then join_with ''/'' (drop (length root) p) else path_text p)"

definition ascii_hexdigit :: "char \<Rightarrow> bool" where
  "ascii_hexdigit c \<longleftrightarrow> (let n = of_char c :: nat in 48 \<le> n \<and> n \<le> 57 \<or> 65 \<le> n \<and> n \<le> 70 \<or> 97 \<le> n \<and> n \<le> 102)"

definition normalize_sha256_hash :: "string \<Rightarrow> storage_error + string" where
  "normalize_sha256_hash t =
     (let h = (if starts_with t ''sha256:'' then drop 7 t else t) in
      if length h \<noteq> 64 \<or> \<not> list_all ascii_hexdigit h then Inl (InvalidKnowledgeBlobHash t)
      else Inr (to_ascii_lowercase h))"

definition put_blob :: "engine_store \<Rightarrow> string \<Rightarrow> string \<Rightarrow> datetime \<Rightarrow> blob_put_report storage_prog" where
  "put_blob E bytes mime at =
     (let h = en_sha256_hex E bytes; p = blob_path_for_hash_hex E h; q = blob_metadata_path_for_hash_hex E h in
      andThen (create_dir_all (parent_of p)) (\<lambda>_.
      andThen (\<lambda>s. (Inr (path_exists p s), s)) (\<lambda>deduplicated.
      andThen (if \<not> deduplicated then io p (fs_write p bytes) else ret ()) (\<lambda>_.
      andThen (write_json KnowledgeEngineSerde (en_blob_form E) q
        \<lparr>bt_blob_hash = hash_text E bytes, bt_size_bytes = length bytes, bt_mime_type = mime, bt_compression = ''none'',
         bt_created_at = at, bt_integrity = \<lparr>bi_hash_algorithm = ''sha256'', bi_verified_at = at\<rparr>,
         bt_storage = \<lparr>bs_path = relative_to_root (en_root E) p, bs_encrypted = False\<rparr>\<rparr>) (\<lambda>_.
      ret \<lparr>bp_blob_hash = hash_text E bytes, bp_size_bytes = length bytes, bp_mime_type = mime, bp_storage_path = p,
           bp_metadata_path = q, bp_deduplicated = deduplicated\<rparr>)))))"

definition read_blob :: "engine_store \<Rightarrow> string \<Rightarrow> string option storage_prog" where
  "read_blob E t =
     andThen (lift (normalize_sha256_hash t)) (\<lambda>h.
     if_exists (blob_path_for_hash_hex E h) (io (blob_path_for_hash_hex E h) (fs_read (blob_path_for_hash_hex E h))))"

definition read_blob_metadata :: "engine_store \<Rightarrow> string \<Rightarrow> blob_metadata_record option storage_prog" where
  "read_blob_metadata E t =
     andThen (lift (normalize_sha256_hash t)) (\<lambda>h.
     if_exists (blob_metadata_path_for_hash_hex E h)
       (read_json KnowledgeEngineSerde (en_blob_form E) (blob_metadata_path_for_hash_hex E h)))"

section \<open>A blob is read back as it was put\<close>

lemma node_at_make_dirs: "make_dirs p s = Inr s' \<Longrightarrow> \<not> prefix q p \<Longrightarrow> node_at q s' = node_at q s"
proof (induction p s arbitrary: q s' rule: make_dirs.induct)
  case (4 c cs es)
  then obtain n where n: "make_dirs cs (case m_get es c of None \<Rightarrow> FDir [] | Some n \<Rightarrow> n) = Inr n" "s' = FDir (hm_put c n es)"
    by (auto simp: bind_result_Inr_iff)
  obtain d ds where q: "q = d # ds" using 4(3) by (cases q) auto
  show ?case
  proof (cases "d = c")
    case True
    with 4(3) q have ds: "\<not> prefix ds cs" by simp
    then have "ds \<noteq> []" by auto
    then have "node_at ds (FDir []) = None" by (cases ds) (simp_all add: m_get_def)
    with 4(1) [OF n(1) ds] n(2) q True show ?thesis by (cases "m_get es c") simp_all
  qed (use n(2) q in simp)
qed auto

lemma create_dir_all_node: "create_dir_all p s = (Inr (), s') \<Longrightarrow> \<not> prefix q p \<Longrightarrow> node_at q s' = node_at q s"
  by (auto simp: create_dir_all_def fs_create_dir_all_def changed_def intro: node_at_make_dirs split: sum.splits)

lemma fs_write_node:
  assumes "fs_write p b s = (Inr (), s')" and "q = p \<or> \<not> prefix p q \<and> \<not> prefix q p"
  shows "node_at q s' = (if q = p then Some (FFile b) else node_at q s)"
  using assms put_node_at [of p "FFile b" s s'] node_at_put_other [of p "FFile b" s s' q]
  by (auto simp: fs_write_def changed_def split: if_splits sum.splits)

lemma same_length_prefix: "length p = length q \<Longrightarrow> prefix p q \<longleftrightarrow> p = q"
  by (auto simp: prefix_def)

lemma blob_paths [simp]:
  "length (blob_path_for_hash_hex E h) = length (en_root E) + 5"
  "length (blob_metadata_path_for_hash_hex E h) = length (en_root E) + 5"
  "length (parent_of (blob_path_for_hash_hex E h)) = length (en_root E) + 4"
  "blob_path_for_hash_hex E h = blob_path_for_hash_hex E h' \<longleftrightarrow> h = h'"
  by (auto simp: blob_path_for_hash_hex_def blob_metadata_path_for_hash_hex_def blob_dir_def parent_of_def)

lemma blob_not_metadata [simp]: "blob_path_for_hash_hex E h \<noteq> blob_metadata_path_for_hash_hex E h'"
proof
  assume "blob_path_for_hash_hex E h = blob_metadata_path_for_hash_hex E h'"
  then have "h @ ''.'' @ BLOB_EXTENSION = h' @ ''.'' @ BLOB_META_EXTENSION"
    by (simp add: blob_path_for_hash_hex_def blob_metadata_path_for_hash_hex_def)
  then have "last (h @ ''.'' @ BLOB_EXTENSION) = last (h' @ ''.'' @ BLOB_META_EXTENSION)" by simp
  then show False by (simp add: BLOB_EXTENSION_def BLOB_META_EXTENSION_def)
qed

text \<open>What is at the place of a blob is a file with the content that the name says.\<close>

definition blobs_sound :: "engine_store \<Rightarrow> fs_node \<Rightarrow> bool" where
  "blobs_sound E s \<longleftrightarrow>
     (\<forall>h n. node_at (blob_path_for_hash_hex E h) s = Some n \<longrightarrow> (\<exists>b. n = FFile b \<and> en_sha256_hex E b = h))"

definition hash_ok :: "engine_store \<Rightarrow> bool" where
  "hash_ok E \<longleftrightarrow>
     (\<forall>b. length (en_sha256_hex E b) = 64 \<and> list_all ascii_hexdigit (en_sha256_hex E b) \<and>
          to_ascii_lowercase (en_sha256_hex E b) = en_sha256_hex E b)"

lemma normalize_hash_text: "hash_ok E \<Longrightarrow> normalize_sha256_hash (hash_text E b) = Inr (en_sha256_hex E b)"
  by (simp add: normalize_sha256_hash_def hash_text_def hash_ok_def)

lemma put_blob_nodes:
  assumes run: "put_blob E b mime at s = (Inr r, s')" and sound: "blobs_sound E s"
  shows "node_at (blob_path_for_hash_hex E h) s' =
      (if h = en_sha256_hex E b \<and> node_at (blob_path_for_hash_hex E h) s = None then Some (FFile b)
       else node_at (blob_path_for_hash_hex E h) s)"
    and "bp_blob_hash r = hash_text E b"
    and "bp_deduplicated r \<longleftrightarrow> node_at (blob_path_for_hash_hex E (en_sha256_hex E b)) s \<noteq> None"
proof -
  define hb where "hb = en_sha256_hex E b"
  let ?p = "blob_path_for_hash_hex E" and ?q = "blob_metadata_path_for_hash_hex E hb"
  from run obtain s1 s2 m where steps: "create_dir_all (parent_of (?p hb)) s = (Inr (), s1)"
      "(if \<not> path_exists (?p hb) s1 then io (?p hb) (fs_write (?p hb) b) else ret ()) s1 = (Inr (), s2)"
      "write_json KnowledgeEngineSerde (en_blob_form E) ?q m s2 = (Inr (), s')"
    and r: "bp_blob_hash r = hash_text E b" "bp_deduplicated r = path_exists (?p hb) s1"
    unfolding put_blob_def Let_def hb_def [symmetric] by (auto simp: andThen_Inr_iff ret_def)
  have "\<not> prefix (?p h) (parent_of (?p hb))" for h
    by (auto dest: prefix_length_le)
  then have s1: "node_at (?p h) s1 = node_at (?p h) s" for h
    using create_dir_all_node [OF steps(1)] by simp
  obtain t where "fs_write ?q t s2 = (Inr (), s')" using steps(3) by (rule write_json_Inr)
  from fs_write_node [OF this] have s': "node_at (?p h) s' = node_at (?p h) s2" for h
    by (metis blob_not_metadata blob_paths(1,2) same_length_prefix)
  have s2: "node_at (?p h) s2 = (if h = hb \<and> \<not> path_exists (?p hb) s1 then Some (FFile b) else node_at (?p h) s1)" for h
    using steps(2) fs_write_node [of "?p hb" b s1 s2 "?p h"] by (auto simp: same_length_prefix ret_def split: if_splits)
  show "node_at (?p h) s' = (if h = en_sha256_hex E b \<and> node_at (?p h) s = None then Some (FFile b) else node_at (?p h) s)"
    using s' s2 s1 by (auto simp: path_exists_def hb_def)
  show "bp_blob_hash r = hash_text E b" by fact
  show "bp_deduplicated r \<longleftrightarrow> node_at (?p (en_sha256_hex E b)) s \<noteq> None"
    using r(2) s1 by (simp add: path_exists_def hb_def)
qed

lemma put_blob_sound: "put_blob E b mime at s = (Inr r, s') \<Longrightarrow> blobs_sound E s \<Longrightarrow> blobs_sound E s'"
  using put_blob_nodes(1) [of E b mime at s r s'] unfolding blobs_sound_def by (auto split: if_splits)

lemma read_blob_node:
  assumes "normalize_sha256_hash t = Inr h"
  shows "read_blob E t s = (Inr (Some c), s) \<longleftrightarrow> node_at (blob_path_for_hash_hex E h) s = Some (FFile c)"
  using assms
  by (auto simp: read_blob_def andThen_def lift_def if_exists_def path_exists_def io_def fs_read_def ret_def split: option.splits fs_node.splits)

text \<open>
  C31. Blobs are stored under the hash of their content: a blob that was put is read back
  byte for byte, whether it was written or found there already; the blobs stored before are
  still read as they were; and no name is ever given to another content.
\<close>

theorem blob_store_roundtrip:
  assumes "put_blob E b mime at s = (Inr r, s')" and "blobs_sound E s" and "hash_ok E"
    and "\<And>c. en_sha256_hex E c = en_sha256_hex E b \<Longrightarrow> c = b"
  shows "read_blob E (bp_blob_hash r) s' = (Inr (Some b), s') \<and> blobs_sound E s' \<and>
    (\<forall>t c. read_blob E t s = (Inr (Some c), s) \<longrightarrow> read_blob E t s' = (Inr (Some c), s'))"
proof (intro conjI allI impI)
  note nodes = put_blob_nodes [OF assms(1,2)]
  have there: "node_at (blob_path_for_hash_hex E (en_sha256_hex E b)) s = Some n \<Longrightarrow> n = FFile b" for n
    using assms(2,4) unfolding blobs_sound_def by blast
  show "read_blob E (bp_blob_hash r) s' = (Inr (Some b), s')"
    unfolding nodes(2) read_blob_node [OF normalize_hash_text [OF assms(3)]] nodes(1) using there by force
  show "blobs_sound E s'" by (rule put_blob_sound [OF assms(1,2)])
  fix t c
  assume read: "read_blob E t s = (Inr (Some c), s)"
  then obtain h where h: "normalize_sha256_hash t = Inr h"
    by (cases "normalize_sha256_hash t") (simp_all add: read_blob_def andThen_def lift_def)
  from read show "read_blob E t s' = (Inr (Some c), s')"
    unfolding read_blob_node [OF h] nodes(1) by auto
qed

text \<open>Writing a log keeps the blobs.\<close>

lemma append_keeps_blobs:
  assumes "append_jsonl J (en_root E @ layer # rest) x s = (Inr r, s')" and "layer \<noteq> ''blobs''" and "blobs_sound E s" and "rest \<noteq> []"
  shows "blobs_sound E s'"
proof -
  let ?p = "en_root E @ layer # rest"
  from assms(1) obtain s1 t where steps: "create_dir_all (parent_of ?p) s = (Inr (), s1)" "fs_append ?p t s1 = (Inr (), s')"
    by (auto simp: append_jsonl_def andThen_Inr_iff Let_def)
  have "\<not> prefix (blob_path_for_hash_hex E h) (parent_of ?p)" and apart: "\<not> prefix (blob_path_for_hash_hex E h) ?p" "\<not> prefix ?p (blob_path_for_hash_hex E h)" for h
    using assms(2,4) by (auto simp: blob_path_for_hash_hex_def blob_dir_def parent_of_def butlast_append)
  then have "node_at (blob_path_for_hash_hex E h) s1 = node_at (blob_path_for_hash_hex E h) s" for h
    using create_dir_all_node [OF steps(1)] by simp
  moreover have "node_at (blob_path_for_hash_hex E h) s' = node_at (blob_path_for_hash_hex E h) s1" for h
    using steps(2) apart [of h] node_at_put_other [of ?p _ s1 s' "blob_path_for_hash_hex E h"]
    by (auto simp: fs_append_def changed_def split: option.splits fs_node.splits sum.splits)
  ultimately show ?thesis using assms(3) by (simp add: blobs_sound_def)
qed

section \<open>Chained logs\<close>

text \<open>What \<open>serde_json\<close> promises of the text of a value.\<close>

definition line_form_ok :: "'a json_form \<Rightarrow> bool" where
  "line_form_ok J \<longleftrightarrow> (\<forall>x t. jf_write J x = Inr t \<longrightarrow>
     jf_read J t = Inr x \<and> newline \<notin> set t \<and> utf8_valid t \<and> trim t \<noteq> [] \<and> last t \<noteq> CHR 0x0D)"

text \<open>A file of complete lines that parse to the records.\<close>

definition log_holds :: "'a json_form \<Rightarrow> path \<Rightarrow> 'a list \<Rightarrow> fs_node \<Rightarrow> bool" where
  "log_holds J p xs s \<longleftrightarrow>
     (if path_exists p s
      then \<exists>t. file_at p s = Some t \<and> utf8_valid t \<and> at_line_start (Some t) \<and> parse_json_lines J p (file_lines t) = Inr xs
      else xs = [])"

lemma map_sum_Inr: "map_sum f id r = Inr y \<longleftrightarrow> r = Inr y"
  by (cases r) simp_all

lemma parse_json_lines_append:
  "parse_json_lines J p (xs @ ys) = bind_result (parse_json_lines J p xs) (\<lambda>as. bind_result (parse_json_lines J p ys) (\<lambda>bs. Inr (as @ bs)))"
  by (induction xs) (auto simp: bind_result_def split: sum.splits)

lemma log_holds_read: "log_holds J p xs s \<Longrightarrow> read_jsonl J p s = (Inr xs, s)"
  by (auto simp: log_holds_def read_jsonl_def fs_read_to_string_def andThen_def io_def lift_def ret_def raise_def file_at_node fs_read_def
      split: if_splits)

lemma appended_line:
  assumes "log_holds J p xs s" and "line_form_ok J" and "append_jsonl J p x s = (Inr r, s')"
  shows "log_holds J p (xs @ [x]) s'" and "\<exists>t. jf_write J x = Inr t"
proof -
  from assms(3) obtain s1 t where steps: "create_dir_all (parent_of p) s = (Inr (), s1)" "jf_write J x = Inr t"
      "fs_append p (t @ [newline]) s1 = (Inr (), s')"
    by (cases "jf_write J x") (auto simp: append_jsonl_def andThen_Inr_iff Let_def lift_def)
  show "\<exists>t. jf_write J x = Inr t" using steps(2) by blast
  define old where "old = (case file_at p s of None \<Rightarrow> [] | Some b \<Rightarrow> b)"
  have "file_at p s1 = file_at p s"
    using steps(1) fs_create_dir_all_file by (auto simp: create_dir_all_def)
  with fs_append_file [OF steps(3), of p] have at: "file_at p s' = Some (old @ t @ [newline])" by (simp add: old_def)
  have nl: "newline \<notin> set t" and utf8: "utf8_valid t" and read: "jf_read J t = Inr x" and nonblank: "trim t \<noteq> []"
    and cr: "drop_cr t = t"
    using assms(2) steps(2) by (auto simp: line_form_ok_def drop_cr_def)
  have old: "utf8_valid old" "at_line_start (Some old)" "parse_json_lines J p (file_lines old) = Inr xs"
    using assms(1) file_at_exists [of p s]
    by (auto simp: log_holds_def old_def at_line_start_def file_lines_def split: if_splits option.splits)
  have "parse_json_lines J p (file_lines (old @ t @ [newline])) = Inr (xs @ [x])"
    using old(3) read nonblank by (simp add: file_lines_append [OF old(2) nl] parse_json_lines_append cr)
  moreover have "utf8_valid (old @ t @ [newline])"
    using old(1) utf8 by (intro utf8_valid_append) simp_all
  ultimately show "log_holds J p (xs @ [x]) s'"
    using at file_at_exists [OF at] file_lines_append(2) [OF old(2) nl] by (simp add: log_holds_def)
qed

lemma last_nonblank:
  "parse_json_lines J p ls = Inr xs \<Longrightarrow>
     case find (\<lambda>l. trim l \<noteq> []) (rev ls) of None \<Rightarrow> xs = [] | Some l \<Rightarrow> xs \<noteq> [] \<and> jf_read J l = Inr (last xs)"
proof (induction ls arbitrary: xs rule: rev_induct)
  case (snoc l ls)
  show ?case
  proof (cases "trim l = []")
    case True
    with snoc show ?thesis by (auto simp: parse_json_lines_append bind_result_Inr_iff)
  next
    case False
    with snoc(2) show ?thesis by (cases "jf_read J l") (auto simp: parse_json_lines_append bind_result_Inr_iff)
  qed
qed simp

text \<open>The hash that the next record is linked to.\<close>

definition link_after :: "string \<Rightarrow> json list \<Rightarrow> string option" where
  "link_after hf rs = (if rs = [] then None else Option.bind (json_get hf (last rs)) json_as_str)"

lemma latest_hash:
  assumes "log_holds (en_value_form E) p rs s"
  shows "latest_jsonl_hash E p hf s = (Inr (link_after hf rs), s)"
proof (cases "path_exists p s")
  case True
  with assms obtain t where t: "file_at p s = Some t" "utf8_valid t" "parse_json_lines (en_value_form E) p (file_lines t) = Inr rs"
    by (auto simp: log_holds_def)
  have "fs_read_to_string p s = (Inr t, s)"
    using t by (simp add: fs_read_to_string_def andThen_def io_def file_at_node fs_read_def ret_def)
  with True last_nonblank [OF t(3)] show ?thesis
    by (cases "find (\<lambda>l. trim l \<noteq> []) (rev (file_lines t))")
      (auto simp: latest_jsonl_hash_def andThen_def ret_def lift_def link_after_def)
qed (use assms in \<open>simp add: log_holds_def latest_jsonl_hash_def link_after_def\<close>)

text \<open>After a record that has no hash, such as one of \<open>append_event\<close>, the chain starts again.\<close>

lemma link_after_unsealed: "json_get hf r = None \<Longrightarrow> link_after hf (rs @ [r]) = None"
  by (simp add: link_after_def)

text \<open>
  A record is sealed when its hash is the hash of its own text with the hash still null, and
  linked when it names the hash of the record before it.
\<close>

definition sealed_after :: "engine_store \<Rightarrow> string \<Rightarrow> string \<Rightarrow> string option \<Rightarrow> json \<Rightarrow> bool" where
  "sealed_after E pf hf prev r \<longleftrightarrow>
     (\<exists>kvs t. r = JObject kvs \<and> bt_inv kvs \<and> jf_write (en_value_form E) (JObject (bt_put hf JNull kvs)) = Inr t \<and>
        m_get kvs hf = Some (JString (hash_text E t)) \<and>
        m_get kvs pf = Some (case prev of None \<Rightarrow> JNull | Some h \<Rightarrow> JString h))"

inductive chained :: "engine_store \<Rightarrow> string \<Rightarrow> string \<Rightarrow> json list \<Rightarrow> bool" for E pf hf where
  chained_Nil: "chained E pf hf []"
| chained_snoc: "chained E pf hf rs \<Longrightarrow> sealed_after E pf hf (link_after hf rs) r \<Longrightarrow> chained E pf hf (rs @ [r])"

inductive_cases chained_snocE: "chained E pf hf rs"

lemma link_of_sealed:
  assumes "sealed_after E pf hf prev r"
  shows "\<exists>t. link_after hf (rs @ [r]) = Some (hash_text E t)"
  using assms by (auto simp: sealed_after_def link_after_def m_get_def)

text \<open>A value whose object has its keys in order, as the code's values have.\<close>

definition object_sorted :: "json \<Rightarrow> bool" where
  "object_sorted v \<longleftrightarrow> (case v of JObject kvs \<Rightarrow> bt_inv kvs | _ \<Rightarrow> True)"

lemma put_put_same: "bt_inv m \<Longrightarrow> bt_put k v (bt_put k w m) = bt_put k v m"
  by (rule bt_inv_eqI) simp_all

lemma append_chained_step:
  assumes run: "append_jsonl_chained E p v pf hf s = (Inr rep, s')" and holds: "log_holds (en_value_form E) p rs s"
    and form: "line_form_ok (en_value_form E)" and fields: "pf \<noteq> hf" and sorted: "object_sorted v"
  shows "log_holds (en_value_form E) p (rs @ [ca_record rep]) s'" and "sealed_after E pf hf (link_after hf rs) (ca_record rep)"
    and "k \<noteq> pf \<Longrightarrow> k \<noteq> hf \<Longrightarrow> json_get k (ca_record rep) = json_get k v"
proof -
  define linked where "linked kvs = bt_put pf (case link_after hf rs of None \<Rightarrow> JNull | Some h \<Rightarrow> JString h) kvs" for kvs
  define unsealed where "unsealed kvs = bt_put hf JNull (linked kvs)" for kvs
  from run obtain kvs t report where v: "v = JObject kvs"
    and t: "jf_write (en_value_form E) (JObject (unsealed kvs)) = Inr t"
    and rep: "append_jsonl (en_value_form E) p (JObject (bt_put hf (JString (hash_text E t)) (unsealed kvs))) s = (Inr report, s')"
      "ca_record rep = JObject (bt_put hf (JString (hash_text E t)) (unsealed kvs))"
    unfolding append_jsonl_chained_def andThen_Inr_iff latest_hash [OF holds] Let_def linked_def [symmetric] unsealed_def [symmetric]
    by (cases v) (auto simp: map_sum_Inr lift_def ret_def raise_def andThen_Inr_iff linked_def [symmetric] unsealed_def [symmetric] split: sum.splits)
  have inv: "bt_inv (unsealed kvs)" using sorted v by (simp add: object_sorted_def unsealed_def linked_def)
  have same: "bt_put hf JNull (bt_put hf w (unsealed kvs)) = unsealed kvs" for w
    using inv by (intro bt_inv_eqI) (simp_all add: unsealed_def)
  show "log_holds (en_value_form E) p (rs @ [ca_record rep]) s'"
    unfolding rep(2) by (rule appended_line(1) [OF holds form rep(1)])
  show "sealed_after E pf hf (link_after hf rs) (ca_record rep)"
    unfolding sealed_after_def rep(2) using inv t same fields by (auto simp: unsealed_def linked_def)
  show "json_get k (ca_record rep) = json_get k v" if "k \<noteq> pf" "k \<noteq> hf"
    using that by (simp add: rep(2) v unsealed_def linked_def flip: m_get_def)
qed

fun append_all_chained :: "engine_store \<Rightarrow> path \<Rightarrow> string \<Rightarrow> string \<Rightarrow> json list \<Rightarrow> json list storage_prog" where
  "append_all_chained E p pf hf [] = ret []"
| "append_all_chained E p pf hf (v # vs) =
     andThen (append_jsonl_chained E p v pf hf) (\<lambda>r. andThen (append_all_chained E p pf hf vs) (\<lambda>rs. ret (ca_record r # rs)))"

lemma append_all_holds:
  assumes "line_form_ok (en_value_form E)" and "pf \<noteq> hf"
  shows "append_all_chained E p pf hf vs s = (Inr new, s') \<Longrightarrow> log_holds (en_value_form E) p rs s \<Longrightarrow> chained E pf hf rs \<Longrightarrow>
    list_all object_sorted vs \<Longrightarrow>
    log_holds (en_value_form E) p (rs @ new) s' \<and> chained E pf hf (rs @ new) \<and>
    list_all2 (\<lambda>v r. \<forall>k. k \<noteq> pf \<longrightarrow> k \<noteq> hf \<longrightarrow> json_get k r = json_get k v) vs new"
proof (induction vs arbitrary: s rs new)
  case Nil
  then show ?case by (simp add: ret_def)
next
  case (Cons v vs)
  then obtain rep s1 rest where steps: "append_jsonl_chained E p v pf hf s = (Inr rep, s1)"
      "append_all_chained E p pf hf vs s1 = (Inr rest, s')" "new = ca_record rep # rest"
    by (auto simp: andThen_Inr_iff ret_def)
  have v: "object_sorted v" "list_all object_sorted vs" using Cons.prems(4) by simp_all
  note step = append_chained_step [OF steps(1) Cons.prems(2) assms v(1)]
  have "chained E pf hf (rs @ [ca_record rep])" by (rule chained_snoc [OF Cons.prems(3) step(2)])
  from Cons.IH [OF steps(2) step(1) this v(2)] step(3) steps(3) show ?case by simp
qed

text \<open>
  C29. The log of a segment is a chain: after any records have been appended to a new
  segment it reads back as these records in order, each with its own fields, sealed with its
  hash and linked to the record before it.
\<close>

theorem engine_log_is_chained:
  assumes "append_all_chained E p pf hf vs s = (Inr rs, s')" and "\<not> path_exists p s" and "line_form_ok (en_value_form E)"
    and "pf \<noteq> hf" and "list_all object_sorted vs"
  shows "read_jsonl (en_value_form E) p s' = (Inr rs, s') \<and> chained E pf hf rs \<and>
    list_all2 (\<lambda>v r. \<forall>k. k \<noteq> pf \<longrightarrow> k \<noteq> hf \<longrightarrow> json_get k r = json_get k v) vs rs"
proof -
  have "log_holds (en_value_form E) p [] s" using assms(2) by (simp add: log_holds_def)
  from append_all_holds [OF assms(3,4,1) this chained_Nil assms(5)] log_holds_read show ?thesis by fastforce
qed

lemma written_inject: "line_form_ok J \<Longrightarrow> jf_write J x = Inr t \<Longrightarrow> jf_write J y = Inr t \<Longrightarrow> x = y"
  unfolding line_form_ok_def by (metis sum.inject(2))

text \<open>The text that is hashed for a record.\<close>

definition seal_text :: "engine_store \<Rightarrow> string \<Rightarrow> json \<Rightarrow> string" where
  "seal_text E hf r =
     (case r of JObject kvs \<Rightarrow> (case jf_write (en_value_form E) (JObject (bt_put hf JNull kvs)) of Inr t \<Rightarrow> t | Inl e \<Rightarrow> []) | _ \<Rightarrow> [])"

lemma sealed_unique:
  assumes "sealed_after E pf hf prev r" and "sealed_after E pf hf prev' r'" and "json_get hf r = json_get hf r'"
    and "inj_on (en_sha256_hex E) T" and "seal_text E hf r \<in> T" "seal_text E hf r' \<in> T"
    and "line_form_ok (en_value_form E)" and "pf \<noteq> hf"
  shows "r = r' \<and> prev = prev'"
proof -
  obtain kvs t where r: "r = JObject kvs" "bt_inv kvs" "jf_write (en_value_form E) (JObject (bt_put hf JNull kvs)) = Inr t"
      "m_get kvs hf = Some (JString (hash_text E t))" "m_get kvs pf = Some (case prev of None \<Rightarrow> JNull | Some h \<Rightarrow> JString h)"
    using assms(1) unfolding sealed_after_def by blast
  obtain kvs' t' where r': "r' = JObject kvs'" "bt_inv kvs'" "jf_write (en_value_form E) (JObject (bt_put hf JNull kvs')) = Inr t'"
      "m_get kvs' hf = Some (JString (hash_text E t'))" "m_get kvs' pf = Some (case prev' of None \<Rightarrow> JNull | Some h \<Rightarrow> JString h)"
    using assms(2) unfolding sealed_after_def by blast
  have "t = t'"
    using assms(3-6) r(1,3,4) r'(1,3,4) by (auto simp: m_get_def hash_text_def seal_text_def dest!: inj_onD)
  then have unsealed: "bt_put hf JNull kvs = bt_put hf JNull kvs'"
    using written_inject [OF assms(7)] r(3) r'(3) by blast
  have "kvs = kvs'"
  proof (rule bt_inv_eqI [OF r(2) r'(2)])
    fix k
    have "m_get (bt_put hf JNull kvs) k = m_get (bt_put hf JNull kvs') k" by (simp add: unsealed)
    then show "m_get kvs k = m_get kvs' k"
      using r(4) r'(4) \<open>t = t'\<close> by (cases "k = hf") simp_all
  qed
  with r r' show ?thesis by (auto split: option.splits)
qed

text \<open>
  The last hash of a chained log binds all of it: two chained logs whose last records carry the
  same hash are the same log.
\<close>

lemma chained_unique:
  assumes "chained E pf hf rs" and "chained E pf hf rs'" and "link_after hf rs = link_after hf rs'"
    and "inj_on (en_sha256_hex E) (seal_text E hf ` (set rs \<union> set rs'))" and "line_form_ok (en_value_form E)" and "pf \<noteq> hf"
  shows "rs = rs'"
  using assms(1-4)
proof (induction rs arbitrary: rs')
  case chained_Nil
  from chained_Nil(1) show ?case
  proof cases
    case (chained_snoc xs x)
    with link_of_sealed [of E pf hf _ x xs] chained_Nil(2) show ?thesis by (auto simp: link_after_def)
  qed simp
next
  case (chained_snoc rs r)
  from chained_snoc(4) show ?case
  proof cases
    case chained_Nil
    with link_of_sealed [OF chained_snoc(2), of rs] chained_snoc(5) show ?thesis by (auto simp: link_after_def)
  next
    case inner: (chained_snoc rs2 r2)
    have hashed: "\<exists>h. json_get hf x = Some (JString h)" if "sealed_after E pf hf prev x" for prev x
      using that by (auto simp: sealed_after_def m_get_def)
    have "json_get hf r = json_get hf r2"
      using chained_snoc(5) hashed [OF chained_snoc(2)] hashed [OF inner(3)] inner(1) by (auto simp: link_after_def)
    from sealed_unique [OF chained_snoc(2) inner(3) this chained_snoc(6) _ _ assms(5,6)] inner(1)
    have "r = r2" "link_after hf rs = link_after hf rs2" by simp_all
    moreover have "inj_on (en_sha256_hex E) (seal_text E hf ` (set rs \<union> set rs2))"
      using inner(1) by (intro inj_on_subset [OF chained_snoc(6)]) auto
    ultimately show ?thesis using chained_snoc(3) [OF inner(2)] inner(1) by simp
  qed
qed

lemma written_log:
  assumes "append_all_chained E p pf hf vs s = (Inr rs, s')" and "\<not> path_exists p s" and "line_form_ok (en_value_form E)"
    and "pf \<noteq> hf" and "list_all object_sorted vs"
  shows "chained E pf hf rs" and "latest_jsonl_hash E p hf s' = (Inr (link_after hf rs), s')"
    and "list_all2 (\<lambda>v r. \<forall>k. k \<noteq> pf \<longrightarrow> k \<noteq> hf \<longrightarrow> json_get k r = json_get k v) vs rs"
proof -
  have "log_holds (en_value_form E) p [] s" using assms(2) by (simp add: log_holds_def)
  from append_all_holds [OF assms(3,4,1) this chained_Nil assms(5)]
  have "log_holds (en_value_form E) p rs s' \<and> chained E pf hf rs \<and>
      list_all2 (\<lambda>v r. \<forall>k. k \<noteq> pf \<longrightarrow> k \<noteq> hf \<longrightarrow> json_get k r = json_get k v) vs rs"
    by simp
  then show "chained E pf hf rs" and "latest_jsonl_hash E p hf s' = (Inr (link_after hf rs), s')"
    and "list_all2 (\<lambda>v r. \<forall>k. k \<noteq> pf \<longrightarrow> k \<noteq> hf \<longrightarrow> json_get k r = json_get k v) vs rs"
    by (simp_all add: latest_hash)
qed

text \<open>
  C30. The hash that an append would link to stands for the whole log before it. Records were
  appended one after the other to each of two new segment files, on file systems of any
  content. If the latest hash found in the two files is the same, then both hold the same
  records, one for one, and the same values were appended, in the same order: one that is
  changed, left out, added or moved shows in the latest hash. SHA-256 is taken to have no
  collision among the texts hashed for these records.
\<close>

theorem latest_hash_binds_appends:
  assumes "append_all_chained E p pf hf vs s = (Inr rs, s')" and "append_all_chained E q pf hf ws t = (Inr rs', t')"
    and "\<not> path_exists p s" and "\<not> path_exists q t"
    and "fst (latest_jsonl_hash E p hf s') = fst (latest_jsonl_hash E q hf t')"
    and "inj_on (en_sha256_hex E) (seal_text E hf ` (set rs \<union> set rs'))" and "line_form_ok (en_value_form E)"
    and "pf \<noteq> hf" and "list_all object_sorted vs" and "list_all object_sorted ws"
  shows "fst (read_jsonl (en_value_form E) p s') = fst (read_jsonl (en_value_form E) q t') \<and>
    list_all2 (\<lambda>v w. \<forall>k. k \<noteq> pf \<longrightarrow> k \<noteq> hf \<longrightarrow> json_get k v = json_get k w) vs ws"
proof -
  note log = written_log [OF assms(1,3,7,8,9)] and log' = written_log [OF assms(2,4,7,8,10)]
  have "rs = rs'"
    using chained_unique [OF log(1) log'(1) _ assms(6,7,8)] log(2) log'(2) assms(5) by simp
  moreover have "read_jsonl (en_value_form E) p s' = (Inr rs, s')" "read_jsonl (en_value_form E) q t' = (Inr rs', t')"
    using append_all_holds [OF assms(7,8,1) _ chained_Nil assms(9), THEN conjunct1, THEN log_holds_read]
      append_all_holds [OF assms(7,8,2) _ chained_Nil assms(10), THEN conjunct1, THEN log_holds_read] assms(3,4)
    by (simp_all add: log_holds_def)
  ultimately show ?thesis
    using log(3) log'(3) by (auto simp: list_all2_conv_all_nth)
qed

section \<open>Projections are replaced as a whole\<close>

lemma write_lines:
  assumes "line_form_ok J" and "fold (\<lambda>x acc. bind_result acc (\<lambda>b. bind_result (jf_write J x) (\<lambda>t. Inr (b @ t @ [newline])))) xs (Inr old) = Inr b"
    and "utf8_valid old" and "at_line_start (Some old)" and "parse_json_lines J p (file_lines old) = Inr before"
  shows "utf8_valid b \<and> parse_json_lines J p (file_lines b) = Inr (before @ xs)"
  using assms(2-5)
proof (induction xs arbitrary: old before)
  case (Cons x xs)
  have failed: "fold (\<lambda>x acc. bind_result acc (\<lambda>b. bind_result (jf_write J x) (\<lambda>t. Inr (b @ t @ [newline])))) xs (Inl e) = Inl e" for e xs
    by (induction xs) simp_all
  from Cons.prems(1) obtain t where t: "jf_write J x = Inr t" by (cases "jf_write J x") (simp_all add: failed)
  have nl: "newline \<notin> set t" and line: "utf8_valid t" "jf_read J t = Inr x" "trim t \<noteq> []" "drop_cr t = t"
    using assms(1) t by (auto simp: line_form_ok_def drop_cr_def)
  note lines = file_lines_append [OF Cons.prems(3) nl]
  have "parse_json_lines J p (file_lines (old @ t @ [newline])) = Inr (before @ [x])"
    using Cons.prems(4) line by (simp add: lines(1) parse_json_lines_append)
  moreover have "utf8_valid (old @ t @ [newline])"
    using Cons.prems(2) line(1) by (intro utf8_valid_append) simp_all
  ultimately show ?case using Cons.IH [OF _ _ lines(2)] Cons.prems(1) t by simp
qed simp

lemma projection_replaced:
  assumes run: "replace_projection_records E J k xs s = (Inr r, s')" and form: "line_form_ok J"
  shows "read_projection_records E J k s' = (Inr xs, s')" and "pw_record_count r = length xs"
proof -
  let ?p = "projection_path E k"
  from run obtain s1 s2 b q where steps:
      "fold (\<lambda>x acc. bind_result acc (\<lambda>b. bind_result (jf_write J x) (\<lambda>t. Inr (b @ t @ [newline])))) xs (Inr []) = Inr b"
      "fs_write q b s1 = (Inr (), s2)" "fs_rename q ?p s2 = (Inr (), s')" "pw_record_count r = length xs"
    by (auto simp: replace_projection_records_def write_jsonl_replace_def andThen_Inr_iff Let_def lift_def ret_def map_sum_Inr)
  show "pw_record_count r = length xs" by fact
  have "node_at q s2 = Some (FFile b)" using fs_write_node [OF steps(2), of q] by simp
  then have "node_at ?p s' = Some (FFile b)"
    using steps(3) by (auto simp: fs_rename_def changed_def intro: put_node_at split: if_splits sum.splits)
  then have at: "file_at ?p s' = Some b" by (simp add: file_at_node)
  have "utf8_valid b \<and> parse_json_lines J ?p (file_lines b) = Inr ([] @ xs)"
    by (rule write_lines [OF form steps(1)]) (simp_all add: at_line_start_def file_lines_def)
  with at file_at_exists [OF at] show "read_projection_records E J k s' = (Inr xs, s')"
    by (simp add: read_projection_records_def read_jsonl_def fs_read_to_string_def andThen_def io_def file_at_node fs_read_def lift_def ret_def)
qed

section \<open>Example\<close>

definition table_form :: "('a \<times> string) list \<Rightarrow> 'a json_form" where
  "table_form m = \<lparr>jf_write = (\<lambda>x. case m_get m x of None \<Rightarrow> Inl ''other value'' | Some t \<Rightarrow> Inr t),
                   jf_read = (\<lambda>t. case m_get (map (\<lambda>(x, t). (t, x)) m) t of None \<Rightarrow> Inl ''other text'' | Some x \<Rightarrow> Inr x)\<rparr>"

lemma table_form_ok:
  assumes "distinct (map snd m)"
    and "list_all (\<lambda>(x, t). newline \<notin> set t \<and> utf8_valid t \<and> trim t \<noteq> [] \<and> last t \<noteq> CHR 0x0D) m"
  shows "line_form_ok (table_form m)"
proof -
  have "m_get (map (\<lambda>(x, t). (t, x)) m) t = Some x" if "m_get m x = Some t" for x t
  proof (rule in_set_m_get)
    show "hm_inv (map (\<lambda>(x, t). (t, x)) m)" using assms(1) by (simp add: hm_inv_def split_beta comp_def)
    show "(t, x) \<in> set (map (\<lambda>(x, t). (t, x)) m)" using map_of_SomeD [OF that [unfolded m_get_def]] by force
  qed
  moreover have "newline \<notin> set t \<and> utf8_valid t \<and> trim t \<noteq> [] \<and> last t \<noteq> CHR 0x0D" if "m_get m x = Some t" for x t
    using assms(2) map_of_SomeD [OF that [unfolded m_get_def]] by (auto simp: list_all_iff)
  ultimately show ?thesis by (auto simp: line_form_ok_def table_form_def split: option.splits)
qed

definition example_note :: "string \<Rightarrow> json \<Rightarrow> json \<Rightarrow> json" where
  "example_note k prev h = JObject [(''event_hash'', h), (''kind'', JString k), (''prev_event_hash'', prev)]"

definition example_texts :: "(json \<times> string) list" where
  "example_texts =
     [(example_note ''a'' JNull JNull, ''a0''), (example_note ''a'' JNull (JString ''sha256:a0''), ''a''),
      (example_note ''b'' (JString ''sha256:a0'') JNull, ''b0''),
      (example_note ''b'' (JString ''sha256:a0'') (JString ''sha256:b0''), ''b'')]"

definition example_engine :: engine_store where
  "example_engine = \<lparr>en_root = [''ke''], en_sha256_hex = id, en_value_form = table_form example_texts,
     en_blob_form = form_of undefined, en_year_month = (\<lambda>_. (2026, 5))\<rparr>"

lemma example_line_form: "line_form_ok (en_value_form example_engine)"
  unfolding example_engine_def engine_store.simps by (rule table_form_ok) code_simp+

abbreviation example_events :: "json list" where
  "example_events \<equiv> [JObject [(''kind'', JString ''a'')], JObject [(''kind'', JString ''b'')]]"

theorem engine_log_is_chained_witness:
  "\<exists>rs s. append_all_chained example_engine [''ke'', ''log''] ''prev_event_hash'' ''event_hash'' example_events (FDir []) = (Inr rs, s) \<and>
     read_jsonl (en_value_form example_engine) [''ke'', ''log''] s = (Inr rs, s) \<and> length rs = 2"
proof -
  let ?run = "append_all_chained example_engine [''ke'', ''log''] ''prev_event_hash'' ''event_hash'' example_events (FDir [])"
  have "\<not> isl (fst ?run)" by code_simp
  then obtain rs where run: "?run = (Inr rs, snd ?run)" by (metis isl_def sum.exhaust prod.collapse)
  have fresh: "\<not> path_exists [''ke'', ''log''] (FDir [])" and sorted: "list_all object_sorted example_events"
    and fields: "''prev_event_hash'' \<noteq> ''event_hash''" by code_simp+
  note holds = engine_log_is_chained [OF run fresh example_line_form fields sorted]
  have "length rs = 2" using holds [THEN conjunct2, THEN conjunct2, THEN list_all2_lengthD] by simp
  with run holds show ?thesis by blast
qed

theorem latest_hash_binds_appends_witness:
  "let log = [''ke'', ''log''];
       s = snd (append_all_chained example_engine log ''prev_event_hash'' ''event_hash'' example_events (FDir []));
       t = snd (append_all_chained example_engine log ''prev_event_hash'' ''event_hash'' example_events (FDir [(''x'', FFile [])]))
   in fst (latest_jsonl_hash example_engine log ''event_hash'' s) = Inr (Some ''sha256:b0'') \<and>
      fst (read_jsonl (en_value_form example_engine) log s) = fst (read_jsonl (en_value_form example_engine) log t)"
proof -
  let ?run = "append_all_chained example_engine [''ke'', ''log''] ''prev_event_hash'' ''event_hash'' example_events"
  let ?s = "?run (FDir [])" and ?t = "?run (FDir [(''x'', FFile [])])"
  have "\<not> isl (fst ?s)" "\<not> isl (fst ?t)" by code_simp+
  then obtain rs rs' where run: "?s = (Inr rs, snd ?s)" "?t = (Inr rs', snd ?t)" by (metis isl_def sum.exhaust prod.collapse)
  have fresh: "\<not> path_exists [''ke'', ''log''] (FDir [])" "\<not> path_exists [''ke'', ''log''] (FDir [(''x'', FFile [])])"
    and sorted: "list_all object_sorted example_events" and fields: "''prev_event_hash'' \<noteq> ''event_hash''"
    by code_simp+
  have latest: "fst (latest_jsonl_hash example_engine [''ke'', ''log''] ''event_hash'' (snd ?s)) = Inr (Some ''sha256:b0'')"
      "fst (latest_jsonl_hash example_engine [''ke'', ''log''] ''event_hash'' (snd ?t)) = Inr (Some ''sha256:b0'')"
    by code_simp+
  have no_collision: "inj_on (en_sha256_hex example_engine) A" for A by (simp add: example_engine_def)
  from latest_hash_binds_appends [OF run fresh _ no_collision example_line_form fields sorted sorted] latest show ?thesis
    by (simp add: Let_def)
qed

definition example_blob_engine :: engine_store where
  "example_blob_engine = \<lparr>en_root = [], en_sha256_hex = (\<lambda>b. if b = ''text'' then replicate 64 (CHR ''a'') else replicate 64 (CHR ''b'')),
     en_value_form = table_form [], en_blob_form = \<lparr>jf_write = (\<lambda>_. Inr ''m''), jf_read = (\<lambda>_. Inl ''unused'')\<rparr>,
     en_year_month = (\<lambda>_. (2026, 5))\<rparr>"

theorem blob_store_roundtrip_witness:
  "\<exists>r s. put_blob example_blob_engine ''text'' ''text/plain'' 7 (FDir []) = (Inr r, s) \<and>
     read_blob example_blob_engine (bp_blob_hash r) s = (Inr (Some ''text''), s)"
proof -
  let ?run = "put_blob example_blob_engine ''text'' ''text/plain'' 7 (FDir [])"
  have "\<not> isl (fst ?run)" by code_simp
  then obtain r where run: "?run = (Inr r, snd ?run)" by (metis isl_def sum.exhaust prod.collapse)
  have ok: "hash_ok example_blob_engine"
  proof -
    have "list_all ascii_hexdigit (replicate 64 (CHR ''a''))" "list_all ascii_hexdigit (replicate 64 (CHR ''b''))"
      "to_ascii_lowercase (replicate 64 (CHR ''a'')) = replicate 64 (CHR ''a'')"
      "to_ascii_lowercase (replicate 64 (CHR ''b'')) = replicate 64 (CHR ''b'')" by code_simp+
    then show ?thesis by (simp add: hash_ok_def example_blob_engine_def)
  qed
  have empty: "blobs_sound example_blob_engine (FDir [])"
    by (simp add: blobs_sound_def blob_path_for_hash_hex_def blob_dir_def example_blob_engine_def m_get_def)
  have unique: "c = ''text''" if "en_sha256_hex example_blob_engine c = en_sha256_hex example_blob_engine ''text''" for c
    using that by (simp add: example_blob_engine_def split: if_splits)
  from blob_store_roundtrip [OF run empty ok unique] run show ?thesis by blast
qed

end
