(* ===== verification/Browser_Session.thy ===== *)
theory Browser_Session
  imports Core_Types Utf8
begin
text \<open>
  Browser sessions, \<open>browser-kernel-core/src/lib.rs\<close>: pages and their life, crashes and the plans
  for recovering from them. A session is changed in place, so its operations are programs over it.
\<close>

section \<open>Errors and identifiers\<close>

datatype (plugins only: code size) browser_error =
    EmptySelector | EmptyForm | EmptyUrl
  | InvalidConfig string
  | ChromiumNotAvailable
  | BrowserCrashed string
  | AutomationPaused string
  | UnsupportedAction string
  | ActionFailed string

fun browser_message :: "browser_error \<Rightarrow> string" where
  "browser_message EmptySelector = ''element selector cannot be empty''"
| "browser_message EmptyForm = ''form fill spec must contain at least one field''"
| "browser_message EmptyUrl = ''url cannot be empty''"
| "browser_message (InvalidConfig t) = ''invalid browser config: '' @ t"
| "browser_message ChromiumNotAvailable = ''chromium browser is not available''"
| "browser_message (BrowserCrashed t) = ''browser crashed: '' @ t"
| "browser_message (AutomationPaused t) = ''browser automation is paused for human takeover: '' @ t"
| "browser_message (UnsupportedAction t) = ''unsupported browser action: '' @ t"
| "browser_message (ActionFailed t) = ''browser action failed: '' @ t"

datatype (plugins only: code size) browser_session_id = BrowserSessionId (session_text: string)
datatype (plugins only: code size) browser_page_id = BrowserPageId (page_text: string)
datatype (plugins only: code size) browser_frame_id = BrowserFrameId (frame_text: string)

definition nonblank :: "string \<Rightarrow> browser_error \<Rightarrow> browser_error + unit" where
  "nonblank t e = (if trim t = [] then Inl e else Inr ())"

definition browser_session_id_new :: "string \<Rightarrow> browser_error + browser_session_id" where
  "browser_session_id_new t = bind_result (nonblank t (InvalidConfig ''browser session id cannot be empty'')) (\<lambda>_. Inr (BrowserSessionId t))"

definition browser_page_id_new :: "string \<Rightarrow> browser_error + browser_page_id" where
  "browser_page_id_new t = bind_result (nonblank t (InvalidConfig ''browser page id cannot be empty'')) (\<lambda>_. Inr (BrowserPageId t))"

section \<open>Pages\<close>

datatype (plugins only: code size) page_status = PageOpening | PageActive | PageBackground | PageClosed | PageCrashed
datatype (plugins only: code size) page_health_status = HealthHealthy | HealthUnresponsive | HealthCrashed | HealthClosed

record page_health =
  ph_status :: page_health_status
  ph_reason :: "string option"
  ph_checked_at :: datetime

definition health_healthy :: "datetime \<Rightarrow> page_health" where
  "health_healthy now = \<lparr>ph_status = HealthHealthy, ph_reason = None, ph_checked_at = now\<rparr>"
definition health_unresponsive :: "string \<Rightarrow> datetime \<Rightarrow> page_health" where
  "health_unresponsive r now = \<lparr>ph_status = HealthUnresponsive, ph_reason = Some r, ph_checked_at = now\<rparr>"
definition health_crashed :: "string \<Rightarrow> datetime \<Rightarrow> page_health" where
  "health_crashed r now = \<lparr>ph_status = HealthCrashed, ph_reason = Some r, ph_checked_at = now\<rparr>"
definition health_closed :: "datetime \<Rightarrow> page_health" where
  "health_closed now = \<lparr>ph_status = HealthClosed, ph_reason = None, ph_checked_at = now\<rparr>"

record browser_page =
  pg_page_id :: browser_page_id
  pg_url :: "string option"
  pg_title :: "string option"
  pg_status :: page_status
  pg_health :: page_health
  pg_created_at :: datetime
  pg_updated_at :: datetime

definition browser_page_new :: "browser_page_id \<Rightarrow> datetime \<Rightarrow> browser_page" where
  "browser_page_new i now =
     \<lparr>pg_page_id = i, pg_url = None, pg_title = None, pg_status = PageOpening, pg_health = health_healthy now,
      pg_created_at = now, pg_updated_at = now\<rparr>"

definition with_location :: "string \<Rightarrow> string option \<Rightarrow> datetime \<Rightarrow> browser_page \<Rightarrow> browser_page" where
  "with_location u t now p = p\<lparr>pg_url := Some u, pg_title := t, pg_updated_at := now\<rparr>"
definition with_status :: "page_status \<Rightarrow> datetime \<Rightarrow> browser_page \<Rightarrow> browser_page" where
  "with_status st now p = p\<lparr>pg_status := st, pg_updated_at := now\<rparr>"
definition with_health :: "page_health \<Rightarrow> datetime \<Rightarrow> browser_page \<Rightarrow> browser_page" where
  "with_health h now p = p\<lparr>pg_health := h, pg_updated_at := now\<rparr>"

section \<open>Sessions\<close>

datatype (plugins only: code size) profile_mode = NamedProfile string | TemporaryProfile | EphemeralProfile

definition profile_mode_default :: profile_mode where "profile_mode_default = NamedProfile ''default''"

record profile_binding =
  pb_mode :: profile_mode
  pb_resolved_path :: "string list option"

record browser_session =
  se_session_id :: browser_session_id
  se_profile :: profile_binding
  se_pages :: "browser_page list"
  se_active_page_id :: "browser_page_id option"
  se_created_at :: datetime
  se_updated_at :: datetime

type_synonym 'a session_prog = "(browser_session, browser_error, 'a) prog"

definition browser_session_new :: "browser_session_id \<Rightarrow> profile_binding \<Rightarrow> datetime \<Rightarrow> browser_session" where
  "browser_session_new i b now =
     \<lparr>se_session_id = i, se_profile = b, se_pages = [], se_active_page_id = None, se_created_at = now, se_updated_at = now\<rparr>"

definition find_page :: "browser_page_id \<Rightarrow> browser_session \<Rightarrow> browser_error + browser_page" where
  "find_page i s =
     (case find (\<lambda>p. pg_page_id p = i) (se_pages s) of
        None \<Rightarrow> Inl (ActionFailed (''browser page not found: '' @ page_text i))
      | Some p \<Rightarrow> Inr p)"

text \<open>Changing the first page with an identifier.\<close>

definition modify_page :: "browser_page_id \<Rightarrow> (browser_page \<Rightarrow> browser_page) \<Rightarrow> unit session_prog" where
  "modify_page i f s =
     (case find_page i s of
        Inl e \<Rightarrow> (Inl e, s)
      | Inr _ \<Rightarrow> (Inr (), s\<lparr>se_pages := update_first (\<lambda>p. pg_page_id p = i) f (se_pages s)\<rparr>))"

definition touch_session :: "datetime \<Rightarrow> unit session_prog" where
  "touch_session now s = (Inr (), s\<lparr>se_updated_at := now\<rparr>)"

definition activate_in :: "browser_page_id \<Rightarrow> datetime \<Rightarrow> browser_page \<Rightarrow> browser_page" where
  "activate_in i now p =
     (if pg_page_id p = i then p\<lparr>pg_status := PageActive\<rparr>
      else if pg_status p = PageActive then p\<lparr>pg_status := PageBackground\<rparr> else p)\<lparr>pg_updated_at := now\<rparr>"

definition set_active_page :: "browser_page_id \<Rightarrow> datetime \<Rightarrow> unit session_prog" where
  "set_active_page i now s =
     (case find_page i s of
        Inl e \<Rightarrow> (Inl e, s)
      | Inr p \<Rightarrow>
          if pg_status p = PageClosed then (Inl (ActionFailed (''browser page is closed: '' @ page_text i)), s)
          else (Inr (), s\<lparr>se_pages := map (activate_in i now) (se_pages s), se_active_page_id := Some i, se_updated_at := now\<rparr>))"

definition add_page :: "browser_page \<Rightarrow> browser_session \<Rightarrow> browser_session" where
  "add_page p s =
     (let s1 = s\<lparr>se_pages := se_pages s @ [p]\<rparr> in
      if se_active_page_id s1 = None then snd (set_active_page (pg_page_id p) (pg_updated_at p) s1)
      else s1\<lparr>se_updated_at := pg_updated_at p\<rparr>)"

definition open_page :: "browser_page_id \<Rightarrow> string option \<Rightarrow> string option \<Rightarrow> datetime \<Rightarrow> unit session_prog" where
  "open_page i u t now s =
     (if list_ex (\<lambda>p. pg_page_id p = i) (se_pages s)
      then (Inl (ActionFailed (''browser page already exists: '' @ page_text i)), s)
      else (Inr (), add_page ((with_status PageBackground now (browser_page_new i now))\<lparr>pg_url := u, pg_title := t\<rparr>) s))"

definition close_page :: "browser_page_id \<Rightarrow> datetime \<Rightarrow> unit session_prog" where
  "close_page i now s =
     (let closing_active = (se_active_page_id s = Some i) in
      andThen (modify_page i (\<lambda>p. p\<lparr>pg_status := PageClosed, pg_health := health_closed now, pg_updated_at := now\<rparr>)) (\<lambda>_.
      andThen (if closing_active
        then (\<lambda>s1. let next = map_option pg_page_id (find (\<lambda>p. pg_status p \<noteq> PageClosed) (se_pages s1)); s2 = s1\<lparr>se_active_page_id := next\<rparr> in
                (case next of None \<Rightarrow> (Inr (), s2) | Some j \<Rightarrow> set_active_page j now s2))
        else ret ()) (\<lambda>_.
      touch_session now)) s)"

definition update_page_metadata :: "browser_page_id \<Rightarrow> string option \<Rightarrow> string option \<Rightarrow> datetime \<Rightarrow> unit session_prog" where
  "update_page_metadata i u t now =
     andThen (modify_page i (\<lambda>p. p\<lparr>pg_url := u, pg_title := t, pg_updated_at := now\<rparr>)) (\<lambda>_. touch_session now)"

definition status_of_health :: "page_health \<Rightarrow> page_status option" where
  "status_of_health h = (case ph_status h of HealthCrashed \<Rightarrow> Some PageCrashed | HealthClosed \<Rightarrow> Some PageClosed | _ \<Rightarrow> None)"

definition update_page_health :: "browser_page_id \<Rightarrow> page_health \<Rightarrow> datetime \<Rightarrow> unit session_prog" where
  "update_page_health i h now =
     andThen (modify_page i (\<lambda>p. (case status_of_health h of None \<Rightarrow> p\<lparr>pg_health := h\<rparr> | Some st \<Rightarrow> p\<lparr>pg_health := h, pg_status := st\<rparr>)
       \<lparr>pg_updated_at := now\<rparr>)) (\<lambda>_. touch_session now)"

definition active_page :: "browser_session \<Rightarrow> browser_page option" where
  "active_page s = Option.bind (se_active_page_id s) (\<lambda>i. find (\<lambda>p. pg_page_id p = i) (se_pages s))"

definition open_page_count :: "browser_session \<Rightarrow> nat" where
  "open_page_count s = length (filter (\<lambda>p. pg_status p \<noteq> PageClosed) (se_pages s))"

definition page_count :: "browser_session \<Rightarrow> nat" where
  "page_count s = length (se_pages s)"

section \<open>Crashes\<close>

datatype (plugins only: code size) crash_scope = PageScope | ProcessScope
datatype (plugins only: code size) crash_reason =
    PageCrashedReason | BrowserDisconnected | RendererUnresponsive | ProcessExited | UnknownReason

record crash_event =
  ce_scope :: crash_scope
  ce_page_id :: "browser_page_id option"
  ce_reason :: crash_reason
  ce_message :: string
  ce_detected_at :: datetime

definition validate_crash :: "crash_event \<Rightarrow> browser_error + unit" where
  "validate_crash e =
     bind_result (nonblank (ce_message e) (InvalidConfig ''browser crash message cannot be empty'')) (\<lambda>_.
     if ce_scope e = PageScope \<and> ce_page_id e = None then Inl (InvalidConfig ''page crash event must include page_id'') else Inr ())"

datatype (plugins only: code size) recovery_strategy = FailFast | ReopenActivePage | RelaunchSession

record recovery_policy =
  ry_strategy :: recovery_strategy
  ry_max_relaunch_attempts :: nat
  ry_retry_after_relaunch :: bool

definition recovery_policy_default :: recovery_policy where
  "recovery_policy_default = \<lparr>ry_strategy = RelaunchSession, ry_max_relaunch_attempts = 1, ry_retry_after_relaunch = True\<rparr>"

datatype (plugins only: code size) browser_recovery_action =
    RecoveryFail string
  | RecoveryReopen browser_page_id "string option"
  | RecoveryRelaunch browser_session_id profile_binding "browser_page list" bool

record recovery_plan =
  rv_event :: crash_event
  rv_strategy :: recovery_strategy
  rv_action :: browser_recovery_action
  rv_planned_at :: datetime

definition validate_recovery :: "recovery_policy \<Rightarrow> browser_error + unit" where
  "validate_recovery y =
     (if ry_strategy y = RelaunchSession \<and> ry_max_relaunch_attempts y = 0
      then Inl (InvalidConfig ''browser recovery max_relaunch_attempts must be greater than zero'') else Inr ())"

definition recovery_action_for :: "recovery_policy \<Rightarrow> browser_session \<Rightarrow> crash_event \<Rightarrow> browser_error + browser_recovery_action" where
  "recovery_action_for y s e =
     (case ry_strategy y of
        FailFast \<Rightarrow> Inr (RecoveryFail (''browser crash recovery fail-fast: '' @ ce_message e))
      | ReopenActivePage \<Rightarrow>
          (case (case ce_page_id e of Some i \<Rightarrow> Some i | None \<Rightarrow> se_active_page_id s) of
             None \<Rightarrow> Inl (BrowserCrashed ''cannot reopen page because session has no active page'')
           | Some i \<Rightarrow> bind_result (find_page i s) (\<lambda>p. Inr (RecoveryReopen i (pg_url p))))
      | RelaunchSession \<Rightarrow>
          Inr (RecoveryRelaunch (se_session_id s) (se_profile s) (filter (\<lambda>p. pg_status p \<noteq> PageClosed) (se_pages s))
            (ry_retry_after_relaunch y)))"

definition plan_recovery :: "recovery_policy \<Rightarrow> browser_session \<Rightarrow> crash_event \<Rightarrow> browser_error + recovery_plan" where
  "plan_recovery y s e =
     bind_result (validate_recovery y) (\<lambda>_. bind_result (validate_crash e) (\<lambda>_.
     bind_result (recovery_action_for y s e) (\<lambda>a.
     Inr \<lparr>rv_event = e, rv_strategy = ry_strategy y, rv_action = a, rv_planned_at = ce_detected_at e\<rparr>)))"

section \<open>The manager of a session's pages\<close>

record page_manager =
  pm_session :: browser_session
  pm_max_pages :: nat

type_synonym 'a manager_prog = "(page_manager, browser_error, 'a) prog"

definition on_session :: "'a session_prog \<Rightarrow> 'a manager_prog" where
  "on_session f m = (case f (pm_session m) of (r, s) \<Rightarrow> (r, m\<lparr>pm_session := s\<rparr>))"

definition page_manager_new :: "browser_session \<Rightarrow> nat \<Rightarrow> browser_error + page_manager" where
  "page_manager_new s limit =
     (if limit = 0 then Inl (InvalidConfig ''browser max_pages must be greater than zero'')
      else if open_page_count s > limit
      then Inl (InvalidConfig (''browser session has '' @ decimal (open_page_count s) @ '' open pages but max_pages is '' @ decimal limit))
      else Inr \<lparr>pm_session = s, pm_max_pages = limit\<rparr>)"

definition manager_open_page :: "browser_page_id \<Rightarrow> string option \<Rightarrow> string option \<Rightarrow> datetime \<Rightarrow> unit manager_prog" where
  "manager_open_page i u t now m =
     (if open_page_count (pm_session m) \<ge> pm_max_pages m
      then (Inl (ActionFailed (''browser max_pages limit reached: '' @ decimal (pm_max_pages m))), m)
      else on_session (open_page i u t now) m)"

definition manager_close_page :: "browser_page_id \<Rightarrow> datetime \<Rightarrow> unit manager_prog" where
  "manager_close_page i now = on_session (close_page i now)"

definition manager_switch_page :: "browser_page_id \<Rightarrow> datetime \<Rightarrow> unit manager_prog" where
  "manager_switch_page i now = on_session (set_active_page i now)"

definition manager_update_metadata :: "browser_page_id \<Rightarrow> string option \<Rightarrow> string option \<Rightarrow> datetime \<Rightarrow> unit manager_prog" where
  "manager_update_metadata i u t now = on_session (update_page_metadata i u t now)"

definition manager_update_health :: "browser_page_id \<Rightarrow> page_health \<Rightarrow> datetime \<Rightarrow> unit manager_prog" where
  "manager_update_health i h now = on_session (update_page_health i h now)"

definition manager_active_page :: "page_manager \<Rightarrow> browser_page option" where
  "manager_active_page m = active_page (pm_session m)"

definition crash_page :: "crash_event \<Rightarrow> browser_page \<Rightarrow> browser_page" where
  "crash_page e p =
     (if pg_status p \<noteq> PageClosed
      then p\<lparr>pg_status := PageCrashed, pg_health := health_crashed (ce_message e) (ce_detected_at e), pg_updated_at := ce_detected_at e\<rparr>
      else p)"

definition record_crash :: "crash_event \<Rightarrow> unit manager_prog" where
  "record_crash e =
     andThen (lift (validate_crash e)) (\<lambda>_.
     case ce_scope e of
       PageScope \<Rightarrow>
         (case ce_page_id e of
            None \<Rightarrow> raise (InvalidConfig ''page crash event must include page_id'')
          | Some i \<Rightarrow> on_session (update_page_health i (health_crashed (ce_message e) (ce_detected_at e)) (ce_detected_at e)))
     | ProcessScope \<Rightarrow>
         on_session (\<lambda>s. (Inr (), s\<lparr>se_pages := map (crash_page e) (se_pages s), se_updated_at := ce_detected_at e\<rparr>)))"

definition recover_from_crash :: "recovery_policy \<Rightarrow> crash_event \<Rightarrow> recovery_plan manager_prog" where
  "recover_from_crash y e = andThen (record_crash e) (\<lambda>_ m. (plan_recovery y (pm_session m) e, m))"

section \<open>What every operation keeps\<close>

datatype (plugins only: code size) manager_op =
    OpOpen browser_page_id "string option" "string option" datetime
  | OpClose browser_page_id datetime
  | OpSwitch browser_page_id datetime
  | OpMetadata browser_page_id "string option" "string option" datetime
  | OpHealth browser_page_id page_health datetime
  | OpCrash crash_event

fun run_page_op :: "manager_op \<Rightarrow> page_manager \<Rightarrow> page_manager" where
  "run_page_op (OpOpen i u t now) m = snd (manager_open_page i u t now m)"
| "run_page_op (OpClose i now) m = snd (manager_close_page i now m)"
| "run_page_op (OpSwitch i now) m = snd (manager_switch_page i now m)"
| "run_page_op (OpMetadata i u t now) m = snd (manager_update_metadata i u t now m)"
| "run_page_op (OpHealth i h now) m = snd (manager_update_health i h now m)"
| "run_page_op (OpCrash e) m = snd (record_crash e m)"

text \<open>A report of a crash that comes after the page was closed.\<close>

definition page_closed_in :: "browser_page_id \<Rightarrow> page_manager \<Rightarrow> bool" where
  "page_closed_in i m \<longleftrightarrow> (\<exists>p \<in> set (se_pages (pm_session m)). pg_page_id p = i \<and> pg_status p = PageClosed)"

fun late_crash :: "manager_op \<Rightarrow> page_manager \<Rightarrow> bool" where
  "late_crash (OpHealth i h now) m \<longleftrightarrow> ph_status h = HealthCrashed \<and> page_closed_in i m"
| "late_crash (OpCrash e) m \<longleftrightarrow> ce_scope e = PageScope \<and> (\<exists>i. ce_page_id e = Some i \<and> page_closed_in i m)"
| "late_crash _ m \<longleftrightarrow> False"

fun no_late_crash :: "manager_op list \<Rightarrow> page_manager \<Rightarrow> bool" where
  "no_late_crash [] m \<longleftrightarrow> True"
| "no_late_crash (x # xs) m \<longleftrightarrow> \<not> late_crash x m \<and> no_late_crash xs (run_page_op x m)"

definition session_inv :: "browser_session \<Rightarrow> bool" where
  "session_inv s \<longleftrightarrow> distinct (map pg_page_id (se_pages s)) \<and>
     (\<forall>i. se_active_page_id s = Some i \<longrightarrow> i \<in> pg_page_id ` set (se_pages s)) \<and>
     (\<forall>p \<in> set (se_pages s). pg_status p = PageActive \<longrightarrow> se_active_page_id s = Some (pg_page_id p))"

lemma find_page_Inr: "find_page i s = Inr p \<Longrightarrow> p \<in> set (se_pages s) \<and> pg_page_id p = i"
  by (auto simp: find_page_def find_Some_iff split: option.splits)

lemma update_first_count:
  "(\<And>p. p \<in> set ps \<Longrightarrow> P p \<Longrightarrow> Q (f p) \<Longrightarrow> Q p) \<Longrightarrow> length (filter Q (update_first P f ps)) \<le> length (filter Q ps)"
  by (induction ps) (auto split: if_splits)

lemma map_count: "(\<And>p. p \<in> set ps \<Longrightarrow> Q (f p) \<Longrightarrow> Q p) \<Longrightarrow> length (filter (Q \<circ> f) ps) \<le> length (filter Q ps)"
  by (induction ps) (auto simp: less_Suc_eq_le)

lemma modify_page_inv:
  assumes "session_inv s" and "\<And>p. pg_page_id (f p) = pg_page_id p" and "\<And>p. pg_status (f p) = PageActive \<Longrightarrow> pg_status p = PageActive"
  shows "session_inv (snd (modify_page i f s))"
proof -
  have ids: "pg_page_id ` set (update_first P f ps) = pg_page_id ` set ps" for P ps
    using map_update_first [of pg_page_id f P ps, OF assms(2)] by (metis list.set_map)
  have active: "se_active_page_id s = Some (pg_page_id q)" if q: "q \<in> set (update_first P f (se_pages s))" "pg_status q = PageActive" for P q
    using set_update_first [OF q(1)]
  proof
    assume "q \<in> set (se_pages s)"
    with q(2) assms(1) show ?thesis by (simp add: session_inv_def)
  next
    assume "\<exists>y \<in> set (se_pages s). P y \<and> q = f y"
    then obtain y where y: "y \<in> set (se_pages s)" "q = f y" by blast
    with q(2) assms(3) have "pg_status y = PageActive" by simp
    with y assms(1,2) show ?thesis by (simp add: session_inv_def)
  qed
  show ?thesis
    using assms(1) active by (simp add: session_inv_def modify_page_def map_update_first [of pg_page_id f, OF assms(2)] ids split: sum.splits)
qed

lemma modify_page_count:
  assumes "\<And>p. p \<in> set (se_pages s) \<Longrightarrow> pg_page_id p = i \<Longrightarrow> pg_status (f p) \<noteq> PageClosed \<Longrightarrow> pg_status p \<noteq> PageClosed"
  shows "open_page_count (snd (modify_page i f s)) \<le> open_page_count s"
  using update_first_count [of "se_pages s" "\<lambda>p. pg_page_id p = i" "\<lambda>p. pg_status p \<noteq> PageClosed" f] assms
  by (simp add: modify_page_def open_page_count_def split: sum.splits)

lemma set_active_inv: "distinct (map pg_page_id (se_pages s)) \<Longrightarrow>
    (fst (set_active_page i now s) \<noteq> Inr () \<Longrightarrow> session_inv s) \<Longrightarrow> session_inv (snd (set_active_page i now s))"
proof (cases "find_page i s")
  case (Inr p)
  assume distinct: "distinct (map pg_page_id (se_pages s))" and failed: "fst (set_active_page i now s) \<noteq> Inr () \<Longrightarrow> session_inv s"
  show ?thesis
  proof (cases "pg_status p = PageClosed")
    case True
    with failed Inr show ?thesis by (simp add: set_active_page_def)
  next
    case False
    have ids: "pg_page_id (activate_in i now q) = pg_page_id q" for q by (simp add: activate_in_def)
    have "pg_status (activate_in i now q) = PageActive \<Longrightarrow> pg_page_id q = i" for q by (simp add: activate_in_def split: if_splits)
    with False Inr distinct find_page_Inr [OF Inr] show ?thesis
      by (auto simp: set_active_page_def session_inv_def ids comp_def image_image)
  qed
qed (simp add: set_active_page_def)

lemma set_active_count:
  assumes "distinct (map pg_page_id (se_pages s))"
  shows "open_page_count (snd (set_active_page i now s)) \<le> open_page_count s"
proof (cases "find_page i s")
  case (Inr p)
  have "pg_status q \<noteq> PageClosed" if q: "q \<in> set (se_pages s)" "pg_status (activate_in i now q) \<noteq> PageClosed" "pg_status p \<noteq> PageClosed" for q
  proof (cases "pg_page_id q = i")
    case True
    with find_page_Inr [OF Inr] q(1) assms have "q = p" by (auto simp: distinct_map inj_on_def)
    with q(3) show ?thesis by simp
  qed (use q(2) in \<open>auto simp: activate_in_def split: if_splits\<close>)
  with Inr show ?thesis
    by (cases "pg_status p = PageClosed") (simp_all add: set_active_page_def open_page_count_def filter_map map_count)
qed (simp add: set_active_page_def)

lemma andThen_snd: "snd (andThen f g s) = (case f s of (Inl e, s') \<Rightarrow> s' | (Inr x, s') \<Rightarrow> snd (g x s'))"
  by (simp add: andThen_def split: sum.splits prod.splits)

lemma touch_inv [simp]:
  "snd (touch_session now s) = s\<lparr>se_updated_at := now\<rparr>"
  "session_inv (s\<lparr>se_updated_at := now\<rparr>) = session_inv s"
  "open_page_count (s\<lparr>se_updated_at := now\<rparr>) = open_page_count s"
  by (simp_all add: touch_session_def session_inv_def open_page_count_def)

definition keeps :: "'a session_prog \<Rightarrow> browser_session \<Rightarrow> bool" where
  "keeps f s \<longleftrightarrow> session_inv (snd (f s)) \<and> open_page_count (snd (f s)) \<le> open_page_count s"

lemma modify_touch_keeps:
  assumes "session_inv s" and "\<And>p. pg_page_id (f p) = pg_page_id p" and "\<And>p. pg_status (f p) = PageActive \<Longrightarrow> pg_status p = PageActive"
  shows "session_inv (snd (andThen (modify_page i f) (\<lambda>_. touch_session now) s))"
    and "(\<And>p. p \<in> set (se_pages s) \<Longrightarrow> pg_page_id p = i \<Longrightarrow> pg_status (f p) \<noteq> PageClosed \<Longrightarrow> pg_status p \<noteq> PageClosed) \<Longrightarrow>
      open_page_count (snd (andThen (modify_page i f) (\<lambda>_. touch_session now) s)) \<le> open_page_count s"
  using modify_page_inv [OF assms, of i] modify_page_count [of s i f]
  by (auto simp: andThen_snd split: prod.splits sum.splits)

lemma open_page_inv: "session_inv s \<Longrightarrow> session_inv (snd (open_page i u t now s))"
  and open_page_count_Suc: "session_inv s \<Longrightarrow> open_page_count (snd (open_page i u t now s)) \<le> Suc (open_page_count s)"
proof -
  assume inv: "session_inv s"
  let ?p = "(with_status PageBackground now (browser_page_new i now))\<lparr>pg_url := u, pg_title := t\<rparr>"
  let ?s = "s\<lparr>se_pages := se_pages s @ [?p]\<rparr>"
  have p: "pg_page_id ?p = i" "pg_status ?p = PageBackground" by (simp_all add: with_status_def browser_page_new_def)
  have "session_inv (snd (open_page i u t now s)) \<and> open_page_count (snd (open_page i u t now s)) \<le> Suc (open_page_count s)"
  proof (cases "list_ex (\<lambda>p. pg_page_id p = i) (se_pages s)")
    case True
    with inv show ?thesis by (simp add: open_page_def)
  next
    case False
    then have new: "i \<notin> pg_page_id ` set (se_pages s)" by (auto simp: list_ex_iff)
    then have distinct: "distinct (map pg_page_id (se_pages ?s))" using inv p by (simp add: session_inv_def)
    have inv2: "session_inv ?s" using inv new p by (auto simp: session_inv_def)
    have count: "open_page_count ?s = Suc (open_page_count s)" using p by (simp add: open_page_count_def)
    have opened: "snd (open_page i u t now s) =
        (if se_active_page_id s = None then snd (set_active_page i (pg_updated_at ?p) ?s) else ?s\<lparr>se_updated_at := pg_updated_at ?p\<rparr>)"
      using False p(1) by (simp add: open_page_def add_page_def Let_def)
    show ?thesis
    proof (cases "se_active_page_id s = None")
      case True
      with opened have eq: "snd (open_page i u t now s) = snd (set_active_page i (pg_updated_at ?p) ?s)" by (simp only: simp_thms if_True)
      show ?thesis
        unfolding eq using set_active_inv [OF distinct inv2, of i "pg_updated_at ?p"] set_active_count [OF distinct, of i "pg_updated_at ?p"] count
        by (simp only: simp_thms)
    next
      case False
      with opened have eq: "snd (open_page i u t now s) = ?s\<lparr>se_updated_at := pg_updated_at ?p\<rparr>" by (simp only: simp_thms if_False)
      show ?thesis unfolding eq using inv2 count by (simp only: touch_inv order_refl simp_thms)
    qed
  qed
  then show "session_inv (snd (open_page i u t now s))" "open_page_count (snd (open_page i u t now s)) \<le> Suc (open_page_count s)" by simp_all
qed

lemma update_first_found:
  "distinct (map g xs) \<Longrightarrow> (\<And>x. g (f x) = g x) \<Longrightarrow> x \<in> set (update_first (\<lambda>y. g y = i) f xs) \<Longrightarrow> g x = i \<Longrightarrow>
     \<exists>y. x = f y"
  by (induction xs) (auto split: if_splits)

lemma close_page_keeps:
  assumes "session_inv s"
  shows "keeps (close_page i now) s"
proof -
  let ?f = "\<lambda>p. p\<lparr>pg_status := PageClosed, pg_health := health_closed now, pg_updated_at := now\<rparr>"
  define s1 where "s1 = snd (modify_page i ?f s)"
  have inv: "session_inv s1" unfolding s1_def by (rule modify_page_inv [OF assms]) simp_all
  have count: "open_page_count s1 \<le> open_page_count s" unfolding s1_def by (rule modify_page_count) simp
  show ?thesis
  proof (cases "find_page i s")
    case (Inl e)
    with assms show ?thesis by (simp add: keeps_def close_page_def andThen_snd modify_page_def)
  next
    case (Inr p)
    have s1: "modify_page i ?f s = (Inr (), s1)" using Inr by (simp add: s1_def modify_page_def)
    show ?thesis
    proof (cases "se_active_page_id s = Some i")
      case False
      with inv count show ?thesis by (simp add: keeps_def close_page_def andThen_snd s1 ret_def)
    next
      case True
      have active: "se_active_page_id s1 = Some i" and pages: "se_pages s1 = update_first (\<lambda>p. pg_page_id p = i) ?f (se_pages s)"
        using True Inr by (simp_all add: s1_def modify_page_def)
      have closed: "pg_status q = PageClosed" if "q \<in> set (se_pages s1)" "pg_page_id q = i" for q
        using update_first_found [of pg_page_id "se_pages s" ?f q i] that assms pages by (auto simp: session_inv_def)
      have noactive: "pg_status q \<noteq> PageActive" if "q \<in> set (se_pages s1)" for q
        using closed [OF that] that inv active by (force simp: session_inv_def)
      define next_id where "next_id = map_option pg_page_id (find (\<lambda>p. pg_status p \<noteq> PageClosed) (se_pages s1))"
      have there: "next_id = Some j \<Longrightarrow> j \<in> pg_page_id ` set (se_pages s1)" for j
        by (auto simp: next_id_def find_Some_iff)
      have inv2: "session_inv (s1\<lparr>se_active_page_id := next_id\<rparr>)"
        using inv noactive there by (auto simp: session_inv_def)
      then have distinct: "distinct (map pg_page_id (se_pages (s1\<lparr>se_active_page_id := next_id\<rparr>)))" by (simp add: session_inv_def)
      have same: "open_page_count (s1\<lparr>se_active_page_id := next_id\<rparr>) = open_page_count s1" by (simp add: open_page_count_def)
      define s3 where "s3 = (case next_id of None \<Rightarrow> s1\<lparr>se_active_page_id := next_id\<rparr> | Some j \<Rightarrow> snd (set_active_page j now (s1\<lparr>se_active_page_id := next_id\<rparr>)))"
      have "session_inv s3 \<and> open_page_count s3 \<le> open_page_count s"
      proof (cases next_id)
        case None
        with inv2 same count show ?thesis by (simp add: s3_def)
      next
        case (Some j)
        with set_active_inv [OF distinct inv2] order_trans [OF set_active_count [OF distinct, unfolded same] count] show ?thesis
          by (simp add: s3_def)
      qed
      moreover have "snd (close_page i now s) = s3 \<or> snd (close_page i now s) = s3\<lparr>se_updated_at := now\<rparr>"
        using True by (auto simp: close_page_def andThen_snd s1 Let_def next_id_def s3_def split: option.splits prod.splits sum.splits)
      ultimately show ?thesis by (auto simp: keeps_def)
    qed
  qed
qed

lemma modify_touch_same_status:
  "session_inv s \<Longrightarrow> (\<And>p. pg_page_id (f p) = pg_page_id p) \<Longrightarrow> (\<And>p. pg_status (f p) = pg_status p) \<Longrightarrow>
     keeps (andThen (modify_page i f) (\<lambda>_. touch_session now)) s"
  unfolding keeps_def using modify_touch_keeps [of s f i now] by simp

lemma update_metadata_keeps: "session_inv s \<Longrightarrow> keeps (update_page_metadata i u t now) s"
  unfolding update_page_metadata_def by (rule modify_touch_same_status) simp_all

lemma update_health_inv: "session_inv s \<Longrightarrow> session_inv (snd (update_page_health i h now s))"
  unfolding update_page_health_def
  by (rule modify_touch_keeps(1)) (auto simp: status_of_health_def split: option.splits page_health_status.splits)

lemma update_health_count:
  "session_inv s \<Longrightarrow> (ph_status h = HealthCrashed \<Longrightarrow> \<forall>p \<in> set (se_pages s). pg_page_id p = i \<longrightarrow> pg_status p \<noteq> PageClosed) \<Longrightarrow>
     open_page_count (snd (update_page_health i h now s)) \<le> open_page_count s"
  unfolding update_page_health_def
  by (rule modify_touch_keeps(2)) (auto simp: status_of_health_def split: option.splits page_health_status.splits)

lemma crash_pages_keep:
  assumes "session_inv s"
  shows "session_inv (s\<lparr>se_pages := map (crash_page e) (se_pages s)\<rparr>)"
    and "open_page_count (s\<lparr>se_pages := map (crash_page e) (se_pages s)\<rparr>) \<le> open_page_count s"
proof -
  have id: "pg_page_id (crash_page e p) = pg_page_id p" and st: "pg_status (crash_page e p) \<noteq> PageActive"
    and closed: "pg_status (crash_page e p) \<noteq> PageClosed \<Longrightarrow> pg_status p \<noteq> PageClosed" for p
    by (auto simp: crash_page_def)
  show "session_inv (s\<lparr>se_pages := map (crash_page e) (se_pages s)\<rparr>)"
    using assms st by (auto simp: session_inv_def id comp_def image_image)
  show "open_page_count (s\<lparr>se_pages := map (crash_page e) (se_pages s)\<rparr>) \<le> open_page_count s"
    using closed by (simp add: open_page_count_def filter_map map_count)
qed

lemma on_session_snd [simp]: "pm_session (snd (on_session f m)) = snd (f (pm_session m))" "pm_max_pages (snd (on_session f m)) = pm_max_pages m"
  by (simp_all add: on_session_def split: prod.splits)

lemma record_crash_snd:
  "pm_session (snd (record_crash e m)) =
     (case validate_crash e of
        Inl _ \<Rightarrow> pm_session m
      | Inr _ \<Rightarrow> (case ce_scope e of
          PageScope \<Rightarrow> (case ce_page_id e of
              None \<Rightarrow> pm_session m
            | Some i \<Rightarrow> snd (update_page_health i (health_crashed (ce_message e) (ce_detected_at e)) (ce_detected_at e) (pm_session m)))
        | ProcessScope \<Rightarrow> (pm_session m)\<lparr>se_pages := map (crash_page e) (se_pages (pm_session m)), se_updated_at := ce_detected_at e\<rparr>))"
  "pm_max_pages (snd (record_crash e m)) = pm_max_pages m"
  by (simp_all add: record_crash_def andThen_snd lift_def raise_def split: sum.splits crash_scope.splits option.splits)

definition manager_inv :: "page_manager \<Rightarrow> bool" where
  "manager_inv m \<longleftrightarrow> session_inv (pm_session m)"

lemma run_page_op_max [simp]: "pm_max_pages (run_page_op x m) = pm_max_pages m"
  by (cases x) (simp_all add: manager_open_page_def manager_close_page_def manager_switch_page_def manager_update_metadata_def
      manager_update_health_def record_crash_snd)

lemma run_op_inv: "manager_inv m \<Longrightarrow> manager_inv (run_page_op x m)"
proof (cases x)
  case (OpClose i now)
  then show "manager_inv m \<Longrightarrow> ?thesis"
    using close_page_keeps [of "pm_session m" i now] by (simp add: manager_inv_def manager_close_page_def keeps_def)
next
  case (OpMetadata i u t now)
  then show "manager_inv m \<Longrightarrow> ?thesis"
    using update_metadata_keeps [of "pm_session m" i u t now] by (simp add: manager_inv_def manager_update_metadata_def keeps_def)
next
  case (OpCrash e)
  then show "manager_inv m \<Longrightarrow> ?thesis"
    by (auto simp: manager_inv_def record_crash_snd update_health_inv crash_pages_keep(1) split: sum.splits crash_scope.splits option.splits)
qed (auto simp: manager_inv_def manager_open_page_def manager_switch_page_def manager_update_health_def open_page_inv update_health_inv
    session_inv_def [of "pm_session m"] intro!: set_active_inv)

lemma run_op_count:
  assumes "manager_inv m" and "open_page_count (pm_session m) \<le> pm_max_pages m" and "\<not> late_crash x m"
  shows "open_page_count (pm_session (run_page_op x m)) \<le> pm_max_pages m"
proof -
  have inv: "session_inv (pm_session m)" and distinct: "distinct (map pg_page_id (se_pages (pm_session m)))"
    using assms(1) by (simp_all add: manager_inv_def session_inv_def)
  show ?thesis
  proof (cases x)
    case (OpOpen i u t now)
    then show ?thesis using open_page_count_Suc [OF inv, of i u t now] assms(2) by (auto simp: manager_open_page_def)
  next
    case (OpClose i now)
    with close_page_keeps [OF inv, of i now] assms(2) show ?thesis by (simp add: manager_close_page_def keeps_def)
  next
    case (OpSwitch i now)
    with set_active_count [OF distinct, of i now] assms(2) show ?thesis by (simp add: manager_switch_page_def)
  next
    case (OpMetadata i u t now)
    with update_metadata_keeps [OF inv, of i u t now] assms(2) show ?thesis by (simp add: manager_update_metadata_def keeps_def)
  next
    case (OpHealth i h now)
    with update_health_count [OF inv, of h i now] assms(2,3) show ?thesis
      by (auto simp: manager_update_health_def page_closed_in_def)
  next
    case (OpCrash e)
    with assms(3) have late: "ce_scope e = PageScope \<Longrightarrow> ce_page_id e = Some i \<Longrightarrow> \<forall>p \<in> set (se_pages (pm_session m)). pg_page_id p = i \<longrightarrow> pg_status p \<noteq> PageClosed" for i
      by (auto simp: page_closed_in_def)
    have health: "open_page_count (snd (update_page_health i (health_crashed r at) at' (pm_session m))) \<le> open_page_count (pm_session m)"
      if "ce_scope e = PageScope" "ce_page_id e = Some i" for i r at at'
      using update_health_count [OF inv, of "health_crashed r at" i at'] late [OF that] by blast
    have "open_page_count (pm_session (snd (record_crash e m))) \<le> open_page_count (pm_session m)"
      using health crash_pages_keep(2) [OF inv] by (simp add: record_crash_snd split: sum.splits crash_scope.splits option.splits)
    with OpCrash assms(2) show ?thesis by simp
  qed
qed

text \<open>
  C33. Whatever is done with the pages of a session, also what is refused, its pages have
  distinct identifiers, the active page is one of them, and no other page has the status of
  an active one; and the open pages stay within the limit of the manager as long as no crash
  is reported for a page that is closed already.
\<close>

theorem browser_pages_consistent:
  assumes "session_inv s" and "page_manager_new s limit = Inr m"
  shows "session_inv (pm_session (fold run_page_op ops m)) \<and>
    (no_late_crash ops m \<longrightarrow> open_page_count (pm_session (fold run_page_op ops m)) \<le> limit)"
proof -
  have start: "manager_inv m" "open_page_count (pm_session m) \<le> pm_max_pages m" "pm_max_pages m = limit"
    using assms by (auto simp: page_manager_new_def manager_inv_def split: if_splits)
  have "manager_inv (fold run_page_op ops n) \<and>
      (no_late_crash ops n \<longrightarrow> open_page_count (pm_session n) \<le> pm_max_pages n \<longrightarrow> open_page_count (pm_session (fold run_page_op ops n)) \<le> pm_max_pages n)"
    if "manager_inv n" for n
    using that
  proof (induction ops arbitrary: n)
    case (Cons x xs)
    from Cons.IH [OF run_op_inv [OF Cons.prems], of x] run_op_count [OF Cons.prems, of x] show ?case by simp
  qed simp
  from this [OF start(1)] start show ?thesis by (simp add: manager_inv_def)
qed

definition example_session :: browser_session where
  "example_session = browser_session_new (BrowserSessionId ''s'') \<lparr>pb_mode = EphemeralProfile, pb_resolved_path = None\<rparr> 0"

definition example_page_ops :: "manager_op list" where
  "example_page_ops = [OpOpen (BrowserPageId ''a'') None None 1, OpOpen (BrowserPageId ''b'') None None 2, OpOpen (BrowserPageId ''c'') None None 3,
     OpClose (BrowserPageId ''a'') 4]"

theorem browser_pages_consistent_witness:
  "\<exists>m. page_manager_new example_session 2 = Inr m \<and> session_inv (pm_session (fold run_page_op example_page_ops m)) \<and>
     open_page_count (pm_session (fold run_page_op example_page_ops m)) \<le> 2 \<and>
     se_active_page_id (pm_session (fold run_page_op example_page_ops m)) = Some (BrowserPageId ''b'')"
proof -
  let ?m = "\<lparr>pm_session = example_session, pm_max_pages = 2\<rparr>"
  have new: "page_manager_new example_session 2 = Inr ?m"
    by (simp add: page_manager_new_def open_page_count_def example_session_def browser_session_new_def)
  have inv: "session_inv example_session" by (simp add: session_inv_def example_session_def browser_session_new_def)
  have "no_late_crash example_page_ops ?m" by (simp add: example_page_ops_def)
  moreover have "se_active_page_id (pm_session (fold run_page_op example_page_ops ?m)) = Some (BrowserPageId ''b'')" by code_simp
  ultimately show ?thesis using browser_pages_consistent [OF inv new, of example_page_ops] new by blast
qed

text \<open>A late report of a crash opens a closed page again, beyond the limit.\<close>

lemma late_crash_exceeds_limit:
  "open_page_count (pm_session (fold run_page_op
     [OpOpen (BrowserPageId ''a'') None None 1, OpClose (BrowserPageId ''a'') 2, OpOpen (BrowserPageId ''b'') None None 3,
      OpHealth (BrowserPageId ''a'') (health_crashed ''late'' 4) 4] \<lparr>pm_session = example_session, pm_max_pages = 1\<rparr>)) = 2"
  by code_simp

text \<open>A page reported as closed stays the active one.\<close>

lemma closed_page_stays_active:
  "map_option pg_status (active_page (pm_session (fold run_page_op
     [OpOpen (BrowserPageId ''a'') None None 1, OpOpen (BrowserPageId ''b'') None None 2, OpHealth (BrowserPageId ''a'') (health_closed 3) 3]
     \<lparr>pm_session = example_session, pm_max_pages = 5\<rparr>))) = Some PageClosed"
  by code_simp

end
