(* ===== verification/Browser_Policy.thy ===== *)
theory Browser_Policy
  imports Browser_Session
begin
text \<open>
  The policies of \<open>browser-kernel-core/src/lib.rs\<close>: how long to wait for a page, what to answer to
  dialogs and prompts, which hosts and scripts are allowed, and the gate that a human takeover
  closes. \<open>Debug\<close> texts of enumerations are written out where an error carries them.
\<close>

section \<open>Selectors\<close>

datatype (plugins only: code size) element_selector =
    CssSelector string | TextSelector string | XPathSelector string | FrameSelector browser_frame_id element_selector

definition browser_frame_id_new :: "string \<Rightarrow> browser_error + browser_frame_id" where
  "browser_frame_id_new t = bind_result (nonblank t (InvalidConfig ''browser frame id cannot be empty'')) (\<lambda>_. Inr (BrowserFrameId t))"

fun validate_selector :: "element_selector \<Rightarrow> browser_error + unit" where
  "validate_selector (CssSelector t) = nonblank t EmptySelector"
| "validate_selector (TextSelector t) = nonblank t EmptySelector"
| "validate_selector (XPathSelector t) = nonblank t EmptySelector"
| "validate_selector (FrameSelector f x) = bind_result (browser_frame_id_new (frame_text f)) (\<lambda>_. validate_selector x)"

section \<open>Waiting\<close>

datatype (plugins only: code size) wait_until = WaitLoad | WaitDomContentLoaded | WaitNetworkIdle | WaitSelector element_selector

definition validate_wait_until :: "wait_until \<Rightarrow> browser_error + unit" where
  "validate_wait_until w = (case w of WaitSelector x \<Rightarrow> validate_selector x | _ \<Rightarrow> Inr ())"

record wait_strategy =
  ws_wait_until :: wait_until
  ws_timeout_ms :: nat
  ws_poll_interval_ms :: nat

definition wait_strategy_default :: wait_strategy where
  "wait_strategy_default = \<lparr>ws_wait_until = WaitLoad, ws_timeout_ms = 30000, ws_poll_interval_ms = 200\<rparr>"
definition wait_strategy_new :: "wait_until \<Rightarrow> nat \<Rightarrow> wait_strategy" where
  "wait_strategy_new w t = \<lparr>ws_wait_until = w, ws_timeout_ms = t, ws_poll_interval_ms = 200\<rparr>"

definition validate_strategy :: "wait_strategy \<Rightarrow> browser_error + unit" where
  "validate_strategy w =
     (if ws_timeout_ms w = 0 then Inl (InvalidConfig ''navigation wait timeout_ms must be greater than zero'')
      else if ws_poll_interval_ms w = 0 then Inl (InvalidConfig ''navigation wait poll_interval_ms must be greater than zero'')
      else if ws_poll_interval_ms w > ws_timeout_ms w then Inl (InvalidConfig ''navigation wait poll_interval_ms cannot exceed timeout_ms'')
      else validate_wait_until (ws_wait_until w))"

record timeout_policy =
  tp_default_timeout_ms :: nat
  tp_max_timeout_ms :: nat
  tp_poll_interval_ms :: nat

definition timeout_policy_default :: timeout_policy where
  "timeout_policy_default = \<lparr>tp_default_timeout_ms = 30000, tp_max_timeout_ms = 120000, tp_poll_interval_ms = 200\<rparr>"

definition validate_timeout_policy :: "timeout_policy \<Rightarrow> browser_error + unit" where
  "validate_timeout_policy y =
     (if tp_default_timeout_ms y = 0 \<or> tp_max_timeout_ms y = 0
      then Inl (InvalidConfig ''navigation timeout policy values must be greater than zero'')
      else if tp_default_timeout_ms y > tp_max_timeout_ms y
      then Inl (InvalidConfig ''navigation default_timeout_ms cannot exceed max_timeout_ms'')
      else if tp_poll_interval_ms y = 0 \<or> tp_poll_interval_ms y > tp_default_timeout_ms y
      then Inl (InvalidConfig ''navigation poll_interval_ms must be between 1 and default_timeout_ms'')
      else Inr ())"

definition effective_strategy :: "timeout_policy \<Rightarrow> wait_until \<Rightarrow> nat option \<Rightarrow> browser_error + wait_strategy" where
  "effective_strategy y w requested =
     bind_result (validate_timeout_policy y) (\<lambda>_.
     (let timeout = min (case requested of None \<Rightarrow> tp_default_timeout_ms y | Some t \<Rightarrow> t) (tp_max_timeout_ms y);
          strategy = \<lparr>ws_wait_until = w, ws_timeout_ms = timeout, ws_poll_interval_ms = min (tp_poll_interval_ms y) timeout\<rparr> in
      bind_result (validate_strategy strategy) (\<lambda>_. Inr strategy)))"

section \<open>Dialogs and prompts\<close>

datatype (plugins only: code size) dialog_kind = AlertDialog | ConfirmDialog | PromptDialog | BeforeUnloadDialog
datatype (plugins only: code size) dialog_decision = DialogAccept | DialogDismiss

fun dialog_kind_debug :: "dialog_kind \<Rightarrow> string" where
  "dialog_kind_debug AlertDialog = ''Alert''"
| "dialog_kind_debug ConfirmDialog = ''Confirm''"
| "dialog_kind_debug PromptDialog = ''Prompt''"
| "dialog_kind_debug BeforeUnloadDialog = ''BeforeUnload''"

record dialog_event =
  de_page_id :: "browser_page_id option"
  de_kind :: dialog_kind
  de_message :: string
  de_default_prompt_text :: "string option"
  de_occurred_at :: datetime

definition validate_dialog :: "dialog_event \<Rightarrow> browser_error + unit" where
  "validate_dialog e = nonblank (de_message e) (InvalidConfig ''browser dialog message cannot be empty'')"

record dialog_resolution =
  dr_decision :: dialog_decision
  dr_prompt_text :: "string option"
  dr_reason :: string
  dr_resolved_at :: datetime

datatype (plugins only: code size) permission_kind =
    ClipboardRead | ClipboardWrite | Geolocation | Camera | Microphone | Notifications | Downloads | OtherPermission string
datatype (plugins only: code size) prompt_decision = PromptAllow | PromptDeny | PromptAsk

record permission_prompt =
  pp_page_id :: "browser_page_id option"
  pp_origin :: string
  pp_permission :: permission_kind
  pp_occurred_at :: datetime

definition validate_permission_prompt :: "permission_prompt \<Rightarrow> browser_error + unit" where
  "validate_permission_prompt e = nonblank (pp_origin e) (InvalidConfig ''browser permission prompt origin cannot be empty'')"

record permission_resolution =
  px_decision :: prompt_decision
  px_reason :: string
  px_resolved_at :: datetime

record prompt_policy =
  po_timeout_ms :: nat
  po_alert :: dialog_decision
  po_confirm :: dialog_decision
  po_prompt :: dialog_decision
  po_prompt_text :: "string option"
  po_before_unload :: dialog_decision
  po_default_permission :: prompt_decision
  po_allowed_permissions :: "permission_kind list"

definition prompt_policy_default :: prompt_policy where
  "prompt_policy_default =
     \<lparr>po_timeout_ms = 5000, po_alert = DialogAccept, po_confirm = DialogDismiss, po_prompt = DialogDismiss, po_prompt_text = None,
      po_before_unload = DialogDismiss, po_default_permission = PromptAsk, po_allowed_permissions = []\<rparr>"

definition validate_prompt_policy :: "prompt_policy \<Rightarrow> browser_error + unit" where
  "validate_prompt_policy y =
     (if po_timeout_ms y = 0 then Inl (InvalidConfig ''browser prompt timeout_ms must be greater than zero'') else Inr ())"

definition decide_dialog :: "prompt_policy \<Rightarrow> dialog_kind \<Rightarrow> dialog_decision" where
  "decide_dialog y k =
     (case k of AlertDialog \<Rightarrow> po_alert y | ConfirmDialog \<Rightarrow> po_confirm y | PromptDialog \<Rightarrow> po_prompt y | BeforeUnloadDialog \<Rightarrow> po_before_unload y)"

definition resolve_dialog :: "prompt_policy \<Rightarrow> dialog_event \<Rightarrow> datetime \<Rightarrow> browser_error + dialog_resolution" where
  "resolve_dialog y e at =
     bind_result (validate_prompt_policy y) (\<lambda>_. bind_result (validate_dialog e) (\<lambda>_.
     (let decision = decide_dialog y (de_kind e) in
      Inr \<lparr>dr_decision = decision,
           dr_prompt_text = (if de_kind e = PromptDialog \<and> decision = DialogAccept
             then (case po_prompt_text y of Some t \<Rightarrow> Some t | None \<Rightarrow> de_default_prompt_text e) else None),
           dr_reason = ''resolved '' @ dialog_kind_debug (de_kind e) @ '' dialog via non-blocking prompt policy within '' @ decimal (po_timeout_ms y) @ ''ms'',
           dr_resolved_at = at\<rparr>)))"

text \<open>The \<open>Debug\<close> text of a permission quotes the name of another one, which is a parameter.\<close>

definition resolve_permission_prompt ::
    "(permission_kind \<Rightarrow> string) \<Rightarrow> prompt_policy \<Rightarrow> permission_prompt \<Rightarrow> datetime \<Rightarrow> browser_error + permission_resolution" where
  "resolve_permission_prompt show y e at =
     bind_result (validate_prompt_policy y) (\<lambda>_. bind_result (validate_permission_prompt e) (\<lambda>_.
     Inr \<lparr>px_decision = (if pp_permission e \<in> set (po_allowed_permissions y) then PromptAllow else po_default_permission y),
          px_reason = ''resolved '' @ show (pp_permission e) @ '' permission prompt for '' @ pp_origin e @ '' via browser prompt policy'',
          px_resolved_at = at\<rparr>))"

section \<open>Hosts and scripts\<close>

datatype (plugins only: code size) security_decision = SecurityAllow | SecurityAsk | SecurityDeny
datatype (plugins only: code size) js_risk = JsLow | JsMedium | JsHigh

definition high_risk_terms :: "string list" where
  "high_risk_terms =
     [''.click('', ''.submit('', ''fetch('', ''xmlhttprequest'', ''localstorage'', ''sessionstorage'', ''document.cookie'', ''authorization'',
      ''password'', ''token'', ''apikey'', ''api_key'']"

definition classify_script :: "string \<Rightarrow> js_risk" where
  "classify_script script =
     (let t = to_ascii_lowercase script in
      if list_ex (contains_str t) high_risk_terms then JsHigh
      else if contains_str t ''document.'' \<or> contains_str t ''window.'' \<or> contains_str t ''navigator.'' then JsMedium
      else JsLow)"

record credential_warning =
  cw_url :: string
  cw_matched_terms :: "string list"
  cw_severity :: js_risk

definition credential_terms :: "string list" where
  "credential_terms = [''authorization'', ''cookie'', ''password'', ''token'', ''api_key'', ''apikey'', ''secret'', ''bearer'']"

definition detect_credentials :: "string \<Rightarrow> string \<Rightarrow> credential_warning option" where
  "detect_credentials url script =
     (let matched = filter (contains_str (to_ascii_lowercase script)) credential_terms in
      if matched = [] then None else Some \<lparr>cw_url = url, cw_matched_terms = matched, cw_severity = JsHigh\<rparr>)"

record security_evaluation =
  sv_decision :: security_decision
  sv_url :: string
  sv_matched_domain :: "string option"
  sv_js_risk :: js_risk
  sv_credential_warning :: "credential_warning option"

record security_policy =
  sp_allowed :: "string list"
  sp_denied :: "string list"
  sp_high_risk :: "string list"
  sp_default :: security_decision
  sp_high_risk_decision :: security_decision

definition security_policy_default :: security_policy where
  "security_policy_default =
     \<lparr>sp_allowed = [], sp_denied = [], sp_high_risk = [], sp_default = SecurityAsk, sp_high_risk_decision = SecurityAsk\<rparr>"

definition normalize_domain :: "string \<Rightarrow> string" where
  "normalize_domain t = to_ascii_lowercase (dropWhile (\<lambda>c. c = CHR ''.'') (trim t))"

definition with_allowed_domain :: "string \<Rightarrow> security_policy \<Rightarrow> security_policy" where
  "with_allowed_domain d y = y\<lparr>sp_allowed := sp_allowed y @ [normalize_domain d]\<rparr>"
definition with_denied_domain :: "string \<Rightarrow> security_policy \<Rightarrow> security_policy" where
  "with_denied_domain d y = y\<lparr>sp_denied := sp_denied y @ [normalize_domain d]\<rparr>"
definition with_high_risk_domain :: "string \<Rightarrow> security_policy \<Rightarrow> security_policy" where
  "with_high_risk_domain d y = y\<lparr>sp_high_risk := sp_high_risk y @ [normalize_domain d]\<rparr>"

definition ends_with :: "string \<Rightarrow> string \<Rightarrow> bool" where
  "ends_with t s \<longleftrightarrow> starts_with (rev t) (rev s)"

definition matching_domain :: "string \<Rightarrow> string list \<Rightarrow> string option" where
  "matching_domain host domains =
     (let h = normalize_domain host in find (\<lambda>d. h = d \<or> ends_with h (''.'' @ d)) domains)"

text \<open>What follows the first occurrence of a text, and what comes before and after a character.\<close>

fun after_first :: "string \<Rightarrow> string \<Rightarrow> string option" where
  "after_first p [] = (if p = [] then Some [] else None)"
| "after_first p (c # t) = (if starts_with (c # t) p then Some (drop (length p) (c # t)) else after_first p t)"

definition before_char :: "char \<Rightarrow> string \<Rightarrow> string" where
  "before_char c t = takeWhile (\<lambda>x. x \<noteq> c) t"

definition after_last_char :: "char \<Rightarrow> string \<Rightarrow> string option" where
  "after_last_char c t = (if c \<in> set t then Some (rev (takeWhile (\<lambda>x. x \<noteq> c) (rev t))) else None)"

definition extract_url_host :: "string \<Rightarrow> browser_error + string" where
  "extract_url_host url =
     (let trimmed = trim url;
          after_scheme = (case after_first ''://'' trimmed of Some rest \<Rightarrow> rest | None \<Rightarrow> trimmed);
          host_port = before_char (CHR ''/'') after_scheme;
          host = trim (before_char (CHR '':'') (case after_last_char (CHR 0x40) host_port of Some h \<Rightarrow> h | None \<Rightarrow> host_port)) in
      if host = [] then Inl (InvalidConfig (''browser security policy could not extract host from url: '' @ url))
      else Inr (normalize_domain host))"

definition evaluate_url :: "security_policy \<Rightarrow> string \<Rightarrow> browser_error + security_evaluation" where
  "evaluate_url y url =
     (let u = trim url in
      if u = [] then Inl EmptyUrl
      else bind_result (extract_url_host u) (\<lambda>domain.
        (let answer = (\<lambda>d m. Inr \<lparr>sv_decision = d, sv_url = u, sv_matched_domain = m, sv_js_risk = JsLow, sv_credential_warning = None\<rparr>) in
         case matching_domain domain (sp_denied y) of
           Some d \<Rightarrow> answer SecurityDeny (Some d)
         | None \<Rightarrow> (case matching_domain domain (sp_allowed y) of
             Some d \<Rightarrow> answer SecurityAllow (Some d)
           | None \<Rightarrow> answer (sp_default y) None))))"

definition script_decision :: "security_policy \<Rightarrow> bool \<Rightarrow> js_risk \<Rightarrow> bool \<Rightarrow> security_decision \<Rightarrow> security_decision" where
  "script_decision y high_risk_domain risk warned d =
     (let d1 = (if high_risk_domain \<and> d = SecurityAllow then sp_high_risk_decision y else d);
          d2 = (if high_risk_domain \<and> d1 = SecurityAsk then sp_high_risk_decision y else d1);
          d3 = (if risk = JsHigh \<and> d2 = SecurityAllow then SecurityAsk else d2) in
      if warned \<and> d3 = SecurityAllow then SecurityAsk else d3)"

definition evaluate_execute_js :: "security_policy \<Rightarrow> string \<Rightarrow> string \<Rightarrow> browser_error + security_evaluation" where
  "evaluate_execute_js y url script =
     bind_result (evaluate_url y url) (\<lambda>e. bind_result (extract_url_host url) (\<lambda>domain.
     (let risk = classify_script script; warning = detect_credentials url script in
      Inr (e\<lparr>sv_decision := script_decision y (matching_domain domain (sp_high_risk y) \<noteq> None) risk (warning \<noteq> None) (sv_decision e),
             sv_js_risk := risk, sv_credential_warning := warning\<rparr>))))"

section \<open>The gate of a human takeover\<close>

datatype (plugins only: code size) automation_state = AutomationRunning | PausedForTakeover
datatype (plugins only: code size) takeover_reason =
    UserRequested | RiskyAction | AuthenticationRequired | Debugging | OtherReason string

record takeover_request =
  tq_session_id :: browser_session_id
  tq_page_id :: "browser_page_id option"
  tq_reason :: takeover_reason
  tq_requested_at :: datetime
  tq_expires_at :: "datetime option"

record takeover_lease =
  tl_session_id :: browser_session_id
  tl_page_id :: "browser_page_id option"
  tl_reason :: takeover_reason
  tl_started_at :: datetime
  tl_expires_at :: "datetime option"

record host_session_handle =
  hh_session_id :: browser_session_id
  hh_active_page_id :: "browser_page_id option"
  hh_pages :: "browser_page list"
  hh_profile :: profile_binding
  hh_takeover_started_at :: datetime

datatype (plugins only: code size) mutation_action =
    ClickElement | TypeText | FillForm | SelectOption | ScrollPage | PressKey | ExecuteJs | UploadFile | DownloadFile

definition all_mutations :: "mutation_action list" where
  "all_mutations = [ClickElement, TypeText, FillForm, SelectOption, ScrollPage, PressKey, ExecuteJs, UploadFile, DownloadFile]"

fun mutation_debug :: "mutation_action \<Rightarrow> string" where
  "mutation_debug ClickElement = ''ClickElement''"
| "mutation_debug TypeText = ''TypeText''"
| "mutation_debug FillForm = ''FillForm''"
| "mutation_debug SelectOption = ''SelectOption''"
| "mutation_debug ScrollPage = ''ScrollPage''"
| "mutation_debug PressKey = ''PressKey''"
| "mutation_debug ExecuteJs = ''ExecuteJs''"
| "mutation_debug UploadFile = ''UploadFile''"
| "mutation_debug DownloadFile = ''DownloadFile''"

definition from_action_name :: "string \<Rightarrow> mutation_action option" where
  "from_action_name t =
     map_of [(''browser.click_element'', ClickElement), (''browser.type_text'', TypeText), (''browser.fill_form'', FillForm),
       (''browser.select_option'', SelectOption), (''browser.scroll_page'', ScrollPage), (''browser.press_key'', PressKey),
       (''browser.execute_js'', ExecuteJs), (''browser.upload_file'', UploadFile), (''browser.download_file'', DownloadFile)] t"

record automation_gate =
  ag_state :: automation_state
  ag_active_takeover :: "takeover_lease option"

definition gate_running :: automation_gate where
  "gate_running = \<lparr>ag_state = AutomationRunning, ag_active_takeover = None\<rparr>"

definition pause_for_takeover :: "takeover_request \<Rightarrow> automation_gate \<Rightarrow> (browser_error + takeover_lease) \<times> automation_gate" where
  "pause_for_takeover q g =
     (let lease = \<lparr>tl_session_id = tq_session_id q, tl_page_id = tq_page_id q, tl_reason = tq_reason q, tl_started_at = tq_requested_at q,
        tl_expires_at = tq_expires_at q\<rparr> in
      (Inr lease, \<lparr>ag_state = PausedForTakeover, ag_active_takeover = Some lease\<rparr>))"

definition resume_automation :: "browser_session_id \<Rightarrow> datetime \<Rightarrow> automation_gate \<Rightarrow> (browser_error + unit) \<times> automation_gate" where
  "resume_automation i at g =
     (case ag_active_takeover g of
        None \<Rightarrow> (Inr (), g\<lparr>ag_state := AutomationRunning\<rparr>)
      | Some lease \<Rightarrow>
          if tl_session_id lease \<noteq> i
          then (Inl (InvalidConfig (''cannot resume browser session '' @ session_text i @ '' while takeover is active for '' @
                  session_text (tl_session_id lease))), g)
          else (Inr (), \<lparr>ag_state = AutomationRunning, ag_active_takeover = None\<rparr>))"

definition ensure_mutation_allowed :: "mutation_action \<Rightarrow> automation_gate \<Rightarrow> browser_error + unit" where
  "ensure_mutation_allowed a g =
     (case ag_state g of
        AutomationRunning \<Rightarrow> Inr ()
      | PausedForTakeover \<Rightarrow>
          (let session = (case ag_active_takeover g of None \<Rightarrow> ''unknown'' | Some l \<Rightarrow> session_text (tl_session_id l)) in
           Inl (AutomationPaused (''session '' @ session @ '' is paused; mutation action '' @ mutation_debug a @ '' is blocked''))))"

definition host_session_handle_of :: "browser_session \<Rightarrow> automation_gate \<Rightarrow> browser_error + host_session_handle" where
  "host_session_handle_of s g =
     (case ag_active_takeover g of
        None \<Rightarrow> Inl (InvalidConfig ''host session handle requires active human takeover'')
      | Some l \<Rightarrow>
          if tl_session_id l \<noteq> se_session_id s
          then Inl (InvalidConfig (''takeover session '' @ session_text (tl_session_id l) @ '' does not match requested session '' @
                 session_text (se_session_id s)))
          else Inr \<lparr>hh_session_id = se_session_id s, hh_active_page_id = se_active_page_id s, hh_pages = se_pages s,
                    hh_profile = se_profile s, hh_takeover_started_at = tl_started_at l\<rparr>)"

section \<open>Waiting stays within the policy\<close>

text \<open>
  C35. Whatever timeout is asked for, the strategy that is used waits no longer than the policy
  allows and polls at least once in that time; only a timeout of zero or a selector that is
  blank is refused.
\<close>

theorem navigation_wait_bounded:
  assumes "validate_timeout_policy y = Inr ()"
  shows "(case effective_strategy y w requested of
      Inr s \<Rightarrow> 0 < ws_poll_interval_ms s \<and> ws_poll_interval_ms s \<le> ws_timeout_ms s \<and> ws_timeout_ms s \<le> tp_max_timeout_ms y \<and>
        (\<forall>t. requested = Some t \<longrightarrow> ws_timeout_ms s \<le> t) \<and> validate_strategy s = Inr ()
    | Inl e \<Rightarrow> requested = Some 0 \<or> validate_wait_until w = Inl e)"
  using assms
  by (cases requested)
    (auto simp: effective_strategy_def validate_timeout_policy_def validate_strategy_def Let_def bind_result_def split: if_splits sum.splits)

theorem navigation_wait_bounded_witness:
  "\<exists>s. effective_strategy \<lparr>tp_default_timeout_ms = 3, tp_max_timeout_ms = 5, tp_poll_interval_ms = 2\<rparr> WaitLoad (Some 9) = Inr s \<and>
     ws_timeout_ms s \<le> 5"
proof -
  let ?y = "\<lparr>tp_default_timeout_ms = 3, tp_max_timeout_ms = 5, tp_poll_interval_ms = 2\<rparr>"
  let ?run = "effective_strategy ?y WaitLoad (Some 9)"
  have "\<not> isl ?run" by code_simp
  then obtain s where run: "?run = Inr s" by (cases ?run) simp_all
  have "validate_timeout_policy ?y = Inr ()" by (simp add: validate_timeout_policy_def)
  from navigation_wait_bounded [OF this, where w = WaitLoad and requested = "Some 9"] run show ?thesis by simp
qed

section \<open>Scripts\<close>

text \<open>The strength of a decision: asking is stronger than allowing, and denying is stronger than both.\<close>

fun strictness :: "security_decision \<Rightarrow> nat" where
  "strictness SecurityAllow = 0" | "strictness SecurityAsk = 1" | "strictness SecurityDeny = 2"

lemma script_decision_table:
  "script_decision y hr risk warned d =
     (let base = (if hr \<and> d \<noteq> SecurityDeny then sp_high_risk_decision y else d) in
      if base = SecurityAllow \<and> (risk = JsHigh \<or> warned) then SecurityAsk else base)"
  by (cases d; cases "sp_high_risk_decision y") (simp_all add: script_decision_def Let_def)

lemma script_decision_cases:
  "script_decision y hr risk warned d = SecurityAllow \<Longrightarrow> risk \<noteq> JsHigh \<and> \<not> warned"
  "script_decision y hr risk warned SecurityDeny = SecurityDeny"
  by (simp_all add: script_decision_table Let_def split: if_splits)

lemma script_decision_stricter:
  "sp_high_risk_decision y \<noteq> SecurityAllow \<Longrightarrow> strictness d \<le> strictness (script_decision y hr risk warned d)"
  by (cases d; cases "sp_high_risk_decision y") (simp_all add: script_decision_table Let_def)

text \<open>
  A script is never run unasked where it touches credentials or acts on the page; a page
  of a denied host stays denied whatever the script is; and where high risk hosts are not
  allowed by themselves, the decision on a script is never weaker than the one on its page.
\<close>

lemma scripts_are_guarded:
  assumes "evaluate_execute_js y url script = Inr e" and "evaluate_url y url = Inr page"
  shows "(sv_decision e = SecurityAllow \<longrightarrow> classify_script script \<noteq> JsHigh \<and> detect_credentials url script = None) \<and>
    (sv_decision page = SecurityDeny \<longrightarrow> sv_decision e = SecurityDeny) \<and>
    (sp_high_risk_decision y \<noteq> SecurityAllow \<longrightarrow> strictness (sv_decision page) \<le> strictness (sv_decision e))"
proof -
  from assms obtain hr where e: "sv_decision e = script_decision y hr (classify_script script) (detect_credentials url script \<noteq> None) (sv_decision page)"
    by (auto simp: evaluate_execute_js_def bind_result_Inr_iff Let_def)
  define warned where "warned = (detect_credentials url script \<noteq> None)"
  show ?thesis
    unfolding e warned_def [symmetric]
    using script_decision_cases(1) [of y hr _ warned] script_decision_stricter by (auto simp: script_decision_cases(2) warned_def)
qed

definition example_security :: security_policy where
  "example_security = with_denied_domain ''e.co'' (with_allowed_domain ''g.co'' security_policy_default)"

lemma scripts_are_guarded_witness:
  "\<exists>e page. evaluate_execute_js example_security ''s://a.g.co/'' ''fetch()'' = Inr e \<and>
     evaluate_url example_security ''s://a.g.co/'' = Inr page \<and> sv_decision page = SecurityAllow \<and> sv_decision e \<noteq> SecurityAllow"
proof -
  let ?e = "evaluate_execute_js example_security ''s://a.g.co/'' ''fetch()''" and ?page = "evaluate_url example_security ''s://a.g.co/''"
  have "case ?page of Inr p \<Rightarrow> sv_decision p = SecurityAllow | Inl _ \<Rightarrow> False" and "\<not> isl ?e" and high: "classify_script ''fetch()'' = JsHigh"
    by code_simp+
  then obtain e page where run: "?e = Inr e" "?page = Inr page" "sv_decision page = SecurityAllow"
    by (cases ?e; cases ?page) auto
  from scripts_are_guarded [OF run(1,2)] high run show ?thesis by auto
qed

text \<open>
  The host is what stands before the first slash, so a query or a fragment that carries the
  name of an allowed host passes for it; and what precedes the first \<open>://\<close> is never looked at.
\<close>

lemma query_passes_for_host:
  "case evaluate_url example_security ''s://e.co?@g.co'' of Inr e \<Rightarrow> sv_decision e = SecurityAllow | Inl _ \<Rightarrow> False"
  "case evaluate_url example_security ''s://e.co#@g.co'' of Inr e \<Rightarrow> sv_decision e = SecurityAllow | Inl _ \<Rightarrow> False"
  "case evaluate_url example_security ''data:,x://g.co'' of Inr e \<Rightarrow> sv_decision e = SecurityAllow | Inl _ \<Rightarrow> False"
  by code_simp+

lemma trailing_dot_not_denied:
  "case evaluate_url example_security ''s://e.co./'' of Inr e \<Rightarrow> sv_decision e = SecurityAsk | Inl _ \<Rightarrow> False"
  by code_simp

text \<open>Where high risk hosts are allowed, being one weakens the decision.\<close>

lemma high_risk_weakens: "sp_high_risk_decision y = SecurityAllow \<Longrightarrow> script_decision y True JsMedium False SecurityAsk = SecurityAllow"
  by (simp add: script_decision_def)

section \<open>Takeovers\<close>

datatype (plugins only: code size) gate_op = GatePause takeover_request | GateResume browser_session_id datetime

fun run_gate :: "gate_op \<Rightarrow> automation_gate \<Rightarrow> automation_gate" where
  "run_gate (GatePause q) g = snd (pause_for_takeover q g)"
| "run_gate (GateResume i at) g = snd (resume_automation i at g)"

definition gate_inv :: "automation_gate \<Rightarrow> bool" where
  "gate_inv g \<longleftrightarrow> (ag_state g = PausedForTakeover \<longleftrightarrow> ag_active_takeover g \<noteq> None)"

lemma run_gate_inv: "gate_inv g \<Longrightarrow> gate_inv (run_gate x g)"
  by (cases x) (auto simp: gate_inv_def pause_for_takeover_def resume_automation_def Let_def split: option.splits)

text \<open>
  A takeover is in force as long as no other one begins and its own session is not resumed;
  resuming another session is refused and changes nothing.
\<close>

definition in_force :: "takeover_request \<Rightarrow> gate_op list \<Rightarrow> bool" where
  "in_force q = list_all (\<lambda>x. case x of GatePause _ \<Rightarrow> False | GateResume i _ \<Rightarrow> i \<noteq> tq_session_id q)"

definition lease_of :: "takeover_request \<Rightarrow> takeover_lease" where
  "lease_of q = \<lparr>tl_session_id = tq_session_id q, tl_page_id = tq_page_id q, tl_reason = tq_reason q, tl_started_at = tq_requested_at q,
     tl_expires_at = tq_expires_at q\<rparr>"

lemma run_gate_pause: "run_gate (GatePause q) g = \<lparr>ag_state = PausedForTakeover, ag_active_takeover = Some (lease_of q)\<rparr>"
  by (simp add: pause_for_takeover_def lease_of_def Let_def)

lemma in_force_held: "in_force q ops \<Longrightarrow> ag_active_takeover g = Some (lease_of q) \<Longrightarrow> fold run_gate ops g = g"
  by (induction ops) (auto simp: in_force_def resume_automation_def lease_of_def split: gate_op.splits)

lemma held_in_force:
  assumes "ag_active_takeover (fold run_gate ops gate_running) = Some l"
  shows "\<exists>pre q post. ops = pre @ GatePause q # post \<and> in_force q post \<and> l = lease_of q"
  using assms
proof (induction ops rule: rev_induct)
  case Nil
  then show ?case by (simp add: gate_running_def)
next
  case (snoc x ops)
  show ?case
  proof (cases x)
    case (GatePause q)
    with snoc.prems show ?thesis by (intro exI [of _ ops] exI [of _ q] exI [of _ "[]"]) (auto simp: run_gate_pause in_force_def simp del: run_gate.simps)
  next
    case (GateResume i at)
    with snoc.prems have "ag_active_takeover (fold run_gate ops gate_running) = Some l" "i \<noteq> tl_session_id l"
      by (auto simp: resume_automation_def split: option.splits if_splits)
    with snoc.IH obtain pre q post where "ops = pre @ GatePause q # post" "in_force q post" "l = lease_of q" by blast
    with GateResume \<open>i \<noteq> tl_session_id l\<close> show ?thesis
      by (intro exI [of _ pre] exI [of _ q] exI [of _ "post @ [x]"]) (simp add: in_force_def lease_of_def)
  qed
qed

lemma gate_running_inv: "gate_inv (fold run_gate ops gate_running)"
proof (induction ops rule: rev_induct)
  case Nil
  show ?case by (simp add: gate_inv_def gate_running_def)
next
  case (snoc x ops)
  then show ?case by (simp add: run_gate_inv del: run_gate.simps)
qed

text \<open>
  C34. The gate for mutations follows the last takeover. After any takeovers and resumptions a
  mutating action is refused exactly when there was a takeover after which neither another one
  began nor its own session was resumed: resuming any other session does not open the gate, and
  nothing else closes it. While it is closed, only the session of that takeover can be handed
  to a person. The last takeover counts: one that began later, for whatever session, replaces
  those before it, and ending it opens the gate though the earlier ones were never ended.
\<close>

theorem mutations_wait_for_last_takeover:
  "(isl (ensure_mutation_allowed a (fold run_gate ops gate_running)) \<longleftrightarrow>
      (\<exists>pre q post. ops = pre @ GatePause q # post \<and> in_force q post)) \<and>
   (\<forall>h. host_session_handle_of s (fold run_gate ops gate_running) = Inr h \<longrightarrow>
      (\<exists>pre q post. ops = pre @ GatePause q # post \<and> in_force q post \<and> tq_session_id q = se_session_id s))"
proof -
  let ?g = "fold run_gate ops gate_running"
  have "isl (ensure_mutation_allowed a ?g) \<longleftrightarrow> (\<exists>l. ag_active_takeover ?g = Some l)"
    using gate_running_inv [of ops] by (auto simp: ensure_mutation_allowed_def gate_inv_def Let_def split: automation_state.splits)
  moreover have "\<exists>l. ag_active_takeover ?g = Some l" if "ops = pre @ GatePause q # post" "in_force q post" for pre q post
    using that in_force_held [of q post "run_gate (GatePause q) (fold run_gate pre gate_running)"]
    by (simp add: run_gate_pause del: run_gate.simps)
  moreover have "\<exists>l. ag_active_takeover ?g = Some l \<and> tl_session_id l = se_session_id s"
    if "host_session_handle_of s ?g = Inr h" for h
    using that by (auto simp: host_session_handle_of_def Let_def split: option.splits if_splits)
  ultimately show ?thesis using held_in_force [of ops] by (fastforce simp: lease_of_def)
qed

definition example_takeover :: "string \<Rightarrow> takeover_request" where
  "example_takeover t = \<lparr>tq_session_id = BrowserSessionId t, tq_page_id = None, tq_reason = UserRequested, tq_requested_at = 1, tq_expires_at = Some 2\<rparr>"

theorem mutations_wait_for_last_takeover_witness:
  "isl (ensure_mutation_allowed ClickElement
     (fold run_gate [GatePause (example_takeover ''s''), GateResume (BrowserSessionId ''t'') 9] gate_running))"
proof -
  let ?ops = "[GatePause (example_takeover ''s''), GateResume (BrowserSessionId ''t'') 9]"
  have "in_force (example_takeover ''s'') [GateResume (BrowserSessionId ''t'') 9]"
    by (simp add: in_force_def example_takeover_def)
  then have "\<exists>pre q post. ?ops = pre @ GatePause q # post \<and> in_force q post" by (intro exI [of _ "[]"]) auto
  then show ?thesis using mutations_wait_for_last_takeover [of ClickElement ?ops] by iprover
qed

text \<open>
  A takeover of a session while another one is in the hands of a person takes the place of the
  first: when it is ended, mutations are allowed although the first was never ended.
\<close>

lemma second_takeover_ends_first:
  "ensure_mutation_allowed a (fold run_gate
     [GatePause (example_takeover ''s''), GatePause (example_takeover ''t''), GateResume (BrowserSessionId ''t'') 9] gate_running) = Inr ()"
  by (simp add: ensure_mutation_allowed_def pause_for_takeover_def resume_automation_def example_takeover_def Let_def)

text \<open>A second takeover silently replaces the first, and an expired one still blocks.\<close>

lemma takeover_replaced:
  "ag_active_takeover (snd (pause_for_takeover q g)) \<noteq> None \<and> tl_session_id (the (ag_active_takeover (snd (pause_for_takeover q g)))) = tq_session_id q"
  by (simp add: pause_for_takeover_def Let_def)

end
