(* ===== verification/Browser_Actions.thy ===== *)
theory Browser_Actions
  imports Browser_Policy File_System Action_Runtime
begin
text \<open>
  The inputs and artifacts of browser actions, \<open>browser-kernel-core/src/lib.rs\<close>: the configuration of a
  browser, forms, snapshots of the elements of a page, uploads with their approval, network traces
  and downloads. A floating point number is carried as its text, SHA-256 in hexadecimal, the JSON of a
  point in time and of the values that only serde writes are parameters.
\<close>

section \<open>Configuration\<close>

type_synonym float_text = string

record browser_viewport =
  vp_width :: nat
  vp_height :: nat
  vp_device_scale_factor :: float_text

definition viewport_default :: browser_viewport where
  "viewport_default = \<lparr>vp_width = 1280, vp_height = 720, vp_device_scale_factor = ''1.0''\<rparr>"

record browser_timeouts =
  bt_navigation_timeout_ms :: nat
  bt_action_timeout_ms :: nat
  bt_idle_shutdown_ms :: nat

definition browser_timeouts_default :: browser_timeouts where
  "browser_timeouts_default = \<lparr>bt_navigation_timeout_ms = 30000, bt_action_timeout_ms = 10000, bt_idle_shutdown_ms = 300000\<rparr>"

datatype (plugins only: code size) launch_mode = Headless | Headful | ConnectTo string

record browser_config =
  bc_launch_mode :: launch_mode
  bc_viewport :: browser_viewport
  bc_timeouts :: browser_timeouts
  bc_navigation_timeout_policy :: timeout_policy
  bc_prompt_policy :: prompt_policy
  bc_recovery_policy :: recovery_policy
  bc_security_policy :: security_policy
  bc_profile :: profile_mode
  bc_max_pages :: nat

definition browser_config_default :: browser_config where
  "browser_config_default =
     \<lparr>bc_launch_mode = Headless, bc_viewport = viewport_default, bc_timeouts = browser_timeouts_default,
      bc_navigation_timeout_policy = timeout_policy_default, bc_prompt_policy = prompt_policy_default,
      bc_recovery_policy = recovery_policy_default, bc_security_policy = security_policy_default,
      bc_profile = profile_mode_default, bc_max_pages = 5\<rparr>"

section \<open>JSON values\<close>

text \<open>\<open>json!\<close> makes a map that is sorted by key.\<close>

definition json_object :: "(string \<times> json) list \<Rightarrow> json" where
  "json_object kvs = JObject (fold (\<lambda>(k, v). bt_put k v) kvs [])"

definition json_nat :: "nat \<Rightarrow> json" where
  "json_nat n = JNumber (decimal n)"

section \<open>Forms\<close>

record form_fill_field =
  ff_selector :: element_selector
  ff_value :: string

record form_fill_spec =
  fs_fields :: "form_fill_field list"
  fs_submit :: bool

definition form_fill_spec_new :: "form_fill_field list \<Rightarrow> form_fill_spec" where
  "form_fill_spec_new xs = \<lparr>fs_fields = xs, fs_submit = False\<rparr>"

fun validate_fields :: "form_fill_field list \<Rightarrow> browser_error + unit" where
  "validate_fields [] = Inr ()"
| "validate_fields (f # fs) = bind_result (validate_selector (ff_selector f)) (\<lambda>_. validate_fields fs)"

definition validate_form :: "form_fill_spec \<Rightarrow> browser_error + unit" where
  "validate_form s = (if fs_fields s = [] then Inl EmptyForm else validate_fields (fs_fields s))"

section \<open>Snapshots of a page\<close>

datatype (plugins only: code size) interactive_kind =
    LinkElement | ButtonElement | InputElement | SelectElement | TextAreaElement | CheckboxElement | RadioElement | OtherElement

record bounding_box =
  bb_x :: float_text
  bb_y :: float_text
  bb_width :: float_text
  bb_height :: float_text

record frame_metadata =
  fm_frame_id :: browser_frame_id
  fm_parent_frame_id :: "browser_frame_id option"
  fm_url :: "string option"
  fm_name :: "string option"
  fm_title :: "string option"
  fm_selector :: "element_selector option"

record interactive_element =
  ie_id :: string
  ie_kind :: interactive_kind
  ie_selector :: "element_selector option"
  ie_text :: "string option"
  ie_aria_label :: "string option"
  ie_bounding_box :: "bounding_box option"
  ie_frame_id :: "browser_frame_id option"

record interactive_snapshot =
  is_url :: string
  is_title :: string
  is_elements :: "interactive_element list"
  is_frames :: "frame_metadata list"
  is_screenshot_artifact_id :: "artifact_id option"
  is_captured_at :: datetime

text \<open>What the script in the page returns, before its names are checked.\<close>

record raw_element =
  re_id :: string
  re_kind :: string
  re_selector :: "string option"
  re_text :: "string option"
  re_aria_label :: "string option"
  re_bounding_box :: "bounding_box option"
  re_frame_id :: "string option"

record raw_frame =
  rf_frame_id :: string
  rf_parent_frame_id :: "string option"
  rf_url :: "string option"
  rf_name :: "string option"
  rf_title :: "string option"
  rf_selector :: "string option"

record raw_snapshot =
  rs_elements :: "raw_element list"
  rs_frames :: "raw_frame list"

definition interactive_kind_from_str :: "string \<Rightarrow> interactive_kind" where
  "interactive_kind_from_str k =
     (if k = ''link'' then LinkElement
      else if k = ''button'' then ButtonElement
      else if k = ''input'' then InputElement
      else if k = ''select'' then SelectElement
      else if k = ''text_area'' then TextAreaElement
      else if k = ''checkbox'' then CheckboxElement
      else if k = ''radio'' then RadioElement
      else OtherElement)"

definition frame_id_opt :: "string option \<Rightarrow> browser_error + browser_frame_id option" where
  "frame_id_opt x = (case x of None \<Rightarrow> Inr None | Some t \<Rightarrow> map_sum id Some (browser_frame_id_new t))"

definition element_of_raw :: "raw_element \<Rightarrow> browser_error + interactive_element" where
  "element_of_raw r =
     bind_result (frame_id_opt (re_frame_id r)) (\<lambda>f.
     (let selector = (case (f, re_selector r) of
            (Some i, Some t) \<Rightarrow> Some (FrameSelector i (CssSelector t))
          | (None, Some t) \<Rightarrow> Some (CssSelector t)
          | (_, None) \<Rightarrow> None) in
      Inr \<lparr>ie_id = re_id r, ie_kind = interactive_kind_from_str (re_kind r), ie_selector = selector, ie_text = re_text r,
           ie_aria_label = re_aria_label r, ie_bounding_box = re_bounding_box r, ie_frame_id = f\<rparr>))"

definition frame_of_raw :: "raw_frame \<Rightarrow> browser_error + frame_metadata" where
  "frame_of_raw r =
     bind_result (browser_frame_id_new (rf_frame_id r)) (\<lambda>i.
     bind_result (frame_id_opt (rf_parent_frame_id r)) (\<lambda>p.
     Inr \<lparr>fm_frame_id = i, fm_parent_frame_id = p, fm_url = rf_url r, fm_name = rf_name r, fm_title = rf_title r,
          fm_selector = map_option CssSelector (rf_selector r)\<rparr>))"

text \<open>\<open>collect\<close> into a \<open>Result\<close> stops at the first error.\<close>

fun collect_results :: "('a \<Rightarrow> 'e + 'b) \<Rightarrow> 'a list \<Rightarrow> 'e + 'b list" where
  "collect_results f [] = Inr []"
| "collect_results f (x # xs) = bind_result (f x) (\<lambda>y. bind_result (collect_results f xs) (\<lambda>ys. Inr (y # ys)))"

definition snapshot_parts :: "raw_snapshot \<Rightarrow> browser_error + interactive_element list \<times> frame_metadata list" where
  "snapshot_parts r =
     bind_result (collect_results element_of_raw (rs_elements r)) (\<lambda>es.
     bind_result (collect_results frame_of_raw (rs_frames r)) (\<lambda>fs. Inr (es, fs)))"


section \<open>Uploads\<close>

record upload_input =
  ui_url :: string
  ui_selector :: element_selector
  ui_local_path :: string
  ui_filename :: "string option"
  ui_content_type :: "string option"
  ui_size_bytes :: "nat option"

definition validate_upload :: "upload_input \<Rightarrow> browser_error + unit" where
  "validate_upload i =
     bind_result (nonblank (ui_url i) EmptyUrl) (\<lambda>_.
     bind_result (validate_selector (ui_selector i)) (\<lambda>_.
     if ui_local_path i = [] then Inl (InvalidConfig ''upload local_path cannot be empty'')
     else (case ui_filename i of
         Some f \<Rightarrow> nonblank f (InvalidConfig ''upload filename cannot be empty'')
       | None \<Rightarrow> Inr ())))"

record upload_audit =
  ua_url :: string
  ua_selector :: element_selector
  ua_local_path :: string
  ua_filename :: string
  ua_content_type :: "string option"
  ua_size_bytes :: "nat option"
  ua_requested_at :: datetime

definition upload_audit_invalid :: "datetime \<Rightarrow> upload_audit" where
  "upload_audit_invalid at =
     \<lparr>ua_url = [], ua_selector = CssSelector ''invalid'', ua_local_path = [], ua_filename = [], ua_content_type = None,
      ua_size_bytes = None, ua_requested_at = at\<rparr>"

text \<open>\<open>Path::file_name\<close>: the last name of a path, none where it ends in two dots.\<close>

definition path_file_name :: "string \<Rightarrow> string option" where
  "path_file_name t =
     (case filter (\<lambda>w. w \<noteq> [] \<and> w \<noteq> ''.'') (segments t) of
        [] \<Rightarrow> None
      | w # ws \<Rightarrow> if last (w # ws) = ''..'' then None else Some (last (w # ws)))"

definition infer_upload_filename :: "string \<Rightarrow> string" where
  "infer_upload_filename p =
     (case path_file_name p of
        Some f \<Rightarrow> if trim f \<noteq> [] then f else ''upload.bin''
      | None \<Rightarrow> ''upload.bin'')"

definition upload_audit_data :: "upload_input \<Rightarrow> datetime \<Rightarrow> browser_error + upload_audit" where
  "upload_audit_data i at =
     bind_result (validate_upload i) (\<lambda>_.
     Inr \<lparr>ua_url = trim (ui_url i), ua_selector = ui_selector i, ua_local_path = ui_local_path i,
          ua_filename = (case ui_filename i of Some f \<Rightarrow> f | None \<Rightarrow> infer_upload_filename (ui_local_path i)),
          ua_content_type = ui_content_type i, ua_size_bytes = ui_size_bytes i, ua_requested_at = at\<rparr>)"

datatype (plugins only: code size) upload_decision = UploadAsk | UploadDeny

record upload_requirement =
  ur_decision :: upload_decision
  ur_reason :: string
  ur_audit_data :: upload_audit

definition approval_requirement :: "upload_input \<Rightarrow> datetime \<Rightarrow> upload_requirement" where
  "approval_requirement i at =
     (case upload_audit_data i at of
        Inr audit \<Rightarrow> \<lparr>ur_decision = UploadAsk,
          ur_reason = ''browser upload exposes a local file to a web page and requires human approval'', ur_audit_data = audit\<rparr>
      | Inl e \<Rightarrow> \<lparr>ur_decision = UploadDeny, ur_reason = ''invalid browser upload input: '' @ browser_message e,
          ur_audit_data = upload_audit_invalid at\<rparr>)"

definition requires_human_approval :: "upload_requirement \<Rightarrow> bool" where
  "requires_human_approval r \<longleftrightarrow> ur_decision r = UploadAsk"

section \<open>Network traces\<close>

record redaction_policy =
  rd_redact_auth_headers :: bool
  rd_redacted_value :: string

definition REDACTED :: string where "REDACTED = ''[REDACTED]''"

definition redaction_policy_default :: redaction_policy where
  "redaction_policy_default = \<lparr>rd_redact_auth_headers = True, rd_redacted_value = REDACTED\<rparr>"

record trace_policy =
  tr_capture_enabled :: bool
  tr_max_entries :: nat
  tr_redaction :: redaction_policy

definition trace_policy_default :: trace_policy where
  "trace_policy_default = \<lparr>tr_capture_enabled = True, tr_max_entries = 200, tr_redaction = redaction_policy_default\<rparr>"

record network_header =
  nh_name :: string
  nh_value :: string

definition sensitive_headers :: "string list" where
  "sensitive_headers =
     [''authorization'', ''proxy-authorization'', ''cookie'', ''set-cookie'', ''x-api-key'', ''x-auth-token'', ''x-csrf-token'']"

definition is_sensitive_network_header :: "string \<Rightarrow> bool" where
  "is_sensitive_network_header n \<longleftrightarrow> to_ascii_lowercase (trim n) \<in> set sensitive_headers"

definition should_redact_header :: "trace_policy \<Rightarrow> string \<Rightarrow> bool" where
  "should_redact_header y n \<longleftrightarrow> rd_redact_auth_headers (tr_redaction y) \<and> is_sensitive_network_header n"

definition redact_headers :: "trace_policy \<Rightarrow> network_header list \<Rightarrow> network_header list" where
  "redact_headers y hs =
     map (\<lambda>h. if should_redact_header y (nh_name h) then h\<lparr>nh_value := rd_redacted_value (tr_redaction y)\<rparr> else h) hs"

record network_entry =
  ne_request_id :: string
  ne_method :: string
  ne_url :: string
  ne_request_headers :: "network_header list"
  ne_response_status :: "nat option"
  ne_response_headers :: "network_header list"
  ne_started_at :: datetime
  ne_finished_at :: "datetime option"

record network_trace =
  nt_artifact_id :: artifact_id
  nt_source_url :: string
  nt_entries :: "network_entry list"
  nt_captured_at :: datetime
  nt_redaction_policy :: redaction_policy

definition trace_descriptor :: "network_trace \<Rightarrow> string option \<Rightarrow> artifact_descriptor" where
  "trace_descriptor t action =
     \<lparr>art_id = nt_artifact_id t, art_kind = ToolResult, art_title = Some (''Network trace for '' @ nt_source_url t),
      art_source_uri = Some (nt_source_url t), art_mime_type = Some ''application/har+json'',
      art_metadata = json_object [(''source'', JString ''browser_network_trace''), (''source_action'', opt_json action),
        (''entries'', json_nat (length (nt_entries t))),
        (''auth_headers_redacted'', JBool (rd_redact_auth_headers (nt_redaction_policy t)))],
      art_created_at = nt_captured_at t\<rparr>"

section \<open>Artifacts of pages and downloads\<close>

record dom_snapshot =
  ds_artifact_id :: artifact_id
  ds_source_url :: string
  ds_title :: "string option"
  ds_mime_type :: string
  ds_size_bytes :: nat
  ds_sha256 :: string
  ds_captured_at :: datetime

definition dom_snapshot_from_html ::
    "(string \<Rightarrow> string) \<Rightarrow> artifact_id \<Rightarrow> string \<Rightarrow> string \<Rightarrow> string \<Rightarrow> datetime \<Rightarrow> browser_error + dom_snapshot" where
  "dom_snapshot_from_html sha i url title html at =
     bind_result (nonblank html (InvalidConfig ''dom snapshot html cannot be empty'')) (\<lambda>_.
     Inr \<lparr>ds_artifact_id = i, ds_source_url = url, ds_title = (if trim title = [] then None else Some title),
          ds_mime_type = ''text/html'', ds_size_bytes = length html, ds_sha256 = sha html, ds_captured_at = at\<rparr>)"

definition dom_snapshot_descriptor :: "dom_snapshot \<Rightarrow> string option \<Rightarrow> artifact_descriptor" where
  "dom_snapshot_descriptor d action =
     \<lparr>art_id = ds_artifact_id d, art_kind = WebPage,
      art_title = Some (''DOM snapshot of '' @ (case ds_title d of Some t \<Rightarrow> t | None \<Rightarrow> ds_source_url d)),
      art_source_uri = Some (ds_source_url d), art_mime_type = Some (ds_mime_type d),
      art_metadata = json_object [(''source'', JString ''browser_dom_snapshot''), (''source_action'', opt_json action),
        (''size_bytes'', json_nat (ds_size_bytes d)), (''sha256'', JString (ds_sha256 d))],
      art_created_at = ds_captured_at d\<rparr>"

record download_input =
  dl_url :: string
  dl_suggested_filename :: "string option"
  dl_content_type :: "string option"

definition validate_download :: "download_input \<Rightarrow> browser_error + unit" where
  "validate_download i =
     bind_result (nonblank (dl_url i) EmptyUrl) (\<lambda>_.
     case dl_suggested_filename i of
       Some f \<Rightarrow> nonblank f (InvalidConfig ''download suggested_filename cannot be empty'')
     | None \<Rightarrow> Inr ())"

record download_artifact =
  da_artifact_id :: artifact_id
  da_source_url :: string
  da_filename :: string
  da_content_type :: string
  da_size_bytes :: nat
  da_sha256 :: string
  da_downloaded_at :: datetime

definition download_from_bytes ::
    "(string \<Rightarrow> string) \<Rightarrow> artifact_id \<Rightarrow> string \<Rightarrow> string \<Rightarrow> string \<Rightarrow> string \<Rightarrow> datetime \<Rightarrow> browser_error + download_artifact" where
  "download_from_bytes sha i url filename content_type bytes at =
     bind_result (nonblank url EmptyUrl) (\<lambda>_.
     bind_result (nonblank filename (InvalidConfig ''download filename cannot be empty'')) (\<lambda>_.
     bind_result (nonblank content_type (InvalidConfig ''download content_type cannot be empty'')) (\<lambda>_.
     Inr \<lparr>da_artifact_id = i, da_source_url = url, da_filename = filename, da_content_type = content_type,
          da_size_bytes = length bytes, da_sha256 = sha bytes, da_downloaded_at = at\<rparr>)))"

definition download_kind :: "string \<Rightarrow> artifact_kind" where
  "download_kind t = (if t = ''application/pdf'' then Pdf else if starts_with t ''image/'' then Image else Document)"

definition download_descriptor :: "(datetime \<Rightarrow> json) \<Rightarrow> download_artifact \<Rightarrow> artifact_descriptor" where
  "download_descriptor tj d =
     \<lparr>art_id = da_artifact_id d, art_kind = download_kind (da_content_type d), art_title = Some (da_filename d),
      art_source_uri = Some (da_source_url d), art_mime_type = Some (da_content_type d),
      art_metadata = json_object [(''filename'', JString (da_filename d)), (''content_type'', JString (da_content_type d)),
        (''size_bytes'', json_nat (da_size_bytes d)), (''sha256'', JString (da_sha256 d)), (''downloaded_at'', tj (da_downloaded_at d))],
      art_created_at = da_downloaded_at d\<rparr>"

record download_result =
  do_download :: download_artifact
  do_artifact :: artifact_descriptor

definition download_result_from_bytes ::
    "(string \<Rightarrow> string) \<Rightarrow> (datetime \<Rightarrow> json) \<Rightarrow> artifact_id \<Rightarrow> string \<Rightarrow> string \<Rightarrow> string \<Rightarrow> string \<Rightarrow> datetime \<Rightarrow>
     browser_error + download_result" where
  "download_result_from_bytes sha tj i url filename content_type bytes at =
     bind_result (download_from_bytes sha i url filename content_type bytes at) (\<lambda>d.
     Inr \<lparr>do_download = d, do_artifact = download_descriptor tj d\<rparr>)"

section \<open>What holds of them\<close>

lemma sensitive_headers_hidden:
  assumes "rd_redact_auth_headers (tr_redaction y)" and "h \<in> set (redact_headers y hs)" and "is_sensitive_network_header (nh_name h)"
  shows "nh_value h = rd_redacted_value (tr_redaction y)"
  using assms by (auto simp: redact_headers_def should_redact_header_def)

lemma other_headers_kept:
  "filter (\<lambda>h. \<not> should_redact_header y (nh_name h)) (redact_headers y hs) = filter (\<lambda>h. \<not> should_redact_header y (nh_name h)) hs"
  by (induction hs) (auto simp: redact_headers_def)

lemma redaction_idempotent: "redact_headers y (redact_headers y hs) = redact_headers y hs"
  by (auto simp: redact_headers_def)

lemma upload_never_allowed:
  "requires_human_approval (approval_requirement i at) \<longleftrightarrow> validate_upload i = Inr ()"
  by (cases "validate_upload i") (auto simp: approval_requirement_def requires_human_approval_def upload_audit_data_def)

text \<open>The name that the person is shown need not be that of the file that is uploaded.\<close>

lemma upload_name_is_claimed:
  assumes "ui_filename i = Some f" and "validate_upload i = Inr ()"
  shows "ua_filename (ur_audit_data (approval_requirement i at)) = f"
  using assms by (simp add: approval_requirement_def upload_audit_data_def)

end
