(* ===== verification/Browser_Executor.thy ===== *)
theory Browser_Executor
  imports Browser_Actions
begin
text \<open>
  The executor of browser actions, \<open>browser-kernel-core/src/lib.rs\<close>. The browser is driven through
  \<open>chromiumoxide\<close>: each of its calls that the code makes is a field of \<open>browser_driver\<close>, a program over
  the world of the browser that may fail with a text. The clocks, the artifact store, SHA-256, the JSON
  of the inputs and of the values that only serde writes, and the script that collects the elements of
  a page are fields of \<open>browser_executor\<close> and \<open>browser_codec\<close>.
\<close>

section \<open>The driver and the executor\<close>

datatype (plugins only: code size) image_format = JpegImage | PngImage

record ('w, 'pg, 'el, 'v) browser_driver =
  bd_new_page :: "string \<Rightarrow> ('w, string, 'pg) prog"
  bd_goto :: "'pg \<Rightarrow> string \<Rightarrow> ('w, string, unit) prog"
  bd_evaluate :: "'pg \<Rightarrow> string \<Rightarrow> ('w, string, 'v) prog"
  bd_content :: "'pg \<Rightarrow> ('w, string, string) prog"
  bd_find_element :: "'pg \<Rightarrow> string \<Rightarrow> ('w, string, 'el) prog"
  bd_screenshot :: "'pg \<Rightarrow> image_format \<Rightarrow> bool \<Rightarrow> ('w, string, string) prog"
  bd_click :: "'el \<Rightarrow> ('w, string, unit) prog"
  bd_press_key :: "'el \<Rightarrow> string \<Rightarrow> ('w, string, unit) prog"
  bd_type_str :: "'el \<Rightarrow> string \<Rightarrow> ('w, string, unit) prog"
  bd_element_screenshot :: "'el \<Rightarrow> image_format \<Rightarrow> ('w, string, string) prog"
  bd_text_value :: "'v \<Rightarrow> string + string"
  bd_texts_value :: "'v \<Rightarrow> string + string list"
  bd_json_value :: "'v \<Rightarrow> string + json"
  bd_snapshot_value :: "'v \<Rightarrow> string + raw_snapshot"

record ('w, 'pg, 'el, 'v) browser_executor =
  be_config :: browser_config
  be_browser :: "('w, 'pg, 'el, 'v) browser_driver option"
  be_store :: "(artifact_descriptor \<Rightarrow> ('w, string, unit) prog) option"
  be_now :: "'w \<Rightarrow> datetime \<times> 'w"
  be_instant :: "'w \<Rightarrow> nat \<times> 'w"
  be_sleep :: "nat \<Rightarrow> 'w \<Rightarrow> 'w"
  be_sha256 :: "string \<Rightarrow> string"
  be_time_json :: "datetime \<Rightarrow> json"
  be_wait_debug :: "wait_until \<Rightarrow> string"
  be_permission_debug :: "permission_kind \<Rightarrow> string"
  be_elements_js :: string
  be_snapshot_json :: "interactive_snapshot \<Rightarrow> string + json"
  be_audit_json :: "upload_audit \<Rightarrow> json"
  be_dialog_json :: "dialog_event \<Rightarrow> dialog_resolution \<Rightarrow> json \<times> json"
  be_permission_json :: "permission_prompt \<Rightarrow> permission_resolution \<Rightarrow> json \<times> json"

section \<open>The inputs of the actions\<close>

record open_url_input =
  ou_url :: string
  ou_take_snapshot :: bool

record extract_content_input =
  ec_url :: string
  ec_save_dom_snapshot :: bool

record page_snapshot_input =
  pn_url :: string

record click_input =
  ck_url :: string
  ck_selector :: string

record type_text_input =
  tt_url :: string
  tt_selector :: "string option"
  tt_text :: string
  tt_clear_first :: bool

record form_field =
  bf_selector :: string
  bf_value :: string

record fill_form_input =
  fi_url :: string
  fi_fields :: "form_field list"
  fi_submit :: bool

record select_option_input =
  so_url :: string
  so_selector :: string
  so_value :: string

datatype (plugins only: code size) scroll_direction = ScrollUp | ScrollDown | ScrollToElement

record scroll_input =
  sl_url :: string
  sl_direction :: scroll_direction
  sl_amount :: "nat option"
  sl_target_selector :: "string option"

record press_key_input =
  pk_url :: string
  pk_key :: string
  pk_selector :: "string option"

record execute_js_input =
  xj_url :: string
  xj_script :: string

record wait_input =
  wt_url :: string
  wt_selector :: string
  wt_timeout_ms :: nat
  wt_wait_until :: wait_until

record screenshot_input =
  sh_url :: string
  sh_full_page :: bool
  sh_quality :: "nat option"
  sh_element_selector :: "string option"

record dialog_input =
  gi_page_id :: "browser_page_id option"
  gi_kind :: dialog_kind
  gi_message :: string
  gi_default_prompt_text :: "string option"

record permission_input =
  pi_page_id :: "browser_page_id option"
  pi_origin :: string
  pi_permission :: permission_kind

definition dialog_event_of :: "dialog_input \<Rightarrow> datetime \<Rightarrow> dialog_event" where
  "dialog_event_of i at =
     \<lparr>de_page_id = gi_page_id i, de_kind = gi_kind i, de_message = gi_message i,
      de_default_prompt_text = gi_default_prompt_text i, de_occurred_at = at\<rparr>"

definition permission_prompt_of :: "permission_input \<Rightarrow> datetime \<Rightarrow> permission_prompt" where
  "permission_prompt_of i at =
     \<lparr>pp_page_id = pi_page_id i, pp_origin = pi_origin i, pp_permission = pi_permission i, pp_occurred_at = at\<rparr>"

text \<open>\<open>serde_json::from_value\<close>; the inputs of downloads and uploads have the fields of their contracts.\<close>

record browser_codec =
  cd_open_url :: "json \<Rightarrow> string + open_url_input"
  cd_extract_content :: "json \<Rightarrow> string + extract_content_input"
  cd_page_snapshot :: "json \<Rightarrow> string + page_snapshot_input"
  cd_click :: "json \<Rightarrow> string + click_input"
  cd_type_text :: "json \<Rightarrow> string + type_text_input"
  cd_fill_form :: "json \<Rightarrow> string + fill_form_input"
  cd_select_option :: "json \<Rightarrow> string + select_option_input"
  cd_scroll :: "json \<Rightarrow> string + scroll_input"
  cd_press_key :: "json \<Rightarrow> string + press_key_input"
  cd_execute_js :: "json \<Rightarrow> string + execute_js_input"
  cd_wait :: "json \<Rightarrow> string + wait_input"
  cd_screenshot :: "json \<Rightarrow> string + screenshot_input"
  cd_download :: "json \<Rightarrow> string + download_input"
  cd_upload :: "json \<Rightarrow> string + upload_input"
  cd_dialog :: "json \<Rightarrow> string + dialog_input"
  cd_permission :: "json \<Rightarrow> string + permission_input"

section \<open>Scripts\<close>

definition quote_char :: char where "quote_char = CHR 0x27"

definition quoted :: "string \<Rightarrow> string" where
  "quoted t = quote_char # t @ [quote_char]"

definition replace_char :: "char \<Rightarrow> string \<Rightarrow> string \<Rightarrow> string" where
  "replace_char c u t = concat (map (\<lambda>x. if x = c then u else [x]) t)"

text \<open>\<open>t.replace\<close> of backslashes by two of them, and then of quotes by a backslash and the quote.\<close>

definition escape_js :: "string \<Rightarrow> string" where
  "escape_js t = replace_char quote_char [CHR 0x5C, quote_char] (replace_char (CHR 0x5C) [CHR 0x5C, CHR 0x5C] t)"

definition PAGE_TITLE_JS :: string where "PAGE_TITLE_JS = ''document.title || '' @ quoted []"
definition PAGE_URL_JS :: string where "PAGE_URL_JS = ''window.location.href || '' @ quoted []"
definition BODY_TEXT_JS :: string where "BODY_TEXT_JS = ''document.body ? document.body.innerText : '' @ quoted []"
definition LINK_EXTRACTION_JS :: string where
  "LINK_EXTRACTION_JS = ''Array.from(document.querySelectorAll('' @ quoted ''a[href]'' @ '')).map(a => a.href).filter(Boolean)''"
definition IMAGE_EXTRACTION_JS :: string where
  "IMAGE_EXTRACTION_JS = ''Array.from(document.querySelectorAll('' @ quoted ''img[src]'' @ '')).map(img => img.src).filter(Boolean)''"

definition script_line :: "nat \<Rightarrow> string \<Rightarrow> string" where
  "script_line n t = CHR 0x0A # replicate n (CHR '' '') @ t"

definition select_head :: string where
  "select_head = ''(() => {'' @ script_line 16 ''const sel = document.querySelector(''"
definition select_middle :: string where
  "select_middle = '');'' @ script_line 16 (''if (!sel) throw new Error('' @ quoted ''Select element not found'' @ '');'') @
     script_line 16 ''sel.value = ''"
definition select_tail :: string where
  "select_tail = '';'' @ script_line 16 (''sel.dispatchEvent(new Event('' @ quoted ''change'' @ '', { bubbles: true }));'') @
     script_line 16 ''return sel.value;'' @ script_line 12 ''})()''"

definition select_script :: "string \<Rightarrow> string \<Rightarrow> string" where
  "select_script selector value = select_head @ quoted (escape_js selector) @ select_middle @ quoted (escape_js value) @ select_tail"

definition scroll_by_script :: "bool \<Rightarrow> nat \<Rightarrow> string" where
  "scroll_by_script up n = ''window.scrollBy(0, '' @ (if up then ''-'' else []) @ decimal n @ '')''"

definition scroll_to_script :: "string \<Rightarrow> string" where
  "scroll_to_script selector =
     ''(() => { const el = document.querySelector('' @ quoted (escape_js selector) @
     ''); if (el) el.scrollIntoView({behavior:'' @ quoted ''smooth'' @ ''}); return !!el; })()''"

definition key_script :: "string \<Rightarrow> string" where
  "key_script key = ''document.dispatchEvent(new KeyboardEvent('' @ quoted ''keydown'' @ '', {key: '' @ quoted (escape_js key) @ ''}))''"


section \<open>Steps that the actions share\<close>

definition or_default :: "('w, 'e, 'a) prog \<Rightarrow> 'a \<Rightarrow> ('w, 'f, 'a) prog" where
  "or_default p d = (\<lambda>s. case p s of (Inr x, s') \<Rightarrow> (Inr x, s') | (Inl _, s') \<Rightarrow> (Inr d, s'))"

definition invalid :: "browser_error + 'a \<Rightarrow> ('w, executor_error, 'a) prog" where
  "invalid r = lift (parsed (map_sum browser_message id r))"

definition to_browser :: "('w, string, 'a) prog \<Rightarrow> ('w, browser_error, 'a) prog" where
  "to_browser p = (\<lambda>s. case p s of (Inl e, s') \<Rightarrow> (Inl (ActionFailed e), s') | (Inr x, s') \<Rightarrow> (Inr x, s'))"

definition read_clock_at :: "('w, 'pg, 'el, 'v) browser_executor \<Rightarrow> ('w, 'e, datetime) prog" where
  "read_clock_at E = (\<lambda>s. let (t, s') = be_now E s in (Inr t, s'))"

definition read_instant :: "('w, 'pg, 'el, 'v) browser_executor \<Rightarrow> ('w, 'e, nat) prog" where
  "read_instant E = (\<lambda>s. let (t, s') = be_instant E s in (Inr t, s'))"

definition put_in_store :: "('w, 'pg, 'el, 'v) browser_executor \<Rightarrow> artifact_descriptor \<Rightarrow> ('w, string, unit) prog" where
  "put_in_store E d = (case be_store E of None \<Rightarrow> ret () | Some put \<Rightarrow> put d)"

definition browser_validate_url :: "string \<Rightarrow> browser_error + string" where
  "browser_validate_url url = (let t = trim url in if t = [] then Inl EmptyUrl else Inr t)"

definition required_selector :: "string \<Rightarrow> browser_error + string" where
  "required_selector t = (let sel = trim t in if sel = [] then Inl EmptySelector else Inr sel)"

definition visit :: "('w, 'pg, 'el, 'v) browser_driver \<Rightarrow> string \<Rightarrow> ('w, executor_error, 'pg) prog" where
  "visit D url = andThen (to_failed id (bd_new_page D ''about:blank'')) (\<lambda>pg.
     andThen (to_failed id (bd_goto D pg url)) (\<lambda>_. ret pg))"

definition page_string :: "('w, 'pg, 'el, 'v) browser_driver \<Rightarrow> 'pg \<Rightarrow> string \<Rightarrow> ('w, browser_error, string) prog" where
  "page_string D pg js = andThen (to_browser (bd_evaluate D pg js)) (\<lambda>v. lift (map_sum ActionFailed id (bd_text_value D v)))"

definition page_string_array :: "('w, 'pg, 'el, 'v) browser_driver \<Rightarrow> 'pg \<Rightarrow> string \<Rightarrow> ('w, browser_error, string list) prog" where
  "page_string_array D pg js = andThen (to_browser (bd_evaluate D pg js)) (\<lambda>v. lift (map_sum ActionFailed id (bd_texts_value D v)))"

definition page_title :: "('w, 'pg, 'el, 'v) browser_driver \<Rightarrow> 'pg \<Rightarrow> ('w, browser_error, string) prog" where
  "page_title D pg = page_string D pg PAGE_TITLE_JS"

definition page_url :: "('w, 'pg, 'el, 'v) browser_driver \<Rightarrow> 'pg \<Rightarrow> ('w, browser_error, string) prog" where
  "page_url D pg = page_string D pg PAGE_URL_JS"

definition page_body_text :: "('w, 'pg, 'el, 'v) browser_driver \<Rightarrow> 'pg \<Rightarrow> ('w, browser_error, string) prog" where
  "page_body_text D pg = page_string D pg BODY_TEXT_JS"

definition page_interactive_parts ::
    "('w, 'pg, 'el, 'v) browser_executor \<Rightarrow> ('w, 'pg, 'el, 'v) browser_driver \<Rightarrow> 'pg \<Rightarrow>
     ('w, browser_error, interactive_element list \<times> frame_metadata list) prog" where
  "page_interactive_parts E D pg =
     andThen (to_browser (bd_evaluate D pg (be_elements_js E))) (\<lambda>v.
     andThen (lift (map_sum ActionFailed id (bd_snapshot_value D v))) (\<lambda>raw. lift (snapshot_parts raw)))"

definition current_url :: "('w, 'pg, 'el, 'v) browser_driver \<Rightarrow> 'pg \<Rightarrow> string \<Rightarrow> ('w, executor_error, string) prog" where
  "current_url D pg url = or_default (page_url D pg) url"

definition find_or_fail ::
    "('w, 'pg, 'el, 'v) browser_driver \<Rightarrow> string \<Rightarrow> 'pg \<Rightarrow> string \<Rightarrow> ('w, executor_error, 'el) prog" where
  "find_or_fail D what pg sel =
     to_failed (\<lambda>e. what @ '' not found with selector '' @ quoted sel @ '': '' @ e) (bd_find_element D pg sel)"

definition json_result :: "action_status \<Rightarrow> string \<Rightarrow> json \<Rightarrow> datetime \<Rightarrow> action_result" where
  "json_result st summary payload at = \<lparr>res_status = st, res_payload = PJson payload, res_summary = summary, res_completed_at = at\<rparr>"

text \<open>The result of an action on an element: the clock is read for the payload and for the completion.\<close>

definition interacted ::
    "('w, 'pg, 'el, 'v) browser_executor \<Rightarrow> string \<Rightarrow> string \<Rightarrow> string \<Rightarrow> (string \<times> json) list \<Rightarrow> ('w, executor_error, action_result) prog" where
  "interacted E summary url description extra =
     andThen (read_clock_at E) (\<lambda>t. andThen (read_clock_at E) (\<lambda>at.
     ret (json_result StCompleted summary
       (json_object ([(''success'', JBool True), (''url'', JString url), (''element_description'', JString description),
          (''interacted_at'', be_time_json E t)] @ extra)) at)))"

definition timestamp_millis :: "datetime \<Rightarrow> string" where
  "timestamp_millis at = (let n = at div 1000000 in if n < 0 then ''-'' @ decimal (nat (- n)) else decimal (nat n))"

section \<open>The actions\<close>

definition open_url ::
    "('w, 'pg, 'el, 'v) browser_executor \<Rightarrow> ('w, 'pg, 'el, 'v) browser_driver \<Rightarrow> open_url_input \<Rightarrow> ('w, executor_error, action_result) prog" where
  "open_url E D i =
     andThen (invalid (browser_validate_url (ou_url i))) (\<lambda>url.
     andThen (visit D url) (\<lambda>pg.
     andThen (or_default (page_title D pg) []) (\<lambda>title.
     andThen (current_url D pg url) (\<lambda>current.
     andThen (if ou_take_snapshot i then andThen (to_failed id (bd_content D pg)) (\<lambda>h. ret (Some h)) else ret None) (\<lambda>html.
     andThen (or_default (page_body_text D pg) []) (\<lambda>body.
     andThen (read_clock_at E) (\<lambda>t.
     andThen (read_clock_at E) (\<lambda>at.
     ret (json_result StCompleted (''Opened URL: '' @ current)
       (json_object [(''url'', json_object [(''0'', JString current)]), (''title'', JString title), (''content'', JString body),
          (''html_source'', opt_json html), (''captured_at'', be_time_json E t), (''artifact_id'', JNull)]) at)))))))))"

definition save_dom_snapshot ::
    "('w, 'pg, 'el, 'v) browser_executor \<Rightarrow> ('w, 'pg, 'el, 'v) browser_driver \<Rightarrow> 'pg \<Rightarrow> string \<Rightarrow> string \<Rightarrow> datetime \<Rightarrow>
     ('w, executor_error, artifact_id) prog" where
  "save_dom_snapshot E D pg current title at =
     andThen (to_failed id (bd_content D pg)) (\<lambda>html.
     andThen (to_failed browser_message (lift (dom_snapshot_from_html (be_sha256 E)
       (ArtifactId (''dom-snapshot-'' @ timestamp_millis at)) current title html at))) (\<lambda>d.
     andThen (to_failed (\<lambda>e. ''failed to store dom snapshot artifact: '' @ e)
       (put_in_store E (dom_snapshot_descriptor d (Some ''browser.extract_content'')))) (\<lambda>_.
     ret (ds_artifact_id d))))"

definition extract_content ::
    "('w, 'pg, 'el, 'v) browser_executor \<Rightarrow> ('w, 'pg, 'el, 'v) browser_driver \<Rightarrow> extract_content_input \<Rightarrow> ('w, executor_error, action_result) prog" where
  "extract_content E D i =
     andThen (invalid (browser_validate_url (ec_url i))) (\<lambda>url.
     andThen (visit D url) (\<lambda>pg.
     andThen (current_url D pg url) (\<lambda>current.
     andThen (or_default (page_title D pg) []) (\<lambda>title.
     andThen (or_default (page_body_text D pg) []) (\<lambda>body.
     andThen (or_default (page_string_array D pg LINK_EXTRACTION_JS) []) (\<lambda>links.
     andThen (or_default (page_string_array D pg IMAGE_EXTRACTION_JS) []) (\<lambda>images.
     andThen (read_clock_at E) (\<lambda>t.
     andThen (if ec_save_dom_snapshot i then andThen (save_dom_snapshot E D pg current title t) (\<lambda>a. ret (Some a)) else ret None) (\<lambda>saved.
     andThen (read_clock_at E) (\<lambda>at.
     ret (json_result StCompleted (''Extracted content from URL: '' @ current)
       (json_object [(''source_url'', json_object [(''0'', JString current)]), (''title'', JString title), (''text'', JString body),
          (''links'', JArray (map JString links)), (''images'', JArray (map JString images)),
          (''dom_snapshot_artifact_id'', opt_json (map_option artifact_text saved)), (''extracted_at'', be_time_json E t)]) at)))))))))))"

definition get_interactive_snapshot ::
    "('w, 'pg, 'el, 'v) browser_executor \<Rightarrow> ('w, 'pg, 'el, 'v) browser_driver \<Rightarrow> page_snapshot_input \<Rightarrow> ('w, executor_error, action_result) prog" where
  "get_interactive_snapshot E D i =
     andThen (invalid (browser_validate_url (pn_url i))) (\<lambda>url.
     andThen (visit D url) (\<lambda>pg.
     andThen (current_url D pg url) (\<lambda>current.
     andThen (or_default (page_title D pg) []) (\<lambda>title.
     andThen (to_failed browser_message (page_interactive_parts E D pg)) (\<lambda>(es, fs).
     andThen (read_clock_at E) (\<lambda>t.
     andThen (to_failed id (lift (be_snapshot_json E \<lparr>is_url = current, is_title = title, is_elements = es, is_frames = fs,
         is_screenshot_artifact_id = None, is_captured_at = t\<rparr>))) (\<lambda>payload.
     andThen (read_clock_at E) (\<lambda>at.
     ret (json_result StCompleted (''Captured interactive snapshot for URL: '' @ current @ '' ('' @ decimal (length es) @ '' elements)'')
       payload at)))))))))"

definition click_element ::
    "('w, 'pg, 'el, 'v) browser_executor \<Rightarrow> ('w, 'pg, 'el, 'v) browser_driver \<Rightarrow> click_input \<Rightarrow> ('w, executor_error, action_result) prog" where
  "click_element E D i =
     andThen (invalid (browser_validate_url (ck_url i))) (\<lambda>url.
     andThen (invalid (required_selector (ck_selector i))) (\<lambda>sel.
     andThen (visit D url) (\<lambda>pg.
     andThen (current_url D pg url) (\<lambda>current.
     andThen (find_or_fail D ''Element'' pg sel) (\<lambda>el.
     andThen (to_failed id (bd_click D el)) (\<lambda>_.
     interacted E (''Clicked element '' @ quoted sel @ '' on page: '' @ current) current (''Clicked element at selector: '' @ sel) []))))))"

definition type_text ::
    "('w, 'pg, 'el, 'v) browser_executor \<Rightarrow> ('w, 'pg, 'el, 'v) browser_driver \<Rightarrow> type_text_input \<Rightarrow> ('w, executor_error, action_result) prog" where
  "type_text E D i =
     andThen (invalid (browser_validate_url (tt_url i))) (\<lambda>url.
     andThen (visit D url) (\<lambda>pg.
     andThen (current_url D pg url) (\<lambda>current.
     (case tt_selector i of
        None \<Rightarrow> andThen (to_failed (\<lambda>e. ''Could not get active element: '' @ e) (bd_evaluate D pg ''document.activeElement'')) (\<lambda>_.
          invalid (Inl (ActionFailed ''type_text requires a selector when no element is focused'')))
      | Some t \<Rightarrow>
          andThen (invalid (required_selector t)) (\<lambda>sel.
          andThen (find_or_fail D ''Element'' pg sel) (\<lambda>el.
          andThen (to_failed id (bd_click D el)) (\<lambda>_.
          andThen (if tt_clear_first i
            then andThen (to_failed id (bd_press_key D el ''Meta+a'')) (\<lambda>_. to_failed id (bd_press_key D el ''Backspace''))
            else ret ()) (\<lambda>_.
          andThen (to_failed id (bd_type_str D el (tt_text i))) (\<lambda>_.
          interacted E (''Typed text into element on page: '' @ current) current
            (''Typed '' @ quoted (tt_text i) @ '' into element at selector: '' @ t) [])))))))))"


fun fill_fields :: "('w, 'pg, 'el, 'v) browser_driver \<Rightarrow> 'pg \<Rightarrow> form_field list \<Rightarrow> ('w, executor_error, unit) prog" where
  "fill_fields D pg [] = ret ()"
| "fill_fields D pg (f # fs) =
     andThen (invalid (required_selector (bf_selector f))) (\<lambda>sel.
     andThen (find_or_fail D ''Form field'' pg sel) (\<lambda>el.
     andThen (to_failed id (bd_click D el)) (\<lambda>_.
     andThen (to_failed id (bd_press_key D el ''Meta+a'')) (\<lambda>_.
     andThen (to_failed id (bd_type_str D el (bf_value f))) (\<lambda>_.
     fill_fields D pg fs)))))"

definition submit_selectors :: "string list" where
  "submit_selectors = [''button[type='' @ quoted ''submit'' @ '']'', ''input[type='' @ quoted ''submit'' @ '']'', ''button'']"

text \<open>The first button that is found and can be clicked submits the form.\<close>

fun try_submit :: "('w, 'pg, 'el, 'v) browser_driver \<Rightarrow> 'pg \<Rightarrow> string list \<Rightarrow> ('w, executor_error, bool) prog" where
  "try_submit D pg [] = ret False"
| "try_submit D pg (sel # sels) =
     andThen (or_default (andThen (bd_find_element D pg sel) (\<lambda>el. andThen (bd_click D el) (\<lambda>_. ret True))) False) (\<lambda>submitted.
     if submitted then ret True else try_submit D pg sels)"

definition press_enter_on_last ::
    "('w, 'pg, 'el, 'v) browser_driver \<Rightarrow> 'pg \<Rightarrow> form_field list \<Rightarrow> ('w, executor_error, unit) prog" where
  "press_enter_on_last D pg fs =
     (if fs = [] then ret ()
      else or_default (andThen (bd_find_element D pg (trim (bf_selector (last fs)))) (\<lambda>el. bd_press_key D el ''Enter'')) ())"

definition fill_form ::
    "('w, 'pg, 'el, 'v) browser_executor \<Rightarrow> ('w, 'pg, 'el, 'v) browser_driver \<Rightarrow> fill_form_input \<Rightarrow> ('w, executor_error, action_result) prog" where
  "fill_form E D i =
     andThen (invalid (browser_validate_url (fi_url i))) (\<lambda>url.
     andThen (invalid (if fi_fields i = [] then Inl (ActionFailed ''fill_form requires at least one field'') else Inr ())) (\<lambda>_.
     andThen (visit D url) (\<lambda>pg.
     andThen (current_url D pg url) (\<lambda>current.
     andThen (fill_fields D pg (fi_fields i)) (\<lambda>_.
     andThen (if fi_submit i
       then andThen (try_submit D pg submit_selectors) (\<lambda>submitted. if submitted then ret () else press_enter_on_last D pg (fi_fields i))
       else ret ()) (\<lambda>_.
     (let n = decimal (length (fi_fields i)) in
      interacted E (''Filled '' @ n @ '' form fields on page: '' @ current) current
        (''Filled '' @ n @ '' form fields'' @ (if fi_submit i then '' and submitted'' else [])) [])))))))"

definition select_option ::
    "('w, 'pg, 'el, 'v) browser_executor \<Rightarrow> ('w, 'pg, 'el, 'v) browser_driver \<Rightarrow> select_option_input \<Rightarrow> ('w, executor_error, action_result) prog" where
  "select_option E D i =
     andThen (invalid (browser_validate_url (so_url i))) (\<lambda>url.
     andThen (invalid (required_selector (so_selector i))) (\<lambda>sel.
     andThen (visit D url) (\<lambda>pg.
     andThen (current_url D pg url) (\<lambda>current.
     andThen (to_failed (\<lambda>e. ''Failed to select option with selector '' @ quoted sel @ '': '' @ e)
       (bd_evaluate D pg (select_script sel (so_value i)))) (\<lambda>_.
     interacted E (''Selected option '' @ quoted (so_value i) @ '' in dropdown on page: '' @ current) current
       (''Selected '' @ quoted (so_value i) @ '' in dropdown at selector: '' @ sel) [])))))"

definition scroll_script :: "scroll_input \<Rightarrow> browser_error + string" where
  "scroll_script i =
     (case sl_direction i of
        ScrollDown \<Rightarrow> Inr (scroll_by_script False (case sl_amount i of None \<Rightarrow> 500 | Some n \<Rightarrow> n))
      | ScrollUp \<Rightarrow> Inr (scroll_by_script True (case sl_amount i of None \<Rightarrow> 500 | Some n \<Rightarrow> n))
      | ScrollToElement \<Rightarrow>
          (let sel = (case sl_target_selector i of None \<Rightarrow> [] | Some t \<Rightarrow> t) in
           if sel = [] then Inl (ActionFailed ''scroll_page to_element requires target_selector'') else Inr (scroll_to_script sel)))"

definition scroll_description :: "scroll_input \<Rightarrow> string" where
  "scroll_description i =
     (let n = decimal (case sl_amount i of None \<Rightarrow> 500 | Some n \<Rightarrow> n) in
      case sl_direction i of
        ScrollDown \<Rightarrow> ''Scrolled down '' @ n @ ''px''
      | ScrollUp \<Rightarrow> ''Scrolled up '' @ n @ ''px''
      | ScrollToElement \<Rightarrow> ''Scrolled to element: '' @ (case sl_target_selector i of None \<Rightarrow> [] | Some t \<Rightarrow> t))"

definition scroll_page ::
    "('w, 'pg, 'el, 'v) browser_executor \<Rightarrow> ('w, 'pg, 'el, 'v) browser_driver \<Rightarrow> scroll_input \<Rightarrow> ('w, executor_error, action_result) prog" where
  "scroll_page E D i =
     andThen (invalid (browser_validate_url (sl_url i))) (\<lambda>url.
     andThen (visit D url) (\<lambda>pg.
     andThen (current_url D pg url) (\<lambda>current.
     andThen (invalid (scroll_script i)) (\<lambda>js.
     andThen (to_failed id (bd_evaluate D pg js)) (\<lambda>_.
     interacted E (scroll_description i @ '' on page: '' @ current) current (scroll_description i) [])))))"

definition press_key ::
    "('w, 'pg, 'el, 'v) browser_executor \<Rightarrow> ('w, 'pg, 'el, 'v) browser_driver \<Rightarrow> press_key_input \<Rightarrow> ('w, executor_error, action_result) prog" where
  "press_key E D i =
     andThen (invalid (browser_validate_url (pk_url i))) (\<lambda>url.
     andThen (visit D url) (\<lambda>pg.
     andThen (current_url D pg url) (\<lambda>current.
     andThen
       (case pk_selector i of
          Some t \<Rightarrow> andThen (invalid (required_selector t)) (\<lambda>sel.
            andThen (find_or_fail D ''Element'' pg sel) (\<lambda>el. to_failed id (bd_press_key D el (pk_key i))))
        | None \<Rightarrow> andThen (to_failed id (bd_evaluate D pg (key_script (pk_key i)))) (\<lambda>_. ret ())) (\<lambda>_.
     interacted E (''Pressed key '' @ quoted (pk_key i) @ '' on page: '' @ current) current
       (''Pressed key '' @ quoted (pk_key i) @ '' on element'') []))))"

definition execute_js ::
    "('w, 'pg, 'el, 'v) browser_executor \<Rightarrow> ('w, 'pg, 'el, 'v) browser_driver \<Rightarrow> execute_js_input \<Rightarrow> ('w, executor_error, action_result) prog" where
  "execute_js E D i =
     andThen (invalid (browser_validate_url (xj_url i))) (\<lambda>url.
     andThen (invalid (nonblank (xj_script i) (ActionFailed ''execute_js script cannot be empty''))) (\<lambda>_.
     andThen (visit D url) (\<lambda>pg.
     andThen (current_url D pg url) (\<lambda>current.
     andThen (to_failed (\<lambda>e. ''JavaScript execution failed: '' @ e) (bd_evaluate D pg (xj_script i))) (\<lambda>v.
     andThen (to_failed (\<lambda>e. ''Failed to parse JS result: '' @ e) (lift (bd_json_value D v))) (\<lambda>j.
     interacted E (''Executed JavaScript on page: '' @ current) current ''Executed JavaScript'' [(''result'', j)]))))))"

definition as_millis :: "nat \<Rightarrow> nat" where
  "as_millis ns = ns div 1000000"

text \<open>The polling loop: \<open>None\<close> where it does not end.\<close>

partial_function (option) wait_loop ::
    "('w, 'pg, 'el, 'v) browser_executor \<Rightarrow> ('w, 'pg, 'el, 'v) browser_driver \<Rightarrow> 'pg \<Rightarrow> string \<Rightarrow> wait_strategy \<Rightarrow> nat \<Rightarrow>
     'w \<Rightarrow> ((executor_error + unit) \<times> 'w) option" where
  "wait_loop E D pg sel y start s =
     (case bd_find_element D pg sel s of
        (Inr _, s1) \<Rightarrow> Some (Inr (), s1)
      | (Inl _, s1) \<Rightarrow>
          (let (t, s2) = be_instant E s1 in
           if t - start \<ge> ws_timeout_ms y * 1000000
           then Some (Inl (ExecutionFailed (''Timed out waiting for element '' @ quoted sel @ '' after '' @ decimal (ws_timeout_ms y) @
                  ''ms using '' @ be_wait_debug E (ws_wait_until y))), s2)
           else wait_loop E D pg sel y start (be_sleep E (ws_poll_interval_ms y) s2)))"

definition wait_start ::
    "('w, 'pg, 'el, 'v) browser_executor \<Rightarrow> ('w, 'pg, 'el, 'v) browser_driver \<Rightarrow> wait_input \<Rightarrow>
     ('w, executor_error, 'pg \<times> string \<times> wait_strategy \<times> string \<times> nat) prog" where
  "wait_start E D i =
     andThen (invalid (browser_validate_url (wt_url i))) (\<lambda>url.
     andThen (invalid (required_selector (wt_selector i))) (\<lambda>sel.
     andThen (invalid (effective_strategy (bc_navigation_timeout_policy (be_config E)) (wt_wait_until i) (Some (wt_timeout_ms i)))) (\<lambda>y.
     andThen (visit D url) (\<lambda>pg.
     andThen (current_url D pg url) (\<lambda>current.
     andThen (read_instant E) (\<lambda>start. ret (pg, sel, y, current, start)))))))"

definition wait_found ::
    "('w, 'pg, 'el, 'v) browser_executor \<Rightarrow> string \<Rightarrow> string \<Rightarrow> nat \<Rightarrow> ('w, executor_error, action_result) prog" where
  "wait_found E sel current start =
     andThen (read_instant E) (\<lambda>t1. andThen (read_instant E) (\<lambda>t2.
     interacted E (''Element '' @ quoted sel @ '' found on page: '' @ current @ '' (within '' @ decimal (as_millis (t1 - start)) @ ''ms)'') current
       (''Element '' @ quoted sel @ '' appeared within '' @ decimal (as_millis (t2 - start)) @ ''ms'') []))"

definition wait_for_element ::
    "('w, 'pg, 'el, 'v) browser_executor \<Rightarrow> ('w, 'pg, 'el, 'v) browser_driver \<Rightarrow> wait_input \<Rightarrow>
     'w \<Rightarrow> ((executor_error + action_result) \<times> 'w) option" where
  "wait_for_element E D i s =
     (case wait_start E D i s of
        (Inl e, s1) \<Rightarrow> Some (Inl e, s1)
      | (Inr (pg, sel, y, current, start), s1) \<Rightarrow>
          (case wait_loop E D pg sel y start s1 of
             None \<Rightarrow> None
           | Some (Inl e, s2) \<Rightarrow> Some (Inl e, s2)
           | Some (Inr _, s2) \<Rightarrow> Some (wait_found E sel current start s2)))"


definition take_screenshot ::
    "('w, 'pg, 'el, 'v) browser_driver \<Rightarrow> 'pg \<Rightarrow> screenshot_input \<Rightarrow> ('w, executor_error, string) prog" where
  "take_screenshot D pg i =
     (let format = (if sh_quality i = None then PngImage else JpegImage) in
      case sh_element_selector i of
        Some t \<Rightarrow> andThen (invalid (required_selector t)) (\<lambda>sel.
          andThen (find_or_fail D ''Element'' pg sel) (\<lambda>el. to_failed id (bd_element_screenshot D el format)))
      | None \<Rightarrow> to_failed id (bd_screenshot D pg format (sh_full_page i)))"

definition store_screenshot ::
    "('w, 'pg, 'el, 'v) browser_executor \<Rightarrow> string \<Rightarrow> string \<Rightarrow> bool \<Rightarrow> nat \<Rightarrow> ('w, executor_error, unit) prog" where
  "store_screenshot E current format full_page bytes =
     (if be_store E = None then ret ()
      else
        andThen (read_clock_at E) (\<lambda>t.
        andThen (read_clock_at E) (\<lambda>at.
        or_default (put_in_store E
          \<lparr>art_id = ArtifactId (''screenshot-'' @ timestamp_millis t), art_kind = Image, art_title = Some (''Screenshot of '' @ current),
           art_source_uri = Some current, art_mime_type = Some (if format = ''jpeg'' then ''image/jpeg'' else ''image/png''),
           art_metadata = json_object [(''size_bytes'', json_nat bytes), (''format'', JString format), (''full_page'', JBool full_page),
             (''source'', JString ''browser_screenshot'')],
           art_created_at = at\<rparr>) ())))"

definition get_page_screenshot ::
    "('w, 'pg, 'el, 'v) browser_executor \<Rightarrow> ('w, 'pg, 'el, 'v) browser_driver \<Rightarrow> screenshot_input \<Rightarrow> ('w, executor_error, action_result) prog" where
  "get_page_screenshot E D i =
     andThen (invalid (browser_validate_url (sh_url i))) (\<lambda>url.
     andThen (visit D url) (\<lambda>pg.
     andThen (current_url D pg url) (\<lambda>current.
     andThen (take_screenshot D pg i) (\<lambda>bytes.
     (let format = (if sh_quality i = None then ''png'' else ''jpeg''); n = length bytes in
      andThen (read_clock_at E) (\<lambda>t.
      andThen (read_clock_at E) (\<lambda>at.
      andThen (store_screenshot E current format (sh_full_page i) n) (\<lambda>_.
      ret (json_result StCompleted
        (''Screenshot captured from '' @ current @ '' ('' @ format @ '' format, '' @ decimal n @ '' bytes)'')
        (json_object [(''success'', JBool True), (''url'', JString current), (''format'', JString format), (''size_bytes'', json_nat n),
           (''full_page'', JBool (sh_full_page i)), (''interacted_at'', be_time_json E t)]) at)))))))))"

definition trim_end_char :: "char \<Rightarrow> string \<Rightarrow> string" where
  "trim_end_char c t = rev (dropWhile (\<lambda>x. x = c) (rev t))"

definition infer_download_filename :: "string \<Rightarrow> string" where
  "infer_download_filename url =
     (let t = trim_end_char (CHR ''/'') url;
          segment = (case after_last_char (CHR ''/'') t of Some x \<Rightarrow> x | None \<Rightarrow> t) in
      if trim segment \<noteq> [] then segment else ''download.bin'')"

text \<open>No bytes are fetched: what is recorded is a file without content.\<close>

definition download_file ::
    "('w, 'pg, 'el, 'v) browser_executor \<Rightarrow> download_input \<Rightarrow> ('w, executor_error, action_result) prog" where
  "download_file E i =
     andThen (invalid (validate_download i)) (\<lambda>_.
     andThen (invalid (browser_validate_url (dl_url i))) (\<lambda>url.
     andThen (read_clock_at E) (\<lambda>at.
     andThen (invalid (download_result_from_bytes (be_sha256 E) (be_time_json E)
         (ArtifactId (''download-'' @ timestamp_millis at)) url
         (case dl_suggested_filename i of Some f \<Rightarrow> f | None \<Rightarrow> infer_download_filename url)
         (case dl_content_type i of Some t \<Rightarrow> t | None \<Rightarrow> ''application/octet-stream'') [] at)) (\<lambda>r.
     andThen (to_failed (\<lambda>e. ''failed to store download artifact: '' @ e) (put_in_store E (do_artifact r))) (\<lambda>_.
     (let d = do_download r in
      ret (json_result StCompleted (''Download artifact recorded for '' @ da_source_url d @ '' as '' @ da_filename d)
        (json_object [(''success'', JBool True), (''artifact_id'', JString (artifact_text (da_artifact_id d))), (''url'', JString (da_source_url d)),
           (''filename'', JString (da_filename d)), (''content_type'', JString (da_content_type d)), (''size_bytes'', json_nat (da_size_bytes d)),
           (''sha256'', JString (da_sha256 d)), (''downloaded_at'', be_time_json E (da_downloaded_at d))]) at)))))))"

definition upload_decision_text :: "upload_decision \<Rightarrow> string" where
  "upload_decision_text d = (case d of UploadAsk \<Rightarrow> ''ask'' | UploadDeny \<Rightarrow> ''deny'')"

definition upload_file ::
    "('w, 'pg, 'el, 'v) browser_executor \<Rightarrow> upload_input \<Rightarrow> ('w, executor_error, action_result) prog" where
  "upload_file E i =
     andThen (read_clock_at E) (\<lambda>at.
     (let r = approval_requirement i at in
      ret (json_result (if requires_human_approval r then StApprovalRequired else StDenied)
        (case ur_decision r of
           UploadAsk \<Rightarrow> ''Browser upload requires approval: '' @ ur_reason r
         | UploadDeny \<Rightarrow> ''Browser upload denied: '' @ ur_reason r)
        (json_object [(''decision'', JString (upload_decision_text (ur_decision r))), (''reason'', JString (ur_reason r)),
           (''audit_data'', be_audit_json E (ur_audit_data r))]) at)))"

definition dialog_decision_debug :: "dialog_decision \<Rightarrow> string" where
  "dialog_decision_debug d = (case d of DialogAccept \<Rightarrow> ''Accept'' | DialogDismiss \<Rightarrow> ''Dismiss'')"

definition handle_dialog ::
    "('w, 'pg, 'el, 'v) browser_executor \<Rightarrow> dialog_input \<Rightarrow> ('w, executor_error, action_result) prog" where
  "handle_dialog E i =
     andThen (read_clock_at E) (\<lambda>now.
     (let e = dialog_event_of i now in
      andThen (invalid (resolve_dialog (bc_prompt_policy (be_config E)) e now)) (\<lambda>r.
      ret (json_result StCompleted
        (''Resolved browser '' @ dialog_kind_debug (de_kind e) @ '' dialog with '' @ dialog_decision_debug (dr_decision r))
        (json_object [(''event'', fst (be_dialog_json E e r)), (''resolution'', snd (be_dialog_json E e r))]) now))))"

definition prompt_decision_debug :: "prompt_decision \<Rightarrow> string" where
  "prompt_decision_debug d = (case d of PromptAllow \<Rightarrow> ''Allow'' | PromptDeny \<Rightarrow> ''Deny'' | PromptAsk \<Rightarrow> ''Ask'')"

definition handle_permission_prompt ::
    "('w, 'pg, 'el, 'v) browser_executor \<Rightarrow> permission_input \<Rightarrow> ('w, executor_error, action_result) prog" where
  "handle_permission_prompt E i =
     andThen (read_clock_at E) (\<lambda>now.
     (let e = permission_prompt_of i now in
      andThen (invalid (resolve_permission_prompt (be_permission_debug E) (bc_prompt_policy (be_config E)) e now)) (\<lambda>r.
      ret (json_result (case permission_resolution.px_decision r of PromptAsk \<Rightarrow> StApprovalRequired | PromptDeny \<Rightarrow> StDenied | PromptAllow \<Rightarrow> StCompleted)
        (''Resolved browser '' @ be_permission_debug E (pp_permission e) @ '' permission prompt with '' @ prompt_decision_debug (permission_resolution.px_decision r))
        (json_object [(''event'', fst (be_permission_json E e r)), (''resolution'', snd (be_permission_json E e r))]) now))))"

section \<open>Dispatch\<close>

definition KNOWN_BROWSER_ACTIONS :: "string list" where
  "KNOWN_BROWSER_ACTIONS =
     [''browser.open_url'', ''browser.extract_content'', ''browser.capture_snapshot'', ''browser.summarize_page'',
      ''browser.compare_pages'', ''browser.click_element'', ''browser.type_text'', ''browser.fill_form'', ''browser.scroll_page'',
      ''browser.select_option'', ''browser.wait_for_element'', ''browser.press_key'', ''browser.execute_js'',
      ''browser.get_page_screenshot'', ''browser.get_interactive_snapshot'', ''browser.download_file'', ''browser.upload_file'',
      ''browser.handle_dialog'', ''browser.handle_permission_prompt'']"

text \<open>The actions other than waiting.\<close>

definition run_browser_action ::
    "('w, 'pg, 'el, 'v) browser_executor \<Rightarrow> browser_codec \<Rightarrow> ('w, 'pg, 'el, 'v) browser_driver \<Rightarrow> action_request \<Rightarrow>
     ('w, executor_error, action_result) prog" where
  "run_browser_action E K D q =
     (let k = kind_text (req_action_kind q); v = req_input q in
      if k = ''browser.open_url'' then andThen (lift (parsed (cd_open_url K v))) (open_url E D)
      else if k = ''browser.extract_content'' then andThen (lift (parsed (cd_extract_content K v))) (extract_content E D)
      else if k = ''browser.get_interactive_snapshot'' then andThen (lift (parsed (cd_page_snapshot K v))) (get_interactive_snapshot E D)
      else if k = ''browser.click_element'' then andThen (lift (parsed (cd_click K v))) (click_element E D)
      else if k = ''browser.type_text'' then andThen (lift (parsed (cd_type_text K v))) (type_text E D)
      else if k = ''browser.fill_form'' then andThen (lift (parsed (cd_fill_form K v))) (fill_form E D)
      else if k = ''browser.select_option'' then andThen (lift (parsed (cd_select_option K v))) (select_option E D)
      else if k = ''browser.scroll_page'' then andThen (lift (parsed (cd_scroll K v))) (scroll_page E D)
      else if k = ''browser.press_key'' then andThen (lift (parsed (cd_press_key K v))) (press_key E D)
      else if k = ''browser.execute_js'' then andThen (lift (parsed (cd_execute_js K v))) (execute_js E D)
      else if k = ''browser.get_page_screenshot'' then andThen (lift (parsed (cd_screenshot K v))) (get_page_screenshot E D)
      else if k = ''browser.download_file'' then andThen (lift (parsed (cd_download K v))) (download_file E)
      else if k = ''browser.upload_file'' then andThen (lift (parsed (cd_upload K v))) (upload_file E)
      else if k = ''browser.handle_dialog'' then andThen (lift (parsed (cd_dialog K v))) (handle_dialog E)
      else if k = ''browser.handle_permission_prompt'' then andThen (lift (parsed (cd_permission K v))) (handle_permission_prompt E)
      else raise (NotSupported (req_action_kind q)))"

definition browser_execute ::
    "('w, 'pg, 'el, 'v) browser_executor \<Rightarrow> browser_codec \<Rightarrow> action_request \<Rightarrow>
     'w \<Rightarrow> ((executor_error + action_result) \<times> 'w) option" where
  "browser_execute E K q s =
     (let k = kind_text (req_action_kind q) in
      if k \<notin> set KNOWN_BROWSER_ACTIONS then Some (Inl (NotSupported (req_action_kind q)), s)
      else case be_browser E of
        None \<Rightarrow> Some (Inl (ExecutionFailed (browser_message ChromiumNotAvailable)), s)
      | Some D \<Rightarrow>
          if k = ''browser.wait_for_element''
          then (case cd_wait K (req_input q) of
                  Inl e \<Rightarrow> Some (Inl (InvalidInput e), s)
                | Inr i \<Rightarrow> wait_for_element E D i s)
          else Some (run_browser_action E K D q s))"


section \<open>An action acts on one page\<close>

text \<open>What an action does beside the browser, and what it does with a page.\<close>

inductive idle_step :: "('w, 'pg, 'el, 'v) browser_executor \<Rightarrow> 'w \<Rightarrow> 'w \<Rightarrow> bool" for E where
  idle_clock: "idle_step E s (snd (be_now E s))"
| idle_store: "be_store E = Some put \<Longrightarrow> idle_step E s (snd (put d s))"

definition elements_of :: "('w, 'pg, 'el, 'v) browser_driver \<Rightarrow> 'pg \<Rightarrow> 'el set" where
  "elements_of D pg = {el. \<exists>sel s s'. bd_find_element D pg sel s = (Inr el, s')}"

inductive page_step ::
    "('w, 'pg, 'el, 'v) browser_executor \<Rightarrow> ('w, 'pg, 'el, 'v) browser_driver \<Rightarrow> string \<Rightarrow> 'pg \<Rightarrow> 'w \<Rightarrow> 'w \<Rightarrow> bool" for E D url pg where
  page_idle: "idle_step E s s' \<Longrightarrow> page_step E D url pg s s'"
| page_instant: "page_step E D url pg s (snd (be_instant E s))"
| page_sleep: "page_step E D url pg s (be_sleep E n s)"
| page_goto: "page_step E D url pg s (snd (bd_goto D pg url s))"
| page_evaluate: "page_step E D url pg s (snd (bd_evaluate D pg js s))"
| page_content: "page_step E D url pg s (snd (bd_content D pg s))"
| page_find: "page_step E D url pg s (snd (bd_find_element D pg sel s))"
| page_shot: "page_step E D url pg s (snd (bd_screenshot D pg f b s))"
| page_click: "el \<in> elements_of D pg \<Longrightarrow> page_step E D url pg s (snd (bd_click D el s))"
| page_press: "el \<in> elements_of D pg \<Longrightarrow> page_step E D url pg s (snd (bd_press_key D el k s))"
| page_type: "el \<in> elements_of D pg \<Longrightarrow> page_step E D url pg s (snd (bd_type_str D el t s))"
| page_element_shot: "el \<in> elements_of D pg \<Longrightarrow> page_step E D url pg s (snd (bd_element_screenshot D el f s))"

abbreviation page_steps ::
    "('w, 'pg, 'el, 'v) browser_executor \<Rightarrow> ('w, 'pg, 'el, 'v) browser_driver \<Rightarrow> string \<Rightarrow> 'pg \<Rightarrow> 'w \<Rightarrow> 'w \<Rightarrow> bool" where
  "page_steps E D url pg \<equiv> (page_step E D url pg)\<^sup>*\<^sup>*"

definition one_page ::
    "('w, 'pg, 'el, 'v) browser_executor \<Rightarrow> ('w, 'pg, 'el, 'v) browser_driver \<Rightarrow> string \<Rightarrow> 'w \<Rightarrow> 'w \<Rightarrow> bool" where
  "one_page E D u s s' \<longleftrightarrow> s' = s \<or>
     trim u \<noteq> [] \<and> (case bd_new_page D ''about:blank'' s of
        (Inl e, s1) \<Rightarrow> s' = s1
      | (Inr pg, s1) \<Rightarrow> page_steps E D (trim u) pg s1 s')"

lemma steps_order: "reflp (R\<^sup>*\<^sup>*)" "transp (R\<^sup>*\<^sup>*)"
  by (auto simp: reflp_def transp_def)

lemma moves_lift: "moves R\<^sup>*\<^sup>* (lift x)"
  by (simp add: moves_def lift_def)

lemma moves_ret: "moves R\<^sup>*\<^sup>* (ret x)" "moves R\<^sup>*\<^sup>* (raise e)"
  by (simp_all add: moves_def ret_def raise_def)

lemma moves_invalid: "moves R\<^sup>*\<^sup>* (invalid x)"
  by (simp add: invalid_def moves_lift)

lemma moves_to_failed: "moves Q p \<Longrightarrow> moves Q (to_failed f p)"
  by (auto simp: moves_def to_failed_def split: prod.splits sum.splits) (metis snd_conv)+

lemma moves_or_default: "moves Q p \<Longrightarrow> moves Q (or_default p d)"
  by (auto simp: moves_def or_default_def split: prod.splits sum.splits) (metis snd_conv)+

lemma moves_to_browser: "moves Q p \<Longrightarrow> moves Q (to_browser p)"
  by (auto simp: moves_def to_browser_def split: prod.splits sum.splits) (metis snd_conv)+

lemma moves_then: "moves R\<^sup>*\<^sup>* m \<Longrightarrow> (\<And>x. moves R\<^sup>*\<^sup>* (f x)) \<Longrightarrow> moves R\<^sup>*\<^sup>* (andThen m f)"
  using moves_andThen [OF steps_order(2)] .

lemma moves_pair: "(\<And>a b. moves Q (f a b)) \<Longrightarrow> moves Q (case x of (a, b) \<Rightarrow> f a b)"
  by (cases x) simp

lemma moves_found_step:
  assumes "\<And>el. el \<in> elements_of D pg \<Longrightarrow> moves (page_steps E D url pg) (f el)" and "bd_find_element D pg sel s = (Inr el, s1)"
  shows "page_steps E D url pg s (snd (f el s1))"
proof -
  have "el \<in> elements_of D pg" using assms(2) by (auto simp: elements_of_def)
  then have "page_steps E D url pg s1 (snd (f el s1))" using assms(1) by (simp add: moves_def)
  moreover have "page_step E D url pg s (snd (bd_find_element D pg sel s))" by (rule page_find)
  then have "page_steps E D url pg s s1" using assms(2) by simp
  ultimately show ?thesis by (metis rtranclp_trans)
qed

lemma moves_found:
  assumes "\<And>el. el \<in> elements_of D pg \<Longrightarrow> moves (page_steps E D url pg) (f el)"
  shows "moves (page_steps E D url pg) (andThen (bd_find_element D pg sel) f)"
proof -
  have "page_steps E D url pg s (snd (bd_find_element D pg sel s))" for s
    by (rule r_into_rtranclp) (rule page_find)
  then show ?thesis
    using moves_found_step [of D pg E url f, OF assms]
    by (auto simp: moves_def andThen_def split: prod.split sum.split) (metis snd_conv)
qed

lemma moves_found_or_failed:
  assumes "\<And>el. el \<in> elements_of D pg \<Longrightarrow> moves (page_steps E D url pg) (f el)"
  shows "moves (page_steps E D url pg) (andThen (find_or_fail D what pg sel) f)"
proof -
  have "page_steps E D url pg s (snd (bd_find_element D pg sel s))" for s
    by (rule r_into_rtranclp) (rule page_find)
  then show ?thesis
    using moves_found_step [of D pg E url f, OF assms]
    by (auto simp: moves_def andThen_def find_or_fail_def to_failed_def split: prod.split sum.split) (metis snd_conv)
qed

lemma moves_one: "(\<And>s. R s (snd (p s))) \<Longrightarrow> moves R\<^sup>*\<^sup>* p"
  by (simp add: moves_def r_into_rtranclp)

lemma moves_driver:
  "moves (page_steps E D url pg) (bd_goto D pg url)"
  "moves (page_steps E D url pg) (bd_evaluate D pg js)"
  "moves (page_steps E D url pg) (bd_content D pg)"
  "moves (page_steps E D url pg) (bd_find_element D pg sel)"
  "moves (page_steps E D url pg) (bd_screenshot D pg f b)"
  by (rule moves_one, rule page_step.intros)+

lemma moves_element:
  assumes "el \<in> elements_of D pg"
  shows "moves (page_steps E D url pg) (bd_click D el)"
    and "moves (page_steps E D url pg) (bd_press_key D el k)"
    and "moves (page_steps E D url pg) (bd_type_str D el t)"
    and "moves (page_steps E D url pg) (bd_element_screenshot D el f)"
  using assms by (auto intro!: moves_one page_step.intros)

lemma idle_now: "idle_step E s (snd (read_clock_at E s))"
  by (simp add: read_clock_at_def split: prod.split) (metis idle_clock snd_conv)

lemma moves_clock: "moves (idle_step E)\<^sup>*\<^sup>* (read_clock_at E)" "moves (page_steps E D url pg) (read_clock_at E)"
  by (rule moves_one, rule idle_now) (rule moves_one, rule page_idle, rule idle_now)

lemma moves_store: "moves (idle_step E)\<^sup>*\<^sup>* (put_in_store E d)" "moves (page_steps E D url pg) (put_in_store E d)"
  by (cases "be_store E"; auto simp: put_in_store_def moves_ret intro!: moves_one page_idle idle_store)+

lemma moves_instant: "moves (page_steps E D url pg) (read_instant E)"
  by (rule moves_one) (simp add: read_instant_def split: prod.split, metis page_instant snd_conv)

lemma moves_interacted: "moves (page_steps E D url pg) (interacted E a b c d)"
  unfolding interacted_def by (intro moves_then moves_clock moves_ret)

lemma moves_page_reads:
  "moves (page_steps E D url pg) (page_string D pg js)"
  "moves (page_steps E D url pg) (page_string_array D pg js)"
  "moves (page_steps E D url pg) (page_interactive_parts E D pg)"
  unfolding page_string_def page_string_array_def page_interactive_parts_def
  by (intro moves_then moves_to_browser moves_driver moves_lift)+

lemma moves_page_texts:
  "moves (page_steps E D url pg) (page_title D pg)"
  "moves (page_steps E D url pg) (page_body_text D pg)"
  "moves (page_steps E D url pg) (current_url D pg u)"
  unfolding page_title_def page_body_text_def current_url_def page_url_def
  by (intro moves_or_default moves_page_reads)+


lemma moves_take: "moves (page_steps E D url pg) (take_screenshot D pg i)"
  unfolding take_screenshot_def Let_def
  by ((rule moves_option moves_found_or_failed moves_then moves_invalid moves_to_failed moves_driver moves_element | assumption)+)

lemma moves_stored: "moves (page_steps E D url pg) (store_screenshot E c f b n)"
  unfolding store_screenshot_def
  by ((rule moves_if moves_then moves_ret moves_clock moves_or_default moves_store)+)

lemma moves_saved: "moves (page_steps E D url pg) (save_dom_snapshot E D pg c t at)"
  unfolding save_dom_snapshot_def
  by ((rule moves_then moves_to_failed moves_driver moves_lift moves_store moves_ret)+)

lemma moves_filled: "moves (page_steps E D url pg) (fill_fields D pg fs)"
  by (induction fs)
    (simp_all add: moves_ret, (rule moves_found_or_failed moves_then moves_invalid moves_to_failed moves_element | assumption)+)

lemma moves_submitted: "moves (page_steps E D url pg) (try_submit D pg sels)"
proof (induction sels)
  case (Cons sel sels)
  show ?case unfolding try_submit.simps
    by ((rule Cons.IH moves_or_default moves_found moves_then moves_if moves_element moves_ret | assumption)+)
qed (simp add: moves_ret)

lemma moves_enter: "moves (page_steps E D url pg) (press_enter_on_last D pg fs)"
  unfolding press_enter_on_last_def
  by ((rule moves_if moves_ret moves_or_default moves_found moves_element | assumption)+)

lemmas page_moves = moves_found_or_failed moves_found moves_then moves_ret moves_lift moves_invalid moves_to_failed moves_or_default
  moves_if moves_option moves_pair moves_driver moves_element moves_clock moves_interacted moves_page_reads moves_page_texts
  moves_take moves_stored moves_saved moves_filled moves_submitted moves_enter moves_instant

text \<open>What comes before the page is opened changes nothing.\<close>

lemma invalid_then: "andThen (invalid r) f = (case r of Inl e \<Rightarrow> raise (InvalidInput (browser_message e)) | Inr x \<Rightarrow> f x)"
  by (cases r) (simp_all add: invalid_def lift_def parsed_def andThen_def raise_def)

lemma one_page_raise: "moves (one_page E D u) (raise e)"
  by (simp add: moves_def raise_def one_page_def)

lemma one_page_url:
  assumes "trim u \<noteq> [] \<Longrightarrow> moves (one_page E D u) (f (trim u))"
  shows "moves (one_page E D u) (andThen (invalid (browser_validate_url u)) f)"
  using assms by (simp add: invalid_then browser_validate_url_def Let_def one_page_raise)

lemma one_page_check:
  assumes "\<And>x. moves (one_page E D u) (f x)"
  shows "moves (one_page E D u) (andThen (invalid r) f)"
  using assms by (simp add: invalid_then one_page_raise split: sum.split)

lemma visited:
  assumes "moves (page_steps E D url pg) (f pg)"
  shows "page_steps E D url pg s (snd (andThen (to_failed id (bd_goto D pg url)) (\<lambda>_. f pg) s))"
proof -
  have "moves (page_steps E D url pg) (andThen (to_failed id (bd_goto D pg url)) (\<lambda>_. f pg))"
    by (rule moves_then moves_to_failed moves_driver assms)+
  then show ?thesis by (simp add: moves_def)
qed

lemma one_page_visit:
  assumes "trim u \<noteq> []" and "\<And>pg. moves (page_steps E D (trim u) pg) (f pg)"
  shows "moves (one_page E D u) (andThen (visit D (trim u)) f)"
  unfolding moves_def
proof
  fix s
  have run: "andThen (visit D (trim u)) f s =
      (case bd_new_page D ''about:blank'' s of
         (Inl e, s1) \<Rightarrow> (Inl (ExecutionFailed e), s1)
       | (Inr pg, s1) \<Rightarrow> andThen (to_failed id (bd_goto D pg (trim u))) (\<lambda>_. f pg) s1)"
    by (auto simp: visit_def andThen_def to_failed_def ret_def split: prod.split sum.split)
  show "one_page E D u s (snd (andThen (visit D (trim u)) f s))"
    unfolding run using assms visited [of E D "trim u" _ f, OF assms(2)] by (auto simp: one_page_def split: prod.split sum.split)
qed

lemmas page_actions = open_url_def extract_content_def get_interactive_snapshot_def click_element_def type_text_def fill_form_def
  select_option_def scroll_page_def press_key_def execute_js_def get_page_screenshot_def

lemma actions_on_one_page:
  "moves (one_page E D (ou_url i1)) (open_url E D i1)"
  "moves (one_page E D (ec_url i2)) (extract_content E D i2)"
  "moves (one_page E D (pn_url i3)) (get_interactive_snapshot E D i3)"
  "moves (one_page E D (ck_url i4)) (click_element E D i4)"
  "moves (one_page E D (tt_url i5)) (type_text E D i5)"
  "moves (one_page E D (fi_url i6)) (fill_form E D i6)"
  "moves (one_page E D (so_url i7)) (select_option E D i7)"
  "moves (one_page E D (sl_url i8)) (scroll_page E D i8)"
  "moves (one_page E D (pk_url i9)) (press_key E D i9)"
  "moves (one_page E D (xj_url i10)) (execute_js E D i10)"
  "moves (one_page E D (sh_url i11)) (get_page_screenshot E D i11)"
  unfolding page_actions Let_def
  by ((rule one_page_url one_page_check one_page_visit page_moves | assumption)+)


lemma wait_started:
  assumes "wait_start E D i s = (r, s1)"
  shows "(case r of
      Inr (pg, sel, y, current, start) \<Rightarrow> \<exists>s0. trim (wt_url i) \<noteq> [] \<and> bd_new_page D ''about:blank'' s = (Inr pg, s0) \<and>
        page_steps E D (trim (wt_url i)) pg s0 s1 \<and>
        effective_strategy (bc_navigation_timeout_policy (be_config E)) (wt_wait_until i) (Some (wt_timeout_ms i)) = Inr y
    | Inl e \<Rightarrow> one_page E D (wt_url i) s s1)"
proof (cases r)
  case (Inl e)
  have "moves (one_page E D (wt_url i)) (wait_start E D i)"
    unfolding wait_start_def by ((rule one_page_url one_page_check one_page_visit page_moves | assumption)+)
  then show ?thesis using assms Inl by (simp add: moves_def) (metis snd_conv)
next
  case (Inr x)
  let ?u = "trim (wt_url i)" and ?tail = "\<lambda>pg sel y. andThen (current_url D pg (trim (wt_url i))) (\<lambda>current.
     andThen (read_instant E) (\<lambda>start. ret (pg, sel, y, current, start)))"
  from assms Inr obtain sel y where u: "?u \<noteq> []"
      and y: "effective_strategy (bc_navigation_timeout_policy (be_config E)) (wt_wait_until i) (Some (wt_timeout_ms i)) = Inr y"
      and run: "andThen (visit D ?u) (\<lambda>pg. ?tail pg sel y) s = (Inr x, s1)"
    by (auto simp: wait_start_def invalid_then browser_validate_url_def Let_def raise_def split: if_splits sum.splits)
  from run obtain pg s0 where new: "bd_new_page D ''about:blank'' s = (Inr pg, s0)"
      and rest: "andThen (to_failed id (bd_goto D pg ?u)) (\<lambda>_. ?tail pg sel y) s0 = (Inr x, s1)"
    by (auto simp: visit_def andThen_def to_failed_def ret_def split: prod.splits sum.splits)
  have "moves (page_steps E D ?u pg) (?tail pg sel y)" by ((rule page_moves)+)
  from visited [of E D ?u pg "\<lambda>pg. ?tail pg sel y", OF this, of s0] rest have "page_steps E D ?u pg s0 s1" by simp
  moreover obtain current start where "x = (pg, sel, y, current, start)"
    using rest by (auto simp: andThen_Inr_iff ret_def)
  ultimately show ?thesis using u y new Inr by auto
qed

text \<open>The loop looks for the element on its page and sleeps, nothing else.\<close>

lemma wait_loop_moves:
  assumes "wait_loop E D pg sel y start s = Some z"
  shows "page_steps E D url pg s (snd z)"
proof (rule wait_loop.raw_induct [OF _ assms, where P = "\<lambda>E D pg sel y start s z. page_steps E D url pg s (snd z)"])
  fix loop and E :: "('a, 'b, 'c, 'd) browser_executor" and D pg sel y start s z
  assume IH: "\<And>E D pg sel y start s z. loop E D pg sel y start s = Some z \<Longrightarrow> page_steps E D url pg s (snd z)"
    and run: "(case bd_find_element D pg sel s of
        (Inl a, s1) \<Rightarrow>
          (let (t, s2) = be_instant E s1 in
           if t - start \<ge> ws_timeout_ms y * 1000000
           then Some (Inl (ExecutionFailed (''Timed out waiting for element '' @ quoted sel @ '' after '' @ decimal (ws_timeout_ms y) @
                  ''ms using '' @ be_wait_debug E (ws_wait_until y))), s2)
           else loop E D pg sel y start (be_sleep E (ws_poll_interval_ms y) s2))
      | (Inr b, s1) \<Rightarrow> Some (Inr (), s1)) = Some z"
  have find: "page_steps E D url pg s (snd (bd_find_element D pg sel s))"
    and time: "page_step E D url pg s1 (snd (be_instant E s1))" and nap: "page_step E D url pg s2 (be_sleep E n s2)" for s1 s2 n
    by (auto intro: r_into_rtranclp page_step.intros)
  obtain r s1 where f: "bd_find_element D pg sel s = (r, s1)" by (cases "bd_find_element D pg sel s")
  obtain t s2 where i: "be_instant E s1 = (t, s2)" by (cases "be_instant E s1")
  have s2: "page_steps E D url pg s s2" using find f time [of s1] i by (auto intro: rtranclp.rtrancl_into_rtrancl)
  show "page_steps E D url pg s (snd z)"
  proof (cases r)
    case (Inl e)
    show ?thesis
    proof (cases "t - start \<ge> ws_timeout_ms y * 1000000")
      case True
      then show ?thesis using run f i Inl s2 by (auto simp: Let_def)
    next
      case False
      then have "loop E D pg sel y start (be_sleep E (ws_poll_interval_ms y) s2) = Some z" using run f i Inl by (simp add: Let_def)
      from IH [OF this] show ?thesis using s2 nap [of s2] by (meson rtranclp.rtrancl_into_rtrancl rtranclp_trans)
    qed
  next
    case (Inr x)
    then show ?thesis using run f find by auto
  qed
qed

lemma wait_found_moves: "moves (page_steps E D url pg) (wait_found E sel current start)"
  unfolding wait_found_def by ((rule page_moves)+)

lemma wait_on_one_page:
  assumes "wait_for_element E D i s = Some (r, s')"
  shows "one_page E D (wt_url i) s s'"
proof (cases "wait_start E D i s")
  case (Pair r1 s1)
  show ?thesis
  proof (cases r1)
    case (Inl e)
    then show ?thesis using assms Pair wait_started [OF Pair] by (simp add: wait_for_element_def)
  next
    case (Inr x)
    obtain pg sel y current start where x: "x = (pg, sel, y, current, start)" by (cases x)
    from wait_started [OF Pair] obtain s0 where new: "trim (wt_url i) \<noteq> []" "bd_new_page D ''about:blank'' s = (Inr pg, s0)"
        and steps: "page_steps E D (trim (wt_url i)) pg s0 s1"
      by (auto simp: Inr x)
    from assms obtain r2 s2 where loop: "wait_loop E D pg sel y start s1 = Some (r2, s2)"
        and last: "(r, s') = (case r2 of Inl e \<Rightarrow> (Inl e, s2) | Inr _ \<Rightarrow> wait_found E sel current start s2)"
      by (auto simp: wait_for_element_def Pair Inr x split: option.splits sum.splits)
    have "page_steps E D (trim (wt_url i)) pg s1 s2" using wait_loop_moves [OF loop] by simp
    moreover have "page_steps E D (trim (wt_url i)) pg s2 s'"
      using last wait_found_moves [of E D "trim (wt_url i)" pg sel current start]
      by (auto simp: moves_def split: sum.splits) (metis snd_conv)
    ultimately have "page_steps E D (trim (wt_url i)) pg s0 s'" using steps by (meson rtranclp_trans)
    then show ?thesis using new by (simp add: one_page_def)
  qed
qed

text \<open>The URL of a request, as far as its input can be read.\<close>

definition requested_url :: "browser_codec \<Rightarrow> action_request \<Rightarrow> string \<Rightarrow> bool" where
  "requested_url K q u \<longleftrightarrow>
     (let k = kind_text (req_action_kind q); v = req_input q in
      (k = ''browser.open_url'' \<and> map_sum id ou_url (cd_open_url K v) = Inr u) \<or>
      (k = ''browser.extract_content'' \<and> map_sum id ec_url (cd_extract_content K v) = Inr u) \<or>
      (k = ''browser.get_interactive_snapshot'' \<and> map_sum id pn_url (cd_page_snapshot K v) = Inr u) \<or>
      (k = ''browser.click_element'' \<and> map_sum id ck_url (cd_click K v) = Inr u) \<or>
      (k = ''browser.type_text'' \<and> map_sum id tt_url (cd_type_text K v) = Inr u) \<or>
      (k = ''browser.fill_form'' \<and> map_sum id fi_url (cd_fill_form K v) = Inr u) \<or>
      (k = ''browser.select_option'' \<and> map_sum id so_url (cd_select_option K v) = Inr u) \<or>
      (k = ''browser.scroll_page'' \<and> map_sum id sl_url (cd_scroll K v) = Inr u) \<or>
      (k = ''browser.press_key'' \<and> map_sum id pk_url (cd_press_key K v) = Inr u) \<or>
      (k = ''browser.execute_js'' \<and> map_sum id xj_url (cd_execute_js K v) = Inr u) \<or>
      (k = ''browser.get_page_screenshot'' \<and> map_sum id sh_url (cd_screenshot K v) = Inr u) \<or>
      (k = ''browser.wait_for_element'' \<and> map_sum id wt_url (cd_wait K v) = Inr u))"


definition acts ::
    "('w, 'pg, 'el, 'v) browser_executor \<Rightarrow> browser_codec \<Rightarrow> ('w, 'pg, 'el, 'v) browser_driver \<Rightarrow> action_request \<Rightarrow> 'w \<Rightarrow> 'w \<Rightarrow> bool" where
  "acts E K D q s s' \<longleftrightarrow> (idle_step E)\<^sup>*\<^sup>* s s' \<or> (\<exists>u. requested_url K q u \<and> one_page E D u s s')"

lemma decoded: "andThen (lift (parsed r)) f = (case r of Inl e \<Rightarrow> raise (InvalidInput e) | Inr x \<Rightarrow> f x)"
  by (cases r) (simp_all add: lift_def parsed_def andThen_def raise_def)

lemma acts_raise: "moves (acts E K D q) (raise e)"
  by (simp add: moves_def raise_def acts_def)

lemma acts_on_page:
  assumes "\<And>i. moves (one_page E D (u i)) (f i)" and "\<And>i. r = Inr i \<Longrightarrow> requested_url K q (u i)"
  shows "moves (acts E K D q) (andThen (lift (parsed r)) f)"
  using assms by (cases r) (auto simp: decoded acts_raise, auto simp: moves_def acts_def)

lemma acts_idle:
  assumes "\<And>i. moves (idle_step E)\<^sup>*\<^sup>* (f i)"
  shows "moves (acts E K D q) (andThen (lift (parsed r)) f)"
  using assms by (cases r) (auto simp: decoded acts_raise, auto simp: moves_def acts_def)

lemma idle_actions:
  "moves (idle_step E)\<^sup>*\<^sup>* (download_file E i1)" "moves (idle_step E)\<^sup>*\<^sup>* (upload_file E i2)"
  "moves (idle_step E)\<^sup>*\<^sup>* (handle_dialog E i3)" "moves (idle_step E)\<^sup>*\<^sup>* (handle_permission_prompt E i4)"
  unfolding download_file_def upload_file_def handle_dialog_def handle_permission_prompt_def Let_def
  by (rule moves_then moves_invalid moves_clock moves_to_failed moves_store moves_ret)+

lemma run_browser_action_acts: "moves (acts E K D q) (run_browser_action E K D q)"
  unfolding run_browser_action_def Let_def
  by ((rule moves_if, rule acts_on_page, rule actions_on_one_page, simp add: requested_url_def)+,
      (rule moves_if acts_idle idle_actions acts_raise)+)

text \<open>
  C36. An action of a browser opens at most one page, at the URL of its own request, and touches the
  browser only through that page and the elements that it finds on it; an action whose URL is blank
  or whose input cannot be read leaves the browser alone.
\<close>

theorem browser_acts_on_one_page:
  assumes "browser_execute E K q s = Some (r, s')"
  shows "(idle_step E)\<^sup>*\<^sup>* s s' \<or>
    (\<exists>D u. be_browser E = Some D \<and> requested_url K q u \<and> trim u \<noteq> [] \<and>
       (case bd_new_page D ''about:blank'' s of
          (Inl e, s1) \<Rightarrow> s' = s1
        | (Inr pg, s1) \<Rightarrow> page_steps E D (trim u) pg s1 s'))"
proof (cases "be_browser E = None \<or> kind_text (req_action_kind q) \<notin> set KNOWN_BROWSER_ACTIONS")
  case True
  then show ?thesis using assms by (auto simp: browser_execute_def Let_def split: if_splits)
next
  case False
  then obtain D where D: "be_browser E = Some D" by auto
  have "acts E K D q s s'"
  proof (cases "kind_text (req_action_kind q) = ''browser.wait_for_element''")
    case True
    then show ?thesis
      using assms False D wait_on_one_page [of E D _ s r s']
      by (cases "cd_wait K (req_input q)") (auto simp: browser_execute_def acts_def requested_url_def)
  next
    case other: False
    then have "run_browser_action E K D q s = (r, s')" using assms False D by (simp add: browser_execute_def Let_def)
    then show ?thesis using run_browser_action_acts [of E K D q] by (simp add: moves_def) (metis snd_conv)
  qed
  then show ?thesis using D by (auto simp: acts_def one_page_def)
qed


section \<open>Every action returns\<close>

text \<open>Of the clock: a reading is the time, time does not run backwards, and sleeping takes as long as it says.\<close>

definition time_passes ::
    "('w \<Rightarrow> nat) \<Rightarrow> ('w, 'pg, 'el, 'v) browser_executor \<Rightarrow> ('w, 'pg, 'el, 'v) browser_driver \<Rightarrow> bool" where
  "time_passes time E D \<longleftrightarrow>
     (\<forall>s. fst (be_instant E s) = time s \<and> time s \<le> time (snd (be_instant E s))) \<and>
     (\<forall>n s. time s + n * 1000000 \<le> time (be_sleep E n s)) \<and>
     (\<forall>pg sel s. time s \<le> time (snd (bd_find_element D pg sel s)))"

lemma wait_loop_returns:
  assumes "time_passes time E D" and "0 < ws_poll_interval_ms y"
  shows "\<exists>z. wait_loop E D pg sel y start s = Some z \<and>
    (isl (fst z) \<longrightarrow> start + ws_timeout_ms y * 1000000 \<le> time (snd z) \<or> ws_timeout_ms y = 0)"
proof (induction "start + ws_timeout_ms y * 1000000 - time s" arbitrary: s rule: less_induct)
  case less
  obtain r s1 where f: "bd_find_element D pg sel s = (r, s1)" by (cases "bd_find_element D pg sel s")
  obtain t s2 where i: "be_instant E s1 = (t, s2)" by (cases "be_instant E s1")
  have "time s \<le> time (snd (bd_find_element D pg sel s))" and "fst (be_instant E s1) = time s1" "time s1 \<le> time (snd (be_instant E s1))"
    using assms(1) unfolding time_passes_def by blast+
  then have t: "time s \<le> time s1" "t = time s1" "t \<le> time s2" using f i by simp_all
  show ?case
  proof (cases r)
    case (Inr x)
    then show ?thesis using f by (subst wait_loop.simps) simp
  next
    case (Inl e)
    show ?thesis
    proof (cases "t - start \<ge> ws_timeout_ms y * 1000000")
      case True
      then have "start + ws_timeout_ms y * 1000000 \<le> time s2 \<or> ws_timeout_ms y = 0" using t by linarith
      then show ?thesis using f i Inl True by (subst wait_loop.simps) (simp add: Let_def)
    next
      case False
      let ?s3 = "be_sleep E (ws_poll_interval_ms y) s2"
      have "time s2 + ws_poll_interval_ms y * 1000000 \<le> time ?s3" using assms(1) by (simp add: time_passes_def)
      then have "time s < time ?s3" using t assms(2) by linarith
      then have "start + ws_timeout_ms y * 1000000 - time ?s3 < start + ws_timeout_ms y * 1000000 - time s" using False t by linarith
      from less [OF this] show ?thesis using f i Inl False by (subst wait_loop.simps) (simp add: Let_def)
    qed
  qed
qed

lemma effective_strategy_polls:
  "effective_strategy p w t = Inr y \<Longrightarrow> 0 < ws_poll_interval_ms y \<and> 0 < ws_timeout_ms y"
  by (auto simp: effective_strategy_def validate_strategy_def Let_def bind_result_Inr_iff split: if_splits)

text \<open>
  C37. Every browser action returns, also one that waits for an element that never appears: where
  time passes, the wait ends, and it reports a time-out only after the whole time that the
  policy allows.
\<close>

theorem browser_actions_return:
  assumes "\<And>D. be_browser E = Some D \<Longrightarrow> time_passes time E D"
  shows "(\<exists>r s'. browser_execute E K q s = Some (r, s')) \<and>
    (\<forall>D i x s1 e s2. be_browser E = Some D \<longrightarrow> wait_start E D i s = (Inr x, s1) \<longrightarrow> wait_for_element E D i s = Some (Inl e, s2) \<longrightarrow>
       (case x of (pg, sel, y, current, start) \<Rightarrow> start + ws_timeout_ms y * 1000000 \<le> time s2))"
proof -
  have loop: "\<exists>z. wait_loop E D pg sel y start s1 = Some z \<and> (isl (fst z) \<longrightarrow> start + ws_timeout_ms y * 1000000 \<le> time (snd z))"
    if "be_browser E = Some D" "wait_start E D i s = (Inr (pg, sel, y, current, start), s1)" for D i pg sel y current start s1
  proof -
    have "0 < ws_poll_interval_ms y" "0 < ws_timeout_ms y" using wait_started [OF that(2)] by (auto dest: effective_strategy_polls)
    then show ?thesis using wait_loop_returns [OF assms [OF that(1)], of y pg sel start s1] by auto
  qed
  have waits: "\<exists>r s'. wait_for_element E D i s = Some (r, s')" if D: "be_browser E = Some D" for D i
  proof (cases "wait_start E D i s")
    case (Pair r s1)
    show ?thesis
    proof (cases r)
      case (Inr x)
      obtain pg sel y current start where x: "x = (pg, sel, y, current, start)" by (cases x)
      with loop [OF D, of i] Pair Inr obtain z where "wait_loop E D pg sel y start s1 = Some z" by blast
      then show ?thesis by (cases z) (auto simp: wait_for_element_def Pair Inr x split: sum.split)
    qed (simp add: wait_for_element_def Pair)
  qed
  have "\<exists>r s'. browser_execute E K q s = Some (r, s')"
    using waits by (cases "run_browser_action E K (the (be_browser E)) q s")
      (auto simp: browser_execute_def Let_def split: option.split sum.split)
  moreover have "start + ws_timeout_ms y * 1000000 \<le> time s2"
    if D: "be_browser E = Some D" and start: "wait_start E D i s = (Inr (pg, sel, y, current, start), s1)"
      and late: "wait_for_element E D i s = Some (Inl e, s2)" for D i pg sel y current start s1 e s2
  proof -
    from loop [OF D start] obtain z where z: "wait_loop E D pg sel y start s1 = Some z"
        "isl (fst z) \<longrightarrow> start + ws_timeout_ms y * 1000000 \<le> time (snd z)" by blast
    have "fst (wait_found E sel current start t) \<noteq> Inl e" for t
      by (simp add: wait_found_def interacted_def andThen_def read_instant_def read_clock_at_def ret_def split: prod.split)
    then have "z = (Inl e, s2)"
      using late start z(1) by (cases z; cases "fst z") (auto simp: wait_for_element_def split: sum.splits, (metis fst_conv)+)
    then show ?thesis using z(2) by simp
  qed
  ultimately show ?thesis by auto
qed


section \<open>Texts in scripts\<close>

text \<open>
  A single-quoted literal of JavaScript, read from behind its opening quote: its text and what follows.
  A line break ends it with an error. Of the escapes the two that the code writes are read.
\<close>

fun js_string :: "string \<Rightarrow> (string \<times> string) option" where
  "js_string [] = None"
| "js_string (c # cs) =
     (if c = quote_char then Some ([], cs)
      else if c = CHR 0x0A \<or> c = CHR 0x0D then None
      else if c = CHR 0x5C then
        (case cs of
           d # ds \<Rightarrow> if d = quote_char \<or> d = CHR 0x5C then map_option (apfst ((#) d)) (js_string ds) else None
         | [] \<Rightarrow> None)
      else map_option (apfst ((#) c)) (js_string cs))"

definition no_line_break :: "string \<Rightarrow> bool" where
  "no_line_break t \<longleftrightarrow> CHR 0x0A \<notin> set t \<and> CHR 0x0D \<notin> set t"

lemma escape_js_simps [simp]:
  "escape_js [] = []"
  "escape_js (c # t) = (if c = quote_char then [CHR 0x5C, quote_char] else if c = CHR 0x5C then [CHR 0x5C, CHR 0x5C] else [c]) @ escape_js t"
  by (simp_all add: escape_js_def replace_char_def quote_char_def)

lemma js_string_escaped: "no_line_break t \<Longrightarrow> js_string (escape_js t @ quote_char # rest) = Some (t, rest)"
  by (induction t) (auto simp: no_line_break_def quote_char_def)

text \<open>
  C38. A selector, a value or a key that has no line break stays inside its literal, whatever quotes
  and backslashes it has: the page's JavaScript reads exactly the text that the request named, and
  goes on with the script of the code.
\<close>

theorem page_texts_stay_literals:
  assumes "no_line_break sel" and "no_line_break t"
  shows "(\<exists>rest rest'. select_script sel t = select_head @ quote_char # rest \<and>
        js_string rest = Some (sel, select_middle @ quote_char # rest') \<and> js_string rest' = Some (t, select_tail)) \<and>
    (\<exists>rest after. scroll_to_script sel = ''(() => { const el = document.querySelector('' @ quote_char # rest \<and>
        js_string rest = Some (sel, after) \<and>
        after = ''); if (el) el.scrollIntoView({behavior:'' @ quoted ''smooth'' @ ''}); return !!el; })()'') \<and>
    (\<exists>rest. key_script t = ''document.dispatchEvent(new KeyboardEvent('' @ quoted ''keydown'' @ '', {key: '' @ quote_char # rest \<and>
        js_string rest = Some (t, ''}))''))"
  using assms by (auto simp: select_script_def scroll_to_script_def key_script_def quoted_def js_string_escaped)

theorem page_texts_stay_literals_witness:
  "\<exists>rest. key_script [quote_char, CHR 0x5C] = ''document.dispatchEvent(new KeyboardEvent('' @ quoted ''keydown'' @ '', {key: '' @ quote_char # rest \<and>
     js_string rest = Some ([quote_char, CHR 0x5C], ''}))'')"
proof -
  have "no_line_break [quote_char, CHR 0x5C]" by (simp add: no_line_break_def quote_char_def)
  from page_texts_stay_literals [OF this this] show ?thesis by blast
qed

text \<open>A line break in a value makes the script no program.\<close>

lemma js_string_broken: "no_line_break t \<Longrightarrow> js_string (escape_js t @ CHR 0x0A # rest) = None"
  by (induction t) (auto simp: no_line_break_def quote_char_def)

lemma line_break_breaks_script:
  assumes "no_line_break t"
  shows "\<exists>rest. key_script (t @ CHR 0x0A # u) = ''document.dispatchEvent(new KeyboardEvent('' @ quoted ''keydown'' @ '', {key: '' @ quote_char # rest \<and>
    js_string rest = None"
proof -
  have "escape_js (t @ v) = escape_js t @ escape_js v" for v by (induction t) simp_all
  then show ?thesis using js_string_broken [OF assms] by (simp add: key_script_def quoted_def quote_char_def)
qed

section \<open>What the executor leaves undone\<close>

text \<open>A download is a success without content.\<close>

lemma download_has_no_content:
  assumes "download_file E i s = (Inr r, s')"
  shows "\<exists>kvs. res_payload r = PJson (JObject kvs) \<and> m_get kvs ''size_bytes'' = Some (json_nat 0) \<and>
    m_get kvs ''sha256'' = Some (JString (be_sha256 E []))"
  using assms
  by (auto simp: download_file_def andThen_Inr_iff invalid_def lift_def parsed_def json_result_def json_object_def ret_def
      download_result_from_bytes_def download_from_bytes_def bind_result_Inr_iff nonblank_def split: sum.splits if_splits)

text \<open>An upload is never done, and a person's approval only leads to the same question.\<close>

lemma upload_never_done: "\<exists>r s'. upload_file E i s = (Inr r, s') \<and> res_status r \<noteq> StCompleted"
  by (auto simp: upload_file_def andThen_def read_clock_at_def ret_def json_result_def Let_def split: prod.split)

text \<open>Three kinds are known and not supported.\<close>

lemma known_but_not_supported:
  assumes "kind_text (req_action_kind q) \<in> {''browser.capture_snapshot'', ''browser.summarize_page'', ''browser.compare_pages''}"
    and "be_browser E = Some D"
  shows "browser_execute E K q s = Some (Inl (NotSupported (req_action_kind q)), s)"
  using assms by (auto simp: browser_execute_def run_browser_action_def KNOWN_BROWSER_ACTIONS_def raise_def)

text \<open>A form with a blank selector is refused after the fields before it are filled.\<close>

lemma half_filled_form:
  assumes "fill_fields D pg fs s = (Inr (), s1)" and "trim (bf_selector f) = []"
  shows "fill_fields D pg (fs @ f # gs) s = (Inl (InvalidInput (browser_message EmptySelector)), s1)"
  using assms
proof (induction fs arbitrary: s)
  case Nil
  then show ?case by (simp add: ret_def andThen_def invalid_def lift_def parsed_def required_selector_def)
next
  case (Cons g fs)
  then show ?case by (auto simp: andThen_Inr_iff) (auto simp: andThen_def)
qed

section \<open>An example browser\<close>

text \<open>A world that is the time; pages and elements have no content, and no element is ever found.\<close>

definition empty_driver :: "(nat, unit, unit, unit) browser_driver" where
  "empty_driver =
     \<lparr>bd_new_page = (\<lambda>_. ret ()), bd_goto = (\<lambda>_ _. ret ()), bd_evaluate = (\<lambda>_ _. ret ()), bd_content = (\<lambda>_. ret []),
      bd_find_element = (\<lambda>_ _. raise ''none''), bd_screenshot = (\<lambda>_ _ _. ret []), bd_click = (\<lambda>_. ret ()), bd_press_key = (\<lambda>_ _. ret ()),
      bd_type_str = (\<lambda>_ _. ret ()), bd_element_screenshot = (\<lambda>_ _. ret []), bd_text_value = (\<lambda>_. Inr ''t''), bd_texts_value = (\<lambda>_. Inr []),
      bd_json_value = (\<lambda>_. Inr JNull), bd_snapshot_value = (\<lambda>_. Inl ''none'')\<rparr>"

definition empty_browser :: "(nat, unit, unit, unit) browser_executor" where
  "empty_browser =
     \<lparr>be_config = browser_config_default, be_browser = Some empty_driver, be_store = None, be_now = (\<lambda>s. (int s, s)), be_instant = (\<lambda>s. (s, s)),
      be_sleep = (\<lambda>n s. s + n * 1000000), be_sha256 = (\<lambda>_. []), be_time_json = (\<lambda>_. JNull), be_wait_debug = (\<lambda>_. []),
      be_permission_debug = (\<lambda>_. []), be_elements_js = [], be_snapshot_json = (\<lambda>_. Inr JNull), be_audit_json = (\<lambda>_. JNull),
      be_dialog_json = (\<lambda>_ _. (JNull, JNull)), be_permission_json = (\<lambda>_ _. (JNull, JNull))\<rparr>"

definition example_codec :: browser_codec where
  "example_codec =
     \<lparr>cd_open_url = (\<lambda>_. Inr \<lparr>ou_url = ''u'', ou_take_snapshot = False\<rparr>), cd_extract_content = (\<lambda>_. Inl []), cd_page_snapshot = (\<lambda>_. Inl []),
      cd_click = (\<lambda>_. Inl []), cd_type_text = (\<lambda>_. Inl []), cd_fill_form = (\<lambda>_. Inl []), cd_select_option = (\<lambda>_. Inl []),
      cd_scroll = (\<lambda>_. Inl []), cd_press_key = (\<lambda>_. Inl []), cd_execute_js = (\<lambda>_. Inl []),
      cd_wait = (\<lambda>_. Inr \<lparr>wt_url = ''u'', wt_selector = ''a'', wt_timeout_ms = 2, wt_wait_until = WaitLoad\<rparr>), cd_screenshot = (\<lambda>_. Inl []),
      cd_download = (\<lambda>_. Inl []), cd_upload = (\<lambda>_. Inl []), cd_dialog = (\<lambda>_. Inl []), cd_permission = (\<lambda>_. Inl [])\<rparr>"

abbreviation example_browser_request :: "string \<Rightarrow> action_request" where
  "example_browser_request k \<equiv>
     \<lparr>req_action_id = ActionId ''a'', req_action_kind = ActionKind k, req_input = JNull, req_requested_by = ''x'',
      req_conversation_id = None, req_message_id = None, req_requested_at = 0\<rparr>"

theorem browser_acts_on_one_page_witness:
  "\<exists>r. browser_execute empty_browser example_codec (example_browser_request ''browser.open_url'') 7 = Some (Inr r, 7) \<and>
     ((idle_step empty_browser)\<^sup>*\<^sup>* 7 7 \<or> page_steps empty_browser empty_driver ''u'' () 7 7)"
proof -
  let ?q = "example_browser_request ''browser.open_url''"
  have u: "trim ''u'' = ''u''" by code_simp
  have "browser_execute empty_browser example_codec ?q 7 = Some (open_url empty_browser empty_driver \<lparr>ou_url = ''u'', ou_take_snapshot = False\<rparr> 7)"
    by (simp add: browser_execute_def run_browser_action_def KNOWN_BROWSER_ACTIONS_def decoded empty_browser_def example_codec_def)
  moreover have "\<exists>r. open_url empty_browser empty_driver \<lparr>ou_url = ''u'', ou_take_snapshot = False\<rparr> 7 = (Inr r, 7)"
    by (simp add: open_url_def invalid_def parsed_def browser_validate_url_def u andThen_def visit_def to_failed_def or_default_def current_url_def page_url_def
      page_title_def page_body_text_def page_string_def to_browser_def read_clock_at_def empty_driver_def empty_browser_def ret_def lift_def)
  ultimately obtain r where run: "browser_execute empty_browser example_codec ?q 7 = Some (Inr r, 7)" by auto
  from browser_acts_on_one_page [OF run] have "(idle_step empty_browser)\<^sup>*\<^sup>* 7 7 \<or> (\<exists>u. page_steps empty_browser empty_driver (trim u) () 7 7)"
    by (auto simp: empty_browser_def empty_driver_def ret_def)
  then show ?thesis using run by blast
qed

theorem browser_actions_return_witness:
  "\<exists>r s'. browser_execute empty_browser example_codec (example_browser_request ''browser.wait_for_element'') 0 = Some (r, s')"
proof -
  have "time_passes (\<lambda>s. s) empty_browser D" if "be_browser empty_browser = Some D" for D
    using that by (auto simp: time_passes_def empty_browser_def empty_driver_def raise_def)
  from browser_actions_return [OF this] show ?thesis by blast
qed

end
