(* ===== verification/Host_Events.thy ===== *)
theory Host_Events
  imports File_System Record_Log Core_Types "HOL-Library.Product_Lexorder"
begin
text \<open>
  The log of host events, \<open>agentos-kernel/src/event_store.rs\<close>: numbered events in memory, the same
  on disk as JSON lines, and the cursors with which consumers read on. The memory is guarded by a
  lock; the file is written after the lock is released. \<open>serde_json\<close> is the line codec of
  \<open>Record_Log\<close>; a point in time that the code reads is an argument.
\<close>

section \<open>Events\<close>

definition CURRENT_KERNEL_EVENT_SCHEMA_VERSION :: nat where "CURRENT_KERNEL_EVENT_SCHEMA_VERSION = 1"

datatype (plugins only: code size) kernel_event_id = KernelEventId (event_number: nat)

record kernel_event_cursor =
  kc_last_seen :: "kernel_event_id option"

definition host_cursor_beginning :: kernel_event_cursor where
  "host_cursor_beginning = \<lparr>kc_last_seen = None\<rparr>"

definition host_cursor_after :: "kernel_event_id \<Rightarrow> kernel_event_cursor" where
  "host_cursor_after i = \<lparr>kc_last_seen = Some i\<rparr>"

record kernel_aggregate_ref =
  ka_aggregate_type :: string
  ka_aggregate_id :: string

datatype (plugins only: code size) redaction_class = PublicMetadata | UserContent | SensitiveContent | SecretContent

record kernel_event_actor =
  kx_actor_id :: string
  kx_actor_kind :: string

definition system_actor :: kernel_event_actor where
  "system_actor = \<lparr>kx_actor_id = ''system'', kx_actor_kind = ''system''\<rparr>"

datatype (plugins only: code size) kernel_event_kind = KernelEventKind string

record kernel_event =
  kv_event_id :: kernel_event_id
  kv_schema_version :: nat
  kv_event_kind :: kernel_event_kind
  kv_aggregate :: kernel_aggregate_ref
  kv_occurred_at :: datetime
  kv_actor :: kernel_event_actor
  kv_causation_id :: "string option"
  kv_correlation_id :: "string option"
  kv_redaction_class :: redaction_class
  kv_payload :: json

definition kernel_event_new :: "kernel_event_id \<Rightarrow> kernel_event_kind \<Rightarrow> kernel_aggregate_ref \<Rightarrow> json \<Rightarrow> datetime \<Rightarrow> kernel_event" where
  "kernel_event_new i k a p now =
     \<lparr>kv_event_id = i, kv_schema_version = CURRENT_KERNEL_EVENT_SCHEMA_VERSION, kv_event_kind = k, kv_aggregate = a,
      kv_occurred_at = now, kv_actor = system_actor, kv_causation_id = None, kv_correlation_id = None,
      kv_redaction_class = PublicMetadata, kv_payload = p\<rparr>"

abbreviation number_of :: "kernel_event \<Rightarrow> nat" where
  "number_of e \<equiv> event_number (kv_event_id e)"

datatype (plugins only: code size) event_store_error =
    EventExists nat | NonMonotonicId nat nat | EventIo io_error | EventSerde string

section \<open>The log in memory\<close>

record memory_event_store =
  me_events :: "kernel_event list"
  me_ids :: "nat set"

definition memory_event_store_new :: memory_event_store where
  "memory_event_store_new = \<lparr>me_events = [], me_ids = {}\<rparr>"

type_synonym 'a memory_event_prog = "(memory_event_store, event_store_error, 'a) prog"

definition append_to_memory :: "kernel_event \<Rightarrow> kernel_event_cursor memory_event_prog" where
  "append_to_memory e m =
     (if number_of e \<in> me_ids m then (Inl (EventExists (number_of e)), m)
      else if me_events m \<noteq> [] \<and> number_of e \<le> number_of (last (me_events m))
      then (Inl (NonMonotonicId (number_of (last (me_events m))) (number_of e)), m)
      else (Inr (host_cursor_after (kv_event_id e)), \<lparr>me_events = me_events m @ [e], me_ids = insert (number_of e) (me_ids m)\<rparr>))"

definition memory_append_idempotent :: "kernel_event \<Rightarrow> kernel_event_cursor memory_event_prog" where
  "memory_append_idempotent e m =
     (if number_of e \<in> me_ids m then (Inr (host_cursor_after (kv_event_id e)), m) else append_to_memory e m)"

definition host_events_after :: "kernel_event_cursor option \<Rightarrow> memory_event_store \<Rightarrow> kernel_event list" where
  "host_events_after cursor m =
     (let last_seen = map_option event_number (Option.bind cursor kc_last_seen) in
      filter (\<lambda>e. case last_seen of None \<Rightarrow> True | Some n \<Rightarrow> n < number_of e) (me_events m))"

definition host_latest_cursor :: "memory_event_store \<Rightarrow> kernel_event_cursor option" where
  "host_latest_cursor m = (if me_events m = [] then None else Some (host_cursor_after (kv_event_id (last (me_events m)))))"

definition events_for_aggregate :: "kernel_aggregate_ref \<Rightarrow> memory_event_store \<Rightarrow> kernel_event list" where
  "events_for_aggregate a m = filter (\<lambda>e. kv_aggregate e = a) (me_events m)"

text \<open>Aggregates are ordered by type, then by identifier.\<close>

definition aggregate_key :: "kernel_aggregate_ref \<Rightarrow> string \<times> string" where
  "aggregate_key a = (ka_aggregate_type a, ka_aggregate_id a)"

definition group_events_by_aggregate :: "kernel_event list \<Rightarrow> (string \<times> string, kernel_event list) hmap" where
  "group_events_by_aggregate es =
     fold (\<lambda>e g. let k = aggregate_key (kv_aggregate e) in
       bt_put k ((case m_get g k of None \<Rightarrow> [] | Some xs \<Rightarrow> xs) @ [e]) g) es []"

section \<open>The log on disk\<close>

record event_log =
  el_memory :: memory_event_store
  el_files :: fs_node

type_synonym 'a event_log_prog = "(event_log, event_store_error, 'a) prog"

definition on_files :: "'a fs_prog \<Rightarrow> 'a event_log_prog" where
  "on_files f s = (case f (el_files s) of
     (Inl e, t) \<Rightarrow> (Inl (EventIo e), s\<lparr>el_files := t\<rparr>)
   | (Inr x, t) \<Rightarrow> (Inr x, s\<lparr>el_files := t\<rparr>))"

definition on_memory :: "'a memory_event_prog \<Rightarrow> 'a event_log_prog" where
  "on_memory f s = (case f (el_memory s) of (r, m) \<Rightarrow> (r, s\<lparr>el_memory := m\<rparr>))"

text \<open>The loop of \<open>open\<close> over the lines of the file.\<close>

fun replay_lines :: "kernel_event line_codec \<Rightarrow> string list \<Rightarrow> unit memory_event_prog" where
  "replay_lines C [] m = (Inr (), m)"
| "replay_lines C (l # ls) m =
     (if \<not> utf8_valid l then (Inl (EventIo IoInvalidData), m)
      else if trim l = [] then replay_lines C ls m
      else (case dec_record C l of
          Inl msg \<Rightarrow> (Inl (EventSerde msg), m)
        | Inr e \<Rightarrow> andThen (memory_append_idempotent e) (\<lambda>_. replay_lines C ls) m))"

definition open_event_log :: "kernel_event line_codec \<Rightarrow> path \<Rightarrow> fs_node \<Rightarrow> (event_store_error + unit) \<times> event_log" where
  "open_event_log C p t =
     andThen (if p = [] then ret () else on_files (fs_create_dir_all (butlast p))) (\<lambda>_ s.
       if path_exists p (el_files s)
       then andThen (on_files (fs_read p)) (\<lambda>b. on_memory (replay_lines C (file_lines b))) s
       else on_files (fs_append p []) s)
     \<lparr>el_memory = memory_event_store_new, el_files = t\<rparr>"

definition append_line :: "kernel_event line_codec \<Rightarrow> path \<Rightarrow> kernel_event \<Rightarrow> unit event_log_prog" where
  "append_line C p e =
     andThen (on_files (fs_append p [])) (\<lambda>_.
     andThen (on_files (fs_append p (enc_record C e))) (\<lambda>_.
     on_files (fs_append p [newline])))"

definition log_append :: "kernel_event line_codec \<Rightarrow> path \<Rightarrow> kernel_event \<Rightarrow> kernel_event_cursor event_log_prog" where
  "log_append C p e =
     andThen (on_memory (append_to_memory e)) (\<lambda>c.
     andThen (append_line C p e) (\<lambda>_. ret c))"

definition log_append_idempotent :: "kernel_event line_codec \<Rightarrow> path \<Rightarrow> kernel_event \<Rightarrow> kernel_event_cursor event_log_prog" where
  "log_append_idempotent C p e s =
     (if \<exists>x \<in> set (host_events_after None (el_memory s)). kv_event_id x = kv_event_id e
      then (Inr (host_cursor_after (kv_event_id e)), s)
      else log_append C p e s)"

section \<open>What the memory holds\<close>

text \<open>The numbers go up, and the set is that of the numbers.\<close>

definition events_inv :: "memory_event_store \<Rightarrow> bool" where
  "events_inv m \<longleftrightarrow> sorted_wrt (<) (map number_of (me_events m)) \<and> me_ids m = set (map number_of (me_events m))"

lemma events_inv_new [simp]: "events_inv memory_event_store_new"
  by (simp add: events_inv_def memory_event_store_new_def)

lemma sorted_wrt_last: "sorted_wrt (<) (ns :: nat list) \<Longrightarrow> n \<in> set ns \<Longrightarrow> n \<le> last ns"
  by (induction ns) (auto simp: less_imp_le)

lemma append_to_memory_Inr:
  assumes "events_inv m" and "append_to_memory e m = (Inr c, m')"
  shows "events_inv m'" and "me_events m' = me_events m @ [e]" and "c = host_cursor_after (kv_event_id e)"
    and "\<forall>x \<in> set (me_events m). number_of x < number_of e"
proof -
  from assms(2) have new: "number_of e \<notin> me_ids m" and up: "me_events m = [] \<or> number_of (last (me_events m)) < number_of e"
    and m': "m' = \<lparr>me_events = me_events m @ [e], me_ids = insert (number_of e) (me_ids m)\<rparr>" and c: "c = host_cursor_after (kv_event_id e)"
    by (auto simp: append_to_memory_def split: if_splits)
  show below: "\<forall>x \<in> set (me_events m). number_of x < number_of e"
  proof
    fix x assume x: "x \<in> set (me_events m)"
    then have "number_of x \<le> last (map number_of (me_events m))"
      using assms(1) by (intro sorted_wrt_last) (auto simp: events_inv_def)
    then show "number_of x < number_of e" using up x by (cases "me_events m = []") (auto simp: last_map)
  qed
  show "events_inv m'" using assms(1) below by (auto simp: events_inv_def m' sorted_wrt_append)
qed (use assms(2) in \<open>auto simp: append_to_memory_def split: if_splits\<close>)

lemma append_to_memory_Inl: "append_to_memory e m = (Inl x, m') \<Longrightarrow> m' = m"
  by (auto simp: append_to_memory_def split: if_splits)

lemma append_to_memory_above:
  assumes "events_inv m" and "\<forall>x \<in> set (me_events m). number_of x < number_of e"
  shows "append_to_memory e m = (Inr (host_cursor_after (kv_event_id e)), \<lparr>me_events = me_events m @ [e], me_ids = insert (number_of e) (me_ids m)\<rparr>)"
  using assms by (cases "me_events m = []") (auto simp: append_to_memory_def events_inv_def not_le)


section \<open>What the file holds\<close>

definition event_file_holds :: "kernel_event line_codec \<Rightarrow> path \<Rightarrow> kernel_event list \<Rightarrow> fs_node \<Rightarrow> bool" where
  "event_file_holds C p es t \<longleftrightarrow>
     (\<exists>b. file_at p t = Some b \<and> at_line_start (Some b) \<and> read_log C (Some b) = Inr es)"

definition event_log_inv :: "kernel_event line_codec \<Rightarrow> path \<Rightarrow> event_log \<Rightarrow> bool" where
  "event_log_inv C p s \<longleftrightarrow> p \<noteq> [] \<and> events_inv (el_memory s) \<and> event_file_holds C p (me_events (el_memory s)) (el_files s)"

lemma on_files_Inr: "on_files f s = (Inr x, s') \<longleftrightarrow> (\<exists>t. f (el_files s) = (Inr x, t) \<and> s' = s\<lparr>el_files := t\<rparr>)"
  by (auto simp: on_files_def split: prod.splits sum.splits)

lemma on_memory_run: "on_memory f s = (r, s') \<longleftrightarrow> (\<exists>m. f (el_memory s) = (r, m) \<and> s' = s\<lparr>el_memory := m\<rparr>)"
  by (auto simp: on_memory_def split: prod.splits)

lemma append_line_holds:
  assumes "event_file_holds C p es (el_files s)" and "record_ok C e" and "append_line C p e s = (Inr (), s')"
  shows "event_file_holds C p (es @ [e]) (el_files s')" and "el_memory s' = el_memory s"
proof -
  from assms(3) obtain t1 t2 t3 where steps: "fs_append p [] (el_files s) = (Inr (), t1)"
      "fs_append p (enc_record C e) t1 = (Inr (), t2)" "fs_append p [newline] t2 = (Inr (), t3)"
      and s': "s' = s\<lparr>el_files := t3\<rparr>"
    by (auto simp: append_line_def andThen_Inr_iff on_files_Inr)
  from assms(1) obtain b where b: "file_at p (el_files s) = Some b" "at_line_start (Some b)" "read_log C (Some b) = Inr es"
    by (auto simp: event_file_holds_def)
  have "file_at p t1 = Some b" using fs_append_file [OF steps(1), of p] b(1) by simp
  with fs_append_file [OF steps(2), of p] have "file_at p t2 = Some (b @ enc_record C e)" by simp
  with fs_append_file [OF steps(3), of p] have "Some (the (file_at p t3)) = append_record C e (Some b)" "file_at p t3 \<noteq> None"
    by (simp_all add: append_record_def)
  then show "event_file_holds C p (es @ [e]) (el_files s')"
    using read_appended [OF b(2,3) assms(2)] by (auto simp: event_file_holds_def s')
  show "el_memory s' = el_memory s" by (simp add: s')
qed

lemma log_append_inv:
  assumes "event_log_inv C p s" and "record_ok C e" and "log_append C p e s = (Inr c, s')"
  shows "event_log_inv C p s'" and "me_events (el_memory s') = me_events (el_memory s) @ [e]"
proof -
  from assms(3) obtain m where m: "append_to_memory e (el_memory s) = (Inr c, m)"
      and line: "append_line C p e (s\<lparr>el_memory := m\<rparr>) = (Inr (), s')"
    by (auto simp: log_append_def andThen_Inr_iff on_memory_run ret_def)
  have inv: "events_inv (el_memory s)" "p \<noteq> []" "event_file_holds C p (me_events (el_memory s)) (el_files s)"
    using assms(1) by (simp_all add: event_log_inv_def)
  note mem = append_to_memory_Inr [OF inv(1) m]
  have "el_memory s' = m" using append_line_holds(2) [OF _ assms(2) line] inv(3) by simp
  then show "me_events (el_memory s') = me_events (el_memory s) @ [e]" using mem by simp
  have "event_file_holds C p (me_events (el_memory s) @ [e]) (el_files s')"
    using append_line_holds(1) [OF _ assms(2) line] inv(3) by simp
  then show "event_log_inv C p s'" using mem inv(2) \<open>el_memory s' = m\<close> by (simp add: event_log_inv_def)
qed

section \<open>Any sequence of appends\<close>

datatype (plugins only: code size) log_op = AppendOp kernel_event | IdempotentOp kernel_event

fun run_log_op :: "kernel_event line_codec \<Rightarrow> path \<Rightarrow> log_op \<Rightarrow> kernel_event_cursor event_log_prog" where
  "run_log_op C p (AppendOp e) = log_append C p e"
| "run_log_op C p (IdempotentOp e) = log_append_idempotent C p e"

fun op_event :: "log_op \<Rightarrow> kernel_event" where
  "op_event (AppendOp e) = e"
| "op_event (IdempotentOp e) = e"

fun run_log_ops :: "kernel_event line_codec \<Rightarrow> path \<Rightarrow> log_op list \<Rightarrow> event_log \<Rightarrow> (event_store_error + kernel_event_cursor) list \<times> event_log" where
  "run_log_ops C p [] s = ([], s)"
| "run_log_ops C p (x # xs) s = (let (r, s1) = run_log_op C p x s; (rs, s2) = run_log_ops C p xs s1 in (r # rs, s2))"

definition write_failure :: "event_store_error + kernel_event_cursor \<Rightarrow> bool" where
  "write_failure r = (case r of Inl e \<Rightarrow> (case e of EventIo _ \<Rightarrow> True | EventSerde _ \<Rightarrow> True | _ \<Rightarrow> False) | Inr _ \<Rightarrow> False)"

text \<open>Of the events that a sequence is asked to append, those that it accepts.\<close>

definition accepted :: "event_store_error + kernel_event_cursor \<Rightarrow> log_op \<Rightarrow> event_log \<Rightarrow> kernel_event list" where
  "accepted r x s =
     (if isl r \<or> (\<exists>e. x = IdempotentOp e \<and> number_of e \<in> me_ids (el_memory s)) then [] else [op_event x])"

lemma log_append_refused:
  assumes "log_append C p e s = (Inl x, s')" and "\<not> write_failure (Inl x)"
  shows "s' = s"
proof (cases "append_to_memory e (el_memory s)")
  case (Pair r m)
  show ?thesis
  proof (cases r)
    case (Inl y)
    then show ?thesis
      using assms Pair append_to_memory_Inl [of e "el_memory s" y m] by (auto simp: log_append_def andThen_def on_memory_def)
  next
    case (Inr c)
    then show ?thesis
      using assms Pair
      by (auto simp: log_append_def append_line_def andThen_def on_memory_def on_files_def write_failure_def ret_def split: prod.splits sum.splits)
  qed
qed

lemma known_event:
  assumes "events_inv m"
  shows "(\<exists>x \<in> set (host_events_after None m). kv_event_id x = kv_event_id e) \<longleftrightarrow> number_of e \<in> me_ids m"
  using assms by (auto simp: events_inv_def host_events_after_def image_iff) (metis kernel_event_id.expand)+

lemma run_log_op_inv:
  assumes "event_log_inv C p s" and "record_ok C (op_event x)" and "run_log_op C p x s = (r, s')" and "\<not> write_failure r"
  shows "event_log_inv C p s'" and "me_events (el_memory s') = me_events (el_memory s) @ accepted r x s"
proof -
  have inv: "events_inv (el_memory s)" using assms(1) by (simp add: event_log_inv_def)
  have direct: "event_log_inv C p s' \<and> me_events (el_memory s') = me_events (el_memory s) @ (if isl r then [] else [op_event x])"
    if "log_append C p (op_event x) s = (r, s')"
    using that log_append_refused [of C p "op_event x" s _ s'] log_append_inv [OF assms(1,2), of _ s'] assms(1,4)
    by (cases r) auto
  show "event_log_inv C p s'" and "me_events (el_memory s') = me_events (el_memory s) @ accepted r x s"
    using direct assms(1,3) known_event [OF inv]
    by (cases x; auto simp: accepted_def log_append_idempotent_def split: if_splits)+
qed

lemma run_log_ops_inv:
  assumes "event_log_inv C p s" and "\<And>x. x \<in> set ops \<Longrightarrow> record_ok C (op_event x)"
    and "run_log_ops C p ops s = (rs, s')" and "\<And>r. r \<in> set rs \<Longrightarrow> \<not> write_failure r"
  shows "event_log_inv C p s' \<and> (\<exists>new. me_events (el_memory s') = me_events (el_memory s) @ new)"
  using assms
proof (induction ops arbitrary: s rs)
  case (Cons x ops)
  obtain r s1 where x: "run_log_op C p x s = (r, s1)" by (cases "run_log_op C p x s")
  obtain rs' where rest: "run_log_ops C p ops s1 = (rs', s')" "rs = r # rs'"
    using Cons.prems(3) x by (auto split: prod.splits)
  have r: "\<not> write_failure r" "\<And>r. r \<in> set rs' \<Longrightarrow> \<not> write_failure r" using Cons.prems(4) rest(2) by simp_all
  have ok: "record_ok C (op_event x)" using Cons.prems(2) by simp
  note step = run_log_op_inv [OF Cons.prems(1) ok x r(1)]
  from Cons.IH [OF step(1) _ rest(1) r(2)] Cons.prems(2) step(2) show ?case by auto
qed simp


section \<open>Opening again\<close>

lemma replay_of_records:
  assumes "read_records C ls = Inr es" and "events_inv m" and "sorted_wrt (<) (map number_of (me_events m @ es))"
  shows "\<exists>m'. replay_lines C ls m = (Inr (), m') \<and> events_inv m' \<and> me_events m' = me_events m @ es"
  using assms
proof (induction ls arbitrary: m es)
  case (Cons l ls)
  show ?case
  proof (cases "trim l = []")
    case True
    then show ?thesis using Cons by (auto split: if_splits)
  next
    case False
    with Cons.prems(1) obtain e rs where e: "utf8_valid l" "dec_record C l = Inr e" "read_records C ls = Inr rs" "es = e # rs"
      by (auto simp: bind_result_Inr_iff split: if_splits sum.splits)
    have above: "\<forall>x \<in> set (me_events m). number_of x < number_of e"
      using Cons.prems(3) e(4) by (auto simp: sorted_wrt_append)
    define m1 where "m1 = \<lparr>me_events = me_events m @ [e], me_ids = insert (number_of e) (me_ids m)\<rparr>"
    have one: "append_to_memory e m = (Inr (host_cursor_after (kv_event_id e)), m1)"
      using append_to_memory_above [OF Cons.prems(2) above] by (simp add: m1_def)
    have "number_of e \<notin> me_ids m" using above Cons.prems(2) by (auto simp: events_inv_def)
    with one have idem: "memory_append_idempotent e m = (Inr (host_cursor_after (kv_event_id e)), m1)"
      by (simp add: memory_append_idempotent_def)
    have "events_inv m1" using append_to_memory_Inr(1) [OF Cons.prems(2) one] .
    moreover have "sorted_wrt (<) (map number_of (me_events m1 @ rs))" using Cons.prems(3) e(4) by (simp add: m1_def)
    ultimately obtain m' where "replay_lines C ls m1 = (Inr (), m')" "events_inv m'" "me_events m' = me_events m1 @ rs"
      using Cons.IH [OF e(3)] by blast
    then show ?thesis using False e idem by (auto simp: andThen_def m1_def)
  qed
qed simp

lemma events_inv_eq: "events_inv m \<Longrightarrow> events_inv m' \<Longrightarrow> me_events m' = me_events m \<Longrightarrow> m' = m"
  by (cases m; cases m') (simp add: events_inv_def)

lemma parent_dir:
  assumes "file_at p t = Some b" and "p \<noteq> []"
  shows "fs_create_dir_all (butlast p) t = (Inr (), t)"
proof -
  have "node_at (butlast p @ [last p]) t = Some (FFile b)" using assms by (simp add: file_at_node)
  then obtain n where n: "node_at (butlast p) t = Some n" "node_at [last p] n = Some (FFile b)"
    by (auto simp: node_at_append bind_eq_Some_conv)
  then obtain es where "n = FDir es" by (cases n) auto
  then show ?thesis
    using make_dirs_append [of "butlast p" t "FDir es" "[]"] n(1) by (simp add: fs_create_dir_all_def changed_def put_node_same)
qed

lemma reopened:
  assumes "event_log_inv C p s"
  shows "open_event_log C p (el_files s) = (Inr (), s)"
proof -
  from assms obtain b where b: "file_at p (el_files s) = Some b" "read_records C (file_lines b) = Inr (me_events (el_memory s))"
      and p: "p \<noteq> []" and inv: "events_inv (el_memory s)"
    by (auto simp: event_log_inv_def event_file_holds_def read_log_def)
  have "\<exists>m'. replay_lines C (file_lines b) memory_event_store_new = (Inr (), m') \<and> events_inv m' \<and> me_events m' = me_events (el_memory s)"
    using replay_of_records [OF b(2) events_inv_new] inv by (simp add: memory_event_store_new_def events_inv_def)
  then have "replay_lines C (file_lines b) memory_event_store_new = (Inr (), el_memory s)"
    using events_inv_eq [OF inv] by blast
  moreover have "fs_read p (el_files s) = (Inr b, el_files s)" using b(1) by (simp add: fs_read_file)
  moreover have "path_exists p (el_files s)" by (rule file_at_exists [OF b(1)])
  ultimately show ?thesis
    using parent_dir [OF b(1) p] p by (simp add: open_event_log_def andThen_def on_files_def on_memory_def)
qed

lemma opened_new:
  assumes "open_event_log C p t = (Inr (), s)" and "\<not> path_exists p t" and "p \<noteq> []"
  shows "event_log_inv C p s" and "me_events (el_memory s) = []"
proof -
  from assms obtain t1 where t1: "fs_create_dir_all (butlast p) t = (Inr (), t1)"
      and rest: "(if path_exists p t1 then andThen (on_files (fs_read p)) (\<lambda>b. on_memory (replay_lines C (file_lines b)))
        else on_files (fs_append p [])) \<lparr>el_memory = memory_event_store_new, el_files = t1\<rparr> = (Inr (), s)"
    by (auto simp: open_event_log_def andThen_Inr_iff on_files_Inr split: if_splits)
  have no_file: "file_at p t1 = None" using fs_create_dir_all_file [OF t1, of p] file_at_exists [of p t] assms(2) by (cases "file_at p t") auto
  have new: "on_files (fs_append p []) \<lparr>el_memory = memory_event_store_new, el_files = t1\<rparr> = (Inr (), s)"
    using rest no_file by (auto simp: andThen_Inr_iff on_files_Inr fs_read_file split: if_splits)
  then obtain t2 where t2: "fs_append p [] t1 = (Inr (), t2)" "s = \<lparr>el_memory = memory_event_store_new, el_files = t2\<rparr>"
    by (auto simp: on_files_Inr)
  have "file_at p t2 = Some []" using fs_append_file [OF t2(1), of p] no_file by simp
  then show "event_log_inv C p s" and "me_events (el_memory s) = []"
    using assms(3) by (simp_all add: t2(2) event_log_inv_def event_file_holds_def memory_event_store_new_def events_inv_def
        at_line_start_def read_log_def file_lines_def)
qed

text \<open>
  C39. A log of host events that is opened on a new file and appended to, one operation after the
  other and without a failing write, opens again to exactly the memory that it had, whatever
  appends were accepted, repeated or refused; opening changes no file. The JSON codec is to read
  back the events written. Both provisos are needed: lost_after_failed_write and
  swapped_lines_refused show a failed write and two concurrent ones.
\<close>

theorem host_log_survives_restart:
  assumes "open_event_log C p t = (Inr (), s)" and "\<not> path_exists p t" and "p \<noteq> []"
    and "\<And>x. x \<in> set ops \<Longrightarrow> record_ok C (op_event x)"
    and "run_log_ops C p ops s = (rs, s')" and "\<And>r. r \<in> set rs \<Longrightarrow> \<not> write_failure r"
  shows "open_event_log C p (el_files s') = (Inr (), s') \<and> events_inv (el_memory s')"
  using run_log_ops_inv [OF opened_new(1) [OF assms(1-3)] assms(4-6)] reopened [of C p s'] by (auto simp: event_log_inv_def)

text \<open>
  A consumer that keeps the cursor of the last event it has seen gets, the next time it asks,
  exactly the events appended since, in their order: none twice, none left out.
\<close>

lemma cursor_reads_are_gapless:
  assumes "event_log_inv C p s" and "\<And>x. x \<in> set ops \<Longrightarrow> record_ok C (op_event x)"
    and "run_log_ops C p ops s = (rs, s')" and "\<And>r. r \<in> set rs \<Longrightarrow> \<not> write_failure r"
  shows "me_events (el_memory s') = me_events (el_memory s) @ host_events_after (host_latest_cursor (el_memory s)) (el_memory s') \<and>
    host_latest_cursor (el_memory s') = (case host_events_after (host_latest_cursor (el_memory s)) (el_memory s') of
      [] \<Rightarrow> host_latest_cursor (el_memory s) | e # es \<Rightarrow> Some (host_cursor_after (kv_event_id (last (e # es)))))"
proof -
  from run_log_ops_inv [OF assms] obtain new where inv: "events_inv (el_memory s')"
      and new: "me_events (el_memory s') = me_events (el_memory s) @ new"
    by (auto simp: event_log_inv_def)
  have "host_events_after (host_latest_cursor (el_memory s)) (el_memory s') = new"
  proof (cases "me_events (el_memory s) = []")
    case True
    then show ?thesis using new by (simp add: host_events_after_def host_latest_cursor_def)
  next
    case False
    let ?l = "last (me_events (el_memory s))"
    have sorted: "sorted_wrt (<) (map number_of (me_events (el_memory s)) @ map number_of new)"
      using inv new by (simp add: events_inv_def)
    have "\<forall>x \<in> set new. number_of ?l < number_of x" using sorted False by (auto simp: sorted_wrt_append)
    moreover have "\<forall>x \<in> set (me_events (el_memory s)). number_of x \<le> number_of ?l"
    proof
      fix x assume "x \<in> set (me_events (el_memory s))"
      then have "number_of x \<le> last (map number_of (me_events (el_memory s)))"
        using sorted by (intro sorted_wrt_last) (auto simp: sorted_wrt_append)
      then show "number_of x \<le> number_of ?l" using False by (simp add: last_map)
    qed
    ultimately show ?thesis
      using new False by (simp add: host_events_after_def host_latest_cursor_def host_cursor_after_def filter_id_conv filter_empty_conv not_less)
  qed
  then show ?thesis using new by (auto simp: host_latest_cursor_def split: list.split)
qed


section \<open>Where it breaks\<close>

text \<open>
  The memory is changed before the file is written: after a write that failed the event is only in
  memory, and asking for it again answers that it is stored.
\<close>

lemma lost_after_failed_write:
  assumes "append_to_memory e (el_memory s) = (Inr c, m)" and "fs_append p [] (el_files s) = (Inl x, t)"
    and "events_inv (el_memory s)"
  shows "log_append C p e s = (Inl (EventIo x), s\<lparr>el_memory := m\<rparr>) \<and>
    log_append_idempotent C p e (s\<lparr>el_memory := m\<rparr>) = (Inr c, s\<lparr>el_memory := m\<rparr>)"
proof -
  have "t = el_files s" using assms(2) by (rule failed_call(4))
  moreover have "number_of e \<in> me_ids m" "events_inv m" "c = host_cursor_after (kv_event_id e)"
    using append_to_memory_Inr [OF assms(3,1)] by (auto simp: events_inv_def)
  ultimately show ?thesis
    using assms(1,2) known_event [of m e]
    by (simp add: log_append_def append_line_def andThen_def on_memory_def on_files_def log_append_idempotent_def)
qed

text \<open>
  The lock of the memory is released before the file is written: where two appends write their lines in
  the other order, the log does not open again.
\<close>

lemma swapped_lines_refused:
  assumes "read_records C ls = Inr (es @ [e2, e1])" and "sorted_wrt (<) (map number_of (es @ [e1, e2]))" and "events_inv m" and "me_events m = []"
  shows "fst (replay_lines C ls m) = Inl (NonMonotonicId (number_of e2) (number_of e1))"
proof -
  have "fst (replay_lines C ls n) = Inl (NonMonotonicId (number_of e2) (number_of e1))"
    if "read_records C ls = Inr (xs @ [e2, e1])" "sorted_wrt (<) (map number_of (me_events n @ xs @ [e1, e2]))" "events_inv n" for xs n
    using that
  proof (induction ls arbitrary: xs n)
    case (Cons l ls)
    show ?case
    proof (cases "trim l = []")
      case True
      then show ?thesis using Cons by (auto split: if_splits)
    next
      case False
      with Cons.prems(1) obtain e rs where e: "utf8_valid l" "dec_record C l = Inr e" "read_records C ls = Inr rs" "xs @ [e2, e1] = e # rs"
        by (auto simp: bind_result_Inr_iff split: if_splits sum.splits)
      have above: "\<forall>x \<in> set (me_events n). number_of x < number_of e"
        using Cons.prems(2) e(4) by (cases xs) (auto simp: sorted_wrt_append)
      define n1 where "n1 = \<lparr>me_events = me_events n @ [e], me_ids = insert (number_of e) (me_ids n)\<rparr>"
      have one: "append_to_memory e n = (Inr (host_cursor_after (kv_event_id e)), n1)"
        using append_to_memory_above [OF Cons.prems(3) above] by (simp add: n1_def)
      have "number_of e \<notin> me_ids n" using above Cons.prems(3) by (auto simp: events_inv_def)
      with one have idem: "memory_append_idempotent e n = (Inr (host_cursor_after (kv_event_id e)), n1)"
        by (simp add: memory_append_idempotent_def)
      note inv1 = append_to_memory_Inr(1) [OF Cons.prems(3) one]
      show ?thesis
      proof (cases xs)
        case (Cons y ys)
        then have "fst (replay_lines C ls n1) = Inl (NonMonotonicId (number_of e2) (number_of e1))"
          using Cons.IH [of ys n1] e Cons.prems(2) inv1 by (simp add: n1_def)
        then show ?thesis using False e idem by (simp add: andThen_def)
      next
        case Nil
        then have here: "e = e2" "rs = [e1]" using e(4) by simp_all
        have "number_of e1 < number_of e2" "\<forall>x \<in> set (me_events n). number_of x < number_of e1"
          using Cons.prems(2) Nil by (auto simp: sorted_wrt_append)
        then have bad: "memory_append_idempotent e1 n1 = (Inl (NonMonotonicId (number_of e2) (number_of e1)), n1)"
          using Cons.prems(3) here by (auto simp: memory_append_idempotent_def append_to_memory_def n1_def events_inv_def)
        have "fst (replay_lines C ks n1) = Inl (NonMonotonicId (number_of e2) (number_of e1))" if "read_records C ks = Inr [e1]" for ks
          using that by (induction ks) (auto simp: bind_result_Inr_iff andThen_def bad split: if_splits sum.splits)
        then show ?thesis using False e idem here by (simp add: andThen_def)
      qed
    qed
  qed simp
  from this [OF assms(1) _ assms(3)] assms(2,4) show ?thesis by simp
qed

text \<open>
  The line and its end are two writes: after a crash between them the next event is joined to the
  last one, and the log does not open again where the joined line does not parse.
\<close>

lemma torn_line_poisons:
  assumes "at_line_start (Some b)" and "read_log C (Some b) = Inr es" and "record_ok C e1" and "newline \<notin> set (enc_record C e2)"
    and "utf8_valid (enc_record C e1 @ enc_record C e2)" and "dec_record C (drop_cr (enc_record C e1 @ enc_record C e2)) = Inl msg"
    and "trim (drop_cr (enc_record C e1 @ enc_record C e2)) \<noteq> []" and "utf8_valid (drop_cr (enc_record C e1 @ enc_record C e2))"
  shows "read_log C (Some ((b @ enc_record C e1) @ enc_record C e2 @ [newline])) = Inl (LogSerde msg)"
proof -
  have nl: "newline \<notin> set (enc_record C e1 @ enc_record C e2)" using assms(3,4) by (simp add: record_ok_def)
  have "file_lines ((b @ enc_record C e1) @ enc_record C e2 @ [newline]) = file_lines b @ [drop_cr (enc_record C e1 @ enc_record C e2)]"
    using file_lines_append(1) [OF assms(1) nl] by simp
  then show ?thesis
    using assms(2,6-8) by (simp add: read_log_def read_records_append)
qed

section \<open>An example\<close>

definition example_host_event :: kernel_event where
  "example_host_event = kernel_event_new (KernelEventId 3) (KernelEventKind ''k'') \<lparr>ka_aggregate_type = ''t'', ka_aggregate_id = ''a''\<rparr> JNull 0"

definition example_event_codec :: "kernel_event line_codec" where
  "example_event_codec = \<lparr>enc_record = (\<lambda>_. ''e''), dec_record = (\<lambda>_. Inr example_host_event)\<rparr>"

abbreviation example_log_ops :: "log_op list" where
  "example_log_ops \<equiv> [AppendOp example_host_event, IdempotentOp example_host_event, AppendOp example_host_event]"

lemma example_event_ok: "record_ok example_event_codec example_host_event"
proof -
  have "utf8_valid ''e''" "trim ''e'' \<noteq> []" by code_simp+
  then show ?thesis by (simp add: record_ok_def example_event_codec_def)
qed

theorem host_log_survives_restart_witness:
  "\<exists>s rs s'. open_event_log example_event_codec [''l''] (FDir []) = (Inr (), s) \<and> run_log_ops example_event_codec [''l''] example_log_ops s = (rs, s') \<and>
     me_events (el_memory s') = [example_host_event] \<and> open_event_log example_event_codec [''l''] (el_files s') = (Inr (), s')"
proof -
  let ?C = example_event_codec and ?p = "[''l'']"
  let ?open = "open_event_log ?C ?p (FDir [])"
  let ?run = "run_log_ops ?C ?p example_log_ops (snd ?open)"
  have facts: "\<not> isl (fst ?open)" "\<not> path_exists ?p (FDir [])" "list_all (\<lambda>r. \<not> write_failure r) (fst ?run)"
      "map number_of (me_events (el_memory (snd ?run))) = [3]"
    by code_simp+
  then have opened: "?open = (Inr (), snd ?open)" by (cases ?open; cases "fst ?open") auto
  have ok: "record_ok ?C (op_event x)" if "x \<in> set example_log_ops" for x
    using that example_event_ok by auto
  have good: "\<not> write_failure r" if "r \<in> set (fst ?run)" for r using facts(3) that by (simp add: list_all_iff)
  have run: "run_log_ops ?C ?p example_log_ops (snd ?open) = (fst ?run, snd ?run)" by simp
  from host_log_survives_restart [OF opened facts(2) _ ok run good]
  have again: "open_event_log ?C ?p (el_files (snd ?run)) = (Inr (), snd ?run)" by simp
  have "me_events (el_memory (snd ?run)) = [example_host_event]"
    by (simp add: open_event_log_def andThen_def on_files_def on_memory_def fs_create_dir_all_def changed_def path_exists_def fs_append_def
        memory_event_store_new_def log_append_def log_append_idempotent_def append_to_memory_def append_line_def host_events_after_def ret_def Let_def)
  then show ?thesis using opened run again by blast
qed

lemma cursor_reads_are_gapless_witness:
  "\<exists>s rs s'. run_log_ops example_event_codec [''l''] example_log_ops s = (rs, s') \<and>
     me_events (el_memory s') = me_events (el_memory s) @ host_events_after (host_latest_cursor (el_memory s)) (el_memory s')"
proof -
  let ?C = example_event_codec and ?p = "[''l'']"
  let ?open = "open_event_log ?C ?p (FDir [])"
  let ?run = "run_log_ops ?C ?p example_log_ops (snd ?open)"
  have facts: "\<not> isl (fst ?open)" "\<not> path_exists ?p (FDir [])" "list_all (\<lambda>r. \<not> write_failure r) (fst ?run)"
    by code_simp+
  then have opened: "?open = (Inr (), snd ?open)" by (cases ?open; cases "fst ?open") auto
  have inv: "event_log_inv ?C ?p (snd ?open)" by (rule opened_new(1) [OF opened facts(2)]) simp
  have ok: "record_ok ?C (op_event x)" if "x \<in> set example_log_ops" for x
    using that example_event_ok by auto
  have good: "\<not> write_failure r" if "r \<in> set (fst ?run)" for r using facts(3) that by (simp add: list_all_iff)
  have run: "run_log_ops ?C ?p example_log_ops (snd ?open) = (fst ?run, snd ?run)" by simp
  from cursor_reads_are_gapless [OF inv ok run good] run show ?thesis by blast
qed

end
