(* ===== verification/Browser_Pages.thy ===== *)
theory Browser_Pages
  imports Action_Runtime
begin
text \<open>
  Reading web pages without a browser, \<open>browser-entity/src/lib.rs\<close>: the scanner of HTML that extracts
  titles, blocks, tables, links and images, and the executor that fetches a page and parses it. Texts are
  UTF-8 bytes and positions are byte positions, as in Rust: a slice that is out of range or cuts a
  character panics, and a panic is \<open>None\<close>. \<open>str::to_lowercase\<close> is a parameter; it may change the
  length of a text.
\<close>

section \<open>Searching and slicing\<close>

fun find_str :: "string \<Rightarrow> string \<Rightarrow> nat option" where
  "find_str p [] = (if p = [] then Some 0 else None)"
| "find_str p (c # cs) = (if starts_with (c # cs) p then Some 0 else map_option Suc (find_str p cs))"

definition rfind_char :: "char \<Rightarrow> string \<Rightarrow> nat option" where
  "rfind_char c s = (if c \<in> set s then Some (length s - 1 - length (takeWhile (\<lambda>x. x \<noteq> c) (rev s))) else None)"

definition slice :: "nat \<Rightarrow> nat \<Rightarrow> string \<Rightarrow> string option" where
  "slice a b s = (if a \<le> b \<and> b \<le> length s \<and> is_char_boundary s a \<and> is_char_boundary s b then Some (take (b - a) (drop a s)) else None)"

text \<open>\<open>s[pos..].find(p)\<close>, as a position in \<open>s\<close>.\<close>

definition find_from :: "string \<Rightarrow> string \<Rightarrow> nat \<Rightarrow> nat option option" where
  "find_from p s pos = map_option (\<lambda>t. map_option (\<lambda>e. pos + e) (find_str p t)) (slice pos (length s) s)"

text \<open>The \<open>?\<close> of a function that returns an \<open>Option\<close>, where looking may panic.\<close>

definition found :: "'a option option \<Rightarrow> ('a \<Rightarrow> 'b option option) \<Rightarrow> 'b option option" where
  "found m f = (case m of None \<Rightarrow> None | Some None \<Rightarrow> Some None | Some (Some x) \<Rightarrow> f x)"

definition nonempty :: "string \<Rightarrow> string option" where
  "nonempty t = (if t = [] then None else Some t)"

lemma find_str_bound: "find_str p s = Some i \<Longrightarrow> i + length p \<le> length s"
  by (induction s arbitrary: i) (auto simp: starts_with_prefix dest: prefix_length_le split: if_splits)

lemma slice_Some: "slice a b s = Some t \<Longrightarrow> a \<le> b \<and> b \<le> length s \<and> t = take (b - a) (drop a s)"
  by (auto simp: slice_def split: if_splits)

lemma find_from_bound: "find_from p s pos = Some (Some i) \<Longrightarrow> pos \<le> i \<and> i + length p \<le> length s"
  by (auto simp: find_from_def dest!: slice_Some find_str_bound)

section \<open>Plain scanning\<close>

definition open_tag :: "string \<Rightarrow> string" where
  "open_tag tag = ''<'' @ tag"

definition close_tag :: "string \<Rightarrow> string" where
  "close_tag tag = ''</'' @ tag @ ''>''"

definition extract_tag_content :: "string \<Rightarrow> string \<Rightarrow> string option option" where
  "extract_tag_content html tag =
     found (Some (find_str (open_tag tag) html)) (\<lambda>start.
     found (find_from ''>'' html start) (\<lambda>e.
     found (find_from (close_tag tag) html (e + 1)) (\<lambda>c. map_option (Some \<circ> trim) (slice (e + 1) c html))))"

definition attribute_value :: "string \<Rightarrow> nat \<Rightarrow> string \<Rightarrow> string \<Rightarrow> string option option" where
  "attribute_value html at pat tag_content =
     found (Some (find_str pat tag_content)) (\<lambda>a.
     (let v = at + a + length pat in
      found (find_from ''\"'' html v) (\<lambda>q. map_option Some (slice v q html))))"

function attribute_values :: "string \<Rightarrow> string \<Rightarrow> string \<Rightarrow> nat \<Rightarrow> string list option" where
  "attribute_values tag pat html pos =
     (case find_from tag html pos of
        None \<Rightarrow> None
      | Some None \<Rightarrow> Some []
      | Some (Some at) \<Rightarrow>
          (case find_from ''>'' html at of
             None \<Rightarrow> None
           | Some None \<Rightarrow> Some []
           | Some (Some e) \<Rightarrow>
               (case slice at (e + 1) html of
                  None \<Rightarrow> None
                | Some tag_content \<Rightarrow>
                    (case attribute_value html at pat tag_content of
                       None \<Rightarrow> None
                     | Some v \<Rightarrow> map_option (\<lambda>vs. (case v of None \<Rightarrow> vs | Some x \<Rightarrow> x # vs)) (attribute_values tag pat html (e + 1))))))"
  by pat_completeness auto
termination
  by (relation "measure (\<lambda>(_, _, html, pos). length html - pos)") (auto dest!: find_from_bound)

declare attribute_values.simps [simp del]

definition extract_attribute_values :: "string \<Rightarrow> string \<Rightarrow> string \<Rightarrow> string list option" where
  "extract_attribute_values html tag attr = attribute_values (open_tag tag) (attr @ ''=\"'') html 0"

fun strip_tags :: "bool \<Rightarrow> string \<Rightarrow> string" where
  "strip_tags in_tag [] = []"
| "strip_tags in_tag (c # cs) =
     (if c = CHR ''<'' then strip_tags True cs
      else if c = CHR ''>'' \<and> in_tag then CHR '' '' # strip_tags False cs
      else if in_tag then strip_tags in_tag cs
      else c # strip_tags in_tag cs)"

text \<open>Runs of white space become one space; a white-space character may have several bytes.\<close>

function collapse_ws :: "bool \<Rightarrow> string \<Rightarrow> string" where
  "collapse_ws prev_space s =
     (if s = [] then []
      else if ws_head s > 0
      then (if prev_space then [] else '' '') @ collapse_ws True (drop (ws_head s) s)
      else hd s # collapse_ws False (tl s))"
  by pat_completeness auto
termination
  by (relation "measure (length \<circ> snd)") auto

declare collapse_ws.simps [simp del]

definition strip_html_tags :: "string \<Rightarrow> string" where
  "strip_html_tags html = trim (collapse_ws False (strip_tags False html))"

section \<open>The extractor\<close>

datatype (plugins only: code size) content_block =
    ParagraphBlock string
  | HeadingBlock nat string
  | ImageBlock string "string option"
  | CodeBlock "string option" string
  | ListBlock bool "string list"
  | QuoteBlock string

record extracted_table =
  xt_headers :: "string list"
  xt_rows :: "string list list"

record readability_result =
  rr_title :: string
  rr_lead_image :: "string option"
  rr_content_blocks :: "content_block list"
  rr_tables :: "extracted_table list"
  rr_byline :: "string option"
  rr_site_name :: "string option"
  rr_language :: "string option"

fun block_parts :: "content_block \<Rightarrow> string list" where
  "block_parts (ParagraphBlock t) = [t]"
| "block_parts (HeadingBlock n t) = [t]"
| "block_parts (ImageBlock src alt) = [''['' @ (case alt of None \<Rightarrow> ''image'' | Some a \<Rightarrow> a) @ '']('' @ src @ '')'']"
| "block_parts (CodeBlock l t) = [t]"
| "block_parts (ListBlock b items) = map (\<lambda>i. ''- '' @ i) items"
| "block_parts (QuoteBlock t) = [t]"

definition table_parts :: "extracted_table \<Rightarrow> string list" where
  "table_parts t = (if xt_headers t = [] then [] else [join_with '' | '' (xt_headers t)]) @ map (join_with '' | '') (xt_rows t)"

definition to_plain_text :: "readability_result \<Rightarrow> string" where
  "to_plain_text r =
     join_with [CHR 0x0A] ((if rr_title r = [] then [] else [rr_title r]) @ concat (map block_parts (rr_content_blocks r)) @
       concat (map table_parts (rr_tables r)))"

fun meta_from :: "string \<Rightarrow> string \<Rightarrow> string list \<Rightarrow> string option option" where
  "meta_from html low [] = Some None"
| "meta_from html low (pat # pats) =
     (case find_str pat low of
        None \<Rightarrow> meta_from html low pats
      | Some pos \<Rightarrow>
          (case (slice 0 pos low, find_from ''>'' low pos) of
             (Some before, Some r) \<Rightarrow>
               (let tag_start = (case rfind_char (CHR ''<'') before of None \<Rightarrow> 0 | Some i \<Rightarrow> i);
                    tag_end = (case r of None \<Rightarrow> length low | Some e \<Rightarrow> e) in
                case (slice tag_start tag_end html, slice tag_start tag_end low) of
                  (Some _, Some tag_lower) \<Rightarrow>
                    (case find_str ''content=\"'' tag_lower of
                       None \<Rightarrow> meta_from html low pats
                     | Some c \<Rightarrow>
                         (case find_from ''\"'' html (tag_start + c + 9) of
                            None \<Rightarrow> None
                          | Some None \<Rightarrow> meta_from html low pats
                          | Some (Some q) \<Rightarrow>
                              (case slice (tag_start + c + 9) q html of
                                 None \<Rightarrow> None
                               | Some v \<Rightarrow> if trim v \<noteq> [] then Some (Some (trim v)) else meta_from html low pats)))
                | _ \<Rightarrow> None)
           | _ \<Rightarrow> None))"

definition extract_meta_attr :: "(string \<Rightarrow> string) \<Rightarrow> string \<Rightarrow> string \<Rightarrow> string option option" where
  "extract_meta_attr lower html property =
     meta_from html (lower html)
       [''property=\"'' @ property @ ''\"'', ''name=\"'' @ property @ ''\"'',
        ''property='' @ [CHR 0x27] @ property @ [CHR 0x27], ''name='' @ [CHR 0x27] @ property @ [CHR 0x27]]"

definition extract_html_lang :: "(string \<Rightarrow> string) \<Rightarrow> string \<Rightarrow> string option option" where
  "extract_html_lang lower html =
     (let low = lower html in
      found (Some (find_str ''<html'' low)) (\<lambda>html_pos.
      found (find_from ''>'' low html_pos) (\<lambda>tag_end.
      case (slice html_pos tag_end html, slice html_pos tag_end low) of
        (Some _, Some tag_lower) \<Rightarrow>
          found (Some (find_str ''lang=\"'' tag_lower)) (\<lambda>l.
          (let v = html_pos + l + 6 in
           found (find_from ''\"'' html v) (\<lambda>q. map_option (nonempty \<circ> trim) (slice v q html))))
      | _ \<Rightarrow> None)))"

definition or_else_found :: "'a option option \<Rightarrow> 'a option option \<Rightarrow> 'a option option" where
  "or_else_found m n = (case m of Some None \<Rightarrow> n | _ \<Rightarrow> m)"

definition extract_title :: "(string \<Rightarrow> string) \<Rightarrow> string \<Rightarrow> string option" where
  "extract_title lower html =
     (case extract_meta_attr lower html ''og:title'' of
        None \<Rightarrow> None
      | Some m \<Rightarrow>
          if m \<noteq> None \<and> m \<noteq> Some [] then m
          else map_option (\<lambda>t. case t of None \<Rightarrow> [] | Some x \<Rightarrow> x) (extract_tag_content html ''title''))"

definition extract_tag_block :: "(string \<Rightarrow> string) \<Rightarrow> string \<Rightarrow> string \<Rightarrow> string option option" where
  "extract_tag_block lower html tag =
     (let low = lower html in
      found (Some (case find_str (open_tag tag) low of Some p \<Rightarrow> Some p | None \<Rightarrow> find_str (open_tag tag @ '' '') low)) (\<lambda>start.
      found (find_from ''>'' low start) (\<lambda>e.
      found (find_from (lower (close_tag tag)) low (e + 1)) (\<lambda>c. map_option Some (slice (e + 1) c html)))))"

definition find_next_tag_content :: "(string \<Rightarrow> string) \<Rightarrow> string \<Rightarrow> string \<Rightarrow> nat \<Rightarrow> string option option" where
  "find_next_tag_content lower html tag start =
     (let low = lower html in
      found (find_from (open_tag tag) low start) (\<lambda>o'.
      found (find_from ''>'' low o') (\<lambda>e.
      found (find_from (lower (close_tag tag)) low (e + 1)) (\<lambda>c. map_option Some (slice (e + 1) c html)))))"

definition extract_attr :: "(string \<Rightarrow> string) \<Rightarrow> string \<Rightarrow> string \<Rightarrow> string \<Rightarrow> string option option" where
  "extract_attr lower tag tag_lower attr =
     (let pat = attr @ ''=\"'' in
      found (Some (find_str (lower pat) tag_lower)) (\<lambda>p.
      (let v = p + length pat in
       found (find_from ''\"'' tag v) (\<lambda>q. map_option (nonempty \<circ> trim) (slice v q tag)))))"

lemma found_Some: "found m f = Some (Some y) \<longleftrightarrow> (\<exists>x. m = Some (Some x) \<and> f x = Some (Some y))"
  by (auto simp: found_def split: option.splits)

lemma next_content_inside: "find_next_tag_content lower html tag start = Some (Some c) \<Longrightarrow> start < length html"
  by (auto simp: find_next_tag_content_def Let_def found_Some dest!: find_from_bound slice_Some)

text \<open>
  The contents of all elements with a tag, from a position on: after each the scan goes on behind the
  next closing tag, one byte before its end where the code counts one too few.
\<close>

function scan_tag :: "(string \<Rightarrow> string) \<Rightarrow> string \<Rightarrow> string \<Rightarrow> bool \<Rightarrow> nat \<Rightarrow> string list option" where
  "scan_tag lower html tag short pos =
     (case find_next_tag_content lower html tag pos of
        None \<Rightarrow> None
      | Some None \<Rightarrow> Some []
      | Some (Some c) \<Rightarrow>
          (case find_from (close_tag tag) html pos of
             None \<Rightarrow> None
           | Some r \<Rightarrow>
               (let next = (case r of None \<Rightarrow> length html
                  | Some e \<Rightarrow> e + (if short then length (close_tag tag) - 1 else length (close_tag tag))) in
                map_option (\<lambda>cs. c # cs) (scan_tag lower html tag short next))))"
  by pat_completeness auto
termination
  by (relation "measure (\<lambda>(_, html, _, _, pos). length html - pos)")
    (auto simp: close_tag_def dest!: find_from_bound next_content_inside split: option.splits)

declare scan_tag.simps [simp del]


section \<open>Blocks and tables\<close>

definition block_texts :: "string list \<Rightarrow> string list" where
  "block_texts cs = filter (\<lambda>t. t \<noteq> []) (map (\<lambda>c. trim (strip_html_tags c)) cs)"

definition headings :: "(string \<Rightarrow> string) \<Rightarrow> string \<Rightarrow> nat \<Rightarrow> content_block list option" where
  "headings lower html level =
     map_option (\<lambda>cs. map (HeadingBlock level) (block_texts cs)) (scan_tag lower html (''h'' @ decimal level) False 0)"

text \<open>
  The loop over images looks for the tags in the lower-case text, and goes to the end of the text itself
  where a tag is not closed. \<open>None\<close> is a loop that does not end, \<open>Some None\<close> a panic.
\<close>

partial_function (option) scan_images ::
    "(string \<Rightarrow> string) \<Rightarrow> string \<Rightarrow> string \<Rightarrow> nat \<Rightarrow> content_block list option option" where
  "scan_images lower html low pos =
     (case find_from ''<img'' low pos of
        None \<Rightarrow> Some None
      | Some None \<Rightarrow> Some (Some [])
      | Some (Some start) \<Rightarrow>
          (case find_from ''>'' low start of
             None \<Rightarrow> Some None
           | Some r \<Rightarrow>
               (let tag_end = (case r of None \<Rightarrow> length html | Some e \<Rightarrow> e + 1) in
                case (slice start tag_end html, slice start tag_end low) of
                  (Some tag, Some tag_lower) \<Rightarrow>
                    (case (extract_attr lower tag tag_lower ''src'', extract_attr lower tag tag_lower ''alt'') of
                       (Some src, Some alt) \<Rightarrow>
                         Option.bind (scan_images lower html low tag_end) (\<lambda>rest. Some (map_option (\<lambda>bs. (case src of
                                Some u \<Rightarrow> if starts_with u ''data:'' then [] else [ImageBlock u alt]
                              | None \<Rightarrow> []) @ bs) rest))
                     | _ \<Rightarrow> Some None)
                | _ \<Rightarrow> Some None)))"

definition strip_prefix :: "string \<Rightarrow> string \<Rightarrow> string option" where
  "strip_prefix p s = (if starts_with s p then Some (drop (length p) s) else None)"

fun language_of :: "(string \<Rightarrow> string) \<Rightarrow> string \<Rightarrow> string list \<Rightarrow> string" where
  "language_of lower v [] = v"
| "language_of lower v (p # ps) =
     (case strip_prefix p v of
        Some l \<Rightarrow> l
      | None \<Rightarrow> (case strip_prefix p (lower v) of Some l \<Rightarrow> l | None \<Rightarrow> language_of lower v ps))"

definition extract_code_language :: "(string \<Rightarrow> string) \<Rightarrow> string \<Rightarrow> string option option" where
  "extract_code_language lower code =
     map_option (map_option (\<lambda>v. language_of lower v [''language-'', ''lang-'', ''highlight-'']))
       (extract_attr lower code (lower code) ''class'')"

definition code_block :: "(string \<Rightarrow> string) \<Rightarrow> string \<Rightarrow> content_block list option" where
  "code_block lower content =
     (case find_next_tag_content lower content ''code'' 0 of
        None \<Rightarrow> None
      | Some r \<Rightarrow>
          (let code = (case r of None \<Rightarrow> content | Some c \<Rightarrow> c) in
           map_option (\<lambda>language. map (CodeBlock language) (block_texts [code])) (extract_code_language lower code)))"

definition extract_list_items :: "(string \<Rightarrow> string) \<Rightarrow> string \<Rightarrow> string list option" where
  "extract_list_items lower html = map_option block_texts (scan_tag lower html ''li'' True 0)"

definition list_block :: "(string \<Rightarrow> string) \<Rightarrow> bool \<Rightarrow> string \<Rightarrow> content_block list option" where
  "list_block lower ordered content =
     map_option (\<lambda>items. if items = [] then [] else [ListBlock ordered items]) (extract_list_items lower content)"

definition each_content :: "('a \<Rightarrow> 'b list option) \<Rightarrow> 'a list option \<Rightarrow> 'b list option" where
  "each_content f xs = (case xs of None \<Rightarrow> None | Some cs \<Rightarrow> map_option concat (those (map f cs)))"

text \<open>The blocks before the images and those after them.\<close>

definition blocks_before :: "(string \<Rightarrow> string) \<Rightarrow> string \<Rightarrow> content_block list option" where
  "blocks_before lower html =
     map_option concat (those (map (headings lower html) [1, 2, 3, 4, 5, 6] @
       [map_option (\<lambda>cs. map ParagraphBlock (block_texts cs)) (scan_tag lower html ''p'' False 0)]))"

definition blocks_after :: "(string \<Rightarrow> string) \<Rightarrow> string \<Rightarrow> content_block list option" where
  "blocks_after lower html =
     map_option concat (those
       [each_content (code_block lower) (scan_tag lower html ''pre'' True 0),
        map_option (\<lambda>cs. map QuoteBlock (block_texts cs)) (scan_tag lower html ''blockquote'' False 0),
        each_content (list_block lower False) (scan_tag lower html ''ul'' False 0),
        each_content (list_block lower True) (scan_tag lower html ''ol'' False 0)])"

definition extract_content_blocks :: "(string \<Rightarrow> string) \<Rightarrow> string \<Rightarrow> content_block list option option" where
  "extract_content_blocks lower html =
     (case blocks_before lower html of
        None \<Rightarrow> Some None
      | Some bs \<Rightarrow>
          (case scan_images lower html (lower html) 0 of
             None \<Rightarrow> None
           | Some None \<Rightarrow> Some None
           | Some (Some imgs) \<Rightarrow> Some (map_option (\<lambda>cs. bs @ imgs @ cs) (blocks_after lower html))))"

definition cells_of :: "(string \<Rightarrow> string) \<Rightarrow> string \<Rightarrow> string \<Rightarrow> string list option" where
  "cells_of lower html tag = map_option (map (\<lambda>c. trim (strip_html_tags c))) (scan_tag lower html tag False 0)"

definition extract_table_cells :: "(string \<Rightarrow> string) \<Rightarrow> string \<Rightarrow> bool \<Rightarrow> string list option" where
  "extract_table_cells lower html th_only =
     map_option concat (those (map (cells_of lower html) (if th_only then [''th''] else [''td'', ''th''])))"

definition header_cells :: "(string \<Rightarrow> string) \<Rightarrow> string option option \<Rightarrow> string list option" where
  "header_cells lower row = (case row of None \<Rightarrow> None | Some None \<Rightarrow> Some [] | Some (Some tr) \<Rightarrow> extract_table_cells lower tr True)"

definition extract_table :: "(string \<Rightarrow> string) \<Rightarrow> string \<Rightarrow> extracted_table list option" where
  "extract_table lower html =
     (case header_cells lower (found (find_next_tag_content lower html ''thead'' 0) (\<lambda>thead. find_next_tag_content lower thead ''tr'' 0)) of
        None \<Rightarrow> None
      | Some hs \<Rightarrow>
          (case (if hs = [] then header_cells lower (find_next_tag_content lower html ''tr'' 0) else Some hs) of
             None \<Rightarrow> None
           | Some headers \<Rightarrow>
               (case find_next_tag_content lower html ''tbody'' 0 of
                  None \<Rightarrow> None
                | Some r \<Rightarrow>
                    (let tbody = (case r of None \<Rightarrow> html | Some b \<Rightarrow> b) in
                     map_option
                       (\<lambda>rows. if headers \<noteq> [] \<or> rows \<noteq> [] then [\<lparr>xt_headers = headers, xt_rows = rows\<rparr>] else [])
                       (each_content
                         (\<lambda>tr. map_option (\<lambda>cells. if cells \<noteq> [] \<and> (headers = [] \<or> cells \<noteq> headers) then [cells] else [])
                            (extract_table_cells lower tr False))
                         (scan_tag lower tbody ''tr'' True 0))))))"

definition extract_tables :: "(string \<Rightarrow> string) \<Rightarrow> string \<Rightarrow> extracted_table list option" where
  "extract_tables lower html = each_content (extract_table lower) (scan_tag lower html ''table'' False 0)"

definition readability_extract :: "(string \<Rightarrow> string) \<Rightarrow> string \<Rightarrow> readability_result option option" where
  "readability_extract lower html =
     (case (extract_title lower html, extract_meta_attr lower html ''og:image'',
            or_else_found (extract_meta_attr lower html ''author'') (extract_meta_attr lower html ''article:author''),
            extract_meta_attr lower html ''og:site_name'', extract_html_lang lower html,
            or_else_found (extract_tag_block lower html ''article'') (extract_tag_block lower html ''main'')) of
        (Some title, Some lead_image, Some byline, Some site_name, Some language, Some area) \<Rightarrow>
          (let content = (case area of None \<Rightarrow> html | Some a \<Rightarrow> a) in
           case extract_content_blocks lower content of
             None \<Rightarrow> None
           | Some None \<Rightarrow> Some None
           | Some (Some blocks) \<Rightarrow>
               Some (map_option (\<lambda>tables. \<lparr>rr_title = title, rr_lead_image = lead_image, rr_content_blocks = blocks,
                 rr_tables = tables, rr_byline = byline, rr_site_name = site_name, rr_language = language\<rparr>)
                 (extract_tables lower content)))
      | _ \<Rightarrow> Some None)"

record parsed_html =
  ph_title :: string
  ph_text :: string
  ph_links :: "string list"
  ph_images :: "string list"

definition parse_html :: "(string \<Rightarrow> string) \<Rightarrow> string \<Rightarrow> parsed_html option option" where
  "parse_html lower html =
     (case (extract_tag_content html ''title'', extract_attribute_values html ''a'' ''href'', extract_attribute_values html ''img'' ''src'') of
        (Some title, Some links, Some images) \<Rightarrow>
          (case readability_extract lower html of
             None \<Rightarrow> None
           | Some None \<Rightarrow> Some None
           | Some (Some r) \<Rightarrow>
               Some (Some \<lparr>ph_title = (case title of None \<Rightarrow> [] | Some t \<Rightarrow> t),
                 ph_text = (if rr_content_blocks r = [] \<and> rr_tables r = [] then strip_html_tags html else to_plain_text r),
                 ph_links = links, ph_images = images\<rparr>))
      | _ \<Rightarrow> Some None)"


section \<open>The executor that fetches pages\<close>

text \<open>The inputs that this executor reads, and the values that it writes with serde.\<close>

record web_page_snapshot =
  wp_url :: string
  wp_title :: string
  wp_content :: string
  wp_html_source :: "string option"
  wp_captured_at :: datetime
  wp_artifact_id :: "artifact_id option"

record web_extracted_content =
  we_source_url :: string
  we_text :: string
  we_links :: "string list"
  we_images :: "string list"
  we_extracted_at :: datetime

record 'w page_fetcher =
  pf_get :: "string \<Rightarrow> ('w, string, 'w \<Rightarrow> (string + string) \<times> 'w) prog"
  pf_lower :: "string \<Rightarrow> string"
  pf_extract_input :: "json \<Rightarrow> string + string"
  pf_summarize_input :: "json \<Rightarrow> string + string \<times> nat option"
  pf_open_input :: "json \<Rightarrow> string + string \<times> bool"
  pf_capture_input :: "json \<Rightarrow> string + string \<times> bool"
  pf_snapshot_json :: "web_page_snapshot \<Rightarrow> string + json"
  pf_content_json :: "web_extracted_content \<Rightarrow> string + json"

definition web_page_url_or_blank :: "string \<Rightarrow> string" where
  "web_page_url_or_blank url = (if trim url = [] then ''about:blank'' else url)"

text \<open>A program whose result is missing where the code panics or does not return.\<close>

type_synonym ('w, 'a) page_prog = "'w \<Rightarrow> ((executor_error + 'a) \<times> 'w) option"

definition page_then :: "('w, 'a) page_prog \<Rightarrow> ('a \<Rightarrow> ('w, 'b) page_prog) \<Rightarrow> ('w, 'b) page_prog" where
  "page_then m f s = (case m s of None \<Rightarrow> None | Some (Inl e, s1) \<Rightarrow> Some (Inl e, s1) | Some (Inr x, s1) \<Rightarrow> f x s1)"

definition page_lift :: "executor_error + 'a \<Rightarrow> ('w, 'a) page_prog" where
  "page_lift r s = Some (r, s)"

definition fetch_and_parse :: "'w page_fetcher \<Rightarrow> string \<Rightarrow> ('w, parsed_html) page_prog" where
  "fetch_and_parse F url s =
     (case pf_get F url s of
        (Inl e, s1) \<Rightarrow> Some (Inl (ExecutionFailed (''HTTP fetch failed: '' @ e)), s1)
      | (Inr body, s1) \<Rightarrow>
          (case body s1 of
             (Inl e, s2) \<Rightarrow> Some (Inl (ExecutionFailed (''Failed to read response: '' @ e)), s2)
           | (Inr html, s2) \<Rightarrow> (case parse_html (pf_lower F) html of Some (Some p) \<Rightarrow> Some (Inr p, s2) | _ \<Rightarrow> None)))"

definition failed_json :: "string + json \<Rightarrow> executor_error + action_result_payload" where
  "failed_json r = (case r of Inl e \<Rightarrow> Inl (ExecutionFailed e) | Inr j \<Rightarrow> Inr (PJson j))"

definition page_summary :: "string \<Rightarrow> nat \<Rightarrow> string option" where
  "page_summary t n = (if length t > n then map_option (\<lambda>u. u @ ''...'') (slice 0 n t) else Some t)"

definition snapshot_payload :: "'w page_fetcher \<Rightarrow> datetime \<Rightarrow> string \<Rightarrow> bool \<Rightarrow> ('w, action_result_payload) page_prog" where
  "snapshot_payload F now url include_html =
     page_then (fetch_and_parse F url) (\<lambda>p. page_lift (failed_json (pf_snapshot_json F
       \<lparr>wp_url = web_page_url_or_blank url, wp_title = ph_title p, wp_content = ph_text p,
        wp_html_source = (if include_html then Some ''<html>...</html>'' else None), wp_captured_at = now, wp_artifact_id = None\<rparr>)))"

definition page_payload :: "'w page_fetcher \<Rightarrow> datetime \<Rightarrow> action_request \<Rightarrow> ('w, action_result_payload) page_prog" where
  "page_payload F now q =
     (let k = kind_text (req_action_kind q); v = req_input q in
      if k = ''browser.extract_content'' then
        page_then (page_lift (parsed (pf_extract_input F v))) (\<lambda>url.
        page_then (fetch_and_parse F url) (\<lambda>p. page_lift (failed_json (pf_content_json F
          \<lparr>we_source_url = web_page_url_or_blank url, we_text = ph_text p, we_links = ph_links p, we_images = ph_images p,
           we_extracted_at = now\<rparr>))))
      else if k = ''browser.summarize_page'' then
        page_then (page_lift (parsed (pf_summarize_input F v))) (\<lambda>(url, max_length).
        page_then (fetch_and_parse F url) (\<lambda>p s.
          map_option (\<lambda>t. (Inr (PText t), s)) (page_summary (ph_text p) (case max_length of None \<Rightarrow> 500 | Some n \<Rightarrow> n))))
      else if k = ''browser.open_url'' then
        page_then (page_lift (parsed (pf_open_input F v))) (\<lambda>(url, _). snapshot_payload F now url False)
      else if k = ''browser.capture_snapshot'' then
        page_then (page_lift (parsed (pf_capture_input F v))) (\<lambda>(url, include_html). snapshot_payload F now url include_html)
      else page_lift (Inl (NotSupported (req_action_kind q))))"

definition static_html_execute :: "'w page_fetcher \<Rightarrow> datetime \<Rightarrow> action_request \<Rightarrow> ('w, action_result) page_prog" where
  "static_html_execute F now q =
     page_then (page_payload F now q) (\<lambda>payload. page_lift (Inr
       \<lparr>res_status = StCompleted, res_payload = payload, res_summary = kind_text (req_action_kind q) @ '' completed'', res_completed_at = now\<rparr>))"


section \<open>ASCII pages are parsed\<close>

definition ascii :: "string \<Rightarrow> bool" where
  "ascii s \<longleftrightarrow> list_all (\<lambda>c. byte c < 128) s"

text \<open>What \<open>str::to_lowercase\<close> is documented to do with ASCII.\<close>

definition lowers_ascii :: "(string \<Rightarrow> string) \<Rightarrow> bool" where
  "lowers_ascii lower \<longleftrightarrow> (\<forall>s. ascii s \<longrightarrow> lower s = to_ascii_lowercase s)"

lemma ascii_parts [simp, intro]: "ascii s \<Longrightarrow> ascii (take n s)" "ascii s \<Longrightarrow> ascii (drop n s)" "ascii []"
  by (auto simp: ascii_def list_all_iff dest: in_set_takeD in_set_dropD)

lemma ascii_boundary:
  assumes "ascii s" and "i \<le> length s"
  shows "is_char_boundary s i"
proof -
  have "byte (s ! i) < 128" if "i < length s" using assms(1) that by (simp add: ascii_def list_all_length)
  then show ?thesis using assms(2) by (cases "i = length s") (auto simp: is_char_boundary_def is_continuation_def)
qed

lemma ascii_slice: "ascii s \<Longrightarrow> a \<le> b \<Longrightarrow> b \<le> length s \<Longrightarrow> slice a b s = Some (take (b - a) (drop a s))"
  by (simp add: slice_def ascii_boundary)

lemma ascii_lowered:
  assumes "lowers_ascii lower" and "ascii s"
  shows "ascii (lower s)" and "length (lower s) = length s"
proof -
  have low: "lower s = map ascii_lower s" using assms by (simp add: lowers_ascii_def to_ascii_lowercase_def)
  have "byte (ascii_lower c) < 128" if "byte c < 128" for c
    using that by (auto simp: ascii_lower_def Let_def)
  then show "ascii (lower s)" using assms(2) by (auto simp: low ascii_def list_all_iff)
  show "length (lower s) = length s" by (simp add: low)
qed

lemma ascii_find: "ascii s \<Longrightarrow> pos \<le> length s \<Longrightarrow> find_from p s pos \<noteq> None"
  by (simp add: find_from_def ascii_slice)

lemma returns_found: "m \<noteq> None \<Longrightarrow> (\<And>x. m = Some (Some x) \<Longrightarrow> f x \<noteq> None) \<Longrightarrow> found m f \<noteq> None"
  by (auto simp: found_def split: option.split)

lemma ascii_next_content:
  assumes "lowers_ascii lower" and "ascii html" and "start \<le> length html"
  shows "find_next_tag_content lower html tag start \<noteq> None"
    and "find_next_tag_content lower html tag start = Some (Some c) \<Longrightarrow> ascii c"
proof -
  have low: "ascii (lower html)" "length (lower html) = length html" using ascii_lowered [OF assms(1,2)] .
  show "find_next_tag_content lower html tag start \<noteq> None"
    unfolding find_next_tag_content_def Let_def
    by (intro returns_found ascii_find) (use low assms in \<open>auto simp: ascii_slice dest!: find_from_bound\<close>)
  show "find_next_tag_content lower html tag start = Some (Some c) \<Longrightarrow> ascii c"
    using assms(2) by (auto simp: find_next_tag_content_def Let_def found_Some dest!: slice_Some)
qed

lemma ascii_scan:
  assumes "lowers_ascii lower" and "ascii html" and "pos \<le> length html"
  shows "\<exists>cs. scan_tag lower html tag short pos = Some cs \<and> list_all ascii cs"
  using assms
proof (induction lower html tag short pos rule: scan_tag.induct)
  case (1 lower html tag short pos)
  note next_ok = ascii_next_content [OF 1(2-4), of tag]
  obtain r where r: "find_next_tag_content lower html tag pos = Some r" using next_ok(1) by blast
  obtain f where f: "find_from (close_tag tag) html pos = Some f" using ascii_find [OF 1(3,4)] by blast
  let ?next = "case f of None \<Rightarrow> length html | Some e \<Rightarrow> e + (if short then length (close_tag tag) - 1 else length (close_tag tag))"
  have bound: "?next \<le> length html" using f by (auto split: option.split dest: find_from_bound)
  show ?case
  proof (cases r)
    case None
    then show ?thesis using r by (subst scan_tag.simps) simp
  next
    case (Some c)
    from 1(1) [OF r Some f refl 1(2,3) bound] obtain cs
      where "scan_tag lower html tag short ?next = Some cs" "list_all ascii cs" by blast
    moreover have "ascii c" using next_ok(2) r Some by simp
    ultimately show ?thesis using r Some f by (subst scan_tag.simps) (simp add: Let_def)
  qed
qed

lemma ascii_extract_attr:
  assumes "lowers_ascii lower" and "ascii tag" and "length tag_lower = length tag" and "ascii attr"
  shows "extract_attr lower tag tag_lower attr \<noteq> None"
proof -
  have "ascii (attr @ ''=\"'')" using assms(4) by (simp add: ascii_def)
  then have len: "length (lower (attr @ ''=\"'')) = length (attr @ ''=\"'')" by (rule ascii_lowered(2) [OF assms(1)])
  show ?thesis
    unfolding extract_attr_def Let_def
    by (intro returns_found ascii_find)
      (use assms len in \<open>auto simp: ascii_slice dest!: find_str_bound find_from_bound\<close>)
qed

lemma attr_names: "ascii ''src''" "ascii ''alt''" "ascii ''class''"
  by (simp_all add: ascii_def)

lemma ascii_images:
  assumes "lowers_ascii lower" and "ascii html" and "pos \<le> length html"
  shows "\<exists>bs. scan_images lower html (lower html) pos = Some (Some bs)"
  using assms(3)
proof (induction "length html - pos" arbitrary: pos rule: less_induct)
  case less
  have low: "ascii (lower html)" "length (lower html) = length html" using ascii_lowered [OF assms(1,2)] .
  obtain r where r: "find_from ''<img'' (lower html) pos = Some r" using ascii_find [OF low(1)] less(2) low(2) by force
  show ?case
  proof (cases r)
    case None
    then show ?thesis using r by (subst scan_images.simps) simp
  next
    case (Some start)
    have start: "pos \<le> start" "start + 4 \<le> length html" using find_from_bound [of "''<img''" "lower html" pos start] r Some low(2) by auto
    obtain f where f: "find_from ''>'' (lower html) start = Some f" using ascii_find [OF low(1)] start low(2) by force
    let ?stop = "case f of None \<Rightarrow> length html | Some e \<Rightarrow> e + 1"
    have tag_end: "start < ?stop" "?stop \<le> length html"
      using f start low(2) by (auto split: option.split dest: find_from_bound)
    let ?tag = "take (?stop - start) (drop start html)" and ?low = "take (?stop - start) (drop start (lower html))"
    have slices: "slice start ?stop html = Some ?tag" "slice start ?stop (lower html) = Some ?low"
      using tag_end low assms(2) by (simp_all add: ascii_slice)
    have "length ?low = length ?tag" using low(2) by simp
    then obtain src alt where attrs: "extract_attr lower ?tag ?low ''src'' = Some src" "extract_attr lower ?tag ?low ''alt'' = Some alt"
      using ascii_extract_attr [OF assms(1), of ?tag ?low "''src''"] ascii_extract_attr [OF assms(1), of ?tag ?low "''alt''"] assms(2)
      by (auto simp: attr_names)
    have "length html - ?stop < length html - pos" using tag_end start by linarith
    from less(1) [OF this tag_end(2)] obtain bs where "scan_images lower html (lower html) ?stop = Some (Some bs)" by blast
    then show ?thesis using r Some f slices attrs by (subst scan_images.simps) (simp add: Let_def)
  qed
qed

lemma those_returns: "(\<And>x. x \<in> set xs \<Longrightarrow> x \<noteq> None) \<Longrightarrow> those xs \<noteq> None"
  by (induction xs) (auto split: option.split)

lemma each_content_returns:
  assumes "\<exists>cs. xs = Some cs \<and> list_all ascii cs" and "\<And>c. ascii c \<Longrightarrow> f c \<noteq> None"
  shows "each_content f xs \<noteq> None"
proof -
  from assms(1) obtain cs where cs: "xs = Some cs" "list_all ascii cs" by blast
  have "those (map f cs) \<noteq> None" by (rule those_returns) (use cs(2) assms(2) in \<open>auto simp: list_all_iff\<close>)
  then show ?thesis by (auto simp: each_content_def cs(1))
qed


lemma ascii_tag_content: "ascii html \<Longrightarrow> extract_tag_content html tag \<noteq> None"
  unfolding extract_tag_content_def
  by (intro returns_found ascii_find) (auto simp: ascii_slice dest!: find_from_bound find_str_bound)

lemma ascii_attribute_values:
  assumes "ascii html" and "pos \<le> length html"
  shows "attribute_values tag pat html pos \<noteq> None"
  using assms
proof (induction tag pat html pos rule: attribute_values.induct)
  case (1 tag pat html pos)
  obtain r where r: "find_from tag html pos = Some r" using ascii_find [OF 1(2,3)] by blast
  show ?case
  proof (cases r)
    case None
    then show ?thesis using r by (subst attribute_values.simps) simp
  next
    case (Some at)
    have at: "at \<le> length html" using r Some by (auto dest: find_from_bound)
    obtain f where f: "find_from ''>'' html at = Some f" using ascii_find [OF 1(2) at] by blast
    show ?thesis
    proof (cases f)
      case None
      then show ?thesis using r Some f by (subst attribute_values.simps) simp
    next
      case (Some e)
      have e: "at \<le> e" "e + 1 \<le> length html" using f Some by (auto dest: find_from_bound)
      let ?tc = "take (e + 1 - at) (drop at html)"
      have slice: "slice at (e + 1) html = Some ?tc" using e 1(2) by (simp add: ascii_slice)
      have "attribute_value html at pat ?tc \<noteq> None"
        unfolding attribute_value_def Let_def
        by (intro returns_found ascii_find)
          (use e 1(2) in \<open>auto simp: ascii_slice dest!: find_str_bound find_from_bound\<close>)
      then obtain v where v: "attribute_value html at pat ?tc = Some v" by blast
      have "attribute_values tag pat html (e + 1) \<noteq> None"
        using 1(1) [OF r \<open>r = Some at\<close> f Some slice v 1(2)] e by simp
      then show ?thesis using r \<open>r = Some at\<close> f Some slice v by (subst attribute_values.simps) (auto split: option.split)
    qed
  qed
qed

lemma rfind_char_bound: "rfind_char c s = Some i \<Longrightarrow> i < length s"
  by (cases s) (auto simp: rfind_char_def split: if_splits)

lemma ascii_meta:
  assumes "ascii html" and "ascii low" and "length low = length html"
  shows "meta_from html low pats \<noteq> None"
proof (induction pats)
  case (Cons pat pats)
  show ?case
  proof (cases "find_str pat low")
    case None
    then show ?thesis using Cons by simp
  next
    case (Some pos)
    have pos: "pos \<le> length low" using find_str_bound [OF Some] by simp
    have before: "slice 0 pos low = Some (take pos low)" using assms(2) pos by (simp add: ascii_slice)
    obtain r where r: "find_from ''>'' low pos = Some r" using ascii_find [OF assms(2) pos] by blast
    let ?a = "case rfind_char (CHR ''<'') (take pos low) of None \<Rightarrow> 0 | Some i \<Rightarrow> i" and ?b = "case r of None \<Rightarrow> length low | Some e \<Rightarrow> e"
    have ab: "?a \<le> ?b" "?b \<le> length low"
      using r pos by (auto split: option.split dest!: find_from_bound rfind_char_bound)
    have slices: "slice ?a ?b html = Some (take (?b - ?a) (drop ?a html))" "slice ?a ?b low = Some (take (?b - ?a) (drop ?a low))"
      using ab assms by (simp_all add: ascii_slice)
    show ?thesis
    proof (cases "find_str ''content=\"'' (take (?b - ?a) (drop ?a low))")
      case None
      then show ?thesis using Cons Some before r slices by (simp add: Let_def)
    next
      case (Some c)
      note content = this
      from find_str_bound [OF this] ab have v: "?a + c + 9 \<le> length html" using assms(3) by simp
      obtain q where q: "find_from ''\"'' html (?a + c + 9) = Some q" using ascii_find [OF assms(1) v] by blast
      show ?thesis
      proof (cases q)
        case None
        then show ?thesis using Cons \<open>find_str pat low = Some pos\<close> before r slices Some q by (simp add: Let_def)
      next
        case (Some z)
        have "slice (?a + c + 9) z html \<noteq> None"
          using find_from_bound [OF q [unfolded Some]] assms(1) by (simp add: ascii_slice)
        then show ?thesis
          using Cons \<open>find_str pat low = Some pos\<close> before r slices content q Some by (auto simp: Let_def)
      qed
    qed
  qed
qed simp

lemma ascii_meta_attr: "lowers_ascii lower \<Longrightarrow> ascii html \<Longrightarrow> extract_meta_attr lower html property \<noteq> None"
  unfolding extract_meta_attr_def by (rule ascii_meta) (simp_all add: ascii_lowered)

lemma ascii_lang:
  assumes "lowers_ascii lower" and "ascii html"
  shows "extract_html_lang lower html \<noteq> None"
proof -
  have low: "ascii (lower html)" "length (lower html) = length html" using ascii_lowered [OF assms] .
  show ?thesis
    unfolding extract_html_lang_def Let_def
  proof (intro returns_found ascii_find)
    fix p e assume p: "Some (find_str ''<html'' (lower html)) = Some (Some p)" and e: "find_from ''>'' (lower html) p = Some (Some e)"
    have pe: "p \<le> e" "e \<le> length html" using find_from_bound [OF e] low by auto
    have rest: "found (Some (find_str ''lang=\"'' (take (e - p) (drop p (lower html))))) (\<lambda>l.
        found (find_from ''\"'' html (p + l + 6)) (\<lambda>q. map_option (nonempty \<circ> trim) (slice (p + l + 6) q html))) \<noteq> None"
      by (intro returns_found ascii_find)
        (use pe assms(2) low in \<open>auto simp: ascii_slice dest!: find_str_bound find_from_bound\<close>)
    show "(case (slice p e html, slice p e (lower html)) of
        (Some _, Some tag_lower) \<Rightarrow>
          found (Some (find_str ''lang=\"'' tag_lower)) (\<lambda>l.
           found (find_from ''\"'' html (p + l + 6)) (\<lambda>q. map_option (nonempty \<circ> trim) (slice (p + l + 6) q html)))
      | _ \<Rightarrow> None) \<noteq> None"
      using rest pe assms(2) low by (simp add: ascii_slice)
  qed (use low in \<open>auto dest!: find_str_bound\<close>)
qed

lemma ascii_tag_block:
  assumes "lowers_ascii lower" and "ascii html"
  shows "extract_tag_block lower html tag \<noteq> None" and "extract_tag_block lower html tag = Some (Some c) \<Longrightarrow> ascii c"
proof -
  have low: "ascii (lower html)" "length (lower html) = length html" using ascii_lowered [OF assms] .
  show "extract_tag_block lower html tag \<noteq> None"
    unfolding extract_tag_block_def Let_def
    by (intro returns_found ascii_find)
      (use low assms in \<open>auto simp: ascii_slice dest!: find_from_bound find_str_bound split: option.splits\<close>)
  show "extract_tag_block lower html tag = Some (Some c) \<Longrightarrow> ascii c"
    using assms(2) by (auto simp: extract_tag_block_def Let_def found_Some dest!: slice_Some)
qed

lemma scan_returns: "lowers_ascii lower \<Longrightarrow> ascii html \<Longrightarrow> scan_tag lower html tag short 0 \<noteq> None"
  using ascii_scan [of lower html 0 tag short] by auto

lemma map_returns: "m \<noteq> None \<Longrightarrow> map_option f m \<noteq> None"
  by simp

lemma ascii_code_block:
  assumes "lowers_ascii lower" and "ascii content"
  shows "code_block lower content \<noteq> None"
proof -
  have "extract_attr lower code (lower code) ''class'' \<noteq> None" if "ascii code" for code
    using ascii_extract_attr [OF assms(1) that ascii_lowered(2) [OF assms(1) that] attr_names(3)] .
  then have language: "extract_code_language lower code \<noteq> None" if "ascii code" for code
    using that by (simp add: extract_code_language_def)
  show ?thesis
    using ascii_next_content [OF assms, of 0 "''code''"] language assms(2)
    by (auto simp: code_block_def Let_def split: option.splits)
qed

lemma ascii_blocks:
  assumes "lowers_ascii lower" and "ascii html"
  shows "\<exists>bs. extract_content_blocks lower html = Some (Some bs)"
proof -
  note scans = scan_returns [OF assms]
  have "blocks_before lower html \<noteq> None"
    unfolding blocks_before_def headings_def
    by (intro map_returns those_returns) (use scans in auto)
  moreover
  have "list_block lower b c \<noteq> None" if "ascii c" for b c
    using scan_returns [OF assms(1) that] by (simp add: list_block_def extract_list_items_def)
  note parts = each_content_returns [OF ascii_scan [OF assms le0] this] each_content_returns [OF ascii_scan [OF assms le0] ascii_code_block [OF assms(1)]]
  have "each_content (code_block lower) (scan_tag lower html ''pre'' True 0) \<noteq> None"
      "each_content (list_block lower False) (scan_tag lower html ''ul'' False 0) \<noteq> None"
      "each_content (list_block lower True) (scan_tag lower html ''ol'' False 0) \<noteq> None"
    by (rule parts; assumption)+
  then have "blocks_after lower html \<noteq> None"
    unfolding blocks_after_def using scans [of "''blockquote''" False] by auto
  ultimately show ?thesis
    using ascii_images [OF assms, of 0] by (auto simp: extract_content_blocks_def)
qed

lemma ascii_cells:
  assumes "lowers_ascii lower" and "ascii html"
  shows "extract_table_cells lower html b \<noteq> None"
  unfolding extract_table_cells_def cells_of_def
  by (intro map_returns those_returns) (use scan_returns [OF assms] in auto)

lemma ascii_table:
  assumes "lowers_ascii lower" and "ascii html"
  shows "extract_table lower html \<noteq> None"
proof -
  note inner = ascii_next_content [OF assms(1) _ le0]
  have row: "header_cells lower r \<noteq> None" if "r \<noteq> None" "\<And>c. r = Some (Some c) \<Longrightarrow> ascii c" for r
    using that ascii_cells [OF assms(1)] by (auto simp: header_cells_def split: option.splits)
  have thead: "ascii c" if "find_next_tag_content lower x ''tr'' 0 = Some (Some c)" "find_next_tag_content lower html ''thead'' 0 = Some (Some x)" for c x
    by (rule inner(2) [OF inner(2) [OF assms(2) that(2)] that(1)])
  obtain hs where hs: "header_cells lower (found (find_next_tag_content lower html ''thead'' 0) (\<lambda>thead. find_next_tag_content lower thead ''tr'' 0)) = Some hs"
    using row [of "found (find_next_tag_content lower html ''thead'' 0) (\<lambda>thead. find_next_tag_content lower thead ''tr'' 0)"]
      inner(1) assms(2) thead inner(2) by (fastforce simp: found_def split: option.splits)
  obtain first where "header_cells lower (find_next_tag_content lower html ''tr'' 0) = Some first"
    using row [of "find_next_tag_content lower html ''tr'' 0"] inner [OF assms(2)] by blast
  then obtain headers where headers: "(if hs = [] then header_cells lower (find_next_tag_content lower html ''tr'' 0) else Some hs) = Some headers"
    by (cases "hs = []") auto
  obtain r where r: "find_next_tag_content lower html ''tbody'' 0 = Some r" using inner(1) [OF assms(2)] by blast
  have "ascii (case r of None \<Rightarrow> html | Some b \<Rightarrow> b)"
    using inner(2) [OF assms(2), of "''tbody''"] r assms(2) by (cases r) auto
  then have "each_content (\<lambda>tr. map_option (\<lambda>cells. if cells \<noteq> [] \<and> (headers = [] \<or> cells \<noteq> headers) then [cells] else [])
      (extract_table_cells lower tr False)) (scan_tag lower (case r of None \<Rightarrow> html | Some b \<Rightarrow> b) ''tr'' True 0) \<noteq> None"
    by (intro each_content_returns [OF ascii_scan [OF assms(1) _ le0]] map_returns ascii_cells [OF assms(1)])
  then show ?thesis
    by (auto simp: extract_table_def hs headers r Let_def)
qed

lemma ascii_extract:
  assumes "lowers_ascii lower" and "ascii html"
  shows "\<exists>r. readability_extract lower html = Some (Some r)"
proof -
  note meta = ascii_meta_attr [OF assms] and block = ascii_tag_block [OF assms]
  have title: "extract_title lower html \<noteq> None"
    using meta [of "''og:title''"] ascii_tag_content [OF assms(2), of "''title''"] by (auto simp: extract_title_def split: option.split)
  have other: "or_else_found m n \<noteq> None" if "m \<noteq> None" "n \<noteq> None" for m n :: "'x option option"
    using that by (auto simp: or_else_found_def split: option.split)
  obtain area where area: "or_else_found (extract_tag_block lower html ''article'') (extract_tag_block lower html ''main'') = Some area"
    using other [OF block(1) block(1)] by blast
  have "ascii c" if "area = Some c" for c
    using area that block(2) [of _ c] by (auto simp: or_else_found_def split: option.splits)
  then have content: "ascii (case area of None \<Rightarrow> html | Some a \<Rightarrow> a)" using assms(2) by (simp split: option.split)
  have "extract_tables lower (case area of None \<Rightarrow> html | Some a \<Rightarrow> a) \<noteq> None"
    unfolding extract_tables_def
    by (rule each_content_returns) (use ascii_scan [OF assms(1) content] ascii_table [OF assms(1)] in auto)
  then obtain tables where tables: "extract_tables lower (case area of None \<Rightarrow> html | Some a \<Rightarrow> a) = Some tables" by blast
  obtain blocks where blocks: "extract_content_blocks lower (case area of None \<Rightarrow> html | Some a \<Rightarrow> a) = Some (Some blocks)"
    using ascii_blocks [OF assms(1) content] by blast
  obtain t image site byline lang where parts: "extract_title lower html = Some t" "extract_meta_attr lower html ''og:image'' = Some image"
      "extract_meta_attr lower html ''og:site_name'' = Some site" "extract_html_lang lower html = Some lang"
      "or_else_found (extract_meta_attr lower html ''author'') (extract_meta_attr lower html ''article:author'') = Some byline"
    using title meta other [OF meta meta, of "''author''" "''article:author''"] ascii_lang [OF assms] by blast
  show ?thesis
    by (simp add: readability_extract_def parts area blocks tables Let_def)
qed

text \<open>
  A page of ASCII characters is always parsed, however broken its markup is: no tag that is left
  open, no closing tag without an opening one and no quote that is missing makes the scanner slice
  out of range or run for ever.
\<close>

lemma ascii_parse:
  assumes "lowers_ascii lower" and "ascii html"
  shows "\<exists>p. parse_html lower html = Some (Some p)"
proof -
  have "extract_attribute_values html tag attr \<noteq> None" for tag attr
    using ascii_attribute_values [OF assms(2), of 0] by (simp add: extract_attribute_values_def)
  then obtain links images where parts: "extract_attribute_values html ''a'' ''href'' = Some links" "extract_attribute_values html ''img'' ''src'' = Some images"
    by blast
  show ?thesis
    using ascii_tag_content [OF assms(2), of "''title''"] ascii_extract [OF assms] by (auto simp: parse_html_def parts)
qed


section \<open>What is extracted\<close>

definition clean_text :: "string \<Rightarrow> bool" where
  "clean_text t \<longleftrightarrow> t \<noteq> [] \<and> CHR ''<'' \<notin> set t"

fun block_ok :: "content_block \<Rightarrow> bool" where
  "block_ok (ParagraphBlock t) = clean_text t"
| "block_ok (HeadingBlock n t) = (n \<in> {1..6} \<and> clean_text t)"
| "block_ok (ImageBlock src alt) = (src \<noteq> [] \<and> \<not> starts_with src ''data:'' \<and> alt \<noteq> Some [])"
| "block_ok (CodeBlock l t) = clean_text t"
| "block_ok (ListBlock b items) = (items \<noteq> [] \<and> list_all clean_text items)"
| "block_ok (QuoteBlock t) = clean_text t"

definition table_ok :: "extracted_table \<Rightarrow> bool" where
  "table_ok t \<longleftrightarrow> (xt_headers t \<noteq> [] \<or> xt_rows t \<noteq> []) \<and>
     list_all (\<lambda>r. r \<noteq> [] \<and> r \<noteq> xt_headers t \<and> list_all (\<lambda>c. CHR ''<'' \<notin> set c) r) (xt_rows t) \<and>
     list_all (\<lambda>c. CHR ''<'' \<notin> set c) (xt_headers t)"

lemma strip_tags_clean: "CHR ''<'' \<notin> set (strip_tags b s)"
  by (induction b s rule: strip_tags.induct) auto

lemma collapse_ws_subset: "set (collapse_ws b s) \<subseteq> insert (CHR '' '') (set s)"
proof (induction b s rule: collapse_ws.induct)
  case (1 b s)
  show ?case
  proof (cases "s = []")
    case True
    then show ?thesis by (subst collapse_ws.simps) simp
  next
    case False
    then have "set (tl s) \<subseteq> set s" "hd s \<in> set s" by (auto dest: list.set_sel)
    then show ?thesis
      using 1 False set_drop_subset [of "ws_head s" s] by (subst collapse_ws.simps) (auto split: if_splits)
  qed
qed

lemma trim_start_subset: "set (trim_start s) \<subseteq> set s"
proof (induction s rule: trim_start.induct)
  case (1 s)
  then show ?case using set_drop_subset [of "ws_head s" s] by (subst trim_start.simps) auto
qed

lemma trim_end_subset: "set (trim_end s) \<subseteq> set s"
proof (induction s rule: trim_end.induct)
  case (1 s)
  then show ?case by (subst trim_end.simps) (auto simp: Let_def dest: in_set_takeD split: if_splits)
qed

lemma trim_subset: "set (trim s) \<subseteq> set s"
  unfolding trim_def using trim_start_subset trim_end_subset by blast

lemma stripped_clean: "CHR ''<'' \<notin> set (trim (strip_html_tags s))"
proof -
  have "set (trim (strip_html_tags s)) \<subseteq> insert (CHR '' '') (set (strip_tags False s))"
    unfolding strip_html_tags_def by (rule order_trans [OF trim_subset order_trans [OF trim_subset collapse_ws_subset]])
  then show ?thesis using strip_tags_clean by auto
qed

lemma block_texts_clean: "t \<in> set (block_texts cs) \<Longrightarrow> clean_text t"
  by (auto simp: block_texts_def clean_text_def stripped_clean)

lemma those_member: "those xs = Some ys \<Longrightarrow> y \<in> set ys \<Longrightarrow> Some y \<in> set xs"
  by (induction xs arbitrary: ys) (auto split: option.splits)

lemma each_content_member:
  "each_content f xs = Some ys \<Longrightarrow> y \<in> set ys \<Longrightarrow> \<exists>c zs. f c = Some zs \<and> y \<in> set zs"
proof -
  assume e: "each_content f xs = Some ys" and y: "y \<in> set ys"
  then obtain cs zs where zs: "xs = Some cs" "those (map f cs) = Some zs" "ys = concat zs" by (auto simp: each_content_def split: option.splits)
  then obtain z where z: "z \<in> set zs" "y \<in> set z" using y by auto
  from those_member [OF zs(2) z(1)] obtain c where "f c = Some z" by (metis image_iff image_set)
  then show ?thesis using z(2) by blast
qed

lemma images_ok:
  assumes "scan_images lower html low pos = Some r"
  shows "case r of None \<Rightarrow> True | Some bs \<Rightarrow> list_all block_ok bs"
proof (rule scan_images.raw_induct [where P = "\<lambda>_ _ _ _ r. case r of None \<Rightarrow> True | Some bs \<Rightarrow> list_all block_ok bs", OF _ assms])
  fix scan lower html low pos r
  assume hyp: "\<And>lower html low pos r. scan lower html low pos = Some r \<Longrightarrow> case r of None \<Rightarrow> True | Some bs \<Rightarrow> list_all block_ok bs"
    and body: "(case find_from ''<img'' low pos of
        None \<Rightarrow> Some None
      | Some None \<Rightarrow> Some (Some [])
      | Some (Some start) \<Rightarrow>
          (case find_from ''>'' low start of
             None \<Rightarrow> Some None
           | Some r \<Rightarrow>
               (let tag_end = (case r of None \<Rightarrow> length html | Some e \<Rightarrow> e + 1) in
                case (slice start tag_end html, slice start tag_end low) of
                  (Some tag, Some tag_lower) \<Rightarrow>
                    (case (extract_attr lower tag tag_lower ''src'', extract_attr lower tag tag_lower ''alt'') of
                       (Some src, Some alt) \<Rightarrow>
                         Option.bind (scan lower html low tag_end) (\<lambda>rest. Some (map_option (\<lambda>bs. (case src of
                                Some u \<Rightarrow> if starts_with u ''data:'' then [] else [ImageBlock u alt]
                              | None \<Rightarrow> []) @ bs) rest))
                     | _ \<Rightarrow> Some None)
                | _ \<Rightarrow> Some None))) = Some r"
  have attr: "v \<noteq> Some []" if "extract_attr lower tag tag_lower a = Some v" for tag tag_lower a v
    using that by (auto simp: extract_attr_def Let_def found_def nonempty_def split: option.splits if_splits)
  show "case r of None \<Rightarrow> True | Some bs \<Rightarrow> list_all block_ok bs"
    using body attr
    by (fastforce simp: Let_def bind_eq_Some_conv split: option.splits if_splits dest!: hyp)
qed


lemma those_all: "those xs = Some ys \<Longrightarrow> (\<And>x y. x \<in> set xs \<Longrightarrow> x = Some y \<Longrightarrow> P y) \<Longrightarrow> list_all P ys"
  by (auto simp: list_all_iff dest: those_member)

lemma block_texts_ok: "list_all clean_text (block_texts cs)"
  unfolding list_all_iff using block_texts_clean by blast

lemma map_texts_ok: "(\<And>t. clean_text t \<Longrightarrow> block_ok (f t)) \<Longrightarrow> map_option (\<lambda>cs. map f (block_texts cs)) xs = Some bs \<Longrightarrow> list_all block_ok bs"
  using block_texts_ok by (auto simp: list_all_iff)

lemma concat_ok: "list_all (list_all P) xs \<Longrightarrow> list_all P (concat xs)"
  by (induction xs) auto

lemma blocks_before_ok: "blocks_before lower html = Some bs \<Longrightarrow> list_all block_ok bs"
proof -
  assume "blocks_before lower html = Some bs"
  then obtain bss where bss: "those (map (headings lower html) [1, 2, 3, 4, 5, 6] @
       [map_option (\<lambda>cs. map ParagraphBlock (block_texts cs)) (scan_tag lower html ''p'' False 0)]) = Some bss" "bs = concat bss"
    by (auto simp: blocks_before_def)
  have "list_all (list_all block_ok) bss"
  proof (rule those_all [OF bss(1)])
    fix x y
    assume x: "x \<in> set (map (headings lower html) [1, 2, 3, 4, 5, 6] @
       [map_option (\<lambda>cs. map ParagraphBlock (block_texts cs)) (scan_tag lower html ''p'' False 0)])"
    assume y: "x = Some y"
    have heading: "list_all block_ok y" if "headings lower html n = Some y" "n \<in> set [1, 2, 3, 4, 5, 6]" for n
    proof (rule map_texts_ok [OF _ that(1) [unfolded headings_def]])
      show "clean_text t \<Longrightarrow> block_ok (HeadingBlock n t)" for t using that(2) by auto
    qed
    have para: "list_all block_ok y"
      if "map_option (\<lambda>cs. map ParagraphBlock (block_texts cs)) (scan_tag lower html ''p'' False 0) = Some y"
      by (rule map_texts_ok [OF _ that]) simp
    have "(\<exists>n \<in> set [1, 2, 3, 4, 5, 6]. x = headings lower html n) \<or>
        x = map_option (\<lambda>cs. map ParagraphBlock (block_texts cs)) (scan_tag lower html ''p'' False 0)"
      using x unfolding set_append set_map list.set by blast
    then consider n where "n \<in> set [1, 2, 3, 4, 5, 6]" "x = headings lower html n"
      | "x = map_option (\<lambda>cs. map ParagraphBlock (block_texts cs)) (scan_tag lower html ''p'' False 0)"
      by blast
    then show "list_all block_ok y"
    proof cases
      case 1
      with y show ?thesis using heading by metis
    next
      case 2
      with y show ?thesis using para by metis
    qed
  qed
  then show ?thesis unfolding bss(2) by (rule concat_ok)
qed

lemma each_content_ok:
  assumes "\<And>c zs. f c = Some zs \<Longrightarrow> list_all P zs" and "each_content f xs = Some ys"
  shows "list_all P ys"
  using assms(1) each_content_member [OF assms(2)] by (fastforce simp: list_all_iff)

lemma code_block_ok: "code_block lower content = Some bs \<Longrightarrow> list_all block_ok bs"
  using block_texts_ok by (auto simp: code_block_def Let_def list_all_iff split: option.splits)

lemma list_block_ok: "list_block lower b content = Some bs \<Longrightarrow> list_all block_ok bs"
  using block_texts_ok by (auto simp: list_block_def extract_list_items_def split: if_splits)

lemma blocks_after_ok: "blocks_after lower html = Some bs \<Longrightarrow> list_all block_ok bs"
proof -
  assume "blocks_after lower html = Some bs"
  then obtain bss where bss: "those
       [each_content (code_block lower) (scan_tag lower html ''pre'' True 0),
        map_option (\<lambda>cs. map QuoteBlock (block_texts cs)) (scan_tag lower html ''blockquote'' False 0),
        each_content (list_block lower False) (scan_tag lower html ''ul'' False 0),
        each_content (list_block lower True) (scan_tag lower html ''ol'' False 0)] = Some bss" "bs = concat bss"
    by (auto simp: blocks_after_def)
  have quote: "list_all block_ok y"
    if "map_option (\<lambda>cs. map QuoteBlock (block_texts cs)) (scan_tag lower html ''blockquote'' False 0) = Some y" for y
    by (rule map_texts_ok [OF _ that]) simp
  have "list_all (list_all block_ok) bss"
  proof (rule those_all [OF bss(1)])
    fix x y
    assume "x \<in> set [each_content (code_block lower) (scan_tag lower html ''pre'' True 0),
        map_option (\<lambda>cs. map QuoteBlock (block_texts cs)) (scan_tag lower html ''blockquote'' False 0),
        each_content (list_block lower False) (scan_tag lower html ''ul'' False 0),
        each_content (list_block lower True) (scan_tag lower html ''ol'' False 0)]" and y: "x = Some y"
    then consider "x = each_content (code_block lower) (scan_tag lower html ''pre'' True 0)"
      | "x = map_option (\<lambda>cs. map QuoteBlock (block_texts cs)) (scan_tag lower html ''blockquote'' False 0)"
      | b t where "x = each_content (list_block lower b) (scan_tag lower html t False 0)"
      by fastforce
    then show "list_all block_ok y"
    proof cases
      case 1
      then show ?thesis using each_content_ok [where P = block_ok, OF _ trans [OF sym [OF 1] y]] code_block_ok by blast
    next
      case 2
      then show ?thesis using quote [OF trans [OF sym [OF 2] y]] by blast
    next
      case (3 b t)
      then show ?thesis using each_content_ok [where P = block_ok, OF _ trans [OF sym [OF 3] y]] list_block_ok by blast
    qed
  qed
  then show ?thesis unfolding bss(2) by (rule concat_ok)
qed

lemma content_blocks_ok: "extract_content_blocks lower html = Some (Some bs) \<Longrightarrow> list_all block_ok bs"
  using images_ok [of lower html "lower html" 0] blocks_before_ok [of lower html] blocks_after_ok [of lower html]
  by (auto simp: extract_content_blocks_def split: option.splits)

lemma cells_clean: "extract_table_cells lower html b = Some cs \<Longrightarrow> list_all (\<lambda>c. CHR ''<'' \<notin> set c) cs"
proof -
  assume "extract_table_cells lower html b = Some cs"
  then obtain css where css: "those (map (cells_of lower html) (if b then [''th''] else [''td'', ''th''])) = Some css" "cs = concat css"
    unfolding extract_table_cells_def by blast
  have "list_all (list_all (\<lambda>c. CHR ''<'' \<notin> set c)) css"
  proof (rule those_all [OF css(1)])
    fix x y
    assume "x \<in> set (map (cells_of lower html) (if b then [''th''] else [''td'', ''th'']))" "x = Some y"
    then obtain t where "cells_of lower html t = Some y" by auto
    then show "list_all (\<lambda>c. CHR ''<'' \<notin> set c) y" by (auto simp: cells_of_def list_all_iff stripped_clean)
  qed
  then show ?thesis unfolding css(2) by (rule concat_ok)
qed

lemma header_cells_clean: "header_cells lower row = Some hs \<Longrightarrow> list_all (\<lambda>c. CHR ''<'' \<notin> set c) hs"
  by (auto simp: header_cells_def dest: cells_clean split: option.splits)

lemma extract_table_ok: "extract_table lower html = Some ts \<Longrightarrow> list_all table_ok ts"
proof -
  let ?rows = "\<lambda>headers r. each_content (\<lambda>tr. map_option (\<lambda>cells. if cells \<noteq> [] \<and> (headers = [] \<or> cells \<noteq> headers) then [cells] else [])
         (extract_table_cells lower tr False)) (scan_tag lower (case r of None \<Rightarrow> html | Some b \<Rightarrow> b) ''tr'' True 0)"
  assume t: "extract_table lower html = Some ts"
  have "header_cells lower (found (find_next_tag_content lower html ''thead'' 0) (\<lambda>thead. find_next_tag_content lower thead ''tr'' 0)) \<noteq> None"
  proof
    assume none: "header_cells lower (found (find_next_tag_content lower html ''thead'' 0) (\<lambda>thead. find_next_tag_content lower thead ''tr'' 0)) = None"
    show False using t unfolding extract_table_def none option.case by simp
  qed
  then obtain hs where hs:
      "header_cells lower (found (find_next_tag_content lower html ''thead'' 0) (\<lambda>thead. find_next_tag_content lower thead ''tr'' 0)) = Some hs"
    by auto
  have "(if hs = [] then header_cells lower (find_next_tag_content lower html ''tr'' 0) else Some hs) \<noteq> None"
  proof
    assume none: "(if hs = [] then header_cells lower (find_next_tag_content lower html ''tr'' 0) else Some hs) = None"
    show False using t unfolding extract_table_def hs option.case none by simp
  qed
  then obtain headers where steps: "(if hs = [] then header_cells lower (find_next_tag_content lower html ''tr'' 0) else Some hs) = Some headers"
    by auto
  have "find_next_tag_content lower html ''tbody'' 0 \<noteq> None"
  proof
    assume none: "find_next_tag_content lower html ''tbody'' 0 = None"
    show False using t unfolding extract_table_def hs option.case steps none by simp
  qed
  then obtain r where r: "find_next_tag_content lower html ''tbody'' 0 = Some r" by auto
  have "\<exists>rows. ?rows headers r = Some rows \<and> ts = (if headers \<noteq> [] \<or> rows \<noteq> [] then [\<lparr>xt_headers = headers, xt_rows = rows\<rparr>] else [])"
    using t by (simp only: extract_table_def hs steps r option.case Let_def map_option_eq_Some) iprover
  then obtain rows where rows: "?rows headers r = Some rows" and ts: "ts = (if headers \<noteq> [] \<or> rows \<noteq> [] then [\<lparr>xt_headers = headers, xt_rows = rows\<rparr>] else [])"
    by blast
  have headers: "list_all (\<lambda>c. CHR ''<'' \<notin> set c) headers"
    using hs steps header_cells_clean by (auto split: if_splits)
  have "list_all (\<lambda>r. r \<noteq> [] \<and> r \<noteq> headers \<and> list_all (\<lambda>c. CHR ''<'' \<notin> set c) r) rows"
    by (rule each_content_ok [OF _ rows]) (auto dest: cells_clean split: if_splits)
  with headers show ?thesis by (simp add: ts table_ok_def)
qed

lemma tables_ok: "extract_tables lower html = Some ts \<Longrightarrow> list_all table_ok ts"
  unfolding extract_tables_def by (rule each_content_ok [OF extract_table_ok])

text \<open>
  What is extracted from a page is well formed, whatever the page looks like and whatever
  lower case is. A paragraph, a quotation, a code block and an item of a list is a text that is
  not empty and holds no less-than sign, so no tag; a heading is one of level 1 to 6; a list has items; an
  image has a source that is not empty and not inline data, and no empty description. A table
  has a header or rows, no empty row and none that repeats the header.
\<close>

lemma extracted_blocks_well_formed:
  assumes "readability_extract lower html = Some (Some r)"
  shows "list_all block_ok (rr_content_blocks r) \<and> list_all table_ok (rr_tables r)"
proof -
  obtain area blocks tables where
      "extract_content_blocks lower area = Some (Some blocks)" "extract_tables lower area = Some tables"
      "rr_content_blocks r = blocks" "rr_tables r = tables"
    using assms by (auto simp: readability_extract_def Let_def split: option.splits)
  then show ?thesis using content_blocks_ok tables_ok by blast
qed


text \<open>
  C40. A page of ASCII characters is always read, however broken its markup is: no tag that is left
  open, no closing tag without an opening one and no quote that is missing makes the scanner slice
  out of range or run for ever. And what it extracts is well formed. A paragraph, a quotation, a
  code block and an item of a list is a text that is not empty and holds no less-than sign, so no tag; a
  heading is one of level 1 to 6; a list has items; an image has a source that is not empty and
  not inline data, and no empty description; a table has a header or rows, no empty row and none
  that repeats the header. Of the standard lower case it is used that it lowers ASCII letters and leaves
  every other ASCII character alone.
\<close>

theorem ascii_pages_are_read:
  assumes "lowers_ascii lower" and "ascii html"
  shows "\<exists>p r. parse_html lower html = Some (Some p) \<and> readability_extract lower html = Some (Some r) \<and>
    list_all block_ok (rr_content_blocks r) \<and> list_all table_ok (rr_tables r)"
  using ascii_parse [OF assms] ascii_extract [OF assms] extracted_blocks_well_formed [of lower html] by blast

theorem ascii_pages_are_read_witness:
  "\<exists>p r. parse_html to_ascii_lowercase ''</p><p>a<LI'' = Some (Some p) \<and>
     readability_extract to_ascii_lowercase ''</p><p>a<LI'' = Some (Some r) \<and> list_all block_ok (rr_content_blocks r)"
proof -
  have "lowers_ascii to_ascii_lowercase" by (simp add: lowers_ascii_def)
  moreover have "ascii ''</p><p>a<LI''" by code_simp
  ultimately show ?thesis using ascii_pages_are_read [of to_ascii_lowercase "''</p><p>a<LI''"] by blast
qed

section \<open>Pages that are not read as they should be\<close>

text \<open>
  The capital I with a dot has two bytes, its lower case three. Four of them in front of an image that is
  not closed put the tag in the lower-case text at the end of the text itself: the scan stays there.
\<close>

definition dotted_page :: string where
  "dotted_page = concat (replicate 4 [CHR 0xC4, CHR 0xB0]) @ ''<img''"

definition dotted_lower :: string where
  "dotted_lower = concat (replicate 4 [CHR 0x69, CHR 0xCC, CHR 0x87]) @ ''<img''"

lemma dotted_step:
  "find_from ''<img'' dotted_lower 12 = Some (Some 12)" "find_from ''>'' dotted_lower 12 = Some None"
  "length dotted_page = 12" "slice 12 12 dotted_page = Some []" "slice 12 12 dotted_lower = Some []"
  by code_simp+

lemma no_attribute:
  assumes "lowers_ascii lower"
  shows "extract_attr lower [] [] ''src'' = Some None" and "extract_attr lower [] [] ''alt'' = Some None"
proof -
  have "ascii ''src=\"''" "ascii ''alt=\"''" by code_simp+
  then have "lower ''src=\"'' \<noteq> []" "lower ''alt=\"'' \<noteq> []"
    using assms by (simp_all add: lowers_ascii_def to_ascii_lowercase_def)
  then show "extract_attr lower [] [] ''src'' = Some None" and "extract_attr lower [] [] ''alt'' = Some None"
    by (simp_all add: extract_attr_def found_def)
qed

lemma unclosed_image_hangs:
  assumes "lowers_ascii lower"
  shows "scan_images lower dotted_page dotted_lower 12 = None"
proof -
  have "\<not> (lowers_ascii lower \<and> html = dotted_page \<and> low = dotted_lower \<and> pos = 12)" if "scan_images lower html low pos = Some r" for lower html low pos r
  proof (rule scan_images.raw_induct [where P = "\<lambda>lower html low pos _. \<not> (lowers_ascii lower \<and> html = dotted_page \<and> low = dotted_lower \<and> pos = 12)", OF _ that])
    fix scan lower html low pos r
    assume hyp: "\<And>lower html low pos r. scan lower html low pos = Some r \<Longrightarrow> \<not> (lowers_ascii lower \<and> html = dotted_page \<and> low = dotted_lower \<and> pos = 12)"
      and body: "(case find_from ''<img'' low pos of
        None \<Rightarrow> Some None
      | Some None \<Rightarrow> Some (Some [])
      | Some (Some start) \<Rightarrow>
          (case find_from ''>'' low start of
             None \<Rightarrow> Some None
           | Some r \<Rightarrow>
               (let tag_end = (case r of None \<Rightarrow> length html | Some e \<Rightarrow> e + 1) in
                case (slice start tag_end html, slice start tag_end low) of
                  (Some tag, Some tag_lower) \<Rightarrow>
                    (case (extract_attr lower tag tag_lower ''src'', extract_attr lower tag tag_lower ''alt'') of
                       (Some src, Some alt) \<Rightarrow>
                         Option.bind (scan lower html low tag_end) (\<lambda>rest. Some (map_option (\<lambda>bs. (case src of
                                Some u \<Rightarrow> if starts_with u ''data:'' then [] else [ImageBlock u alt]
                              | None \<Rightarrow> []) @ bs) rest))
                     | _ \<Rightarrow> Some None)
                | _ \<Rightarrow> Some None))) = Some r"
    show "\<not> (lowers_ascii lower \<and> html = dotted_page \<and> low = dotted_lower \<and> pos = 12)"
    proof
      assume h: "lowers_ascii lower \<and> html = dotted_page \<and> low = dotted_lower \<and> pos = 12"
      then obtain rest where "scan lower html low 12 = Some rest"
        using body by (auto simp: dotted_step no_attribute bind_eq_Some_conv)
      from hyp [OF this] h show False by simp
    qed
  qed
  then show ?thesis using assms by (metis not_None_eq)
qed

text \<open>
  A summary that is cut to a number of bytes panics where the cut falls into a character.
\<close>

lemma summary_cuts_character: "n < length t \<Longrightarrow> \<not> is_char_boundary t n \<Longrightarrow> page_summary t n = None"
  by (auto simp: page_summary_def slice_def)

text \<open>
  The contents of elements are looked for behind the opening tag, but the scan goes on behind the
  first closing tag: a stray one makes it read the same element twice. A tag is found by its
  beginning, so that a \<open>pre\<close> counts as a paragraph. And closing tags in capitals end the scan.
\<close>

lemma stray_tag_doubles: "scan_tag to_ascii_lowercase ''</p><p>a</p>'' ''p'' False 0 = Some [''a'', ''a'']"
  by code_simp

lemma longer_tag_taken: "scan_tag to_ascii_lowercase ''<pre>a</p>'' ''p'' False 0 = Some [''a'']"
  by code_simp

lemma capitals_end_scan: "scan_tag to_ascii_lowercase ''<P>a</P><p>b</p>'' ''p'' False 0 = Some [''a'']"
  by code_simp

end
