(* ===== verification/Spec2Isabelle.thy ===== *)
theory Spec2Isabelle
  imports Kernel_Durable Receipts Approval_Queue Action_Store Run_Journal Token_Budget Agent_Run Audit_Log P2p_Sync Credentials Reminders Server_Search Skills Connectors Knowledge_Repository Repair Knowledge_Store Browser_Executor Host_Events Browser_Pages
begin

text \<open>
  \<^bold>\<open>A verification library for the Connor agent core\<close>

  The program under \<open>src/crates\<close> is the core of an agent platform. A conversation is a log of
  events; a kernel turns commands into events after checking them against the state that
  the log projects to; an action runtime lets a policy, people and an audit log decide
  about the actions that agents propose; an agent runtime takes runs through a model and a
  loop of tool calls; and stores keep all of it over restarts. This library models those
  parts and proves what they promise to each other.

  \<^bold>\<open>Conventions.\<close> A \<open>String\<close> is its list of UTF-8 bytes. A \<open>HashMap\<close> is an association list
  in insertion order, a \<open>BTreeMap\<close> one that is sorted by key; both are kept free of
  duplicates by their operations (\<open>Prelude\<close>). Where the code iterates over a \<open>HashMap\<close> and
  the order can be seen, the order is a parameter. A \<open>Result\<close> is a sum with the error on the
  left; a stateful operation is a function from a state to a result and a state
  (\<open>andThen\<close>, \<open>ret\<close>, \<open>raise\<close>), and an early return or a \<open>?\<close> is a \<open>raise\<close> that keeps the state
  reached so far. A panic is a branch of its own. A time is an integer, a duration a number
  of nanoseconds, and a clock or identifier generator is a function of the number of times
  it was asked. Unsigned integers are natural numbers; where they can overflow the bound,
  the wrap, the saturation or the panic is written out. Locks and \<open>async\<close> are left out: an
  operation is one step, and properties speak of operations that run one after the other,
  with the lock of a storage as the exception. Some operations of the code hold one lock for
  their whole body, so that concurrent calls are such a sequence. Others do not: the handlers
  of the kernel load the state and append later, the JSONL stores write after the lock of their
  memory is released, and \<open>poll_due_jobs\<close> takes the lock of its store once for each call to it.
  What two of those do at the same time is not covered; where it goes wrong the manifest has a
  finding (\<open>swapped_lines_refused\<close>, \<open>polls_from_one_list\<close>).

  \<^bold>\<open>Parameters.\<close> What is not under \<open>src\<close> is an argument: the JSON encoders and decoders of
  serde (\<open>line_codec\<close>, \<open>jsonl_codec\<close>, \<open>receipt_codec\<close>), SHA-256 and the default hasher, TOML,
  UUIDs, the clock, the model behind an adapter, the executor behind the runtime. The laws
  assumed of them are those of a round trip, each stated where it is used, and each
  property that assumes one has a witness with a concrete function. Two go further. Where a hash
  stands for what was hashed, SHA-256 is idealized to a function without collisions: on the
  texts at hand (\<open>Knowledge_Store\<close>), at the stored content (\<open>Artifact_Files\<close>) or altogether
  (\<open>hash_ideal\<close> in \<open>Audit_Log\<close>). And \<open>backend_ok\<close> in \<open>Credentials\<close> is a key chain that answers
  every call, which its trait does not promise; no property of the manifest rests on it.

  \<^bold>\<open>Theories, and the code they model.\<close>

  \<^item> \<open>Prelude\<close>, \<open>Utf8\<close>, \<open>Record_Log\<close>: results, programs, maps and their locale, byte strings,
    UTF-8 and white space; a log of records with one line each, with the locale
    \<open>record_store\<close> for the stores that replay one.
  \<^item> \<open>Core_Types\<close>: the data of \<open>conversation-core\<close>, \<open>action-core\<close>, \<open>entity-core\<close>,
    \<open>artifact-core\<close>, \<open>surface-core\<close> and \<open>asset-core\<close>. \<open>Registries\<close>: their registries, the asset
    index (\<open>asset-index\<close>) and the summaries shown to an approver (\<open>surface-core\<close>).
  \<^item> \<open>Projector\<close>, \<open>Slices\<close>: \<open>conversation-kernel/src/state.rs\<close>, \<open>projector.rs\<close>, \<open>snapshot.rs\<close>,
    \<open>slice_builder.rs\<close>. The invariant \<open>state_inv\<close> holds of every projected state.
  \<^item> \<open>Journal\<close>, \<open>Jsonl_Journal\<close>: \<open>conversation-journal\<close>. The trait is a record of operations
    with the locale \<open>event_journal\<close> as its contract; memory and the JSONL directory are providers.
    The directory of a conversation is the path that \<open>PathBuf::join\<close> makes of its id, as in the
    code: a store is a map from paths, and ids share a place where their paths are the same
    (\<open>shared_directories\<close>). What holds of one conversation by itself is therefore stated for ids
    that are plain file names (\<open>plain_conversation\<close>).
  \<^item> \<open>Commands\<close>, \<open>Kernel\<close>: \<open>commands.rs\<close> and \<open>kernel.rs\<close>, one definition per handler.
    \<open>Kernel_Runs\<close> and \<open>Kernel_Safety\<close> state once what every handler does to the history;
    \<open>Kernel_Properties\<close> and \<open>Kernel_Durable\<close> derive the properties from that.
  \<^item> \<open>Permissions\<close>: \<open>enterprise-permission-core\<close>. \<open>Policy\<close>, \<open>Receipts\<close>: \<open>capability-policy\<close>.
  \<^item> \<open>Action_Runtime\<close>: \<open>action-runtime\<close>, over any kernel, executor, resolver and audit log.
  \<^item> \<open>Run_Store\<close>, \<open>Run_Journal\<close>, \<open>Approval_Queue\<close>, \<open>Action_Store\<close>, \<open>Retry_Policy\<close>,
    \<open>Tool_Checkpoints\<close>: the files of those names in \<open>agent-runtime\<close>, the run queue with the
    run store. \<open>Tool_Loop\<close> and \<open>Agent_Run\<close>: \<open>agent-runtime/src/lib.rs\<close>.
  \<^item> \<open>Model_Types\<close>, \<open>Model_Adapter\<close>, \<open>Token_Budget\<close>: \<open>model-adapter\<close>, without its two network
    clients.
  \<^item> \<open>Audit_Log\<close>: \<open>audit-log\<close>, the hash-chained file, its verification and queries, redacted
    exports, and the mirror to an enterprise sink.
  \<^item> \<open>Sync_Runtime\<close>: \<open>sync-runtime\<close> and \<open>device-pairing-core\<close>, server events, manifests and
    their merge, transfer encryption, trust. \<open>P2p_Sync\<close>: \<open>p2p-sync-runtime\<close>, the session of two
    devices over any transport.
  \<^item> \<open>Credentials\<close>: \<open>identity-core\<close>, keys and signatures, the credential stores with the locale
    \<open>credential_provider\<close> as their contract, and OAuth tokens. \<open>Example_Codec\<close> is the text format
    that the witnesses use where the program has JSON.
  \<^item> \<open>Reminders\<close>: \<open>notification-core\<close>, \<open>scheduler\<close> and \<open>reminder-core\<close>. \<open>Skills\<close>: \<open>skill-core\<close>, the
    manifests of skills, their versions and the registry.
  \<^item> \<open>Connectors\<close>: \<open>server-account-core\<close> and \<open>connector-runtime\<close>, servers, bindings and the
    connectors to external services. \<open>Server_Search\<close>: \<open>server-search-core\<close>, search under permissions
    over the sources of the locale \<open>search_source\<close>.
  \<^item> \<open>Tables\<close>: rankings and tables with numbered names, with the locales \<open>ranking\<close> and
    \<open>numbered_table\<close>. \<open>Knowledge_Index\<close>, \<open>Knowledge_Ledger\<close>, \<open>Knowledge_Repository\<close>:
    \<open>knowledge-entity\<close>, the search indexes, the ledgers of questions, citations, governance and
    answers, and the repository with its actions.
  \<^item> \<open>File_System\<close>: directories and files as a tree, with the calls of \<open>std::fs\<close>. On it stands
    \<open>agentos-storage\<close>: \<open>Storage\<close> has its layout, manifest, lock and migrations, \<open>Artifact_Files\<close> the
    artifacts on disk, \<open>Backup\<close> export, verification and restore, \<open>Knowledge_Store\<close> the chained logs,
    the projections and the blobs of the knowledge engine, \<open>Repair\<close> the inspection of all of it.
  \<^item> \<open>browser-kernel-core\<close>: \<open>Browser_Session\<close> has the pages of a session with their limit,
    crashes and recovery; \<open>Browser_Policy\<close> the waits, prompts and security policy of a browser, and
    the gate that blocks actions while a person has taken over; \<open>Browser_Actions\<close> the inputs and
    artifacts of the actions, \<open>Browser_Executor\<close> the executor over a driver that is a parameter.
    \<open>Browser_Pages\<close>: \<open>browser-entity\<close>, the reading of HTML without a browser.
  \<^item> \<open>Host_Events\<close>: \<open>agentos-kernel/src/event_store.rs\<close>, the numbered events of the host in memory
    and on disk, with the cursors of their consumers.

  \<^bold>\<open>How the parts are put together.\<close> The kernel runs over any record of journal operations, so
  \<open>Kernel_Durable\<close> gets the kernel on disk from the kernel over memory and the contract of the
  journal, for plain ids (\<open>separating_journal\<close>). The action runtime is a program over a state with the kernel inside, so what
  holds of kernel histories holds of runtime histories (\<open>runtime_reach_kernel\<close>). The tool loop
  and the agent run are programs over a world with the runtime inside: \<open>loop_path\<close> and
  \<open>only_kernel\<close> say what they can do to it. The stores are all replays of a \<open>Record_Log\<close>, and
  their restart properties are instances of the facts of \<open>record_store\<close>.
  A synchronization session runs over any transport and rests on the merge of manifests:
  \<open>lww_replicas_converge\<close> is what a merge promises, \<open>sync_takes_the_peers_version\<close> what is left
  of it when the download comes first: the peer's version, whatever the policies say.
  The parts of a storage share one tree. A backup is exact because copying is
  (\<open>copy_entries_exact\<close>), and a restored storage is checked with the operations of the storage
  and of its artifacts. The lock is a step relation: \<open>single_writer\<close> is about the interleaved steps
  of any number of processes.
  Each credential store simulates the store in memory (\<open>simulates\<close>), so what refresh, revocation
  and offboarding do is proved once, over memory, and read off for the encrypted file.

  \<^bold>\<open>Bounds and termination.\<close> The tool loop is a \<open>function\<close> whose measure is the turns left. The
  retry loop of the model adapter has no bound in the code but that of its policy: it is a
  partial function, and \<open>retrying_terminates\<close> shows that it returns. The polling loop of the
  browser is one as well, and returns where time passes (\<open>browser_actions_return\<close>). So is the
  scan for images: it returns for pages of ASCII characters (\<open>ascii_pages_are_read\<close>) but not for
  every page (\<open>unclosed_image_hangs\<close>). No fuel is used anywhere. That a definition is a total
  function says nothing of the code where it calls what may panic or not return: the tool loop
  has an outcome of its own for a panic of the action runtime.

  \<^bold>\<open>Not modelled.\<close> Network clients (\<open>openai.rs\<close>, \<open>anthropic.rs\<close>), mail, calendar and browser
  drivers, and the servers are input and output of services outside the repository. The
  remaining crates are listed with their reasons in the manifest. Within the modelled ones,
  \<open>Display\<close> texts that no modelled code reads, \<open>Debug\<close> output, serde attributes and builders
  that set one field are left out, and so are the interleavings of two operations on the
  same store. A file system has no symbolic links, no permissions and enough space; a call
  fails only for the shape of the tree. Names of files are UTF-8, so that \<open>to_string_lossy\<close> and
  \<open>to_str\<close> change and skip none. Creating a lock file and writing it is one step, as is the
  reading and removing of one. The file of the credential store and those of the record logs
  are read and written without errors of the file system. Adding a lease time-out to a
  time does not overflow.
\<close>

end
